(* ===== verification/Atra_Prelude.thy ===== *)
theory Atra_Prelude
  imports Main "HOL-Library.Char_ord" "HOL-Library.List_Lexorder"
begin

text \<open>
  The prelude: the result type every fallible operation returns, decimal strings as
  JavaScript renders and parses them, the truncating division of \<open>bigint\<close>, and the
  generic lemmas on options, results and lists the component theories share.

  The collections: \<open>money_simps\<close> (arithmetic of the money helpers), \<open>result_simps\<close>
  (rewriting a chain of fallible steps that is known to return), \<open>digit_simps\<close>
  (decimal strings).
\<close>

named_theorems money_simps
named_theorems result_simps
named_theorems digit_simps

section \<open>Errors as values\<close>

text \<open>The error taxonomy of \<open>src/runtime/src/util/errors.ts\<close>; a thrown \<open>AppError\<close> is
  its code and its message; an exception of the language itself (the \<open>SyntaxError\<close> of a
  \<open>BigInt\<close> call) is its message.\<close>

datatype error_code =
    E_SETUP_REQUIRED | E_ALREADY_INITIALIZED | E_UNAUTHENTICATED | E_INVALID_CREDENTIALS
  | E_REAUTH_REQUIRED | E_REAUTH_INVALID | E_FORBIDDEN_ORIGIN | E_LOOPBACK_ONLY
  | E_RATE_LIMITED | E_VAULT_LOCKED | E_VAULT_NOT_FOUND | E_VAULT_ALREADY_EXISTS
  | E_VAULT_CORRUPT | E_SCHEMA_INVALID | E_NOT_FOUND | E_CONFLICT | E_MODE_PAPER_ONLY
  | E_LIVE_ACTIVATION_INCOMPLETE | E_ADAPTER_UNAVAILABLE | E_CHAIN_UNSUPPORTED
  | E_UPSTREAM_UNAVAILABLE | E_UPSTREAM_TIMEOUT | E_DATA_STALE | E_TELEGRAM_ALREADY_PAIRED
  | E_INTERNAL

datatype app_error = AppError error_code string | JsError string

type_synonym 'a result = "app_error + 'a"

text \<open>The HTTP status an \<open>AppError\<close> carries when the thrower names none.\<close>

fun defaultStatusFor :: "error_code \<Rightarrow> int" where
  "defaultStatusFor E_SETUP_REQUIRED = 401"
| "defaultStatusFor E_UNAUTHENTICATED = 401"
| "defaultStatusFor E_INVALID_CREDENTIALS = 401"
| "defaultStatusFor E_VAULT_LOCKED = 401"
| "defaultStatusFor E_REAUTH_REQUIRED = 403"
| "defaultStatusFor E_REAUTH_INVALID = 403"
| "defaultStatusFor E_FORBIDDEN_ORIGIN = 403"
| "defaultStatusFor E_LOOPBACK_ONLY = 403"
| "defaultStatusFor E_MODE_PAPER_ONLY = 403"
| "defaultStatusFor E_LIVE_ACTIVATION_INCOMPLETE = 403"
| "defaultStatusFor E_NOT_FOUND = 404"
| "defaultStatusFor E_VAULT_NOT_FOUND = 404"
| "defaultStatusFor E_CONFLICT = 409"
| "defaultStatusFor E_ALREADY_INITIALIZED = 409"
| "defaultStatusFor E_VAULT_ALREADY_EXISTS = 409"
| "defaultStatusFor E_TELEGRAM_ALREADY_PAIRED = 409"
| "defaultStatusFor E_SCHEMA_INVALID = 422"
| "defaultStatusFor E_RATE_LIMITED = 429"
| "defaultStatusFor E_UPSTREAM_UNAVAILABLE = 503"
| "defaultStatusFor E_ADAPTER_UNAVAILABLE = 503"
| "defaultStatusFor E_CHAIN_UNSUPPORTED = 503"
| "defaultStatusFor E_UPSTREAM_TIMEOUT = 504"
| "defaultStatusFor E_DATA_STALE = 500"
| "defaultStatusFor E_VAULT_CORRUPT = 500"
| "defaultStatusFor E_INTERNAL = 500"

text \<open>A fallible step followed by another: the second runs only when the first returned.\<close>

definition sbind :: "'e + 'a \<Rightarrow> ('a \<Rightarrow> 'e + 'b) \<Rightarrow> 'e + 'b" where
  "sbind m f = (case m of Inl e \<Rightarrow> Inl e | Inr a \<Rightarrow> f a)"

lemma sbind_Inl [simp, code]: "sbind (Inl e) f = Inl e"
  and sbind_Inr [simp, code]: "sbind (Inr a) f = f a"
  by (simp_all add: sbind_def)

lemma sbind_eq_Inr [result_simps]: "sbind m f = Inr b \<longleftrightarrow> (\<exists>a. m = Inr a \<and> f a = Inr b)"
  by (cases m) auto

lemma sbind_eq_Inl: "sbind m f = Inl e \<longleftrightarrow> m = Inl e \<or> (\<exists>a. m = Inr a \<and> f a = Inl e)"
  by (cases m) auto

lemma sbind_assoc: "sbind (sbind m f) g = sbind m (\<lambda>a. sbind (f a) g)"
  by (cases m) auto

lemma sbind_cong [fundef_cong]:
  "m = m' \<Longrightarrow> (\<And>a. m' = Inr a \<Longrightarrow> f a = f' a) \<Longrightarrow> sbind m f = sbind m' f'"
  by (cases m') auto

text \<open>\<open>throws\<close> and \<open>returns\<close> of a result.\<close>

definition returns :: "'e + 'a \<Rightarrow> bool" where
  "returns m \<longleftrightarrow> (\<exists>a. m = Inr a)"

lemma returns_Inr [simp]: "returns (Inr a)"
  and returns_Inl [simp]: "\<not> returns (Inl e)"
  by (auto simp: returns_def)

lemma returns_code [code]: "returns m \<longleftrightarrow> (case m of Inl _ \<Rightarrow> False | Inr _ \<Rightarrow> True)"
  by (cases m) simp_all

lemma returns_sbind: "returns (sbind m f) \<longleftrightarrow> returns m \<and> (\<forall>a. m = Inr a \<longrightarrow> returns (f a))"
  by (cases m) auto

lemma returns_sbindI:
  "returns m \<Longrightarrow> (\<And>a. m = Inr a \<Longrightarrow> returns (f a)) \<Longrightarrow> returns (sbind m f)"
  by (simp add: returns_sbind)

lemma returnsE: "returns m \<Longrightarrow> (\<And>a. m = Inr a \<Longrightarrow> P) \<Longrightarrow> P"
  by (auto simp: returns_def)

text \<open>A fallible function mapped over an optional argument and over a list.\<close>

fun opt_result :: "('a \<Rightarrow> 'e + 'b) \<Rightarrow> 'a option \<Rightarrow> 'e + 'b option" where
  "opt_result f None = Inr None"
| "opt_result f (Some a) = sbind (f a) (\<lambda>b. Inr (Some b))"

fun map_result :: "('a \<Rightarrow> 'e + 'b) \<Rightarrow> 'a list \<Rightarrow> 'e + 'b list" where
  "map_result f [] = Inr []"
| "map_result f (x # xs) = sbind (f x) (\<lambda>y. sbind (map_result f xs) (\<lambda>ys. Inr (y # ys)))"

lemma returns_opt_result: "returns (opt_result f a) \<longleftrightarrow> (\<forall>x. a = Some x \<longrightarrow> returns (f x))"
  by (cases a) (auto simp: returns_sbind)

lemma opt_result_Inr_None [simp]: "opt_result f a = Inr None \<longleftrightarrow> a = None"
  by (cases a) (auto simp: sbind_eq_Inr)

lemma opt_result_Inr_Some:
  "opt_result f a = Inr (Some b) \<longleftrightarrow> (\<exists>x. a = Some x \<and> f x = Inr b)"
  by (cases a) (auto simp: sbind_eq_Inr)

lemma returns_map_result: "returns (map_result f xs) \<longleftrightarrow> (\<forall>x \<in> set xs. returns (f x))"
proof (induction xs)
  case (Cons x xs)
  then show ?case
    by (cases "f x") (auto simp: returns_sbind)
qed simp

lemma map_result_Inr: "map_result f xs = Inr ys \<Longrightarrow> length ys = length xs \<and>
    (\<forall>i < length xs. f (xs ! i) = Inr (ys ! i))"
proof (induction xs arbitrary: ys)
  case (Cons x xs)
  then obtain y zs where "f x = Inr y" "map_result f xs = Inr zs" "ys = y # zs"
    by (auto simp: sbind_eq_Inr)
  with Cons.IH [of zs] show ?case by (auto simp: nth_Cons split: nat.splits)
qed simp

section \<open>Division of \<open>bigint\<close>\<close>

text \<open>JavaScript's \<open>/\<close> and \<open>%\<close> on \<open>bigint\<close> truncate towards zero; every use in the
  source divides by a value that is not zero.\<close>

definition bdiv :: "int \<Rightarrow> int \<Rightarrow> int" where
  "bdiv a b = (if (0 \<le> a) = (0 \<le> b) then \<bar>a\<bar> div \<bar>b\<bar> else - (\<bar>a\<bar> div \<bar>b\<bar>))"

definition bmod :: "int \<Rightarrow> int \<Rightarrow> int" where
  "bmod a b = a - b * bdiv a b"

lemma bdiv_nonneg [money_simps]: "0 \<le> a \<Longrightarrow> 0 \<le> b \<Longrightarrow> bdiv a b = a div b"
  by (simp add: bdiv_def)

lemma bdiv_neg: "a < 0 \<Longrightarrow> 0 \<le> b \<Longrightarrow> bdiv a b = - ((- a) div b)"
  by (simp add: bdiv_def)

lemma bmod_nonneg [money_simps]: "0 \<le> a \<Longrightarrow> 0 \<le> b \<Longrightarrow> bmod a b = a mod b"
  by (simp add: bmod_def bdiv_nonneg minus_mult_div_eq_mod)

lemma bmod_neg: "a < 0 \<Longrightarrow> 0 \<le> b \<Longrightarrow> bmod a b = - ((- a) mod b)"
  by (simp add: bmod_def bdiv_neg minus_mult_div_eq_mod [symmetric] algebra_simps)

lemma bmod_eq_0_iff: "0 < b \<Longrightarrow> bmod a b = 0 \<longleftrightarrow> b dvd a"
proof (cases "0 \<le> a")
  case False
  assume b: "0 < b"
  with False have "bmod a b = - ((- a) mod b)" by (simp add: bmod_neg)
  then show ?thesis by (metis dvd_minus_iff mod_eq_0_iff_dvd neg_equal_0_iff_equal)
qed (simp add: bmod_nonneg mod_eq_0_iff_dvd)

section \<open>Decimal strings\<close>

definition is_digit :: "char \<Rightarrow> bool" where
  "is_digit c \<longleftrightarrow> 48 \<le> (of_char c :: nat) \<and> (of_char c :: nat) \<le> 57"

definition digit_char :: "nat \<Rightarrow> char" where
  "digit_char n = char_of (48 + n)"

definition digit_val :: "char \<Rightarrow> nat" where
  "digit_val c = of_char c - 48"

lemma of_char_digit_char: "n < 10 \<Longrightarrow> of_char (digit_char n) = 48 + n"
  by (simp add: digit_char_def)

lemma is_digit_digit_char [simp]: "n < 10 \<Longrightarrow> is_digit (digit_char n)"
  by (simp add: is_digit_def of_char_digit_char)

lemma digit_val_digit_char [simp]: "n < 10 \<Longrightarrow> digit_val (digit_char n) = n"
  by (simp add: digit_val_def of_char_digit_char)

lemma digit_val_lt: "is_digit c \<Longrightarrow> digit_val c < 10"
  by (auto simp: is_digit_def digit_val_def)

lemma digit_char_digit_val [simp]: "is_digit c \<Longrightarrow> digit_char (digit_val c) = c"
  by (simp add: is_digit_def digit_val_def digit_char_def)

lemma not_digit_marks [simp]: "\<not> is_digit CHR ''.''" "\<not> is_digit CHR ''-''"
  by (simp_all add: is_digit_def)

lemma is_digit_zero [simp]: "is_digit CHR ''0''" "digit_val CHR ''0'' = 0"
  by (simp_all add: is_digit_def digit_val_def)

lemma digit_char_0: "digit_char 0 = CHR ''0''"
  by code_simp

lemma digit_char_eq_zero: "n < 10 \<Longrightarrow> digit_char n = CHR ''0'' \<longleftrightarrow> n = 0"
  by (metis digit_char_0 digit_val_digit_char is_digit_zero(2))

text \<open>The value of a string of digits, as \<open>BigInt(s)\<close> reads it, and the decimal rendering
  of a natural number, as \<open>toString()\<close> writes it.\<close>

definition digits_val :: "string \<Rightarrow> nat" where
  "digits_val s = foldl (\<lambda>a c. 10 * a + digit_val c) 0 s"

fun nat_str :: "nat \<Rightarrow> string" where
  "nat_str n = (if n < 10 then [digit_char n] else nat_str (n div 10) @ [digit_char (n mod 10)])"

declare nat_str.simps [simp del]

definition int_str :: "int \<Rightarrow> string" where
  "int_str i = (if i < 0 then CHR ''-'' # nat_str (nat (- i)) else nat_str (nat i))"

lemma digits_val_Nil [simp]: "digits_val [] = 0"
  and digits_val_snoc [simp]: "digits_val (s @ [c]) = 10 * digits_val s + digit_val c"
  by (simp_all add: digits_val_def)

lemma digits_val_append: "digits_val (s @ t) = digits_val s * 10 ^ length t + digits_val t"
  by (induction t rule: rev_induct) (simp_all add: algebra_simps flip: append_assoc)

lemma digits_val_lt: "list_all is_digit s \<Longrightarrow> digits_val s < 10 ^ length s"
proof (induction s rule: rev_induct)
  case (snoc c s)
  then have "digits_val s + 1 \<le> 10 ^ length s" "digit_val c < 10"
    by (simp_all add: digit_val_lt)
  then show ?case by simp
qed simp

lemma digits_val_zeros [simp]: "digits_val (replicate n CHR ''0'') = 0"
proof (induction n)
  case (Suc n)
  have "replicate (Suc n) CHR ''0'' = replicate n CHR ''0'' @ [CHR ''0'']"
    by (simp add: replicate_append_same)
  with Suc show ?case by (simp del: replicate.simps)
qed simp

lemma nat_str_digits [simp]: "list_all is_digit (nat_str n)"
  by (induction n rule: nat_str.induct) (subst nat_str.simps, simp)

lemma digits_val_nat_str [simp]: "digits_val (nat_str n) = n"
proof (induction n rule: nat_str.induct)
  case (1 n)
  show ?case
  proof (cases "n < 10")
    case True
    then show ?thesis by (simp add: nat_str.simps [of n] digits_val_def)
  next
    case False
    with 1 show ?thesis by (simp add: nat_str.simps [of n])
  qed
qed

lemma nat_str_nonempty [simp]: "nat_str n \<noteq> []"
  by (subst nat_str.simps) simp

lemma length_nat_str_le: "0 < k \<Longrightarrow> n < 10 ^ k \<Longrightarrow> length (nat_str n) \<le> k"
proof (induction n arbitrary: k rule: nat_str.induct)
  case (1 n)
  show ?case
  proof (cases "n < 10")
    case True
    with 1 show ?thesis by (simp add: nat_str.simps [of n])
  next
    case False
    with 1(3) obtain j where k: "k = Suc j" "0 < j"
      by (cases k; cases "k - 1") auto
    with 1(3) have "n div 10 < 10 ^ j" by (simp add: less_mult_imp_div_less mult.commute)
    with 1(1) [OF False k(2)] False k show ?thesis by (simp add: nat_str.simps [of n])
  qed
qed

lemma hd_nat_str: "n \<noteq> 0 \<Longrightarrow> hd (nat_str n) \<noteq> CHR ''0''"
proof (induction n rule: nat_str.induct)
  case (1 n)
  then show ?case
    by (cases "n < 10") (simp_all add: nat_str.simps [of n] digit_char_eq_zero)
qed

lemma nat_str_inj: "nat_str m = nat_str n \<longleftrightarrow> m = n"
  by (metis digits_val_nat_str)

text \<open>The pattern \<open>(0|[1-9]\d*)\<close>: an integer with no leading zero.\<close>

definition canon_int :: "string \<Rightarrow> bool" where
  "canon_int s \<longleftrightarrow> s \<noteq> [] \<and> list_all is_digit s \<and> (hd s \<noteq> CHR ''0'' \<or> length s = 1)"

lemma canon_int_nat_str [simp]: "canon_int (nat_str n)"
proof (cases "n = 0")
  case True
  then show ?thesis by (simp add: canon_int_def nat_str.simps [of 0])
qed (simp add: canon_int_def hd_nat_str)

text \<open>\<open>BigInt(s)\<close> of a string: surrounding white space is ignored, nothing is zero, a decimal
  integer may carry a sign, and the three radix prefixes are read; anything else is a
  \<open>SyntaxError\<close>.\<close>

definition js_space :: "char \<Rightarrow> bool" where
  "js_space c \<longleftrightarrow> (let n = (of_char c :: int) in (9 \<le> n \<and> n \<le> 13) \<or> n = 32 \<or> n = 160)"

definition js_trim :: "string \<Rightarrow> string" where
  "js_trim s = rev (dropWhile js_space (rev (dropWhile js_space s)))"

definition radix_digit :: "int \<Rightarrow> char \<Rightarrow> int option" where
  "radix_digit b c = (let n = (of_char c :: int);
     v = (if 48 \<le> n \<and> n \<le> 57 then n - 48 else if 97 \<le> n \<and> n \<le> 102 then n - 87
          else if 65 \<le> n \<and> n \<le> 70 then n - 55 else 99)
   in if v < b then Some v else None)"

fun radix_val :: "int \<Rightarrow> int \<Rightarrow> string \<Rightarrow> int option" where
  "radix_val b acc [] = Some acc"
| "radix_val b acc (c # cs) = (case radix_digit b c of None \<Rightarrow> None
     | Some v \<Rightarrow> radix_val b (b * acc + v) cs)"

definition js_integer :: "string \<Rightarrow> int option" where
  "js_integer t = (case t of
     [] \<Rightarrow> Some 0
   | c # r \<Rightarrow>
      (let prefix = take 2 t; body = drop 2 t in
       if prefix = ''0x'' \<or> prefix = ''0X'' then (if body = [] then None else radix_val 16 0 body)
       else if prefix = ''0o'' \<or> prefix = ''0O'' then (if body = [] then None else radix_val 8 0 body)
       else if prefix = ''0b'' \<or> prefix = ''0B'' then (if body = [] then None else radix_val 2 0 body)
       else if c = CHR ''-'' then (if r \<noteq> [] \<and> list_all is_digit r then Some (- int (digits_val r)) else None)
       else if c = CHR ''+'' then (if r \<noteq> [] \<and> list_all is_digit r then Some (int (digits_val r)) else None)
       else if list_all is_digit t then Some (int (digits_val t)) else None))"

definition js_BigInt :: "string \<Rightarrow> int result" where
  "js_BigInt s = (case js_integer (js_trim s) of
     None \<Rightarrow> Inl (JsError (''SyntaxError: Cannot convert '' @ s @ '' to a BigInt''))
   | Some n \<Rightarrow> Inr n)"

lemma is_digit_int: "is_digit c \<longleftrightarrow> 48 \<le> (of_char c :: int) \<and> (of_char c :: int) \<le> 57"
proof -
  have "(of_char c :: int) = int (of_char c)" by (simp only: of_nat_of_char)
  then show ?thesis unfolding is_digit_def by linarith
qed

lemma digit_not_space: "is_digit c \<Longrightarrow> \<not> js_space c"
  by (auto simp: is_digit_int js_space_def Let_def)

lemma js_trim_digits: "list_all is_digit s \<Longrightarrow> js_trim s = s"
proof -
  assume "list_all is_digit s"
  then have "\<forall>c \<in> set s. \<not> js_space c" by (auto simp: list_all_iff digit_not_space)
  then have "dropWhile js_space s = s" "dropWhile js_space (rev s) = rev s"
    by (auto simp: dropWhile_eq_self_iff hd_rev dest: hd_in_set last_in_set)
  then show ?thesis by (simp add: js_trim_def)
qed

lemma js_BigInt_digits: "list_all is_digit s \<Longrightarrow> js_BigInt s = Inr (int (digits_val s))"
proof -
  assume d: "list_all is_digit s"
  have letters: "\<not> is_digit CHR ''x''" "\<not> is_digit CHR ''X''" "\<not> is_digit CHR ''o''"
    "\<not> is_digit CHR ''O''" "\<not> is_digit CHR ''b''" "\<not> is_digit CHR ''B''"
    "\<not> is_digit CHR ''-''" "\<not> is_digit CHR ''+''"
    by (simp_all add: is_digit_def)
  have pre: "take 2 s \<noteq> [CHR ''0'', x]" if "\<not> is_digit x" for x
  proof
    assume "take 2 s = [CHR ''0'', x]"
    then have "x \<in> set s" by (metis in_set_takeD list.set_intros(1) list.set_intros(2))
    with d that show False by (auto simp: list_all_iff)
  qed
  note pres = letters(1-6) [THEN pre]
  have "js_integer s = Some (int (digits_val s))"
  proof (cases s)
    case Nil
    then show ?thesis by (simp add: js_integer_def)
  next
    case (Cons c r)
    have c: "c \<noteq> CHR ''-''" "c \<noteq> CHR ''+''" using d Cons letters(7,8) by auto
    show ?thesis
      using pres c d unfolding js_integer_def Let_def Cons
      by (simp only: list.case if_False simp_thms if_True)
  qed
  then show ?thesis by (simp add: js_BigInt_def js_trim_digits [OF d])
qed

text \<open>\<open>padEnd\<close> and \<open>padStart\<close>.\<close>

definition padEnd :: "nat \<Rightarrow> char \<Rightarrow> string \<Rightarrow> string" where
  "padEnd n c s = s @ replicate (n - length s) c"

definition padStart :: "nat \<Rightarrow> char \<Rightarrow> string \<Rightarrow> string" where
  "padStart n c s = replicate (n - length s) c @ s"

lemma length_padStart [simp]: "length (padStart n c s) = max n (length s)"
  by (simp add: padStart_def)

lemma digits_val_padStart [simp]: "digits_val (padStart n CHR ''0'' s) = digits_val s"
  by (simp add: padStart_def digits_val_append)

lemma padStart_digits: "list_all is_digit s \<Longrightarrow> list_all is_digit (padStart n CHR ''0'' s)"
  by (auto simp: padStart_def list_all_iff)

lemma digits_val_padEnd:
  "length s \<le> n \<Longrightarrow> digits_val (padEnd n CHR ''0'' s) = digits_val s * 10 ^ (n - length s)"
  by (simp add: padEnd_def digits_val_append)

text \<open>The longest prefix of digits and what follows it.\<close>

definition span_digits :: "string \<Rightarrow> string \<times> string" where
  "span_digits s = (takeWhile is_digit s, dropWhile is_digit s)"

lemma span_digits_append:
  "list_all is_digit s \<Longrightarrow> (t = [] \<or> \<not> is_digit (hd t)) \<Longrightarrow> span_digits (s @ t) = (s, t)"
  by (cases t) (auto simp: span_digits_def list_all_iff takeWhile_append dropWhile_append)

lemma span_digits_eq: "span_digits s = (a, b) \<Longrightarrow> s = a @ b \<and> list_all is_digit a"
  by (auto simp: span_digits_def list_all_iff dest: set_takeWhileD)

section \<open>Evaluation\<close>

text \<open>Code equations over \<open>int\<close>, whose numerals are binary; the code generator's natural
  numbers are unary.\<close>

lemma of_char_int: "(of_char c :: int) = int (of_char c)"
  by (simp only: of_nat_of_char)

lemmas [code] = is_digit_int

definition digits_int :: "string \<Rightarrow> int" where
  "digits_int s = foldl (\<lambda>a c. 10 * a + max 0 (of_char c - 48)) 0 s"

lemma digits_int [code_unfold]: "int (digits_val s) = digits_int s"
proof -
  have d: "int (digit_val c) = max 0 (of_char c - 48)" for c
    unfolding of_char_int digit_val_def by linarith
  have "int (foldl (\<lambda>a c. 10 * a + digit_val c) n s) =
      foldl (\<lambda>a c. 10 * a + max 0 (of_char c - 48)) (int n) s" for n
    by (induction s arbitrary: n) (simp_all flip: d)
  from this [of 0] show ?thesis by (simp add: digits_val_def digits_int_def)
qed

lemma digits_val_code [code]: "digits_val s = nat (digits_int s)"
  by (simp flip: digits_int)

function pos_str :: "int \<Rightarrow> string" where
  "pos_str i = (if i < 10 then [digit_char (nat i)]
     else pos_str (i div 10) @ [digit_char (nat (i mod 10))])"
  by pat_completeness auto
termination by (relation "measure nat") auto

declare pos_str.simps [simp del]

lemma pos_str: "0 \<le> i \<Longrightarrow> pos_str i = nat_str (nat i)"
proof (induction i rule: pos_str.induct)
  case (1 i)
  show ?case
  proof (cases "i < 10")
    case True
    with 1(2) have "nat i < 10" by linarith
    with True show ?thesis by (simp add: pos_str.simps [of i] nat_str.simps [of "nat i"])
  next
    case False
    then have "\<not> nat i < 10" by linarith
    with False 1 show ?thesis
      by (simp add: pos_str.simps [of i] nat_str.simps [of "nat i"] nat_div_distrib nat_mod_distrib)
  qed
qed

lemma int_str_code [code]: "int_str i = (if i < 0 then CHR ''-'' # pos_str (- i) else pos_str i)"
  by (simp add: int_str_def pos_str)

section \<open>Text\<close>

text \<open>\<open>Array.prototype.join\<close>.\<close>

fun join_with :: "string \<Rightarrow> string list \<Rightarrow> string" where
  "join_with sep [] = []"
| "join_with sep [x] = x"
| "join_with sep (x # y # xs) = x @ sep @ join_with sep (y # xs)"

text \<open>\<open>toLowerCase\<close> on the ASCII letters, which are all an address can hold.\<close>

definition lower_char :: "char \<Rightarrow> char" where
  "lower_char c = (if 65 \<le> (of_char c :: nat) \<and> (of_char c :: nat) \<le> 90
     then char_of ((of_char c :: nat) + 32) else c)"

definition toLowerCase :: "string \<Rightarrow> string" where
  "toLowerCase s = map lower_char s"

lemma lower_char_idem [simp]: "lower_char (lower_char c) = lower_char c"
  by (simp add: lower_char_def)

lemma toLowerCase_idem [simp]: "toLowerCase (toLowerCase s) = toLowerCase s"
  by (simp add: toLowerCase_def comp_def)

text \<open>\<open>String(b)\<close> of a boolean.\<close>

definition bool_str :: "bool \<Rightarrow> string" where
  "bool_str b = (if b then ''true'' else ''false'')"

section \<open>Lists and options\<close>

text \<open>\<open>Array.prototype.find\<close> is the library's \<open>List.find\<close>; what a search that found
  nothing says of every element.\<close>

lemma find_None_iff_all: "List.find P xs = None \<longleftrightarrow> (\<forall>x \<in> set xs. \<not> P x)"
  by (auto simp: find_None_iff)

lemma find_append: "List.find P (xs @ ys) =
    (case List.find P xs of None \<Rightarrow> List.find P ys | Some x \<Rightarrow> Some x)"
  by (induction xs) auto

lemma find_SomeD: "List.find P xs = Some x \<Longrightarrow> x \<in> set xs \<and> P x"
  by (auto simp: find_Some_iff)

text \<open>The own-property lookup of an object kept as an association list.\<close>

abbreviation lookup :: "('k \<times> 'v) list \<Rightarrow> 'k \<Rightarrow> 'v option" where
  "lookup xs k \<equiv> map_of xs k"

end
