(* ===== verification/Money.thy ===== *)
theory Money
  imports Atra_Prelude
begin

text \<open>
  \<open>src/runtime/src/risk/money.ts\<close>: the fixed-scale money arithmetic every other
  component calls. USD is micro-USD, a price is atto-USD, an amount is base units; all are
  \<open>int\<close>, as \<open>bigint\<close> is unbounded. The strict parsers are total functions into
  \<open>result\<close>; a \<open>MoneyFormatError\<close> is an \<open>AppError\<close> with the code SCHEMA_INVALID.

  Shown: the accepted strings are exactly the three regular expressions, rendering and
  parsing USD are inverse, the two divisions are the ceiling and the floor, a value rounded
  up and the same value rounded down bracket the exact one within a micro-dollar, and the
  bounds of slippage and basis-point arithmetic.
\<close>

section \<open>Scales\<close>

definition USD_SCALE :: int where "USD_SCALE = 1000000"
definition PRICE_SCALE :: int where "PRICE_SCALE = 1000000000000000000"
definition BPS_DENOM :: int where "BPS_DENOM = 10000"

lemma scale_pos [simp]: "0 < USD_SCALE" "0 < PRICE_SCALE" "0 < BPS_DENOM"
    "0 \<le> USD_SCALE" "0 \<le> PRICE_SCALE" "0 \<le> BPS_DENOM"
  by (simp_all add: USD_SCALE_def PRICE_SCALE_def BPS_DENOM_def)

section \<open>Errors\<close>

definition MoneyFormatError :: "string \<Rightarrow> app_error" where
  "MoneyFormatError m = AppError E_SCHEMA_INVALID m"

text \<open>\<open>JSON.stringify\<close> of a string, as the error messages quote it.\<close>

definition hex_digit :: "nat \<Rightarrow> char" where
  "hex_digit n = (if n < 10 then char_of (48 + n) else char_of (87 + n))"

definition json_escape :: "char \<Rightarrow> string" where
  "json_escape c = (let n = (of_char c :: nat) in
     if n = 34 \<or> n = 92 then [char_of (92::nat), c]
     else if n = 8 then [char_of (92::nat), CHR ''b'']
     else if n = 9 then [char_of (92::nat), CHR ''t'']
     else if n = 10 then [char_of (92::nat), CHR ''n'']
     else if n = 12 then [char_of (92::nat), CHR ''f'']
     else if n = 13 then [char_of (92::nat), CHR ''r'']
     else if n < 32 then char_of (92::nat) # ''u00'' @ [hex_digit (n div 16), hex_digit (n mod 16)]
     else [c])"

definition json_quote :: "string \<Rightarrow> string" where
  "json_quote s = char_of (34::nat) # concat (map json_escape s) @ [char_of (34::nat)]"

section \<open>Parsing and rendering\<close>

text \<open>The group structure of \<open>USD_RE\<close> and \<open>PRICE_RE\<close>: a canonical integer, then
  at most \<open>maxfrac\<close> fractional digits after a point.\<close>

definition decimal_match :: "nat \<Rightarrow> string \<Rightarrow> (string \<times> string) option" where
  "decimal_match maxfrac s = (case span_digits s of (i, rest) \<Rightarrow>
     if \<not> canon_int i then None
     else case rest of
       [] \<Rightarrow> Some (i, [])
     | c # f \<Rightarrow>
         if c = CHR ''.'' \<and> f \<noteq> [] \<and> list_all is_digit f \<and> length f \<le> maxfrac
         then Some (i, f) else None)"

fun usd_match :: "string \<Rightarrow> (bool \<times> string \<times> string) option" where
  "usd_match [] = None"
| "usd_match (c # s) =
     (if c = CHR ''-'' then map_option (\<lambda>(i, f). (True, i, f)) (decimal_match 6 s)
      else map_option (\<lambda>(i, f). (False, i, f)) (decimal_match 6 (c # s)))"

definition usdToMicros :: "string \<Rightarrow> int result" where
  "usdToMicros value = (case usd_match value of
     None \<Rightarrow> Inl (MoneyFormatError (''Malformed USD value: '' @ json_quote value))
   | Some (neg, integer, fraction) \<Rightarrow>
       let micros = int (digits_val integer) * USD_SCALE + int (digits_val (padEnd 6 CHR ''0'' fraction))
       in Inr (if neg then - micros else micros))"

definition microsToUsd :: "int \<Rightarrow> string" where
  "microsToUsd micros = (let
     negative = micros < 0;
     absolute = (if negative then - micros else micros);
     integer = bdiv absolute USD_SCALE;
     fraction = padStart 6 CHR ''0'' (int_str (bmod absolute USD_SCALE))
   in (if negative then ''-'' else []) @ int_str integer @ ''.'' @ fraction)"

definition priceToAtto :: "string \<Rightarrow> int result" where
  "priceToAtto value = (case decimal_match 18 value of
     None \<Rightarrow> Inl (MoneyFormatError (''Malformed price: '' @ json_quote value))
   | Some (integer, fraction) \<Rightarrow>
       Inr (int (digits_val integer) * PRICE_SCALE + int (digits_val (padEnd 18 CHR ''0'' fraction))))"

definition amountToBigint :: "string \<Rightarrow> int result" where
  "amountToBigint value =
     (if \<not> canon_int value then Inl (MoneyFormatError (''Malformed amount: '' @ json_quote value))
      else Inr (int (digits_val value)))"

section \<open>Division and valuation\<close>

definition ceilDiv :: "int \<Rightarrow> int \<Rightarrow> int result" where
  "ceilDiv a b =
     (if b \<le> 0 then Inl (MoneyFormatError ''Division by a non-positive denominator'')
      else if a \<le> 0 then Inr (bdiv a b)
      else Inr (bdiv (a + b - 1) b))"

definition floorDiv :: "int \<Rightarrow> int \<Rightarrow> int result" where
  "floorDiv a b =
     (if b \<le> 0 then Inl (MoneyFormatError ''Division by a non-positive denominator'')
      else Inr (bdiv a b))"

datatype rounding = RCeil | RFloor

definition nativeToUsdMicros :: "int \<Rightarrow> int \<Rightarrow> int \<Rightarrow> rounding \<Rightarrow> int result" where
  "nativeToUsdMicros amount decimals priceAtto r =
     (if decimals < 0 \<or> decimals > 36
      then Inl (MoneyFormatError (''Unsupported token decimals: '' @ int_str decimals))
      else if priceAtto \<le> 0
      then Inl (MoneyFormatError ''Cannot value an amount at a non-positive price'')
      else let numerator = amount * priceAtto;
               denominator = 10 ^ nat decimals * bdiv PRICE_SCALE USD_SCALE
           in case r of RCeil \<Rightarrow> ceilDiv numerator denominator
                      | RFloor \<Rightarrow> floorDiv numerator denominator)"

definition impliedSlippageBps :: "int \<Rightarrow> int \<Rightarrow> int result" where
  "impliedSlippageBps expectedOut minOut =
     (if expectedOut \<le> 0 then Inl (MoneyFormatError ''Quote has a non-positive expected output'')
      else if minOut < 0 then Inl (MoneyFormatError ''Quote has a negative minimum output'')
      else if minOut > expectedOut then Inl (MoneyFormatError ''Quote minimum exceeds expected output'')
      else ceilDiv ((expectedOut - minOut) * BPS_DENOM) expectedOut)"

definition bpsOf :: "int \<Rightarrow> int \<Rightarrow> int result" where
  "bpsOf value bps =
     (if bps < 0 \<or> bps > 10000
      then Inl (MoneyFormatError (''Basis points out of range: '' @ int_str bps))
      else ceilDiv (value * bps) BPS_DENOM)"

definition maxBigint :: "int \<Rightarrow> int \<Rightarrow> int" where
  "maxBigint a b = (if a > b then a else b)"

lemma maxBigint_max [money_simps]: "maxBigint a b = max a b"
  by (simp add: maxBigint_def)

section \<open>The accepted strings\<close>

lemma decimal_match_Some:
  "decimal_match n s = Some (i, f) \<longleftrightarrow>
     canon_int i \<and> list_all is_digit f \<and> length f \<le> n \<and> s = i @ (if f = [] then [] else ''.'' @ f)"
proof
  assume "decimal_match n s = Some (i, f)"
  then show "canon_int i \<and> list_all is_digit f \<and> length f \<le> n \<and> s = i @ (if f = [] then [] else ''.'' @ f)"
    by (auto simp: decimal_match_def split: prod.splits if_splits list.splits dest!: span_digits_eq)
next
  assume r: "canon_int i \<and> list_all is_digit f \<and> length f \<le> n \<and> s = i @ (if f = [] then [] else ''.'' @ f)"
  then have "span_digits s = (i, if f = [] then [] else ''.'' @ f)"
    using span_digits_append [of i "if f = [] then [] else ''.'' @ f"] by (simp add: canon_int_def)
  with r show "decimal_match n s = Some (i, f)"
    by (auto simp: decimal_match_def)
qed

lemma canon_int_not_minus: "canon_int i \<Longrightarrow> \<exists>c r. i = c # r \<and> c \<noteq> CHR ''-''"
  by (cases i) (auto simp: canon_int_def)

lemma usd_match_Some:
  "usd_match s = Some (neg, i, f) \<longleftrightarrow>
     canon_int i \<and> list_all is_digit f \<and> length f \<le> 6 \<and>
     s = (if neg then ''-'' else []) @ i @ (if f = [] then [] else ''.'' @ f)"
proof (cases s)
  case Nil
  then show ?thesis by (auto simp: canon_int_def)
next
  case (Cons c t)
  show ?thesis
    using canon_int_not_minus [of i]
    by (cases neg; cases "c = CHR ''-''") (auto simp: Cons decimal_match_Some)
qed

lemma usdToMicros_returns: "returns (usdToMicros s) \<longleftrightarrow> usd_match s \<noteq> None"
  by (auto simp: usdToMicros_def Let_def split: option.splits)

lemma priceToAtto_nonneg: "priceToAtto s = Inr p \<Longrightarrow> 0 \<le> p"
  by (auto simp: priceToAtto_def PRICE_SCALE_def split: option.splits)

lemma amountToBigint_Inr: "amountToBigint s = Inr a \<longleftrightarrow> canon_int s \<and> a = int (digits_val s)"
  by (auto simp: amountToBigint_def)

lemma amountToBigint_nonneg: "amountToBigint s = Inr a \<Longrightarrow> 0 \<le> a"
  by (simp add: amountToBigint_Inr)

lemma int_str_nonneg: "0 \<le> i \<Longrightarrow> int_str i = nat_str (nat i)"
  by (simp add: int_str_def)

lemma amountToBigint_int_str [simp]: "0 \<le> a \<Longrightarrow> amountToBigint (int_str a) = Inr a"
  by (simp add: amountToBigint_def int_str_nonneg)

lemma returns_amountToBigint: "returns (amountToBigint s) \<longleftrightarrow> canon_int s"
  by (simp add: amountToBigint_def)

text \<open>The number an amount string denotes, and the strings the USD reader accepts.\<close>

definition amount_val :: "string \<Rightarrow> int" where
  "amount_val s = int (digits_val s)"

lemma amount_val_nonneg [simp]: "0 \<le> amount_val s"
  by (simp add: amount_val_def)

lemma amountToBigint_val: "amountToBigint s = Inr a \<Longrightarrow> a = amount_val s"
  by (simp add: amountToBigint_Inr amount_val_def)

lemma amount_val_int_str [simp]: "0 \<le> a \<Longrightarrow> amount_val (int_str a) = a"
  by (simp add: amount_val_def int_str_nonneg)

lemma canon_int_int_str [simp]: "0 \<le> a \<Longrightarrow> canon_int (int_str a)"
  by (simp add: int_str_nonneg)

lemma amountToBigint_canon: "canon_int s \<Longrightarrow> amountToBigint s = Inr (amount_val s)"
  by (simp add: amountToBigint_Inr amount_val_def)

definition usd_ok :: "string \<Rightarrow> bool" where "usd_ok s \<longleftrightarrow> returns (usdToMicros s)"

lemma usdToMicros_microsToUsd [simp]: "usdToMicros (microsToUsd m) = Inr m"
proof -
  define a where "a = \<bar>m\<bar>"
  define i where "i = nat_str (nat (a div USD_SCALE))"
  define f where "f = padStart 6 CHR ''0'' (nat_str (nat (a mod USD_SCALE)))"
  have a0: "0 \<le> a" by (simp add: a_def)
  have r0: "0 \<le> a mod USD_SCALE" "a mod USD_SCALE < 1000000"
    by (simp_all add: USD_SCALE_def)
  then have len: "length f = 6"
    using length_nat_str_le [of 6 "nat (a mod USD_SCALE)"] by (simp add: f_def)
  have dig: "list_all is_digit f" by (simp add: f_def padStart_digits)
  have parts: "int_str (bdiv a USD_SCALE) = i"
      "padStart 6 CHR ''0'' (int_str (bmod a USD_SCALE)) = f"
    using a0 r0 by (simp_all add: i_def f_def int_str_nonneg bdiv_nonneg bmod_nonneg
      pos_imp_zdiv_nonneg_iff)
  have "(if m < 0 then - m else m) = a" by (simp add: a_def)
  then have rendered: "microsToUsd m = (if m < 0 then ''-'' else []) @ i @ ''.'' @ f"
    by (simp only: microsToUsd_def Let_def parts)
  have m: "usd_match (microsToUsd m) = Some (m < 0, i, f)"
    using len dig by (auto simp: usd_match_Some rendered i_def)
  have val: "digits_val (padEnd 6 CHR ''0'' f) = nat (a mod USD_SCALE)"
    by (simp add: digits_val_padEnd len) (simp add: f_def)
  have "int (digits_val i) * USD_SCALE + int (digits_val (padEnd 6 CHR ''0'' f)) = a"
    using a0 r0 by (simp add: i_def val pos_imp_zdiv_nonneg_iff)
  then show ?thesis
    by (simp add: usdToMicros_def m a_def abs_if split: if_splits)
qed

lemma usd_ok_micros [simp]: "usd_ok (microsToUsd m)"
  by (simp add: usd_ok_def)

text \<open>Rendering micro-USD and parsing it back is the identity, and two amounts render alike only
  when they are equal: what one component writes to a ledger row or an audit field, the next reads as
  the same amount.\<close>

theorem usd_roundtrip:
  "usdToMicros (microsToUsd m) = Inr m \<and> (microsToUsd m = microsToUsd n \<longleftrightarrow> m = n)"
proof -
  have "m = n" if "microsToUsd m = microsToUsd n"
    using that by (metis usdToMicros_microsToUsd sum.inject(2))
  then show ?thesis by auto
qed

text \<open>The strict USD grammar: a string is accepted exactly when it is an optional minus,
  an integer with no leading zero and one to six fractional digits or none, so "1e6", "+5",
  "05", " 5", "5." and ".5" are refused.\<close>

theorem usd_grammar:
  "returns (usdToMicros s) \<longleftrightarrow>
     (\<exists>neg i f. canon_int i \<and> list_all is_digit f \<and> length f \<le> 6 \<and>
        s = (if neg then ''-'' else []) @ i @ (if f = [] then [] else ''.'' @ f))"
proof -
  have "returns (usdToMicros s) \<longleftrightarrow> (\<exists>neg i f. usd_match s = Some (neg, i, f))"
    by (cases "usd_match s") (auto simp: usdToMicros_returns)
  then show ?thesis by (simp only: usd_match_Some)
qed

section \<open>The divisions\<close>

lemma ceil_div_shift: "0 < b \<Longrightarrow> (a + b - 1) div b = - ((- a) div (b::int))"
proof -
  assume b: "0 < b"
  define q where "q = - ((- a) div b)"
  have "- a = b * (- q) + (- a) mod b" by (simp add: q_def)
  then have "a + b - 1 = b * q + (b - 1 - (- a) mod b)" by (simp add: algebra_simps)
  moreover have "0 \<le> b - 1 - (- a) mod b" "b - 1 - (- a) mod b < b"
    using pos_mod_bound [OF b, of "- a"] pos_mod_sign [OF b, of "- a"] by linarith+
  ultimately show ?thesis
    by (metis int_div_pos_eq q_def)
qed

lemma ceilDiv_eq: "0 < b \<Longrightarrow> ceilDiv a b = Inr (- ((- a) div b))"
proof -
  assume b: "0 < b"
  consider "a < 0" | "a = 0" | "0 < a" by linarith
  then show ?thesis
  proof cases
    case 1
    with b show ?thesis by (simp add: ceilDiv_def bdiv_neg)
  next
    case 2
    with b show ?thesis by (simp add: ceilDiv_def bdiv_def)
  next
    case 3
    with b show ?thesis by (simp add: ceilDiv_def bdiv_nonneg ceil_div_shift)
  qed
qed

lemma floorDiv_eq [money_simps]: "0 < b \<Longrightarrow> 0 \<le> a \<Longrightarrow> floorDiv a b = Inr (a div b)"
  by (simp add: floorDiv_def bdiv_nonneg)

lemma floorDiv_Inr: "0 \<le> a \<Longrightarrow> floorDiv a b = Inr q \<longleftrightarrow> 0 < b \<and> q = a div b"
  by (auto simp: floorDiv_def bdiv_nonneg)

lemma ceilDiv_Inr: "ceilDiv a b = Inr q \<longleftrightarrow> 0 < b \<and> q = - ((- a) div b)"
proof (cases "0 < b")
  case True
  then show ?thesis by (simp add: ceilDiv_eq) blast
qed (simp add: ceilDiv_def)

lemma div_bounds: "0 < (b::int) \<Longrightarrow> b * (a div b) \<le> a \<and> a < b * (a div b + 1)"
proof -
  assume b: "0 < b"
  have "b * (a div b) + a mod b = a" by simp
  moreover have "b * (a div b + 1) = b * (a div b) + b" by (simp add: algebra_simps)
  ultimately show ?thesis
    using pos_mod_bound [OF b, of a] pos_mod_sign [OF b, of a] by linarith
qed

lemma neg_div_bounds: "0 < (b::int) \<Longrightarrow> b * (- ((- a) div b) - 1) < a \<and> a \<le> b * (- ((- a) div b))"
  using div_bounds [of b "- a"] by (simp add: algebra_simps)

lemma ceilDiv_bounds: "ceilDiv a b = Inr q \<Longrightarrow> b * (q - 1) < a \<and> a \<le> b * q"
  by (auto simp: ceilDiv_Inr dest: neg_div_bounds)

lemma ceilDiv_nonneg: "ceilDiv a b = Inr q \<Longrightarrow> 0 \<le> a \<Longrightarrow> 0 \<le> q"
  by (auto simp: ceilDiv_Inr) (metis div_nonpos_pos_le0 neg_le_0_iff_le)

text \<open>The least multiple and the greatest multiple: how a caller uses the two divisions.\<close>

lemma ceilDiv_le_iff: "ceilDiv a b = Inr q \<Longrightarrow> q \<le> k \<longleftrightarrow> a \<le> b * k"
proof -
  assume "ceilDiv a b = Inr q"
  then have b: "0 < b" and bd: "b * (q - 1) < a" "a \<le> b * q"
    by (auto simp: ceilDiv_Inr dest: neg_div_bounds)
  show "q \<le> k \<longleftrightarrow> a \<le> b * k"
  proof
    assume "q \<le> k"
    with b have "b * q \<le> b * k" by simp
    with bd(2) show "a \<le> b * k" by linarith
  next
    assume "a \<le> b * k"
    with bd(1) have "b * (q - 1) < b * k" by linarith
    with b show "q \<le> k" by simp
  qed
qed

lemma div_ge_iff: "0 < (b::int) \<Longrightarrow> k \<le> a div b \<longleftrightarrow> b * k \<le> a"
proof
  assume b: "0 < b"
  show "b * k \<le> a" if "k \<le> a div b"
    using mult_left_mono [OF that, of b] div_bounds [OF b, of a] b by linarith
  show "k \<le> a div b" if "b * k \<le> a"
  proof -
    have "b * k < b * (a div b + 1)" using that div_bounds [OF b, of a] by linarith
    with b show ?thesis by simp
  qed
qed

text \<open>\<open>ceilDiv\<close> and \<open>floorDiv\<close> refuse a denominator that is not positive and are the
  ceiling and, on the non-negative numerators the callers pass, the floor of the exact
  quotient: the ceiling is at most k exactly when a \<open>\<le>\<close> b * k, the floor at least k exactly
  when b * k \<open>\<le>\<close> a.\<close>

theorem division_spec:
  "(returns (ceilDiv a b) \<longleftrightarrow> 0 < b) \<and> (returns (floorDiv a b) \<longleftrightarrow> 0 < b) \<and>
   (ceilDiv a b = Inr q \<longrightarrow> (q \<le> k \<longleftrightarrow> a \<le> b * k)) \<and>
   (0 \<le> a \<and> floorDiv a b = Inr q \<longrightarrow> (k \<le> q \<longleftrightarrow> b * k \<le> a))"
proof (intro conjI impI)
  show "returns (ceilDiv a b) \<longleftrightarrow> 0 < b" by (auto simp: returns_def ceilDiv_Inr)
  show "returns (floorDiv a b) \<longleftrightarrow> 0 < b" by (simp add: floorDiv_def)
  show "q \<le> k \<longleftrightarrow> a \<le> b * k" if "ceilDiv a b = Inr q" using that by (rule ceilDiv_le_iff)
  show "k \<le> q \<longleftrightarrow> b * k \<le> a" if "0 \<le> a \<and> floorDiv a b = Inr q"
    using that div_ge_iff [of b k a] by (auto simp: floorDiv_Inr)
qed

theorem division_spec_witness:
  "ceilDiv 7 2 = Inr 4 \<and> floorDiv 7 2 = Inr 3 \<and> (4 \<le> (4::int) \<longleftrightarrow> 7 \<le> (2::int) * 4) \<and>
   (3 \<le> (3::int) \<longleftrightarrow> 2 * 3 \<le> (7::int))"
proof -
  have c: "ceilDiv 7 2 = Inr 4" "floorDiv 7 2 = Inr 3"
    by (simp_all add: ceilDiv_def floorDiv_def bdiv_def)
  show ?thesis
    using c division_spec [of 7 2 4 4] division_spec [of 7 2 3 3] by simp
qed

section \<open>Valuation\<close>

definition usd_denom :: "int \<Rightarrow> int" where
  "usd_denom decimals = 10 ^ nat decimals * 1000000000000"

lemma usd_denom_pos [simp]: "0 < usd_denom d" "0 \<le> usd_denom d"
  by (simp_all add: usd_denom_def)

lemma usd_denom_eq: "10 ^ nat d * bdiv PRICE_SCALE USD_SCALE = usd_denom d"
  by (simp add: usd_denom_def PRICE_SCALE_def USD_SCALE_def bdiv_def)

lemma nativeToUsdMicros_returns:
  "returns (nativeToUsdMicros a d p r) \<longleftrightarrow> 0 \<le> d \<and> d \<le> 36 \<and> 0 < p"
  using usd_denom_pos [of d]
  by (cases r) (auto simp: nativeToUsdMicros_def usd_denom_eq Let_def ceilDiv_eq floorDiv_def
      simp del: usd_denom_pos)

lemma nativeToUsdMicros_ceil:
  "nativeToUsdMicros a d p RCeil = Inr q \<longleftrightarrow> 0 \<le> d \<and> d \<le> 36 \<and> 0 < p \<and> ceilDiv (a * p) (usd_denom d) = Inr q"
  by (auto simp: nativeToUsdMicros_def usd_denom_eq Let_def)

lemma nativeToUsdMicros_floor:
  "0 \<le> a \<Longrightarrow> nativeToUsdMicros a d p RFloor = Inr q \<longleftrightarrow>
     0 \<le> d \<and> d \<le> 36 \<and> 0 < p \<and> q = a * p div usd_denom d"
  by (auto simp: nativeToUsdMicros_def usd_denom_eq Let_def floorDiv_Inr)

lemma nativeToUsdMicros_nonneg:
  "nativeToUsdMicros a d p r = Inr q \<Longrightarrow> 0 \<le> a \<Longrightarrow> 0 \<le> q"
proof (cases r)
  case RCeil
  assume "nativeToUsdMicros a d p r = Inr q" "0 \<le> a"
  then show ?thesis
    by (auto simp: RCeil nativeToUsdMicros_ceil intro: ceilDiv_nonneg)
next
  case RFloor
  assume "nativeToUsdMicros a d p r = Inr q" "0 \<le> a"
  then show ?thesis
    by (auto simp: RFloor nativeToUsdMicros_floor pos_imp_zdiv_nonneg_iff)
qed

text \<open>The USD value of an amount is refused for unsupported decimals and for a price that is
  not positive; otherwise the value rounded down and the value rounded up bracket the exact one
  and differ by at most one micro-dollar, so rounding against the trade costs at most that.\<close>

theorem valuation_bracket:
  assumes "0 \<le> a"
    and up: "nativeToUsdMicros a d p RCeil = Inr c"
    and down: "nativeToUsdMicros a d p RFloor = Inr f"
  shows "0 \<le> f \<and> usd_denom d * f \<le> a * p \<and> a * p \<le> usd_denom d * c \<and> f \<le> c \<and> c \<le> f + 1"
proof -
  have f: "f = a * p div usd_denom d" using down assms(1) by (simp add: nativeToUsdMicros_floor)
  have c: "usd_denom d * (c - 1) < a * p" "a * p \<le> usd_denom d * c"
    using up by (auto simp: nativeToUsdMicros_ceil dest: ceilDiv_bounds)
  have fb: "usd_denom d * f \<le> a * p" "a * p < usd_denom d * (f + 1)"
    using div_bounds [of "usd_denom d" "a * p"] by (simp_all add: f)
  have "usd_denom d * (c - 1) < usd_denom d * (f + 1)" using c(1) fb(2) by linarith
  moreover have "usd_denom d * f < usd_denom d * (c + 1)"
    using c(2) fb(1) usd_denom_pos(1) [of d] unfolding distrib_left mult_1_right by linarith
  ultimately have "c - 1 < f + 1" "f < c + 1"
    using usd_denom_pos(1) [of d] by simp_all
  with c fb nativeToUsdMicros_nonneg [OF down assms(1)] show ?thesis by simp
qed

theorem valuation_bracket_witness:
  "nativeToUsdMicros 10000000 6 1000027000000000000 RCeil = Inr 10000270 \<and>
   usd_denom 6 * 10000270 \<le> 10000000 * 1000027000000000000"
proof -
  have c: "nativeToUsdMicros 10000000 6 1000027000000000000 RCeil = Inr 10000270"
    and f: "nativeToUsdMicros 10000000 6 1000027000000000000 RFloor = Inr 10000270"
    by (simp_all add: nativeToUsdMicros_def ceilDiv_def floorDiv_def bdiv_def PRICE_SCALE_def USD_SCALE_def)
  show ?thesis using c valuation_bracket [OF _ c f] by simp
qed

section \<open>Slippage and basis points\<close>

lemma impliedSlippageBps_returns:
  "returns (impliedSlippageBps e m) \<longleftrightarrow> 0 < e \<and> 0 \<le> m \<and> m \<le> e"
  by (simp add: impliedSlippageBps_def ceilDiv_eq not_le not_less)

lemma impliedSlippageBps_Inr:
  "impliedSlippageBps e m = Inr s \<longleftrightarrow>
     0 < e \<and> 0 \<le> m \<and> m \<le> e \<and> ceilDiv ((e - m) * BPS_DENOM) e = Inr s"
  by (auto simp: impliedSlippageBps_def not_le not_less)

text \<open>The slippage a quote implies lies between 0 and 10,000 basis points, and it is within
  a limit exactly when the accepted minimum keeps that share of the expected output: no rounding
  lets a looser quote pass.\<close>

theorem implied_slippage_spec:
  assumes "impliedSlippageBps e m = Inr s"
  shows "0 \<le> s \<and> s \<le> 10000 \<and> (s \<le> limit \<longleftrightarrow> (10000 - limit) * e \<le> 10000 * m)"
proof -
  have e: "0 < e" "0 \<le> m" "m \<le> e" and d: "ceilDiv ((e - m) * BPS_DENOM) e = Inr s"
    using assms by (simp_all add: impliedSlippageBps_Inr)
  have "s \<le> k \<longleftrightarrow> (e - m) * 10000 \<le> e * k" for k
    using ceilDiv_le_iff [OF d, of k] by (simp add: BPS_DENOM_def)
  from this [of 10000] this [of limit] e ceilDiv_nonneg [OF d]
  show ?thesis by (auto simp: BPS_DENOM_def algebra_simps)
qed

theorem implied_slippage_spec_witness:
  "impliedSlippageBps 1000 995 = Inr 50 \<and> (50 \<le> (50::int) \<longleftrightarrow> (10000 - 50) * 1000 \<le> (10000::int) * 995)"
proof -
  have s: "impliedSlippageBps 1000 995 = Inr 50"
    by (simp add: impliedSlippageBps_def ceilDiv_def bdiv_def BPS_DENOM_def)
  show ?thesis using s implied_slippage_spec [OF s, of 50] by simp
qed

lemma bpsOf_Inr: "bpsOf v b = Inr r \<longleftrightarrow> 0 \<le> b \<and> b \<le> 10000 \<and> ceilDiv (v * b) BPS_DENOM = Inr r"
  by (auto simp: bpsOf_def)

lemma bpsOf_returns [simp]: "returns (bpsOf v b) \<longleftrightarrow> 0 \<le> b \<and> b \<le> 10000"
  by (simp add: bpsOf_def ceilDiv_eq not_less)

lemma bpsOf_bounds:
  assumes "0 \<le> v" "bpsOf v b = Inr r"
  shows "0 \<le> r \<and> r \<le> v \<and> v * b \<le> 10000 * r \<and> 10000 * r < v * b + 10000"
proof -
  have b: "0 \<le> b" "b \<le> 10000" and d: "ceilDiv (v * b) BPS_DENOM = Inr r"
    using assms by (simp_all add: bpsOf_Inr)
  have le: "v * b \<le> 10000 * v" using b assms(1) by (metis mult.commute mult_left_mono)
  have "r \<le> v" using ceilDiv_le_iff [OF d, of v] le by (simp add: BPS_DENOM_def)
  moreover have "0 \<le> r" using ceilDiv_nonneg [OF d] b assms(1) by simp
  ultimately show ?thesis using ceilDiv_bounds [OF d] by (simp add: BPS_DENOM_def algebra_simps)
qed

end
