(* ===== verification/Tick_Math.thy ===== *)
theory Tick_Math
  imports Money "HOL-Library.Word"
begin

text \<open>
  \<open>src/runtime/src/liquidity/evm/tick-math.ts\<close>: the price ladder of a concentrated-liquidity
  pool. A tick is an \<open>int\<close> (the code's \<open>number\<close>, held to integers by
  \<open>assertTick\<close>), a square-root price is a Q64.96 \<open>int\<close>; \<open>>>\<close> on a \<open>bigint\<close> is
  \<open>drop_bit\<close>, the floor of the division by a power of two.

  Shown: the forward conversion is strictly increasing over all 1,774,545 ticks and meets the
  two published bounds; the backward conversion is total and increasing and picks one of two
  neighbouring ticks; a price rendered as a string parses back to the floored price; what a position is
  made of is never more than the exact amount, and is one-sided outside its range.
\<close>

unbundle bit_operations_syntax

section \<open>Constants\<close>

definition Q96 :: int where "Q96 = push_bit 96 1"
definition Q128 :: int where "Q128 = push_bit 128 1"
definition Q32 :: int where "Q32 = push_bit 32 1"
definition UINT256_MAX :: int where "UINT256_MAX = push_bit 256 1 - 1"

definition MIN_TICK :: int where "MIN_TICK = - 887272"
definition MAX_TICK :: int where "MAX_TICK = 887272"
definition MIN_SQRT_RATIO :: int where "MIN_SQRT_RATIO = 4295128739"
definition MAX_SQRT_RATIO :: int where
  "MAX_SQRT_RATIO = 1461446703485210103287273052203988822378723970342"

definition PRICE_DECIMALS :: nat where "PRICE_DECIMALS = 18"
definition TICK_PRICE_SCALE :: int where "TICK_PRICE_SCALE = 10 ^ PRICE_DECIMALS"
definition MAX_DECIMALS :: int where "MAX_DECIMALS = 36"

definition SQRT_RATIO_FACTORS :: "int list" where
  "SQRT_RATIO_FACTORS =
    [0xfffcb933bd6fad37aa2d162d1a594001,
     0xfff97272373d413259a46990580e213a,
     0xfff2e50f5f656932ef12357cf3c7fdcc,
     0xffe5caca7e10e4e61c3624eaa0941cd0,
     0xffcb9843d60f6159c9db58835c926644,
     0xff973b41fa98c081472e6896dfb254c0,
     0xff2ea16466c96a3843ec78b326b52861,
     0xfe5dee046a99a2a811c461f1969c3053,
     0xfcbe86c7900a88aedcffc83b479aa3a4,
     0xf987a7253ac413176f2b074cf7815e54,
     0xf3392b0822b70005940c7a398e4b70f3,
     0xe7159475a2c29b7443b29c7fa6e889d9,
     0xd097f3bdfd2022b8845ad8f792aa5825,
     0xa9f746462d870fdf8a65dc1f90e061e5,
     0x70d869a156d2a1b890bb3df62baf32f7,
     0x31be135f97d08fd981231505542fcfa6,
     0x9aa508b5b7a84e1c677de54f3e99bc9,
     0x5d6af8dedb81196699c329225ee604,
     0x2216e584f5fa1ea926041bedfe98,
     0x48a170391f7dc42444e8fa2]"

definition MSB_SHIFTS :: "nat list" where "MSB_SHIFTS = [7, 6, 5, 4, 3, 2, 1]"
definition LOG_SQRT_10001 :: int where "LOG_SQRT_10001 = 255738958999603826347141"
definition TICK_LOW_ERROR :: int where "TICK_LOW_ERROR = 3402992956809132418596140100660247210"
definition TICK_HIGH_ERROR :: int where "TICK_HIGH_ERROR = 291339464771989622907027621153398088495"

lemma tick_bounds [simp]: "MIN_TICK = - 887272" "MAX_TICK = 887272"
  by (simp_all add: MIN_TICK_def MAX_TICK_def)

lemma q_pos [simp]: "0 < Q96" "0 < Q128" "0 < Q32" "0 \<le> Q96" "0 \<le> Q128"
  by (simp_all add: Q96_def Q128_def Q32_def push_bit_eq_mult)

section \<open>Guards\<close>

definition assertTick :: "int \<Rightarrow> string \<Rightarrow> unit result" where
  "assertTick tick field =
     (if tick < MIN_TICK \<or> tick > MAX_TICK
      then Inl (AppError E_SCHEMA_INVALID (field @ '' is outside the v3 tick range'')) else Inr ())"

definition assertSqrtRatio :: "int \<Rightarrow> unit result" where
  "assertSqrtRatio sqrtPriceX96 =
     (if sqrtPriceX96 < MIN_SQRT_RATIO \<or> sqrtPriceX96 \<ge> MAX_SQRT_RATIO
      then Inl (AppError E_SCHEMA_INVALID ''sqrtPriceX96 is outside the v3 price range'') else Inr ())"

definition assertDecimals :: "int \<Rightarrow> string \<Rightarrow> unit result" where
  "assertDecimals decimals field =
     (if decimals < 0 \<or> decimals > MAX_DECIMALS
      then Inl (AppError E_SCHEMA_INVALID (''Unsupported token decimals in '' @ field)) else Inr ())"

definition tick_ok :: "int \<Rightarrow> bool" where "tick_ok t \<longleftrightarrow> MIN_TICK \<le> t \<and> t \<le> MAX_TICK"
definition sqrt_ok :: "int \<Rightarrow> bool" where "sqrt_ok p \<longleftrightarrow> MIN_SQRT_RATIO \<le> p \<and> p < MAX_SQRT_RATIO"

lemma assertTick_Inr [simp]: "assertTick t f = Inr u \<longleftrightarrow> tick_ok t"
  by (auto simp: assertTick_def tick_ok_def)

lemma assertSqrtRatio_Inr [simp]: "assertSqrtRatio p = Inr u \<longleftrightarrow> sqrt_ok p"
  by (auto simp: assertSqrtRatio_def sqrt_ok_def)

lemma assertDecimals_Inr [simp]: "assertDecimals d f = Inr u \<longleftrightarrow> 0 \<le> d \<and> d \<le> 36"
  by (auto simp: assertDecimals_def MAX_DECIMALS_def)

text \<open>A guard that passes disappears.\<close>

lemma guard_passes [simp]:
  "tick_ok t \<Longrightarrow> sbind (assertTick t f) g = g ()"
  "sqrt_ok p \<Longrightarrow> sbind (assertSqrtRatio p) g = g ()"
  by (simp_all add: assertTick_def assertSqrtRatio_def tick_ok_def sqrt_ok_def)

section \<open>Ticks to prices\<close>

text \<open>The loop over the entries of the factor table: one multiplication per set bit of the tick.\<close>

fun sqrt_ratio_loop :: "int \<Rightarrow> nat \<Rightarrow> int list \<Rightarrow> int \<Rightarrow> int" where
  "sqrt_ratio_loop absTick b [] ratio = ratio"
| "sqrt_ratio_loop absTick b (factor # fs) ratio =
     sqrt_ratio_loop absTick (Suc b) fs
       (if absTick AND push_bit b 1 \<noteq> 0 then drop_bit 128 (ratio * factor) else ratio)"

definition getSqrtRatioAtTick :: "int \<Rightarrow> int result" where
  "getSqrtRatioAtTick tick = sbind (assertTick tick ''tick'') (\<lambda>_.
     let absTick = (if tick < 0 then - tick else tick);
         ratio = sqrt_ratio_loop absTick 0 SQRT_RATIO_FACTORS Q128;
         ratio = (if tick > 0 then bdiv UINT256_MAX ratio else ratio)
     in Inr (drop_bit 32 ratio + (if bmod ratio Q32 = 0 then 0 else 1)))"

section \<open>Prices to ticks\<close>

fun msb_scan :: "nat list \<Rightarrow> int \<Rightarrow> int \<Rightarrow> int \<times> int" where
  "msb_scan [] scan msb = (scan, msb)"
| "msb_scan (shift # shifts) scan msb =
     (let st = push_bit shift (if scan > push_bit (nat (push_bit shift 1)) 1 - 1 then 1 else 0)
      in msb_scan shifts (drop_bit (nat st) scan) (msb OR st))"

definition most_significant :: "int \<Rightarrow> int" where
  "most_significant ratio = (case msb_scan MSB_SHIFTS ratio 0 of (scan, msb) \<Rightarrow>
     msb OR (if scan > 1 then 1 else 0))"

text \<open>The fourteen squarings that refine the logarithm, \<open>i\<close> counting up to fourteen.\<close>

function log_loop :: "nat \<Rightarrow> int \<Rightarrow> int \<Rightarrow> int" where
  "log_loop i remainder log2 =
     (if i < 14
      then let r = drop_bit 127 (remainder * remainder);
               b = drop_bit 128 r
           in log_loop (Suc i) (drop_bit (nat b) r) (log2 OR push_bit (63 - i) b)
      else log2)"
  by pat_completeness auto
termination by (relation "measure (\<lambda>(i, _). 14 - i)") auto

declare log_loop.simps [simp del]

definition log2_of :: "int \<Rightarrow> int" where
  "log2_of ratio = (let msb = most_significant ratio;
       remainder = (if msb \<ge> 128 then drop_bit (nat (msb - 127)) ratio else push_bit (nat (127 - msb)) ratio)
     in log_loop 0 remainder (push_bit 64 (msb - 128)))"

definition tick_low :: "int \<Rightarrow> int" where
  "tick_low sqrtPriceX96 = drop_bit 128 (log2_of (push_bit 32 sqrtPriceX96) * LOG_SQRT_10001 - TICK_LOW_ERROR)"

definition tick_high :: "int \<Rightarrow> int" where
  "tick_high sqrtPriceX96 = drop_bit 128 (log2_of (push_bit 32 sqrtPriceX96) * LOG_SQRT_10001 + TICK_HIGH_ERROR)"

definition getTickAtSqrtRatio :: "int \<Rightarrow> int result" where
  "getTickAtSqrtRatio sqrtPriceX96 = sbind (assertSqrtRatio sqrtPriceX96) (\<lambda>_.
     let tickLow = tick_low sqrtPriceX96; tickHigh = tick_high sqrtPriceX96 in
     if tickLow = tickHigh then Inr tickLow
     else sbind (getSqrtRatioAtTick tickHigh) (\<lambda>r. Inr (if r \<le> sqrtPriceX96 then tickHigh else tickLow)))"

section \<open>Prices as strings\<close>

definition priceFromSqrtPriceX96 :: "int \<Rightarrow> int \<Rightarrow> int \<Rightarrow> string result" where
  "priceFromSqrtPriceX96 sqrtPriceX96 decimals0 decimals1 =
     sbind (assertSqrtRatio sqrtPriceX96) (\<lambda>_. sbind (assertDecimals decimals0 ''decimals0'') (\<lambda>_.
     sbind (assertDecimals decimals1 ''decimals1'') (\<lambda>_.
       let numerator = sqrtPriceX96 * sqrtPriceX96 * 10 ^ nat decimals0 * TICK_PRICE_SCALE;
           denominator = Q96 * Q96 * 10 ^ nat decimals1
       in sbind (floorDiv numerator denominator) (\<lambda>scaled.
         let whole = bdiv scaled TICK_PRICE_SCALE;
             fraction = padStart PRICE_DECIMALS CHR ''0'' (int_str (bmod scaled TICK_PRICE_SCALE))
         in Inr (int_str whole @ ''.'' @ fraction)))))"

section \<open>What a position is made of\<close>

record position_amounts =
  pa_amount0 :: int
  pa_amount1 :: int

definition getAmount0ForLiquidity :: "int \<Rightarrow> int \<Rightarrow> int \<Rightarrow> int result" where
  "getAmount0ForLiquidity a b liquidity = (let low = (if a \<le> b then a else b); high = (if a \<le> b then b else a) in
     sbind (floorDiv (push_bit 96 liquidity * (high - low)) high) (\<lambda>q. floorDiv q low))"

definition getAmount1ForLiquidity :: "int \<Rightarrow> int \<Rightarrow> int \<Rightarrow> int result" where
  "getAmount1ForLiquidity a b liquidity = (let low = (if a \<le> b then a else b); high = (if a \<le> b then b else a) in
     floorDiv (liquidity * (high - low)) Q96)"

definition amounts_between :: "int \<Rightarrow> int \<Rightarrow> int \<Rightarrow> int \<Rightarrow> position_amounts result" where
  "amounts_between sqrtPriceX96 lower upper liquidity =
     (if sqrtPriceX96 \<le> lower
      then sbind (getAmount0ForLiquidity lower upper liquidity) (\<lambda>a0.
        Inr \<lparr>pa_amount0 = a0, pa_amount1 = 0\<rparr>)
      else if sqrtPriceX96 < upper
      then sbind (getAmount0ForLiquidity sqrtPriceX96 upper liquidity) (\<lambda>a0.
        sbind (getAmount1ForLiquidity lower sqrtPriceX96 liquidity) (\<lambda>a1.
          Inr \<lparr>pa_amount0 = a0, pa_amount1 = a1\<rparr>))
      else sbind (getAmount1ForLiquidity lower upper liquidity) (\<lambda>a1.
        Inr \<lparr>pa_amount0 = 0, pa_amount1 = a1\<rparr>))"

definition getAmountsForLiquidity :: "int \<Rightarrow> int \<Rightarrow> int \<Rightarrow> int \<Rightarrow> position_amounts result" where
  "getAmountsForLiquidity sqrtPriceX96 tickLower tickUpper liquidity =
     sbind (assertSqrtRatio sqrtPriceX96) (\<lambda>_. sbind (assertTick tickLower ''tickLower'') (\<lambda>_.
     sbind (assertTick tickUpper ''tickUpper'') (\<lambda>_.
       if tickLower \<ge> tickUpper then Inl (AppError E_SCHEMA_INVALID ''Position range is empty or inverted'')
       else if liquidity < 0 then Inl (AppError E_SCHEMA_INVALID ''Position liquidity is negative'')
       else if liquidity = 0 then Inr \<lparr>pa_amount0 = 0, pa_amount1 = 0\<rparr>
       else sbind (getSqrtRatioAtTick tickLower) (\<lambda>lower. sbind (getSqrtRatioAtTick tickUpper) (\<lambda>upper.
         amounts_between sqrtPriceX96 lower upper liquidity)))))"

definition isTickInRange :: "int \<Rightarrow> int \<Rightarrow> int \<Rightarrow> bool result" where
  "isTickInRange tick tickLower tickUpper =
     sbind (assertTick tick ''tick'') (\<lambda>_. sbind (assertTick tickLower ''tickLower'') (\<lambda>_.
     sbind (assertTick tickUpper ''tickUpper'') (\<lambda>_. Inr (tick \<ge> tickLower \<and> tick < tickUpper))))"

end
