(* ===== verification/Tick_Props.thy ===== *)
theory Tick_Props
  imports Tick_Math
begin

text \<open>
  Correctness of \<open>Tick_Math\<close>. The forward conversion tests the bits of the tick from the lowest up,
  so two neighbouring ticks part at one bit and share the rest (\<open>ladder_carry\<close>); the twenty gaps at which
  they can part are evaluated, and a gap survives the remaining factors because a floored product is
  superadditive. The backward conversion is compared with itself at two prices: the bit scan and each
  squaring preserve the order.
\<close>

unbundle bit_operations_syntax

section \<open>The ladder\<close>

definition scale_down :: "int \<Rightarrow> int \<Rightarrow> int" where
  "scale_down f r = (r * f) div 2 ^ 128"

fun ladder :: "int \<Rightarrow> int list \<Rightarrow> int \<Rightarrow> int" where
  "ladder a [] r = r"
| "ladder a (f # fs) r = ladder (a div 2) fs (if odd a then scale_down f r else r)"

lemma and_bit: "(a :: int) AND 2 ^ b = 0 \<longleftrightarrow> even (a div 2 ^ b)"
  by (simp add: and_exp_eq_0_iff_not_bit bit_iff_odd)

lemma sqrt_ratio_loop_ladder: "sqrt_ratio_loop a b fs r = ladder (a div 2 ^ b) fs r"
proof (induction fs arbitrary: b r)
  case (Cons f fs)
  have "a div (2 ^ b) div 2 = a div (2 ^ Suc b)" by (simp add: zdiv_zmult2_eq [symmetric] mult.commute)
  then show ?case by (simp add: Cons and_bit drop_bit_eq_div scale_down_def)
qed simp

lemma scale_down_mono: "0 \<le> f \<Longrightarrow> r \<le> s \<Longrightarrow> scale_down f r \<le> scale_down f s"
  unfolding scale_down_def by (intro zdiv_mono1 mult_right_mono) auto

lemma div_add_le: "0 < (n :: int) \<Longrightarrow> a div n + b div n \<le> (a + b) div n"
  by (subst div_add1_eq) (simp add: pos_imp_zdiv_nonneg_iff)

lemma scale_down_gap:
  assumes "0 \<le> f" "r + g \<le> s"
  shows "scale_down f r + scale_down f g \<le> scale_down f s"
proof -
  have "(r * f) div 2 ^ 128 + (g * f) div 2 ^ 128 \<le> (r * f + g * f) div 2 ^ 128" by (rule div_add_le) simp
  also have "\<dots> \<le> (s * f) div 2 ^ 128"
    using assms by (intro zdiv_mono1) (auto simp: distrib_right [symmetric] intro: mult_right_mono)
  finally show ?thesis by (simp add: scale_down_def)
qed

lemma scale_down_le: "0 \<le> f \<Longrightarrow> f \<le> 2 ^ 128 \<Longrightarrow> 0 \<le> r \<Longrightarrow> scale_down f r \<le> r"
proof -
  assume "0 \<le> f" "f \<le> 2 ^ 128" "0 \<le> r"
  then have "(r * f) div 2 ^ 128 \<le> (r * 2 ^ 128) div 2 ^ 128" by (intro zdiv_mono1 mult_left_mono) auto
  then show ?thesis by (simp add: scale_down_def)
qed

lemma scale_down_nonneg: "0 \<le> f \<Longrightarrow> 0 \<le> r \<Longrightarrow> 0 \<le> scale_down f r"
  by (simp add: scale_down_def pos_imp_zdiv_nonneg_iff)

definition factor_ok :: "int \<Rightarrow> bool" where
  "factor_ok f \<longleftrightarrow> 0 \<le> f \<and> f \<le> 2 ^ 128"

text \<open>A gap between two ratios survives any run of factors: with a list of figures each of which leaves at
  least the next one after its factor, a gap of the first figure before the run is one of the last after it.\<close>

fun shrinks :: "int list \<Rightarrow> int list \<Rightarrow> bool" where
  "shrinks (f # fs) (n # m # ms) \<longleftrightarrow> 0 \<le> m \<and> m \<le> n \<and> m \<le> scale_down f n \<and> shrinks fs (m # ms)"
| "shrinks [] [n] \<longleftrightarrow> True"
| "shrinks _ _ \<longleftrightarrow> False"

lemma ladder_gap:
  assumes "list_all factor_ok fs" "shrinks fs (n # ns)" "r + n \<le> s"
  shows "ladder a fs r + last (n # ns) \<le> ladder a fs s"
  using assms
proof (induction fs arbitrary: a r s n ns)
  case Nil
  then show ?case by (cases ns) auto
next
  case (Cons f fs)
  then obtain m ms where ns: "ns = m # ms" by (cases ns) auto
  have "scale_down f r + scale_down f n \<le> scale_down f s"
    using Cons.prems by (intro scale_down_gap) (auto simp: factor_ok_def)
  with Cons.IH [of m ms "scale_down f r" "scale_down f s" "a div 2"] Cons.IH [of m ms r s "a div 2"] Cons.prems ns
  show ?case by auto
qed

lemma ladder_nonneg: "list_all factor_ok fs \<Longrightarrow> 0 \<le> r \<Longrightarrow> 0 \<le> ladder a fs r"
  by (induction fs arbitrary: a r) (auto simp: factor_ok_def scale_down_nonneg)

lemma ladder_le: "list_all factor_ok fs \<Longrightarrow> 0 \<le> r \<Longrightarrow> ladder a fs r \<le> r"
proof (induction fs arbitrary: a r)
  case (Cons f fs)
  have f: "0 \<le> f" "f \<le> 2 ^ 128" using Cons.prems(1) by (auto simp: factor_ok_def)
  have "scale_down f r \<le> r" "0 \<le> scale_down f r"
    using f Cons.prems(2) by (auto intro: scale_down_le scale_down_nonneg)
  then show ?case using Cons.IH [of "scale_down f r" "a div 2"] Cons.IH [of r "a div 2"] Cons.prems by auto
qed simp

text \<open>A tick and its successor differ at one bit; above it they agree, below it one has every factor
  and the other none. \<open>gaps_ok q p fs ns\<close> says that wherever they part, the accumulated ratios \<open>p\<close> and
  \<open>q\<close> are as far apart as the figure there.\<close>

fun gaps_ok :: "int \<Rightarrow> int \<Rightarrow> int list \<Rightarrow> int list \<Rightarrow> bool" where
  "gaps_ok q p (f # fs) (n # m # ms) \<longleftrightarrow> scale_down f q + m \<le> p \<and> gaps_ok q (scale_down f p) fs (m # ms)"
| "gaps_ok q p [] _ \<longleftrightarrow> True"
| "gaps_ok q p _ _ \<longleftrightarrow> False"

lemma ladder_carry:
  assumes "list_all factor_ok fs" "shrinks fs (n # ns)" "gaps_ok q p fs (n # ns)" "0 \<le> a" "a + 1 < 2 ^ length fs"
  shows "ladder (a + 1) fs q + last (n # ns) \<le> ladder a fs p"
  using assms
proof (induction fs arbitrary: a p n ns)
  case (Cons f fs)
  then obtain m ms where ns: "ns = m # ms" by (cases ns) auto
  show ?case
  proof (cases "even a")
    case True
    then have d: "odd (a + 1)" "(a + 1) div 2 = a div 2" by auto
    have "ladder (a div 2) fs (scale_down f q) + last (m # ms) \<le> ladder (a div 2) fs p"
      using Cons.prems ns by (intro ladder_gap) auto
    with True d ns show ?thesis by auto
  next
    case False
    then obtain h where h: "a = 2 * h + 1" by (elim oddE)
    then have d: "a div 2 = h" "(a + 1) div 2 = h + 1" "even (a + 1)" by auto
    have "0 \<le> h" "h + 1 < 2 ^ length fs" using Cons.prems h by auto
    with Cons.IH [of m ms "scale_down f p" h] Cons.prems ns False d show ?thesis by auto
  qed
qed simp

section \<open>The ratios of the code\<close>

lemma factors_ok: "list_all factor_ok SQRT_RATIO_FACTORS"
  by (simp add: SQRT_RATIO_FACTORS_def factor_ok_def)

lemma length_factors [simp]: "length SQRT_RATIO_FACTORS = 20"
  by (simp add: SQRT_RATIO_FACTORS_def)

definition GAPS :: "int list" where
  "GAPS = [
   0x31b3800000000000000000000000,
   0x31b2c00000000000000000000000,
   0x31b1400000000000000000000000,
   0x31ae800000000000000000000000,
   0x31a9400000000000000000000000,
   0x319f000000000000000000000000,
   0x318a800000000000000000000000,
   0x3161c00000000000000000000000,
   0x3111000000000000000000000000,
   0x3071400000000000000000000000,
   0x2f37c00000000000000000000000,
   0x2cdc400000000000000000000000,
   0x287e800000000000000000000000,
   0x20fec00000000000000000000000,
   0x15e8000000000000000000000000,
   0x9a8000000000000000000000000,
   0x1e0520000000000000000000000,
   0x12226000000000000000000000,
   0x69e10000000000000000000,
   0xe19500000000000000,
   0x400000000]"

lemma scale_down_drop: "scale_down f r = drop_bit 128 (r * f)"
  by (simp add: scale_down_def drop_bit_eq_div)

lemma factors_shrink: "shrinks SQRT_RATIO_FACTORS GAPS"
  by (simp add: SQRT_RATIO_FACTORS_def GAPS_def scale_down_drop)

lemma factors_gaps: "gaps_ok Q128 Q128 SQRT_RATIO_FACTORS GAPS"
  by (simp add: SQRT_RATIO_FACTORS_def GAPS_def scale_down_drop Q128_def push_bit_eq_mult)

lemma last_gap: "GAPS = hd GAPS # tl GAPS" "last GAPS = 2 ^ 34"
  by (simp_all add: GAPS_def)

definition tick_ratio :: "int \<Rightarrow> int" where
  "tick_ratio a = ladder a SQRT_RATIO_FACTORS Q128"

lemma tick_ratio_step:
  assumes "0 \<le> a" "a + 1 < 2 ^ 20"
  shows "tick_ratio (a + 1) + 2 ^ 34 \<le> tick_ratio a"
proof -
  have "ladder (a + 1) SQRT_RATIO_FACTORS Q128 + last (hd GAPS # tl GAPS) \<le> ladder a SQRT_RATIO_FACTORS Q128"
    by (rule ladder_carry [OF factors_ok]) (use assms factors_shrink factors_gaps last_gap(1) in auto)
  then show ?thesis by (simp add: last_gap(2) tick_ratio_def flip: last_gap(1))
qed

lemma tick_ratio_bounds: "0 \<le> tick_ratio a" "tick_ratio a \<le> 2 ^ 128"
  using ladder_nonneg [OF factors_ok, of Q128 a] ladder_le [OF factors_ok, of Q128 a]
  by (simp_all add: tick_ratio_def Q128_def push_bit_eq_mult)

lemma tick_ratio_0: "tick_ratio 0 = 2 ^ 128"
  by (simp add: tick_ratio_def SQRT_RATIO_FACTORS_def Q128_def push_bit_eq_mult)

lemma tick_ratio_pos: "0 \<le> a \<Longrightarrow> a + 1 < 2 ^ 20 \<Longrightarrow> 2 ^ 34 \<le> tick_ratio a"
  using tick_ratio_step [of a] tick_ratio_bounds(1) [of "a + 1"] by linarith

text \<open>The last step of the conversion, Q128.128 down to Q64.96 rounded up.\<close>

definition to_q96 :: "int \<Rightarrow> int" where
  "to_q96 r = drop_bit 32 r + (if bmod r Q32 = 0 then 0 else 1)"

lemma to_q96_ceil: "0 \<le> r \<Longrightarrow> to_q96 r = - ((- r) div 2 ^ 32)"
proof -
  assume "0 \<le> r"
  then have "to_q96 r = r div 2 ^ 32 + (if r mod 2 ^ 32 = 0 then 0 else 1)"
    by (simp add: to_q96_def drop_bit_eq_div Q32_def push_bit_eq_mult bmod_nonneg)
  then show ?thesis using zdiv_zminus1_eq_if [of "2 ^ 32" r] by simp
qed

lemma to_q96_less:
  assumes "0 \<le> r" "r + 2 ^ 32 \<le> s"
  shows "to_q96 r < to_q96 s"
proof -
  have "(- s) div 2 ^ 32 \<le> (- r + (- 1) * 2 ^ 32) div 2 ^ 32" using assms(2) by (intro zdiv_mono1) auto
  also have "\<dots> = (- r) div 2 ^ 32 - 1" by (subst div_mult_self1) auto
  finally show ?thesis using assms by (simp add: to_q96_ceil)
qed

lemma reciprocal_gap:
  assumes "0 < r" "r + 2 ^ 34 \<le> s" "s \<le> 2 ^ 128"
  shows "UINT256_MAX div s + 2 ^ 32 \<le> UINT256_MAX div r"
proof -
  let ?U = UINT256_MAX and ?q = "UINT256_MAX div s"
  have U: "?U = 2 ^ 256 - 1" by (simp add: UINT256_MAX_def push_bit_eq_mult)
  have "?U div 2 ^ 128 \<le> ?q" using assms by (intro zdiv_mono2) (auto simp: U)
  then have q: "2 ^ 128 - 1 \<le> ?q" by (simp add: U)
  have "2 ^ 32 * r \<le> 2 ^ 32 * 2 ^ 128" using assms by auto
  also have "\<dots> \<le> (2 ^ 128 - 1) * 2 ^ 34" by simp
  also have "\<dots> \<le> ?q * 2 ^ 34" using q by (intro mult_right_mono) auto
  also have "\<dots> \<le> ?q * (s - r)" using assms q by (intro mult_left_mono) auto
  finally have "(?q + 2 ^ 32) * r \<le> ?q * s" by (simp add: algebra_simps)
  also have "\<dots> \<le> ?U" using assms div_bounds [of s ?U] by (simp add: mult.commute)
  finally show ?thesis using assms(1) by (simp add: div_ge_iff mult.commute)
qed

definition sqrt_at :: "int \<Rightarrow> int" where
  "sqrt_at t = to_q96 (if t > 0 then UINT256_MAX div tick_ratio t else tick_ratio (- t))"

lemma UINT256_pos [simp]: "0 \<le> UINT256_MAX"
  by (simp add: UINT256_MAX_def push_bit_eq_mult)

lemma ratio_div_nonneg: "0 \<le> UINT256_MAX div tick_ratio t"
  using tick_ratio_bounds(1) [of t] by (cases "tick_ratio t = 0") (auto simp: pos_imp_zdiv_nonneg_iff)

lemma getSqrtRatioAtTick_eq: "getSqrtRatioAtTick t = Inr r \<longleftrightarrow> tick_ok t \<and> r = sqrt_at t"
  by (auto simp: getSqrtRatioAtTick_def sbind_eq_Inr Let_def sqrt_at_def to_q96_def sqrt_ratio_loop_ladder
      tick_ratio_def tick_ratio_bounds(1) [unfolded tick_ratio_def] bdiv_nonneg)

lemma sqrt_at_0: "sqrt_at 0 = to_q96 (UINT256_MAX div tick_ratio 0)"
  by (simp add: sqrt_at_def tick_ratio_0 to_q96_ceil UINT256_MAX_def push_bit_eq_mult)

lemma sqrt_at_step:
  assumes "tick_ok t" "tick_ok (t + 1)"
  shows "sqrt_at t < sqrt_at (t + 1)"
proof (cases "t + 1 \<le> 0")
  case True
  then have "tick_ratio (- t) + 2 ^ 34 \<le> tick_ratio (- (t + 1))"
    using tick_ratio_step [of "- (t + 1)"] assms by (simp add: tick_ok_def)
  then show ?thesis using True tick_ratio_bounds by (auto simp: sqrt_at_def intro!: to_q96_less)
next
  case False
  have "sqrt_at t = to_q96 (UINT256_MAX div tick_ratio t)"
    using False sqrt_at_0 by (cases "t = 0") (auto simp: sqrt_at_def)
  moreover have "UINT256_MAX div tick_ratio t + 2 ^ 32 \<le> UINT256_MAX div tick_ratio (t + 1)"
    using tick_ratio_step [of t] tick_ratio_pos [of "t + 1"] tick_ratio_bounds(2) [of t] assms False
    by (intro reciprocal_gap) (auto simp: tick_ok_def)
  ultimately show ?thesis
    using False by (auto simp: sqrt_at_def ratio_div_nonneg intro!: to_q96_less)
qed

lemma sqrt_at_less: "tick_ok s \<Longrightarrow> tick_ok t \<Longrightarrow> s < t \<Longrightarrow> sqrt_at s < sqrt_at t"
proof (induction "nat (t - s)" arbitrary: t)
  case (Suc n)
  have "tick_ok (t - 1)" using Suc.prems by (auto simp: tick_ok_def)
  then have "sqrt_at (t - 1) < sqrt_at t" using sqrt_at_step [of "t - 1"] Suc.prems by simp
  moreover have "sqrt_at s \<le> sqrt_at (t - 1)"
    using Suc.hyps(1) [of "t - 1"] Suc.hyps(2) Suc.prems \<open>tick_ok (t - 1)\<close> by (cases "s = t - 1") fastforce+
  ultimately show ?case by simp
qed auto

lemma sqrt_at_ends: "sqrt_at MIN_TICK = MIN_SQRT_RATIO" "sqrt_at MAX_TICK = MAX_SQRT_RATIO"
  by (simp_all add: sqrt_at_def to_q96_def tick_ratio_def SQRT_RATIO_FACTORS_def scale_down_drop Q128_def Q32_def
      push_bit_eq_mult UINT256_MAX_def MIN_SQRT_RATIO_def MAX_SQRT_RATIO_def bmod_nonneg)

section \<open>The backward conversion\<close>

lemma or_shifted:
  assumes "acc mod 2 ^ Suc k = 0" "b = 0 \<or> b = 1"
  shows "acc OR push_bit k b = (acc :: int) + b * 2 ^ k"
proof -
  from assms(1) obtain q where q: "acc = 2 ^ Suc k * q" by (auto simp: mod_eq_0_iff_dvd elim: dvdE)
  have "acc AND push_bit k b = 0"
    using assms(2) by (auto simp: q push_bit_eq_mult and_exp_eq_0_iff_not_bit bit_iff_odd)
  then show ?thesis by (simp add: push_bit_eq_mult flip: disjunctive_add_eq_or)
qed

text \<open>The fourteen bits as a number.\<close>

function log_frac :: "nat \<Rightarrow> int \<Rightarrow> int" where
  "log_frac i r = (if i < 14 then let s = (r * r) div 2 ^ 127; b = s div 2 ^ 128
     in b * 2 ^ (63 - i) + log_frac (Suc i) (s div 2 ^ nat b) else 0)"
  by pat_completeness auto
termination by (relation "measure (\<lambda>(i, _). 14 - i)") auto

declare log_frac.simps [simp del]

definition mantissa :: "int \<Rightarrow> bool" where
  "mantissa r \<longleftrightarrow> 2 ^ 127 \<le> r \<and> r < 2 ^ 128"

lemma square_step:
  assumes "mantissa r"
  defines "s \<equiv> (r * r) div 2 ^ 127"
  shows "s div 2 ^ 128 = 0 \<or> s div 2 ^ 128 = 1" "mantissa (s div 2 ^ nat (s div 2 ^ 128))"
proof -
  have "2 ^ 127 * 2 ^ 127 \<le> r * r" using assms by (intro mult_mono) (auto simp: mantissa_def)
  moreover have "r * r < 2 ^ 128 * 2 ^ 128" using assms by (intro mult_strict_mono) (auto simp: mantissa_def)
  ultimately have s: "2 ^ 127 \<le> s" "s < 2 ^ 129" by (auto simp: s_def)
  with div_bounds [of "2 ^ 128" s] show b: "s div 2 ^ 128 = 0 \<or> s div 2 ^ 128 = 1" by simp linarith
  with s show "mantissa (s div 2 ^ nat (s div 2 ^ 128))" by (auto simp: mantissa_def)
qed

lemma log_frac_step:
  assumes "i < 14"
  defines "s \<equiv> \<lambda>r. (r * r) div 2 ^ 127"
  shows "log_frac i r = s r div 2 ^ 128 * 2 ^ (63 - i) + log_frac (Suc i) (s r div 2 ^ nat (s r div 2 ^ 128))"
    "log_loop i r acc = log_loop (Suc i) (s r div 2 ^ nat (s r div 2 ^ 128)) (acc OR push_bit (63 - i) (s r div 2 ^ 128))"
  by (subst log_frac.simps log_loop.simps, simp add: assms s_def Let_def drop_bit_eq_div)+

lemma log_end: "\<not> i < 14 \<Longrightarrow> log_frac i r = 0" "\<not> i < 14 \<Longrightarrow> log_loop i r acc = acc"
  by (subst log_frac.simps log_loop.simps, simp)+

lemma mod_power_Suc: "acc mod 2 ^ Suc k = 0 \<Longrightarrow> (acc + b * 2 ^ k) mod (2 :: int) ^ k = 0"
  by (metis dvd_eq_mod_eq_0 dvd_add dvd_triv_right dvd_trans le_imp_power_dvd lessI less_imp_le)

lemma log_frac_bounds: "mantissa r \<Longrightarrow> i \<le> 14 \<Longrightarrow> 0 \<le> log_frac i r \<and> log_frac i r < 2 ^ (64 - i)"
proof (induction i r rule: log_frac.induct)
  case (1 i r)
  define s where "s = (r * r) div 2 ^ 127"
  define b where "b = s div 2 ^ 128"
  have b: "b = 0 \<or> b = 1" and m: "mantissa (s div 2 ^ nat b)"
    using square_step [OF 1(2)] by (simp_all add: s_def b_def)
  show ?case
  proof (cases "i < 14")
    case True
    then have "64 - i = Suc (63 - i)" "64 - Suc i = 63 - i" by simp_all
    then have k: "(2 :: int) ^ (64 - i) = 2 * 2 ^ (63 - i)" "(2 :: int) ^ (64 - Suc i) = 2 ^ (63 - i)" by simp_all
    have "0 \<le> log_frac (Suc i) (s div 2 ^ nat b) \<and> log_frac (Suc i) (s div 2 ^ nat b) < 2 ^ (63 - i)"
      using 1(1) [OF True s_def b_def m] True k(2) by simp
    moreover have "log_frac i r = b * 2 ^ (63 - i) + log_frac (Suc i) (s div 2 ^ nat b)"
      using log_frac_step(1) [OF True] by (simp add: s_def b_def)
    ultimately show ?thesis using b unfolding k(1) by auto
  qed (simp add: log_end)
qed

lemma log_loop_frac:
  "mantissa r \<Longrightarrow> i \<le> 14 \<Longrightarrow> acc mod 2 ^ (64 - i) = 0 \<Longrightarrow> log_loop i r acc = acc + log_frac i r"
proof (induction i r acc rule: log_loop.induct)
  case (1 i r acc)
  define s where "s = (r * r) div 2 ^ 127"
  define b where "b = s div 2 ^ 128"
  have b: "b = 0 \<or> b = 1" and m: "mantissa (s div 2 ^ nat b)"
    using square_step [OF 1(2)] by (simp_all add: s_def b_def)
  show ?case
  proof (cases "i < 14")
    case True
    then have k: "64 - i = Suc (63 - i)" "64 - Suc i = 63 - i" by simp_all
    have acc: "acc OR push_bit (63 - i) b = acc + b * 2 ^ (63 - i)"
      by (rule or_shifted [OF _ b]) (use 1(4) in \<open>simp only: k\<close>)
    have "(acc + b * 2 ^ (63 - i)) mod 2 ^ (64 - Suc i) = 0"
      unfolding k(2) by (rule mod_power_Suc) (use 1(4) in \<open>simp only: k\<close>)
    then have "log_loop (Suc i) (drop_bit (nat b) s) (acc OR push_bit (63 - i) b) =
        (acc OR push_bit (63 - i) b) + log_frac (Suc i) (drop_bit (nat b) s)"
      by (intro 1(1) [OF True]) (use m True acc in \<open>auto simp only: drop_bit_eq_div s_def b_def\<close>)
    then show ?thesis
      unfolding log_frac_step(1) [OF True] log_frac_step(2) [OF True] b_def [symmetric, unfolded s_def] s_def [symmetric]
      by (simp only: acc drop_bit_eq_div flip: b_def)
  qed (simp add: log_end)
qed

lemma log_frac_mono: "mantissa r \<Longrightarrow> mantissa r' \<Longrightarrow> r \<le> r' \<Longrightarrow> i \<le> 14 \<Longrightarrow> log_frac i r \<le> log_frac i r'"
proof (induction i r arbitrary: r' rule: log_frac.induct)
  case (1 i r)
  define s b where "s = (r * r) div 2 ^ 127" and "b = s div 2 ^ 128"
  define s' b' where "s' = (r' * r') div 2 ^ 127" and "b' = s' div 2 ^ 128"
  have b: "b = 0 \<or> b = 1" "mantissa (s div 2 ^ nat b)" "b' = 0 \<or> b' = 1" "mantissa (s' div 2 ^ nat b')"
    using square_step [OF 1(2)] square_step [OF 1(3)] by (simp_all add: s_def b_def s'_def b'_def)
  have "s \<le> s'"
    unfolding s_def s'_def using 1(2-4) by (intro zdiv_mono1 mult_mono) (auto simp: mantissa_def)
  then have le: "b \<le> b'" by (auto simp: b_def b'_def intro: zdiv_mono1)
  show ?case
  proof (cases "i < 14")
    case True
    have e: "log_frac i r = b * 2 ^ (63 - i) + log_frac (Suc i) (s div 2 ^ nat b)"
      "log_frac i r' = b' * 2 ^ (63 - i) + log_frac (Suc i) (s' div 2 ^ nat b')"
      using log_frac_step(1) [OF True] by (simp_all add: s_def b_def s'_def b'_def)
    show ?thesis
    proof (cases "b = b'")
      case True
      then have "s div 2 ^ nat b \<le> s' div 2 ^ nat b'" using \<open>s \<le> s'\<close> by (auto intro: zdiv_mono1)
      then show ?thesis using 1(1) [OF \<open>i < 14\<close> s_def b_def b(2) b(4)] \<open>i < 14\<close> True by (simp add: e)
    next
      case False
      then have "b = 0" "b' = 1" using b le by auto
      moreover have "log_frac (Suc i) (s div 2 ^ nat b) < 2 ^ (63 - i)" "0 \<le> log_frac (Suc i) (s' div 2 ^ nat b')"
        using log_frac_bounds [OF b(2), of "Suc i"] log_frac_bounds [OF b(4), of "Suc i"] \<open>i < 14\<close> by auto
      ultimately show ?thesis by (simp add: e)
    qed
  qed (simp add: log_end)
qed

text \<open>The scan finds the highest bit: after the shifts from \<open>n\<close> down to 1 at most the lowest bit of the exponent
  is missing.\<close>

lemma nat_step: "nat (push_bit k 1) = 2 ^ k"
  by (simp add: push_bit_eq_mult nat_power_eq)

lemma scan_step:
  assumes "0 < (x :: int)" "x < 2 ^ (2 ^ Suc k)" "m mod 2 ^ Suc k = 0"
  shows "\<exists>e. msb_scan (k # rest) x m = msb_scan rest (x div 2 ^ e) (m + int e) \<and> 0 < x div 2 ^ e \<and>
     x div 2 ^ e < 2 ^ (2 ^ k) \<and> (m + int e) mod 2 ^ k = 0"
proof (cases "x > 2 ^ (2 ^ k) - 1")
  case True
  let ?e = "2 ^ k :: nat"
  have "m OR push_bit k 1 = m + 1 * 2 ^ k" by (rule or_shifted) (use assms(3) in auto)
  moreover have "(x > push_bit (nat (push_bit k 1)) 1 - 1) = True"
    unfolding nat_step using True by (simp add: push_bit_eq_mult)
  ultimately have "msb_scan (k # rest) x m = msb_scan rest (x div 2 ^ ?e) (m + 1 * 2 ^ k)"
    by (simp only: msb_scan.simps Let_def if_True nat_step drop_bit_eq_div)
  then have "msb_scan (k # rest) x m = msb_scan rest (x div 2 ^ ?e) (m + int ?e)" by simp
  moreover have "0 < x div 2 ^ ?e" using True by (auto simp: pos_imp_zdiv_pos_iff)
  moreover have "x div 2 ^ ?e < 2 ^ ?e"
  proof -
    have "x < 2 ^ ?e * 2 ^ ?e" using assms(2) by (simp add: power_add [symmetric] mult_2)
    then show ?thesis using div_ge_iff [of "2 ^ ?e" "2 ^ ?e" x] by (auto simp: not_le)
  qed
  moreover have "(m + int ?e) mod 2 ^ k = 0" using mod_power_Suc [OF assms(3), of 1] by simp
  ultimately show ?thesis by (intro exI [of _ ?e] conjI)
next
  case False
  have "m mod 2 ^ k = 0" using mod_power_Suc [OF assms(3), of 0] by simp
  moreover have "(x > push_bit (nat (push_bit k 1)) 1 - 1) = False"
    unfolding nat_step using False by (simp add: push_bit_eq_mult)
  then have "msb_scan (k # rest) x m = msb_scan rest x m"
    by (simp only: msb_scan.simps Let_def if_False) simp
  ultimately show ?thesis using False assms(1) by (intro exI [of _ 0]) auto
qed

primrec downs :: "nat \<Rightarrow> nat list" where
  "downs 0 = []"
| "downs (Suc n) = Suc n # downs n"

lemma scan_all:
  "0 < x \<Longrightarrow> x < 2 ^ (2 ^ Suc n) \<Longrightarrow> m mod 2 ^ Suc n = 0 \<Longrightarrow>
     \<exists>e. msb_scan (downs n) x m = (x div 2 ^ e, m + int e) \<and> 0 < x div 2 ^ e \<and> x div 2 ^ e < 4 \<and> even (m + int e)"
proof (induction n arbitrary: x m)
  case 0
  then show ?case by (intro exI [of _ 0]) (auto simp: mod_eq_0_iff_dvd)
next
  case (Suc n)
  obtain e where e: "msb_scan (downs (Suc n)) x m = msb_scan (downs n) (x div 2 ^ e) (m + int e)" "0 < x div 2 ^ e"
    "x div 2 ^ e < 2 ^ (2 ^ Suc n)" "(m + int e) mod 2 ^ Suc n = 0"
    using scan_step [OF Suc.prems, of "downs n", folded downs.simps(2)] by (elim exE conjE) (rule that)
  obtain d where "msb_scan (downs n) (x div 2 ^ e) (m + int e) = (x div 2 ^ e div 2 ^ d, m + int e + int d)"
    "0 < x div 2 ^ e div 2 ^ d" "x div 2 ^ e div 2 ^ d < 4" "even (m + int e + int d)"
    using Suc.IH [OF e(2-4)] by (elim exE conjE) (rule that)
  moreover have "x div 2 ^ e div 2 ^ d = x div 2 ^ (e + d)" by (simp add: zdiv_zmult2_eq [symmetric] power_add)
  ultimately show ?case using e(1) by (intro exI [of _ "e + d"]) (auto simp: add.assoc)
qed

lemma most_significant:
  assumes "0 < x" "x < 2 ^ 256"
  shows "\<exists>m. most_significant x = int m \<and> x div 2 ^ m = 1"
proof -
  have "MSB_SHIFTS = downs 7" by (simp add: MSB_SHIFTS_def numeral_eq_Suc)
  with scan_all [of x 7 0] assms obtain e where e: "msb_scan MSB_SHIFTS x 0 = (x div 2 ^ e, int e)" "0 < x div 2 ^ e"
    "x div 2 ^ e < 4" "even e" by auto
  have h: "x div 2 ^ Suc e = x div 2 ^ e div 2" by (simp add: zdiv_zmult2_eq [symmetric] mult.commute)
  show ?thesis
  proof (cases "x div 2 ^ e > 1")
    case True
    have "int e OR push_bit 0 1 = int e + 1 * 2 ^ 0" by (rule or_shifted) (use e(4) in auto)
    with True e h show ?thesis by (intro exI [of _ "Suc e"]) (simp add: most_significant_def)
  next
    case False
    with e show ?thesis by (intro exI [of _ e]) (simp add: most_significant_def)
  qed
qed

lemma exponent_unique:
  assumes "x div 2 ^ m = (1 :: int)" "y div 2 ^ n = 1" "x \<le> y"
  shows "m \<le> n"
proof (rule ccontr)
  assume "\<not> m \<le> n"
  then have "(2 :: int) ^ Suc n \<le> 2 ^ m" by (intro power_increasing) auto
  moreover have "2 ^ m \<le> x" "y < 2 * 2 ^ n"
    using assms(1,2) div_bounds [of "2 ^ m" x] div_bounds [of "2 ^ n" y] by auto
  ultimately show False using assms(3) by simp
qed

definition normalized :: "int \<Rightarrow> nat \<Rightarrow> int" where
  "normalized x m = (if 128 \<le> m then x div 2 ^ (m - 127) else x * 2 ^ (127 - m))"

lemma normalized_mantissa:
  assumes "x div 2 ^ m = 1"
  shows "mantissa (normalized x m)"
proof -
  have x: "2 ^ m \<le> x" "x < 2 * 2 ^ m" using assms div_bounds [of "2 ^ m" x] by auto
  show ?thesis
  proof (cases "128 \<le> m")
    case True
    then have "(2 :: int) ^ m = 2 ^ (m - 127) * 2 ^ 127" by (simp only: power_add [symmetric]) simp
    with x have "2 ^ 127 \<le> x div 2 ^ (m - 127)" "\<not> 2 ^ 128 \<le> x div 2 ^ (m - 127)" by (simp_all add: div_ge_iff)
    with True show ?thesis by (simp add: mantissa_def normalized_def)
  next
    case False
    then have "(2 :: int) ^ m * 2 ^ (127 - m) = 2 ^ 127" by (simp only: power_add [symmetric]) simp
    moreover have "2 ^ m * 2 ^ (127 - m) \<le> x * 2 ^ (127 - m)" "x * 2 ^ (127 - m) < 2 * 2 ^ m * 2 ^ (127 - m)"
      using x by simp_all
    ultimately show ?thesis using False by (simp add: mantissa_def normalized_def mult.assoc)
  qed
qed

lemma normalized_mono: "x \<le> y \<Longrightarrow> normalized x m \<le> normalized y m"
  by (simp add: normalized_def zdiv_mono1)

lemma log2_of_eq:
  assumes "0 < x" "x < 2 ^ 256" "x div 2 ^ m = 1"
  shows "log2_of x = (int m - 128) * 2 ^ 64 + log_frac 0 (normalized x m)"
proof -
  obtain n where "most_significant x = int n" "x div 2 ^ n = 1" using most_significant [OF assms(1,2)] by blast
  then have "most_significant x = int m"
    using exponent_unique [OF assms(3) \<open>x div 2 ^ n = 1\<close>] exponent_unique [OF \<open>x div 2 ^ n = 1\<close> assms(3)] by simp
  moreover have "(if 128 \<le> int m then drop_bit (nat (int m - 127)) x else push_bit (nat (127 - int m)) x) = normalized x m"
    by (auto simp: normalized_def drop_bit_eq_div push_bit_eq_mult nat_diff_distrib)
  moreover have "log_loop 0 (normalized x m) (push_bit 64 (int m - 128)) = push_bit 64 (int m - 128) + log_frac 0 (normalized x m)"
    by (rule log_loop_frac [OF normalized_mantissa [OF assms(3)]]) (simp_all add: push_bit_eq_mult)
  ultimately show ?thesis by (simp add: log2_of_def push_bit_eq_mult)
qed

lemma log2_of_mono:
  assumes "0 < x" "x \<le> y" "y < 2 ^ 256"
  shows "log2_of x \<le> log2_of y"
proof -
  obtain m where m: "x div 2 ^ m = 1" using most_significant [of x] assms by auto
  obtain n where n: "y div 2 ^ n = 1" using most_significant [of y] assms by auto
  have e: "log2_of x = (int m - 128) * 2 ^ 64 + log_frac 0 (normalized x m)"
    "log2_of y = (int n - 128) * 2 ^ 64 + log_frac 0 (normalized y n)"
    using log2_of_eq m n assms by auto
  have "m \<le> n" by (rule exponent_unique [OF m n assms(2)])
  show ?thesis
  proof (cases "m = n")
    case True
    have "log_frac 0 (normalized x m) \<le> log_frac 0 (normalized y n)"
      unfolding True using m n True by (intro log_frac_mono normalized_mantissa normalized_mono assms(2)) auto
    then show ?thesis using e True by simp
  next
    case False
    have "log_frac 0 (normalized x m) < 2 ^ 64" "0 \<le> log_frac 0 (normalized y n)"
      using log_frac_bounds [OF normalized_mantissa [OF m], of 0] log_frac_bounds [OF normalized_mantissa [OF n], of 0] by auto
    moreover have "(int m - 128 + 1) * 2 ^ 64 \<le> (int n - 128) * 2 ^ 64"
      using False \<open>m \<le> n\<close> by (intro mult_right_mono) auto
    ultimately show ?thesis unfolding e by (simp add: algebra_simps)
  qed
qed

lemma candidates_mono:
  assumes "sqrt_ok p" "sqrt_ok q" "p \<le> q"
  shows "tick_low p \<le> tick_low q" "tick_high p \<le> tick_high q"
proof -
  have "log2_of (push_bit 32 p) \<le> log2_of (push_bit 32 q)"
    by (rule log2_of_mono) (use assms in \<open>auto simp: push_bit_eq_mult sqrt_ok_def MIN_SQRT_RATIO_def MAX_SQRT_RATIO_def\<close>)
  then have "log2_of (push_bit 32 p) * LOG_SQRT_10001 \<le> log2_of (push_bit 32 q) * LOG_SQRT_10001"
    by (intro mult_right_mono) (auto simp: LOG_SQRT_10001_def)
  then show "tick_low p \<le> tick_low q" "tick_high p \<le> tick_high q"
    by (auto simp: tick_low_def tick_high_def drop_bit_eq_div intro!: zdiv_mono1)
qed

lemma candidates_adjacent: "tick_low p \<le> tick_high p" "tick_high p \<le> tick_low p + 1"
proof -
  let ?l = "log2_of (push_bit 32 p) * LOG_SQRT_10001"
  show "tick_low p \<le> tick_high p"
    by (auto simp: tick_low_def tick_high_def drop_bit_eq_div TICK_LOW_ERROR_def TICK_HIGH_ERROR_def intro!: zdiv_mono1)
  have "tick_high p \<le> (?l - TICK_LOW_ERROR + 1 * 2 ^ 128) div 2 ^ 128"
    by (auto simp: tick_high_def drop_bit_eq_div TICK_LOW_ERROR_def TICK_HIGH_ERROR_def intro!: zdiv_mono1)
  also have "\<dots> = tick_low p + 1" by (subst div_mult_self1) (auto simp: tick_low_def drop_bit_eq_div)
  finally show "tick_high p \<le> tick_low p + 1" .
qed

lemma candidates_ends:
  "tick_low MIN_SQRT_RATIO = MIN_TICK - 1" "tick_high MIN_SQRT_RATIO = MIN_TICK"
  "tick_low (MAX_SQRT_RATIO - 1) = MAX_TICK - 1" "tick_high (MAX_SQRT_RATIO - 1) = MAX_TICK"
  by code_simp+

definition tick_at :: "int \<Rightarrow> int" where
  "tick_at p = (if sqrt_at (tick_high p) \<le> p then tick_high p else tick_low p)"

lemma candidate_ok:
  assumes "sqrt_ok p"
  shows "tick_ok (tick_high p)" "MIN_TICK - 1 \<le> tick_low p" "tick_low p < MAX_TICK"
proof -
  have m: "sqrt_ok MIN_SQRT_RATIO" "sqrt_ok (MAX_SQRT_RATIO - 1)" "MIN_SQRT_RATIO \<le> p" "p \<le> MAX_SQRT_RATIO - 1"
    using assms by (auto simp: sqrt_ok_def MIN_SQRT_RATIO_def MAX_SQRT_RATIO_def)
  show "tick_ok (tick_high p)" "MIN_TICK - 1 \<le> tick_low p" "tick_low p < MAX_TICK"
    using candidates_mono [OF m(1) assms m(3)] candidates_mono [OF assms m(2,4)] candidates_ends by (auto simp: tick_ok_def)
qed

lemma getTickAtSqrtRatio_eq:
  assumes "sqrt_ok p"
  shows "getTickAtSqrtRatio p = Inr (if tick_low p = tick_high p then tick_low p else tick_at p)"
proof -
  have "getSqrtRatioAtTick (tick_high p) = Inr (sqrt_at (tick_high p))"
    using candidate_ok(1) [OF assms] by (simp add: getSqrtRatioAtTick_eq)
  then show ?thesis using assms by (simp add: getTickAtSqrtRatio_def tick_at_def Let_def)
qed

lemma tick_at_mono:
  assumes "sqrt_ok p" "sqrt_ok q" "p \<le> q"
  defines "pick \<equiv> \<lambda>p. if tick_low p = tick_high p then tick_low p else tick_at p"
  shows "pick p \<le> pick q"
proof -
  note m = candidates_mono [OF assms(1-3)] and a = candidates_adjacent [of p] candidates_adjacent [of q]
  show ?thesis
  proof (cases "tick_high p = tick_high q")
    case True
    then show ?thesis using m a assms(3) by (auto simp: pick_def tick_at_def)
  next
    case False
    then show ?thesis using m a by (auto simp: pick_def tick_at_def)
  qed
qed

section \<open>Amounts\<close>

lemma amount0_between:
  assumes "0 < low" "low \<le> high" "0 \<le> liquidity"
  shows "getAmount0ForLiquidity low high liquidity = Inr (liquidity * 2 ^ 96 * (high - low) div (high * low))"
proof -
  have "0 \<le> liquidity * 2 ^ 96 * (high - low)" using assms by simp
  moreover from this have "0 \<le> liquidity * 2 ^ 96 * (high - low) div high" using assms by (simp add: pos_imp_zdiv_nonneg_iff)
  ultimately show ?thesis
    using assms by (simp add: getAmount0ForLiquidity_def Let_def floorDiv_eq push_bit_eq_mult zdiv_zmult2_eq)
qed

lemma amount1_between:
  "0 < low \<Longrightarrow> low \<le> high \<Longrightarrow> 0 \<le> liquidity \<Longrightarrow>
     getAmount1ForLiquidity low high liquidity = Inr (liquidity * (high - low) div 2 ^ 96)"
  by (simp add: getAmount1ForLiquidity_def Let_def floorDiv_eq Q96_def push_bit_eq_mult)

lemma sqrt_at_pos: "tick_ok t \<Longrightarrow> 0 < sqrt_at t"
  using sqrt_at_less [of MIN_TICK t] sqrt_at_ends(1) by (cases "t = MIN_TICK") (auto simp: tick_ok_def MIN_SQRT_RATIO_def)

lemma sqrt_at_le_iff: "tick_ok s \<Longrightarrow> tick_ok t \<Longrightarrow> sqrt_at s \<le> sqrt_at t \<longleftrightarrow> s \<le> t"
  using sqrt_at_less [of s t] sqrt_at_less [of t s] by (cases s t rule: linorder_cases) auto

text \<open>The amounts over the reals' exact figures, with one floor each: what each side is made of as a function of
  the price held to the range.\<close>

definition held_to :: "int \<Rightarrow> int \<Rightarrow> int \<Rightarrow> int" where
  "held_to low high p = max low (min high p)"

lemma held_to_bounds: "low \<le> high \<Longrightarrow> low \<le> held_to low high p \<and> held_to low high p \<le> high"
  by (simp add: held_to_def)

lemma amounts_eq:
  assumes "sqrt_ok p" "tick_ok l" "tick_ok u" "l < u" "0 \<le> liquidity"
  defines "c \<equiv> held_to (sqrt_at l) (sqrt_at u) p"
  shows "getAmountsForLiquidity p l u liquidity = Inr \<lparr>
    pa_amount0 = liquidity * 2 ^ 96 * (sqrt_at u - c) div (sqrt_at u * c),
    pa_amount1 = liquidity * (c - sqrt_at l) div 2 ^ 96\<rparr>"
proof -
  have lu: "0 < sqrt_at l" "sqrt_at l < sqrt_at u" using sqrt_at_pos sqrt_at_less assms by auto
  have "getSqrtRatioAtTick l = Inr (sqrt_at l)" "getSqrtRatioAtTick u = Inr (sqrt_at u)"
    using assms by (simp_all add: getSqrtRatioAtTick_eq)
  with assms lu show ?thesis
    by (auto simp: getAmountsForLiquidity_def amounts_between_def c_def held_to_def amount0_between amount1_between)
qed

section \<open>Price strings\<close>

lemma priceToAtto_rendered:
  assumes "0 \<le> a"
  shows "priceToAtto (int_str (bdiv a TICK_PRICE_SCALE) @ ''.'' @
           padStart PRICE_DECIMALS CHR ''0'' (int_str (bmod a TICK_PRICE_SCALE))) = Inr a"
proof -
  define i where "i = nat_str (nat (a div PRICE_SCALE))"
  define f where "f = padStart 18 CHR ''0'' (nat_str (nat (a mod PRICE_SCALE)))"
  have sc: "TICK_PRICE_SCALE = PRICE_SCALE" by (simp add: TICK_PRICE_SCALE_def PRICE_SCALE_def PRICE_DECIMALS_def)
  have r0: "0 \<le> a mod PRICE_SCALE" "a mod PRICE_SCALE < 10 ^ 18" by (simp_all add: PRICE_SCALE_def)
  then have "nat (a mod PRICE_SCALE) < 10 ^ 18" by (simp add: nat_less_iff)
  then have len: "length f = 18"
    using length_nat_str_le [of 18 "nat (a mod PRICE_SCALE)"] by (simp add: f_def)
  have dig: "list_all is_digit f" by (simp add: f_def padStart_digits)
  have m: "decimal_match 18 (i @ ''.'' @ f) = Some (i, f)"
    using len dig by (auto simp: decimal_match_Some i_def)
  have val: "digits_val (padEnd 18 CHR ''0'' f) = nat (a mod PRICE_SCALE)"
    by (simp add: digits_val_padEnd len) (simp add: f_def)
  have "int_str (bdiv a TICK_PRICE_SCALE) = i" "padStart PRICE_DECIMALS CHR ''0'' (int_str (bmod a TICK_PRICE_SCALE)) = f"
    using assms r0 by (simp_all add: sc i_def f_def PRICE_DECIMALS_def int_str_nonneg bdiv_nonneg bmod_nonneg
      pos_imp_zdiv_nonneg_iff)
  moreover have "int (digits_val i) * PRICE_SCALE + int (digits_val (padEnd 18 CHR ''0'' f)) = a"
    using assms r0 by (simp add: i_def val pos_imp_zdiv_nonneg_iff)
  ultimately show ?thesis by (simp only: priceToAtto_def m option.case prod.case)
qed

section \<open>Properties\<close>

text \<open>The price ladder: every tick of the range has a price, the prices increase strictly from tick to tick over
  the whole range, and the first and the last are the two published bounds.\<close>

theorem tick_ladder:
  assumes "MIN_TICK \<le> s" "s < t" "t \<le> MAX_TICK"
  shows "\<exists>p q. getSqrtRatioAtTick s = Inr p \<and> getSqrtRatioAtTick t = Inr q \<and> MIN_SQRT_RATIO \<le> p \<and> p < q \<and>
    q \<le> MAX_SQRT_RATIO \<and> (s = MIN_TICK \<longrightarrow> p = MIN_SQRT_RATIO) \<and> (t = MAX_TICK \<longrightarrow> q = MAX_SQRT_RATIO)"
proof -
  have ok: "tick_ok s" "tick_ok t" "tick_ok MIN_TICK" "tick_ok MAX_TICK" using assms by (auto simp: tick_ok_def)
  have "sqrt_at MIN_TICK \<le> sqrt_at s" "sqrt_at t \<le> sqrt_at MAX_TICK" using ok assms by (simp_all add: sqrt_at_le_iff)
  with ok sqrt_at_less [OF ok(1,2) assms(2)] show ?thesis
    by (intro exI [of _ "sqrt_at s"] exI [of _ "sqrt_at t"]) (auto simp: getSqrtRatioAtTick_eq sqrt_at_ends [simplified])
qed

theorem tick_ladder_witness:
  "\<exists>p q. getSqrtRatioAtTick (- 1) = Inr p \<and> getSqrtRatioAtTick 0 = Inr q \<and> p < q"
  using tick_ladder [of "- 1" 0] by auto

text \<open>C15. The lookup of a tick never fails on a price a pool can have, stays on the ticks such a price can have,
  and never answers a lower tick for a higher price.\<close>

theorem tick_lookup:
  assumes "MIN_SQRT_RATIO \<le> p" "p \<le> q" "q < MAX_SQRT_RATIO"
  shows "\<exists>s t. getTickAtSqrtRatio p = Inr s \<and> getTickAtSqrtRatio q = Inr t \<and> MIN_TICK \<le> s \<and> s \<le> t \<and> t < MAX_TICK"
proof -
  have ok: "sqrt_ok p" "sqrt_ok q" "sqrt_ok MIN_SQRT_RATIO" "sqrt_ok (MAX_SQRT_RATIO - 1)"
    using assms by (auto simp: sqrt_ok_def MIN_SQRT_RATIO_def MAX_SQRT_RATIO_def)
  have "MIN_SQRT_RATIO \<le> p" "q \<le> MAX_SQRT_RATIO - 1" using assms by auto
  from tick_at_mono [OF ok(3,1) this(1)] tick_at_mono [OF ok(1,2) assms(2)] tick_at_mono [OF ok(2,4) this(2)]
  show ?thesis
    using candidates_ends sqrt_at_ends [simplified]
    by (simp add: getTickAtSqrtRatio_eq ok tick_at_def)
qed

theorem tick_lookup_witness:
  "\<exists>s t. getTickAtSqrtRatio Q96 = Inr s \<and> getTickAtSqrtRatio (2 * Q96) = Inr t \<and> s \<le> t"
  using tick_lookup [of Q96 "2 * Q96"]
  by (auto simp: Q96_def push_bit_eq_mult MIN_SQRT_RATIO_def MAX_SQRT_RATIO_def)

text \<open>A pool price rendered as a string is what the risk engine reads back, without a second rounding: parsing it
  gives exactly the floor of the pool's price in atto-units.\<close>

theorem price_string:
  assumes "priceFromSqrtPriceX96 p d0 d1 = Inr s"
  shows "priceToAtto s = Inr (p * p * 10 ^ nat d0 * 10 ^ 18 div (2 ^ 192 * 10 ^ nat d1))"
proof -
  have n: "0 \<le> p * p * 10 ^ nat d0 * TICK_PRICE_SCALE" by (simp add: TICK_PRICE_SCALE_def)
  have d: "Q96 * Q96 * 10 ^ nat d1 = 2 ^ 192 * 10 ^ nat d1" by (simp add: Q96_def push_bit_eq_mult)
  obtain q where q: "floorDiv (p * p * 10 ^ nat d0 * TICK_PRICE_SCALE) (2 ^ 192 * 10 ^ nat d1) = Inr q"
    and s: "s = int_str (bdiv q TICK_PRICE_SCALE) @ ''.'' @ padStart PRICE_DECIMALS CHR ''0'' (int_str (bmod q TICK_PRICE_SCALE))"
    using assms by (auto simp: priceFromSqrtPriceX96_def sbind_eq_Inr Let_def d)
  have "q = p * p * 10 ^ nat d0 * 10 ^ 18 div (2 ^ 192 * 10 ^ nat d1)"
    using q n by (simp add: floorDiv_Inr TICK_PRICE_SCALE_def PRICE_DECIMALS_def)
  moreover have "0 \<le> q" using q n by (auto simp: floorDiv_Inr pos_imp_zdiv_nonneg_iff)
  ultimately show ?thesis by (simp only: s priceToAtto_rendered)
qed

theorem price_string_witness:
  "\<exists>s. priceFromSqrtPriceX96 (2 * Q96) 18 18 = Inr s \<and> priceToAtto s = Inr (4 * 10 ^ 18)"
proof -
  have "\<exists>s. priceFromSqrtPriceX96 (2 * Q96) 18 18 = Inr s"
    by (simp add: priceFromSqrtPriceX96_def sqrt_ok_def assertDecimals_def MAX_DECIMALS_def floorDiv_eq Q96_def
        push_bit_eq_mult MIN_SQRT_RATIO_def MAX_SQRT_RATIO_def TICK_PRICE_SCALE_def PRICE_DECIMALS_def Let_def)
  then obtain s where s: "priceFromSqrtPriceX96 (2 * Q96) 18 18 = Inr s" ..
  with price_string [OF s] show ?thesis by (simp add: Q96_def push_bit_eq_mult)
qed

text \<open>C33. What a position is made of, exactly: with the price held to the range, each amount is the exact figure
  rounded down once (the two nested divisions of the token0 side amount to one), so a position is never
  reported to hold more than it does; at or below the range it is all token0, at or above it all token1.\<close>

theorem range_amounts:
  assumes "getAmountsForLiquidity p l u liquidity = Inr a"
  shows "\<exists>lower upper c. getSqrtRatioAtTick l = Inr lower \<and> getSqrtRatioAtTick u = Inr upper \<and> 0 < lower \<and> lower < upper \<and>
    c = max lower (min upper p) \<and>
    pa_amount0 a = liquidity * 2 ^ 96 * (upper - c) div (upper * c) \<and> pa_amount1 a = liquidity * (c - lower) div 2 ^ 96 \<and>
    0 \<le> pa_amount0 a \<and> 0 \<le> pa_amount1 a \<and> (p \<le> lower \<longrightarrow> pa_amount1 a = 0) \<and> (upper \<le> p \<longrightarrow> pa_amount0 a = 0)"
proof -
  have ok: "sqrt_ok p" "tick_ok l" "tick_ok u" "l < u" "0 \<le> liquidity"
    using assms by (auto simp: getAmountsForLiquidity_def sbind_eq_Inr split: if_splits)
  have lu: "0 < sqrt_at l" "sqrt_at l < sqrt_at u" using sqrt_at_pos sqrt_at_less ok by auto
  define c where "c = held_to (sqrt_at l) (sqrt_at u) p"
  have c: "sqrt_at l \<le> c" "c \<le> sqrt_at u" "p \<le> sqrt_at l \<Longrightarrow> c = sqrt_at l" "sqrt_at u \<le> p \<Longrightarrow> c = sqrt_at u"
    using lu by (auto simp: c_def held_to_def)
  have a: "pa_amount0 a = liquidity * 2 ^ 96 * (sqrt_at u - c) div (sqrt_at u * c)"
    "pa_amount1 a = liquidity * (c - sqrt_at l) div 2 ^ 96"
    using assms amounts_eq [OF ok] by (auto simp: c_def)
  have "0 < sqrt_at u * c" "0 \<le> liquidity * 2 ^ 96 * (sqrt_at u - c)" "0 \<le> liquidity * (c - sqrt_at l)"
    using lu c(1,2) ok(5) by simp_all
  then have "0 \<le> pa_amount0 a" "0 \<le> pa_amount1 a" unfolding a by (simp_all only: pos_imp_zdiv_nonneg_iff) simp
  moreover have "p \<le> sqrt_at l \<longrightarrow> pa_amount1 a = 0" "sqrt_at u \<le> p \<longrightarrow> pa_amount0 a = 0" using a c(3,4) by simp_all
  moreover have "c = max (sqrt_at l) (min (sqrt_at u) p)" by (simp add: c_def held_to_def)
  moreover have "getSqrtRatioAtTick l = Inr (sqrt_at l)" "getSqrtRatioAtTick u = Inr (sqrt_at u)"
    using ok by (simp_all add: getSqrtRatioAtTick_eq)
  ultimately show ?thesis using lu a by (intro exI conjI)
qed

theorem range_amounts_witness:
  "\<exists>a lower. getAmountsForLiquidity MIN_SQRT_RATIO (- 10) 10 (10 ^ 18) = Inr a \<and> getSqrtRatioAtTick (- 10) = Inr lower \<and>
     MIN_SQRT_RATIO \<le> lower \<and> pa_amount1 a = 0"
proof -
  have ok: "sqrt_ok MIN_SQRT_RATIO" "tick_ok (- 10)" "tick_ok 10"
    by (simp_all add: sqrt_ok_def MIN_SQRT_RATIO_def MAX_SQRT_RATIO_def tick_ok_def)
  obtain a where a: "getAmountsForLiquidity MIN_SQRT_RATIO (- 10) 10 (10 ^ 18) = Inr a"
    using amounts_eq [OF ok, of "10 ^ 18"] by auto
  have "MIN_SQRT_RATIO \<le> sqrt_at (- 10)"
    using sqrt_at_le_iff [of MIN_TICK "- 10"] ok sqrt_at_ends(1) by (simp add: tick_ok_def)
  with range_amounts [OF a] a show ?thesis by (auto simp: getSqrtRatioAtTick_eq)
qed

end
