(* ===== verification/Range_Plan.thy ===== *)
theory Range_Plan
  imports Tick_Props
begin

text \<open>
  \<open>src/runtime/src/liquidity/evm/range-plan.ts\<close>: what a concentrated-liquidity position would need
  before it exists. Ticks and spacings are \<open>int\<close>; the file's own copies of \<open>assertTick\<close> and
  \<open>assertSqrtRatio\<close> are those of \<open>Tick_Math\<close>, which have the same bodies. The binary search of
  \<open>halfWidthTicksForBps\<close> is a recursion on the width of its interval.
\<close>

section \<open>Constants and guards\<close>

definition MAX_TICK_SPACING :: int where "MAX_TICK_SPACING = 16384"
definition MAX_UINT128 :: int where "MAX_UINT128 = push_bit 128 1 - 1"
definition Q192 :: int where "Q192 = Q96 * Q96"
definition MAX_HALF_WIDTH_TICKS :: int where "MAX_HALF_WIDTH_TICKS = MAX_TICK - MIN_TICK"
definition MAX_WIDTH_BPS :: int where "MAX_WIDTH_BPS = 1000000"

definition assertTickSpacing :: "int \<Rightarrow> int result" where
  "assertTickSpacing tickSpacing =
     (if tickSpacing \<le> 0 \<or> tickSpacing > MAX_TICK_SPACING
      then Inl (AppError E_SCHEMA_INVALID ''Tick spacing is not one a v3 pool could report'') else Inr tickSpacing)"

definition assertRange :: "int \<Rightarrow> int \<Rightarrow> unit result" where
  "assertRange tickLower tickUpper =
     sbind (assertTick tickLower ''tickLower'') (\<lambda>_. sbind (assertTick tickUpper ''tickUpper'') (\<lambda>_.
       if tickLower \<ge> tickUpper then Inl (AppError E_SCHEMA_INVALID ''Position range is empty or inverted'') else Inr ()))"

definition assertAmount :: "int \<Rightarrow> string \<Rightarrow> unit result" where
  "assertAmount amount field =
     (if amount < 0 then Inl (AppError E_SCHEMA_INVALID (field @ '' is negative'')) else Inr ())"

definition assertPositiveSpan :: "int \<Rightarrow> int \<Rightarrow> unit result" where
  "assertPositiveSpan low high =
     (if low \<le> 0 then Inl (AppError E_SCHEMA_INVALID ''A sqrt price bound is not positive'')
      else if high = low then Inl (AppError E_SCHEMA_INVALID ''A liquidity range of zero width holds nothing'')
      else Inr ())"

section \<open>Tick alignment\<close>

definition alignDown :: "int \<Rightarrow> int \<Rightarrow> int" where
  "alignDown v spacing = (let quotient = bdiv v spacing;
     floored = (if bmod v spacing = 0 \<or> v \<ge> 0 then quotient else quotient - 1) in floored * spacing)"

definition alignUp :: "int \<Rightarrow> int \<Rightarrow> int" where
  "alignUp v spacing = (let quotient = bdiv v spacing;
     ceiled = (if bmod v spacing = 0 \<or> v \<le> 0 then quotient else quotient + 1) in ceiled * spacing)"

definition intoRange :: "int \<Rightarrow> int \<Rightarrow> int" where
  "intoRange aligned spacing = (if aligned < MIN_TICK then aligned + spacing
     else if aligned > MAX_TICK then aligned - spacing else aligned)"

definition clamp :: "int \<Rightarrow> int" where
  "clamp tick = (if tick < MIN_TICK then MIN_TICK else if tick > MAX_TICK then MAX_TICK else tick)"

definition isUsableTick :: "int \<Rightarrow> int \<Rightarrow> bool result" where
  "isUsableTick tick tickSpacing = sbind (assertTickSpacing tickSpacing) (\<lambda>spacing.
     Inr (if tick < MIN_TICK \<or> tick > MAX_TICK then False else bmod tick spacing = 0))"

definition alignTickDown :: "int \<Rightarrow> int \<Rightarrow> int result" where
  "alignTickDown tick tickSpacing = sbind (assertTickSpacing tickSpacing) (\<lambda>spacing.
     sbind (assertTick tick ''tick'') (\<lambda>_. Inr (intoRange (alignDown tick spacing) spacing)))"

definition alignTickUp :: "int \<Rightarrow> int \<Rightarrow> int result" where
  "alignTickUp tick tickSpacing = sbind (assertTickSpacing tickSpacing) (\<lambda>spacing.
     sbind (assertTick tick ''tick'') (\<lambda>_. Inr (intoRange (alignUp tick spacing) spacing)))"

definition nearestUsableTick :: "int \<Rightarrow> int \<Rightarrow> int result" where
  "nearestUsableTick tick tickSpacing = sbind (assertTickSpacing tickSpacing) (\<lambda>spacing.
     sbind (assertTick tick ''tick'') (\<lambda>_.
       let rounded = bdiv (alignDown (tick * 2 + spacing) (spacing * 2)) 2 in Inr (intoRange rounded spacing)))"

section \<open>A range from a width\<close>

datatype range_rounding = Outward | Inward

record tick_range =
  rg_tickLower :: int
  rg_tickUpper :: int

definition rangeFromHalfWidth :: "int \<Rightarrow> int \<Rightarrow> int \<Rightarrow> range_rounding \<Rightarrow> tick_range result" where
  "rangeFromHalfWidth currentTick halfWidthTicks tickSpacing rounding =
     sbind (assertTickSpacing tickSpacing) (\<lambda>spacing. sbind (assertTick currentTick ''currentTick'') (\<lambda>_.
       if halfWidthTicks < 0 \<or> halfWidthTicks > MAX_HALF_WIDTH_TICKS
       then Inl (AppError E_SCHEMA_INVALID ''Range half-width is not a usable tick count'')
       else let
         desiredLower = clamp (currentTick - halfWidthTicks);
         desiredUpper = clamp (currentTick + halfWidthTicks);
         tickLower = intoRange (if rounding = Outward then alignDown desiredLower spacing else alignUp desiredLower spacing) spacing;
         tickUpper = intoRange (if rounding = Outward then alignUp desiredUpper spacing else alignDown desiredUpper spacing) spacing
       in if tickLower \<ge> tickUpper
          then Inl (AppError E_SCHEMA_INVALID ''Range collapses to zero width at this tick spacing'')
          else Inr \<lparr>rg_tickLower = tickLower, rg_tickUpper = tickUpper\<rparr>))"

lemma probe_between: "low < high \<Longrightarrow> low < bdiv (low + high + 1) 2 \<and> bdiv (low + high + 1) 2 \<le> high"
  by (cases "0 \<le> low + high + 1") (auto simp: bdiv_nonneg bdiv_neg)

text \<open>The search interval \<open>low .. high\<close> shrinks at every probe; \<open>getSqrtRatioAtTick\<close> is the only call
  that could raise.\<close>

function width_search :: "int \<Rightarrow> int \<Rightarrow> int \<Rightarrow> int result" where
  "width_search ceilingX192 low high =
     (if low < high
      then let mid = bdiv (low + high + 1) 2 in
        sbind (getSqrtRatioAtTick mid) (\<lambda>boundary.
          if boundary * boundary * BPS_DENOM \<le> ceilingX192 then width_search ceilingX192 mid high
          else width_search ceilingX192 low (mid - 1))
      else Inr low)"
  by pat_completeness auto
termination by (relation "measure (\<lambda>(_, low, high). nat (high - low))") (use probe_between in \<open>fastforce+\<close>)

declare width_search.simps [simp del]

definition halfWidthTicksForBps :: "int \<Rightarrow> int result" where
  "halfWidthTicksForBps bps =
     (if bps < 0 \<or> bps > MAX_WIDTH_BPS
      then Inl (AppError E_SCHEMA_INVALID ''Range width in basis points is out of range'')
      else width_search ((BPS_DENOM + bps) * Q192) 0 MAX_TICK)"

section \<open>The solver\<close>

definition getLiquidityForAmount0 :: "int \<Rightarrow> int \<Rightarrow> int \<Rightarrow> int result" where
  "getLiquidityForAmount0 a b amount0 = (let low = (if a \<le> b then a else b); high = (if a \<le> b then b else a) in
     sbind (assertPositiveSpan low high) (\<lambda>_. sbind (assertAmount amount0 ''amount0'') (\<lambda>_.
     sbind (floorDiv (low * high) Q96) (\<lambda>intermediate. floorDiv (amount0 * intermediate) (high - low)))))"

definition getLiquidityForAmount1 :: "int \<Rightarrow> int \<Rightarrow> int \<Rightarrow> int result" where
  "getLiquidityForAmount1 a b amount1 = (let low = (if a \<le> b then a else b); high = (if a \<le> b then b else a) in
     sbind (assertPositiveSpan low high) (\<lambda>_. sbind (assertAmount amount1 ''amount1'') (\<lambda>_.
     floorDiv (amount1 * Q96) (high - low))))"

definition liquidity_between :: "int \<Rightarrow> int \<Rightarrow> int \<Rightarrow> int \<Rightarrow> int \<Rightarrow> int result" where
  "liquidity_between sqrtPriceX96 lower upper amount0 amount1 =
     (if sqrtPriceX96 \<le> lower then getLiquidityForAmount0 lower upper amount0
      else if sqrtPriceX96 < upper
      then sbind (getLiquidityForAmount0 sqrtPriceX96 upper amount0) (\<lambda>liquidity0.
        sbind (getLiquidityForAmount1 lower sqrtPriceX96 amount1) (\<lambda>liquidity1.
          Inr (if liquidity0 < liquidity1 then liquidity0 else liquidity1)))
      else getLiquidityForAmount1 lower upper amount1)"

definition maxLiquidityForAmounts :: "int \<Rightarrow> int \<Rightarrow> int \<Rightarrow> int \<Rightarrow> int \<Rightarrow> int result" where
  "maxLiquidityForAmounts sqrtPriceX96 tickLower tickUpper amount0 amount1 =
     sbind (assertSqrtRatio sqrtPriceX96) (\<lambda>_. sbind (assertRange tickLower tickUpper) (\<lambda>_.
     sbind (assertAmount amount0 ''amount0'') (\<lambda>_. sbind (assertAmount amount1 ''amount1'') (\<lambda>_.
     sbind (getSqrtRatioAtTick tickLower) (\<lambda>lower. sbind (getSqrtRatioAtTick tickUpper) (\<lambda>upper.
     sbind (liquidity_between sqrtPriceX96 lower upper amount0 amount1) (\<lambda>liquidity.
       if liquidity > MAX_UINT128
       then Inl (AppError E_SCHEMA_INVALID ''Position liquidity overflows the pool uint128'')
       else Inr liquidity)))))))"

definition maxLiquidityPerTick :: "int \<Rightarrow> int result" where
  "maxLiquidityPerTick tickSpacing = sbind (assertTickSpacing tickSpacing) (\<lambda>spacing.
     let minTick = bdiv MIN_TICK spacing * spacing;
         maxTick = bdiv MAX_TICK spacing * spacing;
         numTicks = bdiv (maxTick - minTick) spacing + 1
     in floorDiv MAX_UINT128 numTicks)"

section \<open>Where the price sits\<close>

datatype range_side = Below | In_range | Above

record range_status =
  rs_side :: range_side
  rs_widthTicks :: int
  rs_ticksToLower :: int
  rs_ticksToUpper :: int
  rs_ticksOutside :: int
  rs_outsideBps :: int

definition rangeStatus :: "int \<Rightarrow> int \<Rightarrow> int \<Rightarrow> range_status result" where
  "rangeStatus tick tickLower tickUpper =
     sbind (assertTick tick ''tick'') (\<lambda>_. sbind (assertRange tickLower tickUpper) (\<lambda>_.
     sbind (if tick < tickLower then Inr Below
            else sbind (isTickInRange tick tickLower tickUpper) (\<lambda>r. Inr (if r then In_range else Above))) (\<lambda>side.
       let ticksToLower = tick - tickLower;
           ticksToUpper = tickUpper - tick;
           ticksOutside = (if ticksToLower < 0 then - ticksToLower else if ticksToUpper < 0 then - ticksToUpper else 0);
           widthTicks = tickUpper - tickLower
       in sbind (ceilDiv (ticksOutside * BPS_DENOM) widthTicks) (\<lambda>outsideBps.
         Inr \<lparr>rs_side = side, rs_widthTicks = widthTicks, rs_ticksToLower = ticksToLower, rs_ticksToUpper = ticksToUpper,
           rs_ticksOutside = ticksOutside, rs_outsideBps = outsideBps\<rparr>))))"

section \<open>Minimums and the plan\<close>

record minimum_amounts =
  mn_amount0Min :: int
  mn_amount1Min :: int

definition minimumAmounts :: "position_amounts \<Rightarrow> int \<Rightarrow> minimum_amounts result" where
  "minimumAmounts amounts slippageBps =
     sbind (assertAmount (pa_amount0 amounts) ''amount0'') (\<lambda>_. sbind (assertAmount (pa_amount1 amounts) ''amount1'') (\<lambda>_.
       if slippageBps < 0 \<or> slippageBps > BPS_DENOM
       then Inl (AppError E_SCHEMA_INVALID ''Slippage in basis points is out of range'')
       else let keep = BPS_DENOM - slippageBps in
         sbind (ceilDiv (pa_amount0 amounts * keep) BPS_DENOM) (\<lambda>a0.
         sbind (ceilDiv (pa_amount1 amounts * keep) BPS_DENOM) (\<lambda>a1.
           Inr \<lparr>mn_amount0Min = a0, mn_amount1Min = a1\<rparr>))))"

record range_plan_request =
  rr_sqrtPriceX96 :: int
  rr_tickLower :: int
  rr_tickUpper :: int
  rr_tickSpacing :: int
  rr_amount0 :: int
  rr_amount1 :: int
  rr_slippageBps :: int

record range_plan =
  rp_tickLower :: int
  rp_tickUpper :: int
  rp_tickSpacing :: int
  rp_sqrtPriceX96 :: string
  rp_tick :: int
  rp_side :: range_side
  rp_liquidity :: string
  rp_amount0 :: string
  rp_amount1 :: string
  rp_amount0Min :: string
  rp_amount1Min :: string
  rp_unused0 :: string
  rp_unused1 :: string
  rp_slippageBps :: int

definition plan_of :: "range_plan_request \<Rightarrow> int \<Rightarrow> position_amounts \<Rightarrow> minimum_amounts \<Rightarrow> int \<Rightarrow> range_status \<Rightarrow> range_plan" where
  "plan_of rq liquidity amounts minimums tick status =
     \<lparr>rp_tickLower = rr_tickLower rq, rp_tickUpper = rr_tickUpper rq, rp_tickSpacing = rr_tickSpacing rq,
      rp_sqrtPriceX96 = int_str (rr_sqrtPriceX96 rq), rp_tick = tick, rp_side = rs_side status,
      rp_liquidity = int_str liquidity,
      rp_amount0 = int_str (pa_amount0 amounts), rp_amount1 = int_str (pa_amount1 amounts),
      rp_amount0Min = int_str (mn_amount0Min minimums), rp_amount1Min = int_str (mn_amount1Min minimums),
      rp_unused0 = int_str (rr_amount0 rq - pa_amount0 amounts), rp_unused1 = int_str (rr_amount1 rq - pa_amount1 amounts),
      rp_slippageBps = rr_slippageBps rq\<rparr>"

definition planRange :: "range_plan_request \<Rightarrow> range_plan result" where
  "planRange rq = (let p = rr_sqrtPriceX96 rq; l = rr_tickLower rq; u = rr_tickUpper rq; s = rr_tickSpacing rq;
       amount0 = rr_amount0 rq; amount1 = rr_amount1 rq in
     sbind (assertSqrtRatio p) (\<lambda>_. sbind (assertRange l u) (\<lambda>_.
     sbind (assertAmount amount0 ''amount0'') (\<lambda>_. sbind (assertAmount amount1 ''amount1'') (\<lambda>_.
     sbind (isUsableTick l s) (\<lambda>usableLower. sbind (if \<not> usableLower then Inr False else isUsableTick u s) (\<lambda>usable.
       if \<not> usable then Inl (AppError E_SCHEMA_INVALID ''A range bound is not a usable tick'')
       else if amount0 = 0 \<and> amount1 = 0 then Inl (AppError E_SCHEMA_INVALID ''A position cannot be planned with no capital'')
       else sbind (maxLiquidityForAmounts p l u amount0 amount1) (\<lambda>liquidity. sbind (maxLiquidityPerTick s) (\<lambda>cap.
         if liquidity > cap then Inl (AppError E_SCHEMA_INVALID ''Position liquidity exceeds what one tick may carry'')
         else sbind (getAmountsForLiquidity p l u liquidity) (\<lambda>amounts.
           if pa_amount0 amounts > amount0 \<or> pa_amount1 amounts > amount1
           then Inl (AppError E_INTERNAL ''Planned amounts exceed the capital they were solved from'')
           else sbind (minimumAmounts amounts (rr_slippageBps rq)) (\<lambda>minimums. sbind (getTickAtSqrtRatio p) (\<lambda>tick.
             sbind (rangeStatus tick l u) (\<lambda>status. Inr (plan_of rq liquidity amounts minimums tick status))))))))))))))"

end
