(* ===== verification/Range_Props.thy ===== *)
theory Range_Props
  imports Range_Plan
begin

text \<open>
  Correctness of \<open>Range_Plan\<close>: alignment picks the extreme usable tick on its side, the binary search finds the
  widest band within the requested percentage, the liquidity solved from a capital never costs more than that
  capital, so the internal check of \<open>planRange\<close> cannot fire, and the cap of a tick times the number of usable
  ticks fits the pool's 128 bits.
\<close>

section \<open>Guards\<close>

definition spacing_ok :: "int \<Rightarrow> bool" where
  "spacing_ok s \<longleftrightarrow> 0 < s \<and> s \<le> MAX_TICK_SPACING"

lemma assertTickSpacing_Inr [simp]: "assertTickSpacing s = Inr r \<longleftrightarrow> spacing_ok s \<and> r = s"
  by (auto simp: assertTickSpacing_def spacing_ok_def)

lemma assertRange_Inr [simp]: "assertRange l u = Inr x \<longleftrightarrow> tick_ok l \<and> tick_ok u \<and> l < u"
  by (auto simp: assertRange_def sbind_eq_Inr)

lemma assertAmount_Inr [simp]: "assertAmount a f = Inr x \<longleftrightarrow> 0 \<le> a"
  by (auto simp: assertAmount_def)

lemma assertPositiveSpan_Inr [simp]: "assertPositiveSpan l h = Inr x \<longleftrightarrow> 0 < l \<and> h \<noteq> l"
  by (auto simp: assertPositiveSpan_def)

section \<open>Alignment\<close>

text \<open>A tick the pool accepts as a bound.\<close>

definition usable :: "int \<Rightarrow> int \<Rightarrow> bool" where
  "usable s t \<longleftrightarrow> tick_ok t \<and> s dvd t"

lemma isUsableTick_Inr: "isUsableTick t s = Inr b \<longleftrightarrow> spacing_ok s \<and> b = usable s t"
  by (auto simp: isUsableTick_def sbind_eq_Inr usable_def tick_ok_def bmod_eq_0_iff spacing_ok_def)

lemma alignDown_eq: "0 < s \<Longrightarrow> alignDown v s = v div s * s"
  by (cases "0 \<le> v")
     (auto simp: alignDown_def Let_def bdiv_nonneg bdiv_neg bmod_eq_0_iff zdiv_zminus1_eq_if mod_eq_0_iff_dvd)

lemma alignUp_eq: "0 < s \<Longrightarrow> alignUp v s = - (- v div s * s)"
  by (cases "0 \<le> v")
     (auto simp: alignUp_def Let_def bdiv_nonneg bdiv_neg bmod_eq_0_iff zdiv_zminus1_eq_if mod_eq_0_iff_dvd
       algebra_simps)

lemma multiples_apart: "(s :: int) dvd x \<Longrightarrow> s dvd y \<Longrightarrow> y < x \<Longrightarrow> 0 < s \<Longrightarrow> y + s \<le> x"
  using zdvd_imp_le [of s "x - y"] by simp

text \<open>Below the tick by less than a spacing, and a multiple: this determines the floor, and its mirror the
  ceiling.\<close>

lemma alignDown_props: "0 < s \<Longrightarrow> s dvd alignDown v s \<and> alignDown v s \<le> v \<and> v < alignDown v s + s"
  using div_bounds [of s v] by (simp add: alignDown_eq algebra_simps)

lemma alignUp_props: "0 < s \<Longrightarrow> s dvd alignUp v s \<and> v \<le> alignUp v s \<and> alignUp v s < v + s"
  using div_bounds [of s "- v"] by (simp add: alignUp_eq algebra_simps)

lemma intoRange_usable:
  assumes "spacing_ok s" "s dvd v" "MIN_TICK - s < v" "v < MAX_TICK + s"
  shows "usable s (intoRange v s)"
    "intoRange v s = v \<or> v < MIN_TICK \<and> intoRange v s = v + s \<or> MAX_TICK < v \<and> intoRange v s = v - s"
  using assms by (auto simp: intoRange_def usable_def tick_ok_def spacing_ok_def MAX_TICK_SPACING_def)

text \<open>No usable tick lies strictly between an aligned value out of range and where it is pulled back to.\<close>

lemma usable_beyond:
  assumes "usable s x" "s dvd v" "0 < s"
  shows "v < MIN_TICK \<Longrightarrow> v + s \<le> x" "MAX_TICK < v \<Longrightarrow> x \<le> v - s"
  using multiples_apart [of s x v] multiples_apart [of s v x] assms by (auto simp: usable_def tick_ok_def)

definition down_tick :: "int \<Rightarrow> int \<Rightarrow> int" where "down_tick s v = intoRange (alignDown v s) s"
definition up_tick :: "int \<Rightarrow> int \<Rightarrow> int" where "up_tick s v = intoRange (alignUp v s) s"

lemma down_tick:
  assumes "spacing_ok s" "tick_ok v"
  shows "usable s (down_tick s v)" "\<And>x. usable s x \<Longrightarrow> x \<le> v \<Longrightarrow> x \<le> down_tick s v"
    "down_tick s v \<le> v \<or> (\<forall>x. usable s x \<longrightarrow> down_tick s v \<le> x)"
proof -
  have s: "0 < s" using assms(1) by (simp add: spacing_ok_def)
  note p = alignDown_props [OF s, of v]
  have r: "MIN_TICK - s < alignDown v s" "alignDown v s < MAX_TICK + s" using p assms(2) s by (auto simp: tick_ok_def)
  note i = intoRange_usable [OF assms(1) _ r] and b = usable_beyond [OF _ _ s]
  have n: "\<not> MAX_TICK < alignDown v s" using p assms(2) by (auto simp: tick_ok_def)
  show "usable s (down_tick s v)" using i p by (simp add: down_tick_def)
  show "x \<le> down_tick s v" if "usable s x" "x \<le> v" for x
    using that multiples_apart [of s x "alignDown v s"] p s i n by (fastforce simp: down_tick_def usable_def)
  show "down_tick s v \<le> v \<or> (\<forall>x. usable s x \<longrightarrow> down_tick s v \<le> x)"
    using i p n b(1) [of _ "alignDown v s"] by (auto simp: down_tick_def)
qed

lemma up_tick:
  assumes "spacing_ok s" "tick_ok v"
  shows "usable s (up_tick s v)" "\<And>x. usable s x \<Longrightarrow> v \<le> x \<Longrightarrow> up_tick s v \<le> x"
    "v \<le> up_tick s v \<or> (\<forall>x. usable s x \<longrightarrow> x \<le> up_tick s v)"
proof -
  have s: "0 < s" using assms(1) by (simp add: spacing_ok_def)
  note p = alignUp_props [OF s, of v]
  have r: "MIN_TICK - s < alignUp v s" "alignUp v s < MAX_TICK + s" using p assms(2) s by (auto simp: tick_ok_def)
  note i = intoRange_usable [OF assms(1) _ r] and b = usable_beyond [OF _ _ s]
  have n: "\<not> alignUp v s < MIN_TICK" using p assms(2) by (auto simp: tick_ok_def)
  show "usable s (up_tick s v)" using i p by (simp add: up_tick_def)
  show "up_tick s v \<le> x" if "usable s x" "v \<le> x" for x
    using that multiples_apart [of s "alignUp v s" x] p s i n by (fastforce simp: up_tick_def usable_def)
  show "v \<le> up_tick s v \<or> (\<forall>x. usable s x \<longrightarrow> x \<le> up_tick s v)"
    using i p n b(2) [of _ "alignUp v s"] by (auto simp: up_tick_def)
qed

lemma nearest_rounded:
  fixes s v :: int
  assumes "0 < s"
  defines "r \<equiv> bdiv (alignDown (v * 2 + s) (s * 2)) 2"
  shows "s dvd r" "2 * r \<le> 2 * v + s" "2 * v < 2 * r + s"
proof -
  have "alignDown (v * 2 + s) (s * 2) = 2 * ((v * 2 + s) div (s * 2) * s)" using assms(1) by (simp add: alignDown_eq)
  moreover have "bdiv (2 * k) 2 = k" for k by (cases "0 \<le> k") (auto simp: bdiv_nonneg bdiv_neg zdiv_zminus1_eq_if)
  ultimately have r: "r = (v * 2 + s) div (s * 2) * s" by (simp add: r_def)
  show "s dvd r" "2 * r \<le> 2 * v + s" "2 * v < 2 * r + s"
    using div_bounds [of "s * 2" "v * 2 + s"] assms(1) by (auto simp: r algebra_simps)
qed

lemma nearest_tick:
  assumes "spacing_ok s" "tick_ok v"
  defines "n \<equiv> intoRange (bdiv (alignDown (v * 2 + s) (s * 2)) 2) s"
  shows "usable s n" "\<And>x. usable s x \<Longrightarrow> \<bar>n - v\<bar> \<le> \<bar>x - v\<bar> \<and> (\<bar>n - v\<bar> = \<bar>x - v\<bar> \<longrightarrow> x \<le> n)"
proof -
  have s: "0 < s" using assms(1) by (simp add: spacing_ok_def)
  define r where "r = bdiv (alignDown (v * 2 + s) (s * 2)) 2"
  have p: "s dvd r" "2 * r \<le> 2 * v + s" "2 * v < 2 * r + s" using nearest_rounded [OF s, of v] by (simp_all add: r_def)
  have i: "usable s n" "n = r \<or> r < MIN_TICK \<and> n = r + s \<or> MAX_TICK < r \<and> n = r - s"
    using intoRange_usable [OF assms(1) p(1)] p assms(2) s by (auto simp: tick_ok_def n_def r_def)
  show "usable s n" by (rule i(1))
  show "\<bar>n - v\<bar> \<le> \<bar>x - v\<bar> \<and> (\<bar>n - v\<bar> = \<bar>x - v\<bar> \<longrightarrow> x \<le> n)" if x: "usable s x" for x
  proof (cases "n = r")
    case True
    consider "x = r" | "r + s \<le> x" | "x + s \<le> r"
      using multiples_apart [of s x r] multiples_apart [of s r x] x p(1) s by (cases x r rule: linorder_cases) (auto simp: usable_def)
    then show ?thesis using True p by cases auto
  next
    case False
    with i(2) consider "r < MIN_TICK" "n = r + s" | "MAX_TICK < r" "n = r - s" by blast
    then show ?thesis
      using usable_beyond [OF x p(1) s] assms(2) p by cases (auto simp: tick_ok_def)
  qed
qed

lemma clamp_ok [simp]: "tick_ok (clamp v)"
  by (simp add: clamp_def tick_ok_def)

text \<open>Alignment answers the tick a pool would take: rounding down gives the greatest usable tick at or below the
  given one (the least usable tick where there is none below), rounding up its mirror, and the nearest
  usable tick is at least as close as any other, with ties going up.\<close>

theorem aligned_ticks:
  assumes "alignTickDown t s = Inr d" "alignTickUp t s = Inr u" "nearestUsableTick t s = Inr n"
  shows "isUsableTick d s = Inr True \<and> isUsableTick u s = Inr True \<and> isUsableTick n s = Inr True \<and>
    (\<forall>x. isUsableTick x s = Inr True \<longrightarrow> (x \<le> t \<longrightarrow> x \<le> d) \<and> (d \<le> t \<or> d \<le> x) \<and> (t \<le> x \<longrightarrow> u \<le> x) \<and> (t \<le> u \<or> x \<le> u) \<and>
       \<bar>n - t\<bar> \<le> \<bar>x - t\<bar> \<and> (\<bar>n - t\<bar> = \<bar>x - t\<bar> \<longrightarrow> x \<le> n))"
proof -
  have ok: "spacing_ok s" "tick_ok t" and eq: "d = down_tick s t" "u = up_tick s t"
    "n = intoRange (bdiv (alignDown (t * 2 + s) (s * 2)) 2) s"
    using assms by (auto simp: alignTickDown_def alignTickUp_def nearestUsableTick_def sbind_eq_Inr down_tick_def up_tick_def)
  show ?thesis
    using down_tick [OF ok] up_tick [OF ok] nearest_tick [OF ok] unfolding eq isUsableTick_Inr by (auto simp: ok(1))
qed

theorem aligned_ticks_witness:
  "alignTickDown (- 7) 10 = Inr (- 10) \<and> alignTickUp (- 7) 10 = Inr 0 \<and> nearestUsableTick (- 5) 10 = Inr 0 \<and>
   isUsableTick (- 10) 10 = Inr True"
proof -
  have e: "alignTickDown (- 7) 10 = Inr (- 10)" "alignTickUp (- 7) 10 = Inr 0" "nearestUsableTick (- 7) 10 = Inr (- 10)"
    "nearestUsableTick (- 5) 10 = Inr 0" by code_simp+
  from aligned_ticks [OF e(1-3)] e show ?thesis by simp
qed

section \<open>Ranges\<close>

text \<open>A range built from a half-width is a non-empty range of usable ticks. Widening, it holds every usable
  tick within the half-width, so it is never narrower than asked; narrowing, it stays within the half-width.\<close>

theorem range_from_width:
  assumes "rangeFromHalfWidth t h s rounding = Inr r"
  shows "isUsableTick (rg_tickLower r) s = Inr True \<and> isUsableTick (rg_tickUpper r) s = Inr True \<and>
    rg_tickLower r < rg_tickUpper r \<and>
    (case rounding of
       Outward \<Rightarrow> \<forall>x. isUsableTick x s = Inr True \<longrightarrow> t - h \<le> x \<longrightarrow> x \<le> t + h \<longrightarrow> rg_tickLower r \<le> x \<and> x \<le> rg_tickUpper r
     | Inward \<Rightarrow> t - h \<le> rg_tickLower r \<and> rg_tickUpper r \<le> t + h)"
proof -
  define a b where "a = clamp (t - h)" and "b = clamp (t + h)"
  have ok: "spacing_ok s" "tick_ok t" "0 \<le> h" "tick_ok a" "tick_ok b" and less: "rg_tickLower r < rg_tickUpper r"
    and r: "rg_tickLower r = (if rounding = Outward then down_tick s a else up_tick s a)"
      "rg_tickUpper r = (if rounding = Outward then up_tick s b else down_tick s b)"
    using assms by (auto simp: rangeFromHalfWidth_def sbind_eq_Inr Let_def a_def b_def down_tick_def up_tick_def split: if_splits)
  have c: "t - h \<le> x \<Longrightarrow> usable s x \<Longrightarrow> a \<le> x" "x \<le> t + h \<Longrightarrow> usable s x \<Longrightarrow> x \<le> b" for x
    by (auto simp: a_def b_def clamp_def usable_def tick_ok_def)
  have ab: "a \<le> b" "t - h \<le> a" "b \<le> t + h"
    using ok(2,3) by (auto simp: a_def b_def clamp_def tick_ok_def)
  note A = down_tick [OF ok(1,4)] up_tick [OF ok(1,4)] and B = down_tick [OF ok(1,5)] up_tick [OF ok(1,5)]
  show ?thesis
  proof (cases rounding)
    case Outward
    have "down_tick s a \<le> x" if "usable s x" "a \<le> x" for x using A(3) that by fastforce
    moreover have "x \<le> up_tick s b" if "usable s x" "x \<le> b" for x using B(6) that by fastforce
    ultimately show ?thesis using Outward less r A B c ok(1) by (auto simp: isUsableTick_Inr)
  next
    case Inward
    have "up_tick s a < down_tick s b" using less r Inward by simp
    then have "a \<le> up_tick s a" "down_tick s b \<le> b" using A(4,6) B(1,3) by (meson not_le)+
    then show ?thesis using Inward less r A B ok(1) ab by (auto simp: isUsableTick_Inr)
  qed
qed

theorem range_from_width_witness:
  "\<exists>r. rangeFromHalfWidth (- 3) 15 10 Outward = Inr r \<and> rg_tickLower r \<le> - 10 \<and> 10 \<le> rg_tickUpper r"
proof -
  have "rangeFromHalfWidth (- 3) 15 10 Outward = Inr \<lparr>rg_tickLower = - 20, rg_tickUpper = 20\<rparr>" by code_simp
  from range_from_width [OF this] this show ?thesis by auto
qed

section \<open>The search for a width\<close>

definition within :: "int \<Rightarrow> int \<Rightarrow> bool" where
  "within ceilingX192 t \<longleftrightarrow> sqrt_at t * sqrt_at t * BPS_DENOM \<le> ceilingX192"

lemma within_mono: "tick_ok s \<Longrightarrow> tick_ok t \<Longrightarrow> s \<le> t \<Longrightarrow> within c t \<Longrightarrow> within c s"
proof -
  assume a: "tick_ok s" "tick_ok t" "s \<le> t" "within c t"
  then have "0 < sqrt_at s" "sqrt_at s \<le> sqrt_at t" by (simp_all add: sqrt_at_pos sqrt_at_le_iff)
  then have "sqrt_at s * sqrt_at s \<le> sqrt_at t * sqrt_at t" by (intro mult_mono) auto
  then have "sqrt_at s * sqrt_at s * BPS_DENOM \<le> sqrt_at t * sqrt_at t * BPS_DENOM" by (intro mult_right_mono) auto
  then show "within c s" using a(4) unfolding within_def by (rule order_trans)
qed

text \<open>The invariant: the lower end is within the ceiling, the tick after the upper end is not or is no tick.\<close>

lemma width_search:
  "tick_ok low \<Longrightarrow> tick_ok high \<Longrightarrow> low \<le> high \<Longrightarrow> within c low \<Longrightarrow> (\<forall>x. tick_ok x \<longrightarrow> high < x \<longrightarrow> \<not> within c x) \<Longrightarrow>
     \<exists>t. width_search c low high = Inr t \<and> low \<le> t \<and> t \<le> high \<and> (\<forall>x. tick_ok x \<longrightarrow> within c x \<longleftrightarrow> x \<le> t)"
proof (induction c low high rule: width_search.induct)
  case (1 c low high)
  show ?case
  proof (cases "low < high")
    case True
    define mid where "mid = bdiv (low + high + 1) 2"
    have mid: "low < mid" "mid \<le> high" using probe_between [OF True] by (simp_all add: mid_def)
    have ok: "tick_ok mid" "tick_ok (mid - 1)" using mid 1(3,4) by (auto simp: tick_ok_def)
    have e: "width_search c low high =
        (if within c mid then width_search c mid high else width_search c low (mid - 1))"
      using True ok(1) by (subst width_search.simps) (simp add: Let_def within_def getSqrtRatioAtTick_eq [THEN iffD2] flip: mid_def)
    show ?thesis
    proof (cases "within c mid")
      case w: True
      from 1(1) [OF True mid_def _ _ ok(1) 1(4) mid(2) w 1(7), of "sqrt_at mid"] ok(1) w show ?thesis
        using e mid by (auto simp: within_def getSqrtRatioAtTick_eq)
    next
      case w: False
      have n: "\<forall>x. tick_ok x \<longrightarrow> mid - 1 < x \<longrightarrow> \<not> within c x" using w ok(1) within_mono [of mid] by fastforce
      from 1(2) [OF True mid_def _ _ 1(3) ok(2) _ 1(6) n, of "sqrt_at mid"] ok(1) w mid show ?thesis
        using e by (auto simp: within_def getSqrtRatioAtTick_eq)
    qed
  next
    case False
    then have "low = high" using 1(5) by simp
    then show ?thesis
      using 1(3,6,7) within_mono [of _ low c] by (subst width_search.simps) (auto simp: not_less)
  qed
qed

text \<open>C22. The search for a width ends with the widest band: for every percentage up to a hundredfold move it returns a
  tick count, and a tick at or above the price is within the percentage exactly when it is at most that count,
  judged by the pool's own boundary prices.\<close>

theorem half_width_widest:
  assumes "0 \<le> bps" "bps \<le> 1000000"
  shows "\<exists>t. halfWidthTicksForBps bps = Inr t \<and> 0 \<le> t \<and> t \<le> MAX_TICK \<and>
    (\<forall>x r. getSqrtRatioAtTick x = Inr r \<longrightarrow> r * r * BPS_DENOM \<le> (BPS_DENOM + bps) * 2 ^ 192 \<longleftrightarrow> x \<le> t)"
proof -
  define c where "c = (BPS_DENOM + bps) * Q192"
  have q: "Q192 = 2 ^ 192" by (simp add: Q192_def Q96_def push_bit_eq_mult)
  have "sqrt_at 0 = 2 ^ 96" by (simp add: sqrt_at_def tick_ratio_0 to_q96_ceil)
  then have "within c 0" using assms(1) by (simp add: within_def c_def q BPS_DENOM_def)
  then obtain t where t: "width_search c 0 MAX_TICK = Inr t" "0 \<le> t" "t \<le> MAX_TICK"
    "\<forall>x. tick_ok x \<longrightarrow> within c x \<longleftrightarrow> x \<le> t"
    using width_search [of 0 MAX_TICK c] by (auto simp: tick_ok_def)
  then show ?thesis
    using assms by (intro exI [of _ t]) (auto simp: halfWidthTicksForBps_def MAX_WIDTH_BPS_def getSqrtRatioAtTick_eq within_def c_def q)
qed

theorem half_width_widest_witness:
  "\<exists>t. halfWidthTicksForBps 100 = Inr t \<and> 0 \<le> t \<and> t \<le> MAX_TICK"
  using half_width_widest [of 100] by auto

section \<open>The solver\<close>

lemma liquidity0_Inr:
  assumes "0 < low" "low < high"
  shows "getLiquidityForAmount0 low high m = Inr L \<longleftrightarrow> 0 \<le> m \<and> L = m * (low * high div 2 ^ 96) div (high - low)"
proof -
  have "0 \<le> low * high div 2 ^ 96" using assms by (simp add: pos_imp_zdiv_nonneg_iff)
  then show ?thesis
    using assms by (auto simp: getLiquidityForAmount0_def Let_def sbind_eq_Inr floorDiv_Inr Q96_def push_bit_eq_mult)
qed

lemma liquidity1_Inr:
  "0 < low \<Longrightarrow> low < high \<Longrightarrow>
     getLiquidityForAmount1 low high m = Inr L \<longleftrightarrow> 0 \<le> m \<and> L = m * 2 ^ 96 div (high - low)"
  by (auto simp: getLiquidityForAmount1_def Let_def sbind_eq_Inr floorDiv_Inr Q96_def push_bit_eq_mult)

lemma liquidity0_nonneg: "0 < low \<Longrightarrow> low < high \<Longrightarrow> getLiquidityForAmount0 low high m = Inr L \<Longrightarrow> 0 \<le> L"
  by (auto simp: liquidity0_Inr pos_imp_zdiv_nonneg_iff)

lemma liquidity1_nonneg: "0 < low \<Longrightarrow> low < high \<Longrightarrow> getLiquidityForAmount1 low high m = Inr L \<Longrightarrow> 0 \<le> L"
  by (auto simp: liquidity1_Inr pos_imp_zdiv_nonneg_iff)

text \<open>The two inequalities behind the solver: liquidity solved from an amount, or less, costs at most that amount.\<close>

lemma cost0_le:
  fixes low high L m n :: int
  assumes "0 < low" "low < high" "0 \<le> m" "L \<le> m * (low * high div n) div (high - low)" "0 < n"
  shows "L * n * (high - low) div (high * low) \<le> m"
proof -
  have "L * (high - low) \<le> m * (low * high div n)"
  proof -
    have "L * (high - low) \<le> m * (low * high div n) div (high - low) * (high - low)"
      using assms by (intro mult_right_mono) auto
    also have "\<dots> \<le> m * (low * high div n)"
      using assms(2) div_bounds [of "high - low" "m * (low * high div n)"] by (simp add: mult.commute)
    finally show ?thesis .
  qed
  then have "L * (high - low) * n \<le> m * (low * high div n) * n" using assms(5) by (intro mult_right_mono) auto
  also have "\<dots> = m * (n * (low * high div n))" by (simp add: ac_simps)
  also have "\<dots> \<le> m * (low * high)" using assms(3,5) div_bounds [of n "low * high"] by (intro mult_left_mono) auto
  finally have "L * n * (high - low) \<le> high * low * m" by (simp add: ac_simps)
  moreover have pos: "0 < high * low" using assms(1,2) by simp
  ultimately have "\<not> high * low * (m + 1) \<le> L * n * (high - low)" by (simp add: distrib_left not_le)
  moreover note pos
  ultimately show ?thesis using div_ge_iff [of "high * low" "m + 1" "L * n * (high - low)"] by simp
qed

lemma cost1_le:
  fixes low high L m n :: int
  assumes "low < high" "L \<le> m * n div (high - low)" "0 < n"
  shows "L * (high - low) div n \<le> m"
proof -
  have "L * (high - low) \<le> m * n"
  proof -
    have "L * (high - low) \<le> m * n div (high - low) * (high - low)" using assms by (intro mult_right_mono) auto
    also have "\<dots> \<le> m * n" using assms(1) div_bounds [of "high - low" "m * n"] by (simp add: mult.commute)
    finally show ?thesis .
  qed
  then have "\<not> n * (m + 1) \<le> L * (high - low)" using assms(3) by (simp add: distrib_left mult.commute)
  then show ?thesis using div_ge_iff [OF assms(3), of "m + 1" "L * (high - low)"] by simp
qed

lemma solved_amounts:
  assumes "maxLiquidityForAmounts p l u m0 m1 = Inr L"
  shows "0 \<le> L" "\<exists>a. getAmountsForLiquidity p l u L = Inr a \<and> 0 \<le> pa_amount0 a \<and> 0 \<le> pa_amount1 a \<and>
    pa_amount0 a \<le> m0 \<and> pa_amount1 a \<le> m1"
proof -
  have ok: "sqrt_ok p" "tick_ok l" "tick_ok u" "l < u" "0 \<le> m0" "0 \<le> m1"
    and L: "liquidity_between p (sqrt_at l) (sqrt_at u) m0 m1 = Inr L"
    using assms by (auto simp: maxLiquidityForAmounts_def sbind_eq_Inr getSqrtRatioAtTick_eq split: if_splits)
  have lu: "0 < sqrt_at l" "sqrt_at l < sqrt_at u" using sqrt_at_pos sqrt_at_less ok by auto
  define c where "c = held_to (sqrt_at l) (sqrt_at u) p"
  have c: "0 < c" "sqrt_at l \<le> c" "c \<le> sqrt_at u" using lu by (auto simp: c_def held_to_def)
  consider "c = sqrt_at l" "p \<le> sqrt_at l" | "c = p" "sqrt_at l < p" "p < sqrt_at u" | "c = sqrt_at u" "sqrt_at u \<le> p"
    using lu by (fastforce simp: c_def held_to_def)
  then have bound: "(c < sqrt_at u \<longrightarrow> L \<le> m0 * (c * sqrt_at u div 2 ^ 96) div (sqrt_at u - c)) \<and>
      (sqrt_at l < c \<longrightarrow> L \<le> m1 * 2 ^ 96 div (c - sqrt_at l)) \<and> 0 \<le> L"
  proof cases
    case 1
    then have e: "getLiquidityForAmount0 (sqrt_at l) (sqrt_at u) m0 = Inr L" using L by (simp add: liquidity_between_def)
    show ?thesis
      using liquidity0_Inr [OF lu, THEN iffD1, OF e] liquidity0_nonneg [OF lu e] unfolding 1(1) by (intro conjI impI) simp_all
  next
    case 2
    then have p: "0 < p" "p < sqrt_at u" "sqrt_at l < p" using lu by auto
    obtain L0 L1 where e: "getLiquidityForAmount0 p (sqrt_at u) m0 = Inr L0"
      "getLiquidityForAmount1 (sqrt_at l) p m1 = Inr L1" "L \<le> L0" "L \<le> L1" "L = L0 \<or> L = L1"
      using L 2(2,3) by (auto simp: liquidity_between_def sbind_eq_Inr split: if_splits)
    show ?thesis
      using liquidity0_Inr [OF p(1,2), THEN iffD1, OF e(1)] liquidity1_Inr [OF lu(1) p(3), THEN iffD1, OF e(2)]
        liquidity0_nonneg [OF p(1,2) e(1)] liquidity1_nonneg [OF lu(1) p(3) e(2)] e(3-5)
      unfolding 2(1) by (intro conjI impI) (simp_all, auto)
  next
    case 3
    then have e: "getLiquidityForAmount1 (sqrt_at l) (sqrt_at u) m1 = Inr L" using L lu by (simp add: liquidity_between_def)
    show ?thesis
      using liquidity1_Inr [OF lu, THEN iffD1, OF e] liquidity1_nonneg [OF lu e] unfolding 3(1) by (intro conjI impI) simp_all
  qed
  then show "0 \<le> L" by simp
  then obtain a where a: "getAmountsForLiquidity p l u L = Inr a"
    "pa_amount0 a = L * 2 ^ 96 * (sqrt_at u - c) div (sqrt_at u * c)" "pa_amount1 a = L * (c - sqrt_at l) div 2 ^ 96"
    using amounts_eq [OF ok(1-4), of L] unfolding c_def [symmetric] by (metis position_amounts.select_convs)
  have "pa_amount0 a \<le> m0" using cost0_le [of c "sqrt_at u" m0 L "2 ^ 96"] bound c a(2) ok(5) by (cases "c = sqrt_at u") auto
  moreover have "pa_amount1 a \<le> m1" using cost1_le [of "sqrt_at l" c L m1 "2 ^ 96"] bound c a(3) ok(6) by (cases "sqrt_at l = c") auto
  moreover have "0 \<le> pa_amount0 a" "0 \<le> pa_amount1 a"
    using a c bound lu by (simp_all add: pos_imp_zdiv_nonneg_iff)
  ultimately show "\<exists>a. getAmountsForLiquidity p l u L = Inr a \<and> 0 \<le> pa_amount0 a \<and> 0 \<le> pa_amount1 a \<and>
    pa_amount0 a \<le> m0 \<and> pa_amount1 a \<le> m1" using a(1) by blast
qed

text \<open>The liquidity solved from a capital is affordable: it is not negative, it fits the pool's 128 bits, and the
  very function that will value the position says it costs at most the capital on each side.\<close>

theorem solver_affordable:
  assumes "maxLiquidityForAmounts p l u amount0 amount1 = Inr L"
  shows "0 \<le> L \<and> L < 2 ^ 128 \<and> (\<exists>a. getAmountsForLiquidity p l u L = Inr a \<and>
    0 \<le> pa_amount0 a \<and> pa_amount0 a \<le> amount0 \<and> 0 \<le> pa_amount1 a \<and> pa_amount1 a \<le> amount1)"
proof -
  have "L \<le> MAX_UINT128" using assms by (auto simp: maxLiquidityForAmounts_def sbind_eq_Inr split: if_splits)
  then have "L < 2 ^ 128" by (simp add: MAX_UINT128_def push_bit_eq_mult)
  with solved_amounts [OF assms] show ?thesis by blast
qed

theorem solver_affordable_witness:
  "\<exists>L a. maxLiquidityForAmounts (push_bit 96 1) (- 10) 10 (10 ^ 6) (10 ^ 6) = Inr L \<and>
     getAmountsForLiquidity (push_bit 96 1) (- 10) 10 L = Inr a \<and> pa_amount0 a \<le> 10 ^ 6 \<and> pa_amount1 a \<le> 10 ^ 6"
proof -
  have "\<not> isl (maxLiquidityForAmounts (push_bit 96 1) (- 10) 10 (10 ^ 6) (10 ^ 6))" by code_simp
  then obtain L where L: "maxLiquidityForAmounts (push_bit 96 1) (- 10) 10 (10 ^ 6) (10 ^ 6) = Inr L"
    by (cases "maxLiquidityForAmounts (push_bit 96 1) (- 10) 10 (10 ^ 6) (10 ^ 6)") auto
  from solver_affordable [OF L] L show ?thesis by blast
qed

section \<open>The cap of a tick\<close>

lemma usable_set:
  assumes "spacing_ok s"
  shows "{t. usable s t} = (\<lambda>k. k * s) ` {- (MAX_TICK div s) .. MAX_TICK div s}"
proof -
  have s: "0 < s" using assms by (simp add: spacing_ok_def)
  have "k * s \<le> MAX_TICK \<longleftrightarrow> k \<le> MAX_TICK div s" for k using div_ge_iff [OF s, of k MAX_TICK] by (simp add: mult.commute)
  moreover have "MIN_TICK \<le> k * s \<longleftrightarrow> - (MAX_TICK div s) \<le> k" for k
    using div_ge_iff [OF s, of "- k" MAX_TICK] by (simp add: mult.commute minus_le_iff)
  ultimately show ?thesis by (auto simp: usable_def tick_ok_def elim!: dvdE simp: mult.commute [of s])
qed

lemma card_usable: "spacing_ok s \<Longrightarrow> int (card {t. usable s t}) = 2 * (MAX_TICK div s) + 1"
proof -
  assume s: "spacing_ok s"
  then have "0 < s" "0 \<le> MAX_TICK div s" by (auto simp: spacing_ok_def pos_imp_zdiv_nonneg_iff)
  moreover from this have "card {t. usable s t} = card {- (MAX_TICK div s) .. MAX_TICK div s}"
    unfolding usable_set [OF s] by (intro card_image) (auto simp: inj_on_def)
  ultimately show ?thesis by simp
qed

text \<open>The cap of a tick is the largest figure that all usable ticks together can carry within the pool's 128
  bits.\<close>

theorem tick_cap:
  assumes "maxLiquidityPerTick s = Inr cap"
  shows "cap * int (card {t. isUsableTick t s = Inr True}) < 2 ^ 128 \<and>
    2 ^ 128 \<le> (cap + 1) * int (card {t. isUsableTick t s = Inr True})"
proof -
  have s: "spacing_ok s" "0 < s" using assms by (auto simp: maxLiquidityPerTick_def sbind_eq_Inr spacing_ok_def)
  let ?m = "MAX_TICK div s" and ?n = "int (card {t. isUsableTick t s = Inr True})"
  have n: "?n = 2 * ?m + 1" "0 \<le> ?m" using card_usable [OF s(1)] s by (auto simp: isUsableTick_Inr pos_imp_zdiv_nonneg_iff)
  have "bdiv MAX_TICK s = ?m" "bdiv MIN_TICK s = - ?m" using s(2) by (auto simp: bdiv_nonneg bdiv_neg)
  then have "bdiv (bdiv MAX_TICK s * s - bdiv MIN_TICK s * s) s = 2 * ?m"
    using s(2) n(2) by (simp add: bdiv_nonneg flip: distrib_right)
  then have "floorDiv MAX_UINT128 ?n = Inr cap" using assms n(1) s(1) by (auto simp: maxLiquidityPerTick_def sbind_eq_Inr Let_def)
  then have "0 < ?n" "cap = (2 ^ 128 - 1) div ?n" by (auto simp: floorDiv_Inr MAX_UINT128_def push_bit_eq_mult)
  with div_bounds [of ?n "2 ^ 128 - 1"] show ?thesis by (auto simp: mult.commute)
qed

theorem tick_cap_witness:
  "\<exists>cap. maxLiquidityPerTick 60 = Inr cap \<and> cap * int (card {t. isUsableTick t 60 = Inr True}) < 2 ^ 128"
proof -
  have "maxLiquidityPerTick 60 = Inr 11505743598341114571880798222544994" by code_simp
  from tick_cap [OF this] this show ?thesis by blast
qed

section \<open>Status and minimums\<close>

lemma rangeStatus_eq:
  assumes "tick_ok t" "tick_ok l" "tick_ok u" "l < u"
  shows "\<exists>st. rangeStatus t l u = Inr st \<and>
    rs_side st = (if t < l then Below else if t < u then In_range else Above) \<and>
    rs_ticksOutside st = max 0 (max (l - t) (t - u)) \<and>
    rs_outsideBps st = - (- (rs_ticksOutside st * 10000) div (u - l))"
  using assms by (auto simp: rangeStatus_def assertRange_def isTickInRange_def Let_def ceilDiv_eq BPS_DENOM_def)

lemma minimum_bounds:
  assumes "minimumAmounts a b = Inr m"
  shows "0 \<le> mn_amount0Min m \<and> mn_amount0Min m \<le> pa_amount0 a \<and> 0 \<le> mn_amount1Min m \<and> mn_amount1Min m \<le> pa_amount1 a \<and>
    pa_amount0 a * (10000 - b) \<le> mn_amount0Min m * 10000 \<and> pa_amount1 a * (10000 - b) \<le> mn_amount1Min m * 10000"
proof -
  have b: "0 \<le> pa_amount0 a" "0 \<le> pa_amount1 a" "0 \<le> 10000 - b" "10000 - b \<le> 10000"
    and m: "ceilDiv (pa_amount0 a * (10000 - b)) 10000 = Inr (mn_amount0Min m)"
      "ceilDiv (pa_amount1 a * (10000 - b)) 10000 = Inr (mn_amount1Min m)"
    using assms by (auto simp: minimumAmounts_def sbind_eq_Inr Let_def BPS_DENOM_def split: if_splits)
  have "pa_amount0 a * (10000 - b) \<le> pa_amount0 a * 10000" "pa_amount1 a * (10000 - b) \<le> pa_amount1 a * 10000"
    using b by (auto intro: mult_left_mono)
  moreover have "pa_amount0 a * (10000 - b) \<le> mn_amount0Min m * 10000" "pa_amount1 a * (10000 - b) \<le> mn_amount1Min m * 10000"
    using ceilDiv_le_iff [OF m(1), of "mn_amount0Min m"] ceilDiv_le_iff [OF m(2), of "mn_amount1Min m"] by (simp_all add: mult.commute)
  ultimately show ?thesis
    using ceilDiv_le_iff [OF m(1)] ceilDiv_le_iff [OF m(2)] ceilDiv_nonneg [OF m(1)] ceilDiv_nonneg [OF m(2)] b
    by (simp add: mult.commute)
qed

section \<open>The plan\<close>

definition not_internal :: "'a result \<Rightarrow> bool" where
  "not_internal r \<longleftrightarrow> (\<forall>m. r \<noteq> Inl (AppError E_INTERNAL m))"

lemma not_internal_Inr [simp]: "not_internal (Inr x)"
  by (simp add: not_internal_def)

lemma not_internal_schema [simp]: "not_internal (Inl (AppError E_SCHEMA_INVALID m))"
  by (simp add: not_internal_def)

lemma not_internal_sbind: "not_internal r \<Longrightarrow> (\<And>x. r = Inr x \<Longrightarrow> not_internal (f x)) \<Longrightarrow> not_internal (sbind r f)"
  by (cases r) (auto simp: not_internal_def)

lemma not_internal_guards [simp]:
  "not_internal (assertTick t f)" "not_internal (assertSqrtRatio p)" "not_internal (assertAmount a f)"
  "not_internal (assertTickSpacing s)" "not_internal (assertPositiveSpan l h)" "not_internal (floorDiv x y)" "not_internal (ceilDiv x y)"
  by (simp_all add: not_internal_def assertTick_def assertSqrtRatio_def assertAmount_def assertTickSpacing_def
      assertPositiveSpan_def floorDiv_def ceilDiv_def MoneyFormatError_def)

lemma not_internal_steps [simp]:
  "not_internal (assertRange l u)" "not_internal (isUsableTick t s)" "not_internal (isTickInRange t l u)"
  "not_internal (getSqrtRatioAtTick t)" "not_internal (getTickAtSqrtRatio p)" "not_internal (maxLiquidityPerTick s)"
  "not_internal (minimumAmounts a b)" "not_internal (rangeStatus t l u)"
  by (auto simp: assertRange_def isUsableTick_def isTickInRange_def getSqrtRatioAtTick_def getTickAtSqrtRatio_def
      maxLiquidityPerTick_def minimumAmounts_def rangeStatus_def Let_def intro!: not_internal_sbind)

lemma not_internal_solver [simp]: "not_internal (maxLiquidityForAmounts p l u m0 m1)"
  by (auto simp: maxLiquidityForAmounts_def liquidity_between_def getLiquidityForAmount0_def getLiquidityForAmount1_def
      Let_def intro!: not_internal_sbind)

lemma solved_le:
  assumes "maxLiquidityForAmounts p l u m0 m1 = Inr L"
  shows "not_internal (getAmountsForLiquidity p l u L)"
    "getAmountsForLiquidity p l u L = Inr a \<Longrightarrow> \<not> m0 < pa_amount0 a \<and> \<not> m1 < pa_amount1 a"
  using solved_amounts(2) [OF assms] by auto

text \<open>C32. The last line of defence of the planner never fires: whatever it is asked, \<open>planRange\<close> answers a plan or a
  refusal of its input, never the internal error that a plan costs more than its capital.\<close>

theorem plan_never_internal:
  "planRange rq \<noteq> Inl (AppError E_INTERNAL m)"
proof -
  have "not_internal (planRange rq)"
    by (auto simp: planRange_def Let_def intro!: not_internal_sbind solved_le(1))
      (assumption | (drule (1) solved_le(2), simp))+
  then show ?thesis by (simp add: not_internal_def)
qed

text \<open>C11. A plan is sound. It is for the requested range, whose ends are usable ticks; its amounts are those a reader will find in
  a position of its liquidity at the planned price, and with the unused remainders they add up to exactly the capital; its
  minimums are at most its amounts and at least its amounts less the slippage; its liquidity is within the cap of one
  tick; its tick is that of the price, and its side is below, in or above the range exactly as that tick is, the
  lower end counting as in the range and the upper one as above it.\<close>

theorem plan_sound:
  assumes "planRange rq = Inr pl"
  shows "rp_tickLower pl = rr_tickLower rq \<and> rp_tickUpper pl = rr_tickUpper rq \<and>
    isUsableTick (rp_tickLower pl) (rr_tickSpacing rq) = Inr True \<and>
    isUsableTick (rp_tickUpper pl) (rr_tickSpacing rq) = Inr True \<and> rp_tickLower pl < rp_tickUpper pl \<and>
    (\<exists>L cap a m0 m1 u0 u1. amountToBigint (rp_liquidity pl) = Inr L \<and>
       maxLiquidityPerTick (rr_tickSpacing rq) = Inr cap \<and> L \<le> cap \<and>
       getAmountsForLiquidity (rr_sqrtPriceX96 rq) (rp_tickLower pl) (rp_tickUpper pl) L = Inr a \<and>
       amountToBigint (rp_amount0 pl) = Inr (pa_amount0 a) \<and> amountToBigint (rp_amount1 pl) = Inr (pa_amount1 a) \<and>
       amountToBigint (rp_unused0 pl) = Inr u0 \<and> amountToBigint (rp_unused1 pl) = Inr u1 \<and>
       pa_amount0 a + u0 = rr_amount0 rq \<and> pa_amount1 a + u1 = rr_amount1 rq \<and>
       amountToBigint (rp_amount0Min pl) = Inr m0 \<and> amountToBigint (rp_amount1Min pl) = Inr m1 \<and>
       m0 \<le> pa_amount0 a \<and> m1 \<le> pa_amount1 a \<and>
       pa_amount0 a * (10000 - rr_slippageBps rq) \<le> m0 * 10000 \<and> pa_amount1 a * (10000 - rr_slippageBps rq) \<le> m1 * 10000) \<and>
    getTickAtSqrtRatio (rr_sqrtPriceX96 rq) = Inr (rp_tick pl) \<and>
    (rp_side pl = Below \<longleftrightarrow> rp_tick pl < rp_tickLower pl) \<and>
    (rp_side pl = In_range \<longleftrightarrow> rp_tickLower pl \<le> rp_tick pl \<and> rp_tick pl < rp_tickUpper pl) \<and>
    (rp_side pl = Above \<longleftrightarrow> rp_tickUpper pl \<le> rp_tick pl)"
proof -
  define p l u s where "p = rr_sqrtPriceX96 rq" and "l = rr_tickLower rq" and "u = rr_tickUpper rq" and "s = rr_tickSpacing rq"
  note d = p_def l_def u_def s_def
  obtain L cap a mn t st where us: "spacing_ok s" "usable s l" "usable s u" "l < u"
    and L: "maxLiquidityForAmounts p l u (rr_amount0 rq) (rr_amount1 rq) = Inr L"
    and cap: "maxLiquidityPerTick s = Inr cap" "L \<le> cap"
    and a: "getAmountsForLiquidity p l u L = Inr a" and mn: "minimumAmounts a (rr_slippageBps rq) = Inr mn"
    and t: "getTickAtSqrtRatio p = Inr t" and st: "rangeStatus t l u = Inr st" and pl: "pl = plan_of rq L a mn t st"
    using assms by (auto simp: planRange_def Let_def sbind_eq_Inr isUsableTick_Inr d split: if_splits)
  have f: "rp_tickLower pl = l" "rp_tickUpper pl = u" "rp_liquidity pl = int_str L" "rp_amount0 pl = int_str (pa_amount0 a)"
    "rp_amount1 pl = int_str (pa_amount1 a)" "rp_amount0Min pl = int_str (mn_amount0Min mn)" "rp_tick pl = t"
    "rp_amount1Min pl = int_str (mn_amount1Min mn)" "rp_unused0 pl = int_str (rr_amount0 rq - pa_amount0 a)"
    "rp_unused1 pl = int_str (rr_amount1 rq - pa_amount1 a)" "rp_side pl = rs_side st"
    by (simp_all add: pl plan_of_def d)
  have ok: "tick_ok t" "tick_ok l" "tick_ok u" using st by (auto simp: rangeStatus_def sbind_eq_Inr)
  have side: "(rs_side st = Below \<longleftrightarrow> t < l) \<and> (rs_side st = In_range \<longleftrightarrow> l \<le> t \<and> t < u) \<and> (rs_side st = Above \<longleftrightarrow> u \<le> t)"
    using rangeStatus_eq [OF ok us(4)] st us(4) by auto
  have b: "0 \<le> L" "0 \<le> pa_amount0 a" "0 \<le> pa_amount1 a" "pa_amount0 a \<le> rr_amount0 rq" "pa_amount1 a \<le> rr_amount1 rq"
    using solved_amounts [OF L] a by auto
  have parsed: "amountToBigint (int_str x) = Inr x" if "0 \<le> x" for x using that by simp
  have u0: "0 \<le> rr_amount0 rq - pa_amount0 a" "0 \<le> rr_amount1 rq - pa_amount1 a" using b by simp_all
  have m: "0 \<le> mn_amount0Min mn" "mn_amount0Min mn \<le> pa_amount0 a" "0 \<le> mn_amount1Min mn" "mn_amount1Min mn \<le> pa_amount1 a"
    "pa_amount0 a * (10000 - rr_slippageBps rq) \<le> mn_amount0Min mn * 10000" "pa_amount1 a * (10000 - rr_slippageBps rq) \<le> mn_amount1Min mn * 10000"
    using minimum_bounds [OF mn] by simp_all
  have "\<exists>m0 m1 v0 v1. amountToBigint (rp_unused0 pl) = Inr v0 \<and> amountToBigint (rp_unused1 pl) = Inr v1 \<and>
      pa_amount0 a + v0 = rr_amount0 rq \<and> pa_amount1 a + v1 = rr_amount1 rq \<and>
      amountToBigint (rp_amount0Min pl) = Inr m0 \<and> amountToBigint (rp_amount1Min pl) = Inr m1 \<and>
      m0 \<le> pa_amount0 a \<and> m1 \<le> pa_amount1 a \<and>
      pa_amount0 a * (10000 - rr_slippageBps rq) \<le> m0 * 10000 \<and> pa_amount1 a * (10000 - rr_slippageBps rq) \<le> m1 * 10000"
    unfolding f parsed [OF u0(1)] parsed [OF u0(2)] parsed [OF m(1)] parsed [OF m(3)] using m by simp
  moreover have "isUsableTick l s = Inr True" "isUsableTick u s = Inr True" using us by (simp_all add: isUsableTick_Inr)
  ultimately show ?thesis
    using us(4) cap a t side parsed [OF b(1)] parsed [OF b(2)] parsed [OF b(3)] unfolding f(1-5,7,11) d [symmetric] by blast
qed

definition sample_range_request :: range_plan_request where
  "sample_range_request = \<lparr>rr_sqrtPriceX96 = push_bit 96 1, rr_tickLower = - 600, rr_tickUpper = 600, rr_tickSpacing = 60,
     rr_amount0 = 10 ^ 18, rr_amount1 = 10 ^ 18, rr_slippageBps = 50\<rparr>"

lemma sample_plans: "\<not> isl (planRange sample_range_request)"
  by code_simp

theorem plan_sound_witness:
  "\<exists>pl L a. planRange sample_range_request = Inr pl \<and> amountToBigint (rp_liquidity pl) = Inr L \<and>
     getAmountsForLiquidity (push_bit 96 1) (rp_tickLower pl) (rp_tickUpper pl) L = Inr a \<and> pa_amount0 a \<le> 10 ^ 18"
proof -
  obtain pl where pl: "planRange sample_range_request = Inr pl"
    using sample_plans by (cases "planRange sample_range_request") auto
  from plan_sound [OF pl] obtain L a u0 where "amountToBigint (rp_liquidity pl) = Inr L"
    "getAmountsForLiquidity (rr_sqrtPriceX96 sample_range_request) (rp_tickLower pl) (rp_tickUpper pl) L = Inr a"
    "amountToBigint (rp_unused0 pl) = Inr u0" "pa_amount0 a + u0 = rr_amount0 sample_range_request" by blast
  moreover from this(3) have "0 \<le> u0" by (rule amountToBigint_nonneg)
  ultimately show ?thesis using pl by (auto simp: sample_range_request_def)
qed

end
