(* ===== verification/Registry.thy ===== *)
theory Registry
  imports Atra_Prelude
begin

text \<open>
  \<open>src/runtime/src/chains/registry.ts\<close>: the four chains, their tokens and the protocols
  seeded into a fresh allowlist, with the three address predicates the risk engine and the
  ledger ask (canonical form, stablecoin, native coin). The endpoint URLs and display names of
  a chain play no part in any decision and are left out of the record.
\<close>

datatype chain_id = Base | Bsc | Robinhood | Solana

definition CHAIN_IDS :: "chain_id list" where
  "CHAIN_IDS = [Base, Bsc, Robinhood, Solana]"

fun chain_str :: "chain_id \<Rightarrow> string" where
  "chain_str Base = ''base''"
| "chain_str Bsc = ''bsc''"
| "chain_str Robinhood = ''robinhood''"
| "chain_str Solana = ''solana''"

lemma chain_str_inj [simp]: "chain_str a = chain_str b \<longleftrightarrow> a = b"
  by (cases a; cases b) simp_all

lemma set_CHAIN_IDS [simp]: "c \<in> set CHAIN_IDS"
  by (cases c) (simp_all add: CHAIN_IDS_def)

datatype chain_family = Evm | Sol

definition EVM_NATIVE_SENTINEL :: string where
  "EVM_NATIVE_SENTINEL = ''0xeeeeeeeeeeeeeeeeeeeeeeeeeeeeeeeeeeeeeeee''"

definition SOLANA_NATIVE_SENTINEL :: string where
  "SOLANA_NATIVE_SENTINEL = ''So11111111111111111111111111111111111111112''"

record token_info =
  ti_address :: string
  ti_symbol :: string
  ti_decimals :: int

record chain_info =
  ci_family :: chain_family
  ci_evmChainId :: "int option"
  ci_nativeSymbol :: string
  ci_nativeDecimals :: int
  ci_nativeSentinel :: string
  ci_tokens :: "token_info list"

definition tok :: "string \<Rightarrow> string \<Rightarrow> int \<Rightarrow> token_info" where
  "tok a s d = \<lparr>ti_address = a, ti_symbol = s, ti_decimals = d\<rparr>"

fun CHAINS :: "chain_id \<Rightarrow> chain_info" where
  "CHAINS Base = \<lparr>ci_family = Evm, ci_evmChainId = Some 8453, ci_nativeSymbol = ''ETH'',
     ci_nativeDecimals = 18, ci_nativeSentinel = EVM_NATIVE_SENTINEL,
     ci_tokens = [
       tok EVM_NATIVE_SENTINEL ''ETH'' 18,
       tok ''0x833589fcd6edb6e08f4c7c32d4f71b54bda02913'' ''USDC'' 6,
       tok ''0x4200000000000000000000000000000000000006'' ''WETH'' 18]\<rparr>"
| "CHAINS Bsc = \<lparr>ci_family = Evm, ci_evmChainId = Some 56, ci_nativeSymbol = ''BNB'',
     ci_nativeDecimals = 18, ci_nativeSentinel = EVM_NATIVE_SENTINEL,
     ci_tokens = [
       tok EVM_NATIVE_SENTINEL ''BNB'' 18,
       tok ''0x55d398326f99059ff775485246999027b3197955'' ''USDT'' 18,
       tok ''0x8ac76a51cc950d9822d68b83fe1ad97b32cd580d'' ''USDC'' 18,
       tok ''0xbb4cdb9cbd36b01bd1cbaebf2de08d9173bc095c'' ''WBNB'' 18]\<rparr>"
| "CHAINS Robinhood = \<lparr>ci_family = Evm, ci_evmChainId = Some 4663, ci_nativeSymbol = ''ETH'',
     ci_nativeDecimals = 18, ci_nativeSentinel = EVM_NATIVE_SENTINEL,
     ci_tokens = [
       tok EVM_NATIVE_SENTINEL ''ETH'' 18,
       tok ''0x0bd7d308f8e1639fab988df18a8011f41eacad73'' ''WETH'' 18,
       tok ''0x5fc5360d0400a0fd4f2af552add042d716f1d168'' ''USDG'' 6]\<rparr>"
| "CHAINS Solana = \<lparr>ci_family = Sol, ci_evmChainId = None, ci_nativeSymbol = ''SOL'',
     ci_nativeDecimals = 9, ci_nativeSentinel = SOLANA_NATIVE_SENTINEL,
     ci_tokens = [
       tok SOLANA_NATIVE_SENTINEL ''SOL'' 9,
       tok ''EPjFWdd5AufqSSqeM2qN1xzybapC8G4wEGGkZwyTDt1v'' ''USDC'' 6]\<rparr>"

definition SOLANA_SYSTEM_PROGRAMS :: "string list" where
  "SOLANA_SYSTEM_PROGRAMS = [
     ''11111111111111111111111111111111'',
     ''TokenkegQfeZyiNwAJbNbGKPFXCWuBvf9Ss623VQ5DA'',
     ''TokenzQdBNbLqP5VEhdkAS6EPFLC1PHnBqCXEpPxuEb'',
     ''ATokenGPvbdGVxr1b2hvZbsiqW5xWH25efTNsLJA8knL'',
     ''ComputeBudget111111111111111111111111111111'',
     ''AddressLookupTab1e1111111111111111111111111'']"

record protocol_entry =
  contracts :: "string list"
  approveSpenders :: "string list"

definition entry :: "string list \<Rightarrow> string list \<Rightarrow> protocol_entry" where
  "entry cs ss = \<lparr>contracts = cs, approveSpenders = ss\<rparr>"

fun DEFAULT_PROTOCOLS :: "chain_id \<Rightarrow> (string \<times> protocol_entry) list" where
  "DEFAULT_PROTOCOLS Base = [
     (''uniswap-v4'', entry
        [''0x6ff5693b99212da76ad316178a184ab56d299b43'', ''0x000000000022d473030f116ddee9f6b43ac78ba3'']
        [''0x000000000022d473030f116ddee9f6b43ac78ba3'']),
     (''aerodrome-v2'', entry
        [''0xcf77a3ba9a5ca399b7c97c74d54e5b1beb874e43'']
        [''0xcf77a3ba9a5ca399b7c97c74d54e5b1beb874e43''])]"
| "DEFAULT_PROTOCOLS Bsc = [
     (''pancakeswap-v3'', entry
        [''0x13f4ea83d0bd40e75c8222255bc855a974568dd4'']
        [''0x13f4ea83d0bd40e75c8222255bc855a974568dd4'']),
     (''pancakeswap-v2'', entry
        [''0x10ed43c718714eb63d5aa57b78b54704e256024e'']
        [''0x10ed43c718714eb63d5aa57b78b54704e256024e'']),
     (''uniswap-v4'', entry
        [''0x1906c1d672b88cd1b9ac7593301ca990f94eae07'', ''0x000000000022d473030f116ddee9f6b43ac78ba3'']
        [''0x000000000022d473030f116ddee9f6b43ac78ba3''])]"
| "DEFAULT_PROTOCOLS Robinhood = [
     (''uniswap-v4'', entry
        [''0x8876789976decbfcbbbe364623c63652db8c0904'',
         ''0x8dc178efb8111bb0973dd9d722ebeff267c98f94'',
         ''0x000000000022d473030f116ddee9f6b43ac78ba3'']
        [''0x000000000022d473030f116ddee9f6b43ac78ba3''])]"
| "DEFAULT_PROTOCOLS Solana = [
     (''jupiter-v6'', entry [''JUP6LkbZbjS1jKKwapdHNy74zcZ3tLUZoi5QNyVTaV4''] [])]"

record inspect_only_protocol =
  io_contracts :: "(string \<times> string) list"
  io_feeTiers :: "int list"

fun INSPECT_ONLY_PROTOCOLS :: "chain_id \<Rightarrow> (string \<times> inspect_only_protocol) list" where
  "INSPECT_ONLY_PROTOCOLS Base = [(''uniswap-v3'', \<lparr>
     io_contracts = [
       (''factory'', ''0x33128a8fc17869897dce68ed026d694621f6fdfd''),
       (''positionManager'', ''0x03a520b32c04bf3beef7beb72e919cf822ed34f1''),
       (''quoter'', ''0x3d4e44eb1374240ce5f1b871ab261cd16335b76a'')],
     io_feeTiers = [100, 500, 3000, 10000]\<rparr>)]"
| "INSPECT_ONLY_PROTOCOLS Bsc = [(''pancakeswap-v3-lp'', \<lparr>
     io_contracts = [
       (''factory'', ''0x0bfbcf9fa4f9c56b0f40a671ad40e0805a091865''),
       (''positionManager'', ''0x46a15b0b27311cedf172ab29e4f4766fbe7f4364''),
       (''quoter'', ''0xb048bbc1ee6b733fffcfb9e9cef7375518e25997'')],
     io_feeTiers = [100, 500, 2500, 10000]\<rparr>)]"
| "INSPECT_ONLY_PROTOCOLS Robinhood = []"
| "INSPECT_ONLY_PROTOCOLS Solana = []"

definition isChainId :: "string \<Rightarrow> bool" where
  "isChainId v \<longleftrightarrow> v \<in> set (map chain_str CHAIN_IDS)"

definition chainFamily :: "chain_id \<Rightarrow> chain_family" where
  "chainFamily c = ci_family (CHAINS c)"

lemma chainFamily_simps [simp]:
  "chainFamily Base = Evm" "chainFamily Bsc = Evm" "chainFamily Robinhood = Evm"
  "chainFamily Solana = Sol"
  by (simp_all add: chainFamily_def)

lemma chainFamily_Evm_iff: "chainFamily c = Evm \<longleftrightarrow> c \<noteq> Solana"
  by (cases c) simp_all

definition canonicalizeAddress :: "chain_id \<Rightarrow> string \<Rightarrow> string" where
  "canonicalizeAddress chain address =
     (if chainFamily chain = Evm then toLowerCase address else address)"

definition STABLE_SYMBOLS :: "string \<Rightarrow> bool" where
  "STABLE_SYMBOLS s \<longleftrightarrow> toLowerCase s \<in> {''usdc'', ''usdt'', ''usdg'', ''usdbc'', ''dai''}"

definition isStablecoin :: "chain_id \<Rightarrow> string \<Rightarrow> bool" where
  "isStablecoin chain address =
     (let canonical = canonicalizeAddress chain address in
      case List.find (\<lambda>t. canonicalizeAddress chain (ti_address t) = canonical)
             (ci_tokens (CHAINS chain)) of
        None \<Rightarrow> False
      | Some e \<Rightarrow> STABLE_SYMBOLS (ti_symbol e))"

definition isNativeToken :: "chain_id \<Rightarrow> string \<Rightarrow> bool" where
  "isNativeToken chain address \<longleftrightarrow>
     canonicalizeAddress chain address = ci_nativeSentinel (CHAINS chain)"

section \<open>Address predicates\<close>

lemma canonicalizeAddress_idem [simp]:
  "canonicalizeAddress c (canonicalizeAddress c a) = canonicalizeAddress c a"
  by (simp add: canonicalizeAddress_def)

lemma isStablecoin_canonical [simp]: "isStablecoin c (canonicalizeAddress c a) = isStablecoin c a"
  by (simp add: isStablecoin_def)

lemma isNativeToken_canonical [simp]: "isNativeToken c (canonicalizeAddress c a) = isNativeToken c a"
  by (simp add: isNativeToken_def)

text \<open>The registry's native sentinel is never one of its stablecoins, so the quote assets of a
  chain (its native coin and its stablecoins) are two disjoint kinds.\<close>

lemma sentinel_not_stable: "\<not> isStablecoin c (ci_nativeSentinel (CHAINS c))"
proof (cases c)
  case Base
  have "\<not> isStablecoin Base (ci_nativeSentinel (CHAINS Base))" by code_simp
  with Base show ?thesis by simp
next
  case Bsc
  have "\<not> isStablecoin Bsc (ci_nativeSentinel (CHAINS Bsc))" by code_simp
  with Bsc show ?thesis by simp
next
  case Robinhood
  have "\<not> isStablecoin Robinhood (ci_nativeSentinel (CHAINS Robinhood))" by code_simp
  with Robinhood show ?thesis by simp
next
  case Solana
  have "\<not> isStablecoin Solana (ci_nativeSentinel (CHAINS Solana))" by code_simp
  with Solana show ?thesis by simp
qed

lemma native_not_stable: "isNativeToken c a \<Longrightarrow> \<not> isStablecoin c a"
  using sentinel_not_stable [of c] by (metis isNativeToken_def isStablecoin_canonical)

text \<open>A protocol listed for inspection only cannot be resolved to an executable one: on every
  chain its name is not a key of the protocols seeded for execution, and none of its contracts is
  a contract or an approved spender of any of them.\<close>

theorem inspect_only_disjoint:
  "(\<forall>c. set (map fst (INSPECT_ONLY_PROTOCOLS c)) \<inter> set (map fst (DEFAULT_PROTOCOLS c)) = {}) \<and>
   (\<forall>c p d q. p \<in> snd ` set (INSPECT_ONLY_PROTOCOLS c) \<and> q \<in> snd ` set (DEFAULT_PROTOCOLS d) \<longrightarrow>
      snd ` set (io_contracts p) \<inter> (set (contracts q) \<union> set (approveSpenders q)) = {})"
proof -
  have names: "set (map fst (INSPECT_ONLY_PROTOCOLS c)) \<inter> set (map fst (DEFAULT_PROTOCOLS c)) = {}" for c
    by (cases c) simp_all
  have all: "\<forall>c \<in> set CHAIN_IDS. \<forall>d \<in> set CHAIN_IDS. \<forall>p \<in> set (INSPECT_ONLY_PROTOCOLS c).
      \<forall>q \<in> set (DEFAULT_PROTOCOLS d). \<forall>a \<in> set (io_contracts (snd p)).
        snd a \<notin> set (contracts (snd q) @ approveSpenders (snd q))"
    by code_simp
  have contracts: "snd ` set (io_contracts p) \<inter> (set (contracts q) \<union> set (approveSpenders q)) = {}"
    if "p \<in> snd ` set (INSPECT_ONLY_PROTOCOLS c)" "q \<in> snd ` set (DEFAULT_PROTOCOLS d)" for c p d q
  proof -
    from that(1) obtain x where x: "x \<in> set (INSPECT_ONLY_PROTOCOLS c)" "p = snd x"
      by (rule imageE)
    from that(2) obtain y where y: "y \<in> set (DEFAULT_PROTOCOLS d)" "q = snd y"
      by (rule imageE)
    have "snd a \<notin> set (contracts q @ approveSpenders q)" if "a \<in> set (io_contracts p)" for a
      using all x(1) y(1) that unfolding x(2) y(2) by (metis set_CHAIN_IDS)
    then show ?thesis by auto
  qed
  from names contracts show ?thesis by blast
qed

theorem inspect_only_disjoint_witness:
  "\<exists>p q. p \<in> snd ` set (INSPECT_ONLY_PROTOCOLS Base) \<and> q \<in> snd ` set (DEFAULT_PROTOCOLS Bsc) \<and>
     snd ` set (io_contracts p) \<inter> (set (contracts q) \<union> set (approveSpenders q)) = {}"
proof -
  obtain p where p: "p \<in> snd ` set (INSPECT_ONLY_PROTOCOLS Base)" by simp
  obtain q where q: "q \<in> snd ` set (DEFAULT_PROTOCOLS Bsc)" by fastforce
  note conjunct2 [OF inspect_only_disjoint, rule_format, OF conjI [OF p q]]
  with p q show ?thesis by (intro exI conjI)
qed

end
