(* ===== verification/Risk_Policy.thy ===== *)
theory Risk_Policy
  imports Registry Money
begin

text \<open>
  \<open>src/runtime/src/risk/policy.ts\<close>: the operator's limits, their validation and the policy a
  fresh install starts with. A TypeScript object with string fields is a record with string
  fields; a partial record keyed by chain is an association list in key order. The types of the
  model carry what the schema's type combinators say (an enum is a datatype, an integer an
  \<open>int\<close>); the remaining field constraints are \<open>policy_fields_ok\<close>, and the issues of the
  cross-field refinement are \<open>policy_issues\<close>, in the order the code adds them.

  Shown: the validator's USD reader agrees with the engine's parser, every policy that passes
  validation has the cross-field guarantees, and the default policy passes for any choice of
  chains.
\<close>

section \<open>Field patterns\<close>

definition char_in :: "nat \<Rightarrow> nat \<Rightarrow> char \<Rightarrow> bool" where
  "char_in lo hi c \<longleftrightarrow> lo \<le> of_char c \<and> of_char c \<le> hi"

lemma char_in_code [code_unfold]:
  "char_in (numeral lo) (numeral hi) c \<longleftrightarrow> (numeral lo :: int) \<le> of_char c \<and> of_char c \<le> (numeral hi :: int)"
  unfolding of_char_int char_in_def by simp

definition is_lower :: "char \<Rightarrow> bool" where "is_lower c \<longleftrightarrow> char_in 97 122 c"
definition is_upper :: "char \<Rightarrow> bool" where "is_upper c \<longleftrightarrow> char_in 65 90 c"

definition is_lower_hex :: "char \<Rightarrow> bool" where
  "is_lower_hex c \<longleftrightarrow> is_digit c \<or> char_in 97 102 c"

text \<open>\<open>[1-9A-HJ-NP-Za-km-z]\<close>.\<close>

definition is_base58 :: "char \<Rightarrow> bool" where
  "is_base58 c \<longleftrightarrow> char_in 49 57 c \<or> char_in 65 72 c \<or> char_in 74 78 c \<or> char_in 80 90 c \<or>
     char_in 97 107 c \<or> char_in 109 122 c"

definition evmAddress :: "string \<Rightarrow> bool" where
  "evmAddress s \<longleftrightarrow> take 2 s = ''0x'' \<and> length s = 42 \<and> list_all is_lower_hex (drop 2 s)"

definition solanaPubkey :: "string \<Rightarrow> bool" where
  "solanaPubkey s \<longleftrightarrow> 32 \<le> length s \<and> length s \<le> 44 \<and> list_all is_base58 s"

definition tokenAddress :: "string \<Rightarrow> bool" where
  "tokenAddress s \<longleftrightarrow> evmAddress s \<or> solanaPubkey s"

definition protocolKey :: "string \<Rightarrow> bool" where
  "protocolKey s \<longleftrightarrow> 2 \<le> length s \<and> length s \<le> 32 \<and>
     list_all (\<lambda>c. is_lower c \<or> is_digit c \<or> c = CHR ''-'') s"

definition symbolPattern :: "string \<Rightarrow> bool" where
  "symbolPattern s \<longleftrightarrow> 1 \<le> length s \<and> length s \<le> 16 \<and>
     list_all (\<lambda>c. is_lower c \<or> is_upper c \<or> is_digit c \<or> c \<in> set ''.$_-'') s"

definition usdString :: "string \<Rightarrow> bool" where
  "usdString s \<longleftrightarrow> decimal_match 6 s \<noteq> None"

definition in_range :: "int \<Rightarrow> int \<Rightarrow> int \<Rightarrow> bool" where
  "in_range lo hi n \<longleftrightarrow> lo \<le> n \<and> n \<le> hi"

section \<open>The policy\<close>

record token_allow_entry =
  ta_address :: string
  ta_symbol :: string
  ta_decimals :: int

record freshness_limits =
  priceMaxAgeMs :: int
  quoteMaxAgeMs :: int
  balanceMaxAgeMs :: int
  liquidityMaxAgeMs :: int
  feeEstimateMaxAgeMs :: int
  actionMaxAgeMs :: int
  maxClockSkewMs :: int

record allowed_pool =
  ap_chain :: chain_id
  ap_protocol :: string
  ap_poolId :: string

record lp_policy =
  maxCapitalPerLpUsd :: string
  allowedPools :: "allowed_pool list"
  allowedProtocols :: "(chain_id \<times> string list) list"
  minPoolLiquidityUsd :: string
  maxRebalancePerDay :: int
  maxRebalanceSlippageBps :: int
  maxLpGasUsd :: string
  minFeeThresholdUsd :: string

record risk_policy =
  schemaVersion :: int
  enabledChains :: "chain_id list"
  maxAmountPerTradeUsd :: string
  maxDailyLossUsd :: string
  maxTotalDeployedUsd :: string
  maxTransactionFeeUsd :: string
  minLiquidityUsd :: string
  maxSlippageBps :: int
  maxPriceImpactBps :: int
  cooldownSeconds :: int
  globalMinIntervalSeconds :: int
  freshness :: freshness_limits
  includeUnrealized :: bool
  tokenAllowlist :: "(chain_id \<times> token_allow_entry list) list"
  protocolAllowlist :: "(chain_id \<times> (string \<times> protocol_entry) list) list"
  pol_globalPause :: bool
  pol_emergencyStop :: bool
  lp_limits :: lp_policy

section \<open>Validation\<close>

definition tokenAllowEntryOk :: "token_allow_entry \<Rightarrow> bool" where
  "tokenAllowEntryOk t \<longleftrightarrow> tokenAddress (ta_address t) \<and> symbolPattern (ta_symbol t) \<and>
     in_range 0 18 (ta_decimals t)"

definition protocolAllowEntryOk :: "protocol_entry \<Rightarrow> bool" where
  "protocolAllowEntryOk e \<longleftrightarrow> list_all tokenAddress (contracts e) \<and> contracts e \<noteq> [] \<and>
     list_all tokenAddress (approveSpenders e)"

definition freshnessOk :: "freshness_limits \<Rightarrow> bool" where
  "freshnessOk f \<longleftrightarrow> in_range 1000 3600000 (priceMaxAgeMs f) \<and>
     in_range 1000 600000 (quoteMaxAgeMs f) \<and> in_range 1000 3600000 (balanceMaxAgeMs f) \<and>
     in_range 1000 86400000 (liquidityMaxAgeMs f) \<and> in_range 1000 600000 (feeEstimateMaxAgeMs f) \<and>
     in_range 1000 600000 (actionMaxAgeMs f) \<and> in_range 0 60000 (maxClockSkewMs f)"

definition lpPolicyOk :: "lp_policy \<Rightarrow> bool" where
  "lpPolicyOk l \<longleftrightarrow> usdString (maxCapitalPerLpUsd l) \<and>
     list_all (\<lambda>p. protocolKey (ap_protocol p) \<and> ap_poolId p \<noteq> []) (allowedPools l) \<and>
     list_all (\<lambda>(_, ks). list_all protocolKey ks) (allowedProtocols l) \<and>
     usdString (minPoolLiquidityUsd l) \<and> in_range 0 48 (maxRebalancePerDay l) \<and>
     in_range 1 500 (maxRebalanceSlippageBps l) \<and> usdString (maxLpGasUsd l) \<and>
     usdString (minFeeThresholdUsd l)"

definition policy_fields_ok :: "risk_policy \<Rightarrow> bool" where
  "policy_fields_ok p \<longleftrightarrow> schemaVersion p = 1 \<and> enabledChains p \<noteq> [] \<and>
     usdString (maxAmountPerTradeUsd p) \<and> usdString (maxDailyLossUsd p) \<and>
     usdString (maxTotalDeployedUsd p) \<and> usdString (maxTransactionFeeUsd p) \<and>
     usdString (minLiquidityUsd p) \<and> in_range 1 1000 (maxSlippageBps p) \<and>
     in_range 1 2000 (maxPriceImpactBps p) \<and> in_range 0 86400 (cooldownSeconds p) \<and>
     in_range 0 3600 (globalMinIntervalSeconds p) \<and> freshnessOk (freshness p) \<and>
     list_all (\<lambda>(_, ts). list_all tokenAllowEntryOk ts) (tokenAllowlist p) \<and>
     list_all (\<lambda>(_, ps). list_all (\<lambda>(k, e). protocolKey k \<and> protocolAllowEntryOk e) ps)
       (protocolAllowlist p) \<and> lpPolicyOk (lp_limits p)"

text \<open>The validator's own reader of a USD string: \<open>split('.')\<close> keeps the first two pieces, and
  \<open>BigInt\<close> raises on a piece that is not a number. \<open>usd_value\<close> is the amount a well-formed
  string denotes.\<close>

definition usd_pieces :: "string \<Rightarrow> string \<times> string" where
  "usd_pieces value = (let whole = takeWhile (\<lambda>c. c \<noteq> CHR ''.'') value
     in (whole, takeWhile (\<lambda>c. c \<noteq> CHR ''.'') (drop (Suc (length whole)) value)))"

definition bigUsd :: "string \<Rightarrow> int result" where
  "bigUsd value = (case usd_pieces value of (whole, fraction) \<Rightarrow>
     sbind (js_BigInt whole) (\<lambda>w.
     sbind (js_BigInt (padEnd 6 CHR ''0'' fraction)) (\<lambda>f. Inr (w * 1000000 + f))))"

definition usd_value :: "string \<Rightarrow> int" where
  "usd_value value = (case usd_pieces value of (whole, fraction) \<Rightarrow>
     int (digits_val whole) * 1000000 + int (digits_val (padEnd 6 CHR ''0'' fraction)))"

type_synonym field_issue = "string \<times> string"

definition issue_if :: "bool \<Rightarrow> string list \<Rightarrow> string \<Rightarrow> field_issue list" where
  "issue_if b path msg = (if b then [(join_with ''.'' path, msg)] else [])"

lemma issue_if_Nil [simp]: "issue_if b path msg = [] \<longleftrightarrow> \<not> b"
  by (simp add: issue_if_def)

definition looksEvm :: "token_allow_entry \<Rightarrow> bool" where
  "looksEvm t \<longleftrightarrow> take 2 (ta_address t) = ''0x''"

definition token_entry_issues :: "chain_id \<Rightarrow> nat \<times> token_allow_entry \<Rightarrow> field_issue list" where
  "token_entry_issues chain = (\<lambda>(index, e). let
     path = (\<lambda>f. [''tokenAllowlist'', chain_str chain, nat_str index, f]) in
     issue_if (chainFamily chain = Evm \<and> \<not> looksEvm e) (path ''address'')
       ''expected a 0x address on an EVM chain'' @
     issue_if (chainFamily chain = Sol \<and> looksEvm e) (path ''address'')
       ''expected a base58 mint on Solana'' @
     issue_if (chainFamily chain = Sol \<and> ta_decimals e > 9) (path ''decimals'')
       ''Solana mints have at most 9 decimals'')"

definition spender_issues :: "chain_id \<Rightarrow> string \<times> protocol_entry \<Rightarrow> field_issue list" where
  "spender_issues chain = (\<lambda>(key, e). concat (map (\<lambda>spender.
     issue_if (spender \<notin> set (contracts e))
       [''protocolAllowlist'', chain_str chain, key, ''approveSpenders'']
       (spender @ '' is not in contracts'')) (approveSpenders e)))"

definition chain_issues :: "risk_policy \<Rightarrow> string \<Rightarrow> chain_id list \<Rightarrow> field_issue list" where
  "chain_issues p field cs = concat (map (\<lambda>chain. issue_if (chain \<notin> set (enabledChains p))
     [field, chain_str chain] (''chain '' @ chain_str chain @ '' is not in enabledChains'')) cs)"

definition policy_issues :: "risk_policy \<Rightarrow> field_issue list result" where
  "policy_issues p =
     sbind (bigUsd (maxAmountPerTradeUsd p)) (\<lambda>perTrade.
     sbind (bigUsd (maxTotalDeployedUsd p)) (\<lambda>total.
     sbind (bigUsd (maxDailyLossUsd p)) (\<lambda>dailyLoss.
     sbind (bigUsd (maxTransactionFeeUsd p)) (\<lambda>fee. Inr (
       issue_if (perTrade > total) [''maxAmountPerTradeUsd''] ''must not exceed maxTotalDeployedUsd'' @
       issue_if (perTrade = 0) [''maxAmountPerTradeUsd''] ''must be greater than zero'' @
       issue_if (dailyLoss = 0) [''maxDailyLossUsd''] ''must be greater than zero'' @
       issue_if (fee = 0) [''maxTransactionFeeUsd''] ''must be greater than zero'' @
       chain_issues p ''tokenAllowlist'' (map fst (tokenAllowlist p)) @
       chain_issues p ''protocolAllowlist'' (map fst (protocolAllowlist p)) @
       concat (map (\<lambda>(chain, entries). concat (map (token_entry_issues chain) (enumerate 0 entries)))
         (tokenAllowlist p)) @
       concat (map (\<lambda>(chain, protocols). concat (map (spender_issues chain) protocols))
         (protocolAllowlist p)))))))"

definition policy_valid :: "risk_policy \<Rightarrow> bool" where
  "policy_valid p \<longleftrightarrow> policy_fields_ok p \<and> policy_issues p = Inr []"

text \<open>Whether the schema library still runs the refinement when a field constraint failed is up to
  the library (the parameter \<open>aborts\<close>); when it does, the refinement can raise.\<close>

definition parseRiskPolicy :: "(risk_policy \<Rightarrow> bool) \<Rightarrow> risk_policy \<Rightarrow> risk_policy result" where
  "parseRiskPolicy aborts p = (let invalid = Inl (AppError E_SCHEMA_INVALID ''Risk policy is not valid'') in
     if \<not> policy_fields_ok p \<and> aborts p then invalid
     else sbind (policy_issues p) (\<lambda>issues.
       if policy_fields_ok p \<and> issues = [] then Inr p else invalid))"

section \<open>The default policy\<close>

definition default_tokens :: "chain_id \<Rightarrow> token_allow_entry list" where
  "default_tokens chain = map (\<lambda>t. \<lparr>ta_address = ti_address t, ta_symbol = ti_symbol t,
     ta_decimals = ti_decimals t\<rparr>) (ci_tokens (CHAINS chain))"

text \<open>Assigning the same chain twice keeps one key, so the two allowlists have one entry per
  chain.\<close>

definition first_occurrences :: "'a list \<Rightarrow> 'a list" where
  "first_occurrences xs = rev (remdups (rev xs))"

lemma set_first_occurrences [simp]: "set (first_occurrences xs) = set xs"
  by (simp add: first_occurrences_def)

definition default_policy_value :: "chain_id list \<Rightarrow> risk_policy" where
  "default_policy_value cs = \<lparr>
     schemaVersion = 1, enabledChains = cs,
     maxAmountPerTradeUsd = ''25'', maxDailyLossUsd = ''50'', maxTotalDeployedUsd = ''250'',
     maxTransactionFeeUsd = ''2'', minLiquidityUsd = ''250000'',
     maxSlippageBps = 50, maxPriceImpactBps = 100,
     cooldownSeconds = 900, globalMinIntervalSeconds = 60,
     freshness = \<lparr>priceMaxAgeMs = 60000, quoteMaxAgeMs = 30000, balanceMaxAgeMs = 120000,
       liquidityMaxAgeMs = 900000, feeEstimateMaxAgeMs = 60000, actionMaxAgeMs = 120000,
       maxClockSkewMs = 5000\<rparr>,
     includeUnrealized = True,
     tokenAllowlist = map (\<lambda>c. (c, default_tokens c)) (first_occurrences cs),
     protocolAllowlist = map (\<lambda>c. (c, DEFAULT_PROTOCOLS c)) (first_occurrences cs),
     pol_globalPause = False, pol_emergencyStop = False,
     lp_limits = \<lparr>maxCapitalPerLpUsd = ''0'', allowedPools = [], allowedProtocols = [],
       minPoolLiquidityUsd = ''500000'', maxRebalancePerDay = 4, maxRebalanceSlippageBps = 50,
       maxLpGasUsd = ''2'', minFeeThresholdUsd = ''5''\<rparr>\<rparr>"

text \<open>The schema's own \<open>parse\<close> throws on an invalid value: None.\<close>

definition defaultRiskPolicy :: "chain_id list \<Rightarrow> risk_policy option" where
  "defaultRiskPolicy cs =
     (if policy_valid (default_policy_value cs) then Some (default_policy_value cs) else None)"

section \<open>The two USD readers agree\<close>

lemma takeWhile_not_point:
  "list_all is_digit i \<Longrightarrow> takeWhile (\<lambda>c. c \<noteq> CHR ''.'') (i @ CHR ''.'' # f) = i"
  "list_all is_digit i \<Longrightarrow> takeWhile (\<lambda>c. c \<noteq> CHR ''.'') i = i"
proof -
  assume "list_all is_digit i"
  then have "\<forall>c \<in> set i. c \<noteq> CHR ''.''" by (metis list_all_iff not_digit_marks(1))
  then show "takeWhile (\<lambda>c. c \<noteq> CHR ''.'') (i @ CHR ''.'' # f) = i"
      "takeWhile (\<lambda>c. c \<noteq> CHR ''.'') i = i"
    by (simp_all add: takeWhile_append2)
qed

lemma usdString_pieces:
  assumes "usdString s"
  obtains i f where "usd_pieces s = (i, f)" "list_all is_digit i" "list_all is_digit f"
    "usd_match s = Some (False, i, f)"
proof -
  obtain i f where m: "decimal_match 6 s = Some (i, f)" using assms by (auto simp: usdString_def)
  then have i: "canon_int i" and f: "list_all is_digit f" "length f \<le> 6"
    and s: "s = i @ (if f = [] then [] else ''.'' @ f)"
    by (simp_all add: decimal_match_Some)
  have di: "list_all is_digit i" using i by (simp add: canon_int_def)
  have u: "usd_match s = Some (False, i, f)" using i f s by (simp add: usd_match_Some)
  have w: "takeWhile (\<lambda>c. c \<noteq> CHR ''.'') s = i"
    using takeWhile_not_point [OF di] by (simp add: s)
  have "takeWhile (\<lambda>c. c \<noteq> CHR ''.'') (drop (Suc (length i)) s) = f"
    using takeWhile_not_point(2) [OF f(1)] by (simp add: s)
  with w have "usd_pieces s = (i, f)" by (simp add: usd_pieces_def Let_def)
  with di f(1) u that show ?thesis by blast
qed

lemma usdString_micros: "usdString s \<Longrightarrow> usdToMicros s = Inr (usd_value s)"
  by (erule usdString_pieces) (simp add: usdToMicros_def usd_value_def USD_SCALE_def)

lemma usdString_bigUsd: "usdString s \<Longrightarrow> bigUsd s = Inr (usd_value s)"
proof (erule usdString_pieces)
  fix i f assume "usd_pieces s = (i, f)" "list_all is_digit i" "list_all is_digit f"
  moreover from this(3) have "list_all is_digit (padEnd 6 CHR ''0'' f)"
    by (auto simp: padEnd_def list_all_iff)
  ultimately show ?thesis by (simp add: bigUsd_def usd_value_def js_BigInt_digits)
qed

lemma usd_value_nonneg [simp]: "0 \<le> usd_value s"
  by (simp add: usd_value_def split: prod.split)

lemma usdString_returns [simp]: "usdString s \<Longrightarrow> returns (usdToMicros s)"
  by (simp add: usdString_micros)

section \<open>What validation guarantees\<close>

lemma policy_valid_fields: "policy_valid p \<Longrightarrow> policy_fields_ok p"
  by (simp add: policy_valid_def)

lemmas policy_usd_fields = policy_fields_ok_def lpPolicyOk_def

lemma policy_valid_issues:
  assumes "policy_valid p"
  shows "usd_value (maxAmountPerTradeUsd p) \<le> usd_value (maxTotalDeployedUsd p)"
    "usd_value (maxAmountPerTradeUsd p) \<noteq> 0" "usd_value (maxDailyLossUsd p) \<noteq> 0"
    "usd_value (maxTransactionFeeUsd p) \<noteq> 0"
    "chain_issues p ''tokenAllowlist'' (map fst (tokenAllowlist p)) = []"
    "chain_issues p ''protocolAllowlist'' (map fst (protocolAllowlist p)) = []"
    "\<forall>(c, ts) \<in> set (tokenAllowlist p). concat (map (token_entry_issues c) (enumerate 0 ts)) = []"
    "\<forall>(c, ps) \<in> set (protocolAllowlist p). concat (map (spender_issues c) ps) = []"
proof -
  have "usdString (maxAmountPerTradeUsd p)" "usdString (maxTotalDeployedUsd p)"
    "usdString (maxDailyLossUsd p)" "usdString (maxTransactionFeeUsd p)"
    using policy_valid_fields [OF assms] by (simp_all add: policy_usd_fields)
  then have "policy_issues p = Inr []" "\<forall>s \<in> {maxAmountPerTradeUsd p, maxTotalDeployedUsd p,
      maxDailyLossUsd p, maxTransactionFeeUsd p}. bigUsd s = Inr (usd_value s)"
    using assms by (simp_all add: policy_valid_def usdString_bigUsd)
  then show "usd_value (maxAmountPerTradeUsd p) \<le> usd_value (maxTotalDeployedUsd p)"
    "usd_value (maxAmountPerTradeUsd p) \<noteq> 0" "usd_value (maxDailyLossUsd p) \<noteq> 0"
    "usd_value (maxTransactionFeeUsd p) \<noteq> 0"
    "chain_issues p ''tokenAllowlist'' (map fst (tokenAllowlist p)) = []"
    "chain_issues p ''protocolAllowlist'' (map fst (protocolAllowlist p)) = []"
    "\<forall>(c, ts) \<in> set (tokenAllowlist p). concat (map (token_entry_issues c) (enumerate 0 ts)) = []"
    "\<forall>(c, ps) \<in> set (protocolAllowlist p). concat (map (spender_issues c) ps) = []"
    by (auto simp: policy_issues_def)
qed

lemma policy_valid_spenders:
  assumes "policy_valid p" "(c, ps) \<in> set (protocolAllowlist p)" "(k, e) \<in> set ps"
  shows "set (approveSpenders e) \<subseteq> set (contracts e)"
proof -
  have "spender_issues c (k, e) = []"
    using policy_valid_issues(8) [OF assms(1)] assms(2,3) by fastforce
  then show ?thesis by (auto simp: spender_issues_def)
qed

lemma policy_valid_tokens:
  assumes "policy_valid p" "(c, ts) \<in> set (tokenAllowlist p)" "t \<in> set ts"
  shows "(looksEvm t \<longleftrightarrow> chainFamily c = Evm) \<and> (c = Solana \<longrightarrow> ta_decimals t \<le> 9)"
proof -
  obtain n where n: "n < length ts" "ts ! n = t" using assms(3) by (auto simp: in_set_conv_nth)
  then have "(n, t) \<in> set (enumerate 0 ts)" by (simp add: in_set_enumerate_eq)
  then have "token_entry_issues c (n, t) = []"
    using policy_valid_issues(7) [OF assms(1)] assms(2) by fastforce
  then show ?thesis
    by (cases c) (auto simp: token_entry_issues_def Let_def)
qed

text \<open>What a policy that passes validation guarantees beyond its field formats: the per-trade
  cap is positive and within the total cap; the daily-loss and fee limits are positive; every
  allowlisted chain is enabled; every allowlisted token's address belongs to its chain's family and
  no Solana mint has more than nine decimals; and an approval can only go to a contract of the same
  protocol entry.\<close>

theorem valid_policy_guarantees:
  assumes "parseRiskPolicy aborts p = Inr q"
  shows "q = p \<and> 0 < usd_value (maxAmountPerTradeUsd p) \<and>
    usd_value (maxAmountPerTradeUsd p) \<le> usd_value (maxTotalDeployedUsd p) \<and>
    0 < usd_value (maxDailyLossUsd p) \<and> 0 < usd_value (maxTransactionFeeUsd p) \<and>
    fst ` set (tokenAllowlist p) \<subseteq> set (enabledChains p) \<and>
    fst ` set (protocolAllowlist p) \<subseteq> set (enabledChains p) \<and>
    (\<forall>(c, ts) \<in> set (tokenAllowlist p). \<forall>t \<in> set ts.
       (looksEvm t \<longleftrightarrow> chainFamily c = Evm) \<and> (c = Solana \<longrightarrow> ta_decimals t \<le> 9)) \<and>
    (\<forall>(c, ps) \<in> set (protocolAllowlist p). \<forall>(k, e) \<in> set ps.
       set (approveSpenders e) \<subseteq> set (contracts e))"
proof -
  have v: "policy_valid p" and q: "q = p"
    using assms by (auto simp: parseRiskPolicy_def policy_valid_def Let_def sbind_eq_Inr split: if_splits)
  note i = policy_valid_issues [OF v]
  have pos: "0 < usd_value s" if "usd_value s \<noteq> 0" for s
    using usd_value_nonneg [of s] that by linarith
  have chains: "fst ` set (tokenAllowlist p) \<subseteq> set (enabledChains p)"
      "fst ` set (protocolAllowlist p) \<subseteq> set (enabledChains p)"
    using i(5,6) by (auto simp: chain_issues_def)
  have toks: "\<forall>(c, ts) \<in> set (tokenAllowlist p). \<forall>t \<in> set ts.
       (looksEvm t \<longleftrightarrow> chainFamily c = Evm) \<and> (c = Solana \<longrightarrow> ta_decimals t \<le> 9)"
    using policy_valid_tokens [OF v] by fastforce
  have spenders: "\<forall>(c, ps) \<in> set (protocolAllowlist p). \<forall>(k, e) \<in> set ps.
       set (approveSpenders e) \<subseteq> set (contracts e)"
    using policy_valid_spenders [OF v] by fastforce
  show ?thesis
    using q i(1) pos i(2-4) chains toks spenders by blast
qed

section \<open>The default policy is valid\<close>

lemma default_chain_ok:
  "list_all tokenAllowEntryOk (default_tokens c)"
  "list_all (\<lambda>(k, e). protocolKey k \<and> protocolAllowEntryOk e) (DEFAULT_PROTOCOLS c)"
  "concat (map (token_entry_issues c) (enumerate 0 (default_tokens c))) = []"
  "concat (map (spender_issues c) (DEFAULT_PROTOCOLS c)) = []"
proof -
  have all: "list_all (\<lambda>c. list_all tokenAllowEntryOk (default_tokens c) \<and>
      list_all (\<lambda>(k, e). protocolKey k \<and> protocolAllowEntryOk e) (DEFAULT_PROTOCOLS c) \<and>
      concat (map (token_entry_issues c) (enumerate 0 (default_tokens c))) = [] \<and>
      concat (map (spender_issues c) (DEFAULT_PROTOCOLS c)) = []) CHAIN_IDS"
    by code_simp
  from all [unfolded list_all_iff, rule_format, OF set_CHAIN_IDS]
  show "list_all tokenAllowEntryOk (default_tokens c)"
    "list_all (\<lambda>(k, e). protocolKey k \<and> protocolAllowEntryOk e) (DEFAULT_PROTOCOLS c)"
    "concat (map (token_entry_issues c) (enumerate 0 (default_tokens c))) = []"
    "concat (map (spender_issues c) (DEFAULT_PROTOCOLS c)) = []"
    by (auto simp only: list_all_iff)
qed

lemma default_amounts_ok:
  "usdString ''25''" "usdString ''50''" "usdString ''250''" "usdString ''2''" "usdString ''250000''"
  "usdString ''0''" "usdString ''500000''" "usdString ''5''"
  "usd_value ''25'' = 25000000" "usd_value ''250'' = 250000000" "usd_value ''50'' = 50000000"
  "usd_value ''2'' = 2000000"
  by code_simp+

lemma default_policy_fields: "cs \<noteq> [] \<Longrightarrow> policy_fields_ok (default_policy_value cs)"
  using default_chain_ok(1,2)
  by (simp add: policy_fields_ok_def default_policy_value_def default_amounts_ok lpPolicyOk_def
      freshnessOk_def in_range_def list_all_iff)

lemma default_policy_no_issues: "policy_issues (default_policy_value cs) = Inr []"
proof -
  have c: "chain_issues (default_policy_value cs) f (map fst (map (\<lambda>c. (c, g c)) (first_occurrences cs))) = []"
    for f and g :: "chain_id \<Rightarrow> 'a"
    by (simp add: chain_issues_def default_policy_value_def)
  show ?thesis
    using default_chain_ok(3,4) c [of _ default_tokens] c [of _ DEFAULT_PROTOCOLS]
    by (simp add: policy_issues_def usdString_bigUsd default_amounts_ok
        default_policy_value_def comp_def)
qed

text \<open>First-run setup never fails for a policy reason: for every non-empty choice of chains,
  repeated ones included, the default policy passes the whole validation, and for no chain at all
  it is refused.\<close>

theorem default_policy_valid:
  "defaultRiskPolicy cs = (if cs = [] then None else Some (default_policy_value cs))"
proof (cases "cs = []")
  case True
  then show ?thesis
    by (simp add: defaultRiskPolicy_def policy_valid_def policy_fields_ok_def default_policy_value_def)
next
  case False
  then show ?thesis
    by (simp add: defaultRiskPolicy_def policy_valid_def default_policy_fields default_policy_no_issues)
qed

theorem valid_policy_guarantees_witness:
  "parseRiskPolicy (\<lambda>_. False) (default_policy_value [Base]) = Inr (default_policy_value [Base]) \<and>
   usd_value (maxAmountPerTradeUsd (default_policy_value [Base])) \<le>
     usd_value (maxTotalDeployedUsd (default_policy_value [Base]))"
proof -
  have v: "parseRiskPolicy (\<lambda>_. False) (default_policy_value [Base]) = Inr (default_policy_value [Base])"
    by (simp add: parseRiskPolicy_def Let_def default_policy_fields default_policy_no_issues)
  show ?thesis using v valid_policy_guarantees [OF v] by blast
qed

end
