(* ===== verification/Risk_Types.thy ===== *)
theory Risk_Types
  imports Risk_Policy
begin

text \<open>
  \<open>src/runtime/src/risk/types.ts\<close>: what the risk engine reads and writes, and the schema a
  proposed action must satisfy. The enumerations are datatypes; a record keyed by strings is a
  map. The field constraints of the schema are a list of (path, holds) in schema order and its
  refinement a list of issues in the order the code adds them; only whether there is an issue and
  the first one are read by the engine.

  Four things come from libraries and are parameters (\<open>externals\<close>): SHA-256, the UUID check,
  the message the schema library gives a failed field constraint, and whether a failed constraint at a
  path keeps the library from running the refinement as well.
\<close>

record externals =
  ext_sha256 :: "string \<Rightarrow> string"
  ext_isUuid :: "string \<Rightarrow> bool"
  ext_zodMessage :: "string \<Rightarrow> string"
  ext_aborts :: "string \<Rightarrow> bool"

datatype mode = PAPER | LIVE

fun mode_str :: "mode \<Rightarrow> string" where
  "mode_str PAPER = ''PAPER''"
| "mode_str LIVE = ''LIVE''"

datatype action_kind = Swap | Approve | Lp_add | Lp_remove | Lp_rebalance | Lp_claim

fun kind_str :: "action_kind \<Rightarrow> string" where
  "kind_str Swap = ''swap''"
| "kind_str Approve = ''approve''"
| "kind_str Lp_add = ''lp_add''"
| "kind_str Lp_remove = ''lp_remove''"
| "kind_str Lp_rebalance = ''lp_rebalance''"
| "kind_str Lp_claim = ''lp_claim''"

lemma kind_str_inj [simp]: "kind_str a = kind_str b \<longleftrightarrow> a = b"
  by (cases a; cases b) simp_all

datatype action_source = Src_llm | Src_scheduler | Src_operator | Src_test

fun source_str :: "action_source \<Rightarrow> string" where
  "source_str Src_llm = ''llm''"
| "source_str Src_scheduler = ''scheduler''"
| "source_str Src_operator = ''operator''"
| "source_str Src_test = ''test''"

datatype activation_state = Act_PAPER | Act_PENDING | Act_LIVE

fun activation_str :: "activation_state \<Rightarrow> string" where
  "activation_str Act_PAPER = ''PAPER''"
| "activation_str Act_PENDING = ''PENDING''"
| "activation_str Act_LIVE = ''LIVE''"

datatype rejection_code =
    SCHEMA_INVALID | EMERGENCY_STOP | GLOBAL_PAUSE | LIVE_NOT_ACTIVATED | MODE_MISMATCH
  | CHAIN_UNSUPPORTED | DATA_STALE | TOKEN_NOT_ALLOWLISTED | PROTOCOL_NOT_ALLOWLISTED
  | CONTRACT_UNKNOWN | REDUCE_ONLY_MISMATCH | SIZE_EXCEEDS_MAX_TRADE | DAILY_LOSS_BREACHED
  | TOTAL_DEPLOYED_BREACHED | SLIPPAGE_EXCEEDS_MAX | QUOTE_OFF_MARKET | FEE_EXCEEDS_MAX
  | LIQUIDITY_BELOW_MIN | COOLDOWN_ACTIVE | BALANCE_INSUFFICIENT | DUPLICATE_ACTION
  | POOL_NOT_ALLOWLISTED | LP_CAPITAL_EXCEEDS_MAX | POOL_LIQUIDITY_BELOW_MIN
  | REBALANCE_LIMIT_REACHED | FEE_BELOW_CLAIM_THRESHOLD

section \<open>Proposed actions\<close>

record token_ref =
  tr_address :: string
  tr_decimals :: int

datatype fee_detail =
    Fee_evm (gasLimit: string) (maxFeePerGas: string)
  | Fee_solana (signatures: int) (computeUnitLimit: int)
      (computeUnitPriceMicroLamports: string) (rentLamports: string)

record quote =
  expectedAmountOut :: string
  minAmountOut :: string
  slippageBps :: int
  priceImpactBps :: int
  quotedAt :: int
  q_source :: string
  marketId :: string

record lp_leg =
  poolId :: string
  capitalUsd :: string
  rebalanceIndexToday :: int
  claimableFeesUsd :: string
  amountB :: "string option"
  minAmountA :: "string option"
  minAmountB :: "string option"
  lpTokens :: "string option"
  claimable :: "(string \<times> string) option"

record proposed_action =
  a_schemaVersion :: int
  actionId :: string
  decisionCycleId :: string
  idempotencyKey :: string
  proposedAt :: int
  a_mode :: mode
  a_source :: action_source
  a_chain :: chain_id
  a_kind :: action_kind
  a_protocol :: string
  a_contract :: string
  programIds :: "string list option"
  reduceOnly :: bool
  tokenIn :: token_ref
  tokenOut :: token_ref
  amountIn :: string
  a_quote :: "quote option"
  fee_estimatedAt :: int
  fee_detail :: fee_detail
  a_lp :: "lp_leg option"
  rationale :: "string option"

definition isLpKind :: "action_kind \<Rightarrow> bool" where
  "isLpKind k \<longleftrightarrow> k \<in> {Lp_add, Lp_remove, Lp_rebalance, Lp_claim}"

lemma isLpKind_simps [simp]:
  "\<not> isLpKind Swap" "\<not> isLpKind Approve" "isLpKind Lp_add" "isLpKind Lp_remove"
  "isLpKind Lp_rebalance" "isLpKind Lp_claim"
  by (simp_all add: isLpKind_def)

section \<open>The schema\<close>

definition MAX_SAFE_INTEGER :: int where "MAX_SAFE_INTEGER = 9007199254740991"

definition amountString :: "string \<Rightarrow> bool" where "amountString = canon_int"

definition usdSignedString :: "string \<Rightarrow> bool" where
  "usdSignedString s \<longleftrightarrow> usd_match s \<noteq> None"

definition sha256Hex :: "string \<Rightarrow> bool" where
  "sha256Hex s \<longleftrightarrow> length s = 64 \<and> list_all is_lower_hex s"

definition epochMs :: "int \<Rightarrow> bool" where "epochMs n \<longleftrightarrow> in_range 0 MAX_SAFE_INTEGER n"

definition canonicalAddress :: "string \<Rightarrow> bool" where
  "canonicalAddress s \<longleftrightarrow> evmAddress s \<or> solanaPubkey s"

definition opt_ok :: "('a \<Rightarrow> bool) \<Rightarrow> 'a option \<Rightarrow> bool" where
  "opt_ok P x \<longleftrightarrow> (case x of None \<Rightarrow> True | Some v \<Rightarrow> P v)"

lemma opt_ok_simps [simp]: "opt_ok P None" "opt_ok P (Some v) \<longleftrightarrow> P v"
  by (simp_all add: opt_ok_def)

type_synonym field_check = "string \<times> bool"

definition token_fields :: "string \<Rightarrow> token_ref \<Rightarrow> field_check list" where
  "token_fields path t = [(path @ ''.address'', canonicalAddress (tr_address t)),
     (path @ ''.decimals'', in_range 0 18 (tr_decimals t))]"

definition quote_fields :: "quote \<Rightarrow> field_check list" where
  "quote_fields q = [
     (''quote.expectedAmountOut'', amountString (expectedAmountOut q)),
     (''quote.minAmountOut'', amountString (minAmountOut q)),
     (''quote.slippageBps'', in_range 0 10000 (slippageBps q)),
     (''quote.priceImpactBps'', in_range 0 10000 (priceImpactBps q)),
     (''quote.quotedAt'', epochMs (quotedAt q)),
     (''quote.source'', 1 \<le> length (q_source q) \<and> length (q_source q) \<le> 64),
     (''quote.marketId'', 1 \<le> length (marketId q) \<and> length (marketId q) \<le> 128)]"

fun fee_fields :: "fee_detail \<Rightarrow> field_check list" where
  "fee_fields (Fee_evm g m) = [
     (''feeEstimate.detail.gasLimit'', amountString g),
     (''feeEstimate.detail.maxFeePerGas'', amountString m)]"
| "fee_fields (Fee_solana s l p r) = [
     (''feeEstimate.detail.signatures'', in_range 1 64 s),
     (''feeEstimate.detail.computeUnitLimit'', in_range 0 1400000 l),
     (''feeEstimate.detail.computeUnitPriceMicroLamports'', amountString p),
     (''feeEstimate.detail.rentLamports'', amountString r)]"

definition lp_fields :: "lp_leg \<Rightarrow> field_check list" where
  "lp_fields l = [
     (''lp.poolId'', 1 \<le> length (poolId l) \<and> length (poolId l) \<le> 128),
     (''lp.capitalUsd'', usdSignedString (capitalUsd l)),
     (''lp.rebalanceIndexToday'', 0 \<le> rebalanceIndexToday l),
     (''lp.claimableFeesUsd'', usdSignedString (claimableFeesUsd l)),
     (''lp.amountB'', opt_ok amountString (amountB l)),
     (''lp.minAmountA'', opt_ok amountString (minAmountA l)),
     (''lp.minAmountB'', opt_ok amountString (minAmountB l)),
     (''lp.lpTokens'', opt_ok amountString (lpTokens l)),
     (''lp.claimable.amountA'', opt_ok (\<lambda>c. amountString (fst c)) (claimable l)),
     (''lp.claimable.amountB'', opt_ok (\<lambda>c. amountString (snd c)) (claimable l))]"

definition field_checks :: "externals \<Rightarrow> proposed_action \<Rightarrow> field_check list" where
  "field_checks X a =
     [(''schemaVersion'', a_schemaVersion a = 1),
      (''actionId'', ext_isUuid X (actionId a)),
      (''decisionCycleId'', ext_isUuid X (decisionCycleId a)),
      (''idempotencyKey'', sha256Hex (idempotencyKey a)),
      (''proposedAt'', epochMs (proposedAt a)),
      (''protocol'', protocolKey (a_protocol a)),
      (''contract'', canonicalAddress (a_contract a))] @
     (case programIds a of None \<Rightarrow> []
      | Some ids \<Rightarrow> map (\<lambda>(i, p). (''programIds.'' @ nat_str i, canonicalAddress p)) (enumerate 0 ids)) @
     token_fields ''tokenIn'' (tokenIn a) @ token_fields ''tokenOut'' (tokenOut a) @
     [(''amountIn'', amountString (amountIn a))] @
     (case a_quote a of None \<Rightarrow> [] | Some q \<Rightarrow> quote_fields q) @
     [(''feeEstimate.estimatedAt'', epochMs (fee_estimatedAt a))] @ fee_fields (fee_detail a) @
     (case a_lp a of None \<Rightarrow> [] | Some l \<Rightarrow> lp_fields l) @
     [(''rationale'', opt_ok (\<lambda>r. length r \<le> 2000) (rationale a))]"

definition lp_issues :: "proposed_action \<Rightarrow> lp_leg \<Rightarrow> field_issue list" where
  "lp_issues a l =
     issue_if ((a_kind a = Lp_add \<or> a_kind a = Lp_rebalance) \<and> (amountB l = None \<or> amountB l = Some []))
       [''lp'', ''amountB''] ''lp_add needs amountB'' @
     issue_if (amountB l = Some ''0'') [''lp'', ''amountB''] ''must be greater than zero'' @
     issue_if (a_kind a = Lp_remove \<and> (lpTokens l = None \<or> lpTokens l = Some [] \<or> lpTokens l = Some ''0''))
       [''lp'', ''lpTokens''] ''lp_remove needs a positive lpTokens amount'' @
     issue_if (a_kind a = Lp_claim \<and> claimable l = None)
       [''lp'', ''claimable''] ''lp_claim needs the claimable amounts'' @
     issue_if (a_kind a = Lp_claim \<and> a_contract a \<noteq> poolId l)
       [''contract''] ''lp_claim must target the pool itself'' @
     issue_if (a_kind a = Approve \<and> tr_address (tokenIn a) \<noteq> poolId l)
       [''lp'', ''poolId''] ''an approve with an lp leg must approve the pool LP token''"

definition quote_issues :: "quote \<Rightarrow> field_issue list result" where
  "quote_issues q =
     sbind (js_BigInt (expectedAmountOut q)) (\<lambda>expected.
     sbind (js_BigInt (minAmountOut q)) (\<lambda>minimum. Inr (
       issue_if (expected = 0) [''quote'', ''expectedAmountOut''] ''must be greater than zero'' @
       issue_if (minimum > expected) [''quote'', ''minAmountOut''] ''must not exceed expectedAmountOut'')))"

fun fee_family :: "fee_detail \<Rightarrow> chain_family" where
  "fee_family (Fee_evm _ _) = Evm"
| "fee_family (Fee_solana _ _ _ _) = Sol"

definition family_str :: "chain_family \<Rightarrow> string" where
  "family_str f = (case f of Evm \<Rightarrow> ''evm'' | Sol \<Rightarrow> ''solana'')"

definition shape_issues :: "proposed_action \<Rightarrow> field_issue list" where
  "shape_issues a = (let
     isLp = isLpKind (a_kind a);
     isLpClaim = a_kind a = Lp_claim
   in
     issue_if (amountIn a = ''0'' \<and> \<not> isLpClaim) [''amountIn''] ''must be greater than zero'' @
     issue_if (reduceOnly a \<and> a_kind a \<noteq> Swap)
       [''reduceOnly''] (kind_str (a_kind a) @ '' cannot be reduce-only'') @
     issue_if (isLp \<and> a_lp a = None) [''lp''] (kind_str (a_kind a) @ '' requires the lp leg'') @
     issue_if (a_kind a = Swap \<and> a_lp a \<noteq> None) [''lp''] ''a swap cannot carry an lp leg'' @
     (case a_lp a of None \<Rightarrow> [] | Some l \<Rightarrow> lp_issues a l) @
     (if a_kind a = Approve then
        issue_if (a_quote a \<noteq> None) [''quote''] ''approve must not carry a quote'' @
        issue_if (tr_address (tokenIn a) \<noteq> tr_address (tokenOut a))
          [''tokenOut''] ''approve must reference a single token''
      else
        issue_if (a_quote a = None \<and> \<not> isLpClaim) [''quote''] ''a quote is required'' @
        issue_if (a_quote a \<noteq> None \<and> isLpClaim) [''quote''] ''lp_claim has no quote'' @
        issue_if (tr_address (tokenIn a) = tr_address (tokenOut a))
          [''tokenOut''] ''tokenIn and tokenOut must differ''))"

definition chain_shape_issues :: "proposed_action \<Rightarrow> field_issue list" where
  "chain_shape_issues a = (let isSolana = a_chain a = Solana in
     issue_if (isSolana \<and> programIds a = None)
       [''programIds''] ''Solana actions must list every top-level program id'' @
     issue_if (\<not> isSolana \<and> programIds a \<noteq> None) [''programIds''] ''programIds is Solana-only'' @
     issue_if (isSolana \<noteq> (fee_family (fee_detail a) = Sol))
       [''feeEstimate'', ''detail'', ''family'']
       (''fee detail family '' @ family_str (fee_family (fee_detail a)) @ '' does not match chain ''
          @ chain_str (a_chain a)))"

definition refine_issues :: "proposed_action \<Rightarrow> field_issue list result" where
  "refine_issues a =
     sbind (case a_quote a of None \<Rightarrow> Inr [] | Some q \<Rightarrow> quote_issues q) (\<lambda>quoteIssues.
       Inr (shape_issues a @ quoteIssues @ chain_shape_issues a))"

text \<open>\<open>safeParse\<close>: the issues of the failed fields and, unless one of them stops the library, those
  of the refinement after them. No issue means the action was accepted; the refinement can raise.\<close>

definition field_issues :: "externals \<Rightarrow> proposed_action \<Rightarrow> field_issue list" where
  "field_issues X a = map (\<lambda>c. (fst c, ext_zodMessage X (fst c)))
     (filter (\<lambda>c. \<not> snd c) (field_checks X a))"

definition schema_parse :: "externals \<Rightarrow> proposed_action \<Rightarrow> field_issue list result" where
  "schema_parse X a = (let failed = field_issues X a in
     if list_ex (\<lambda>c. ext_aborts X (fst c)) failed then Inr failed
     else sbind (refine_issues a) (\<lambda>refined. Inr (failed @ refined)))"

definition action_valid :: "externals \<Rightarrow> proposed_action \<Rightarrow> bool" where
  "action_valid X a \<longleftrightarrow> schema_parse X a = Inr []"

section \<open>State, snapshot, decision\<close>

record position =
  pos_chain :: chain_id
  pos_token :: string
  pos_amount :: string
  pos_costBasisUsd :: string
  pos_openedAt :: int

record risk_ledger =
  dayStartUtcMs :: int
  deployedUsd :: string
  realizedPnlTodayUsd :: string
  unrealizedPnlUsd :: string
  unrealizedPnlAtDayStartUsd :: string
  positions :: "position list"
  lpRebalancesToday :: "string \<rightharpoonup> int"

record runtime_state =
  st_mode :: mode
  emergency_active :: bool
  emergency_reason :: "string option"
  st_globalPause :: bool
  activation :: activation_state
  liveSession :: "(int \<times> int) option"
  cooldowns :: "string \<rightharpoonup> int"
  lastAnyActionAt :: "int option"
  ledger :: risk_ledger

record stamped =
  sv_value :: string
  sv_at :: int
  sv_source :: string

record lp_snapshot =
  lps_deployedUsd :: string
  rebalancesToday :: "string \<rightharpoonup> int"
  lp_positions :: "string \<rightharpoonup> string \<times> string"

record market_snapshot =
  prices :: "string \<rightharpoonup> stamped"
  liquidity :: "string \<rightharpoonup> stamped"
  balances :: "string \<rightharpoonup> stamped"
  poolLiquidity :: "string \<rightharpoonup> stamped"
  snap_lp :: "lp_snapshot option"

record risk_input =
  now :: int
  policy :: risk_policy
  policyHash :: string
  action :: proposed_action
  state :: runtime_state
  snapshot :: market_snapshot

datatype skip_reason = Not_applicable | Short_circuit

record risk_check =
  ck_name :: string
  ck_code :: rejection_code
  ck_passed :: bool
  ck_observed :: string
  ck_limit :: string
  ck_skipped :: "skip_reason option"
  ck_detail :: "string option"

record risk_derived =
  amountInUsd :: string
  feeUsd :: string
  impliedBps :: int
  dailyLossUsd :: string
  projectedDeployedUsd :: string

record risk_decision =
  d_engineVersion :: string
  d_actionId :: string
  d_idempotencyKey :: string
  d_mode :: mode
  evaluatedAt :: int
  d_policyHash :: string
  allowed :: bool
  d_code :: "rejection_code option"
  d_reason :: string
  checks :: "risk_check list"
  derived :: "risk_derived option"
  replayOf :: "string option"

section \<open>Keys\<close>

definition chain_key :: "chain_id \<Rightarrow> string \<Rightarrow> string" where
  "chain_key c s = chain_str c @ '':'' @ s"

definition marketKey :: "chain_id \<Rightarrow> string \<Rightarrow> string \<Rightarrow> string" where
  "marketKey c a b = (let (first, second) = (if a < b then (a, b) else (b, a))
     in chain_str c @ '':'' @ first @ '':'' @ second)"

definition priceKey :: "chain_id \<Rightarrow> string \<Rightarrow> string" where "priceKey = chain_key"
definition balanceKey :: "chain_id \<Rightarrow> string \<Rightarrow> string" where "balanceKey = chain_key"
definition liquidityKey :: "chain_id \<Rightarrow> string \<Rightarrow> string" where "liquidityKey = chain_key"
definition lpPoolKey :: "chain_id \<Rightarrow> string \<Rightarrow> string" where "lpPoolKey = chain_key"

lemma marketKey_commute: "marketKey c a b = marketKey c b a"
  by (cases "a < b"; cases "b < a") (auto simp: marketKey_def)

lemma chain_key_inj: "chain_key c s = chain_key d t \<longleftrightarrow> c = d \<and> s = t"
  by (cases c; cases d) (auto simp: chain_key_def)

lemma chain_key_injs [simp]:
  "priceKey c s = priceKey d t \<longleftrightarrow> c = d \<and> s = t"
  "balanceKey c s = balanceKey d t \<longleftrightarrow> c = d \<and> s = t"
  "liquidityKey c s = liquidityKey d t \<longleftrightarrow> c = d \<and> s = t"
  "lpPoolKey c s = lpPoolKey d t \<longleftrightarrow> c = d \<and> s = t"
  by (simp_all add: priceKey_def balanceKey_def liquidityKey_def lpPoolKey_def chain_key_inj)

section \<open>What an accepted action satisfies\<close>

lemma schema_parse_Nil:
  "action_valid X a \<longleftrightarrow> list_all snd (field_checks X a) \<and> refine_issues a = Inr []"
proof -
  have "field_issues X a = [] \<longleftrightarrow> list_all snd (field_checks X a)"
    by (auto simp: field_issues_def filter_empty_conv list_all_iff)
  then show ?thesis
    by (cases "field_issues X a") (auto simp: action_valid_def schema_parse_def Let_def sbind_eq_Inr)
qed

lemma action_valid_fields:
  assumes "action_valid X a"
  shows "a_schemaVersion a = 1" "canon_int (amountIn a)" "canonicalAddress (tr_address (tokenIn a))"
    "canonicalAddress (tr_address (tokenOut a))" "in_range 0 18 (tr_decimals (tokenIn a))"
    "in_range 0 18 (tr_decimals (tokenOut a))" "list_all snd (fee_fields (fee_detail a))"
    "\<And>q. a_quote a = Some q \<Longrightarrow> list_all snd (quote_fields q)"
    "\<And>l. a_lp a = Some l \<Longrightarrow> list_all snd (lp_fields l)"
    "canonicalAddress (a_contract a)"
  using assms by (auto simp: schema_parse_Nil field_checks_def token_fields_def amountString_def)

lemma action_valid_refine:
  assumes "action_valid X a"
  shows "shape_issues a = []" "chain_shape_issues a = []" "\<And>q. a_quote a = Some q \<Longrightarrow> quote_issues q = Inr []"
  using assms by (auto simp: schema_parse_Nil refine_issues_def sbind_eq_Inr)

lemma action_valid_quote:
  assumes "action_valid X a"
  shows "a_quote a = None \<longleftrightarrow> a_kind a = Approve \<or> a_kind a = Lp_claim"
  using action_valid_refine(1) [OF assms]
  by (auto simp: shape_issues_def Let_def split: if_splits)

lemma action_valid_lp:
  assumes "action_valid X a"
  shows "isLpKind (a_kind a) \<Longrightarrow> a_lp a \<noteq> None" "a_kind a = Swap \<Longrightarrow> a_lp a = None"
    "reduceOnly a \<Longrightarrow> a_kind a = Swap"
    "a_kind a \<noteq> Lp_claim \<Longrightarrow> amountIn a \<noteq> ''0''"
  using action_valid_refine(1) [OF assms]
  by (auto simp: shape_issues_def Let_def)

lemma action_valid_quote_amounts:
  assumes "action_valid X a" "a_quote a = Some q"
  shows "canon_int (expectedAmountOut q)" "canon_int (minAmountOut q)"
    "0 < digits_val (expectedAmountOut q)" "digits_val (minAmountOut q) \<le> digits_val (expectedAmountOut q)"
    "in_range 0 10000 (slippageBps q)" "in_range 0 10000 (priceImpactBps q)"
proof -
  have f: "list_all snd (quote_fields q)" using action_valid_fields(8) [OF assms] .
  then show c: "canon_int (expectedAmountOut q)" "canon_int (minAmountOut q)"
    by (simp_all add: quote_fields_def amountString_def)
  show "in_range 0 10000 (slippageBps q)" "in_range 0 10000 (priceImpactBps q)"
    using f by (simp_all add: quote_fields_def)
  have "js_BigInt (expectedAmountOut q) = Inr (int (digits_val (expectedAmountOut q)))"
    "js_BigInt (minAmountOut q) = Inr (int (digits_val (minAmountOut q)))"
    using c by (simp_all add: js_BigInt_digits canon_int_def)
  then show "0 < digits_val (expectedAmountOut q)"
    "digits_val (minAmountOut q) \<le> digits_val (expectedAmountOut q)"
    using action_valid_refine(3) [OF assms] by (simp_all add: quote_issues_def)
qed

lemma action_valid_lp_fields:
  assumes "action_valid X a" "a_lp a = Some l"
  shows "opt_ok canon_int (amountB l)" "opt_ok canon_int (lpTokens l)"
    "opt_ok (\<lambda>c. canon_int (fst c)) (claimable l)" "opt_ok (\<lambda>c. canon_int (snd c)) (claimable l)"
    "a_kind a = Lp_add \<or> a_kind a = Lp_rebalance \<Longrightarrow> amountB l \<noteq> None"
    "a_kind a = Lp_remove \<Longrightarrow> lpTokens l \<noteq> None"
    "a_kind a = Lp_claim \<Longrightarrow> claimable l \<noteq> None"
  using action_valid_refine(1) [OF assms(1)] action_valid_fields(9) [OF assms] assms(2)
  by (auto simp: shape_issues_def Let_def lp_issues_def lp_fields_def amountString_def)

end
