(* ===== verification/Audit_Log.thy ===== *)
theory Audit_Log
  imports Risk_Types
begin

text \<open>
  \<open>src/runtime/src/audit/audit.ts\<close> and the activity route that pages through it
  (\<open>src/runtime/src/http/routes/control.ts\<close>): the append-only audit trail. Rows are kept in
  insertion order with the id the table's sequence gives them; the triggers reject every other
  statement, so \<open>append\<close> is the only operation that changes the table. The random event id and the
  redacted detail document are left out: nothing else in the program reads them.

  \<open>audit_db\<close> is the first part of the runtime's database; the later components extend it with their
  own tables, so an operation typed over \<open>'a audit_db_scheme\<close> cannot touch theirs.
\<close>

datatype audit_category =
    Cat_setup | Cat_auth | Cat_wallet | Cat_risk | Cat_mode | Cat_control | Cat_trade
  | Cat_liquidity | Cat_market | Cat_research | Cat_telegram | Cat_system

datatype audit_status = Au_ok | Au_rejected | Au_failed | Au_pending | Au_hold

record audit_event =
  ae_category :: audit_category
  ae_action :: string
  ae_status :: audit_status
  ae_summary :: string
  ae_chain :: "chain_id option"
  ae_actor :: string
  ae_mode :: "mode option"
  ae_correlationId :: "string option"

record audit_record = audit_event +
  ar_id :: int
  ar_ts :: int

record audit_db =
  au_rows :: "audit_record list"
  au_seq :: int

text \<open>The defaults of the optional fields of an event.\<close>

definition audit_event_of ::
  "audit_category \<Rightarrow> string \<Rightarrow> audit_status \<Rightarrow> string \<Rightarrow> string \<Rightarrow> mode option \<Rightarrow> audit_event" where
  "audit_event_of cat act st summary actor m = \<lparr>ae_category = cat, ae_action = act, ae_status = st,
     ae_summary = summary, ae_chain = None, ae_actor = actor, ae_mode = m, ae_correlationId = None\<rparr>"

definition audit_append :: "int \<Rightarrow> audit_event \<Rightarrow> 'a audit_db_scheme \<Rightarrow> 'a audit_db_scheme" where
  "audit_append t e db = db\<lparr>au_seq := au_seq db + 1,
     au_rows := au_rows db @ [audit_event.extend e \<lparr>ar_id = au_seq db + 1, ar_ts = t\<rparr>]\<rparr>"

record audit_query =
  aq_category :: "audit_category option"
  aq_chain :: "chain_id option"
  aq_status :: "audit_status option"
  aq_correlationId :: "string option"
  aq_before :: "int option"
  aq_limit :: "int option"

definition clause :: "'a option \<Rightarrow> ('a \<Rightarrow> bool) \<Rightarrow> bool" where
  "clause c p = (case c of None \<Rightarrow> True | Some x \<Rightarrow> p x)"

lemma clause_simps [simp]: "clause None p" "clause (Some x) p = p x"
  by (simp_all add: clause_def)

text \<open>The clauses other than the cursor. An empty correlation id is no clause.\<close>

definition query_matches :: "audit_query \<Rightarrow> audit_record \<Rightarrow> bool" where
  "query_matches q r \<longleftrightarrow> clause (aq_category q) (\<lambda>c. ae_category r = c)
     \<and> clause (aq_chain q) (\<lambda>c. ae_chain r = Some c) \<and> clause (aq_status q) (\<lambda>s. ae_status r = s)
     \<and> clause (aq_correlationId q) (\<lambda>k. k = '''' \<or> ae_correlationId r = Some k)"

definition list_limit :: "audit_query \<Rightarrow> int" where
  "list_limit q = min (max (case aq_limit q of None \<Rightarrow> 50 | Some n \<Rightarrow> n) 1) 500"

definition audit_list :: "'a audit_db_scheme \<Rightarrow> audit_query \<Rightarrow> audit_record list" where
  "audit_list db q = take (nat (list_limit q)) (rev (sort_key ar_id
     (filter (\<lambda>r. query_matches q r \<and> clause (aq_before q) (\<lambda>n. ar_id r < n)) (au_rows db))))"

definition audit_count :: "'a audit_db_scheme \<Rightarrow> int" where
  "audit_count db = int (length (au_rows db))"

text \<open>
  One request of the activity route: the page and the cursor of the next one, which is the id of the
  last event when the page is full and absent otherwise. The route passes the page size it compares
  with, already between 1 and 500.
\<close>

definition activity_page :: "'a audit_db_scheme \<Rightarrow> audit_query \<Rightarrow> audit_record list \<times> int option" where
  "activity_page db q = (let events = audit_list db q in
     (events, if int (length events) = list_limit q \<and> events \<noteq> [] then Some (ar_id (last events)) else None))"

text \<open>A reader that follows the cursor, one database per request: the trail may grow in between.\<close>

fun browse :: "'a audit_db_scheme list \<Rightarrow> audit_query \<Rightarrow> audit_record list option" where
  "browse [] q = None"
| "browse (db # dbs) q = (case activity_page db q of (events, cursor) \<Rightarrow>
     (case cursor of None \<Rightarrow> Some events
      | Some n \<Rightarrow> map_option (\<lambda>more. events @ more) (browse dbs (q\<lparr>aq_before := Some n\<rparr>))))"

section \<open>The invariant of the table\<close>

text \<open>Ids are strictly increasing in insertion order and bounded by the sequence.\<close>

definition audit_ok :: "'a audit_db_scheme \<Rightarrow> bool" where
  "audit_ok db \<longleftrightarrow> sorted_wrt (<) (map ar_id (au_rows db)) \<and> (\<forall>r \<in> set (au_rows db). ar_id r \<le> au_seq db)"

text \<open>A later state of the trail: more rows at the end, with larger ids.\<close>

definition audit_extends :: "'a audit_db_scheme \<Rightarrow> 'b audit_db_scheme \<Rightarrow> bool" where
  "audit_extends old new \<longleftrightarrow> audit_ok new \<and> (\<exists>more. au_rows new = au_rows old @ more)"

lemma extend_id [simp]: "ar_id (audit_event.extend e \<lparr>ar_id = i, ar_ts = t\<rparr>) = i"
  by (simp add: audit_event.extend_def)

lemma audit_append_rows [simp]:
  "au_rows (audit_append t e db) = au_rows db @ [audit_event.extend e \<lparr>ar_id = au_seq db + 1, ar_ts = t\<rparr>]"
  "au_seq (audit_append t e db) = au_seq db + 1"
  "audit_db.more (audit_append t e db) = audit_db.more db"
  by (simp_all add: audit_append_def)

lemma audit_append_ok [simp, intro]: "audit_ok db \<Longrightarrow> audit_ok (audit_append t e db)"
  by (auto simp: audit_ok_def sorted_wrt_append intro: order_trans)

lemma audit_extends_refl: "audit_ok db \<Longrightarrow> audit_extends db db"
  by (auto simp: audit_extends_def)

lemma audit_extends_trans: "audit_extends a b \<Longrightarrow> audit_extends b c \<Longrightarrow> audit_extends a c"
  by (auto simp: audit_extends_def)

lemma audit_append_extends: "audit_ok db \<Longrightarrow> audit_extends db (audit_append t e db)"
  unfolding audit_extends_def using audit_append_ok by fastforce

lemma clause_mono: "clause c p \<Longrightarrow> (\<And>x. p x \<Longrightarrow> p' x) \<Longrightarrow> clause c p'"
  by (cases c) auto

section \<open>Paging\<close>

lemma sort_key_sorted: "sorted_wrt (<) (map f xs) \<Longrightarrow> sort_key f xs = (xs :: 'a list)"
  for f :: "'a \<Rightarrow> int"
  by (rule sort_key_id_if_sorted) (auto simp: sorted_wrt_map elim!: sorted_wrt_mono_rel[rotated])

lemma sorted_wrt_map_filter: "sorted_wrt (<) (map f xs) \<Longrightarrow> sorted_wrt (<) (map f (filter P xs))"
  by (simp add: sorted_wrt_map sorted_wrt_filter)

text \<open>The rows a query reads from the cursor on, newest first.\<close>

definition matching :: "'a audit_db_scheme \<Rightarrow> audit_query \<Rightarrow> audit_record list" where
  "matching db q = rev (filter (\<lambda>r. query_matches q r \<and> clause (aq_before q) (\<lambda>n. ar_id r < n)) (au_rows db))"

lemma audit_list_matching:
  "audit_ok db \<Longrightarrow> audit_list db q = take (nat (list_limit q)) (matching db q)"
  unfolding audit_list_def matching_def
  by (subst sort_key_sorted) (auto simp: audit_ok_def intro: sorted_wrt_map_filter)

lemma list_limit_bounds: "1 \<le> list_limit q" "list_limit q \<le> 500"
  by (simp_all add: list_limit_def)

lemma query_before [simp]:
  "query_matches (q\<lparr>aq_before := b\<rparr>) = query_matches q" "list_limit (q\<lparr>aq_before := b\<rparr>) = list_limit q"
  by (simp_all add: query_matches_def list_limit_def fun_eq_iff)

text \<open>After a full page, what is left to read is what the page did not show.\<close>

lemma sorted_filter_below:
  fixes f :: "'r \<Rightarrow> int"
  assumes "sorted_wrt (<) (map f (us @ v # ws))"
  shows "filter (\<lambda>r. f r < f v) (us @ v # ws) = us"
  using assms by (auto simp: sorted_wrt_append filter_id_conv filter_empty_conv image_iff)

lemma matching_next:
  assumes ok: "audit_ok db" and n: "0 < n" "n \<le> length (matching db q)"
    and c: "c = ar_id (last (take n (matching db q)))"
  shows "matching db (q\<lparr>aq_before := Some c\<rparr>) = drop n (matching db q)"
proof -
  define ms where "ms = matching db q"
  define v where "v = ms ! (n - 1)"
  have "ms \<noteq> []" using n by (auto simp: ms_def)
  then have last: "last (take n ms) = v" using n by (simp add: last_conv_nth ms_def v_def min_def)
  have split: "ms = take (n - 1) ms @ v # drop n ms"
    using n id_take_nth_drop[of "n - 1" ms] by (simp add: ms_def v_def)
  have asc: "rev ms = rev (drop n ms) @ v # rev (take (n - 1) ms)"
    by (subst split) (simp only: rev_append rev.simps append_assoc append_Cons append_Nil)
  have sorted: "sorted_wrt (<) (map ar_id (rev ms))"
    using ok by (simp add: ms_def matching_def audit_ok_def sorted_wrt_map_filter)
  have old: "clause (aq_before q) (\<lambda>n. ar_id r < n)" if "ar_id r < c" for r
  proof -
    have "v \<in> set ms" using n by (simp add: v_def ms_def)
    then have "clause (aq_before q) (\<lambda>n. ar_id v < n)" by (simp add: ms_def matching_def)
    then show ?thesis using that c last by (cases "aq_before q") (auto simp: ms_def)
  qed
  have "matching db (q\<lparr>aq_before := Some c\<rparr>) = rev (filter (\<lambda>r. ar_id r < c) (rev ms))"
    unfolding ms_def matching_def using old by (auto simp: filter_filter intro!: filter_cong)
  also have "filter (\<lambda>r. ar_id r < c) (rev ms) = rev (drop n ms)"
    using sorted_filter_below[of ar_id "rev (drop n ms)" v "rev (take (n - 1) ms)"] sorted asc c last
    by (simp add: ms_def)
  finally show ?thesis by (simp add: ms_def)
qed

lemma matching_extends:
  assumes "audit_extends old new" "r \<in> set (au_rows old)"
  shows "matching new (q\<lparr>aq_before := Some (ar_id r)\<rparr>) = matching old (q\<lparr>aq_before := Some (ar_id r)\<rparr>)"
proof -
  obtain more where more: "au_rows new = au_rows old @ more" using assms(1) by (auto simp: audit_extends_def)
  have "\<forall>s \<in> set more. ar_id r < ar_id s"
    using assms more by (auto simp: audit_extends_def audit_ok_def sorted_wrt_append)
  then have "filter (\<lambda>s. query_matches q s \<and> ar_id s < ar_id r) more = []"
    by (fastforce simp: filter_empty_conv)
  then show ?thesis by (simp add: matching_def more)
qed

lemma browse_page:
  assumes "audit_ok d" "matching d q = ms" "n = nat (list_limit q)"
  shows "browse (d # ds) q = (if n \<le> length ms
    then map_option (\<lambda>more. take n ms @ more) (browse ds (q\<lparr>aq_before := Some (ar_id (last (take n ms)))\<rparr>))
    else Some ms)"
  using assms list_limit_bounds(1)[of q]
  by (auto simp: activity_page_def audit_list_matching Let_def split: option.split)

lemma page_seen:
  assumes "0 < n" "n \<le> length (matching db q)"
  shows "last (take n (matching db q)) \<in> set (au_rows db)"
proof -
  have "matching db q \<noteq> []" using assms by auto
  then have "last (take n (matching db q)) \<in> set (matching db q)"
    using assms(1) in_set_takeD[OF last_in_set, of n "matching db q"] by simp
  then show ?thesis by (simp add: matching_def)
qed

lemma browse_matching:
  assumes "\<forall>d \<in> set ds. audit_extends base d \<and> matching d q = matching base q"
    and "audit_ok base" "length (matching base q) < length ds"
  shows "browse ds q = Some (matching base q)"
  using assms
proof (induction ds arbitrary: q)
  case (Cons d ds)
  let ?ms = "matching base q" and ?n = "nat (list_limit q)"
  let ?q = "q\<lparr>aq_before := Some (ar_id (last (take ?n ?ms)))\<rparr>"
  have page: "browse (d # ds) q = (if ?n \<le> length ?ms
      then map_option (\<lambda>more. take ?n ?ms @ more) (browse ds ?q) else Some ?ms)"
    using Cons.prems(1) by (intro browse_page) (auto simp: audit_extends_def)
  have n: "0 < ?n" using list_limit_bounds(1)[of q] by simp
  show ?case
  proof (cases "?n \<le> length ?ms")
    case True
    have rest: "matching base ?q = drop ?n ?ms"
      using Cons.prems(2) n True by (intro matching_next) simp_all
    have "\<forall>e \<in> set ds. audit_extends base e \<and> matching e ?q = matching base ?q"
      using Cons.prems(1) by (simp add: matching_extends[OF _ page_seen[OF n True]])
    moreover have "length (matching base ?q) < length ds"
      using Cons.prems(3) n True by (simp add: rest)
    ultimately have "browse ds ?q = Some (drop ?n ?ms)"
      using Cons.IH[of ?q] Cons.prems(2) rest by simp
    then show ?thesis using page True by simp
  qed (use page in simp)
qed simp

text \<open>Following the activity cursor reads the audit trail completely: whatever the page size and
  the clauses, and although the trail grows between the requests, the pages together are exactly the
  events that matched when the reader started, newest first, each of them once.\<close>

theorem activity_paging_complete:
  assumes "audit_ok db" "\<forall>d \<in> set later. audit_extends db d"
    and "aq_before q = None" "length (filter (query_matches q) (au_rows db)) \<le> length later"
  shows "browse (db # later) q = Some (rev (filter (query_matches q) (au_rows db)))"
proof -
  let ?ms = "rev (filter (query_matches q) (au_rows db))"
  let ?n = "nat (list_limit q)"
  let ?q = "q\<lparr>aq_before := Some (ar_id (last (take ?n ?ms)))\<rparr>"
  have ms: "matching db q = ?ms" using assms(3) by (simp add: matching_def)
  have page: "browse (db # later) q = (if ?n \<le> length ?ms
      then map_option (\<lambda>more. take ?n ?ms @ more) (browse later ?q) else Some ?ms)"
    using assms(1) ms by (intro browse_page) auto
  have n: "0 < ?n" using list_limit_bounds(1)[of q] by simp
  show ?thesis
  proof (cases "?n \<le> length ?ms")
    case True
    have rest: "matching db ?q = drop ?n ?ms"
      using assms(1) n True ms matching_next[of db ?n q] by simp
    have seen: "last (take ?n ?ms) \<in> set (au_rows db)" using page_seen[of ?n db q] n True ms by simp
    have "browse later ?q = Some (drop ?n ?ms)"
      unfolding rest[symmetric]
    proof (rule browse_matching)
      show "\<forall>e \<in> set later. audit_extends db e \<and> matching e ?q = matching db ?q"
        using assms(2) by (simp add: matching_extends[OF _ seen])
      show "length (matching db ?q) < length later" using assms(4) n True by (simp add: rest)
    qed (rule assms(1))
    then show ?thesis using page True by (simp add: append_take_drop_id)
  qed (use page in simp)
qed

section \<open>Witness\<close>

definition sample_event :: audit_event where
  "sample_event = audit_event_of Cat_system ''tick'' Au_ok ''tick'' ''system'' None"

definition sample_trail :: "nat \<Rightarrow> audit_db" where
  "sample_trail n = ((audit_append 5 sample_event) ^^ n) \<lparr>au_rows = [], au_seq = 0\<rparr>"

definition sample_query :: audit_query where
  "sample_query = \<lparr>aq_category = Some Cat_system, aq_chain = None, aq_status = None, aq_correlationId = None,
     aq_before = None, aq_limit = Some 2\<rparr>"

lemma sample_trail_Suc: "sample_trail (Suc n) = audit_append 5 sample_event (sample_trail n)"
  by (simp add: sample_trail_def)

lemma sample_trail_ok: "audit_ok (sample_trail n)"
  by (induction n) (simp_all add: sample_trail_Suc, simp add: sample_trail_def audit_ok_def)

lemma sample_trail_matches: "\<forall>r \<in> set (au_rows (sample_trail n)). query_matches sample_query r"
proof (induction n)
  case (Suc n)
  have "query_matches sample_query (audit_event.extend sample_event \<lparr>ar_id = i, ar_ts = t\<rparr>)" for i t
    by (simp add: query_matches_def sample_query_def sample_event_def audit_event_of_def audit_event.extend_def)
  with Suc show ?case by (simp add: sample_trail_Suc)
qed (simp add: sample_trail_def)

theorem activity_paging_complete_witness:
  "\<exists>es. browse [sample_trail 3, sample_trail 4, sample_trail 4, sample_trail 4] sample_query = Some es \<and>
     map ar_id es = [3, 2, 1]"
proof -
  have ext: "audit_extends (sample_trail 3) (sample_trail 4)"
    using audit_append_extends[OF sample_trail_ok, of 3 5 sample_event] sample_trail_Suc[of 3] by simp
  have "length (filter (query_matches sample_query) (au_rows (sample_trail 3))) \<le> 3"
    by (rule order_trans[OF length_filter_le]) (simp add: sample_trail_def numeral_3_eq_3)
  then have "browse (sample_trail 3 # [sample_trail 4, sample_trail 4, sample_trail 4]) sample_query =
      Some (rev (filter (query_matches sample_query) (au_rows (sample_trail 3))))"
    using ext by (intro activity_paging_complete sample_trail_ok) (simp_all add: sample_query_def)
  moreover have "filter (query_matches sample_query) (au_rows (sample_trail 3)) = au_rows (sample_trail 3)"
    by (rule filter_True) (rule sample_trail_matches)
  moreover have "map ar_id (au_rows (sample_trail 3)) = [1, 2, 3]"
    by (simp add: eval_nat_numeral sample_trail_Suc) (simp add: sample_trail_def)
  ultimately show ?thesis by (simp add: rev_map[symmetric])
qed

end
