(* ===== verification/State_Store.thy ===== *)
theory State_Store
  imports Audit_Log
begin

text \<open>
  \<open>src/runtime/src/core/state.ts\<close>: the installation row, the pause and emergency switches and the
  LIVE activation checklist. A table with one row is an option, absent until the row is inserted; an
  UPDATE of an absent row changes nothing. Times are epoch milliseconds (the ISO strings of the
  columns parse back to them), each operation reads the clock once, and the \<open>updated_at\<close> columns,
  which nothing reads, are left out. The hooks a switch calls are kept as the list of the calls made;
  an exception of a hook is swallowed by the code, so a call cannot fail the operation.
\<close>

definition LIVE_SESSION_TTL_MS :: int where "LIVE_SESSION_TTL_MS = 12 * 60 * 60 * 1000"

definition ACTIVATION_STEP_TTL_MS :: int where "ACTIVATION_STEP_TTL_MS = 10 * 60 * 1000"

datatype activation_step =
  Acknowledged | Reauthenticated | RiskReviewed | WalletFunded | GasChecked | AdapterChecked

text \<open>The keys of \<open>STEP_COLUMNS\<close>, in order.\<close>

definition STEP_COLUMNS :: "activation_step list" where
  "STEP_COLUMNS = [Acknowledged, Reauthenticated, RiskReviewed, WalletFunded, GasChecked, AdapterChecked]"

lemma step_in_columns [simp, intro]: "s \<in> set STEP_COLUMNS"
  by (cases s) (simp_all add: STEP_COLUMNS_def)

fun step_str :: "activation_step \<Rightarrow> string" where
  "step_str Acknowledged = ''acknowledged''"
| "step_str Reauthenticated = ''reauthenticated''"
| "step_str RiskReviewed = ''riskReviewed''"
| "step_str WalletFunded = ''walletFunded''"
| "step_str GasChecked = ''gasChecked''"
| "step_str AdapterChecked = ''adapterChecked''"

record installation =
  in_id :: string
  in_name :: string
  in_createdAt :: int
  in_mode :: mode
  in_setupCompleted :: bool
  in_enabledChains :: "chain_id list"

record switches =
  sw_globalPause :: bool
  sw_emergencyStop :: bool
  sw_pausedReason :: "string option"
  sw_emergencyReason :: "string option"

text \<open>The stamp columns, one per step.\<close>

record live_activation =
  la_stamp :: "activation_step \<Rightarrow> int option"
  la_activatedAt :: "int option"

record activation_progress =
  ap_done :: "activation_step \<Rightarrow> bool"
  ap_activatedAt :: "int option"
  ap_missing :: "activation_step list"

datatype hook_call =
    Pause_hook bool "string option" string
  | Emergency_hook bool "string option"

record state_db = audit_db +
  sd_installation :: "installation option"
  sd_switches :: "switches option"
  sd_activation :: "live_activation option"
  sd_hooks :: "hook_call list"

definition no_activation :: live_activation where
  "no_activation = \<lparr>la_stamp = Map.empty, la_activatedAt = None\<rparr>"

section \<open>Construction\<close>

definition setMode :: "mode \<Rightarrow> 'a state_db_scheme \<Rightarrow> 'a state_db_scheme" where
  "setMode m db = db\<lparr>sd_installation := map_option (in_mode_update (\<lambda>_. m)) (sd_installation db)\<rparr>"

definition resetChecklist :: "'a state_db_scheme \<Rightarrow> 'a state_db_scheme" where
  "resetChecklist db = db\<lparr>sd_activation := map_option (\<lambda>_. no_activation) (sd_activation db)\<rparr>"

definition ensureRows :: "'a state_db_scheme \<Rightarrow> 'a state_db_scheme" where
  "ensureRows db = db\<lparr>
     sd_switches := (case sd_switches db of Some s \<Rightarrow> Some s
       | None \<Rightarrow> Some \<lparr>sw_globalPause = False, sw_emergencyStop = False,
           sw_pausedReason = None, sw_emergencyReason = None\<rparr>),
     sd_activation := (case sd_activation db of Some a \<Rightarrow> Some a | None \<Rightarrow> Some no_activation)\<rparr>"

definition demoteOnBoot :: "int \<Rightarrow> 'a state_db_scheme \<Rightarrow> 'a state_db_scheme" where
  "demoteOnBoot t db = (if map_option in_mode (sd_installation db) \<noteq> Some LIVE then db
     else audit_append t (audit_event_of Cat_mode ''mode.paper'' Au_ok
         ''Runtime restarted; LIVE mode was not resumed'' ''system'' (Some PAPER))
       (resetChecklist (setMode PAPER db)))"

text \<open>The constructor of the store: every process start runs it.\<close>

definition bootState :: "int \<Rightarrow> 'a state_db_scheme \<Rightarrow> 'a state_db_scheme" where
  "bootState t db = demoteOnBoot t (ensureRows db)"

section \<open>The installation\<close>

definition getInstallation :: "'a state_db_scheme \<Rightarrow> installation option" where
  "getInstallation db = sd_installation db"

definition createInstallation ::
  "int \<Rightarrow> string \<Rightarrow> string \<Rightarrow> chain_id list \<Rightarrow> 'a state_db_scheme \<Rightarrow> 'a state_db_scheme result" where
  "createInstallation t iid name enabled db = (case getInstallation db of
     Some _ \<Rightarrow> Inl (AppError E_ALREADY_INITIALIZED ''This installation already exists'')
   | None \<Rightarrow> Inr (audit_append t (audit_event_of Cat_setup ''installation.created'' Au_ok
         (''Installation '' @ name @ '' created in PAPER mode'') ''system'' (Some PAPER))
       (db\<lparr>sd_installation := Some \<lparr>in_id = iid, in_name = name, in_createdAt = t, in_mode = PAPER,
            in_setupCompleted = False, in_enabledChains = enabled\<rparr>\<rparr>)))"

definition setEnabledChains :: "chain_id list \<Rightarrow> 'a state_db_scheme \<Rightarrow> 'a state_db_scheme" where
  "setEnabledChains enabled db =
     db\<lparr>sd_installation := map_option (in_enabledChains_update (\<lambda>_. enabled)) (sd_installation db)\<rparr>"

definition completeSetup :: "int \<Rightarrow> 'a state_db_scheme \<Rightarrow> 'a state_db_scheme" where
  "completeSetup t db = audit_append t (audit_event_of Cat_setup ''setup.completed'' Au_ok
       ''First-run setup completed; running in PAPER mode'' ''system'' (Some PAPER))
     (db\<lparr>sd_installation := map_option (in_setupCompleted_update (\<lambda>_. True)) (sd_installation db)\<rparr>)"

definition getMode :: "'a state_db_scheme \<Rightarrow> mode" where
  "getMode db = (case sd_installation db of None \<Rightarrow> PAPER | Some i \<Rightarrow> in_mode i)"

section \<open>Pause and emergency stop\<close>

definition getSwitches :: "'a state_db_scheme \<Rightarrow> switches" where
  "getSwitches db = (case sd_switches db of Some s \<Rightarrow> s
     | None \<Rightarrow> \<lparr>sw_globalPause = False, sw_emergencyStop = False,
         sw_pausedReason = None, sw_emergencyReason = None\<rparr>)"

definition reason_text :: "string option \<Rightarrow> string" where
  "reason_text r = (case r of None \<Rightarrow> ''no reason given'' | Some s \<Rightarrow> s)"

definition setGlobalPause ::
  "int \<Rightarrow> bool \<Rightarrow> string option \<Rightarrow> string \<Rightarrow> 'a state_db_scheme \<Rightarrow> 'a state_db_scheme" where
  "setGlobalPause t paused reason actor db =
     (let db = db\<lparr>sd_switches := map_option (\<lambda>s. s\<lparr>sw_globalPause := paused,
           sw_pausedReason := (if paused then reason else None)\<rparr>) (sd_switches db)\<rparr>;
          db = audit_append t (audit_event_of Cat_control
             (if paused then ''pause.enabled'' else ''pause.cleared'') Au_ok
             (if paused then ''Automation paused: '' @ reason_text reason else ''Automation resumed'')
             actor (Some (getMode db))) db
      in db\<lparr>sd_hooks := sd_hooks db @ [Pause_hook paused reason actor]\<rparr>)"

definition setEmergencyStop ::
  "int \<Rightarrow> bool \<Rightarrow> string option \<Rightarrow> string \<Rightarrow> 'a state_db_scheme \<Rightarrow> 'a state_db_scheme" where
  "setEmergencyStop t active reason actor db =
     (let db = db\<lparr>sd_switches := map_option (\<lambda>s. s\<lparr>sw_emergencyStop := active,
           sw_emergencyReason := (if active then reason else None)\<rparr>) (sd_switches db)\<rparr>;
          db = (if active then resetChecklist (setMode PAPER db) else db);
          db = audit_append t (audit_event_of Cat_control
             (if active then ''emergency.engaged'' else ''emergency.cleared'') Au_ok
             (if active then ''Emergency stop engaged: '' @ reason_text reason else ''Emergency stop cleared'')
             actor (Some (getMode db))) db
      in db\<lparr>sd_hooks := sd_hooks db @ [Emergency_hook active reason]\<rparr>)"

section \<open>LIVE activation\<close>

definition step_fresh :: "int \<Rightarrow> int option \<Rightarrow> bool" where
  "step_fresh t stamp = (case stamp of None \<Rightarrow> False | Some at \<Rightarrow> t - at \<le> ACTIVATION_STEP_TTL_MS)"

definition getActivation :: "'a state_db_scheme \<Rightarrow> int \<Rightarrow> activation_progress" where
  "getActivation db t = (let stamp = (\<lambda>s. case sd_activation db of None \<Rightarrow> None | Some row \<Rightarrow> la_stamp row s);
        done = (\<lambda>s. step_fresh t (stamp s))
     in \<lparr>ap_done = done,
         ap_activatedAt = (case sd_activation db of None \<Rightarrow> None | Some row \<Rightarrow> la_activatedAt row),
         ap_missing = filter (\<lambda>s. \<not> done s) STEP_COLUMNS\<rparr>)"

definition recordActivationStep ::
  "int \<Rightarrow> activation_step \<Rightarrow> string \<Rightarrow> 'a state_db_scheme \<Rightarrow> 'a state_db_scheme \<times> activation_progress" where
  "recordActivationStep t step actor db =
     (let db = db\<lparr>sd_activation := map_option (\<lambda>row. row\<lparr>la_stamp := (la_stamp row)(step \<mapsto> t)\<rparr>)
            (sd_activation db)\<rparr>;
          db = audit_append t (audit_event_of Cat_mode (''live.step.'' @ step_str step) Au_ok
             (''LIVE activation step recorded: '' @ step_str step) actor (Some (getMode db))) db
      in (db, getActivation db t))"

definition activateLive ::
  "int \<Rightarrow> string \<Rightarrow> 'a state_db_scheme \<Rightarrow> ('a state_db_scheme \<times> installation option) result" where
  "activateLive t actor db =
     (let switches = getSwitches db in
      if sw_emergencyStop switches
      then Inl (AppError E_LIVE_ACTIVATION_INCOMPLETE ''Clear the emergency stop first'')
      else if sw_globalPause switches
      then Inl (AppError E_LIVE_ACTIVATION_INCOMPLETE ''Resume from pause first'')
      else if ap_missing (getActivation db t) \<noteq> []
      then Inl (AppError E_LIVE_ACTIVATION_INCOMPLETE ''LIVE activation is incomplete'')
      else let db = resetChecklist (setMode LIVE db);
               db = db\<lparr>sd_activation := map_option (la_activatedAt_update (\<lambda>_. Some t)) (sd_activation db)\<rparr>;
               db = audit_append t (audit_event_of Cat_mode ''mode.live'' Au_ok
                 ''Switched to LIVE mode'' actor (Some LIVE)) db
           in Inr (db, getInstallation db))"

definition revertToPaper ::
  "int \<Rightarrow> string \<Rightarrow> string \<Rightarrow> 'a state_db_scheme \<Rightarrow> 'a state_db_scheme \<times> installation option" where
  "revertToPaper t actor reason db =
     (let db = resetChecklist (setMode PAPER db);
          db = audit_append t (audit_event_of Cat_mode ''mode.paper'' Au_ok
             (''Switched back to PAPER mode: '' @ reason) actor (Some PAPER)) db
      in (db, getInstallation db))"

section \<open>The slice the risk engine reads\<close>

definition empty_risk_ledger :: "int \<Rightarrow> risk_ledger" where
  "empty_risk_ledger t = \<lparr>dayStartUtcMs = t div 86400000 * 86400000, deployedUsd = ''0'',
     realizedPnlTodayUsd = ''0'', unrealizedPnlUsd = ''0'', unrealizedPnlAtDayStartUsd = ''0'',
     positions = [], lpRebalancesToday = Map.empty\<rparr>"

text \<open>\<open>t\<close> is the clock the freshness of the steps is read on, \<open>t'\<close> the caller's time.\<close>

definition toRiskState ::
  "'a state_db_scheme \<Rightarrow> int \<Rightarrow> int \<Rightarrow> (string \<rightharpoonup> int) option \<Rightarrow> int option \<Rightarrow> risk_ledger option \<Rightarrow> runtime_state" where
  "toRiskState db t t' cools lastAny lg =
     (let switches = getSwitches db; progress = getActivation db t; m = getMode db;
          act = (if m = LIVE \<and> ap_activatedAt progress \<noteq> None then Act_LIVE
                 else if ap_missing progress = [] then Act_PENDING else Act_PAPER)
      in \<lparr>st_mode = m, emergency_active = sw_emergencyStop switches,
          emergency_reason = sw_emergencyReason switches, st_globalPause = sw_globalPause switches,
          activation = act,
          liveSession = (if act = Act_LIVE then map_option (\<lambda>a. (a, a + LIVE_SESSION_TTL_MS)) (ap_activatedAt progress)
                         else None),
          cooldowns = (case cools of None \<Rightarrow> Map.empty | Some m \<Rightarrow> m),
          lastAnyActionAt = lastAny,
          ledger = (case lg of None \<Rightarrow> empty_risk_ledger t' | Some l \<Rightarrow> l)\<rparr>)"

end
