(* ===== verification/Table.thy ===== *)
theory Table
  imports Atra_Prelude
begin

text \<open>
  The contract of a database table with a unique key, as the stores use one: a row list, lookup by
  key, insert, update by key and delete by key. Three locales state what the statements do to
  the rows, each extending the one before (insert-only tables, updatable ones, and those rows are
  deleted from); their lemmas give what a client relies on: what a lookup returns after each statement, that the
  key stays unique, that other rows are untouched, and how a sum over the rows changes. Every store
  interprets it on its own tables.
\<close>

lemma sum_list_map_filter_unique:
  fixes w :: "'r \<Rightarrow> int"
  assumes "distinct (map f xs)" "List.find (\<lambda>r. f r = k) xs = Some r"
  shows "sum_list (map w (filter (\<lambda>r. f r \<noteq> k) xs)) = sum_list (map w xs) - w r"
  using assms
proof (induction xs)
  case (Cons x xs)
  show ?case
  proof (cases "f x = k")
    case True
    then have "\<forall>y \<in> set xs. f y \<noteq> k" using Cons.prems(1) by (auto simp: image_iff)
    then have "filter (\<lambda>r. f r \<noteq> k) xs = xs" by (simp add: filter_id_conv)
    with True Cons.prems(2) show ?thesis by simp
  next
    case False
    then show ?thesis using Cons by simp
  qed
qed simp

lemma map_update_absent: "\<forall>y \<in> set xs. f y \<noteq> k \<Longrightarrow> map (\<lambda>r. if f r = k then g r else r) xs = xs"
  by (induction xs) auto

lemma sum_list_map_update_unique:
  fixes w :: "'r \<Rightarrow> int"
  assumes "distinct (map f xs)" "List.find (\<lambda>r. f r = k) xs = Some r"
  shows "sum_list (map w (map (\<lambda>r. if f r = k then g r else r) xs)) =
    sum_list (map w xs) - w r + w (g r)"
  using assms
proof (induction xs)
  case (Cons x xs)
  show ?case
  proof (cases "f x = k")
    case True
    then have "\<forall>y \<in> set xs. f y \<noteq> k" using Cons.prems(1) by (auto simp: image_iff)
    then have "map (\<lambda>r. if f r = k then g r else r) xs = xs" by (rule map_update_absent)
    with True Cons.prems(2) show ?thesis by simp
  next
    case False
    then show ?thesis using Cons by simp
  qed
qed simp

text \<open>Rows that are only inserted and looked up.\<close>

locale row_table =
  fixes rows :: "'db \<Rightarrow> 'r list" and key :: "'r \<Rightarrow> 'k" and look :: "'db \<Rightarrow> 'k \<Rightarrow> 'r option"
    and ins :: "'db \<Rightarrow> 'r \<Rightarrow> 'db"
  assumes look: "look db k = List.find (\<lambda>r. key r = k) (rows db)"
    and ins: "rows (ins db r) = rows db @ [r]"
begin

lemma look_Some: "look db k = Some r \<Longrightarrow> r \<in> set (rows db) \<and> key r = k"
  by (auto simp: look dest: find_SomeD)

lemma look_None: "look db k = None \<longleftrightarrow> k \<notin> key ` set (rows db)"
  by (auto simp: look find_None_iff)

lemma look_in: "distinct (map key (rows db)) \<Longrightarrow> r \<in> set (rows db) \<Longrightarrow> look db (key r) = Some r"
proof -
  have "distinct (map key xs) \<Longrightarrow> r \<in> set xs \<Longrightarrow> List.find (\<lambda>s. key s = key r) xs = Some r" for xs
    by (induction xs) force+
  then show "distinct (map key (rows db)) \<Longrightarrow> r \<in> set (rows db) \<Longrightarrow> look db (key r) = Some r"
    by (simp add: look)
qed

lemma look_ins: "look (ins db r) k = (case look db k of Some s \<Rightarrow> Some s
    | None \<Rightarrow> if key r = k then Some r else None)"
  by (auto simp: look ins find_append split: option.split)

lemma unique_ins: "distinct (map key (rows db)) \<Longrightarrow> look db (key r) = None \<Longrightarrow> distinct (map key (rows (ins db r)))"
  by (auto simp: ins look_None)

lemma total_ins: "sum_list (map w (rows (ins db r))) = sum_list (map w (rows db)) + (w r :: int)"
  by (simp add: ins)

text \<open>A property of single rows survives the statements that respect it.\<close>

lemma all_ins: "\<forall>r \<in> set (rows db). P r \<Longrightarrow> P r \<Longrightarrow> \<forall>r \<in> set (rows (ins db r)). P r"
  by (simp add: ins)

end

text \<open>Rows that are also updated in place.\<close>

locale upd_table = row_table rows key look ins
  for rows :: "'db \<Rightarrow> 'r list" and key :: "'r \<Rightarrow> 'k" and look :: "'db \<Rightarrow> 'k \<Rightarrow> 'r option"
    and ins :: "'db \<Rightarrow> 'r \<Rightarrow> 'db" +
  fixes upd :: "'db \<Rightarrow> 'k \<Rightarrow> ('r \<Rightarrow> 'r) \<Rightarrow> 'db"
  assumes upd: "rows (upd db k f) = map (\<lambda>r. if key r = k then f r else r) (rows db)"
begin

lemma look_upd:
  assumes "\<And>r. key (f r) = key r"
  shows "look (upd db k f) k' = (if k' = k then map_option f (look db k) else look db k')"
proof -
  have "List.find (\<lambda>r. key r = k') (map (\<lambda>r. if key r = k then f r else r) xs) =
      (if k' = k then map_option f (List.find (\<lambda>r. key r = k) xs) else List.find (\<lambda>r. key r = k') xs)" for xs
    by (induction xs) (auto simp: assms)
  then show ?thesis by (simp add: look upd)
qed

lemma unique_upd:
  assumes "\<And>r. key (f r) = key r" "distinct (map key (rows db))"
  shows "distinct (map key (rows (upd db k f)))"
proof -
  have "map key (rows (upd db k f)) = map key (rows db)" by (simp add: upd assms(1))
  with assms(2) show ?thesis by simp
qed

lemma total_upd:
  "distinct (map key (rows db)) \<Longrightarrow> look db k = Some r \<Longrightarrow>
   sum_list (map w (rows (upd db k f))) = sum_list (map w (rows db)) - w r + (w (f r) :: int)"
  unfolding upd look by (rule sum_list_map_update_unique)

lemma all_upd: "\<forall>r \<in> set (rows db). P r \<Longrightarrow> (\<And>r. r \<in> set (rows db) \<Longrightarrow> key r = k \<Longrightarrow> P (f r)) \<Longrightarrow>
    \<forall>r \<in> set (rows (upd db k f)). P r"
  by (auto simp: upd)

end

text \<open>Rows that are also deleted by key.\<close>

locale keyed_table = upd_table rows key look ins upd
  for rows :: "'db \<Rightarrow> 'r list" and key :: "'r \<Rightarrow> 'k" and look :: "'db \<Rightarrow> 'k \<Rightarrow> 'r option"
    and ins :: "'db \<Rightarrow> 'r \<Rightarrow> 'db" and upd :: "'db \<Rightarrow> 'k \<Rightarrow> ('r \<Rightarrow> 'r) \<Rightarrow> 'db" +
  fixes del :: "'db \<Rightarrow> 'k \<Rightarrow> 'db"
  assumes del: "rows (del db k) = filter (\<lambda>r. key r \<noteq> k) (rows db)"
begin

lemma look_del: "look (del db k) k' = (if k' = k then None else look db k')"
proof -
  have "List.find (\<lambda>r. key r = k') (filter (\<lambda>r. key r \<noteq> k) xs) =
      (if k' = k then None else List.find (\<lambda>r. key r = k') xs)" for xs
    by (induction xs) auto
  then show ?thesis by (simp add: look del)
qed

lemma unique_del: "distinct (map key (rows db)) \<Longrightarrow> distinct (map key (rows (del db k)))"
  by (simp add: del distinct_map_filter)

lemma total_del:
  "distinct (map key (rows db)) \<Longrightarrow> look db k = Some r \<Longrightarrow>
   sum_list (map w (rows (del db k))) = sum_list (map w (rows db)) - (w r :: int)"
  unfolding del look by (rule sum_list_map_filter_unique)

lemma all_del: "\<forall>r \<in> set (rows db). P r \<Longrightarrow> \<forall>r \<in> set (rows (del db k)). P r"
  by (simp add: del)

end

end
