(* ===== verification/Auth.thy ===== *)
theory Auth
  imports State_Store Table
begin

text \<open>
  \<open>src/runtime/src/core/auth.ts\<close>: the operator password, sessions, single-use re-authentication
  tokens and the throttle on password guesses. An operation that awaits the key derivation is split
  where it waits: what runs before (\<open>login_begin\<close>, \<open>reauth_begin\<close>, \<open>change_begin\<close>, \<open>set_begin\<close>), and
  what runs when the derived key arrives, on whatever the database is by then. What an operation
  carries over the wait is an \<open>attempt\<close>: the password it was given and the credential row it read.

  Argon2id, the Unicode normalization and SHA-256 are parameters (\<open>auth_lib\<close>); random salts, tokens
  and ids are arguments. Times are epoch milliseconds; the wall clock and the injected clock are one.
\<close>

definition SESSION_TTL_MS :: int where "SESSION_TTL_MS = 12 * 60 * 60 * 1000"
definition REAUTH_TTL_MS :: int where "REAUTH_TTL_MS = 5 * 60 * 1000"
definition LOGIN_FAILURE_LIMIT :: nat where "LOGIN_FAILURE_LIMIT = 5"
definition LOGIN_FAILURE_WINDOW_MS :: int where "LOGIN_FAILURE_WINDOW_MS = 15 * 60 * 1000"
definition LOGIN_LOCKOUT_MS :: int where "LOGIN_LOCKOUT_MS = 5 * 60 * 1000"

datatype reauth_purpose =
  Wallet_export | Wallet_withdraw | Mode_live | Emergency_clear | Auth_password | Settings_reset | Settings_secret

fun purpose_str :: "reauth_purpose \<Rightarrow> string" where
  "purpose_str Wallet_export = ''wallet.export''"
| "purpose_str Wallet_withdraw = ''wallet.withdraw''"
| "purpose_str Mode_live = ''mode.live''"
| "purpose_str Emergency_clear = ''emergency.clear''"
| "purpose_str Auth_password = ''auth.password''"
| "purpose_str Settings_reset = ''settings.reset''"
| "purpose_str Settings_secret = ''settings.secret''"

record kdf_params =
  memoryKib :: int
  iterations :: int
  parallelism :: int

record auth_lib =
  lib_normalize :: "string \<Rightarrow> string"
  lib_argon2 :: "string \<Rightarrow> string \<Rightarrow> kdf_params \<Rightarrow> string"
  lib_sha256 :: "string \<Rightarrow> string"

record credential =
  cr_salt :: string
  cr_hash :: string
  cr_params :: kdf_params

record session_row =
  ss_id :: string
  ss_tokenHash :: string
  ss_createdAt :: int
  ss_expiresAt :: int
  ss_lastSeenAt :: int
  ss_revokedAt :: "int option"

record reauth_row =
  ra_id :: string
  ra_tokenHash :: string
  ra_sessionId :: string
  ra_purpose :: reauth_purpose
  ra_createdAt :: int
  ra_expiresAt :: int
  ra_usedAt :: "int option"

record throttle_row =
  th_failures :: "int list"
  th_lockedUntil :: "int option"

record auth_db = state_db +
  ad_credential :: "credential option"
  ad_sessions :: "session_row list"
  ad_reauth :: "reauth_row list"
  ad_throttle :: "throttle_row option"

record session =
  se_id :: string
  se_createdAt :: int
  se_expiresAt :: int

record issued_session = session +
  se_token :: string

definition deriveKey :: "auth_lib \<Rightarrow> string \<Rightarrow> string \<Rightarrow> kdf_params \<Rightarrow> string" where
  "deriveKey L password salt params = lib_argon2 L (lib_normalize L password) salt params"

definition hashToken :: "auth_lib \<Rightarrow> string \<Rightarrow> string" where
  "hashToken L token = lib_sha256 L token"

definition auth_audit :: "int \<Rightarrow> string \<Rightarrow> audit_status \<Rightarrow> string \<Rightarrow> 'a auth_db_scheme \<Rightarrow> 'a auth_db_scheme" where
  "auth_audit t act st summary db = audit_append t (audit_event_of Cat_auth act st summary ''system'' None) db"

section \<open>The throttle\<close>

definition throttle :: "'a auth_db_scheme \<Rightarrow> throttle_row" where
  "throttle db = (case ad_throttle db of None \<Rightarrow> \<lparr>th_failures = [], th_lockedUntil = None\<rparr> | Some r \<Rightarrow> r)"

definition writeThrottle :: "int list \<Rightarrow> int option \<Rightarrow> 'a auth_db_scheme \<Rightarrow> 'a auth_db_scheme" where
  "writeThrottle failures lockedUntil db =
     db\<lparr>ad_throttle := Some \<lparr>th_failures = failures, th_lockedUntil = lockedUntil\<rparr>\<rparr>"

definition beginAttempt :: "int \<Rightarrow> 'a auth_db_scheme \<Rightarrow> 'a auth_db_scheme result" where
  "beginAttempt t db = (let st = throttle db in
     if (case th_lockedUntil st of None \<Rightarrow> False | Some u \<Rightarrow> t < u)
     then Inl (AppError E_RATE_LIMITED ''Too many failed password attempts'')
     else let failures = filter (\<lambda>at. t - at < LOGIN_FAILURE_WINDOW_MS) (th_failures st) @ [t]
          in if LOGIN_FAILURE_LIMIT \<le> length failures
             then Inr (auth_audit t ''login.locked'' Au_rejected
               ''Password checks locked for 5 minutes after repeated failures''
               (writeThrottle [] (Some (t + LOGIN_LOCKOUT_MS)) db))
             else Inr (writeThrottle failures None db))"

definition recordSuccess :: "'a auth_db_scheme \<Rightarrow> 'a auth_db_scheme" where
  "recordSuccess db = writeThrottle [] None db"

section \<open>The password\<close>

definition isConfigured :: "'a auth_db_scheme \<Rightarrow> bool" where
  "isConfigured db \<longleftrightarrow> ad_credential db \<noteq> None"

definition assertPasswordStrength :: "string \<Rightarrow> unit result" where
  "assertPasswordStrength password =
     (if length password < 12 then Inl (AppError E_SCHEMA_INVALID ''The password must be at least 12 characters'')
      else if 512 < length password then Inl (AppError E_SCHEMA_INVALID ''The password is too long'')
      else Inr ())"

text \<open>What a password check carries over its wait, and its outcome when the key has been derived.\<close>

record attempt =
  at_password :: string
  at_credential :: "credential option"

definition verify_begin :: "string \<Rightarrow> 'a auth_db_scheme \<Rightarrow> attempt" where
  "verify_begin password db = \<lparr>at_password = password, at_credential = ad_credential db\<rparr>"

definition verifyPassword :: "auth_lib \<Rightarrow> attempt \<Rightarrow> bool" where
  "verifyPassword L att = (case at_credential att of None \<Rightarrow> False
     | Some c \<Rightarrow> deriveKey L (at_password att) (cr_salt c) (cr_params c) = cr_hash c)"

definition set_begin :: "string \<Rightarrow> 'a auth_db_scheme \<Rightarrow> unit result" where
  "set_begin password db = (if isConfigured db
     then Inl (AppError E_ALREADY_INITIALIZED ''A password is already set'')
     else assertPasswordStrength password)"

definition set_finish ::
  "auth_lib \<Rightarrow> kdf_params \<Rightarrow> int \<Rightarrow> string \<Rightarrow> string \<Rightarrow> 'a auth_db_scheme \<Rightarrow> 'a auth_db_scheme result" where
  "set_finish L params t password salt db =
     (if isConfigured db then Inl (JsError ''UNIQUE constraint failed: auth_credential.id'')
      else Inr (auth_audit t ''password.set'' Au_ok ''Dashboard password set''
        (db\<lparr>ad_credential := Some \<lparr>cr_salt = salt, cr_hash = deriveKey L password salt params,
           cr_params = params\<rparr>\<rparr>)))"

section \<open>Sessions\<close>

definition findSession :: "'a auth_db_scheme \<Rightarrow> string \<Rightarrow> session_row option" where
  "findSession db h = List.find (\<lambda>r. ss_tokenHash r = h) (ad_sessions db)"

definition insertSession :: "'a auth_db_scheme \<Rightarrow> session_row \<Rightarrow> 'a auth_db_scheme" where
  "insertSession db r = db\<lparr>ad_sessions := ad_sessions db @ [r]\<rparr>"

definition updateSession :: "'a auth_db_scheme \<Rightarrow> string \<Rightarrow> (session_row \<Rightarrow> session_row) \<Rightarrow> 'a auth_db_scheme" where
  "updateSession db sid f = db\<lparr>ad_sessions := map (\<lambda>r. if ss_id r = sid then f r else r) (ad_sessions db)\<rparr>"

definition pruneSessions :: "int \<Rightarrow> 'a auth_db_scheme \<Rightarrow> 'a auth_db_scheme" where
  "pruneSessions t db =
     (let db = db\<lparr>ad_reauth := filter (\<lambda>r. t < ra_expiresAt r) (ad_reauth db)\<rparr>
      in db\<lparr>ad_sessions := filter (\<lambda>s. t < ss_expiresAt s \<or> ss_id s \<in> ra_sessionId ` set (ad_reauth db))
           (ad_sessions db)\<rparr>)"

definition createSession ::
  "auth_lib \<Rightarrow> int \<Rightarrow> string \<Rightarrow> string \<Rightarrow> 'a auth_db_scheme \<Rightarrow> ('a auth_db_scheme \<times> issued_session) result" where
  "createSession L t sid token db = (let db = pruneSessions t db in
     if sid \<in> ss_id ` set (ad_sessions db) \<or> hashToken L token \<in> ss_tokenHash ` set (ad_sessions db)
     then Inl (JsError ''UNIQUE constraint failed: sessions'')
     else Inr (insertSession db \<lparr>ss_id = sid, ss_tokenHash = hashToken L token, ss_createdAt = t,
            ss_expiresAt = t + SESSION_TTL_MS, ss_lastSeenAt = t, ss_revokedAt = None\<rparr>,
          \<lparr>se_id = sid, se_createdAt = t, se_expiresAt = t + SESSION_TTL_MS, se_token = token\<rparr>))"

definition resolveSession ::
  "auth_lib \<Rightarrow> int \<Rightarrow> string option \<Rightarrow> 'a auth_db_scheme \<Rightarrow> 'a auth_db_scheme \<times> session option" where
  "resolveSession L t token db = (case token of None \<Rightarrow> (db, None) | Some tk \<Rightarrow>
     if tk = '''' then (db, None)
     else case findSession db (hashToken L tk) of None \<Rightarrow> (db, None)
       | Some r \<Rightarrow> if ss_revokedAt r \<noteq> None \<or> ss_expiresAt r \<le> t then (db, None)
           else (updateSession db (ss_id r) (ss_lastSeenAt_update (\<lambda>_. t)),
             Some \<lparr>se_id = ss_id r, se_createdAt = ss_createdAt r, se_expiresAt = ss_expiresAt r\<rparr>))"

definition revokeSession :: "int \<Rightarrow> string \<Rightarrow> 'a auth_db_scheme \<Rightarrow> 'a auth_db_scheme" where
  "revokeSession t sid db = db\<lparr>ad_sessions := map (\<lambda>r. if ss_id r = sid \<and> ss_revokedAt r = None
     then r\<lparr>ss_revokedAt := Some t\<rparr> else r) (ad_sessions db)\<rparr>"

definition revokeAllSessions :: "int \<Rightarrow> 'a auth_db_scheme \<Rightarrow> 'a auth_db_scheme" where
  "revokeAllSessions t db = db\<lparr>ad_sessions := map (\<lambda>r. if ss_revokedAt r = None
     then r\<lparr>ss_revokedAt := Some t\<rparr> else r) (ad_sessions db)\<rparr>"

section \<open>Signing in\<close>

text \<open>A failed check writes its audit event and then raises, so the database comes back either way.\<close>

definition login_begin :: "int \<Rightarrow> string \<Rightarrow> 'a auth_db_scheme \<Rightarrow> ('a auth_db_scheme \<times> attempt) result" where
  "login_begin t password db = (if \<not> isConfigured db
     then Inl (AppError E_SETUP_REQUIRED ''Run first-time setup before signing in'')
     else sbind (beginAttempt t db) (\<lambda>db. Inr (db, verify_begin password db)))"

definition login_finish ::
  "auth_lib \<Rightarrow> int \<Rightarrow> attempt \<Rightarrow> string \<Rightarrow> string \<Rightarrow> 'a auth_db_scheme \<Rightarrow>
     'a auth_db_scheme \<times> issued_session result" where
  "login_finish L t att sid token db = (if \<not> verifyPassword L att
     then (auth_audit t ''login.failed'' Au_rejected ''Sign-in attempt with an incorrect password'' db,
       Inl (AppError E_INVALID_CREDENTIALS ''Incorrect password''))
     else let db = recordSuccess db in
       case createSession L t sid token db of
         Inl e \<Rightarrow> (pruneSessions t db, Inl e)
       | Inr (db, s) \<Rightarrow> (auth_audit t ''login'' Au_ok ''Operator signed in'' db, Inr s))"

section \<open>Re-authentication\<close>

definition findReauth :: "'a auth_db_scheme \<Rightarrow> string \<Rightarrow> reauth_row option" where
  "findReauth db h = List.find (\<lambda>r. ra_tokenHash r = h) (ad_reauth db)"

definition insertReauth :: "'a auth_db_scheme \<Rightarrow> reauth_row \<Rightarrow> 'a auth_db_scheme" where
  "insertReauth db r = db\<lparr>ad_reauth := ad_reauth db @ [r]\<rparr>"

definition updateReauth :: "'a auth_db_scheme \<Rightarrow> string \<Rightarrow> (reauth_row \<Rightarrow> reauth_row) \<Rightarrow> 'a auth_db_scheme" where
  "updateReauth db h f = db\<lparr>ad_reauth := map (\<lambda>r. if ra_tokenHash r = h then f r else r) (ad_reauth db)\<rparr>"

definition reauth_begin :: "int \<Rightarrow> string \<Rightarrow> 'a auth_db_scheme \<Rightarrow> ('a auth_db_scheme \<times> attempt) result" where
  "reauth_begin t password db = sbind (beginAttempt t db) (\<lambda>db. Inr (db, verify_begin password db))"

definition reauth_finish ::
  "auth_lib \<Rightarrow> int \<Rightarrow> attempt \<Rightarrow> string \<Rightarrow> reauth_purpose \<Rightarrow> string \<Rightarrow> string \<Rightarrow> 'a auth_db_scheme \<Rightarrow>
     'a auth_db_scheme \<times> (string \<times> int) result" where
  "reauth_finish L t att sid purpose rid token db = (if \<not> verifyPassword L att
     then (auth_audit t ''reauth.failed'' Au_rejected (''Re-authentication failed for '' @ purpose_str purpose) db,
       Inl (AppError E_INVALID_CREDENTIALS ''Incorrect password''))
     else let db = recordSuccess db in
       if rid \<in> ra_id ` set (ad_reauth db) \<or> hashToken L token \<in> ra_tokenHash ` set (ad_reauth db)
       then (db, Inl (JsError ''UNIQUE constraint failed: reauth_tokens''))
       else if sid \<notin> ss_id ` set (ad_sessions db)
       then (db, Inl (JsError ''FOREIGN KEY constraint failed''))
       else (auth_audit t ''reauth.issued'' Au_ok (''Re-authentication granted for '' @ purpose_str purpose)
           (insertReauth db \<lparr>ra_id = rid, ra_tokenHash = hashToken L token, ra_sessionId = sid,
             ra_purpose = purpose, ra_createdAt = t, ra_expiresAt = t + REAUTH_TTL_MS, ra_usedAt = None\<rparr>),
         Inr (token, t + REAUTH_TTL_MS)))"

definition spendable :: "int \<Rightarrow> reauth_purpose \<Rightarrow> string \<Rightarrow> reauth_row \<Rightarrow> bool" where
  "spendable t purpose sid r \<longleftrightarrow> ra_purpose r = purpose \<and> ra_sessionId r = sid
     \<and> ra_usedAt r = None \<and> t < ra_expiresAt r"

text \<open>One UPDATE both checks the row and marks it used; the token hash is unique.\<close>

definition consumeReauthToken ::
  "auth_lib \<Rightarrow> int \<Rightarrow> string option \<Rightarrow> reauth_purpose \<Rightarrow> string \<Rightarrow> 'a auth_db_scheme \<Rightarrow> 'a auth_db_scheme result" where
  "consumeReauthToken L t token purpose sid db = (case token of
     None \<Rightarrow> Inl (AppError E_REAUTH_REQUIRED ''This action requires re-authentication'')
   | Some tk \<Rightarrow> if tk = '''' then Inl (AppError E_REAUTH_REQUIRED ''This action requires re-authentication'')
     else case findReauth db (hashToken L tk) of
         Some r \<Rightarrow> if spendable t purpose sid r
           then Inr (updateReauth db (hashToken L tk) (ra_usedAt_update (\<lambda>_. Some t)))
           else Inl (AppError E_REAUTH_INVALID ''Re-authentication has expired or was already used'')
       | None \<Rightarrow> Inl (AppError E_REAUTH_INVALID ''Re-authentication has expired or was already used''))"

section \<open>Changing the password\<close>

text \<open>Two waits: the check of the current password, then the derivation of the new key.\<close>

definition change_verify :: "auth_lib \<Rightarrow> attempt \<Rightarrow> string \<Rightarrow> unit result" where
  "change_verify L att newPassword = (if \<not> verifyPassword L att
     then Inl (AppError E_INVALID_CREDENTIALS ''The current password is incorrect'')
     else assertPasswordStrength newPassword)"

definition change_finish ::
  "auth_lib \<Rightarrow> kdf_params \<Rightarrow> int \<Rightarrow> string \<Rightarrow> string \<Rightarrow> 'a auth_db_scheme \<Rightarrow> 'a auth_db_scheme" where
  "change_finish L params t newPassword salt db =
     auth_audit t ''password.changed'' Au_ok ''Dashboard password changed and all sessions revoked''
       (revokeAllSessions t (db\<lparr>ad_credential := map_option (\<lambda>c. c\<lparr>cr_salt := salt,
          cr_hash := deriveKey L newPassword salt params, cr_params := params\<rparr>) (ad_credential db)\<rparr>))"

section \<open>The tables\<close>

interpretation ses: row_table ad_sessions ss_tokenHash findSession insertSession
  by unfold_locales (simp_all add: findSession_def insertSession_def)

interpretation rea: upd_table ad_reauth ra_tokenHash findReauth insertReauth updateReauth
  by unfold_locales (simp_all add: findReauth_def insertReauth_def updateReauth_def)

end
