(* ===== verification/Risk_Engine.thy ===== *)
theory Risk_Engine
  imports Risk_Types
begin

text \<open>
  \<open>src/runtime/src/risk/engine.ts\<close>: the deterministic risk engine. \<open>evaluate\<close> is a function
  of its input into \<open>result\<close>: a decision, or the exception a malformed number raises. The run
  after tier 0 is composed of one definition per section of \<open>runRemainingChecks\<close>, each
  returning the checks it pushes, in order; a check that is skipped is pushed as the code does.
\<close>

definition ENGINE_VERSION :: string where "ENGINE_VERSION = ''risk-engine/1.0.0''"
definition NOT_EVALUATED :: string where "NOT_EVALUATED = ''not-evaluated''"
definition SOLANA_SIGNATURE_LAMPORTS :: int where "SOLANA_SIGNATURE_LAMPORTS = 5000"

section \<open>Building checks\<close>

definition check :: "string \<Rightarrow> rejection_code \<Rightarrow> bool \<Rightarrow> string \<Rightarrow> string \<Rightarrow> string option \<Rightarrow> risk_check" where
  "check name code passed observed lim detail = \<lparr>ck_name = name, ck_code = code, ck_passed = passed,
     ck_observed = observed, ck_limit = lim, ck_skipped = None, ck_detail = detail\<rparr>"

definition skip :: "string \<Rightarrow> rejection_code \<Rightarrow> skip_reason \<Rightarrow> risk_check" where
  "skip name code reason = \<lparr>ck_name = name, ck_code = code, ck_passed = (reason = Not_applicable),
     ck_observed = (if reason = Not_applicable then ''n/a'' else NOT_EVALUATED), ck_limit = ''n/a'',
     ck_skipped = Some reason, ck_detail = None\<rparr>"

definition failing :: "risk_check \<Rightarrow> bool" where
  "failing c \<longleftrightarrow> \<not> ck_passed c \<and> ck_skipped c = None"

definition checksFailed :: "risk_check list \<Rightarrow> bool" where
  "checksFailed cs = list_ex failing cs"

definition usd_or :: "string \<Rightarrow> int option \<Rightarrow> string" where
  "usd_or alt x = (case x of None \<Rightarrow> alt | Some m \<Rightarrow> microsToUsd m)"

definition int_or :: "string \<Rightarrow> int option \<Rightarrow> string" where
  "int_or alt x = (case x of None \<Rightarrow> alt | Some m \<Rightarrow> int_str m)"

definition within :: "int option \<Rightarrow> int \<Rightarrow> bool" where
  "within x lim = (case x of None \<Rightarrow> False | Some v \<Rightarrow> v \<le> lim)"

definition at_least :: "int option \<Rightarrow> int \<Rightarrow> bool" where
  "at_least x lim = (case x of None \<Rightarrow> False | Some v \<Rightarrow> lim \<le> v)"

section \<open>Kinds\<close>

definition isApprove :: "proposed_action \<Rightarrow> bool" where "isApprove a \<longleftrightarrow> a_kind a = Approve"
definition isExit :: "proposed_action \<Rightarrow> bool" where "isExit a \<longleftrightarrow> reduceOnly a \<and> a_kind a = Swap"
definition isLp :: "proposed_action \<Rightarrow> bool" where "isLp a \<longleftrightarrow> isLpKind (a_kind a)"
definition isLpEntry :: "proposed_action \<Rightarrow> bool" where
  "isLpEntry a \<longleftrightarrow> a_kind a = Lp_add \<or> a_kind a = Lp_rebalance"
definition isLpExit :: "proposed_action \<Rightarrow> bool" where "isLpExit a \<longleftrightarrow> a_kind a = Lp_remove"
definition isLpClaim :: "proposed_action \<Rightarrow> bool" where "isLpClaim a \<longleftrightarrow> a_kind a = Lp_claim"
definition isLpApprove :: "proposed_action \<Rightarrow> bool" where
  "isLpApprove a \<longleftrightarrow> isApprove a \<and> a_lp a \<noteq> None"

section \<open>Names in canonical order\<close>

type_synonym check_name = "string \<times> rejection_code"

definition LP_POOL_CHECK :: check_name where
  "LP_POOL_CHECK = (''lp.pool'', POOL_NOT_ALLOWLISTED)"
definition LP_CAPITAL_CHECK :: check_name where
  "LP_CAPITAL_CHECK = (''lp.capital'', LP_CAPITAL_EXCEEDS_MAX)"

definition LP_LATE_CHECK_NAMES :: "check_name list" where
  "LP_LATE_CHECK_NAMES = [
     (''lp.position'', REDUCE_ONLY_MISMATCH),
     (''lp.poolLiquidity'', POOL_LIQUIDITY_BELOW_MIN),
     (''lp.rebalanceCount'', REBALANCE_LIMIT_REACHED),
     (''lp.rebalanceSlippage'', SLIPPAGE_EXCEEDS_MAX),
     (''lp.gas'', FEE_EXCEEDS_MAX),
     (''lp.claimThreshold'', FEE_BELOW_CLAIM_THRESHOLD),
     (''lp.freshness.balance.tokenB'', DATA_STALE),
     (''lp.balance.tokenB'', BALANCE_INSUFFICIENT)]"

definition REMAINING_CHECK_NAMES :: "check_name list" where
  "REMAINING_CHECK_NAMES = [
     (''chain.enabled'', CHAIN_UNSUPPORTED),
     (''freshness.action'', DATA_STALE),
     (''freshness.ledger'', DATA_STALE),
     (''freshness.price.tokenIn'', DATA_STALE),
     (''freshness.price.tokenOut'', DATA_STALE),
     (''freshness.price.native'', DATA_STALE),
     (''freshness.quote'', DATA_STALE),
     (''freshness.fee'', DATA_STALE),
     (''freshness.balance.tokenIn'', DATA_STALE),
     (''freshness.balance.native'', DATA_STALE),
     (''freshness.liquidity'', DATA_STALE),
     (''allowlist.tokenIn'', TOKEN_NOT_ALLOWLISTED),
     (''allowlist.tokenOut'', TOKEN_NOT_ALLOWLISTED),
     (''allowlist.protocol'', PROTOCOL_NOT_ALLOWLISTED),
     (''allowlist.contract'', CONTRACT_UNKNOWN),
     (''position.reduceOnly'', REDUCE_ONLY_MISMATCH),
     (''size.amountInUsd'', SIZE_EXCEEDS_MAX_TRADE),
     (''loss.daily'', DAILY_LOSS_BREACHED),
     (''deployed.total'', TOTAL_DEPLOYED_BREACHED),
     (''slippage.implied'', SLIPPAGE_EXCEEDS_MAX),
     (''slippage.priceImpact'', SLIPPAGE_EXCEEDS_MAX),
     (''quote.market'', QUOTE_OFF_MARKET),
     (''fee.usd'', FEE_EXCEEDS_MAX),
     (''liquidity.market'', LIQUIDITY_BELOW_MIN),
     (''cooldown.market'', COOLDOWN_ACTIVE),
     (''cooldown.global'', COOLDOWN_ACTIVE),
     (''balance.tokenIn'', BALANCE_INSUFFICIENT),
     (''balance.gas'', BALANCE_INSUFFICIENT)]"

definition remainingCheckNames :: "proposed_action \<Rightarrow> check_name list" where
  "remainingCheckNames a =
     (if \<not> isLp a \<and> \<not> isLpApprove a then REMAINING_CHECK_NAMES
      else hd REMAINING_CHECK_NAMES # LP_POOL_CHECK #
        (if isLpEntry a then [LP_CAPITAL_CHECK] else []) @
        tl REMAINING_CHECK_NAMES @
        (if isLp a then LP_LATE_CHECK_NAMES else []))"

section \<open>Small readers\<close>

definition usablePrice :: "stamped option \<Rightarrow> int option" where
  "usablePrice s = (case s of None \<Rightarrow> None
     | Some st \<Rightarrow> (case priceToAtto (sv_value st) of Inl _ \<Rightarrow> None
         | Inr atto \<Rightarrow> if atto > 0 then Some atto else None))"

definition freshnessCheck :: "string \<Rightarrow> stamped option \<Rightarrow> int \<Rightarrow> int \<Rightarrow> int \<Rightarrow> risk_check" where
  "freshnessCheck name s t maxAge skew = (case s of
     None \<Rightarrow> check name DATA_STALE False ''missing'' (int_str maxAge) None
   | Some st \<Rightarrow>
       let age = t - sv_at st in
       if age < - skew then
         check name DATA_STALE False (int_str age) (int_str maxAge)
           (Some ''timestamp is in the future beyond the allowed clock skew'')
       else check name DATA_STALE (age \<le> maxAge) (int_str age) (int_str maxAge)
         (if sv_source st \<noteq> [] then Some (''source '' @ sv_source st) else None))"

definition priceCheck :: "string \<Rightarrow> stamped option \<Rightarrow> int \<Rightarrow> int \<Rightarrow> int \<Rightarrow> risk_check" where
  "priceCheck name s t maxAge skew =
     (let fresh = freshnessCheck name s t maxAge skew in
      if \<not> ck_passed fresh \<or> s = None then fresh
      else if usablePrice s = None then
        check name DATA_STALE False ''zero'' (int_str maxAge)
          (Some ''provider reported a zero or unparseable price; treated as unknown'')
      else fresh)"

definition decimalsMismatch :: "proposed_action \<Rightarrow> token_allow_entry list \<Rightarrow> (string \<times> string \<times> string) option" where
  "decimalsMismatch a al =
     (let mismatch = (\<lambda>ref. case List.find (\<lambda>t. ta_address t = tr_address ref) al of
            None \<Rightarrow> None
          | Some e \<Rightarrow> if ta_decimals e \<noteq> tr_decimals ref
              then Some (tr_address ref, int_str (tr_decimals ref), int_str (ta_decimals e)) else None)
      in case mismatch (tokenIn a) of Some m \<Rightarrow> Some m | None \<Rightarrow> mismatch (tokenOut a))"

definition nativeTokenRef :: "chain_id \<Rightarrow> token_ref" where
  "nativeTokenRef c = (if c = Solana
     then \<lparr>tr_address = ''So11111111111111111111111111111111111111112'', tr_decimals = 9\<rparr>
     else \<lparr>tr_address = ''0xeeeeeeeeeeeeeeeeeeeeeeeeeeeeeeeeeeeeeeee'', tr_decimals = 18\<rparr>)"

definition feeInNativeUnits :: "fee_detail \<Rightarrow> int result" where
  "feeInNativeUnits d = (case d of
     Fee_evm g m \<Rightarrow> sbind (amountToBigint g) (\<lambda>gl. sbind (amountToBigint m) (\<lambda>fee. Inr (gl * fee)))
   | Fee_solana sigs units price rent \<Rightarrow>
       sbind (amountToBigint price) (\<lambda>pr.
       sbind (ceilDiv (units * pr) 1000000) (\<lambda>priority.
       sbind (amountToBigint rent) (\<lambda>r.
         Inr (SOLANA_SIGNATURE_LAMPORTS * sigs + priority + r)))))"

definition computeDailyLoss :: "risk_input \<Rightarrow> int result" where
  "computeDailyLoss inp = (let l = ledger (state inp) in
     sbind (usdToMicros (realizedPnlTodayUsd l)) (\<lambda>realized.
     sbind (if includeUnrealized (policy inp) then
              sbind (usdToMicros (unrealizedPnlUsd l)) (\<lambda>u.
              sbind (usdToMicros (unrealizedPnlAtDayStartUsd l)) (\<lambda>u0. Inr (- (u - u0))))
            else Inr 0) (\<lambda>unrealizedMove.
       let total = - realized + unrealizedMove in Inr (if total > 0 then total else 0))))"

definition deriveIdempotencyKey :: "externals \<Rightarrow> proposed_action \<Rightarrow> string" where
  "deriveIdempotencyKey X a = ext_sha256 X (join_with ''|'' [
     ''atra-action-v1'', decisionCycleId a, chain_str (a_chain a), kind_str (a_kind a),
     a_protocol a, tr_address (tokenIn a), tr_address (tokenOut a), amountIn a,
     bool_str (reduceOnly a)])"

section \<open>Tier 0\<close>

definition emergencyOf :: "risk_input \<Rightarrow> bool" where
  "emergencyOf inp \<longleftrightarrow> pol_emergencyStop (policy inp) \<or> emergency_active (state inp)"

definition pausedOf :: "risk_input \<Rightarrow> bool" where
  "pausedOf inp \<longleftrightarrow> pol_globalPause (policy inp) \<or> st_globalPause (state inp)"

definition liveOk :: "risk_input \<Rightarrow> bool" where
  "liveOk inp \<longleftrightarrow> a_mode (action inp) = PAPER \<or>
     (activation (state inp) = Act_LIVE \<and>
      (case liveSession (state inp) of None \<Rightarrow> False | Some (_, expiresAt) \<Rightarrow> expiresAt > now inp))"

definition allowlisted_tokens :: "risk_policy \<Rightarrow> chain_id \<Rightarrow> token_allow_entry list" where
  "allowlisted_tokens p c = (case map_of (tokenAllowlist p) c of None \<Rightarrow> [] | Some ts \<Rightarrow> ts)"

definition schema_checks ::
  "externals \<Rightarrow> field_issue list \<Rightarrow> risk_input \<Rightarrow> risk_check list" where
  "schema_checks X issues inp = (let a = action inp; p = policy inp in
     check ''schema.policy'' SCHEMA_INVALID (schemaVersion p = 1)
       (if schemaVersion p = 1 then ''valid'' else ''invalid'') ''valid'' None #
     (case issues of
        [] \<Rightarrow>
          let mismatch = decimalsMismatch a (allowlisted_tokens p (a_chain a));
              expectedKey = deriveIdempotencyKey X a
          in [check ''schema.action'' SCHEMA_INVALID True ''valid'' ''valid'' None,
              check ''schema.decimals'' SCHEMA_INVALID (mismatch = None)
                (case mismatch of None \<Rightarrow> ''match'' | Some (_, obs, _) \<Rightarrow> obs)
                (case mismatch of None \<Rightarrow> ''allowlist'' | Some (_, _, expected) \<Rightarrow> expected)
                (case mismatch of None \<Rightarrow> None
                 | Some (addr, _, _) \<Rightarrow> Some (addr @ '' decimals disagree with the allowlist'')),
              check ''schema.idempotency'' SCHEMA_INVALID (idempotencyKey a = expectedKey)
                (idempotencyKey a) expectedKey None]
      | (path, msg) # _ \<Rightarrow>
          [check ''schema.action'' SCHEMA_INVALID False path ''valid'' (Some (take 200 msg)),
           skip ''schema.decimals'' SCHEMA_INVALID Short_circuit,
           skip ''schema.idempotency'' SCHEMA_INVALID Short_circuit]))"

definition switch_checks :: "risk_input \<Rightarrow> risk_check list" where
  "switch_checks inp = (let a = action inp; st = state inp in [
     check ''stop.emergency'' EMERGENCY_STOP (\<not> emergencyOf inp) (bool_str (emergencyOf inp)) ''false''
       (case emergency_reason st of None \<Rightarrow> None
        | Some r \<Rightarrow> if r = [] then None else Some (take 200 r)),
     check ''pause.global'' GLOBAL_PAUSE (\<not> pausedOf inp) (bool_str (pausedOf inp)) ''false'' None,
     check ''live.modeMatch'' MODE_MISMATCH (a_mode a = st_mode st) (mode_str (a_mode a))
       (mode_str (st_mode st)) None,
     check ''live.activated'' LIVE_NOT_ACTIVATED (liveOk inp) (activation_str (activation st))
       (if a_mode a = PAPER then ''n/a'' else ''LIVE'') None])"

definition runTier0 :: "externals \<Rightarrow> risk_input \<Rightarrow> (risk_check list \<times> bool) result" where
  "runTier0 X inp = sbind (schema_parse X (action inp)) (\<lambda>issues. let
     cs = schema_checks X issues inp @ switch_checks inp;
     failed = checksFailed cs
   in Inr (if failed
       then cs @ map (\<lambda>(name, code). skip name code Short_circuit) (remainingCheckNames (action inp))
       else cs, failed))"

section \<open>LP structure\<close>

definition poolAllowlistCheck :: "risk_policy \<Rightarrow> chain_id \<Rightarrow> string \<Rightarrow> string \<Rightarrow> risk_check" where
  "poolAllowlistCheck p chain protocol pool = (let
     protocols = (case map_of (allowedProtocols (lp_limits p)) chain of None \<Rightarrow> [] | Some ps \<Rightarrow> ps);
     protocolOk = protocol \<in> set protocols;
     canonicalPool = canonicalizeAddress chain pool;
     poolOk = list_ex (\<lambda>e. ap_chain e = chain \<and> ap_protocol e = protocol \<and>
       canonicalizeAddress chain (ap_poolId e) = canonicalPool) (allowedPools (lp_limits p))
   in check ''lp.pool'' POOL_NOT_ALLOWLISTED (protocolOk \<and> poolOk)
        (protocol @ '':'' @ pool) ''lp.allowedPools''
        (if protocolOk then (if poolOk then None else Some ''pool is not in lp.allowedPools'')
         else Some (''protocol '' @ protocol @ '' is not in lp.allowedProtocols['' @ chain_str chain @ '']'')))"

definition lpCapitalMicros :: "proposed_action \<Rightarrow> string \<Rightarrow> int option \<Rightarrow> int option \<Rightarrow> int option result" where
  "lpCapitalMicros a amtB priceIn priceOut = (case (priceIn, priceOut) of
     (Some pin, Some pout) \<Rightarrow>
       sbind (amountToBigint (amountIn a)) (\<lambda>x.
       sbind (nativeToUsdMicros x (tr_decimals (tokenIn a)) pin RCeil) (\<lambda>legA.
       sbind (amountToBigint amtB) (\<lambda>y.
       sbind (nativeToUsdMicros y (tr_decimals (tokenOut a)) pout RCeil) (\<lambda>legB.
         Inr (Some (legA + legB))))))
   | _ \<Rightarrow> Inr None)"

definition price_in :: "risk_input \<Rightarrow> stamped option" where
  "price_in inp = prices (snapshot inp) (priceKey (a_chain (action inp)) (tr_address (tokenIn (action inp))))"

definition price_out :: "risk_input \<Rightarrow> stamped option" where
  "price_out inp = prices (snapshot inp) (priceKey (a_chain (action inp)) (tr_address (tokenOut (action inp))))"

definition price_native :: "risk_input \<Rightarrow> stamped option" where
  "price_native inp = prices (snapshot inp)
     (priceKey (a_chain (action inp)) (tr_address (nativeTokenRef (a_chain (action inp)))))"

definition chain_check :: "risk_input \<Rightarrow> risk_check" where
  "chain_check inp = (let c = a_chain (action inp) in
     check ''chain.enabled'' CHAIN_UNSUPPORTED (c \<in> set (enabledChains (policy inp))) (chain_str c)
       (join_with '','' (map chain_str (enabledChains (policy inp)))) None)"

definition lp_pool_checks :: "risk_input \<Rightarrow> risk_check list" where
  "lp_pool_checks inp = (let a = action inp in case a_lp a of
     None \<Rightarrow> []
   | Some l \<Rightarrow> if isLp a \<or> isLpApprove a
       then [poolAllowlistCheck (policy inp) (a_chain a) (a_protocol a) (poolId l)] else [])"

definition lp_entry_capital :: "risk_input \<Rightarrow> int option result" where
  "lp_entry_capital inp = (let a = action inp in
     case (if isLpEntry a then a_lp a else None) of
       None \<Rightarrow> Inr None
     | Some l \<Rightarrow> (case amountB l of None \<Rightarrow> Inr None
         | Some b \<Rightarrow> lpCapitalMicros a b (usablePrice (price_in inp)) (usablePrice (price_out inp))))"

definition lp_existing :: "risk_input \<Rightarrow> string \<Rightarrow> (string \<times> string) option" where
  "lp_existing inp key = (case snap_lp (snapshot inp) of None \<Rightarrow> None | Some s \<Rightarrow> lp_positions s key)"

definition lp_capital_checks :: "risk_input \<Rightarrow> int option \<Rightarrow> risk_check list result" where
  "lp_capital_checks inp entryCapital = (let a = action inp in
     case (if isLpEntry a then a_lp a else None) of
       None \<Rightarrow> Inr []
     | Some l \<Rightarrow>
       sbind (case lp_existing inp (lpPoolKey (a_chain a) (poolId l)) of
                None \<Rightarrow> Inr 0 | Some (_, cap) \<Rightarrow> usdToMicros cap) (\<lambda>existingCapital.
       sbind (usdToMicros (maxCapitalPerLpUsd (lp_limits (policy inp)))) (\<lambda>maxCapital.
         let total = map_option (\<lambda>c. existingCapital + c) entryCapital in
         Inr [check ''lp.capital'' LP_CAPITAL_EXCEEDS_MAX (within total maxCapital)
           (usd_or NOT_EVALUATED total) (microsToUsd maxCapital)
           (Some (''existing '' @ microsToUsd existingCapital @ '' plus new '' @
             usd_or NOT_EVALUATED entryCapital))])))"

section \<open>Freshness\<close>

definition DAY_MS :: int where "DAY_MS = 86400000"

definition dayStart :: "int \<Rightarrow> int" where
  "dayStart t = (t div DAY_MS) * DAY_MS"

definition balance_in :: "risk_input \<Rightarrow> stamped option" where
  "balance_in inp = balances (snapshot inp)
     (balanceKey (a_chain (action inp)) (tr_address (tokenIn (action inp))))"

definition balance_native :: "risk_input \<Rightarrow> stamped option" where
  "balance_native inp = balances (snapshot inp)
     (balanceKey (a_chain (action inp)) (tr_address (nativeTokenRef (a_chain (action inp)))))"

text \<open>Swaps read the market's liquidity, LP entries the pool's own.\<close>

definition liquidity_of :: "risk_input \<Rightarrow> stamped option" where
  "liquidity_of inp = (let a = action inp in
     if isLp a then
       (case a_lp a of None \<Rightarrow> None
        | Some l \<Rightarrow> if isLpEntry a then poolLiquidity (snapshot inp) (liquidityKey (a_chain a) (poolId l))
            else None)
     else (case a_quote a of None \<Rightarrow> None
        | Some q \<Rightarrow> liquidity (snapshot inp) (liquidityKey (a_chain a) (marketId q))))"

definition freshness_checks :: "risk_input \<Rightarrow> risk_check list" where
  "freshness_checks inp = (let
     a = action inp; f = freshness (policy inp); t = now inp; skew = maxClockSkewMs f;
     l = ledger (state inp); expectedDayStart = dayStart t
   in [
     freshnessCheck ''freshness.action''
       (Some \<lparr>sv_value = ''action'', sv_at = proposedAt a, sv_source = source_str (a_source a)\<rparr>)
       t (actionMaxAgeMs f) skew,
     check ''freshness.ledger'' DATA_STALE (dayStartUtcMs l = expectedDayStart)
       (int_str (dayStartUtcMs l)) (int_str expectedDayStart)
       (if dayStartUtcMs l = expectedDayStart then None
        else Some ''ledger snapshot belongs to a different UTC day''),
     priceCheck ''freshness.price.tokenIn'' (price_in inp) t (priceMaxAgeMs f) skew,
     (if isApprove a then skip ''freshness.price.tokenOut'' DATA_STALE Not_applicable
      else priceCheck ''freshness.price.tokenOut'' (price_out inp) t (priceMaxAgeMs f) skew),
     priceCheck ''freshness.price.native'' (price_native inp) t (priceMaxAgeMs f) skew,
     (case (if isApprove a then None else a_quote a) of
        None \<Rightarrow> skip ''freshness.quote'' DATA_STALE Not_applicable
      | Some q \<Rightarrow> freshnessCheck ''freshness.quote''
          (Some \<lparr>sv_value = q_source q, sv_at = quotedAt q, sv_source = q_source q\<rparr>)
          t (quoteMaxAgeMs f) skew),
     freshnessCheck ''freshness.fee''
       (Some \<lparr>sv_value = ''fee'', sv_at = fee_estimatedAt a, sv_source = ''adapter''\<rparr>)
       t (feeEstimateMaxAgeMs f) skew,
     (if isLpExit a \<or> isLpClaim a then skip ''freshness.balance.tokenIn'' DATA_STALE Not_applicable
      else freshnessCheck ''freshness.balance.tokenIn'' (balance_in inp) t (balanceMaxAgeMs f) skew),
     freshnessCheck ''freshness.balance.native'' (balance_native inp) t (balanceMaxAgeMs f) skew,
     (if isApprove a \<or> a_quote a = None \<or> isLpExit a
      then skip ''freshness.liquidity'' DATA_STALE Not_applicable
      else freshnessCheck ''freshness.liquidity'' (liquidity_of inp) t (liquidityMaxAgeMs f) skew)])"

section \<open>Allowlists\<close>

definition allowed_addresses :: "risk_policy \<Rightarrow> chain_id \<Rightarrow> string set" where
  "allowed_addresses p c = set (map ta_address (allowlisted_tokens p c))"

definition protocol_entry_of :: "risk_policy \<Rightarrow> chain_id \<Rightarrow> string \<Rightarrow> protocol_entry option" where
  "protocol_entry_of p c name = (case map_of (protocolAllowlist p) c of
     None \<Rightarrow> None | Some ps \<Rightarrow> map_of ps name)"

definition contractCheck :: "proposed_action \<Rightarrow> protocol_entry option \<Rightarrow> risk_check" where
  "contractCheck a e = (let
     verdict = (\<lambda>passed observed detail.
       check ''allowlist.contract'' CONTRACT_UNKNOWN passed observed ''n/a'' detail) in
     case e of
       None \<Rightarrow> verdict False (a_contract a)
         (Some ''protocol is not allowlisted, so no contract can be checked'')
     | Some en \<Rightarrow>
       let ok = (if a_kind a = Approve then a_contract a \<in> set (approveSpenders en)
                 else if a_kind a = Lp_claim then
                   (case a_lp a of None \<Rightarrow> False | Some l \<Rightarrow> a_contract a = poolId l)
                 else a_contract a \<in> set (contracts en)) in
       if \<not> ok then verdict False (a_contract a)
         (if a_kind a = Approve then Some ''not an approved spender''
          else if a_kind a = Lp_claim
          then Some ''a claim must target the pool named in the lp leg'' else None)
       else if a_chain a = Solana then
         let ids = (case programIds a of None \<Rightarrow> [] | Some is \<Rightarrow> is) in
         if a_contract a \<notin> set ids then verdict False (a_contract a)
           (Some ''declared program is not among the transaction top-level programs'')
         else (case List.find (\<lambda>i. i \<notin> set (contracts en) \<union> set SOLANA_SYSTEM_PROGRAMS) ids of
             Some offending \<Rightarrow>
               if offending \<noteq> [] then verdict False offending
                 (Some ''transaction targets a program that is not allowlisted'')
               else verdict True (a_contract a) None
           | None \<Rightarrow> verdict True (a_contract a) None)
       else verdict True (a_contract a) None)"

definition pool_allowed :: "risk_input \<Rightarrow> bool" where
  "pool_allowed inp \<longleftrightarrow> list_all ck_passed (lp_pool_checks inp) \<and> lp_pool_checks inp \<noteq> []"

definition allowlist_checks :: "risk_input \<Rightarrow> risk_check list" where
  "allowlist_checks inp = (let
     a = action inp; p = policy inp; c = a_chain a;
     addresses = allowed_addresses p c;
     viaPool = isLpApprove a \<and> pool_allowed inp;
     en = protocol_entry_of p c (a_protocol a)
   in [
     check ''allowlist.tokenIn'' TOKEN_NOT_ALLOWLISTED
       (tr_address (tokenIn a) \<in> addresses \<or> viaPool) (tr_address (tokenIn a)) ''n/a''
       (if viaPool then Some ''LP token of an allowlisted pool'' else None),
     (if isApprove a then skip ''allowlist.tokenOut'' TOKEN_NOT_ALLOWLISTED Not_applicable
      else check ''allowlist.tokenOut'' TOKEN_NOT_ALLOWLISTED
        (tr_address (tokenOut a) \<in> addresses) (tr_address (tokenOut a)) ''n/a'' None),
     check ''allowlist.protocol'' PROTOCOL_NOT_ALLOWLISTED (en \<noteq> None) (a_protocol a) ''n/a'' None,
     contractCheck a en])"

section \<open>Position\<close>

definition held_amounts :: "risk_input \<Rightarrow> string list" where
  "held_amounts inp = map pos_amount (filter (\<lambda>p. pos_chain p = a_chain (action inp) \<and>
     pos_token p = tr_address (tokenIn (action inp))) (positions (ledger (state inp))))"

definition position_check :: "risk_input \<Rightarrow> risk_check result" where
  "position_check inp = (let a = action inp in
     if isExit a then
       sbind (map_result amountToBigint (held_amounts inp)) (\<lambda>amounts.
       sbind (amountToBigint (amountIn a)) (\<lambda>wanted.
         let held = sum_list amounts;
             sellsHolding = \<not> isStablecoin (a_chain a) (tr_address (tokenIn a));
             returnsToStable = isStablecoin (a_chain a) (tr_address (tokenOut a));
             detail = (if held = 0 then Some ''no open position for this token''
               else if \<not> sellsHolding then Some ''an exit cannot sell a stablecoin''
               else if \<not> returnsToStable then Some ''an exit must return to a stablecoin'' else None)
         in Inr (check ''position.reduceOnly'' REDUCE_ONLY_MISMATCH
           (held > 0 \<and> wanted \<le> held \<and> sellsHolding \<and> returnsToStable)
           (amountIn a) (int_str held) detail)))
     else Inr \<lparr>ck_name = ''position.reduceOnly'', ck_code = REDUCE_ONLY_MISMATCH, ck_passed = True,
       ck_observed = ''false'', ck_limit = ''n/a'', ck_skipped = Some Not_applicable, ck_detail = None\<rparr>)"

section \<open>Amounts\<close>

record derived_amounts =
  da_amountIn :: int
  da_amountInUsd :: "int option"
  da_feeNative :: int
  da_feeUsd :: "int option"

definition derive_amounts :: "risk_input \<Rightarrow> derived_amounts result" where
  "derive_amounts inp = (let a = action inp in
     sbind (amountToBigint (amountIn a)) (\<lambda>amt.
     sbind (opt_result (\<lambda>p. nativeToUsdMicros amt (tr_decimals (tokenIn a)) p RCeil)
              (usablePrice (price_in inp))) (\<lambda>amtUsd.
     sbind (feeInNativeUnits (fee_detail a)) (\<lambda>fee.
     sbind (opt_result (\<lambda>p. nativeToUsdMicros fee (tr_decimals (nativeTokenRef (a_chain a))) p RCeil)
              (usablePrice (price_native inp))) (\<lambda>feeU.
       Inr \<lparr>da_amountIn = amt, da_amountInUsd = amtUsd, da_feeNative = fee, da_feeUsd = feeU\<rparr>)))))"

definition size_check :: "risk_input \<Rightarrow> derived_amounts \<Rightarrow> risk_check result" where
  "size_check inp d = (let a = action inp in
     sbind (usdToMicros (maxAmountPerTradeUsd (policy inp))) (\<lambda>maxTrade.
       Inr (if isExit a \<or> isLp a \<or> isLpApprove a
            then skip ''size.amountInUsd'' SIZE_EXCEEDS_MAX_TRADE Not_applicable
            else check ''size.amountInUsd'' SIZE_EXCEEDS_MAX_TRADE (within (da_amountInUsd d) maxTrade)
              (usd_or NOT_EVALUATED (da_amountInUsd d)) (microsToUsd maxTrade) None)))"

definition worst_case :: "risk_input \<Rightarrow> int option \<Rightarrow> derived_amounts \<Rightarrow> int option result" where
  "worst_case inp entryCapital d = (let a = action inp; p = policy inp in
     if isLp a then
       if isLpEntry a then
         (case (entryCapital, da_feeUsd d) of
            (Some cap, Some fee) \<Rightarrow> sbind (bpsOf cap (maxRebalanceSlippageBps (lp_limits p)))
              (\<lambda>b. Inr (Some (fee + b)))
          | _ \<Rightarrow> Inr None)
       else Inr (da_feeUsd d)
     else (case (da_amountInUsd d, da_feeUsd d) of
         (Some amt, Some fee) \<Rightarrow>
           if isApprove a then Inr (Some fee)
           else sbind (bpsOf amt (maxSlippageBps p)) (\<lambda>b. Inr (Some (fee + b)))
       | _ \<Rightarrow> Inr None))"

definition loss_check :: "risk_input \<Rightarrow> int option \<Rightarrow> derived_amounts \<Rightarrow> int \<Rightarrow> risk_check result" where
  "loss_check inp entryCapital d dailyLoss = (let a = action inp in
     sbind (worst_case inp entryCapital d) (\<lambda>worst.
     sbind (usdToMicros (maxDailyLossUsd (policy inp))) (\<lambda>maxLoss.
       let projected = map_option (\<lambda>w. dailyLoss + w) worst in
       Inr (if isExit a \<or> isLpExit a then skip ''loss.daily'' DAILY_LOSS_BREACHED Not_applicable
            else check ''loss.daily'' DAILY_LOSS_BREACHED (within projected maxLoss)
              (usd_or NOT_EVALUATED projected) (microsToUsd maxLoss)
              (Some (''today '' @ microsToUsd dailyLoss @ '' plus worst case '' @
                 usd_or NOT_EVALUATED worst))))))"

definition projected_deployed :: "risk_input \<Rightarrow> int option \<Rightarrow> derived_amounts \<Rightarrow> int \<Rightarrow> int \<Rightarrow> int option" where
  "projected_deployed inp entryCapital d trading lpDeployed = (let a = action inp in
     if isLp a then (if isLpEntry a then map_option (\<lambda>c. trading + lpDeployed + c) entryCapital else None)
     else map_option (\<lambda>c. trading + lpDeployed + c) (da_amountInUsd d))"

definition deployed_check ::
  "risk_input \<Rightarrow> int option \<Rightarrow> derived_amounts \<Rightarrow> (risk_check \<times> int option) result" where
  "deployed_check inp entryCapital d = (let a = action inp in
     sbind (usdToMicros (deployedUsd (ledger (state inp)))) (\<lambda>trading.
     sbind (case snap_lp (snapshot inp) of None \<Rightarrow> Inr 0 | Some s \<Rightarrow> usdToMicros (lps_deployedUsd s))
       (\<lambda>lpDeployed.
     sbind (usdToMicros (maxTotalDeployedUsd (policy inp))) (\<lambda>maxDeployed.
       let projected = projected_deployed inp entryCapital d trading lpDeployed in
       Inr (if isExit a \<or> isApprove a \<or> isLpExit a \<or> isLpClaim a
            then skip ''deployed.total'' TOTAL_DEPLOYED_BREACHED Not_applicable
            else check ''deployed.total'' TOTAL_DEPLOYED_BREACHED (within projected maxDeployed)
              (usd_or NOT_EVALUATED projected) (microsToUsd maxDeployed)
              (if isLp a then Some (''trading '' @ microsToUsd trading @ '' plus LP '' @
                 microsToUsd lpDeployed @ '' plus new '' @ usd_or NOT_EVALUATED entryCapital)
               else None), projected)))))"

section \<open>Execution quality\<close>

definition no_swap_quote :: "proposed_action \<Rightarrow> bool" where
  "no_swap_quote a \<longleftrightarrow> isApprove a \<or> a_quote a = None \<or> isLp a"

definition quote_slippage :: "quote \<Rightarrow> int result" where
  "quote_slippage q =
     sbind (amountToBigint (expectedAmountOut q)) (\<lambda>expectedOut.
     sbind (amountToBigint (minAmountOut q)) (\<lambda>minOut.
     sbind (if expectedOut > 0 \<and> minOut \<le> expectedOut then impliedSlippageBps expectedOut minOut
            else Inr 0) (\<lambda>implied.
       Inr (maxBigint (slippageBps q) implied))))"

definition slippage_checks :: "risk_input \<Rightarrow> (risk_check list \<times> int) result" where
  "slippage_checks inp = (let a = action inp; p = policy inp in
     case (if no_swap_quote a then None else a_quote a) of
       None \<Rightarrow> Inr ([skip ''slippage.implied'' SLIPPAGE_EXCEEDS_MAX Not_applicable,
                     skip ''slippage.priceImpact'' SLIPPAGE_EXCEEDS_MAX Not_applicable], 0)
     | Some q \<Rightarrow> sbind (quote_slippage q) (\<lambda>bps.
         Inr ([check ''slippage.implied'' SLIPPAGE_EXCEEDS_MAX (bps \<le> maxSlippageBps p)
                 (int_str bps) (int_str (maxSlippageBps p)) None,
               check ''slippage.priceImpact'' SLIPPAGE_EXCEEDS_MAX
                 (priceImpactBps q \<le> maxPriceImpactBps p)
                 (int_str (priceImpactBps q)) (int_str (maxPriceImpactBps p)) None], bps)))"

definition market_tolerance :: "risk_policy \<Rightarrow> int" where
  "market_tolerance p = min (maxSlippageBps p + maxPriceImpactBps p) 10000"

definition market_check :: "risk_input \<Rightarrow> derived_amounts \<Rightarrow> risk_check result" where
  "market_check inp d = (let a = action inp; tolerance = market_tolerance (policy inp) in
     case (if no_swap_quote a then None else a_quote a) of
       None \<Rightarrow> Inr (skip ''quote.market'' QUOTE_OFF_MARKET Not_applicable)
     | Some q \<Rightarrow>
         sbind (opt_result (\<lambda>p. sbind (amountToBigint (expectedAmountOut q)) (\<lambda>e.
                    nativeToUsdMicros e (tr_decimals (tokenOut a)) p RFloor))
                  (usablePrice (price_out inp))) (\<lambda>expectedOutUsd.
         sbind (opt_result (\<lambda>amt. sbind (bpsOf amt tolerance) (\<lambda>cut. Inr (amt - cut)))
                  (da_amountInUsd d)) (\<lambda>floorUsd.
           Inr (check ''quote.market'' QUOTE_OFF_MARKET
             (case floorUsd of None \<Rightarrow> False | Some fl \<Rightarrow> at_least expectedOutUsd fl)
             (usd_or NOT_EVALUATED expectedOutUsd) (usd_or NOT_EVALUATED floorUsd)
             (Some (''expected output valued at the cross-checked price, against '' @
               microsToUsd (case da_amountInUsd d of None \<Rightarrow> 0 | Some x \<Rightarrow> x) @
               '' in less '' @ int_str tolerance @ '' bps''))))))"

definition fee_check :: "risk_input \<Rightarrow> derived_amounts \<Rightarrow> risk_check result" where
  "fee_check inp d = sbind (usdToMicros (maxTransactionFeeUsd (policy inp))) (\<lambda>maxFee.
     Inr (check ''fee.usd'' FEE_EXCEEDS_MAX (within (da_feeUsd d) maxFee)
       (usd_or NOT_EVALUATED (da_feeUsd d)) (microsToUsd maxFee) None))"

definition liquidity_check :: "risk_input \<Rightarrow> risk_check result" where
  "liquidity_check inp = (let a = action inp in
     sbind (usdToMicros (minLiquidityUsd (policy inp))) (\<lambda>minLiquidity.
       if no_swap_quote a then Inr (skip ''liquidity.market'' LIQUIDITY_BELOW_MIN Not_applicable)
       else sbind (opt_result (\<lambda>l. usdToMicros (sv_value l)) (liquidity_of inp)) (\<lambda>observed.
         Inr (check ''liquidity.market'' LIQUIDITY_BELOW_MIN (at_least observed minLiquidity)
           (usd_or ''missing'' observed) (microsToUsd minLiquidity) None))))"

section \<open>Pacing\<close>

definition elapsed_since :: "int \<Rightarrow> int option \<Rightarrow> int" where
  "elapsed_since t lastAt = (case lastAt of None \<Rightarrow> MAX_SAFE_INTEGER | Some l \<Rightarrow> t - l)"

definition elapsed_text :: "int \<Rightarrow> int option \<Rightarrow> string" where
  "elapsed_text t lastAt = (case lastAt of None \<Rightarrow> ''never'' | Some l \<Rightarrow> int_str ((t - l) div 1000))"

definition last_market_action :: "risk_input \<Rightarrow> int option" where
  "last_market_action inp = (let a = action inp in
     cooldowns (state inp) (marketKey (a_chain a) (tr_address (tokenIn a)) (tr_address (tokenOut a))))"

definition cooldown_checks :: "risk_input \<Rightarrow> risk_check list" where
  "cooldown_checks inp = (let a = action inp; p = policy inp; t = now inp;
      lastMarket = last_market_action inp; lastAny = lastAnyActionAt (state inp) in [
     (if isExit a \<or> isApprove a \<or> isLpExit a
      then skip ''cooldown.market'' COOLDOWN_ACTIVE Not_applicable
      else check ''cooldown.market'' COOLDOWN_ACTIVE
        (elapsed_since t lastMarket \<ge> cooldownSeconds p * 1000)
        (elapsed_text t lastMarket) (int_str (cooldownSeconds p)) None),
     (if isExit a \<or> isLpExit a \<or> isLpApprove a
      then skip ''cooldown.global'' COOLDOWN_ACTIVE Not_applicable
      else check ''cooldown.global'' COOLDOWN_ACTIVE
        (elapsed_since t lastAny \<ge> globalMinIntervalSeconds p * 1000)
        (elapsed_text t lastAny) (int_str (globalMinIntervalSeconds p)) None)])"

section \<open>Balances\<close>

definition held_balance :: "stamped option \<Rightarrow> int option result" where
  "held_balance s = opt_result (\<lambda>b. amountToBigint (sv_value b)) s"

definition balance_in_check :: "risk_input \<Rightarrow> derived_amounts \<Rightarrow> risk_check result" where
  "balance_in_check inp d = (let a = action inp;
      isNative = isNativeToken (a_chain a) (tr_address (tokenIn a)) in
     if isApprove a \<or> isLpExit a \<or> isLpClaim a
     then Inr (skip ''balance.tokenIn'' BALANCE_INSUFFICIENT Not_applicable)
     else sbind (held_balance (balance_in inp)) (\<lambda>held.
       let needed = (if isNative then da_amountIn d + da_feeNative d else da_amountIn d) in
       Inr (check ''balance.tokenIn'' BALANCE_INSUFFICIENT (at_least held needed)
         (int_or ''missing'' held) (int_str needed)
         (if isNative then Some ''native trade must also cover the fee'' else None))))"

definition balance_gas_check :: "risk_input \<Rightarrow> derived_amounts \<Rightarrow> risk_check result" where
  "balance_gas_check inp d =
     sbind (held_balance (balance_native inp)) (\<lambda>held.
       Inr (check ''balance.gas'' BALANCE_INSUFFICIENT (at_least held (da_feeNative d))
         (int_or ''missing'' held) (int_str (da_feeNative d)) None))"

section \<open>LP checks\<close>

definition lp_position_check :: "risk_input \<Rightarrow> lp_leg \<Rightarrow> risk_check result" where
  "lp_position_check inp l = (let a = action inp in
     if isLpExit a \<or> isLpClaim a then
       sbind (case lp_existing inp (lpPoolKey (a_chain a) (poolId l)) of
                None \<Rightarrow> Inr 0 | Some (tokens, _) \<Rightarrow> amountToBigint tokens) (\<lambda>heldTokens.
       sbind (if isLpExit a then amountToBigint (case lpTokens l of None \<Rightarrow> ''0'' | Some t \<Rightarrow> t)
              else Inr 0) (\<lambda>wanted.
         Inr (check ''lp.position'' REDUCE_ONLY_MISMATCH
           (if isLpExit a then heldTokens > 0 \<and> wanted \<le> heldTokens else heldTokens > 0)
           (int_str (if isLpExit a then wanted else heldTokens)) (int_str heldTokens)
           (if heldTokens = 0 then Some ''no open LP position in this pool'' else None))))
     else Inr (skip ''lp.position'' REDUCE_ONLY_MISMATCH Not_applicable))"

definition lp_liquidity_check :: "risk_input \<Rightarrow> risk_check result" where
  "lp_liquidity_check inp =
     sbind (usdToMicros (minPoolLiquidityUsd (lp_limits (policy inp)))) (\<lambda>minPool.
       if isLpEntry (action inp) then
         sbind (opt_result (\<lambda>l. usdToMicros (sv_value l)) (liquidity_of inp)) (\<lambda>observed.
           Inr (check ''lp.poolLiquidity'' POOL_LIQUIDITY_BELOW_MIN (at_least observed minPool)
             (usd_or ''missing'' observed) (microsToUsd minPool) None))
       else Inr (skip ''lp.poolLiquidity'' POOL_LIQUIDITY_BELOW_MIN Not_applicable))"

definition rebalance_count :: "risk_input \<Rightarrow> string \<Rightarrow> int" where
  "rebalance_count inp key = (let
     fromLedger = (case lpRebalancesToday (ledger (state inp)) key of None \<Rightarrow> 0 | Some n \<Rightarrow> n);
     fromSnapshot = (case snap_lp (snapshot inp) of None \<Rightarrow> 0
       | Some s \<Rightarrow> (case rebalancesToday s key of None \<Rightarrow> 0 | Some n \<Rightarrow> n))
   in max fromLedger fromSnapshot)"

definition lp_rebalance_check :: "risk_input \<Rightarrow> lp_leg \<Rightarrow> risk_check" where
  "lp_rebalance_check inp l = (let a = action inp; p = lp_limits (policy inp);
      count = rebalance_count inp (lpPoolKey (a_chain a) (poolId l)) in
     if a_kind a = Lp_rebalance then
       check ''lp.rebalanceCount'' REBALANCE_LIMIT_REACHED (count < maxRebalancePerDay p)
         (int_str count) (int_str (maxRebalancePerDay p)) None
     else skip ''lp.rebalanceCount'' REBALANCE_LIMIT_REACHED Not_applicable)"

definition lp_slippage_check :: "risk_input \<Rightarrow> risk_check result" where
  "lp_slippage_check inp = (let a = action inp; lim = maxRebalanceSlippageBps (lp_limits (policy inp)) in
     case (if isLpClaim a then None else a_quote a) of
       None \<Rightarrow> Inr (skip ''lp.rebalanceSlippage'' SLIPPAGE_EXCEEDS_MAX Not_applicable)
     | Some q \<Rightarrow> sbind (quote_slippage q) (\<lambda>bps.
         Inr (check ''lp.rebalanceSlippage'' SLIPPAGE_EXCEEDS_MAX (bps \<le> lim)
           (int_str bps) (int_str lim) None)))"

definition lp_gas_check :: "risk_input \<Rightarrow> derived_amounts \<Rightarrow> risk_check result" where
  "lp_gas_check inp d = sbind (usdToMicros (maxLpGasUsd (lp_limits (policy inp)))) (\<lambda>maxGas.
     Inr (check ''lp.gas'' FEE_EXCEEDS_MAX (within (da_feeUsd d) maxGas)
       (usd_or NOT_EVALUATED (da_feeUsd d)) (microsToUsd maxGas) None))"

definition claim_value :: "risk_input \<Rightarrow> lp_leg \<Rightarrow> int option result" where
  "claim_value inp l = (let a = action inp in
     case (claimable l, usablePrice (price_in inp), usablePrice (price_out inp)) of
       (Some (ca, cb), Some pin, Some pout) \<Rightarrow>
         sbind (amountToBigint ca) (\<lambda>x.
         sbind (nativeToUsdMicros x (tr_decimals (tokenIn a)) pin RFloor) (\<lambda>va.
         sbind (amountToBigint cb) (\<lambda>y.
         sbind (nativeToUsdMicros y (tr_decimals (tokenOut a)) pout RFloor) (\<lambda>vb.
           Inr (Some (va + vb))))))
     | _ \<Rightarrow> Inr None)"

definition lp_claim_check :: "risk_input \<Rightarrow> lp_leg \<Rightarrow> risk_check result" where
  "lp_claim_check inp l =
     (if isLpClaim (action inp) then
        sbind (claim_value inp l) (\<lambda>val.
        sbind (usdToMicros (minFeeThresholdUsd (lp_limits (policy inp)))) (\<lambda>threshold.
          Inr (check ''lp.claimThreshold'' FEE_BELOW_CLAIM_THRESHOLD (at_least val threshold)
            (usd_or NOT_EVALUATED val) (microsToUsd threshold) None)))
      else Inr (skip ''lp.claimThreshold'' FEE_BELOW_CLAIM_THRESHOLD Not_applicable))"

definition balance_out :: "risk_input \<Rightarrow> stamped option" where
  "balance_out inp = balances (snapshot inp)
     (balanceKey (a_chain (action inp)) (tr_address (tokenOut (action inp))))"

definition lp_tokenB_checks :: "risk_input \<Rightarrow> lp_leg \<Rightarrow> risk_check list result" where
  "lp_tokenB_checks inp l = (let f = freshness (policy inp) in
     case (if isLpEntry (action inp) then amountB l else None) of
       None \<Rightarrow> Inr [skip ''lp.freshness.balance.tokenB'' DATA_STALE Not_applicable,
                   skip ''lp.balance.tokenB'' BALANCE_INSUFFICIENT Not_applicable]
     | Some b \<Rightarrow>
         sbind (held_balance (balance_out inp)) (\<lambda>held.
         sbind (amountToBigint b) (\<lambda>needed.
           Inr [freshnessCheck ''lp.freshness.balance.tokenB'' (balance_out inp) (now inp)
                  (balanceMaxAgeMs f) (maxClockSkewMs f),
                check ''lp.balance.tokenB'' BALANCE_INSUFFICIENT (at_least held needed)
                  (int_or ''missing'' held) (int_str needed) None])))"

definition runLpChecks :: "risk_input \<Rightarrow> derived_amounts \<Rightarrow> risk_check list result" where
  "runLpChecks inp d = (let a = action inp in
     case (if isLp a then a_lp a else None) of
       None \<Rightarrow> Inr []
     | Some l \<Rightarrow>
         sbind (lp_position_check inp l) (\<lambda>c1.
         sbind (lp_liquidity_check inp) (\<lambda>c2.
         sbind (lp_slippage_check inp) (\<lambda>c4.
         sbind (lp_gas_check inp d) (\<lambda>c5.
         sbind (lp_claim_check inp l) (\<lambda>c6.
         sbind (lp_tokenB_checks inp l) (\<lambda>cs.
           Inr ([c1, c2, lp_rebalance_check inp l, c4, c5, c6] @ cs))))))))"

section \<open>The whole run\<close>

definition runRemainingChecks :: "risk_input \<Rightarrow> (risk_check list \<times> risk_derived) result" where
  "runRemainingChecks inp =
     sbind (lp_entry_capital inp) (\<lambda>cap.
     sbind (lp_capital_checks inp cap) (\<lambda>capitalChecks.
     sbind (position_check inp) (\<lambda>positionCheck.
     sbind (derive_amounts inp) (\<lambda>d.
     sbind (size_check inp d) (\<lambda>sizeCheck.
     sbind (computeDailyLoss inp) (\<lambda>dailyLoss.
     sbind (loss_check inp cap d dailyLoss) (\<lambda>lossCheck.
     sbind (deployed_check inp cap d) (\<lambda>(deployedCheck, projected).
     sbind (slippage_checks inp) (\<lambda>(slippageChecks, bps).
     sbind (market_check inp d) (\<lambda>marketCheck.
     sbind (fee_check inp d) (\<lambda>feeCheck.
     sbind (liquidity_check inp) (\<lambda>liquidityCheck.
     sbind (balance_in_check inp d) (\<lambda>balanceIn.
     sbind (balance_gas_check inp d) (\<lambda>balanceGas.
     sbind (runLpChecks inp d) (\<lambda>lpChecks.
       Inr (chain_check inp # lp_pool_checks inp @ capitalChecks @
              freshness_checks inp @ allowlist_checks inp @
              [positionCheck, sizeCheck, lossCheck, deployedCheck] @ slippageChecks @
              [marketCheck, feeCheck, liquidityCheck] @ cooldown_checks inp @
              [balanceIn, balanceGas] @ lpChecks,
            \<lparr>amountInUsd = usd_or NOT_EVALUATED (da_amountInUsd d),
             feeUsd = usd_or NOT_EVALUATED (da_feeUsd d),
             impliedBps = bps,
             dailyLossUsd = microsToUsd dailyLoss,
             projectedDeployedUsd = usd_or NOT_EVALUATED projected\<rparr>))))))))))))))))"

definition finish :: "risk_input \<Rightarrow> risk_check list \<Rightarrow> risk_derived option \<Rightarrow> risk_decision" where
  "finish inp cs drv = (let firstFailure = List.find failing cs in
     \<lparr>d_engineVersion = ENGINE_VERSION, d_actionId = actionId (action inp),
      d_idempotencyKey = idempotencyKey (action inp), d_mode = st_mode (state inp),
      evaluatedAt = now inp, d_policyHash = policyHash inp,
      allowed = (firstFailure = None),
      d_code = map_option ck_code firstFailure,
      d_reason = (case firstFailure of None \<Rightarrow> ''all checks passed''
        | Some c \<Rightarrow> ck_name c @ '': observed '' @ ck_observed c @ '' vs limit '' @ ck_limit c),
      checks = cs, derived = drv, replayOf = None\<rparr>)"

definition evaluate :: "externals \<Rightarrow> risk_input \<Rightarrow> risk_decision result" where
  "evaluate X inp = sbind (runTier0 X inp) (\<lambda>(cs, tier0Failed).
     if tier0Failed then Inr (finish inp cs None)
     else sbind (runRemainingChecks inp) (\<lambda>(rest, drv). Inr (finish inp (cs @ rest) (Some drv))))"

end
