(* ===== verification/Ledger.thy ===== *)
theory Ledger
  imports Table Risk_Engine
begin

text \<open>
  \<open>src/runtime/src/trading/ledger.ts\<close>: positions, fills, paper balances and P&L. The database is
  a record of row lists; a statement of the code is an operation on one of them. Amounts and USD
  figures are the strings the rows hold, times are epoch milliseconds (an ISO string orders as its
  instant), and the identifiers \<open>randomUUID\<close> makes are arguments. A transaction that throws leaves
  the database as it was: the operation returns the error and no new state. The trade row a fill
  refers to is the caller's and is taken to exist; log lines are not modelled.
\<close>

section \<open>Rows\<close>

record position_row =
  pr_id :: string
  pr_mode :: mode
  pr_chain :: chain_id
  pr_token :: string
  pr_decimals :: int
  pr_amount :: string
  pr_costBasisUsd :: string
  pr_openedAt :: int
  pr_updatedAt :: int

record fill =
  fl_id :: string
  fl_tradeId :: string
  fl_mode :: mode
  fl_chain :: chain_id
  fl_tokenIn :: string
  fl_tokenOut :: string
  fl_amountIn :: string
  fl_amountOut :: string
  fl_priceInUsd :: string
  fl_priceOutUsd :: string
  fl_feeUsd :: string
  fl_realizedPnlUsd :: string
  fl_filledAt :: int
  fl_simulated :: bool

record lp_pnl_row =
  lr_mode :: mode
  lr_realizedPnlUsd :: string
  lr_at :: int

record paper_row =
  pb_chain :: chain_id
  pb_token :: string
  pb_decimals :: int
  pb_amount :: string
  pb_updatedAt :: int

record ledger_db =
  db_positions :: "position_row list"
  db_fills :: "fill list"
  db_lp_pnl :: "lp_pnl_row list"
  db_paper :: "paper_row list"
  db_days :: "mode \<times> int \<rightharpoonup> string"

record record_fill_input =
  rf_tradeId :: string
  rf_mode :: mode
  rf_chain :: chain_id
  rf_tokenIn :: token_ref
  rf_tokenOut :: token_ref
  rf_amountIn :: string
  rf_amountOut :: string
  rf_priceInUsd :: string
  rf_priceOutUsd :: string
  rf_feeUsd :: string
  rf_filledAt :: int
  rf_simulated :: bool

section \<open>Statements\<close>

type_synonym position_key = "mode \<times> chain_id \<times> string"

definition position_key :: "position_row \<Rightarrow> position_key" where
  "position_key r = (pr_mode r, pr_chain r, pr_token r)"

definition getPosition :: "ledger_db \<Rightarrow> position_key \<Rightarrow> position_row option" where
  "getPosition db k = List.find (\<lambda>r. position_key r = k) (db_positions db)"

definition insertPosition :: "ledger_db \<Rightarrow> position_row \<Rightarrow> ledger_db" where
  "insertPosition db r = db\<lparr>db_positions := db_positions db @ [r]\<rparr>"

definition updatePosition :: "ledger_db \<Rightarrow> position_key \<Rightarrow> (position_row \<Rightarrow> position_row) \<Rightarrow> ledger_db" where
  "updatePosition db k f =
     db\<lparr>db_positions := map (\<lambda>r. if position_key r = k then f r else r) (db_positions db)\<rparr>"

definition deletePosition :: "ledger_db \<Rightarrow> position_key \<Rightarrow> ledger_db" where
  "deletePosition db k = db\<lparr>db_positions := filter (\<lambda>r. position_key r \<noteq> k) (db_positions db)\<rparr>"

definition listPositions :: "ledger_db \<Rightarrow> mode \<Rightarrow> position_row list" where
  "listPositions db m = sort_key pr_openedAt (filter (\<lambda>r. pr_mode r = m) (db_positions db))"

definition paper_key :: "paper_row \<Rightarrow> chain_id \<times> string" where
  "paper_key r = (pb_chain r, pb_token r)"

definition getPaperBalance :: "ledger_db \<Rightarrow> chain_id \<times> string \<Rightarrow> paper_row option" where
  "getPaperBalance db k = List.find (\<lambda>r. paper_key r = k) (db_paper db)"

definition insertPaper :: "ledger_db \<Rightarrow> paper_row \<Rightarrow> ledger_db" where
  "insertPaper db r = db\<lparr>db_paper := db_paper db @ [r]\<rparr>"

definition updatePaper :: "ledger_db \<Rightarrow> chain_id \<times> string \<Rightarrow> (paper_row \<Rightarrow> paper_row) \<Rightarrow> ledger_db" where
  "updatePaper db k f = db\<lparr>db_paper := map (\<lambda>r. if paper_key r = k then f r else r) (db_paper db)\<rparr>"

definition deletePaper :: "ledger_db \<Rightarrow> chain_id \<times> string \<Rightarrow> ledger_db" where
  "deletePaper db k = db\<lparr>db_paper := filter (\<lambda>r. paper_key r \<noteq> k) (db_paper db)\<rparr>"

interpretation pos: keyed_table db_positions position_key getPosition insertPosition updatePosition deletePosition
  by unfold_locales
    (simp_all add: getPosition_def insertPosition_def updatePosition_def deletePosition_def)

interpretation pap: keyed_table db_paper paper_key getPaperBalance insertPaper updatePaper deletePaper
  by unfold_locales (simp_all add: getPaperBalance_def insertPaper_def updatePaper_def deletePaper_def)

section \<open>Paper balances\<close>

text \<open>INSERT ... ON CONFLICT DO UPDATE.\<close>

definition setPaperBalance ::
  "ledger_db \<Rightarrow> int \<Rightarrow> chain_id \<Rightarrow> string \<Rightarrow> int \<Rightarrow> string \<Rightarrow> ledger_db result" where
  "setPaperBalance db t c token decs amount =
     sbind (amountToBigint amount) (\<lambda>_. Inr (case getPaperBalance db (c, token) of
       None \<Rightarrow> insertPaper db \<lparr>pb_chain = c, pb_token = token, pb_decimals = decs,
                 pb_amount = amount, pb_updatedAt = t\<rparr>
     | Some _ \<Rightarrow> updatePaper db (c, token)
                 (\<lambda>r. r\<lparr>pb_amount := amount, pb_decimals := decs, pb_updatedAt := t\<rparr>)))"

definition adjustPaperBalance ::
  "ledger_db \<Rightarrow> int \<Rightarrow> chain_id \<Rightarrow> string \<Rightarrow> int \<Rightarrow> int \<Rightarrow> ledger_db result" where
  "adjustPaperBalance db t c token decs delta =
     sbind (case getPaperBalance db (c, token) of None \<Rightarrow> Inr 0 | Some r \<Rightarrow> amountToBigint (pb_amount r))
       (\<lambda>held. let next = held + delta in
        if next < 0 then Inl (AppError E_CONFLICT ''Paper balance would go negative'')
        else setPaperBalance db t c token decs (int_str next))"

section \<open>Positions\<close>

text \<open>The portion sold, its cost at average cost (rounded up) and the proceeds that belong to it
  (rounded down).\<close>

definition costOfSold :: "int \<Rightarrow> int \<Rightarrow> int \<Rightarrow> int" where
  "costOfSold basis held sold = (if held = 0 then 0 else bdiv (basis * sold + held - 1) held)"

definition proceedsOfSold :: "int \<Rightarrow> int \<Rightarrow> int \<Rightarrow> int" where
  "proceedsOfSold proceeds amount sold = (if amount = sold then proceeds else bdiv (proceeds * sold) amount)"

definition reducePosition ::
  "ledger_db \<Rightarrow> position_key \<Rightarrow> int \<Rightarrow> int \<Rightarrow> int \<Rightarrow> (ledger_db \<times> int) result" where
  "reducePosition db k amount proceeds t = (case getPosition db k of
     None \<Rightarrow> Inr (db, 0)
   | Some existing \<Rightarrow>
       sbind (amountToBigint (pr_amount existing)) (\<lambda>held.
       sbind (usdToMicros (pr_costBasisUsd existing)) (\<lambda>basis.
         let sold = (if amount > held then held else amount);
             cost = costOfSold basis held sold;
             realized = proceedsOfSold proceeds amount sold - cost;
             remaining = held - sold
         in Inr (if remaining = 0 then deletePosition db k
            else updatePosition db k (\<lambda>r. r\<lparr>pr_amount := int_str remaining,
                   pr_costBasisUsd := microsToUsd (basis - cost), pr_updatedAt := t\<rparr>), realized))))"

definition addPosition ::
  "ledger_db \<Rightarrow> string \<Rightarrow> position_key \<Rightarrow> int \<Rightarrow> int \<Rightarrow> int \<Rightarrow> int \<Rightarrow> ledger_db result" where
  "addPosition db uuid k decs amount cost t = (case getPosition db k of
     None \<Rightarrow> Inr (insertPosition db \<lparr>pr_id = uuid, pr_mode = fst k, pr_chain = fst (snd k),
         pr_token = snd (snd k), pr_decimals = decs, pr_amount = int_str amount,
         pr_costBasisUsd = microsToUsd cost, pr_openedAt = t, pr_updatedAt = t\<rparr>)
   | Some existing \<Rightarrow>
       sbind (amountToBigint (pr_amount existing)) (\<lambda>held.
       sbind (usdToMicros (pr_costBasisUsd existing)) (\<lambda>basis.
         Inr (updatePosition db k (\<lambda>r. r\<lparr>pr_amount := int_str (held + amount),
           pr_costBasisUsd := microsToUsd (basis + cost), pr_updatedAt := t\<rparr>)))))"

section \<open>Fills\<close>

definition settle_paper :: "ledger_db \<Rightarrow> int \<Rightarrow> record_fill_input \<Rightarrow> int \<Rightarrow> int \<Rightarrow> ledger_db result" where
  "settle_paper db t i amtIn amtOut =
     (if rf_mode i = PAPER then
        sbind (adjustPaperBalance db t (rf_chain i) (tr_address (rf_tokenIn i))
                 (tr_decimals (rf_tokenIn i)) (- amtIn)) (\<lambda>db.
          adjustPaperBalance db t (rf_chain i) (tr_address (rf_tokenOut i))
            (tr_decimals (rf_tokenOut i)) amtOut)
      else Inr db)"

definition fill_row :: "string \<Rightarrow> record_fill_input \<Rightarrow> int \<Rightarrow> int \<Rightarrow> fill" where
  "fill_row uuid i fee realized = \<lparr>fl_id = uuid, fl_tradeId = rf_tradeId i, fl_mode = rf_mode i,
     fl_chain = rf_chain i, fl_tokenIn = tr_address (rf_tokenIn i), fl_tokenOut = tr_address (rf_tokenOut i),
     fl_amountIn = rf_amountIn i, fl_amountOut = rf_amountOut i, fl_priceInUsd = rf_priceInUsd i,
     fl_priceOutUsd = rf_priceOutUsd i, fl_feeUsd = microsToUsd fee,
     fl_realizedPnlUsd = microsToUsd realized, fl_filledAt = rf_filledAt i, fl_simulated = rf_simulated i\<rparr>"

text \<open>\<open>t\<close> is the clock, \<open>u1\<close> and \<open>u2\<close> the identifiers of a new position and of the fill.\<close>

definition recordFill ::
  "ledger_db \<Rightarrow> int \<Rightarrow> string \<Rightarrow> string \<Rightarrow> record_fill_input \<Rightarrow> (ledger_db \<times> fill) result" where
  "recordFill db t u1 u2 i =
     sbind (amountToBigint (rf_amountIn i)) (\<lambda>amtIn.
     sbind (amountToBigint (rf_amountOut i)) (\<lambda>amtOut.
     sbind (priceToAtto (rf_priceInUsd i)) (\<lambda>priceIn.
     sbind (priceToAtto (rf_priceOutUsd i)) (\<lambda>priceOut.
     sbind (usdToMicros (rf_feeUsd i)) (\<lambda>fee.
       if amtIn \<le> 0 \<or> amtOut \<le> 0
       then Inl (AppError E_SCHEMA_INVALID ''A fill must move a positive amount'')
       else
         sbind (nativeToUsdMicros amtIn (tr_decimals (rf_tokenIn i)) priceIn RFloor) (\<lambda>inValue.
         sbind (nativeToUsdMicros amtOut (tr_decimals (rf_tokenOut i)) priceOut RFloor) (\<lambda>_.
         sbind (reducePosition db (rf_mode i, rf_chain i, tr_address (rf_tokenIn i))
                  amtIn inValue (rf_filledAt i)) (\<lambda>(db1, realizedFromExit).
         sbind (addPosition db1 u1 (rf_mode i, rf_chain i, tr_address (rf_tokenOut i))
                  (tr_decimals (rf_tokenOut i)) amtOut inValue (rf_filledAt i)) (\<lambda>db2.
         sbind (settle_paper db2 t i amtIn amtOut) (\<lambda>db3.
           let row = fill_row u2 i fee (realizedFromExit - fee)
           in Inr (db3\<lparr>db_fills := db_fills db3 @ [row]\<rparr>, row)))))))))))"

section \<open>P&L\<close>

fun sum_usd :: "string list \<Rightarrow> int result" where
  "sum_usd [] = Inr 0"
| "sum_usd (s # ss) = sbind (usdToMicros s) (\<lambda>x. sbind (sum_usd ss) (\<lambda>rest. Inr (x + rest)))"

definition realizedPnlToday :: "ledger_db \<Rightarrow> mode \<Rightarrow> int \<Rightarrow> int result" where
  "realizedPnlToday db m t = sum_usd
     (map fl_realizedPnlUsd (filter (\<lambda>f. fl_mode f = m \<and> fl_filledAt f \<ge> dayStart t) (db_fills db)) @
      map lr_realizedPnlUsd (filter (\<lambda>r. lr_mode r = m \<and> lr_at r \<ge> dayStart t) (db_lp_pnl db)))"

type_synonym price_lookup = "chain_id \<Rightarrow> string \<Rightarrow> string option"

record marked_position =
  mp_row :: position_row
  mp_markUsd :: "string option"
  mp_unrealizedUsd :: "string option"

record mark_totals =
  mt_value :: int
  mt_deployed :: int
  mt_unrealized :: int
  mt_unpriced :: "(chain_id \<times> string) list"

record portfolio_mark =
  pm_mode :: mode
  pm_positionsValueUsd :: "string option"
  pm_deployedUsd :: string
  pm_unrealizedPnlUsd :: "string option"
  pm_realizedPnlTodayUsd :: string
  pm_unpriced :: "(chain_id \<times> string) list"
  pm_positions :: "marked_position list"

definition isQuoteAsset :: "chain_id \<Rightarrow> string \<Rightarrow> bool" where
  "isQuoteAsset c token \<longleftrightarrow> isNativeToken c token \<or> isStablecoin c token"

text \<open>A price the mark can use: present, well formed and positive.\<close>

definition quoted_price :: "string option \<Rightarrow> int option" where
  "quoted_price q = (case q of None \<Rightarrow> None | Some s \<Rightarrow>
     (case priceToAtto s of Inl _ \<Rightarrow> None | Inr atto \<Rightarrow> if atto \<le> 0 then None else Some atto))"

definition mark_one :: "price_lookup \<Rightarrow> mark_totals \<Rightarrow> position_row \<Rightarrow> (mark_totals \<times> marked_position) result" where
  "mark_one price acc r =
     sbind (usdToMicros (pr_costBasisUsd r)) (\<lambda>basis.
       let acc = (if isQuoteAsset (pr_chain r) (pr_token r) then acc
                  else acc\<lparr>mt_deployed := mt_deployed acc + basis\<rparr>) in
       case quoted_price (price (pr_chain r) (pr_token r)) of
         None \<Rightarrow> Inr (acc\<lparr>mt_unpriced := mt_unpriced acc @ [(pr_chain r, pr_token r)]\<rparr>,
                 \<lparr>mp_row = r, mp_markUsd = None, mp_unrealizedUsd = None\<rparr>)
       | Some atto \<Rightarrow>
           sbind (amountToBigint (pr_amount r)) (\<lambda>amount.
           sbind (nativeToUsdMicros amount (pr_decimals r) atto RFloor) (\<lambda>markUsd.
             let pnl = markUsd - basis in
             Inr (acc\<lparr>mt_value := mt_value acc + markUsd, mt_unrealized := mt_unrealized acc + pnl\<rparr>,
                  \<lparr>mp_row = r, mp_markUsd = Some (microsToUsd markUsd),
                   mp_unrealizedUsd = Some (microsToUsd pnl)\<rparr>))))"

fun mark_all :: "price_lookup \<Rightarrow> mark_totals \<Rightarrow> position_row list \<Rightarrow>
    (mark_totals \<times> marked_position list) result" where
  "mark_all price acc [] = Inr (acc, [])"
| "mark_all price acc (r # rs) =
     sbind (mark_one price acc r) (\<lambda>(acc, m).
     sbind (mark_all price acc rs) (\<lambda>(acc, ms). Inr (acc, m # ms)))"

definition mark :: "ledger_db \<Rightarrow> int \<Rightarrow> mode \<Rightarrow> price_lookup \<Rightarrow> portfolio_mark result" where
  "mark db t m price =
     sbind (mark_all price \<lparr>mt_value = 0, mt_deployed = 0, mt_unrealized = 0, mt_unpriced = []\<rparr>
              (listPositions db m)) (\<lambda>(tot, marked).
     sbind (realizedPnlToday db m t) (\<lambda>realized.
       let complete = mt_unpriced tot = [] in
       Inr \<lparr>pm_mode = m,
            pm_positionsValueUsd = (if complete then Some (microsToUsd (mt_value tot)) else None),
            pm_deployedUsd = microsToUsd (mt_deployed tot),
            pm_unrealizedPnlUsd = (if complete then Some (microsToUsd (mt_unrealized tot)) else None),
            pm_realizedPnlTodayUsd = microsToUsd realized,
            pm_unpriced = mt_unpriced tot, pm_positions = marked\<rparr>))"

text \<open>ON CONFLICT DO NOTHING: the first mark of a day stays.\<close>

definition recordDayStart :: "ledger_db \<Rightarrow> mode \<Rightarrow> string \<Rightarrow> int \<Rightarrow> ledger_db" where
  "recordDayStart db m unrealizedUsd t = (case db_days db (m, dayStart t) of
     None \<Rightarrow> db\<lparr>db_days := (db_days db)((m, dayStart t) \<mapsto> unrealizedUsd)\<rparr>
   | Some _ \<Rightarrow> db)"

definition risk_position :: "marked_position \<Rightarrow> position" where
  "risk_position p = \<lparr>pos_chain = pr_chain (mp_row p), pos_token = pr_token (mp_row p),
     pos_amount = pr_amount (mp_row p), pos_costBasisUsd = pr_costBasisUsd (mp_row p),
     pos_openedAt = pr_openedAt (mp_row p)\<rparr>"

definition toRiskLedger ::
  "ledger_db \<Rightarrow> int \<Rightarrow> mode \<Rightarrow> price_lookup \<Rightarrow> int \<Rightarrow> (ledger_db \<times> risk_ledger) result" where
  "toRiskLedger db clock m price t =
     sbind (mark db clock m price) (\<lambda>marked.
       let anchor = db_days db (m, dayStart t);
           u = pm_unrealizedPnlUsd marked;
           (db', start) = (case (anchor, u) of
              (None, Some v) \<Rightarrow> (recordDayStart db m v t, Some v)
            | _ \<Rightarrow> (db, anchor))
       in Inr (db', \<lparr>dayStartUtcMs = dayStart t,
            deployedUsd = pm_deployedUsd marked,
            realizedPnlTodayUsd = pm_realizedPnlTodayUsd marked,
            unrealizedPnlUsd = (case u of None \<Rightarrow> ''0'' | Some v \<Rightarrow> v),
            unrealizedPnlAtDayStartUsd = (case start of Some s \<Rightarrow> s
              | None \<Rightarrow> (case u of None \<Rightarrow> ''0'' | Some v \<Rightarrow> v)),
            positions = map risk_position (pm_positions marked),
            lpRebalancesToday = Map.empty\<rparr>))"

end
