(* ===== verification/Risk_Gate.thy ===== *)
theory Risk_Gate
  imports Auth Ledger
begin

text \<open>
  \<open>src/runtime/src/risk/store.ts\<close> and \<open>src/runtime/src/risk/gate.ts\<close>: the stored risk policy and the
  stateful wrapper around the risk engine, over the database the state store, the sign-in service and
  the ledger keep. JSON columns hold the values that were written (a stored policy that is not of the
  policy's shape is \<open>None\<close>), times are epoch milliseconds, and one call reads the clock once. The hook
  that \<open>src/runtime/src/core/services.ts\<close> registers on policy changes is part of \<open>updatePolicy\<close>.

  The policy hash (SHA-256 of the canonical JSON), the libraries the engine uses and the schema library's
  abort behaviour are parameters (\<open>gate_env\<close>).

  A call that raises may have written something before, so the operations that can raise after a write
  return the database next to the result.
\<close>

definition DECISION_RETENTION_MS :: int where "DECISION_RETENTION_MS = 24 * 60 * 60 * 1000"

record gate_env =
  ge_externals :: externals
  ge_aborts :: "risk_policy \<Rightarrow> bool"
  ge_policyHash :: "risk_policy \<Rightarrow> string"

record decision_row =
  dr_actionId :: string
  dr_idempotencyKey :: string
  dr_decisionCycleId :: string
  dr_action :: proposed_action
  dr_decision :: risk_decision
  dr_snapshot :: market_snapshot
  dr_createdAt :: int
  dr_expiresAt :: int

record gate_db = auth_db +
  gd_policy :: "(int \<times> risk_policy option) option"
  gd_decisions :: "decision_row list"
  gd_cooldowns :: "string \<rightharpoonup> int"
  gd_lastAny :: "int option"
  gd_ledger :: ledger_db

section \<open>The policy store\<close>

definition policy_exists :: "'a gate_db_scheme \<Rightarrow> bool" where
  "policy_exists db \<longleftrightarrow> gd_policy db \<noteq> None"

definition policy_write :: "risk_policy \<Rightarrow> int \<Rightarrow> 'a gate_db_scheme \<Rightarrow> 'a gate_db_scheme" where
  "policy_write p v db = db\<lparr>gd_policy := Some (v, Some p)\<rparr>"

definition policy_initialize ::
  "int \<Rightarrow> chain_id list \<Rightarrow> 'a gate_db_scheme \<Rightarrow> ('a gate_db_scheme \<times> risk_policy) result" where
  "policy_initialize t cs db = (if policy_exists db
     then Inl (AppError E_CONFLICT ''A risk policy already exists'')
     else case defaultRiskPolicy cs of
         None \<Rightarrow> Inl (AppError E_SCHEMA_INVALID ''Risk policy is not valid'')
       | Some p \<Rightarrow> Inr (audit_append t (audit_event_of Cat_risk ''policy.initialized'' Au_ok
           ''Default risk policy created'' ''system'' None) (policy_write p 1 db), p))"

definition policy_get :: "gate_env \<Rightarrow> 'a gate_db_scheme \<Rightarrow> risk_policy result" where
  "policy_get E db = (case gd_policy db of
     None \<Rightarrow> Inl (AppError E_NOT_FOUND ''No risk policy has been configured yet'')
   | Some (v, stored) \<Rightarrow>
       (case (case stored of None \<Rightarrow> Inl (AppError E_SCHEMA_INVALID ''Risk policy is not valid'')
              | Some p \<Rightarrow> parseRiskPolicy (ge_aborts E) p) of
          Inl e \<Rightarrow> Inl (AppError E_SCHEMA_INVALID
            ''The stored risk policy is invalid; ATRA will not run with unverified limits'')
        | Inr p \<Rightarrow> Inr p))"

definition policy_getWithHash :: "gate_env \<Rightarrow> 'a gate_db_scheme \<Rightarrow> (risk_policy \<times> string) result" where
  "policy_getWithHash E db = sbind (policy_get E db) (\<lambda>p. Inr (p, ge_policyHash E p))"

definition policy_version :: "'a gate_db_scheme \<Rightarrow> int" where
  "policy_version db = (case gd_policy db of None \<Rightarrow> 0 | Some (v, _) \<Rightarrow> v)"

definition on_policy_changed :: "int \<Rightarrow> 'a gate_db_scheme \<Rightarrow> 'a gate_db_scheme" where
  "on_policy_changed t db =
     (if getMode db = LIVE then fst (revertToPaper t ''system'' ''risk policy changed'' db) else db)"

definition updatePolicy ::
  "gate_env \<Rightarrow> int \<Rightarrow> risk_policy option \<Rightarrow> string \<Rightarrow> 'a gate_db_scheme \<Rightarrow> ('a gate_db_scheme \<times> risk_policy) result" where
  "updatePolicy E t candidate actor db =
     sbind (case candidate of None \<Rightarrow> Inl (AppError E_SCHEMA_INVALID ''Risk policy is not valid'')
            | Some p \<Rightarrow> parseRiskPolicy (ge_aborts E) p) (\<lambda>p.
     sbind (if policy_exists db then sbind (policy_get E db) (\<lambda>q. Inr (Some q)) else Inr None) (\<lambda>previous.
       Inr (on_policy_changed t (audit_append t (audit_event_of Cat_risk ''policy.updated'' Au_ok
           ''Risk policy updated'' actor None) (policy_write p (policy_version db + 1) db)), p)))"

section \<open>Decisions\<close>

definition pruneExpired :: "int \<Rightarrow> 'a gate_db_scheme \<Rightarrow> 'a gate_db_scheme" where
  "pruneExpired t db = db\<lparr>gd_decisions := filter (\<lambda>r. \<not> dr_expiresAt r < t) (gd_decisions db)\<rparr>"

definition findByIdempotencyKey :: "'a gate_db_scheme \<Rightarrow> string \<Rightarrow> decision_row option" where
  "findByIdempotencyKey db k = List.find (\<lambda>r. dr_idempotencyKey r = k) (gd_decisions db)"

definition insertDecision :: "'a gate_db_scheme \<Rightarrow> decision_row \<Rightarrow> 'a gate_db_scheme" where
  "insertDecision db r = db\<lparr>gd_decisions := gd_decisions db @ [r]\<rparr>"

definition runtimeState ::
  "'a gate_db_scheme \<Rightarrow> int \<Rightarrow> price_lookup \<Rightarrow> mode option \<Rightarrow> ('a gate_db_scheme \<times> runtime_state) result" where
  "runtimeState db t price m =
     (let effectiveMode = (case m of None \<Rightarrow> getMode db | Some m \<Rightarrow> m) in
      sbind (toRiskLedger (gd_ledger db) t effectiveMode price t) (\<lambda>(lg', lg).
        let db = db\<lparr>gd_ledger := lg'\<rparr>
        in Inr (db, toRiskState db t t (Some (gd_cooldowns db)) (gd_lastAny db) (Some lg))))"

definition gate_evaluate ::
  "gate_env \<Rightarrow> int \<Rightarrow> proposed_action \<Rightarrow> market_snapshot \<Rightarrow> price_lookup \<Rightarrow> 'a gate_db_scheme \<Rightarrow>
     'a gate_db_scheme \<times> risk_decision result" where
  "gate_evaluate E t act snap price db = (case policy_getWithHash E db of
     Inl e \<Rightarrow> (db, Inl e)
   | Inr (p, hash) \<Rightarrow> (case runtimeState db t price (Some (a_mode act)) of
       Inl e \<Rightarrow> (db, Inl e)
     | Inr (db', st) \<Rightarrow> (db', evaluate (ge_externals E)
         \<lparr>now = t, policy = p, policyHash = hash, action = act, state = st, snapshot = snap\<rparr>)))"

definition preview ::
  "gate_env \<Rightarrow> int \<Rightarrow> proposed_action \<Rightarrow> market_snapshot \<Rightarrow> price_lookup \<Rightarrow> 'a gate_db_scheme \<Rightarrow>
     'a gate_db_scheme \<times> risk_decision result" where
  "preview E t act snap price db = gate_evaluate E t act snap price db"

text \<open>A decision's code, "ALLOWED" when it has none.\<close>

fun rejection_str :: "rejection_code \<Rightarrow> string" where
  "rejection_str SCHEMA_INVALID = ''SCHEMA_INVALID''"
| "rejection_str EMERGENCY_STOP = ''EMERGENCY_STOP''"
| "rejection_str GLOBAL_PAUSE = ''GLOBAL_PAUSE''"
| "rejection_str LIVE_NOT_ACTIVATED = ''LIVE_NOT_ACTIVATED''"
| "rejection_str MODE_MISMATCH = ''MODE_MISMATCH''"
| "rejection_str CHAIN_UNSUPPORTED = ''CHAIN_UNSUPPORTED''"
| "rejection_str DATA_STALE = ''DATA_STALE''"
| "rejection_str TOKEN_NOT_ALLOWLISTED = ''TOKEN_NOT_ALLOWLISTED''"
| "rejection_str PROTOCOL_NOT_ALLOWLISTED = ''PROTOCOL_NOT_ALLOWLISTED''"
| "rejection_str CONTRACT_UNKNOWN = ''CONTRACT_UNKNOWN''"
| "rejection_str REDUCE_ONLY_MISMATCH = ''REDUCE_ONLY_MISMATCH''"
| "rejection_str SIZE_EXCEEDS_MAX_TRADE = ''SIZE_EXCEEDS_MAX_TRADE''"
| "rejection_str DAILY_LOSS_BREACHED = ''DAILY_LOSS_BREACHED''"
| "rejection_str TOTAL_DEPLOYED_BREACHED = ''TOTAL_DEPLOYED_BREACHED''"
| "rejection_str SLIPPAGE_EXCEEDS_MAX = ''SLIPPAGE_EXCEEDS_MAX''"
| "rejection_str QUOTE_OFF_MARKET = ''QUOTE_OFF_MARKET''"
| "rejection_str FEE_EXCEEDS_MAX = ''FEE_EXCEEDS_MAX''"
| "rejection_str LIQUIDITY_BELOW_MIN = ''LIQUIDITY_BELOW_MIN''"
| "rejection_str COOLDOWN_ACTIVE = ''COOLDOWN_ACTIVE''"
| "rejection_str BALANCE_INSUFFICIENT = ''BALANCE_INSUFFICIENT''"
| "rejection_str DUPLICATE_ACTION = ''DUPLICATE_ACTION''"
| "rejection_str POOL_NOT_ALLOWLISTED = ''POOL_NOT_ALLOWLISTED''"
| "rejection_str LP_CAPITAL_EXCEEDS_MAX = ''LP_CAPITAL_EXCEEDS_MAX''"
| "rejection_str POOL_LIQUIDITY_BELOW_MIN = ''POOL_LIQUIDITY_BELOW_MIN''"
| "rejection_str REBALANCE_LIMIT_REACHED = ''REBALANCE_LIMIT_REACHED''"
| "rejection_str FEE_BELOW_CLAIM_THRESHOLD = ''FEE_BELOW_CLAIM_THRESHOLD''"

definition persist ::
  "int \<Rightarrow> proposed_action \<Rightarrow> market_snapshot \<Rightarrow> risk_decision \<Rightarrow> 'a gate_db_scheme \<Rightarrow> 'a gate_db_scheme result" where
  "persist t act snap d db =
     (if actionId act \<in> dr_actionId ` set (gd_decisions db) \<or>
         idempotencyKey act \<in> dr_idempotencyKey ` set (gd_decisions db)
      then Inl (JsError ''UNIQUE constraint failed: action_decisions'')
      else Inr (audit_append t
        \<lparr>ae_category = Cat_risk, ae_action = (if allowed d then ''decision.allowed'' else ''decision.rejected''),
         ae_status = (if allowed d then Au_ok else Au_rejected),
         ae_summary = (if allowed d
           then ''Allowed '' @ kind_str (a_kind act) @ '' on '' @ chain_str (a_chain act) @ '' ('' @ a_protocol act @ '')''
           else ''Rejected '' @ kind_str (a_kind act) @ '' on '' @ chain_str (a_chain act) @ '': '' @
             (case d_code d of None \<Rightarrow> ''ALLOWED'' | Some c \<Rightarrow> rejection_str c)),
         ae_chain = Some (a_chain act), ae_actor = ''agent:'' @ source_str (a_source act),
         ae_mode = Some (a_mode act), ae_correlationId = Some (decisionCycleId act)\<rparr>
        (insertDecision db \<lparr>dr_actionId = actionId act, dr_idempotencyKey = idempotencyKey act,
           dr_decisionCycleId = decisionCycleId act, dr_action = act, dr_decision = d, dr_snapshot = snap,
           dr_createdAt = t, dr_expiresAt = t + DECISION_RETENTION_MS\<rparr>)))"

definition replay_decision :: "int \<Rightarrow> proposed_action \<Rightarrow> risk_decision \<Rightarrow> risk_decision" where
  "replay_decision t act d = d\<lparr>d_actionId := actionId act, evaluatedAt := t, allowed := False,
     d_code := Some DUPLICATE_ACTION,
     d_reason := ''duplicate of '' @ d_actionId d @ '': the same intent was already decided'',
     checks := [], replayOf := Some (d_actionId d)\<rparr>"

definition decide ::
  "gate_env \<Rightarrow> int \<Rightarrow> proposed_action \<Rightarrow> market_snapshot \<Rightarrow> price_lookup \<Rightarrow> 'a gate_db_scheme \<Rightarrow>
     'a gate_db_scheme \<times> risk_decision result" where
  "decide E t act snap price db = (let db = pruneExpired t db in
     case findByIdempotencyKey db (idempotencyKey act) of
       Some r \<Rightarrow> (db, Inr (replay_decision t act (dr_decision r)))
     | None \<Rightarrow> (case gate_evaluate E t act snap price db of
         (db, Inl e) \<Rightarrow> (db, Inl e)
       | (db, Inr d) \<Rightarrow> (case persist t act snap d db of
           Inl e \<Rightarrow> (db, Inl e)
         | Inr db \<Rightarrow> (db, Inr d))))"

section \<open>Cooldowns and reads\<close>

definition markDispatched :: "int \<Rightarrow> proposed_action \<Rightarrow> 'a gate_db_scheme \<Rightarrow> 'a gate_db_scheme" where
  "markDispatched t act db = (if a_kind act = Approve then db
     else db\<lparr>gd_cooldowns := (gd_cooldowns db)
         (marketKey (a_chain act) (tr_address (tokenIn act)) (tr_address (tokenOut act)) \<mapsto> t),
       gd_lastAny := Some t\<rparr>)"

definition listDecisions :: "'a gate_db_scheme \<Rightarrow> int \<Rightarrow> decision_row list" where
  "listDecisions db limit = take (nat (min (max limit 1) 500)) (rev (sort_key dr_createdAt (gd_decisions db)))"

definition getDecision :: "'a gate_db_scheme \<Rightarrow> string \<Rightarrow> risk_decision option" where
  "getDecision db aid = map_option dr_decision (List.find (\<lambda>r. dr_actionId r = aid) (gd_decisions db))"

interpretation dec: row_table gd_decisions dr_idempotencyKey findByIdempotencyKey insertDecision
  by unfold_locales (simp_all add: findByIdempotencyKey_def insertDecision_def)

end
