(* ===== verification/Trades.thy ===== *)
theory Trades
  imports Risk_Gate
begin

text \<open>
  \<open>src/runtime/src/trading/trades.ts\<close> and the \<open>trades\<close> table of
  \<open>src/runtime/src/db/migrations/002_trading.sql\<close>: one row per proposal, walking a fixed state
  machine. The database is the gate's with one more table. Times are epoch milliseconds and an
  operation reads the clock once; the identifier \<open>randomUUID\<close> makes is an argument; the
  \<open>route\<close> document is the list of its entries. Log lines are not modelled.
\<close>

section \<open>Rows\<close>

datatype trade_status =
    T_proposed | T_rejected | T_allowed | T_dispatched | T_signed | T_broadcast | T_filled | T_failed | T_cancelled

datatype trade_side = Side_open | Side_reduce | Side_close | Side_swap | Side_approve

datatype route_value = Route_text string | Route_flag bool

fun TRANSITIONS :: "trade_status \<Rightarrow> trade_status list" where
  "TRANSITIONS T_proposed = [T_rejected, T_allowed]"
| "TRANSITIONS T_allowed = [T_dispatched, T_cancelled]"
| "TRANSITIONS T_dispatched = [T_signed, T_filled, T_failed, T_cancelled]"
| "TRANSITIONS T_signed = [T_broadcast, T_failed]"
| "TRANSITIONS T_broadcast = [T_filled, T_failed]"
| "TRANSITIONS T_rejected = []"
| "TRANSITIONS T_filled = []"
| "TRANSITIONS T_failed = []"
| "TRANSITIONS T_cancelled = []"

fun trade_status_str :: "trade_status \<Rightarrow> string" where
  "trade_status_str T_proposed = ''proposed''"
| "trade_status_str T_rejected = ''rejected''"
| "trade_status_str T_allowed = ''allowed''"
| "trade_status_str T_dispatched = ''dispatched''"
| "trade_status_str T_signed = ''signed''"
| "trade_status_str T_broadcast = ''broadcast''"
| "trade_status_str T_filled = ''filled''"
| "trade_status_str T_failed = ''failed''"
| "trade_status_str T_cancelled = ''cancelled''"

record trade_prices =
  tp_tokenInUsd :: string
  tp_tokenOutUsd :: string
  tp_nativeUsd :: string

text \<open>The three price columns are always stored together, so they are one optional value.\<close>

record trade_row =
  td_id :: string
  td_actionId :: string
  td_decisionCycleId :: string
  td_mode :: mode
  td_chain :: chain_id
  td_protocol :: string
  td_kind :: action_kind
  td_side :: trade_side
  td_marketKey :: string
  td_tokenIn :: string
  td_tokenOut :: string
  td_tokenInDecimals :: "int option"
  td_tokenOutDecimals :: "int option"
  td_quotePrices :: "trade_prices option"
  td_amountIn :: string
  td_expectedOut :: "string option"
  td_minOut :: "string option"
  td_filledOut :: "string option"
  td_feeNative :: "string option"
  td_feeUsd :: "string option"
  td_amountInUsd :: "string option"
  td_status :: trade_status
  td_rejectionCode :: "rejection_code option"
  td_txHash :: "string option"
  td_route :: "(string \<times> route_value) list"
  td_researchId :: "string option"
  td_rationale :: "string option"
  td_error :: "string option"
  td_proposedAt :: int
  td_updatedAt :: int
  td_filledAt :: "int option"

record trade_db = gate_db +
  xd_trades :: "trade_row list"

section \<open>Statements\<close>

definition getTrade :: "'a trade_db_scheme \<Rightarrow> string \<Rightarrow> trade_row option" where
  "getTrade db i = List.find (\<lambda>r. td_id r = i) (xd_trades db)"

definition insertTrade :: "'a trade_db_scheme \<Rightarrow> trade_row \<Rightarrow> 'a trade_db_scheme" where
  "insertTrade db r = db\<lparr>xd_trades := xd_trades db @ [r]\<rparr>"

definition updateTrade :: "'a trade_db_scheme \<Rightarrow> string \<Rightarrow> (trade_row \<Rightarrow> trade_row) \<Rightarrow> 'a trade_db_scheme" where
  "updateTrade db i f = db\<lparr>xd_trades := map (\<lambda>r. if td_id r = i then f r else r) (xd_trades db)\<rparr>"

definition getByAction :: "'a trade_db_scheme \<Rightarrow> string \<Rightarrow> trade_row option" where
  "getByAction db a = List.find (\<lambda>r. td_actionId r = a) (xd_trades db)"

interpretation trd: upd_table xd_trades td_id getTrade insertTrade updateTrade
  by unfold_locales (simp_all add: getTrade_def insertTrade_def updateTrade_def)

section \<open>Operations\<close>

definition trade_of ::
  "string \<Rightarrow> int \<Rightarrow> proposed_action \<Rightarrow> trade_side \<Rightarrow> string option \<Rightarrow> (string \<times> route_value) list \<Rightarrow> trade_row" where
  "trade_of i t act side research route = \<lparr>td_id = i, td_actionId = actionId act,
     td_decisionCycleId = decisionCycleId act, td_mode = a_mode act, td_chain = a_chain act,
     td_protocol = a_protocol act, td_kind = a_kind act, td_side = side,
     td_marketKey = marketKey (a_chain act) (tr_address (tokenIn act)) (tr_address (tokenOut act)),
     td_tokenIn = tr_address (tokenIn act), td_tokenOut = tr_address (tokenOut act),
     td_tokenInDecimals = Some (tr_decimals (tokenIn act)), td_tokenOutDecimals = Some (tr_decimals (tokenOut act)),
     td_quotePrices = None, td_amountIn = amountIn act,
     td_expectedOut = map_option expectedAmountOut (a_quote act), td_minOut = map_option minAmountOut (a_quote act),
     td_filledOut = None, td_feeNative = None, td_feeUsd = None, td_amountInUsd = None,
     td_status = T_proposed, td_rejectionCode = None, td_txHash = None, td_route = route,
     td_researchId = research, td_rationale = rationale act, td_error = None,
     td_proposedAt = t, td_updatedAt = t, td_filledAt = None\<rparr>"

text \<open>The primary key and the unique action id are the constraints the insert can break.\<close>

definition trade_propose ::
  "string \<Rightarrow> int \<Rightarrow> proposed_action \<Rightarrow> trade_side \<Rightarrow> string option \<Rightarrow> (string \<times> route_value) list \<Rightarrow>
     'a trade_db_scheme \<Rightarrow> ('a trade_db_scheme \<times> trade_row) result" where
  "trade_propose i t act side research route db =
     (if i \<in> td_id ` set (xd_trades db) \<or> actionId act \<in> td_actionId ` set (xd_trades db)
      then Inl (JsError ''UNIQUE constraint failed: trades'')
      else let r = trade_of i t act side research route in Inr (insertTrade db r, r))"

definition transition ::
  "int \<Rightarrow> string \<Rightarrow> trade_status \<Rightarrow> (trade_row \<Rightarrow> trade_row) \<Rightarrow> 'a trade_db_scheme \<Rightarrow>
     ('a trade_db_scheme \<times> trade_row) result" where
  "transition t i target cols db = (case getTrade db i of
     None \<Rightarrow> Inl (AppError E_NOT_FOUND ''No such trade'')
   | Some current \<Rightarrow>
       if target \<notin> set (TRANSITIONS (td_status current))
       then Inl (AppError E_CONFLICT (''A trade cannot move from '' @ trade_status_str (td_status current) @
              '' to '' @ trade_status_str target))
       else let f = (\<lambda>r. cols (r\<lparr>td_status := target, td_updatedAt := t\<rparr>))
            in Inr (updateTrade db i f, f current))"

definition trade_decide ::
  "int \<Rightarrow> string \<Rightarrow> risk_decision \<Rightarrow> 'a trade_db_scheme \<Rightarrow> ('a trade_db_scheme \<times> trade_row) result" where
  "trade_decide t i d db = (if allowed d
     then transition t i T_allowed
       (\<lambda>r. r\<lparr>td_amountInUsd := map_option risk_derived.amountInUsd (derived d), td_feeUsd := map_option risk_derived.feeUsd (derived d)\<rparr>) db
     else transition t i T_rejected (\<lambda>r. r\<lparr>td_rejectionCode := d_code d\<rparr>) db)"

text \<open>Not a transition: the status is untouched.\<close>

definition recordQuotePrices :: "int \<Rightarrow> string \<Rightarrow> trade_prices \<Rightarrow> 'a trade_db_scheme \<Rightarrow> 'a trade_db_scheme" where
  "recordQuotePrices t i p db = updateTrade db i (\<lambda>r. r\<lparr>td_quotePrices := Some p, td_updatedAt := t\<rparr>)"

definition trade_markDispatched :: "int \<Rightarrow> string \<Rightarrow> 'a trade_db_scheme \<Rightarrow> ('a trade_db_scheme \<times> trade_row) result" where
  "trade_markDispatched t i db = transition t i T_dispatched (\<lambda>r. r) db"

definition markSigned :: "int \<Rightarrow> string \<Rightarrow> string \<Rightarrow> 'a trade_db_scheme \<Rightarrow> ('a trade_db_scheme \<times> trade_row) result" where
  "markSigned t i h db = transition t i T_signed (\<lambda>r. r\<lparr>td_txHash := Some h\<rparr>) db"

definition markBroadcast :: "int \<Rightarrow> string \<Rightarrow> 'a trade_db_scheme \<Rightarrow> ('a trade_db_scheme \<times> trade_row) result" where
  "markBroadcast t i db = transition t i T_broadcast (\<lambda>r. r) db"

text \<open>An absent or empty hash leaves the column as it is.\<close>

definition markFilled ::
  "int \<Rightarrow> string \<Rightarrow> string \<Rightarrow> string option \<Rightarrow> string \<Rightarrow> string option \<Rightarrow> 'a trade_db_scheme \<Rightarrow>
     ('a trade_db_scheme \<times> trade_row) result" where
  "markFilled t i filledOut feeNative fee txHash db = transition t i T_filled
     (\<lambda>r. r\<lparr>td_filledOut := Some filledOut, td_feeNative := feeNative, td_feeUsd := Some fee,
        td_txHash := (case txHash of Some h \<Rightarrow> if h = '''' then td_txHash r else Some h | None \<Rightarrow> td_txHash r),
        td_filledAt := Some t\<rparr>) db"

definition markFailed :: "int \<Rightarrow> string \<Rightarrow> string \<Rightarrow> 'a trade_db_scheme \<Rightarrow> ('a trade_db_scheme \<times> trade_row) result" where
  "markFailed t i reason db = transition t i T_failed (\<lambda>r. r\<lparr>td_error := Some (take 500 reason)\<rparr>) db"

definition markCancelled :: "int \<Rightarrow> string \<Rightarrow> string \<Rightarrow> 'a trade_db_scheme \<Rightarrow> ('a trade_db_scheme \<times> trade_row) result" where
  "markCancelled t i reason db = transition t i T_cancelled (\<lambda>r. r\<lparr>td_error := Some (take 500 reason)\<rparr>) db"

definition listTrades :: "'a trade_db_scheme \<Rightarrow> mode option \<Rightarrow> trade_status option \<Rightarrow> int option \<Rightarrow> trade_row list" where
  "listTrades db m s limit = take (nat (min (max (case limit of None \<Rightarrow> 50 | Some n \<Rightarrow> n) 1) 500))
     (rev (sort_key td_proposedAt (filter (\<lambda>r. clause m (\<lambda>m. td_mode r = m) \<and> clause s (\<lambda>s. td_status r = s))
        (xd_trades db))))"

definition in_flight :: "trade_row \<Rightarrow> bool" where
  "in_flight r \<longleftrightarrow> td_status r \<in> {T_dispatched, T_signed, T_broadcast}"

definition listInFlight :: "'a trade_db_scheme \<Rightarrow> trade_row list" where
  "listInFlight db = sort_key td_proposedAt (filter in_flight (xd_trades db))"

end
