(* ===== verification/Paper_Executor.thy ===== *)
theory Paper_Executor
  imports Trades
begin

text \<open>
  \<open>src/runtime/src/execution/types.ts\<close> and \<open>src/runtime/src/execution/paper.ts\<close>: quotes and
  outcomes, and the executor that simulates a fill without touching a chain. One call is synchronous and
  reads the clock once; \<open>u1\<close> and \<open>u2\<close> are the identifiers the ledger makes. An exception inside the
  executor's \<open>try\<close> keeps what was written before it. The error messages (\<open>errorMessage\<close>, which redacts
  secrets) are a parameter.
\<close>

record exec_quote =
  eq_chain :: chain_id
  eq_protocol :: string
  eq_contract :: string
  eq_programIds :: "string list option"
  eq_tokenIn :: token_ref
  eq_tokenOut :: token_ref
  eq_amountIn :: string
  eq_expectedAmountOut :: string
  eq_minAmountOut :: string
  eq_slippageBps :: int
  eq_priceImpactBps :: int
  eq_quotedAt :: int
  eq_source :: string
  eq_marketId :: string
  eq_fee_estimatedAt :: int
  eq_fee_detail :: fee_detail

record exec_outcome =
  oc_actionId :: string
  oc_mode :: mode
  oc_filled :: bool
  oc_amountOut :: "string option"
  oc_feeUsd :: string
  oc_txHash :: "string option"
  oc_error :: "string option"
  oc_filledAt :: int

definition PAPER_EXTRA_SLIPPAGE_BPS :: int where "PAPER_EXTRA_SLIPPAGE_BPS = 5"

definition symbolOf :: "chain_id \<Rightarrow> string \<Rightarrow> string" where
  "symbolOf c address = (case List.find (\<lambda>k. ti_address k = address) (ci_tokens (CHAINS c)) of
     Some k \<Rightarrow> ti_symbol k | None \<Rightarrow> take 10 address)"

definition agent_event :: "string \<Rightarrow> audit_status \<Rightarrow> string \<Rightarrow> mode \<Rightarrow> proposed_action \<Rightarrow> audit_event" where
  "agent_event name st summary m act = \<lparr>ae_category = Cat_trade, ae_action = name, ae_status = st,
     ae_summary = summary, ae_chain = Some (a_chain act), ae_actor = ''agent:'' @ source_str (a_source act),
     ae_mode = Some m, ae_correlationId = Some (decisionCycleId act)\<rparr>"

text \<open>Any error of the transition is swallowed.\<close>

definition paper_fail ::
  "int \<Rightarrow> string \<Rightarrow> proposed_action \<Rightarrow> string \<Rightarrow> 'a trade_db_scheme \<Rightarrow> 'a trade_db_scheme \<times> exec_outcome" where
  "paper_fail t i act reason db = (let db = (case markFailed t i reason db of Inl e \<Rightarrow> db | Inr (db', _) \<Rightarrow> db') in
     (audit_append t (agent_event ''trade.failed'' Au_failed (''PAPER execution failed: '' @ reason) PAPER act) db,
      \<lparr>oc_actionId = actionId act, oc_mode = PAPER, oc_filled = False, oc_amountOut = None,
       oc_feeUsd = ''0.000000'', oc_txHash = None, oc_error = Some reason, oc_filledAt = t\<rparr>))"

text \<open>The amount a paper fill receives, and its floor.\<close>

definition haircutBps :: "quote \<Rightarrow> int" where
  "haircutBps q = slippageBps q div 2 + PAPER_EXTRA_SLIPPAGE_BPS"

definition paper_amounts :: "quote \<Rightarrow> exec_quote \<Rightarrow> (int \<times> int) result" where
  "paper_amounts aq q = sbind (amountToBigint (eq_expectedAmountOut q)) (\<lambda>expected.
     sbind (bpsOf expected (haircutBps aq)) (\<lambda>cut.
     sbind (amountToBigint (eq_minAmountOut q)) (\<lambda>minOut. Inr (expected - cut, minOut))))"

definition paper_fee :: "proposed_action \<Rightarrow> trade_prices \<Rightarrow> (int \<times> int) result" where
  "paper_fee act px = sbind (feeInNativeUnits (fee_detail act)) (\<lambda>feeNative.
     sbind (priceToAtto (tp_nativeUsd px)) (\<lambda>p.
     sbind (nativeToUsdMicros feeNative (ci_nativeDecimals (CHAINS (a_chain act))) p RCeil) (\<lambda>fee. Inr (feeNative, fee))))"

definition paper_fill :: "string \<Rightarrow> proposed_action \<Rightarrow> trade_prices \<Rightarrow> int \<Rightarrow> int \<Rightarrow> int \<Rightarrow> record_fill_input" where
  "paper_fill i act px received fee t = \<lparr>rf_tradeId = i, rf_mode = PAPER, rf_chain = a_chain act,
     rf_tokenIn = tokenIn act, rf_tokenOut = tokenOut act, rf_amountIn = amountIn act, rf_amountOut = int_str received,
     rf_priceInUsd = tp_tokenInUsd px, rf_priceOutUsd = tp_tokenOutUsd px, rf_feeUsd = microsToUsd fee,
     rf_filledAt = t, rf_simulated = True\<rparr>"

definition paper_execute ::
  "(app_error \<Rightarrow> string) \<Rightarrow> int \<Rightarrow> string \<Rightarrow> string \<Rightarrow> string \<Rightarrow> proposed_action \<Rightarrow> exec_quote \<Rightarrow> trade_prices \<Rightarrow>
     'a trade_db_scheme \<Rightarrow> 'a trade_db_scheme \<times> exec_outcome result" where
  "paper_execute msg t u1 u2 i act q px db = (case a_quote act of
     None \<Rightarrow> apsnd Inr (paper_fail t i act ''paper execution requires a quote'' db)
   | Some aq \<Rightarrow> (case trade_markDispatched t i db of
       Inl e \<Rightarrow> (db, Inl e)
     | Inr (db, _) \<Rightarrow> let db = markDispatched t act db in
         (case paper_amounts aq q of
            Inl e \<Rightarrow> apsnd Inr (paper_fail t i act (msg e) db)
          | Inr (received, minOut) \<Rightarrow>
              if received < minOut
              then apsnd Inr (paper_fail t i act (''paper fill '' @ int_str received @
                     '' would be below minAmountOut '' @ int_str minOut) db)
              else (case paper_fee act px of
                Inl e \<Rightarrow> apsnd Inr (paper_fail t i act (msg e) db)
              | Inr (feeNative, fee) \<Rightarrow>
                  (case recordFill (gd_ledger db) t u1 u2 (paper_fill i act px received fee t) of
                     Inl e \<Rightarrow> apsnd Inr (paper_fail t i act (msg e) db)
                   | Inr (lg, _) \<Rightarrow> let db = db\<lparr>gd_ledger := lg\<rparr> in
                       (case markFilled t i (int_str received) (Some (int_str feeNative)) (microsToUsd fee) None db of
                          Inl e \<Rightarrow> apsnd Inr (paper_fail t i act (msg e) db)
                        | Inr (db, _) \<Rightarrow>
                            (audit_append t (agent_event ''trade.filled'' Au_ok
                               (''PAPER fill: '' @ amountIn act @ '' '' @ symbolOf (a_chain act) (tr_address (tokenIn act)) @
                                '' -> '' @ int_str received @ '' '' @ symbolOf (a_chain act) (tr_address (tokenOut act)))
                               PAPER act) db,
                             Inr \<lparr>oc_actionId = actionId act, oc_mode = PAPER, oc_filled = True,
                               oc_amountOut = Some (int_str received), oc_feeUsd = microsToUsd fee,
                               oc_txHash = None, oc_error = None, oc_filledAt = t\<rparr>)))))))"

end
