(* ===== verification/Live_Executor.thy ===== *)
theory Live_Executor
  imports Paper_Executor Solana_Message
begin

text \<open>
  \<open>src/runtime/src/execution/live.ts\<close>, the registry of adapters (\<open>execution/registry.ts\<close>) and the EVM signer
  (\<open>execution/evm/signer.ts\<close>): the only code that signs and broadcasts. A call is a coroutine; each
  definition is the synchronous code between two awaits and returns the database with what the coroutine
  does next: it waits again (\<open>live_call\<close> with a stage), it has finished, or its promise is rejected. The
  answer of the await is an argument, so is the clock (one reading per segment).

  Parameters (\<open>exec_env\<close>): base64, base58 and ed25519; the address of an EVM key and the signature and hash
  of an EVM transaction; the redacted message of an error. The wallet's address and the vault's answer to a
  request for the key (the secret and the recorded address, or an error while it is locked) are arguments.
\<close>

section \<open>Signing\<close>

record evm_fields =
  ev_chainId :: int
  ev_nonce :: int
  ev_to :: string
  ev_data :: string
  ev_value :: int
  ev_gas :: int
  ev_maxFeePerGas :: int
  ev_maxPriorityFeePerGas :: int

record evm_context =
  xc_chainId :: int
  xc_from :: string
  xc_to :: string
  xc_data :: string
  xc_value :: string
  xc_gas :: string
  xc_nonce :: int
  xc_maxFeePerGas :: string
  xc_maxPriorityFeePerGas :: string

datatype signing_context =
    Ctx_evm evm_context
  | Ctx_solana (ctx_feePayer: string) (ctx_transaction: string) (ctx_lastValid: "int option")

record exec_env =
  xe_codec :: codec
  xe_evmAddress :: "bytes \<Rightarrow> string"
  xe_evmSign :: "bytes \<Rightarrow> evm_fields \<Rightarrow> signed_transaction result"
  xe_message :: "app_error \<Rightarrow> string"

definition signEvmTransaction :: "exec_env \<Rightarrow> bytes \<Rightarrow> evm_fields \<Rightarrow> string \<Rightarrow> signed_transaction result" where
  "signEvmTransaction W secret flds expectedFrom =
     (if toLowerCase (xe_evmAddress W secret) \<noteq> toLowerCase expectedFrom
      then Inl (AppError E_CONFLICT ''Signing key does not match the sending address'')
      else xe_evmSign W secret flds)"

text \<open>The callback run inside the vault.\<close>

definition sign_context :: "exec_env \<Rightarrow> signing_context \<Rightarrow> bytes \<times> string \<Rightarrow> signed_transaction result" where
  "sign_context W ctx = (\<lambda>(secret, address). case ctx of
     Ctx_evm c \<Rightarrow>
       sbind (js_BigInt (xc_value c)) (\<lambda>val. sbind (js_BigInt (xc_gas c)) (\<lambda>gas.
       sbind (js_BigInt (xc_maxFeePerGas c)) (\<lambda>fee. sbind (js_BigInt (xc_maxPriorityFeePerGas c)) (\<lambda>tip.
         signEvmTransaction W secret \<lparr>ev_chainId = xc_chainId c, ev_nonce = xc_nonce c, ev_to = xc_to c,
           ev_data = xc_data c, ev_value = val, ev_gas = gas, ev_maxFeePerGas = fee,
           ev_maxPriorityFeePerGas = tip\<rparr> address))))
   | Ctx_solana _ transaction _ \<Rightarrow> signSolanaTransaction (xe_codec W) secret transaction address)"

section \<open>Calls\<close>

definition RECEIPT_POLL_MS :: int where "RECEIPT_POLL_MS = 3000"
definition RECEIPT_TIMEOUT_MS :: int where "RECEIPT_TIMEOUT_MS = 90000"

text \<open>The chains the production registry has an adapter for.\<close>

definition adapter_chains :: "chain_id list" where "adapter_chains = [Solana, Bsc, Base]"

text \<open>What the registry says of a chain: executable or not, and why.\<close>

fun adapter_protocol :: "chain_id \<Rightarrow> string option" where
  "adapter_protocol Solana = Some ''jupiter-v6''"
| "adapter_protocol Bsc = Some ''pancakeswap-v2''"
| "adapter_protocol Base = Some ''aerodrome-v2''"
| "adapter_protocol Robinhood = None"

definition executable_status :: "chain_id \<Rightarrow> bool \<times> string" where
  "executable_status c = (case adapter_protocol c of
     Some protocol \<Rightarrow> (True, protocol @ '' adapter'')
   | None \<Rightarrow> (False, ''Robinhood Chain has no execution adapter in this build: its only DEX is Uniswap v4 and '' @
       ''the Universal Router path is not implemented. The chain is observable (balances, market data, research) '' @
       ''but the agent cannot trade on it.''))"

record unsigned_transaction =
  ux_payload :: string
  ux_summary :: string

record simulation =
  si_ok :: bool
  si_error :: "string option"

datatype receipt_status = R_pending | R_confirmed | R_failed | R_unknown

record receipt =
  rc_hash :: string
  rc_status :: receipt_status
  rc_amountOut :: "string option"
  rc_feeNative :: "string option"
  rc_error :: "string option"

record booking =
  bk_tokenOut :: "string option"
  bk_prices :: trade_prices
  bk_decimals :: "(int \<times> int) option"

datatype live_stage =
    At_build exec_quote trade_prices
  | At_simulate unsigned_transaction booking
  | At_prepare unsigned_transaction booking
  | At_broadcast signed_transaction booking
  | At_receipt signed_transaction booking int "receipt option"

record live_call =
  lc_tradeId :: string
  lc_action :: proposed_action
  lc_startedAt :: int
  lc_stage :: live_stage

datatype live_progress = Waiting live_call | Finished exec_outcome | Raised app_error

definition NO_PRICES :: trade_prices where
  "NO_PRICES = \<lparr>tp_tokenInUsd = ''0'', tp_tokenOutUsd = ''0'', tp_nativeUsd = ''0''\<rparr>"

text \<open>The switches and the mode, read twice: before the dispatch and before the key is used.\<close>

definition refusal :: "proposed_action \<Rightarrow> 'a state_db_scheme \<Rightarrow> string option" where
  "refusal act db =
     (if a_mode act \<noteq> LIVE then Some (''action mode '' @ mode_str (a_mode act) @ '' is not LIVE'')
      else if getMode db \<noteq> LIVE then Some ''runtime is not in LIVE mode''
      else if sw_emergencyStop (getSwitches db) then Some ''emergency stop is active''
      else if sw_globalPause (getSwitches db) then Some ''runtime is paused'' else None)"

text \<open>Only a conflict of the transition is swallowed.\<close>

definition live_failed :: "proposed_action \<Rightarrow> string \<Rightarrow> int \<Rightarrow> string option \<Rightarrow> exec_outcome" where
  "live_failed act reason at' txHash = \<lparr>oc_actionId = actionId act, oc_mode = LIVE, oc_filled = False,
     oc_amountOut = None, oc_feeUsd = ''0.000000'', oc_txHash = txHash, oc_error = Some reason, oc_filledAt = at'\<rparr>"

definition live_fail ::
  "int \<Rightarrow> string \<Rightarrow> proposed_action \<Rightarrow> string \<Rightarrow> int \<Rightarrow> string option \<Rightarrow> 'a trade_db_scheme \<Rightarrow>
     'a trade_db_scheme \<times> live_progress" where
  "live_fail t i act reason at' txHash db =
     (let finish = (\<lambda>db. (audit_append t (agent_event ''trade.failed'' Au_failed (''LIVE execution failed: '' @ reason) LIVE act) db,
            Finished (live_failed act reason at' txHash)))
      in case markFailed t i reason db of
        Inr (db', _) \<Rightarrow> finish db'
      | Inl (AppError E_CONFLICT _) \<Rightarrow> finish db
      | Inl e \<Rightarrow> (db, Raised e))"

section \<open>Starting a call\<close>

text \<open>The common end of the two entry points: the wallet's address, then the call for what signing needs.\<close>

definition signAndSend ::
  "int \<Rightarrow> string result \<Rightarrow> string \<Rightarrow> proposed_action \<Rightarrow> unsigned_transaction \<Rightarrow> booking \<Rightarrow> 'a trade_db_scheme \<Rightarrow>
     'a trade_db_scheme \<times> live_progress" where
  "signAndSend t wallet i act tx b db = (db, case wallet of Inl e \<Rightarrow> Raised e
     | Inr _ \<Rightarrow> Waiting \<lparr>lc_tradeId = i, lc_action = act, lc_startedAt = t, lc_stage = At_prepare tx b\<rparr>)"

definition no_adapter :: "chain_id \<Rightarrow> string" where
  "no_adapter c = ''no execution adapter for '' @ chain_str c"

definition live_execute ::
  "int \<Rightarrow> string \<Rightarrow> proposed_action \<Rightarrow> exec_quote \<Rightarrow> trade_prices \<Rightarrow> 'a trade_db_scheme \<Rightarrow> 'a trade_db_scheme \<times> live_progress" where
  "live_execute t i act q px db =
     (if a_chain act \<notin> set adapter_chains then live_fail t i act (no_adapter (a_chain act)) t None db
      else case refusal act db of
        Some reason \<Rightarrow> live_fail t i act reason t None db
      | None \<Rightarrow> (let db = recordQuotePrices t i px db in
          case trade_markDispatched t i db of
            Inl e \<Rightarrow> (db, Raised e)
          | Inr (db, _) \<Rightarrow> (markDispatched t act db,
              Waiting \<lparr>lc_tradeId = i, lc_action = act, lc_startedAt = t, lc_stage = At_build q px\<rparr>)))"

definition live_executeApprove ::
  "int \<Rightarrow> string result \<Rightarrow> string \<Rightarrow> proposed_action \<Rightarrow> unsigned_transaction \<Rightarrow> string \<Rightarrow> 'a trade_db_scheme \<Rightarrow>
     'a trade_db_scheme \<times> live_progress" where
  "live_executeApprove t wallet i act tx nativeUsd db =
     (if a_chain act \<notin> set adapter_chains then live_fail t i act (no_adapter (a_chain act)) t None db
      else case refusal act db of
        Some reason \<Rightarrow> live_fail t i act reason t None db
      | None \<Rightarrow> (case trade_markDispatched t i db of
            Inl e \<Rightarrow> (db, Raised e)
          | Inr (db, _) \<Rightarrow> signAndSend t wallet i act tx
              \<lparr>bk_tokenOut = None, bk_prices = \<lparr>tp_tokenInUsd = ''0'', tp_tokenOutUsd = ''0'', tp_nativeUsd = nativeUsd\<rparr>,
               bk_decimals = None\<rparr> (markDispatched t act db)))"

section \<open>Before the key is used\<close>

definition feeOverrun :: "proposed_action \<Rightarrow> signing_context \<Rightarrow> string option result" where
  "feeOverrun act ctx = (case ctx of
     Ctx_solana _ _ _ \<Rightarrow> Inr None
   | Ctx_evm c \<Rightarrow> sbind (feeInNativeUnits (fee_detail act)) (\<lambda>approved.
       sbind (js_BigInt (xc_gas c)) (\<lambda>gas. sbind (js_BigInt (xc_maxFeePerGas c)) (\<lambda>price.
         let signing = gas * price in
         Inr (if signing \<le> approved then None
              else Some (''fee at signing '' @ int_str signing @ '' exceeds the approved '' @ int_str approved @
                '' (gas moved since the quote); re-quote and decide again''))))))"

definition unapprovedPrograms :: "exec_env \<Rightarrow> proposed_action \<Rightarrow> string \<Rightarrow> string option" where
  "unapprovedPrograms W act transaction = (case summarizeSolanaTransaction (xe_codec W) transaction of
     Inl e \<Rightarrow> Some (''built transaction could not be decoded: '' @ xe_message W e)
   | Inr s \<Rightarrow>
       let approved = (case programIds act of None \<Rightarrow> [] | Some ids \<Rightarrow> ids) @ SOLANA_SYSTEM_PROGRAMS;
           unapproved = filter (\<lambda>p. p \<notin> set approved) (ms_programIds s) in
       if unapproved \<noteq> []
       then Some (''built transaction invokes '' @ join_with '', '' unapproved @ '', which the engine did not approve'')
       else if a_contract act \<notin> set (ms_programIds s)
       then Some (''built transaction never invokes '' @ a_contract act @ '', the approved program'') else None)"

definition wrongTarget :: "proposed_action \<Rightarrow> evm_context \<Rightarrow> string option" where
  "wrongTarget act c =
     (if toLowerCase (xc_to c) \<noteq> toLowerCase (a_contract act) \<and>
         \<not> (a_kind act = Approve \<and> toLowerCase (xc_to c) = tr_address (tokenIn act))
      then Some (''built transaction targets '' @ xc_to c @ '', engine approved '' @ a_contract act) else None)"

text \<open>The checks in order; the first that fires is the reason.\<close>

definition signing_refusal ::
  "exec_env \<Rightarrow> proposed_action \<Rightarrow> signing_context \<Rightarrow> 'a state_db_scheme \<Rightarrow> string option result" where
  "signing_refusal W act ctx db = (case refusal act db of
     Some reason \<Rightarrow> Inr (Some (''refused before signing: '' @ reason))
   | None \<Rightarrow> sbind (feeOverrun act ctx) (\<lambda>overrun. case overrun of
       Some reason \<Rightarrow> Inr (Some reason)
     | None \<Rightarrow> Inr (case ctx of
         Ctx_solana _ transaction _ \<Rightarrow> unapprovedPrograms W act transaction
       | Ctx_evm c \<Rightarrow> wrongTarget act c)))"

section \<open>Booking\<close>

record booking_context =
  bc_decimals :: "(int \<times> int) option"
  bc_pricedAt :: string
  bc_note :: "string option"

definition tokenRef :: "chain_id \<Rightarrow> string \<Rightarrow> int option \<Rightarrow> token_ref" where
  "tokenRef c address decimals = (case decimals of
     Some d \<Rightarrow> \<lparr>tr_address = address, tr_decimals = d\<rparr>
   | None \<Rightarrow> \<lparr>tr_address = address, tr_decimals =
       (case List.find (\<lambda>k. ti_address k = address) (ci_tokens (CHAINS c)) of
          Some k \<Rightarrow> ti_decimals k | None \<Rightarrow> if c = Solana then 9 else 18)\<rparr>)"

text \<open>The fee of a receipt: absent or empty is zero, and a fee that cannot be valued is zero dollars.\<close>

definition receipt_fee :: "receipt \<Rightarrow> int result" where
  "receipt_fee rc = (case rc_feeNative rc of None \<Rightarrow> Inr 0 | Some s \<Rightarrow> if s = '''' then Inr 0 else js_BigInt s)"

definition fee_micros :: "chain_id \<Rightarrow> int \<Rightarrow> string \<Rightarrow> int" where
  "fee_micros c feeNative nativeUsd = (case sbind (priceToAtto nativeUsd)
       (\<lambda>p. nativeToUsdMicros feeNative (ci_nativeDecimals (CHAINS c)) p RCeil) of Inl _ \<Rightarrow> 0 | Inr fee \<Rightarrow> fee)"

definition live_event :: "string \<Rightarrow> audit_status \<Rightarrow> string \<Rightarrow> trade_row \<Rightarrow> audit_event" where
  "live_event name st summary trade = \<lparr>ae_category = Cat_trade, ae_action = name, ae_status = st, ae_summary = summary,
     ae_chain = Some (td_chain trade), ae_actor = ''system'', ae_mode = Some LIVE,
     ae_correlationId = Some (td_decisionCycleId trade)\<rparr>"

definition fill_amount :: "trade_row \<Rightarrow> receipt \<Rightarrow> string" where
  "fill_amount trade rc = (case rc_amountOut rc of Some a \<Rightarrow> a | None \<Rightarrow> (case td_minOut trade of Some a \<Rightarrow> a | None \<Rightarrow> ''0''))"

definition live_fill :: "trade_row \<Rightarrow> receipt \<Rightarrow> trade_prices \<Rightarrow> booking_context \<Rightarrow> string \<Rightarrow> int \<Rightarrow> record_fill_input" where
  "live_fill trade rc px bc fee t = \<lparr>rf_tradeId = td_id trade, rf_mode = LIVE, rf_chain = td_chain trade,
     rf_tokenIn = tokenRef (td_chain trade) (td_tokenIn trade)
       (case bc_decimals bc of Some (d, _) \<Rightarrow> Some d | None \<Rightarrow> td_tokenInDecimals trade),
     rf_tokenOut = tokenRef (td_chain trade) (td_tokenOut trade)
       (case bc_decimals bc of Some (_, d) \<Rightarrow> Some d | None \<Rightarrow> td_tokenOutDecimals trade),
     rf_amountIn = td_amountIn trade, rf_amountOut = fill_amount trade rc,
     rf_priceInUsd = tp_tokenInUsd px, rf_priceOutUsd = tp_tokenOutUsd px, rf_feeUsd = fee, rf_filledAt = t,
     rf_simulated = False\<rparr>"

text \<open>The ledger is written only when there are prices.\<close>

definition book_ledger ::
  "int \<Rightarrow> string \<Rightarrow> string \<Rightarrow> trade_row \<Rightarrow> receipt \<Rightarrow> trade_prices \<Rightarrow> booking_context \<Rightarrow> string \<Rightarrow> 'a trade_db_scheme \<Rightarrow>
     'a trade_db_scheme result" where
  "book_ledger t u1 u2 trade rc px bc fee db =
     (if tp_tokenInUsd px \<noteq> ''0'' \<and> tp_tokenOutUsd px \<noteq> ''0''
      then sbind (recordFill (gd_ledger db) t u1 u2 (live_fill trade rc px bc fee t)) (\<lambda>(lg, _). Inr (db\<lparr>gd_ledger := lg\<rparr>))
      else Inr db)"

definition bookFill ::
  "int \<Rightarrow> string \<Rightarrow> string \<Rightarrow> trade_row \<Rightarrow> receipt \<Rightarrow> trade_prices \<Rightarrow> booking_context \<Rightarrow> 'a trade_db_scheme \<Rightarrow>
     'a trade_db_scheme \<times> string result" where
  "bookFill t u1 u2 trade rc px bc db = (case receipt_fee rc of
     Inl e \<Rightarrow> (db, Inl e)
   | Inr feeNative \<Rightarrow>
       let fee = microsToUsd (fee_micros (td_chain trade) feeNative (tp_nativeUsd px)) in
       if td_kind trade = Approve
       then (case markFilled t (td_id trade) ''0'' (Some (int_str feeNative)) fee None db of
          Inl e \<Rightarrow> (db, Inl e)
        | Inr (db, _) \<Rightarrow> (audit_append t (live_event ''trade.filled'' Au_ok
            (''LIVE approval confirmed '' @ (case td_txHash trade of Some h \<Rightarrow> take 12 h | None \<Rightarrow> '''')) trade) db, Inr fee))
       else (case book_ledger t u1 u2 trade rc px bc fee db of
          Inl e \<Rightarrow> (db, Inl e)
        | Inr db \<Rightarrow> (case markFilled t (td_id trade) (fill_amount trade rc) (Some (int_str feeNative)) fee (Some (rc_hash rc)) db of
            Inl e \<Rightarrow> (db, Inl e)
          | Inr (db, _) \<Rightarrow> (audit_append t (live_event ''trade.filled'' Au_ok
              (''LIVE fill '' @ take 12 (rc_hash rc) @ '': '' @ td_amountIn trade @ '' -> '' @ fill_amount trade rc @
               (if rc_amountOut rc \<noteq> None then '''' else '' (lower bound; receipt did not expose the transfer)'')) trade) db, Inr fee))))"

section \<open>The segments of a call\<close>

definition live_built ::
  "exec_env \<Rightarrow> int \<Rightarrow> live_call \<Rightarrow> unsigned_transaction result \<Rightarrow> trade_prices \<Rightarrow> 'a trade_db_scheme \<Rightarrow>
     'a trade_db_scheme \<times> live_progress" where
  "live_built W t call answer px db = (let act = lc_action call in case answer of
     Inl e \<Rightarrow> live_fail t (lc_tradeId call) act (''build failed: '' @ xe_message W e) (lc_startedAt call) None db
   | Inr tx \<Rightarrow> (db, Waiting (call\<lparr>lc_stage := At_simulate tx
       \<lparr>bk_tokenOut = Some (tr_address (tokenOut act)), bk_prices = px,
        bk_decimals = Some (tr_decimals (tokenIn act), tr_decimals (tokenOut act))\<rparr>\<rparr>)))"

text \<open>A simulation that rejects is not caught.\<close>

definition live_simulated ::
  "int \<Rightarrow> string result \<Rightarrow> live_call \<Rightarrow> simulation result \<Rightarrow> unsigned_transaction \<Rightarrow> booking \<Rightarrow> 'a trade_db_scheme \<Rightarrow>
     'a trade_db_scheme \<times> live_progress" where
  "live_simulated t wallet call answer tx b db = (case answer of
     Inl e \<Rightarrow> (db, Raised e)
   | Inr s \<Rightarrow> if \<not> si_ok s
       then live_fail t (lc_tradeId call) (lc_action call)
         (''simulation failed: '' @ (case si_error s of Some e \<Rightarrow> e | None \<Rightarrow> ''unknown'')) (lc_startedAt call) None db
       else signAndSend t wallet (lc_tradeId call) (lc_action call) tx b db)"

definition live_prepared ::
  "exec_env \<Rightarrow> int \<Rightarrow> (bytes \<times> string) result \<Rightarrow> live_call \<Rightarrow> signing_context result \<Rightarrow> unsigned_transaction \<Rightarrow> booking \<Rightarrow>
     'a trade_db_scheme \<Rightarrow> 'a trade_db_scheme \<times> live_progress" where
  "live_prepared W t vault call answer tx b db = (let i = lc_tradeId call; act = lc_action call; at' = lc_startedAt call in
     case answer of
       Inl e \<Rightarrow> live_fail t i act (''prepare failed: '' @ xe_message W e) at' None db
     | Inr ctx \<Rightarrow> (case signing_refusal W act ctx db of
         Inl e \<Rightarrow> (db, Raised e)
       | Inr (Some reason) \<Rightarrow> live_fail t i act reason at' None db
       | Inr None \<Rightarrow> (case sbind vault (sign_context W ctx) of
           Inl e \<Rightarrow> live_fail t i act (''signing failed: '' @ xe_message W e) at' None db
         | Inr s \<Rightarrow> (case markSigned t i (sx_hash s) db of
             Inl e \<Rightarrow> (db, Raised e)
           | Inr (db, _) \<Rightarrow> (audit_append t (agent_event ''trade.signed'' Au_ok (''Signed '' @ ux_summary tx) LIVE act) db,
               Waiting (call\<lparr>lc_stage := At_broadcast s b\<rparr>))))))"

definition unresolved :: "proposed_action \<Rightarrow> string \<Rightarrow> string \<Rightarrow> int \<Rightarrow> exec_outcome" where
  "unresolved act hash reason t = live_failed act reason t (Some hash)"

definition live_broadcasted ::
  "exec_env \<Rightarrow> int \<Rightarrow> live_call \<Rightarrow> unit result \<Rightarrow> signed_transaction \<Rightarrow> booking \<Rightarrow> 'a trade_db_scheme \<Rightarrow>
     'a trade_db_scheme \<times> live_progress" where
  "live_broadcasted W t call answer s b db = (let act = lc_action call in case answer of
     Inl e \<Rightarrow> (audit_append t (agent_event ''trade.broadcast'' Au_failed
         (''Broadcast failed for '' @ take 12 (sx_hash s) @ '': '' @ xe_message W e) LIVE act) db,
       Finished (unresolved act (sx_hash s) (''broadcast failed; transaction state unknown until reconciled: '' @ xe_message W e) t))
   | Inr _ \<Rightarrow> (case markBroadcast t (lc_tradeId call) db of
       Inl e \<Rightarrow> (db, Raised e)
     | Inr (db, _) \<Rightarrow> (db, Waiting (call\<lparr>lc_stage := At_receipt s b (t + RECEIPT_TIMEOUT_MS) None\<rparr>))))"

definition settled :: "receipt \<Rightarrow> bool" where
  "settled rc \<longleftrightarrow> rc_status rc \<in> {R_confirmed, R_failed}"

definition live_settle ::
  "int \<Rightarrow> string \<Rightarrow> string \<Rightarrow> live_call \<Rightarrow> receipt option \<Rightarrow> signed_transaction \<Rightarrow> booking \<Rightarrow> 'a trade_db_scheme \<Rightarrow>
     'a trade_db_scheme \<times> live_progress" where
  "live_settle t u1 u2 call last' s b db = (let i = lc_tradeId call; act = lc_action call;
       pending = (audit_append t (agent_event ''trade.broadcast'' Au_ok
           (''Broadcast '' @ take 12 (sx_hash s) @ ''; confirmation not seen within 90s'') LIVE act) db,
         Finished (unresolved act (sx_hash s) ''confirmation pending; the trade row stays open until reconciled'' t))
     in case last' of
       None \<Rightarrow> pending
     | Some rc \<Rightarrow> if \<not> settled rc then pending
         else if rc_status rc = R_failed
         then live_fail t i act (case rc_error rc of Some e \<Rightarrow> e | None \<Rightarrow> ''transaction failed on chain'')
           (lc_startedAt call) (Some (sx_hash s)) db
         else (case getTrade db i of
           None \<Rightarrow> (db, Raised (JsError ''TypeError: Cannot read properties of undefined''))
         | Some trade \<Rightarrow> (case bookFill t u1 u2 trade rc (bk_prices b)
               \<lparr>bc_decimals = bk_decimals b, bc_pricedAt = ''fill-time'', bc_note = None\<rparr> db of
             (db, Inl e) \<Rightarrow> (db, Raised e)
           | (db, Inr fee) \<Rightarrow> (db, Finished \<lparr>oc_actionId = actionId act, oc_mode = LIVE, oc_filled = True,
               oc_amountOut = rc_amountOut rc, oc_feeUsd = fee, oc_txHash = Some (sx_hash s), oc_error = None,
               oc_filledAt = t\<rparr>))))"

text \<open>One poll: the receipt or an error, then the sleep and the loop's test at the clock \<open>t\<close>. A settled receipt
  ends the loop at once.\<close>

definition live_polled ::
  "int \<Rightarrow> string \<Rightarrow> string \<Rightarrow> live_call \<Rightarrow> receipt result \<Rightarrow> signed_transaction \<Rightarrow> booking \<Rightarrow> int \<Rightarrow> receipt option \<Rightarrow>
     'a trade_db_scheme \<Rightarrow> 'a trade_db_scheme \<times> live_progress" where
  "live_polled t u1 u2 call answer s b deadline last' db =
     (let last' = (case answer of Inl _ \<Rightarrow> last' | Inr rc \<Rightarrow> Some rc) in
      if (case answer of Inl _ \<Rightarrow> False | Inr rc \<Rightarrow> settled rc) \<or> \<not> t < deadline
      then live_settle t u1 u2 call last' s b db
      else (db, Waiting (call\<lparr>lc_stage := At_receipt s b deadline last'\<rparr>)))"

section \<open>Reconciliation\<close>

record reconcile_report =
  rr_checked :: nat
  rr_filled :: nat
  rr_failed :: nat
  rr_stillPending :: nat

text \<open>Rows the liquidity executor settles.\<close>

definition lp_owned :: "trade_row \<Rightarrow> bool" where
  "lp_owned r \<longleftrightarrow> isLpKind (td_kind r) \<or> (td_kind r = Approve \<and> map_of (td_route r) ''lp'' = Some (Route_flag True))"

definition reconcile_booking :: "trade_row \<Rightarrow> booking_context" where
  "reconcile_booking trade = \<lparr>bc_decimals = None, bc_pricedAt = ''quote-time'', bc_note = Some (if td_quotePrices trade \<noteq> None
     then ''reconciled after restart; valued at the quote-time prices on the row, not at fill time''
     else ''reconciled after restart; the row predates persisted prices, so nothing is booked'')\<rparr>"

text \<open>A transaction the chain knows was broadcast, whatever the row says.\<close>

definition reconcile_broadcast :: "int \<Rightarrow> trade_row \<Rightarrow> 'a trade_db_scheme \<Rightarrow> ('a trade_db_scheme \<times> trade_row) result" where
  "reconcile_broadcast t trade db = (if td_status trade = T_signed then markBroadcast t (td_id trade) db else Inr (db, trade))"

text \<open>One row of the list read at the start; the answer is the receipt, absent when the lookup failed.\<close>

definition reconcile_row ::
  "int \<Rightarrow> string \<Rightarrow> string \<Rightarrow> string result \<Rightarrow> receipt option \<Rightarrow> trade_row \<Rightarrow> reconcile_report \<Rightarrow> 'a trade_db_scheme \<Rightarrow>
     'a trade_db_scheme \<times> reconcile_report result" where
  "reconcile_row t u1 u2 wallet answer trade rep db =
     (if lp_owned trade then (db, Inr rep) else
      let rep = rep\<lparr>rr_checked := rr_checked rep + 1\<rparr>;
          failing = (\<lambda>reason db. case markFailed t (td_id trade) reason db of
            Inl e \<Rightarrow> (db, Inl e) | Inr (db, _) \<Rightarrow> (db, Inr (rep\<lparr>rr_failed := rr_failed rep + 1\<rparr>)));
          pending = (db, Inr (rep\<lparr>rr_stillPending := rr_stillPending rep + 1\<rparr>))
      in if td_status trade = T_dispatched
      then failing ''runtime restarted before the transaction was signed'' db
      else if td_txHash trade = None \<or> td_txHash trade = Some ''''
      then failing (''row in '' @ trade_status_str (td_status trade) @ '' without a transaction hash'') db
      else if td_chain trade \<notin> set adapter_chains then pending
      else case wallet of Inl e \<Rightarrow> (db, Inl e)
      | Inr _ \<Rightarrow> (case answer of None \<Rightarrow> pending
        | Some rc \<Rightarrow> if \<not> settled rc then pending
          else (case reconcile_broadcast t trade db of
            Inl e \<Rightarrow> (db, Inl e)
          | Inr (db, _) \<Rightarrow> if rc_status rc = R_failed
            then (case failing (case rc_error rc of Some e \<Rightarrow> e | None \<Rightarrow> ''transaction failed on chain'') db of
                (db, Inl e) \<Rightarrow> (db, Inl e)
              | (db, Inr rep) \<Rightarrow> (audit_append t (live_event ''trade.reconciled'' Au_failed
                  (''Reconciled '' @ take 12 (the (td_txHash trade)) @ '' after restart: failed on chain'') trade) db, Inr rep))
            else (case bookFill t u1 u2 trade rc (case td_quotePrices trade of Some px \<Rightarrow> px | None \<Rightarrow> NO_PRICES)
                (reconcile_booking trade) db of
                (db, Inl e) \<Rightarrow> (db, Inl e)
              | (db, Inr _) \<Rightarrow> (db, Inr (rep\<lparr>rr_filled := rr_filled rep + 1\<rparr>))))))"

text \<open>The loop, with the answer, the clock and the identifiers of each row.\<close>

fun reconcile ::
  "(int \<times> string \<times> string \<times> string result \<times> receipt option) list \<Rightarrow> trade_row list \<Rightarrow> reconcile_report \<Rightarrow>
     'a trade_db_scheme \<Rightarrow> 'a trade_db_scheme \<times> reconcile_report result" where
  "reconcile ((t, u1, u2, wallet, answer) # answers) (trade # trades) rep db =
     (case reconcile_row t u1 u2 wallet answer trade rep db of
        (db, Inl e) \<Rightarrow> (db, Inl e)
      | (db, Inr rep) \<Rightarrow> reconcile answers trades rep db)"
| "reconcile _ _ rep db = (db, Inr rep)"

section \<open>The coroutine\<close>

text \<open>The identifiers a segment makes: the trade's, an approval's action id, and the ledger's two.\<close>

record uuids =
  ui_trade :: string
  ui_action :: string
  ui_position :: string
  ui_fill :: string

datatype live_answer =
    An_built "unsigned_transaction result"
  | An_simulated "simulation result"
  | An_prepared "signing_context result"
  | An_sent "unit result"
  | An_receipt "receipt result"

text \<open>What the wallet and the vault answer in a segment.\<close>

record keys =
  ky_wallet :: "string result"
  ky_vault :: "(bytes \<times> string) result"

text \<open>An answer of another await leaves the call waiting.\<close>

definition live_resume ::
  "exec_env \<Rightarrow> int \<Rightarrow> uuids \<Rightarrow> keys \<Rightarrow> live_call \<Rightarrow> live_answer \<Rightarrow> 'a trade_db_scheme \<Rightarrow> 'a trade_db_scheme \<times> live_progress" where
  "live_resume W t u ky call answer db = (case (lc_stage call, answer) of
     (At_build q px, An_built r) \<Rightarrow> live_built W t call r px db
   | (At_simulate tx b, An_simulated r) \<Rightarrow> live_simulated t (ky_wallet ky) call r tx b db
   | (At_prepare tx b, An_prepared r) \<Rightarrow> live_prepared W t (ky_vault ky) call r tx b db
   | (At_broadcast s b, An_sent r) \<Rightarrow> live_broadcasted W t call r s b db
   | (At_receipt s b deadline last', An_receipt r) \<Rightarrow>
       live_polled t (ui_position u) (ui_fill u) call r s b deadline last' db
   | _ \<Rightarrow> (db, Waiting call))"

end
