(* ===== verification/Withdrawals.thy ===== *)
theory Withdrawals
  imports Live_Executor
begin

text \<open>
  \<open>src/runtime/src/wallet/withdrawal.ts\<close>, with the reads of \<open>wallet/service.ts\<close> it relies on: the operator
  moving their own funds out. A call is split where it awaits; the answers of the adapter, of the market
  and of the vault are arguments, so is the clock (a reading per segment, and a second one for the row
  where a call starts) and every random identifier. The
  rows of \<open>wallet_transactions\<close> are the outgoing ones, the only ones the code writes.

  Times are epoch milliseconds. A USD figure the code turns into a JavaScript number for display is kept in
  micro-USD; a warning is a value of a datatype with the figures its text shows. Left out because nothing reads them: the
  constant \<open>requiresTypedConfirmation\<close> of a quote, the chain and the summary of a prepared transfer, the columns
  \<open>direction\<close> and \<open>kind\<close> (\<open>kind\<close> repeats whether the token is null), the detail document of an audit event.
\<close>

section \<open>Decimal amounts\<close>

text \<open>The groups of \<open>/^(\d+)(?:\.(\d+))?$/\<close>, as in the money parsers but with leading zeros.\<close>

definition amount_match :: "string \<Rightarrow> (string \<times> string) option" where
  "amount_match s = (case span_digits s of (i, rest) \<Rightarrow>
     if i = [] then None
     else case rest of
       [] \<Rightarrow> Some (i, [])
     | c # f \<Rightarrow> if c = CHR ''.'' \<and> f \<noteq> [] \<and> list_all is_digit f then Some (i, f) else None)"

definition parseDecimalAmount :: "string \<Rightarrow> nat \<Rightarrow> int result" where
  "parseDecimalAmount v decimals = (case amount_match (js_trim v) of
     None \<Rightarrow> Inl (AppError E_SCHEMA_INVALID ''Amount must be a decimal number'')
   | Some (whole, frac) \<Rightarrow>
       if length frac > decimals
       then Inl (AppError E_SCHEMA_INVALID (''Amount has more than '' @ nat_str decimals @ '' decimals''))
       else Inr (int (digits_val whole) * 10 ^ decimals + int (digits_val (padEnd decimals CHR ''0'' frac))))"

text \<open>\<open>replace(/0+$/, '')\<close>.\<close>

definition drop_zeros :: "string \<Rightarrow> string" where
  "drop_zeros s = rev (dropWhile (\<lambda>c. c = CHR ''0'') (rev s))"

definition formatUnits :: "int \<Rightarrow> nat \<Rightarrow> string" where
  "formatUnits amount decimals = (let negative = amount < 0; a = (if negative then - amount else amount);
       scale = 10 ^ decimals; whole = bdiv a scale;
       frac = drop_zeros (padStart decimals CHR ''0'' (int_str (bmod a scale)))
     in (if negative then ''-'' else []) @ int_str whole @ (if frac = [] then [] else ''.'' @ frac))"

section \<open>Destinations and assets\<close>

fun displayName :: "chain_id \<Rightarrow> string" where
  "displayName Base = ''Base''"
| "displayName Bsc = ''BNB Smart Chain''"
| "displayName Robinhood = ''Robinhood Chain''"
| "displayName Solana = ''Solana''"

fun chain_explorer :: "chain_id \<Rightarrow> string" where
  "chain_explorer Base = ''https://basescan.org''"
| "chain_explorer Bsc = ''https://bscscan.com''"
| "chain_explorer Robinhood = ''https://robinhoodchain.blockscout.com''"
| "chain_explorer Solana = ''https://solscan.io''"

definition explorerUrl :: "chain_id \<Rightarrow> string \<Rightarrow> string" where
  "explorerUrl chain hash = chain_explorer chain @ ''/tx/'' @ hash"

definition upper_case :: "string \<Rightarrow> string" where
  "upper_case s = map (\<lambda>c. let n = (of_char c :: nat) in if 97 \<le> n \<and> n \<le> 122 then char_of (n - 32) else c) s"

text \<open>An address that is its own lower or upper case carries no checksum.\<close>

definition hasChecksumCase :: "string \<Rightarrow> bool" where
  "hasChecksumCase address = (let body = drop 2 address in body \<noteq> toLowerCase body \<and> body \<noteq> upper_case body)"

definition invalidDestination :: "string \<Rightarrow> app_error" where
  "invalidDestination m = AppError E_SCHEMA_INVALID (''Invalid destination: '' @ m)"

text \<open>The environment: the executor's signing libraries, \<open>isAddress\<close> with its checksum, \<open>assertPubkey\<close>, and the chains
  that have an adapter and an adapter that can transfer.\<close>

record withdraw_env = exec_env +
  we_isAddress :: "string \<Rightarrow> bool"
  we_isPubkey :: "string \<Rightarrow> bool"
  we_adapters :: "chain_id list"
  we_transfers :: "chain_id list"

definition validateDestination :: "'e withdraw_env_scheme \<Rightarrow> chain_id \<Rightarrow> string \<Rightarrow> string result" where
  "validateDestination W chain destination =
     (if chainFamily chain = Evm
      then if \<not> (take 2 destination = ''0x'' \<and> length destination = 42 \<and>
                   list_all (\<lambda>c. radix_digit 16 c \<noteq> None) (drop 2 destination)) then Inl (invalidDestination ''must be a 0x-prefixed 40-hex address'')
        else if destination = ''0x'' @ replicate 40 CHR ''0'' then Inl (invalidDestination ''the zero address burns funds'')
        else if hasChecksumCase destination \<and> \<not> we_isAddress W destination
        then Inl (invalidDestination ''EIP-55 checksum does not match'')
        else Inr (toLowerCase destination)
      else if \<not> we_isPubkey W destination then Inl (invalidDestination ''must be a base58 Solana public key'')
      else Inr destination)"

datatype withdraw_asset = USDC | ETH | BNB | SOL

fun asset_str :: "withdraw_asset \<Rightarrow> string" where
  "asset_str USDC = ''USDC''"
| "asset_str ETH = ''ETH''"
| "asset_str BNB = ''BNB''"
| "asset_str SOL = ''SOL''"

record asset_token =
  as_address :: string
  as_decimals :: nat
  as_symbol :: string
  as_native :: bool

definition resolveAsset :: "chain_id \<Rightarrow> withdraw_asset \<Rightarrow> asset_token result" where
  "resolveAsset chain asset = (let info = CHAINS chain in
     if asset_str asset = ci_nativeSymbol info
     then Inr \<lparr>as_address = ci_nativeSentinel info, as_decimals = nat (ci_nativeDecimals info),
       as_symbol = ci_nativeSymbol info, as_native = True\<rparr>
     else case List.find (\<lambda>e. ti_symbol e = asset_str asset \<and> \<not> isNativeToken chain (ti_address e)) (ci_tokens info) of
       None \<Rightarrow> Inl (AppError E_SCHEMA_INVALID (asset_str asset @ '' is not available on '' @ displayName chain))
     | Some e \<Rightarrow> Inr \<lparr>as_address = ti_address e, as_decimals = nat (ti_decimals e), as_symbol = ti_symbol e, as_native = False\<rparr>)"

section \<open>Quotes\<close>

definition WITHDRAW_QUOTE_TTL_MS :: int where "WITHDRAW_QUOTE_TTL_MS = 90000"
definition TYPED_CONFIRMATION_USD :: int where "TYPED_CONFIRMATION_USD = 1000"

record token_amount_view =
  tv_raw :: string
  tv_decimals :: nat
  tv_formatted :: string
  tv_symbol :: string

definition amount_view :: "int \<Rightarrow> nat \<Rightarrow> string \<Rightarrow> token_amount_view" where
  "amount_view amount decimals symbol = \<lparr>tv_raw = int_str amount, tv_decimals = decimals,
     tv_formatted = formatUnits amount decimals, tv_symbol = symbol\<rparr>"

datatype withdraw_warning =
    Wn_no_checksum | Wn_balance_unread string | Wn_prepared string | Wn_usd_unknown | Wn_large int
  | Wn_insufficient string string | Wn_insufficient_fee string | Wn_fee_unknown

record withdraw_quote_request =
  wq_chainId :: chain_id
  wq_asset :: withdraw_asset
  wq_destination :: string
  wq_amount :: string

record withdraw_quote =
  qt_quoteId :: string
  qt_expiresAt :: int
  qt_chainId :: chain_id
  qt_asset :: withdraw_asset
  qt_destination :: string
  qt_amount :: token_amount_view
  qt_availableBalance :: "token_amount_view option"
  qt_feeNative :: "token_amount_view option"
  qt_feeUsd :: "int option"
  qt_feeSource :: string
  qt_remainingBalance :: "token_amount_view option"
  qt_warnings :: "withdraw_warning list"
  qt_mode :: mode
  qt_submittable :: bool

record transfer_request =
  tf_from :: string
  tf_to :: string
  tf_token :: "string option"
  tf_amount :: int
  tf_decimals :: nat

record prepared_transfer =
  pt_payload :: string
  pt_feeNative :: "string option"
  pt_feeSource :: string
  pt_warnings :: "string list"

record pending_quote =
  pn_quote :: withdraw_quote
  pn_prepared :: prepared_transfer
  pn_from :: string
  pn_to :: string
  pn_token :: "string option"
  pn_amount :: int
  pn_decimals :: nat
  pn_symbol :: string
  pn_createdAt :: int

text \<open>What \<open>readBalances\<close> reports: the failure that ended the read, the native balance, and the tokens that could be
  read (one that could not be is simply missing).\<close>

record withdraw_reading =
  br_error :: "string option"
  br_native :: "string option"
  br_tokens :: "(string \<times> string) list"

section \<open>State\<close>

datatype tx_status = X_prepared | X_simulated | X_submitted | X_confirmed | X_failed | X_cancelled

record tx_row =
  tx_id :: string
  tx_chain :: chain_id
  tx_token :: "string option"
  tx_symbol :: string
  tx_decimals :: nat
  tx_amountBase :: string
  tx_to :: string
  tx_from :: string
  tx_feeBase :: "string option"
  tx_feeUsd :: "int option"
  tx_hash :: "string option"
  tx_status :: tx_status
  tx_mode :: mode
  tx_idempotencyKey :: "string option"
  tx_createdAt :: int
  tx_updatedAt :: int
  tx_errorMessage :: "string option"

text \<open>The database with the table, the wallet addresses, and the service's map of quotes in memory.\<close>

record withdraw_db = state_db +
  wd_rows :: "tx_row list"
  wd_wallets :: "chain_family \<rightharpoonup> string"
  wd_quotes :: "string \<rightharpoonup> pending_quote"

definition getTx :: "'a withdraw_db_scheme \<Rightarrow> string \<Rightarrow> tx_row option" where
  "getTx db i = List.find (\<lambda>r. tx_id r = i) (wd_rows db)"

definition appendTx :: "'a withdraw_db_scheme \<Rightarrow> tx_row \<Rightarrow> 'a withdraw_db_scheme" where
  "appendTx db r = db\<lparr>wd_rows := wd_rows db @ [r]\<rparr>"

definition updateTx :: "'a withdraw_db_scheme \<Rightarrow> string \<Rightarrow> (tx_row \<Rightarrow> tx_row) \<Rightarrow> 'a withdraw_db_scheme" where
  "updateTx db i f = db\<lparr>wd_rows := map (\<lambda>r. if tx_id r = i then f r else r) (wd_rows db)\<rparr>"

interpretation wtx: upd_table wd_rows tx_id getTx appendTx updateTx
  by unfold_locales (simp_all add: getTx_def appendTx_def updateTx_def)

text \<open>The primary key and the unique idempotency key are what an insert can break.\<close>

definition insertTx :: "'a withdraw_db_scheme \<Rightarrow> tx_row \<Rightarrow> 'a withdraw_db_scheme result" where
  "insertTx db r =
     (if tx_id r \<in> tx_id ` set (wd_rows db) \<or> tx_idempotencyKey r \<noteq> None \<and> tx_idempotencyKey r \<in> tx_idempotencyKey ` set (wd_rows db)
      then Inl (JsError ''UNIQUE constraint failed: wallet_transactions'') else Inr (appendTx db r))"

definition depositAddress :: "chain_id \<Rightarrow> 'a withdraw_db_scheme \<Rightarrow> string result" where
  "depositAddress chain db = (case wd_wallets db (chainFamily chain) of
     None \<Rightarrow> Inl (AppError E_NOT_FOUND (''No wallet exists for '' @ chain_str chain @ '' yet'')) | Some a \<Rightarrow> Inr a)"

definition pruneQuotes :: "int \<Rightarrow> 'a withdraw_db_scheme \<Rightarrow> 'a withdraw_db_scheme" where
  "pruneQuotes t db = db\<lparr>wd_quotes := (\<lambda>q. case wd_quotes db q of
     None \<Rightarrow> None | Some p \<Rightarrow> if t - pn_createdAt p > WITHDRAW_QUOTE_TTL_MS then None else Some p)\<rparr>"

section \<open>Making a quote\<close>

text \<open>Until the first await: pruning, validation of the destination and of the asset, the wallet and the adapter.\<close>

record quote_call =
  qc_request :: withdraw_quote_request
  qc_destination :: string
  qc_token :: asset_token
  qc_from :: string

definition quote_begin ::
  "'e withdraw_env_scheme \<Rightarrow> int \<Rightarrow> withdraw_quote_request \<Rightarrow> 'a withdraw_db_scheme \<Rightarrow> 'a withdraw_db_scheme \<times> quote_call result" where
  "quote_begin W t rq db = (let db = pruneQuotes t db; chain = wq_chainId rq in
     (db, sbind (validateDestination W chain (wq_destination rq)) (\<lambda>destination.
        sbind (resolveAsset chain (wq_asset rq)) (\<lambda>token.
        sbind (depositAddress chain db) (\<lambda>from.
          if toLowerCase destination = toLowerCase from
          then Inl (AppError E_SCHEMA_INVALID ''Destination is the agent wallet itself'')
          else if chain \<notin> set (we_transfers W)
          then Inl (AppError E_ADAPTER_UNAVAILABLE (''No transfer adapter for '' @ chain_str chain))
          else Inr \<lparr>qc_request = rq, qc_destination = destination, qc_token = token, qc_from = from\<rparr>)))))"

definition checksum_warning :: "withdraw_quote_request \<Rightarrow> withdraw_warning list" where
  "checksum_warning rq = (if chainFamily (wq_chainId rq) = Evm \<and> \<not> hasChecksumCase (wq_destination rq) then [Wn_no_checksum] else [])"

text \<open>The balance that was read, or none.\<close>

definition available_of :: "asset_token \<Rightarrow> withdraw_reading \<Rightarrow> int option result" where
  "available_of token reading = (case br_error reading of
     Some _ \<Rightarrow> Inr None
   | None \<Rightarrow> if as_native token then opt_result js_BigInt (br_native reading)
     else (case lookup (br_tokens reading) (as_address token) of
         Some amount \<Rightarrow> sbind (js_BigInt amount) (\<lambda>a. Inr (Some a)) | None \<Rightarrow> Inr (Some 0)))"

definition balance_warning :: "withdraw_reading \<Rightarrow> withdraw_warning list" where
  "balance_warning reading = (case br_error reading of None \<Rightarrow> [] | Some e \<Rightarrow> [Wn_balance_unread e])"

definition wanted_amount :: "withdraw_quote_request \<Rightarrow> asset_token \<Rightarrow> int option \<Rightarrow> int result" where
  "wanted_amount rq token available =
     (if wq_amount rq = ''all''
      then (case available of None \<Rightarrow> Inl (AppError E_UPSTREAM_UNAVAILABLE ''Cannot withdraw all: balance unknown'') | Some a \<Rightarrow> Inr a)
      else sbind (parseDecimalAmount (wq_amount rq) (as_decimals token)) (\<lambda>a.
        if a \<le> 0 then Inl (AppError E_SCHEMA_INVALID ''Amount must be greater than zero'') else Inr a))"

definition transfer_of :: "quote_call \<Rightarrow> int \<Rightarrow> transfer_request" where
  "transfer_of qc amount = \<lparr>tf_from = qc_from qc, tf_to = qc_destination qc,
     tf_token = (if as_native (qc_token qc) then None else Some (as_address (qc_token qc))),
     tf_amount = amount, tf_decimals = as_decimals (qc_token qc)\<rparr>"

text \<open>The transfer is prepared for a provisional amount; for all of the native coin it is prepared again for what the fee
  leaves. The two answers of the adapter are functions of the request.\<close>

definition prepare_quote ::
  "'e withdraw_env_scheme \<Rightarrow> quote_call \<Rightarrow> (transfer_request \<Rightarrow> prepared_transfer result) \<Rightarrow> (transfer_request \<Rightarrow> prepared_transfer result) \<Rightarrow>
     int \<Rightarrow> (prepared_transfer \<times> withdraw_warning list \<times> int option \<times> int) result" where
  "prepare_quote W qc adapter1 adapter2 amount =
     (case adapter1 (transfer_of qc (if amount > 0 then amount else 1)) of
        Inl e \<Rightarrow> Inl (case e of AppError E_SCHEMA_INVALID m \<Rightarrow> e
          | _ \<Rightarrow> AppError E_UPSTREAM_UNAVAILABLE (''Could not prepare the transfer: '' @ xe_message W e))
      | Inr prepared \<Rightarrow>
          sbind (opt_result js_BigInt (pt_feeNative prepared)) (\<lambda>feeNative.
            if wq_amount (qc_request qc) = ''all'' \<and> as_native (qc_token qc)
            then (case feeNative of
                None \<Rightarrow> Inl (AppError E_UPSTREAM_UNAVAILABLE ''Cannot withdraw all: fee unknown'')
              | Some fee \<Rightarrow> if amount - fee \<le> 0 then Inl (AppError E_CONFLICT ''Balance does not cover the network fee'')
                  else sbind (adapter2 (transfer_of qc (amount - fee))) (\<lambda>prepared2.
                    Inr (prepared2, map Wn_prepared (pt_warnings prepared), feeNative, amount - fee)))
            else Inr (prepared, map Wn_prepared (pt_warnings prepared), feeNative, amount)))"

text \<open>\<open>Number(microsToUsd(nativeToUsdMicros(..., 'ceil')))\<close>, kept in micro-USD; an absent or empty price gives none.\<close>

definition usd_of :: "int option \<Rightarrow> nat \<Rightarrow> string option \<Rightarrow> int option result" where
  "usd_of amount decimals price = (case (amount, price) of
     (Some a, Some p) \<Rightarrow> if p = [] then Inr None
       else sbind (priceToAtto p) (\<lambda>atto. sbind (nativeToUsdMicros a (int decimals) atto RCeil) (\<lambda>u. Inr (Some u)))
   | _ \<Rightarrow> Inr None)"

definition value_warning :: "int option \<Rightarrow> withdraw_warning list" where
  "value_warning amountMicros = (case amountMicros of None \<Rightarrow> [Wn_usd_unknown]
   | Some u \<Rightarrow> if u \<ge> TYPED_CONFIRMATION_USD * USD_SCALE then [Wn_large u] else [])"

text \<open>Whether the quote can be submitted, with the warnings in the order they are pushed.\<close>

definition sufficiency ::
  "chain_id \<Rightarrow> asset_token \<Rightarrow> int \<Rightarrow> int option \<Rightarrow> int option \<Rightarrow> string option \<Rightarrow> (bool \<times> withdraw_warning list) result" where
  "sufficiency chain token amount available feeNative native = (let
     covered = (case available of None \<Rightarrow> False
       | Some a \<Rightarrow> \<not> a < (if as_native token then (case feeNative of Some f \<Rightarrow> amount + f | None \<Rightarrow> amount) else amount));
     w1 = (case available of None \<Rightarrow> []
       | Some a \<Rightarrow> if covered then [] else [Wn_insufficient (as_symbol token) (formatUnits a (as_decimals token))])
   in sbind (case (as_native token, feeNative, native) of
        (False, Some f, Some n) \<Rightarrow> sbind (js_BigInt n) (\<lambda>n. Inr (n < f)) | _ \<Rightarrow> Inr False) (\<lambda>short.
      Inr (feeNative \<noteq> None \<and> covered \<and> \<not> short,
        w1 @ (if short then [Wn_insufficient_fee (ci_nativeSymbol (CHAINS chain))] else []) @
        (if feeNative = None then [Wn_fee_unknown] else []))))"

definition remaining_of :: "asset_token \<Rightarrow> int \<Rightarrow> int option \<Rightarrow> int option \<Rightarrow> int option" where
  "remaining_of token amount available feeNative = map_option (\<lambda>a.
     (case feeNative of Some f \<Rightarrow> if as_native token then a - amount - f else a - amount | None \<Rightarrow> a - amount)) available"

text \<open>The rest of the call, with the answers it awaited: the reading, the two preparations, the price of the asset and of the
  native coin. Only its last step touches the state.\<close>

definition quote_of ::
  "string \<Rightarrow> int \<Rightarrow> mode \<Rightarrow> quote_call \<Rightarrow> int option \<Rightarrow> int \<Rightarrow> int option \<Rightarrow> int option \<Rightarrow> prepared_transfer \<Rightarrow> bool \<Rightarrow>
     withdraw_warning list \<Rightarrow> pending_quote" where
  "quote_of quoteId t m qc available amount feeNative feeMicros prepared submittable warnings = (let token = qc_token qc;
       chain = wq_chainId (qc_request qc); info = CHAINS chain; remaining = remaining_of token amount available feeNative in
     \<lparr>pn_quote = \<lparr>qt_quoteId = quoteId, qt_expiresAt = t + WITHDRAW_QUOTE_TTL_MS, qt_chainId = chain,
        qt_asset = wq_asset (qc_request qc), qt_destination = qc_destination qc,
        qt_amount = amount_view amount (as_decimals token) (as_symbol token),
        qt_availableBalance = map_option (\<lambda>a. amount_view a (as_decimals token) (as_symbol token)) available,
        qt_feeNative = map_option (\<lambda>f. amount_view f (nat (ci_nativeDecimals info)) (ci_nativeSymbol info)) feeNative,
        qt_feeUsd = feeMicros, qt_feeSource = (case feeNative of None \<Rightarrow> ''none'' | Some _ \<Rightarrow> pt_feeSource prepared),
        qt_remainingBalance = (case remaining of None \<Rightarrow> None
          | Some r \<Rightarrow> if r < 0 then None else Some (amount_view r (as_decimals token) (as_symbol token))),
        qt_warnings = warnings, qt_mode = m, qt_submittable = submittable\<rparr>,
      pn_prepared = prepared, pn_from = qc_from qc, pn_to = qc_destination qc,
      pn_token = (if as_native token then None else Some (as_address token)), pn_amount = amount,
      pn_decimals = as_decimals token, pn_symbol = as_symbol token, pn_createdAt = t\<rparr>)"

definition quote_finish ::
  "'e withdraw_env_scheme \<Rightarrow> int \<Rightarrow> string \<Rightarrow> quote_call \<Rightarrow> withdraw_reading \<Rightarrow> (transfer_request \<Rightarrow> prepared_transfer result) \<Rightarrow>
     (transfer_request \<Rightarrow> prepared_transfer result) \<Rightarrow> string option \<Rightarrow> string option \<Rightarrow> 'a withdraw_db_scheme \<Rightarrow>
     ('a withdraw_db_scheme \<times> withdraw_quote) result" where
  "quote_finish W t quoteId qc reading adapter1 adapter2 assetPrice nativePrice db =
     (let rq = qc_request qc; token = qc_token qc; chain = wq_chainId rq; info = CHAINS chain in
      sbind (available_of token reading) (\<lambda>available.
      sbind (wanted_amount rq token available) (\<lambda>wanted.
      sbind (prepare_quote W qc adapter1 adapter2 wanted) (\<lambda>(prepared, warned, feeNative, amount).
      sbind (usd_of (Some amount) (as_decimals token) assetPrice) (\<lambda>amountMicros.
      sbind (usd_of feeNative (nat (ci_nativeDecimals info)) (if as_native token then assetPrice else nativePrice)) (\<lambda>feeMicros.
      sbind (sufficiency chain token amount available feeNative (br_native reading)) (\<lambda>(submittable, lacking).
        let p = quote_of quoteId t (getMode db) qc available amount feeNative feeMicros prepared submittable
                  (checksum_warning rq @ balance_warning reading @ warned @ value_warning amountMicros @ lacking)
        in Inr (db\<lparr>wd_quotes := (wd_quotes db)(quoteId \<mapsto> p)\<rparr>, pn_quote p))))))))"

section \<open>Executing a quote\<close>

definition CONFIRM_POLL_MS :: int where "CONFIRM_POLL_MS = 3000"
definition CONFIRM_TIMEOUT_MS :: int where "CONFIRM_TIMEOUT_MS = 30000"

datatype withdraw_status = Ws_submitted | Ws_confirmed | Ws_failed

record withdraw_result =
  wr_txId :: string
  wr_txHash :: "string option"
  wr_status :: withdraw_status
  wr_explorerUrl :: "string option"
  wr_activityId :: string

fun tx_status_of :: "withdraw_status \<Rightarrow> tx_status" where
  "tx_status_of Ws_submitted = X_submitted"
| "tx_status_of Ws_confirmed = X_confirmed"
| "tx_status_of Ws_failed = X_failed"

definition withdraw_toResult :: "tx_row \<Rightarrow> withdraw_result" where
  "withdraw_toResult r = \<lparr>wr_txId = tx_id r, wr_txHash = tx_hash r,
     wr_status = (if tx_status r = X_confirmed then Ws_confirmed
       else if tx_status r = X_failed \<or> tx_status r = X_cancelled then Ws_failed else Ws_submitted),
     wr_explorerUrl = map_option (explorerUrl (tx_chain r)) (tx_hash r), wr_activityId = tx_id r\<rparr>"

text \<open>Where a call is between its awaits: for the signing context, for the broadcast, and polling for the confirmation
  until a deadline.\<close>

datatype withdraw_stage =
    W_context
  | W_broadcast (ws_signed: signed_transaction)
  | W_confirm (ws_signed: signed_transaction) (ws_deadline: int) (ws_activity: string)

record withdraw_call =
  wc_txId :: string
  wc_pending :: pending_quote
  wc_mode :: mode
  wc_stage :: withdraw_stage

datatype withdraw_progress = W_raised app_error | W_finished withdraw_result | W_waiting withdraw_call

definition withdraw_event :: "audit_status \<Rightarrow> string \<Rightarrow> chain_id \<Rightarrow> mode \<Rightarrow> string \<Rightarrow> audit_event" where
  "withdraw_event st summary chain m txId = \<lparr>ae_category = Cat_wallet, ae_action = ''wallet.withdraw'', ae_status = st,
     ae_summary = summary, ae_chain = Some chain, ae_actor = ''operator'', ae_mode = Some m, ae_correlationId = Some txId\<rparr>"

text \<open>\<open>#fail\<close>; the random id of the audit row is an argument.\<close>

definition withdraw_fail ::
  "int \<Rightarrow> string \<Rightarrow> string \<Rightarrow> chain_id \<Rightarrow> string \<Rightarrow> string option \<Rightarrow> 'a withdraw_db_scheme \<Rightarrow> 'a withdraw_db_scheme \<times> withdraw_progress" where
  "withdraw_fail t ev txId chain reason txHash db =
     (let db = updateTx db txId (\<lambda>r. r\<lparr>tx_status := X_failed, tx_errorMessage := Some (take 500 reason), tx_updatedAt := t\<rparr>) in
      (audit_append t (withdraw_event Au_failed (''Withdrawal failed: '' @ reason) chain (getMode db) txId) db,
       W_finished \<lparr>wr_txId = txId, wr_txHash = txHash, wr_status = Ws_failed,
         wr_explorerUrl = map_option (explorerUrl chain) txHash, wr_activityId = ev\<rparr>))"

definition tx_row_of :: "int \<Rightarrow> string \<Rightarrow> mode \<Rightarrow> string option \<Rightarrow> pending_quote \<Rightarrow> tx_row" where
  "tx_row_of t txId m key p = \<lparr>tx_id = txId, tx_chain = qt_chainId (pn_quote p), tx_token = pn_token p,
     tx_symbol = pn_symbol p, tx_decimals = pn_decimals p, tx_amountBase = int_str (pn_amount p), tx_to = pn_to p,
     tx_from = pn_from p, tx_feeBase = pt_feeNative (pn_prepared p), tx_feeUsd = qt_feeUsd (pn_quote p), tx_hash = None,
     tx_status = X_prepared, tx_mode = m, tx_idempotencyKey = key, tx_createdAt = t, tx_updatedAt = t,
     tx_errorMessage = None\<rparr>"

definition findByIdempotency :: "'a withdraw_db_scheme \<Rightarrow> string option \<Rightarrow> tx_row option" where
  "findByIdempotency db key = (case key of None \<Rightarrow> None
   | Some k \<Rightarrow> if k = [] then None else List.find (\<lambda>r. tx_idempotencyKey r = Some k) (wd_rows db))"

text \<open>Until the await for the signing context. The quote is consumed before the adapter is looked up and the row is
  inserted. The clock is read by \<open>#pruneQuotes\<close> (\<open>t\<close>) and again for the row's \<open>createdAt\<close> (\<open>t'\<close>).\<close>

definition execute_begin ::
  "'e withdraw_env_scheme \<Rightarrow> int \<Rightarrow> int \<Rightarrow> string \<Rightarrow> string \<Rightarrow> string option \<Rightarrow> string option \<Rightarrow> 'a withdraw_db_scheme \<Rightarrow>
     'a withdraw_db_scheme \<times> withdraw_progress" where
  "execute_begin W t t' txId quoteId confirmation key db0 = (let db = pruneQuotes t db0 in
     case findByIdempotency db key of
       Some r \<Rightarrow> (db, W_finished (withdraw_toResult r))
     | None \<Rightarrow> (case wd_quotes db quoteId of
         None \<Rightarrow> (db, W_raised (AppError E_CONFLICT ''Quote expired or unknown; request a new quote''))
       | Some p \<Rightarrow>
           if \<not> qt_submittable (pn_quote p) then (db, W_raised (AppError E_CONFLICT ''This quote cannot be submitted''))
           else if confirmation \<noteq> Some ''WITHDRAW''
           then (db, W_raised (AppError E_SCHEMA_INVALID ''Type WITHDRAW to confirm this withdrawal''))
           else if wd_wallets db (chainFamily (qt_chainId (pn_quote p))) = None
           then (db, W_raised (AppError E_NOT_FOUND ''No wallet exists for this chain''))
           else let db = db\<lparr>wd_quotes := (wd_quotes db)(quoteId := None)\<rparr>; chain = qt_chainId (pn_quote p) in
             if chain \<notin> set (we_transfers W)
             then (db, W_raised (AppError E_ADAPTER_UNAVAILABLE (''No transfer adapter for '' @ chain_str chain)))
             else case insertTx db (tx_row_of t' txId (getMode db) key p) of
                 Inl e \<Rightarrow> (db, W_raised e)
               | Inr db \<Rightarrow> (db, W_waiting \<lparr>wc_txId = txId, wc_pending = p, wc_mode = getMode db, wc_stage = W_context\<rparr>)))"

text \<open>The adapter answered with the signing context: the key signs, and the hash is on the row before the network sees it.
  \<open>vault\<close> is the answer of \<open>useSigningKey\<close> to a request for the key.\<close>

definition execute_prepared ::
  "'e withdraw_env_scheme \<Rightarrow> int \<Rightarrow> string \<Rightarrow> (bytes \<times> string) result \<Rightarrow> withdraw_call \<Rightarrow> signing_context result \<Rightarrow>
     'a withdraw_db_scheme \<Rightarrow> 'a withdraw_db_scheme \<times> withdraw_progress" where
  "execute_prepared W t ev vault call answer db = (let txId = wc_txId call; chain = qt_chainId (pn_quote (wc_pending call)) in
     case answer of
       Inl e \<Rightarrow> withdraw_fail t ev txId chain (''prepare failed: '' @ xe_message W e) None db
     | Inr ctx \<Rightarrow> (case sbind vault (sign_context (exec_env.truncate W) ctx) of
         Inl e \<Rightarrow> withdraw_fail t ev txId chain (''signing failed: '' @ xe_message W e) None db
       | Inr s \<Rightarrow> (updateTx db txId (\<lambda>r. r\<lparr>tx_hash := Some (sx_hash s), tx_status := X_simulated, tx_updatedAt := t\<rparr>),
           W_waiting (call\<lparr>wc_stage := W_broadcast s\<rparr>))))"

definition execute_broadcasted ::
  "'e withdraw_env_scheme \<Rightarrow> int \<Rightarrow> string \<Rightarrow> withdraw_call \<Rightarrow> signed_transaction \<Rightarrow> unit result \<Rightarrow>
     'a withdraw_db_scheme \<Rightarrow> 'a withdraw_db_scheme \<times> withdraw_progress" where
  "execute_broadcasted W t ev call s answer db = (let txId = wc_txId call; p = wc_pending call; chain = qt_chainId (pn_quote p) in
     case answer of
       Inl e \<Rightarrow> withdraw_fail t ev txId chain (''broadcast failed: '' @ xe_message W e) (Some (sx_hash s)) db
     | Inr _ \<Rightarrow>
        (audit_append t (withdraw_event Au_ok (''Withdrawal submitted: '' @ tv_formatted (qt_amount (pn_quote p)) @ '' '' @
           pn_symbol p @ '' to '' @ pn_to p) chain (wc_mode call) txId)
           (updateTx db txId (\<lambda>r. r\<lparr>tx_status := X_submitted, tx_updatedAt := t\<rparr>)),
         W_waiting (call\<lparr>wc_stage := W_confirm s (t + CONFIRM_TIMEOUT_MS) ev\<rparr>)))"

datatype chain_tx_state = Tx_pending | Tx_confirmed | Tx_failed | Tx_unknown

definition confirmed_status :: "chain_tx_state result \<Rightarrow> withdraw_status option" where
  "confirmed_status answer = (case answer of Inr Tx_confirmed \<Rightarrow> Some Ws_confirmed | Inr Tx_failed \<Rightarrow> Some Ws_failed | _ \<Rightarrow> None)"

definition withdraw_settle :: "int \<Rightarrow> withdraw_call \<Rightarrow> signed_transaction \<Rightarrow> string \<Rightarrow> withdraw_status \<Rightarrow> 'a withdraw_db_scheme \<Rightarrow>
     'a withdraw_db_scheme \<times> withdraw_progress" where
  "withdraw_settle t call s ev status db = (let txId = wc_txId call; chain = qt_chainId (pn_quote (wc_pending call)) in
     (if status = Ws_submitted then db
      else updateTx db txId (\<lambda>r. r\<lparr>tx_status := tx_status_of status, tx_updatedAt := t\<rparr>),
      W_finished \<lparr>wr_txId = txId, wr_txHash = Some (sx_hash s), wr_status = status,
        wr_explorerUrl = Some (explorerUrl chain (sx_hash s)), wr_activityId = ev\<rparr>))"

text \<open>One poll: an answer that is final ends the call; otherwise it sleeps, and \<open>t\<close> is the time after the sleep, when the
  loop looks at the deadline again.\<close>

definition confirm_polled :: "int \<Rightarrow> withdraw_call \<Rightarrow> signed_transaction \<Rightarrow> int \<Rightarrow> string \<Rightarrow> chain_tx_state result \<Rightarrow>
     'a withdraw_db_scheme \<Rightarrow> 'a withdraw_db_scheme \<times> withdraw_progress" where
  "confirm_polled t call s deadline ev answer db = (case confirmed_status answer of
     Some status \<Rightarrow> withdraw_settle t call s ev status db
   | None \<Rightarrow> if t < deadline then (db, W_waiting call) else withdraw_settle t call s ev Ws_submitted db)"

section \<open>Listing and refreshing\<close>

definition withdraw_list :: "'a withdraw_db_scheme \<Rightarrow> int option \<Rightarrow> withdraw_result list" where
  "withdraw_list db limit = map withdraw_toResult
     (take (nat (min (max (case limit of None \<Rightarrow> 50 | Some n \<Rightarrow> n) 1) 200)) (rev (sort_key tx_createdAt (wd_rows db))))"

text \<open>A refresh asks the chain only about a submitted row with a hash and an adapter; the second part has the answer.\<close>

definition refresh_begin :: "'e withdraw_env_scheme \<Rightarrow> string \<Rightarrow> 'a withdraw_db_scheme \<Rightarrow> (string, withdraw_result option) sum" where
  "refresh_begin W txId db = (case getTx db txId of
     None \<Rightarrow> Inr None
   | Some r \<Rightarrow> if tx_status r \<noteq> X_submitted \<or> tx_hash r = None \<or> tx_hash r = Some [] \<or> tx_chain r \<notin> set (we_adapters W)
       then Inr (Some (withdraw_toResult r)) else Inl (the (tx_hash r)))"

definition refresh_answered :: "int \<Rightarrow> string \<Rightarrow> chain_tx_state result \<Rightarrow> 'a withdraw_db_scheme \<Rightarrow> 'a withdraw_db_scheme \<times> withdraw_result option" where
  "refresh_answered t txId answer db = (let db = (case confirmed_status answer of
       None \<Rightarrow> db | Some status \<Rightarrow> updateTx db txId (\<lambda>r. r\<lparr>tx_status := tx_status_of status, tx_updatedAt := t\<rparr>))
     in (db, map_option withdraw_toResult (getTx db txId)))"

end
