(* ===== verification/Withdraw_Props.thy ===== *)
theory Withdraw_Props
  imports Withdrawals
begin

text \<open>
  Correctness of \<open>Withdrawals\<close>. The machine runs any number of calls side by side: quotes, executions, refreshes, the
  answers they await, crashes and whatever else changes the rest of the database. Its invariant ties every
  waiting call and every use of the key to one row of the table.
\<close>

section \<open>The machine\<close>

record withdraw_key =
  wk_txId :: string
  wk_pending :: pending_quote
  wk_signed :: signed_transaction

text \<open>\<open>wy_refreshes\<close>: the transactions the chain is being asked about; \<open>wy_issued\<close>: every quote id handed out;
  \<open>wy_began\<close>: the two readings of the clock that began a withdrawal, the one its quote was pruned by and the one
  its row carries.\<close>

record withdraw_sys =
  wy_db :: withdraw_db
  wy_calls :: "string \<rightharpoonup> withdraw_call"
  wy_refreshes :: "string set"
  wy_issued :: "string set"
  wy_began :: "string \<rightharpoonup> int \<times> int"

definition advance_call :: "withdraw_sys \<Rightarrow> string \<Rightarrow> withdraw_db \<times> withdraw_progress \<Rightarrow> withdraw_sys" where
  "advance_call sy i r = sy\<lparr>wy_db := fst r,
     wy_calls := (wy_calls sy)(i := (case snd r of W_waiting c \<Rightarrow> Some c | _ \<Rightarrow> None))\<rparr>"

text \<open>The use of the key in the step that resumes a call with its signing context.\<close>

definition withdraw_key_used :: "withdraw_call \<Rightarrow> withdraw_progress \<Rightarrow> withdraw_key option" where
  "withdraw_key_used c pr = (case pr of
     W_waiting c' \<Rightarrow> (case wc_stage c' of
         W_broadcast s \<Rightarrow> Some \<lparr>wk_txId = wc_txId c, wk_pending = wc_pending c, wk_signed = s\<rparr> | _ \<Rightarrow> None)
   | _ \<Rightarrow> None)"

inductive withdraw_step :: "'e withdraw_env_scheme \<Rightarrow> withdraw_sys \<Rightarrow> withdraw_key option \<Rightarrow> withdraw_sys \<Rightarrow> bool" for W where
  quote_asked: "withdraw_step W sy None (sy\<lparr>wy_db := fst (quote_begin W t rq (wy_db sy))\<rparr>)"
| quoted: "quote_finish W t q qc reading a1 a2 px npx (wy_db sy) = Inr (db, quote) \<Longrightarrow> q \<notin> wy_issued sy \<Longrightarrow>
    withdraw_step W sy None (sy\<lparr>wy_db := db, wy_issued := insert q (wy_issued sy)\<rparr>)"
| begun: "execute_begin W t t' i q confirmation key (wy_db sy) = (db, W_waiting c) \<Longrightarrow>
    withdraw_step W sy None (sy\<lparr>wy_db := db, wy_calls := (wy_calls sy)(i \<mapsto> c), wy_began := (wy_began sy)(i \<mapsto> (t, t'))\<rparr>)"
| not_begun: "execute_begin W t t' i q confirmation key (wy_db sy) = (db, pr) \<Longrightarrow> \<forall>c. pr \<noteq> W_waiting c \<Longrightarrow>
    withdraw_step W sy None (sy\<lparr>wy_db := db\<rparr>)"
| prepared: "wy_calls sy i = Some c \<Longrightarrow> wc_stage c = W_context \<Longrightarrow> execute_prepared W t ev vault c answer (wy_db sy) = r \<Longrightarrow>
    withdraw_step W sy (withdraw_key_used c (snd r)) (advance_call sy i r)"
| broadcasted: "wy_calls sy i = Some c \<Longrightarrow> wc_stage c = W_broadcast s \<Longrightarrow> execute_broadcasted W t ev c s bc (wy_db sy) = r \<Longrightarrow>
    withdraw_step W sy None (advance_call sy i r)"
| polled: "wy_calls sy i = Some c \<Longrightarrow> wc_stage c = W_confirm s deadline ev \<Longrightarrow>
    confirm_polled t c s deadline ev poll (wy_db sy) = r \<Longrightarrow> withdraw_step W sy None (advance_call sy i r)"
| refresh_asked: "refresh_begin W i (wy_db sy) = Inl h \<Longrightarrow>
    withdraw_step W sy None (sy\<lparr>wy_refreshes := insert i (wy_refreshes sy)\<rparr>)"
| refreshed: "i \<in> wy_refreshes sy \<Longrightarrow> refresh_answered t i poll (wy_db sy) = (db, r) \<Longrightarrow>
    withdraw_step W sy None (sy\<lparr>wy_db := db\<rparr>)"
| crashed: "wd_rows db = wd_rows (wy_db sy) \<Longrightarrow> wd_quotes db = Map.empty \<Longrightarrow>
    withdraw_step W sy None (sy\<lparr>wy_db := db, wy_calls := Map.empty, wy_refreshes := {}\<rparr>)"
| elsewhere: "wd_rows db = wd_rows (wy_db sy) \<Longrightarrow> wd_quotes db = wd_quotes (wy_db sy) \<Longrightarrow>
    withdraw_step W sy None (sy\<lparr>wy_db := db\<rparr>)"

inductive withdraw_run :: "'e withdraw_env_scheme \<Rightarrow> withdraw_sys \<Rightarrow> withdraw_key list \<Rightarrow> withdraw_sys \<Rightarrow> bool" for W where
  run_start: "withdraw_run W sy [] sy"
| run_next: "withdraw_run W sy tr sy1 \<Longrightarrow> withdraw_step W sy1 e sy2 \<Longrightarrow>
    withdraw_run W sy (case e of None \<Rightarrow> tr | Some k \<Rightarrow> k # tr) sy2"

section \<open>What the operations do to the rows\<close>

lemma db_frames [simp]:
  "wd_rows (pruneQuotes t db) = wd_rows db" "wd_rows (audit_append t e db) = wd_rows (db :: 'a withdraw_db_scheme)"
  "wd_quotes (audit_append t e db) = wd_quotes (db :: 'a withdraw_db_scheme)" "wd_quotes (updateTx db i f) = wd_quotes db"
  "wd_quotes (appendTx db r) = wd_quotes db"
  by (simp_all add: pruneQuotes_def audit_append_def updateTx_def appendTx_def)

lemma same_rows: "wd_rows db' = wd_rows db \<Longrightarrow> getTx db' = getTx db"
  by (auto simp: getTx_def fun_eq_iff)

lemma getTx_frames [simp]:
  "getTx (pruneQuotes t db) = getTx db" "getTx (audit_append t e db) = getTx (db :: 'a withdraw_db_scheme)"
  "getTx (db\<lparr>wd_quotes := m\<rparr>) = getTx db"
  by (rule same_rows, simp)+

lemma quote_begin_db: "fst (quote_begin W t rq db) = pruneQuotes t db"
  by (simp add: quote_begin_def Let_def)

lemma quote_finish_db:
  assumes "quote_finish W t q qc reading a1 a2 px npx db = Inr (db', quote)"
  shows "\<exists>p. db' = db\<lparr>wd_quotes := (wd_quotes db)(q \<mapsto> p)\<rparr> \<and> pn_quote p = quote \<and> pn_createdAt p = t"
  using assms by (auto simp: quote_finish_def Let_def sbind_eq_Inr quote_of_def)

lemma pruned_quote: "wd_quotes (pruneQuotes t db) q = Some p \<longleftrightarrow>
    wd_quotes db q = Some p \<and> t - pn_createdAt p \<le> WITHDRAW_QUOTE_TTL_MS"
  by (auto simp: pruneQuotes_def split: option.splits)

text \<open>When a call begins: the quote was there, young enough, submittable and confirmed, it is gone, and the row is new.\<close>

lemma insertTx_Inr: "insertTx db r = Inr db' \<longleftrightarrow> tx_id r \<notin> tx_id ` set (wd_rows db) \<and>
    (tx_idempotencyKey r = None \<or> tx_idempotencyKey r \<notin> tx_idempotencyKey ` set (wd_rows db)) \<and> db' = appendTx db r"
  by (auto simp: insertTx_def)

lemma appendTx_mode [simp]: "getMode (appendTx db r) = getMode db"
  by (simp add: appendTx_def getMode_def)

lemma tx_row_of_key [simp]: "tx_id (tx_row_of t i m key p) = i" "tx_idempotencyKey (tx_row_of t i m key p) = key"
  by (simp_all add: tx_row_of_def)

lemma begin_parts:
  assumes "execute_begin W t t' i q confirmation key db = (db', W_waiting c)"
  defines "db1 \<equiv> (pruneQuotes t db)\<lparr>wd_quotes := (wd_quotes (pruneQuotes t db))(q := None)\<rparr>"
  shows "\<exists>p. wd_quotes (pruneQuotes t db) q = Some p \<and> qt_submittable (pn_quote p) \<and> confirmation = Some ''WITHDRAW'' \<and>
    insertTx db1 (tx_row_of t' i (getMode db1) key p) = Inr db' \<and>
    c = \<lparr>wc_txId = i, wc_pending = p, wc_mode = getMode db', wc_stage = W_context\<rparr>"
  using assms(1) unfolding execute_begin_def Let_def db1_def
  by (simp split: option.splits if_split_asm sum.split_asm)

lemma begin_waits:
  assumes "execute_begin W t t' i q confirmation key db = (db', W_waiting c)"
  obtains p where "wd_quotes db q = Some p" "t - pn_createdAt p \<le> WITHDRAW_QUOTE_TTL_MS" "qt_submittable (pn_quote p)"
    "confirmation = Some ''WITHDRAW''" "getTx db i = None" "key = None \<or> key \<notin> tx_idempotencyKey ` set (wd_rows db)"
    "c = \<lparr>wc_txId = i, wc_pending = p, wc_mode = getMode db', wc_stage = W_context\<rparr>"
    "wd_rows db' = wd_rows db @ [tx_row_of t' i (getMode db') key p]" "wd_quotes db' = (wd_quotes (pruneQuotes t db))(q := None)"
proof -
  define db1 where "db1 = (pruneQuotes t db)\<lparr>wd_quotes := (wd_quotes (pruneQuotes t db))(q := None)\<rparr>"
  have r: "wd_rows db1 = wd_rows db" by (simp add: db1_def)
  obtain p where p: "wd_quotes (pruneQuotes t db) q = Some p" "qt_submittable (pn_quote p)" "confirmation = Some ''WITHDRAW''"
    "insertTx db1 (tx_row_of t' i (getMode db1) key p) = Inr db'"
    "c = \<lparr>wc_txId = i, wc_pending = p, wc_mode = getMode db', wc_stage = W_context\<rparr>"
    using begin_parts [OF assms] unfolding db1_def by blast
  have ins: "i \<notin> tx_id ` set (wd_rows db)" "key = None \<or> key \<notin> tx_idempotencyKey ` set (wd_rows db)"
    "db' = appendTx db1 (tx_row_of t' i (getMode db1) key p)" using p(4) by (auto simp: insertTx_Inr r)
  have "getTx db i = None" using ins(1) by (simp add: wtx.look_None)
  moreover have "wd_rows db' = wd_rows db @ [tx_row_of t' i (getMode db') key p]" by (simp add: ins(3) wtx.ins r)
  moreover have "wd_quotes db' = (wd_quotes (pruneQuotes t db))(q := None)" by (simp add: ins(3) db1_def)
  ultimately show ?thesis using p ins(2) by (intro that [of p]) (auto simp: pruned_quote)
qed

lemma begin_stops:
  assumes "execute_begin W t t' i q confirmation key db = (db', pr)" "\<forall>c. pr \<noteq> W_waiting c"
  shows "wd_rows db' = wd_rows db" "wd_quotes db' q' = Some p \<Longrightarrow> wd_quotes db q' = Some p"
  using assms
  by (auto simp: execute_begin_def Let_def insertTx_Inr pruned_quote split: option.splits if_split_asm sum.split_asm)

text \<open>The columns no statement after the insert touches.\<close>

definition tx_static :: "tx_row \<Rightarrow> tx_row" where
  "tx_static r = r\<lparr>tx_hash := None, tx_status := X_prepared, tx_updatedAt := 0, tx_errorMessage := None\<rparr>"

lemma tx_static_updates [simp]:
  "tx_static (r\<lparr>tx_hash := h\<rparr>) = tx_static r" "tx_static (r\<lparr>tx_status := st\<rparr>) = tx_static r"
  "tx_static (r\<lparr>tx_updatedAt := t\<rparr>) = tx_static r" "tx_static (r\<lparr>tx_errorMessage := m\<rparr>) = tx_static r"
  by (simp_all add: tx_static_def)

lemma tx_staticD:
  assumes "tx_static r = tx_static r'"
  shows "tx_id r = tx_id r'" "tx_idempotencyKey r = tx_idempotencyKey r'" "tx_createdAt r = tx_createdAt r'" "tx_mode r = tx_mode r'"
  using assms by (auto simp: tx_static_def dest: arg_cong [of _ _ tx_id] arg_cong [of _ _ tx_idempotencyKey]
      arg_cong [of _ _ tx_createdAt] arg_cong [of _ _ tx_mode])

text \<open>A row that books a quote: the quote's transfer column by column, begun while the quote was young and submittable.
  \<open>b\<close>: the readings that began it.\<close>

definition books :: "(int \<times> int) option \<Rightarrow> pending_quote \<Rightarrow> tx_row \<Rightarrow> bool" where
  "books b p r \<longleftrightarrow> tx_static r = tx_static (tx_row_of (tx_createdAt r) (tx_id r) (tx_mode r) (tx_idempotencyKey r) p) \<and>
     (\<exists>t. b = Some (t, tx_createdAt r) \<and> t - pn_createdAt p \<le> WITHDRAW_QUOTE_TTL_MS) \<and> qt_submittable (pn_quote p)"

lemma books_static: "tx_static r = tx_static r' \<Longrightarrow> books b p r = books b p r'"
  using tx_staticD [of r r'] by (simp add: books_def)

definition final_status :: "tx_status set" where
  "final_status = {X_submitted, X_confirmed, X_failed}"

fun stage_matches :: "withdraw_stage \<Rightarrow> tx_row \<Rightarrow> bool" where
  "stage_matches W_context r \<longleftrightarrow> tx_status r = X_prepared \<and> tx_hash r = None"
| "stage_matches (W_broadcast s) r \<longleftrightarrow> tx_status r = X_simulated \<and> tx_hash r = Some (sx_hash s)"
| "stage_matches (W_confirm s _ _) r \<longleftrightarrow> tx_status r \<in> final_status \<and> tx_hash r = Some (sx_hash s)"

section \<open>The invariant\<close>

definition call_ok :: "withdraw_key list \<Rightarrow> withdraw_sys \<Rightarrow> string \<Rightarrow> withdraw_call \<Rightarrow> bool" where
  "call_ok tr sy i c \<longleftrightarrow> wc_txId c = i \<and>
     (\<exists>r. getTx (wy_db sy) i = Some r \<and> books (wy_began sy i) (wc_pending c) r \<and> stage_matches (wc_stage c) r) \<and>
     (wc_stage c = W_context \<longrightarrow> i \<notin> wk_txId ` set tr) \<and> (\<forall>s. wc_stage c = W_broadcast s \<longrightarrow> i \<notin> wy_refreshes sy)"

definition key_ok :: "withdraw_sys \<Rightarrow> withdraw_key \<Rightarrow> bool" where
  "key_ok sy k \<longleftrightarrow> (\<exists>r. getTx (wy_db sy) (wk_txId k) = Some r \<and> books (wy_began sy (wk_txId k)) (wk_pending k) r \<and>
     tx_hash r = Some (sx_hash (wk_signed k)) \<and> tx_status r \<noteq> X_prepared)"

definition refresh_ok :: "withdraw_sys \<Rightarrow> string \<Rightarrow> bool" where
  "refresh_ok sy i \<longleftrightarrow> (\<exists>r. getTx (wy_db sy) i = Some r \<and> tx_status r \<in> final_status)"

definition keys_unique :: "'a withdraw_db_scheme \<Rightarrow> bool" where
  "keys_unique db \<longleftrightarrow> (\<forall>r \<in> set (wd_rows db). \<forall>r' \<in> set (wd_rows db).
     tx_idempotencyKey r \<noteq> None \<longrightarrow> tx_idempotencyKey r = tx_idempotencyKey r' \<longrightarrow> tx_id r = tx_id r')"

definition withdraw_inv :: "withdraw_key list \<Rightarrow> withdraw_sys \<Rightarrow> bool" where
  "withdraw_inv tr sy \<longleftrightarrow> distinct (map tx_id (wd_rows (wy_db sy))) \<and> keys_unique (wy_db sy) \<and>
     (\<forall>i c. wy_calls sy i = Some c \<longrightarrow> call_ok tr sy i c) \<and> (\<forall>i \<in> wy_refreshes sy. refresh_ok sy i) \<and>
     (\<forall>k \<in> set tr. key_ok sy k) \<and> distinct (map wk_txId tr) \<and> dom (wd_quotes (wy_db sy)) \<subseteq> wy_issued sy"

lemma call_okI: "withdraw_inv tr sy \<Longrightarrow> wy_calls sy i = Some c \<Longrightarrow> call_ok tr sy i c"
  by (simp add: withdraw_inv_def)

lemma keys_unique_update:
  assumes "keys_unique db" "wd_rows db' = wd_rows (updateTx db i f)" "\<And>r. tx_static (f r) = tx_static r"
  shows "keys_unique db'"
proof -
  have "\<exists>y \<in> set (wd_rows db). tx_id x = tx_id y \<and> tx_idempotencyKey x = tx_idempotencyKey y" if "x \<in> set (wd_rows db')" for x
    using that tx_staticD(1,2) [OF assms(3)] by (auto simp: assms(2) wtx.upd intro: rev_bexI)
  with assms(1) show ?thesis unfolding keys_unique_def by metis
qed

lemma keys_unique_append:
  assumes "keys_unique db" "wd_rows db' = wd_rows db @ [r]"
    "tx_idempotencyKey r = None \<or> tx_idempotencyKey r \<notin> tx_idempotencyKey ` set (wd_rows db)"
  shows "keys_unique db'"
  unfolding keys_unique_def
proof (intro ballI impI)
  fix x y
  assume x: "x \<in> set (wd_rows db')" and y: "y \<in> set (wd_rows db')"
    and k: "tx_idempotencyKey x \<noteq> None" "tx_idempotencyKey x = tx_idempotencyKey y"
  have "x = y \<or> x \<in> set (wd_rows db) \<and> y \<in> set (wd_rows db)"
    using x y k assms(3) unfolding assms(2) by (metis Un_iff set_append image_eqI list.set_intros(1) set_ConsD empty_iff list.set(1))
  then show "tx_id x = tx_id y" using assms(1) k unfolding keys_unique_def by blast
qed

lemma getTx_update:
  assumes "wd_rows db' = wd_rows (updateTx db i f)" "\<And>r. tx_static (f r) = tx_static r"
  shows "getTx db' j = (if j = i then map_option f (getTx db i) else getTx db j)"
  using wtx.look_upd [of f db i j] tx_staticD(1) [OF assms(2)] same_rows [OF assms(1)] by simp

text \<open>A statement on one row: what has to hold of the row, of the call and of the use of the key that go with it.\<close>

lemma inv_row:
  assumes inv: "withdraw_inv tr sy" and r: "getTx (wy_db sy) i = Some r"
    and rows: "wd_rows db = wd_rows (updateTx (wy_db sy) i f)" and quotes: "dom (wd_quotes db) \<subseteq> dom (wd_quotes (wy_db sy))"
    and f: "\<And>r. tx_static (f r) = tx_static r" and hash: "tx_hash r \<noteq> None \<Longrightarrow> tx_hash (f r) = tx_hash r"
    and st: "tx_status (f r) \<noteq> X_prepared"
    and co: "\<And>c. co = Some c \<Longrightarrow> wc_txId c = i \<and> books (wy_began sy i) (wc_pending c) r \<and> stage_matches (wc_stage c) (f r) \<and>
       (\<forall>s. wc_stage c = W_broadcast s \<longrightarrow> i \<notin> wy_refreshes sy)"
    and ref: "i \<in> wy_refreshes sy \<Longrightarrow> tx_status (f r) \<in> final_status"
    and ko: "\<And>k. ko = Some k \<Longrightarrow> wk_txId k = i \<and> books (wy_began sy i) (wk_pending k) r \<and> tx_hash (f r) = Some (sx_hash (wk_signed k)) \<and>
       i \<notin> wk_txId ` set tr"
  shows "withdraw_inv (case ko of None \<Rightarrow> tr | Some k \<Rightarrow> k # tr) (sy\<lparr>wy_db := db, wy_calls := (wy_calls sy)(i := co)\<rparr>)"
proof -
  let ?sy = "sy\<lparr>wy_db := db, wy_calls := (wy_calls sy)(i := co)\<rparr>" and ?tr = "case ko of None \<Rightarrow> tr | Some k \<Rightarrow> k # tr"
  note g = getTx_update [OF rows f]
  have b: "books b p (f r) = books b p r" for b p by (rule books_static [OF f])
  have "distinct (map tx_id (wd_rows db))"
    using wtx.unique_upd [of f "wy_db sy" i] tx_staticD(1) [OF f] inv rows by (simp add: withdraw_inv_def)
  moreover have "keys_unique db" using keys_unique_update [OF _ rows f] inv by (simp add: withdraw_inv_def)
  moreover have "call_ok ?tr ?sy j c" if c: "((wy_calls sy)(i := co)) j = Some c" for j c
  proof (cases "j = i")
    case True
    then show ?thesis using co [of c] c r st b ko by (cases "wc_stage c") (auto simp: call_ok_def g)
  next
    case False
    then have "call_ok tr sy j c" using c inv by (auto simp: withdraw_inv_def)
    then show ?thesis using False ko by (auto simp: call_ok_def g split: option.split)
  qed
  moreover have "refresh_ok ?sy j" if "j \<in> wy_refreshes sy" for j
  proof -
    have "refresh_ok sy j" using that inv by (simp add: withdraw_inv_def)
    then show ?thesis using that ref r by (auto simp: refresh_ok_def g)
  qed
  moreover have "key_ok ?sy k" if "k \<in> set ?tr" for k
  proof (cases "k \<in> set tr")
    case True
    then have "key_ok sy k" using inv by (simp add: withdraw_inv_def)
    then show ?thesis using r hash st b by (auto simp: key_ok_def g)
  next
    case False
    then have "ko = Some k" using that by (auto split: option.splits)
    then show ?thesis using ko [of k] r st b by (auto simp: key_ok_def g)
  qed
  moreover have "distinct (map wk_txId ?tr)" using inv ko by (auto simp: withdraw_inv_def split: option.split)
  moreover have "dom (wd_quotes db) \<subseteq> wy_issued sy" using quotes inv unfolding withdraw_inv_def by (meson subset_trans)
  ultimately show ?thesis unfolding withdraw_inv_def by simp
qed

text \<open>A step that leaves the rows alone.\<close>

lemma inv_same:
  assumes "withdraw_inv tr sy" "wd_rows (wy_db sy') = wd_rows (wy_db sy)" "wy_calls sy' \<subseteq>\<^sub>m wy_calls sy"
    "wy_refreshes sy' \<subseteq> wy_refreshes sy" "dom (wd_quotes (wy_db sy')) \<subseteq> wy_issued sy'"
    "wy_began sy' = wy_began sy"
  shows "withdraw_inv tr sy'"
proof -
  note g = same_rows [OF assms(2)]
  have "call_ok tr sy' i c" if "wy_calls sy' i = Some c" for i c
  proof -
    have "wy_calls sy i = Some c" using assms(3) that by (auto simp: map_le_def dom_def)
    then have "call_ok tr sy i c" using assms(1) by (simp add: withdraw_inv_def)
    then show ?thesis using assms(4) by (auto simp: call_ok_def g assms(6))
  qed
  moreover have "\<forall>i \<in> wy_refreshes sy'. refresh_ok sy' i" "\<forall>k \<in> set tr. key_ok sy' k"
    using assms(1,4) by (auto simp: withdraw_inv_def refresh_ok_def key_ok_def g assms(6))
  moreover have "keys_unique (wy_db sy')"
  proof -
    have "keys_unique (wy_db sy)" using assms(1) by (simp add: withdraw_inv_def)
    then show ?thesis by (simp only: keys_unique_def assms(2))
  qed
  ultimately show ?thesis using assms(1,2,5) by (simp add: withdraw_inv_def)
qed

lemma books_new:
  assumes "t - pn_createdAt p \<le> WITHDRAW_QUOTE_TTL_MS" "qt_submittable (pn_quote p)"
  shows "books (Some (t, t')) p (tx_row_of t' i m key p)"
  using assms by (simp add: books_def tx_row_of_def)

text \<open>The start of a call.\<close>

lemma inv_begun:
  assumes inv: "withdraw_inv tr sy" and b: "execute_begin W t t' i q confirmation key (wy_db sy) = (db, W_waiting c)"
  shows "withdraw_inv tr (sy\<lparr>wy_db := db, wy_calls := (wy_calls sy)(i \<mapsto> c), wy_began := (wy_began sy)(i \<mapsto> (t, t'))\<rparr>)"
proof -
  let ?sy = "sy\<lparr>wy_db := db, wy_calls := (wy_calls sy)(i \<mapsto> c), wy_began := (wy_began sy)(i \<mapsto> (t, t'))\<rparr>"
  obtain p where p: "wd_quotes (wy_db sy) q = Some p" "t - pn_createdAt p \<le> WITHDRAW_QUOTE_TTL_MS"
    "qt_submittable (pn_quote p)" "confirmation = Some ''WITHDRAW''" "getTx (wy_db sy) i = None"
    "key = None \<or> key \<notin> tx_idempotencyKey ` set (wd_rows (wy_db sy))"
    "c = \<lparr>wc_txId = i, wc_pending = p, wc_mode = getMode db, wc_stage = W_context\<rparr>"
    "wd_rows db = wd_rows (wy_db sy) @ [tx_row_of t' i (getMode db) key p]"
    "wd_quotes db = (wd_quotes (pruneQuotes t (wy_db sy)))(q := None)" by (rule begin_waits [OF b])
  define r where "r = tx_row_of t' i (getMode db) key p"
  have g: "getTx db j = (case getTx (wy_db sy) j of Some s \<Rightarrow> Some s | None \<Rightarrow> if i = j then Some r else None)" for j
    by (auto simp: getTx_def p(8) find_append r_def split: option.split)
  have old: "getTx db j = Some s" if "getTx (wy_db sy) j = Some s" for j s using that by (simp add: g)
  have new: "getTx db i = Some r" "books (Some (t, t')) p r" "stage_matches W_context r"
    using p(2,3,5) by (auto simp: g books_new r_def) (auto simp: tx_row_of_def)
  have fresh: "i \<notin> wk_txId ` set tr" using inv p(5) by (force simp: withdraw_inv_def key_ok_def)
  have "call_ok tr ?sy j d" if "((wy_calls sy)(i \<mapsto> c)) j = Some d" for j d
  proof (cases "j = i")
    case True
    then show ?thesis using that new fresh by (auto simp: call_ok_def p(7))
  next
    case False
    then have "call_ok tr sy j d" using that inv by (simp add: withdraw_inv_def)
    then show ?thesis using old False by (fastforce simp: call_ok_def)
  qed
  moreover have "\<forall>j \<in> wy_refreshes sy. refresh_ok ?sy j"
    using inv old by (fastforce simp: withdraw_inv_def refresh_ok_def)
  moreover have "key_ok ?sy k" if "k \<in> set tr" for k
  proof -
    have "wk_txId k \<noteq> i" using fresh that by auto
    moreover have "key_ok sy k" using inv that by (simp add: withdraw_inv_def)
    ultimately show ?thesis using old by (fastforce simp: key_ok_def)
  qed
  moreover have "keys_unique db"
    using inv p(6) by (intro keys_unique_append [OF _ p(8)]) (simp_all add: withdraw_inv_def)
  moreover have "distinct (map tx_id (wd_rows db))" using inv p(5) by (auto simp: withdraw_inv_def p(8) wtx.look_None)
  moreover have "dom (wd_quotes db) \<subseteq> wy_issued sy"
  proof -
    have "dom (wd_quotes (wy_db sy)) \<subseteq> wy_issued sy" using inv by (simp add: withdraw_inv_def)
    then show ?thesis by (auto simp: p(9) pruned_quote dom_def subset_eq split: if_split_asm)
  qed
  ultimately show ?thesis using inv by (simp add: withdraw_inv_def)
qed

lemma withdraw_fail_eq:
  "withdraw_fail t ev i chain reason h db = (db', pr) \<Longrightarrow>
     wd_rows db' = wd_rows (updateTx db i (\<lambda>r. r\<lparr>tx_status := X_failed, tx_errorMessage := Some (take 500 reason), tx_updatedAt := t\<rparr>)) \<and>
     wd_quotes db' = wd_quotes db \<and> (\<forall>c. pr \<noteq> W_waiting c)"
  by (auto simp: withdraw_fail_def Let_def)

lemma execute_prepared_cases:
  assumes "execute_prepared W t ev vault c answer db = (db', pr)"
  obtains (signed) s where "pr = W_waiting (c\<lparr>wc_stage := W_broadcast s\<rparr>)"
      "db' = updateTx db (wc_txId c) (\<lambda>r. r\<lparr>tx_hash := Some (sx_hash s), tx_status := X_simulated, tx_updatedAt := t\<rparr>)"
  | (failed) reason where "withdraw_fail t ev (wc_txId c) (qt_chainId (pn_quote (wc_pending c))) reason None db = (db', pr)"
  using assms unfolding execute_prepared_def Let_def by (auto split: sum.splits)

lemma inv_step:
  assumes inv: "withdraw_inv tr sy" and st: "withdraw_step W sy e sy'"
  shows "withdraw_inv (case e of None \<Rightarrow> tr | Some k \<Rightarrow> k # tr) sy'"
  using st
proof cases
  case (quote_asked t rq)
  show ?thesis using inv unfolding quote_asked(1,2) option.case
    by (intro inv_same [OF inv]) (auto simp: quote_begin_db withdraw_inv_def pruned_quote)
next
  case (quoted t q qc reading a1 a2 px npx db quote)
  then obtain p where db: "db = (wy_db sy)\<lparr>wd_quotes := (wd_quotes (wy_db sy))(q \<mapsto> p)\<rparr>"
    using quote_finish_db by blast
  show ?thesis using inv unfolding quoted(1,2) option.case
    by (intro inv_same [OF inv]) (auto simp: db withdraw_inv_def)
next
  case (begun t t' i q confirmation key db c)
  then show ?thesis using inv_begun [OF inv begun(3)] by simp
next
  case (not_begun t t' i q confirmation key db pr)
  have "dom (wd_quotes db) \<subseteq> wy_issued sy"
    using begin_stops(2) [OF not_begun(3,4)] inv by (force simp: withdraw_inv_def)
  then show ?thesis unfolding not_begun(1,2) option.case
    using begin_stops(1) [OF not_begun(3,4)] by (intro inv_same [OF inv]) auto
next
  case (prepared i c t ev vault answer r)
  obtain row where row: "getTx (wy_db sy) i = Some row" "books (wy_began sy i) (wc_pending c) row" "tx_hash row = None" "tx_status row = X_prepared"
    "wc_txId c = i" "i \<notin> wk_txId ` set tr"
    using call_okI [OF inv prepared(3)] prepared(4) unfolding call_ok_def by auto
  have "i \<notin> wy_refreshes sy" using inv row(1,4) by (force simp: withdraw_inv_def refresh_ok_def final_status_def)
  obtain db pr where r: "r = (db, pr)" by fastforce
  have "execute_prepared W t ev vault c answer (wy_db sy) = (db, pr)" using prepared(5) r by simp
  then show ?thesis
  proof (cases rule: execute_prepared_cases)
    case (signed s)
    let ?k = "\<lparr>wk_txId = i, wk_pending = wc_pending c, wk_signed = s\<rparr>"
    have "withdraw_inv (case Some ?k of None \<Rightarrow> tr | Some k \<Rightarrow> k # tr)
        (sy\<lparr>wy_db := db, wy_calls := (wy_calls sy)(i := Some (c\<lparr>wc_stage := W_broadcast s\<rparr>))\<rparr>)"
      by (rule inv_row [OF inv row(1), where f = "\<lambda>r. r\<lparr>tx_hash := Some (sx_hash s), tx_status := X_simulated, tx_updatedAt := t\<rparr>"])
         (use row signed(2) \<open>i \<notin> wy_refreshes sy\<close> in auto)
    then show ?thesis
      unfolding prepared(1,2) advance_call_def r fst_conv snd_conv signed(1) withdraw_key_used_def by (simp add: row(5))
  next
    case (failed reason)
    note f = withdraw_fail_eq [OF failed [unfolded row(5)]]
    then have n: "(case pr of W_waiting c \<Rightarrow> Some c | _ \<Rightarrow> None) = None" "withdraw_key_used c pr = None"
      by (auto simp: withdraw_key_used_def split: withdraw_progress.split)
    have "withdraw_inv (case None of None \<Rightarrow> tr | Some k \<Rightarrow> k # tr) (sy\<lparr>wy_db := db, wy_calls := (wy_calls sy)(i := None)\<rparr>)"
      by (rule inv_row [OF inv row(1) f [THEN conjunct1]]) (use row f \<open>i \<notin> wy_refreshes sy\<close> in auto)
    then show ?thesis unfolding prepared(1,2) advance_call_def r fst_conv snd_conv n by simp
  qed
next
  case (broadcasted i c s t ev bc r)
  obtain row where row: "getTx (wy_db sy) i = Some row" "books (wy_began sy i) (wc_pending c) row" "tx_hash row = Some (sx_hash s)"
    "wc_txId c = i" "i \<notin> wy_refreshes sy"
    using call_okI [OF inv broadcasted(3)] broadcasted(4) unfolding call_ok_def by auto
  obtain db pr where r: "r = (db, pr)" by fastforce
  show ?thesis
  proof (cases bc)
    case (Inl err)
    then have f: "withdraw_fail t ev i (qt_chainId (pn_quote (wc_pending c))) (''broadcast failed: '' @ xe_message W err)
        (Some (sx_hash s)) (wy_db sy) = (db, pr)"
      using broadcasted(5) r row(4) by (simp add: execute_broadcasted_def Let_def)
    then have n: "(case pr of W_waiting c \<Rightarrow> Some c | _ \<Rightarrow> None) = None" by (auto split: withdraw_progress.split dest: withdraw_fail_eq)
    have "withdraw_inv (case None of None \<Rightarrow> tr | Some k \<Rightarrow> k # tr) (sy\<lparr>wy_db := db, wy_calls := (wy_calls sy)(i := None)\<rparr>)"
      by (rule inv_row [OF inv row(1) withdraw_fail_eq [OF f, THEN conjunct1]]) (use row withdraw_fail_eq [OF f] in auto)
    then show ?thesis unfolding broadcasted(1,2) advance_call_def r fst_conv snd_conv n by simp
  next
    case (Inr u)
    then have d: "wd_rows db = wd_rows (updateTx (wy_db sy) i (\<lambda>r. r\<lparr>tx_status := X_submitted, tx_updatedAt := t\<rparr>))"
      "wd_quotes db = wd_quotes (wy_db sy)" "pr = W_waiting (c\<lparr>wc_stage := W_confirm s (t + CONFIRM_TIMEOUT_MS) ev\<rparr>)"
      using broadcasted(5) r row(4) by (auto simp: execute_broadcasted_def Let_def)
    have "withdraw_inv (case None of None \<Rightarrow> tr | Some k \<Rightarrow> k # tr)
        (sy\<lparr>wy_db := db, wy_calls := (wy_calls sy)(i := Some (c\<lparr>wc_stage := W_confirm s (t + CONFIRM_TIMEOUT_MS) ev\<rparr>))\<rparr>)"
      by (rule inv_row [OF inv row(1) d(1)]) (use row d(2) in \<open>auto simp: final_status_def\<close>)
    then show ?thesis unfolding broadcasted(1,2) advance_call_def r fst_conv snd_conv d(3) by simp
  qed
next
  case (polled i c s deadline ev t poll r)
  obtain row where row: "getTx (wy_db sy) i = Some row" "books (wy_began sy i) (wc_pending c) row" "tx_hash row = Some (sx_hash s)"
    "tx_status row \<in> final_status" "wc_txId c = i"
    using call_okI [OF inv polled(3)] polled(4) unfolding call_ok_def by auto
  obtain db pr where r: "r = (db, pr)" by fastforce
  have issued: "dom (wd_quotes (wy_db sy)) \<subseteq> wy_issued sy" using inv by (simp add: withdraw_inv_def)
  consider (wait) "db = wy_db sy" "pr = W_waiting c"
    | (stay) "db = wy_db sy" "\<forall>d. pr \<noteq> W_waiting d"
    | (settled) status where "db = updateTx (wy_db sy) i (\<lambda>r. r\<lparr>tx_status := tx_status_of status, tx_updatedAt := t\<rparr>)" "\<forall>d. pr \<noteq> W_waiting d"
    using polled(5) r row(5) by (auto simp: confirm_polled_def withdraw_settle_def Let_def split: option.splits if_split_asm)
  then show ?thesis
  proof cases
    case wait
    then show ?thesis using inv polled(3) unfolding polled(1,2) advance_call_def r by (simp add: fun_upd_idem)
  next
    case stay
    have "(case pr of W_waiting c \<Rightarrow> Some c | _ \<Rightarrow> None) = None" using stay(2) by (auto split: withdraw_progress.split)
    then show ?thesis unfolding polled(1,2) advance_call_def r fst_conv snd_conv option.case stay(1)
      using issued by (intro inv_same [OF inv]) (auto simp: map_le_def)
  next
    case settled
    have n: "(case pr of W_waiting c \<Rightarrow> Some c | _ \<Rightarrow> None) = None" using settled(2) by (auto split: withdraw_progress.split)
    have f: "tx_status_of status \<in> final_status" "tx_status_of status \<noteq> X_prepared" by (cases status; simp add: final_status_def)+
    have "withdraw_inv (case None of None \<Rightarrow> tr | Some k \<Rightarrow> k # tr) (sy\<lparr>wy_db := db, wy_calls := (wy_calls sy)(i := None)\<rparr>)"
      by (rule inv_row [OF inv row(1), where f = "\<lambda>r. r\<lparr>tx_status := tx_status_of status, tx_updatedAt := t\<rparr>"])
        (use row f settled(1) in auto)
    then show ?thesis unfolding polled(1,2) advance_call_def r fst_conv snd_conv n by simp
  qed
next
  case (refresh_asked i h)
  obtain row where row: "getTx (wy_db sy) i = Some row" "tx_status row = X_submitted"
    using refresh_asked(3) by (auto simp: refresh_begin_def split: option.splits if_split_asm)
  have "call_ok tr (sy\<lparr>wy_refreshes := insert i (wy_refreshes sy)\<rparr>) j c" if "wy_calls sy j = Some c" for j c
  proof -
    have "call_ok tr sy j c" using that inv by (simp add: withdraw_inv_def)
    then show ?thesis using row by (auto simp: call_ok_def)
  qed
  then show ?thesis using inv row unfolding refresh_asked(1,2)
    by (auto simp: withdraw_inv_def refresh_ok_def key_ok_def final_status_def)
next
  case (refreshed i t poll db r)
  have ref: "refresh_ok sy i" using inv refreshed(3) by (simp add: withdraw_inv_def)
  then obtain row where row: "getTx (wy_db sy) i = Some row" "tx_status row \<in> final_status" by (auto simp: refresh_ok_def)
  show ?thesis
  proof (cases "confirmed_status poll")
    case None
    then have "db = wy_db sy" using refreshed(4) by (simp add: refresh_answered_def Let_def)
    then show ?thesis using inv unfolding refreshed(1,2) by simp
  next
    case (Some status)
    have db: "db = updateTx (wy_db sy) i (\<lambda>r. r\<lparr>tx_status := tx_status_of status, tx_updatedAt := t\<rparr>)"
      using refreshed(4) Some by (simp add: refresh_answered_def Let_def)
    have f: "tx_status_of status \<in> final_status" "tx_status_of status \<noteq> X_prepared" by (cases status; simp add: final_status_def)+
    have same: "sy\<lparr>wy_db := db\<rparr> = sy\<lparr>wy_db := db, wy_calls := (wy_calls sy)(i := wy_calls sy i)\<rparr>" by simp
    have c: "wc_txId c = i \<and> books (wy_began sy i) (wc_pending c) row \<and>
        stage_matches (wc_stage c) (row\<lparr>tx_status := tx_status_of status, tx_updatedAt := t\<rparr>) \<and>
        (\<forall>s. wc_stage c = W_broadcast s \<longrightarrow> i \<notin> wy_refreshes sy)" if "wy_calls sy i = Some c" for c
    proof -
      have "call_ok tr sy i c" using that inv by (simp add: withdraw_inv_def)
      then show ?thesis using row f refreshed(3) by (cases "wc_stage c") (auto simp: call_ok_def final_status_def)
    qed
    have "withdraw_inv (case None of None \<Rightarrow> tr | Some k \<Rightarrow> k # tr) (sy\<lparr>wy_db := db, wy_calls := (wy_calls sy)(i := wy_calls sy i)\<rparr>)"
      by (rule inv_row [OF inv row(1), where f = "\<lambda>r. r\<lparr>tx_status := tx_status_of status, tx_updatedAt := t\<rparr>"])
        (use f db c in auto)
    then show ?thesis unfolding refreshed(1,2) option.case by (subst same)
  qed
next
  case (crashed db)
  then show ?thesis by (auto intro!: inv_same [OF inv] simp: map_le_def)
next
  case (elsewhere db)
  have "dom (wd_quotes db) \<subseteq> wy_issued sy" using inv elsewhere(4) by (simp add: withdraw_inv_def)
  then show ?thesis unfolding elsewhere(1,2) option.case by (intro inv_same [OF inv]) (simp_all add: elsewhere(3))
qed

end
