(* ===== verification/Withdraw_Safety.thy ===== *)
theory Withdraw_Safety
  imports Withdraw_Props
begin

text \<open>
  What the operator can rely on when withdrawing: a confirmed quote is used for at most one signature, a repeated
  request finds its row, and the row of a call that is gone is left alone. All follow from the invariant of
  \<open>Withdraw_Props\<close> and from a second one, on the quotes.
\<close>

section \<open>Quotes\<close>

definition call_quote :: "withdraw_call \<Rightarrow> string" where "call_quote c = qt_quoteId (pn_quote (wc_pending c))"
definition key_quote :: "withdraw_key \<Rightarrow> string" where "key_quote k = qt_quoteId (pn_quote (wk_pending k))"

definition quote_gone :: "withdraw_sys \<Rightarrow> string \<Rightarrow> bool" where
  "quote_gone sy q \<longleftrightarrow> q \<in> wy_issued sy \<and> wd_quotes (wy_db sy) q = None"

text \<open>A quote is in the map under its own id, or gone: taken by one call, and signed for at most once.\<close>

definition quote_inv :: "withdraw_key list \<Rightarrow> withdraw_sys \<Rightarrow> bool" where
  "quote_inv tr sy \<longleftrightarrow>
     (\<forall>q p. wd_quotes (wy_db sy) q = Some p \<longrightarrow> qt_quoteId (pn_quote p) = q \<and> q \<in> wy_issued sy) \<and>
     (\<forall>i c. wy_calls sy i = Some c \<longrightarrow> quote_gone sy (call_quote c) \<and>
        (wc_stage c = W_context \<longrightarrow> call_quote c \<notin> key_quote ` set tr)) \<and>
     (\<forall>i j c d. wy_calls sy i = Some c \<longrightarrow> wy_calls sy j = Some d \<longrightarrow> call_quote c = call_quote d \<longrightarrow> i = j) \<and>
     (\<forall>k \<in> set tr. quote_gone sy (key_quote k)) \<and> distinct (map key_quote tr)"

lemma quote_invD:
  assumes "quote_inv tr sy"
  shows "wd_quotes (wy_db sy) q = Some p \<Longrightarrow> qt_quoteId (pn_quote p) = q"
    "wd_quotes (wy_db sy) q = Some p \<Longrightarrow> q \<in> wy_issued sy"
    "wy_calls sy i = Some c \<Longrightarrow> quote_gone sy (call_quote c)"
    "wy_calls sy i = Some c \<Longrightarrow> wc_stage c = W_context \<Longrightarrow> call_quote c \<notin> key_quote ` set tr"
    "wy_calls sy i = Some c \<Longrightarrow> wy_calls sy j = Some d \<Longrightarrow> call_quote c = call_quote d \<Longrightarrow> i = j"
    "k \<in> set tr \<Longrightarrow> quote_gone sy (key_quote k)"
    "distinct (map key_quote tr)"
  using assms unfolding quote_inv_def by blast+

lemma quote_invI:
  assumes "\<forall>q p. wd_quotes (wy_db sy) q = Some p \<longrightarrow> qt_quoteId (pn_quote p) = q \<and> q \<in> wy_issued sy"
    "\<And>i c. wy_calls sy i = Some c \<Longrightarrow> quote_gone sy (call_quote c) \<and> (wc_stage c = W_context \<longrightarrow> call_quote c \<notin> key_quote ` set tr)"
    "\<And>i j c d. wy_calls sy i = Some c \<Longrightarrow> wy_calls sy j = Some d \<Longrightarrow> call_quote c = call_quote d \<Longrightarrow> i = j"
    "\<forall>k \<in> set tr. quote_gone sy (key_quote k)" "distinct (map key_quote tr)"
  shows "quote_inv tr sy"
  using assms unfolding quote_inv_def by blast

text \<open>A step in which quotes only disappear and calls only move on.\<close>

lemma quote_moves:
  assumes inv: "quote_inv tr sy" and q: "wd_quotes (wy_db sy') \<subseteq>\<^sub>m wd_quotes (wy_db sy)" and i: "wy_issued sy' = wy_issued sy"
    and c: "\<And>i d. wy_calls sy' i = Some d \<Longrightarrow>
      \<exists>c. wy_calls sy i = Some c \<and> wc_pending d = wc_pending c \<and> (wc_stage d = W_context \<longrightarrow> wc_stage c = W_context)"
  shows "quote_inv tr sy'"
proof -
  have gone: "quote_gone sy' x" if "quote_gone sy x" for x
    using that q i by (auto simp: quote_gone_def map_le_def dom_def)
  have old: "wd_quotes (wy_db sy) x = Some p" if "wd_quotes (wy_db sy') x = Some p" for x p
    using that q by (auto simp: map_le_def dom_def)
  have "quote_gone sy' (call_quote d) \<and> (wc_stage d = W_context \<longrightarrow> call_quote d \<notin> key_quote ` set tr)"
    if "wy_calls sy' j = Some d" for j d
  proof -
    note m = c [OF that]
    obtain c where "wy_calls sy j = Some c" "call_quote d = call_quote c" "wc_stage d = W_context \<longrightarrow> wc_stage c = W_context"
      using m by (auto simp: call_quote_def)
    then show ?thesis using quote_invD(3,4) [OF inv] gone by metis
  qed
  moreover have "j = l" if "wy_calls sy' j = Some d" "wy_calls sy' l = Some e" "call_quote d = call_quote e" for j l d e
    using c [OF that(1)] c [OF that(2)] that(3) quote_invD(5) [OF inv] by (auto simp: call_quote_def)
  ultimately show ?thesis using quote_invD(1,2,6,7) [OF inv] old gone i unfolding quote_inv_def by blast
qed

lemma quote_moves_same:
  "quote_inv tr sy \<Longrightarrow> wd_quotes db \<subseteq>\<^sub>m wd_quotes (wy_db sy) \<Longrightarrow> quote_inv tr (sy\<lparr>wy_db := db\<rparr>)"
  by (rule quote_moves) auto

text \<open>A new quote, under an id never handed out before.\<close>

lemma quote_issued:
  assumes inv: "quote_inv tr sy" and q: "q \<notin> wy_issued sy" "qt_quoteId (pn_quote p) = q"
    and db: "wd_quotes db = (wd_quotes (wy_db sy))(q \<mapsto> p)"
  shows "quote_inv tr (sy\<lparr>wy_db := db, wy_issued := insert q (wy_issued sy)\<rparr>)"
proof -
  have gone: "quote_gone (sy\<lparr>wy_db := db, wy_issued := insert q (wy_issued sy)\<rparr>) x" if "quote_gone sy x" for x
    using that q(1) by (auto simp: quote_gone_def db)
  show ?thesis using quote_invD [OF inv] gone q unfolding quote_inv_def by (auto simp: db split: if_split_asm)
qed

text \<open>A call that begins takes its quote out of the map.\<close>

lemma quote_taken:
  assumes inv: "quote_inv tr sy" and p: "wd_quotes (wy_db sy) q = Some p" and c: "wc_pending c = p"
    and db: "wd_quotes db \<subseteq>\<^sub>m wd_quotes (wy_db sy)" "wd_quotes db q = None"
  shows "quote_inv tr (sy\<lparr>wy_db := db, wy_calls := (wy_calls sy)(i \<mapsto> c), wy_began := b\<rparr>)" (is "quote_inv tr ?sy")
proof -
  have q: "call_quote c = q" "q \<in> wy_issued sy" using quote_invD(1,2) [OF inv p] by (simp_all add: call_quote_def c)
  have mid: "quote_inv tr (sy\<lparr>wy_db := db\<rparr>)" by (rule quote_moves_same [OF inv db(1)])
  have gone: "quote_gone ?sy x" if "quote_gone (sy\<lparr>wy_db := db\<rparr>) x" for x using that by (simp add: quote_gone_def)
  have new: "quote_gone ?sy q" using q(2) db(2) by (simp add: quote_gone_def)
  have other: "call_quote d \<noteq> q" if "wy_calls sy j = Some d" for j d
    using quote_invD(3) [OF inv that] p by (auto simp: quote_gone_def)
  have unsigned: "q \<notin> key_quote ` set tr" using quote_invD(6) [OF inv] p by (auto simp: quote_gone_def)
  have call: "j = i \<and> d = c \<or> wy_calls sy j = Some d" if "wy_calls ?sy j = Some d" for j d
    using that by (simp split: if_split_asm)
  show ?thesis
  proof (rule quote_invI)
    show "\<forall>x p. wd_quotes (wy_db ?sy) x = Some p \<longrightarrow> qt_quoteId (pn_quote p) = x \<and> x \<in> wy_issued ?sy"
      using quote_invD(1,2) [OF mid] by simp
    show "quote_gone ?sy (call_quote d) \<and> (wc_stage d = W_context \<longrightarrow> call_quote d \<notin> key_quote ` set tr)"
      if "wy_calls ?sy j = Some d" for j d
    proof (cases "wy_calls sy j = Some d")
      case True
      then have m: "wy_calls (sy\<lparr>wy_db := db\<rparr>) j = Some d" by simp
      show ?thesis using gone [OF quote_invD(3) [OF mid m]] quote_invD(4) [OF mid m] by blast
    next
      case False
      then show ?thesis using call [OF that] new unsigned q(1) by simp
    qed
    show "j = l" if "wy_calls ?sy j = Some d" "wy_calls ?sy l = Some e" "call_quote d = call_quote e" for j l d e
      using call [OF that(1)] call [OF that(2)] that(3) other quote_invD(5) [OF inv] q(1) by metis
    show "\<forall>k \<in> set tr. quote_gone ?sy (key_quote k)" using quote_invD(6) [OF mid] gone by blast
    show "distinct (map key_quote tr)" by (rule quote_invD(7) [OF inv])
  qed
qed

text \<open>A signature: the call waits for the context no longer.\<close>

lemma quote_signed:
  assumes inv: "quote_inv tr sy" and k: "quote_gone sy (key_quote k)" "key_quote k \<notin> key_quote ` set tr"
    and c: "\<forall>i c. wy_calls sy i = Some c \<longrightarrow> wc_stage c = W_context \<longrightarrow> call_quote c \<noteq> key_quote k"
  shows "quote_inv (k # tr) sy"
proof -
  have "call_quote d \<notin> key_quote ` set (k # tr)" if "wy_calls sy i = Some d" "wc_stage d = W_context" for i d
  proof -
    have "call_quote d \<noteq> key_quote k" using c that by blast
    then show ?thesis using quote_invD(4) [OF inv that] by simp
  qed
  moreover have "\<forall>x \<in> set (k # tr). quote_gone sy (key_quote x)" using quote_invD(6) [OF inv] k(1) by simp
  moreover have "distinct (map key_quote (k # tr))" using quote_invD(7) [OF inv] k(2) by simp
  ultimately show ?thesis using quote_invD(1,2,3,5) [OF inv] unfolding quote_inv_def by blast
qed

section \<open>The steps keep the invariant\<close>

lemma pruned_le: "wd_quotes (pruneQuotes t db) \<subseteq>\<^sub>m wd_quotes db"
  by (auto simp: map_le_def dom_def pruned_quote)

lemma finish_quote:
  assumes "quote_finish W t q qc reading a1 a2 px npx db = Inr (db', quote)"
  shows "\<exists>p. wd_quotes db' = (wd_quotes db)(q \<mapsto> p) \<and> qt_quoteId (pn_quote p) = q"
  using assms by (auto simp: quote_finish_def Let_def sbind_eq_Inr quote_of_def)

lemma prepared_waits:
  assumes "execute_prepared W t ev vault c answer db = (db', pr)"
  shows "wd_quotes db' = wd_quotes db" "pr = W_waiting d \<Longrightarrow> \<exists>s. d = c\<lparr>wc_stage := W_broadcast s\<rparr>"
  using assms by (auto elim!: execute_prepared_cases dest: withdraw_fail_eq)

lemma broadcast_waits:
  assumes "execute_broadcasted W t ev c s bc db = (db', pr)"
  shows "wd_quotes db' = wd_quotes db" "pr = W_waiting d \<Longrightarrow> \<exists>s u e. d = c\<lparr>wc_stage := W_confirm s u e\<rparr>"
  using assms by (auto simp: execute_broadcasted_def Let_def split: sum.splits dest: withdraw_fail_eq)

lemma poll_waits:
  assumes "confirm_polled t c s deadline ev poll db = (db', pr)"
  shows "wd_quotes db' = wd_quotes db" "pr = W_waiting d \<Longrightarrow> d = c"
  using assms by (auto simp: confirm_polled_def withdraw_settle_def Let_def split: option.splits if_split_asm)

lemma advance_moves:
  assumes inv: "quote_inv tr sy" and c: "wy_calls sy i = Some c" and q: "wd_quotes (fst r) = wd_quotes (wy_db sy)"
    and w: "\<forall>d. snd r = W_waiting d \<longrightarrow> wc_pending d = wc_pending c \<and> wc_stage d \<noteq> W_context"
  shows "quote_inv tr (advance_call sy i r)"
    "wy_calls (advance_call sy i r) j = Some d \<Longrightarrow> wc_stage d = W_context \<Longrightarrow> j \<noteq> i \<and> wy_calls sy j = Some d"
proof -
  show "quote_inv tr (advance_call sy i r)"
    using c q w by (intro quote_moves [OF inv]) (auto simp: advance_call_def split: withdraw_progress.splits if_split_asm)
  show "wy_calls (advance_call sy i r) j = Some d \<Longrightarrow> wc_stage d = W_context \<Longrightarrow> j \<noteq> i \<and> wy_calls sy j = Some d"
    using w by (auto simp: advance_call_def split: withdraw_progress.splits if_split_asm)
qed

lemma quote_step:
  assumes inv: "quote_inv tr sy" and st: "withdraw_step W sy e sy'"
  shows "quote_inv (case e of None \<Rightarrow> tr | Some k \<Rightarrow> k # tr) sy'"
  using st
proof cases
  case (quote_asked t rq)
  then show ?thesis using quote_moves_same [OF inv pruned_le] by (simp add: quote_begin_db)
next
  case (quoted t q qc reading a1 a2 px npx db quote)
  obtain p where "wd_quotes db = (wd_quotes (wy_db sy))(q \<mapsto> p)" "qt_quoteId (pn_quote p) = q" using finish_quote [OF quoted(3)] by blast
  then show ?thesis using quote_issued [OF inv quoted(4)] quoted(1,2) by simp
next
  case (begun t t' i q confirmation key db c)
  obtain p where p: "wd_quotes (wy_db sy) q = Some p" "c = \<lparr>wc_txId = i, wc_pending = p, wc_mode = getMode db, wc_stage = W_context\<rparr>"
    "wd_quotes db = (wd_quotes (pruneQuotes t (wy_db sy)))(q := None)" by (rule begin_waits [OF begun(3)])
  have "wd_quotes db \<subseteq>\<^sub>m wd_quotes (wy_db sy)" using pruned_le [of t "wy_db sy"] by (auto simp: p(3) map_le_def dom_def)
  then show ?thesis using quote_taken [OF inv p(1), of c db _ i] begun(1,2) p(2,3) by simp
next
  case (not_begun t t' i q confirmation key db pr)
  have "wd_quotes db \<subseteq>\<^sub>m wd_quotes (wy_db sy)"
    using begin_stops(2) [OF not_begun(3,4)] unfolding map_le_def dom_def by force
  then show ?thesis using quote_moves_same [OF inv] not_begun(1,2) by simp
next
  case (prepared i c t ev vault answer r)
  obtain db pr where r: "r = (db, pr)" by fastforce
  note w = prepared_waits [OF prepared(5) [unfolded r]]
  have w': "\<forall>d. snd r = W_waiting d \<longrightarrow> wc_pending d = wc_pending c \<and> wc_stage d \<noteq> W_context" using w(2) r by auto
  have q: "wd_quotes (fst r) = wd_quotes (wy_db sy)" using w(1) r by simp
  note adv = advance_moves [OF inv prepared(3) q w']
  show ?thesis
  proof (cases e)
    case None
    then show ?thesis using adv(1) prepared(2) by simp
  next
    case (Some k)
    then have k: "key_quote k = call_quote c"
      using prepared(1) by (auto simp: withdraw_key_used_def key_quote_def call_quote_def split: withdraw_progress.splits withdraw_stage.splits)
    have gone: "quote_gone (advance_call sy i r) (key_quote k)"
      using quote_invD(3) [OF inv prepared(3)] q by (simp add: k quote_gone_def advance_call_def)
    have new: "key_quote k \<notin> key_quote ` set tr" unfolding k by (rule quote_invD(4) [OF inv prepared(3,4)])
    have other: "\<forall>j d. wy_calls (advance_call sy i r) j = Some d \<longrightarrow> wc_stage d = W_context \<longrightarrow> call_quote d \<noteq> key_quote k"
      using adv(2) quote_invD(5) [OF inv prepared(3)] k by metis
    show ?thesis unfolding Some option.case prepared(2) by (rule quote_signed [OF adv(1) gone new other])
  qed
next
  case (broadcasted i c s t ev bc r)
  obtain db pr where r: "r = (db, pr)" by fastforce
  note w = broadcast_waits [OF broadcasted(5) [unfolded r]]
  show ?thesis unfolding broadcasted(1,2) option.case
    by (rule advance_moves(1) [OF inv broadcasted(3)]) (use w r in auto)
next
  case (polled i c s deadline ev t poll r)
  obtain db pr where r: "r = (db, pr)" by fastforce
  note w = poll_waits [OF polled(5) [unfolded r]]
  have q: "wd_quotes (fst r) = wd_quotes (wy_db sy)" using w(1) r by simp
  have "\<forall>d. snd r = W_waiting d \<longrightarrow> d = c" using w(2) unfolding r snd_conv by blast
  then have "\<forall>d. snd r = W_waiting d \<longrightarrow> wc_pending d = wc_pending c \<and> wc_stage d \<noteq> W_context" using polled(4) by auto
  then show ?thesis unfolding polled(1,2) option.case by (rule advance_moves(1) [OF inv polled(3) q])
next
  case (refresh_asked i h)
  show ?thesis unfolding refresh_asked(1,2) option.case by (rule quote_moves [OF inv]) auto
next
  case (refreshed i t poll db r)
  have "wd_quotes db = wd_quotes (wy_db sy)" using refreshed(4) by (auto simp: refresh_answered_def Let_def split: option.splits)
  then show ?thesis using quote_moves_same [OF inv] refreshed(1,2) by simp
next
  case (crashed db)
  show ?thesis unfolding crashed(1,2) option.case by (rule quote_moves [OF inv]) (auto simp: crashed(4))
next
  case (elsewhere db)
  then show ?thesis using quote_moves_same [OF inv] by simp
qed

section \<open>Runs\<close>

text \<open>A process that has just started, on a table that keeps its constraints.\<close>

definition withdraw_start :: "withdraw_sys \<Rightarrow> bool" where
  "withdraw_start sy \<longleftrightarrow> wy_calls sy = Map.empty \<and> wy_refreshes sy = {} \<and> wd_quotes (wy_db sy) = Map.empty \<and>
     distinct (map tx_id (wd_rows (wy_db sy))) \<and> keys_unique (wy_db sy)"

lemma run_invs:
  assumes "withdraw_run W sy tr sy'" "withdraw_start sy"
  shows "withdraw_inv tr sy' \<and> quote_inv tr sy'"
  using assms
proof induction
  case (run_start sy)
  then show ?case by (simp add: withdraw_start_def withdraw_inv_def quote_inv_def)
next
  case (run_next sy tr sy1 e sy2)
  then show ?case using inv_step quote_step by blast
qed

section \<open>What a run keeps\<close>

text \<open>Rows are never removed, and only the four columns change.\<close>

definition keeps_row :: "withdraw_sys \<Rightarrow> withdraw_sys \<Rightarrow> bool" where
  "keeps_row sy sy' \<longleftrightarrow> (\<forall>i r. getTx (wy_db sy) i = Some r \<longrightarrow> (\<exists>r'. getTx (wy_db sy') i = Some r' \<and> tx_static r' = tx_static r))"

definition same_row :: "withdraw_sys \<Rightarrow> withdraw_sys \<Rightarrow> string \<Rightarrow> bool" where
  "same_row sy sy' i \<longleftrightarrow> (getTx (wy_db sy) i \<noteq> None \<longrightarrow> getTx (wy_db sy') i = getTx (wy_db sy) i)"

text \<open>A statement on one row.\<close>

definition edits :: "'a withdraw_db_scheme \<Rightarrow> string \<Rightarrow> 'a withdraw_db_scheme \<Rightarrow> bool" where
  "edits db i db' \<longleftrightarrow> (\<exists>f. (\<forall>r. tx_static (f r) = tx_static r) \<and> wd_rows db' = wd_rows (updateTx db i f))"

lemma edits_rows:
  assumes "edits db i db'"
  shows "\<exists>f. (\<forall>r. tx_static (f r) = tx_static r) \<and> (\<forall>j. getTx db' j = (if j = i then map_option f (getTx db i) else getTx db j))"
proof -
  obtain f where f: "\<forall>r. tx_static (f r) = tx_static r" and r: "wd_rows db' = wd_rows (updateTx db i f)"
    using assms by (auto simp: edits_def)
  show ?thesis using getTx_update [OF r] f by blast
qed

lemma editsD:
  assumes "edits (wy_db sy) i (wy_db sy')"
  shows "keeps_row sy sy'" "j \<noteq> i \<Longrightarrow> same_row sy sy' j"
  using edits_rows [OF assms] by (auto simp: keeps_row_def same_row_def)

lemma same_rowsD:
  assumes "wd_rows (wy_db sy') = wd_rows (wy_db sy)"
  shows "keeps_row sy sy'" "same_row sy sy' i"
  using same_rows [OF assms] by (auto simp: keeps_row_def same_row_def)

lemma appendedD:
  assumes "wd_rows (wy_db sy') = wd_rows (wy_db sy) @ [r]"
  shows "keeps_row sy sy'" "same_row sy sy' i"
  by (auto simp: keeps_row_def same_row_def getTx_def assms find_append)

lemma edits_fail: "withdraw_fail t ev i chain reason h db = (db', pr) \<Longrightarrow> edits db i db'"
  unfolding edits_def
  by (intro exI [of _ "\<lambda>r. r\<lparr>tx_status := X_failed, tx_errorMessage := Some (take 500 reason), tx_updatedAt := t\<rparr>"])
    (simp add: withdraw_fail_eq)

lemma edits_set:
  "wd_rows db' = wd_rows (updateTx db i (\<lambda>r. r\<lparr>tx_status := s, tx_updatedAt := t\<rparr>)) \<Longrightarrow> edits db i db'"
  unfolding edits_def by (intro exI [of _ "\<lambda>r. r\<lparr>tx_status := s, tx_updatedAt := t\<rparr>"]) simp

lemma edits_sign:
  "wd_rows db' = wd_rows (updateTx db i (\<lambda>r. r\<lparr>tx_hash := h, tx_status := s, tx_updatedAt := t\<rparr>)) \<Longrightarrow> edits db i db'"
  unfolding edits_def by (intro exI [of _ "\<lambda>r. r\<lparr>tx_hash := h, tx_status := s, tx_updatedAt := t\<rparr>"]) simp

lemma prepared_edits: "execute_prepared W t ev vault c answer db = (db', pr) \<Longrightarrow> edits db (wc_txId c) db'"
  by (erule execute_prepared_cases) (simp_all add: edits_sign edits_fail)

lemma broadcasted_edits: "execute_broadcasted W t ev c s bc db = (db', pr) \<Longrightarrow> edits db (wc_txId c) db'"
  by (cases bc) (auto simp: execute_broadcasted_def Let_def intro: edits_fail edits_set)

lemma polled_edits:
  "confirm_polled t c s deadline ev poll db = (db', pr) \<Longrightarrow> wd_rows db' = wd_rows db \<or> edits db (wc_txId c) db'"
  by (auto simp: confirm_polled_def withdraw_settle_def Let_def intro: edits_set split: option.splits if_split_asm)

lemma refreshed_edits: "refresh_answered t i poll db = (db', rr) \<Longrightarrow> wd_rows db' = wd_rows db \<or> edits db i db'"
  by (auto simp: refresh_answered_def Let_def intro: edits_set split: option.splits)

text \<open>Every step keeps the rows, and edits none whose call and refresh are over, unless the row is still submitted.\<close>

definition unwatched :: "withdraw_sys \<Rightarrow> string \<Rightarrow> bool" where
  "unwatched sy i \<longleftrightarrow> wy_calls sy i = None \<and> i \<notin> wy_refreshes sy \<and> (\<exists>r. getTx (wy_db sy) i = Some r \<and> tx_status r \<noteq> X_submitted)"

lemma advance_db [simp]: "wy_db (advance_call sy i r) = fst r" "wy_refreshes (advance_call sy i r) = wy_refreshes sy"
  by (simp_all add: advance_call_def)

lemma advance_calls: "j \<noteq> i \<Longrightarrow> wy_calls (advance_call sy i r) j = wy_calls sy j"
  by (simp add: advance_call_def)

lemma step_rows:
  assumes inv: "withdraw_inv tr sy" and st: "withdraw_step W sy e sy'"
  shows "keeps_row sy sy' \<and> (unwatched sy j \<longrightarrow> same_row sy sy' j \<and> wy_calls sy' j = None \<and> j \<notin> wy_refreshes sy')"
  using st
proof cases
  case (quote_asked t rq)
  then have "wd_rows (wy_db sy') = wd_rows (wy_db sy)" by (simp add: quote_begin_db)
  then show ?thesis using same_rowsD quote_asked by (simp add: unwatched_def)
next
  case (quoted t q qc reading a1 a2 px npx db quote)
  then have "wd_rows (wy_db sy') = wd_rows (wy_db sy)" by (auto dest: quote_finish_db)
  then show ?thesis using same_rowsD quoted by (simp add: unwatched_def)
next
  case (begun t t' i q confirmation key db c)
  obtain p where p: "getTx (wy_db sy) i = None" "wd_rows db = wd_rows (wy_db sy) @ [tx_row_of t' i (getMode db) key p]"
    by (rule begin_waits [OF begun(3)])
  then have "wd_rows (wy_db sy') = wd_rows (wy_db sy) @ [tx_row_of t' i (getMode db) key p]" using begun(2) by simp
  then show ?thesis using appendedD begun(2) p(1) by (auto simp: unwatched_def)
next
  case (not_begun t t' i q confirmation key db pr)
  have "wd_rows (wy_db sy') = wd_rows (wy_db sy)" using begin_stops(1) [OF not_begun(3,4)] not_begun(2) by simp
  then show ?thesis using same_rowsD not_begun by (simp add: unwatched_def)
next
  case (prepared i c t ev vault answer r)
  have "edits (wy_db sy) i (wy_db sy')"
    using prepared_edits [of W t ev vault c answer "wy_db sy" "fst r" "snd r"] call_okI [OF inv prepared(3)] prepared
    by (simp add: call_ok_def)
  moreover have "unwatched sy j \<Longrightarrow> j \<noteq> i" using prepared(3) by (auto simp: unwatched_def)
  ultimately show ?thesis using editsD prepared(2) by (auto simp: unwatched_def advance_calls)
next
  case (broadcasted i c s t ev bc r)
  have "edits (wy_db sy) i (wy_db sy')"
    using broadcasted_edits [of W t ev c s bc "wy_db sy" "fst r" "snd r"] call_okI [OF inv broadcasted(3)] broadcasted
    by (simp add: call_ok_def)
  moreover have "unwatched sy j \<Longrightarrow> j \<noteq> i" using broadcasted(3) by (auto simp: unwatched_def)
  ultimately show ?thesis using editsD broadcasted(2) by (auto simp: unwatched_def advance_calls)
next
  case (polled i c s deadline ev t poll r)
  have "wd_rows (wy_db sy') = wd_rows (wy_db sy) \<or> edits (wy_db sy) i (wy_db sy')"
    using polled_edits [of t c s deadline ev poll "wy_db sy" "fst r" "snd r"] call_okI [OF inv polled(3)] polled
    by (simp add: call_ok_def)
  moreover have "unwatched sy j \<Longrightarrow> j \<noteq> i" using polled(3) by (auto simp: unwatched_def)
  ultimately show ?thesis using editsD same_rowsD polled(2) by (auto simp: unwatched_def advance_calls)
next
  case (refresh_asked i h)
  have "unwatched sy j \<Longrightarrow> j \<noteq> i" using refresh_asked(3) by (auto simp: unwatched_def refresh_begin_def)
  moreover have "wd_rows (wy_db sy') = wd_rows (wy_db sy)" using refresh_asked(2) by simp
  ultimately show ?thesis using same_rowsD refresh_asked(2) by (auto simp: unwatched_def)
next
  case (refreshed i t poll db r)
  have "wd_rows (wy_db sy') = wd_rows (wy_db sy) \<or> edits (wy_db sy) i (wy_db sy')"
    using refreshed_edits [OF refreshed(4)] refreshed(2) by simp
  moreover have "unwatched sy j \<Longrightarrow> j \<noteq> i" using refreshed(3) by (auto simp: unwatched_def)
  ultimately show ?thesis using editsD same_rowsD refreshed(2) by (auto simp: unwatched_def)
next
  case (crashed db)
  then have "wd_rows (wy_db sy') = wd_rows (wy_db sy)" by simp
  then show ?thesis using same_rowsD crashed(2) by (simp add: unwatched_def)
next
  case (elsewhere db)
  then have "wd_rows (wy_db sy') = wd_rows (wy_db sy)" by simp
  then show ?thesis using same_rowsD elsewhere(2) by (simp add: unwatched_def)
qed

lemma run_inv_from:
  assumes "withdraw_run W sy tr sy'" "withdraw_inv tr0 sy"
  shows "withdraw_inv (tr @ tr0) sy'"
  using assms
proof induction
  case (run_next sy tr sy1 e sy2)
  then show ?case using inv_step [of "tr @ tr0" sy1 W e sy2] by (cases e) auto
qed simp

lemma run_keeps:
  assumes "withdraw_run W sy tr sy'" "withdraw_inv tr0 sy"
  shows "keeps_row sy sy'"
  using assms
proof induction
  case (run_start sy)
  show ?case by (simp add: keeps_row_def)
next
  case (run_next sy tr sy1 e sy2)
  have "keeps_row sy1 sy2" using step_rows [OF run_inv_from [OF run_next(1,4)] run_next(2)] by blast
  then show ?case using run_next(3) [OF run_next(4)] unfolding keeps_row_def by metis
qed

lemma run_unwatched:
  assumes "withdraw_run W sy tr sy'" "withdraw_inv tr0 sy" "unwatched sy i"
  shows "getTx (wy_db sy') i = getTx (wy_db sy) i \<and> unwatched sy' i \<and> i \<notin> wk_txId ` set tr"
  using assms
proof induction
  case (run_next sy tr sy1 e sy2)
  note IH = run_next(3) [OF run_next(4,5)]
  have s: "same_row sy1 sy2 i" "wy_calls sy2 i = None" "i \<notin> wy_refreshes sy2"
    using step_rows [OF run_inv_from [OF run_next(1,4)] run_next(2), of i] IH by auto
  have "getTx (wy_db sy2) i = getTx (wy_db sy1) i" using s(1) IH by (auto simp: same_row_def unwatched_def)
  moreover have "i \<noteq> wk_txId k" if "e = Some k" for k
  proof -
    have "wy_calls sy1 (wk_txId k) \<noteq> None"
      using run_next(2) call_okI [OF run_inv_from [OF run_next(1,4)]] unfolding that
      by cases (auto simp: withdraw_key_used_def call_ok_def split: withdraw_progress.splits withdraw_stage.splits)
    then show ?thesis using IH by (auto simp: unwatched_def)
  qed
  ultimately show ?case using IH s by (auto simp: unwatched_def split: option.split)
qed simp

lemma books_columns:
  assumes "books b p r"
  shows "tx_to r = pn_to p" "tx_amountBase r = int_str (pn_amount p)" "tx_token r = pn_token p"
    "tx_chain r = qt_chainId (pn_quote p)" "qt_submittable (pn_quote p)" "\<exists>t. b = Some (t, tx_createdAt r) \<and> t - pn_createdAt p \<le> WITHDRAW_QUOTE_TTL_MS"
  using assms by (auto simp: books_def tx_static_def tx_row_of_def dest: arg_cong [of _ _ tx_to] arg_cong [of _ _ tx_amountBase]
      arg_cong [of _ _ tx_token] arg_cong [of _ _ tx_chain])

lemma start_inv: "withdraw_start sy \<Longrightarrow> withdraw_inv [] sy"
  using run_invs [OF withdraw_run.run_start] by blast

text \<open>C8. 
  However calls, refreshes, crashes and retries interleave, the key signs for a withdrawal at most once, and at
  most once for a quote; the row it signs for is the quote's transfer, begun while the quote was at most
  ninety seconds old by the clock's reading at the start of the call (the row's \<open>createdAt\<close> is the reading after it),
  and carries the hash from the moment the network can know it.\<close>

theorem withdraw_signs_once:
  assumes "withdraw_start sy" "withdraw_run W sy tr sy'"
  shows "distinct (map wk_txId tr) \<and> distinct (map key_quote tr) \<and>
    (\<forall>k \<in> set tr. \<exists>r. getTx (wy_db sy') (wk_txId k) = Some r \<and> tx_to r = pn_to (wk_pending k) \<and>
       tx_amountBase r = int_str (pn_amount (wk_pending k)) \<and> tx_token r = pn_token (wk_pending k) \<and>
       tx_chain r = qt_chainId (pn_quote (wk_pending k)) \<and> qt_submittable (pn_quote (wk_pending k)) \<and>
       (\<exists>t. wy_began sy' (wk_txId k) = Some (t, tx_createdAt r) \<and> t - pn_createdAt (wk_pending k) \<le> 90000) \<and>
       tx_hash r = Some (sx_hash (wk_signed k)) \<and> tx_status r \<noteq> X_prepared) \<and>
    (\<forall>i c s. wy_calls sy' i = Some c \<longrightarrow> wc_stage c = W_broadcast s \<longrightarrow>
       (\<exists>r. getTx (wy_db sy') i = Some r \<and> tx_hash r = Some (sx_hash s) \<and> tx_status r = X_simulated))"
proof -
  note inv = run_invs [OF assms(2,1)]
  have row: "\<exists>r. getTx (wy_db sy') (wk_txId k) = Some r \<and> books (wy_began sy' (wk_txId k)) (wk_pending k) r \<and>
     tx_hash r = Some (sx_hash (wk_signed k)) \<and> tx_status r \<noteq> X_prepared" if "k \<in> set tr" for k
    using inv that by (simp add: withdraw_inv_def key_ok_def)
  have "\<exists>r. getTx (wy_db sy') (wk_txId k) = Some r \<and> tx_to r = pn_to (wk_pending k) \<and>
       tx_amountBase r = int_str (pn_amount (wk_pending k)) \<and> tx_token r = pn_token (wk_pending k) \<and>
       tx_chain r = qt_chainId (pn_quote (wk_pending k)) \<and> qt_submittable (pn_quote (wk_pending k)) \<and>
       (\<exists>t. wy_began sy' (wk_txId k) = Some (t, tx_createdAt r) \<and> t - pn_createdAt (wk_pending k) \<le> 90000) \<and>
       tx_hash r = Some (sx_hash (wk_signed k)) \<and> tx_status r \<noteq> X_prepared" if "k \<in> set tr" for k
  proof -
    obtain r where r: "getTx (wy_db sy') (wk_txId k) = Some r" "books (wy_began sy' (wk_txId k)) (wk_pending k) r"
      "tx_hash r = Some (sx_hash (wk_signed k))" "tx_status r \<noteq> X_prepared" using row [OF \<open>k \<in> set tr\<close>] by blast
    show ?thesis using r books_columns [OF r(2)] by (intro exI [of _ r]) (simp add: WITHDRAW_QUOTE_TTL_MS_def)
  qed
  moreover have "\<exists>r. getTx (wy_db sy') i = Some r \<and> tx_hash r = Some (sx_hash s) \<and> tx_status r = X_simulated"
    if "wy_calls sy' i = Some c" "wc_stage c = W_broadcast s" for i c s
    using inv call_okI [OF _ that(1), of tr] that(2) by (auto simp: call_ok_def)
  ultimately show ?thesis using inv unfolding withdraw_inv_def quote_inv_def by blast
qed

lemma find_by_key:
  assumes inv: "withdraw_inv tr sy" and r: "getTx (wy_db sy) i = Some r" "tx_idempotencyKey r = Some k" "k \<noteq> []"
  shows "findByIdempotency (wy_db sy) (Some k) = Some r"
proof -
  let ?rows = "wd_rows (wy_db sy)"
  have m: "r \<in> set ?rows" using wtx.look_Some [OF r(1)] by simp
  have d: "distinct (map tx_id ?rows)" and u: "keys_unique (wy_db sy)" using inv by (simp_all add: withdraw_inv_def)
  obtain x where x: "List.find (\<lambda>r. tx_idempotencyKey r = Some k) ?rows = Some x"
    using m r(2) by (cases "List.find (\<lambda>r. tx_idempotencyKey r = Some k) ?rows") (auto simp: find_None_iff)
  then have "x \<in> set ?rows" "tx_idempotencyKey x = Some k" by (auto dest: find_SomeD)
  then have "tx_id x = tx_id r" using u m r(2) unfolding keys_unique_def by (metis option.distinct(1))
  then have "x = r" using wtx.look_in [OF d m] wtx.look_in [OF d \<open>x \<in> set ?rows\<close>] by simp
  then show ?thesis using x r(3) by (simp add: findByIdempotency_def)
qed

text \<open>C21. A request repeated with the key of a withdrawal that was begun, however long ago and whatever happened since, starts
  nothing: it answers with that withdrawal's row and issues no second one, whichever quote it names. There is no age after
  which a key is forgotten; the API contract (\<open>src/docs/specs/dashboard-api-contract.md\<close>, section 3) honours one for
  24 h only.\<close>

theorem withdraw_idempotent:
  assumes "withdraw_start sy" "withdraw_run W sy tr1 sy1" "r \<in> set (wd_rows (wy_db sy1))"
    "tx_idempotencyKey r = Some k" "k \<noteq> []" "withdraw_run W sy1 tr2 sy2"
  shows "\<exists>r'. getTx (wy_db sy2) (tx_id r) = Some r' \<and> tx_static r' = tx_static r \<and>
    execute_begin W t t' i q confirmation (Some k) (wy_db sy2) = (pruneQuotes t (wy_db sy2), W_finished (withdraw_toResult r'))"
proof -
  have inv: "withdraw_inv tr1 sy1" using run_inv_from [OF assms(2) start_inv [OF assms(1)]] by simp
  then have "getTx (wy_db sy1) (tx_id r) = Some r" using wtx.look_in [OF _ assms(3)] by (simp add: withdraw_inv_def)
  then obtain r' where r': "getTx (wy_db sy2) (tx_id r) = Some r'" "tx_static r' = tx_static r"
    using run_keeps [OF assms(6) inv] unfolding keeps_row_def by blast
  have "tx_idempotencyKey r' = Some k" using tx_staticD(2) [OF r'(2)] assms(4) by simp
  then have "findByIdempotency (wy_db sy2) (Some k) = Some r'"
    using find_by_key [OF run_inv_from [OF assms(6) inv] r'(1)] assms(5) by simp
  then have "findByIdempotency (pruneQuotes t (wy_db sy2)) (Some k) = Some r'" by (simp only: findByIdempotency_def db_frames)
  then show ?thesis using r' by (intro exI [of _ r']) (simp add: execute_begin_def Let_def)
qed

text \<open>C36. A withdrawal whose broadcast raised, so that the network may or may not have it, is recorded as failed with its
  hash, and stays so: nothing looks at the chain for it again, a refresh answers from the row.\<close>

theorem unresolved_forever:
  assumes "withdraw_start sy" "withdraw_run W sy tr1 sy1" "wy_calls sy1 i = Some c" "wc_stage c = W_broadcast s"
    "execute_broadcasted W t ev c s (Inl e) (wy_db sy1) = r" "withdraw_run W (advance_call sy1 i r) tr2 sy2"
  shows "\<exists>row. getTx (wy_db sy2) i = Some row \<and> tx_hash row = Some (sx_hash s) \<and> tx_status row = X_failed \<and>
    refresh_begin W i (wy_db sy2) = Inr (Some (withdraw_toResult row)) \<and> i \<notin> wk_txId ` set tr2"
proof -
  let ?sy = "advance_call sy1 i r"
  obtain db pr where r: "r = (db, pr)" by fastforce
  have inv1: "withdraw_inv tr1 sy1" using run_inv_from [OF assms(2) start_inv [OF assms(1)]] by simp
  have inv: "withdraw_inv tr1 ?sy" using inv_step [OF inv1 withdraw_step.broadcasted [OF assms(3,4,5)]] by simp
  obtain row where row: "wc_txId c = i" "getTx (wy_db sy1) i = Some row" "tx_hash row = Some (sx_hash s)" "i \<notin> wy_refreshes sy1"
    using call_okI [OF inv1 assms(3)] assms(4) unfolding call_ok_def by auto
  have f: "withdraw_fail t ev i (qt_chainId (pn_quote (wc_pending c))) (''broadcast failed: '' @ xe_message W e)
      (Some (sx_hash s)) (wy_db sy1) = (db, pr)" using assms(5) row(1) by (simp add: execute_broadcasted_def r)
  note fail = withdraw_fail_eq [OF f]
  let ?f = "\<lambda>r. r\<lparr>tx_status := X_failed, tx_errorMessage := Some (take 500 (''broadcast failed: '' @ xe_message W e)), tx_updatedAt := t\<rparr>"
  have g: "getTx (wy_db ?sy) i = Some (?f row)" using getTx_update [OF fail [THEN conjunct1]] row(2) by (simp add: r)
  have "wy_calls ?sy i = None" using fail by (auto simp: advance_call_def r split: withdraw_progress.splits)
  then have u: "unwatched ?sy i" using g row(4) by (simp add: unwatched_def)
  have "getTx (wy_db sy2) i = Some (?f row)" "i \<notin> wk_txId ` set tr2" using run_unwatched [OF assms(6) inv u] g by simp_all
  then show ?thesis using row(3) by (intro exI [of _ "?f row"]) (simp add: refresh_begin_def)
qed

end
