(* ===== verification/Withdraw_Quote.thy ===== *)
theory Withdraw_Quote
  imports Withdrawals
begin

text \<open>
  What a withdrawal quote promises: the amount the operator typed is the amount, the balance that was read covers
  it and its fee, and the transfer to be signed was prepared for it. The exception is proved too.
\<close>

section \<open>Amounts\<close>

lemma drop_zeros_pad: "\<exists>k. s = drop_zeros s @ replicate k CHR ''0''"
proof -
  have "rev s = takeWhile (\<lambda>c. c = CHR ''0'') (rev s) @ dropWhile (\<lambda>c. c = CHR ''0'') (rev s)" by simp
  moreover have "takeWhile (\<lambda>c. c = CHR ''0'') (rev s) = replicate (length (takeWhile (\<lambda>c. c = CHR ''0'') (rev s))) CHR ''0''"
    by (rule replicate_eqI [symmetric, OF refl, symmetric]) (auto dest: set_takeWhileD)
  ultimately have "rev s = replicate (length (takeWhile (\<lambda>c. c = CHR ''0'') (rev s))) CHR ''0'' @ dropWhile (\<lambda>c. c = CHR ''0'') (rev s)"
    by metis
  then have "s = rev (replicate (length (takeWhile (\<lambda>c. c = CHR ''0'') (rev s))) CHR ''0'' @ dropWhile (\<lambda>c. c = CHR ''0'') (rev s))"
    by (metis rev_rev_ident)
  then show ?thesis unfolding drop_zeros_def rev_append rev_replicate by blast
qed

lemma js_trim_id:
  assumes "s \<noteq> []" "\<not> js_space (hd s)" "\<not> js_space (last s)"
  shows "js_trim s = s"
proof -
  have "dropWhile js_space s = s" "dropWhile js_space (rev s) = rev s"
    using assms by (simp_all add: dropWhile_eq_self_iff hd_rev)
  then show ?thesis by (simp add: js_trim_def)
qed

lemma nat_str_0: "nat_str 0 = ''0''"
  by code_simp

lemma amount_match_parts:
  assumes "list_all is_digit i" "i \<noteq> []" "list_all is_digit f"
  shows "amount_match (js_trim (i @ (if f = [] then [] else CHR ''.'' # f))) = Some (i, f)"
proof -
  let ?s = "i @ (if f = [] then [] else CHR ''.'' # f)"
  have "is_digit (hd ?s)" "is_digit (last ?s)"
    using assms by (cases i; simp add: list_all_iff)+
  then have "\<not> js_space (hd ?s)" "\<not> js_space (last ?s)" by (auto dest: digit_not_space)
  moreover have "?s \<noteq> []" using assms(2) by simp
  ultimately have t: "js_trim ?s = ?s" by (intro js_trim_id)
  have "\<not> is_digit CHR ''.''" by (simp add: is_digit_def)
  then have "span_digits ?s = (i, if f = [] then [] else CHR ''.'' # f)"
    by (intro span_digits_append [OF assms(1)]) simp
  then show ?thesis unfolding t using assms by (simp add: amount_match_def)
qed

text \<open>C38. An amount the runtime displays is read back as the same number of base units, whatever the decimals.\<close>

theorem amount_roundtrip:
  assumes "0 \<le> a"
  shows "parseDecimalAmount (formatUnits a d) d = Inr a"
proof -
  define i where "i = nat_str (nat (a div 10 ^ d))"
  define m where "m = nat (a mod 10 ^ d)"
  define s where "s = padStart d CHR ''0'' (nat_str m)"
  define f where "f = drop_zeros s"
  have m: "m < 10 ^ d" by (simp add: m_def nat_less_iff)
  obtain k where k: "s = f @ replicate k CHR ''0''" using drop_zeros_pad [of s] by (auto simp: f_def)
  have sd: "list_all is_digit s" by (simp add: s_def padStart_digits)
  then have fd: "list_all is_digit f" by (simp add: k)
  have v: "digits_val f * 10 ^ k = m" using arg_cong [OF k, of digits_val] by (simp add: s_def digits_val_append)
  have len: "length f \<le> d \<and> d - length f \<le> k \<or> f = []"
  proof (cases "d = 0")
    case True
    then have "s = ''0''" using m by (simp add: s_def padStart_def nat_str_0)
    then show ?thesis by (simp add: f_def drop_zeros_def)
  next
    case False
    then have "length s = d" using length_nat_str_le [of d m] m by (simp add: s_def)
    then have "length f + k = d" by (simp add: k)
    then show ?thesis by arith
  qed
  have "digits_val (padEnd d CHR ''0'' f) = m"
  proof (cases "f = []")
    case True
    then show ?thesis using v by (simp add: padEnd_def)
  next
    case False
    then have "d \<noteq> 0" using len by (cases d) auto
    then have "length s = d" using length_nat_str_le [of d m] m by (simp add: s_def)
    then have "k = d - length f" "length f \<le> d" by (simp_all add: k)
    then show ?thesis using v by (simp add: digits_val_padEnd)
  qed
  moreover have "formatUnits a d = i @ (if f = [] then [] else CHR ''.'' # f)"
    using assms by (simp add: formatUnits_def Let_def bdiv_nonneg bmod_nonneg int_str_nonneg i_def f_def s_def m_def pos_imp_zdiv_nonneg_iff)
  moreover have "length f \<le> d" using len by auto
  moreover have "int (digits_val i) * 10 ^ d + int m = a"
    using assms div_mult_mod_eq [of a "10 ^ d"] by (simp add: i_def m_def pos_imp_zdiv_nonneg_iff)
  ultimately show ?thesis using amount_match_parts [OF _ _ fd, of i] by (simp add: parseDecimalAmount_def i_def)
qed

theorem amount_roundtrip_witness: "parseDecimalAmount (formatUnits 1050000 6) 6 = Inr 1050000"
  by (rule amount_roundtrip) simp

section \<open>Quotes\<close>

lemma format_zero: "formatUnits 0 d = ''0''"
proof -
  have "padStart d CHR ''0'' ''0'' = replicate (max d 1) CHR ''0''"
    by (cases d) (simp_all add: padStart_def replicate_append_same)
  then have "drop_zeros (padStart d CHR ''0'' ''0'') = []" by (simp add: drop_zeros_def)
  then show ?thesis by (simp add: formatUnits_def Let_def bdiv_def bmod_def int_str_nonneg nat_str_0)
qed

lemma quote_of_sel [simp]:
  shows "qt_submittable (pn_quote (quote_of q t m qc available amount fee feeMicros prepared submittable ws)) = submittable" "pn_createdAt (quote_of q t m qc available amount fee feeMicros prepared submittable ws) = t" "pn_to (quote_of q t m qc available amount fee feeMicros prepared submittable ws) = qc_destination qc" "pn_amount (quote_of q t m qc available amount fee feeMicros prepared submittable ws) = amount"
    "pn_prepared (quote_of q t m qc available amount fee feeMicros prepared submittable ws) = prepared" "qt_chainId (pn_quote (quote_of q t m qc available amount fee feeMicros prepared submittable ws)) = wq_chainId (qc_request qc)"
    "qt_feeNative (pn_quote (quote_of q t m qc available amount fee feeMicros prepared submittable ws)) = map_option (\<lambda>f. amount_view f (nat (ci_nativeDecimals (CHAINS (wq_chainId (qc_request qc)))))
       (ci_nativeSymbol (CHAINS (wq_chainId (qc_request qc))))) fee"
  by (simp_all add: quote_of_def Let_def)

lemma usd_of_None [simp]: "usd_of None d price = Inr None"
  by (simp add: usd_of_def)

lemma sufficiency_submittable:
  assumes "sufficiency chain token amount available fee native = Inr (True, ws)"
  shows "\<exists>a f. available = Some a \<and> fee = Some f \<and> amount + (if as_native token then f else 0) \<le> a \<and>
    (\<not> as_native token \<longrightarrow> (\<forall>n. native = Some n \<longrightarrow> (\<exists>m. js_BigInt n = Inr m \<and> f \<le> m)))"
  using assms by (auto simp: sufficiency_def Let_def sbind_eq_Inr split: option.splits bool.splits if_split_asm)

lemma prepare_quote_cases:
  assumes "prepare_quote W qc a1 a2 wanted = Inr (prepared, ws, fee, amount)"
  obtains (once) "wq_amount (qc_request qc) \<noteq> ''all'' \<or> \<not> as_native (qc_token qc)" "amount = wanted"
      "a1 (transfer_of qc (if wanted > 0 then wanted else 1)) = Inr prepared"
  | (twice) f where "wq_amount (qc_request qc) = ''all''" "as_native (qc_token qc)" "fee = Some f" "amount = wanted - f" "0 < amount"
      "a2 (transfer_of qc amount) = Inr prepared"
  using assms by (auto simp: prepare_quote_def sbind_eq_Inr split: sum.splits option.splits if_split_asm)

lemma available_read:
  assumes "available_of token reading = Inr (Some a)"
  shows "br_error reading = None"
    "if as_native token then \<exists>n. br_native reading = Some n \<and> js_BigInt n = Inr a
     else (case lookup (br_tokens reading) (as_address token) of Some b \<Rightarrow> js_BigInt b = Inr a | None \<Rightarrow> a = 0)"
  using assms by (cases "br_native reading"; auto simp: available_of_def sbind_eq_Inr split: option.splits if_split_asm)+

text \<open>C14. A quote the operator can submit has a known fee and a balance that covers it. The reading as a whole succeeded; for the
  native coin the balance is the one read and covers the amount and the fee together, for a token it is the one read and covers the
  amount, and, where the native balance was read, that one covers the fee. The one submittable quote without a balance
  read for its asset is for all of a token missing from the reading, which counts as none of it: its amount is 0. In every
  other case the amount is the one typed, which is positive, or all there is, less the fee for the native coin; and the
  transfer that will be signed was prepared for exactly the amount whenever that is positive.\<close>

theorem quote_sound:
  assumes "quote_finish W t q qc reading a1 a2 px npx db = Inr (db', quote)" "qt_submittable quote"
  shows "\<exists>p a f. wd_quotes db' = (wd_quotes db)(q \<mapsto> p) \<and> pn_quote p = quote \<and> pn_createdAt p = t \<and>
    pn_to p = qc_destination qc \<and> br_error reading = None \<and>
    (if as_native (qc_token qc) then \<exists>n. br_native reading = Some n \<and> js_BigInt n = Inr a
     else (case lookup (br_tokens reading) (as_address (qc_token qc)) of Some b \<Rightarrow> js_BigInt b = Inr a
       | None \<Rightarrow> a = 0 \<and> wq_amount (qc_request qc) = ''all'' \<and> pn_amount p = 0)) \<and>
    pn_amount p + (if as_native (qc_token qc) then f else 0) \<le> a \<and>
    qt_feeNative quote = Some (amount_view f (nat (ci_nativeDecimals (CHAINS (qt_chainId quote)))) (ci_nativeSymbol (CHAINS (qt_chainId quote)))) \<and>
    (\<not> as_native (qc_token qc) \<longrightarrow> (\<forall>n. br_native reading = Some n \<longrightarrow> (\<exists>m. js_BigInt n = Inr m \<and> f \<le> m))) \<and>
    (wq_amount (qc_request qc) \<noteq> ''all'' \<longrightarrow>
       parseDecimalAmount (wq_amount (qc_request qc)) (as_decimals (qc_token qc)) = Inr (pn_amount p) \<and> 0 < pn_amount p) \<and>
    (wq_amount (qc_request qc) = ''all'' \<longrightarrow> pn_amount p = a - (if as_native (qc_token qc) then f else 0)) \<and>
    (0 < pn_amount p \<longrightarrow> a1 (transfer_of qc (pn_amount p)) = Inr (pn_prepared p) \<or> a2 (transfer_of qc (pn_amount p)) = Inr (pn_prepared p))"
proof -
  let ?rq = "qc_request qc" and ?token = "qc_token qc"
  obtain available wanted prepared warned fee amount amountMicros feeMicros submittable lacking where
    av: "available_of ?token reading = Inr available" and
    w: "wanted_amount ?rq ?token available = Inr wanted" and
    pr: "prepare_quote W qc a1 a2 wanted = Inr (prepared, warned, fee, amount)" and
    su: "sufficiency (wq_chainId ?rq) ?token amount available fee (br_native reading) = Inr (submittable, lacking)" and
    r: "db' = db\<lparr>wd_quotes := (wd_quotes db)(q \<mapsto> quote_of q t (getMode db) qc available amount fee feeMicros prepared submittable
          (checksum_warning ?rq @ balance_warning reading @ warned @ value_warning amountMicros @ lacking))\<rparr>"
      "quote = pn_quote (quote_of q t (getMode db) qc available amount fee feeMicros prepared submittable
          (checksum_warning ?rq @ balance_warning reading @ warned @ value_warning amountMicros @ lacking))"
    using assms(1) by (auto simp: quote_finish_def Let_def sbind_eq_Inr)
  have sub: submittable using assms(2) by (simp add: r(2))
  obtain a f where af: "available = Some a" "fee = Some f" "amount + (if as_native ?token then f else 0) \<le> a"
    "\<not> as_native ?token \<longrightarrow> (\<forall>n. br_native reading = Some n \<longrightarrow> (\<exists>m. js_BigInt n = Inr m \<and> f \<le> m))"
    using sufficiency_submittable [of "wq_chainId ?rq" ?token amount available fee "br_native reading" lacking] su sub by auto
  have typed: "wq_amount ?rq \<noteq> ''all'' \<longrightarrow> parseDecimalAmount (wq_amount ?rq) (as_decimals ?token) = Inr wanted \<and> 0 < wanted"
    "wq_amount ?rq = ''all'' \<longrightarrow> wanted = a"
    using w by (auto simp: wanted_amount_def af(1) sbind_eq_Inr split: if_split_asm)
  have made: "(wq_amount ?rq \<noteq> ''all'' \<longrightarrow> amount = wanted) \<and>
      (wq_amount ?rq = ''all'' \<longrightarrow> amount = a - (if as_native ?token then f else 0)) \<and>
      (0 < amount \<longrightarrow> a1 (transfer_of qc amount) = Inr prepared \<or> a2 (transfer_of qc amount) = Inr prepared)"
    using pr
  proof (cases rule: prepare_quote_cases)
    case once
    then show ?thesis using typed by auto
  next
    case (twice f')
    then show ?thesis using typed af(2) by auto
  qed
  have read: "if as_native ?token then \<exists>n. br_native reading = Some n \<and> js_BigInt n = Inr a
     else (case lookup (br_tokens reading) (as_address ?token) of Some b \<Rightarrow> js_BigInt b = Inr a
       | None \<Rightarrow> a = 0 \<and> wq_amount ?rq = ''all'' \<and> amount = 0)"
    using available_read(2) [OF av [unfolded af(1)]] af(3) typed(1) made by (auto split: option.splits)
  show ?thesis
    by (rule exI [of _ "quote_of q t (getMode db) qc available amount fee feeMicros prepared submittable
          (checksum_warning ?rq @ balance_warning reading @ warned @ value_warning amountMicros @ lacking)"], rule exI [of _ a], rule exI [of _ f])
      (use af available_read(1) [OF av [unfolded af(1)]] read typed made in \<open>simp add: r cong: option.case_cong\<close>)
qed

text \<open>A healthy quote for 25.5 USDC on Base: 100 USDC and some ether were read, the fee is known.\<close>

definition wd_env :: withdraw_env where
  "wd_env = \<lparr>xe_codec = \<lparr>b64_decode = (\<lambda>_. None), b64_encode = (\<lambda>_. []), b58_encode = (\<lambda>_. []),
       ed25519_sign = (\<lambda>_ _. []), ed25519_public = (\<lambda>_. [])\<rparr>,
     xe_evmAddress = (\<lambda>_. ''0xaGent''), xe_evmSign = (\<lambda>_ _. Inr \<lparr>sx_raw = ''0x02'', sx_hash = ''0xhash''\<rparr>), xe_message = (\<lambda>_. ''error''),
     we_isAddress = (\<lambda>_. True), we_isPubkey = (\<lambda>_. True), we_adapters = [Base], we_transfers = [Base]\<rparr>"

definition wd_database :: withdraw_db where
  "wd_database = \<lparr>au_rows = [], au_seq = 0, sd_installation = None, sd_switches = None, sd_activation = None, sd_hooks = [],
     wd_rows = [], wd_wallets = (\<lambda>_. Some ''0xAgent''), wd_quotes = Map.empty\<rparr>"

definition wd_request :: "string \<Rightarrow> withdraw_quote_request" where
  "wd_request amount = \<lparr>wq_chainId = Base, wq_asset = USDC, wq_destination = ''0x00000000000000000000000000000000000000aa'', wq_amount = amount\<rparr>"

definition wd_call :: "string \<Rightarrow> quote_call" where
  "wd_call amount = \<lparr>qc_request = wd_request amount, qc_destination = ''0x00000000000000000000000000000000000000aa'',
     qc_token = \<lparr>as_address = ''0xusdc'', as_decimals = 6, as_symbol = ''USDC'', as_native = False\<rparr>, qc_from = ''0xAgent''\<rparr>"

definition wd_prepared :: prepared_transfer where
  "wd_prepared = \<lparr>pt_payload = ''transfer'', pt_feeNative = Some ''21000'', pt_feeSource = ''rpc'', pt_warnings = []\<rparr>"

definition wd_reading :: "(string \<times> string) list \<Rightarrow> withdraw_reading" where
  "wd_reading tokens = \<lparr>br_error = None, br_native = Some ''1000000'', br_tokens = tokens\<rparr>"

definition wd_pending :: pending_quote where
  "wd_pending = quote_of ''quote'' 1000 PAPER (wd_call ''25.5'') (Some 100000000) 25500000 (Some 21000) None wd_prepared True
     [Wn_no_checksum, Wn_usd_unknown]"

lemma wd_quoted:
  "quote_finish wd_env 1000 ''quote'' (wd_call ''25.5'') (wd_reading [(''0xusdc'', ''100000000'')]) (\<lambda>_. Inr wd_prepared) (\<lambda>_. Inr wd_prepared)
     None None wd_database = Inr (wd_database\<lparr>wd_quotes := [''quote'' \<mapsto> wd_pending]\<rparr>, pn_quote wd_pending)"
proof -
  let ?qc = "wd_call ''25.5''" and ?rd = "wd_reading [(''0xusdc'', ''100000000'')]"
  have a: "available_of (qc_token ?qc) ?rd = Inr (Some 100000000)" by code_simp
  have w: "wanted_amount (qc_request ?qc) (qc_token ?qc) (Some 100000000) = Inr 25500000" by code_simp
  have f: "opt_result js_BigInt (pt_feeNative wd_prepared) = Inr (Some 21000)" by code_simp
  have "wq_amount (qc_request ?qc) \<noteq> ''all''" "pt_warnings wd_prepared = []" by code_simp+
  then have p: "prepare_quote wd_env ?qc (\<lambda>_. Inr wd_prepared) (\<lambda>_. Inr wd_prepared) 25500000 = Inr (wd_prepared, [], Some 21000, 25500000)"
    by (simp add: prepare_quote_def f)
  have s: "sufficiency (wq_chainId (qc_request ?qc)) (qc_token ?qc) 25500000 (Some 100000000) (Some 21000) (br_native ?rd) = Inr (True, [])"
    by code_simp
  have o: "checksum_warning (qc_request ?qc) = [Wn_no_checksum]" "balance_warning ?rd = []" "value_warning None = [Wn_usd_unknown]"
    "getMode wd_database = PAPER" "as_native (qc_token ?qc) = False" by code_simp+
  have e: "wd_quotes wd_database = Map.empty" by (simp add: wd_database_def)
  have u: "usd_of x d None = Inr None" for x d by (cases x) (simp_all add: usd_of_def)
  show ?thesis by (simp add: quote_finish_def Let_def a w p u s o e wd_pending_def)
qed

theorem quote_sound_witness:
  "\<exists>p :: pending_quote. pn_quote p = pn_quote wd_pending \<and> pn_amount p \<le> 100000000 \<and> 0 < pn_amount p"
proof -
  have n: "\<not> as_native (qc_token (wd_call ''25.5''))" "wq_amount (qc_request (wd_call ''25.5'')) \<noteq> ''all''"
    "lookup (br_tokens (wd_reading [(''0xusdc'', ''100000000'')])) (as_address (qc_token (wd_call ''25.5''))) = Some ''100000000''"
    "js_BigInt ''100000000'' = Inr 100000000" by code_simp+
  have "qt_submittable (pn_quote wd_pending)" by (simp add: wd_pending_def)
  from quote_sound [OF wd_quoted this] n show ?thesis
    by (elim exE conjE) (intro exI conjI, assumption+, simp_all)
qed

text \<open>C37. Asking for all of a token whose balance is empty, or was not read, while the fee is covered: the quote is one the
  operator can submit. It shows the amount 0, and the transfer it would sign was prepared for one base unit.\<close>

theorem all_of_nothing_is_submittable:
  assumes "wq_amount (qc_request qc) = ''all''" "\<not> as_native (qc_token qc)" "br_error reading = None"
    "case lookup (br_tokens reading) (as_address (qc_token qc)) of None \<Rightarrow> True | Some b \<Rightarrow> js_BigInt b = Inr 0" "a1 (transfer_of qc 1) = Inr prepared"
    "opt_result js_BigInt (pt_feeNative prepared) = Inr (Some f)" "br_native reading = Some n" "js_BigInt n = Inr m" "f \<le> m"
    "usd_of (Some 0) (as_decimals (qc_token qc)) px = Inr amountMicros"
    "usd_of (Some f) (nat (ci_nativeDecimals (CHAINS (wq_chainId (qc_request qc))))) npx = Inr feeMicros"
  shows "\<exists>db' quote p. quote_finish W t q qc reading a1 a2 px npx db = Inr (db', quote) \<and> qt_submittable quote \<and>
    wd_quotes db' q = Some p \<and> pn_quote p = quote \<and> pn_amount p = 0 \<and> tv_formatted (qt_amount quote) = ''0'' \<and> pn_prepared p = prepared"
proof -
  have a: "available_of (qc_token qc) reading = Inr (Some 0)" using assms(2-4) by (simp add: available_of_def split: option.splits)
  have w: "wanted_amount (qc_request qc) (qc_token qc) (Some 0) = Inr 0" using assms(1) by (simp add: wanted_amount_def)
  have p: "prepare_quote W qc a1 a2 0 = Inr (prepared, map Wn_prepared (pt_warnings prepared), Some f, 0)"
    using assms(2,5,6) by (simp add: prepare_quote_def)
  have s: "sufficiency (wq_chainId (qc_request qc)) (qc_token qc) 0 (Some 0) (Some f) (br_native reading) = Inr (True, [])"
    using assms(2,7-9) by (simp add: sufficiency_def Let_def)
  have z: "formatUnits 0 (as_decimals (qc_token qc)) = ''0''" by (rule format_zero)
  show ?thesis by (simp add: quote_finish_def Let_def a w p s assms(2,10,11)) (simp add: quote_of_def Let_def amount_view_def z)
qed

theorem all_of_nothing_is_submittable_witness:
  "\<exists>db' quote p. quote_finish wd_env 1000 ''quote'' (wd_call ''all'') (wd_reading [(''0xusdc'', ''0'')]) (\<lambda>_. Inr wd_prepared) (\<lambda>_. Inr wd_prepared) None None
      wd_database = Inr (db', quote) \<and> qt_submittable quote \<and> wd_quotes db' ''quote'' = Some p \<and> pn_quote p = quote \<and>
    pn_amount p = 0 \<and> tv_formatted (qt_amount quote) = ''0'' \<and> pn_prepared p = wd_prepared"
proof (rule all_of_nothing_is_submittable)
  show "wq_amount (qc_request (wd_call ''all'')) = ''all''" "\<not> as_native (qc_token (wd_call ''all''))"
    "br_error (wd_reading [(''0xusdc'', ''0'')]) = None" "case lookup (br_tokens (wd_reading [(''0xusdc'', ''0'')])) (as_address (qc_token (wd_call ''all''))) of None \<Rightarrow> True | Some b \<Rightarrow> js_BigInt b = Inr 0"
    "opt_result js_BigInt (pt_feeNative wd_prepared) = Inr (Some 21000)" "br_native (wd_reading [(''0xusdc'', ''0'')]) = Some ''1000000''"
    "js_BigInt ''1000000'' = Inr 1000000" by code_simp+
  show "Inr wd_prepared = Inr wd_prepared" "(21000 :: int) \<le> 1000000" by simp_all
  show "usd_of (Some 0) (as_decimals (qc_token (wd_call ''all''))) None = Inr None"
    "usd_of (Some 21000) (nat (ci_nativeDecimals (CHAINS (wq_chainId (qc_request (wd_call ''all'')))))) None = Inr None"
    by (simp_all add: usd_of_def)
qed

end
