(* ===== verification/Withdraw_Fixtures.thy ===== *)
theory Withdraw_Fixtures
  imports Withdraw_Safety Withdraw_Quote
begin

text \<open>
  A withdrawal of 25.5 USDC on Base from its quote to a broadcast the network refuses, and the witnesses of the
  properties of \<open>Withdraw_Safety\<close> on it.
\<close>

definition wd_start :: withdraw_sys where
  "wd_start = \<lparr>wy_db = wd_database, wy_calls = Map.empty, wy_refreshes = {}, wy_issued = {}, wy_began = Map.empty\<rparr>"

definition wd_context :: signing_context where
  "wd_context = Ctx_evm \<lparr>xc_chainId = 8453, xc_from = ''0xAgent'', xc_to = ''0xusdc'', xc_data = ''0x'', xc_value = ''0'',
     xc_gas = ''60000'', xc_nonce = 7, xc_maxFeePerGas = ''10000000'', xc_maxPriorityFeePerGas = ''1''\<rparr>"

definition wd_signed :: signed_transaction where "wd_signed = \<lparr>sx_raw = ''0x02'', sx_hash = ''0xhash''\<rparr>"

definition wd_row :: tx_row where "wd_row = tx_row_of 2001 ''tx'' PAPER (Some ''key'') wd_pending"

definition wd_called :: "withdraw_stage \<Rightarrow> withdraw_call" where
  "wd_called stage = \<lparr>wc_txId = ''tx'', wc_pending = wd_pending, wc_mode = PAPER, wc_stage = stage\<rparr>"

definition wd_key :: withdraw_key where
  "wd_key = \<lparr>wk_txId = ''tx'', wk_pending = wd_pending, wk_signed = wd_signed\<rparr>"

text \<open>The states after the quote, after the row is inserted, and with the broadcast under way.\<close>

definition wd_sys1 :: withdraw_sys where
  "wd_sys1 = wd_start\<lparr>wy_db := wd_database\<lparr>wd_quotes := [''quote'' \<mapsto> wd_pending]\<rparr>, wy_issued := {''quote''}\<rparr>"

definition wd_sys2 :: withdraw_sys where
  "wd_sys2 = \<lparr>wy_db = wd_database\<lparr>wd_rows := [wd_row]\<rparr>, wy_calls = [''tx'' \<mapsto> wd_called W_context], wy_refreshes = {},
     wy_issued = {''quote''}, wy_began = [''tx'' \<mapsto> (2000, 2001)]\<rparr>"

definition wd_signed_row :: tx_row where
  "wd_signed_row = wd_row\<lparr>tx_hash := Some ''0xhash'', tx_status := X_simulated, tx_updatedAt := 3000\<rparr>"

definition wd_sys3 :: withdraw_sys where
  "wd_sys3 = \<lparr>wy_db = wd_database\<lparr>wd_rows := [wd_signed_row]\<rparr>, wy_calls = [''tx'' \<mapsto> wd_called (W_broadcast wd_signed)],
     wy_refreshes = {}, wy_issued = {''quote''}, wy_began = [''tx'' \<mapsto> (2000, 2001)]\<rparr>"

lemma wd_started: "withdraw_start wd_start"
  by (simp add: withdraw_start_def wd_start_def wd_database_def keys_unique_def)

lemma wd_pending_sel: "qt_submittable (pn_quote wd_pending)" "pn_createdAt wd_pending = 1000" "qt_chainId (pn_quote wd_pending) = Base"
  "qt_quoteId (pn_quote wd_pending) = ''quote''" "pn_amount wd_pending = 25500000"
  by (simp_all add: wd_pending_def quote_of_def Let_def wd_call_def wd_request_def)

lemma wd_step1: "withdraw_step wd_env wd_start None wd_sys1"
proof -
  have "withdraw_step wd_env wd_start None (wd_start\<lparr>wy_db := wd_database\<lparr>wd_quotes := [''quote'' \<mapsto> wd_pending]\<rparr>,
      wy_issued := insert ''quote'' (wy_issued wd_start)\<rparr>)"
    by (rule withdraw_step.quoted) (use wd_quoted in \<open>simp_all add: wd_start_def\<close>)
  then show ?thesis by (simp add: wd_sys1_def wd_start_def)
qed

lemma wd_prune: "pruneQuotes 2000 (wd_database\<lparr>wd_quotes := [''quote'' \<mapsto> wd_pending]\<rparr>) = wd_database\<lparr>wd_quotes := [''quote'' \<mapsto> wd_pending]\<rparr>"
  by (auto simp: pruneQuotes_def wd_pending_sel WITHDRAW_QUOTE_TTL_MS_def fun_eq_iff)

lemma wd_begun: "execute_begin wd_env 2000 2001 ''tx'' ''quote'' (Some ''WITHDRAW'') (Some ''key'')
    (wd_database\<lparr>wd_quotes := [''quote'' \<mapsto> wd_pending]\<rparr>) = (wd_database\<lparr>wd_rows := [wd_row]\<rparr>, W_waiting (wd_called W_context))"
proof -
  have f: "wd_database\<lparr>wd_quotes := [''quote'' \<mapsto> wd_pending], wd_quotes := Map.empty\<rparr> = wd_database"
    by (simp add: wd_database_def)
  have m: "getMode wd_database = PAPER" "wd_rows wd_database = []" "wd_wallets wd_database x = Some ''0xAgent''" "Base \<in> set (we_transfers wd_env)" for x
    by (simp_all add: getMode_def wd_database_def wd_env_def)
  have i: "insertTx wd_database wd_row = Inr (wd_database\<lparr>wd_rows := [wd_row]\<rparr>)" by (simp add: insertTx_def appendTx_def m)
  have g: "getMode (wd_database\<lparr>wd_rows := [wd_row]\<rparr>) = PAPER" by (simp add: getMode_def wd_database_def)
  show ?thesis
    unfolding execute_begin_def Let_def wd_prune
    by (simp add: findByIdempotency_def m wd_pending_sel f i g wd_row_def [symmetric] wd_called_def)
qed

lemma wd_step2: "withdraw_step wd_env wd_sys1 None wd_sys2"
proof -
  have "withdraw_step wd_env wd_sys1 None (wd_sys1\<lparr>wy_db := wd_database\<lparr>wd_rows := [wd_row]\<rparr>,
      wy_calls := (wy_calls wd_sys1)(''tx'' \<mapsto> wd_called W_context),
      wy_began := (wy_began wd_sys1)(''tx'' \<mapsto> (2000, 2001))\<rparr>)"
    by (rule withdraw_step.begun) (use wd_begun in \<open>simp add: wd_sys1_def\<close>)
  then show ?thesis by (simp add: wd_sys1_def wd_sys2_def wd_start_def)
qed

lemma wd_prepared_step: "execute_prepared wd_env 3000 ''ev'' (Inr ([], ''0xAgent'')) (wd_called W_context) (Inr wd_context)
    (wd_database\<lparr>wd_rows := [wd_row]\<rparr>) = (wd_database\<lparr>wd_rows := [wd_signed_row]\<rparr>, W_waiting (wd_called (W_broadcast wd_signed)))"
proof -
  have "sbind (Inr ([], ''0xAgent'')) (sign_context (exec_env.truncate wd_env) wd_context) = Inr wd_signed" by code_simp
  then show ?thesis
    by (simp add: execute_prepared_def Let_def updateTx_def wd_called_def wd_signed_row_def wd_signed_def wd_row_def tx_row_of_def)
qed

lemma wd_step3: "withdraw_step wd_env wd_sys2 (Some wd_key) wd_sys3"
proof -
  let ?r = "(wd_database\<lparr>wd_rows := [wd_signed_row]\<rparr>, W_waiting (wd_called (W_broadcast wd_signed)))"
  have "withdraw_step wd_env wd_sys2 (withdraw_key_used (wd_called W_context) (snd ?r)) (advance_call wd_sys2 ''tx'' ?r)"
    by (rule withdraw_step.prepared) (use wd_prepared_step in \<open>simp_all add: wd_sys2_def wd_called_def\<close>)
  then show ?thesis by (simp add: withdraw_key_used_def advance_call_def wd_sys2_def wd_sys3_def wd_called_def wd_key_def)
qed

lemma wd_run2: "withdraw_run wd_env wd_start [] wd_sys2"
  using run_next [OF run_next [OF run_start wd_step1] wd_step2] by simp

lemma wd_run3: "withdraw_run wd_env wd_start [wd_key] wd_sys3"
  using run_next [OF wd_run2 wd_step3] by simp

lemma wd_row3: "getTx (wy_db wd_sys3) ''tx'' = Some wd_signed_row"
  by (simp add: getTx_def wd_sys3_def wd_signed_row_def wd_row_def tx_row_of_def)

theorem withdraw_signs_once_witness:
  "withdraw_run wd_env wd_start [wd_key] wd_sys3 \<and> distinct (map key_quote [wd_key]) \<and>
   (\<exists>r. getTx (wy_db wd_sys3) ''tx'' = Some r \<and> tx_amountBase r = int_str 25500000 \<and> tx_hash r = Some ''0xhash'')"
  using wd_run3 withdraw_signs_once [OF wd_started wd_run3] by (simp add: wd_key_def wd_pending_sel wd_signed_def) blast

theorem withdraw_idempotent_witness:
  "\<exists>r'. getTx (wy_db wd_sys3) ''tx'' = Some r' \<and>
    execute_begin wd_env 4000 4001 ''tx2'' ''quote2'' (Some ''WITHDRAW'') (Some ''key'') (wy_db wd_sys3) =
      (pruneQuotes 4000 (wy_db wd_sys3), W_finished (withdraw_toResult r'))"
proof -
  have r: "wd_row \<in> set (wd_rows (wy_db wd_sys2))" "tx_idempotencyKey wd_row = Some ''key''" "tx_id wd_row = ''tx''" "''key'' \<noteq> []"
    by (simp_all add: wd_sys2_def wd_row_def)
  have run: "withdraw_run wd_env wd_sys2 [wd_key] wd_sys3" using run_next [OF run_start wd_step3] by simp
  show ?thesis using withdraw_idempotent [OF wd_started wd_run2 r(1,2,4) run] r(3) by metis
qed

theorem unresolved_forever_witness:
  "\<exists>row. getTx (fst (execute_broadcasted wd_env 5000 ''ev2'' (wd_called (W_broadcast wd_signed)) wd_signed
      (Inl (JsError ''timeout'')) (wy_db wd_sys3))) ''tx'' = Some row \<and> tx_status row = X_failed \<and> tx_hash row = Some ''0xhash''"
proof -
  have c: "wy_calls wd_sys3 ''tx'' = Some (wd_called (W_broadcast wd_signed))" "wc_stage (wd_called (W_broadcast wd_signed)) = W_broadcast wd_signed"
    by (simp_all add: wd_sys3_def wd_called_def)
  show ?thesis
    using unresolved_forever [OF wd_started wd_run3 c refl run_start, of 5000 "''ev2''" "JsError ''timeout''"]
    by (auto simp: wd_signed_def)
qed

end
