(* ===== verification/Ledger_Props.thy ===== *)
theory Ledger_Props
  imports Ledger
begin

text \<open>
  The ledger's invariant, its functional behaviour on every branch of a fill, the refinement of
  the row-level operations to an abstract portfolio of (amount, cost) pairs, and what the risk engine
  is handed.
\<close>

section \<open>The invariant\<close>

definition cost_val :: "position_row \<Rightarrow> int" where
  "cost_val r = (case usdToMicros (pr_costBasisUsd r) of Inr c \<Rightarrow> c | Inl _ \<Rightarrow> 0)"

definition position_ok :: "position_row \<Rightarrow> bool" where
  "position_ok r \<longleftrightarrow> canon_int (pr_amount r) \<and> 0 < amount_val (pr_amount r) \<and>
     usd_ok (pr_costBasisUsd r) \<and> 0 \<le> cost_val r \<and> 0 \<le> pr_decimals r \<and> pr_decimals r \<le> 36"

definition ledger_ok :: "ledger_db \<Rightarrow> bool" where
  "ledger_ok db \<longleftrightarrow>
     distinct (map position_key (db_positions db)) \<and> (\<forall>r \<in> set (db_positions db). position_ok r) \<and>
     distinct (map paper_key (db_paper db)) \<and> (\<forall>r \<in> set (db_paper db). canon_int (pb_amount r)) \<and>
     (\<forall>f \<in> set (db_fills db). usd_ok (fl_realizedPnlUsd f)) \<and>
     (\<forall>r \<in> set (db_lp_pnl db). usd_ok (lr_realizedPnlUsd r)) \<and>
     (\<forall>k v. db_days db k = Some v \<longrightarrow> usd_ok v)"

lemma cost_val_usd: "usd_ok (pr_costBasisUsd r) \<Longrightarrow> usdToMicros (pr_costBasisUsd r) = Inr (cost_val r)"
  by (auto simp: cost_val_def usd_ok_def returns_def)

lemma ledger_ok_position:
  assumes "ledger_ok db" "getPosition db k = Some r"
  shows "position_ok r" "amountToBigint (pr_amount r) = Inr (amount_val (pr_amount r))"
    "usdToMicros (pr_costBasisUsd r) = Inr (cost_val r)" "position_key r = k"
proof -
  show ok: "position_ok r" "position_key r = k"
    using assms pos.look_Some [OF assms(2)] by (auto simp: ledger_ok_def)
  show "amountToBigint (pr_amount r) = Inr (amount_val (pr_amount r))"
    "usdToMicros (pr_costBasisUsd r) = Inr (cost_val r)"
    using ok by (simp_all add: position_ok_def amountToBigint_canon cost_val_usd)
qed

lemma ledger_frames [simp]:
  "db_paper (insertPosition db r) = db_paper db" "db_paper (updatePosition db k f) = db_paper db"
  "db_paper (deletePosition db k) = db_paper db" "db_fills (insertPosition db r) = db_fills db"
  "db_fills (updatePosition db k f) = db_fills db" "db_fills (deletePosition db k) = db_fills db"
  "db_lp_pnl (insertPosition db r) = db_lp_pnl db" "db_lp_pnl (updatePosition db k f) = db_lp_pnl db"
  "db_lp_pnl (deletePosition db k) = db_lp_pnl db" "db_days (insertPosition db r) = db_days db"
  "db_days (updatePosition db k f) = db_days db" "db_days (deletePosition db k) = db_days db"
  "db_positions (insertPaper db q) = db_positions db" "db_positions (updatePaper db j g) = db_positions db"
  "db_fills (insertPaper db q) = db_fills db" "db_fills (updatePaper db j g) = db_fills db"
  "db_lp_pnl (insertPaper db q) = db_lp_pnl db" "db_lp_pnl (updatePaper db j g) = db_lp_pnl db"
  "db_days (insertPaper db q) = db_days db" "db_days (updatePaper db j g) = db_days db"
  by (simp_all add: insertPosition_def updatePosition_def deletePosition_def insertPaper_def updatePaper_def)

lemma position_key_update [simp]:
  "position_key (r\<lparr>pr_amount := a, pr_costBasisUsd := c, pr_updatedAt := t\<rparr>) = position_key r"
  "paper_key (q\<lparr>pb_amount := a, pb_decimals := d, pb_updatedAt := t\<rparr>) = paper_key q"
  by (simp_all add: position_key_def paper_key_def)

lemma ledger_ok_insert:
  "ledger_ok db \<Longrightarrow> getPosition db (position_key r) = None \<Longrightarrow> position_ok r \<Longrightarrow> ledger_ok (insertPosition db r)"
  unfolding ledger_ok_def ledger_frames
  by (elim conjE, intro conjI pos.unique_ins pos.all_ins) assumption+

lemma ledger_ok_update:
  "ledger_ok db \<Longrightarrow> (\<And>r. position_key (f r) = position_key r) \<Longrightarrow>
   (\<And>r. position_ok r \<Longrightarrow> position_key r = k \<Longrightarrow> position_ok (f r)) \<Longrightarrow> ledger_ok (updatePosition db k f)"
  unfolding ledger_ok_def ledger_frames
  by (elim conjE, intro conjI pos.unique_upd pos.all_upd) (assumption | blast)+

lemma ledger_ok_delete: "ledger_ok db \<Longrightarrow> ledger_ok (deletePosition db k)"
  unfolding ledger_ok_def ledger_frames
  by (elim conjE, intro conjI pos.unique_del pos.all_del) assumption+

section \<open>Selling at average cost\<close>

lemma costOfSold_ceil: "0 < held \<Longrightarrow> 0 \<le> basis \<Longrightarrow> 0 \<le> sold \<Longrightarrow>
    costOfSold basis held sold = - ((- (basis * sold)) div held)"
proof -
  assume h: "0 < held" and "0 \<le> basis" "0 \<le> sold"
  then have "0 \<le> basis * sold" by simp
  with h have "bdiv (basis * sold + held - 1) held = (basis * sold + held - 1) div held"
    by (intro bdiv_nonneg) linarith+
  with h show ?thesis by (simp add: costOfSold_def ceil_div_shift)
qed

lemma costOfSold_bounds:
  assumes "0 < held" "0 \<le> basis" "0 \<le> sold" "sold \<le> held"
  shows "0 \<le> costOfSold basis held sold" "costOfSold basis held sold \<le> basis"
    "basis * sold \<le> held * costOfSold basis held sold"
    "held * (costOfSold basis held sold - 1) < basis * sold \<or> basis * sold = 0 \<and> costOfSold basis held sold = 0"
proof -
  let ?c = "costOfSold basis held sold"
  have c: "held * (?c - 1) < basis * sold" "basis * sold \<le> held * ?c"
    using neg_div_bounds [OF assms(1), of "basis * sold"] costOfSold_ceil [OF assms(1-3)] by simp_all
  show "basis * sold \<le> held * ?c" by (rule c)
  have "0 \<le> basis * sold" using assms by simp
  with c(2) have "0 \<le> held * ?c" by linarith
  with assms(1) show "0 \<le> ?c" by (simp add: zero_le_mult_iff)
  have "basis * sold \<le> basis * held" using assms by (simp add: mult_left_mono)
  with c(1) have "held * (?c - 1) < held * basis" by (simp add: mult.commute)
  with assms(1) show "?c \<le> basis" by (simp add: mult_less_cancel_left_pos)
  show "held * (?c - 1) < basis * sold \<or> basis * sold = 0 \<and> ?c = 0" using c(1) by simp
qed

lemma proceedsOfSold_bounds:
  assumes "0 < amount" "0 \<le> proceeds" "0 \<le> sold" "sold \<le> amount"
  shows "0 \<le> proceedsOfSold proceeds amount sold" "amount * proceedsOfSold proceeds amount sold \<le> proceeds * sold"
    "proceedsOfSold proceeds amount sold \<le> proceeds"
proof -
  let ?p = "proceedsOfSold proceeds amount sold"
  show 1: "0 \<le> ?p" using assms by (simp add: proceedsOfSold_def bdiv_nonneg pos_imp_zdiv_nonneg_iff)
  show 2: "amount * ?p \<le> proceeds * sold"
    using assms div_bounds [OF assms(1), of "proceeds * sold"]
    by (simp add: proceedsOfSold_def bdiv_nonneg)
  have "proceeds * sold \<le> proceeds * amount" using assms by (intro mult_left_mono)
  then have "proceeds * sold \<le> amount * proceeds" by (simp add: mult.commute)
  with 2 have "amount * ?p \<le> amount * proceeds" by linarith
  with assms(1) show "?p \<le> proceeds" by (simp add: mult_le_cancel_left_pos)
qed

section \<open>The abstract portfolio\<close>

type_synonym portfolio = "position_key \<rightharpoonup> int \<times> int"

definition portfolio :: "ledger_db \<Rightarrow> portfolio" where
  "portfolio db k = map_option (\<lambda>r. (amount_val (pr_amount r), cost_val r)) (getPosition db k)"

definition abs_reduce :: "portfolio \<Rightarrow> position_key \<Rightarrow> int \<Rightarrow> portfolio" where
  "abs_reduce p k amount = (case p k of None \<Rightarrow> p | Some (held, basis) \<Rightarrow>
     if held \<le> amount then p(k := None)
     else p(k \<mapsto> (held - amount, basis - costOfSold basis held amount)))"

definition abs_add :: "portfolio \<Rightarrow> position_key \<Rightarrow> int \<Rightarrow> int \<Rightarrow> portfolio" where
  "abs_add p k amount cost = p(k \<mapsto> (case p k of None \<Rightarrow> (amount, cost)
     | Some (held, basis) \<Rightarrow> (held + amount, basis + cost)))"

definition abs_realized :: "portfolio \<Rightarrow> position_key \<Rightarrow> int \<Rightarrow> int \<Rightarrow> int" where
  "abs_realized p k amount proceeds = (case p k of None \<Rightarrow> 0 | Some (held, basis) \<Rightarrow>
     let sold = min amount held in proceedsOfSold proceeds amount sold - costOfSold basis held sold)"

lemma cost_val_micros [simp]: "cost_val (r\<lparr>pr_amount := a, pr_costBasisUsd := microsToUsd c, pr_updatedAt := t\<rparr>) = c"
  by (simp add: cost_val_def)

lemma reducePosition_spec:
  assumes "ledger_ok db" "0 < amount" "0 \<le> proceeds"
  obtains db' where "reducePosition db k amount proceeds t = Inr (db', abs_realized (portfolio db) k amount proceeds)"
    "ledger_ok db'" "portfolio db' = abs_reduce (portfolio db) k amount"
    "db_paper db' = db_paper db" "db_fills db' = db_fills db"
proof (cases "getPosition db k")
  case None
  then show ?thesis
    using assms(1) by (intro that [of db])
      (simp_all add: reducePosition_def abs_realized_def abs_reduce_def portfolio_def)
next
  case (Some r)
  note r = ledger_ok_position [OF assms(1) Some]
  let ?h = "amount_val (pr_amount r)" and ?b = "cost_val r"
  let ?s = "if amount > ?h then ?h else amount"
  have hb: "0 < ?h" "0 \<le> ?b" using r(1) by (simp_all add: position_ok_def)
  have s: "?s = min amount ?h" by simp
  have red: "reducePosition db k amount proceeds t = Inr (if ?h - ?s = 0 then deletePosition db k
      else updatePosition db k (\<lambda>r. r\<lparr>pr_amount := int_str (?h - ?s),
        pr_costBasisUsd := microsToUsd (?b - costOfSold ?b ?h ?s), pr_updatedAt := t\<rparr>),
      abs_realized (portfolio db) k amount proceeds)"
    by (simp add: reducePosition_def Some r(2,3) Let_def abs_realized_def portfolio_def s [symmetric])
  show ?thesis
  proof (cases "?h \<le> amount")
    case True
    then have "?h - ?s = 0" by simp
    with red True show ?thesis
      using assms(1) by (intro that [of "deletePosition db k"])
        (auto simp: ledger_ok_delete abs_reduce_def portfolio_def Some fun_eq_iff pos.look_del)
  next
    case False
    then have sa: "?s = amount" "?h - amount \<noteq> 0" "0 \<le> ?h - amount" by simp_all
    let ?f = "\<lambda>r. r\<lparr>pr_amount := int_str (?h - amount),
        pr_costBasisUsd := microsToUsd (?b - costOfSold ?b ?h amount), pr_updatedAt := t\<rparr>"
    have c: "0 \<le> ?b - costOfSold ?b ?h amount"
      using costOfSold_bounds(2) [OF hb, of amount] assms(2) sa(3) by simp
    have ok: "ledger_ok (updatePosition db k ?f)"
      using c sa by (intro ledger_ok_update [OF assms(1)]) (auto simp: position_ok_def)
    have "portfolio (updatePosition db k ?f) = abs_reduce (portfolio db) k amount"
      using False sa(3) by (auto simp: fun_eq_iff portfolio_def abs_reduce_def Some pos.look_upd)
    with red sa ok show ?thesis by (intro that [of "updatePosition db k ?f"]) simp_all
  qed
qed

lemma addPosition_spec:
  assumes "ledger_ok db" "0 < amount" "0 \<le> cost" "0 \<le> decs" "decs \<le> 36"
  obtains db' where "addPosition db u k decs amount cost t = Inr db'" "ledger_ok db'"
    "portfolio db' = abs_add (portfolio db) k amount cost" "db_paper db' = db_paper db" "db_fills db' = db_fills db"
proof (cases "getPosition db k")
  case None
  let ?r = "\<lparr>pr_id = u, pr_mode = fst k, pr_chain = fst (snd k), pr_token = snd (snd k), pr_decimals = decs,
    pr_amount = int_str amount, pr_costBasisUsd = microsToUsd cost, pr_openedAt = t, pr_updatedAt = t\<rparr>"
  have k: "position_key ?r = k" by (simp add: position_key_def)
  have v: "cost_val ?r = cost" by (simp add: cost_val_def)
  have ok: "ledger_ok (insertPosition db ?r)"
    using assms None k v by (intro ledger_ok_insert) (simp_all add: position_ok_def)
  have "portfolio (insertPosition db ?r) = abs_add (portfolio db) k amount cost"
    using None assms(2) v
    by (auto simp: fun_eq_iff portfolio_def abs_add_def pos.look_ins k split: option.split)
  with ok None show ?thesis by (intro that [of "insertPosition db ?r"]) (simp_all add: addPosition_def)
next
  case (Some r)
  note r = ledger_ok_position [OF assms(1) Some]
  let ?h = "amount_val (pr_amount r)" and ?b = "cost_val r"
  let ?f = "\<lambda>r. r\<lparr>pr_amount := int_str (?h + amount), pr_costBasisUsd := microsToUsd (?b + cost), pr_updatedAt := t\<rparr>"
  have hb: "0 < ?h" "0 \<le> ?b" using r(1) by (simp_all add: position_ok_def)
  have "ledger_ok (updatePosition db k ?f)"
    using assms hb by (intro ledger_ok_update [OF assms(1)]) (auto simp: position_ok_def)
  moreover have "portfolio (updatePosition db k ?f) = abs_add (portfolio db) k amount cost"
    using Some assms(2) hb by (auto simp: fun_eq_iff portfolio_def abs_add_def pos.look_upd)
  ultimately show ?thesis by (intro that [of "updatePosition db k ?f"]) (simp_all add: addPosition_def Some r(2,3))
qed

section \<open>Paper balances\<close>

definition paper_balance :: "ledger_db \<Rightarrow> chain_id \<times> string \<Rightarrow> int" where
  "paper_balance db k = (case getPaperBalance db k of None \<Rightarrow> 0 | Some r \<Rightarrow> amount_val (pb_amount r))"

lemma ledger_ok_paper:
  assumes "ledger_ok db" "getPaperBalance db k = Some r"
  shows "amountToBigint (pb_amount r) = Inr (amount_val (pb_amount r))"
  using assms pap.look_Some [OF assms(2)] by (auto simp: ledger_ok_def amountToBigint_canon)

lemma ledger_ok_insert_paper:
  "ledger_ok db \<Longrightarrow> getPaperBalance db (paper_key r) = None \<Longrightarrow> canon_int (pb_amount r) \<Longrightarrow>
   ledger_ok (insertPaper db r)"
  unfolding ledger_ok_def ledger_frames
  by (elim conjE, intro conjI pap.unique_ins pap.all_ins) assumption+

lemma ledger_ok_update_paper:
  "ledger_ok db \<Longrightarrow> (\<And>r. paper_key (f r) = paper_key r) \<Longrightarrow> (\<And>r. canon_int (pb_amount (f r))) \<Longrightarrow>
   ledger_ok (updatePaper db k f)"
  unfolding ledger_ok_def ledger_frames
  by (elim conjE, intro conjI pap.unique_upd pap.all_upd) (assumption | blast)+

lemma ledger_ok_put_paper:
  assumes "ledger_ok db" "canon_int amount"
  obtains db' where "setPaperBalance db t c token decs amount = Inr db'" "ledger_ok db'"
    "\<And>k. paper_balance db' k = (if k = (c, token) then amount_val amount else paper_balance db k)"
    "db_positions db' = db_positions db" "db_fills db' = db_fills db" "db_lp_pnl db' = db_lp_pnl db"
    "db_days db' = db_days db"
proof -
  let ?r = "\<lparr>pb_chain = c, pb_token = token, pb_decimals = decs, pb_amount = amount, pb_updatedAt = t\<rparr>"
  let ?f = "\<lambda>r. r\<lparr>pb_amount := amount, pb_decimals := decs, pb_updatedAt := t\<rparr>"
  have key: "paper_key ?r = (c, token)" by (simp add: paper_key_def)
  show ?thesis
  proof (cases "getPaperBalance db (c, token)")
    case None
    have "ledger_ok (insertPaper db ?r)"
      using assms None key by (intro ledger_ok_insert_paper) simp_all
    moreover have "paper_balance (insertPaper db ?r) k =
        (if k = (c, token) then amount_val amount else paper_balance db k)" for k
      using None by (auto simp: paper_balance_def pap.look_ins key split: option.split)
    ultimately show ?thesis
      using assms(2) None by (intro that [of "insertPaper db ?r"])
        (simp_all add: setPaperBalance_def amountToBigint_canon)
  next
    case (Some q)
    have "ledger_ok (updatePaper db (c, token) ?f)"
      using assms by (intro ledger_ok_update_paper) simp_all
    moreover have "paper_balance (updatePaper db (c, token) ?f) k =
        (if k = (c, token) then amount_val amount else paper_balance db k)" for k
      using Some by (auto simp: paper_balance_def pap.look_upd)
    ultimately show ?thesis
      using assms(2) Some by (intro that [of "updatePaper db (c, token) ?f"])
        (simp_all add: setPaperBalance_def amountToBigint_canon)
  qed
qed

lemma adjustPaperBalance_eq:
  assumes "ledger_ok db"
  shows "adjustPaperBalance db t c token decs delta =
    (if paper_balance db (c, token) + delta < 0
     then Inl (AppError E_CONFLICT ''Paper balance would go negative'')
     else setPaperBalance db t c token decs (int_str (paper_balance db (c, token) + delta)))"
  using ledger_ok_paper [OF assms]
  by (auto simp: adjustPaperBalance_def paper_balance_def Let_def split: option.split)

lemma paper_balance_nonneg [simp]: "0 \<le> paper_balance db k"
  by (simp add: paper_balance_def split: option.split)

lemma adjustPaperBalance_spec:
  assumes "ledger_ok db" "0 \<le> paper_balance db (c, token) + delta"
  obtains db' where "adjustPaperBalance db t c token decs delta = Inr db'" "ledger_ok db'"
    "\<And>k. paper_balance db' k = paper_balance db k + (if k = (c, token) then delta else 0)"
    "db_positions db' = db_positions db" "db_fills db' = db_fills db"
proof -
  have c: "canon_int (int_str (paper_balance db (c, token) + delta))" using assms(2) by simp
  obtain db' where "setPaperBalance db t c token decs (int_str (paper_balance db (c, token) + delta)) = Inr db'"
    "ledger_ok db'" "\<And>k. paper_balance db' k = (if k = (c, token)
       then amount_val (int_str (paper_balance db (c, token) + delta)) else paper_balance db k)"
    "db_positions db' = db_positions db" "db_fills db' = db_fills db"
    using ledger_ok_put_paper [OF assms(1) c, of t c token decs] by blast
  with assms show ?thesis
    by (intro that [of db']) (simp_all add: adjustPaperBalance_eq)
qed

text \<open>Both legs: the debit decides, and then the two balances move by exactly the amounts.\<close>

lemma settle_paper_spec:
  assumes ok: "ledger_ok db" and a: "0 < a" "0 < b" and mode: "rf_mode i = PAPER"
    and k: "kin = (rf_chain i, tr_address (rf_tokenIn i))" "kout = (rf_chain i, tr_address (rf_tokenOut i))"
  shows "paper_balance db kin < a \<Longrightarrow>
      settle_paper db t i a b = Inl (AppError E_CONFLICT ''Paper balance would go negative'')"
    "a \<le> paper_balance db kin \<Longrightarrow> \<exists>db'. settle_paper db t i a b = Inr db' \<and> ledger_ok db' \<and>
       (\<forall>k. paper_balance db' k = paper_balance db k - (if k = kin then a else 0) + (if k = kout then b else 0)) \<and>
       db_positions db' = db_positions db \<and> db_fills db' = db_fills db"
proof -
  show "settle_paper db t i a b = Inl (AppError E_CONFLICT ''Paper balance would go negative'')"
    if "paper_balance db kin < a"
    using that mode k by (simp add: settle_paper_def adjustPaperBalance_eq [OF ok])
  assume le: "a \<le> paper_balance db kin"
  have n1: "0 \<le> paper_balance db (rf_chain i, tr_address (rf_tokenIn i)) + - a" using le k(1) by simp
  obtain db1 where 1: "adjustPaperBalance db t (rf_chain i) (tr_address (rf_tokenIn i))
        (tr_decimals (rf_tokenIn i)) (- a) = Inr db1" "ledger_ok db1"
    "\<And>j. paper_balance db1 j = paper_balance db j + (if j = kin then - a else 0)"
    "db_positions db1 = db_positions db" "db_fills db1 = db_fills db"
    using adjustPaperBalance_spec [OF ok n1] k(1) by metis
  have n2: "0 \<le> paper_balance db1 (rf_chain i, tr_address (rf_tokenOut i)) + b"
    using a(2) paper_balance_nonneg [of db1 "(rf_chain i, tr_address (rf_tokenOut i))"] by linarith
  obtain db2 where 2: "adjustPaperBalance db1 t (rf_chain i) (tr_address (rf_tokenOut i))
        (tr_decimals (rf_tokenOut i)) b = Inr db2" "ledger_ok db2"
    "\<And>j. paper_balance db2 j = paper_balance db1 j + (if j = kout then b else 0)"
    "db_positions db2 = db_positions db1" "db_fills db2 = db_fills db1"
    using adjustPaperBalance_spec [OF 1(2) n2] k(2) by metis
  show "\<exists>db'. settle_paper db t i a b = Inr db' \<and> ledger_ok db' \<and>
       (\<forall>k. paper_balance db' k = paper_balance db k - (if k = kin then a else 0) + (if k = kout then b else 0)) \<and>
       db_positions db' = db_positions db \<and> db_fills db' = db_fills db"
    using 1 2 mode by (intro exI [of _ db2]) (simp add: settle_paper_def)
qed

section \<open>Fills\<close>

definition fill_input_ok :: "record_fill_input \<Rightarrow> bool" where
  "fill_input_ok i \<longleftrightarrow> canon_int (rf_amountIn i) \<and> canon_int (rf_amountOut i) \<and>
     0 < amount_val (rf_amountIn i) \<and> 0 < amount_val (rf_amountOut i) \<and>
     (\<exists>p. priceToAtto (rf_priceInUsd i) = Inr p \<and> 0 < p) \<and>
     (\<exists>p. priceToAtto (rf_priceOutUsd i) = Inr p \<and> 0 < p) \<and> usd_ok (rf_feeUsd i) \<and>
     0 \<le> tr_decimals (rf_tokenIn i) \<and> tr_decimals (rf_tokenIn i) \<le> 36 \<and>
     0 \<le> tr_decimals (rf_tokenOut i) \<and> tr_decimals (rf_tokenOut i) \<le> 36"

definition paid_usd :: "record_fill_input \<Rightarrow> int" where
  "paid_usd i = (case priceToAtto (rf_priceInUsd i) of Inl _ \<Rightarrow> 0 | Inr p \<Rightarrow>
     amount_val (rf_amountIn i) * p div usd_denom (tr_decimals (rf_tokenIn i)))"

definition fee_micros :: "record_fill_input \<Rightarrow> int" where
  "fee_micros i = (case usdToMicros (rf_feeUsd i) of Inl _ \<Rightarrow> 0 | Inr f \<Rightarrow> f)"

definition key_in :: "record_fill_input \<Rightarrow> position_key" where
  "key_in i = (rf_mode i, rf_chain i, tr_address (rf_tokenIn i))"

definition key_out :: "record_fill_input \<Rightarrow> position_key" where
  "key_out i = (rf_mode i, rf_chain i, tr_address (rf_tokenOut i))"

lemma recordFill_input:
  assumes "recordFill db t u1 u2 i = Inr r"
  shows "fill_input_ok i"
  using assms
  by (auto simp: recordFill_def sbind_eq_Inr fill_input_ok_def amountToBigint_Inr amount_val_def usd_ok_def
      nativeToUsdMicros_floor split: if_splits)

lemma paid_usd_nonneg: "fill_input_ok i \<Longrightarrow> 0 \<le> paid_usd i"
  by (auto simp: paid_usd_def fill_input_ok_def pos_imp_zdiv_nonneg_iff)

lemma recordFill_unfold:
  assumes "fill_input_ok i" "ledger_ok db"
  obtains db2 where "ledger_ok db2"
    "portfolio db2 = abs_add (abs_reduce (portfolio db) (key_in i) (amount_val (rf_amountIn i)))
       (key_out i) (amount_val (rf_amountOut i)) (paid_usd i)"
    "db_paper db2 = db_paper db" "db_fills db2 = db_fills db"
    "recordFill db t u1 u2 i = sbind (settle_paper db2 t i (amount_val (rf_amountIn i)) (amount_val (rf_amountOut i)))
       (\<lambda>db3. let row = fill_row u2 i (fee_micros i) (abs_realized (portfolio db) (key_in i)
            (amount_val (rf_amountIn i)) (paid_usd i) - fee_micros i)
          in Inr (db3\<lparr>db_fills := db_fills db3 @ [row]\<rparr>, row))"
proof -
  let ?a = "amount_val (rf_amountIn i)" and ?b = "amount_val (rf_amountOut i)"
  obtain pin pout fee where i: "amountToBigint (rf_amountIn i) = Inr ?a" "amountToBigint (rf_amountOut i) = Inr ?b"
    "0 < ?a" "0 < ?b" "priceToAtto (rf_priceInUsd i) = Inr pin" "0 < pin"
    "priceToAtto (rf_priceOutUsd i) = Inr pout" "0 < pout" "usdToMicros (rf_feeUsd i) = Inr fee"
    using assms(1) by (auto simp: fill_input_ok_def amountToBigint_canon usd_ok_def returns_def)
  have d: "0 \<le> tr_decimals (rf_tokenIn i)" "tr_decimals (rf_tokenIn i) \<le> 36"
    "0 \<le> tr_decimals (rf_tokenOut i)" "tr_decimals (rf_tokenOut i) \<le> 36"
    using assms(1) by (simp_all add: fill_input_ok_def)
  have paid: "paid_usd i = ?a * pin div usd_denom (tr_decimals (rf_tokenIn i))" "fee_micros i = fee"
    using i by (simp_all add: paid_usd_def fee_micros_def)
  have nin: "nativeToUsdMicros ?a (tr_decimals (rf_tokenIn i)) pin RFloor = Inr (paid_usd i)"
    using i d by (simp add: nativeToUsdMicros_floor paid)
  have nout: "nativeToUsdMicros ?b (tr_decimals (rf_tokenOut i)) pout RFloor =
      Inr (?b * pout div usd_denom (tr_decimals (rf_tokenOut i)))"
    using i d by (simp add: nativeToUsdMicros_floor)
  have p0: "0 \<le> paid_usd i" by (rule paid_usd_nonneg [OF assms(1)])
  obtain db1 where 1: "reducePosition db (key_in i) ?a (paid_usd i) (rf_filledAt i) =
      Inr (db1, abs_realized (portfolio db) (key_in i) ?a (paid_usd i))" "ledger_ok db1"
    "portfolio db1 = abs_reduce (portfolio db) (key_in i) ?a" "db_paper db1 = db_paper db" "db_fills db1 = db_fills db"
    using reducePosition_spec [OF assms(2) i(3) p0] .
  obtain db2 where 2: "addPosition db1 u1 (key_out i) (tr_decimals (rf_tokenOut i)) ?b (paid_usd i) (rf_filledAt i) = Inr db2"
    "ledger_ok db2" "portfolio db2 = abs_add (portfolio db1) (key_out i) ?b (paid_usd i)"
    "db_paper db2 = db_paper db1" "db_fills db2 = db_fills db1"
    using addPosition_spec [OF 1(2) i(4) p0 d(3,4)] .
  have "recordFill db t u1 u2 i = sbind (settle_paper db2 t i ?a ?b)
       (\<lambda>db3. let row = fill_row u2 i (fee_micros i) (abs_realized (portfolio db) (key_in i) ?a (paid_usd i) - fee_micros i)
          in Inr (db3\<lparr>db_fills := db_fills db3 @ [row]\<rparr>, row))"
    using i(3,4) 1(1) 2(1)
    by (simp add: recordFill_def i(1,2,5,7,9) nin nout paid(2) key_in_def key_out_def)
  with 1 2 show ?thesis by (intro that [of db2]) simp_all
qed

lemma portfolio_cong: "db_positions a = db_positions b \<Longrightarrow> portfolio a = portfolio b"
  by (simp add: fun_eq_iff portfolio_def getPosition_def)

lemma ledger_ok_add_fill:
  "ledger_ok db \<Longrightarrow> usd_ok (fl_realizedPnlUsd f) \<Longrightarrow> ledger_ok (db\<lparr>db_fills := db_fills db @ [f]\<rparr>)"
  by (simp add: ledger_ok_def)

lemma paper_balance_cong: "db_paper a = db_paper b \<Longrightarrow> paper_balance a = paper_balance b"
  by (simp add: fun_eq_iff paper_balance_def getPaperBalance_def)

text \<open>One successful fill, on both modes.\<close>

lemma recordFill_Inr:
  assumes ok: "ledger_ok db" and r: "recordFill db t u1 u2 i = Inr (db', f)"
  shows "ledger_ok db'"
    "portfolio db' = abs_add (abs_reduce (portfolio db) (key_in i) (amount_val (rf_amountIn i)))
       (key_out i) (amount_val (rf_amountOut i)) (paid_usd i)"
    "f = fill_row u2 i (fee_micros i) (abs_realized (portfolio db) (key_in i)
       (amount_val (rf_amountIn i)) (paid_usd i) - fee_micros i)"
    "db_fills db' = db_fills db @ [f]"
    "rf_mode i = LIVE \<Longrightarrow> db_paper db' = db_paper db"
    "rf_mode i = PAPER \<Longrightarrow> amount_val (rf_amountIn i) \<le> paper_balance db (snd (key_in i)) \<and>
       (\<forall>k. paper_balance db' k = paper_balance db k - (if k = snd (key_in i) then amount_val (rf_amountIn i) else 0)
         + (if k = snd (key_out i) then amount_val (rf_amountOut i) else 0))"
proof -
  let ?a = "amount_val (rf_amountIn i)" and ?b = "amount_val (rf_amountOut i)"
  let ?row = "fill_row u2 i (fee_micros i) (abs_realized (portfolio db) (key_in i) ?a (paid_usd i) - fee_micros i)"
  have inp: "fill_input_ok i" by (rule recordFill_input [OF r])
  then have ab: "0 < ?a" "0 < ?b" by (simp_all add: fill_input_ok_def)
  obtain db2 where 2: "ledger_ok db2"
    "portfolio db2 = abs_add (abs_reduce (portfolio db) (key_in i) ?a) (key_out i) ?b (paid_usd i)"
    "db_paper db2 = db_paper db" "db_fills db2 = db_fills db"
    "recordFill db t u1 u2 i = sbind (settle_paper db2 t i ?a ?b) (\<lambda>db3. let row = ?row
       in Inr (db3\<lparr>db_fills := db_fills db3 @ [row]\<rparr>, row))"
    by (rule recordFill_unfold [OF inp ok])
  obtain db3 where 3: "settle_paper db2 t i ?a ?b = Inr db3" "db' = db3\<lparr>db_fills := db_fills db3 @ [?row]\<rparr>"
    "f = ?row" using r 2(5) by (auto simp: sbind_eq_Inr Let_def)
  have pb: "paper_balance db2 = paper_balance db" by (rule paper_balance_cong [OF 2(3)])
  have kk: "snd (key_in i) = (rf_chain i, tr_address (rf_tokenIn i))"
    "snd (key_out i) = (rf_chain i, tr_address (rf_tokenOut i))" by (simp_all add: key_in_def key_out_def)
  have main: "ledger_ok db3 \<and> db_positions db3 = db_positions db2 \<and> db_fills db3 = db_fills db2 \<and>
      (rf_mode i = LIVE \<longrightarrow> db_paper db3 = db_paper db) \<and>
      (rf_mode i = PAPER \<longrightarrow> ?a \<le> paper_balance db (snd (key_in i)) \<and>
        (\<forall>k. paper_balance db3 k = paper_balance db k - (if k = snd (key_in i) then ?a else 0)
          + (if k = snd (key_out i) then ?b else 0)))"
  proof (cases "rf_mode i")
    case PAPER
    note sp = settle_paper_spec [OF 2(1) ab PAPER kk]
    have le: "?a \<le> paper_balance db2 (snd (key_in i))"
      using sp(1) [of t] 3(1) by (cases "paper_balance db2 (snd (key_in i)) < ?a") auto
    from sp(2) [OF le, of t] obtain dbx where "settle_paper db2 t i ?a ?b = Inr dbx" "ledger_ok dbx"
      "\<forall>k. paper_balance dbx k = paper_balance db2 k - (if k = snd (key_in i) then ?a else 0)
         + (if k = snd (key_out i) then ?b else 0)"
      "db_positions dbx = db_positions db2" "db_fills dbx = db_fills db2" by blast
    moreover from this(1) 3(1) have "dbx = db3" by simp
    ultimately show ?thesis using le PAPER unfolding pb by (intro conjI) simp_all
  next
    case LIVE
    with 3(1) 2(1,3) show ?thesis by (simp add: settle_paper_def)
  qed
  have fills: "db_paper db' = db_paper db3" "db_positions db' = db_positions db3" by (simp_all add: 3(2))
  have "usd_ok (fl_realizedPnlUsd ?row)" by (simp add: fill_row_def)
  then show "ledger_ok db'" using main unfolding 3(2) by (intro ledger_ok_add_fill) blast+
  show "portfolio db' = abs_add (abs_reduce (portfolio db) (key_in i) ?a) (key_out i) ?b (paid_usd i)"
    using main fills(2) portfolio_cong [of db' db2] 2(2) by simp
  show "f = ?row" by (rule 3(3))
  show "db_fills db' = db_fills db @ [f]" using main 2(4) by (simp add: 3(2,3))
  show "db_paper db' = db_paper db" if "rf_mode i = LIVE" using main that fills(1) by simp
  show "?a \<le> paper_balance db (snd (key_in i)) \<and>
       (\<forall>k. paper_balance db' k = paper_balance db k - (if k = snd (key_in i) then ?a else 0)
         + (if k = snd (key_out i) then ?b else 0))" if "rf_mode i = PAPER"
    using main that paper_balance_cong [OF fills(1)] by simp
qed

text \<open>C16. The row-level fill refines the portfolio: on an intact ledger a successful fill
  keeps the ledger intact and changes the (amount, cost) of exactly two keys, the one it sells from
  (reduced at average cost, removed when sold out) and the one it buys into (increased by what was
  paid); and the fill row it appends books the abstract P&L less the fee.\<close>

theorem fill_refines_portfolio:
  assumes "ledger_ok db" "recordFill db t u1 u2 i = Inr (db', f)"
  shows "ledger_ok db' \<and>
    portfolio db' = abs_add (abs_reduce (portfolio db) (key_in i) (amount_val (rf_amountIn i)))
       (key_out i) (amount_val (rf_amountOut i)) (paid_usd i) \<and>
    db_fills db' = db_fills db @ [f] \<and>
    usdToMicros (fl_realizedPnlUsd f) = Inr (abs_realized (portfolio db) (key_in i)
       (amount_val (rf_amountIn i)) (paid_usd i) - fee_micros i)"
  using recordFill_Inr [OF assms] by (simp add: fill_row_def)

text \<open>Paper trading is bounded by the bankroll: on an intact ledger a well-formed fill
  succeeds exactly when it is live or the paper balance covers what it spends, and is refused with
  CONFLICT otherwise; a successful paper fill moves exactly the two amounts and no other balance, and a
  live fill moves no paper balance at all.\<close>

theorem paper_fill_bounded:
  assumes "ledger_ok db" "fill_input_ok i"
  shows "(returns (recordFill db t u1 u2 i) \<longleftrightarrow>
      rf_mode i = LIVE \<or> amount_val (rf_amountIn i) \<le> paper_balance db (snd (key_in i))) \<and>
    (rf_mode i = PAPER \<and> paper_balance db (snd (key_in i)) < amount_val (rf_amountIn i) \<longrightarrow>
      recordFill db t u1 u2 i = Inl (AppError E_CONFLICT ''Paper balance would go negative'')) \<and>
    (\<forall>db' f. recordFill db t u1 u2 i = Inr (db', f) \<longrightarrow>
      (\<forall>k. paper_balance db' k = (if rf_mode i = LIVE then paper_balance db k
         else paper_balance db k - (if k = snd (key_in i) then amount_val (rf_amountIn i) else 0)
           + (if k = snd (key_out i) then amount_val (rf_amountOut i) else 0))))"
proof -
  let ?a = "amount_val (rf_amountIn i)" and ?b = "amount_val (rf_amountOut i)"
  have ab: "0 < ?a" "0 < ?b" using assms(2) by (simp_all add: fill_input_ok_def)
  obtain db2 where 2: "ledger_ok db2"
    "portfolio db2 = abs_add (abs_reduce (portfolio db) (key_in i) ?a) (key_out i) ?b (paid_usd i)"
    "db_paper db2 = db_paper db" "db_fills db2 = db_fills db"
    "recordFill db t u1 u2 i = sbind (settle_paper db2 t i ?a ?b) (\<lambda>db3. let row = fill_row u2 i (fee_micros i)
       (abs_realized (portfolio db) (key_in i) ?a (paid_usd i) - fee_micros i)
       in Inr (db3\<lparr>db_fills := db_fills db3 @ [row]\<rparr>, row))"
    by (rule recordFill_unfold [OF assms(2,1)])
  have pb: "paper_balance db2 = paper_balance db" by (rule paper_balance_cong [OF 2(3)])
  have kk: "snd (key_in i) = (rf_chain i, tr_address (rf_tokenIn i))"
    "snd (key_out i) = (rf_chain i, tr_address (rf_tokenOut i))" by (simp_all add: key_in_def key_out_def)
  have ret: "returns (recordFill db t u1 u2 i) \<longleftrightarrow> returns (settle_paper db2 t i ?a ?b)"
    by (simp add: 2(5) returns_sbind Let_def)
  have conflict: "settle_paper db2 t i ?a ?b = Inl (AppError E_CONFLICT ''Paper balance would go negative'')"
    if "rf_mode i = PAPER" "paper_balance db (snd (key_in i)) < ?a"
    using settle_paper_spec(1) [OF 2(1) ab that(1) kk] that(2) pb by simp
  have enough: "returns (settle_paper db2 t i ?a ?b)"
    if "rf_mode i = PAPER" "?a \<le> paper_balance db (snd (key_in i))"
    using settle_paper_spec(2) [OF 2(1) ab that(1) kk, of t] that(2) unfolding pb returns_def by blast
  have live: "returns (settle_paper db2 t i ?a ?b)" if "rf_mode i = LIVE"
    using that by (simp add: settle_paper_def)
  have "returns (recordFill db t u1 u2 i) \<longleftrightarrow>
      rf_mode i = LIVE \<or> ?a \<le> paper_balance db (snd (key_in i))"
    using ret conflict enough live
    by (cases "rf_mode i"; cases "?a \<le> paper_balance db (snd (key_in i))") (simp_all add: not_le)
  moreover have "rf_mode i = PAPER \<and> paper_balance db (snd (key_in i)) < ?a \<longrightarrow>
      recordFill db t u1 u2 i = Inl (AppError E_CONFLICT ''Paper balance would go negative'')"
    using conflict by (simp add: 2(5))
  moreover have "\<forall>db' f. recordFill db t u1 u2 i = Inr (db', f) \<longrightarrow>
      (\<forall>k. paper_balance db' k = (if rf_mode i = LIVE then paper_balance db k
         else paper_balance db k - (if k = snd (key_in i) then ?a else 0) + (if k = snd (key_out i) then ?b else 0)))"
  proof (intro allI impI)
    fix db' f k assume e: "recordFill db t u1 u2 i = Inr (db', f)"
    note r = recordFill_Inr(5,6) [OF assms(1) e]
    show "paper_balance db' k = (if rf_mode i = LIVE then paper_balance db k
         else paper_balance db k - (if k = snd (key_in i) then ?a else 0) + (if k = snd (key_out i) then ?b else 0))"
    proof (cases "rf_mode i")
      case PAPER
      from r(2) [OF PAPER, THEN conjunct2, rule_format, of k] PAPER show ?thesis by simp
    next
      case LIVE
      then show ?thesis using r(1) paper_balance_cong [of db' db] by simp
    qed
  qed
  ultimately show ?thesis by blast
qed

text \<open>C34. P&L is never rounded in the ledger's favour. Selling \<open>a\<close> base units out of a
  position of \<open>h\<close> bought for \<open>c\<close> realizes no more than the exact average-cost figure: the booked
  P&L plus the fee, times \<open>h a\<close>, is at most \<open>(paid/a - c/h) s\<close> times \<open>h a\<close>, \<open>s\<close> being the part actually
  held. Cost is conserved: the sold position keeps the cost that was not released, never negative, and is gone with all of
  it released when everything was sold; the bought position (the sold one's remainder, when the two are the same) grows by
  exactly the amount received and the value paid for it; and no other position changes.\<close>

theorem fill_pnl_conservative:
  assumes "ledger_ok db" "recordFill db t u1 u2 i = Inr (db', f)" "portfolio db (key_in i) = Some (h, c)"
  shows "\<exists>pnl fee cost left. usdToMicros (fl_realizedPnlUsd f) = Inr pnl \<and> usdToMicros (rf_feeUsd i) = Inr fee \<and>
    0 < h \<and> 0 \<le> cost \<and> cost \<le> c \<and> (h \<le> amount_val (rf_amountIn i) \<longrightarrow> cost = c) \<and>
    h * amount_val (rf_amountIn i) * (pnl + fee) \<le>
      (paid_usd i * h - c * amount_val (rf_amountIn i)) * min (amount_val (rf_amountIn i)) h \<and>
    left = (if h \<le> amount_val (rf_amountIn i) then None else Some (h - amount_val (rf_amountIn i), c - cost)) \<and>
    (key_in i \<noteq> key_out i \<longrightarrow> portfolio db' (key_in i) = left) \<and>
    portfolio db' (key_out i) = Some (case if key_out i = key_in i then left else portfolio db (key_out i) of
      None \<Rightarrow> (amount_val (rf_amountOut i), paid_usd i)
    | Some (h', c') \<Rightarrow> (h' + amount_val (rf_amountOut i), c' + paid_usd i)) \<and>
    (\<forall>k. k \<noteq> key_in i \<longrightarrow> k \<noteq> key_out i \<longrightarrow> portfolio db' k = portfolio db k)"
proof -
  let ?a = "amount_val (rf_amountIn i)" and ?s = "min (amount_val (rf_amountIn i)) h"
  let ?cost = "costOfSold c h ?s" and ?proc = "proceedsOfSold (paid_usd i) ?a ?s"
  note r = recordFill_Inr [OF assms(1,2)]
  have inp: "fill_input_ok i" by (rule recordFill_input [OF assms(2)])
  then have a: "0 < ?a" by (simp add: fill_input_ok_def)
  obtain row where row: "getPosition db (key_in i) = Some row" "h = amount_val (pr_amount row)" "c = cost_val row"
    using assms(3) by (auto simp: portfolio_def)
  have hc: "0 < h" "0 \<le> c" using ledger_ok_position(1) [OF assms(1) row(1)] by (simp_all add: position_ok_def row)
  have s: "0 \<le> ?s" "?s \<le> h" "?s \<le> ?a" using a hc by auto
  note co = costOfSold_bounds [OF hc s(1,2)] and pr = proceedsOfSold_bounds [OF a paid_usd_nonneg [OF inp] s(1,3)]
  have pnl: "usdToMicros (fl_realizedPnlUsd f) = Inr (?proc - ?cost - fee_micros i)"
    using r(3) by (simp add: fill_row_def abs_realized_def assms(3) Let_def)
  have fee: "usdToMicros (rf_feeUsd i) = Inr (fee_micros i)"
    using inp by (auto simp: fill_input_ok_def fee_micros_def usd_ok_def returns_def)
  have "h * (?a * ?proc) \<le> h * (paid_usd i * ?s)" using pr(2) hc(1) by (intro mult_left_mono) auto
  moreover have "?a * (c * ?s) \<le> ?a * (h * ?cost)" using co(3) a by (intro mult_left_mono) auto
  ultimately have ineq: "h * ?a * (?proc - ?cost - fee_micros i + fee_micros i) \<le> (paid_usd i * h - c * ?a) * ?s"
    by (simp add: algebra_simps)
  have all: "h \<le> ?a \<longrightarrow> ?cost = c" using co(1,2,3) hc(1) a by (auto simp: min_def mult.commute)
  define left where "left = (if h \<le> ?a then None else Some (h - ?a, c - ?cost))"
  have after: "portfolio db' (key_out i) = Some (case if key_out i = key_in i then left else portfolio db (key_out i) of
      None \<Rightarrow> (amount_val (rf_amountOut i), paid_usd i)
    | Some (h', c') \<Rightarrow> (h' + amount_val (rf_amountOut i), c' + paid_usd i))"
    "key_in i \<noteq> key_out i \<longrightarrow> portfolio db' (key_in i) = left"
    "\<forall>k. k \<noteq> key_in i \<longrightarrow> k \<noteq> key_out i \<longrightarrow> portfolio db' k = portfolio db k"
    by (auto simp: r(2) abs_add_def abs_reduce_def assms(3) left_def split: option.splits)
  show ?thesis
    by (rule exI [of _ "?proc - ?cost - fee_micros i"], rule exI [of _ "fee_micros i"], rule exI [of _ ?cost], rule exI [of _ left])
      (use pnl fee hc(1) co(1,2) all ineq after left_def in blast)
qed

section \<open>Marking and what the risk engine is handed\<close>

definition price_of :: "price_lookup \<Rightarrow> position_row \<Rightarrow> int option" where
  "price_of price r = quoted_price (price (pr_chain r) (pr_token r))"

definition mark_val :: "price_lookup \<Rightarrow> position_row \<Rightarrow> int" where
  "mark_val price r = (case price_of price r of None \<Rightarrow> 0
     | Some p \<Rightarrow> amount_val (pr_amount r) * p div usd_denom (pr_decimals r))"

definition priced :: "price_lookup \<Rightarrow> position_row list \<Rightarrow> position_row list" where
  "priced price rs = filter (\<lambda>r. price_of price r \<noteq> None) rs"

definition deployed_cost :: "position_row list \<Rightarrow> int" where
  "deployed_cost rs = sum_list (map cost_val (filter (\<lambda>r. \<not> isQuoteAsset (pr_chain r) (pr_token r)) rs))"

lemma mark_one_spec:
  assumes "position_ok r"
  shows "\<exists>mp. mark_one price acc r = Inr (\<lparr>mt_value = mt_value acc + (if price_of price r = None then 0 else mark_val price r),
      mt_deployed = mt_deployed acc + (if isQuoteAsset (pr_chain r) (pr_token r) then 0 else cost_val r),
      mt_unrealized = mt_unrealized acc + (if price_of price r = None then 0 else mark_val price r - cost_val r),
      mt_unpriced = mt_unpriced acc @ (if price_of price r = None then [(pr_chain r, pr_token r)] else [])\<rparr>, mp) \<and>
      mp_row mp = r"
proof (cases "price_of price r")
  case None
  then show ?thesis
    using assms by (cases acc) (simp add: mark_one_def price_of_def position_ok_def cost_val_usd Let_def)
next
  case (Some p)
  then have p: "0 < p" by (auto simp: price_of_def quoted_price_def split: option.splits sum.splits if_splits)
  have "nativeToUsdMicros (amount_val (pr_amount r)) (pr_decimals r) p RFloor = Inr (mark_val price r)"
    using assms p Some by (simp add: nativeToUsdMicros_floor position_ok_def mark_val_def)
  with Some assms show ?thesis
    by (cases acc) (simp add: mark_one_def price_of_def position_ok_def cost_val_usd amountToBigint_canon Let_def)
qed

lemma mark_all_spec:
  assumes "\<forall>r \<in> set rs. position_ok r"
  shows "\<exists>ms. mark_all price acc rs = Inr (\<lparr>mt_value = mt_value acc + sum_list (map (mark_val price) (priced price rs)),
      mt_deployed = mt_deployed acc + deployed_cost rs,
      mt_unrealized = mt_unrealized acc + sum_list (map (\<lambda>r. mark_val price r - cost_val r) (priced price rs)),
      mt_unpriced = mt_unpriced acc @ map (\<lambda>r. (pr_chain r, pr_token r)) (filter (\<lambda>r. price_of price r = None) rs)\<rparr>, ms) \<and>
      map mp_row ms = rs"
  using assms
proof (induction rs arbitrary: acc)
  case Nil
  then show ?case by (cases acc) (simp add: priced_def deployed_cost_def)
next
  case (Cons r rs)
  obtain mp where one: "mark_one price acc r = Inr (\<lparr>mt_value = mt_value acc + (if price_of price r = None then 0 else mark_val price r),
      mt_deployed = mt_deployed acc + (if isQuoteAsset (pr_chain r) (pr_token r) then 0 else cost_val r),
      mt_unrealized = mt_unrealized acc + (if price_of price r = None then 0 else mark_val price r - cost_val r),
      mt_unpriced = mt_unpriced acc @ (if price_of price r = None then [(pr_chain r, pr_token r)] else [])\<rparr>, mp)"
    "mp_row mp = r" using mark_one_spec [of r price acc] Cons.prems by auto
  show ?case
    using Cons.IH [OF ballI, of "fst (projr (mark_one price acc r))"] Cons.prems one
    by (cases "price_of price r") (auto simp: priced_def deployed_cost_def)
qed

lemma sum_usd_returns: "\<forall>s \<in> set ss. usd_ok s \<Longrightarrow> returns (sum_usd ss)"
  by (induction ss) (auto simp: usd_ok_def returns_sbind)

lemma realized_returns: "ledger_ok db \<Longrightarrow> returns (realizedPnlToday db m t)"
  unfolding realizedPnlToday_def by (rule sum_usd_returns) (auto simp: ledger_ok_def)

definition held_rows :: "ledger_db \<Rightarrow> mode \<Rightarrow> position_row list" where
  "held_rows db m = filter (\<lambda>r. pr_mode r = m) (db_positions db)"

definition all_priced :: "ledger_db \<Rightarrow> mode \<Rightarrow> price_lookup \<Rightarrow> bool" where
  "all_priced db m price \<longleftrightarrow> (\<forall>r \<in> set (held_rows db m). price_of price r \<noteq> None)"

definition open_pnl :: "ledger_db \<Rightarrow> mode \<Rightarrow> price_lookup \<Rightarrow> int" where
  "open_pnl db m price = sum_list (map (\<lambda>r. mark_val price r - cost_val r) (held_rows db m))"

lemma sum_list_filter_sort: "sum_list (map (w :: 'a \<Rightarrow> int) (filter P (sort_key f xs))) = sum_list (map w (filter P xs))"
proof -
  have "sum_list (map w (filter P (insort_key f x ys))) = sum_list (map w (filter P (x # ys)))" for x ys
    by (induction ys) auto
  then show ?thesis by (induction xs) auto
qed

lemma mark_spec:
  assumes "ledger_ok db"
  obtains pm realized where "mark db clock m price = Inr pm" "realizedPnlToday db m clock = Inr realized"
    "pm_deployedUsd pm = microsToUsd (deployed_cost (held_rows db m))"
    "pm_unrealizedPnlUsd pm = (if all_priced db m price then Some (microsToUsd (open_pnl db m price)) else None)"
    "pm_realizedPnlTodayUsd pm = microsToUsd realized"
    "map mp_row (pm_positions pm) = listPositions db m"
proof -
  let ?acc = "\<lparr>mt_value = 0, mt_deployed = 0, mt_unrealized = 0, mt_unpriced = []\<rparr>"
  have set: "set (listPositions db m) = set (held_rows db m)" by (simp add: listPositions_def held_rows_def)
  have "\<forall>r \<in> set (listPositions db m). position_ok r"
    using assms by (auto simp: set held_rows_def ledger_ok_def)
  from mark_all_spec [OF this, of price ?acc] obtain tot ms where
    all: "mark_all price ?acc (listPositions db m) = Inr (tot, ms)" "map mp_row ms = listPositions db m"
    and tot: "mt_deployed tot = deployed_cost (listPositions db m)"
      "mt_unrealized tot = sum_list (map (\<lambda>r. mark_val price r - cost_val r) (priced price (listPositions db m)))"
      "mt_unpriced tot = map (\<lambda>r. (pr_chain r, pr_token r)) (filter (\<lambda>r. price_of price r = None) (listPositions db m))"
    by auto
  obtain realized where re: "realizedPnlToday db m clock = Inr realized"
    using realized_returns [OF assms] by (auto simp: returns_def)
  have dep: "deployed_cost (listPositions db m) = deployed_cost (held_rows db m)"
    unfolding deployed_cost_def listPositions_def held_rows_def by (rule sum_list_filter_sort)
  have complete: "mt_unpriced tot = [] \<longleftrightarrow> all_priced db m price"
    unfolding tot(3) all_priced_def set [symmetric] by (simp add: filter_empty_conv)
  have "mt_unrealized tot = open_pnl db m price" if "all_priced db m price"
  proof -
    have "filter (\<lambda>r. price_of price r \<noteq> None) (held_rows db m) = held_rows db m"
      using that by (simp add: all_priced_def)
    then show ?thesis
      unfolding tot(2) priced_def listPositions_def open_pnl_def held_rows_def [symmetric]
        sum_list_filter_sort by simp
  qed
  with all(1) re have "mark db clock m price = Inr \<lparr>pm_mode = m,
      pm_positionsValueUsd = (if all_priced db m price then Some (microsToUsd (mt_value tot)) else None),
      pm_deployedUsd = microsToUsd (deployed_cost (held_rows db m)),
      pm_unrealizedPnlUsd = (if all_priced db m price then Some (microsToUsd (open_pnl db m price)) else None),
      pm_realizedPnlTodayUsd = microsToUsd realized, pm_unpriced = mt_unpriced tot, pm_positions = ms\<rparr>"
    by (simp add: mark_def Let_def dep complete tot(1))
  from that [OF this re] all(2) show ?thesis by simp
qed

lemma toRiskLedger_spec:
  assumes "ledger_ok db"
  obtains L where
    "toRiskLedger db clock m price t = Inr (if db_days db (m, dayStart t) = None \<and> all_priced db m price
       then recordDayStart db m (microsToUsd (open_pnl db m price)) t else db, L)"
    "dayStartUtcMs L = dayStart t" "deployedUsd L = microsToUsd (deployed_cost (held_rows db m))"
    "\<exists>x. realizedPnlTodayUsd L = microsToUsd x \<and> realizedPnlToday db m clock = Inr x"
    "unrealizedPnlUsd L = (if all_priced db m price then microsToUsd (open_pnl db m price) else ''0'')"
    "unrealizedPnlAtDayStartUsd L = (case db_days db (m, dayStart t) of Some s \<Rightarrow> s
       | None \<Rightarrow> if all_priced db m price then microsToUsd (open_pnl db m price) else ''0'')"
    "map (\<lambda>p. (pos_chain p, pos_token p, pos_amount p)) (positions L) =
       map (\<lambda>r. (pr_chain r, pr_token r, pr_amount r)) (listPositions db m)"
proof -
  obtain pm x where pm: "mark db clock m price = Inr pm" "realizedPnlToday db m clock = Inr x"
    "pm_deployedUsd pm = microsToUsd (deployed_cost (held_rows db m))"
    "pm_unrealizedPnlUsd pm = (if all_priced db m price then Some (microsToUsd (open_pnl db m price)) else None)"
    "pm_realizedPnlTodayUsd pm = microsToUsd x" "map mp_row (pm_positions pm) = listPositions db m"
    by (rule mark_spec [OF assms])
  have ps: "map (\<lambda>p. (pos_chain p, pos_token p, pos_amount p)) (map risk_position (pm_positions pm)) =
       map (\<lambda>r. (pr_chain r, pr_token r, pr_amount r)) (listPositions db m)"
    unfolding pm(6) [symmetric] by (simp add: risk_position_def)
  show ?thesis
    using pm(1-5) ps
    by (cases "db_days db (m, dayStart t)"; cases "all_priced db m price")
       (auto simp: toRiskLedger_def Let_def intro!: that)
qed

lemma usd_ok_zero [simp]: "usd_ok ''0''"
  unfolding usd_ok_def by code_simp

lemma recordDayStart_ok:
  "ledger_ok db \<Longrightarrow> ledger_ok (recordDayStart db m (microsToUsd x) t)"
  by (auto simp: recordDayStart_def ledger_ok_def split: option.split)

text \<open>C40. The ledger the risk engine is handed is always well formed: on an intact ledger, whatever
  the prices are, \<open>toRiskLedger\<close> returns; the day is today's, every figure parses, the deployed
  capital is exactly the cost of what is not a quote asset, and when every position is priced the
  unrealized figure is exactly the sum of the marks less the costs.\<close>

theorem risk_ledger_well_formed:
  assumes "ledger_ok db"
  shows "\<exists>db' L. toRiskLedger db clock m price t = Inr (db', L) \<and> ledger_ok db' \<and>
    dayStartUtcMs L = dayStart t \<and>
    usdToMicros (deployedUsd L) = Inr (deployed_cost (held_rows db m)) \<and>
    (\<exists>x. usdToMicros (realizedPnlTodayUsd L) = Inr x \<and> realizedPnlToday db m clock = Inr x) \<and>
    usd_ok (unrealizedPnlUsd L) \<and> usd_ok (unrealizedPnlAtDayStartUsd L) \<and>
    (all_priced db m price \<longrightarrow> usdToMicros (unrealizedPnlUsd L) = Inr (open_pnl db m price)) \<and>
    (\<forall>p \<in> set (positions L). canon_int (pos_amount p) \<and> 0 < amount_val (pos_amount p))"
proof -
  obtain L where L: "toRiskLedger db clock m price t = Inr (if db_days db (m, dayStart t) = None \<and> all_priced db m price
       then recordDayStart db m (microsToUsd (open_pnl db m price)) t else db, L)"
    "dayStartUtcMs L = dayStart t" "deployedUsd L = microsToUsd (deployed_cost (held_rows db m))"
    "\<exists>x. realizedPnlTodayUsd L = microsToUsd x \<and> realizedPnlToday db m clock = Inr x"
    "unrealizedPnlUsd L = (if all_priced db m price then microsToUsd (open_pnl db m price) else ''0'')"
    "unrealizedPnlAtDayStartUsd L = (case db_days db (m, dayStart t) of Some s \<Rightarrow> s
       | None \<Rightarrow> if all_priced db m price then microsToUsd (open_pnl db m price) else ''0'')"
    "map (\<lambda>p. (pos_chain p, pos_token p, pos_amount p)) (positions L) =
       map (\<lambda>r. (pr_chain r, pr_token r, pr_amount r)) (listPositions db m)"
    by (rule toRiskLedger_spec [OF assms])
  have days: "usd_ok v" if "db_days db k = Some v" for k v
    using assms that unfolding ledger_ok_def by blast
  have "\<forall>p \<in> set (positions L). \<exists>r \<in> set (db_positions db). pos_amount p = pr_amount r"
  proof
    fix p assume "p \<in> set (positions L)"
    then have "(pos_chain p, pos_token p, pos_amount p) \<in> set (map (\<lambda>r. (pr_chain r, pr_token r, pr_amount r)) (listPositions db m))"
      unfolding L(7) [symmetric] by simp
    then show "\<exists>r \<in> set (db_positions db). pos_amount p = pr_amount r" by (auto simp: listPositions_def)
  qed
  then have amts: "\<forall>p \<in> set (positions L). canon_int (pos_amount p) \<and> 0 < amount_val (pos_amount p)"
    using assms by (fastforce simp: ledger_ok_def position_ok_def)
  have start: "usd_ok (unrealizedPnlAtDayStartUsd L)"
    by (auto simp: L(6) split: option.split intro: days)
  show ?thesis
    by (rule exI, rule exI, rule conjI, rule L(1))
      (use assms L(2-5) amts start recordDayStart_ok in auto)
qed

text \<open>The day's anchor is written once: after an evaluation that found every position priced (or
  an anchor already there), a later evaluation on the same day, after any changes that leave the anchors
  alone and at whatever prices, measures from the same start and writes nothing.\<close>

theorem day_anchor_stays:
  assumes "ledger_ok db" "toRiskLedger db c1 m price1 t1 = Inr (db1, L1)"
    and "all_priced db m price1 \<or> db_days db (m, dayStart t1) \<noteq> None"
    and "ledger_ok db2" "db_days db2 = db_days db1" "dayStart t2 = dayStart t1"
    and "toRiskLedger db2 c2 m price2 t2 = Inr (db3, L2)"
  shows "unrealizedPnlAtDayStartUsd L2 = unrealizedPnlAtDayStartUsd L1 \<and> db3 = db2"
proof -
  have "db_days db1 (m, dayStart t1) = Some (unrealizedPnlAtDayStartUsd L1)"
    by (rule toRiskLedger_spec [OF assms(1), of c1 m price1 t1])
      (use assms(2,3) in \<open>auto simp: recordDayStart_def split: option.splits if_splits\<close>)
  then have anchor: "db_days db2 (m, dayStart t2) = Some (unrealizedPnlAtDayStartUsd L1)"
    using assms(5,6) by simp
  show ?thesis
    by (rule toRiskLedger_spec [OF assms(4), of c2 m price2 t2]) (use assms(7) anchor in auto)
qed

text \<open>An unpriced holding can make the engine less conservative: once the day has an anchor, a
  position that cannot be priced turns the unrealized figure into "0", so a negative anchor (the day
  started under water) counts as a gain of that size today and hides as much realized loss from the
  daily-loss check.\<close>

theorem unpriced_holding_hides_loss:
  assumes "ledger_ok db" "toRiskLedger db c m price t = Inr (db', L)" "\<not> all_priced db m price"
    and "db_days db (m, dayStart t) = Some s" "usdToMicros s = Inr u0" "u0 < 0"
    and "realizedPnlToday db m c = Inr x" "x < 0"
    and "ledger (state inp) = L" "includeUnrealized (policy inp)"
  shows "computeDailyLoss inp = Inr (max 0 (- x + u0)) \<and> max 0 (- x + u0) < - x"
proof -
  have z: "usdToMicros ''0'' = Inr 0" by code_simp
  have "usdToMicros (realizedPnlTodayUsd L) = Inr x \<and> unrealizedPnlUsd L = ''0'' \<and> unrealizedPnlAtDayStartUsd L = s"
    by (rule toRiskLedger_spec [OF assms(1), of c m price t]) (use assms(2-4,7) in auto)
  then have "computeDailyLoss inp = Inr (max 0 (- x + u0))"
    using assms(5,9,10) z by (simp add: computeDailyLoss_def Let_def)
  with assms(6,8) show ?thesis by simp
qed

section \<open>Witnesses\<close>

definition W_USDC :: string where "W_USDC = ''0x833589fcd6edb6e08f4c7c32d4f71b54bda02913''"
definition W_WETH :: string where "W_WETH = ''0x4200000000000000000000000000000000000006''"

definition sample_row :: position_row where
  "sample_row = \<lparr>pr_id = ''p1'', pr_mode = PAPER, pr_chain = Base, pr_token = W_WETH, pr_decimals = 18,
     pr_amount = ''4000000000000000'', pr_costBasisUsd = ''10'', pr_openedAt = 5, pr_updatedAt = 5\<rparr>"

definition sample_ledger :: ledger_db where
  "sample_ledger = \<lparr>db_positions = [sample_row],
     db_fills = [\<lparr>fl_id = ''f0'', fl_tradeId = ''t0'', fl_mode = PAPER, fl_chain = Base,
       fl_tokenIn = W_USDC, fl_tokenOut = W_WETH, fl_amountIn = ''10000000'',
       fl_amountOut = ''4000000000000000'', fl_priceInUsd = ''1'', fl_priceOutUsd = ''2500'',
       fl_feeUsd = ''1'', fl_realizedPnlUsd = ''-1'', fl_filledAt = 5, fl_simulated = True\<rparr>],
     db_lp_pnl = [],
     db_paper = [\<lparr>pb_chain = Base, pb_token = W_WETH, pb_decimals = 18,
       pb_amount = ''4000000000000000'', pb_updatedAt = 5\<rparr>],
     db_days = [(PAPER, 0) \<mapsto> ''-50'']\<rparr>"

definition sample_sell :: record_fill_input where
  "sample_sell = \<lparr>rf_tradeId = ''t1'', rf_mode = PAPER, rf_chain = Base,
     rf_tokenIn = \<lparr>tr_address = W_WETH, tr_decimals = 18\<rparr>,
     rf_tokenOut = \<lparr>tr_address = W_USDC, tr_decimals = 6\<rparr>, rf_amountIn = ''1000000000000000'',
     rf_amountOut = ''2500000'', rf_priceInUsd = ''2500'', rf_priceOutUsd = ''1'', rf_feeUsd = ''0.05'',
     rf_filledAt = 9, rf_simulated = True\<rparr>"

definition sample_price :: price_lookup where
  "sample_price c token = (if token = W_WETH then Some ''2400'' else None)"

lemma sample_ledger_ok: "ledger_ok sample_ledger"
proof -
  have "position_ok sample_row" by code_simp
  moreover have "canon_int ''4000000000000000''" by code_simp
  moreover have "usd_ok ''-1''" "usd_ok ''-50''" unfolding usd_ok_def by code_simp+
  ultimately show ?thesis by (simp add: ledger_ok_def sample_ledger_def)
qed

lemma sample_sell_fills: "\<exists>db' f. recordFill sample_ledger 9 ''p2'' ''f1'' sample_sell = Inr (db', f)"
proof -
  have "returns (recordFill sample_ledger 9 ''p2'' ''f1'' sample_sell)" by code_simp
  then show ?thesis by (auto simp: returns_def)
qed

lemma sample_portfolio: "portfolio sample_ledger (key_in sample_sell) = Some (4000000000000000, 10000000)"
proof -
  have "getPosition sample_ledger (key_in sample_sell) = Some sample_row" by code_simp
  moreover have "amount_val (pr_amount sample_row) = 4000000000000000" "cost_val sample_row = 10000000"
    by code_simp+
  ultimately show ?thesis by (simp add: portfolio_def)
qed

lemma sample_ledger_sel: "db_days sample_ledger (PAPER, dayStart 9) = Some ''-50''"
  "held_rows sample_ledger PAPER = [sample_row]" "realizedPnlToday sample_ledger PAPER 9 = Inr (- 1000000)"
  by code_simp+

theorem fill_refines_portfolio_witness:
  "\<exists>db' f. recordFill sample_ledger 9 ''p2'' ''f1'' sample_sell = Inr (db', f) \<and> ledger_ok db' \<and>
     portfolio db' (key_out sample_sell) \<noteq> None"
proof -
  obtain db' f where f: "recordFill sample_ledger 9 ''p2'' ''f1'' sample_sell = Inr (db', f)"
    using sample_sell_fills by blast
  from fill_refines_portfolio [OF sample_ledger_ok f] show ?thesis
    using f by (auto simp: abs_add_def)
qed

theorem paper_fill_bounded_witness:
  "returns (recordFill sample_ledger 9 ''p2'' ''f1'' sample_sell) \<and>
   recordFill sample_ledger 9 ''p2'' ''f1'' (sample_sell\<lparr>rf_amountIn := ''5000000000000000''\<rparr>) =
     Inl (AppError E_CONFLICT ''Paper balance would go negative'')"
proof -
  let ?big = "sample_sell\<lparr>rf_amountIn := ''5000000000000000''\<rparr>"
  obtain db' f where f: "recordFill sample_ledger 9 ''p2'' ''f1'' sample_sell = Inr (db', f)"
    using sample_sell_fills by blast
  have p: "\<exists>p. priceToAtto (rf_priceInUsd ?big) = Inr p \<and> 0 < p" "\<exists>p. priceToAtto (rf_priceOutUsd ?big) = Inr p \<and> 0 < p"
    using recordFill_input [OF f] by (simp_all add: fill_input_ok_def)
  have c: "canon_int (rf_amountIn ?big)" "0 < amount_val (rf_amountIn ?big)" by code_simp+
  have big: "fill_input_ok ?big"
    using recordFill_input [OF f] p c by (simp add: fill_input_ok_def)
  have pos: "rf_mode ?big = PAPER \<and> paper_balance sample_ledger (snd (key_in ?big)) < amount_val (rf_amountIn ?big)"
    by code_simp
  show ?thesis
    using paper_fill_bounded [OF sample_ledger_ok big, of 9 "''p2''" "''f1''"] pos f by auto
qed

theorem fill_pnl_conservative_witness:
  "\<exists>pnl fee cost. 0 \<le> cost \<and> cost \<le> (10000000 :: int) \<and>
     4000000000000000 * amount_val (rf_amountIn sample_sell) * (pnl + fee) \<le>
       (paid_usd sample_sell * 4000000000000000 - 10000000 * amount_val (rf_amountIn sample_sell)) *
       min (amount_val (rf_amountIn sample_sell)) 4000000000000000"
proof -
  obtain db' f where f: "recordFill sample_ledger 9 ''p2'' ''f1'' sample_sell = Inr (db', f)"
    using sample_sell_fills by blast
  from fill_pnl_conservative [OF sample_ledger_ok f sample_portfolio] show ?thesis by blast
qed

theorem risk_ledger_well_formed_witness:
  "\<exists>db' L. toRiskLedger sample_ledger 9 PAPER sample_price 9 = Inr (db', L) \<and> dayStartUtcMs L = dayStart 9 \<and>
     usdToMicros (deployedUsd L) = Inr (deployed_cost (held_rows sample_ledger PAPER))"
  using risk_ledger_well_formed [OF sample_ledger_ok, of 9 PAPER sample_price 9] by blast

theorem day_anchor_stays_witness:
  "\<exists>db1 L1 db3 L2. toRiskLedger sample_ledger 9 PAPER sample_price 9 = Inr (db1, L1) \<and>
     toRiskLedger db1 10 PAPER (\<lambda>_ _. None) 10 = Inr (db3, L2) \<and>
     unrealizedPnlAtDayStartUsd L2 = unrealizedPnlAtDayStartUsd L1 \<and> db3 = db1"
proof -
  obtain L1 where 1: "toRiskLedger sample_ledger 9 PAPER sample_price 9 = Inr (sample_ledger, L1)"
    by (rule toRiskLedger_spec [OF sample_ledger_ok, of 9 PAPER sample_price 9])
      (simp add: sample_ledger_sel(1))
  obtain db3 L2 where 2: "toRiskLedger sample_ledger 10 PAPER (\<lambda>_ _. None) 10 = Inr (db3, L2)"
    by (rule toRiskLedger_spec [OF sample_ledger_ok, of 10 PAPER "\<lambda>_ _. None" 10]) blast
  have "all_priced sample_ledger PAPER sample_price \<or> db_days sample_ledger (PAPER, dayStart 9) \<noteq> None"
    by (simp add: sample_ledger_sel)
  moreover have "dayStart 10 = dayStart 9" by code_simp
  ultimately show ?thesis
    using day_anchor_stays [OF sample_ledger_ok 1 _ sample_ledger_ok refl _ 2] 1 2 by blast
qed

definition hidden_loss_input :: "risk_ledger \<Rightarrow> risk_input \<Rightarrow> risk_input" where
  "hidden_loss_input L inp = inp\<lparr>state := (state inp)\<lparr>ledger := L\<rparr>,
     policy := (policy inp)\<lparr>includeUnrealized := True\<rparr>\<rparr>"

theorem unpriced_holding_hides_loss_witness:
  "\<exists>db' L. toRiskLedger sample_ledger 9 PAPER (\<lambda>_ _. None) 9 = Inr (db', L) \<and>
     (\<forall>inp. computeDailyLoss (hidden_loss_input L inp) = Inr 0)"
proof -
  obtain db' L where L: "toRiskLedger sample_ledger 9 PAPER (\<lambda>_ _. None) 9 = Inr (db', L)"
    by (rule toRiskLedger_spec [OF sample_ledger_ok, of 9 PAPER "\<lambda>_ _. None" 9]) blast
  have np: "\<not> all_priced sample_ledger PAPER (\<lambda>_ _. None)"
    by (simp add: all_priced_def sample_ledger_sel price_of_def quoted_price_def)
  have u0: "usdToMicros ''-50'' = Inr (- 50000000)" by code_simp
  have "computeDailyLoss (hidden_loss_input L inp) = Inr 0" for inp
    using unpriced_holding_hides_loss [OF sample_ledger_ok L np sample_ledger_sel(1) u0 _ sample_ledger_sel(3),
        of "hidden_loss_input L inp"]
    by (simp add: hidden_loss_input_def)
  with L show ?thesis by blast
qed

end
