(* ===== verification/Risk_Engine_Props.thy ===== *)
theory Risk_Engine_Props
  imports Risk_Engine
begin

text \<open>
  What the risk engine guarantees: the canonical list of checks, what a decision means, what an
  allowed action satisfies for each kind, and when the engine returns at all. The lemmas turn
  ``this check is in an allowed decision'' into the inequality the check is about; the
  properties collect them.
\<close>

section \<open>Checks\<close>

definition check_id :: "risk_check \<Rightarrow> check_name" where
  "check_id c = (ck_name c, ck_code c)"

lemma check_simps [simp]:
  "check_id (check n c p ob li de) = (n, c)" "check_id (skip n c r) = (n, c)"
  "failing (check n c p ob li de) \<longleftrightarrow> \<not> p" "\<not> failing (skip n c r)"
  "ck_passed (check n c p ob li de) \<longleftrightarrow> p"
  "ck_code (check n c p ob li de) = c" "ck_code (skip n c r) = c"
  by (simp_all add: check_def skip_def check_id_def failing_def)

definition is_fresh :: "stamped option \<Rightarrow> int \<Rightarrow> int \<Rightarrow> int \<Rightarrow> bool" where
  "is_fresh s t maxAge skew \<longleftrightarrow>
     (\<exists>st. s = Some st \<and> - skew \<le> t - sv_at st \<and> t - sv_at st \<le> maxAge)"

lemma freshnessCheck_simps [simp]:
  "check_id (freshnessCheck n s t m k) = (n, DATA_STALE)"
  "failing (freshnessCheck n s t m k) \<longleftrightarrow> \<not> is_fresh s t m k"
  "ck_passed (freshnessCheck n s t m k) \<longleftrightarrow> is_fresh s t m k"
  by (auto simp: freshnessCheck_def is_fresh_def Let_def split: option.splits)

lemma freshnessCheck_not_skipped: "ck_skipped (freshnessCheck n s t m k) = None"
  by (auto simp: freshnessCheck_def check_def Let_def split: option.splits)

lemma priceCheck_simps [simp]:
  "check_id (priceCheck n s t m k) = (n, DATA_STALE)"
  "failing (priceCheck n s t m k) \<longleftrightarrow> \<not> (is_fresh s t m k \<and> usablePrice s \<noteq> None)"
  by (auto simp: priceCheck_def Let_def is_fresh_def)

lemma within_simps [simp]: "\<not> within None k" "within (Some v) k \<longleftrightarrow> v \<le> k"
  by (simp_all add: within_def)

lemma at_least_simps [simp]: "\<not> at_least None k" "at_least (Some v) k \<longleftrightarrow> k \<le> v"
  by (simp_all add: at_least_def)

lemma within_iff: "within x k \<longleftrightarrow> (\<exists>v. x = Some v \<and> v \<le> k)"
  and at_least_iff: "at_least x k \<longleftrightarrow> (\<exists>v. x = Some v \<and> k \<le> v)"
  by (cases x; simp)+

lemma usablePrice_pos: "usablePrice s = Some p \<Longrightarrow> 0 < p"
  by (auto simp: usablePrice_def split: option.splits sum.splits if_splits)

section \<open>The canonical list\<close>

definition TIER0_NAMES :: "check_name list" where
  "TIER0_NAMES = [
     (''schema.policy'', SCHEMA_INVALID), (''schema.action'', SCHEMA_INVALID),
     (''schema.decimals'', SCHEMA_INVALID), (''schema.idempotency'', SCHEMA_INVALID),
     (''stop.emergency'', EMERGENCY_STOP), (''pause.global'', GLOBAL_PAUSE),
     (''live.modeMatch'', MODE_MISMATCH), (''live.activated'', LIVE_NOT_ACTIVATED)]"

abbreviation "tier0 X is inp \<equiv> schema_checks X is inp @ switch_checks inp"

abbreviation "short_circuited a \<equiv> map (\<lambda>(n, c). skip n c Short_circuit) (remainingCheckNames a)"

lemma tier0_ids: "map check_id (tier0 X is inp) = TIER0_NAMES"
  by (auto simp: schema_checks_def switch_checks_def TIER0_NAMES_def Let_def split: list.splits)

lemma skip_ids: "map check_id (map (\<lambda>(n, c). skip n c r) ns) = ns"
  by (induction ns) auto

lemma freshness_ids: "map check_id (freshness_checks inp) = take 10 (tl REMAINING_CHECK_NAMES)"
  by (simp add: freshness_checks_def REMAINING_CHECK_NAMES_def Let_def split: option.splits)

lemma contractCheck_id [simp]: "check_id (contractCheck a e) = (''allowlist.contract'', CONTRACT_UNKNOWN)"
  by (auto simp: contractCheck_def Let_def split: option.splits)

lemma allowlist_ids:
  "map check_id (allowlist_checks inp) = take 4 (drop 11 REMAINING_CHECK_NAMES)"
  by (simp add: allowlist_checks_def REMAINING_CHECK_NAMES_def Let_def)

lemma cooldown_ids:
  "map check_id (cooldown_checks inp) = take 2 (drop 24 REMAINING_CHECK_NAMES)"
  by (simp add: cooldown_checks_def REMAINING_CHECK_NAMES_def Let_def)

lemma check_id_literal [simp]:
  "check_id \<lparr>ck_name = n, ck_code = c, ck_passed = p, ck_observed = ob, ck_limit = l,
     ck_skipped = s, ck_detail = d\<rparr> = (n, c)"
  "failing \<lparr>ck_name = n, ck_code = c, ck_passed = True, ck_observed = ob, ck_limit = l,
     ck_skipped = s, ck_detail = d\<rparr> = False"
  by (simp_all add: check_id_def failing_def)

lemma single_ids:
  "position_check inp = Inr c \<Longrightarrow> check_id c = (''position.reduceOnly'', REDUCE_ONLY_MISMATCH)"
  "size_check inp d = Inr c \<Longrightarrow> check_id c = (''size.amountInUsd'', SIZE_EXCEEDS_MAX_TRADE)"
  "loss_check inp cap d dl = Inr c \<Longrightarrow> check_id c = (''loss.daily'', DAILY_LOSS_BREACHED)"
  "deployed_check inp cap d = Inr (c, pr) \<Longrightarrow> check_id c = (''deployed.total'', TOTAL_DEPLOYED_BREACHED)"
  "slippage_checks inp = Inr (cs, bps) \<Longrightarrow> map check_id cs =
     [(''slippage.implied'', SLIPPAGE_EXCEEDS_MAX), (''slippage.priceImpact'', SLIPPAGE_EXCEEDS_MAX)]"
  "market_check inp d = Inr c \<Longrightarrow> check_id c = (''quote.market'', QUOTE_OFF_MARKET)"
  "fee_check inp d = Inr c \<Longrightarrow> check_id c = (''fee.usd'', FEE_EXCEEDS_MAX)"
  "liquidity_check inp = Inr c \<Longrightarrow> check_id c = (''liquidity.market'', LIQUIDITY_BELOW_MIN)"
  "balance_in_check inp d = Inr c \<Longrightarrow> check_id c = (''balance.tokenIn'', BALANCE_INSUFFICIENT)"
  "balance_gas_check inp d = Inr c \<Longrightarrow> check_id c = (''balance.gas'', BALANCE_INSUFFICIENT)"
          apply (auto simp: position_check_def sbind_eq_Inr Let_def split: if_splits)[1]
         apply (auto simp: size_check_def sbind_eq_Inr Let_def)[1]
        apply (auto simp: loss_check_def sbind_eq_Inr Let_def)[1]
       apply (auto simp: deployed_check_def sbind_eq_Inr Let_def)[1]
      apply (auto simp: slippage_checks_def sbind_eq_Inr Let_def split: option.splits)[1]
     apply (auto simp: market_check_def sbind_eq_Inr Let_def split: option.splits)[1]
    apply (auto simp: fee_check_def sbind_eq_Inr)[1]
   apply (auto simp: liquidity_check_def sbind_eq_Inr Let_def split: if_splits)[1]
  apply (auto simp: balance_in_check_def sbind_eq_Inr Let_def split: if_splits)[1]
  apply (auto simp: balance_gas_check_def sbind_eq_Inr)[1]
  done

lemma lp_ids:
  "lp_position_check inp l = Inr c \<Longrightarrow> check_id c = (''lp.position'', REDUCE_ONLY_MISMATCH)"
  "lp_liquidity_check inp = Inr c \<Longrightarrow> check_id c = (''lp.poolLiquidity'', POOL_LIQUIDITY_BELOW_MIN)"
  "check_id (lp_rebalance_check inp l) = (''lp.rebalanceCount'', REBALANCE_LIMIT_REACHED)"
  "lp_slippage_check inp = Inr c \<Longrightarrow> check_id c = (''lp.rebalanceSlippage'', SLIPPAGE_EXCEEDS_MAX)"
  "lp_gas_check inp d = Inr c \<Longrightarrow> check_id c = (''lp.gas'', FEE_EXCEEDS_MAX)"
  "lp_claim_check inp l = Inr c \<Longrightarrow> check_id c = (''lp.claimThreshold'', FEE_BELOW_CLAIM_THRESHOLD)"
  "lp_tokenB_checks inp l = Inr cs \<Longrightarrow> map check_id cs =
     [(''lp.freshness.balance.tokenB'', DATA_STALE), (''lp.balance.tokenB'', BALANCE_INSUFFICIENT)]"
       apply (auto simp: lp_position_check_def sbind_eq_Inr Let_def split: if_splits)[1]
      apply (auto simp: lp_liquidity_check_def sbind_eq_Inr split: if_splits)[1]
     apply (simp add: lp_rebalance_check_def Let_def)
    apply (auto simp: lp_slippage_check_def sbind_eq_Inr Let_def split: option.splits)[1]
   apply (auto simp: lp_gas_check_def sbind_eq_Inr)[1]
  apply (auto simp: lp_claim_check_def sbind_eq_Inr split: if_splits)[1]
  apply (auto simp: lp_tokenB_checks_def sbind_eq_Inr Let_def split: option.splits)[1]
  done

lemma runLpChecks_ids:
  assumes "runLpChecks inp d = Inr cs" "isLp (action inp) \<longrightarrow> a_lp (action inp) \<noteq> None"
  shows "map check_id cs = (if isLp (action inp) then LP_LATE_CHECK_NAMES else [])"
  using assms lp_ids(1,2,4,5,6,7)
  by (auto simp: runLpChecks_def sbind_eq_Inr Let_def LP_LATE_CHECK_NAMES_def lp_ids(3)
      split: option.splits if_splits)

lemma lp_pool_ids:
  assumes "isLp (action inp) \<longrightarrow> a_lp (action inp) \<noteq> None"
  shows "map check_id (lp_pool_checks inp) =
    (if isLp (action inp) \<or> isLpApprove (action inp) then [LP_POOL_CHECK] else [])"
  using assms
  by (auto simp: lp_pool_checks_def poolAllowlistCheck_def LP_POOL_CHECK_def isLpApprove_def Let_def
      split: option.splits)

lemma lp_capital_ids:
  assumes "lp_capital_checks inp cap = Inr cs" "isLp (action inp) \<longrightarrow> a_lp (action inp) \<noteq> None"
  shows "map check_id cs = (if isLpEntry (action inp) then [LP_CAPITAL_CHECK] else [])"
  using assms
  by (auto simp: lp_capital_checks_def LP_CAPITAL_CHECK_def sbind_eq_Inr Let_def isLp_def isLpEntry_def
      split: option.splits if_splits)

text \<open>One successful run, taken apart: the checks of every section, in order.\<close>

lemma runRemainingE:
  assumes "runRemainingChecks inp = Inr (cs, drv)"
  obtains cap capC posC d sizeC dl lossC depC pr slipC bps mktC feeC liqC balC gasC lpC where
    "lp_entry_capital inp = Inr cap" "lp_capital_checks inp cap = Inr capC"
    "position_check inp = Inr posC" "derive_amounts inp = Inr d" "size_check inp d = Inr sizeC"
    "computeDailyLoss inp = Inr dl" "loss_check inp cap d dl = Inr lossC"
    "deployed_check inp cap d = Inr (depC, pr)" "slippage_checks inp = Inr (slipC, bps)"
    "market_check inp d = Inr mktC" "fee_check inp d = Inr feeC" "liquidity_check inp = Inr liqC"
    "balance_in_check inp d = Inr balC" "balance_gas_check inp d = Inr gasC"
    "runLpChecks inp d = Inr lpC"
    "cs = chain_check inp # lp_pool_checks inp @ capC @ freshness_checks inp @ allowlist_checks inp @
       [posC, sizeC, lossC, depC] @ slipC @ [mktC, feeC, liqC] @ cooldown_checks inp @ [balC, gasC] @ lpC"
    "drv = \<lparr>amountInUsd = usd_or NOT_EVALUATED (da_amountInUsd d),
       feeUsd = usd_or NOT_EVALUATED (da_feeUsd d), impliedBps = bps,
       dailyLossUsd = microsToUsd dl, projectedDeployedUsd = usd_or NOT_EVALUATED pr\<rparr>"
  using assms by (auto simp: runRemainingChecks_def sbind_eq_Inr)

lemma runRemaining_ids:
  assumes "runRemainingChecks inp = Inr (cs, drv)"
    and lp: "isLp (action inp) \<longrightarrow> a_lp (action inp) \<noteq> None"
  shows "map check_id cs = remainingCheckNames (action inp)"
  using assms(1)
proof (rule runRemainingE)
  fix cap capC posC d sizeC dl lossC depC pr slipC bps mktC feeC liqC balC gasC lpC
  assume r: "lp_capital_checks inp cap = Inr capC" "position_check inp = Inr posC"
      "size_check inp d = Inr sizeC" "loss_check inp cap d dl = Inr lossC"
      "deployed_check inp cap d = Inr (depC, pr)" "slippage_checks inp = Inr (slipC, bps)"
      "market_check inp d = Inr mktC" "fee_check inp d = Inr feeC" "liquidity_check inp = Inr liqC"
      "balance_in_check inp d = Inr balC" "balance_gas_check inp d = Inr gasC"
      "runLpChecks inp d = Inr lpC"
    and cs: "cs = chain_check inp # lp_pool_checks inp @ capC @ freshness_checks inp @
       allowlist_checks inp @ [posC, sizeC, lossC, depC] @ slipC @ [mktC, feeC, liqC] @
       cooldown_checks inp @ [balC, gasC] @ lpC"
  have ids: "map check_id cs = (''chain.enabled'', CHAIN_UNSUPPORTED) #
      (if isLp (action inp) \<or> isLpApprove (action inp) then [LP_POOL_CHECK] else []) @
      (if isLpEntry (action inp) then [LP_CAPITAL_CHECK] else []) @ tl REMAINING_CHECK_NAMES @
      (if isLp (action inp) then LP_LATE_CHECK_NAMES else [])"
    by (simp add: cs freshness_ids allowlist_ids cooldown_ids single_ids(1) [OF r(2)]
        single_ids(2) [OF r(3)] single_ids(3) [OF r(4)] single_ids(4) [OF r(5)]
        single_ids(5) [OF r(6)] single_ids(6) [OF r(7)] single_ids(7) [OF r(8)]
        single_ids(8) [OF r(9)] single_ids(9) [OF r(10)] single_ids(10) [OF r(11)]
        runLpChecks_ids [OF r(12) lp] lp_pool_ids [OF lp] lp_capital_ids [OF r(1) lp]
        chain_check_def Let_def REMAINING_CHECK_NAMES_def)
  have entry: "isLpEntry a \<Longrightarrow> isLp a" for a by (auto simp: isLpEntry_def isLp_def)
  show ?thesis
    using ids entry [of "action inp"]
    by (auto simp: remainingCheckNames_def REMAINING_CHECK_NAMES_def)
qed

lemma tier0_passed:
  assumes "\<not> checksFailed (tier0 X is inp)" "schema_parse X (action inp) = Inr is"
  shows "schemaVersion (policy inp) = 1" "action_valid X (action inp)"
    "decimalsMismatch (action inp) (allowlisted_tokens (policy inp) (a_chain (action inp))) = None"
    "idempotencyKey (action inp) = deriveIdempotencyKey X (action inp)"
    "\<not> emergencyOf inp" "\<not> pausedOf inp" "a_mode (action inp) = st_mode (state inp)" "liveOk inp"
proof -
  have s: "\<not> checksFailed (schema_checks X is inp)" and w: "\<not> checksFailed (switch_checks inp)"
    using assms(1) by (simp_all add: checksFailed_def)
  have v: "is = []"
    using s by (simp add: checksFailed_def schema_checks_def Let_def split: list.splits prod.splits)
  show "action_valid X (action inp)" using v assms(2) by (simp add: action_valid_def)
  show "schemaVersion (policy inp) = 1" "idempotencyKey (action inp) = deriveIdempotencyKey X (action inp)"
    using s v by (simp_all add: checksFailed_def schema_checks_def Let_def)
  show "decimalsMismatch (action inp) (allowlisted_tokens (policy inp) (a_chain (action inp))) = None"
    using s v
    by (cases "decimalsMismatch (action inp) (allowlisted_tokens (policy inp) (a_chain (action inp)))")
       (auto simp: checksFailed_def schema_checks_def Let_def)
  show "\<not> emergencyOf inp" "\<not> pausedOf inp" "a_mode (action inp) = st_mode (state inp)" "liveOk inp"
    using w by (simp_all add: checksFailed_def switch_checks_def Let_def)
qed

text \<open>The two ways a decision comes about.\<close>

lemma evaluateE:
  assumes "evaluate X inp = Inr d"
  obtains (stopped) "is" where "schema_parse X (action inp) = Inr is" "checksFailed (tier0 X is inp)"
    "d = finish inp (tier0 X is inp @ short_circuited (action inp)) None"
  | (ran) "is" cs drv where "schema_parse X (action inp) = Inr is" "\<not> checksFailed (tier0 X is inp)"
    "runRemainingChecks inp = Inr (cs, drv)" "d = finish inp (tier0 X is inp @ cs) (Some drv)"
proof -
  obtain "is" where i: "schema_parse X (action inp) = Inr is"
    using assms by (auto simp: evaluate_def runTier0_def sbind_eq_Inr)
  show ?thesis
  proof (cases "checksFailed (tier0 X is inp)")
    case True
    then show ?thesis
      using assms by (intro stopped [OF i]) (simp_all add: evaluate_def runTier0_def i Let_def)
  next
    case False
    then show ?thesis
      using assms ran [OF i] by (auto simp: evaluate_def runTier0_def i Let_def sbind_eq_Inr)
  qed
qed

lemma valid_lp: "action_valid X a \<Longrightarrow> isLp a \<longrightarrow> a_lp a \<noteq> None"
  using action_valid_lp(1) by (simp add: isLp_def)

text \<open>Every decision reports the whole canonical list, in order: the eight tier-0 checks and
  then exactly the names declared for the action's kind, whether the run short-circuited at tier 0 or
  evaluated every check.\<close>

theorem decision_canonical_checks:
  assumes "evaluate X inp = Inr d"
  shows "map check_id (checks d) = TIER0_NAMES @ remainingCheckNames (action inp)"
  using assms
proof (cases rule: evaluateE)
  case (stopped "is")
  then have "checks d = tier0 X is inp @ short_circuited (action inp)" by (simp add: finish_def Let_def)
  then show ?thesis by (simp only: map_append tier0_ids [unfolded map_append] skip_ids)
next
  case (ran "is" cs drv)
  then have c: "checks d = tier0 X is inp @ cs" by (simp add: finish_def Let_def)
  have "map check_id cs = remainingCheckNames (action inp)"
    using ran(3) valid_lp [OF tier0_passed(2) [OF ran(2,1)]] by (rule runRemaining_ids)
  with c show ?thesis by (simp only: map_append tier0_ids [unfolded map_append])
qed

section \<open>What a decision means\<close>

lemma finish_allowed: "allowed (finish inp cs drv) \<longleftrightarrow> \<not> checksFailed cs"
  by (auto simp: finish_def checksFailed_def Let_def find_None_iff list_ex_iff)

lemma evaluate_allowedE:
  assumes "evaluate X inp = Inr d" "allowed d"
  obtains "is" cs drv where "schema_parse X (action inp) = Inr is"
    "\<not> checksFailed (tier0 X is inp)" "runRemainingChecks inp = Inr (cs, drv)" "\<not> checksFailed cs"
  using assms(1)
proof (cases rule: evaluateE)
  case (stopped "is")
  then have False using assms(2) by (simp add: finish_allowed) (auto simp: checksFailed_def)
  then show ?thesis ..
next
  case (ran "is" cs drv)
  then have "\<not> checksFailed cs" using assms(2) by (simp add: finish_allowed checksFailed_def)
  with ran that show ?thesis by blast
qed

text \<open>The canonical order, written out: the eight checks of tier 0, the chain, the pool of an LP action or LP approval and
  the capital of an LP entry, the checks every action has, and the late checks of an LP action.\<close>

definition order_of :: "bool \<Rightarrow> bool \<Rightarrow> bool \<Rightarrow> check_name list" where
  "order_of pool enters lp =
     [(''schema.policy'', SCHEMA_INVALID), (''schema.action'', SCHEMA_INVALID), (''schema.decimals'', SCHEMA_INVALID),
      (''schema.idempotency'', SCHEMA_INVALID), (''stop.emergency'', EMERGENCY_STOP), (''pause.global'', GLOBAL_PAUSE),
      (''live.modeMatch'', MODE_MISMATCH), (''live.activated'', LIVE_NOT_ACTIVATED),
      (''chain.enabled'', CHAIN_UNSUPPORTED)] @
     (if pool then [(''lp.pool'', POOL_NOT_ALLOWLISTED)] else []) @
     (if enters then [(''lp.capital'', LP_CAPITAL_EXCEEDS_MAX)] else []) @
     [(''freshness.action'', DATA_STALE), (''freshness.ledger'', DATA_STALE), (''freshness.price.tokenIn'', DATA_STALE),
      (''freshness.price.tokenOut'', DATA_STALE), (''freshness.price.native'', DATA_STALE), (''freshness.quote'', DATA_STALE),
      (''freshness.fee'', DATA_STALE), (''freshness.balance.tokenIn'', DATA_STALE), (''freshness.balance.native'', DATA_STALE),
      (''freshness.liquidity'', DATA_STALE),
      (''allowlist.tokenIn'', TOKEN_NOT_ALLOWLISTED), (''allowlist.tokenOut'', TOKEN_NOT_ALLOWLISTED),
      (''allowlist.protocol'', PROTOCOL_NOT_ALLOWLISTED), (''allowlist.contract'', CONTRACT_UNKNOWN),
      (''position.reduceOnly'', REDUCE_ONLY_MISMATCH), (''size.amountInUsd'', SIZE_EXCEEDS_MAX_TRADE),
      (''loss.daily'', DAILY_LOSS_BREACHED), (''deployed.total'', TOTAL_DEPLOYED_BREACHED),
      (''slippage.implied'', SLIPPAGE_EXCEEDS_MAX), (''slippage.priceImpact'', SLIPPAGE_EXCEEDS_MAX),
      (''quote.market'', QUOTE_OFF_MARKET), (''fee.usd'', FEE_EXCEEDS_MAX), (''liquidity.market'', LIQUIDITY_BELOW_MIN),
      (''cooldown.market'', COOLDOWN_ACTIVE), (''cooldown.global'', COOLDOWN_ACTIVE),
      (''balance.tokenIn'', BALANCE_INSUFFICIENT), (''balance.gas'', BALANCE_INSUFFICIENT)] @
     (if lp then
       [(''lp.position'', REDUCE_ONLY_MISMATCH), (''lp.poolLiquidity'', POOL_LIQUIDITY_BELOW_MIN),
        (''lp.rebalanceCount'', REBALANCE_LIMIT_REACHED), (''lp.rebalanceSlippage'', SLIPPAGE_EXCEEDS_MAX),
        (''lp.gas'', FEE_EXCEEDS_MAX), (''lp.claimThreshold'', FEE_BELOW_CLAIM_THRESHOLD),
        (''lp.freshness.balance.tokenB'', DATA_STALE), (''lp.balance.tokenB'', BALANCE_INSUFFICIENT)] else [])"

definition canonical_order :: "proposed_action \<Rightarrow> check_name list" where
  "canonical_order a = order_of (isLp a \<or> isLpApprove a) (isLpEntry a) (isLp a)"

lemma canonical_order_names: "TIER0_NAMES @ remainingCheckNames a = canonical_order a"
  by (auto simp: canonical_order_def order_of_def TIER0_NAMES_def remainingCheckNames_def REMAINING_CHECK_NAMES_def LP_POOL_CHECK_def
      LP_CAPITAL_CHECK_def LP_LATE_CHECK_NAMES_def isLpEntry_def isLp_def)

lemma order_distinct: "distinct (map fst (order_of b1 b2 b3))"
  by (induct b1; induct b2; induct b3; code_simp)

lemma canonical_distinct: "distinct (map fst (canonical_order a))"
  unfolding canonical_order_def by (rule order_distinct)

lemma first_failure:
  assumes "List.find failing cs = Some c"
  obtains i where "i < length cs" "cs ! i = c" "failing c" "\<forall>j < i. \<not> failing (cs ! j)"
  using assms by (auto simp: find_Some_iff)

lemma finish_sel [simp]:
  "checks (finish inp cs drv) = cs" "derived (finish inp cs drv) = drv" "replayOf (finish inp cs drv) = None"
  "d_code (finish inp cs drv) = map_option ck_code (List.find failing cs)"
  "d_actionId (finish inp cs drv) = actionId (action inp)" "d_policyHash (finish inp cs drv) = policyHash inp"
  by (simp_all add: finish_def Let_def)

lemma tier0_length: "length (tier0 X is inp) = 8"
proof -
  have "length (tier0 X is inp) = length TIER0_NAMES" by (metis length_map tier0_ids)
  then show ?thesis by (simp add: TIER0_NAMES_def)
qed

lemma tier0_failed: "checksFailed (tier0 X is inp) \<longleftrightarrow> (\<exists>j < 8. failing ((tier0 X is inp @ cs) ! j))"
  using tier0_length [of X "is" inp] unfolding checksFailed_def list_ex_iff by (metis in_set_conv_nth nth_append)

text \<open>C24. Every decision reports the checks in the canonical order, each under its own name. It is allowed exactly when
  none of them failed, and then has no code and has the derived figures. Otherwise its code, and the check its reason
  names, are those of the canonical list at the first position that failed: a failure in tier 0 hides everything after
  tier 0, which is reported as skipped and leaves the derived figures absent, and no later failure ever
  replaces an earlier one.\<close>

theorem decision_meaning:
  assumes "evaluate X inp = Inr d"
  shows "map check_id (checks d) = canonical_order (action inp) \<and> distinct (map fst (canonical_order (action inp))) \<and>
    (if \<forall>c \<in> set (checks d). \<not> failing c then allowed d \<and> d_code d = None \<and> derived d \<noteq> None
     else \<not> allowed d \<and>
       (\<exists>i < length (checks d). failing (checks d ! i) \<and> (\<forall>j < i. \<not> failing (checks d ! j)) \<and>
          d_code d = Some (snd (canonical_order (action inp) ! i)) \<and>
          take (length (fst (canonical_order (action inp) ! i))) (d_reason d) = fst (canonical_order (action inp) ! i) \<and>
          (derived d = None \<longleftrightarrow> i < 8) \<and> (i < 8 \<longrightarrow> (\<forall>c \<in> set (drop 8 (checks d)). ck_skipped c = Some Short_circuit)))) \<and>
    d_actionId d = actionId (action inp) \<and> d_policyHash d = policyHash inp \<and> replayOf d = None"
proof -
  obtain "is" rest drv where fin: "d = finish inp (tier0 X is inp @ rest) drv"
    and drv: "drv = None \<longleftrightarrow> checksFailed (tier0 X is inp)"
    and skipped: "drv = None \<Longrightarrow> rest = short_circuited (action inp)"
    using assms by (cases rule: evaluateE) auto
  define cs where "cs = tier0 X is inp @ rest"
  have d: "d = finish inp cs drv" unfolding fin cs_def ..
  then have c: "checks d = cs" by simp
  have ids: "map check_id cs = canonical_order (action inp)"
    using decision_canonical_checks [OF assms] by (simp add: c canonical_order_names)
  have t0: "drv = None \<longleftrightarrow> (\<exists>j < 8. failing (cs ! j))" unfolding cs_def drv by (rule tier0_failed)
  have d8: "drop 8 cs = rest" using tier0_length [of X "is" inp] by (metis append_eq_conv_conj cs_def)
  show ?thesis
  proof (cases "List.find failing cs")
    case None
    then have "\<forall>x \<in> set cs. \<not> failing x" by (simp add: find_None_iff)
    moreover have "drv \<noteq> None"
      using \<open>\<forall>x \<in> set cs. \<not> failing x\<close> by (auto simp: drv cs_def checksFailed_def list_ex_iff)
    ultimately show ?thesis using None ids canonical_distinct by (simp add: c) (simp add: d finish_def)
  next
    case (Some x)
    then obtain i where i: "i < length cs" "cs ! i = x" "failing x" "\<forall>j < i. \<not> failing (cs ! j)" by (rule first_failure)
    have n: "canonical_order (action inp) ! i = (ck_name x, ck_code x)"
      using i(1,2) nth_map [of i cs check_id] by (simp add: ids check_id_def)
    have "drv = None \<longleftrightarrow> i < 8" unfolding t0 using i(2-4) by (meson linorder_not_le order.strict_trans2)
    moreover have "i < 8 \<Longrightarrow> \<forall>c \<in> set (drop 8 cs). ck_skipped c = Some Short_circuit"
      using skipped calculation unfolding d8 by (auto simp: skip_def)
    moreover have "\<not> (\<forall>c \<in> set cs. \<not> failing c)" using i(1-3) nth_mem by blast
    moreover have "\<not> allowed d" "take (length (ck_name x)) (d_reason d) = ck_name x"
      using Some by (simp_all add: d finish_def)
    moreover have "d_code d = Some (ck_code x)" "derived d = drv" "d_actionId d = actionId (action inp)"
      "d_policyHash d = policyHash inp" "replayOf d = None" using Some by (simp_all add: d)
    ultimately show ?thesis
      using ids canonical_distinct i n unfolding c by simp (rule exI [of _ i], simp)
  qed
qed

text \<open>Under an emergency stop, from the policy or from the runtime state, the engine rejects
  every proposal the schema can read (nothing further down can raise), computes nothing, and reports
  every later check as skipped; when the proposal itself is well formed the code is
  EMERGENCY_STOP.\<close>

theorem emergency_stop_rejects:
  assumes "emergencyOf inp" "schema_parse X (action inp) = Inr is"
  shows "\<exists>d. evaluate X inp = Inr d \<and> \<not> allowed d \<and> derived d = None \<and>
    (\<forall>c \<in> set (drop 8 (checks d)). ck_skipped c = Some Short_circuit \<and> \<not> ck_passed c) \<and>
    (\<not> checksFailed (schema_checks X is inp) \<longrightarrow> d_code d = Some EMERGENCY_STOP)"
proof -
  let ?t = "tier0 X is inp" and ?s = "short_circuited (action inp)"
  have f: "checksFailed ?t" using assms by (simp add: checksFailed_def switch_checks_def Let_def)
  have e: "evaluate X inp = Inr (finish inp (?t @ ?s) None)"
    using f by (simp add: evaluate_def runTier0_def assms(2) Let_def)
  have "length ?t = length TIER0_NAMES" by (metis length_map tier0_ids)
  then have d8: "drop 8 (?t @ ?s) = ?s" by (simp add: TIER0_NAMES_def)
  have skipped: "\<forall>c \<in> set ?s. ck_skipped c = Some Short_circuit \<and> \<not> ck_passed c"
    by (auto simp: skip_def)
  have "checksFailed (?t @ ?s)" using f by (auto simp: checksFailed_def)
  then have na: "\<not> allowed (finish inp (?t @ ?s) None)" by (simp add: finish_allowed)
  have code: "d_code (finish inp (?t @ ?s) None) = Some EMERGENCY_STOP"
    if "\<not> checksFailed (schema_checks X is inp)"
  proof -
    have "List.find failing (schema_checks X is inp) = None"
      using that by (simp add: checksFailed_def find_None_iff list_ex_iff)
    then have "List.find failing (?t @ ?s) = List.find failing (switch_checks inp @ ?s)"
      by (simp add: find_append)
    then show ?thesis using assms by (simp add: finish_def Let_def switch_checks_def)
  qed
  show ?thesis
    using e na code d8 skipped by (intro exI conjI) (auto simp: finish_def Let_def)
qed

end
