(* ===== verification/Risk_Safety.thy ===== *)
theory Risk_Safety
  imports Risk_Engine_Props
begin

text \<open>
  What an allowed decision of the risk engine guarantees. \<open>allowed_sections\<close> takes an allowed run
  apart into the sections of \<open>runRemainingChecks\<close>, each with no failing check; one lemma per
  section turns that into the inequality the section enforces, and the properties put them together
  for each kind of action.
\<close>

section \<open>An allowed run, section by section\<close>

lemma allowed_sections:
  assumes "evaluate X inp = Inr d" "allowed d"
  obtains cap capC posC am sizeC dl lossC depC pr slipC bps mktC feeC liqC balC gasC lpC where
    "action_valid X (action inp)"
    "lp_entry_capital inp = Inr cap" "lp_capital_checks inp cap = Inr capC"
    "position_check inp = Inr posC" "derive_amounts inp = Inr am" "size_check inp am = Inr sizeC"
    "computeDailyLoss inp = Inr dl" "loss_check inp cap am dl = Inr lossC"
    "deployed_check inp cap am = Inr (depC, pr)" "slippage_checks inp = Inr (slipC, bps)"
    "market_check inp am = Inr mktC" "fee_check inp am = Inr feeC" "liquidity_check inp = Inr liqC"
    "balance_in_check inp am = Inr balC" "balance_gas_check inp am = Inr gasC"
    "runLpChecks inp am = Inr lpC"
    "\<forall>c \<in> {posC, sizeC, lossC, depC, mktC, feeC, liqC, balC, gasC}. \<not> failing c"
    "\<forall>c \<in> set (chain_check inp # lp_pool_checks inp @ freshness_checks inp @ allowlist_checks inp @
       cooldown_checks inp). \<not> failing c"
    "\<forall>c \<in> set (capC @ slipC @ lpC). \<not> failing c"
proof -
  obtain "is" cs drv where i: "schema_parse X (action inp) = Inr is"
    and t: "\<not> checksFailed (tier0 X is inp)" and run: "runRemainingChecks inp = Inr (cs, drv)" and ok: "\<not> checksFailed cs"
    using assms by (rule evaluate_allowedE)
  show ?thesis
    using run
  proof (rule runRemainingE)
    fix cap capC posC am sizeC dl lossC depC pr slipC bps mktC feeC liqC balC gasC lpC
    assume r: "lp_entry_capital inp = Inr cap" "lp_capital_checks inp cap = Inr capC"
      "position_check inp = Inr posC" "derive_amounts inp = Inr am" "size_check inp am = Inr sizeC"
      "computeDailyLoss inp = Inr dl" "loss_check inp cap am dl = Inr lossC"
      "deployed_check inp cap am = Inr (depC, pr)" "slippage_checks inp = Inr (slipC, bps)"
      "market_check inp am = Inr mktC" "fee_check inp am = Inr feeC" "liquidity_check inp = Inr liqC"
      "balance_in_check inp am = Inr balC" "balance_gas_check inp am = Inr gasC"
      "runLpChecks inp am = Inr lpC"
      and cs: "cs = chain_check inp # lp_pool_checks inp @ capC @ freshness_checks inp @
         allowlist_checks inp @ [posC, sizeC, lossC, depC] @ slipC @ [mktC, feeC, liqC] @
         cooldown_checks inp @ [balC, gasC] @ lpC"
    have "\<forall>c \<in> set cs. \<not> failing c" using ok by (simp add: checksFailed_def list_ex_iff)
    then show ?thesis
      unfolding cs by (intro that [OF tier0_passed(2) [OF t i] r]) (simp_all add: ball_Un)
  qed
qed

section \<open>Amounts\<close>

lemma derive_amounts_val:
  assumes "derive_amounts inp = Inr am"
  shows "da_amountIn am = amount_val (amountIn (action inp))"
    "feeInNativeUnits (fee_detail (action inp)) = Inr (da_feeNative am)"
    "da_amountInUsd am = Some v \<Longrightarrow> \<exists>p. usablePrice (price_in inp) = Some p \<and>
       nativeToUsdMicros (amount_val (amountIn (action inp))) (tr_decimals (tokenIn (action inp))) p RCeil = Inr v"
    "da_feeUsd am = Some f \<Longrightarrow> \<exists>p. usablePrice (price_native inp) = Some p \<and>
       nativeToUsdMicros (da_feeNative am)
         (tr_decimals (nativeTokenRef (a_chain (action inp)))) p RCeil = Inr f"
  using assms
  by (auto simp: derive_amounts_def sbind_eq_Inr Let_def amountToBigint_Inr amount_val_def
      opt_result_Inr_Some)

lemma feeInNativeUnits_nonneg:
  assumes "feeInNativeUnits fd = Inr f" "list_all snd (fee_fields fd)"
  shows "0 \<le> f"
proof (cases fd)
  case (Fee_evm g m)
  with assms(1) show ?thesis
    by (auto simp: feeInNativeUnits_def sbind_eq_Inr amountToBigint_Inr)
next
  case (Fee_solana s l p r)
  with assms obtain pr rl where f: "f = SOLANA_SIGNATURE_LAMPORTS * s + pr + rl"
    and pr: "ceilDiv (l * int (digits_val p)) 1000000 = Inr pr" and rl: "0 \<le> rl"
    and s: "1 \<le> s" "0 \<le> l"
    by (auto simp: feeInNativeUnits_def sbind_eq_Inr amountToBigint_Inr in_range_def)
  have "0 \<le> pr" using ceilDiv_nonneg [OF pr] s by simp
  with f rl s show ?thesis by (simp add: SOLANA_SIGNATURE_LAMPORTS_def)
qed

text \<open>Below, \<open>d\<close> micro-USD is a valuation rounded up, so the exact value is at most any limit that
  \<open>d\<close> respects.\<close>

lemma valuation_within:
  assumes "nativeToUsdMicros a d p RCeil = Inr v"
  shows "v \<le> m \<longleftrightarrow> a * p \<le> usd_denom d * m"
  using assms by (auto simp: nativeToUsdMicros_ceil dest: ceilDiv_le_iff)

section \<open>One lemma per section\<close>

lemma size_passed:
  assumes "size_check inp am = Inr c" "\<not> failing c"
    "\<not> isExit (action inp)" "\<not> isLp (action inp)" "\<not> isLpApprove (action inp)"
  obtains m v where "usdToMicros (maxAmountPerTradeUsd (policy inp)) = Inr m"
    "da_amountInUsd am = Some v" "v \<le> m"
  using assms by (auto simp: size_check_def sbind_eq_Inr Let_def within_iff)

lemma loss_passed_swap:
  assumes "loss_check inp cap am dl = Inr c" "\<not> failing c"
    "\<not> isExit (action inp)" "\<not> isLp (action inp)" "\<not> isApprove (action inp)"
  obtains m v f b where "usdToMicros (maxDailyLossUsd (policy inp)) = Inr m"
    "da_amountInUsd am = Some v" "da_feeUsd am = Some f"
    "bpsOf v (maxSlippageBps (policy inp)) = Inr b" "dl + (f + b) \<le> m"
proof -
  have "\<not> isLpExit (action inp)" using assms(4) by (auto simp: isLp_def isLpExit_def)
  then show ?thesis
    using assms that
    by (auto simp: loss_check_def worst_case_def sbind_eq_Inr Let_def within_iff split: option.splits)
qed

lemma loss_passed_lp_entry:
  assumes "loss_check inp cap am dl = Inr c" "\<not> failing c" "isLpEntry (action inp)"
  obtains m v f b where "usdToMicros (maxDailyLossUsd (policy inp)) = Inr m"
    "cap = Some v" "da_feeUsd am = Some f"
    "bpsOf v (maxRebalanceSlippageBps (lp_limits (policy inp))) = Inr b" "dl + (f + b) \<le> m"
proof -
  have "\<not> isExit (action inp)" "isLp (action inp)" "\<not> isLpExit (action inp)"
    using assms(3) by (auto simp: isLp_def isExit_def isLpEntry_def isLpExit_def)
  then show ?thesis
    using assms that
    by (auto simp: loss_check_def worst_case_def sbind_eq_Inr Let_def within_iff split: option.splits)
qed

definition lp_deployed_micros :: "market_snapshot \<Rightarrow> int result" where
  "lp_deployed_micros s = (case snap_lp s of None \<Rightarrow> Inr 0 | Some l \<Rightarrow> usdToMicros (lps_deployedUsd l))"

lemma deployed_passed_swap:
  assumes "deployed_check inp cap am = Inr (c, pr)" "\<not> failing c"
    "\<not> isExit (action inp)" "\<not> isLp (action inp)" "\<not> isApprove (action inp)"
  obtains t l m v where "usdToMicros (deployedUsd (ledger (state inp))) = Inr t"
    "lp_deployed_micros (snapshot inp) = Inr l"
    "usdToMicros (maxTotalDeployedUsd (policy inp)) = Inr m" "da_amountInUsd am = Some v"
    "t + l + v \<le> m"
proof -
  have "\<not> isLpExit (action inp)" "\<not> isLpClaim (action inp)"
    using assms(4) by (auto simp: isLp_def isLpExit_def isLpClaim_def)
  then show ?thesis
    using assms that
    by (auto simp: deployed_check_def projected_deployed_def lp_deployed_micros_def sbind_eq_Inr Let_def
        within_iff split: option.splits)
qed

lemma deployed_passed_lp_entry:
  assumes "deployed_check inp cap am = Inr (c, pr)" "\<not> failing c" "isLpEntry (action inp)"
  obtains t l m v where "usdToMicros (deployedUsd (ledger (state inp))) = Inr t"
    "lp_deployed_micros (snapshot inp) = Inr l"
    "usdToMicros (maxTotalDeployedUsd (policy inp)) = Inr m" "cap = Some v" "t + l + v \<le> m"
proof -
  have "\<not> isLpExit (action inp)" "\<not> isLpClaim (action inp)" "isLp (action inp)"
    "\<not> isExit (action inp)" "\<not> isApprove (action inp)"
    using assms(3) by (auto simp: isLp_def isLpExit_def isLpClaim_def isLpEntry_def isExit_def isApprove_def)
  then show ?thesis
    using assms that
    by (auto simp: deployed_check_def projected_deployed_def lp_deployed_micros_def sbind_eq_Inr Let_def
        within_iff split: option.splits)
qed

lemma quote_slippage_val:
  assumes "quote_slippage q = Inr s" "0 < digits_val (expectedAmountOut q)"
    "digits_val (minAmountOut q) \<le> digits_val (expectedAmountOut q)"
  shows "slippageBps q \<le> s"
    "s \<le> limit \<Longrightarrow> (10000 - limit) * amount_val (expectedAmountOut q) \<le> 10000 * amount_val (minAmountOut q)"
proof -
  let ?e = "amount_val (expectedAmountOut q)" and ?m = "amount_val (minAmountOut q)"
  obtain i where i: "impliedSlippageBps ?e ?m = Inr i" and s: "s = max (slippageBps q) i"
    using assms
    by (auto simp: quote_slippage_def sbind_eq_Inr amountToBigint_Inr amount_val_def maxBigint_max)
  have e: "ceilDiv ((?e - ?m) * BPS_DENOM) ?e = Inr i" using i by (simp add: impliedSlippageBps_Inr)
  show "slippageBps q \<le> s" by (simp add: s)
  assume "s \<le> limit"
  then have "(?e - ?m) * BPS_DENOM \<le> ?e * limit" using ceilDiv_le_iff [OF e] by (simp add: s)
  then show "(10000 - limit) * ?e \<le> 10000 * ?m" by (simp add: BPS_DENOM_def algebra_simps)
qed

lemma slippage_passed:
  assumes "slippage_checks inp = Inr (cs, bps)" "\<forall>c \<in> set cs. \<not> failing c"
    "\<not> no_swap_quote (action inp)"
  obtains q where "a_quote (action inp) = Some q" "quote_slippage q = Inr bps"
    "bps \<le> maxSlippageBps (policy inp)" "priceImpactBps q \<le> maxPriceImpactBps (policy inp)"
  using assms by (auto simp: slippage_checks_def sbind_eq_Inr Let_def no_swap_quote_def split: option.splits)

lemma market_passed:
  assumes "market_check inp am = Inr c" "\<not> failing c" "\<not> no_swap_quote (action inp)"
  obtains q v w p cut where "a_quote (action inp) = Some q" "da_amountInUsd am = Some v"
    "usablePrice (price_out inp) = Some p"
    "nativeToUsdMicros (amount_val (expectedAmountOut q)) (tr_decimals (tokenOut (action inp))) p RFloor = Inr w"
    "bpsOf v (market_tolerance (policy inp)) = Inr cut" "v - cut \<le> w"
proof -
  obtain q where q: "a_quote (action inp) = Some q" using assms(3) by (auto simp: no_swap_quote_def)
  obtain w0 f0 where
    w0: "opt_result (\<lambda>p. sbind (amountToBigint (expectedAmountOut q)) (\<lambda>e.
        nativeToUsdMicros e (tr_decimals (tokenOut (action inp))) p RFloor))
      (usablePrice (price_out inp)) = Inr w0"
    and f0: "opt_result (\<lambda>amt. sbind (bpsOf amt (market_tolerance (policy inp)))
        (\<lambda>cut. Inr (amt - cut))) (da_amountInUsd am) = Inr f0"
    and ok: "case f0 of None \<Rightarrow> False | Some fl \<Rightarrow> at_least w0 fl"
    using assms q by (auto simp: market_check_def sbind_eq_Inr Let_def)
  obtain fl w where f: "f0 = Some fl" "w0 = Some w" "fl \<le> w"
    using ok by (auto simp: at_least_iff split: option.splits)
  show ?thesis
    using w0 f0 f(3) that [OF q]
    by (auto simp: f(1,2) opt_result_Inr_Some sbind_eq_Inr amountToBigint_Inr amount_val_def)
qed

lemma fee_passed:
  assumes "fee_check inp am = Inr c" "\<not> failing c"
  obtains m f where "usdToMicros (maxTransactionFeeUsd (policy inp)) = Inr m"
    "da_feeUsd am = Some f" "f \<le> m"
  using assms by (auto simp: fee_check_def sbind_eq_Inr within_iff)

lemma liquidity_passed:
  assumes "liquidity_check inp = Inr c" "\<not> failing c" "\<not> no_swap_quote (action inp)"
  obtains m l o' where "usdToMicros (minLiquidityUsd (policy inp)) = Inr m"
    "liquidity_of inp = Some l" "usdToMicros (sv_value l) = Inr o'" "m \<le> o'"
  using assms
  by (auto simp: liquidity_check_def sbind_eq_Inr Let_def at_least_iff opt_result_Inr_Some)

lemma balance_in_passed:
  assumes "balance_in_check inp am = Inr c" "\<not> failing c"
    "\<not> isApprove (action inp)" "\<not> isLpExit (action inp)" "\<not> isLpClaim (action inp)"
    "0 \<le> da_feeNative am"
  obtains b where "balance_in inp = Some b" "da_amountIn am \<le> amount_val (sv_value b)"
    "isNativeToken (a_chain (action inp)) (tr_address (tokenIn (action inp))) \<Longrightarrow>
       da_amountIn am + da_feeNative am \<le> amount_val (sv_value b)"
proof -
  let ?nat = "isNativeToken (a_chain (action inp)) (tr_address (tokenIn (action inp)))"
  obtain b where b: "balance_in inp = Some b"
    "(if ?nat then da_amountIn am + da_feeNative am else da_amountIn am) \<le> amount_val (sv_value b)"
    using assms(1-5)
    by (auto simp: balance_in_check_def held_balance_def sbind_eq_Inr Let_def at_least_iff
        opt_result_Inr_Some amountToBigint_Inr amount_val_def split: if_splits)
  show ?thesis using b assms(6) by (intro that [of b]) (auto split: if_splits)
qed

lemma balance_gas_passed:
  assumes "balance_gas_check inp am = Inr c" "\<not> failing c"
  obtains b where "balance_native inp = Some b" "da_feeNative am \<le> amount_val (sv_value b)"
  using assms
  by (auto simp: balance_gas_check_def held_balance_def sbind_eq_Inr at_least_iff opt_result_Inr_Some
      amountToBigint_Inr amount_val_def)

end
