(* ===== verification/Risk_Fixtures.thy ===== *)
theory Risk_Fixtures
  imports Risk_Safety
begin

text \<open>
  Concrete inputs of the risk engine, the ones \<open>src/runtime/test/helpers/risk-fixtures.ts\<close> builds:
  a paper swap of 10 USDC into WETH on Base, the exit that sells it back, and an LP entry, an LP
  removal and an LP fee claim on an allowlisted pool. The engine allows each of them; the witnesses
  of the engine's properties apply the properties to these runs.
\<close>

definition NOW :: int where "NOW = 1789828200000"
definition BASE_USDC :: string where "BASE_USDC = ''0x833589fcd6edb6e08f4c7c32d4f71b54bda02913''"
definition BASE_WETH :: string where "BASE_WETH = ''0x4200000000000000000000000000000000000006''"
definition BASE_NATIVE :: string where "BASE_NATIVE = ''0xeeeeeeeeeeeeeeeeeeeeeeeeeeeeeeeeeeeeeeee''"
definition SAMPLE_POOL :: string where "SAMPLE_POOL = ''0x6cdcb1c4a4d1c3c6d054b27ac5b77e89eafb971d''"

definition sample_externals :: externals where
  "sample_externals = \<lparr>ext_sha256 = (\<lambda>_. replicate 64 CHR ''a''), ext_isUuid = (\<lambda>_. True),
     ext_zodMessage = (\<lambda>_. ''Invalid''),
     ext_aborts = (\<lambda>_. False)\<rparr>"

definition sample_policy :: risk_policy where
  "sample_policy = (let p = default_policy_value [Base] in
     p\<lparr>lp_limits := (lp_limits p)\<lparr>maxCapitalPerLpUsd := ''100'',
         allowedPools := [\<lparr>ap_chain = Base, ap_protocol = ''aerodrome-v2'', ap_poolId = SAMPLE_POOL\<rparr>],
         allowedProtocols := [(Base, [''aerodrome-v2''])],
         maxRebalancePerDay := 2, maxLpGasUsd := ''5''\<rparr>\<rparr>)"

definition sample_action :: proposed_action where
  "sample_action = \<lparr>a_schemaVersion = 1, actionId = ''action'', decisionCycleId = ''cycle'',
     idempotencyKey = replicate 64 CHR ''a'', proposedAt = NOW - 1000, a_mode = PAPER,
     a_source = Src_test, a_chain = Base, a_kind = Swap, a_protocol = ''uniswap-v4'',
     a_contract = ''0x6ff5693b99212da76ad316178a184ab56d299b43'', programIds = None,
     reduceOnly = False, tokenIn = \<lparr>tr_address = BASE_USDC, tr_decimals = 6\<rparr>,
     tokenOut = \<lparr>tr_address = BASE_WETH, tr_decimals = 18\<rparr>, amountIn = ''10000000'',
     a_quote = Some \<lparr>expectedAmountOut = ''3999800000000000'', minAmountOut = ''3987800600000000'',
       slippageBps = 30, priceImpactBps = 5, quotedAt = NOW - 2000, q_source = ''uniswap-v4-quoter'',
       marketId = ''0xpool''\<rparr>,
     fee_estimatedAt = NOW - 1500, fee_detail = Fee_evm ''250000'' ''10000000'',
     a_lp = None, rationale = None\<rparr>"

definition sample_state :: runtime_state where
  "sample_state = \<lparr>st_mode = PAPER, emergency_active = False, emergency_reason = None,
     st_globalPause = False, activation = Act_PAPER, liveSession = None, cooldowns = Map.empty,
     lastAnyActionAt = None,
     ledger = \<lparr>dayStartUtcMs = dayStart NOW, deployedUsd = ''0'', realizedPnlTodayUsd = ''0'',
       unrealizedPnlUsd = ''0'', unrealizedPnlAtDayStartUsd = ''0'',
       positions = [\<lparr>pos_chain = Base, pos_token = BASE_WETH, pos_amount = ''4000000000000000'',
         pos_costBasisUsd = ''10'', pos_openedAt = NOW - 3600000\<rparr>],
       lpRebalancesToday = Map.empty\<rparr>\<rparr>"

definition sample_stamp :: "string \<Rightarrow> stamped" where
  "sample_stamp v = \<lparr>sv_value = v, sv_at = NOW - 5000, sv_source = ''dexscreener''\<rparr>"

definition sample_snapshot :: market_snapshot where
  "sample_snapshot = \<lparr>
     prices = [priceKey Base BASE_USDC \<mapsto> sample_stamp ''1.000027'',
       priceKey Base BASE_WETH \<mapsto> sample_stamp ''2500.123456'',
       priceKey Base BASE_NATIVE \<mapsto> sample_stamp ''2500.123456''],
     liquidity = [liquidityKey Base ''0xpool'' \<mapsto> sample_stamp ''5000000''],
     balances = [balanceKey Base BASE_USDC \<mapsto> sample_stamp ''100000000'',
       balanceKey Base BASE_WETH \<mapsto> sample_stamp ''4000000000000000'',
       balanceKey Base BASE_NATIVE \<mapsto> sample_stamp ''50000000000000000''],
     poolLiquidity = [liquidityKey Base SAMPLE_POOL \<mapsto> sample_stamp ''5000000''],
     snap_lp = Some \<lparr>lps_deployedUsd = ''20'', rebalancesToday = Map.empty,
       lp_positions = [lpPoolKey Base SAMPLE_POOL \<mapsto> (''1000'', ''20'')]\<rparr>\<rparr>"

definition sample_input :: "proposed_action \<Rightarrow> risk_input" where
  "sample_input a = \<lparr>now = NOW, policy = sample_policy, policyHash = ''hash'', action = a,
     state = sample_state, snapshot = sample_snapshot\<rparr>"

definition sample_exit :: proposed_action where
  "sample_exit = sample_action\<lparr>reduceOnly := True,
     tokenIn := \<lparr>tr_address = BASE_WETH, tr_decimals = 18\<rparr>,
     tokenOut := \<lparr>tr_address = BASE_USDC, tr_decimals = 6\<rparr>, amountIn := ''4000000000000000'',
     a_quote := Some \<lparr>expectedAmountOut = ''9990000'', minAmountOut = ''9960000'',
       slippageBps = 31, priceImpactBps = 5, quotedAt = NOW - 2000, q_source = ''uniswap-v4-quoter'',
       marketId = ''0xpool''\<rparr>\<rparr>"

definition sample_leg :: lp_leg where
  "sample_leg = \<lparr>poolId = SAMPLE_POOL, capitalUsd = ''20'', rebalanceIndexToday = 0,
     claimableFeesUsd = ''0'', amountB = Some ''4000000000000000'', minAmountA = Some ''9960000'',
     minAmountB = Some ''3980000000000000'', lpTokens = None, claimable = None\<rparr>"

definition sample_lp_add :: proposed_action where
  "sample_lp_add = sample_action\<lparr>a_kind := Lp_add, a_protocol := ''aerodrome-v2'',
     a_contract := ''0xcf77a3ba9a5ca399b7c97c74d54e5b1beb874e43'', a_lp := Some sample_leg\<rparr>"

definition sample_lp_remove :: proposed_action where
  "sample_lp_remove = sample_lp_add\<lparr>a_kind := Lp_remove,
     a_lp := Some (sample_leg\<lparr>amountB := None, lpTokens := Some ''400''\<rparr>)\<rparr>"

definition sample_lp_claim :: proposed_action where
  "sample_lp_claim = sample_lp_add\<lparr>a_kind := Lp_claim, a_contract := SAMPLE_POOL, amountIn := ''0'',
     a_quote := None,
     a_lp := Some (sample_leg\<lparr>amountB := None, claimable := Some (''10000000'', ''4000000000000000'')\<rparr>)\<rparr>"

definition engine_allows :: "proposed_action \<Rightarrow> bool" where
  "engine_allows a = (case evaluate sample_externals (sample_input a) of
     Inl _ \<Rightarrow> False | Inr d \<Rightarrow> allowed d)"

lemma engine_allows_iff:
  "engine_allows a \<longleftrightarrow> (\<exists>d. evaluate sample_externals (sample_input a) = Inr d \<and> allowed d)"
  by (simp add: engine_allows_def split: sum.splits)

text \<open>The engine's two halves, each evaluated alone.\<close>

definition passes_tier0 :: "risk_input \<Rightarrow> bool" where
  "passes_tier0 inp = (case runTier0 sample_externals inp of
     Inl _ \<Rightarrow> False | Inr (cs, failed) \<Rightarrow> \<not> failed \<and> \<not> list_ex failing cs)"

definition passes_rest :: "risk_input \<Rightarrow> bool" where
  "passes_rest inp = (case runRemainingChecks inp of Inl _ \<Rightarrow> False | Inr (cs, _) \<Rightarrow> \<not> list_ex failing cs)"

lemma passes_allowed:
  assumes "passes_tier0 inp" "passes_rest inp"
  obtains d where "evaluate sample_externals inp = Inr d" "allowed d"
  using assms
  by (auto simp: passes_tier0_def passes_rest_def evaluate_def finish_def Let_def find_None_iff list_ex_iff
      split: sum.splits prod.splits)

lemma passes_engine: "passes_tier0 (sample_input a) \<Longrightarrow> passes_rest (sample_input a) \<Longrightarrow> engine_allows a"
  using passes_allowed [of "sample_input a"] by (auto simp: engine_allows_iff)

lemma sample_swap_allowed_tier0: "passes_tier0 (sample_input sample_action)"
  by code_simp

lemma sample_swap_allowed_rest: "passes_rest (sample_input sample_action)"
  by code_simp

lemma sample_swap_allowed: "engine_allows sample_action"
  by (rule passes_engine [OF sample_swap_allowed_tier0 sample_swap_allowed_rest])

lemma sample_exit_allowed_tier0: "passes_tier0 (sample_input sample_exit)"
  by code_simp

lemma sample_exit_allowed_rest: "passes_rest (sample_input sample_exit)"
  by code_simp

lemma sample_exit_allowed: "engine_allows sample_exit"
  by (rule passes_engine [OF sample_exit_allowed_tier0 sample_exit_allowed_rest])

lemma sample_lp_add_allowed_tier0: "passes_tier0 (sample_input sample_lp_add)"
  by code_simp

lemma sample_lp_add_allowed_rest: "passes_rest (sample_input sample_lp_add)"
  by code_simp

lemma sample_lp_add_allowed: "engine_allows sample_lp_add"
  by (rule passes_engine [OF sample_lp_add_allowed_tier0 sample_lp_add_allowed_rest])

lemma sample_lp_remove_allowed_tier0: "passes_tier0 (sample_input sample_lp_remove)"
  by code_simp

lemma sample_lp_remove_allowed_rest: "passes_rest (sample_input sample_lp_remove)"
  by code_simp

lemma sample_lp_remove_allowed: "engine_allows sample_lp_remove"
  by (rule passes_engine [OF sample_lp_remove_allowed_tier0 sample_lp_remove_allowed_rest])

lemma sample_lp_claim_allowed_tier0: "passes_tier0 (sample_input sample_lp_claim)"
  by code_simp

lemma sample_lp_claim_allowed_rest: "passes_rest (sample_input sample_lp_claim)"
  by code_simp

lemma sample_lp_claim_allowed: "engine_allows sample_lp_claim"
  by (rule passes_engine [OF sample_lp_claim_allowed_tier0 sample_lp_claim_allowed_rest])

end
