(* ===== verification/Risk_Properties.thy ===== *)
theory Risk_Properties
  imports Risk_Fixtures
begin

text \<open>
  The properties of the risk engine: authorization, exposure limits and execution limits of an
  opening swap, exits, LP entries, LP removals and claims, freshness, and totality. Each is proved
  from the section lemmas of \<open>Risk_Safety\<close>; its witness applies it to a run of
  \<open>Risk_Fixtures\<close>.
\<close>

section \<open>Authorization\<close>












section \<open>Exposure\<close>

definition opens_position :: "proposed_action \<Rightarrow> bool" where
  "opens_position a \<longleftrightarrow> a_kind a = Swap \<and> \<not> reduceOnly a"

lemma opens_position_kinds:
  assumes "opens_position a"
  shows "\<not> isExit a" "\<not> isLp a" "\<not> isApprove a" "\<not> isLpApprove a" "\<not> isLpEntry a" "\<not> isLpExit a"
    "\<not> isLpClaim a"
  using assms by (auto simp: opens_position_def isExit_def isLp_def isApprove_def isLpApprove_def
      isLpEntry_def isLpExit_def isLpClaim_def)

lemma swap_has_quote: "action_valid X a \<Longrightarrow> opens_position a \<Longrightarrow> \<not> no_swap_quote a"
  using action_valid_quote [of X a] opens_position_kinds [of a]
  by (auto simp: no_swap_quote_def opens_position_def)

text \<open>C3. The exposure an allowed opening swap can add. \<open>v\<close> is the input valued at the
  checked price rounded up, \<open>f\<close> the fee, \<open>b\<close> the slippage allowance (no less than the policy's
  slippage of \<open>v\<close>). The exact value is within the trade limit; today's loss with the fee and
  the whole allowance on top is within the daily limit; and the capital the ledger reports as deployed by trading, the LP
  capital \<open>l\<close> the snapshot reports and this trade are together within the total. \<open>l\<close> is 0 when
  the snapshot has no LP part, and no swap built by the trading pipeline has one: for those the total limits the
  trading capital alone.\<close>

theorem allowed_swap_exposure:
  assumes "evaluate X inp = Inr d" "allowed d" "opens_position (action inp)"
  shows "\<exists>px v pf fee f b dl t l maxTrade maxLoss maxTotal maxFee.
    usablePrice (price_in inp) = Some px \<and> usablePrice (price_native inp) = Some pf \<and>
    usdToMicros (maxAmountPerTradeUsd (policy inp)) = Inr maxTrade \<and>
    usdToMicros (maxDailyLossUsd (policy inp)) = Inr maxLoss \<and>
    usdToMicros (maxTotalDeployedUsd (policy inp)) = Inr maxTotal \<and>
    usdToMicros (maxTransactionFeeUsd (policy inp)) = Inr maxFee \<and>
    computeDailyLoss inp = Inr dl \<and> usdToMicros (deployedUsd (ledger (state inp))) = Inr t \<and>
    (case snap_lp (snapshot inp) of None \<Rightarrow> l = 0 | Some s \<Rightarrow> usdToMicros (lps_deployedUsd s) = Inr l) \<and>
    feeInNativeUnits (fee_detail (action inp)) = Inr fee \<and>
    amount_val (amountIn (action inp)) * px \<le> usd_denom (tr_decimals (tokenIn (action inp))) * v \<and>
    v \<le> maxTrade \<and>
    fee * pf \<le> usd_denom (tr_decimals (nativeTokenRef (a_chain (action inp)))) * f \<and> f \<le> maxFee \<and>
    v * maxSlippageBps (policy inp) \<le> 10000 * b \<and> dl + f + b \<le> maxLoss \<and> t + l + v \<le> maxTotal"
  using assms(1,2)
proof (rule allowed_sections)
  fix cap capC posC am sizeC dl lossC depC pr slipC bps mktC feeC liqC balC gasC lpC
  assume am: "derive_amounts inp = Inr am" and sz: "size_check inp am = Inr sizeC"
    and dl: "computeDailyLoss inp = Inr dl" and ls: "loss_check inp cap am dl = Inr lossC"
    and dp: "deployed_check inp cap am = Inr (depC, pr)" and fc: "fee_check inp am = Inr feeC"
    and ok: "\<forall>c \<in> {posC, sizeC, lossC, depC, mktC, feeC, liqC, balC, gasC}. \<not> failing c"
  note k = opens_position_kinds [OF assms(3)]
  obtain mt v where mt: "usdToMicros (maxAmountPerTradeUsd (policy inp)) = Inr mt"
    and v: "da_amountInUsd am = Some v" "v \<le> mt"
    using size_passed [OF sz] ok k by auto
  obtain ml f b where ml: "usdToMicros (maxDailyLossUsd (policy inp)) = Inr ml"
    and f: "da_feeUsd am = Some f" and b: "bpsOf v (maxSlippageBps (policy inp)) = Inr b" "dl + (f + b) \<le> ml"
    by (rule loss_passed_swap [OF ls _ k(1,2,3)]) (use ok v(1) in auto)
  obtain t l mx where dep: "usdToMicros (deployedUsd (ledger (state inp))) = Inr t"
    "lp_deployed_micros (snapshot inp) = Inr l" "usdToMicros (maxTotalDeployedUsd (policy inp)) = Inr mx"
    "t + l + v \<le> mx"
    by (rule deployed_passed_swap [OF dp _ k(1,2,3)]) (use ok v(1) in auto)
  obtain mf where mf: "usdToMicros (maxTransactionFeeUsd (policy inp)) = Inr mf" "f \<le> mf"
    using fee_passed [OF fc] ok f by auto
  obtain px where px: "usablePrice (price_in inp) = Some px"
    "nativeToUsdMicros (amount_val (amountIn (action inp))) (tr_decimals (tokenIn (action inp))) px RCeil = Inr v"
    using derive_amounts_val(3) [OF am v(1)] by blast
  obtain pf where pf: "usablePrice (price_native inp) = Some pf"
    "nativeToUsdMicros (da_feeNative am) (tr_decimals (nativeTokenRef (a_chain (action inp)))) pf RCeil = Inr f"
    using derive_amounts_val(4) [OF am f] by blast
  have lp: "case snap_lp (snapshot inp) of None \<Rightarrow> l = 0 | Some s \<Rightarrow> usdToMicros (lps_deployedUsd s) = Inr l"
    using dep(2) by (auto simp: lp_deployed_micros_def split: option.splits)
  have alw: "v * maxSlippageBps (policy inp) \<le> 10000 * b"
    using b(1) ceilDiv_bounds by (fastforce simp: bpsOf_Inr BPS_DENOM_def)
  show ?thesis
    by (rule exI [of _ px], rule exI [of _ v], rule exI [of _ pf],
        rule exI [of _ "da_feeNative am"], rule exI [of _ f], rule exI [of _ b],
        rule exI [of _ dl], rule exI [of _ t], rule exI [of _ l], rule exI [of _ mt],
        rule exI [of _ ml], rule exI [of _ mx], rule exI [of _ mf])
      (use lp alw mt ml mf dep(1,3,4) px(1) pf(1) dl derive_amounts_val(2) [OF am] v(2) b(2)
        valuation_within [OF px(2), of v] valuation_within [OF pf(2), of f] in simp)
qed

section \<open>Execution quality and pacing\<close>

lemma cooldowns_passed:
  assumes "\<forall>c \<in> set (cooldown_checks inp). \<not> failing c"
    "\<not> isExit (action inp)" "\<not> isApprove (action inp)" "\<not> isLpExit (action inp)"
  shows "last_market_action inp = Some at \<Longrightarrow> cooldownSeconds (policy inp) * 1000 \<le> now inp - at"
    "lastAnyActionAt (state inp) = Some at' \<Longrightarrow>
       globalMinIntervalSeconds (policy inp) * 1000 \<le> now inp - at'"
  using assms by (auto simp: cooldown_checks_def Let_def elapsed_since_def isLpApprove_def)

text \<open>C26. An allowed opening swap executes near the market, in a deep enough market, from money that
  is there. The quote's guaranteed output is at least its expected output less the policy's slippage,
  whatever slippage the quote itself declares; the expected output, valued at the checked price, is
  within the tolerance (slippage plus price impact, at most 100 %) of the input's value up to one
  micro-USD; market liquidity reaches the minimum; both cooldowns have elapsed; and the wallet holds the
  input and the gas, together when the input is the native token.\<close>

theorem allowed_swap_execution:
  assumes "evaluate X inp = Inr d" "allowed d" "opens_position (action inp)"
  shows "\<exists>q px po v w liq liqv minLiq bal gas fee.
    a_quote (action inp) = Some q \<and>
    (10000 - maxSlippageBps (policy inp)) * amount_val (expectedAmountOut q) \<le> 10000 * amount_val (minAmountOut q) \<and>
    slippageBps q \<le> maxSlippageBps (policy inp) \<and> priceImpactBps q \<le> maxPriceImpactBps (policy inp) \<and>
    usablePrice (price_in inp) = Some px \<and> usablePrice (price_out inp) = Some po \<and>
    nativeToUsdMicros (amount_val (amountIn (action inp))) (tr_decimals (tokenIn (action inp))) px RCeil = Inr v \<and>
    nativeToUsdMicros (amount_val (expectedAmountOut q)) (tr_decimals (tokenOut (action inp))) po RFloor = Inr w \<and>
    (10000 - market_tolerance (policy inp)) * v < 10000 * (w + 1) \<and>
    liquidity_of inp = Some liq \<and> usdToMicros (sv_value liq) = Inr liqv \<and>
    usdToMicros (minLiquidityUsd (policy inp)) = Inr minLiq \<and> minLiq \<le> liqv \<and>
    (\<forall>at. last_market_action inp = Some at \<longrightarrow> cooldownSeconds (policy inp) * 1000 \<le> now inp - at) \<and>
    (\<forall>at. lastAnyActionAt (state inp) = Some at \<longrightarrow>
       globalMinIntervalSeconds (policy inp) * 1000 \<le> now inp - at) \<and>
    balance_in inp = Some bal \<and> balance_native inp = Some gas \<and>
    feeInNativeUnits (fee_detail (action inp)) = Inr fee \<and> fee \<le> amount_val (sv_value gas) \<and>
    amount_val (amountIn (action inp)) +
      (if isNativeToken (a_chain (action inp)) (tr_address (tokenIn (action inp))) then fee else 0)
      \<le> amount_val (sv_value bal)"
  using assms(1,2)
proof (rule allowed_sections)
  fix cap capC posC am sizeC dl lossC depC pr slipC bps mktC feeC liqC balC gasC lpC
  assume valid: "action_valid X (action inp)" and am: "derive_amounts inp = Inr am"
    and sl: "slippage_checks inp = Inr (slipC, bps)" and mk: "market_check inp am = Inr mktC"
    and lq: "liquidity_check inp = Inr liqC" and bl: "balance_in_check inp am = Inr balC"
    and gs: "balance_gas_check inp am = Inr gasC"
    and ok: "\<forall>c \<in> {posC, sizeC, lossC, depC, mktC, feeC, liqC, balC, gasC}. \<not> failing c"
    and ok2: "\<forall>c \<in> set (chain_check inp # lp_pool_checks inp @ freshness_checks inp @
        allowlist_checks inp @ cooldown_checks inp). \<not> failing c"
    and ok3: "\<forall>c \<in> set (capC @ slipC @ lpC). \<not> failing c"
  note k = opens_position_kinds [OF assms(3)] and nq = swap_has_quote [OF valid assms(3)]
  obtain q where q: "a_quote (action inp) = Some q" "quote_slippage q = Inr bps"
    "bps \<le> maxSlippageBps (policy inp)" "priceImpactBps q \<le> maxPriceImpactBps (policy inp)"
    using slippage_passed [OF sl _ nq] ok3 by auto
  note qv = quote_slippage_val [OF q(2) action_valid_quote_amounts(3,4) [OF valid q(1)]]
  obtain v w po cut where v: "da_amountInUsd am = Some v" and po: "usablePrice (price_out inp) = Some po"
    and w: "nativeToUsdMicros (amount_val (expectedAmountOut q)) (tr_decimals (tokenOut (action inp))) po RFloor = Inr w"
    and cut: "bpsOf v (market_tolerance (policy inp)) = Inr cut" "v - cut \<le> w"
    by (rule market_passed [OF mk _ nq]) (use ok q(1) in auto)
  obtain px where px: "usablePrice (price_in inp) = Some px"
    "nativeToUsdMicros (amount_val (amountIn (action inp))) (tr_decimals (tokenIn (action inp))) px RCeil = Inr v"
    using derive_amounts_val(3) [OF am v] by blast
  have "10000 * (cut - 1) < v * market_tolerance (policy inp)"
    using cut(1) ceilDiv_bounds [of _ BPS_DENOM cut] by (fastforce simp: bpsOf_Inr BPS_DENOM_def)
  then have tol: "(10000 - market_tolerance (policy inp)) * v < 10000 * (w + 1)"
    using cut(2) by (simp add: algebra_simps)
  obtain ml liq lv where liq: "usdToMicros (minLiquidityUsd (policy inp)) = Inr ml"
    "liquidity_of inp = Some liq" "usdToMicros (sv_value liq) = Inr lv" "ml \<le> lv"
    using liquidity_passed [OF lq _ nq] ok by auto
  have fee: "feeInNativeUnits (fee_detail (action inp)) = Inr (da_feeNative am)" "0 \<le> da_feeNative am"
    using derive_amounts_val(2) [OF am] feeInNativeUnits_nonneg action_valid_fields(7) [OF valid] by auto
  obtain bal where bal: "balance_in inp = Some bal" "da_amountIn am \<le> amount_val (sv_value bal)"
    "isNativeToken (a_chain (action inp)) (tr_address (tokenIn (action inp))) \<Longrightarrow>
       da_amountIn am + da_feeNative am \<le> amount_val (sv_value bal)"
    using balance_in_passed [OF bl _ k(3,6,7) fee(2)] ok by auto
  obtain gas where gas: "balance_native inp = Some gas" "da_feeNative am \<le> amount_val (sv_value gas)"
    using balance_gas_passed [OF gs] ok by auto
  have "\<forall>c \<in> set (cooldown_checks inp). \<not> failing c" using ok2 by (simp add: ball_Un)
  note cd = cooldowns_passed [OF this k(1,3,6)]
  have slip: "slippageBps q \<le> maxSlippageBps (policy inp)" using qv(1) q(3) by linarith
  have held: "amount_val (amountIn (action inp)) +
      (if isNativeToken (a_chain (action inp)) (tr_address (tokenIn (action inp))) then da_feeNative am else 0)
      \<le> amount_val (sv_value bal)"
    using bal(2,3) by (simp add: derive_amounts_val(1) [OF am])
  show ?thesis
    by (rule exI [of _ q], rule exI [of _ px], rule exI [of _ po], rule exI [of _ v],
        rule exI [of _ w], rule exI [of _ liq], rule exI [of _ lv], rule exI [of _ ml],
        rule exI [of _ bal], rule exI [of _ gas], rule exI [of _ "da_feeNative am"],
        intro conjI allI impI)
      (fact q qv(2) [OF q(3)] slip px po w tol liq bal gas fee(1) held | erule cd)+
qed

section \<open>Exits\<close>

definition holding :: "risk_input \<Rightarrow> int" where
  "holding inp = sum_list (map amount_val (held_amounts inp))"

lemma map_result_amounts:
  "map_result amountToBigint xs = Inr ys \<Longrightarrow> ys = map amount_val xs"
  by (induction xs arbitrary: ys) (auto simp: sbind_eq_Inr amountToBigint_val)

lemma position_passed:
  assumes "position_check inp = Inr c" "\<not> failing c" "isExit (action inp)"
  shows "0 < holding inp" "amount_val (amountIn (action inp)) \<le> holding inp"
    "\<not> isStablecoin (a_chain (action inp)) (tr_address (tokenIn (action inp)))"
    "isStablecoin (a_chain (action inp)) (tr_address (tokenOut (action inp)))"
  using assms
  by (auto simp: position_check_def sbind_eq_Inr Let_def holding_def
      dest!: map_result_amounts amountToBigint_val)

lemma exit_kinds:
  assumes "isExit a"
  shows "\<not> isLp a" "\<not> isApprove a" "\<not> isLpApprove a"
  using assms by (auto simp: isExit_def isLp_def isApprove_def isLpApprove_def)

text \<open>The codes of the checks that bound exposure and pace.\<close>

definition LIMIT_CODES :: "rejection_code set" where
  "LIMIT_CODES = {SIZE_EXCEEDS_MAX_TRADE, DAILY_LOSS_BREACHED, TOTAL_DEPLOYED_BREACHED,
     COOLDOWN_ACTIVE, LP_CAPITAL_EXCEEDS_MAX}"

lemma code_in_ids: "map check_id cs = ids \<Longrightarrow> c \<in> set cs \<Longrightarrow> ck_code c \<in> snd ` set ids"
  by (force simp: check_id_def image_iff)

lemma skip_skipped [simp]: "ck_skipped (skip n c r) = Some r"
  by (simp add: skip_def)

lemma exit_limits_skipped:
  assumes run: "runRemainingChecks inp = Inr (cs, drv)" and ex: "isExit (action inp)"
    and c: "c \<in> set cs" "ck_code c \<in> LIMIT_CODES"
  shows "ck_skipped c = Some Not_applicable"
  using run
proof (rule runRemainingE)
  fix cap capC posC am sizeC dl lossC depC pr slipC bps mktC feeC liqC balC gasC lpC
  assume capC: "lp_capital_checks inp cap = Inr capC" and posC: "position_check inp = Inr posC"
    and sizeC: "size_check inp am = Inr sizeC" and lossC: "loss_check inp cap am dl = Inr lossC"
    and depC: "deployed_check inp cap am = Inr (depC, pr)"
    and slipC: "slippage_checks inp = Inr (slipC, bps)"
    and mktC: "market_check inp am = Inr mktC" and feeC: "fee_check inp am = Inr feeC"
    and liqC: "liquidity_check inp = Inr liqC" and balC: "balance_in_check inp am = Inr balC"
    and gasC: "balance_gas_check inp am = Inr gasC" and lpC: "runLpChecks inp am = Inr lpC"
    and cs: "cs = chain_check inp # lp_pool_checks inp @ capC @ freshness_checks inp @
       allowlist_checks inp @ [posC, sizeC, lossC, depC] @ slipC @ [mktC, feeC, liqC] @
       cooldown_checks inp @ [balC, gasC] @ lpC"
  note k = exit_kinds [OF ex]
  have "isLpEntry (action inp) \<longrightarrow> isLp (action inp)" by (simp add: isLpEntry_def isLp_def)
  then have none: "lp_pool_checks inp = []" "capC = []" "lpC = []"
    using capC lpC k
    by (auto simp: lp_pool_checks_def lp_capital_checks_def runLpChecks_def Let_def split: option.splits)
  have lim: "sizeC = skip ''size.amountInUsd'' SIZE_EXCEEDS_MAX_TRADE Not_applicable"
    "lossC = skip ''loss.daily'' DAILY_LOSS_BREACHED Not_applicable"
    "depC = skip ''deployed.total'' TOTAL_DEPLOYED_BREACHED Not_applicable"
    using sizeC lossC depC ex
    by (auto simp: size_check_def loss_check_def deployed_check_def sbind_eq_Inr Let_def)
  have cool: "\<forall>c \<in> set (cooldown_checks inp). ck_skipped c = Some Not_applicable"
    using ex by (simp add: cooldown_checks_def Let_def)
  have codes: "ck_code (chain_check inp) \<notin> LIMIT_CODES" "ck_code posC \<notin> LIMIT_CODES"
    "ck_code mktC \<notin> LIMIT_CODES" "ck_code feeC \<notin> LIMIT_CODES" "ck_code liqC \<notin> LIMIT_CODES"
    "ck_code balC \<notin> LIMIT_CODES" "ck_code gasC \<notin> LIMIT_CODES"
    using single_ids(1) [OF posC] single_ids(6) [OF mktC] single_ids(7) [OF feeC]
      single_ids(8) [OF liqC] single_ids(9) [OF balC] single_ids(10) [OF gasC]
    by (simp_all add: check_id_def chain_check_def Let_def LIMIT_CODES_def)
  have "\<forall>c \<in> set (freshness_checks inp @ allowlist_checks inp @ slipC). ck_code c \<notin> LIMIT_CODES"
    using code_in_ids [OF freshness_ids] code_in_ids [OF allowlist_ids] code_in_ids [OF single_ids(5) [OF slipC]]
    by (fastforce simp: REMAINING_CHECK_NAMES_def LIMIT_CODES_def)
  then show ?thesis
    using c codes cool by (auto simp: cs none lim)
qed

text \<open>An allowed exit only reduces risk: it sells at most the amount the ledger holds of the
  token, the token is not a stablecoin and the proceeds are one, and the slippage limit holds as for an
  entry.\<close>

theorem allowed_exit_reduces:
  assumes "evaluate X inp = Inr d" "allowed d" "isExit (action inp)"
  shows "amount_val (amountIn (action inp)) \<le> holding inp \<and>
    \<not> isStablecoin (a_chain (action inp)) (tr_address (tokenIn (action inp))) \<and>
    isStablecoin (a_chain (action inp)) (tr_address (tokenOut (action inp))) \<and>
    (\<exists>q. a_quote (action inp) = Some q \<and>
      (10000 - maxSlippageBps (policy inp)) * amount_val (expectedAmountOut q)
        \<le> 10000 * amount_val (minAmountOut q))"
  using assms(1,2)
proof (rule allowed_sections)
  fix cap capC posC am sizeC dl lossC depC pr slipC bps mktC feeC liqC balC gasC lpC
  assume valid: "action_valid X (action inp)" and ps: "position_check inp = Inr posC"
    and sl: "slippage_checks inp = Inr (slipC, bps)"
    and ok: "\<forall>c \<in> {posC, sizeC, lossC, depC, mktC, feeC, liqC, balC, gasC}. \<not> failing c"
    and ok3: "\<forall>c \<in> set (capC @ slipC @ lpC). \<not> failing c"
  have nq: "\<not> no_swap_quote (action inp)"
    using action_valid_quote [OF valid] exit_kinds [OF assms(3)] assms(3)
    by (auto simp: no_swap_quote_def isExit_def)
  obtain q where q: "a_quote (action inp) = Some q" "quote_slippage q = Inr bps"
    "bps \<le> maxSlippageBps (policy inp)"
    by (rule slippage_passed [OF sl _ nq]) (use ok3 in auto)
  note qv = quote_slippage_val(2) [OF q(2) action_valid_quote_amounts(3,4) [OF valid q(1)] q(3)]
  have "\<not> failing posC" using ok by simp
  from position_passed [OF ps this assms(3)] q(1) qv show ?thesis by blast
qed

text \<open>C39. A position can always be closed as far as limits go: whatever the state of the ledger,
  an exit is never rejected for its size, the day's loss, the deployed capital or a cooldown.\<close>

theorem exit_not_limited:
  assumes "evaluate X inp = Inr d" "isExit (action inp)"
  shows "\<forall>code \<in> LIMIT_CODES. d_code d \<noteq> Some code"
  using assms(1)
proof (cases rule: evaluateE)
  case (stopped "is")
  let ?t = "tier0 X is inp"
  obtain c where c: "List.find failing ?t = Some c"
    using stopped(2) by (cases "List.find failing ?t")
      (auto simp: checksFailed_def list_ex_iff find_None_iff simp del: set_append)
  have "d_code d = Some (ck_code c)"
    unfolding stopped(3) finish_def Let_def find_append [of failing ?t] c by simp
  moreover have "ck_code c \<in> snd ` set TIER0_NAMES"
    using code_in_ids [OF tier0_ids] find_SomeD [OF c] by blast
  ultimately show ?thesis by (auto simp: TIER0_NAMES_def LIMIT_CODES_def)
next
  case (ran "is" cs drv)
  have t: "List.find failing (tier0 X is inp) = None"
    using ran(2) by (simp add: checksFailed_def find_None_iff list_ex_iff del: set_append)
  show ?thesis
  proof
    fix code assume code: "code \<in> LIMIT_CODES"
    show "d_code d \<noteq> Some code"
    proof
      assume "d_code d = Some code"
      then obtain c where "List.find failing cs = Some c" "ck_code c = code"
        using t by (auto simp: ran(4) finish_def Let_def find_append simp del: append_assoc)
      then show False
        using exit_limits_skipped [OF ran(3) assms(2), of c] code find_SomeD [of failing cs c]
        by (simp add: failing_def)
    qed
  qed
qed

section \<open>Liquidity positions\<close>

lemma lp_capital_passed:
  assumes "lp_capital_checks inp cap = Inr cs" "\<forall>c \<in> set cs. \<not> failing c"
    "isLpEntry (action inp)" "a_lp (action inp) = Some l"
  obtains ex m v where
    "(case lp_existing inp (lpPoolKey (a_chain (action inp)) (poolId l)) of
        None \<Rightarrow> Inr 0 | Some (_, c) \<Rightarrow> usdToMicros c) = Inr ex"
    "usdToMicros (maxCapitalPerLpUsd (lp_limits (policy inp))) = Inr m" "cap = Some v" "ex + v \<le> m"
  using assms by (auto simp: lp_capital_checks_def sbind_eq_Inr Let_def within_iff)

lemma lp_entry_capital_val:
  assumes "lp_entry_capital inp = Inr (Some v)" "isLpEntry (action inp)" "a_lp (action inp) = Some l"
  obtains b px po va vb where "amountB l = Some b" "v = va + vb"
    "usablePrice (price_in inp) = Some px" "usablePrice (price_out inp) = Some po"
    "nativeToUsdMicros (amount_val (amountIn (action inp))) (tr_decimals (tokenIn (action inp))) px RCeil = Inr va"
    "nativeToUsdMicros (amount_val b) (tr_decimals (tokenOut (action inp))) po RCeil = Inr vb"
  using assms
  by (auto simp: lp_entry_capital_def lpCapitalMicros_def sbind_eq_Inr Let_def
      amountToBigint_Inr amount_val_def split: option.splits)

lemma lp_passed:
  assumes "runLpChecks inp am = Inr cs" "\<forall>c \<in> set cs. \<not> failing c"
    "isLp (action inp)" "a_lp (action inp) = Some l"
  obtains c1 c2 c4 c5 c6 cs' where
    "lp_position_check inp l = Inr c1" "lp_liquidity_check inp = Inr c2"
    "lp_slippage_check inp = Inr c4" "lp_gas_check inp am = Inr c5" "lp_claim_check inp l = Inr c6"
    "lp_tokenB_checks inp l = Inr cs'"
    "\<forall>c \<in> {c1, c2, lp_rebalance_check inp l, c4, c5, c6} \<union> set cs'. \<not> failing c"
  using assms by (auto simp: runLpChecks_def sbind_eq_Inr)

text \<open>C25. An allowed LP entry (an addition or a rebalance) stays inside every LP limit: the two
  legs, each valued at its checked price rounded up, together with the capital already in that pool are
  within the cap per pool; with everything deployed they are within the total; the pool is deep enough;
  a rebalance is within the daily count; the wallet holds both legs; and the quote's guaranteed output respects the LP slippage.\<close>

theorem allowed_lp_entry:
  assumes "evaluate X inp = Inr d" "allowed d" "isLpEntry (action inp)"
  shows "\<exists>l b q px po va vb ex cap t dep total liq liqv minPool balA balB.
    a_lp (action inp) = Some l \<and> amountB l = Some b \<and> a_quote (action inp) = Some q \<and>
    usablePrice (price_in inp) = Some px \<and> usablePrice (price_out inp) = Some po \<and>
    amount_val (amountIn (action inp)) * px \<le> usd_denom (tr_decimals (tokenIn (action inp))) * va \<and>
    amount_val b * po \<le> usd_denom (tr_decimals (tokenOut (action inp))) * vb \<and>
    (case lp_existing inp (lpPoolKey (a_chain (action inp)) (poolId l)) of
        None \<Rightarrow> Inr 0 | Some (_, c) \<Rightarrow> usdToMicros c) = Inr ex \<and>
    usdToMicros (maxCapitalPerLpUsd (lp_limits (policy inp))) = Inr cap \<and> ex + (va + vb) \<le> cap \<and>
    usdToMicros (deployedUsd (ledger (state inp))) = Inr t \<and>
    lp_deployed_micros (snapshot inp) = Inr dep \<and>
    usdToMicros (maxTotalDeployedUsd (policy inp)) = Inr total \<and> t + dep + (va + vb) \<le> total \<and>
    liquidity_of inp = Some liq \<and> usdToMicros (sv_value liq) = Inr liqv \<and>
    usdToMicros (minPoolLiquidityUsd (lp_limits (policy inp))) = Inr minPool \<and> minPool \<le> liqv \<and>
    (a_kind (action inp) = Lp_rebalance \<longrightarrow> rebalance_count inp (lpPoolKey (a_chain (action inp)) (poolId l))
       < maxRebalancePerDay (lp_limits (policy inp))) \<and>
    balance_in inp = Some balA \<and> amount_val (amountIn (action inp)) \<le> amount_val (sv_value balA) \<and>
    balance_out inp = Some balB \<and> amount_val b \<le> amount_val (sv_value balB) \<and>
    (10000 - maxRebalanceSlippageBps (lp_limits (policy inp))) * amount_val (expectedAmountOut q)
      \<le> 10000 * amount_val (minAmountOut q)"
  using assms(1,2)
proof (rule allowed_sections)
  fix cap capC posC am sizeC dl lossC depC pr slipC bps mktC feeC liqC balC gasC lpC
  assume valid: "action_valid X (action inp)" and am: "derive_amounts inp = Inr am"
    and ec: "lp_entry_capital inp = Inr cap" and cp: "lp_capital_checks inp cap = Inr capC"
    and dp: "deployed_check inp cap am = Inr (depC, pr)" and bl: "balance_in_check inp am = Inr balC"
    and lp: "runLpChecks inp am = Inr lpC"
    and ok: "\<forall>c \<in> {posC, sizeC, lossC, depC, mktC, feeC, liqC, balC, gasC}. \<not> failing c"
    and ok3: "\<forall>c \<in> set (capC @ slipC @ lpC). \<not> failing c"
  let ?a = "action inp"
  have k: "isLp ?a" "\<not> isApprove ?a" "\<not> isLpExit ?a" "\<not> isLpClaim ?a"
    using assms(3) by (auto simp: isLp_def isLpEntry_def isApprove_def isLpExit_def isLpClaim_def)
  obtain l where l: "a_lp ?a = Some l" using valid_lp [OF valid] k(1) by auto
  obtain q where q: "a_quote ?a = Some q"
    using action_valid_quote [OF valid] assms(3) by (auto simp: isLpEntry_def)
  obtain ex m v where ex: "(case lp_existing inp (lpPoolKey (a_chain ?a) (poolId l)) of
        None \<Rightarrow> Inr 0 | Some (_, c) \<Rightarrow> usdToMicros c) = Inr ex"
    "usdToMicros (maxCapitalPerLpUsd (lp_limits (policy inp))) = Inr m" "cap = Some v" "ex + v \<le> m"
    by (rule lp_capital_passed [OF cp _ assms(3) l]) (use ok3 in auto)
  obtain b px po va vb where b: "amountB l = Some b" and v: "v = va + vb"
    and px: "usablePrice (price_in inp) = Some px" and po: "usablePrice (price_out inp) = Some po"
    and va: "nativeToUsdMicros (amount_val (amountIn ?a)) (tr_decimals (tokenIn ?a)) px RCeil = Inr va"
    and vb: "nativeToUsdMicros (amount_val b) (tr_decimals (tokenOut ?a)) po RCeil = Inr vb"
    using lp_entry_capital_val [OF ec [unfolded ex(3)] assms(3) l] .
  obtain t dep mx where dep: "usdToMicros (deployedUsd (ledger (state inp))) = Inr t"
    "lp_deployed_micros (snapshot inp) = Inr dep" "usdToMicros (maxTotalDeployedUsd (policy inp)) = Inr mx"
    "t + dep + v \<le> mx"
    by (rule deployed_passed_lp_entry [OF dp _ assms(3)]) (use ok ex(3) in auto)
  obtain c1 c2 c4 c5 c6 cs' where lpc: "lp_liquidity_check inp = Inr c2"
    "lp_slippage_check inp = Inr c4" "lp_tokenB_checks inp l = Inr cs'"
    "\<forall>c \<in> {c1, c2, lp_rebalance_check inp l, c4, c5, c6} \<union> set cs'. \<not> failing c"
    by (rule lp_passed [OF lp _ k(1) l]) (use ok3 in auto)
  obtain liq lv mp where liq: "liquidity_of inp = Some liq" "usdToMicros (sv_value liq) = Inr lv"
    "usdToMicros (minPoolLiquidityUsd (lp_limits (policy inp))) = Inr mp" "mp \<le> lv"
    using lpc(1,4) assms(3)
    by (auto simp: lp_liquidity_check_def sbind_eq_Inr at_least_iff opt_result_Inr_Some)
  have cnt: "a_kind ?a = Lp_rebalance \<longrightarrow> rebalance_count inp (lpPoolKey (a_chain ?a) (poolId l))
       < maxRebalancePerDay (lp_limits (policy inp))"
    using lpc(4) by (auto simp: lp_rebalance_check_def Let_def)
  obtain bps where bps: "quote_slippage q = Inr bps" "bps \<le> maxRebalanceSlippageBps (lp_limits (policy inp))"
    using lpc(2,4) q k(4) by (auto simp: lp_slippage_check_def sbind_eq_Inr Let_def)
  note slip = quote_slippage_val(2) [OF bps(1) action_valid_quote_amounts(3,4) [OF valid q] bps(2)]
  obtain balB where balB: "balance_out inp = Some balB" "amount_val b \<le> amount_val (sv_value balB)"
    using lpc(3,4) assms(3) b
    by (auto simp: lp_tokenB_checks_def sbind_eq_Inr Let_def held_balance_def at_least_iff
        opt_result_Inr_Some amountToBigint_Inr amount_val_def)
  have fee0: "0 \<le> da_feeNative am"
    using derive_amounts_val(2) [OF am] feeInNativeUnits_nonneg action_valid_fields(7) [OF valid] by auto
  obtain balA where balA: "balance_in inp = Some balA" "amount_val (amountIn ?a) \<le> amount_val (sv_value balA)"
    by (rule balance_in_passed [OF bl _ k(2,3,4) fee0]) (use ok derive_amounts_val(1) [OF am] in auto)
  show ?thesis
    by (rule exI [of _ l], rule exI [of _ b], rule exI [of _ q], rule exI [of _ px],
        rule exI [of _ po], rule exI [of _ va], rule exI [of _ vb], rule exI [of _ ex],
        rule exI [of _ m], rule exI [of _ t], rule exI [of _ dep], rule exI [of _ mx],
        rule exI [of _ liq], rule exI [of _ lv], rule exI [of _ mp], rule exI [of _ balA],
        rule exI [of _ balB])
      (use l b q px po ex dep [unfolded v] liq cnt balA balB slip valuation_within [OF va, of va]
        valuation_within [OF vb, of vb] v in simp)
qed

text \<open>An allowed removal burns at most the LP tokens held in that pool, and the position is
  open; an allowed claim is of an open position too, and what it collects, both sides valued at the
  checked prices rounded down, reaches the claim threshold.\<close>

theorem allowed_lp_exit:
  assumes "evaluate X inp = Inr d" "allowed d"
  shows "(a_kind (action inp) = Lp_remove \<longrightarrow>
      (\<exists>l t h c. a_lp (action inp) = Some l \<and> lpTokens l = Some t \<and>
        lp_existing inp (lpPoolKey (a_chain (action inp)) (poolId l)) = Some (h, c) \<and>
        0 < amount_val h \<and> amount_val t \<le> amount_val h)) \<and>
    (a_kind (action inp) = Lp_claim \<longrightarrow>
      (\<exists>l h c ca cb px po va vb m. a_lp (action inp) = Some l \<and> claimable l = Some (ca, cb) \<and>
        lp_existing inp (lpPoolKey (a_chain (action inp)) (poolId l)) = Some (h, c) \<and> 0 < amount_val h \<and>
        usablePrice (price_in inp) = Some px \<and> usablePrice (price_out inp) = Some po \<and>
        usd_denom (tr_decimals (tokenIn (action inp))) * va \<le> amount_val ca * px \<and>
        usd_denom (tr_decimals (tokenOut (action inp))) * vb \<le> amount_val cb * po \<and>
        usdToMicros (minFeeThresholdUsd (lp_limits (policy inp))) = Inr m \<and> m \<le> va + vb))"
  using assms
proof (rule allowed_sections)
  fix cap capC posC am sizeC dl lossC depC pr slipC bps mktC feeC liqC balC gasC lpC
  assume valid: "action_valid X (action inp)" and lp: "runLpChecks inp am = Inr lpC"
    and ok3: "\<forall>c \<in> set (capC @ slipC @ lpC). \<not> failing c"
  let ?a = "action inp"
  have kinds: "\<exists>l c1 c6. a_lp ?a = Some l \<and> lp_position_check inp l = Inr c1 \<and>
      lp_claim_check inp l = Inr c6 \<and> \<not> failing c1 \<and> \<not> failing c6" if k: "isLp ?a"
  proof -
    obtain l where l: "a_lp ?a = Some l" using valid_lp [OF valid] k by auto
    have "\<forall>c \<in> set lpC. \<not> failing c" using ok3 by simp
    then show ?thesis
      by (rule lp_passed [OF lp _ k l]) (use l in auto)
  qed
  have "\<exists>l t h c. a_lp ?a = Some l \<and> lpTokens l = Some t \<and>
      lp_existing inp (lpPoolKey (a_chain ?a) (poolId l)) = Some (h, c) \<and>
      0 < amount_val h \<and> amount_val t \<le> amount_val h" if r: "a_kind ?a = Lp_remove"
  proof -
    obtain l c1 where l: "a_lp ?a = Some l" "lp_position_check inp l = Inr c1" "\<not> failing c1"
      using kinds r by (auto simp: isLp_def)
    obtain t where "lpTokens l = Some t" using action_valid_lp_fields(6) [OF valid l(1) r] by auto
    with l r show ?thesis
      by (auto simp: lp_position_check_def sbind_eq_Inr Let_def isLpExit_def amountToBigint_Inr
          amount_val_def split: option.splits)
  qed
  moreover have "\<exists>l h c ca cb px po va vb m. a_lp ?a = Some l \<and> claimable l = Some (ca, cb) \<and>
      lp_existing inp (lpPoolKey (a_chain ?a) (poolId l)) = Some (h, c) \<and> 0 < amount_val h \<and>
      usablePrice (price_in inp) = Some px \<and> usablePrice (price_out inp) = Some po \<and>
      usd_denom (tr_decimals (tokenIn ?a)) * va \<le> amount_val ca * px \<and>
      usd_denom (tr_decimals (tokenOut ?a)) * vb \<le> amount_val cb * po \<and>
      usdToMicros (minFeeThresholdUsd (lp_limits (policy inp))) = Inr m \<and> m \<le> va + vb"
    if c: "a_kind ?a = Lp_claim"
  proof -
    obtain l c1 c6 where l: "a_lp ?a = Some l" "lp_position_check inp l = Inr c1" "\<not> failing c1"
      "lp_claim_check inp l = Inr c6" "\<not> failing c6"
      using kinds c by (auto simp: isLp_def)
    obtain h cc where h: "lp_existing inp (lpPoolKey (a_chain ?a) (poolId l)) = Some (h, cc)"
      "0 < amount_val h"
      using l(2,3) c
      by (auto simp: lp_position_check_def sbind_eq_Inr Let_def isLpExit_def isLpClaim_def
          amountToBigint_Inr amount_val_def split: option.splits)
    obtain v m where v: "claim_value inp l = Inr (Some v)" "m \<le> v"
      "usdToMicros (minFeeThresholdUsd (lp_limits (policy inp))) = Inr m"
      using l(4,5) c by (auto simp: lp_claim_check_def isLpClaim_def sbind_eq_Inr at_least_iff)
    obtain ca cb px po va vb where cl: "claimable l = Some (ca, cb)" "usablePrice (price_in inp) = Some px"
      "usablePrice (price_out inp) = Some po" "v = va + vb"
      "nativeToUsdMicros (amount_val ca) (tr_decimals (tokenIn ?a)) px RFloor = Inr va"
      "nativeToUsdMicros (amount_val cb) (tr_decimals (tokenOut ?a)) po RFloor = Inr vb"
      using v(1)
      by (auto simp: claim_value_def sbind_eq_Inr Let_def amountToBigint_Inr amount_val_def
          split: option.splits)
    have "usd_denom (tr_decimals (tokenIn ?a)) * va \<le> amount_val ca * px"
      "usd_denom (tr_decimals (tokenOut ?a)) * vb \<le> amount_val cb * po"
      using cl(5,6) div_bounds [OF usd_denom_pos(1)] by (auto simp: nativeToUsdMicros_floor)
    with l(1) h v(2,3) cl(1-4) show ?thesis by blast
  qed
  ultimately show ?thesis by blast
qed

section \<open>Freshness\<close>

definition usable_quote_at :: "risk_input \<Rightarrow> stamped option \<Rightarrow> bool" where
  "usable_quote_at inp s \<longleftrightarrow> (\<exists>p. usablePrice s = Some p \<and> 0 < p) \<and>
     is_fresh s (now inp) (priceMaxAgeMs (freshness (policy inp)))
       (maxClockSkewMs (freshness (policy inp)))"

definition fresh_at :: "risk_input \<Rightarrow> int \<Rightarrow> int \<Rightarrow> bool" where
  "fresh_at inp maxAge at \<longleftrightarrow>
     - maxClockSkewMs (freshness (policy inp)) \<le> now inp - at \<and> now inp - at \<le> maxAge"

text \<open>Nothing an allowed decision relies on is stale, missing, zero, or from the future beyond
  the clock skew: the action and the fee estimate, the prices of the input, of the native token and
  (unless it is an approval) of the output, the quote, the native balance, the input's balance when it
  spends from the wallet, the liquidity when it reads one; and the ledger is today's.\<close>

theorem allowed_is_fresh:
  assumes "evaluate X inp = Inr d" "allowed d" and f: "f = freshness (policy inp)"
  shows "fresh_at inp (actionMaxAgeMs f) (proposedAt (action inp)) \<and>
    fresh_at inp (feeEstimateMaxAgeMs f) (fee_estimatedAt (action inp)) \<and>
    dayStartUtcMs (ledger (state inp)) = dayStart (now inp) \<and>
    usable_quote_at inp (price_in inp) \<and> usable_quote_at inp (price_native inp) \<and>
    (\<not> isApprove (action inp) \<longrightarrow> usable_quote_at inp (price_out inp)) \<and>
    (\<forall>q. a_quote (action inp) = Some q \<longrightarrow> fresh_at inp (quoteMaxAgeMs f) (quotedAt q)) \<and>
    (\<exists>b. balance_native inp = Some b \<and> fresh_at inp (balanceMaxAgeMs f) (sv_at b)) \<and>
    (\<not> isLpExit (action inp) \<and> \<not> isLpClaim (action inp) \<longrightarrow>
       (\<exists>b. balance_in inp = Some b \<and> fresh_at inp (balanceMaxAgeMs f) (sv_at b))) \<and>
    (a_quote (action inp) \<noteq> None \<and> \<not> isLpExit (action inp) \<longrightarrow>
       (\<exists>l. liquidity_of inp = Some l \<and> fresh_at inp (liquidityMaxAgeMs f) (sv_at l)))"
  using assms(1,2)
proof (rule allowed_sections)
  fix cap capC posC am sizeC dl lossC depC pr slipC bps mktC feeC liqC balC gasC lpC
  assume valid: "action_valid X (action inp)"
    and ok2: "\<forall>c \<in> set (chain_check inp # lp_pool_checks inp @ freshness_checks inp @
        allowlist_checks inp @ cooldown_checks inp). \<not> failing c"
  have ap: "isApprove (action inp) \<longrightarrow> a_quote (action inp) = None"
    using action_valid_quote [OF valid] by (simp add: isApprove_def)
  have "\<forall>c \<in> set (freshness_checks inp). \<not> failing c" using ok2 by (simp add: ball_Un)
  then show ?thesis
    using ap unfolding freshness_checks_def Let_def f [symmetric]
    by (auto simp: is_fresh_def fresh_at_def usable_quote_at_def f dest: usablePrice_pos
        split: option.splits if_splits)
qed

section \<open>When the engine returns\<close>

definition numbers_ok :: "risk_input \<Rightarrow> bool" where
  "numbers_ok inp \<longleftrightarrow> (let l = ledger (state inp); s = snapshot inp in
     list_all usd_ok [deployedUsd l, realizedPnlTodayUsd l, unrealizedPnlUsd l, unrealizedPnlAtDayStartUsd l] \<and>
     (\<forall>p \<in> set (positions l). canon_int (pos_amount p)) \<and>
     (\<forall>k v. liquidity s k = Some v \<longrightarrow> usd_ok (sv_value v)) \<and>
     (\<forall>k v. poolLiquidity s k = Some v \<longrightarrow> usd_ok (sv_value v)) \<and>
     (\<forall>k v. balances s k = Some v \<longrightarrow> canon_int (sv_value v)) \<and>
     (\<forall>lp. snap_lp s = Some lp \<longrightarrow> usd_ok (lps_deployedUsd lp) \<and>
        (\<forall>k t c. lp_positions lp k = Some (t, c) \<longrightarrow> canon_int t \<and> usd_ok c)))"

lemma usd_ok_policy: "usdString s \<Longrightarrow> usd_ok s"
  by (simp add: usd_ok_def)

lemma policy_fields_usd:
  assumes "policy_fields_ok p"
  shows "usd_ok (maxAmountPerTradeUsd p)" "usd_ok (maxDailyLossUsd p)" "usd_ok (maxTotalDeployedUsd p)"
    "usd_ok (maxTransactionFeeUsd p)" "usd_ok (minLiquidityUsd p)"
    "usd_ok (maxCapitalPerLpUsd (lp_limits p))" "usd_ok (minPoolLiquidityUsd (lp_limits p))"
    "usd_ok (maxLpGasUsd (lp_limits p))" "usd_ok (minFeeThresholdUsd (lp_limits p))"
    "0 \<le> maxSlippageBps p" "maxSlippageBps p \<le> 10000"
    "0 \<le> market_tolerance p" "market_tolerance p \<le> 10000"
    "0 \<le> maxRebalanceSlippageBps (lp_limits p)" "maxRebalanceSlippageBps (lp_limits p) \<le> 10000"
  using assms
  by (auto simp: policy_usd_fields usd_ok_policy in_range_def market_tolerance_def)

lemma returns_value:
  assumes "0 \<le> d" "d \<le> 18"
  shows "returns (opt_result (\<lambda>p. nativeToUsdMicros a d p r) (usablePrice s))"
  using assms by (auto simp: returns_opt_result nativeToUsdMicros_returns dest: usablePrice_pos)

lemma returns_amount: "canon_int s \<Longrightarrow> returns (amountToBigint s)"
  by (simp add: returns_amountToBigint)

lemma native_decimals: "0 \<le> tr_decimals (nativeTokenRef c)" "tr_decimals (nativeTokenRef c) \<le> 18"
  by (simp_all add: nativeTokenRef_def)

lemma returns_fee: "list_all snd (fee_fields fd) \<Longrightarrow> returns (feeInNativeUnits fd)"
  by (cases fd) (auto simp: feeInNativeUnits_def returns_sbind returns_amountToBigint amountString_def ceilDiv_eq)

lemma returns_derive:
  assumes "action_valid X (action inp)"
  shows "returns (derive_amounts inp)"
  using action_valid_fields(2,5,7) [OF assms] native_decimals
  by (auto simp: derive_amounts_def Let_def in_range_def returns_amountToBigint
      intro!: returns_sbindI returns_value returns_fee)

lemma returns_daily_loss: "numbers_ok inp \<Longrightarrow> returns (computeDailyLoss inp)"
  by (auto simp: computeDailyLoss_def numbers_ok_def Let_def usd_ok_def intro!: returns_sbindI)

lemma returns_held: "(\<And>b. s = Some b \<Longrightarrow> canon_int (sv_value b)) \<Longrightarrow> returns (held_balance s)"
  by (simp add: held_balance_def returns_opt_result returns_amountToBigint)

lemma returns_liquidity:
  assumes "numbers_ok inp"
  shows "returns (opt_result (\<lambda>l. usdToMicros (sv_value l)) (liquidity_of inp))"
proof -
  have "usd_ok (sv_value v)" if "liquidity_of inp = Some v" for v
    using assms that
    by (auto simp: numbers_ok_def liquidity_of_def Let_def split: if_splits option.splits)
  then show ?thesis by (simp add: returns_opt_result usd_ok_def)
qed

lemma returns_quote:
  assumes "action_valid X a" "a_quote a = Some q"
  shows "returns (quote_slippage q)"
  using action_valid_quote_amounts [OF assms]
  by (auto simp: quote_slippage_def returns_amountToBigint impliedSlippageBps_returns amountToBigint_Inr
      intro!: returns_sbindI)

lemma returns_lp_entry_capital:
  assumes "action_valid X (action inp)"
  shows "returns (lp_entry_capital inp)"
proof -
  have "returns (lpCapitalMicros (action inp) b (usablePrice px) (usablePrice po))"
    if "canon_int b" for b px po
    using action_valid_fields(2,5,6) [OF assms] that
    by (auto simp: lpCapitalMicros_def in_range_def returns_amountToBigint nativeToUsdMicros_returns
        dest: usablePrice_pos intro!: returns_sbindI split: option.split)
  then show ?thesis
    using action_valid_lp_fields(1) [OF assms]
    by (auto simp: lp_entry_capital_def Let_def split: option.split)
qed

lemma returns_exposure:
  assumes valid: "action_valid X (action inp)" and n: "numbers_ok inp" and p: "policy_fields_ok (policy inp)"
  shows "returns (lp_capital_checks inp cap)" "returns (position_check inp)" "returns (size_check inp am)"
    "returns (loss_check inp cap am dl)" "returns (deployed_check inp cap am)"
proof -
  note pu = policy_fields_usd [OF p, unfolded usd_ok_def]
  show "returns (lp_capital_checks inp cap)"
    using n pu by (auto simp: lp_capital_checks_def Let_def numbers_ok_def lp_existing_def usd_ok_def
        intro!: returns_sbindI split: option.split)
  have "\<forall>s \<in> set (held_amounts inp). canon_int s"
    using n by (auto simp: held_amounts_def numbers_ok_def Let_def)
  then show "returns (position_check inp)"
    using action_valid_fields(2) [OF valid]
    by (auto simp: position_check_def Let_def returns_map_result returns_amountToBigint intro!: returns_sbindI)
  show "returns (size_check inp am)" using pu by (auto simp: size_check_def Let_def intro!: returns_sbindI)
  show "returns (loss_check inp cap am dl)"
    using pu by (auto simp: loss_check_def worst_case_def Let_def intro!: returns_sbindI split: option.split)
  show "returns (deployed_check inp cap am)"
    using n pu by (auto simp: deployed_check_def Let_def numbers_ok_def usd_ok_def
        intro!: returns_sbindI split: option.split)
qed

lemma returns_execution:
  assumes valid: "action_valid X (action inp)" and n: "numbers_ok inp" and p: "policy_fields_ok (policy inp)"
  shows "returns (slippage_checks inp)" "returns (market_check inp am)" "returns (fee_check inp am)"
    "returns (liquidity_check inp)" "returns (balance_in_check inp am)" "returns (balance_gas_check inp am)"
proof -
  note pu = policy_fields_usd [OF p, unfolded usd_ok_def]
  have bal: "canon_int (sv_value v)" if "balances (snapshot inp) k = Some v" for k v
    using n that by (simp add: numbers_ok_def Let_def)
  show "returns (slippage_checks inp)"
    using returns_quote [OF valid]
    by (auto simp: slippage_checks_def Let_def intro!: returns_sbindI split: option.split)
  show "returns (market_check inp am)"
  proof (cases "no_swap_quote (action inp)")
    case True
    then show ?thesis by (simp add: market_check_def Let_def)
  next
    case False
    then obtain q where q: "a_quote (action inp) = Some q" by (auto simp: no_swap_quote_def)
    then show ?thesis
      using False action_valid_quote_amounts(1) [OF valid q] action_valid_fields(6) [OF valid] pu(12,13)
      by (auto simp: market_check_def Let_def returns_opt_result returns_amountToBigint in_range_def
          nativeToUsdMicros_returns intro!: returns_sbindI usablePrice_pos)
  qed
  show "returns (fee_check inp am)" using pu by (auto simp: fee_check_def intro!: returns_sbindI)
  show "returns (liquidity_check inp)"
    using pu returns_liquidity [OF n] by (auto simp: liquidity_check_def Let_def intro!: returns_sbindI)
  show "returns (balance_in_check inp am)"
    using bal by (auto simp: balance_in_check_def balance_in_def Let_def intro!: returns_sbindI returns_held)
  show "returns (balance_gas_check inp am)"
    using bal by (auto simp: balance_gas_check_def balance_native_def Let_def intro!: returns_sbindI returns_held)
qed

lemma returns_lp:
  assumes valid: "action_valid X (action inp)" and n: "numbers_ok inp" and p: "policy_fields_ok (policy inp)"
  shows "returns (runLpChecks inp am)"
proof -
  note pu = policy_fields_usd [OF p, unfolded usd_ok_def]
  have bal: "canon_int (sv_value v)" if "balances (snapshot inp) k = Some v" for k v
    using n that by (simp add: numbers_ok_def Let_def)
  have ex: "canon_int t" if "lp_existing inp k = Some (t, c)" for k t c
    using n that by (auto simp: numbers_ok_def Let_def lp_existing_def split: option.splits)
  have c0: "canon_int ''0''" by (simp add: canon_int_def)
  have "returns (lp_position_check inp l)" if "a_lp (action inp) = Some l" for l
    using ex c0 action_valid_lp_fields(2) [OF valid that]
    by (auto simp: lp_position_check_def Let_def returns_amountToBigint intro!: returns_sbindI
        split: option.split)
  moreover have "returns (lp_liquidity_check inp)"
    using pu returns_liquidity [OF n] by (auto simp: lp_liquidity_check_def intro!: returns_sbindI)
  moreover have "returns (lp_slippage_check inp)"
    using returns_quote [OF valid]
    by (auto simp: lp_slippage_check_def Let_def intro!: returns_sbindI split: option.split)
  moreover have "returns (lp_gas_check inp am)"
    using pu by (auto simp: lp_gas_check_def intro!: returns_sbindI)
  moreover have "returns (lp_claim_check inp l)" if l: "a_lp (action inp) = Some l" for l
  proof -
    have "returns (claim_value inp l)"
      using action_valid_lp_fields(3,4) [OF valid l] action_valid_fields(5,6) [OF valid]
      by (auto simp: claim_value_def Let_def returns_amountToBigint in_range_def
          nativeToUsdMicros_returns dest: usablePrice_pos intro!: returns_sbindI split: option.split)
    then show ?thesis using pu by (auto simp: lp_claim_check_def intro!: returns_sbindI)
  qed
  moreover have "returns (lp_tokenB_checks inp l)" if "a_lp (action inp) = Some l" for l
    using bal action_valid_lp_fields(1) [OF valid that]
    by (auto simp: lp_tokenB_checks_def balance_out_def Let_def returns_amountToBigint
        intro!: returns_sbindI returns_held split: option.split)
  ultimately show ?thesis
    by (auto simp: runLpChecks_def Let_def intro!: returns_sbindI split: option.split)
qed

text \<open>Under a policy that passed validation and a ledger and snapshot whose amounts are
  well-formed numbers, the engine returns a decision about every proposal the schema can read, malformed
  ones included, and whatever the prices are (a malformed price is an unknown price).\<close>

theorem evaluate_total:
  assumes "policy_fields_ok (policy inp)" "numbers_ok inp"
  shows "returns (evaluate X inp) \<longleftrightarrow> returns (schema_parse X (action inp))"
proof (cases "schema_parse X (action inp)")
  case (Inl e)
  then show ?thesis by (simp add: evaluate_def runTier0_def)
next
  case (Inr "is")
  have "returns (evaluate X inp)"
  proof (cases "checksFailed (tier0 X is inp)")
    case True
    then show ?thesis by (simp add: evaluate_def runTier0_def Inr Let_def)
  next
    case False
    note v = tier0_passed(2) [OF False Inr]
    have "returns (runRemainingChecks inp)"
      unfolding runRemainingChecks_def
      by (auto intro!: returns_sbindI returns_lp_entry_capital [OF v] returns_derive [OF v]
          returns_daily_loss returns_exposure [OF v] returns_execution [OF v] returns_lp [OF v] assms)
    then obtain r where "runRemainingChecks inp = Inr r" by (auto simp: returns_def)
    with False Inr show ?thesis by (cases r) (simp add: evaluate_def runTier0_def Let_def)
  qed
  with Inr show ?thesis by simp
qed

lemma js_BigInt_raises: "js_integer (js_trim s) = None \<Longrightarrow> \<exists>m. js_BigInt s = Inl (JsError m)"
  by (simp add: js_BigInt_def)

text \<open>The one way the engine raises under such a policy, ledger and snapshot: the schema's
  refinement converts the quote's amounts with \<open>BigInt\<close>, so a proposal whose quote carries an amount
  that is not a number, and whose failed fields do not keep the library from refining, raises a
  SyntaxError instead of being rejected with SCHEMA_INVALID.\<close>

theorem malformed_quote_raises:
  assumes "a_quote (action inp) = Some q" "js_integer (js_trim (expectedAmountOut q)) = None"
    "\<forall>c \<in> set (field_issues X (action inp)). \<not> ext_aborts X (fst c)"
  shows "\<exists>m. evaluate X inp = Inl (JsError m)"
proof -
  obtain m where "js_BigInt (expectedAmountOut q) = Inl (JsError m)"
    using js_BigInt_raises [OF assms(2)] by blast
  then have "schema_parse X (action inp) = Inl (JsError m)"
    using assms(1,3) by (auto simp: schema_parse_def Let_def list_ex_iff refine_issues_def quote_issues_def)
  then show ?thesis by (simp add: evaluate_def runTier0_def)
qed

section \<open>Witnesses\<close>

abbreviation "sample_run a \<equiv> evaluate sample_externals (sample_input a)"

lemma sample_input_sel [simp]: "action (sample_input a) = a" "policy (sample_input a) = sample_policy"
  by (simp_all add: sample_input_def)

lemmas sample_runs = sample_swap_allowed sample_exit_allowed sample_lp_add_allowed
  sample_lp_remove_allowed sample_lp_claim_allowed

lemma sample_kinds:
  "opens_position sample_action" "isExit sample_exit" "isLpEntry sample_lp_add"
  "a_kind sample_lp_remove = Lp_remove" "a_kind sample_lp_claim = Lp_claim"
  by (simp_all add: opens_position_def sample_action_def isExit_def sample_exit_def isLpEntry_def
      sample_lp_add_def sample_lp_remove_def sample_lp_claim_def)

theorem decision_canonical_checks_witness:
  "\<exists>d. sample_run sample_action = Inr d \<and>
     map check_id (checks d) = TIER0_NAMES @ remainingCheckNames sample_action"
  using sample_swap_allowed [unfolded engine_allows_iff] decision_canonical_checks by fastforce

theorem decision_meaning_witness:
  "\<exists>d. sample_run sample_action = Inr d \<and> allowed d \<and> d_code d = None \<and> derived d \<noteq> None \<and> replayOf d = None \<and>
     map check_id (checks d) = canonical_order sample_action"
proof -
  obtain d where d: "sample_run sample_action = Inr d" "allowed d"
    using sample_swap_allowed unfolding engine_allows_iff by blast
  from decision_meaning [OF d(1)] d show ?thesis by (auto split: if_splits)
qed

theorem emergency_stop_rejects_witness:
  "\<exists>d. evaluate sample_externals ((sample_input sample_action)\<lparr>state := sample_state\<lparr>emergency_active := True\<rparr>\<rparr>)
     = Inr d \<and> \<not> allowed d \<and> derived d = None"
proof -
  let ?i = "(sample_input sample_action)\<lparr>state := sample_state\<lparr>emergency_active := True\<rparr>\<rparr>"
  have "emergencyOf ?i" by (simp add: emergencyOf_def)
  moreover have "schema_parse sample_externals (action ?i) = Inr []" by code_simp
  ultimately show ?thesis using emergency_stop_rejects by blast
qed


theorem allowed_swap_exposure_witness:
  "\<exists>px v m. usablePrice (price_in (sample_input sample_action)) = Some px \<and>
     usdToMicros (maxAmountPerTradeUsd sample_policy) = Inr m \<and>
     amount_val (amountIn sample_action) * px \<le> usd_denom (tr_decimals (tokenIn sample_action)) * v \<and> v \<le> m"
proof -
  obtain d where d: "sample_run sample_action = Inr d" "allowed d"
    using sample_swap_allowed unfolding engine_allows_iff by blast
  have "opens_position (action (sample_input sample_action))" by (simp add: sample_kinds)
  from allowed_swap_exposure [OF d this] show ?thesis unfolding sample_input_sel by blast
qed

theorem allowed_swap_execution_witness:
  "\<exists>q. a_quote sample_action = Some q \<and>
     (10000 - maxSlippageBps sample_policy) * amount_val (expectedAmountOut q) \<le> 10000 * amount_val (minAmountOut q)"
proof -
  obtain d where d: "sample_run sample_action = Inr d" "allowed d"
    using sample_swap_allowed unfolding engine_allows_iff by blast
  have "opens_position (action (sample_input sample_action))" by (simp add: sample_kinds)
  from allowed_swap_execution [OF d this] show ?thesis unfolding sample_input_sel by blast
qed

theorem allowed_exit_reduces_witness:
  "amount_val (amountIn sample_exit) \<le> holding (sample_input sample_exit) \<and>
   isStablecoin (a_chain sample_exit) (tr_address (tokenOut sample_exit))"
proof -
  obtain d where d: "sample_run sample_exit = Inr d" "allowed d"
    using sample_exit_allowed unfolding engine_allows_iff by blast
  have "isExit (action (sample_input sample_exit))" by (simp add: sample_kinds)
  from allowed_exit_reduces [OF d this] show ?thesis by simp
qed

theorem exit_not_limited_witness:
  "\<exists>d. sample_run sample_exit = Inr d \<and> d_code d \<noteq> Some DAILY_LOSS_BREACHED"
proof -
  obtain d where d: "sample_run sample_exit = Inr d"
    using sample_exit_allowed unfolding engine_allows_iff by blast
  have "isExit (action (sample_input sample_exit))" by (simp add: sample_kinds)
  from exit_not_limited [OF d this] d show ?thesis by (auto simp: LIMIT_CODES_def)
qed

theorem allowed_lp_entry_witness:
  "\<exists>l b ex va vb cap. a_lp sample_lp_add = Some l \<and> amountB l = Some b \<and>
     usdToMicros (maxCapitalPerLpUsd (lp_limits sample_policy)) = Inr cap \<and> ex + (va + vb) \<le> cap"
proof -
  obtain d where d: "sample_run sample_lp_add = Inr d" "allowed d"
    using sample_lp_add_allowed unfolding engine_allows_iff by blast
  have "isLpEntry (action (sample_input sample_lp_add))" by (simp add: sample_kinds)
  from allowed_lp_entry [OF d this] show ?thesis unfolding sample_input_sel by blast
qed

theorem allowed_lp_exit_witness:
  "(\<exists>l t h. a_lp sample_lp_remove = Some l \<and> lpTokens l = Some t \<and> 0 < amount_val h \<and> amount_val t \<le> amount_val h) \<and>
   (\<exists>va vb m. usdToMicros (minFeeThresholdUsd (lp_limits sample_policy)) = Inr m \<and> m \<le> va + vb)"
proof -
  obtain d where d: "sample_run sample_lp_remove = Inr d" "allowed d"
    using sample_lp_remove_allowed unfolding engine_allows_iff by blast
  obtain e where e: "sample_run sample_lp_claim = Inr e" "allowed e"
    using sample_lp_claim_allowed unfolding engine_allows_iff by blast
  from allowed_lp_exit [OF d] allowed_lp_exit [OF e] show ?thesis
    unfolding sample_input_sel sample_kinds by blast
qed

theorem allowed_is_fresh_witness:
  "usable_quote_at (sample_input sample_action) (price_in (sample_input sample_action)) \<and>
   dayStartUtcMs (ledger (state (sample_input sample_action))) = dayStart (now (sample_input sample_action))"
proof -
  obtain d where d: "sample_run sample_action = Inr d" "allowed d"
    using sample_swap_allowed unfolding engine_allows_iff by blast
  from allowed_is_fresh [OF d refl] show ?thesis by blast
qed

lemma sample_numbers_ok:
  "numbers_ok ((sample_input a)\<lparr>policy := p, snapshot := sample_snapshot\<lparr>prices := Map.empty\<rparr>\<rparr>)"
proof -
  have u: "usd_ok ''0''" "usd_ok ''20''" "usd_ok ''5000000''" "canon_int ''4000000000000000''"
    "canon_int ''100000000''" "canon_int ''50000000000000000''" "canon_int ''1000''"
    unfolding usd_ok_def usdToMicros_returns by code_simp+
  show ?thesis
    unfolding numbers_ok_def Let_def
    by (simp add: sample_input_def sample_state_def sample_snapshot_def sample_stamp_def u)
qed

theorem evaluate_total_witness:
  "returns (evaluate sample_externals ((sample_input (sample_action\<lparr>amountIn := ''1e9''\<rparr>))
     \<lparr>policy := default_policy_value [Base], snapshot := sample_snapshot\<lparr>prices := Map.empty\<rparr>\<rparr>))"
proof -
  let ?i = "(sample_input (sample_action\<lparr>amountIn := ''1e9''\<rparr>))
     \<lparr>policy := default_policy_value [Base], snapshot := sample_snapshot\<lparr>prices := Map.empty\<rparr>\<rparr>"
  have "policy_fields_ok (policy ?i)" by (simp add: default_policy_fields)
  moreover have "returns (schema_parse sample_externals (sample_action\<lparr>amountIn := ''1e9''\<rparr>))"
    unfolding returns_code by code_simp
  ultimately show ?thesis using evaluate_total [OF _ sample_numbers_ok] by simp
qed

theorem malformed_quote_raises_witness:
  "\<exists>m. evaluate sample_externals (sample_input (sample_action\<lparr>a_quote := Some
     ((the (a_quote sample_action))\<lparr>expectedAmountOut := ''4e15''\<rparr>)\<rparr>)) = Inl (JsError m)"
proof (rule malformed_quote_raises)
  let ?a = "sample_action\<lparr>a_quote := Some ((the (a_quote sample_action))\<lparr>expectedAmountOut := ''4e15''\<rparr>)\<rparr>"
  show "a_quote (action (sample_input ?a)) = Some ((the (a_quote sample_action))\<lparr>expectedAmountOut := ''4e15''\<rparr>)"
    by simp
  show "js_integer (js_trim (expectedAmountOut ((the (a_quote sample_action))\<lparr>expectedAmountOut := ''4e15''\<rparr>))) = None"
    by code_simp
  show "\<forall>c \<in> set (field_issues sample_externals (action (sample_input ?a))). \<not> ext_aborts sample_externals (fst c)"
    by (simp add: sample_externals_def)
qed

end
