(* ===== verification/State_Props.thy ===== *)
theory State_Props
  imports State_Store
begin

text \<open>
  What the switches and the activation checklist guarantee over time. The store is a state machine:
  \<open>state_step\<close> has one rule per operation of \<open>State_Store\<close> and one for a process start, and a trace
  is the list of (event, clock) pairs, latest first. The properties read LIVE mode and the emergency
  stop off the trace that led to them, whatever the clock did in between.
\<close>

datatype state_event =
    Booted | Created | Configured | Paused bool | Emergency bool | Recorded activation_step
  | Went_live | Went_paper

inductive state_step :: "'a state_db_scheme \<Rightarrow> state_event \<times> int \<Rightarrow> 'a state_db_scheme \<Rightarrow> bool" where
  boot: "state_step db (Booted, t) (bootState t db)"
| create: "createInstallation t iid name enabled db = Inr db' \<Longrightarrow> state_step db (Created, t) db'"
| configure: "state_step db (Configured, t) (setEnabledChains enabled db)"
| finish_setup: "state_step db (Configured, t) (completeSetup t db)"
| pause: "state_step db (Paused p, t) (setGlobalPause t p reason actor db)"
| emergency: "state_step db (Emergency active, t) (setEmergencyStop t active reason actor db)"
| record_step: "recordActivationStep t step actor db = (db', progress) \<Longrightarrow> state_step db (Recorded step, t) db'"
| live: "activateLive t actor db = Inr (db', inst) \<Longrightarrow> state_step db (Went_live, t) db'"
| paper: "revertToPaper t actor reason db = (db', inst) \<Longrightarrow> state_step db (Went_paper, t) db'"

inductive_cases bootE: "state_step db (Booted, t) db'"
inductive_cases createE: "state_step db (Created, t) db'"
inductive_cases configE: "state_step db (Configured, t) db'"
inductive_cases pauseE: "state_step db (Paused p, t) db'"
inductive_cases emergencyE: "state_step db (Emergency active, t) db'"
inductive_cases recordE: "state_step db (Recorded step, t) db'"
inductive_cases liveE: "state_step db (Went_live, t) db'"
inductive_cases paperE: "state_step db (Went_paper, t) db'"

inductive reaches :: "'a state_db_scheme \<Rightarrow> (state_event \<times> int) list \<Rightarrow> 'a state_db_scheme \<Rightarrow> bool" where
  start: "reaches db [] db"
| step: "reaches db tr db1 \<Longrightarrow> state_step db1 ev db2 \<Longrightarrow> reaches db (ev # tr) db2"

text \<open>A database as the migrations leave it: no rows.\<close>

definition fresh_install :: "'a state_db_scheme \<Rightarrow> bool" where
  "fresh_install db \<longleftrightarrow> sd_installation db = None \<and> sd_switches db = None \<and> sd_activation db = None"

text \<open>The events that clear the checklist whatever the state, and those that leave LIVE.\<close>

fun clears :: "state_event \<Rightarrow> bool" where
  "clears (Emergency active) = active"
| "clears Went_live = True"
| "clears Went_paper = True"
| "clears _ = False"

fun demotes :: "state_event \<Rightarrow> bool" where
  "demotes Booted = True"
| "demotes (Emergency active) = active"
| "demotes Went_paper = True"
| "demotes _ = False"

section \<open>What each operation does to the rows\<close>

definition stamps :: "'a state_db_scheme \<Rightarrow> activation_step \<Rightarrow> int option" where
  "stamps db s = (case sd_activation db of None \<Rightarrow> None | Some row \<Rightarrow> la_stamp row s)"

definition stopped :: "'a state_db_scheme \<Rightarrow> bool" where
  "stopped db \<longleftrightarrow> sw_emergencyStop (getSwitches db)"

definition booted :: "'a state_db_scheme \<Rightarrow> bool" where
  "booted db \<longleftrightarrow> sd_switches db \<noteq> None \<and> sd_activation db \<noteq> None"

named_theorems state_defs
declare getMode_def [state_defs] stamps_def [state_defs] stopped_def [state_defs] booted_def [state_defs]
  setMode_def [state_defs] resetChecklist_def [state_defs] getSwitches_def [state_defs]
  audit_append_def [state_defs] no_activation_def [state_defs] Let_def [state_defs]

lemma boot_effect:
  "getMode (bootState t db) = PAPER" "booted (bootState t db)" "stopped (bootState t db) = stopped db"
  "stamps (bootState t db) = stamps db \<or> stamps (bootState t db) = Map.empty"
  by (auto simp: bootState_def demoteOnBoot_def ensureRows_def state_defs fun_eq_iff split: option.splits)
    (metis mode.exhaust)

lemma create_effect:
  assumes "createInstallation t iid name enabled db = Inr db'"
  shows "getMode db = PAPER" "getMode db' = PAPER" "booted db' = booted db" "stopped db' = stopped db"
    "stamps db' = stamps db"
  using assms by (auto simp: createInstallation_def getInstallation_def state_defs fun_eq_iff split: option.splits)

lemma config_effect:
  "getMode (setEnabledChains enabled db) = getMode db" "booted (setEnabledChains enabled db) = booted db"
  "stopped (setEnabledChains enabled db) = stopped db" "stamps (setEnabledChains enabled db) = stamps db"
  "getMode (completeSetup t db) = getMode db" "booted (completeSetup t db) = booted db"
  "stopped (completeSetup t db) = stopped db" "stamps (completeSetup t db) = stamps db"
  by (auto simp: setEnabledChains_def completeSetup_def state_defs fun_eq_iff split: option.splits)

lemma pause_effect:
  "getMode (setGlobalPause t p reason actor db) = getMode db"
  "booted (setGlobalPause t p reason actor db) = booted db"
  "stopped (setGlobalPause t p reason actor db) = stopped db"
  "stamps (setGlobalPause t p reason actor db) = stamps db"
  by (auto simp: setGlobalPause_def state_defs fun_eq_iff split: option.splits)

lemma emergency_effect:
  "getMode (setEmergencyStop t active reason actor db) = (if active then PAPER else getMode db)"
  "booted (setEmergencyStop t active reason actor db) = booted db"
  "stopped (setEmergencyStop t active reason actor db) = (active \<and> sd_switches db \<noteq> None)"
  "stamps (setEmergencyStop t active reason actor db) = (if active then Map.empty else stamps db)"
  by (auto simp: setEmergencyStop_def state_defs fun_eq_iff split: option.splits)

lemma emergency_booted: "booted db \<Longrightarrow> stopped (setEmergencyStop t active reason actor db) = active"
  by (simp add: emergency_effect(3) booted_def)

lemma record_effect:
  assumes "recordActivationStep t step actor db = (db', progress)"
  shows "getMode db' = getMode db" "booted db' = booted db" "stopped db' = stopped db"
    "stamps db' = (if sd_activation db = None then stamps db else (stamps db)(step \<mapsto> t))"
  using assms by (auto simp: recordActivationStep_def state_defs fun_eq_iff split: option.splits)

lemma live_effect:
  assumes "activateLive t actor db = Inr (db', inst)"
  shows "getMode db' = (if sd_installation db = None then PAPER else LIVE)" "booted db' = booted db"
    "stopped db' = stopped db" "stamps db' = Map.empty" "\<not> stopped db"
    "\<not> sw_globalPause (getSwitches db)" "\<forall>s. step_fresh t (stamps db s)"
    "sd_activation db' \<noteq> None \<Longrightarrow> ap_activatedAt (getActivation db' t') = Some t"
proof -
  have "filter (\<lambda>s. \<not> step_fresh t (stamps db s)) STEP_COLUMNS = []" "\<not> stopped db"
    using assms by (auto simp: activateLive_def getActivation_def stamps_def stopped_def Let_def split: if_splits)
  then show "\<forall>s. step_fresh t (stamps db s)" "\<not> stopped db" by (auto simp: filter_empty_conv)
  show "\<not> sw_globalPause (getSwitches db)" using assms by (auto simp: activateLive_def Let_def split: if_splits)
qed (use assms in \<open>auto simp: activateLive_def getActivation_def state_defs fun_eq_iff split: if_splits option.splits\<close>)

lemma paper_effect:
  assumes "revertToPaper t actor reason db = (db', inst)"
  shows "getMode db' = PAPER" "booted db' = booted db" "stopped db' = stopped db" "stamps db' = Map.empty"
  using assms by (auto simp: revertToPaper_def state_defs fun_eq_iff split: option.splits)

lemmas state_effects = boot_effect create_effect config_effect pause_effect emergency_effect
  record_effect live_effect paper_effect

section \<open>LIVE is always earned\<close>

text \<open>The six steps, each recorded at most ten minutes before \<open>t\<close> and after the last event that
  cleared the checklist.\<close>

definition walked :: "(state_event \<times> int) list \<Rightarrow> int \<Rightarrow> bool" where
  "walked tr t \<longleftrightarrow> (\<forall>s. \<exists>at. (Recorded s, at) \<in> set (takeWhile (\<lambda>e. \<not> clears (fst e)) tr)
     \<and> t - at \<le> ACTIVATION_STEP_TTL_MS)"

text \<open>The activation a trace is LIVE under: when it happened and what had happened before it.\<close>

fun live_since :: "(state_event \<times> int) list \<Rightarrow> (int \<times> (state_event \<times> int) list) option" where
  "live_since [] = None"
| "live_since ((e, t) # tr) = (if e = Went_live then Some (t, tr) else if demotes e then None else live_since tr)"

definition activated :: "'a state_db_scheme \<Rightarrow> int option" where
  "activated db = (case sd_activation db of None \<Rightarrow> None | Some row \<Rightarrow> la_activatedAt row)"

definition paused_now :: "'a state_db_scheme \<Rightarrow> bool" where
  "paused_now db \<longleftrightarrow> sw_globalPause (getSwitches db)"

text \<open>What a trace says about the rows it led to.\<close>

definition trace_inv :: "(state_event \<times> int) list \<Rightarrow> 'a state_db_scheme \<Rightarrow> bool" where
  "trace_inv tr db \<longleftrightarrow>
     (\<forall>s at. stamps db s = Some at \<longrightarrow> (Recorded s, at) \<in> set (takeWhile (\<lambda>e. \<not> clears (fst e)) tr)) \<and>
     (getMode db = LIVE \<longrightarrow> \<not> stopped db \<and>
        (\<exists>t pre. live_since tr = Some (t, pre) \<and> walked pre t \<and> activated db = Some t))"

lemma activated_effect:
  "activated (setEnabledChains enabled db) = activated db" "activated (completeSetup t db) = activated db"
  "activated (setGlobalPause t p reason actor db) = activated db"
  "activated (setEmergencyStop t False reason actor db) = activated db"
  "recordActivationStep t step actor db = (db', progress) \<Longrightarrow> activated db' = activated db"
  by (auto simp: activated_def setEnabledChains_def completeSetup_def setGlobalPause_def
      setEmergencyStop_def recordActivationStep_def audit_append_def Let_def split: option.splits)

lemma activateLive_at:
  assumes "activateLive t actor db = Inr (db', inst)"
  shows "activated db' = Some t"
proof -
  have "\<forall>s. step_fresh t (stamps db s)" using live_effect(7)[OF assms] .
  then have "sd_activation db \<noteq> None" by (auto simp: step_fresh_def stamps_def split: option.splits)
  then show ?thesis
    using assms by (auto simp: activateLive_def activated_def state_defs split: if_splits)
qed

lemma walked_fresh:
  assumes "\<forall>s. step_fresh t (stamps db s)" "trace_inv tr db"
  shows "walked tr t"
  using assms by (force simp: walked_def trace_inv_def step_fresh_def split: option.splits)

lemma trace_inv_step:
  assumes inv: "trace_inv tr db" and step: "state_step db ev db'"
  shows "trace_inv (ev # tr) db'"
  using step
proof cases
  case (boot t)
  then show ?thesis using inv boot_effect(1,4)[of t db] by (auto simp: trace_inv_def)
next
  case (create t iid name enabled)
  then show ?thesis using inv create_effect[of t iid name enabled db db'] by (auto simp: trace_inv_def)
next
  case (configure t enabled)
  then show ?thesis using inv by (auto simp: trace_inv_def config_effect activated_effect)
next
  case (finish_setup t)
  then show ?thesis using inv by (auto simp: trace_inv_def config_effect activated_effect)
next
  case (pause t p reason actor)
  then show ?thesis using inv by (auto simp: trace_inv_def pause_effect activated_effect)
next
  case (emergency t active reason actor)
  then show ?thesis using inv by (cases active) (auto simp: trace_inv_def emergency_effect activated_effect)
next
  case (record_step t step actor progress)
  then show ?thesis
    using inv record_effect[of t step actor db db' progress] activated_effect(5)[of t step actor db db' progress]
    by (auto simp: trace_inv_def split: if_splits)
next
  case (live t actor inst)
  then show ?thesis
    using inv live_effect[of t actor db db' inst] activateLive_at[of t actor db db' inst] walked_fresh[of t db tr]
    by (auto simp: trace_inv_def)
next
  case (paper t actor reason inst)
  then show ?thesis using inv paper_effect[of t actor reason db db' inst] by (auto simp: trace_inv_def)
qed

lemma trace_inv_start: "fresh_install db \<Longrightarrow> trace_inv [] db"
  by (simp add: trace_inv_def fresh_install_def stamps_def getMode_def)

lemma trace_inv_reaches: "reaches db0 tr db \<Longrightarrow> fresh_install db0 \<Longrightarrow> trace_inv tr db"
  by (induction rule: reaches.induct) (simp_all add: trace_inv_start trace_inv_step)

text \<open>C23. LIVE mode is always earned. Whatever the operations, restarts included, and whatever the clock
  does, a store that started empty and is in LIVE mode got there through an activation after which
  nothing demoted it; at that moment each of the six checklist steps had been recorded, no more than ten
  minutes before and after the last event that clears the checklist; the emergency stop is off; and the
  session the risk engine is given began at that activation and ends twelve hours after it.\<close>

theorem live_is_earned:
  assumes "fresh_install db0" "reaches db0 tr db" "getMode db = LIVE"
  shows "\<exists>t pre. live_since tr = Some (t, pre) \<and> walked pre t \<and> \<not> stopped db \<and>
    (\<forall>clock now cools lastAny lg. activation (toRiskState db clock now cools lastAny lg) = Act_LIVE \<and>
       liveSession (toRiskState db clock now cools lastAny lg) = Some (t, t + LIVE_SESSION_TTL_MS))"
proof -
  obtain t pre where "live_since tr = Some (t, pre)" "walked pre t" "\<not> stopped db" "activated db = Some t"
    using trace_inv_reaches[OF assms(2,1)] assms(3) by (auto simp: trace_inv_def)
  then show ?thesis
    using assms(3) by (auto simp: toRiskState_def getActivation_def activated_def Let_def)
qed

section \<open>The emergency stop holds\<close>

lemma stop_inv_step:
  assumes "booted db" "stopped db" "getMode db = PAPER" "state_step db ev db'" "fst ev \<noteq> Emergency False"
  shows "booted db' \<and> stopped db' \<and> getMode db' = PAPER"
  using assms(4)
proof cases
  case (boot t)
  then show ?thesis using assms by (simp add: boot_effect)
next
  case (create t iid name enabled)
  then show ?thesis using assms create_effect[of t iid name enabled db db'] by simp
next
  case (record_step t step actor progress)
  then show ?thesis using assms record_effect[of t step actor db db' progress] by simp
next
  case (live t actor inst)
  then show ?thesis using assms live_effect(5)[of t actor db db' inst] by simp
next
  case (paper t actor reason inst)
  then show ?thesis using assms paper_effect[of t actor reason db db' inst] by simp
next
  case (emergency t active reason actor)
  then show ?thesis using assms emergency_booted[OF assms(1)] by (auto simp: emergency_effect(1,2))
qed (use assms in \<open>simp_all add: config_effect pause_effect\<close>)

lemma stop_inv_reaches:
  assumes "reaches db tr db'" "booted db" "stopped db" "getMode db = PAPER" "Emergency False \<notin> fst ` set tr"
  shows "booted db' \<and> stopped db' \<and> getMode db' = PAPER"
  using assms
proof (induction rule: reaches.induct)
  case (step db tr db1 ev db2)
  then show ?case using stop_inv_step[of db1 ev db2] by auto
qed simp

lemma stop_refuses_live:
  "stopped db \<Longrightarrow> activateLive t actor db =
     Inl (AppError E_LIVE_ACTIVATION_INCOMPLETE ''Clear the emergency stop first'')"
  by (simp add: activateLive_def stopped_def Let_def)

text \<open>Stamps that were not there at the start were recorded on the way.\<close>

lemma stamps_reaches:
  assumes "reaches db tr db'" "stamps db = Map.empty" "stamps db' s = Some at"
  shows "(Recorded s, at) \<in> set tr"
  using assms
proof (induction arbitrary: s at rule: reaches.induct)
  case (step db tr db1 ev db2)
  from step.hyps(2) show ?case
  proof cases
    case (boot t)
    then show ?thesis using step boot_effect(4)[of t db1] by auto
  next
    case (create t iid name enabled)
    then show ?thesis using step create_effect(5)[of t iid name enabled db1 db2] by auto
  next
    case (record_step t step' actor progress)
    then show ?thesis using step record_effect(4)[of t step' actor db1 db2 progress] by (auto split: if_splits)
  next
    case (live t actor inst)
    then show ?thesis using step live_effect(4)[of t actor db1 db2 inst] by simp
  next
    case (paper t actor reason inst)
    then show ?thesis using step paper_effect(4)[of t actor reason db1 db2 inst] by simp
  qed (use step in \<open>auto simp: config_effect pause_effect emergency_effect split: if_splits\<close>)
qed simp

text \<open>C28. An emergency stop outlives everything but its own clearing: in a store that has been started,
  after the stop is engaged no sequence of operations without a clearing, restarts included, turns it
  off, leaves PAPER mode or makes an activation possible, and every stamp the checklist holds was
  recorded after the stop.\<close>

theorem emergency_stop_holds:
  assumes "booted db" "reaches (setEmergencyStop t0 True reason actor db) tr db'"
    and "Emergency False \<notin> fst ` set tr"
  shows "stopped db' \<and> getMode db' = PAPER \<and>
    (\<forall>t who. activateLive t who db' =
       Inl (AppError E_LIVE_ACTIVATION_INCOMPLETE ''Clear the emergency stop first'')) \<and>
    (\<forall>s at. stamps db' s = Some at \<longrightarrow> (Recorded s, at) \<in> set tr)"
proof -
  let ?db = "setEmergencyStop t0 True reason actor db"
  have "booted ?db" "stopped ?db" "getMode ?db = PAPER" "stamps ?db = Map.empty"
    using assms(1) by (simp_all add: emergency_effect(1,2,4) emergency_booted)
  then show ?thesis
    using stop_inv_reaches[OF assms(2) _ _ _ assms(3)] stamps_reaches[OF assms(2)] stop_refuses_live
    by blast
qed

section \<open>Witnesses\<close>

definition empty_state_db :: state_db where
  "empty_state_db = \<lparr>au_rows = [], au_seq = 0, sd_installation = None, sd_switches = None,
     sd_activation = None, sd_hooks = []\<rparr>"

text \<open>A first run that walks the checklist and goes live.\<close>

definition walk :: "int \<Rightarrow> state_db \<Rightarrow> state_db" where
  "walk t db = foldl (\<lambda>d s. fst (recordActivationStep t s ''operator'' d)) db STEP_COLUMNS"

definition first_live :: "(state_db \<times> installation option) result" where
  "first_live = sbind (createInstallation 1 ''i'' ''n'' [Base] (bootState 0 empty_state_db))
     (\<lambda>db. activateLive 600010 ''operator'' (walk 10 db))"

lemma reaches_walk: "reaches db tr db1 \<Longrightarrow>
   reaches db (map (\<lambda>s. (Recorded s, t)) (rev ss) @ tr)
     (foldl (\<lambda>d s. fst (recordActivationStep t s actor d)) db1 ss)"
proof (induction ss arbitrary: tr db1)
  case (Cons s ss)
  have "reaches db ((Recorded s, t) # tr) (fst (recordActivationStep t s actor db1))"
    by (rule reaches.step[OF Cons.prems]) (rule state_step.record_step[of _ _ actor], rule surjective_pairing)
  from Cons.IH[OF this] show ?case by simp
qed simp

lemma first_live_runs:
  obtains db0 db inst where "createInstallation 1 ''i'' ''n'' [Base] (bootState 0 empty_state_db) = Inr db0"
    "activateLive 600010 ''operator'' (walk 10 db0) = Inr (db, inst)" "getMode db = LIVE"
    "first_live = Inr (db, inst)"
proof -
  have "case first_live of Inl _ \<Rightarrow> False | Inr (db, _) \<Rightarrow> getMode db = LIVE"
    by (simp add: first_live_def walk_def STEP_COLUMNS_def createInstallation_def getInstallation_def
        recordActivationStep_def activateLive_def getActivation_def step_fresh_def bootState_def
        demoteOnBoot_def ensureRows_def empty_state_db_def ACTIVATION_STEP_TTL_MS_def state_defs)
  then obtain db inst where d: "first_live = Inr (db, inst)" "getMode db = LIVE"
    by (auto split: sum.splits)
  then show ?thesis using that by (auto simp: first_live_def sbind_eq_Inr)
qed

theorem live_is_earned_witness:
  "\<exists>db inst. first_live = Inr (db, inst) \<and>
     liveSession (toRiskState db 700000 700000 None None None) = Some (600010, 43800010)"
proof -
  obtain db0 db inst where c: "createInstallation 1 ''i'' ''n'' [Base] (bootState 0 empty_state_db) = Inr db0"
    and l: "activateLive 600010 ''operator'' (walk 10 db0) = Inr (db, inst)"
    and m: "getMode db = LIVE" and f: "first_live = Inr (db, inst)"
    by (rule first_live_runs)
  have "reaches empty_state_db [(Booted, 0)] (bootState 0 empty_state_db)"
    by (rule reaches.step[OF reaches.start state_step.boot])
  then have "reaches empty_state_db [(Created, 1), (Booted, 0)] db0"
    by (rule reaches.step) (rule state_step.create[OF c])
  from reaches_walk[OF this, of 10 STEP_COLUMNS "''operator''"]
  have "reaches empty_state_db (map (\<lambda>s. (Recorded s, 10)) (rev STEP_COLUMNS) @ [(Created, 1), (Booted, 0)]) (walk 10 db0)"
    by (simp add: walk_def)
  then have "reaches empty_state_db ((Went_live, 600010) #
      map (\<lambda>s. (Recorded s, 10)) (rev STEP_COLUMNS) @ [(Created, 1), (Booted, 0)]) db"
    by (rule reaches.step) (rule state_step.live[OF l])
  moreover have "fresh_install empty_state_db" by (simp add: fresh_install_def empty_state_db_def)
  ultimately have "liveSession (toRiskState db 700000 700000 None None None) = Some (600010, 600010 + LIVE_SESSION_TTL_MS)"
    using live_is_earned[OF _ _ m, of empty_state_db] by fastforce
  then have "liveSession (toRiskState db 700000 700000 None None None) = Some (600010, 43800010)"
    by (simp add: LIVE_SESSION_TTL_MS_def)
  with f show ?thesis by blast
qed

theorem emergency_stop_holds_witness:
  "getMode (bootState 9 (setEmergencyStop 5 True None ''operator'' (bootState 0 empty_state_db))) = PAPER \<and>
   stopped (bootState 9 (setEmergencyStop 5 True None ''operator'' (bootState 0 empty_state_db)))"
proof -
  have b: "booted (bootState 0 empty_state_db)" by (rule boot_effect(2))
  have r: "reaches (setEmergencyStop 5 True None ''operator'' (bootState 0 empty_state_db)) [(Booted, 9)]
      (bootState 9 (setEmergencyStop 5 True None ''operator'' (bootState 0 empty_state_db)))"
    by (rule reaches.step[OF reaches.start state_step.boot])
  show ?thesis using emergency_stop_holds[OF b r] by simp
qed

end
