(* ===== verification/Auth_Props.thy ===== *)
theory Auth_Props
  imports Auth State_Props
begin

text \<open>
  What the sign-in service guarantees when its operations interleave. The machine's state is the
  database and the password checks that are waiting for their derived key; every operation of
  \<open>Auth\<close> is a step, the two halves of an awaiting one are two steps, and the operations of the
  state store run in between. A trace lists (event, clock), latest first.
\<close>

datatype waiting =
    W_login
  | W_reauth string reauth_purpose
  | W_change string
  | W_derive string
  | W_set string

datatype auth_event =
    Guess_admitted
  | Guess_right
  | Guess_wrong
  | Issued string reauth_purpose string
  | Consumed string reauth_purpose string
  | Password_changed
  | Other

type_synonym 'a auth_world = "'a auth_db_scheme \<times> (attempt \<times> waiting) list"

inductive auth_step :: "auth_lib \<Rightarrow> 'a auth_world \<Rightarrow> auth_event \<times> int \<Rightarrow> 'a auth_world \<Rightarrow> bool" for L where
  login_admit: "login_begin t password db = Inr (db', att) \<Longrightarrow>
    auth_step L (db, fl) (Guess_admitted, t) (db', (att, W_login) # fl)"
| reauth_admit: "reauth_begin t password db = Inr (db', att) \<Longrightarrow>
    auth_step L (db, fl) (Guess_admitted, t) (db', (att, W_reauth sid purpose) # fl)"
| login_wrong: "(att, W_login) \<in> set fl \<Longrightarrow> \<not> verifyPassword L att \<Longrightarrow>
    login_finish L t att sid token db = (db', r) \<Longrightarrow>
    auth_step L (db, fl) (Guess_wrong, t) (db', remove1 (att, W_login) fl)"
| login_right: "(att, W_login) \<in> set fl \<Longrightarrow> verifyPassword L att \<Longrightarrow>
    login_finish L t att sid token db = (db', r) \<Longrightarrow>
    auth_step L (db, fl) (Guess_right, t) (db', remove1 (att, W_login) fl)"
| reauth_wrong: "(att, W_reauth sid purpose) \<in> set fl \<Longrightarrow> \<not> verifyPassword L att \<Longrightarrow>
    reauth_finish L t att sid purpose rid token db = (db', r) \<Longrightarrow>
    auth_step L (db, fl) (Guess_wrong, t) (db', remove1 (att, W_reauth sid purpose) fl)"
| reauth_failed: "(att, W_reauth sid purpose) \<in> set fl \<Longrightarrow> verifyPassword L att \<Longrightarrow>
    reauth_finish L t att sid purpose rid token db = (db', Inl e) \<Longrightarrow>
    auth_step L (db, fl) (Guess_right, t) (db', remove1 (att, W_reauth sid purpose) fl)"
| reauth_issued: "(att, W_reauth sid purpose) \<in> set fl \<Longrightarrow>
    reauth_finish L t att sid purpose rid token db = (db', Inr out) \<Longrightarrow>
    auth_step L (db, fl) (Issued (hashToken L token) purpose sid, t) (db', remove1 (att, W_reauth sid purpose) fl)"
| consume: "consumeReauthToken L t (Some token) purpose sid db = Inr db' \<Longrightarrow>
    auth_step L (db, fl) (Consumed (hashToken L token) purpose sid, t) (db', fl)"
| change_read: "auth_step L (db, fl) (Other, t) (db, (verify_begin password db, W_change new) # fl)"
| change_verified: "(att, W_change new) \<in> set fl \<Longrightarrow> change_verify L att new = Inr () \<Longrightarrow>
    auth_step L (db, fl) (Other, t) (db, (att, W_derive new) # remove1 (att, W_change new) fl)"
| change_refused: "(att, W_change new) \<in> set fl \<Longrightarrow> change_verify L att new = Inl e \<Longrightarrow>
    auth_step L (db, fl) (Other, t) (db, remove1 (att, W_change new) fl)"
| change_done: "(att, W_derive new) \<in> set fl \<Longrightarrow>
    auth_step L (db, fl) (Password_changed, t) (change_finish L params t new salt db, remove1 (att, W_derive new) fl)"
| set_read: "set_begin password db = Inr () \<Longrightarrow>
    auth_step L (db, fl) (Other, t) (db, (verify_begin password db, W_set password) # fl)"
| set_done: "(att, W_set password) \<in> set fl \<Longrightarrow> set_finish L params t password salt db = Inr db' \<Longrightarrow>
    auth_step L (db, fl) (Other, t) (db', remove1 (att, W_set password) fl)"
| set_raced: "(att, W_set password) \<in> set fl \<Longrightarrow> set_finish L params t password salt db = Inl e \<Longrightarrow>
    auth_step L (db, fl) (Other, t) (db, remove1 (att, W_set password) fl)"
| create_session: "createSession L t sid token db = Inr (db', s) \<Longrightarrow> auth_step L (db, fl) (Other, t) (db', fl)"
| create_raised: "createSession L t sid token db = Inl e \<Longrightarrow>
    auth_step L (db, fl) (Other, t) (pruneSessions t db, fl)"
| resolve: "resolveSession L t tk db = (db', s) \<Longrightarrow> auth_step L (db, fl) (Other, t) (db', fl)"
| revoke: "auth_step L (db, fl) (Other, t) (revokeSession t sid db, fl)"
| revoke_all: "auth_step L (db, fl) (Other, t) (revokeAllSessions t db, fl)"
| other_store: "state_step db (ev, t) db' \<Longrightarrow> auth_step L (db, fl) (Other, t) (db', fl)"

text \<open>A run whose clock does not go back.\<close>

inductive auth_run :: "auth_lib \<Rightarrow> 'a auth_world \<Rightarrow> (auth_event \<times> int) list \<Rightarrow> 'a auth_world \<Rightarrow> bool" for L where
  auth_start: "auth_run L w [] w"
| auth_next: "auth_run L w tr w1 \<Longrightarrow> auth_step L w1 ev w2 \<Longrightarrow> (\<And>e. e \<in> set tr \<Longrightarrow> snd e \<le> snd ev) \<Longrightarrow>
    auth_run L w (ev # tr) w2"

section \<open>The other tables are left alone\<close>

lemma auth_fields_of_more:
  "state_db.more db' = state_db.more (db :: 'a auth_db_scheme) \<Longrightarrow>
   ad_throttle db' = ad_throttle db \<and> ad_reauth db' = ad_reauth db \<and> ad_sessions db' = ad_sessions db \<and>
   ad_credential db' = ad_credential db \<and> auth_db.more db' = auth_db.more db"
  by (cases db; cases db') simp

lemma state_step_more: "state_step db ev db' \<Longrightarrow> state_db.more db' = state_db.more db"
  by (induction rule: state_step.induct)
    (auto simp: bootState_def demoteOnBoot_def ensureRows_def createInstallation_def setEnabledChains_def
      completeSetup_def setGlobalPause_def setEmergencyStop_def recordActivationStep_def activateLive_def
      revertToPaper_def setMode_def resetChecklist_def audit_append_def Let_def split: option.splits if_splits)

lemmas state_step_auth = auth_fields_of_more[OF state_step_more]

lemma auth_audit_simps [simp]:
  "ad_throttle (auth_audit t a s m db) = ad_throttle db" "ad_reauth (auth_audit t a s m db) = ad_reauth db"
  "ad_sessions (auth_audit t a s m db) = ad_sessions db" "ad_credential (auth_audit t a s m db) = ad_credential db"
  by (simp_all add: auth_audit_def audit_append_def)

lemma throttle_simps [simp]:
  "ad_reauth (writeThrottle fs u db) = ad_reauth db" "ad_sessions (writeThrottle fs u db) = ad_sessions db"
  "ad_credential (writeThrottle fs u db) = ad_credential db"
  "throttle (writeThrottle fs u db) = \<lparr>th_failures = fs, th_lockedUntil = u\<rparr>"
  "ad_throttle (recordSuccess db) = Some \<lparr>th_failures = [], th_lockedUntil = None\<rparr>"
  "ad_reauth (recordSuccess db) = ad_reauth db" "ad_sessions (recordSuccess db) = ad_sessions db"
  "ad_credential (recordSuccess db) = ad_credential db"
  "throttle (auth_audit t a s m db) = throttle db"
  by (simp_all add: writeThrottle_def recordSuccess_def throttle_def)

lemma session_frames [simp]:
  "ad_throttle (pruneSessions t db) = ad_throttle db" "ad_credential (pruneSessions t db) = ad_credential db"
  "ad_throttle (revokeSession t sid db) = ad_throttle db" "ad_reauth (revokeSession t sid db) = ad_reauth db"
  "ad_throttle (revokeAllSessions t db) = ad_throttle db" "ad_reauth (revokeAllSessions t db) = ad_reauth db"
  "ad_throttle (updateReauth db h f) = ad_throttle db" "ad_throttle (insertReauth db r) = ad_throttle db"
  "ad_throttle (insertSession db s) = ad_throttle db" "ad_reauth (insertSession db s) = ad_reauth db"
  "ad_throttle (updateSession db k g) = ad_throttle db" "ad_reauth (updateSession db k g) = ad_reauth db"
  by (simp_all add: pruneSessions_def revokeSession_def revokeAllSessions_def updateReauth_def
      insertReauth_def insertSession_def updateSession_def Let_def)

lemma pruned_reauth [simp]: "ad_reauth (pruneSessions t db) = filter (\<lambda>r. t < ra_expiresAt r) (ad_reauth db)"
  by (simp add: pruneSessions_def Let_def)

lemma createSession_frame:
  "createSession L t sid token db = Inr (db', s) \<Longrightarrow> ad_throttle db' = ad_throttle db
     \<and> ad_reauth db' = filter (\<lambda>r. t < ra_expiresAt r) (ad_reauth db)"
  by (auto simp: createSession_def Let_def split: if_splits)

lemma resolveSession_frame:
  assumes "resolveSession L t tk db = (db', s)"
  shows "ad_throttle db' = ad_throttle db" "ad_reauth db' = ad_reauth db"
  using assms by (auto simp: resolveSession_def split: option.splits if_splits)

lemma change_finish_frame [simp]:
  "ad_throttle (change_finish L params t new salt db) = ad_throttle db"
  "ad_reauth (change_finish L params t new salt db) = ad_reauth db"
  by (simp_all add: change_finish_def)

lemma set_finish_frame:
  "set_finish L params t password salt db = Inr db' \<Longrightarrow> ad_throttle db' = ad_throttle db \<and> ad_reauth db' = ad_reauth db"
  by (auto simp: set_finish_def split: if_splits)

lemma beginAttempt_frame:
  assumes "beginAttempt t db = Inr db'"
  shows "ad_reauth db' = ad_reauth db" "ad_sessions db' = ad_sessions db" "ad_credential db' = ad_credential db"
  using assms by (auto simp: beginAttempt_def Let_def split: if_splits)

lemma login_begin_frame:
  assumes "login_begin t password db = Inr (db', att)"
  shows "beginAttempt t db = Inr db'" "att = \<lparr>at_password = password, at_credential = ad_credential db\<rparr>"
  using assms by (auto simp: login_begin_def sbind_eq_Inr verify_begin_def dest: beginAttempt_frame(3) split: if_splits)

lemma reauth_begin_frame:
  assumes "reauth_begin t password db = Inr (db', att)"
  shows "beginAttempt t db = Inr db'" "att = \<lparr>at_password = password, at_credential = ad_credential db\<rparr>"
  using assms by (auto simp: reauth_begin_def sbind_eq_Inr verify_begin_def dest: beginAttempt_frame(3))

lemma login_wrong_frame:
  "login_finish L t att sid token db = (db', r) \<Longrightarrow> \<not> verifyPassword L att \<Longrightarrow>
   ad_throttle db' = ad_throttle db \<and> ad_reauth db' = ad_reauth db"
  by (auto simp: login_finish_def)

lemma login_right_frame:
  assumes "login_finish L t att sid token db = (db', r)" "verifyPassword L att"
  shows "ad_throttle db' = Some \<lparr>th_failures = [], th_lockedUntil = None\<rparr>"
    "ad_reauth db' = filter (\<lambda>r. t < ra_expiresAt r) (ad_reauth db)"
  using assms by (auto simp: login_finish_def Let_def dest: createSession_frame split: sum.splits)

lemma reauth_wrong_frame:
  "reauth_finish L t att sid purpose rid token db = (db', r) \<Longrightarrow> \<not> verifyPassword L att \<Longrightarrow>
   ad_throttle db' = ad_throttle db \<and> ad_reauth db' = ad_reauth db"
  by (auto simp: reauth_finish_def)

lemma reauth_failed_frame:
  assumes "reauth_finish L t att sid purpose rid token db = (db', Inl e)" "verifyPassword L att"
  shows "ad_throttle db' = Some \<lparr>th_failures = [], th_lockedUntil = None\<rparr>" "ad_reauth db' = ad_reauth db"
  using assms by (auto simp: reauth_finish_def Let_def split: if_splits)

lemma reauth_issued_frame:
  assumes "reauth_finish L t att sid purpose rid token db = (db', Inr out)"
  shows "ad_throttle db' = Some \<lparr>th_failures = [], th_lockedUntil = None\<rparr>" "verifyPassword L att"
    "hashToken L token \<notin> ra_tokenHash ` set (ad_reauth db)"
    "ad_reauth db' = ad_reauth db @ [\<lparr>ra_id = rid, ra_tokenHash = hashToken L token, ra_sessionId = sid,
       ra_purpose = purpose, ra_createdAt = t, ra_expiresAt = t + REAUTH_TTL_MS, ra_usedAt = None\<rparr>]"
  using assms by (auto simp: reauth_finish_def Let_def rea.ins split: if_splits)

lemma consume_frame:
  assumes "consumeReauthToken L t (Some token) purpose sid db = Inr db'"
  obtains r where "findReauth db (hashToken L token) = Some r" "spendable t purpose sid r"
    "db' = updateReauth db (hashToken L token) (ra_usedAt_update (\<lambda>_. Some t))"
  using assms by (auto simp: consumeReauthToken_def split: option.splits if_splits)

section \<open>The throttle bounds the guess rate\<close>

text \<open>The admitted guesses since the last right one, latest first.\<close>

fun guess_run :: "(auth_event \<times> int) list \<Rightarrow> int list" where
  "guess_run [] = []"
| "guess_run ((e, t) # tr) = (case e of Guess_admitted \<Rightarrow> t # guess_run tr
     | Guess_right \<Rightarrow> [] | Issued _ _ _ \<Rightarrow> [] | _ \<Rightarrow> guess_run tr)"

text \<open>The guesses admitted and those whose check has finished, over a whole trace.\<close>

fun is_check :: "auth_event \<Rightarrow> bool" where
  "is_check Guess_right = True"
| "is_check Guess_wrong = True"
| "is_check (Issued _ _ _) = True"
| "is_check _ = False"

fun throttled :: "waiting \<Rightarrow> bool" where
  "throttled W_login = True"
| "throttled (W_reauth _ _) = True"
| "throttled _ = False"

definition admitted :: "(auth_event \<times> int) list \<Rightarrow> nat" where
  "admitted tr = length (filter (\<lambda>e. fst e = Guess_admitted) tr)"

definition checked :: "(auth_event \<times> int) list \<Rightarrow> nat" where
  "checked tr = length (filter (\<lambda>e. is_check (fst e)) tr)"

definition throttled_waiting :: "(attempt \<times> waiting) list \<Rightarrow> nat" where
  "throttled_waiting fl = length (filter (\<lambda>w. throttled (snd w)) fl)"

lemma throttled_waiting_simps [simp]:
  "throttled_waiting [] = 0"
  "throttled_waiting (w # fl) = (if throttled (snd w) then 1 else 0) + throttled_waiting fl"
  by (simp_all add: throttled_waiting_def)

lemma throttled_waiting_remove1:
  "w \<in> set fl \<Longrightarrow> throttled_waiting fl = (if throttled (snd w) then 1 else 0) + throttled_waiting (remove1 w fl)"
  by (induction fl) auto

lemma checks_admitted_step:
  assumes "auth_step L w ev w'" "checked tr + throttled_waiting (snd w) = admitted tr"
  shows "checked (ev # tr) + throttled_waiting (snd w') = admitted (ev # tr)"
  using assms
  by (induction rule: auth_step.induct)
    (auto simp: checked_def admitted_def throttled_waiting_remove1)

lemma checks_admitted:
  "auth_run L w tr w' \<Longrightarrow> snd w = [] \<Longrightarrow> checked tr + throttled_waiting (snd w') = admitted tr"
  by (induction rule: auth_run.induct) (simp_all add: checks_admitted_step, simp add: checked_def admitted_def)

text \<open>The throttle row against the run of guesses \<open>g\<close>, latest first.\<close>

definition throttle_inv :: "int list \<Rightarrow> throttle_row \<Rightarrow> bool" where
  "throttle_inv g st \<longleftrightarrow> sorted_wrt (\<ge>) g \<and> (\<forall>i. i + 5 < length g \<longrightarrow> LOGIN_LOCKOUT_MS \<le> g ! i - g ! (i + 5)) \<and>
     (case th_lockedUntil st of
        Some u \<Rightarrow> th_failures st = [] \<and> g \<noteq> [] \<and> u = hd g + LOGIN_LOCKOUT_MS
      | None \<Rightarrow> (let k = length (th_failures st) in k < 5 \<and> k \<le> length g \<and>
          th_failures st = rev (take k g) \<and> (k < length g \<longrightarrow> LOGIN_LOCKOUT_MS \<le> hd g - g ! k)))"

lemma throttle_inv_reset: "throttle_inv [] \<lparr>th_failures = [], th_lockedUntil = None\<rparr>"
  by (simp add: throttle_inv_def)

lemma filter_desc_takeWhile:
  fixes P :: "int \<Rightarrow> bool"
  assumes "sorted_wrt (\<ge>) xs" "\<And>x y. y \<le> x \<Longrightarrow> P y \<Longrightarrow> P x"
  shows "filter P xs = takeWhile P xs"
  using assms(1)
proof (induction xs)
  case (Cons x xs)
  show ?case
  proof (cases "P x")
    case False
    then have "filter P xs = []" using Cons.prems assms(2) by (auto simp: filter_empty_conv)
    with False show ?thesis by simp
  qed (use Cons in simp)
qed simp

text \<open>The failures that survive the window are the latest ones.\<close>

lemma window_split:
  fixes g :: "int list"
  assumes "sorted_wrt (\<ge>) g" "k \<le> length g"
  obtains j where "j \<le> k" "filter (\<lambda>at. t - at < W) (rev (take k g)) = rev (take j g)"
    "j < k \<Longrightarrow> W \<le> t - g ! j"
proof -
  let ?P = "\<lambda>at. t - at < W"
  let ?j = "length (takeWhile ?P (take k g))"
  have "filter ?P (take k g) = takeWhile ?P (take k g)"
    using assms(1) by (intro filter_desc_takeWhile sorted_wrt_take) auto
  also have "\<dots> = take ?j (take k g)" by (rule takeWhile_eq_take)
  finally have "filter ?P (rev (take k g)) = rev (take (min ?j k) g)" by (simp add: rev_filter[symmetric])
  moreover have "?j \<le> k" using length_takeWhile_le[of ?P "take k g"] by simp
  moreover have "W \<le> t - g ! ?j" if "?j < k"
    using nth_length_takeWhile[of ?P "take k g"] that assms(2) by simp
  ultimately show ?thesis using that[of ?j] by (simp add: min_def)
qed

lemma gap_Cons:
  fixes g :: "int list"
  assumes "\<forall>i. i + 5 < length g \<longrightarrow> B \<le> g ! i - g ! (i + 5)" "5 \<le> length g \<Longrightarrow> B \<le> t - g ! 4"
  shows "\<forall>i. i + 5 < length (t # g) \<longrightarrow> B \<le> (t # g) ! i - (t # g) ! (i + 5)"
proof (intro allI impI)
  fix i assume "i + 5 < length (t # g)"
  then show "B \<le> (t # g) ! i - (t # g) ! (i + 5)"
    using assms(2) assms(1)[rule_format, of "i - 1"] by (cases i) (auto simp: add.commute)
qed

lemma desc_nth:
  fixes g :: "int list"
  shows "sorted_wrt (\<ge>) g \<Longrightarrow> i \<le> j \<Longrightarrow> j < length g \<Longrightarrow> g ! j \<le> g ! i"
  by (cases "i = j") (auto simp: sorted_wrt_iff_nth_less)

lemma throttle_inv_admit:
  assumes inv: "throttle_inv g (throttle db)" and admit: "beginAttempt t db = Inr db'"
    and clock: "\<forall>x \<in> set g. x \<le> t"
  shows "throttle_inv (t # g) (throttle db')"
proof (cases "th_lockedUntil (throttle db)")
  case (Some u)
  then have F: "th_failures (throttle db) = []" and g: "g \<noteq> []" "u = hd g + LOGIN_LOCKOUT_MS"
    and desc: "sorted_wrt (\<ge>) g" and gaps: "\<forall>i. i + 5 < length g \<longrightarrow> LOGIN_LOCKOUT_MS \<le> g ! i - g ! (i + 5)"
    using inv by (simp_all add: throttle_inv_def)
  have t: "hd g + LOGIN_LOCKOUT_MS \<le> t" "throttle db' = \<lparr>th_failures = [t], th_lockedUntil = None\<rparr>"
    using admit Some F g(2) by (auto simp: beginAttempt_def Let_def LOGIN_FAILURE_LIMIT_def split: if_splits)
  have "LOGIN_LOCKOUT_MS \<le> t - g ! 4" if "5 \<le> length g"
    using t(1) desc_nth[OF desc, of 0 4] that g(1) by (simp add: hd_conv_nth)
  then show ?thesis
    using t g(1) desc clock gap_Cons[OF gaps] by (simp add: throttle_inv_def Let_def hd_conv_nth)
next
  case None
  define k where "k = length (th_failures (throttle db))"
  have k: "k < 5" "k \<le> length g" "th_failures (throttle db) = rev (take k g)"
      "k < length g \<Longrightarrow> LOGIN_LOCKOUT_MS \<le> hd g - g ! k"
    and desc: "sorted_wrt (\<ge>) g" and gaps: "\<forall>i. i + 5 < length g \<longrightarrow> LOGIN_LOCKOUT_MS \<le> g ! i - g ! (i + 5)"
    using inv None by (simp_all add: throttle_inv_def Let_def k_def)
  obtain j where j: "j \<le> k" "filter (\<lambda>at. t - at < LOGIN_FAILURE_WINDOW_MS) (rev (take k g)) = rev (take j g)"
    "j < k \<Longrightarrow> LOGIN_FAILURE_WINDOW_MS \<le> t - g ! j"
    using window_split[OF desc k(2)] by blast
  have head: "hd g \<le> t" if "g \<noteq> []" using clock that by simp
  have late: "LOGIN_LOCKOUT_MS \<le> t - g ! j" if "j < length g"
  proof (cases "j < k")
    case True
    then show ?thesis using j(3) by (simp add: LOGIN_LOCKOUT_MS_def LOGIN_FAILURE_WINDOW_MS_def)
  next
    case False
    then have "j = k" using j(1) by simp
    then show ?thesis using k(4) that head by (cases g) auto
  qed
  have "LOGIN_LOCKOUT_MS \<le> t - g ! 4" if "5 \<le> length g"
    using late desc_nth[OF desc, of j 4] j(1) k(1) that by simp
  from gap_Cons[OF gaps this]
  have gaps': "\<forall>i. i + 5 < length (t # g) \<longrightarrow> LOGIN_LOCKOUT_MS \<le> (t # g) ! i - (t # g) ! (i + 5)" .
  have len: "length (rev (take j g)) = j" using j(1) k(2) by simp
  show ?thesis
  proof (cases "5 \<le> Suc j")
    case True
    then have "throttle db' = \<lparr>th_failures = [], th_lockedUntil = Some (t + LOGIN_LOCKOUT_MS)\<rparr>"
      using admit None k(3) j(2) len
      by (auto simp: beginAttempt_def Let_def LOGIN_FAILURE_LIMIT_def split: if_splits)
    then show ?thesis using desc clock gaps' by (simp add: throttle_inv_def)
  next
    case False
    then have "throttle db' = \<lparr>th_failures = rev (take j g) @ [t], th_lockedUntil = None\<rparr>"
      using admit None k(3) j(2) len
      by (auto simp: beginAttempt_def Let_def LOGIN_FAILURE_LIMIT_def split: if_splits)
    then show ?thesis
      using desc clock gaps' False late len j(1) k(2) by (simp add: throttle_inv_def Let_def)
  qed
qed

text \<open>What a step does to the throttle row, by its event.\<close>

lemma throttle_step:
  assumes "auth_step L w ev w'"
  shows "case fst ev of
      Guess_admitted \<Rightarrow> beginAttempt (snd ev) (fst w) = Inr (fst w')
    | Guess_right \<Rightarrow> ad_throttle (fst w') = Some \<lparr>th_failures = [], th_lockedUntil = None\<rparr>
    | Issued _ _ _ \<Rightarrow> ad_throttle (fst w') = Some \<lparr>th_failures = [], th_lockedUntil = None\<rparr>
    | _ \<Rightarrow> ad_throttle (fst w') = ad_throttle (fst w)"
  using assms
proof (induction rule: auth_step.induct)
  case (consume t token purpose sid db db' fl)
  then show ?case by (auto elim!: consume_frame)
qed (auto dest: login_begin_frame(1) reauth_begin_frame(1) login_wrong_frame login_right_frame(1)
       reauth_wrong_frame reauth_failed_frame(1) reauth_issued_frame(1) set_finish_frame createSession_frame
       resolveSession_frame(1) state_step_auth)

lemma throttle_inv_step:
  assumes "auth_step L w ev w'" "throttle_inv (guess_run tr) (throttle (fst w))"
    and "\<forall>x \<in> set (guess_run tr). x \<le> snd ev"
  shows "throttle_inv (guess_run (ev # tr)) (throttle (fst w'))"
proof (cases ev)
  case (Pair e t)
  then show ?thesis
    using throttle_step[OF assms(1)] assms(2,3) throttle_inv_admit[of "guess_run tr" "fst w" t "fst w'"]
    by (cases e) (simp_all add: throttle_def throttle_inv_reset)
qed

lemma guess_run_mem: "x \<in> set (guess_run tr) \<Longrightarrow> \<exists>e. (e, x) \<in> set tr"
  by (induction tr rule: guess_run.induct) (auto split: auth_event.splits)

lemma throttle_inv_run:
  assumes "auth_run L w tr w'" "ad_throttle (fst w) = None"
  shows "throttle_inv (guess_run tr) (throttle (fst w'))"
  using assms
proof (induction rule: auth_run.induct)
  case (auth_start w)
  then show ?case by (simp add: throttle_def throttle_inv_reset)
next
  case (auth_next w tr w1 ev w2)
  have "\<forall>x \<in> set (guess_run tr). x \<le> snd ev" using guess_run_mem auth_next.hyps(3) by fastforce
  then show ?case using throttle_inv_step auth_next by blast
qed

text \<open>C27. The rate of password guesses is bounded, however requests interleave and whatever restarts.
  Every finished check of a sign-in or re-authentication was admitted by the throttle before its key
  derivation began; and as long as no guess is right, any six admitted ones in a row take at least the
  five minutes of a lockout.\<close>

theorem guess_rate_bounded:
  assumes "auth_run L w tr w'" "ad_throttle (fst w) = None" "snd w = []"
  shows "checked tr \<le> admitted tr \<and>
    (\<forall>i. i + 5 < length (guess_run tr) \<longrightarrow> LOGIN_LOCKOUT_MS \<le> guess_run tr ! i - guess_run tr ! (i + 5))"
  using checks_admitted[OF assms(1,3)] throttle_inv_run[OF assms(1,2)] by (auto simp: throttle_inv_def)

section \<open>Re-authentication tokens are single-use\<close>

text \<open>The issue a token could still be spent under: the latest one, if nothing has spent it since.\<close>

fun live_issue :: "string \<Rightarrow> (auth_event \<times> int) list \<Rightarrow> (reauth_purpose \<times> string \<times> int) option" where
  "live_issue h [] = None"
| "live_issue h ((e, t) # tr) = (case e of
     Issued h' p s \<Rightarrow> if h' = h then Some (p, s, t) else live_issue h tr
   | Consumed h' p s \<Rightarrow> if h' = h then None else live_issue h tr
   | _ \<Rightarrow> live_issue h tr)"

lemma live_issue_split:
  "live_issue h tr = Some (p, s, t0) \<Longrightarrow> \<exists>mid old. tr = mid @ (Issued h p s, t0) # old \<and>
     (\<forall>e \<in> set mid. \<forall>p' s'. fst e \<noteq> Consumed h p' s')"
proof (induction tr)
  case (Cons a tr)
  obtain e t where a: "a = (e, t)" by (cases a)
  show ?case
  proof (cases "live_issue h tr = Some (p, s, t0) \<and> (\<forall>p' s'. e \<noteq> Consumed h p' s')")
    case True
    then obtain mid old where "tr = mid @ (Issued h p s, t0) # old"
      "\<forall>e \<in> set mid. \<forall>p' s'. fst e \<noteq> Consumed h p' s'" using Cons.IH by blast
    then show ?thesis using True a by (intro exI[of _ "a # mid"] exI[of _ old]) simp
  next
    case False
    then have "a = (Issued h p s, t0)"
      using Cons.prems a by (cases e) (auto split: if_splits)
    then show ?thesis by (intro exI[of _ "[]"] exI[of _ tr]) simp
  qed
qed simp

definition reauth_inv :: "(auth_event \<times> int) list \<Rightarrow> reauth_row list \<Rightarrow> bool" where
  "reauth_inv tr rs \<longleftrightarrow> distinct (map ra_tokenHash rs) \<and>
     (\<forall>r \<in> set rs. ra_usedAt r = None \<longrightarrow> (\<exists>t0. live_issue (ra_tokenHash r) tr = Some (ra_purpose r, ra_sessionId r, t0)
        \<and> ra_expiresAt r = t0 + REAUTH_TTL_MS))"

lemma reauth_inv_filter: "reauth_inv tr rs \<Longrightarrow> reauth_inv tr (filter P rs)"
  by (auto simp: reauth_inv_def distinct_map_filter)

lemma reauth_inv_other:
  "reauth_inv tr rs \<Longrightarrow> (\<And>h. live_issue h (ev # tr) = live_issue h tr) \<Longrightarrow> reauth_inv (ev # tr) rs"
  by (simp add: reauth_inv_def)

lemma reauth_inv_issue:
  assumes "reauth_inv tr rs" "ra_tokenHash r \<notin> ra_tokenHash ` set rs" "ra_expiresAt r = t + REAUTH_TTL_MS"
  shows "reauth_inv ((Issued (ra_tokenHash r) (ra_purpose r) (ra_sessionId r), t) # tr) (rs @ [r])"
proof -
  have "ra_tokenHash q \<noteq> ra_tokenHash r" if "q \<in> set rs" for q
    using assms(2) that by (metis imageI)
  then show ?thesis using assms by (auto simp: reauth_inv_def)
qed

definition mark_spent :: "string \<Rightarrow> int \<Rightarrow> reauth_row list \<Rightarrow> reauth_row list" where
  "mark_spent h t = map (\<lambda>r. if ra_tokenHash r = h then r\<lparr>ra_usedAt := Some t\<rparr> else r)"

lemma mark_spent_hashes: "map ra_tokenHash (mark_spent h t rs) = map ra_tokenHash rs"
  by (induction rs) (simp_all add: mark_spent_def)

lemma mark_spent_unspent: "r \<in> set (mark_spent h t rs) \<Longrightarrow> ra_usedAt r = None \<Longrightarrow> r \<in> set rs \<and> ra_tokenHash r \<noteq> h"
  by (induction rs) (auto simp: mark_spent_def split: if_splits)

lemma reauth_inv_consume: "reauth_inv tr rs \<Longrightarrow> reauth_inv ((Consumed h p s, t) # tr) (mark_spent h t rs)"
  using mark_spent_unspent[of _ h t rs] by (fastforce simp: reauth_inv_def mark_spent_hashes)

text \<open>What a step does to the tokens, by its event.\<close>

lemma reauth_step:
  assumes "auth_step L w ev w'"
  shows "case fst ev of
      Issued h p s \<Rightarrow> \<exists>r. h \<notin> ra_tokenHash ` set (ad_reauth (fst w)) \<and> ra_tokenHash r = h \<and> ra_purpose r = p \<and>
        ra_sessionId r = s \<and> ra_expiresAt r = snd ev + REAUTH_TTL_MS \<and> ad_reauth (fst w') = ad_reauth (fst w) @ [r]
    | Consumed h p s \<Rightarrow> (\<exists>r \<in> set (ad_reauth (fst w)). ra_tokenHash r = h \<and> spendable (snd ev) p s r) \<and>
        ad_reauth (fst w') = mark_spent h (snd ev) (ad_reauth (fst w))
    | _ \<Rightarrow> ad_reauth (fst w') = ad_reauth (fst w) \<or>
        ad_reauth (fst w') = filter (\<lambda>r. snd ev < ra_expiresAt r) (ad_reauth (fst w))"
  using assms
proof (induction rule: auth_step.induct)
  case (consume t token purpose sid db db' fl)
  then show ?case by (auto elim!: consume_frame dest: rea.look_Some simp: rea.upd mark_spent_def)
next
  case (reauth_issued att sid purpose fl t rid token db db' out)
  note i = reauth_issued_frame[OF reauth_issued(2)]
  show ?case using i(3) by (simp add: i(4))
next
  case (login_admit t password db db' att fl)
  then show ?case using beginAttempt_frame(1)[OF login_begin_frame(1)[OF login_admit]] by simp
next
  case (reauth_admit t password db db' att fl sid purpose)
  then show ?case using beginAttempt_frame(1)[OF reauth_begin_frame(1)[OF reauth_admit]] by simp
qed (auto dest: login_wrong_frame login_right_frame(2) reauth_wrong_frame reauth_failed_frame(2)
       set_finish_frame createSession_frame resolveSession_frame(2) state_step_auth)

lemma reauth_inv_step:
  assumes "auth_step L w ev w'" "reauth_inv tr (ad_reauth (fst w))"
  shows "reauth_inv (ev # tr) (ad_reauth (fst w'))"
proof (cases ev)
  case (Pair e t)
  show ?thesis
  proof (cases e)
    case (Issued h p s)
    then show ?thesis using reauth_step[OF assms(1)] reauth_inv_issue[OF assms(2)] Pair by auto
  next
    case (Consumed h p s)
    then show ?thesis
      using reauth_step[OF assms(1)] reauth_inv_consume[OF assms(2), of h p s t] unfolding Pair by simp
  qed (use reauth_step[OF assms(1)] reauth_inv_other[OF reauth_inv_filter[OF assms(2)]]
      reauth_inv_other[OF assms(2)] Pair in auto)
qed

lemma reauth_inv_run:
  assumes "auth_run L w tr w'" "ad_reauth (fst w) = []"
  shows "reauth_inv tr (ad_reauth (fst w'))"
  using assms
  by (induction rule: auth_run.induct) (simp add: reauth_inv_def, blast intro: reauth_inv_step)

inductive_cases auth_runE: "auth_run L w (ev # tr) w'"

lemma auth_run_split:
  "auth_run L w (post @ ev # pre) w' \<Longrightarrow> \<exists>w1 w2. auth_run L w pre w1 \<and> auth_step L w1 ev w2"
proof (induction post arbitrary: w')
  case Nil
  then have "auth_run L w (ev # pre) w'" by simp
  then show ?case by (rule auth_runE) blast
next
  case (Cons e post)
  then have "auth_run L w (e # (post @ ev # pre)) w'" by simp
  then show ?case by (rule auth_runE) (rule Cons.IH)
qed

text \<open>A re-authentication token is spent at most once, and only as it was issued: wherever a trace
  has a token spent, the token had been issued before for that very purpose and session, nothing spent
  it in between, and it was less than five minutes old.\<close>

theorem reauth_single_use:
  assumes "auth_run L w (post @ (Consumed h p s, t) # pre) w'" "ad_reauth (fst w) = []"
  shows "\<exists>t0 mid old. pre = mid @ (Issued h p s, t0) # old \<and> t < t0 + REAUTH_TTL_MS \<and>
    (\<forall>e \<in> set mid. \<forall>p' s'. fst e \<noteq> Consumed h p' s')"
proof -
  obtain w1 w2 where run: "auth_run L w pre w1" and step: "auth_step L w1 (Consumed h p s, t) w2"
    using auth_run_split[OF assms(1)] by blast
  obtain r where r: "r \<in> set (ad_reauth (fst w1))" "ra_tokenHash r = h" "spendable t p s r"
    using reauth_step[OF step] by auto
  obtain t0 where "live_issue h pre = Some (p, s, t0)" "ra_expiresAt r = t0 + REAUTH_TTL_MS"
    using reauth_inv_run[OF run assms(2)] r by (auto simp: reauth_inv_def spendable_def)
  then show ?thesis using live_issue_split r(3) by (fastforce simp: spendable_def)
qed

section \<open>Changing the password\<close>

lemma change_revokes_all:
  "snd (resolveSession L t tk (change_finish L params t' new salt db)) = None"
proof -
  have "\<forall>r \<in> set (ad_sessions (change_finish L params t' new salt db)). ss_revokedAt r \<noteq> None"
    by (auto simp: change_finish_def revokeAllSessions_def)
  then show ?thesis
    by (fastforce simp: resolveSession_def dest: ses.look_Some split: option.splits)
qed

lemma created_session_resolves:
  assumes "createSession L t sid token db = Inr (db', s)" "token \<noteq> ''''" "t' < t + SESSION_TTL_MS"
  shows "snd (resolveSession L t' (Some token) db') = Some \<lparr>se_id = sid, se_createdAt = t, se_expiresAt = t + SESSION_TTL_MS\<rparr>"
proof -
  have "hashToken L token \<notin> ss_tokenHash ` set (ad_sessions (pruneSessions t db))"
    using assms(1) by (auto simp: createSession_def Let_def split: if_splits)
  then have "findSession (pruneSessions t db) (hashToken L token) = None" by (simp add: ses.look_None)
  then have "findSession db' (hashToken L token) = Some \<lparr>ss_id = sid, ss_tokenHash = hashToken L token,
      ss_createdAt = t, ss_expiresAt = t + SESSION_TTL_MS, ss_lastSeenAt = t, ss_revokedAt = None\<rparr>"
    using assms(1) by (auto simp: createSession_def Let_def ses.look_ins split: if_splits)
  then show ?thesis using assms(2,3) by (simp add: resolveSession_def)
qed

lemma findSession_audit [simp]: "findSession (auth_audit t a st m db) h = findSession db h"
  by (simp add: findSession_def)

lemma resolve_audit: "snd (resolveSession L t tk (auth_audit t' a st m db)) = snd (resolveSession L t tk db)"
  by (auto simp: resolveSession_def split: option.splits)

text \<open>A password change signs everyone out, but a sign-in that is still deriving its key escapes it:
  right after the change no session token resolves, whatever it is; yet a sign-in with the old password
  that was admitted before the change and finishes after it is given a session, and that session is
  valid for its whole twelve hours under the new password.\<close>

theorem stale_sign_in_survives_change:
  assumes admit: "login_begin t0 old db = Inr (db1, att)" and right: "verifyPassword L att"
    and login: "login_finish L t2 att sid token (change_finish L params t1 new salt db1) = (db3, Inr s)"
    and t: "token \<noteq> ''''" "t3 < t2 + SESSION_TTL_MS"
  shows "(\<forall>now tk. snd (resolveSession L now tk (change_finish L params t1 new salt db1)) = None) \<and>
    snd (resolveSession L t3 (Some token) db3) = Some \<lparr>se_id = sid, se_createdAt = t2, se_expiresAt = t2 + SESSION_TTL_MS\<rparr>"
proof -
  let ?db = "recordSuccess (change_finish L params t1 new salt db1)"
  obtain db2 where "createSession L t2 sid token ?db = Inr (db2, s)"
    and db3: "db3 = auth_audit t2 ''login'' Au_ok ''Operator signed in'' db2"
    using login right by (auto simp: login_finish_def Let_def split: sum.splits)
  then show ?thesis using created_session_resolves t by (simp add: change_revokes_all resolve_audit)
qed

section \<open>Witnesses\<close>

definition sample_lib :: auth_lib where
  "sample_lib = \<lparr>lib_normalize = (\<lambda>p. p), lib_argon2 = (\<lambda>p s q. p @ s), lib_sha256 = (\<lambda>x. x)\<rparr>"

definition sample_auth_db :: auth_db where
  "sample_auth_db = \<lparr>au_rows = [], au_seq = 0, sd_installation = None, sd_switches = None, sd_activation = None,
     sd_hooks = [], ad_credential = Some \<lparr>cr_salt = ''s'', cr_hash = ''correct horse s'',
       cr_params = \<lparr>memoryKib = 65536, iterations = 3, parallelism = 1\<rparr>\<rparr>,
     ad_sessions = [\<lparr>ss_id = ''S'', ss_tokenHash = ''tok'', ss_createdAt = 0, ss_expiresAt = 43200000,
       ss_lastSeenAt = 0, ss_revokedAt = None\<rparr>], ad_reauth = [], ad_throttle = None\<rparr>"

lemmas sample_auth_defs = sample_auth_db_def sample_lib_def login_begin_def reauth_begin_def beginAttempt_def
  isConfigured_def throttle_def verify_begin_def writeThrottle_def verifyPassword_def deriveKey_def
  hashToken_def auth_audit_def audit_append_def login_finish_def createSession_def pruneSessions_def
  insertSession_def recordSuccess_def change_finish_def revokeAllSessions_def reauth_finish_def
  insertReauth_def consumeReauthToken_def findReauth_def updateReauth_def spendable_def Let_def sbind_def
  LOGIN_FAILURE_LIMIT_def LOGIN_FAILURE_WINDOW_MS_def LOGIN_LOCKOUT_MS_def SESSION_TTL_MS_def REAUTH_TTL_MS_def

text \<open>Guesses admitted one after another.\<close>

fun admit_all :: "int list \<Rightarrow> auth_db \<times> (attempt \<times> waiting) list \<Rightarrow> (auth_db \<times> (attempt \<times> waiting) list) option" where
  "admit_all [] w = Some w"
| "admit_all (t # ts) w = (case admit_all ts w of None \<Rightarrow> None
     | Some (db, fl) \<Rightarrow> (case login_begin t ''wrong'' db of Inl _ \<Rightarrow> None
         | Inr (db', att) \<Rightarrow> Some (db', (att, W_login) # fl)))"

lemma admit_all_run:
  "admit_all ts w = Some w' \<Longrightarrow> sorted_wrt (\<ge>) ts \<Longrightarrow> auth_run L w (map (Pair Guess_admitted) ts) w'"
proof (induction ts arbitrary: w')
  case Nil
  then show ?case by (simp add: auth_run.auth_start)
next
  case (Cons t ts)
  obtain db fl db' att where a: "admit_all ts w = Some (db, fl)" "login_begin t ''wrong'' db = Inr (db', att)"
    "w' = (db', (att, W_login) # fl)"
    using Cons.prems(1) by (auto split: option.splits sum.splits)
  have "auth_run L w (map (Pair Guess_admitted) ts) (db, fl)" using Cons a(1) by simp
  then have "auth_run L w ((Guess_admitted, t) # map (Pair Guess_admitted) ts) w'"
    unfolding a(3) by (rule auth_run.auth_next[OF _ auth_step.login_admit[OF a(2)]]) (use Cons.prems(2) in auto)
  then show ?case by simp
qed

theorem guess_rate_bounded_witness:
  "(\<exists>w'. auth_run sample_lib (sample_auth_db, []) (map (Pair Guess_admitted) [300004, 4, 3, 2, 1, 0]) w') \<and>
   LOGIN_LOCKOUT_MS \<le> 300004 - 0"
proof -
  have "admit_all [300004, 4, 3, 2, 1, 0] (sample_auth_db, []) \<noteq> None" by (simp add: sample_auth_defs)
  then obtain w' where w: "admit_all [300004, 4, 3, 2, 1, 0] (sample_auth_db, []) = Some w'" by blast
  then have run: "auth_run sample_lib (sample_auth_db, []) (map (Pair Guess_admitted) [300004, 4, 3, 2, 1, 0]) w'"
    by (rule admit_all_run) simp
  have "LOGIN_LOCKOUT_MS \<le> 300004 - (0 :: int)"
    using guess_rate_bounded[OF run] by (simp add: sample_auth_db_def)
  with run show ?thesis by blast
qed

theorem stale_sign_in_survives_change_witness:
  "\<exists>db1 att db3 s. login_begin 10 ''correct horse '' sample_auth_db = Inr (db1, att) \<and>
     login_finish sample_lib 30 att ''T'' ''new'' (change_finish sample_lib
       \<lparr>memoryKib = 65536, iterations = 3, parallelism = 1\<rparr> 20 ''battery staple'' ''r'' db1) = (db3, Inr s) \<and>
     snd (resolveSession sample_lib 40 (Some ''new'') db3) \<noteq> None"
proof -
  obtain db1 att where b: "login_begin 10 ''correct horse '' sample_auth_db = Inr (db1, att)"
    by (simp add: sample_auth_defs)
  have v: "verifyPassword sample_lib att" using b by (auto simp: sample_auth_defs)
  let ?r = "login_finish sample_lib 30 att ''T'' ''new'' (change_finish sample_lib
       \<lparr>memoryKib = 65536, iterations = 3, parallelism = 1\<rparr> 20 ''battery staple'' ''r'' db1)"
  have "\<exists>s. snd ?r = Inr s" using b by (auto simp: sample_auth_defs)
  then obtain db3 s where f: "?r = (db3, Inr s)" by (cases ?r) auto
  from stale_sign_in_survives_change[OF b v f, of 40]
  have "snd (resolveSession sample_lib 40 (Some ''new'') db3) \<noteq> None" by (simp add: SESSION_TTL_MS_def)
  with b f show ?thesis by blast
qed

theorem reauth_single_use_witness:
  "\<exists>db1 db2 db3 att out. reauth_begin 10 ''correct horse '' sample_auth_db = Inr (db1, att) \<and>
     reauth_finish sample_lib 20 att ''S'' Mode_live ''R'' ''tk'' db1 = (db2, Inr out) \<and>
     consumeReauthToken sample_lib 30 (Some ''tk'') Mode_live ''S'' db2 = Inr db3 \<and> 30 < 20 + REAUTH_TTL_MS"
proof -
  obtain db1 att where b: "reauth_begin 10 ''correct horse '' sample_auth_db = Inr (db1, att)"
    by (simp add: sample_auth_defs)
  let ?r = "reauth_finish sample_lib 20 att ''S'' Mode_live ''R'' ''tk'' db1"
  have "\<exists>out. snd ?r = Inr out" using b by (auto simp: sample_auth_defs)
  then obtain db2 out where i: "?r = (db2, Inr out)" by (cases ?r) auto
  have "\<exists>db3. consumeReauthToken sample_lib 30 (Some ''tk'') Mode_live ''S'' db2 = Inr db3"
    using b i by (auto simp: sample_auth_defs)
  then obtain db3 where c: "consumeReauthToken sample_lib 30 (Some ''tk'') Mode_live ''S'' db2 = Inr db3" ..
  let ?w = "W_reauth ''S'' Mode_live" and ?h = "hashToken sample_lib ''tk''"
  have "auth_run sample_lib (sample_auth_db, []) [(Guess_admitted, 10)] (db1, [(att, ?w)])"
    by (rule auth_run.auth_next[OF auth_run.auth_start auth_step.reauth_admit[OF b]]) simp
  then have "auth_run sample_lib (sample_auth_db, []) [(Issued ?h Mode_live ''S'', 20), (Guess_admitted, 10)]
      (db2, remove1 (att, ?w) [(att, ?w)])"
    by (rule auth_run.auth_next[OF _ auth_step.reauth_issued[OF _ i]]) simp_all
  then have run: "auth_run sample_lib (sample_auth_db, []) ([] @ (Consumed ?h Mode_live ''S'', 30) #
      [(Issued ?h Mode_live ''S'', 20), (Guess_admitted, 10)]) (db3, remove1 (att, ?w) [(att, ?w)])"
    unfolding append_Nil by (rule auth_run.auth_next[OF _ auth_step.consume[OF c]]) auto
  obtain t0 mid old where "[(Issued ?h Mode_live ''S'', 20), (Guess_admitted, 10)] =
      mid @ (Issued ?h Mode_live ''S'', t0) # old" "30 < t0 + REAUTH_TTL_MS"
    using reauth_single_use[OF run] by (auto simp: sample_auth_db_def)
  then have "30 < 20 + REAUTH_TTL_MS" by (auto simp: Cons_eq_append_conv)
  with b i c show ?thesis by blast
qed

end
