(* ===== verification/Gate_Props.thy ===== *)
theory Gate_Props
  imports Risk_Gate Auth_Props Risk_Engine_Props
begin

text \<open>
  What the gate guarantees on top of the engine: an intent is allowed at most once a day, an allowed
  LIVE action rests on an activation the operator earned under the policy in force, a preview decides
  nothing, and a policy update is all or nothing. The machine interleaves decisions with every other
  operation on the database: previews, dispatches, policy changes, the operations of the state store
  and of the sign-in service, and ledger writes.
\<close>

section \<open>What an evaluation writes\<close>

lemma toRiskLedger_writes:
  assumes "toRiskLedger lg t m price t' = Inr (lg', x)"
  shows "lg' = lg \<or> (\<exists>v. db_days lg (m, dayStart t') = None \<and> lg' = lg\<lparr>db_days := (db_days lg)((m, dayStart t') \<mapsto> v)\<rparr>)"
  using assms
  by (auto simp: toRiskLedger_def recordDayStart_def sbind_eq_Inr Let_def split: option.splits prod.splits)

definition anchor_only :: "mode \<Rightarrow> int \<Rightarrow> 'a gate_db_scheme \<Rightarrow> 'a gate_db_scheme \<Rightarrow> bool" where
  "anchor_only m t db db' \<longleftrightarrow> db' = db \<or>
     (\<exists>v. db_days (gd_ledger db) (m, dayStart t) = None \<and>
        db' = db\<lparr>gd_ledger := (gd_ledger db)\<lparr>db_days := (db_days (gd_ledger db))((m, dayStart t) \<mapsto> v)\<rparr>\<rparr>)"

lemma gate_evaluate_writes:
  assumes "gate_evaluate E t act snap price db = (db', r)"
  shows "anchor_only (a_mode act) t db db'"
proof -
  have "db\<lparr>gd_ledger := gd_ledger db\<rparr> = db" by simp
  then show ?thesis
    using assms unfolding anchor_only_def
    by (auto simp: gate_evaluate_def runtimeState_def sbind_eq_Inr sbind_eq_Inl Let_def
        split: sum.splits dest!: toRiskLedger_writes)
qed

lemma anchor_only_frame:
  assumes "anchor_only m t db db'"
  shows "gd_decisions db' = gd_decisions db" "gd_policy db' = gd_policy db" "gd_cooldowns db' = gd_cooldowns db"
    "gd_lastAny db' = gd_lastAny db" "sd_installation db' = sd_installation db" "sd_switches db' = sd_switches db"
    "sd_activation db' = sd_activation db"
  using assms by (auto simp: anchor_only_def)

text \<open>What an evaluation that returns has read.\<close>

lemma gate_evaluate_reads:
  assumes "gate_evaluate E t act snap price db = (db', Inr d)"
  obtains p lg where "policy_get E db = Inr p"
    "evaluate (ge_externals E) \<lparr>now = t, policy = p, policyHash = ge_policyHash E p, action = act,
       state = toRiskState db' t t (Some (gd_cooldowns db)) (gd_lastAny db) (Some lg), snapshot = snap\<rparr> = Inr d"
  using assms
  by (auto simp: gate_evaluate_def policy_getWithHash_def runtimeState_def sbind_eq_Inr Let_def split: sum.splits)

section \<open>What a decision does\<close>

lemma find_filter_Some: "List.find P xs = Some r \<Longrightarrow> Q r \<Longrightarrow> List.find P (filter Q xs) = Some r"
  by (induction xs) (auto split: if_splits)

lemma prune_frame [simp]:
  "sd_installation (pruneExpired t db) = sd_installation db" "sd_switches (pruneExpired t db) = sd_switches db"
  "sd_activation (pruneExpired t db) = sd_activation db" "gd_policy (pruneExpired t db) = gd_policy db"
  by (simp_all add: pruneExpired_def)

lemma find_prune:
  "findByIdempotencyKey db k = Some r \<Longrightarrow> t \<le> dr_expiresAt r \<Longrightarrow> findByIdempotencyKey (pruneExpired t db) k = Some r"
  by (simp add: findByIdempotencyKey_def pruneExpired_def find_filter_Some)

lemma decide_replay:
  "findByIdempotencyKey (pruneExpired t db) (idempotencyKey act) = Some r \<Longrightarrow>
   decide E t act snap price db = (pruneExpired t db, Inr (replay_decision t act (dr_decision r)))"
  by (simp add: decide_def Let_def)

lemma decide_fresh:
  assumes "decide E t act snap price db = (db', Inr d)"
    "findByIdempotencyKey (pruneExpired t db) (idempotencyKey act) = None"
  obtains db1 where "gate_evaluate E t act snap price (pruneExpired t db) = (db1, Inr d)" "persist t act snap d db1 = Inr db'"
  using assms by (auto simp: decide_def Let_def split: sum.splits prod.splits)

lemma replay_not_allowed [simp]: "\<not> allowed (replay_decision t act d)"
  by (simp add: replay_decision_def)

lemma persist_frame:
  assumes "persist t act snap d db = Inr db'"
  shows "gd_decisions db' = gd_decisions db @ [\<lparr>dr_actionId = actionId act, dr_idempotencyKey = idempotencyKey act,
       dr_decisionCycleId = decisionCycleId act, dr_action = act, dr_decision = d, dr_snapshot = snap,
       dr_createdAt = t, dr_expiresAt = t + DECISION_RETENTION_MS\<rparr>]"
    "gd_policy db' = gd_policy db" "sd_installation db' = sd_installation db" "sd_switches db' = sd_switches db"
    "sd_activation db' = sd_activation db"
  using assms by (auto simp: persist_def insertDecision_def audit_append_def split: if_splits)

text \<open>The decisions after a call: what was unexpired, and the new row when there is one.\<close>

lemma decide_decisions:
  assumes "decide E t act snap price db = (db', r)"
  shows "\<exists>new. gd_decisions db' = gd_decisions (pruneExpired t db) @ new"
proof (cases "findByIdempotencyKey (pruneExpired t db) (idempotencyKey act)")
  case (Some row)
  then show ?thesis using assms decide_replay by fastforce
next
  case None
  obtain db1 r1 where ev: "gate_evaluate E t act snap price (pruneExpired t db) = (db1, r1)" by fastforce
  note same = anchor_only_frame(1)[OF gate_evaluate_writes[OF ev]]
  show ?thesis
    using assms None ev same
    by (auto simp: decide_def Let_def split: sum.splits dest: persist_frame(1))
qed

lemma decide_state:
  assumes "decide E t act snap price db = (db', r)"
  shows "sd_installation db' = sd_installation db" "sd_switches db' = sd_switches db" "sd_activation db' = sd_activation db"
proof -
  obtain db1 r1 where ev: "gate_evaluate E t act snap price (pruneExpired t db) = (db1, r1)" by fastforce
  note same = anchor_only_frame[OF gate_evaluate_writes[OF ev]]
  show "sd_installation db' = sd_installation db" "sd_switches db' = sd_switches db" "sd_activation db' = sd_activation db"
    using assms ev same
    by (auto simp: decide_def Let_def split: sum.splits option.splits dest: persist_frame)
qed

section \<open>The machine\<close>

datatype gate_event =
    G_decided string "risk_decision result"
  | G_policy bool
  | G_store state_event
  | G_other

text \<open>What the sign-in service may write: the audit trail and its own tables.\<close>

definition sign_in_writes :: "'a gate_db_scheme \<Rightarrow> 'a gate_db_scheme \<Rightarrow> bool" where
  "sign_in_writes db db' \<longleftrightarrow> (\<exists>rows seq c ss ra th. db' = db\<lparr>au_rows := rows, au_seq := seq,
     ad_credential := c, ad_sessions := ss, ad_reauth := ra, ad_throttle := th\<rparr>)"

inductive gate_step :: "gate_env \<Rightarrow> 'a gate_db_scheme \<Rightarrow> gate_event \<times> int \<Rightarrow> 'a gate_db_scheme \<Rightarrow> bool" for E where
  decided: "decide E t act snap price db = (db', r) \<Longrightarrow>
    gate_step E db (G_decided (idempotencyKey act) r, t) db'"
| previewed: "preview E t act snap price db = (db', r) \<Longrightarrow> gate_step E db (G_other, t) db'"
| dispatched: "gate_step E db (G_other, t) (markDispatched t act db)"
| policy_seeded: "policy_initialize t cs db = Inr (db', p) \<Longrightarrow> gate_step E db (G_other, t) db'"
| policy_changed: "updatePolicy E t candidate actor db = Inr (db', p) \<Longrightarrow>
    gate_step E db (G_policy (getMode db = LIVE), t) db'"
| store: "state_step db (ev, t) db' \<Longrightarrow> gate_step E db (G_store ev, t) db'"
| signed_in: "sign_in_writes db db' \<Longrightarrow> gate_step E db (G_other, t) db'"
| ledger_written: "gate_step E db (G_other, t) (db\<lparr>gd_ledger := lg\<rparr>)"

inductive gate_run :: "gate_env \<Rightarrow> 'a gate_db_scheme \<Rightarrow> (gate_event \<times> int) list \<Rightarrow> 'a gate_db_scheme \<Rightarrow> bool" for E where
  gate_start: "gate_run E db [] db"
| gate_next: "gate_run E db tr db1 \<Longrightarrow> gate_step E db1 ev db2 \<Longrightarrow> (\<And>e. e \<in> set tr \<Longrightarrow> snd e \<le> snd ev) \<Longrightarrow>
    gate_run E db (ev # tr) db2"

inductive_cases gate_runE: "gate_run E db (ev # tr) db'"
inductive_cases gate_decidedE: "gate_step E db (G_decided k r, t) db'"

lemma gate_run_split:
  "gate_run E db (post @ ev # pre) db' \<Longrightarrow> \<exists>db1 db2. gate_run E db pre db1 \<and> gate_step E db1 ev db2"
proof (induction post arbitrary: db')
  case Nil
  then have "gate_run E db (ev # pre) db'" by simp
  then show ?case by (rule gate_runE) blast
next
  case (Cons e post)
  then have "gate_run E db (e # (post @ ev # pre)) db'" by simp
  then show ?case by (rule gate_runE) (rule Cons.IH)
qed

text \<open>The sign-in machine only makes \<open>sign_in_writes\<close> steps and steps of the state store.\<close>

lemma sign_in_refl: "sign_in_writes db db"
  unfolding sign_in_writes_def
  by (rule exI[of _ "au_rows db"], rule exI[of _ "au_seq db"], rule exI[of _ "ad_credential db"],
      rule exI[of _ "ad_sessions db"], rule exI[of _ "ad_reauth db"], rule exI[of _ "ad_throttle db"]) simp

lemma updatePolicy_frame:
  assumes "updatePolicy E t candidate actor db = Inr (db', p)"
  shows "gd_decisions db' = gd_decisions db" "gd_policy db' = Some (policy_version db + 1, Some p)"
    "candidate = Some p" "policy_valid p"
proof -
  show "candidate = Some p" "policy_valid p"
    using assms by (auto simp: updatePolicy_def sbind_eq_Inr parseRiskPolicy_def policy_valid_def Let_def
        split: option.splits if_splits)
  show "gd_decisions db' = gd_decisions db" "gd_policy db' = Some (policy_version db + 1, Some p)"
    using assms by (auto simp: updatePolicy_def sbind_eq_Inr on_policy_changed_def policy_write_def
        revertToPaper_def setMode_def resetChecklist_def audit_append_def Let_def split: if_splits)
qed

lemma state_step_decisions: "state_step db ev db' \<Longrightarrow> gd_decisions (db' :: 'a gate_db_scheme) = gd_decisions db"
  using state_step_auth[of db ev db'] by (cases db; cases db') simp

text \<open>A stored decision stays the one its key finds until it expires.\<close>

lemma decision_kept:
  assumes "gate_step E db ev db'" "findByIdempotencyKey db k = Some r" "snd ev \<le> dr_expiresAt r"
  shows "findByIdempotencyKey db' k = Some r"
  using assms(1)
proof cases
  case (decided t act snap price r')
  obtain new where "gd_decisions db' = gd_decisions (pruneExpired t db) @ new"
    using decide_decisions[OF decided(2)] by blast
  moreover have "findByIdempotencyKey (pruneExpired t db) k = Some r"
    using assms(2,3) decided(1) by (intro find_prune) simp_all
  ultimately show ?thesis by (simp add: findByIdempotencyKey_def find_append)
next
  case (previewed t act snap price r')
  then have "gd_decisions db' = gd_decisions db"
    using anchor_only_frame(1)[OF gate_evaluate_writes] by (auto simp: preview_def)
  then show ?thesis using assms(2) by (simp add: findByIdempotencyKey_def)
next
  case (policy_changed t candidate actor p)
  show ?thesis
    using assms(2) updatePolicy_frame(1)[OF policy_changed(2)] by (simp add: findByIdempotencyKey_def)
next
  case (store ev t)
  show ?thesis using assms(2) state_step_decisions[OF store(2)] by (simp add: findByIdempotencyKey_def)
qed (use assms(2) in \<open>auto simp: findByIdempotencyKey_def markDispatched_def policy_initialize_def
  policy_write_def audit_append_def sign_in_writes_def split: if_splits option.splits\<close>)

lemma decision_kept_run:
  "gate_run E db tr db' \<Longrightarrow> \<forall>e \<in> set tr. snd e \<le> dr_expiresAt r \<Longrightarrow> findByIdempotencyKey db k = Some r \<Longrightarrow>
   findByIdempotencyKey db' k = Some r"
  by (induction rule: gate_run.induct) (simp_all add: decision_kept)

text \<open>After an allowed decision its row is the one the key finds.\<close>

lemma allowed_is_stored:
  assumes "decide E t act snap price db = (db', Inr d)" "allowed d"
  obtains r where "findByIdempotencyKey db' (idempotencyKey act) = Some r" "dr_decision r = d"
    "dr_expiresAt r = t + DECISION_RETENTION_MS"
proof -
  have none: "findByIdempotencyKey (pruneExpired t db) (idempotencyKey act) = None"
    using assms decide_replay by (cases "findByIdempotencyKey (pruneExpired t db) (idempotencyKey act)") fastforce+
  obtain db1 where ev: "gate_evaluate E t act snap price (pruneExpired t db) = (db1, Inr d)"
    and pe: "persist t act snap d db1 = Inr db'"
    using decide_fresh[OF assms(1) none] by blast
  have "findByIdempotencyKey db1 (idempotencyKey act) = None"
    using none anchor_only_frame(1)[OF gate_evaluate_writes[OF ev]] by (simp add: findByIdempotencyKey_def)
  then show ?thesis
    using that persist_frame(1)[OF pe] by (simp add: findByIdempotencyKey_def find_append)
qed

lemma gate_run_suffix:
  "gate_run E db (post @ tr) db' \<Longrightarrow> \<exists>db1. gate_run E db tr db1 \<and> gate_run E db1 post db'"
proof (induction post arbitrary: db')
  case Nil
  then show ?case by (auto intro: gate_start)
next
  case (Cons e post)
  then have "gate_run E db (e # (post @ tr)) db'" by simp
  then show ?case
  proof (rule gate_runE)
    fix db1 assume s: "gate_run E db (post @ tr) db1" "gate_step E db1 e db'"
      and clock: "\<And>f. f \<in> set (post @ tr) \<Longrightarrow> snd f \<le> snd e"
    obtain db2 where "gate_run E db tr db2" "gate_run E db2 post db1" using Cons.IH[OF s(1)] by blast
    moreover have "gate_run E db2 (e # post) db'"
      by (rule gate_next[OF calculation(2) s(2)]) (use clock in auto)
    ultimately show ?thesis by blast
  qed
qed

text \<open>C19. The same intent executes at most once a day: after an action was allowed, any proposal with
  the same idempotency key that is decided within the next 24 hours, whatever happens in between, is
  rejected as a duplicate of that decision.\<close>

theorem one_allowed_per_intent:
  assumes "gate_run E db0 (post @ (G_decided k (Inr d2), t2) # mid @ (G_decided k (Inr d1), t1) # pre) db"
    and "allowed d1" "t2 \<le> t1 + DECISION_RETENTION_MS"
  shows "\<not> allowed d2 \<and> d_code d2 = Some DUPLICATE_ACTION \<and> replayOf d2 = Some (d_actionId d1)"
proof -
  let ?second = "(G_decided k (Inr d2), t2)" and ?first = "(G_decided k (Inr d1), t1)"
  obtain db4 where "gate_run E db0 (?second # mid @ ?first # pre) db4" using gate_run_suffix[OF assms(1)] by blast
  then obtain db3 where run: "gate_run E db0 (mid @ ?first # pre) db3" and step2: "gate_step E db3 ?second db4"
    and clock: "\<And>e. e \<in> set (mid @ ?first # pre) \<Longrightarrow> snd e \<le> t2"
    by (rule gate_runE) auto
  obtain db2 where "gate_run E db0 (?first # pre) db2" and mid: "gate_run E db2 mid db3"
    using gate_run_suffix[OF run] by blast
  then obtain db1 where "gate_step E db1 ?first db2" by (auto elim: gate_runE)
  then obtain act1 snap1 price1 where k1: "k = idempotencyKey act1"
    and dec1: "decide E t1 act1 snap1 price1 db1 = (db2, Inr d1)" by (rule gate_decidedE) auto
  obtain act2 snap2 price2 where k2: "k = idempotencyKey act2"
    and dec2: "decide E t2 act2 snap2 price2 db3 = (db4, Inr d2)" using step2 by (rule gate_decidedE) auto
  obtain r where r: "findByIdempotencyKey db2 k = Some r" "dr_decision r = d1"
    "dr_expiresAt r = t1 + DECISION_RETENTION_MS"
    using allowed_is_stored[OF dec1 assms(2)] k1 by metis
  have "findByIdempotencyKey db3 k = Some r"
    by (rule decision_kept_run[OF mid _ r(1)]) (use clock assms(3) r(3) in fastforce)
  then have "findByIdempotencyKey (pruneExpired t2 db3) k = Some r"
    using assms(3) r(3) by (intro find_prune) simp_all
  then have "d2 = replay_decision t2 act2 d1" using decide_replay dec2 k2 r(2) by fastforce
  then show ?thesis by (simp add: replay_decision_def)
qed

section \<open>LIVE decisions rest on an earned activation\<close>

text \<open>The state-store events of a trace: a policy change in LIVE mode reverts to PAPER.\<close>

fun store_events :: "(gate_event \<times> int) list \<Rightarrow> (state_event \<times> int) list" where
  "store_events [] = []"
| "store_events ((e, t) # tr) = (case e of
     G_store ev \<Rightarrow> (ev, t) # store_events tr
   | G_policy demoted \<Rightarrow> (if demoted then (Went_paper, t) # store_events tr else store_events tr)
   | _ \<Rightarrow> store_events tr)"

text \<open>The activation a trace is LIVE under, with nothing since that demotes or changes the policy.\<close>

fun gate_live_since :: "(gate_event \<times> int) list \<Rightarrow> (int \<times> (gate_event \<times> int) list) option" where
  "gate_live_since [] = None"
| "gate_live_since ((e, t) # tr) = (case e of
     G_store ev \<Rightarrow> if ev = Went_live then Some (t, tr) else if demotes ev then None else gate_live_since tr
   | G_policy _ \<Rightarrow> None
   | _ \<Rightarrow> gate_live_since tr)"

definition gate_inv :: "(gate_event \<times> int) list \<Rightarrow> 'a gate_db_scheme \<Rightarrow> bool" where
  "gate_inv tr db \<longleftrightarrow> trace_inv (store_events tr) db \<and>
     (getMode db = LIVE \<longrightarrow> (\<exists>t pre. gate_live_since tr = Some (t, pre) \<and>
        live_since (store_events tr) = Some (t, store_events pre)))"

definition same_state :: "'a state_db_scheme \<Rightarrow> 'a state_db_scheme \<Rightarrow> bool" where
  "same_state db db' \<longleftrightarrow> sd_installation db' = sd_installation db \<and> sd_switches db' = sd_switches db \<and>
     sd_activation db' = sd_activation db"

lemma same_state_reads:
  assumes "same_state db db'"
  shows "getMode db' = getMode db" "stamps db' = stamps db" "stopped db' = stopped db" "activated db' = activated db"
    "trace_inv tr db' = trace_inv tr db"
  using assms
  by (simp_all add: same_state_def getMode_def stamps_def stopped_def getSwitches_def activated_def fun_eq_iff trace_inv_def)

lemma gate_inv_same:
  "gate_inv tr db \<Longrightarrow> same_state db db' \<Longrightarrow> store_events (ev # tr) = store_events tr \<Longrightarrow>
   gate_live_since (ev # tr) = gate_live_since tr \<Longrightarrow> gate_inv (ev # tr) db'"
  by (simp add: gate_inv_def same_state_reads)

lemma updatePolicy_state:
  assumes "updatePolicy E t candidate actor db = Inr (db', p)"
  shows "if getMode db = LIVE then \<exists>db1. same_state db db1 \<and> state_step db1 (Went_paper, t) db' else same_state db db'"
proof -
  let ?db1 = "audit_append t (audit_event_of Cat_risk ''policy.updated'' Au_ok ''Risk policy updated'' actor None)
    (policy_write p (policy_version db + 1) db)"
  have same: "same_state db ?db1" by (simp add: same_state_def policy_write_def audit_append_def)
  have db': "db' = on_policy_changed t ?db1"
    using assms by (auto simp: updatePolicy_def sbind_eq_Inr split: if_splits)
  show ?thesis
  proof (cases "getMode db = LIVE")
    case True
    then have "db' = fst (revertToPaper t ''system'' ''risk policy changed'' ?db1)"
      using db' same_state_reads(1)[OF same] by (simp add: on_policy_changed_def)
    then have "revertToPaper t ''system'' ''risk policy changed'' ?db1 =
        (db', snd (revertToPaper t ''system'' ''risk policy changed'' ?db1))" by simp
    then have "state_step ?db1 (Went_paper, t) db'" by (rule state_step.paper)
    with same True show ?thesis by auto
  next
    case False
    then show ?thesis using db' same same_state_reads(1)[OF same] by (simp add: on_policy_changed_def)
  qed
qed

lemma gate_inv_store:
  assumes "gate_inv tr db" "state_step db (ev, t) db'"
  shows "gate_inv ((G_store ev, t) # tr) db'"
proof -
  have inv: "trace_inv ((ev, t) # store_events tr) db'"
    using assms trace_inv_step by (auto simp: gate_inv_def)
  have "\<exists>t' pre. gate_live_since ((G_store ev, t) # tr) = Some (t', pre) \<and>
      live_since ((ev, t) # store_events tr) = Some (t', store_events pre)" if m: "getMode db' = LIVE"
  proof (cases "ev = Went_live")
    case False
    obtain t' pre where l: "live_since ((ev, t) # store_events tr) = Some (t', pre)"
      using inv m by (auto simp: trace_inv_def)
    then have d: "\<not> demotes ev" using False by (auto split: if_splits)
    have "getMode db = LIVE"
      using assms(2) m d False
      by cases (auto simp: boot_effect config_effect pause_effect emergency_effect
          dest: create_effect(1,2) record_effect(1) paper_effect(1) split: if_splits)
    then show ?thesis using assms(1) False d by (auto simp: gate_inv_def)
  qed simp
  with inv show ?thesis by (simp add: gate_inv_def)
qed

lemma gate_inv_step:
  assumes "gate_inv tr db" "gate_step E db ev db'"
  shows "gate_inv (ev # tr) db'"
  using assms(2)
proof cases
  case (decided t act snap price r)
  then show ?thesis
    using decide_state[OF decided(2)] by (intro gate_inv_same[OF assms(1)]) (simp_all add: same_state_def)
next
  case (previewed t act snap price r)
  then have "gate_evaluate E t act snap price db = (db', r)" by (simp add: preview_def)
  from anchor_only_frame[OF gate_evaluate_writes[OF this]] previewed(1) show ?thesis
    by (intro gate_inv_same[OF assms(1)]) (simp_all add: same_state_def)
next
  case (policy_changed t candidate actor p)
  note u = updatePolicy_state[OF policy_changed(2)]
  show ?thesis
  proof (cases "getMode db = LIVE")
    case True
    then obtain db1 where "same_state db db1" "state_step db1 (Went_paper, t) db'" using u by auto
    then have "trace_inv ((Went_paper, t) # store_events tr) db'" "getMode db' = PAPER"
      using assms(1) trace_inv_step[of "store_events tr" db1 "(Went_paper, t)" db']
      by (auto simp: gate_inv_def same_state_reads elim!: paperE dest: paper_effect(1))
    then show ?thesis using True policy_changed(1) by (simp add: gate_inv_def)
  next
    case False
    then have "same_state db db'" using u by simp
    then show ?thesis using assms(1) False policy_changed(1) by (simp add: gate_inv_def same_state_reads)
  qed
next
  case (store ev t)
  then show ?thesis using gate_inv_store[OF assms(1)] by simp
qed (intro gate_inv_same[OF assms(1)];
  (auto simp: same_state_def markDispatched_def policy_initialize_def policy_write_def audit_append_def
     sign_in_writes_def split: if_splits option.splits; fail))+

lemma gate_inv_run: "gate_run E db0 tr db \<Longrightarrow> fresh_install db0 \<Longrightarrow> gate_inv tr db"
  by (induction rule: gate_run.induct)
    (simp_all add: gate_inv_step, simp add: gate_inv_def trace_inv_start fresh_install_def getMode_def)

text \<open>C2. An allowed LIVE action rests on an activation the operator earned. Whatever ran before, if the
  gate allows a LIVE action then the runtime went live less than twelve hours ago, after all six checklist
  steps were walked in the ten minutes before it; since then nothing demoted it, no restart happened and
  the risk policy was not changed; neither switch is engaged; and the stored policy is valid and carries
  no stop or pause of its own.\<close>

theorem allowed_live_is_earned:
  assumes "gate_run E db0 tr db" "fresh_install db0"
    and "decide E t act snap price db = (db', Inr d)" "allowed d" "a_mode act = LIVE"
  shows "\<exists>t0 pre p. gate_live_since tr = Some (t0, pre) \<and> walked (store_events pre) t0 \<and>
    t < t0 + LIVE_SESSION_TTL_MS \<and> \<not> stopped db \<and> \<not> paused_now db \<and>
    policy_get E db = Inr p \<and> \<not> pol_emergencyStop p \<and> \<not> pol_globalPause p"
proof -
  have none: "findByIdempotencyKey (pruneExpired t db) (idempotencyKey act) = None"
    using assms(3,4) decide_replay by (cases "findByIdempotencyKey (pruneExpired t db) (idempotencyKey act)") fastforce+
  obtain db1 where ev: "gate_evaluate E t act snap price (pruneExpired t db) = (db1, Inr d)"
    using decide_fresh[OF assms(3) none] by blast
  note frame = anchor_only_frame[OF gate_evaluate_writes[OF ev]]
  have same: "same_state db db1" using frame by (simp add: same_state_def)
  obtain p lg where p: "policy_get E (pruneExpired t db) = Inr p"
    and e: "evaluate (ge_externals E) \<lparr>now = t, policy = p, policyHash = ge_policyHash E p, action = act,
       state = toRiskState db1 t t (Some (gd_cooldowns db1)) (gd_lastAny db1) (Some lg), snapshot = snap\<rparr> = Inr d"
    (is "evaluate _ ?inp = _")
    using gate_evaluate_reads[OF ev] frame by metis
  have pol: "policy_get E db = Inr p" using p by (simp add: policy_get_def)
  obtain "is" cs drv where i: "schema_parse (ge_externals E) (action ?inp) = Inr is"
    "\<not> checksFailed (tier0 (ge_externals E) is ?inp)"
    using evaluate_allowedE[OF e assms(4)] by metis
  note t0 = tier0_passed[OF i(2,1)]
  have switches: "\<not> stopped db" "\<not> paused_now db" "\<not> pol_emergencyStop p" "\<not> pol_globalPause p"
    using t0(5,6) same
    by (auto simp: emergencyOf_def pausedOf_def toRiskState_def stopped_def paused_now_def getSwitches_def
        same_state_def Let_def)
  have live: "getMode db1 = LIVE" using t0(7) assms(5) by (simp add: toRiskState_def Let_def)
  then obtain s where s: "gate_live_since tr = Some s" and inv: "trace_inv (store_events tr) db"
    "live_since (store_events tr) = Some (fst s, store_events (snd s))"
    using gate_inv_run[OF assms(1,2)] same_state_reads(1)[OF same] by (auto simp: gate_inv_def)
  have w: "walked (store_events (snd s)) (fst s)" "activated db = Some (fst s)"
    using inv live same_state_reads(1)[OF same] by (auto simp: trace_inv_def)
  have "t < fst s + LIVE_SESSION_TTL_MS"
    using t0(8) live assms(5) same_state_reads(4)[OF same] w(2)
    by (auto simp: liveOk_def toRiskState_def getActivation_def activated_def Let_def split: option.splits)
  then show ?thesis using s w(1) switches pol by (cases s) auto
qed

section \<open>Policy updates and previews\<close>

text \<open>A policy update is all or nothing. It goes through exactly when the candidate passes the whole
  validation and what is stored, if anything, does too; then the new policy is the one in force, the
  version is one higher, every decision already made is kept and the runtime is in PAPER mode, with the
  activation checklist to be walked again if it was LIVE. Otherwise it raises and, as every update raises
  before it writes, the old limits stay.\<close>

theorem policy_update_atomic:
  "(returns (updatePolicy E t candidate actor db) \<longleftrightarrow>
      (\<exists>p. candidate = Some p \<and> returns (parseRiskPolicy (ge_aborts E) p)) \<and>
      (gd_policy db = None \<or> returns (policy_get E db))) \<and>
   (\<forall>db' p. updatePolicy E t candidate actor db = Inr (db', p) \<longrightarrow> candidate = Some p \<and> policy_valid p \<and>
      policy_get E db' = Inr p \<and> policy_version db' = policy_version db + 1 \<and>
      gd_decisions db' = gd_decisions db \<and> getMode db' = PAPER \<and>
      (getMode db = LIVE \<longrightarrow> stamps db' = Map.empty))"
proof (intro conjI allI impI)
  show "returns (updatePolicy E t candidate actor db) \<longleftrightarrow>
      (\<exists>p. candidate = Some p \<and> returns (parseRiskPolicy (ge_aborts E) p)) \<and>
      (gd_policy db = None \<or> returns (policy_get E db))"
    by (auto simp: updatePolicy_def returns_def sbind_eq_Inr policy_exists_def split: option.splits)
next
  fix db' p assume u: "updatePolicy E t candidate actor db = Inr (db', p)"
  note f = updatePolicy_frame[OF u]
  show "candidate = Some p" "policy_valid p" "gd_decisions db' = gd_decisions db"
    "policy_version db' = policy_version db + 1"
    using f by (simp_all add: policy_version_def)
  have "parseRiskPolicy (ge_aborts E) p = Inr p"
    using f(4) by (simp add: parseRiskPolicy_def policy_valid_def Let_def)
  then show "policy_get E db' = Inr p" by (simp add: policy_get_def f(2))
  note s = updatePolicy_state[OF u]
  show "getMode db' = PAPER"
    using s by (cases "getMode db") (auto simp: same_state_reads elim!: paperE dest: paper_effect(1))
  show "stamps db' = Map.empty" if "getMode db = LIVE"
    using s that by (auto elim!: paperE dest: paper_effect(4))
qed

text \<open>A preview decides nothing, but it is not without effect: it leaves every table alone except that
  the first evaluation of a day that can price every position, a preview included, writes that day's
  unrealized P&L as the anchor the day's loss is measured from.\<close>

theorem preview_writes_only_anchor:
  assumes "preview E t act snap price db = (db', r)"
  shows "db' = db\<lparr>gd_ledger := gd_ledger db'\<rparr> \<and> (gd_ledger db' = gd_ledger db \<or>
    (\<exists>v. db_days (gd_ledger db) (a_mode act, dayStart t) = None \<and> gd_ledger db' =
       (gd_ledger db)\<lparr>db_days := (db_days (gd_ledger db))((a_mode act, dayStart t) \<mapsto> v)\<rparr>))"
proof -
  have "anchor_only (a_mode act) t db db'" using assms by (auto simp: preview_def dest: gate_evaluate_writes)
  then show ?thesis by (auto simp: anchor_only_def)
qed

end
