(* ===== verification/Gate_Fixtures.thy ===== *)
theory Gate_Fixtures
  imports Gate_Props Risk_Fixtures
begin

text \<open>
  A concrete run of the gate: a fresh installation with the sample policy is started, set up, walks the
  activation checklist, goes live and allows the sample swap in LIVE mode. The witnesses of the gate's
  properties apply the properties to it.
\<close>

definition sample_env :: gate_env where
  "sample_env = \<lparr>ge_externals = sample_externals, ge_aborts = (\<lambda>_. False), ge_policyHash = (\<lambda>_. ''hash'')\<rparr>"

definition empty_ledger :: ledger_db where
  "empty_ledger = \<lparr>db_positions = [], db_fills = [], db_lp_pnl = [], db_paper = [], db_days = Map.empty\<rparr>"

definition sample_gate_db :: gate_db where
  "sample_gate_db = \<lparr>au_rows = [], au_seq = 0, sd_installation = None, sd_switches = None, sd_activation = None,
     sd_hooks = [], ad_credential = None, ad_sessions = [], ad_reauth = [], ad_throttle = None,
     gd_policy = Some (1, Some sample_policy), gd_decisions = [], gd_cooldowns = Map.empty, gd_lastAny = None,
     gd_ledger = empty_ledger\<rparr>"

definition sample_live_action :: proposed_action where
  "sample_live_action = sample_action\<lparr>a_mode := LIVE\<rparr>"

definition live_ledger :: risk_ledger where
  "live_ledger = \<lparr>dayStartUtcMs = dayStart NOW, deployedUsd = ''0.000000'', realizedPnlTodayUsd = ''0.000000'',
     unrealizedPnlUsd = ''0.000000'', unrealizedPnlAtDayStartUsd = ''0.000000'', positions = [], lpRebalancesToday = Map.empty\<rparr>"

definition live_state :: runtime_state where
  "live_state = \<lparr>st_mode = LIVE, emergency_active = False, emergency_reason = None, st_globalPause = False,
     activation = Act_LIVE, liveSession = Some (NOW - 200000, NOW - 200000 + LIVE_SESSION_TTL_MS),
     cooldowns = Map.empty, lastAnyActionAt = None, ledger = live_ledger\<rparr>"

definition live_input :: risk_input where
  "live_input = \<lparr>now = NOW, policy = sample_policy, policyHash = ''hash'', action = sample_live_action,
     state = live_state, snapshot = sample_snapshot\<rparr>"

lemma live_passes_tier0: "passes_tier0 live_input"
  by code_simp

lemma live_passes_rest: "passes_rest live_input"
  by code_simp

lemma live_allowed: "case evaluate sample_externals live_input of Inl _ \<Rightarrow> False | Inr d \<Rightarrow> allowed d"
  by (rule passes_allowed [OF live_passes_tier0 live_passes_rest]) simp

lemma sample_policy_parses: "parseRiskPolicy (\<lambda>_. False) sample_policy = Inr sample_policy"
proof -
  have "returns (parseRiskPolicy (\<lambda>_. False) sample_policy)" by code_simp
  then show ?thesis by (auto simp: returns_def parseRiskPolicy_def Let_def sbind_eq_Inr split: if_splits)
qed

lemma zero_usd: "microsToUsd 0 = ''0.000000''" "usdToMicros ''0.000000'' = Inr 0"
  by code_simp+

lemma live_ledger_anchor:
  "\<exists>lg'. toRiskLedger empty_ledger NOW LIVE (\<lambda>_ _. None) NOW = Inr (lg', live_ledger) \<and>
     db_days lg' (LIVE, dayStart NOW) \<noteq> None"
  by (simp add: toRiskLedger_def mark_def listPositions_def realizedPnlToday_def empty_ledger_def
      live_ledger_def zero_usd recordDayStart_def)

lemma sample_env_sel [simp]: "ge_externals sample_env = sample_externals" "ge_aborts sample_env = (\<lambda>_. False)"
  "ge_policyHash sample_env p = ''hash''"
  by (simp_all add: sample_env_def)

lemma sample_gate_ledger [simp]: "gd_ledger sample_gate_db = empty_ledger"
  by (simp add: sample_gate_db_def)

lemma sample_gate_decisions [simp]: "gd_decisions sample_gate_db = []"
  by (simp add: sample_gate_db_def)

section \<open>The run\<close>

definition gate_walk :: "gate_db \<Rightarrow> gate_db" where
  "gate_walk db = foldl (\<lambda>d s. fst (recordActivationStep (NOW - 300000) s ''operator'' d)) db STEP_COLUMNS"

definition gate_start_db :: "gate_db result" where
  "gate_start_db = createInstallation (NOW - 400000) ''i'' ''n'' [Base] (bootState (NOW - 500000) sample_gate_db)"

lemmas gate_run_defs = gate_start_db_def gate_walk_def STEP_COLUMNS_def createInstallation_def getInstallation_def
  recordActivationStep_def activateLive_def getActivation_def step_fresh_def bootState_def demoteOnBoot_def
  ensureRows_def sample_gate_db_def ACTIVATION_STEP_TTL_MS_def state_defs

lemma gate_live_runs:
  obtains db0 db inst where "gate_start_db = Inr db0"
    "activateLive (NOW - 200000) ''operator'' (gate_walk db0) = Inr (db, inst)"
    "gd_policy db = Some (1, Some sample_policy)" "gd_decisions db = []" "gd_ledger db = empty_ledger"
    "toRiskState db NOW NOW (Some (gd_cooldowns db)) (gd_lastAny db) (Some live_ledger) = live_state"
proof -
  obtain db0 where 0: "gate_start_db = Inr db0"
    by (simp add: gate_run_defs)
  have "\<exists>r. activateLive (NOW - 200000) ''operator'' (gate_walk db0) = Inr r"
    using 0 by (auto simp: gate_run_defs)
  then obtain db inst where 1: "activateLive (NOW - 200000) ''operator'' (gate_walk db0) = Inr (db, inst)" by auto
  have "gd_policy db = Some (1, Some sample_policy)" "gd_decisions db = []" "gd_ledger db = empty_ledger"
    using 0 1 by (auto simp: gate_run_defs)
  moreover have "toRiskState db NOW NOW (Some (gd_cooldowns db)) (gd_lastAny db) (Some live_ledger) = live_state"
    using 0 1 by (auto simp: gate_run_defs toRiskState_def live_state_def)
  ultimately show ?thesis using that 0 1 by blast
qed

definition live_trace :: "(gate_event \<times> int) list" where
  "live_trace = (G_store Went_live, NOW - 200000) #
     map (\<lambda>s. (G_store (Recorded s), NOW - 300000)) (rev STEP_COLUMNS) @
     [(G_store Created, NOW - 400000), (G_store Booted, NOW - 500000)]"

lemma gate_run_walk: "gate_run E db tr db1 \<Longrightarrow> \<forall>e \<in> set tr. snd e \<le> t \<Longrightarrow>
   gate_run E db (map (\<lambda>s. (G_store (Recorded s), t)) (rev ss) @ tr)
     (foldl (\<lambda>d s. fst (recordActivationStep t s actor d)) db1 ss)"
proof (induction ss arbitrary: tr db1)
  case (Cons s ss)
  have "state_step db1 (Recorded s, t) (fst (recordActivationStep t s actor db1))"
    by (rule state_step.record_step[of _ _ actor]) (rule surjective_pairing)
  then have "gate_run E db ((G_store (Recorded s), t) # tr) (fst (recordActivationStep t s actor db1))"
    by (rule gate_run.gate_next[OF Cons.prems(1) gate_step.store]) (use Cons.prems(2) in simp)
  from Cons.IH[OF this] Cons.prems(2) show ?case by simp
qed simp

lemma live_trace_run:
  assumes "gate_start_db = Inr db0" "activateLive (NOW - 200000) ''operator'' (gate_walk db0) = Inr (db, inst)"
  shows "gate_run sample_env sample_gate_db live_trace db"
proof -
  have "gate_run sample_env sample_gate_db [(G_store Booted, NOW - 500000)] (bootState (NOW - 500000) sample_gate_db)"
    by (rule gate_run.gate_next[OF gate_run.gate_start gate_step.store[OF state_step.boot]]) simp
  then have "gate_run sample_env sample_gate_db [(G_store Created, NOW - 400000), (G_store Booted, NOW - 500000)] db0"
    by (rule gate_run.gate_next[OF _ gate_step.store[OF state_step.create[OF assms(1)[unfolded gate_start_db_def]]]]) simp
  from gate_run_walk[OF this, of "NOW - 300000" STEP_COLUMNS "''operator''"]
  have "gate_run sample_env sample_gate_db (map (\<lambda>s. (G_store (Recorded s), NOW - 300000)) (rev STEP_COLUMNS) @
      [(G_store Created, NOW - 400000), (G_store Booted, NOW - 500000)]) (gate_walk db0)"
    by (simp add: gate_walk_def)
  then show ?thesis
    unfolding live_trace_def
    by (rule gate_run.gate_next[OF _ gate_step.store[OF state_step.live[OF assms(2)]]]) auto
qed

text \<open>The gate allows the sample swap in LIVE mode, and stores the decision.\<close>

lemma live_decided:
  obtains db db' d where "gate_run sample_env sample_gate_db live_trace db"
    "decide sample_env NOW sample_live_action sample_snapshot (\<lambda>_ _. None) db = (db', Inr d)" "allowed d"
    "gd_policy db = Some (1, Some sample_policy)"
proof -
  obtain db0 db inst where s: "gate_start_db = Inr db0"
    and l: "activateLive (NOW - 200000) ''operator'' (gate_walk db0) = Inr (db, inst)"
    and f: "gd_policy db = Some (1, Some sample_policy)" "gd_decisions db = []" "gd_ledger db = empty_ledger"
    and st: "toRiskState db NOW NOW (Some (gd_cooldowns db)) (gd_lastAny db) (Some live_ledger) = live_state"
    by (rule gate_live_runs) blast
  obtain d where d: "evaluate sample_externals live_input = Inr d" "allowed d"
    using live_allowed by (auto split: sum.splits)
  obtain lg' where lg: "toRiskLedger empty_ledger NOW LIVE (\<lambda>_ _. None) NOW = Inr (lg', live_ledger)"
    using live_ledger_anchor by blast
  have m: "a_mode sample_live_action = LIVE" by (simp add: sample_live_action_def)
  have p: "policy_getWithHash sample_env db = Inr (sample_policy, ''hash'')"
    by (simp add: policy_getWithHash_def policy_get_def f(1) sample_env_def sample_policy_parses)
  have prune: "pruneExpired NOW db = db" using f(2) by (simp add: pruneExpired_def)
  have st': "toRiskState (db\<lparr>gd_ledger := lg'\<rparr>) NOW NOW (Some (gd_cooldowns db)) (gd_lastAny db) (Some live_ledger) = live_state"
    using st by (simp add: toRiskState_def getSwitches_def getActivation_def getMode_def)
  have "gate_evaluate sample_env NOW sample_live_action sample_snapshot (\<lambda>_ _. None) db = (db\<lparr>gd_ledger := lg'\<rparr>, Inr d)"
    using d(1) by (simp add: gate_evaluate_def p runtimeState_def m f(3) lg st' live_input_def sample_env_sel(1))
  then have "decide sample_env NOW sample_live_action sample_snapshot (\<lambda>_ _. None) db =
      (case persist NOW sample_live_action sample_snapshot d (db\<lparr>gd_ledger := lg'\<rparr>) of
         Inl e \<Rightarrow> (db\<lparr>gd_ledger := lg'\<rparr>, Inl e) | Inr db \<Rightarrow> (db, Inr d))"
    by (simp add: decide_def prune findByIdempotencyKey_def f(2))
  moreover have "\<exists>db'. persist NOW sample_live_action sample_snapshot d (db\<lparr>gd_ledger := lg'\<rparr>) = Inr db'"
    by (simp add: persist_def f(2))
  ultimately obtain db' where
    "decide sample_env NOW sample_live_action sample_snapshot (\<lambda>_ _. None) db = (db', Inr d)" by auto
  then show ?thesis using that live_trace_run[OF s l] d(2) f(1) by blast
qed

section \<open>Witnesses\<close>

theorem allowed_live_is_earned_witness:
  "\<exists>db db' d. gate_run sample_env sample_gate_db live_trace db \<and>
     decide sample_env NOW sample_live_action sample_snapshot (\<lambda>_ _. None) db = (db', Inr d) \<and> allowed d \<and>
     \<not> stopped db \<and> NOW < NOW - 200000 + LIVE_SESSION_TTL_MS"
proof -
  obtain db db' d where r: "gate_run sample_env sample_gate_db live_trace db"
    and d: "decide sample_env NOW sample_live_action sample_snapshot (\<lambda>_ _. None) db = (db', Inr d)" "allowed d"
    by (rule live_decided)
  have "fresh_install sample_gate_db" by (simp add: fresh_install_def sample_gate_db_def)
  from allowed_live_is_earned[OF r this d] have "\<not> stopped db \<and> NOW < NOW - 200000 + LIVE_SESSION_TTL_MS"
    by (auto simp: sample_live_action_def live_trace_def)
  with r d show ?thesis by blast
qed

theorem one_allowed_per_intent_witness:
  "\<exists>db d1 d2. gate_run sample_env sample_gate_db
     ([] @ (G_decided (idempotencyKey sample_live_action) (Inr d2), NOW + 1000) #
      [] @ (G_decided (idempotencyKey sample_live_action) (Inr d1), NOW) # live_trace) db \<and>
     allowed d1 \<and> d_code d2 = Some DUPLICATE_ACTION"
proof -
  obtain db db' d where r: "gate_run sample_env sample_gate_db live_trace db"
    and d: "decide sample_env NOW sample_live_action sample_snapshot (\<lambda>_ _. None) db = (db', Inr d)" "allowed d"
    by (rule live_decided)
  let ?k = "idempotencyKey sample_live_action"
  obtain row where row: "findByIdempotencyKey db' ?k = Some row" "dr_expiresAt row = NOW + DECISION_RETENTION_MS"
    using allowed_is_stored[OF d] by metis
  have first: "gate_run sample_env sample_gate_db ((G_decided ?k (Inr d), NOW) # live_trace) db'"
    by (rule gate_run.gate_next[OF r gate_step.decided[OF d(1)]]) (auto simp: live_trace_def)
  have "findByIdempotencyKey (pruneExpired (NOW + 1000) db') ?k = Some row"
    using row by (intro find_prune) (simp_all add: DECISION_RETENTION_MS_def)
  note replay = decide_replay[OF this, of sample_env sample_snapshot "\<lambda>_ _. None"]
  have run: "gate_run sample_env sample_gate_db
     ([] @ (G_decided ?k (Inr (replay_decision (NOW + 1000) sample_live_action (dr_decision row))), NOW + 1000) #
      [] @ (G_decided ?k (Inr d), NOW) # live_trace) (pruneExpired (NOW + 1000) db')"
    unfolding append_Nil
    by (rule gate_run.gate_next[OF first gate_step.decided[OF replay]]) (auto simp: live_trace_def)
  from one_allowed_per_intent[OF run d(2)] run d(2) show ?thesis
    by (auto simp: DECISION_RETENTION_MS_def)
qed

theorem policy_update_atomic_witness:
  "\<exists>db p. updatePolicy sample_env NOW (Some sample_policy) ''operator'' sample_gate_db = Inr (db, p) \<and>
     getMode db = PAPER \<and> policy_version db = 2"
proof -
  have "policy_get sample_env sample_gate_db = Inr sample_policy"
    by (simp add: policy_get_def sample_gate_db_def sample_env_def sample_policy_parses)
  then have "returns (updatePolicy sample_env NOW (Some sample_policy) ''operator'' sample_gate_db)"
    using policy_update_atomic[of sample_env NOW "Some sample_policy" "''operator''" sample_gate_db]
    by (simp add: sample_env_def sample_policy_parses returns_def)
  then obtain db p where u: "updatePolicy sample_env NOW (Some sample_policy) ''operator'' sample_gate_db = Inr (db, p)"
    by (auto simp: returns_def)
  have "policy_version sample_gate_db = 1" by (simp add: policy_version_def sample_gate_db_def)
  moreover have "policy_version db = policy_version sample_gate_db + 1" "getMode db = PAPER"
    using policy_update_atomic[of sample_env NOW "Some sample_policy" "''operator''" sample_gate_db] u by blast+
  ultimately show ?thesis using u by (intro exI[of _ db] exI[of _ p]) simp
qed

theorem preview_writes_only_anchor_witness:
  "\<exists>db' r. preview sample_env NOW sample_live_action sample_snapshot (\<lambda>_ _. None) sample_gate_db = (db', r) \<and>
     gd_decisions db' = [] \<and> db_days (gd_ledger db') (LIVE, dayStart NOW) \<noteq> None"
proof -
  define v where "v = preview sample_env NOW sample_live_action sample_snapshot (\<lambda>_ _. None) sample_gate_db"
  obtain db' r where "v = (db', r)" by (cases v)
  then have v: "preview sample_env NOW sample_live_action sample_snapshot (\<lambda>_ _. None) sample_gate_db = (db', r)"
    by (simp only: v_def)
  obtain lg' where lg: "toRiskLedger empty_ledger NOW LIVE (\<lambda>_ _. None) NOW = Inr (lg', live_ledger)"
    "db_days lg' (LIVE, dayStart NOW) \<noteq> None"
    using live_ledger_anchor by blast
  have p: "policy_getWithHash sample_env sample_gate_db = Inr (sample_policy, ''hash'')"
    by (simp add: policy_getWithHash_def policy_get_def sample_gate_db_def sample_env_def sample_policy_parses)
  have "gd_ledger db' = lg'"
    using v lg(1) by (simp add: preview_def gate_evaluate_def p runtimeState_def sample_live_action_def Let_def) auto
  moreover have "gd_decisions db' = []"
    using arg_cong[OF conjunct1[OF preview_writes_only_anchor[OF v]], of gd_decisions] by simp
  ultimately show ?thesis using v lg(2) by blast
qed

end
