(* ===== verification/Calendar.thy ===== *)
theory Calendar
  imports Atra_Prelude
begin

text \<open>
  The UTC calendar as the treasury uses it (\<open>periodOf\<close>, \<open>trailingPeriods\<close> and \<open>monthBounds\<close> of
  \<open>src/runtime/src/treasury/burn.ts\<close>). The first section is the part of ECMAScript's \<open>Date\<close> those
  functions call, with the day and year arithmetic of the language specification; instants are epoch
  milliseconds. The lemmas show that the months partition the time line: an instant lies between the
  bounds of exactly one month.
\<close>

section \<open>Date arithmetic of the language\<close>

definition MS_PER_DAY :: int where "MS_PER_DAY = 86400000"

definition Day :: "int \<Rightarrow> int" where "Day t = t div MS_PER_DAY"

definition DayFromYear :: "int \<Rightarrow> int" where
  "DayFromYear y = 365 * (y - 1970) + (y - 1969) div 4 - (y - 1901) div 100 + (y - 1601) div 400"

definition leap :: "int \<Rightarrow> bool" where
  "leap y \<longleftrightarrow> y mod 4 = 0 \<and> (y mod 100 \<noteq> 0 \<or> y mod 400 = 0)"

lemma div_step: "0 < n \<Longrightarrow> (a + 1) div n = a div n + (if (a + 1) mod n = 0 then 1 else 0)" for a n :: int
proof -
  assume n: "0 < n"
  have 1: "a = n * (a div n) + a mod n" "a + 1 = n * ((a + 1) div n) + (a + 1) mod n" by simp_all
  have 2: "0 \<le> a mod n" "a mod n < n" "0 \<le> (a + 1) mod n" "(a + 1) mod n < n" using n by simp_all
  let ?d = "(a + 1) div n - a div n"
  have e: "n * ?d = 1 + a mod n - (a + 1) mod n" using 1 by (simp add: algebra_simps)
  have "n * ?d < n * 2" "n * (- 1) < n * ?d" using e 2 n by linarith+
  then have "?d < 2" "- 1 < ?d" using n mult_less_cancel_left_pos by blast+
  then consider "?d = 0" | "?d = 1" by linarith
  then show ?thesis
  proof cases
    case 1
    then have "n * ?d = 0" by simp
    with e 2 have "(a + 1) mod n \<noteq> 0" by linarith
    with 1 show ?thesis by simp
  next
    case d1: 2
    then have "n * ?d = n" by simp
    with e 2 have "(a + 1) mod n = 0" by linarith
    with d1 show ?thesis by simp
  qed
qed

lemma shifted_mod: "(y - n * k) mod n = y mod n" for y n k :: int
  using mod_mult_self2 [of y n "- k"] by simp

lemma year_length: "DayFromYear (y + 1) = DayFromYear y + (if leap y then 366 else 365)"
proof -
  have step: "(y + 1 - (n * k + 1)) div n = (y - (n * k + 1)) div n + (if y mod n = 0 then 1 else 0)"
    if "0 < n" for n k :: int
    using div_step [OF that, of "y - (n * k + 1)"] shifted_mod [of y n k] by (simp add: algebra_simps)
  have s4: "(y + 1 - 1969) div 4 = (y - 1969) div 4 + (if y mod 4 = 0 then 1 else 0)"
    using step [of 4 492] by simp
  have s100: "(y + 1 - 1901) div 100 = (y - 1901) div 100 + (if y mod 100 = 0 then 1 else 0)"
    using step [of 100 19] by simp
  have s400: "(y + 1 - 1601) div 400 = (y - 1601) div 400 + (if y mod 400 = 0 then 1 else 0)"
    using step [of 400 4] by simp
  have nested: "y mod 400 = 0 \<Longrightarrow> y mod 100 = 0" "y mod 100 = 0 \<Longrightarrow> y mod 4 = 0"
    unfolding mod_eq_0_iff_dvd by (auto elim: dvd_trans [rotated])
  have gather: "365 * (y + 1 - 1970) + (a + (if p then 1 else 0)) - (b + (if q then 1 else 0)) + (c + (if r then 1 else 0)) =
      365 * (y - 1970) + a - b + c + (if p \<and> (\<not> q \<or> r) then 366 else 365)"
    if "r \<longrightarrow> q" "q \<longrightarrow> p" for a b c :: int and p q r
    using that by (cases p; cases q; cases r) simp_all
  show ?thesis
    unfolding DayFromYear_def leap_def s4 s100 s400
    by (subst gather) (use nested in blast)+
qed

function year_from :: "int \<Rightarrow> int \<Rightarrow> int" where
  "year_from y d = (if DayFromYear (y + 1) \<le> d then year_from (y + 1) d else y)"
  by pat_completeness auto
termination
  by (relation "measure (\<lambda>(y, d). nat (d - DayFromYear y))") (auto simp: year_length split: if_splits)

declare year_from.simps [simp del]

text \<open>The largest year that has begun, found from a year that certainly has.\<close>

definition YearFromTime :: "int \<Rightarrow> int" where
  "YearFromTime t = (let d = Day t in year_from (1970 + (if 0 \<le> d then d div 366 else d div 365)) d)"

definition month_days :: "int list" where
  "month_days = [0, 31, 59, 90, 120, 151, 181, 212, 243, 273, 304, 334]"

definition cumulative :: "bool \<Rightarrow> int \<Rightarrow> int" where
  "cumulative l m = month_days ! nat m + (if l \<and> 2 \<le> m then 1 else 0)"

definition MonthFromTime :: "int \<Rightarrow> int" where
  "MonthFromTime t = (let y = YearFromTime t; d = Day t - DayFromYear y
     in int (length (filter (\<lambda>m. cumulative (leap y) m \<le> d) [1..11])))"

text \<open>\<open>Date.UTC(y, m, 1)\<close>; a month outside 0..11 carries into the year.\<close>

definition month_start :: "int \<Rightarrow> int \<Rightarrow> int" where
  "month_start y m = (let ym = y + m div 12 in
     (DayFromYear ym + cumulative (leap ym) (m mod 12)) * MS_PER_DAY)"

text \<open>\<open>toISOString()\<close>; a year beyond four digits is written with its sign.\<close>

definition pad_int :: "nat \<Rightarrow> int \<Rightarrow> string" where
  "pad_int n i = padStart n CHR ''0'' (int_str i)"

definition iso_year :: "int \<Rightarrow> string" where
  "iso_year y = (if 0 \<le> y \<and> y \<le> 9999 then pad_int 4 y
     else (if y < 0 then ''-'' else ''+'') @ pad_int 6 (abs y))"

definition toISOString :: "int \<Rightarrow> string" where
  "toISOString t = (let y = YearFromTime t; m = MonthFromTime t; r = t mod MS_PER_DAY;
     d = Day t - DayFromYear y - cumulative (leap y) m + 1
   in iso_year y @ ''-'' @ pad_int 2 (m + 1) @ ''-'' @ pad_int 2 d @ ''T'' @
      pad_int 2 (r div 3600000) @ '':'' @ pad_int 2 (r div 60000 mod 60) @ '':'' @
      pad_int 2 (r div 1000 mod 60) @ ''.'' @ pad_int 3 (r mod 1000) @ ''Z'')"

section \<open>Months in the treasury\<close>

definition periodOf :: "int \<Rightarrow> string" where
  "periodOf t = int_str (YearFromTime t) @ ''-'' @ pad_int 2 (MonthFromTime t + 1)"

definition trailingPeriods :: "int \<Rightarrow> int \<Rightarrow> string list" where
  "trailingPeriods t count = map (\<lambda>back. periodOf (month_start (YearFromTime t) (MonthFromTime t - back)))
     (rev [0..count - 1])"

definition monthBounds :: "int \<Rightarrow> int \<times> int" where
  "monthBounds t = (month_start (YearFromTime t) (MonthFromTime t),
     month_start (YearFromTime t) (MonthFromTime t + 1))"

section \<open>The months partition time\<close>

lemma DayFromYear_strict: "y < z \<Longrightarrow> DayFromYear y < DayFromYear z"
proof (induction "nat (z - y)" arbitrary: z)
  case (Suc n)
  show ?case
  proof (cases "y = z - 1")
    case True
    then show ?thesis using year_length [of y] by (auto split: if_splits)
  next
    case False
    with Suc.hyps(2) Suc.prems have "n = nat (z - 1 - y)" "y < z - 1" by linarith+
    from Suc.hyps(1) [OF this] show ?thesis using year_length [of "z - 1"] by (auto split: if_splits)
  qed
qed simp

lemma year_from_bounds:
  "DayFromYear y \<le> d \<Longrightarrow> DayFromYear (year_from y d) \<le> d \<and> d < DayFromYear (year_from y d + 1)"
proof (induction y d rule: year_from.induct)
  case (1 y d)
  show ?case
  proof (cases "DayFromYear (y + 1) \<le> d")
    case True
    with 1 show ?thesis by (simp add: year_from.simps [of y])
  next
    case False
    with 1 show ?thesis by (simp add: year_from.simps [of y])
  qed
qed

lemma year_guess: "DayFromYear (1970 + (if 0 \<le> d then d div 366 else d div 365)) \<le> d"
proof -
  have floor: "n * (a div n) \<le> a \<and> a < n * (a div n) + n" if "0 < n" for a n :: int
    using that by (metis add_le_cancel_left add_strict_left_mono le_add_same_cancel1 mult_div_mod_eq
      pos_mod_bound pos_mod_sign)
  define q where "q = (if 0 \<le> d then d div 366 else d div 365)"
  define a b c where "a = (q + 1) div 4" and "b = (q + 69) div 100" and "c = (q + 369) div 400"
  have 1: "4 * a \<le> q + 1" "q + 69 < 100 * b + 100" "400 * c \<le> q + 369"
    using floor [of 4 "q + 1"] floor [of 100 "q + 69"] floor [of 400 "q + 369"]
    by (simp_all add: a_def b_def c_def)
  have y: "DayFromYear (1970 + q) = 365 * q + (a - b + c)"
    by (simp add: DayFromYear_def a_def b_def c_def algebra_simps)
  show ?thesis
  proof (cases "0 \<le> d")
    case True
    then have q: "0 \<le> q" "366 * q \<le> d" using floor [of 366 d] by (simp_all add: q_def)
    have "c \<le> b" using 1 q by (cases "c \<le> 0") (simp_all add: b_def)
    with 1 q have "a - b + c \<le> q" by linarith
    with q y show ?thesis by (simp add: q_def)
  next
    case False
    then have q: "q \<le> - 1" "365 * q \<le> d" using floor [of 365 d] by (simp_all add: q_def)
    have "a - b + c \<le> 0"
    proof (cases "q = - 1")
      case True
      then show ?thesis by (simp add: a_def b_def c_def)
    next
      case False
      with 1 q show ?thesis by linarith
    qed
    with q y show ?thesis by (simp add: q_def)
  qed
qed

lemma YearFromTime_bounds: "DayFromYear (YearFromTime t) \<le> Day t" "Day t < DayFromYear (YearFromTime t + 1)"
  using year_from_bounds [OF year_guess] by (simp_all add: YearFromTime_def Let_def)

lemma month_cases:
  assumes "0 \<le> m" "m < (12 :: int)"
  shows "m \<in> {0, 1, 2, 3, 4, 5, 6, 7, 8, 9, 10, 11}"
  using assms unfolding insert_iff empty_iff by presburger

lemma cumulative_step: "0 \<le> m \<Longrightarrow> m < 11 \<Longrightarrow> cumulative l m + 28 \<le> cumulative l (m + 1)"
  using month_cases [of m] by (auto simp: cumulative_def month_days_def)

lemma cumulative_bounds: "0 \<le> m \<Longrightarrow> m < 12 \<Longrightarrow> 0 \<le> cumulative l m \<and> cumulative l m + 31 \<le> (if l then 366 else 365)"
  using month_cases [of m] by (auto simp: cumulative_def month_days_def)

lemma cumulative_mono: "0 \<le> m \<Longrightarrow> m < k \<Longrightarrow> k < 12 \<Longrightarrow> cumulative l m + 28 \<le> cumulative l k"
proof (induction "nat (k - m)" arbitrary: k)
  case (Suc n)
  show ?case
  proof (cases "m = k - 1")
    case True
    then show ?thesis using cumulative_step [of m l] Suc.prems by simp
  next
    case False
    with Suc.hyps(2) Suc.prems have "n = nat (k - 1 - m)" "m < k - 1" "k - 1 < 12" by linarith+
    from Suc.hyps(1) [OF this(1) Suc.prems(1) this(2,3)] show ?thesis
      using cumulative_step [of "k - 1" l] Suc.prems by simp
  qed
qed simp

text \<open>The month of an instant: the last one of its year to have begun.\<close>

lemma count_initial:
  fixes f :: "int \<Rightarrow> int" and n d :: int
  assumes "\<And>m k. 1 \<le> m \<Longrightarrow> m < k \<Longrightarrow> k \<le> n \<Longrightarrow> f m < f k" "0 \<le> n"
  defines "c \<equiv> int (length (filter (\<lambda>m. f m \<le> d) [1..n]))"
  shows "0 \<le> c \<and> c \<le> n \<and> (1 \<le> c \<longrightarrow> f c \<le> d) \<and> (c < n \<longrightarrow> d < f (c + 1))"
proof -
  have "nat n = k \<Longrightarrow> 0 \<le> n \<Longrightarrow> (\<And>m k. 1 \<le> m \<Longrightarrow> m < k \<Longrightarrow> k \<le> n \<Longrightarrow> f m < f k) \<Longrightarrow>
    (let c = int (length (filter (\<lambda>m. f m \<le> d) [1..n])) in
       0 \<le> c \<and> c \<le> n \<and> (1 \<le> c \<longrightarrow> f c \<le> d) \<and> (c < n \<longrightarrow> d < f (c + 1)))" for k
  proof (induction k arbitrary: n)
    case 0
    then show ?case by simp
  next
    case (Suc k)
    let ?c = "\<lambda>n. int (length (filter (\<lambda>m. f m \<le> d) [1..n]))"
    have up: "[1..n] = [1..n - 1] @ [n]" using Suc.prems(1) by (simp add: upto_rec2)
    have "nat (n - 1) = k" "0 \<le> n - 1" using Suc.prems(1) by linarith+
    then have IH: "0 \<le> ?c (n - 1)" "?c (n - 1) \<le> n - 1" "1 \<le> ?c (n - 1) \<longrightarrow> f (?c (n - 1)) \<le> d"
      "?c (n - 1) < n - 1 \<longrightarrow> d < f (?c (n - 1) + 1)"
      using Suc.IH [of "n - 1"] Suc.prems(3) by (simp_all add: Let_def)
    show ?case
    proof (cases "f n \<le> d")
      case True
      have "?c (n - 1) = n - 1"
      proof (rule ccontr)
        assume "?c (n - 1) \<noteq> n - 1"
        then have "?c (n - 1) < n - 1" using IH(2) by simp
        then have "d < f (?c (n - 1) + 1)" "f (?c (n - 1) + 1) < f n"
          using IH(1,4) Suc.prems(3) by simp_all
        with True show False by simp
      qed
      then have "?c n = n" using True up by simp
      then show ?thesis using True Suc.prems(2) by (simp add: Let_def)
    next
      case False
      then have "?c n = ?c (n - 1)" using up by simp
      then show ?thesis using IH False by (cases "?c (n - 1) = n - 1") (simp_all add: Let_def)
    qed
  qed
  from this [OF refl assms(2,1)] show ?thesis by (simp add: c_def Let_def)
qed

lemma MonthFromTime_bounds:
  fixes t :: int
  defines "y \<equiv> YearFromTime t"
  shows "0 \<le> MonthFromTime t" "MonthFromTime t \<le> 11"
    "DayFromYear y + cumulative (leap y) (MonthFromTime t) \<le> Day t"
    "MonthFromTime t < 11 \<Longrightarrow> Day t < DayFromYear y + cumulative (leap y) (MonthFromTime t + 1)"
proof -
  note c = count_initial [of 11 "cumulative (leap y)" "Day t - DayFromYear y"]
  have up: "cumulative (leap y) m < cumulative (leap y) k" if "1 \<le> m" "m < k" "k \<le> 11" for m k
    using cumulative_mono [of m k "leap y"] that by linarith
  have m: "MonthFromTime t = int (length (filter (\<lambda>m. cumulative (leap y) m \<le> Day t - DayFromYear y) [1..11]))"
    by (simp add: MonthFromTime_def y_def Let_def)
  have zero: "cumulative (leap y) 0 = 0" by (simp add: cumulative_def month_days_def)
  show "0 \<le> MonthFromTime t" "MonthFromTime t \<le> 11" unfolding m using c up by auto
  show "MonthFromTime t < 11 \<Longrightarrow> Day t < DayFromYear y + cumulative (leap y) (MonthFromTime t + 1)"
    unfolding m using c up by fastforce
  have "1 \<le> MonthFromTime t \<longrightarrow> cumulative (leap y) (MonthFromTime t) \<le> Day t - DayFromYear y"
    unfolding m using c up by auto
  moreover have "DayFromYear y \<le> Day t" by (simp add: y_def YearFromTime_bounds)
  ultimately show "DayFromYear y + cumulative (leap y) (MonthFromTime t) \<le> Day t"
    using zero \<open>0 \<le> MonthFromTime t\<close> by (cases "MonthFromTime t = 0") auto
qed

text \<open>Months numbered through: the month of an instant, and where each one begins.\<close>

definition month_index :: "int \<Rightarrow> int" where
  "month_index t = 12 * YearFromTime t + MonthFromTime t"

lemma month_start_index: "month_start y m = month_start 0 (12 * y + m)"
  by (simp add: month_start_def)

lemma carry: "0 \<le> m \<Longrightarrow> m < 12 \<Longrightarrow> (12 * y + m) div 12 = y" "0 \<le> m \<Longrightarrow> m < 12 \<Longrightarrow> (12 * y + m) mod 12 = m"
  for y m :: int
  by simp_all

lemma month_start_step: "month_start 0 k < month_start 0 (k + 1)"
proof -
  define y m where "y = k div 12" and "m = k mod 12"
  have k: "k = 12 * y + m" "0 \<le> m" "m < 12" by (simp_all add: y_def m_def)
  have "DayFromYear ((k) div 12) + cumulative (leap (k div 12)) (k mod 12)
      < DayFromYear ((k + 1) div 12) + cumulative (leap ((k + 1) div 12)) ((k + 1) mod 12)"
  proof (cases "m = 11")
    case True
    then have "k div 12 = y" "k mod 12 = 11" "(k + 1) div 12 = y + 1" "(k + 1) mod 12 = 0"
      using k by simp_all
    then show ?thesis using year_length [of y] cumulative_bounds [of 11 "leap y"] cumulative_bounds [of 0 "leap (y + 1)"]
      by (simp split: if_splits)
  next
    case False
    then have "k div 12 = y" "k mod 12 = m" "(k + 1) div 12 = y" "(k + 1) mod 12 = m + 1"
      using k carry [of m y] carry [of "m + 1" y] by (simp_all add: add.assoc)
    then show ?thesis using cumulative_mono [of m "m + 1" "leap y"] False k by simp
  qed
  then show ?thesis by (simp add: month_start_def Let_def MS_PER_DAY_def)
qed

lemma month_start_mono: "j < k \<Longrightarrow> month_start 0 j < month_start 0 k"
proof (induction "nat (k - j)" arbitrary: k)
  case (Suc n)
  show ?case
  proof (cases "j = k - 1")
    case True
    then show ?thesis using month_start_step [of j] by simp
  next
    case False
    with Suc.hyps(2) Suc.prems have "n = nat (k - 1 - j)" "j < k - 1" by linarith+
    from Suc.hyps(1) [OF this] show ?thesis using month_start_step [of "k - 1"] by simp
  qed
qed simp

lemma monthBounds_index: "monthBounds t = (month_start 0 (month_index t), month_start 0 (month_index t + 1))"
  by (simp add: monthBounds_def month_index_def month_start_index [of "YearFromTime t"] add.assoc)

lemma month_contains: "month_start 0 (month_index t) \<le> t" "t < month_start 0 (month_index t + 1)"
proof -
  let ?y = "YearFromTime t" and ?m = "MonthFromTime t"
  note b = MonthFromTime_bounds [of t]
  have d: "Day t * MS_PER_DAY \<le> t" "t < (Day t + 1) * MS_PER_DAY"
    by (simp_all add: Day_def MS_PER_DAY_def)
  have i: "(12 * ?y + ?m) div 12 = ?y" "(12 * ?y + ?m) mod 12 = ?m" using b(1,2) by (simp_all add: carry)
  have "(DayFromYear ?y + cumulative (leap ?y) ?m) * MS_PER_DAY \<le> Day t * MS_PER_DAY"
    using b(3) by (simp add: MS_PER_DAY_def)
  with d(1) show "month_start 0 (month_index t) \<le> t"
    unfolding month_start_def month_index_def Let_def add_0 i by linarith
  have "Day t + 1 \<le> DayFromYear ((12 * ?y + ?m + 1) div 12)
      + cumulative (leap ((12 * ?y + ?m + 1) div 12)) ((12 * ?y + ?m + 1) mod 12)"
  proof (cases "?m = 11")
    case True
    then have "12 * ?y + ?m + 1 = 12 * (?y + 1)" by simp
    then have "(12 * ?y + ?m + 1) div 12 = ?y + 1" "(12 * ?y + ?m + 1) mod 12 = 0" by simp_all
    then show ?thesis using YearFromTime_bounds(2) [of t] cumulative_bounds [of 0 "leap (?y + 1)"] by simp
  next
    case False
    then have "(12 * ?y + ?m + 1) div 12 = ?y" "(12 * ?y + ?m + 1) mod 12 = ?m + 1"
      using b(1,2) carry [of "?m + 1" ?y] by (simp_all add: add.assoc)
    then show ?thesis using b(2,4) False by simp
  qed
  then have "(Day t + 1) * MS_PER_DAY \<le> month_start 0 (month_index t + 1)"
    by (simp add: month_start_def month_index_def Let_def MS_PER_DAY_def algebra_simps)
  with d(2) show "t < month_start 0 (month_index t + 1)" by simp
qed

lemma in_month_iff:
  "month_start 0 k \<le> t \<and> t < month_start 0 (k + 1) \<longleftrightarrow> month_index t = k"
proof
  assume k: "month_start 0 k \<le> t \<and> t < month_start 0 (k + 1)"
  note c = month_contains [of t]
  have mono: "j \<le> i" if "month_start 0 j < month_start 0 (i + 1)" for i j
    using month_start_mono [of "i + 1" j] that by (cases "j = i + 1"; cases "j \<le> i") auto
  show "month_index t = k"
    using mono [of "month_index t" k] mono [of k "month_index t"] c k by linarith
qed (use month_contains in blast)

lemma same_month: "fst (monthBounds t) \<le> s \<and> s < snd (monthBounds t) \<longleftrightarrow> month_index s = month_index t"
  by (simp add: monthBounds_index in_month_iff)

lemma month_index_mono: "s \<le> t \<Longrightarrow> month_index s \<le> month_index t"
proof (rule ccontr)
  assume st: "s \<le> t" and "\<not> month_index s \<le> month_index t"
  then have "month_index t + 1 \<le> month_index s" by linarith
  then have "month_start 0 (month_index t + 1) \<le> month_start 0 (month_index s)"
    using month_start_mono [of "month_index t + 1" "month_index s"] by (cases "month_index t + 1 = month_index s") auto
  with month_contains(2) [of t] month_contains(1) [of s] st show False by linarith
qed

end
