(* ===== verification/Treasury_Caps.thy ===== *)
theory Treasury_Caps
  imports Money Registry Calendar
begin

text \<open>
  \<open>src/runtime/src/treasury/types.ts\<close> and \<open>src/runtime/src/treasury/caps.ts\<close>: the treasury's data and
  its cap engine, the pure function that stands between a payment proposal and its approval. Every
  check carries what was observed and the limit, as the code reports them. The last section shows
  what an allowing decision means and that the report always has the same twelve checks.
\<close>

section \<open>Types\<close>

datatype provider_category = Pc_rpc | Pc_hosting | Pc_data | Pc_model | Pc_domain | Pc_security | Pc_other
datatype billing_mode = On_chain | Card | Invoice | Manual_billing
datatype proposal_status = Proposed | Approved | Rejected | Exported | Cancelled
datatype proposal_source = Src_admin | Src_agent
datatype cap_stage = Propose | Approve_stage | Export_stage

fun billing_str :: "billing_mode \<Rightarrow> string" where
  "billing_str On_chain = ''on-chain''"
| "billing_str Card = ''card''"
| "billing_str Invoice = ''invoice''"
| "billing_str Manual_billing = ''manual''"

fun status_str :: "proposal_status \<Rightarrow> string" where
  "status_str Proposed = ''proposed''"
| "status_str Approved = ''approved''"
| "status_str Rejected = ''rejected''"
| "status_str Exported = ''exported''"
| "status_str Cancelled = ''cancelled''"

record treasury_caps =
  lowBalanceThresholdUsd :: string
  perPaymentCapUsd :: string
  monthlyCapUsd :: string
  approvalThresholdUsd :: string

record treasury_provider =
  pv_id :: string
  pv_name :: string
  pv_category :: provider_category
  pv_billingMode :: billing_mode
  pv_monthlyBudgetUsd :: string
  pv_recipient :: "(chain_id \<times> string) option"
  pv_active :: bool
  pv_note :: string
  pv_createdAt :: int
  pv_updatedAt :: int

datatype cap_code =
    FROZEN | PROVIDER_UNKNOWN | PROVIDER_INACTIVE | PROVIDER_NOT_ON_CHAIN | RECIPIENT_NOT_ALLOWLISTED
  | CHAIN_NOT_ENABLED | ASSET_UNKNOWN | AMOUNT_INVALID | PER_PAYMENT_CAP | MONTHLY_CAP
  | PROVIDER_BUDGET | CREATOR_APPROVAL_REQUIRED

datatype cap_skip = Cap_not_applicable | Cap_short_circuit

record cap_check =
  cc_name :: string
  cc_code :: cap_code
  cc_passed :: bool
  cc_observed :: string
  cc_limit :: string
  cc_skipped :: "cap_skip option"
  cc_detail :: "string option"

record cap_decision =
  cd_engineVersion :: string
  cd_stage :: cap_stage
  cd_evaluatedAt :: int
  cd_allowed :: bool
  cd_code :: "cap_code option"
  cd_reason :: string
  cd_checks :: "cap_check list"

record treasury_token =
  tt_address :: string
  tt_symbol :: string
  tt_decimals :: int

definition treasuryToken :: "treasury_token \<Rightarrow> bool" where
  "treasuryToken tk \<longleftrightarrow> 1 \<le> length (tt_address tk) \<and> length (tt_address tk) \<le> 64 \<and>
     1 \<le> length (tt_symbol tk) \<and> length (tt_symbol tk) \<le> 16 \<and> 0 \<le> tt_decimals tk \<and> tt_decimals tk \<le> 18"

section \<open>The cap engine\<close>

definition CAP_ENGINE_VERSION :: string where "CAP_ENGINE_VERSION = ''treasury-caps/1.0.0''"
definition CAP_NOT_EVALUATED :: string where "CAP_NOT_EVALUATED = ''not-evaluated''"

record cap_request =
  cq_providerId :: string
  cq_chain :: chain_id
  cq_recipient :: string
  cq_asset :: string
  cq_amountUsd :: string

record cap_input =
  ci_now :: int
  ci_stage :: cap_stage
  ci_frozen :: bool
  ci_caps :: treasury_caps
  ci_provider :: "treasury_provider option"
  ci_enabledChains :: "chain_id list"
  ci_proposal :: cap_request
  ci_monthToDateApprovedUsd :: string
  ci_providerPeriodSpendUsd :: string
  ci_period :: string
  ci_creatorApproval :: bool

fun cap_NAMES :: "cap_code \<Rightarrow> string" where
  "cap_NAMES FROZEN = ''treasury.frozen''"
| "cap_NAMES PROVIDER_UNKNOWN = ''provider.known''"
| "cap_NAMES PROVIDER_INACTIVE = ''provider.active''"
| "cap_NAMES PROVIDER_NOT_ON_CHAIN = ''provider.billing''"
| "cap_NAMES RECIPIENT_NOT_ALLOWLISTED = ''recipient.allowlisted''"
| "cap_NAMES CHAIN_NOT_ENABLED = ''chain.enabled''"
| "cap_NAMES ASSET_UNKNOWN = ''asset.known''"
| "cap_NAMES AMOUNT_INVALID = ''amount.positive''"
| "cap_NAMES PER_PAYMENT_CAP = ''amount.perPayment''"
| "cap_NAMES MONTHLY_CAP = ''amount.monthly''"
| "cap_NAMES PROVIDER_BUDGET = ''amount.providerBudget''"
| "cap_NAMES CREATOR_APPROVAL_REQUIRED = ''approval.creator''"

fun cap_code_str :: "cap_code \<Rightarrow> string" where
  "cap_code_str FROZEN = ''FROZEN''"
| "cap_code_str PROVIDER_UNKNOWN = ''PROVIDER_UNKNOWN''"
| "cap_code_str PROVIDER_INACTIVE = ''PROVIDER_INACTIVE''"
| "cap_code_str PROVIDER_NOT_ON_CHAIN = ''PROVIDER_NOT_ON_CHAIN''"
| "cap_code_str RECIPIENT_NOT_ALLOWLISTED = ''RECIPIENT_NOT_ALLOWLISTED''"
| "cap_code_str CHAIN_NOT_ENABLED = ''CHAIN_NOT_ENABLED''"
| "cap_code_str ASSET_UNKNOWN = ''ASSET_UNKNOWN''"
| "cap_code_str AMOUNT_INVALID = ''AMOUNT_INVALID''"
| "cap_code_str PER_PAYMENT_CAP = ''PER_PAYMENT_CAP''"
| "cap_code_str MONTHLY_CAP = ''MONTHLY_CAP''"
| "cap_code_str PROVIDER_BUDGET = ''PROVIDER_BUDGET''"
| "cap_code_str CREATOR_APPROVAL_REQUIRED = ''CREATOR_APPROVAL_REQUIRED''"

definition REMAINING_AFTER_FREEZE :: "cap_code list" where
  "REMAINING_AFTER_FREEZE = [PROVIDER_UNKNOWN, PROVIDER_INACTIVE, PROVIDER_NOT_ON_CHAIN,
     RECIPIENT_NOT_ALLOWLISTED, CHAIN_NOT_ENABLED, ASSET_UNKNOWN, AMOUNT_INVALID, PER_PAYMENT_CAP,
     MONTHLY_CAP, PROVIDER_BUDGET, CREATOR_APPROVAL_REQUIRED]"

definition cap_check_of ::
  "cap_code \<Rightarrow> bool \<Rightarrow> string \<Rightarrow> string \<Rightarrow> cap_skip option \<Rightarrow> string option \<Rightarrow> cap_check" where
  "cap_check_of c p observed lim sk detail = \<lparr>cc_name = cap_NAMES c, cc_code = c, cc_passed = p,
     cc_observed = observed, cc_limit = lim, cc_skipped = sk, cc_detail = detail\<rparr>"

definition freeze_check :: "cap_input \<Rightarrow> cap_check" where
  "freeze_check inp = cap_check_of FROZEN (\<not> ci_frozen inp)
     (if ci_frozen inp then ''frozen'' else ''active'') ''active'' None None"

definition provider_checks :: "cap_input \<Rightarrow> cap_check list" where
  "provider_checks inp = (let pv = ci_provider inp;
     sk = (if pv = None then Some Cap_short_circuit else None)
   in [
     cap_check_of PROVIDER_UNKNOWN (pv \<noteq> None)
       (case pv of None \<Rightarrow> ''unknown provider '' @ cq_providerId (ci_proposal inp) | Some p \<Rightarrow> pv_id p)
       ''a registered provider'' None None,
     cap_check_of PROVIDER_INACTIVE (case pv of None \<Rightarrow> False | Some p \<Rightarrow> pv_active p)
       (case pv of None \<Rightarrow> CAP_NOT_EVALUATED | Some p \<Rightarrow> if pv_active p then ''active'' else ''inactive'')
       ''active'' sk None,
     cap_check_of PROVIDER_NOT_ON_CHAIN (case pv of None \<Rightarrow> False | Some p \<Rightarrow> pv_billingMode p = On_chain)
       (case pv of None \<Rightarrow> CAP_NOT_EVALUATED | Some p \<Rightarrow> billing_str (pv_billingMode p))
       ''on-chain'' sk
       (case pv of None \<Rightarrow> None | Some p \<Rightarrow> if pv_billingMode p = On_chain then None
          else Some (pv_name p @ '' bills by '' @ billing_str (pv_billingMode p) @
            ''; record a manual payable instead''))])"

definition recipient_check :: "cap_input \<Rightarrow> cap_check" where
  "recipient_check inp = (let q = ci_proposal inp;
     allowed = (case ci_provider inp of None \<Rightarrow> None | Some p \<Rightarrow> pv_recipient p)
   in cap_check_of RECIPIENT_NOT_ALLOWLISTED (allowed = Some (cq_chain q, cq_recipient q))
       (chain_str (cq_chain q) @ '':'' @ cq_recipient q)
       (case allowed of None \<Rightarrow> ''no allowlisted recipient'' | Some (c, a) \<Rightarrow> chain_str c @ '':'' @ a)
       None None)"

definition chain_enabled_check :: "cap_input \<Rightarrow> cap_check" where
  "chain_enabled_check inp = cap_check_of CHAIN_NOT_ENABLED
     (cq_chain (ci_proposal inp) \<in> set (ci_enabledChains inp)) (chain_str (cq_chain (ci_proposal inp)))
     (if ci_enabledChains inp \<noteq> [] then join_with '', '' (map chain_str (ci_enabledChains inp))
      else ''no enabled treasury address'') None None"

definition chain_symbols :: "chain_id \<Rightarrow> string list" where
  "chain_symbols c = map ti_symbol (ci_tokens (CHAINS c))"

definition asset_check :: "cap_input \<Rightarrow> cap_check" where
  "asset_check inp = (let q = ci_proposal inp in cap_check_of ASSET_UNKNOWN
     (cq_asset q \<in> set (chain_symbols (cq_chain q))) (cq_asset q)
     (join_with '', '' (chain_symbols (cq_chain q))) None None)"

definition cap_amount :: "cap_input \<Rightarrow> int option" where
  "cap_amount inp = (case usdToMicros (cq_amountUsd (ci_proposal inp)) of Inl _ \<Rightarrow> None | Inr a \<Rightarrow> Some a)"

definition amount_check :: "cap_input \<Rightarrow> cap_check" where
  "amount_check inp = cap_check_of AMOUNT_INVALID (case cap_amount inp of None \<Rightarrow> False | Some a \<Rightarrow> 0 < a)
     (cq_amountUsd (ci_proposal inp)) ''> 0'' None None"

definition safeAmount :: "cap_input \<Rightarrow> int option" where
  "safeAmount inp = (case cap_amount inp of None \<Rightarrow> None | Some a \<Rightarrow> if 0 < a then Some a else None)"

text \<open>The sentence of a running total: \<open>x label + a = x + a\<close>.\<close>

definition total_text :: "int \<Rightarrow> string \<Rightarrow> int \<Rightarrow> string" where
  "total_text x label a = microsToUsd x @ label @ microsToUsd a @ '' = '' @ microsToUsd (x + a)"

definition per_payment_check :: "int option \<Rightarrow> int \<Rightarrow> cap_check" where
  "per_payment_check amount perPayment = cap_check_of PER_PAYMENT_CAP
     (case amount of None \<Rightarrow> False | Some a \<Rightarrow> a \<le> perPayment)
     (case amount of None \<Rightarrow> CAP_NOT_EVALUATED | Some a \<Rightarrow> microsToUsd a) (microsToUsd perPayment) None
     (if perPayment = 0 then Some ''the per-payment cap is 0; configure it first'' else None)"

definition monthly_check :: "int \<Rightarrow> int option \<Rightarrow> int \<Rightarrow> int \<Rightarrow> cap_check" where
  "monthly_check t amount monthly mtd = cap_check_of MONTHLY_CAP
     (case amount of None \<Rightarrow> False | Some a \<Rightarrow> mtd + a \<le> monthly)
     (case amount of None \<Rightarrow> CAP_NOT_EVALUATED | Some a \<Rightarrow> total_text mtd '' approved this month + '' a)
     (microsToUsd monthly) None
     (Some (''calendar month of the decision, evaluated at '' @ toISOString t))"

definition budget_check :: "cap_input \<Rightarrow> int option \<Rightarrow> cap_check result" where
  "budget_check inp amount =
     sbind (case ci_provider inp of None \<Rightarrow> Inr 0 | Some p \<Rightarrow> usdToMicros (pv_monthlyBudgetUsd p)) (\<lambda>budget.
       if ci_provider inp \<noteq> None \<and> budget > 0
       then sbind (usdToMicros (ci_providerPeriodSpendUsd inp)) (\<lambda>spent.
         Inr (cap_check_of PROVIDER_BUDGET
           (case amount of None \<Rightarrow> False | Some a \<Rightarrow> spent + a \<le> budget)
           (case amount of None \<Rightarrow> CAP_NOT_EVALUATED
            | Some a \<Rightarrow> total_text spent ('' spent for '' @ ci_period inp @ '' + '') a)
           (microsToUsd budget) None (Some (''billing period '' @ ci_period inp))))
       else Inr (cap_check_of PROVIDER_BUDGET True
         (if ci_provider inp \<noteq> None then ''no budget set'' else CAP_NOT_EVALUATED) ''none''
         (Some Cap_not_applicable) None))"

definition approval_check :: "cap_input \<Rightarrow> int option \<Rightarrow> int \<Rightarrow> cap_check" where
  "approval_check inp amount threshold = (let
     required = (case amount of None \<Rightarrow> False | Some a \<Rightarrow> threshold \<le> a)
   in if ci_stage inp = Propose
      then cap_check_of CREATOR_APPROVAL_REQUIRED True
        (if required then ''creator approval will be required'' else ''below threshold'')
        (microsToUsd threshold) (Some Cap_not_applicable) (Some ''checked at approval time'')
      else cap_check_of CREATOR_APPROVAL_REQUIRED (\<not> required \<or> ci_creatorApproval inp)
        (if required then (if ci_creatorApproval inp then ''required and asserted'' else ''required and missing'')
         else ''not required'')
        (''required at or above '' @ microsToUsd threshold) None None)"

definition cap_finish :: "cap_input \<Rightarrow> cap_check list \<Rightarrow> cap_decision" where
  "cap_finish inp cs = (let
     failed = List.find (\<lambda>c. \<not> cc_passed c \<and> cc_skipped c \<noteq> Some Cap_short_circuit) cs;
     firstFailed = (case failed of Some c \<Rightarrow> Some c | None \<Rightarrow> List.find (\<lambda>c. \<not> cc_passed c) cs)
   in \<lparr>cd_engineVersion = CAP_ENGINE_VERSION, cd_stage = ci_stage inp, cd_evaluatedAt = ci_now inp,
       cd_allowed = (firstFailed = None), cd_code = map_option cc_code firstFailed,
       cd_reason = (case firstFailed of None \<Rightarrow> ''every cap check passed''
         | Some c \<Rightarrow> cap_code_str (cc_code c) @ '' ('' @ cc_name c @ ''): observed '' @ cc_observed c @
             '', limit '' @ cc_limit c),
       cd_checks = cs\<rparr>)"

definition evaluateCaps :: "cap_input \<Rightarrow> cap_decision result" where
  "evaluateCaps inp =
     (if ci_frozen inp
      then Inr (cap_finish inp (freeze_check inp # map (\<lambda>c. cap_check_of c False CAP_NOT_EVALUATED
             CAP_NOT_EVALUATED (Some Cap_short_circuit) None) REMAINING_AFTER_FREEZE))
      else let caps = ci_caps inp; amount = safeAmount inp in
        sbind (usdToMicros (perPaymentCapUsd caps)) (\<lambda>perPayment.
        sbind (usdToMicros (monthlyCapUsd caps)) (\<lambda>monthly.
        sbind (usdToMicros (ci_monthToDateApprovedUsd inp)) (\<lambda>mtd.
        sbind (budget_check inp amount) (\<lambda>budget.
        sbind (usdToMicros (approvalThresholdUsd caps)) (\<lambda>threshold.
          Inr (cap_finish inp ([freeze_check inp] @ provider_checks inp @
            [recipient_check inp, chain_enabled_check inp, asset_check inp, amount_check inp,
             per_payment_check amount perPayment, monthly_check (ci_now inp) amount monthly mtd,
             budget, approval_check inp amount threshold]))))))))"

section \<open>What a decision means\<close>

named_theorems cap_defs

lemmas [cap_defs] = freeze_check_def provider_checks_def recipient_check_def chain_enabled_check_def
  asset_check_def per_payment_check_def monthly_check_def approval_check_def
  cap_check_of_def Let_def

lemma find_append_None: "List.find P (xs @ ys) = None \<longleftrightarrow> List.find P xs = None \<and> List.find P ys = None"
  by (auto simp: find_None_iff)

text \<open>A decision allows exactly when every check passed.\<close>

lemma cap_finish_allowed: "cd_allowed (cap_finish inp cs) \<longleftrightarrow> list_all cc_passed cs"
  by (auto simp: cap_finish_def Let_def list_all_iff find_None_iff split: option.splits
      dest: find_SomeD)

lemma cap_finish_parts [simp]:
  "cd_checks (cap_finish inp cs) = cs" "cd_stage (cap_finish inp cs) = ci_stage inp"
  "cd_evaluatedAt (cap_finish inp cs) = ci_now inp"
  "cd_code (cap_finish inp cs) = None \<longleftrightarrow> cd_allowed (cap_finish inp cs)"
  by (simp_all add: cap_finish_def Let_def)

text \<open>
  What the caps allow: an active provider billed on chain, paid at its one allowlisted recipient on an
  enabled chain in an asset the registry lists, a positive amount within the per-payment cap, the
  month's total and the provider's budget, and the creator's approval at or above the threshold.
\<close>

definition amount_within :: "cap_input \<Rightarrow> treasury_provider \<Rightarrow> int \<Rightarrow> bool" where
  "amount_within inp p a \<longleftrightarrow> 0 < a \<and>
     (\<exists>per mon mtd thr bud. usdToMicros (perPaymentCapUsd (ci_caps inp)) = Inr per \<and> a \<le> per \<and>
        usdToMicros (monthlyCapUsd (ci_caps inp)) = Inr mon \<and>
        usdToMicros (ci_monthToDateApprovedUsd inp) = Inr mtd \<and> mtd + a \<le> mon \<and>
        usdToMicros (pv_monthlyBudgetUsd p) = Inr bud \<and>
        (0 < bud \<longrightarrow> (\<exists>spent. usdToMicros (ci_providerPeriodSpendUsd inp) = Inr spent \<and> spent + a \<le> bud)) \<and>
        usdToMicros (approvalThresholdUsd (ci_caps inp)) = Inr thr \<and>
        (ci_stage inp \<noteq> Propose \<and> thr \<le> a \<longrightarrow> ci_creatorApproval inp))"

lemma evaluateCapsE:
  assumes "evaluateCaps inp = Inr d" "\<not> ci_frozen inp"
  obtains per mon mtd b thr where "usdToMicros (perPaymentCapUsd (ci_caps inp)) = Inr per"
    "usdToMicros (monthlyCapUsd (ci_caps inp)) = Inr mon"
    "usdToMicros (ci_monthToDateApprovedUsd inp) = Inr mtd"
    "budget_check inp (safeAmount inp) = Inr b" "usdToMicros (approvalThresholdUsd (ci_caps inp)) = Inr thr"
    "d = cap_finish inp ([freeze_check inp] @ provider_checks inp @
       [recipient_check inp, chain_enabled_check inp, asset_check inp, amount_check inp,
        per_payment_check (safeAmount inp) per, monthly_check (ci_now inp) (safeAmount inp) mon mtd,
        b, approval_check inp (safeAmount inp) thr])"
  using assms by (auto simp: evaluateCaps_def Let_def sbind_eq_Inr)

lemma evaluateCaps_frozen:
  assumes "evaluateCaps inp = Inr d" "ci_frozen inp"
  shows "\<not> cd_allowed d"
proof -
  have "d = cap_finish inp (freeze_check inp # map (\<lambda>c. cap_check_of c False CAP_NOT_EVALUATED
      CAP_NOT_EVALUATED (Some Cap_short_circuit) None) REMAINING_AFTER_FREEZE)"
    using assms by (simp add: evaluateCaps_def)
  then show ?thesis using assms(2) by (simp add: cap_finish_allowed freeze_check_def cap_check_of_def)
qed

lemma safeAmount_Some: "safeAmount inp = Some a \<longleftrightarrow> usdToMicros (cq_amountUsd (ci_proposal inp)) = Inr a \<and> 0 < a"
  by (auto simp: safeAmount_def cap_amount_def split: sum.splits option.splits)

lemma amount_check_passed: "cc_passed (amount_check inp) \<longleftrightarrow> safeAmount inp \<noteq> None"
  by (auto simp: amount_check_def cap_check_of_def safeAmount_def split: option.splits)

lemma amount_check_code [simp]: "cc_code (amount_check inp) = AMOUNT_INVALID"
  by (simp add: amount_check_def cap_check_of_def)

lemma budget_passed:
  assumes "budget_check inp amount = Inr b" "ci_provider inp = Some p"
  shows "\<exists>bud. usdToMicros (pv_monthlyBudgetUsd p) = Inr bud \<and> (cc_passed b \<longleftrightarrow>
    (0 < bud \<longrightarrow> (\<exists>a spent. amount = Some a \<and> usdToMicros (ci_providerPeriodSpendUsd inp) = Inr spent \<and> spent + a \<le> bud)))"
  using assms by (auto simp: budget_check_def sbind_eq_Inr cap_check_of_def split: if_splits option.splits)

lemma budget_code: "budget_check inp amount = Inr b \<Longrightarrow> cc_code b = PROVIDER_BUDGET"
  by (auto simp: budget_check_def sbind_eq_Inr cap_check_of_def split: if_splits)

lemma allowed_amount:
  assumes "evaluateCaps inp = Inr d" "cd_allowed d"
  shows "(\<exists>a. usdToMicros (cq_amountUsd (ci_proposal inp)) = Inr a \<and> 0 < a) \<and> cd_stage d = ci_stage inp"
proof -
  have "\<not> ci_frozen inp" using evaluateCaps_frozen [OF assms(1)] assms(2) by blast
  from evaluateCapsE [OF assms(1) this] obtain cs1 cs2 where
    d: "d = cap_finish inp (cs1 @ amount_check inp # cs2)"
    by (metis append.assoc append_Cons append_Nil)
  then show ?thesis using assms(2) by (auto simp: cap_finish_allowed amount_check_passed safeAmount_Some)
qed

lemma caps_allowed_iff:
  assumes "evaluateCaps inp = Inr d" "\<not> ci_frozen inp"
  shows "cd_allowed d \<longleftrightarrow>
    (\<exists>p a. ci_provider inp = Some p \<and> pv_active p \<and> pv_billingMode p = On_chain \<and>
       pv_recipient p = Some (cq_chain (ci_proposal inp), cq_recipient (ci_proposal inp)) \<and>
       cq_chain (ci_proposal inp) \<in> set (ci_enabledChains inp) \<and>
       cq_asset (ci_proposal inp) \<in> set (chain_symbols (cq_chain (ci_proposal inp))) \<and>
       usdToMicros (cq_amountUsd (ci_proposal inp)) = Inr a \<and> amount_within inp p a)"
proof -
  obtain per mon mtd b thr where e: "usdToMicros (perPaymentCapUsd (ci_caps inp)) = Inr per"
    "usdToMicros (monthlyCapUsd (ci_caps inp)) = Inr mon"
    "usdToMicros (ci_monthToDateApprovedUsd inp) = Inr mtd"
    "usdToMicros (approvalThresholdUsd (ci_caps inp)) = Inr thr"
    and b: "budget_check inp (safeAmount inp) = Inr b"
    and d: "d = cap_finish inp ([freeze_check inp] @ provider_checks inp @
       [recipient_check inp, chain_enabled_check inp, asset_check inp, amount_check inp,
        per_payment_check (safeAmount inp) per, monthly_check (ci_now inp) (safeAmount inp) mon mtd,
        b, approval_check inp (safeAmount inp) thr])"
    using evaluateCapsE [OF assms] by metis
  show ?thesis
  proof (cases "ci_provider inp")
    case None
    then show ?thesis by (simp add: d cap_finish_allowed cap_defs)
  next
    case (Some p)
    obtain bud where bud: "usdToMicros (pv_monthlyBudgetUsd p) = Inr bud"
      "cc_passed b \<longleftrightarrow> (0 < bud \<longrightarrow> (\<exists>a spent. safeAmount inp = Some a \<and>
         usdToMicros (ci_providerPeriodSpendUsd inp) = Inr spent \<and> spent + a \<le> bud))"
      using budget_passed [OF b Some] by blast
    show ?thesis
    proof (cases "safeAmount inp")
      case None
      then have "\<not> amount_within inp p a" if "usdToMicros (cq_amountUsd (ci_proposal inp)) = Inr a" for a
        using that safeAmount_Some [of inp a] by (auto simp: amount_within_def)
      then show ?thesis using None Some by (auto simp: d cap_finish_allowed amount_check_passed)
    next
      case a: (Some a)
      then have "0 < a" "usdToMicros (cq_amountUsd (ci_proposal inp)) = Inr a" by (simp_all add: safeAmount_Some)
      then show ?thesis using assms(2) Some e bud a
        by (auto simp: d cap_finish_allowed amount_check_passed amount_within_def cap_defs split: option.splits)
    qed
  qed
qed

text \<open>The cap engine's verdict has exactly the stated meaning: an evaluation that returns allows the
  payment if and only if the treasury is not frozen and the request names an active provider billed on
  chain, its one allowlisted recipient, an enabled chain, a listed asset and an amount inside every
  cap; the code is absent exactly then, and the report always holds the same twelve checks in order.\<close>

theorem caps_decision_meaning:
  assumes "evaluateCaps inp = Inr d"
  shows "(cd_allowed d \<longleftrightarrow> \<not> ci_frozen inp \<and>
      (\<exists>p a. ci_provider inp = Some p \<and> pv_active p \<and> pv_billingMode p = On_chain \<and>
         pv_recipient p = Some (cq_chain (ci_proposal inp), cq_recipient (ci_proposal inp)) \<and>
         cq_chain (ci_proposal inp) \<in> set (ci_enabledChains inp) \<and>
         cq_asset (ci_proposal inp) \<in> set (chain_symbols (cq_chain (ci_proposal inp))) \<and>
         usdToMicros (cq_amountUsd (ci_proposal inp)) = Inr a \<and> amount_within inp p a)) \<and>
    (cd_code d = None \<longleftrightarrow> cd_allowed d) \<and>
    map cc_code (cd_checks d) = FROZEN # REMAINING_AFTER_FREEZE \<and>
    cd_stage d = ci_stage inp \<and> cd_evaluatedAt d = ci_now inp"
proof (cases "ci_frozen inp")
  case True
  have "d = cap_finish inp (freeze_check inp # map (\<lambda>c. cap_check_of c False CAP_NOT_EVALUATED
      CAP_NOT_EVALUATED (Some Cap_short_circuit) None) REMAINING_AFTER_FREEZE)"
    using assms True by (simp add: evaluateCaps_def)
  then show ?thesis using True evaluateCaps_frozen [OF assms True]
    by (simp add: freeze_check_def cap_check_of_def comp_def)
next
  case False
  obtain per mon mtd b thr where b: "budget_check inp (safeAmount inp) = Inr b"
    and d: "d = cap_finish inp ([freeze_check inp] @ provider_checks inp @
       [recipient_check inp, chain_enabled_check inp, asset_check inp, amount_check inp,
        per_payment_check (safeAmount inp) per, monthly_check (ci_now inp) (safeAmount inp) mon mtd,
        b, approval_check inp (safeAmount inp) thr])"
    using evaluateCapsE [OF assms False] by metis
  have codes: "map cc_code (cd_checks d) = FROZEN # REMAINING_AFTER_FREEZE"
    using budget_code [OF b] by (simp add: d cap_defs REMAINING_AFTER_FREEZE_def)
  have parts: "cd_code d = None \<longleftrightarrow> cd_allowed d" "cd_stage d = ci_stage inp" "cd_evaluatedAt d = ci_now inp"
    by (simp_all add: d)
  show ?thesis
    using caps_allowed_iff [OF assms False] False codes parts by blast
qed

end
