(* ===== verification/Treasury_Burn.thy ===== *)
theory Treasury_Burn
  imports Treasury_Caps
begin

text \<open>
  \<open>src/runtime/src/treasury/burn.ts\<close> (burn rate and runway) and \<open>src/runtime/src/treasury/balances.ts\<close>
  (the reading of the watch-only addresses the runway rests on). What a chain adapter and the market
  service answer are arguments: \<open>balance_answer\<close> and \<open>price_answer\<close>, an error message or an observation. The lemmas
  bracket the averages and show that an unread or unpriced asset never counts as zero.
\<close>

section \<open>Burn rate\<close>

fun sum_micros :: "string list \<Rightarrow> int result" where
  "sum_micros [] = Inr 0"
| "sum_micros (x # xs) = sbind (usdToMicros x) (\<lambda>a. sbind (sum_micros xs) (\<lambda>s. Inr (a + s)))"

definition sumUsd :: "string list \<Rightarrow> string result" where
  "sumUsd amounts = sbind (sum_micros amounts) (\<lambda>total. Inr (microsToUsd total))"

record expense_like =
  xl_period :: string
  xl_amountUsd :: string

datatype burn_basis = Trailing_3 | Trailing_2 | Single_month | Basis_none

record burn_rate =
  br_monthlyUsd :: "string option"
  br_windowPeriods :: "string list"
  br_usedPeriods :: "string list"
  br_totalUsd :: string
  br_basis :: burn_basis
  br_reason :: "string option"

text \<open>The map \<open>byPeriod\<close>, filled expense by expense.\<close>

fun by_period :: "string list \<Rightarrow> (string \<rightharpoonup> int) \<Rightarrow> expense_like list \<Rightarrow> (string \<rightharpoonup> int) result" where
  "by_period win m [] = Inr m"
| "by_period win m (x # xs) =
     (if xl_period x \<notin> set win then by_period win m xs
      else sbind (usdToMicros (xl_amountUsd x)) (\<lambda>a.
        by_period win (m(xl_period x \<mapsto> (case m (xl_period x) of None \<Rightarrow> 0 | Some s \<Rightarrow> s) + a)) xs))"

definition elem_or :: "string list \<Rightarrow> nat \<Rightarrow> string" where
  "elem_or xs i = (if i < length xs then xs ! i else ''?'')"

definition burn_reason :: "burn_basis \<Rightarrow> string list \<Rightarrow> string option" where
  "burn_reason basis used = (case basis of
     Trailing_3 \<Rightarrow> None
   | Single_month \<Rightarrow> Some (''based on a single month ('' @ elem_or used 0 @ ''); treat as an estimate, not a trend'')
   | _ \<Rightarrow> Some (''based on two months ('' @ join_with '', '' used @ ''), not three''))"

definition burnRate :: "expense_like list \<Rightarrow> int \<Rightarrow> burn_rate result" where
  "burnRate expenses t = (let win = trailingPeriods t 3 in
     sbind (by_period win Map.empty expenses) (\<lambda>m. let
       used = filter (\<lambda>p. m p \<noteq> None) win;
       total = sum_list (map (\<lambda>p. case m p of None \<Rightarrow> 0 | Some s \<Rightarrow> s) used)
     in if used = [] then Inr \<lparr>br_monthlyUsd = None, br_windowPeriods = win, br_usedPeriods = used,
          br_totalUsd = microsToUsd 0, br_basis = Basis_none,
          br_reason = Some (''no expenses recorded for '' @ elem_or win 0 @ '' to '' @ elem_or win (length win - 1))\<rparr>
        else let monthly = bdiv total (int (length used));
          basis = (if length used = 3 then Trailing_3 else if length used = 2 then Trailing_2 else Single_month)
        in Inr \<lparr>br_monthlyUsd = Some (microsToUsd monthly), br_windowPeriods = win, br_usedPeriods = used,
          br_totalUsd = microsToUsd total, br_basis = basis, br_reason = burn_reason basis used\<rparr>))"

section \<open>Runway\<close>

record runway_estimate =
  rw_months :: "string option"
  rw_balanceUsd :: "string option"
  rw_monthlyBurnUsd :: "string option"
  rw_reason :: "string option"

definition runway :: "string option \<Rightarrow> string option \<Rightarrow> burn_rate \<Rightarrow> runway_estimate result" where
  "runway balanceUsd balanceReason burn = (case balanceUsd of
     None \<Rightarrow> Inr \<lparr>rw_months = None, rw_balanceUsd = None, rw_monthlyBurnUsd = br_monthlyUsd burn,
       rw_reason = Some (case balanceReason of Some r \<Rightarrow> r | None \<Rightarrow> ''the treasury balance could not be priced'')\<rparr>
   | Some bal \<Rightarrow> (case br_monthlyUsd burn of
       None \<Rightarrow> Inr \<lparr>rw_months = None, rw_balanceUsd = Some bal, rw_monthlyBurnUsd = None,
         rw_reason = Some (case br_reason burn of Some r \<Rightarrow> r | None \<Rightarrow> ''no burn rate'')\<rparr>
     | Some monthly \<Rightarrow> sbind (usdToMicros monthly) (\<lambda>burnMicros.
         if burnMicros \<le> 0 then Inr \<lparr>rw_months = None, rw_balanceUsd = Some bal, rw_monthlyBurnUsd = Some monthly,
           rw_reason = Some ''the recorded burn rate is zero; runway is undefined rather than infinite''\<rparr>
         else sbind (usdToMicros bal) (\<lambda>micros. let
           hundredths = bdiv (micros * 100) burnMicros;
           whole = bdiv hundredths 100;
           fraction = padStart 2 CHR ''0'' (int_str (bmod hundredths 100))
         in Inr \<lparr>rw_months = Some (int_str whole @ ''.'' @ fraction), rw_balanceUsd = Some bal,
              rw_monthlyBurnUsd = Some monthly, rw_reason = br_reason burn\<rparr>))))"

section \<open>Reading the balances\<close>

text \<open>\<open>formatUnits\<close>: the fraction keeps no trailing zero.\<close>

definition formatUnits :: "int \<Rightarrow> int \<Rightarrow> string" where
  "formatUnits amount decimals =
     (if decimals = 0 then int_str amount
      else let divisor = 10 ^ nat decimals;
               whole = bdiv amount divisor;
               padded = padStart (nat decimals) CHR ''0'' (int_str (bmod amount divisor));
               fraction = rev (dropWhile (\<lambda>c. c = CHR ''0'') (rev padded))
      in if fraction \<noteq> [] then int_str whole @ ''.'' @ fraction else int_str whole)"

record asset_view =
  av_chain :: chain_id
  av_address :: string
  av_label :: string
  av_asset :: string
  av_symbol :: string
  av_decimals :: int
  av_amount :: "string option"
  av_amountDecimal :: "string option"
  av_priceUsd :: "string option"
  av_valueUsd :: "string option"
  av_reason :: "string option"
  av_observedAt :: "int option"
  av_source :: string

text \<open>An adapter's answer for one asset: no adapter, a failed read, or an observation.\<close>

record balance_observation =
  bo_amount :: string
  bo_observedAt :: int
  bo_host :: string

datatype balance_answer = No_adapter | Unreadable string | Observed balance_observation

text \<open>The market's answer: a lookup that failed, or a cross-checked quote.\<close>

record price_quote =
  qt_priceUsd :: "string option"
  qt_disputed :: bool
  qt_reason :: "string option"
  qt_sources :: "(string \<times> string) list"

datatype price_answer = Lookup_failed string | Quoted price_quote

definition or_text :: "string option \<Rightarrow> string \<Rightarrow> string" where
  "or_text r d = (case r of None \<Rightarrow> d | Some s \<Rightarrow> s)"

text \<open>\<open>errorMessage\<close> of an error raised by the money functions, which is one short line.\<close>

fun error_text :: "app_error \<Rightarrow> string" where
  "error_text (AppError c m) = m"
| "error_text (JsError m) = m"

record treasury_address =
  ta_chain :: chain_id
  ta_address :: string
  ta_label :: string
  ta_tokens :: "treasury_token list"
  ta_enabled :: bool
  ta_addedAt :: int
  ta_updatedAt :: int

record wanted_asset =
  wa_address :: string
  wa_symbol :: string
  wa_decimals :: int
  wa_native :: bool

definition wanted_assets :: "treasury_address \<Rightarrow> wanted_asset list" where
  "wanted_assets e = (let info = CHAINS (ta_chain e) in
     \<lparr>wa_address = ci_nativeSentinel info, wa_symbol = ci_nativeSymbol info,
      wa_decimals = ci_nativeDecimals info, wa_native = True\<rparr> #
     map (\<lambda>tk. \<lparr>wa_address = tt_address tk, wa_symbol = tt_symbol tk, wa_decimals = tt_decimals tk,
       wa_native = False\<rparr>) (ta_tokens e))"

definition base_view :: "treasury_address \<Rightarrow> wanted_asset \<Rightarrow> asset_view" where
  "base_view e w = \<lparr>av_chain = ta_chain e, av_address = ta_address e, av_label = ta_label e,
     av_asset = wa_address w, av_symbol = wa_symbol w, av_decimals = wa_decimals w, av_amount = None,
     av_amountDecimal = None, av_priceUsd = None, av_valueUsd = None, av_reason = None,
     av_observedAt = None, av_source = ''none''\<rparr>"

definition price_view :: "asset_view \<Rightarrow> int \<Rightarrow> int \<Rightarrow> price_answer \<Rightarrow> asset_view" where
  "price_view v amount decimals ans = (case ans of
     Lookup_failed msg \<Rightarrow> v\<lparr>av_reason := Some (''price lookup failed: '' @ msg)\<rparr>
   | Quoted q \<Rightarrow> (case qt_priceUsd q of
       None \<Rightarrow> v\<lparr>av_reason := Some (''price unknown: '' @ or_text (qt_reason q) ''no provider returned a price'')\<rparr>
     | Some p \<Rightarrow>
         if qt_disputed q then v\<lparr>av_reason := Some (''price disputed: '' @ or_text (qt_reason q) ''providers disagree'')\<rparr>
         else case sbind (priceToAtto p) (\<lambda>atto. nativeToUsdMicros amount decimals atto RFloor) of
           Inl e \<Rightarrow> v\<lparr>av_reason := Some (''price unusable: '' @ error_text e)\<rparr>
         | Inr micros \<Rightarrow> v\<lparr>av_priceUsd := Some p, av_valueUsd := Some (microsToUsd micros),
             av_reason := (case qt_reason q of None \<Rightarrow> None | Some r \<Rightarrow> if r = '''' then None else Some r)\<rparr>))"

definition readOne :: "treasury_address \<Rightarrow> wanted_asset \<Rightarrow> balance_answer \<Rightarrow> price_answer \<Rightarrow> asset_view" where
  "readOne e w bal price = (case bal of
     No_adapter \<Rightarrow> (base_view e w)\<lparr>av_reason := Some (''no adapter is configured for '' @ chain_str (ta_chain e))\<rparr>
   | Unreadable msg \<Rightarrow> (base_view e w)\<lparr>av_reason := Some (''balance unreadable: '' @ msg)\<rparr>
   | Observed ob \<Rightarrow> (case js_BigInt (bo_amount ob) of
       Inl err \<Rightarrow> (base_view e w)\<lparr>av_reason := Some (''balance unreadable: '' @ error_text err)\<rparr>
     | Inr amount \<Rightarrow> price_view ((base_view e w)\<lparr>av_amount := Some (int_str amount),
         av_amountDecimal := Some (formatUnits amount (wa_decimals w)),
         av_observedAt := Some (bo_observedAt ob), av_source := bo_host ob\<rparr>) amount (wa_decimals w) price))"

record missing_asset =
  mi_chain :: chain_id
  mi_symbol :: string
  mi_reason :: string

record balance_report =
  bp_takenAt :: int
  bp_assets :: "asset_view list"
  bp_pricedValueUsd :: string
  bp_complete :: bool
  bp_incomplete :: "missing_asset list"

text \<open>The report over the assets that were read; \<open>sum_micros\<close> adds the priced ones.\<close>

definition report_of :: "int \<Rightarrow> asset_view list \<Rightarrow> balance_report result" where
  "report_of takenAt assets =
     sbind (sum_micros (List.map_filter av_valueUsd assets)) (\<lambda>priced. let
       incomplete = map (\<lambda>a. \<lparr>mi_chain = av_chain a, mi_symbol = av_symbol a,
           mi_reason = or_text (av_reason a) ''unknown''\<rparr>) (filter (\<lambda>a. av_valueUsd a = None) assets)
     in Inr \<lparr>bp_takenAt = takenAt, bp_assets = assets, bp_pricedValueUsd = microsToUsd priced,
          bp_complete = (incomplete = []), bp_incomplete = incomplete\<rparr>)"

text \<open>One reading of every enabled address: the adapters' and the market's answers are functions of
  the address and the asset.\<close>

definition read_balances ::
  "int \<Rightarrow> (treasury_address \<Rightarrow> wanted_asset \<Rightarrow> balance_answer \<times> price_answer) \<Rightarrow>
     treasury_address list \<Rightarrow> balance_report result" where
  "read_balances takenAt ask addresses = report_of takenAt (concat (map (\<lambda>e.
     map (\<lambda>w. case ask e w of (b, p) \<Rightarrow> readOne e w b p) (wanted_assets e)) (filter ta_enabled addresses)))"

text \<open>\<open>TreasuryService.runway\<close>: an incomplete report has no runway.\<close>

definition report_runway :: "balance_report \<Rightarrow> burn_rate \<Rightarrow> runway_estimate result" where
  "report_runway report burn =
     (if \<not> bp_complete report
      then let missing = join_with ''; '' (map (\<lambda>m. chain_str (mi_chain m) @ '' '' @ mi_symbol m @
             '' ('' @ mi_reason m @ '')'') (bp_incomplete report))
        in runway None (Some (if bp_assets report = [] then ''no treasury address is configured''
             else ''the balance is incomplete: '' @ missing)) burn
      else runway (Some (bp_pricedValueUsd report)) None burn)"

section \<open>Averages and brackets\<close>

lemma sum_micros_render [simp]: "sum_micros (map (\<lambda>x. microsToUsd (f x)) xs) = Inr (sum_list (map f xs))"
  by (induction xs) simp_all

lemma sum_micros_map_Inr:
  assumes "\<And>x. x \<in> set xs \<Longrightarrow> usdToMicros (g x) = Inr (f x)"
  shows "sum_micros (map g xs) = Inr (sum_list (map f xs))"
  using assms by (induction xs) simp_all

text \<open>What the map holds: the sum of each window month's expenses, and nothing for a month without one.\<close>

definition period_total :: "expense_like list \<Rightarrow> string \<Rightarrow> int" where
  "period_total xs p = sum_list (map (\<lambda>x. case usdToMicros (xl_amountUsd x) of Inl _ \<Rightarrow> 0 | Inr a \<Rightarrow> a)
     (filter (\<lambda>x. xl_period x = p) xs))"

lemma by_period_total:
  "by_period win m xs = Inr m' \<Longrightarrow> p \<in> set win \<Longrightarrow>
     m' p = (if p \<in> xl_period ` set xs then Some ((case m p of None \<Rightarrow> 0 | Some s \<Rightarrow> s) + period_total xs p) else m p)"
proof (induction xs arbitrary: m)
  case (Cons x xs)
  show ?case
  proof (cases "xl_period x \<in> set win")
    case False
    with Cons show ?thesis by (auto simp: period_total_def)
  next
    case True
    with Cons.prems(1) obtain a where a: "usdToMicros (xl_amountUsd x) = Inr a"
      and r: "by_period win (m(xl_period x \<mapsto> (case m (xl_period x) of None \<Rightarrow> 0 | Some s \<Rightarrow> s) + a)) xs = Inr m'"
      by (auto simp: sbind_eq_Inr)
    note e = Cons.IH [OF r Cons.prems(2)]
    show ?thesis
    proof (cases "xl_period x = p")
      case eq: True
      have "period_total (x # xs) p = a + period_total xs p" by (simp add: period_total_def eq a)
      moreover have "period_total xs p = 0" if "p \<notin> xl_period ` set xs"
      proof -
        have "filter (\<lambda>x. xl_period x = p) xs = []" using that by (auto simp: filter_empty_conv)
        then show ?thesis by (simp add: period_total_def)
      qed
      ultimately show ?thesis using e eq by auto
    next
      case False
      then show ?thesis using e by (auto simp: period_total_def)
    qed
  qed
qed simp

lemma bdiv_bracket: "0 < b \<Longrightarrow> 0 \<le> a \<Longrightarrow> b * bdiv a b \<le> a \<and> a < b * (bdiv a b + 1)"
  using div_bounds [of b a] by (simp add: bdiv_nonneg)

text \<open>The burn rate is the average over the months of the window that have an expense: the used months are
  exactly those, the total is the sum of their expenses, the monthly figure is that total divided by
  their number and rounded towards zero, and it is absent exactly when no month of the window has one.\<close>

theorem burn_rate_average:
  assumes "burnRate xs t = Inr br" "\<forall>x \<in> set xs. \<forall>a. usdToMicros (xl_amountUsd x) = Inr a \<longrightarrow> 0 \<le> a"
  shows "br_windowPeriods br = trailingPeriods t 3 \<and>
    br_usedPeriods br = filter (\<lambda>p. p \<in> xl_period ` set xs) (trailingPeriods t 3) \<and>
    usdToMicros (br_totalUsd br) = Inr (sum_list (map (period_total xs) (br_usedPeriods br))) \<and>
    (br_monthlyUsd br = None \<longleftrightarrow> br_usedPeriods br = []) \<and>
    (\<forall>m. br_monthlyUsd br = Some m \<longrightarrow> (\<exists>a. usdToMicros m = Inr a \<and>
       int (length (br_usedPeriods br)) * a \<le> sum_list (map (period_total xs) (br_usedPeriods br)) \<and>
       sum_list (map (period_total xs) (br_usedPeriods br)) < int (length (br_usedPeriods br)) * (a + 1)))"
proof -
  let ?win = "trailingPeriods t 3"
  obtain m where m: "by_period ?win Map.empty xs = Inr m"
    using assms(1) by (auto simp: burnRate_def Let_def sbind_eq_Inr)
  have mp: "m p = (if p \<in> xl_period ` set xs then Some (period_total xs p) else None)" if "p \<in> set ?win" for p
    using by_period_total [OF m that] by simp
  let ?used = "filter (\<lambda>p. p \<in> xl_period ` set xs) ?win"
  let ?sum = "sum_list (map (period_total xs) ?used)"
  have used: "filter (\<lambda>p. m p \<noteq> None) ?win = ?used" using mp by (intro filter_cong) simp_all
  have total: "sum_list (map (\<lambda>p. case m p of None \<Rightarrow> 0 | Some s \<Rightarrow> s) ?used) = ?sum"
    using mp by (intro arg_cong [where f = sum_list] map_cong) auto
  have "0 \<le> period_total xs p" for p
    unfolding period_total_def using assms(2) by (intro sum_list_nonneg) (auto split: sum.splits)
  then have pos: "0 \<le> ?sum" by (intro sum_list_nonneg) auto
  show ?thesis
  proof (cases "?used = []")
    case True
    then show ?thesis using assms(1) unfolding burnRate_def Let_def m sbind_Inr used total
      by auto
  next
    case False
    then have br: "br_windowPeriods br = ?win" "br_usedPeriods br = ?used" "br_totalUsd br = microsToUsd ?sum"
      "br_monthlyUsd br = Some (microsToUsd (bdiv ?sum (int (length ?used))))"
      using assms(1) unfolding burnRate_def Let_def m sbind_Inr used total by auto
    have "0 < int (length ?used)" using False by simp
    note b = bdiv_bracket [OF this pos]
    show ?thesis using b False unfolding br by simp
  qed
qed

text \<open>A figure with two decimals reads back as that many hundredths.\<close>

lemma hundredths_text:
  assumes "0 \<le> h"
  shows "usdToMicros (int_str (bdiv h 100) @ ''.'' @ padStart 2 CHR ''0'' (int_str (bmod h 100))) = Inr (h * 10000)"
proof -
  define f where "f = padStart 2 CHR ''0'' (nat_str (nat (h mod 100)))"
  have r: "0 \<le> h mod 100" "h mod 100 < 100" by simp_all
  have len: "length f = 2" using length_nat_str_le [of 2 "nat (h mod 100)"] r by (simp add: f_def)
  have dig: "list_all is_digit f" by (simp add: f_def padStart_digits)
  have parts: "int_str (bdiv h 100) = nat_str (nat (h div 100))" "padStart 2 CHR ''0'' (int_str (bmod h 100)) = f"
    using assms r by (simp_all add: f_def int_str_nonneg bdiv_nonneg bmod_nonneg pos_imp_zdiv_nonneg_iff)
  have m: "usd_match (nat_str (nat (h div 100)) @ ''.'' @ f) = Some (False, nat_str (nat (h div 100)), f)"
    using len dig by (auto simp: usd_match_Some)
  have val: "digits_val (padEnd 6 CHR ''0'' f) = nat (h mod 100) * 10000"
    by (simp add: digits_val_padEnd len) (simp add: f_def)
  have "10000 * (100 * (h div 100) + h mod 100) = 10000 * h" by (simp only: mult_div_mod_eq)
  then have whole: "h div 100 * 1000000 + h mod 100 * 10000 = h * 10000" by (simp only: algebra_simps)
  show ?thesis
    using assms whole unfolding parts usdToMicros_def m
    by (simp add: val Let_def USD_SCALE_def pos_imp_zdiv_nonneg_iff)
qed

lemma runway_months:
  assumes "runway (Some bal) r br = Inr rw" "rw_months rw = Some m" "usdToMicros bal = Inr b" "0 \<le> b"
  shows "\<exists>s burn h. br_monthlyUsd br = Some s \<and> usdToMicros s = Inr burn \<and> 0 < burn \<and>
    usdToMicros m = Inr h \<and> h * burn \<le> 1000000 * b \<and> 1000000 * b < (h + 10000) * burn"
proof -
  obtain s burn where s: "br_monthlyUsd br = Some s" "usdToMicros s = Inr burn" "0 < burn"
    and m: "m = int_str (bdiv (bdiv (b * 100) burn) 100) @ ''.'' @
      padStart 2 CHR ''0'' (int_str (bmod (bdiv (b * 100) burn) 100))"
    using assms(1-3) by (auto simp: runway_def Let_def sbind_eq_Inr split: option.splits if_splits)
  let ?h = "bdiv (b * 100) burn"
  have br: "burn * ?h \<le> b * 100" "b * 100 < burn * (?h + 1)"
    using bdiv_bracket [of burn "b * 100"] s(3) assms(4) by simp_all
  have "0 \<le> ?h" using s(3) assms(4) by (simp add: bdiv_nonneg pos_imp_zdiv_nonneg_iff)
  from hundredths_text [OF this] have "usdToMicros m = Inr (?h * 10000)" by (simp add: m)
  moreover have "?h * 10000 * burn \<le> 1000000 * b" "1000000 * b < (?h * 10000 + 10000) * burn"
    using br by (simp_all add: algebra_simps)
  ultimately show ?thesis using s by blast
qed

section \<open>No figure from a partial reading\<close>

text \<open>An asset that was read and priced, and its value.\<close>

definition asset_valued :: "wanted_asset \<Rightarrow> balance_answer \<times> price_answer \<Rightarrow> int \<Rightarrow> bool" where
  "asset_valued w ans v \<longleftrightarrow> (\<exists>ob q n p atto. ans = (Observed ob, Quoted q) \<and> js_BigInt (bo_amount ob) = Inr n \<and>
     qt_priceUsd q = Some p \<and> \<not> qt_disputed q \<and> priceToAtto p = Inr atto \<and>
     nativeToUsdMicros n (wa_decimals w) atto RFloor = Inr v)"

lemma price_view_value:
  "av_valueUsd v = None \<Longrightarrow> av_valueUsd (price_view v n d ans) = Some s \<Longrightarrow>
     \<exists>q p atto m. ans = Quoted q \<and> qt_priceUsd q = Some p \<and> \<not> qt_disputed q \<and> priceToAtto p = Inr atto \<and>
       nativeToUsdMicros n d atto RFloor = Inr m \<and> s = microsToUsd m"
  by (auto simp: price_view_def sbind_eq_Inr split: price_answer.splits option.splits if_splits sum.splits)

lemma readOne_value:
  assumes "av_valueUsd (readOne e w b p) = Some s"
  shows "\<exists>v. asset_valued w (b, p) v \<and> s = microsToUsd v"
proof -
  obtain ob n where ob: "b = Observed ob" "js_BigInt (bo_amount ob) = Inr n"
    using assms by (auto simp: readOne_def base_view_def split: balance_answer.splits sum.splits)
  show ?thesis
    using price_view_value [OF _ assms [unfolded readOne_def ob balance_answer.case ob(2) sum.case]]
    by (auto simp: ob base_view_def asset_valued_def)
qed

text \<open>The assets a reading covers.\<close>

definition covered :: "treasury_address list \<Rightarrow> (treasury_address \<times> wanted_asset) list" where
  "covered addresses = concat (map (\<lambda>e. map (Pair e) (wanted_assets e)) (filter ta_enabled addresses))"

lemma read_balances_covered:
  "read_balances t ask addresses =
     report_of t (map (\<lambda>(e, w). readOne e w (fst (ask e w)) (snd (ask e w))) (covered addresses))"
  by (simp add: read_balances_def covered_def map_concat comp_def case_prod_unfold)

lemma complete_report:
  assumes "report_of t (map (\<lambda>(e, w). readOne e w (fst (ask e w)) (snd (ask e w))) xs) = Inr rep" "bp_complete rep"
  shows "\<exists>vs. list_all2 (\<lambda>(e, w) v. asset_valued w (ask e w) v) xs vs \<and>
    usdToMicros (bp_pricedValueUsd rep) = Inr (sum_list vs)"
proof -
  let ?view = "\<lambda>(e, w). readOne e w (fst (ask e w)) (snd (ask e w))"
  have known: "\<forall>x \<in> set xs. av_valueUsd (?view x) \<noteq> None"
    using assms by (auto simp: report_of_def Let_def sbind_eq_Inr filter_empty_conv)
  have "\<forall>x \<in> set xs. \<exists>v. (case x of (e, w) \<Rightarrow> asset_valued w (ask e w) v) \<and> av_valueUsd (?view x) = Some (microsToUsd v)"
  proof
    fix x assume x: "x \<in> set xs"
    obtain e w where ew: "x = (e, w)" by (cases x)
    obtain s where "av_valueUsd (readOne e w (fst (ask e w)) (snd (ask e w))) = Some s"
      using known x ew by auto
    with readOne_value [OF this] show "\<exists>v. (case x of (e, w) \<Rightarrow> asset_valued w (ask e w) v) \<and> av_valueUsd (?view x) = Some (microsToUsd v)"
      by (auto simp: ew)
  qed
  from bchoice [OF this] obtain f where f: "\<forall>x \<in> set xs. (case x of (e, w) \<Rightarrow> asset_valued w (ask e w) (f x)) \<and>
      av_valueUsd (?view x) = Some (microsToUsd (f x))"
    by blast
  have "List.map_filter av_valueUsd (map ?view xs) = map (\<lambda>x. microsToUsd (f x)) xs"
    using f by (induction xs) (simp_all add: List.map_filter_simps)
  then have "usdToMicros (bp_pricedValueUsd rep) = Inr (sum_list (map f xs))"
    using assms(1) by (auto simp: report_of_def Let_def sbind_eq_Inr)
  moreover have "list_all2 (\<lambda>(e, w) v. asset_valued w (ask e w) v) xs (map f xs)"
    using f unfolding list_all2_map2 by (intro list.rel_refl_strong) blast
  ultimately show ?thesis by blast
qed

text \<open>Runway is never guessed and never overstated. When a reading of the treasury yields a runway, every
  asset of every enabled address was read and had an undisputed price, the balance is the sum of those
  valuations, each rounded down, the burn is known and positive, and the reported months times the
  burn fall short of the balance by less than a hundredth of a month.\<close>

theorem runway_needs_every_asset:
  assumes "read_balances t ask addresses = Inr rep" "report_runway rep br = Inr rw" "rw_months rw = Some m"
  shows "\<exists>vs. list_all2 (\<lambda>(e, w) v. asset_valued w (ask e w) v) (covered addresses) vs \<and>
    (0 \<le> sum_list vs \<longrightarrow> (\<exists>s burn h. br_monthlyUsd br = Some s \<and> usdToMicros s = Inr burn \<and> 0 < burn \<and>
       usdToMicros m = Inr h \<and> h * burn \<le> 1000000 * sum_list vs \<and> 1000000 * sum_list vs < (h + 10000) * burn))"
proof -
  have c: "bp_complete rep"
    using assms(2,3) by (auto simp: report_runway_def runway_def Let_def split: if_splits)
  obtain vs where vs: "list_all2 (\<lambda>(e, w) v. asset_valued w (ask e w) v) (covered addresses) vs"
    "usdToMicros (bp_pricedValueUsd rep) = Inr (sum_list vs)"
    using complete_report [OF assms(1) [unfolded read_balances_covered] c] by blast
  have "runway (Some (bp_pricedValueUsd rep)) None br = Inr rw" using assms(2) c by (simp add: report_runway_def)
  from runway_months [OF this assms(3) vs(2)] vs(1) show ?thesis by blast
qed

end
