(* ===== verification/Treasury_Store.thy ===== *)
theory Treasury_Store
  imports Auth Treasury_Burn "HOL-Library.List_Lexorder" "HOL-Library.Char_ord" "HOL-Library.Product_Lexorder"
begin

text \<open>
  \<open>src/runtime/src/treasury/store.ts\<close> over the tables and triggers of
  \<open>src/runtime/src/db/migrations/005_treasury.sql\<close>, and \<open>src/runtime/src/treasury/address.ts\<close>. The treasury's
  tables extend the audit trail and nothing else: an operation over \<open>treasury_db\<close> has no wallet, ledger
  or session row to touch, as the code's dependency list has none. A JSON column holds the value it
  encodes; ids are arguments (\<open>randomUUID\<close>), times epoch milliseconds, and an instant orders as its ISO string.
  The triggers that make proposals immutable apart from their status are part of every update.
\<close>

section \<open>Order\<close>

text \<open>Chains order as their codes do, which is what \<open>ORDER BY chain\<close> compares.\<close>

instantiation chain_id :: linorder
begin

definition less_eq_chain_id :: "chain_id \<Rightarrow> chain_id \<Rightarrow> bool" where
  "less_eq_chain_id a b \<longleftrightarrow> chain_str a \<le> chain_str b"

definition less_chain_id :: "chain_id \<Rightarrow> chain_id \<Rightarrow> bool" where
  "less_chain_id a b \<longleftrightarrow> chain_str a < chain_str b"

instance
  by standard (auto simp: less_eq_chain_id_def less_chain_id_def less_le_not_le intro: order_trans)

end

text \<open>\<open>ORDER BY k DESC\<close>; rows with equal keys keep the order they were inserted in.\<close>

definition sort_desc :: "('a \<Rightarrow> 'k :: linorder) \<Rightarrow> 'a list \<Rightarrow> 'a list" where
  "sort_desc k xs = rev (sort_key k (rev xs))"

definition clamp :: "int \<Rightarrow> int \<Rightarrow> int \<Rightarrow> int" where
  "clamp lo hi n = min (max n lo) hi"

section \<open>Tables\<close>

record treasury_config =
  tc_admin :: "credential option"
  tc_adminSetAt :: "int option"
  tc_caps :: treasury_caps
  tc_frozen :: bool
  tc_frozenReason :: "string option"
  tc_frozenAt :: "int option"
  tc_frozenBy :: "string option"
  tc_createdAt :: int
  tc_updatedAt :: int

datatype expense_kind = Recurring | One_off | Manual_payable
datatype expense_status = Paid | Due | Payable
datatype expense_source = Imported | Manual_entry

record expense_row =
  ex_id :: string
  ex_providerId :: string
  ex_period :: string
  ex_amountUsd :: string
  ex_kind :: expense_kind
  ex_status :: expense_status
  ex_source :: expense_source
  ex_note :: string
  ex_recordedAt :: int
  ex_recordedBy :: string

text \<open>The transfer instruction an export produces. Its display name, explorer link and notice are
  fixed text of the chain and are left out.\<close>

record exported_instruction =
  ei_proposalId :: string
  ei_exportedAt :: int
  ei_chain :: chain_id
  ei_evmChainId :: "int option"
  ei_from :: string
  ei_recipient :: string
  ei_asset :: token_info
  ei_amountUsd :: string
  ei_amountBaseUnits :: "string option"
  ei_amountDecimal :: "string option"
  ei_price :: "(string \<times> string list \<times> string) option"
  ei_priceReason :: "string option"
  ei_memo :: string
  ei_provider :: "string \<times> string"
  ei_approvedBy :: "string option"
  ei_approvedAt :: "int option"
  ei_creatorApproval :: bool
  ei_checks :: "cap_check list"

record proposal_row =
  pp_id :: string
  pp_createdAt :: int
  pp_providerId :: string
  pp_chain :: chain_id
  pp_recipient :: string
  pp_asset :: string
  pp_amountUsd :: string
  pp_period :: string
  pp_memo :: string
  pp_proposedBy :: string
  pp_source :: proposal_source
  pp_checks :: cap_decision
  pp_status :: proposal_status
  pp_creatorApproval :: bool
  pp_decidedAt :: "int option"
  pp_decidedBy :: "string option"
  pp_decisionNote :: "string option"
  pp_decision :: "cap_decision option"
  pp_exportedAt :: "int option"
  pp_exportedBy :: "string option"
  pp_export :: "exported_instruction option"

datatype alert_kind =
  Low_balance | Balance_unreadable | Price_unknown | Budget_exceeded | Runway_short | Frozen_alert | Model_override
datatype alert_severity = Info | Warning | Critical

text \<open>Of an alert's detail document only the key it is deduplicated by is ever read back.\<close>

record alert_row =
  al_id :: string
  al_kind :: alert_kind
  al_severity :: alert_severity
  al_summary :: string
  al_key :: string
  al_raisedAt :: int
  al_acknowledgedAt :: "int option"

record snapshot_row =
  sn_id :: string
  sn_takenAt :: int
  sn_view :: asset_view

record admin_token_row =
  tk_id :: string
  tk_tokenHash :: string
  tk_sessionId :: string
  tk_createdAt :: int
  tk_expiresAt :: int
  tk_revokedAt :: "int option"

record treasury_db = audit_db +
  td_config :: "treasury_config option"
  td_addresses :: "treasury_address list"
  td_providers :: "treasury_provider list"
  td_expenses :: "expense_row list"
  td_proposals :: "proposal_row list"
  td_alerts :: "alert_row list"
  td_snapshots :: "snapshot_row list"
  td_tokens :: "admin_token_row list"

section \<open>Configuration\<close>

definition zero_caps :: treasury_caps where
  "zero_caps = \<lparr>lowBalanceThresholdUsd = ''0.000000'', perPaymentCapUsd = ''0.000000'',
     monthlyCapUsd = ''0.000000'', approvalThresholdUsd = ''0.000000''\<rparr>"

definition ensureConfigRow :: "int \<Rightarrow> 'a treasury_db_scheme \<Rightarrow> 'a treasury_db_scheme" where
  "ensureConfigRow t db = (case td_config db of Some _ \<Rightarrow> db
   | None \<Rightarrow> db\<lparr>td_config := Some \<lparr>tc_admin = None, tc_adminSetAt = None, tc_caps = zero_caps, tc_frozen = False,
       tc_frozenReason = None, tc_frozenAt = None, tc_frozenBy = None, tc_createdAt = t, tc_updatedAt = t\<rparr>\<rparr>)"

definition configRow :: "'a treasury_db_scheme \<Rightarrow> treasury_config result" where
  "configRow db = (case td_config db of
     None \<Rightarrow> Inl (AppError E_INTERNAL ''The treasury configuration row is missing'') | Some c \<Rightarrow> Inr c)"

definition isFrozen :: "'a treasury_db_scheme \<Rightarrow> bool" where
  "isFrozen db = (case td_config db of None \<Rightarrow> False | Some c \<Rightarrow> tc_frozen c)"

definition updateConfigRow ::
  "(treasury_config \<Rightarrow> treasury_config) \<Rightarrow> 'a treasury_db_scheme \<Rightarrow> 'a treasury_db_scheme" where
  "updateConfigRow f db = db\<lparr>td_config := map_option f (td_config db)\<rparr>"

record caps_update =
  cu_lowBalanceThresholdUsd :: "string option"
  cu_perPaymentCapUsd :: "string option"
  cu_monthlyCapUsd :: "string option"
  cu_approvalThresholdUsd :: "string option"

definition or_keep :: "'v option \<Rightarrow> 'v \<Rightarrow> 'v" where
  "or_keep u v = (case u of None \<Rightarrow> v | Some x \<Rightarrow> x)"

definition merge_caps :: "caps_update \<Rightarrow> treasury_caps \<Rightarrow> treasury_caps" where
  "merge_caps u c = \<lparr>lowBalanceThresholdUsd = or_keep (cu_lowBalanceThresholdUsd u) (lowBalanceThresholdUsd c),
     perPaymentCapUsd = or_keep (cu_perPaymentCapUsd u) (perPaymentCapUsd c),
     monthlyCapUsd = or_keep (cu_monthlyCapUsd u) (monthlyCapUsd c),
     approvalThresholdUsd = or_keep (cu_approvalThresholdUsd u) (approvalThresholdUsd c)\<rparr>"

definition updateCaps :: "int \<Rightarrow> caps_update \<Rightarrow> 'a treasury_db_scheme \<Rightarrow> 'a treasury_db_scheme result" where
  "updateCaps t u db = sbind (configRow db) (\<lambda>_. Inr (updateConfigRow
     (\<lambda>c. c\<lparr>tc_caps := merge_caps u (tc_caps c), tc_updatedAt := t\<rparr>) db))"

definition setFrozen ::
  "int \<Rightarrow> bool \<Rightarrow> string option \<Rightarrow> string \<Rightarrow> 'a treasury_db_scheme \<Rightarrow> 'a treasury_db_scheme" where
  "setFrozen t frozen reason who db = updateConfigRow (\<lambda>c. c\<lparr>tc_frozen := frozen,
     tc_frozenReason := (if frozen then reason else None), tc_frozenAt := (if frozen then Some t else None),
     tc_frozenBy := (if frozen then Some who else None), tc_updatedAt := t\<rparr>) db"

text \<open>The update's condition that no hash is stored makes the credential single-use.\<close>

definition setAdminCredential ::
  "int \<Rightarrow> credential \<Rightarrow> 'a treasury_db_scheme \<Rightarrow> 'a treasury_db_scheme \<times> bool" where
  "setAdminCredential t cred db = (case td_config db of
     Some c \<Rightarrow> if tc_admin c = None
       then (db\<lparr>td_config := Some (c\<lparr>tc_admin := Some cred, tc_adminSetAt := Some t, tc_updatedAt := t\<rparr>)\<rparr>, True)
       else (db, False)
   | None \<Rightarrow> (db, False))"

definition getAdminCredential :: "'a treasury_db_scheme \<Rightarrow> credential option result" where
  "getAdminCredential db = sbind (configRow db) (\<lambda>c. Inr (tc_admin c))"

section \<open>Addresses\<close>

text \<open>Checksums and base58 keys are checked by libraries (\<open>treasury_lib\<close>).\<close>

record treasury_lib =
  tl_checksum :: "string \<Rightarrow> bool"
  tl_isPubkey :: "string \<Rightarrow> bool"

definition hex_char :: "char \<Rightarrow> bool" where
  "hex_char c \<longleftrightarrow> radix_digit 16 c \<noteq> None"

definition upper_char :: "char \<Rightarrow> char" where
  "upper_char c = (if 97 \<le> (of_char c :: nat) \<and> (of_char c :: nat) \<le> 122
     then char_of ((of_char c :: nat) - 32) else c)"

definition invalidAddress :: "string \<Rightarrow> string \<Rightarrow> app_error" where
  "invalidAddress field message = AppError E_SCHEMA_INVALID (''Invalid '' @ field @ '': '' @ message)"

definition canonicalTreasuryAddress ::
  "treasury_lib \<Rightarrow> chain_id \<Rightarrow> string \<Rightarrow> string \<Rightarrow> string result" where
  "canonicalTreasuryAddress T c address field =
     (if chainFamily c = Evm
      then let body = drop 2 address in
        if \<not> (take 2 address = ''0x'' \<and> length body = 40 \<and> list_all hex_char body)
        then Inl (invalidAddress field ''must be a 0x-prefixed 40-hex address'')
        else if list_all (\<lambda>x. x = CHR ''0'') body then Inl (invalidAddress field ''the zero address burns funds'')
        else if body \<noteq> toLowerCase body \<and> body \<noteq> map upper_char body \<and> \<not> tl_checksum T address
        then Inl (invalidAddress field ''EIP-55 checksum does not match'')
        else Inr (toLowerCase address)
      else if tl_isPubkey T address then Inr address
      else Inl (invalidAddress field ''must be a base58 Solana public key''))"

text \<open>A row whose token list does not satisfy the schema reads as having none.\<close>

definition toAddress :: "treasury_address \<Rightarrow> treasury_address" where
  "toAddress r = r\<lparr>ta_tokens := (if list_all treasuryToken (ta_tokens r) then ta_tokens r else [])\<rparr>"

definition listAddresses :: "'a treasury_db_scheme \<Rightarrow> treasury_address list" where
  "listAddresses db = map toAddress (sort_key ta_chain (td_addresses db))"

definition getAddress :: "'a treasury_db_scheme \<Rightarrow> chain_id \<Rightarrow> treasury_address option" where
  "getAddress db c = map_option toAddress (List.find (\<lambda>r. ta_chain r = c) (td_addresses db))"

record address_input =
  ia_chain :: chain_id
  ia_address :: string
  ia_label :: string
  ia_tokens :: "treasury_token list"
  ia_enabled :: bool

definition upsertAddress :: "int \<Rightarrow> address_input \<Rightarrow> 'a treasury_db_scheme \<Rightarrow> 'a treasury_db_scheme" where
  "upsertAddress t i db = (if ia_chain i \<in> ta_chain ` set (td_addresses db)
     then db\<lparr>td_addresses := map (\<lambda>r. if ta_chain r = ia_chain i then r\<lparr>ta_address := ia_address i,
         ta_label := ia_label i, ta_tokens := ia_tokens i, ta_enabled := ia_enabled i, ta_updatedAt := t\<rparr> else r)
         (td_addresses db)\<rparr>
     else db\<lparr>td_addresses := td_addresses db @ [\<lparr>ta_chain = ia_chain i, ta_address = ia_address i,
         ta_label = ia_label i, ta_tokens = ia_tokens i, ta_enabled = ia_enabled i, ta_addedAt = t,
         ta_updatedAt = t\<rparr>]\<rparr>)"

definition enabledTreasuryChains :: "'a treasury_db_scheme \<Rightarrow> chain_id list" where
  "enabledTreasuryChains db = map ta_chain (filter ta_enabled (listAddresses db))"

section \<open>Providers\<close>

record provider_input =
  ip_name :: string
  ip_category :: provider_category
  ip_billingMode :: billing_mode
  ip_monthlyBudgetUsd :: string
  ip_recipient :: "(chain_id \<times> string) option"
  ip_note :: string

definition listProviders :: "'a treasury_db_scheme \<Rightarrow> treasury_provider list" where
  "listProviders db = sort_key pv_name (td_providers db)"

definition getProvider :: "'a treasury_db_scheme \<Rightarrow> string \<Rightarrow> treasury_provider option" where
  "getProvider db pid = List.find (\<lambda>p. pv_id p = pid) (td_providers db)"

definition findProviderByName :: "'a treasury_db_scheme \<Rightarrow> string \<Rightarrow> treasury_provider option" where
  "findProviderByName db name = List.find (\<lambda>p. toLowerCase (pv_name p) = toLowerCase name) (td_providers db)"

definition putProvider :: "'a treasury_db_scheme \<Rightarrow> treasury_provider \<Rightarrow> 'a treasury_db_scheme" where
  "putProvider db p = db\<lparr>td_providers := td_providers db @ [p]\<rparr>"

definition setProvider ::
  "'a treasury_db_scheme \<Rightarrow> string \<Rightarrow> (treasury_provider \<Rightarrow> treasury_provider) \<Rightarrow> 'a treasury_db_scheme" where
  "setProvider db pid f = db\<lparr>td_providers := map (\<lambda>p. if pv_id p = pid then f p else p) (td_providers db)\<rparr>"

definition provider_of_input :: "provider_input \<Rightarrow> bool \<Rightarrow> treasury_provider \<Rightarrow> treasury_provider" where
  "provider_of_input i act p = p\<lparr>pv_name := ip_name i, pv_category := ip_category i,
     pv_billingMode := ip_billingMode i, pv_monthlyBudgetUsd := ip_monthlyBudgetUsd i,
     pv_recipient := ip_recipient i, pv_active := act, pv_note := ip_note i\<rparr>"

definition insertProvider ::
  "int \<Rightarrow> string \<Rightarrow> provider_input \<Rightarrow> 'a treasury_db_scheme \<Rightarrow> 'a treasury_db_scheme result" where
  "insertProvider t pid i db = (if getProvider db pid \<noteq> None
     then Inl (JsError ''UNIQUE constraint failed: treasury_providers.id'')
     else Inr (putProvider db \<lparr>pv_id = pid, pv_name = ip_name i, pv_category = ip_category i,
       pv_billingMode = ip_billingMode i, pv_monthlyBudgetUsd = ip_monthlyBudgetUsd i,
       pv_recipient = ip_recipient i, pv_active = True, pv_note = ip_note i, pv_createdAt = t, pv_updatedAt = t\<rparr>))"

definition updateProviderRow ::
  "int \<Rightarrow> string \<Rightarrow> provider_input \<Rightarrow> bool \<Rightarrow> 'a treasury_db_scheme \<Rightarrow> 'a treasury_db_scheme" where
  "updateProviderRow t pid i act db = setProvider db pid (\<lambda>p. provider_of_input i act p\<lparr>pv_updatedAt := t\<rparr>)"

section \<open>Expenses\<close>

text \<open>The order is by period and then by recording time, both newest first.\<close>

definition listExpenses ::
  "'a treasury_db_scheme \<Rightarrow> string option \<Rightarrow> string option \<Rightarrow> int \<Rightarrow> expense_row list" where
  "listExpenses db period pid n = take (nat (clamp 1 2000 n)) (sort_desc (\<lambda>e. (ex_period e, ex_recordedAt e))
     (filter (\<lambda>e. clause period (\<lambda>p. p = '''' \<or> ex_period e = p) \<and> clause pid (\<lambda>p. p = '''' \<or> ex_providerId e = p))
       (td_expenses db)))"

definition expensesInPeriods :: "'a treasury_db_scheme \<Rightarrow> string list \<Rightarrow> expense_row list" where
  "expensesInPeriods db periods = sort_key (\<lambda>e. (ex_period e, ex_recordedAt e))
     (filter (\<lambda>e. ex_period e \<in> set periods) (td_expenses db))"

text \<open>The CHECK both tables put on their period, \<open>GLOB\<close> of four digits, a dash and two digits. It runs before the
  primary key; the other constraints of an inserted row hold by its type or by the provider its caller has read.\<close>

definition PERIOD_GLOB :: string where
  "PERIOD_GLOB = [CHR 0x27] @ ''[0-9][0-9][0-9][0-9]-[0-9][0-9]'' @ [CHR 0x27]"

definition period_glob :: "string \<Rightarrow> bool" where
  "period_glob s \<longleftrightarrow> length s = 7 \<and> list_all is_digit (take 4 s) \<and> s ! 4 = CHR ''-'' \<and> list_all is_digit (drop 5 s)"

definition insertExpense :: "expense_row \<Rightarrow> 'a treasury_db_scheme \<Rightarrow> 'a treasury_db_scheme result" where
  "insertExpense e db = (if \<not> period_glob (ex_period e)
     then Inl (JsError (''CHECK constraint failed: period GLOB '' @ PERIOD_GLOB))
     else if ex_id e \<in> ex_id ` set (td_expenses db)
     then Inl (JsError ''UNIQUE constraint failed: treasury_expenses.id'')
     else Inr (db\<lparr>td_expenses := td_expenses db @ [e]\<rparr>))"

section \<open>Proposals\<close>

definition listProposals :: "'a treasury_db_scheme \<Rightarrow> proposal_status option \<Rightarrow> int \<Rightarrow> proposal_row list" where
  "listProposals db st n = take (nat (clamp 1 1000 n)) (sort_desc pp_createdAt
     (filter (\<lambda>p. clause st (\<lambda>s. pp_status p = s)) (td_proposals db)))"

definition getProposal :: "'a treasury_db_scheme \<Rightarrow> string \<Rightarrow> proposal_row option" where
  "getProposal db pid = List.find (\<lambda>p. pp_id p = pid) (td_proposals db)"

definition putProposal :: "'a treasury_db_scheme \<Rightarrow> proposal_row \<Rightarrow> 'a treasury_db_scheme" where
  "putProposal db p = db\<lparr>td_proposals := td_proposals db @ [p]\<rparr>"

definition setProposal ::
  "'a treasury_db_scheme \<Rightarrow> string \<Rightarrow> (proposal_row \<Rightarrow> proposal_row) \<Rightarrow> 'a treasury_db_scheme" where
  "setProposal db pid f = db\<lparr>td_proposals := map (\<lambda>p. if pp_id p = pid then f p else p) (td_proposals db)\<rparr>"

definition insertProposal :: "proposal_row \<Rightarrow> 'a treasury_db_scheme \<Rightarrow> 'a treasury_db_scheme result" where
  "insertProposal p db = (if \<not> period_glob (pp_period p)
     then Inl (JsError (''CHECK constraint failed: period GLOB '' @ PERIOD_GLOB))
     else if getProposal db (pp_id p) \<noteq> None
     then Inl (JsError ''UNIQUE constraint failed: treasury_payment_proposals.id'')
     else Inr (putProposal db p))"

text \<open>The two triggers on an update: a column that may not change, or a status that may not follow.\<close>

definition once :: "'v option \<Rightarrow> 'v option \<Rightarrow> bool" where
  "once old new \<longleftrightarrow> old = None \<or> new = old"

definition proposal_immutable :: "proposal_row \<Rightarrow> proposal_row \<Rightarrow> bool" where
  "proposal_immutable r s \<longleftrightarrow> pp_id s = pp_id r \<and> pp_createdAt s = pp_createdAt r \<and> pp_providerId s = pp_providerId r \<and>
     pp_chain s = pp_chain r \<and> pp_recipient s = pp_recipient r \<and> pp_asset s = pp_asset r \<and>
     pp_amountUsd s = pp_amountUsd r \<and> pp_period s = pp_period r \<and> pp_memo s = pp_memo r \<and>
     pp_proposedBy s = pp_proposedBy r \<and> pp_source s = pp_source r \<and> pp_checks s = pp_checks r \<and>
     (pp_status r = Proposed \<or> pp_creatorApproval s = pp_creatorApproval r) \<and>
     once (pp_decidedAt r) (pp_decidedAt s) \<and> once (pp_decidedBy r) (pp_decidedBy s) \<and>
     once (pp_decisionNote r) (pp_decisionNote s) \<and> once (pp_decision r) (pp_decision s) \<and>
     once (pp_exportedAt r) (pp_exportedAt s) \<and> once (pp_exportedBy r) (pp_exportedBy s) \<and>
     once (pp_export r) (pp_export s)"

definition status_follows :: "proposal_status \<Rightarrow> proposal_status \<Rightarrow> bool" where
  "status_follows old new \<longleftrightarrow> new = old \<or> (old = Proposed \<and> new \<in> {Approved, Rejected}) \<or>
     (old = Approved \<and> new \<in> {Exported, Cancelled})"

definition updateProposal ::
  "string \<Rightarrow> (proposal_row \<Rightarrow> proposal_row) \<Rightarrow> 'a treasury_db_scheme \<Rightarrow> 'a treasury_db_scheme result" where
  "updateProposal pid f db = (case getProposal db pid of
     None \<Rightarrow> Inr db
   | Some r \<Rightarrow>
       if \<not> proposal_immutable r (f r)
       then Inl (JsError ''a treasury payment proposal is immutable apart from its status'')
       else if \<not> status_follows (pp_status r) (pp_status (f r))
       then Inl (JsError ''illegal treasury payment proposal transition'')
       else Inr (setProposal db pid f))"

definition decide_row ::
  "int \<Rightarrow> proposal_status \<Rightarrow> string \<Rightarrow> string \<Rightarrow> cap_decision \<Rightarrow> bool \<Rightarrow> proposal_row \<Rightarrow> proposal_row" where
  "decide_row t st who note d creator r = r\<lparr>pp_status := st, pp_creatorApproval := creator,
     pp_decidedAt := Some t, pp_decidedBy := Some who, pp_decisionNote := Some note, pp_decision := Some d\<rparr>"

definition decideProposal ::
  "int \<Rightarrow> string \<Rightarrow> proposal_status \<Rightarrow> string \<Rightarrow> string \<Rightarrow> cap_decision \<Rightarrow> bool \<Rightarrow> 'a treasury_db_scheme \<Rightarrow>
     'a treasury_db_scheme result" where
  "decideProposal t pid st who note d creator db = updateProposal pid (decide_row t st who note d creator) db"

definition cancelProposal :: "string \<Rightarrow> 'a treasury_db_scheme \<Rightarrow> 'a treasury_db_scheme result" where
  "cancelProposal pid db = updateProposal pid (\<lambda>r. r\<lparr>pp_status := Cancelled\<rparr>) db"

definition export_row :: "string \<Rightarrow> exported_instruction \<Rightarrow> proposal_row \<Rightarrow> proposal_row" where
  "export_row who ins r = r\<lparr>pp_status := Exported, pp_exportedAt := Some (ei_exportedAt ins),
     pp_exportedBy := Some who, pp_export := Some ins\<rparr>"

definition exportProposalRow ::
  "string \<Rightarrow> string \<Rightarrow> exported_instruction \<Rightarrow> 'a treasury_db_scheme \<Rightarrow> 'a treasury_db_scheme result" where
  "exportProposalRow pid who ins db = updateProposal pid (export_row who ins) db"

definition counted :: "proposal_row \<Rightarrow> bool" where
  "counted p \<longleftrightarrow> pp_status p \<in> {Approved, Exported}"

definition approvedInMonth :: "'a treasury_db_scheme \<Rightarrow> int \<Rightarrow> proposal_row list" where
  "approvedInMonth db t = (case monthBounds t of (start, stop) \<Rightarrow>
     sort_key (\<lambda>p. the (pp_decidedAt p)) (filter (\<lambda>p. counted p \<and>
       (case pp_decidedAt p of None \<Rightarrow> False | Some d \<Rightarrow> start \<le> d \<and> d < stop)) (td_proposals db)))"

definition approvedForProviderPeriod :: "'a treasury_db_scheme \<Rightarrow> string \<Rightarrow> string \<Rightarrow> proposal_row list" where
  "approvedForProviderPeriod db pid period = sort_key (\<lambda>p. case pp_decidedAt p of None \<Rightarrow> (0 :: int, 0) | Some d \<Rightarrow> (1, d))
     (filter (\<lambda>p. counted p \<and> pp_providerId p = pid \<and> pp_period p = period) (td_proposals db))"

section \<open>Alerts, snapshots and admin tokens\<close>

definition listAlerts :: "'a treasury_db_scheme \<Rightarrow> bool \<Rightarrow> int \<Rightarrow> alert_row list" where
  "listAlerts db includeAcknowledged n = take (nat (clamp 1 1000 n)) (sort_desc al_raisedAt
     (filter (\<lambda>a. includeAcknowledged \<or> al_acknowledgedAt a = None) (td_alerts db)))"

definition findOpenAlert :: "'a treasury_db_scheme \<Rightarrow> alert_kind \<Rightarrow> string \<Rightarrow> alert_row option" where
  "findOpenAlert db k key = (case sort_desc al_raisedAt (filter (\<lambda>a. al_kind a = k \<and> al_acknowledgedAt a = None
     \<and> al_key a = key) (td_alerts db)) of [] \<Rightarrow> None | a # _ \<Rightarrow> Some a)"

definition insertAlert :: "alert_row \<Rightarrow> 'a treasury_db_scheme \<Rightarrow> 'a treasury_db_scheme" where
  "insertAlert a db = db\<lparr>td_alerts := td_alerts db @ [a]\<rparr>"

definition acknowledgeAlertRow ::
  "int \<Rightarrow> string \<Rightarrow> 'a treasury_db_scheme \<Rightarrow> 'a treasury_db_scheme \<times> alert_row option" where
  "acknowledgeAlertRow t aid db = (let db = db\<lparr>td_alerts := map (\<lambda>a. if al_id a = aid \<and> al_acknowledgedAt a = None
       then a\<lparr>al_acknowledgedAt := Some t\<rparr> else a) (td_alerts db)\<rparr>
     in (db, List.find (\<lambda>a. al_id a = aid) (td_alerts db)))"

definition insertSnapshot :: "snapshot_row \<Rightarrow> 'a treasury_db_scheme \<Rightarrow> 'a treasury_db_scheme" where
  "insertSnapshot s db = db\<lparr>td_snapshots := td_snapshots db @ [s]\<rparr>"

definition latestSnapshots :: "'a treasury_db_scheme \<Rightarrow> int \<Rightarrow> snapshot_row list" where
  "latestSnapshots db n = take (nat (clamp 1 1000 n)) (sort_desc sn_takenAt (td_snapshots db))"

definition insertAdminToken :: "admin_token_row \<Rightarrow> 'a treasury_db_scheme \<Rightarrow> 'a treasury_db_scheme result" where
  "insertAdminToken r db = (if tk_id r \<in> tk_id ` set (td_tokens db) \<or> tk_tokenHash r \<in> tk_tokenHash ` set (td_tokens db)
     then Inl (JsError ''UNIQUE constraint failed: treasury_admin_tokens'')
     else Inr (db\<lparr>td_tokens := td_tokens db @ [r]\<rparr>))"

definition findAdminToken :: "'a treasury_db_scheme \<Rightarrow> string \<Rightarrow> admin_token_row option" where
  "findAdminToken db h = List.find (\<lambda>r. tk_tokenHash r = h) (td_tokens db)"

definition revokeAdminTokens :: "int \<Rightarrow> string \<Rightarrow> 'a treasury_db_scheme \<Rightarrow> 'a treasury_db_scheme \<times> int" where
  "revokeAdminTokens t sid db = (db\<lparr>td_tokens := map (\<lambda>r. if tk_sessionId r = sid \<and> tk_revokedAt r = None
       then r\<lparr>tk_revokedAt := Some t\<rparr> else r) (td_tokens db)\<rparr>,
     int (length (filter (\<lambda>r. tk_sessionId r = sid \<and> tk_revokedAt r = None) (td_tokens db))))"

definition pruneAdminTokens :: "int \<Rightarrow> 'a treasury_db_scheme \<Rightarrow> 'a treasury_db_scheme" where
  "pruneAdminTokens t db = db\<lparr>td_tokens := filter (\<lambda>r. \<not> tk_expiresAt r \<le> t) (td_tokens db)\<rparr>"

section \<open>The tables\<close>

interpretation pro: upd_table td_proposals pp_id getProposal putProposal setProposal
  by unfold_locales (simp_all add: getProposal_def putProposal_def setProposal_def)

interpretation prv: upd_table td_providers pv_id getProvider putProvider setProvider
  by unfold_locales (simp_all add: getProvider_def putProvider_def setProvider_def)

end
