(* ===== verification/Treasury_Service.thy ===== *)
theory Treasury_Service
  imports Treasury_Store
begin

text \<open>
  \<open>src/runtime/src/treasury/service.ts\<close>: configuration, freeze, providers, expenses, the life of a
  payment proposal (propose, approve, reject, cancel, export), alerts and the review cycle, with the
  deterministic check of the reviewing agent (\<open>src/runtime/src/agents/treasury/agent.ts\<close>). An operation that
  writes and may still raise returns the database and its result; one inside a transaction leaves
  the database as it was when it raises. An operation that awaits is split where it waits:
  \<open>export_begin\<close> and \<open>export_finish\<close> around the price lookup, \<open>review_prepare\<close> and \<open>review_finish\<close> around
  the model's reply. Approval reads the clock twice, once for the evaluation and once for the row.
\<close>

definition TREASURY_AGENT_ACTOR :: string where "TREASURY_AGENT_ACTOR = ''agent:treasury''"
definition RUNWAY_SHORT_MONTHS :: int where "RUNWAY_SHORT_MONTHS = 3"

definition treasury_audit ::
  "int \<Rightarrow> string \<Rightarrow> audit_status \<Rightarrow> string \<Rightarrow> string \<Rightarrow> chain_id option \<Rightarrow> string option \<Rightarrow>
     'a treasury_db_scheme \<Rightarrow> 'a treasury_db_scheme" where
  "treasury_audit t act st summary actor c corr db = audit_append t
     ((audit_event_of Cat_system act st summary actor None)\<lparr>ae_chain := c, ae_correlationId := corr\<rparr>) db"

definition noteRead :: "int \<Rightarrow> string \<Rightarrow> string \<Rightarrow> 'a treasury_db_scheme \<Rightarrow> 'a treasury_db_scheme" where
  "noteRead t what actor db = treasury_audit t (''treasury.'' @ what @ ''.read'') Au_ok
     (''Treasury '' @ what @ '' read'') actor None None db"

definition canonicalUsd :: "string \<Rightarrow> string \<Rightarrow> string result" where
  "canonicalUsd value field = (let bad = Inl (AppError E_SCHEMA_INVALID (field @ '' must be a non-negative USD amount'')) in
     case usdToMicros value of Inl _ \<Rightarrow> bad | Inr m \<Rightarrow> if m < 0 then bad else Inr (microsToUsd m))"

text \<open>Writes that come before an error stay: \<open>andThen\<close> goes on from a pair of database and result.\<close>

definition andThen :: "'d \<times> 'a result \<Rightarrow> ('d \<Rightarrow> 'a \<Rightarrow> 'd \<times> 'b result) \<Rightarrow> 'd \<times> 'b result" where
  "andThen m f = (case m of (d, Inl e) \<Rightarrow> (d, Inl e) | (d, Inr a) \<Rightarrow> f d a)"

definition transaction :: "'d \<Rightarrow> ('d \<times> 'a) result \<Rightarrow> 'd \<times> 'a result" where
  "transaction d m = (case m of Inl e \<Rightarrow> (d, Inl e) | Inr (d', a) \<Rightarrow> (d', Inr a))"

section \<open>Alerts\<close>

text \<open>The id of an alert is a fresh random UUID.\<close>

definition raiseAlert ::
  "int \<Rightarrow> string \<Rightarrow> alert_kind \<Rightarrow> alert_severity \<Rightarrow> string \<Rightarrow> string \<Rightarrow> 'a treasury_db_scheme \<Rightarrow>
     'a treasury_db_scheme \<times> alert_row option" where
  "raiseAlert t aid k sev key summary db = (if findOpenAlert db k key \<noteq> None then (db, None)
     else let a = \<lparr>al_id = aid, al_kind = k, al_severity = sev, al_summary = summary, al_key = key,
            al_raisedAt = t, al_acknowledgedAt = None\<rparr>
       in (treasury_audit t ''treasury.alert.raised'' Au_pending summary ''system'' None None
             (insertAlert a db), Some a))"

definition acknowledgeAlert :: "int \<Rightarrow> string \<Rightarrow> string \<Rightarrow> 'a treasury_db_scheme \<Rightarrow> 'a treasury_db_scheme \<times> alert_row result" where
  "acknowledgeAlert t aid actor db = (case acknowledgeAlertRow t aid db of
     (db, None) \<Rightarrow> (db, Inl (AppError E_NOT_FOUND (''No treasury alert with id '' @ aid)))
   | (db, Some a) \<Rightarrow> (treasury_audit t ''treasury.alert.acknowledged'' Au_ok
       (''Treasury alert acknowledged: '' @ al_summary a) actor None None db, Inr a))"

section \<open>Configuration and freeze\<close>

definition canonical_caps :: "caps_update \<Rightarrow> caps_update result" where
  "canonical_caps u =
     sbind (opt_result (\<lambda>v. canonicalUsd v ''lowBalanceThresholdUsd'') (cu_lowBalanceThresholdUsd u)) (\<lambda>a.
     sbind (opt_result (\<lambda>v. canonicalUsd v ''perPaymentCapUsd'') (cu_perPaymentCapUsd u)) (\<lambda>b.
     sbind (opt_result (\<lambda>v. canonicalUsd v ''monthlyCapUsd'') (cu_monthlyCapUsd u)) (\<lambda>c.
     sbind (opt_result (\<lambda>v. canonicalUsd v ''approvalThresholdUsd'') (cu_approvalThresholdUsd u)) (\<lambda>d.
       Inr \<lparr>cu_lowBalanceThresholdUsd = a, cu_perPaymentCapUsd = b, cu_monthlyCapUsd = c,
            cu_approvalThresholdUsd = d\<rparr>))))"

definition canonical_token :: "treasury_lib \<Rightarrow> chain_id \<Rightarrow> treasury_token \<Rightarrow> treasury_token result" where
  "canonical_token T c tk = sbind (canonicalTreasuryAddress T c (tt_address tk)
       (''addresses.'' @ chain_str c @ ''.tokens.'' @ tt_symbol tk))
     (\<lambda>a. Inr (tk\<lparr>tt_address := a\<rparr>))"

definition canonical_address :: "treasury_lib \<Rightarrow> address_input \<Rightarrow> address_input result" where
  "canonical_address T i =
     sbind (canonicalTreasuryAddress T (ia_chain i) (ia_address i) (''addresses.'' @ chain_str (ia_chain i) @ ''.address''))
       (\<lambda>a. sbind (map_result (canonical_token T (ia_chain i)) (ia_tokens i))
       (\<lambda>tks. Inr (i\<lparr>ia_address := a, ia_tokens := tks\<rparr>)))"

definition no_caps_update :: caps_update where
  "no_caps_update = \<lparr>cu_lowBalanceThresholdUsd = None, cu_perPaymentCapUsd = None, cu_monthlyCapUsd = None,
     cu_approvalThresholdUsd = None\<rparr>"

definition updateConfig ::
  "treasury_lib \<Rightarrow> int \<Rightarrow> caps_update \<Rightarrow> address_input list \<Rightarrow> string \<Rightarrow> 'a treasury_db_scheme \<Rightarrow>
     'a treasury_db_scheme result" where
  "updateConfig T t u addresses actor db =
     sbind (canonical_caps u) (\<lambda>caps.
     sbind (map_result (canonical_address T) addresses) (\<lambda>entries.
     sbind (configRow db) (\<lambda>_.
     sbind (if caps \<noteq> no_caps_update then updateCaps t caps db else Inr db) (\<lambda>db.
       Inr (treasury_audit t ''treasury.config.updated'' Au_ok ''Treasury configuration updated'' actor None None
         (fold (upsertAddress t) entries db))))))"

definition freeze :: "int \<Rightarrow> string \<Rightarrow> string \<Rightarrow> string \<Rightarrow> 'a treasury_db_scheme \<Rightarrow> 'a treasury_db_scheme" where
  "freeze t aid reason actor db = fst (raiseAlert t aid Frozen_alert Critical ''freeze'' (''Treasury frozen: '' @ reason)
     (treasury_audit t ''treasury.frozen'' Au_ok (''Treasury frozen: '' @ reason) actor None None
       (setFrozen t True (Some reason) actor db)))"

definition clearFreeze :: "int \<Rightarrow> string \<Rightarrow> string \<Rightarrow> 'a treasury_db_scheme \<Rightarrow> 'a treasury_db_scheme result" where
  "clearFreeze t note actor db = sbind (configRow db) (\<lambda>c.
     if \<not> tc_frozen c then Inl (AppError E_CONFLICT ''The treasury is not frozen'')
     else Inr (treasury_audit t ''treasury.freeze.cleared'' Au_ok (''Treasury freeze cleared: '' @ note) actor None None
       (setFrozen t False None actor db)))"

section \<open>Providers\<close>

definition requireProvider :: "'a treasury_db_scheme \<Rightarrow> string \<Rightarrow> treasury_provider result" where
  "requireProvider db pid = (case getProvider db pid of
     None \<Rightarrow> Inl (AppError E_NOT_FOUND (''No treasury provider with id '' @ pid)) | Some p \<Rightarrow> Inr p)"

definition normalizeProvider :: "treasury_lib \<Rightarrow> provider_input \<Rightarrow> provider_input result" where
  "normalizeProvider T i = (let name = js_trim (ip_name i) in
     if name = [] then Inl (AppError E_SCHEMA_INVALID ''A provider needs a name'')
     else sbind (canonicalUsd (ip_monthlyBudgetUsd i) ''monthlyBudgetUsd'') (\<lambda>budget.
       if ip_billingMode i = On_chain
       then (case ip_recipient i of
           None \<Rightarrow> Inl (AppError E_SCHEMA_INVALID ''An on-chain provider needs an allowlisted recipient address'')
         | Some (c, a) \<Rightarrow> sbind (canonicalTreasuryAddress T c a ''recipient.address'') (\<lambda>a.
             Inr (i\<lparr>ip_name := name, ip_monthlyBudgetUsd := budget, ip_recipient := Some (c, a)\<rparr>)))
       else if ip_recipient i \<noteq> None
       then Inl (AppError E_SCHEMA_INVALID (''A '' @ billing_str (ip_billingMode i) @
         '' provider cannot carry a recipient address; only on-chain providers are paid from the treasury wallet''))
       else Inr (i\<lparr>ip_name := name, ip_monthlyBudgetUsd := budget\<rparr>)))"

definition addProvider ::
  "treasury_lib \<Rightarrow> int \<Rightarrow> string \<Rightarrow> provider_input \<Rightarrow> string \<Rightarrow> 'a treasury_db_scheme \<Rightarrow> 'a treasury_db_scheme result" where
  "addProvider T t pid i actor db = sbind (normalizeProvider T i) (\<lambda>clean.
     if findProviderByName db (ip_name clean) \<noteq> None
     then Inl (AppError E_CONFLICT (''A provider named '' @ ip_name clean @ '' already exists''))
     else sbind (insertProvider t pid clean db) (\<lambda>db.
       Inr (treasury_audit t ''treasury.provider.added'' Au_ok
         (''Provider '' @ ip_name clean @ '' added ('' @ billing_str (ip_billingMode clean) @ '')'') actor
         (map_option fst (ip_recipient clean)) None db)))"

text \<open>In an update the recipient may be left out, removed or given.\<close>

record provider_update =
  pu_name :: "string option"
  pu_category :: "provider_category option"
  pu_billingMode :: "billing_mode option"
  pu_monthlyBudgetUsd :: "string option"
  pu_recipient :: "(chain_id \<times> string) option option"
  pu_note :: "string option"
  pu_active :: "bool option"

definition merge_provider :: "provider_update \<Rightarrow> treasury_provider \<Rightarrow> provider_input" where
  "merge_provider u p = \<lparr>ip_name = or_keep (pu_name u) (pv_name p), ip_category = or_keep (pu_category u) (pv_category p),
     ip_billingMode = or_keep (pu_billingMode u) (pv_billingMode p),
     ip_monthlyBudgetUsd = or_keep (pu_monthlyBudgetUsd u) (pv_monthlyBudgetUsd p),
     ip_recipient = or_keep (pu_recipient u) (pv_recipient p), ip_note = or_keep (pu_note u) (pv_note p)\<rparr>"

definition updateProvider ::
  "treasury_lib \<Rightarrow> int \<Rightarrow> string \<Rightarrow> provider_update \<Rightarrow> string \<Rightarrow> 'a treasury_db_scheme \<Rightarrow> 'a treasury_db_scheme result" where
  "updateProvider T t pid u actor db = sbind (requireProvider db pid) (\<lambda>cur.
     sbind (normalizeProvider T (merge_provider u cur)) (\<lambda>merged.
       if (case findProviderByName db (ip_name merged) of None \<Rightarrow> False | Some clash \<Rightarrow> pv_id clash \<noteq> pid)
       then Inl (AppError E_CONFLICT (''A provider named '' @ ip_name merged @ '' already exists''))
       else Inr (treasury_audit t ''treasury.provider.updated'' Au_ok (''Provider '' @ ip_name merged @ '' updated'')
         actor None None (updateProviderRow t pid merged (or_keep (pu_active u) (pv_active cur)) db))))"

definition providerPeriodSpend :: "'a treasury_db_scheme \<Rightarrow> string \<Rightarrow> string \<Rightarrow> string result" where
  "providerPeriodSpend db pid period = sumUsd (map ex_amountUsd (listExpenses db (Some period) (Some pid) 2000) @
     map pp_amountUsd (approvedForProviderPeriod db pid period))"

record provider_view =
  pw_provider :: treasury_provider
  pw_spentThisPeriodUsd :: string
  pw_remainingBudgetUsd :: "string option"
  pw_overBudget :: bool

definition providerView :: "'a treasury_db_scheme \<Rightarrow> string \<Rightarrow> treasury_provider \<Rightarrow> provider_view result" where
  "providerView db period p =
     sbind (providerPeriodSpend db (pv_id p) period) (\<lambda>spent.
     sbind (usdToMicros (pv_monthlyBudgetUsd p)) (\<lambda>budget.
     sbind (usdToMicros spent) (\<lambda>micros.
       Inr \<lparr>pw_provider = p, pw_spentThisPeriodUsd = spent,
         pw_remainingBudgetUsd = (if budget > 0 then Some (microsToUsd (budget - micros)) else None),
         pw_overBudget = (budget > 0 \<and> micros > budget)\<rparr>)))"

definition listProviderViews :: "int \<Rightarrow> 'a treasury_db_scheme \<Rightarrow> provider_view list result" where
  "listProviderViews t db = map_result (providerView db (periodOf t)) (listProviders db)"

definition checkProviderBudget ::
  "int \<Rightarrow> string \<Rightarrow> treasury_provider \<Rightarrow> string \<Rightarrow> 'a treasury_db_scheme \<Rightarrow> 'a treasury_db_scheme \<times> bool result" where
  "checkProviderBudget t aid p period db = (case usdToMicros (pv_monthlyBudgetUsd p) of
     Inl e \<Rightarrow> (db, Inl e)
   | Inr budget \<Rightarrow> if budget \<le> 0 then (db, Inr False)
       else (case sbind (providerPeriodSpend db (pv_id p) period) (\<lambda>spent. sbind (usdToMicros spent) (\<lambda>m. Inr (spent, m))) of
         Inl e \<Rightarrow> (db, Inl e)
       | Inr (spent, micros) \<Rightarrow> if micros \<le> budget then (db, Inr False)
           else (case raiseAlert t aid Budget_exceeded Warning (pv_id p @ '':'' @ period)
               (pv_name p @ '' spent '' @ spent @ '' USD in '' @ period @ '', over its '' @ pv_monthlyBudgetUsd p @ '' USD budget'') db
             of (db, a) \<Rightarrow> (db, Inr (a \<noteq> None)))))"

section \<open>Expenses\<close>

record expense_record =
  er_providerId :: string
  er_period :: string
  er_amountUsd :: string
  er_kind :: expense_kind
  er_status :: expense_status
  er_source :: expense_source
  er_note :: string

fun expense_kind_str :: "expense_kind \<Rightarrow> string" where
  "expense_kind_str Recurring = ''recurring''"
| "expense_kind_str One_off = ''one-off''"
| "expense_kind_str Manual_payable = ''manual-payable''"

fun expense_status_str :: "expense_status \<Rightarrow> string" where
  "expense_status_str Paid = ''paid''"
| "expense_status_str Due = ''due''"
| "expense_status_str Payable = ''payable''"

definition expense_of :: "int \<Rightarrow> string \<Rightarrow> string \<Rightarrow> string \<Rightarrow> expense_record \<Rightarrow> expense_row" where
  "expense_of t eid amount actor r = \<lparr>ex_id = eid, ex_providerId = er_providerId r, ex_period = er_period r,
     ex_amountUsd = amount, ex_kind = er_kind r, ex_status = er_status r, ex_source = er_source r,
     ex_note = er_note r, ex_recordedAt = t, ex_recordedBy = actor\<rparr>"

definition recordExpense ::
  "int \<Rightarrow> string \<Rightarrow> string \<Rightarrow> expense_record \<Rightarrow> string \<Rightarrow> 'a treasury_db_scheme \<Rightarrow>
     'a treasury_db_scheme \<times> expense_row result" where
  "recordExpense t eid aid r actor db = (case
       sbind (requireProvider db (er_providerId r)) (\<lambda>p.
       sbind (canonicalUsd (er_amountUsd r) ''amountUsd'') (\<lambda>amount.
       sbind (usdToMicros amount) (\<lambda>micros.
         if micros \<le> 0 then Inl (AppError E_SCHEMA_INVALID ''An expense must be greater than zero'')
         else let row = expense_of t eid amount actor r in
           sbind (insertExpense row db) (\<lambda>db. Inr (p, row, treasury_audit t ''treasury.expense.recorded'' Au_ok
             (''Expense recorded: '' @ pv_name p @ '' '' @ er_period r @ '' '' @ amount @ '' USD ('' @
               expense_kind_str (er_kind r) @ '', '' @ expense_status_str (er_status r) @ '')'') actor None None db)))))
     of Inl e \<Rightarrow> (db, Inl e)
      | Inr (p, row, db) \<Rightarrow> andThen (checkProviderBudget t aid p (er_period r) db) (\<lambda>db _. (db, Inr row)))"

definition recordManualPayable ::
  "int \<Rightarrow> string \<Rightarrow> string \<Rightarrow> string \<Rightarrow> string \<Rightarrow> string \<Rightarrow> string \<Rightarrow> string \<Rightarrow> 'a treasury_db_scheme \<Rightarrow>
     'a treasury_db_scheme \<times> expense_row result" where
  "recordManualPayable t eid aid pid period amount note actor db = recordExpense t eid aid
     \<lparr>er_providerId = pid, er_period = period, er_amountUsd = amount, er_kind = Manual_payable,
      er_status = Payable, er_source = Manual_entry, er_note = note\<rparr> actor db"

section \<open>Proposals\<close>

text \<open>The code of a decision as it is printed.\<close>

definition cap_verdict :: "cap_decision \<Rightarrow> string" where
  "cap_verdict d = (case cd_code d of None \<Rightarrow> ''OK'' | Some c \<Rightarrow> cap_code_str c)"

definition capsRefused :: "cap_decision \<Rightarrow> app_error" where
  "capsRefused d = AppError E_CONFLICT (''The payment proposal does not pass the treasury caps: '' @ cd_reason d)"

definition monthToDate :: "'a treasury_db_scheme \<Rightarrow> int \<Rightarrow> string option \<Rightarrow> string result" where
  "monthToDate db t exclude = sumUsd (map pp_amountUsd (filter (\<lambda>p. Some (pp_id p) \<noteq> exclude) (approvedInMonth db t)))"

definition caps_evaluate ::
  "int \<Rightarrow> cap_stage \<Rightarrow> treasury_provider option \<Rightarrow> chain_id \<Rightarrow> string \<Rightarrow> string \<Rightarrow> string \<Rightarrow> string \<Rightarrow> bool \<Rightarrow>
     string option \<Rightarrow> 'a treasury_db_scheme \<Rightarrow> cap_decision result" where
  "caps_evaluate t stage pv c recipient asset amount period creator exclude db =
     sbind (configRow db) (\<lambda>config.
     sbind (monthToDate db t exclude) (\<lambda>mtd.
     sbind (case pv of None \<Rightarrow> Inr ''0.000000'' | Some p \<Rightarrow> providerPeriodSpend db (pv_id p) period) (\<lambda>spend.
       evaluateCaps \<lparr>ci_now = t, ci_stage = stage, ci_frozen = tc_frozen config, ci_caps = tc_caps config,
         ci_provider = pv, ci_enabledChains = enabledTreasuryChains db,
         ci_proposal = \<lparr>cq_providerId = (case pv of None \<Rightarrow> ''unknown'' | Some p \<Rightarrow> pv_id p), cq_chain = c,
           cq_recipient = recipient, cq_asset = asset, cq_amountUsd = amount\<rparr>,
         ci_monthToDateApprovedUsd = mtd, ci_providerPeriodSpendUsd = spend, ci_period = period,
         ci_creatorApproval = creator\<rparr>)))"

record proposal_request =
  pq_providerId :: string
  pq_amountUsd :: string
  pq_asset :: string
  pq_period :: "string option"
  pq_memo :: "string option"

text \<open>A provider without a recipient is evaluated on a placeholder; its proposal cannot pass, and the
  non-null assertions after the evaluation rest on that.\<close>

definition propose ::
  "int \<Rightarrow> string \<Rightarrow> proposal_request \<Rightarrow> string \<Rightarrow> proposal_source \<Rightarrow> 'a treasury_db_scheme \<Rightarrow>
     'a treasury_db_scheme \<times> proposal_row result" where
  "propose t pid q actor source db = (let
     period = or_keep (pq_period q) (periodOf t);
     pv = getProvider db (pq_providerId q);
     rcp = (case pv of None \<Rightarrow> None | Some p \<Rightarrow> pv_recipient p)
   in case sbind (canonicalUsd (pq_amountUsd q) ''amountUsd'') (\<lambda>amount.
        sbind (caps_evaluate t Propose pv (case rcp of None \<Rightarrow> Base | Some (c, a) \<Rightarrow> c)
          (case rcp of None \<Rightarrow> ''none'' | Some (c, a) \<Rightarrow> a) (pq_asset q) amount period False None db)
        (\<lambda>d. Inr (amount, d))) of
      Inl e \<Rightarrow> (db, Inl e)
    | Inr (amount, d) \<Rightarrow>
        if \<not> cd_allowed d
        then (treasury_audit t ''treasury.proposal.refused'' Au_rejected (''Payment proposal refused: '' @ cap_verdict d @ '' ('' @
               (case pv of None \<Rightarrow> pq_providerId q | Some p \<Rightarrow> pv_name p) @ '', '' @ amount @ '' USD)'') actor
               (map_option fst rcp) None db, Inl (capsRefused d))
        else (case (pv, rcp) of
          (Some p, Some (c, a)) \<Rightarrow> let row = \<lparr>pp_id = pid, pp_createdAt = t, pp_providerId = pv_id p, pp_chain = c,
              pp_recipient = a, pp_asset = pq_asset q, pp_amountUsd = amount, pp_period = period,
              pp_memo = or_keep (pq_memo q) '''', pp_proposedBy = actor, pp_source = source, pp_checks = d,
              pp_status = Proposed, pp_creatorApproval = False, pp_decidedAt = None, pp_decidedBy = None,
              pp_decisionNote = None, pp_decision = None, pp_exportedAt = None, pp_exportedBy = None, pp_export = None\<rparr>
            in (case insertProposal row db of Inl e \<Rightarrow> (db, Inl e)
                | Inr db \<Rightarrow> (treasury_audit t ''treasury.proposal.created'' Au_pending
                    (''Payment proposal '' @ take 8 pid @ '': '' @ pv_name p @ '' '' @ amount @ '' '' @ pq_asset q @ '' on '' @
                      chain_str c @ '' (awaiting approval)'') actor (Some c) (Some pid) db, Inr row))
        | _ \<Rightarrow> (db, Inl (JsError ''TypeError''))))"

definition requireProposal :: "'a treasury_db_scheme \<Rightarrow> string \<Rightarrow> proposal_row result" where
  "requireProposal db pid = (case getProposal db pid of
     None \<Rightarrow> Inl (AppError E_NOT_FOUND (''No payment proposal with id '' @ pid)) | Some p \<Rightarrow> Inr p)"

definition assertTransition :: "proposal_row \<Rightarrow> proposal_status \<Rightarrow> string \<Rightarrow> unit result" where
  "assertTransition p expected verb = (if pp_status p \<noteq> expected
     then Inl (AppError E_CONFLICT (''Cannot '' @ verb @ '' a proposal in status '' @ status_str (pp_status p) @
       ''; it must be '' @ status_str expected)) else Inr ())"

definition assertNotFrozen :: "string \<Rightarrow> 'a treasury_db_scheme \<Rightarrow> unit result" where
  "assertNotFrozen verb db = (if isFrozen db
     then Inl (AppError E_CONFLICT (''The treasury is frozen; cannot '' @ verb)) else Inr ())"

text \<open>The transaction's outcome carries the decision that failed, and the error is raised outside it.\<close>

definition approve_write ::
  "int \<Rightarrow> string \<Rightarrow> bool \<Rightarrow> string \<Rightarrow> string \<Rightarrow> proposal_row \<Rightarrow> cap_decision \<Rightarrow> 'a treasury_db_scheme \<Rightarrow>
     ('a treasury_db_scheme \<times> cap_decision option) result" where
  "approve_write t pid creator note actor p d db =
     (if \<not> cd_allowed d
      then sbind (decideProposal t pid Rejected actor (''refused by caps: '' @ cd_reason d @
          (if note \<noteq> '''' then '' ('' @ note @ '')'' else '''')) d creator db) (\<lambda>db.
        Inr (treasury_audit t ''treasury.proposal.rejected'' Au_rejected
          (''Payment proposal '' @ take 8 pid @ '' rejected by caps: '' @ cap_verdict d) actor (Some (pp_chain p)) (Some pid) db, Some d))
      else sbind (decideProposal t pid Approved actor note d creator db) (\<lambda>db.
        Inr (treasury_audit t ''treasury.proposal.approved'' Au_ok
          (''Payment proposal '' @ take 8 pid @ '' approved: '' @
            (case getProvider db (pp_providerId p) of None \<Rightarrow> pp_providerId p | Some pv \<Rightarrow> pv_name pv) @ '' '' @ pp_amountUsd p @
            '' '' @ pp_asset p @ '' on '' @ chain_str (pp_chain p)) actor (Some (pp_chain p)) (Some pid) db, None)))"

definition approve ::
  "int \<Rightarrow> int \<Rightarrow> string \<Rightarrow> bool \<Rightarrow> string \<Rightarrow> string \<Rightarrow> 'a treasury_db_scheme \<Rightarrow>
     'a treasury_db_scheme \<times> unit result" where
  "approve t t' pid creator note actor db = (case transaction db (
       sbind (requireProposal db pid) (\<lambda>p.
       sbind (assertTransition p Proposed ''approve'') (\<lambda>_.
       sbind (assertNotFrozen ''approve a payment proposal'' db) (\<lambda>_.
       sbind (caps_evaluate t Approve_stage (getProvider db (pp_providerId p)) (pp_chain p) (pp_recipient p)
         (pp_asset p) (pp_amountUsd p) (pp_period p) creator (Some (pp_id p)) db) (\<lambda>d.
         approve_write t' pid creator note actor p d db))))) of
     (db, Inl e) \<Rightarrow> (db, Inl e)
   | (db, Inr (Some d)) \<Rightarrow> (db, Inl (capsRefused d))
   | (db, Inr None) \<Rightarrow> (db, Inr ()))"

definition reject :: "int \<Rightarrow> string \<Rightarrow> string \<Rightarrow> string \<Rightarrow> 'a treasury_db_scheme \<Rightarrow> 'a treasury_db_scheme result" where
  "reject t pid note actor db =
     sbind (requireProposal db pid) (\<lambda>p.
     sbind (assertTransition p Proposed ''reject'') (\<lambda>_.
     sbind (decideProposal t pid Rejected actor note ((pp_checks p)\<lparr>cd_stage := Approve_stage, cd_evaluatedAt := t,
         cd_allowed := False, cd_reason := ''rejected by '' @ actor @ '': '' @ note\<rparr>) False db) (\<lambda>db.
       Inr (treasury_audit t ''treasury.proposal.rejected'' Au_rejected (''Payment proposal '' @ take 8 pid @
         '' rejected: '' @ note) actor (Some (pp_chain p)) (Some pid) db))))"

definition cancel :: "int \<Rightarrow> string \<Rightarrow> string \<Rightarrow> string \<Rightarrow> 'a treasury_db_scheme \<Rightarrow> 'a treasury_db_scheme result" where
  "cancel t pid note actor db =
     sbind (requireProposal db pid) (\<lambda>p.
     sbind (assertTransition p Approved ''cancel'') (\<lambda>_.
     sbind (cancelProposal pid db) (\<lambda>db.
       Inr (treasury_audit t ''treasury.proposal.cancelled'' Au_ok (''Approved payment proposal '' @ take 8 pid @
         '' cancelled: '' @ note) actor (Some (pp_chain p)) (Some pid) db))))"

section \<open>Export\<close>

text \<open>USD to base units at a price, rounded down so that the instruction never overpays.\<close>

definition usdToBaseUnits :: "string \<Rightarrow> int \<Rightarrow> string \<Rightarrow> int result" where
  "usdToBaseUnits amountUsd decimals priceUsd =
     sbind (usdToMicros amountUsd) (\<lambda>usdMicros.
     sbind (priceToAtto priceUsd) (\<lambda>priceAtto.
       if priceAtto \<le> 0 then Inl (JsError ''non-positive price'')
       else let numerator = usdMicros * 10 ^ nat decimals * 10 ^ 12; units = bdiv numerator priceAtto in
         sbind (nativeToUsdMicros units decimals priceAtto RCeil) (\<lambda>back.
           Inr (if back > usdMicros then units - 1 else units))))"

text \<open>What an export carries over the wait for the price.\<close>

record export_context =
  xc_proposal :: proposal_row
  xc_provider :: treasury_provider
  xc_token :: token_info
  xc_from :: treasury_address

definition export_context_of :: "proposal_row \<Rightarrow> treasury_provider \<Rightarrow> 'a treasury_db_scheme \<Rightarrow> export_context result" where
  "export_context_of p pv db = (case List.find (\<lambda>k. ti_symbol k = pp_asset p) (ci_tokens (CHAINS (pp_chain p))) of
     None \<Rightarrow> Inl (AppError E_CONFLICT (''Asset '' @ pp_asset p @ '' is not listed for '' @ chain_str (pp_chain p)))
   | Some token \<Rightarrow> (case getAddress db (pp_chain p) of
       None \<Rightarrow> Inl (AppError E_CONFLICT (''No enabled treasury address is configured for '' @ chain_str (pp_chain p)))
     | Some src \<Rightarrow> if \<not> ta_enabled src
         then Inl (AppError E_CONFLICT (''No enabled treasury address is configured for '' @ chain_str (pp_chain p)))
         else Inr \<lparr>xc_proposal = p, xc_provider = pv, xc_token = token, xc_from = src\<rparr>))"

definition export_begin :: "string \<Rightarrow> 'a treasury_db_scheme \<Rightarrow> export_context result" where
  "export_begin pid db =
     sbind (requireProposal db pid) (\<lambda>p.
     sbind (assertTransition p Approved ''export'') (\<lambda>_.
     sbind (assertNotFrozen ''export a payment proposal'' db) (\<lambda>_.
     sbind (requireProvider db (pp_providerId p)) (\<lambda>pv. export_context_of p pv db))))"

text \<open>The priced amount of the instruction: base units, their decimal form, the price, and why there is none.\<close>

record export_amount =
  xa_baseUnits :: "string option"
  xa_decimal :: "string option"
  xa_price :: "(string \<times> string list \<times> string) option"
  xa_reason :: "string option"

definition no_amount :: "string \<Rightarrow> export_amount" where
  "no_amount why = \<lparr>xa_baseUnits = None, xa_decimal = None, xa_price = None,
     xa_reason = Some (why @ ''; convert the USD amount manually'')\<rparr>"

definition export_amount_of :: "int \<Rightarrow> string \<Rightarrow> token_info \<Rightarrow> price_answer \<Rightarrow> export_amount" where
  "export_amount_of t amountUsd token ans = (case ans of
     Lookup_failed msg \<Rightarrow> no_amount (''price lookup failed: '' @ msg)
   | Quoted q \<Rightarrow> (case qt_priceUsd q of
       None \<Rightarrow> no_amount (''asset price unknown: '' @ or_text (qt_reason q) ''no provider returned a price'')
     | Some price \<Rightarrow>
         if qt_disputed q then no_amount (''asset price disputed: '' @ or_text (qt_reason q) ''providers disagree'')
         else (case usdToBaseUnits amountUsd (ti_decimals token) price of
             Inl e \<Rightarrow> no_amount (''price lookup failed: '' @ error_text e)
           | Inr units \<Rightarrow> \<lparr>xa_baseUnits = Some (int_str units),
               xa_decimal = Some (formatUnits units (ti_decimals token)),
               xa_price = Some (price, map fst (qt_sources q),
                 (case qt_sources q of [] \<Rightarrow> toISOString t | s # _ \<Rightarrow> snd s)),
               xa_reason = (case qt_reason q of None \<Rightarrow> None | Some r \<Rightarrow> if r = '''' then None else Some r)\<rparr>)))"

definition instruction_of :: "int \<Rightarrow> export_context \<Rightarrow> price_answer \<Rightarrow> exported_instruction" where
  "instruction_of t x ans = (let p = xc_proposal x; amt = export_amount_of t (pp_amountUsd p) (xc_token x) ans in
     \<lparr>ei_proposalId = pp_id p, ei_exportedAt = t, ei_chain = pp_chain p,
      ei_evmChainId = ci_evmChainId (CHAINS (pp_chain p)), ei_from = ta_address (xc_from x),
      ei_recipient = pp_recipient p, ei_asset = xc_token x, ei_amountUsd = pp_amountUsd p,
      ei_amountBaseUnits = xa_baseUnits amt, ei_amountDecimal = xa_decimal amt, ei_price = xa_price amt,
      ei_priceReason = xa_reason amt, ei_memo = pp_memo p, ei_provider = (pv_id (xc_provider x), pv_name (xc_provider x)),
      ei_approvedBy = pp_decidedBy p, ei_approvedAt = pp_decidedAt p, ei_creatorApproval = pp_creatorApproval p,
      ei_checks = (case pp_decision p of Some d \<Rightarrow> cd_checks d | None \<Rightarrow> cd_checks (pp_checks p))\<rparr>)"

definition export_finish ::
  "int \<Rightarrow> export_context \<Rightarrow> price_answer \<Rightarrow> string \<Rightarrow> 'a treasury_db_scheme \<Rightarrow>
     'a treasury_db_scheme \<times> exported_instruction result" where
  "export_finish t x ans actor db = (let pid = pp_id (xc_proposal x); ins = instruction_of t x ans in
     case sbind (assertNotFrozen ''export a payment proposal'' db) (\<lambda>_.
       sbind (requireProposal db pid) (\<lambda>fresh.
       sbind (assertTransition fresh Approved ''export'') (\<lambda>_. exportProposalRow pid actor ins db))) of
       Inl e \<Rightarrow> (db, Inl e)
     | Inr db \<Rightarrow> (treasury_audit t ''treasury.proposal.exported'' Au_ok (''Payment proposal '' @ take 8 pid @
         '' exported as a manual transfer instruction: '' @ ei_amountUsd ins @ '' USD in '' @ ti_symbol (ei_asset ins) @
         '' on '' @ chain_str (ei_chain ins)) actor (Some (ei_chain ins)) (Some pid) db, Inr ins))"

section \<open>Reading the balances\<close>

text \<open>
  \<open>readBalances\<close>: the addresses of the configuration are read (the answers of adapters and market are the
  argument \<open>ask\<close>), every reading is stored as a snapshot, and alerts are raised for what could not be read
  or priced and for a complete total below the threshold. The configuration is the one fetched before
  the readings. Snapshot and alert ids come from \<open>ids\<close>.
\<close>

definition snapshots_of :: "(nat \<Rightarrow> string) \<Rightarrow> balance_report \<Rightarrow> 'a treasury_db_scheme \<Rightarrow> 'a treasury_db_scheme" where
  "snapshots_of ids rep db = fold (\<lambda>(i, v). insertSnapshot \<lparr>sn_id = ids (2 * i), sn_takenAt = bp_takenAt rep, sn_view = v\<rparr>)
     (enumerate 0 (bp_assets rep)) db"

definition asset_alert :: "int \<Rightarrow> string \<Rightarrow> asset_view \<Rightarrow> 'a treasury_db_scheme \<Rightarrow> 'a treasury_db_scheme" where
  "asset_alert t aid v db = (let key = chain_str (av_chain v) @ '':'' @ av_asset v in
     if av_amount v = None then fst (raiseAlert t aid Balance_unreadable Warning key
       (chain_str (av_chain v) @ '' '' @ av_symbol v @ '' balance could not be read: '' @ or_text (av_reason v) ''unknown'') db)
     else if av_valueUsd v = None then fst (raiseAlert t aid Price_unknown Info key
       (chain_str (av_chain v) @ '' '' @ av_symbol v @ '' balance is unpriced: '' @ or_text (av_reason v) ''unknown'') db)
     else db)"

definition low_balance_alert ::
  "int \<Rightarrow> string \<Rightarrow> string \<Rightarrow> balance_report \<Rightarrow> 'a treasury_db_scheme \<Rightarrow> 'a treasury_db_scheme \<times> unit result" where
  "low_balance_alert t aid threshold rep db = (case
       sbind (usdToMicros threshold) (\<lambda>thr. sbind (usdToMicros (bp_pricedValueUsd rep)) (\<lambda>bal. Inr (thr, bal))) of
     Inl e \<Rightarrow> (db, Inl e)
   | Inr (thr, bal) \<Rightarrow> (if bp_complete rep \<and> thr > 0 \<and> bal < thr
       then fst (raiseAlert t aid Low_balance Critical ''total'' (''Treasury balance '' @ bp_pricedValueUsd rep @
         '' USD is below the '' @ threshold @ '' USD threshold'') db) else db, Inr ()))"

definition readBalances ::
  "int \<Rightarrow> (nat \<Rightarrow> string) \<Rightarrow> (treasury_address \<Rightarrow> wanted_asset \<Rightarrow> balance_answer \<times> price_answer) \<Rightarrow>
     treasury_config \<Rightarrow> treasury_address list \<Rightarrow> 'a treasury_db_scheme \<Rightarrow> 'a treasury_db_scheme \<times> balance_report result" where
  "readBalances t ids ask config addresses db = (case read_balances t ask addresses of
     Inl e \<Rightarrow> (db, Inl e)
   | Inr rep \<Rightarrow> let db = snapshots_of ids rep db;
         db = fold (\<lambda>(i, v). asset_alert t (ids (2 * i + 1)) v) (enumerate 0 (bp_assets rep)) db
       in andThen (low_balance_alert t (ids (2 * length (bp_assets rep))) (lowBalanceThresholdUsd (tc_caps config)) rep db)
         (\<lambda>db _. (db, Inr rep)))"

definition burn :: "int \<Rightarrow> 'a treasury_db_scheme \<Rightarrow> burn_rate result" where
  "burn t db = burnRate (map (\<lambda>e. \<lparr>xl_period = ex_period e, xl_amountUsd = ex_amountUsd e\<rparr>)
     (expensesInPeriods db (trailingPeriods t 3))) t"

section \<open>The reviewing agent\<close>

datatype treasury_action = No_action | Review_budget | Propose_payment

fun treasury_action_str :: "treasury_action \<Rightarrow> string" where
  "treasury_action_str No_action = ''NO_ACTION''"
| "treasury_action_str Review_budget = ''REVIEW_BUDGET''"
| "treasury_action_str Propose_payment = ''PROPOSE_PAYMENT''"

record recommendation =
  rc_action :: treasury_action
  rc_provider :: "string option"
  rc_amountUsd :: string
  rc_reason :: string

record review_input =
  ri_caps :: treasury_caps
  ri_frozen :: bool
  ri_approvedThisMonthUsd :: string
  ri_providers :: "provider_view list"

text \<open>A recommendation names its provider whatever the case of the letters.\<close>

definition find_view :: "provider_view list \<Rightarrow> string option \<Rightarrow> provider_view option" where
  "find_view views name = (case name of None \<Rightarrow> None
   | Some n \<Rightarrow> List.find (\<lambda>v. toLowerCase (pv_name (pw_provider v)) = toLowerCase n) views)"

definition payment_violation :: "review_input \<Rightarrow> int \<Rightarrow> int \<Rightarrow> provider_view \<Rightarrow> recommendation \<Rightarrow> string option result" where
  "payment_violation inp perPayment monthlyRemaining v r =
     sbind (usdToMicros (rc_amountUsd r)) (\<lambda>amount.
       if amount \<le> 0 then Inr (Some ''PROPOSE_PAYMENT with a zero amount'')
       else if amount > perPayment then Inr (Some (''proposed '' @ rc_amountUsd r @ '' USD exceeds the per-payment cap '' @
         perPaymentCapUsd (ri_caps inp)))
       else if amount > monthlyRemaining then Inr (Some (''proposed '' @ rc_amountUsd r @ '' USD exceeds the remaining monthly cap''))
       else sbind (usdToMicros (pv_monthlyBudgetUsd (pw_provider v))) (\<lambda>budget.
         if budget \<le> 0 then Inr None
         else sbind (usdToMicros (pw_spentThisPeriodUsd v)) (\<lambda>spent.
           Inr (if spent + amount > budget then Some (''proposed '' @ rc_amountUsd r @ '' USD exceeds '' @
             pv_name (pw_provider v) @ [CHR 0x27] @ ''s remaining budget'') else None))))"

definition recommendation_violation :: "review_input \<Rightarrow> int \<Rightarrow> int \<Rightarrow> recommendation \<Rightarrow> string option result" where
  "recommendation_violation inp perPayment monthlyRemaining r =
     (if rc_action r = No_action
      then Inr (if rc_amountUsd r \<noteq> ''0'' then Some ''NO_ACTION with a non-zero amount''
        else if rc_provider r \<noteq> None then Some ''NO_ACTION naming a provider'' else None)
      else if ri_frozen inp then Inr (Some (treasury_action_str (rc_action r) @ '' while the treasury is frozen''))
      else (case rc_provider r of
          None \<Rightarrow> Inr (Some (treasury_action_str (rc_action r) @ '' without a provider''))
        | Some n \<Rightarrow> (case find_view (ri_providers inp) (Some n) of
            None \<Rightarrow> Inr (Some (''provider '' @ json_quote n @ '' is not registered''))
          | Some v \<Rightarrow> if \<not> pv_active (pw_provider v)
              then Inr (Some (''provider '' @ pv_name (pw_provider v) @ '' is inactive''))
              else if rc_action r = Propose_payment then payment_violation inp perPayment monthlyRemaining v r
              else Inr None)))"

fun first_violation :: "(recommendation \<Rightarrow> string option result) \<Rightarrow> recommendation list \<Rightarrow> string option result" where
  "first_violation f [] = Inr None"
| "first_violation f (r # rs) = sbind (f r) (\<lambda>v. case v of None \<Rightarrow> first_violation f rs | Some w \<Rightarrow> Inr (Some w))"

definition deterministicSanity :: "recommendation list \<Rightarrow> review_input \<Rightarrow> string option result" where
  "deterministicSanity rs inp =
     sbind (usdToMicros (perPaymentCapUsd (ri_caps inp))) (\<lambda>perPayment.
     sbind (usdToMicros (monthlyCapUsd (ri_caps inp))) (\<lambda>monthly.
     sbind (usdToMicros (ri_approvedThisMonthUsd inp)) (\<lambda>spent.
       first_violation (recommendation_violation inp perPayment (monthly - spent)) rs)))"

text \<open>The model's reply: unavailable, rejected as malformed, or a well-formed list of recommendations.\<close>

datatype model_reply = No_model string | Bad_reply string | Review "recommendation list"

record agent_output =
  ao_actions :: "recommendation list"
  ao_fallback :: bool
  ao_overridden :: "string option"

definition no_action :: "string \<Rightarrow> recommendation" where
  "no_action why = \<lparr>rc_action = No_action, rc_provider = None, rc_amountUsd = ''0'', rc_reason = why\<rparr>"

definition agent_review :: "model_reply \<Rightarrow> review_input \<Rightarrow> agent_output" where
  "agent_review reply inp = (case reply of
     No_model why \<Rightarrow> \<lparr>ao_actions = [no_action (''no reasoning model: '' @ why)], ao_fallback = True, ao_overridden = None\<rparr>
   | Bad_reply why \<Rightarrow> \<lparr>ao_actions = [no_action (''model output rejected: '' @ why)], ao_fallback = True, ao_overridden = None\<rparr>
   | Review rs \<Rightarrow> (case deterministicSanity rs inp of
       Inl e \<Rightarrow> \<lparr>ao_actions = [no_action (''model output rejected: '' @ error_text e)], ao_fallback = True, ao_overridden = None\<rparr>
     | Inr (Some v) \<Rightarrow> \<lparr>ao_actions = [no_action (''overridden: '' @ v)], ao_fallback = False, ao_overridden = Some v\<rparr>
     | Inr None \<Rightarrow> \<lparr>ao_actions = rs, ao_fallback = False, ao_overridden = None\<rparr>))"

section \<open>The review cycle\<close>

datatype review_outcome = Out_none | Out_proposal string | Out_payable string | Out_alert | Out_refused

definition defaultAssetFor :: "chain_id \<Rightarrow> string" where
  "defaultAssetFor c = (case List.find (\<lambda>s. s \<in> set (chain_symbols c)) [''USDC'', ''USDT'', ''USDG''] of
     Some s \<Rightarrow> s | None \<Rightarrow> (case chain_symbols c of s # _ \<Rightarrow> s | [] \<Rightarrow> ci_nativeSymbol (CHAINS c)))"

text \<open>One recommendation. Errors of the two operations that write a row are caught; the ids are for the
  row and for an alert.\<close>

definition apply_recommendation ::
  "int \<Rightarrow> provider_view list \<Rightarrow> string \<Rightarrow> string \<Rightarrow> recommendation \<times> string \<times> string \<Rightarrow>
     'a treasury_db_scheme \<Rightarrow> 'a treasury_db_scheme \<times> review_outcome" where
  "apply_recommendation t views period cycle x db = (case x of (r, rid, aid) \<Rightarrow>
     if rc_action r = No_action then (db, Out_none)
     else (case find_view views (rc_provider r) of
         None \<Rightarrow> (db, Out_refused)
       | Some v \<Rightarrow> let p = pw_provider v; memo = ''Treasury Agent ('' @ take 8 cycle @ ''): '' @ rc_reason r in
           if rc_action r = Review_budget
           then (case raiseAlert t aid Budget_exceeded Info (''review:'' @ pv_id p @ '':'' @ period)
               (''Treasury Agent suggests reviewing '' @ pv_name p @ [CHR 0x27] @ ''s budget ('' @ pv_monthlyBudgetUsd p @
                 '' USD; suggested '' @ rc_amountUsd r @ '' USD): '' @ rc_reason r) db of
               (db, None) \<Rightarrow> (db, Out_none) | (db, Some _) \<Rightarrow> (db, Out_alert))
           else if pv_billingMode p \<noteq> On_chain
           then (case recordManualPayable t rid aid (pv_id p) period (rc_amountUsd r) memo TREASURY_AGENT_ACTOR db of
               (db, Inl _) \<Rightarrow> (db, Out_refused) | (db, Inr e) \<Rightarrow> (db, Out_payable (ex_id e)))
           else (case pv_recipient p of
               None \<Rightarrow> (db, Out_refused)
             | Some (c, _) \<Rightarrow> (case propose t rid \<lparr>pq_providerId = pv_id p, pq_amountUsd = rc_amountUsd r,
                   pq_asset = defaultAssetFor c, pq_period = Some period, pq_memo = Some memo\<rparr>
                   TREASURY_AGENT_ACTOR Src_agent db of
                 (db, Inl _) \<Rightarrow> (db, Out_refused) | (db, Inr row) \<Rightarrow> (db, Out_proposal (pp_id row))))))"

fun applyReview ::
  "int \<Rightarrow> provider_view list \<Rightarrow> string \<Rightarrow> string \<Rightarrow> (recommendation \<times> string \<times> string) list \<Rightarrow>
     'a treasury_db_scheme \<Rightarrow> 'a treasury_db_scheme \<times> review_outcome list" where
  "applyReview t views period cycle [] db = (db, [])"
| "applyReview t views period cycle (x # xs) db = (case apply_recommendation t views period cycle x db of
     (db, o1) \<Rightarrow> (case applyReview t views period cycle xs db of (db, os) \<Rightarrow> (db, o1 # os)))"

fun basis_str :: "burn_basis \<Rightarrow> string" where
  "basis_str Trailing_3 = ''trailing-3''"
| "basis_str Trailing_2 = ''trailing-2''"
| "basis_str Single_month = ''single-month''"
| "basis_str Basis_none = ''none''"

definition runway_alert :: "int \<Rightarrow> string \<Rightarrow> burn_rate \<Rightarrow> runway_estimate \<Rightarrow> 'a treasury_db_scheme \<Rightarrow> 'a treasury_db_scheme \<times> unit result" where
  "runway_alert t aid br rw db = (case rw_months rw of None \<Rightarrow> (db, Inr ())
   | Some m \<Rightarrow> (case js_BigInt (takeWhile (\<lambda>c. c \<noteq> CHR ''.'') m) of
       Inl e \<Rightarrow> (db, Inl e)
     | Inr whole \<Rightarrow> (if whole < RUNWAY_SHORT_MONTHS
         then fst (raiseAlert t aid Runway_short Critical ''runway'' (''Estimated runway is '' @ m @
             '' months ('' @ basis_str (br_basis br) @ '')'') db) else db,
         Inr ())))"

fun budget_alerts ::
  "int \<Rightarrow> string \<Rightarrow> (treasury_provider \<times> string) list \<Rightarrow> 'a treasury_db_scheme \<Rightarrow> 'a treasury_db_scheme \<times> unit result" where
  "budget_alerts t period [] db = (db, Inr ())"
| "budget_alerts t period ((p, aid) # ps) db =
     andThen (checkProviderBudget t aid p period db) (\<lambda>db _. budget_alerts t period ps db)"

text \<open>Between the readings and the model's reply: the runway and budget alerts and what the model is given.\<close>

definition review_prepare ::
  "int \<Rightarrow> (nat \<Rightarrow> string) \<Rightarrow> treasury_config \<Rightarrow> balance_report \<Rightarrow> 'a treasury_db_scheme \<Rightarrow>
     'a treasury_db_scheme \<times> review_input result" where
  "review_prepare t ids config rep db = (case sbind (burn t db) (\<lambda>br. sbind (report_runway rep br) (\<lambda>rw. Inr (br, rw))) of
     Inl e \<Rightarrow> (db, Inl e)
   | Inr (br, rw) \<Rightarrow> andThen (runway_alert t (ids 0) br rw db) (\<lambda>db _.
       andThen (budget_alerts t (periodOf t) (map (\<lambda>(i, p). (p, ids (i + 1))) (enumerate 0 (listProviders db))) db) (\<lambda>db _.
         (db, sbind (listProviderViews t db) (\<lambda>views. sbind (monthToDate db t None) (\<lambda>spent.
           Inr \<lparr>ri_caps = tc_caps config, ri_frozen = tc_frozen config, ri_approvedThisMonthUsd = spent,
             ri_providers = views\<rparr>))))))"

definition review_summary :: "agent_output \<Rightarrow> string" where
  "review_summary out = (case ao_overridden out of
     Some v \<Rightarrow> ''Treasury review: model overridden to NO_ACTION ('' @ v @ '')''
   | None \<Rightarrow> ''Treasury review: '' @ (let acts = join_with '', '' (map (\<lambda>r. treasury_action_str (rc_action r)) (ao_actions out)) in
       if acts = '''' then ''NO_ACTION'' else acts))"

text \<open>After the reply, on whatever the database is by then; the providers and the period are the ones prepared.\<close>

definition review_finish ::
  "int \<Rightarrow> string \<Rightarrow> string \<Rightarrow> (nat \<Rightarrow> string) \<Rightarrow> review_input \<Rightarrow> model_reply \<Rightarrow> string \<Rightarrow> 'a treasury_db_scheme \<Rightarrow>
     'a treasury_db_scheme \<times> review_outcome list" where
  "review_finish t period cycle ids inp reply actor db = (let out = agent_review reply inp in
     case applyReview t (ri_providers inp) period cycle
       (map (\<lambda>(i, r). (r, ids (2 * i + 1), ids (2 * i + 2))) (enumerate 0 (ao_actions out))) db of
     (db, os) \<Rightarrow> let db = (case ao_overridden out of None \<Rightarrow> db
         | Some v \<Rightarrow> fst (raiseAlert t (ids 0) Model_override Warning cycle
             (''Treasury Agent recommendation overridden: '' @ v) db))
       in (treasury_audit t ''treasury.review'' (if ao_overridden out \<noteq> None then Au_rejected
             else if ao_fallback out then Au_hold else Au_ok) (review_summary out) actor None (Some cycle) db, os))"

end
