(* ===== verification/Treasury_Props.thy ===== *)
theory Treasury_Props
  imports Treasury_Service "HOL-Library.Multiset"
begin

text \<open>
  What the treasury promises, over every interleaving of its operations: approvals stay inside the caps
  in force, an exported instruction is the approved proposal and never overpays, a freeze stops
  both, and the reviewing agent can at most add proposals that still await a human. The machine
  \<open>treasury_step\<close> takes one operation at a time; an export is two steps, with the price lookup between
  them, and the clock never runs backwards.
\<close>

section \<open>What the operations leave alone\<close>

named_theorems treasury_frame

lemma treasury_audit_same [simp]:
  "td_config (treasury_audit t act st s actor c k db) = td_config db"
  "td_addresses (treasury_audit t act st s actor c k db) = td_addresses db"
  "td_providers (treasury_audit t act st s actor c k db) = td_providers db"
  "td_expenses (treasury_audit t act st s actor c k db) = td_expenses db"
  "td_proposals (treasury_audit t act st s actor c k db) = td_proposals db"
  by (simp_all add: treasury_audit_def audit_append_def)

text \<open>The part of the database alerts, snapshots and the audit trail do not reach.\<close>

definition same_core :: "'a treasury_db_scheme \<Rightarrow> 'a treasury_db_scheme \<Rightarrow> bool" where
  "same_core db db' \<longleftrightarrow> td_config db' = td_config db \<and> td_addresses db' = td_addresses db \<and>
     td_providers db' = td_providers db \<and> td_expenses db' = td_expenses db \<and> td_proposals db' = td_proposals db"

lemma same_core_refl [simp]: "same_core db db"
  by (simp add: same_core_def)

lemma same_core_trans [trans]: "same_core a b \<Longrightarrow> same_core b c \<Longrightarrow> same_core a c"
  by (simp add: same_core_def)

lemma same_core_audit [simp]: "same_core db (treasury_audit t act st s actor c k db') \<longleftrightarrow> same_core db db'"
  by (simp add: same_core_def)

lemma raiseAlert_core: "same_core db (fst (raiseAlert t aid k sev key s db))"
  by (simp add: raiseAlert_def insertAlert_def Let_def same_core_def)

lemma checkProviderBudget_core: "same_core db (fst (checkProviderBudget t aid p period db))"
  by (simp add: checkProviderBudget_def raiseAlert_core case_prod_unfold split: sum.splits)

lemma raiseAlert_same [simp]:
  "td_config (fst (raiseAlert t aid k sev key s db)) = td_config db"
  "td_proposals (fst (raiseAlert t aid k sev key s db)) = td_proposals db"
  using raiseAlert_core [of db t aid k sev key s] by (simp_all add: same_core_def)

lemma checkProviderBudget_same [simp]:
  "td_config (fst (checkProviderBudget t aid p period db)) = td_config db"
  "td_providers (fst (checkProviderBudget t aid p period db)) = td_providers db"
  "td_addresses (fst (checkProviderBudget t aid p period db)) = td_addresses db"
  "td_proposals (fst (checkProviderBudget t aid p period db)) = td_proposals db"
  using checkProviderBudget_core [of db t aid p period] by (simp_all add: same_core_def)

lemma fst_andThen [simp]: "fst (andThen m (\<lambda>d _. (d, r))) = fst m"
  by (simp add: andThen_def split: prod.splits sum.splits)

lemma snapshots_core: "same_core db (snapshots_of ids rep db)"
proof -
  have "same_core db (fold (\<lambda>(i, v). insertSnapshot \<lparr>sn_id = ids (2 * i), sn_takenAt = bp_takenAt rep, sn_view = v\<rparr>) xs db)" for xs
    by (induction xs arbitrary: db) (auto simp: insertSnapshot_def same_core_def split: prod.splits)
  then show ?thesis by (simp add: snapshots_of_def)
qed

lemma asset_alert_core: "same_core db (asset_alert t aid v db)"
  by (simp add: asset_alert_def Let_def raiseAlert_core)

lemma asset_alerts_core: "same_core db (fold (\<lambda>(i, v). asset_alert t (ids i) v) xs db)"
proof (induction xs arbitrary: db)
  case (Cons x xs)
  then show ?case using same_core_trans [OF asset_alert_core Cons.IH] by (cases x) simp
qed simp

lemma andThen_core:
  assumes "same_core db (fst m)" "\<And>d a. m = (d, Inr a) \<Longrightarrow> same_core d (fst (f d a))"
  shows "same_core db (fst (andThen m f))"
  using assms by (cases m) (auto simp: andThen_def split: sum.splits intro: same_core_trans)

lemma low_balance_core: "same_core db (fst (low_balance_alert t aid thr rep db))"
  by (simp add: low_balance_alert_def raiseAlert_core split: sum.splits)

lemma readBalances_core: "same_core db (fst (readBalances t ids ask config addresses db))"
proof (cases "read_balances t ask addresses")
  case (Inr rep)
  have "same_core db (fold (\<lambda>(i, v). asset_alert t (ids (2 * i + 1)) v) (enumerate 0 (bp_assets rep)) (snapshots_of ids rep db))"
    using same_core_trans [OF snapshots_core asset_alerts_core [where ids = "\<lambda>i. ids (2 * i + 1)"]] .
  then have "same_core db (fst (low_balance_alert t (ids (2 * length (bp_assets rep))) (lowBalanceThresholdUsd (tc_caps config)) rep
      (fold (\<lambda>(i, v). asset_alert t (ids (2 * i + 1)) v) (enumerate 0 (bp_assets rep)) (snapshots_of ids rep db))))"
    by (rule same_core_trans [OF _ low_balance_core])
  then show ?thesis by (simp add: readBalances_def Inr Let_def andThen_core)
qed (simp add: readBalances_def)

lemma budget_alerts_core: "same_core db (fst (budget_alerts t period ps db))"
proof (induction t period ps db rule: budget_alerts.induct)
  case (2 t period p aid ps db)
  then show ?case by (auto intro!: andThen_core checkProviderBudget_core)
qed simp

lemma runway_alert_core: "same_core db (fst (runway_alert t aid br rw db))"
  by (simp add: runway_alert_def raiseAlert_core split: option.splits sum.splits)

lemma review_prepare_core: "same_core db (fst (review_prepare t ids config rep db))"
  by (auto simp: review_prepare_def split: sum.splits intro!: andThen_core runway_alert_core budget_alerts_core)

lemma acknowledgeAlert_core: "same_core db (fst (acknowledgeAlert t aid actor db))"
  by (simp add: acknowledgeAlert_def acknowledgeAlertRow_def Let_def same_core_def split: option.splits)

lemmas core_frames = raiseAlert_core checkProviderBudget_core snapshots_core asset_alerts_core
  readBalances_core review_prepare_core acknowledgeAlert_core

text \<open>Configuration, providers and expenses never touch a proposal.\<close>

lemma upsert_proposals: "td_proposals (fold (upsertAddress t) is db) = td_proposals db"
  by (induction "is" arbitrary: db) (auto simp: upsertAddress_def)

lemma upsert_config: "td_config (fold (upsertAddress t) is db) = td_config db"
  by (induction "is" arbitrary: db) (auto simp: upsertAddress_def)

lemma updateConfig_proposals [treasury_frame]:
  "updateConfig T t u as actor db = Inr db' \<Longrightarrow> td_proposals db' = td_proposals db"
  by (auto simp: updateConfig_def updateCaps_def updateConfigRow_def sbind_eq_Inr upsert_proposals split: if_splits)

lemma freeze_proposals [treasury_frame]: "td_proposals (freeze t aid reason actor db) = td_proposals db"
  by (simp add: freeze_def setFrozen_def updateConfigRow_def)

lemma clearFreeze_proposals [treasury_frame]: "clearFreeze t note actor db = Inr db' \<Longrightarrow> td_proposals db' = td_proposals db"
  by (auto simp: clearFreeze_def setFrozen_def updateConfigRow_def sbind_eq_Inr split: if_splits)

lemma addProvider_proposals [treasury_frame]: "addProvider T t pid i actor db = Inr db' \<Longrightarrow> td_proposals db' = td_proposals db"
  by (auto simp: addProvider_def insertProvider_def putProvider_def sbind_eq_Inr split: if_splits)

lemma updateProvider_proposals [treasury_frame]:
  "updateProvider T t pid u actor db = Inr db' \<Longrightarrow> td_proposals db' = td_proposals db"
  by (auto simp: updateProvider_def updateProviderRow_def setProvider_def sbind_eq_Inr split: if_splits)

lemma recordExpense_same [simp]:
  "td_providers (fst (recordExpense t eid aid r actor db)) = td_providers db"
  "td_addresses (fst (recordExpense t eid aid r actor db)) = td_addresses db"
  "td_proposals (fst (recordExpense t eid aid r actor db)) = td_proposals db"
  "td_config (fst (recordExpense t eid aid r actor db)) = td_config db"
  by (auto simp: recordExpense_def sbind_eq_Inr insertExpense_def Let_def split: sum.splits if_splits)

section \<open>The rows a proposal operation writes\<close>

lemma insertProposal_Inr: "insertProposal p db = Inr db' \<longleftrightarrow> period_glob (pp_period p) \<and> getProposal db (pp_id p) = None \<and> db' = putProposal db p"
  by (auto simp: insertProposal_def)

lemma updateProposal_Inr:
  "updateProposal pid f db = Inr db' \<Longrightarrow> getProposal db pid = Some r \<Longrightarrow>
     proposal_immutable r (f r) \<and> status_follows (pp_status r) (pp_status (f r)) \<and> db' = setProposal db pid f"
  by (auto simp: updateProposal_def split: if_splits)

lemma propose_effect:
  assumes "propose t pid q actor source db = (db', r)"
  shows "td_proposals db' = td_proposals db \<or> (\<exists>row d. td_proposals db' = td_proposals db @ [row] \<and> r = Inr row \<and>
    \<not> isFrozen db \<and> getProposal db pid = None \<and> pp_id row = pid \<and> pp_status row = Proposed \<and> pp_source row = source \<and>
    pp_checks row = d \<and> cd_allowed d \<and> cd_stage d = Propose \<and>
    pp_decision row = None \<and> pp_decidedAt row = None \<and> pp_export row = None \<and> (\<exists>a. usdToMicros (pp_amountUsd row) = Inr a \<and> 0 < a))"
proof -
  define period pv rcp where "period = or_keep (pq_period q) (periodOf t)" and "pv = getProvider db (pq_providerId q)"
    and "rcp = (case pv of None \<Rightarrow> None | Some p \<Rightarrow> pv_recipient p)"
  note defs = period_def [symmetric] pv_def [symmetric] rcp_def [symmetric]
  let ?c = "case rcp of None \<Rightarrow> Base | Some (c, a) \<Rightarrow> c" and ?a = "case rcp of None \<Rightarrow> ''none'' | Some (c, a) \<Rightarrow> a"
  show ?thesis
  proof (cases "sbind (canonicalUsd (pq_amountUsd q) ''amountUsd'') (\<lambda>amount.
      sbind (caps_evaluate t Propose pv ?c ?a (pq_asset q) amount period False None db) (\<lambda>d. Inr (amount, d)))")
    case (Inl e)
    then show ?thesis using assms by (simp add: propose_def Let_def defs)
  next
    case (Inr ad)
    then obtain amount d where ad: "ad = (amount, d)" by (cases ad)
    with Inr have e: "caps_evaluate t Propose pv ?c ?a (pq_asset q) amount period False None db = Inr d"
      by (auto simp: sbind_eq_Inr)
    show ?thesis
    proof (cases "cd_allowed d")
      case False
      then show ?thesis using assms Inr by (auto simp: propose_def Let_def defs ad)
    next
      case True
      obtain inp where inp: "evaluateCaps inp = Inr d" "ci_stage inp = Propose" "cq_amountUsd (ci_proposal inp) = amount"
        "ci_frozen inp = isFrozen db"
        using e by (auto simp: caps_evaluate_def sbind_eq_Inr configRow_def isFrozen_def split: option.splits)
      have fr: "\<not> isFrozen db" using evaluateCaps_frozen [OF inp(1)] True inp(4) by blast
      have amt: "\<exists>a. usdToMicros amount = Inr a \<and> 0 < a" and st: "cd_stage d = Propose"
        using allowed_amount [OF inp(1) True] inp(2,3) by auto
      show ?thesis
        using assms Inr True amt st fr
        by (auto simp: propose_def Let_def defs ad insertProposal_def putProposal_def split: option.splits if_splits)
    qed
  qed
qed

text \<open>The two ways an approval writes: the row is rejected by the caps and the call raises, or approved.\<close>

lemma approveE:
  assumes "approve t t' pid creator note actor db = (db', r)"
  obtains (none) e where "db' = db" "r = Inl e"
  | (rejected) p d n e where "getProposal db pid = Some p" "pp_status p = Proposed" "r = Inl e"
      "td_proposals db' = td_proposals (setProposal db pid (decide_row t' Rejected actor n d creator))"
  | (approved) p d where "getProposal db pid = Some p" "pp_status p = Proposed" "\<not> isFrozen db" "r = Inr ()"
      "caps_evaluate t Approve_stage (getProvider db (pp_providerId p)) (pp_chain p) (pp_recipient p)
         (pp_asset p) (pp_amountUsd p) (pp_period p) creator (Some (pp_id p)) db = Inr d" "cd_allowed d"
      "td_proposals db' = td_proposals (setProposal db pid (decide_row t' Approved actor note d creator))"
proof -
  let ?eval = "\<lambda>p. caps_evaluate t Approve_stage (getProvider db (pp_providerId p)) (pp_chain p) (pp_recipient p)
         (pp_asset p) (pp_amountUsd p) (pp_period p) creator (Some (pp_id p)) db"
  let ?put = "\<lambda>p d. approve_write t' pid creator note actor p d db"
  let ?body = "sbind (requireProposal db pid) (\<lambda>p. sbind (assertTransition p Proposed ''approve'') (\<lambda>_.
       sbind (assertNotFrozen ''approve a payment proposal'' db) (\<lambda>_. sbind (?eval p) (?put p))))"
  have ap: "approve t t' pid creator note actor db = (case transaction db ?body of
     (db, Inl e) \<Rightarrow> (db, Inl e) | (db, Inr (Some d)) \<Rightarrow> (db, Inl (capsRefused d)) | (db, Inr None) \<Rightarrow> (db, Inr ()))"
    by (simp only: approve_def)
  show thesis
  proof (cases ?body)
    case (Inl e)
    then have "db' = db" "r = Inl e" using assms by (simp_all add: ap transaction_def)
    then show thesis by (rule none)
  next
    case (Inr x)
    then obtain p d where p: "getProposal db pid = Some p" "pp_status p = Proposed" "\<not> isFrozen db"
      and d: "?eval p = Inr d" and w: "?put p d = Inr x"
      by (auto simp: sbind_eq_Inr requireProposal_def assertTransition_def assertNotFrozen_def
          split: option.splits if_splits)
    show thesis
    proof (cases "cd_allowed d")
      case False
      with w obtain n db1 where "updateProposal pid (decide_row t' Rejected actor n d creator) db = Inr db1"
        and x: "td_proposals (fst x) = td_proposals db1" "snd x = Some d"
        by (auto simp: sbind_eq_Inr approve_write_def decideProposal_def)
      then have "db1 = setProposal db pid (decide_row t' Rejected actor n d creator)"
        using updateProposal_Inr p(1) by blast
      then show thesis using assms x Inr rejected [OF p(1,2)]
        by (cases x) (auto simp: ap transaction_def)
    next
      case True
      with w obtain db1 where "updateProposal pid (decide_row t' Approved actor note d creator) db = Inr db1"
        and x: "td_proposals (fst x) = td_proposals db1" "snd x = None"
        by (auto simp: sbind_eq_Inr approve_write_def decideProposal_def)
      then have "db1 = setProposal db pid (decide_row t' Approved actor note d creator)"
        using updateProposal_Inr p(1) by blast
      then show thesis using assms x Inr approved [OF p _ d True]
        by (cases x) (auto simp: ap transaction_def)
    qed
  qed
qed

lemma rejectE:
  assumes "reject t pid note actor db = Inr db'"
  obtains p d where "getProposal db pid = Some p" "pp_status p = Proposed"
    "td_proposals db' = td_proposals (setProposal db pid (decide_row t Rejected actor note d False))"
proof -
  obtain p db1 d where "getProposal db pid = Some p" "pp_status p = Proposed"
    "updateProposal pid (decide_row t Rejected actor note d False) db = Inr db1" "td_proposals db' = td_proposals db1"
    using assms by (auto simp: reject_def sbind_eq_Inr requireProposal_def assertTransition_def decideProposal_def
      split: option.splits if_splits)
  then show thesis using that updateProposal_Inr by metis
qed

lemma cancelE:
  assumes "cancel t pid note actor db = Inr db'"
  obtains p where "getProposal db pid = Some p" "pp_status p = Approved"
    "td_proposals db' = td_proposals (setProposal db pid (pp_status_update (\<lambda>_. Cancelled)))"
proof -
  obtain p db1 where "getProposal db pid = Some p" "pp_status p = Approved"
    "updateProposal pid (\<lambda>r. r\<lparr>pp_status := Cancelled\<rparr>) db = Inr db1" "td_proposals db' = td_proposals db1"
    using assms by (auto simp: cancel_def sbind_eq_Inr requireProposal_def assertTransition_def cancelProposal_def
      split: option.splits if_splits)
  then show thesis using that updateProposal_Inr by metis
qed

lemma export_finishE:
  assumes "export_finish t x ans actor db = (db', r)"
  obtains (none) e where "db' = db" "r = Inl e"
  | (exported) p where "getProposal db (pp_id (xc_proposal x)) = Some p" "pp_status p = Approved" "\<not> isFrozen db"
      "r = Inr (instruction_of t x ans)" "proposal_immutable p (export_row actor (instruction_of t x ans) p)"
      "td_proposals db' = td_proposals (setProposal db (pp_id (xc_proposal x)) (export_row actor (instruction_of t x ans)))"
proof -
  let ?pid = "pp_id (xc_proposal x)" and ?ins = "instruction_of t x ans"
  let ?body = "sbind (assertNotFrozen ''export a payment proposal'' db) (\<lambda>_. sbind (requireProposal db ?pid) (\<lambda>fresh.
       sbind (assertTransition fresh Approved ''export'') (\<lambda>_. exportProposalRow ?pid actor ?ins db)))"
  show thesis
  proof (cases ?body)
    case (Inl e)
    then have "db' = db" "r = Inl e" using assms by (simp_all add: export_finish_def Let_def)
    then show thesis by (rule none)
  next
    case (Inr db1)
    then obtain p where p: "getProposal db ?pid = Some p" "pp_status p = Approved" "\<not> isFrozen db"
      and u: "updateProposal ?pid (export_row actor ?ins) db = Inr db1"
      by (auto simp: sbind_eq_Inr requireProposal_def assertTransition_def assertNotFrozen_def exportProposalRow_def
          split: option.splits if_splits)
    show thesis using updateProposal_Inr [OF u p(1)] assms Inr exported [OF p] by (auto simp: export_finish_def Let_def)
  qed
qed

lemma export_context_of_Inr:
  "export_context_of p pv db = Inr x \<Longrightarrow> xc_proposal x = p \<and> ti_symbol (xc_token x) = pp_asset p \<and>
     xc_token x \<in> set (ci_tokens (CHAINS (pp_chain p)))"
  by (auto simp: export_context_of_def split: option.splits if_splits dest: find_SomeD)

lemma export_beginE:
  assumes "export_begin pid db = Inr x"
  shows "getProposal db pid = Some (xc_proposal x) \<and> pp_status (xc_proposal x) = Approved \<and> \<not> isFrozen db \<and>
    ti_symbol (xc_token x) = pp_asset (xc_proposal x) \<and> xc_token x \<in> set (ci_tokens (CHAINS (pp_chain (xc_proposal x))))"
  using assms by (auto simp: export_begin_def sbind_eq_Inr requireProposal_def assertTransition_def assertNotFrozen_def
      split: option.splits if_splits dest: export_context_of_Inr)

section \<open>The machine\<close>

text \<open>What the trace records of a step: the approval, export, freeze or clearance it performed, if any.\<close>

datatype treasury_event =
  Ev_approved string | Ev_exported string exported_instruction | Ev_frozen | Ev_cleared | Ev_other

type_synonym treasury_world = "treasury_db \<times> export_context list \<times> int"

inductive treasury_step :: "treasury_lib \<Rightarrow> treasury_world \<Rightarrow> treasury_event \<times> int \<Rightarrow> treasury_world \<Rightarrow> bool" for T where
  ts_config: "updateConfig T t u entries actor db = Inr db' \<Longrightarrow> c \<le> t \<Longrightarrow>
    treasury_step T (db, xs, c) (Ev_other, t) (db', xs, t)"
| ts_freeze: "c \<le> t \<Longrightarrow> treasury_step T (db, xs, c) (Ev_frozen, t) (freeze t aid reason actor db, xs, t)"
| ts_clear: "clearFreeze t note actor db = Inr db' \<Longrightarrow> c \<le> t \<Longrightarrow>
    treasury_step T (db, xs, c) (Ev_cleared, t) (db', xs, t)"
| ts_add: "addProvider T t pid i actor db = Inr db' \<Longrightarrow> c \<le> t \<Longrightarrow>
    treasury_step T (db, xs, c) (Ev_other, t) (db', xs, t)"
| ts_update: "updateProvider T t pid pu actor db = Inr db' \<Longrightarrow> c \<le> t \<Longrightarrow>
    treasury_step T (db, xs, c) (Ev_other, t) (db', xs, t)"
| ts_expense: "recordExpense t eid aid rec actor db = (db', r) \<Longrightarrow> c \<le> t \<Longrightarrow>
    treasury_step T (db, xs, c) (Ev_other, t) (db', xs, t)"
| ts_propose: "propose t pid q actor source db = (db', r') \<Longrightarrow> c \<le> t \<Longrightarrow>
    treasury_step T (db, xs, c) (Ev_other, t) (db', xs, t)"
| ts_approve: "approve t t' pid creator note actor db = (db', ra) \<Longrightarrow> c \<le> t \<Longrightarrow> t \<le> t' \<Longrightarrow>
    treasury_step T (db, xs, c) (case ra of Inr _ \<Rightarrow> Ev_approved pid | Inl _ \<Rightarrow> Ev_other, t') (db', xs, t')"
| ts_reject: "reject t pid note actor db = Inr db' \<Longrightarrow> c \<le> t \<Longrightarrow>
    treasury_step T (db, xs, c) (Ev_other, t) (db', xs, t)"
| ts_cancel: "cancel t pid note actor db = Inr db' \<Longrightarrow> c \<le> t \<Longrightarrow>
    treasury_step T (db, xs, c) (Ev_other, t) (db', xs, t)"
| ts_export_begin: "export_begin pid db = Inr x \<Longrightarrow> c \<le> t \<Longrightarrow>
    treasury_step T (db, xs, c) (Ev_other, t) (db, x # xs, t)"
| ts_export_finish: "export_finish t x ans actor db = (db', re) \<Longrightarrow> x \<in> set xs \<Longrightarrow> c \<le> t \<Longrightarrow>
    treasury_step T (db, xs, c) (case re of Inr ins \<Rightarrow> Ev_exported (pp_id (xc_proposal x)) ins | Inl _ \<Rightarrow> Ev_other, t)
      (db', remove1 x xs, t)"
| ts_balances: "readBalances t ids ask config addresses db = (db', rb) \<Longrightarrow> c \<le> t \<Longrightarrow>
    treasury_step T (db, xs, c) (Ev_other, t) (db', xs, t)"
| ts_prepare: "review_prepare t ids config rep db = (db', rp) \<Longrightarrow> c \<le> t \<Longrightarrow>
    treasury_step T (db, xs, c) (Ev_other, t) (db', xs, t)"
| ts_review: "review_finish t period cycle ids inp reply actor db = (db', outs) \<Longrightarrow> c \<le> t \<Longrightarrow>
    treasury_step T (db, xs, c) (Ev_other, t) (db', xs, t)"
| ts_acknowledge: "acknowledgeAlert t aid actor db = (db', rk) \<Longrightarrow> c \<le> t \<Longrightarrow>
    treasury_step T (db, xs, c) (Ev_other, t) (db', xs, t)"
| ts_read: "c \<le> t \<Longrightarrow> treasury_step T (db, xs, c) (Ev_other, t) (noteRead t what actor db, xs, t)"

inductive treasury_run :: "treasury_lib \<Rightarrow> treasury_world \<Rightarrow> (treasury_event \<times> int) list \<Rightarrow> treasury_world \<Rightarrow> bool" for T where
  run_start: "treasury_run T w [] w"
| run_step: "treasury_run T w tr w1 \<Longrightarrow> treasury_step T w1 ev w2 \<Longrightarrow> treasury_run T w (ev # tr) w2"

inductive_cases treasury_runE: "treasury_run T w (ev # tr) w2"

section \<open>The agent only proposes\<close>

text \<open>Later rows: what was there is still there, and everything new is the agent's and undecided.\<close>

definition agent_grew :: "treasury_db \<Rightarrow> treasury_db \<Rightarrow> bool" where
  "agent_grew db db' \<longleftrightarrow> td_config db' = td_config db \<and> td_providers db' = td_providers db \<and>
     td_addresses db' = td_addresses db \<and>
     (\<exists>new. td_proposals db' = td_proposals db @ new \<and> (isFrozen db \<longrightarrow> new = []) \<and>
        (\<forall>p \<in> set new. pp_status p = Proposed \<and> pp_source p = Src_agent \<and> pp_decision p = None \<and> cd_allowed (pp_checks p)))"

lemma propose_same:
  assumes "propose t pid q actor source db = (db', r)"
  shows "td_config db' = td_config db \<and> td_providers db' = td_providers db \<and> td_addresses db' = td_addresses db"
  using assms by (auto simp: propose_def Let_def insertProposal_def putProposal_def split: sum.splits option.splits if_splits)

lemma agent_grew_core: "same_core db db' \<Longrightarrow> agent_grew db db'"
  by (simp add: agent_grew_def same_core_def)

lemma agent_grew_trans: "agent_grew a b \<Longrightarrow> agent_grew b c \<Longrightarrow> agent_grew a c"
  unfolding agent_grew_def isFrozen_def
  by (elim conjE exE) (rule conjI, simp, rule conjI, simp, rule conjI, simp, rule exI [of _ "x @ y" for x y], auto)

lemma recordManualPayable_grew: "agent_grew db (fst (recordManualPayable t eid aid pid period amount note actor db))"
  by (simp add: agent_grew_def recordManualPayable_def)

lemma propose_grew: "propose t pid q actor Src_agent db = (db', r) \<Longrightarrow> agent_grew db db'"
  using propose_effect [of t pid q actor Src_agent db db' r] propose_same [of t pid q actor Src_agent db db' r]
  by (auto simp: agent_grew_def)

lemma apply_recommendation_grew: "agent_grew db (fst (apply_recommendation t views period cycle x db))"
proof -
  obtain r rid aid where x: "x = (r, rid, aid)" by (cases x)
  show ?thesis
  proof (cases "rc_action r = No_action \<or> find_view views (rc_provider r) = None")
    case True
    then show ?thesis by (auto simp: x apply_recommendation_def agent_grew_core)
  next
    case False
    then obtain v where v: "rc_action r \<noteq> No_action" "find_view views (rc_provider r) = Some v" by auto
    let ?p = "pw_provider v"
    consider (budget) "rc_action r = Review_budget" | (payable) "rc_action r \<noteq> Review_budget" "pv_billingMode ?p \<noteq> On_chain"
      | (none) "rc_action r \<noteq> Review_budget" "pv_billingMode ?p = On_chain" "pv_recipient ?p = None"
      | (pay) c a where "rc_action r \<noteq> Review_budget" "pv_billingMode ?p = On_chain" "pv_recipient ?p = Some (c, a)"
      by (cases "pv_recipient ?p") auto
    then show ?thesis
    proof cases
      case budget
      then show ?thesis using raiseAlert_core [of db] v
        by (auto simp: x apply_recommendation_def Let_def case_prod_unfold split: option.splits intro: agent_grew_core)
    next
      case payable
      then show ?thesis using recordManualPayable_grew v
        by (simp add: x apply_recommendation_def Let_def case_prod_unfold split: sum.splits)
    next
      case none
      then show ?thesis using v by (simp add: x apply_recommendation_def Let_def agent_grew_core)
    next
      case pay
      then show ?thesis using propose_grew [OF prod.collapse [symmetric]] v
        by (simp add: x apply_recommendation_def Let_def case_prod_unfold split: sum.splits)
    qed
  qed
qed

lemma apply_recommendation_proposals:
  "td_proposals (fst (apply_recommendation t views period cycle x db)) = td_proposals db \<or>
   (\<exists>q. td_proposals (fst (apply_recommendation t views period cycle x db)) =
      td_proposals (fst (propose t (fst (snd x)) q TREASURY_AGENT_ACTOR Src_agent db)))"
proof -
  obtain r rid aid where x: "x = (r, rid, aid)" by (cases x)
  show ?thesis
  proof (cases "rc_action r = No_action \<or> find_view views (rc_provider r) = None")
    case False
    then obtain v where v: "rc_action r \<noteq> No_action" "find_view views (rc_provider r) = Some v" by auto
    show ?thesis
    proof (cases "rc_action r \<noteq> Review_budget \<and> pv_billingMode (pw_provider v) = On_chain \<and> pv_recipient (pw_provider v) \<noteq> None")
      case True
      then show ?thesis using v
        by (auto simp: x apply_recommendation_def Let_def case_prod_unfold split: sum.splits)
    next
      case False
      then show ?thesis using v
        by (auto simp: x apply_recommendation_def Let_def case_prod_unfold recordManualPayable_def
            split: option.splits sum.splits)
    qed
  qed (auto simp: x apply_recommendation_def)
qed

lemma applyReview_grew: "agent_grew db (fst (applyReview t views period cycle xs db))"
proof (induction t views period cycle xs db rule: applyReview.induct)
  case (2 t views period cycle x xs db)
  obtain db1 o1 where 1: "apply_recommendation t views period cycle x db = (db1, o1)" by fastforce
  obtain db2 os where 2: "applyReview t views period cycle xs db1 = (db2, os)" by fastforce
  show ?case using "2.IH" [OF 1 [symmetric]] apply_recommendation_grew [of db t views period cycle x]
    by (auto simp: 1 2 intro: agent_grew_trans)
qed (simp add: agent_grew_core)

lemma review_finish_grew: "agent_grew db (fst (review_finish t period cycle ids inp reply actor db))"
proof -
  define xs where "xs = map (\<lambda>(i, r). (r, ids (2 * i + 1), ids (2 * i + 2))) (enumerate 0 (ao_actions (agent_review reply inp)))"
  obtain db1 os where 1: "applyReview t (ri_providers inp) period cycle xs db = (db1, os)" by fastforce
  have g: "agent_grew db db1" using applyReview_grew [of db t "ri_providers inp" period cycle xs] by (simp add: 1)
  have "same_core db1 (fst (review_finish t period cycle ids inp reply actor db))"
    unfolding review_finish_def Let_def xs_def [symmetric] 1 prod.case
    by (simp add: raiseAlert_core split: option.split)
  then show ?thesis using agent_grew_trans [OF g] agent_grew_core by blast
qed

text \<open>C29. The reviewing agent cannot move money: whatever the model replies, a review changes no configuration, no
  provider, no address and no existing proposal; every proposal it adds is undecided, marked as the
  agent's, and passed the caps when it was written; and it adds none while the treasury is frozen.\<close>

theorem agent_never_pays:
  fixes db db' :: treasury_db
  assumes "review_finish t period cycle ids inp reply actor db = (db', outs)"
  shows "td_config db' = td_config db \<and> td_providers db' = td_providers db \<and> td_addresses db' = td_addresses db \<and>
    (\<exists>new. td_proposals db' = td_proposals db @ new \<and> (isFrozen db \<longrightarrow> new = []) \<and>
       (\<forall>p \<in> set new. pp_status p = Proposed \<and> pp_source p = Src_agent \<and> pp_decision p = None \<and>
          cd_allowed (pp_checks p)))"
  using review_finish_grew [of db t period cycle ids inp reply actor] assms by (simp add: agent_grew_def)

section \<open>Invariants of the proposals\<close>

text \<open>What never changes in a row once it is written, and what changes at most once.\<close>

definition row_kept :: "proposal_row \<Rightarrow> proposal_row \<Rightarrow> bool" where
  "row_kept r s \<longleftrightarrow> pp_id s = pp_id r \<and> pp_providerId s = pp_providerId r \<and> pp_chain s = pp_chain r \<and>
     pp_recipient s = pp_recipient r \<and> pp_asset s = pp_asset r \<and> pp_amountUsd s = pp_amountUsd r \<and>
     once (pp_decision r) (pp_decision s) \<and> once (pp_decidedAt r) (pp_decidedAt s)"

lemma row_kept_refl [simp]: "row_kept r r"
  by (simp add: row_kept_def once_def)

lemma row_kept_trans: "row_kept a b \<Longrightarrow> row_kept b c \<Longrightarrow> row_kept a c"
  by (auto simp: row_kept_def once_def)

lemma immutable_kept: "proposal_immutable r s \<Longrightarrow> row_kept r s"
  by (simp add: proposal_immutable_def row_kept_def)

lemma row_kept_simps [simp]:
  "pp_decision r = None \<Longrightarrow> pp_decidedAt r = None \<Longrightarrow> row_kept r (decide_row t st who n d creator r)"
  "row_kept r (r\<lparr>pp_status := st\<rparr>)" "row_kept r (export_row who ins r)"
  by (simp_all add: row_kept_def once_def decide_row_def export_row_def)

text \<open>The most base units worth at most an amount, at a price: the instruction never overpays.\<close>

definition pays_at_most :: "exported_instruction \<Rightarrow> bool" where
  "pays_at_most ins \<longleftrightarrow> (\<forall>u. ei_amountBaseUnits ins = Some u \<longrightarrow>
     (\<exists>price srcs seen atto n v a. ei_price ins = Some (price, srcs, seen) \<and> priceToAtto price = Inr atto \<and> u = int_str n \<and>
        0 \<le> n \<and> usdToMicros (ei_amountUsd ins) = Inr a \<and>
        nativeToUsdMicros n (ti_decimals (ei_asset ins)) atto RCeil = Inr v \<and> v \<le> a \<and>
        a * usd_denom (ti_decimals (ei_asset ins)) < (n + 1) * atto))"

lemma usdToBaseUnits_exact:
  assumes "usdToBaseUnits amount d price = Inr n" "usdToMicros amount = Inr a" "0 \<le> a"
  shows "0 \<le> n \<and> (\<exists>atto v. priceToAtto price = Inr atto \<and> nativeToUsdMicros n d atto RCeil = Inr v \<and> v \<le> a \<and>
    a * usd_denom d < (n + 1) * atto)"
proof -
  let ?D = "usd_denom d"
  obtain atto where p: "priceToAtto price = Inr atto" "0 < atto"
    using assms(1,2) by (auto simp: usdToBaseUnits_def sbind_eq_Inr split: if_splits)
  obtain worth where b: "nativeToUsdMicros (bdiv (a * 10 ^ nat d * 1000000000000) atto) d atto RCeil = Inr worth"
    and n: "n = (if worth > a then bdiv (a * 10 ^ nat d * 1000000000000) atto - 1 else bdiv (a * 10 ^ nat d * 1000000000000) atto)"
    using assms(1) p assms(2) by (auto simp: usdToBaseUnits_def Let_def sbind_eq_Inr)
  define u where "u = bdiv (a * 10 ^ nat d * 1000000000000) atto"
  have D: "a * 10 ^ nat d * 1000000000000 = a * ?D" by (simp add: usd_denom_def)
  have pos: "0 \<le> a * ?D" using assms(3) by simp
  have u: "atto * u \<le> a * ?D" "a * ?D < atto * (u + 1)"
    using bdiv_bracket [OF p(2) pos] by (simp_all add: u_def D)
  have "0 \<le> u" using p(2) pos by (simp add: u_def D bdiv_nonneg pos_imp_zdiv_nonneg_iff)
  have c: "ceilDiv (u * atto) ?D = Inr worth" using b by (simp add: nativeToUsdMicros_ceil u_def)
  have "worth \<le> a" using ceilDiv_le_iff [OF c, of a] u(1) by (simp add: mult.commute)
  then have "n = u" using n by (simp add: u_def)
  then show ?thesis using p(1) b \<open>worth \<le> a\<close> \<open>0 \<le> u\<close> u(2) by (auto simp: u_def [symmetric] mult.commute)
qed

lemma instruction_pays:
  assumes "usdToMicros (pp_amountUsd (xc_proposal x)) = Inr a" "0 \<le> a"
  shows "pays_at_most (instruction_of t x ans)"
  unfolding pays_at_most_def
proof (intro allI impI)
  fix u assume u: "ei_amountBaseUnits (instruction_of t x ans) = Some u"
  let ?amt = "export_amount_of t (pp_amountUsd (xc_proposal x)) (xc_token x) ans"
  have "xa_baseUnits ?amt = Some u" using u by (simp add: instruction_of_def Let_def)
  then obtain q price n where q: "ans = Quoted q" "qt_priceUsd q = Some price" "\<not> qt_disputed q"
    and n: "usdToBaseUnits (pp_amountUsd (xc_proposal x)) (ti_decimals (xc_token x)) price = Inr n" "u = int_str n"
    by (auto simp: export_amount_of_def no_amount_def split: price_answer.splits option.splits if_splits sum.splits)
  have "\<exists>srcs seen. xa_price ?amt = Some (price, srcs, seen)" using q n by (simp add: export_amount_of_def)
  then obtain srcs seen where pr: "xa_price ?amt = Some (price, srcs, seen)" by blast
  obtain atto v where e: "0 \<le> n" "priceToAtto price = Inr atto"
    "nativeToUsdMicros n (ti_decimals (xc_token x)) atto RCeil = Inr v" "v \<le> a"
    "a * usd_denom (ti_decimals (xc_token x)) < (n + 1) * atto"
    using usdToBaseUnits_exact [OF n(1) assms] by blast
  show "\<exists>price srcs seen atto n v a. ei_price (instruction_of t x ans) = Some (price, srcs, seen) \<and> priceToAtto price = Inr atto \<and>
      u = int_str n \<and> 0 \<le> n \<and> usdToMicros (ei_amountUsd (instruction_of t x ans)) = Inr a \<and>
      nativeToUsdMicros n (ti_decimals (ei_asset (instruction_of t x ans))) atto RCeil = Inr v \<and> v \<le> a \<and>
      a * usd_denom (ti_decimals (ei_asset (instruction_of t x ans))) < (n + 1) * atto"
    using pr e n(2) assms(1)
    by (intro exI [of _ price] exI [of _ srcs] exI [of _ seen] exI [of _ atto] exI [of _ n] exI [of _ v] exI [of _ a])
      (simp add: instruction_of_def Let_def)
qed

definition amount_ok :: "string \<Rightarrow> bool" where
  "amount_ok s \<longleftrightarrow> (\<exists>a. usdToMicros s = Inr a \<and> 0 < a)"

definition approved_decision :: "cap_decision option \<Rightarrow> bool" where
  "approved_decision d \<longleftrightarrow> (\<exists>x. d = Some x \<and> cd_allowed x \<and> cd_stage x = Approve_stage)"

text \<open>An exported row holds its own instruction.\<close>

definition exports_row :: "proposal_row \<Rightarrow> bool" where
  "exports_row p \<longleftrightarrow> (\<exists>ins d. pp_export p = Some ins \<and> pp_decision p = Some d \<and> ei_proposalId ins = pp_id p \<and>
     ei_chain ins = pp_chain p \<and> ei_recipient ins = pp_recipient p \<and> ei_amountUsd ins = pp_amountUsd p \<and>
     ti_symbol (ei_asset ins) = pp_asset p \<and> ei_checks ins = cd_checks d \<and> pays_at_most ins)"

definition row_ok :: "int \<Rightarrow> proposal_row \<Rightarrow> bool" where
  "row_ok c p \<longleftrightarrow> amount_ok (pp_amountUsd p) \<and>
     (pp_status p = Proposed \<longrightarrow> pp_decision p = None \<and> pp_decidedAt p = None) \<and>
     (counted p \<longrightarrow> approved_decision (pp_decision p) \<and> (\<exists>t \<le> c. pp_decidedAt p = Some t)) \<and>
     (pp_status p = Exported \<longrightarrow> exports_row p)"

definition context_ok :: "export_context \<Rightarrow> bool" where
  "context_ok x \<longleftrightarrow> approved_decision (pp_decision (xc_proposal x)) \<and> amount_ok (pp_amountUsd (xc_proposal x)) \<and>
     ti_symbol (xc_token x) = pp_asset (xc_proposal x)"

fun treasury_ok :: "treasury_world \<Rightarrow> bool" where
  "treasury_ok (db, xs, c) \<longleftrightarrow> distinct (map pp_id (td_proposals db)) \<and> (\<forall>p \<in> set (td_proposals db). row_ok c p) \<and>
     (\<forall>x \<in> set xs. context_ok x \<and> (\<exists>r \<in> set (td_proposals db). row_kept (xc_proposal x) r))"

declare treasury_ok.simps [simp del]

lemma row_ok_later: "row_ok c p \<Longrightarrow> c \<le> c' \<Longrightarrow> row_ok c' p"
  by (auto simp: row_ok_def intro: order_trans)

lemma treasury_ok_same:
  "treasury_ok (db, xs, c) \<Longrightarrow> td_proposals db' = td_proposals db \<Longrightarrow> c \<le> c' \<Longrightarrow> set xs' \<subseteq> set xs \<Longrightarrow>
     treasury_ok (db', xs', c')"
  by (auto simp: treasury_ok.simps intro: row_ok_later)

lemma treasury_ok_update:
  assumes "treasury_ok (db, xs, c)" "getProposal db pid = Some p" "td_proposals db' = td_proposals (setProposal db pid f)"
    "\<And>r. pp_id (f r) = pp_id r" "row_ok c' (f p)" "row_kept p (f p)" "c \<le> c'" "set xs' \<subseteq> set xs"
  shows "treasury_ok (db', xs', c')"
proof -
  have d: "distinct (map pp_id (td_proposals db))" using assms(1) by (simp add: treasury_ok.simps)
  have only: "r = p" if "r \<in> set (td_proposals db)" "pp_id r = pid" for r
    using pro.look_in [OF d that(1)] that(2) assms(2) by simp
  have rows: "\<forall>r \<in> set (td_proposals (setProposal db pid f)). row_ok c' r"
  proof (rule pro.all_upd)
    show "\<forall>r \<in> set (td_proposals db). row_ok c' r" using assms(1,7) by (auto simp: treasury_ok.simps intro: row_ok_later)
    show "row_ok c' (f r)" if "r \<in> set (td_proposals db)" "pp_id r = pid" for r
      using only [OF that] assms(5) by simp
  qed
  have kept: "\<exists>s \<in> set (td_proposals (setProposal db pid f)). row_kept r s" if "r \<in> set (td_proposals db)" for r
  proof (cases "pp_id r = pid")
    case True
    then have "row_kept r (f r)" using only [OF that] assms(6) by simp
    then show ?thesis using that True by (auto simp: setProposal_def)
  next
    case False
    then have "r \<in> set (td_proposals (setProposal db pid f))" using that by (auto simp: setProposal_def intro!: image_eqI [of _ _ r])
    then show ?thesis using row_kept_refl by blast
  qed
  show ?thesis
    using assms(1,8) rows pro.unique_upd [OF assms(4) d] kept row_kept_trans
    unfolding treasury_ok.simps assms(3) by blast
qed

lemma treasury_ok_insert:
  assumes "treasury_ok (db, xs, c)" "td_proposals db' = td_proposals db @ [row]" "getProposal db (pp_id row) = None"
    "row_ok c' row" "c \<le> c'"
  shows "treasury_ok (db', xs, c')"
proof -
  have "pp_id row \<notin> pp_id ` set (td_proposals db)" using assms(3) by (simp add: pro.look_None)
  then show ?thesis using assms by (auto simp: treasury_ok.simps intro: row_ok_later)
qed

lemma proposed_row_ok: "pp_status row = Proposed \<Longrightarrow> pp_decision row = None \<Longrightarrow> pp_decidedAt row = None \<Longrightarrow>
    usdToMicros (pp_amountUsd row) = Inr a \<Longrightarrow> 0 < a \<Longrightarrow> row_ok c row"
  by (auto simp: row_ok_def amount_ok_def counted_def)

lemma propose_ok:
  assumes "propose t pid q actor source db = (db', r)" "treasury_ok (db, xs, c)" "c \<le> c'"
  shows "treasury_ok (db', xs, c')"
  using propose_effect [OF assms(1)]
proof (elim disjE exE conjE)
  assume "td_proposals db' = td_proposals db"
  then show ?thesis using treasury_ok_same assms(2,3) by blast
next
  fix row d a
  assume "td_proposals db' = td_proposals db @ [row]" "getProposal db pid = None" "pp_id row = pid"
    "pp_status row = Proposed" "pp_decision row = None" "pp_decidedAt row = None"
    "usdToMicros (pp_amountUsd row) = Inr a" "0 < a"
  then show ?thesis using treasury_ok_insert [OF assms(2) _ _ _ assms(3)] proposed_row_ok by metis
qed

lemma decide_row_simps [simp]:
  "pp_id (decide_row t st who n d creator r) = pp_id r" "pp_status (decide_row t st who n d creator r) = st"
  "pp_amountUsd (decide_row t st who n d creator r) = pp_amountUsd r"
  "pp_decision (decide_row t st who n d creator r) = Some d" "pp_decidedAt (decide_row t st who n d creator r) = Some t"
  by (simp_all add: decide_row_def)

lemma row_of:
  "treasury_ok (db, xs, c) \<Longrightarrow> getProposal db pid = Some p \<Longrightarrow> row_ok c p \<and> p \<in> set (td_proposals db) \<and> pp_id p = pid"
  using pro.look_Some by (auto simp: treasury_ok.simps)

lemma rejected_ok:
  assumes "treasury_ok (db, xs, c)" "getProposal db pid = Some p" "pp_status p = Proposed" "c \<le> c'"
    "td_proposals db' = td_proposals (setProposal db pid (decide_row t Rejected who n d creator))"
  shows "treasury_ok (db', xs, c')"
proof -
  have p: "amount_ok (pp_amountUsd p)" "pp_decision p = None" "pp_decidedAt p = None"
    using row_of [OF assms(1,2)] assms(3) by (simp_all add: row_ok_def)
  have "row_ok c' (decide_row t Rejected who n d creator p)" using p by (simp add: row_ok_def counted_def)
  then show ?thesis by (intro treasury_ok_update [OF assms(1,2,5)]) (use p assms(4) in simp_all)
qed

lemma approved_ok:
  assumes "treasury_ok (db, xs, c)" "getProposal db pid = Some p" "pp_status p = Proposed" "c \<le> t"
    "td_proposals db' = td_proposals (setProposal db pid (decide_row t Approved who n d creator))"
    "cd_allowed d" "cd_stage d = Approve_stage"
  shows "treasury_ok (db', xs, t)"
proof -
  have p: "amount_ok (pp_amountUsd p)" "pp_decision p = None" "pp_decidedAt p = None"
    using row_of [OF assms(1,2)] assms(3) by (simp_all add: row_ok_def)
  have "row_ok t (decide_row t Approved who n d creator p)" using p assms(6,7)
    by (simp add: row_ok_def counted_def approved_decision_def)
  then show ?thesis by (intro treasury_ok_update [OF assms(1,2,5)]) (use p assms(4) in simp_all)
qed

lemma cancelled_ok:
  assumes "treasury_ok (db, xs, c)" "getProposal db pid = Some p" "c \<le> c'"
    "td_proposals db' = td_proposals (setProposal db pid (pp_status_update (\<lambda>_. Cancelled)))"
  shows "treasury_ok (db', xs, c')"
proof -
  have "row_ok c' (p\<lparr>pp_status := Cancelled\<rparr>)" using row_of [OF assms(1,2)] by (simp add: row_ok_def counted_def)
  then show ?thesis by (intro treasury_ok_update [OF assms(1,2,4)]) (use assms(3) in simp_all)
qed

lemma exported_ok:
  assumes "treasury_ok (db, xs, c)" "x \<in> set xs" "getProposal db (pp_id (xc_proposal x)) = Some p"
    "pp_status p = Approved" "c \<le> c'"
    "td_proposals db' = td_proposals (setProposal db (pp_id (xc_proposal x)) (export_row who (instruction_of t x ans)))"
  shows "treasury_ok (db', remove1 x xs, c')"
proof -
  let ?q = "xc_proposal x" and ?ins = "instruction_of t x ans"
  have ok: "row_ok c p" "p \<in> set (td_proposals db)" "pp_id p = pp_id ?q" using row_of [OF assms(1,3)] by simp_all
  obtain r where r: "r \<in> set (td_proposals db)" "row_kept ?q r" and x: "context_ok x"
    using assms(1,2) by (auto simp: treasury_ok.simps)
  have "getProposal db (pp_id r) = Some r" using assms(1) r(1) by (intro pro.look_in) (simp_all add: treasury_ok.simps)
  then have "r = p" using r(2) assms(3) by (simp add: row_kept_def)
  with r x obtain d where d: "row_kept ?q p" "pp_decision ?q = Some d" "pp_decision p = Some d"
    by (auto simp: context_ok_def approved_decision_def row_kept_def once_def)
  obtain a where a: "usdToMicros (pp_amountUsd ?q) = Inr a" "0 < a" using x by (auto simp: context_ok_def amount_ok_def)
  have pay: "pays_at_most ?ins" using instruction_pays [OF a(1)] a(2) by simp
  have "exports_row (export_row who ?ins p)"
    using d x pay unfolding exports_row_def
    by (intro exI [of _ ?ins] exI [of _ d])
      (simp add: export_row_def instruction_of_def Let_def row_kept_def context_ok_def)
  then have "row_ok c' (export_row who ?ins p)"
    using row_ok_later [OF ok(1) assms(5)] assms(4) by (simp add: row_ok_def counted_def export_row_def)
  moreover have "pp_id (export_row who ?ins s) = pp_id s" for s by (simp add: export_row_def)
  ultimately show ?thesis
    by (intro treasury_ok_update [OF assms(1,3,6)]) (use assms(5) set_remove1_subset [of x xs] in simp_all)
qed

lemma core_ok: "treasury_ok (db, xs, c) \<Longrightarrow> same_core db db' \<Longrightarrow> c \<le> c' \<Longrightarrow> treasury_ok (db', xs, c')"
  by (rule treasury_ok_same [of db xs c]) (simp_all add: same_core_def)

lemma propose_fst_ok:
  assumes "treasury_ok (db, xs, c)" "c \<le> c'"
  shows "treasury_ok (fst (propose t pid q actor source db), xs, c')"
proof -
  obtain d r where "propose t pid q actor source db = (d, r)" by (cases "propose t pid q actor source db")
  with propose_ok [OF this assms] show ?thesis by simp
qed

lemma agent_grew_ok:
  assumes "review_finish t period cycle ids inp reply actor db = (db', outs)" "treasury_ok (db, xs, c)" "c \<le> c'"
  shows "treasury_ok (db', xs, c')"
proof -
  have rec: "treasury_ok (fst (apply_recommendation t views period cycle y db), xs, c')"
    if pre: "treasury_ok (db, xs, c)" "c \<le> c'" for views y db c
  proof -
    let ?d = "fst (apply_recommendation t views period cycle y db)"
    obtain d where d: "treasury_ok (d, xs, c')" "td_proposals ?d = td_proposals d"
      using apply_recommendation_proposals [of t views period cycle y db]
    proof (elim disjE exE)
      assume e: "td_proposals ?d = td_proposals db"
      show thesis by (rule that [OF treasury_ok_same [OF pre(1) refl pre(2) subset_refl] e])
    next
      fix q assume e: "td_proposals ?d = td_proposals (fst (propose t (fst (snd y)) q TREASURY_AGENT_ACTOR Src_agent db))"
      show thesis by (rule that [OF propose_fst_ok [OF pre] e])
    qed
    show ?thesis by (rule treasury_ok_same [OF d order_refl subset_refl])
  qed
  have all: "treasury_ok (fst (applyReview t views period cycle ys db), xs, c')" if "treasury_ok (db, xs, c')" for views ys db
    using that
  proof (induction ys arbitrary: db)
    case (Cons y ys)
    then show ?case using rec [OF Cons.prems order_refl, of views y] by (simp add: case_prod_unfold)
  qed simp
  have "treasury_ok (db, xs, c')" using treasury_ok_same [OF assms(2) refl assms(3)] by blast
  note g = all [OF this, of "ri_providers inp" "map (\<lambda>(i, r). (r, ids (2 * i + 1), ids (2 * i + 2))) (enumerate 0 (ao_actions (agent_review reply inp)))"]
  have "td_proposals db' = td_proposals (fst (applyReview t (ri_providers inp) period cycle
      (map (\<lambda>(i, r). (r, ids (2 * i + 1), ids (2 * i + 2))) (enumerate 0 (ao_actions (agent_review reply inp)))) db))"
    using assms(1) by (auto simp: review_finish_def Let_def case_prod_unfold split: option.splits)
  from treasury_ok_same [OF g this order_refl subset_refl] show ?thesis .
qed

lemma core_proposals: "same_core db (fst m) \<Longrightarrow> m = (db', r) \<Longrightarrow> td_proposals db' = td_proposals db"
  by (simp add: same_core_def)

lemmas quiet_proposals = treasury_frame readBalances_core [THEN core_proposals] review_prepare_core [THEN core_proposals]
  acknowledgeAlert_core [THEN core_proposals]

lemma recordExpense_quiet: "recordExpense t eid aid r actor db = (db', e) \<Longrightarrow> td_proposals db' = td_proposals db"
  using recordExpense_same(3) [of t eid aid r actor db] by simp

lemma treasury_step_ok:
  assumes "treasury_step T w ev w'" "treasury_ok w"
  shows "treasury_ok w'"
  using assms
proof cases
  case (ts_approve t t' pid creator nt actor db db' ra c xs)
  show ?thesis using ts_approve(4)
  proof (cases rule: approveE)
    case none
    then show ?thesis using ts_approve assms(2) treasury_ok_same [of db xs c db' t' xs] by simp
  next
    case (rejected p d n e)
    show ?thesis unfolding ts_approve(3)
      by (rule rejected_ok [OF assms(2) [unfolded ts_approve(1)] rejected(1,2) _ rejected(4)]) (use ts_approve in simp)
  next
    case (approved p d)
    have "cd_stage d = Approve_stage"
      using approved(5) allowed_amount approved(6) by (auto simp: caps_evaluate_def sbind_eq_Inr)
    then show ?thesis unfolding ts_approve(3) using approved ts_approve
      by (intro approved_ok [OF assms(2) [unfolded ts_approve(1)] approved(1,2) _ approved(7,6)]) simp_all
  qed
next
  case (ts_export_begin pid db x c t xs)
  then have e: "getProposal db pid = Some (xc_proposal x)" "pp_status (xc_proposal x) = Approved"
    "ti_symbol (xc_token x) = pp_asset (xc_proposal x)" using export_beginE by blast+
  note r = row_of [OF assms(2) [unfolded ts_export_begin(1)] e(1)]
  have "\<exists>s \<in> set (td_proposals db). row_kept (xc_proposal x) s" using r row_kept_refl by blast
  moreover have "context_ok x" using r e by (simp add: context_ok_def row_ok_def counted_def)
  ultimately show ?thesis using ts_export_begin assms(2)
    by (auto simp: treasury_ok.simps intro: row_ok_later)

next
  case (ts_export_finish t x ans actor db db' re xs c)
  show ?thesis using ts_export_finish(4)
  proof (cases rule: export_finishE)
    case none
    then show ?thesis using ts_export_finish assms(2) treasury_ok_same [of db xs c db' t "remove1 x xs"]
        set_remove1_subset [of x xs] by simp
  next
    case (exported p)
    show ?thesis unfolding ts_export_finish(3)
      by (rule exported_ok [OF assms(2) [unfolded ts_export_finish(1)] ts_export_finish(5) exported(1,2) ts_export_finish(6) exported(6)])
  qed
next
  case (ts_reject t pid nt actor db db' c xs)
  then show ?thesis using assms(2) by (auto elim!: rejectE intro: rejected_ok)
next
  case (ts_cancel t pid nt actor db db' c xs)
  then show ?thesis using assms(2) by (auto elim!: cancelE intro: cancelled_ok)
next
  case (ts_config t u entries actor db db' c xs)
  show ?thesis unfolding ts_config(3)
    by (rule treasury_ok_same [OF assms(2) [unfolded ts_config(1)] quiet_proposals(1) [OF ts_config(4)] ts_config(5) subset_refl])
next
  case (ts_freeze c t db xs aid reason actor)
  show ?thesis unfolding ts_freeze(3)
    by (rule treasury_ok_same [OF assms(2) [unfolded ts_freeze(1)] freeze_proposals ts_freeze(4) subset_refl])
next
  case (ts_clear t nt actor db db' c xs)
  show ?thesis unfolding ts_clear(3)
    by (rule treasury_ok_same [OF assms(2) [unfolded ts_clear(1)] clearFreeze_proposals [OF ts_clear(4)] ts_clear(5) subset_refl])
next
  case (ts_add t pid i actor db db' c xs)
  show ?thesis unfolding ts_add(3)
    by (rule treasury_ok_same [OF assms(2) [unfolded ts_add(1)] addProvider_proposals [OF ts_add(4)] ts_add(5) subset_refl])
next
  case (ts_update t pid pu actor db db' c xs)
  show ?thesis unfolding ts_update(3)
    by (rule treasury_ok_same [OF assms(2) [unfolded ts_update(1)] updateProvider_proposals [OF ts_update(4)] ts_update(5) subset_refl])
next
  case (ts_expense t eid aid rec actor db db' r c xs)
  show ?thesis unfolding ts_expense(3)
    by (rule treasury_ok_same [OF assms(2) [unfolded ts_expense(1)] recordExpense_quiet [OF ts_expense(4)] ts_expense(5) subset_refl])
next
  case (ts_propose t pid q actor source db db' r' c xs)
  show ?thesis unfolding ts_propose(3) by (rule propose_ok [OF ts_propose(4) assms(2) [unfolded ts_propose(1)] ts_propose(5)])
next
  case (ts_balances t ids ask config addresses db db' rb c xs)
  show ?thesis unfolding ts_balances(3)
    by (rule treasury_ok_same [OF assms(2) [unfolded ts_balances(1)] core_proposals [OF readBalances_core ts_balances(4)]
        ts_balances(5) subset_refl])
next
  case (ts_prepare t ids config rep db db' rp c xs)
  show ?thesis unfolding ts_prepare(3)
    by (rule treasury_ok_same [OF assms(2) [unfolded ts_prepare(1)] core_proposals [OF review_prepare_core ts_prepare(4)]
        ts_prepare(5) subset_refl])
next
  case (ts_review t period cycle ids inp reply actor db db' outs c xs)
  show ?thesis unfolding ts_review(3) by (rule agent_grew_ok [OF ts_review(4) assms(2) [unfolded ts_review(1)] ts_review(5)])
next
  case (ts_acknowledge t aid actor db db' rk c xs)
  show ?thesis unfolding ts_acknowledge(3)
    by (rule treasury_ok_same [OF assms(2) [unfolded ts_acknowledge(1)] core_proposals [OF acknowledgeAlert_core ts_acknowledge(4)]
        ts_acknowledge(5) subset_refl])
next
  case (ts_read c t db xs what actor)
  show ?thesis unfolding ts_read(3)
    by (rule treasury_ok_same [OF assms(2) [unfolded ts_read(1)] _ ts_read(4) subset_refl]) (simp add: noteRead_def)
qed

lemma treasury_run_ok: "treasury_run T w tr w' \<Longrightarrow> treasury_ok w \<Longrightarrow> treasury_ok w'"
  by (induction rule: treasury_run.induct) (blast intro: treasury_step_ok)+

lemma treasury_start_ok: "td_proposals db = [] \<Longrightarrow> treasury_ok (db, [], c)"
  by (simp add: treasury_ok.simps)

section \<open>Approvals stay inside the caps\<close>

definition micros_of :: "string \<Rightarrow> int" where
  "micros_of s = (case usdToMicros s of Inl _ \<Rightarrow> 0 | Inr a \<Rightarrow> a)"

text \<open>What is approved or exported with a decision in the month of an instant.\<close>

definition month_weight :: "int \<Rightarrow> proposal_row \<Rightarrow> int" where
  "month_weight t p = (if pp_status p \<in> {Approved, Exported} \<and> (case pp_decidedAt p of None \<Rightarrow> False | Some d \<Rightarrow> month_index d = month_index t)
     then micros_of (pp_amountUsd p) else 0)"

lemma month_weight_counted:
  "month_weight t p = (if counted p \<and> (case pp_decidedAt p of None \<Rightarrow> False | Some d \<Rightarrow> month_index d = month_index t)
     then micros_of (pp_amountUsd p) else 0)"
  by (simp add: month_weight_def counted_def)

definition month_spend :: "treasury_db \<Rightarrow> int \<Rightarrow> int" where
  "month_spend db t = sum_list (map (month_weight t) (td_proposals db))"

lemma amount_ok_micros: "amount_ok s \<Longrightarrow> usdToMicros s = Inr (micros_of s) \<and> 0 < micros_of s"
  by (auto simp: amount_ok_def micros_of_def)

lemma sum_list_sort: "sum_list (map f (sort_key k xs)) = sum_list (map (f :: 'b \<Rightarrow> int) xs)"
  by (metis mset_map mset_sort sum_mset_sum_list)

lemma month_spend_same: "month_index t = month_index t' \<Longrightarrow> month_spend db t = month_spend db t'"
proof -
  assume "month_index t = month_index t'"
  then have "month_weight t = month_weight t'" by (intro ext) (auto simp: month_weight_def split: option.split)
  then show ?thesis by (simp add: month_spend_def)
qed

lemma monthToDate_spend:
  assumes "treasury_ok (db, xs, c)" "monthToDate db t (Some pid) = Inr s" "getProposal db pid = Some p" "\<not> counted p"
  shows "usdToMicros s = Inr (month_spend db t)"
proof -
  let ?in = "\<lambda>q. counted q \<and> (case pp_decidedAt q of None \<Rightarrow> False
     | Some d \<Rightarrow> fst (monthBounds t) \<le> d \<and> d < snd (monthBounds t))"
  let ?rows = "filter ?in (td_proposals db)"
  have ok: "\<forall>q \<in> set (td_proposals db). amount_ok (pp_amountUsd q)" and d: "distinct (map pp_id (td_proposals db))"
    using assms(1) by (auto simp: treasury_ok.simps row_ok_def)
  have other: "pp_id q \<noteq> pid" if "q \<in> set (td_proposals db)" "counted q" for q
    using pro.look_in [OF d that(1)] that(2) assms(3,4) by auto
  have "filter (\<lambda>q. Some (pp_id q) \<noteq> Some pid) (approvedInMonth db t) = approvedInMonth db t"
    using other by (auto simp: approvedInMonth_def case_prod_unfold filter_id_conv)
  then have "sum_micros (map pp_amountUsd (sort_key (\<lambda>q. the (pp_decidedAt q)) ?rows)) = usdToMicros s"
    using assms(2) by (auto simp: monthToDate_def sumUsd_def sbind_eq_Inr approvedInMonth_def case_prod_unfold)
  moreover have "sum_micros (map pp_amountUsd (sort_key (\<lambda>q. the (pp_decidedAt q)) ?rows)) =
      Inr (sum_list (map (\<lambda>q. micros_of (pp_amountUsd q)) (sort_key (\<lambda>q. the (pp_decidedAt q)) ?rows)))"
    using ok amount_ok_micros by (intro sum_micros_map_Inr) auto
  moreover have "sum_list (map (\<lambda>q. micros_of (pp_amountUsd q)) ?rows) = month_spend db t"
    unfolding month_spend_def month_weight_counted sum_list_map_filter' [symmetric] same_month ..
  ultimately show ?thesis by (simp add: sum_list_sort)
qed

lemma month_spend_approved:
  assumes "treasury_ok (db, xs, c)" "getProposal db pid = Some p" "pp_status p = Proposed"
    "td_proposals db' = td_proposals (setProposal db pid (decide_row t Approved who n d creator))"
  shows "month_spend db' t = month_spend db t + micros_of (pp_amountUsd p)"
proof -
  have "distinct (map pp_id (td_proposals db))" using assms(1) by (simp add: treasury_ok.simps)
  note total = pro.total_upd [OF this assms(2), of "month_weight t" "decide_row t Approved who n d creator"]
  have "month_weight t p = 0" using assms(3) by (simp add: month_weight_def counted_def)
  moreover have "month_weight t (decide_row t Approved who n d creator p) = micros_of (pp_amountUsd p)"
    by (simp add: month_weight_def counted_def)
  ultimately show ?thesis using total by (simp add: month_spend_def assms(4))
qed

lemma month_spend_nonneg: "treasury_ok (db, xs, c) \<Longrightarrow> 0 \<le> month_spend db t"
proof -
  assume "treasury_ok (db, xs, c)"
  then have "\<forall>q \<in> set (td_proposals db). 0 < micros_of (pp_amountUsd q)"
    using amount_ok_micros by (auto simp: treasury_ok.simps row_ok_def)
  then show ?thesis unfolding month_spend_def by (intro sum_list_nonneg) (auto simp: month_weight_def intro: order.strict_implies_order)
qed

text \<open>A month that begins after the last decision has nothing in it yet.\<close>

lemma month_spend_new_month:
  assumes "treasury_ok (db, xs, c)" "c \<le> t" "t \<le> t'" "month_index t \<noteq> month_index t'"
  shows "month_spend db t' = 0"
proof -
  have "month_weight t' q = 0" if "q \<in> set (td_proposals db)" for q
  proof (cases "counted q")
    case True
    moreover have "row_ok c q" using assms(1) that by (simp add: treasury_ok.simps)
    ultimately obtain d where "pp_decidedAt q = Some d" "d \<le> c" by (auto simp: row_ok_def)
    moreover have "month_index d \<noteq> month_index t'"
      using month_index_mono [of d t] month_index_mono [of t t'] assms(2-4) \<open>d \<le> c\<close> by linarith
    ultimately show ?thesis by (simp add: month_weight_counted)
  qed (simp add: month_weight_counted)
  then have "map (month_weight t') (td_proposals db) = map (\<lambda>_. 0) (td_proposals db)" by simp
  then show ?thesis unfolding month_spend_def by (simp only: sum_list_0)
qed

text \<open>C12. No approval escapes the caps. Whatever was done before, in whatever order and with exports and reviews
  in flight, an approval that succeeds approves a pending proposal of an active on-chain provider, at
  the provider's allowlisted recipient on an enabled chain, while the treasury is not frozen; the
  amount is within the per-payment cap in force, the creator approved it if it reaches the
  threshold, and everything approved or exported so far in the calendar month of the decision,
  this payment included, is within the monthly cap in force, even when the month turns between the
  evaluation and the decision.\<close>

theorem approval_within_caps:
  fixes db db' :: treasury_db
  assumes "treasury_run T (db0, [], c0) tr (db, xs, c)" "td_proposals db0 = []"
    and "approve t t' pid creator note actor db = (db', Inr ())" "c \<le> t" "t \<le> t'"
  shows "\<exists>p pv cfg a per mon thr. getProposal db pid = Some p \<and> pp_status p = Proposed \<and>
    td_config db = Some cfg \<and> \<not> tc_frozen cfg \<and> getProvider db (pp_providerId p) = Some pv \<and> pv_active pv \<and>
    pv_billingMode pv = On_chain \<and> pv_recipient pv = Some (pp_chain p, pp_recipient p) \<and>
    pp_chain p \<in> set (enabledTreasuryChains db) \<and> usdToMicros (pp_amountUsd p) = Inr a \<and> 0 < a \<and>
    usdToMicros (perPaymentCapUsd (tc_caps cfg)) = Inr per \<and> a \<le> per \<and>
    usdToMicros (monthlyCapUsd (tc_caps cfg)) = Inr mon \<and> month_spend db' t' \<le> mon \<and>
    usdToMicros (approvalThresholdUsd (tc_caps cfg)) = Inr thr \<and> (thr \<le> a \<longrightarrow> creator)"
proof -
  have ok: "treasury_ok (db, xs, c)" using treasury_run_ok [OF assms(1) treasury_start_ok [OF assms(2)]] .
  from assms(3) show ?thesis
  proof (cases rule: approveE)
    case (approved p d)
    let ?pv = "getProvider db (pp_providerId p)"
    have id: "pp_id p = pid" using row_of [OF ok approved(1)] by simp
    obtain cfg mtd spend where cfg: "td_config db = Some cfg" and mtd: "monthToDate db t (Some pid) = Inr mtd"
      and ev: "evaluateCaps \<lparr>ci_now = t, ci_stage = Approve_stage, ci_frozen = tc_frozen cfg, ci_caps = tc_caps cfg,
         ci_provider = ?pv, ci_enabledChains = enabledTreasuryChains db,
         ci_proposal = \<lparr>cq_providerId = (case ?pv of None \<Rightarrow> ''unknown'' | Some p \<Rightarrow> pv_id p), cq_chain = pp_chain p,
           cq_recipient = pp_recipient p, cq_asset = pp_asset p, cq_amountUsd = pp_amountUsd p\<rparr>,
         ci_monthToDateApprovedUsd = mtd, ci_providerPeriodSpendUsd = spend, ci_period = pp_period p,
         ci_creatorApproval = creator\<rparr> = Inr d" (is "evaluateCaps ?inp = _")
      using approved(5) by (auto simp: caps_evaluate_def sbind_eq_Inr configRow_def id split: option.splits)
    have fr: "\<not> tc_frozen cfg" using approved(3) cfg by (simp add: isFrozen_def)
    obtain pv a where pv: "?pv = Some pv" "pv_active pv" "pv_billingMode pv = On_chain"
      "pv_recipient pv = Some (pp_chain p, pp_recipient p)" "pp_chain p \<in> set (enabledTreasuryChains db)"
      and a: "usdToMicros (pp_amountUsd p) = Inr a" "amount_within ?inp pv a"
      using caps_allowed_iff [OF ev] fr approved(6) by auto
    obtain per mon m thr where w: "0 < a" "usdToMicros (perPaymentCapUsd (tc_caps cfg)) = Inr per" "a \<le> per"
      "usdToMicros (monthlyCapUsd (tc_caps cfg)) = Inr mon" "usdToMicros mtd = Inr m" "m + a \<le> mon"
      "usdToMicros (approvalThresholdUsd (tc_caps cfg)) = Inr thr" "thr \<le> a \<longrightarrow> creator"
      using a(2) by (auto simp: amount_within_def)
    have "\<not> counted p" using approved(2) by (simp add: counted_def)
    then have m: "m = month_spend db t" using monthToDate_spend [OF ok mtd approved(1)] w(5) by simp
    have "month_spend db' t' = month_spend db t' + a"
      using month_spend_approved [OF ok approved(1,2,7)] a(1) by (simp add: micros_of_def)
    moreover have "month_spend db t' = month_spend db t \<or> month_spend db t' = 0"
      using month_spend_new_month [OF ok assms(4,5)] month_spend_same [of t t' db]
      by (cases "month_index t = month_index t'") simp_all
    ultimately have "month_spend db' t' \<le> mon" using m w(6) month_spend_nonneg [OF ok, of t] by auto
    then show ?thesis using approved(1,2) cfg fr pv a(1) w by blast
  qed simp_all
qed

section \<open>Exports\<close>

text \<open>C13. An exported instruction is the approved proposal: in every reachable state each exported row holds one
  instruction naming the row's own recipient, chain, amount and asset, resting on a decision that
  allowed it at approval and quoting its checks, and when it states base units they are the most that are
  worth no more than the approved amount at the quoted price.\<close>

theorem exported_is_approved:
  assumes "treasury_run T (db0, [], c0) tr (db, xs, c)" "td_proposals db0 = []"
    and "p \<in> set (td_proposals db)" "pp_status p = Exported"
  shows "\<exists>ins d. pp_export p = Some ins \<and> pp_decision p = Some d \<and> cd_allowed d \<and> cd_stage d = Approve_stage \<and>
    ei_proposalId ins = pp_id p \<and> ei_chain ins = pp_chain p \<and> ei_recipient ins = pp_recipient p \<and>
    ei_amountUsd ins = pp_amountUsd p \<and> ti_symbol (ei_asset ins) = pp_asset p \<and> ei_checks ins = cd_checks d \<and>
    (\<forall>u. ei_amountBaseUnits ins = Some u \<longrightarrow>
      (\<exists>price srcs seen atto n v a. ei_price ins = Some (price, srcs, seen) \<and> priceToAtto price = Inr atto \<and>
         u = int_str n \<and> 0 \<le> n \<and> usdToMicros (pp_amountUsd p) = Inr a \<and>
         nativeToUsdMicros n (ti_decimals (ei_asset ins)) atto RCeil = Inr v \<and> v \<le> a \<and>
         a * usd_denom (ti_decimals (ei_asset ins)) < (n + 1) * atto))"
proof -
  have "treasury_ok (db, xs, c)" using treasury_run_ok [OF assms(1) treasury_start_ok [OF assms(2)]] .
  then have "row_ok c p" using assms(3) by (simp add: treasury_ok.simps)
  then have "exports_row p" "approved_decision (pp_decision p)" using assms(4) by (simp_all add: row_ok_def counted_def)
  then obtain ins d where "pp_export p = Some ins" "pp_decision p = Some d" "cd_allowed d" "cd_stage d = Approve_stage"
    "ei_proposalId ins = pp_id p" "ei_chain ins = pp_chain p" "ei_recipient ins = pp_recipient p"
    "ti_symbol (ei_asset ins) = pp_asset p" "ei_checks ins = cd_checks d" "ei_amountUsd ins = pp_amountUsd p" "pays_at_most ins"
    by (auto simp: exports_row_def approved_decision_def)
  then show ?thesis
    by (intro exI [of _ ins] exI [of _ d]) (simp add: pays_at_most_def)
qed

section \<open>A freeze holds\<close>

lemma updateProposal_config: "updateProposal pid f db = Inr db' \<Longrightarrow> td_config db' = td_config db"
  by (auto simp: updateProposal_def setProposal_def split: option.splits if_splits)

lemma approve_write_config: "approve_write t pid creator nt actor p d db = Inr x \<Longrightarrow> td_config (fst x) = td_config db"
  by (auto simp: approve_write_def decideProposal_def sbind_eq_Inr dest: updateProposal_config split: if_splits)

lemma approve_config: "approve t t' pid creator nt actor db = (db', r) \<Longrightarrow> td_config db' = td_config db"
  unfolding approve_def transaction_def
  by (fastforce simp: sbind_eq_Inr dest: approve_write_config split: sum.splits option.splits)

lemma reject_config: "reject t pid nt actor db = Inr db' \<Longrightarrow> td_config db' = td_config db"
  by (auto simp: reject_def decideProposal_def sbind_eq_Inr dest: updateProposal_config)

lemma cancel_config: "cancel t pid nt actor db = Inr db' \<Longrightarrow> td_config db' = td_config db"
  by (auto simp: cancel_def cancelProposal_def sbind_eq_Inr dest: updateProposal_config)

lemma export_finish_config: "export_finish t x ans actor db = (db', r) \<Longrightarrow> td_config db' = td_config db"
  by (auto simp: export_finish_def exportProposalRow_def Let_def sbind_eq_Inr dest: updateProposal_config split: sum.splits)

lemma updateConfig_frozen: "updateConfig T t u as actor db = Inr db' \<Longrightarrow> isFrozen db' = isFrozen db"
  by (auto simp: updateConfig_def updateCaps_def updateConfigRow_def isFrozen_def upsert_config sbind_eq_Inr
      split: if_splits option.splits)

lemma addProvider_config: "addProvider T t pid i actor db = Inr db' \<Longrightarrow> td_config db' = td_config db"
  by (auto simp: addProvider_def insertProvider_def putProvider_def sbind_eq_Inr split: if_splits)

lemma updateProvider_config: "updateProvider T t pid u actor db = Inr db' \<Longrightarrow> td_config db' = td_config db"
  by (auto simp: updateProvider_def updateProviderRow_def setProvider_def sbind_eq_Inr split: if_splits)

lemma recordExpense_config: "recordExpense t eid aid r actor db = (db', e) \<Longrightarrow> td_config db' = td_config db"
  using recordExpense_same(4) [of t eid aid r actor db] by simp

lemma core_config: "same_core db (fst m) \<Longrightarrow> m = (db', r) \<Longrightarrow> td_config db' = td_config db"
  by (simp add: same_core_def)

lemma freeze_frozen: "td_config db = Some cfg \<Longrightarrow> isFrozen (freeze t aid reason actor db)"
  by (simp add: isFrozen_def freeze_def setFrozen_def updateConfigRow_def)

lemma frozen_config: "isFrozen db \<Longrightarrow> td_config db' = td_config db \<Longrightarrow> isFrozen db'"
  by (simp add: isFrozen_def)

lemma frozen_approve:
  assumes "isFrozen db"
  shows "\<exists>e. approve t t' pid creator nt who db = (db, Inl e) \<and>
    (\<forall>p. getProposal db pid = Some p \<longrightarrow> pp_status p = Proposed \<longrightarrow>
       e = AppError E_CONFLICT ''The treasury is frozen; cannot approve a payment proposal'')"
  using assms
  by (cases "getProposal db pid")
    (auto simp: approve_def requireProposal_def assertTransition_def assertNotFrozen_def transaction_def)

lemma frozen_refuses:
  assumes "isFrozen db"
  shows "approve t t' pid creator nt actor db \<noteq> (db', Inr u)" "export_begin pid db \<noteq> Inr x"
    "export_finish t x ans actor db = (db', r) \<Longrightarrow> db' = db \<and> (\<exists>e. r = Inl e)"
  using assms by (auto elim: approveE export_finishE dest: export_beginE)

lemma frozen_step:
  assumes "treasury_step T w ev w'" "isFrozen (fst w)" "fst ev \<noteq> Ev_cleared"
  shows "isFrozen (fst w') \<and> (\<forall>pid. fst ev \<noteq> Ev_approved pid) \<and> (\<forall>pid ins. fst ev \<noteq> Ev_exported pid ins)"
  using assms(1)
proof cases
  case (ts_config t u entries actor db db' c xs)
  then show ?thesis using assms updateConfig_frozen [OF ts_config(4)] by simp
next
  case (ts_freeze c t db xs aid reason actor)
  then obtain cfg where "td_config db = Some cfg" using assms(2) by (auto simp: isFrozen_def split: option.splits)
  then show ?thesis using ts_freeze freeze_frozen by simp
next
  case (ts_clear t nt actor db db' c xs)
  then show ?thesis using assms(3) by simp
next
  case (ts_approve t t' pid creator nt actor db db' ra c xs)
  then have "\<exists>e. ra = Inl e" using frozen_refuses(1) [of db t t' pid creator nt actor db'] assms(2) by (cases ra) auto
  then show ?thesis using ts_approve frozen_config [OF _ approve_config [OF ts_approve(4)]] assms(2) by auto
next
  case (ts_export_finish t x ans actor db db' re xs c)
  then show ?thesis using frozen_refuses(3) [OF _ ts_export_finish(4)] assms(2) by auto
next
  case (ts_review t period cycle ids inp reply actor db db' outs c xs)
  have "td_config db' = td_config db"
    using review_finish_grew [of db t period cycle ids inp reply actor] ts_review(4) by (simp add: agent_grew_def)
  then show ?thesis using ts_review assms(2) frozen_config by auto
next
  case (ts_propose t pid q actor source db db' r' c xs)
  then show ?thesis using frozen_config [of db db'] propose_same [OF ts_propose(4)] assms(2) by simp
next
  case (ts_balances t ids ask config addresses db db' rb c xs)
  then show ?thesis using frozen_config [OF _ core_config [OF readBalances_core ts_balances(4)]] assms(2) by simp
next
  case (ts_prepare t ids config rep db db' rp c xs)
  then show ?thesis using frozen_config [OF _ core_config [OF review_prepare_core ts_prepare(4)]] assms(2) by simp
next
  case (ts_acknowledge t aid actor db db' rk c xs)
  then show ?thesis using frozen_config [OF _ core_config [OF acknowledgeAlert_core ts_acknowledge(4)]] assms(2) by simp
next
  case (ts_read c t db xs what actor)
  then show ?thesis using frozen_config [of db "noteRead t what actor db"] assms(2) by (simp add: noteRead_def)
next
  case (ts_add t pid i actor db db' c xs)
  then show ?thesis using frozen_config [OF _ addProvider_config [OF ts_add(4)]] assms(2) by simp
next
  case (ts_update t pid pu actor db db' c xs)
  then show ?thesis using frozen_config [OF _ updateProvider_config [OF ts_update(4)]] assms(2) by simp
next
  case (ts_expense t eid aid rec actor db db' r c xs)
  then show ?thesis using frozen_config [OF _ recordExpense_config [OF ts_expense(4)]] assms(2) by simp
next
  case (ts_reject t pid nt actor db db' c xs)
  then show ?thesis using frozen_config [OF _ reject_config [OF ts_reject(4)]] assms(2) by simp
next
  case (ts_cancel t pid nt actor db db' c xs)
  then show ?thesis using frozen_config [OF _ cancel_config [OF ts_cancel(4)]] assms(2) by simp
next
  case (ts_export_begin pid db x c t xs)
  then show ?thesis using assms(2) by simp
qed

lemma frozen_run:
  "treasury_run T w tr w' \<Longrightarrow> isFrozen (fst w) \<Longrightarrow> \<forall>ev \<in> set tr. fst ev \<noteq> Ev_cleared \<Longrightarrow>
     isFrozen (fst w') \<and> (\<forall>ev \<in> set tr. (\<forall>pid. fst ev \<noteq> Ev_approved pid) \<and> (\<forall>pid ins. fst ev \<noteq> Ev_exported pid ins))"
proof (induction rule: treasury_run.induct)
  case (run_step w tr w1 ev w2)
  then have "isFrozen (fst w1)" by simp
  from frozen_step [OF run_step(2) this] run_step show ?case by simp
qed simp

text \<open>C20. A freeze holds. After \<open>freeze\<close>, and until a clearance, nothing is approved and nothing is exported,
  whatever else happens and whichever exports were already waiting for their price: every attempt is refused and leaves
  the database, and so the row, exactly as it was. A pending proposal stays pending: its approval is refused for the freeze
  before the caps are looked at, and so is an export that waited for its price.\<close>

theorem freeze_holds:
  assumes "treasury_run T (freeze t0 aid reason actor db, xs, c) tr (db', xs', c')" "td_config db = Some cfg"
    and "\<forall>ev \<in> set tr. fst ev \<noteq> Ev_cleared"
  shows "isFrozen db' \<and> (\<forall>ev \<in> set tr. (\<forall>pid. fst ev \<noteq> Ev_approved pid) \<and> (\<forall>pid ins. fst ev \<noteq> Ev_exported pid ins)) \<and>
    (\<forall>t t' pid creator nt who. \<exists>e. approve t t' pid creator nt who db' = (db', Inl e) \<and>
       (\<forall>p. getProposal db' pid = Some p \<longrightarrow> pp_status p = Proposed \<longrightarrow>
          e = AppError E_CONFLICT ''The treasury is frozen; cannot approve a payment proposal'')) \<and>
    (\<forall>pid. \<exists>e. export_begin pid db' = Inl e) \<and>
    (\<forall>t x ans who. export_finish t x ans who db' =
       (db', Inl (AppError E_CONFLICT ''The treasury is frozen; cannot export a payment proposal'')))"
proof -
  have f: "isFrozen db'" using frozen_run [OF assms(1) _ assms(3)] freeze_frozen [OF assms(2)] by simp
  have "\<exists>e. export_begin pid db' = Inl e" for pid using frozen_refuses(2) [OF f] by (cases "export_begin pid db'") auto
  moreover have "export_finish t x ans who db' =
      (db', Inl (AppError E_CONFLICT ''The treasury is frozen; cannot export a payment proposal''))" for t x ans who
    using f by (simp add: export_finish_def Let_def assertNotFrozen_def)
  ultimately show ?thesis using f frozen_approve [OF f] frozen_run [OF assms(1) _ assms(3)] freeze_frozen [OF assms(2)] by simp
qed

end
