(* ===== verification/Treasury_Admin.thy ===== *)
theory Treasury_Admin
  imports Treasury_Service
begin

text \<open>
  \<open>src/runtime/src/treasury/admin.ts\<close>: the project-admin gate in front of the treasury, a second secret beside
  the operator's password, with short-lived tokens bound to a session. The counters are in memory
  (\<open>admin_state\<close>); the rest is in the database. As in the operator's authentication, an operation that
  awaits the key derivation is split there, and carries an \<open>attempt\<close> over the wait.
\<close>

definition TREASURY_ADMIN_TOKEN_TTL_MS :: int where "TREASURY_ADMIN_TOKEN_TTL_MS = 30 * 60 * 1000"
definition TREASURY_ADMIN_FAILURE_LIMIT :: nat where "TREASURY_ADMIN_FAILURE_LIMIT = 5"
definition TREASURY_ADMIN_FAILURE_WINDOW_MS :: int where "TREASURY_ADMIN_FAILURE_WINDOW_MS = 15 * 60 * 1000"
definition TREASURY_ADMIN_LOCKOUT_MS :: int where "TREASURY_ADMIN_LOCKOUT_MS = 5 * 60 * 1000"
definition TREASURY_GATE_FAILURE_LIMIT :: nat where "TREASURY_GATE_FAILURE_LIMIT = 20"
definition TREASURY_GATE_FAILURE_WINDOW_MS :: int where "TREASURY_GATE_FAILURE_WINDOW_MS = 5 * 60 * 1000"

record admin_state =
  as_failures :: "int list"
  as_lockedUntil :: int
  as_gateFailures :: "string \<rightharpoonup> int list"

definition admin_start :: admin_state where
  "admin_start = \<lparr>as_failures = [], as_lockedUntil = 0, as_gateFailures = Map.empty\<rparr>"

definition assertSecretStrength :: "string \<Rightarrow> unit result" where
  "assertSecretStrength secret =
     (if length secret < 16 then Inl (AppError E_SCHEMA_INVALID ''The treasury admin secret must be at least 16 characters'')
      else if 512 < length secret then Inl (AppError E_SCHEMA_INVALID ''The treasury admin secret is too long'')
      else Inr ())"

section \<open>The secret\<close>

definition admin_isConfigured :: "'a treasury_db_scheme \<Rightarrow> bool result" where
  "admin_isConfigured db = sbind (getAdminCredential db) (\<lambda>c. Inr (c \<noteq> None))"

definition setSecret_begin :: "string \<Rightarrow> 'a treasury_db_scheme \<Rightarrow> unit result" where
  "setSecret_begin secret db = sbind (admin_isConfigured db) (\<lambda>set. if set
     then Inl (AppError E_ALREADY_INITIALIZED ''The treasury admin credential is already set'')
     else assertSecretStrength secret)"

definition setSecret_finish ::
  "auth_lib \<Rightarrow> kdf_params \<Rightarrow> int \<Rightarrow> string \<Rightarrow> string \<Rightarrow> string \<Rightarrow> 'a treasury_db_scheme \<Rightarrow>
     'a treasury_db_scheme \<times> unit result" where
  "setSecret_finish L params t secret salt actor db = (case setAdminCredential t
       \<lparr>cr_salt = salt, cr_hash = deriveKey L secret salt params, cr_params = params\<rparr> db of
     (db, False) \<Rightarrow> (db, Inl (AppError E_ALREADY_INITIALIZED ''The treasury admin credential is already set''))
   | (db, True) \<Rightarrow> (treasury_audit t ''treasury.admin.set'' Au_ok ''Treasury admin credential set'' actor None None db, Inr ()))"

text \<open>What a check reads before it waits, and its outcome when the key has been derived.\<close>

definition verifySecret_begin :: "string \<Rightarrow> 'a treasury_db_scheme \<Rightarrow> attempt result" where
  "verifySecret_begin secret db = sbind (getAdminCredential db) (\<lambda>c. Inr \<lparr>at_password = secret, at_credential = c\<rparr>)"

definition verifySecret :: "auth_lib \<Rightarrow> attempt \<Rightarrow> bool" where
  "verifySecret L att = (case at_credential att of None \<Rightarrow> False
     | Some c \<Rightarrow> deriveKey L (at_password att) (cr_salt c) (cr_params c) = cr_hash c)"

section \<open>Signing in\<close>

definition assertNotLockedOut :: "int \<Rightarrow> admin_state \<Rightarrow> unit result" where
  "assertNotLockedOut t st = (if t < as_lockedUntil st
     then Inl (AppError E_RATE_LIMITED ''Too many failed treasury admin attempts'') else Inr ())"

definition recordFailure :: "int \<Rightarrow> admin_state \<Rightarrow> 'a treasury_db_scheme \<Rightarrow> admin_state \<times> 'a treasury_db_scheme" where
  "recordFailure t st db = (let fs = filter (\<lambda>at. t - at < TREASURY_ADMIN_FAILURE_WINDOW_MS) (as_failures st) @ [t] in
     if TREASURY_ADMIN_FAILURE_LIMIT \<le> length fs
     then (st\<lparr>as_failures := [], as_lockedUntil := t + TREASURY_ADMIN_LOCKOUT_MS\<rparr>,
       treasury_audit t ''treasury.admin.locked'' Au_rejected
         ''Treasury admin checks locked for 5 minutes after repeated failures'' ''treasury-admin'' None None db)
     else (st\<lparr>as_failures := fs\<rparr>, db))"

definition admin_login_begin :: "int \<Rightarrow> string \<Rightarrow> admin_state \<Rightarrow> 'a treasury_db_scheme \<Rightarrow> attempt result" where
  "admin_login_begin t secret st db = sbind (admin_isConfigured db) (\<lambda>set.
     if \<not> set then Inl (AppError E_CONFLICT ''Set the treasury admin credential first'')
     else sbind (assertNotLockedOut t st) (\<lambda>_. verifySecret_begin secret db))"

definition admin_login_finish ::
  "auth_lib \<Rightarrow> int \<Rightarrow> attempt \<Rightarrow> string \<Rightarrow> string \<Rightarrow> string \<Rightarrow> string \<Rightarrow> admin_state \<Rightarrow> 'a treasury_db_scheme \<Rightarrow>
     (admin_state \<times> 'a treasury_db_scheme) \<times> (string \<times> int) result" where
  "admin_login_finish L t att sid tid token actor st db = (if \<not> verifySecret L att
     then (case recordFailure t st db of (st, db) \<Rightarrow>
       ((st, treasury_audit t ''treasury.admin.login.failed'' Au_rejected ''Treasury admin sign-in with an incorrect secret''
          actor None None db), Inl (AppError E_INVALID_CREDENTIALS ''Incorrect treasury admin secret'')))
     else let st = st\<lparr>as_failures := []\<rparr>; db = pruneAdminTokens t db; expires = t + TREASURY_ADMIN_TOKEN_TTL_MS in
       case insertAdminToken \<lparr>tk_id = tid, tk_tokenHash = hashToken L token, tk_sessionId = sid, tk_createdAt = t,
           tk_expiresAt = expires, tk_revokedAt = None\<rparr> db of
         Inl e \<Rightarrow> ((st, db), Inl e)
       | Inr db \<Rightarrow> ((st, treasury_audit t ''treasury.admin.login'' Au_ok ''Treasury admin signed in'' actor None None db),
           Inr (token, expires)))"

section \<open>Presenting a token\<close>

record admin_principal =
  ap_tokenId :: string
  ap_sessionId :: string
  ap_expiresAt :: int

definition token_live :: "int \<Rightarrow> string \<Rightarrow> admin_token_row \<Rightarrow> bool" where
  "token_live t sid r \<longleftrightarrow> tk_revokedAt r = None \<and> tk_sessionId r = sid \<and> t < tk_expiresAt r"

definition recent_failures :: "int \<Rightarrow> string \<Rightarrow> admin_state \<Rightarrow> int list" where
  "recent_failures t sid st = filter (\<lambda>at. t - at < TREASURY_GATE_FAILURE_WINDOW_MS)
     (case as_gateFailures st sid of None \<Rightarrow> [] | Some fs \<Rightarrow> fs)"

definition recordGateFailure :: "int \<Rightarrow> string \<Rightarrow> admin_state \<Rightarrow> admin_state" where
  "recordGateFailure t sid st = st\<lparr>as_gateFailures := (as_gateFailures st)(sid \<mapsto>
     (case as_gateFailures st sid of None \<Rightarrow> [] | Some fs \<Rightarrow> fs) @ [t])\<rparr>"

definition admin_resolve ::
  "auth_lib \<Rightarrow> int \<Rightarrow> string option \<Rightarrow> string \<Rightarrow> admin_state \<Rightarrow> 'a treasury_db_scheme \<Rightarrow>
     admin_state \<times> admin_principal result" where
  "admin_resolve L t token sid st db = (let recent = recent_failures t sid st;
     st = st\<lparr>as_gateFailures := (as_gateFailures st)(sid \<mapsto> recent)\<rparr> in
     if TREASURY_GATE_FAILURE_LIMIT \<le> length recent
     then (st, Inl (AppError E_RATE_LIMITED ''Too many invalid treasury admin tokens from this session''))
     else case token of
       None \<Rightarrow> (st, Inl (AppError E_REAUTH_REQUIRED ''This treasury action requires the project-admin token''))
     | Some tk \<Rightarrow> if tk = '''' then (st, Inl (AppError E_REAUTH_REQUIRED ''This treasury action requires the project-admin token''))
         else (case findAdminToken db (hashToken L tk) of
           Some r \<Rightarrow> if token_live t sid r
             then (st, Inr \<lparr>ap_tokenId = tk_id r, ap_sessionId = tk_sessionId r, ap_expiresAt = tk_expiresAt r\<rparr>)
             else (recordGateFailure t sid st, Inl (AppError E_REAUTH_INVALID
               ''The treasury admin token is invalid, expired or belongs to another session''))
         | None \<Rightarrow> (recordGateFailure t sid st, Inl (AppError E_REAUTH_INVALID
             ''The treasury admin token is invalid, expired or belongs to another session''))))"

definition hasValidToken :: "auth_lib \<Rightarrow> int \<Rightarrow> string option \<Rightarrow> string \<Rightarrow> 'a treasury_db_scheme \<Rightarrow> bool" where
  "hasValidToken L t token sid db = (case token of None \<Rightarrow> False
     | Some tk \<Rightarrow> tk \<noteq> '''' \<and> (case findAdminToken db (hashToken L tk) of None \<Rightarrow> False | Some r \<Rightarrow> token_live t sid r))"

definition admin_revokeSession :: "int \<Rightarrow> string \<Rightarrow> string \<Rightarrow> 'a treasury_db_scheme \<Rightarrow> 'a treasury_db_scheme \<times> int" where
  "admin_revokeSession t sid actor db = (case revokeAdminTokens t sid db of (db, n) \<Rightarrow>
     (if 0 < n then treasury_audit t ''treasury.admin.logout'' Au_ok (''Treasury admin token(s) revoked ('' @ int_str n @ '')'') actor None None db
      else db, n))"


section \<open>Guesses begun together\<close>

text \<open>A burst of sign-ins that all began before the first of them finished, finishing one after the other.\<close>

fun admin_login_burst ::
  "auth_lib \<Rightarrow> int \<Rightarrow> string \<Rightarrow> string \<Rightarrow> string \<Rightarrow> string \<Rightarrow> attempt list \<Rightarrow> admin_state \<Rightarrow> 'a treasury_db_scheme \<Rightarrow>
     (admin_state \<times> 'a treasury_db_scheme) \<times> (string \<times> int) result list" where
  "admin_login_burst L t sid tid token actor [] st db = ((st, db), [])"
| "admin_login_burst L t sid tid token actor (att # atts) st db =
     (case admin_login_finish L t att sid tid token actor st db of ((st, db), r) \<Rightarrow>
       (case admin_login_burst L t sid tid token actor atts st db of (w, rs) \<Rightarrow> (w, r # rs)))"

lemma recordFailure_db: "td_tokens (snd (recordFailure t st db)) = td_tokens db"
  "td_config (snd (recordFailure t st db)) = td_config db"
  by (simp_all add: recordFailure_def Let_def treasury_audit_def audit_append_def)

lemma wrong_finish:
  assumes "\<not> verifySecret L att" "admin_login_finish L t att sid tid token actor st db = ((st', db'), r)"
  shows "st' = fst (recordFailure t st db) \<and> td_tokens db' = td_tokens db \<and> td_config db' = td_config db \<and>
    r = Inl (AppError E_INVALID_CREDENTIALS ''Incorrect treasury admin secret'')"
  using assms recordFailure_db [of t st db]
  by (auto simp: admin_login_finish_def treasury_audit_def audit_append_def split: prod.splits)

text \<open>Failures at one instant: they stay below the limit, and the limit-th engages the lock for good.\<close>

lemma recordFailure_counts:
  assumes "length (filter (\<lambda>at. t - at < TREASURY_ADMIN_FAILURE_WINDOW_MS) (as_failures st)) = n"
  shows "TREASURY_ADMIN_FAILURE_LIMIT \<le> Suc n \<Longrightarrow> as_lockedUntil (fst (recordFailure t st db)) = t + TREASURY_ADMIN_LOCKOUT_MS"
    "Suc n < TREASURY_ADMIN_FAILURE_LIMIT \<Longrightarrow>
       length (filter (\<lambda>at. t - at < TREASURY_ADMIN_FAILURE_WINDOW_MS) (as_failures (fst (recordFailure t st db)))) = Suc n"
    "as_lockedUntil st = t + TREASURY_ADMIN_LOCKOUT_MS \<Longrightarrow>
       as_lockedUntil (fst (recordFailure t st db)) = t + TREASURY_ADMIN_LOCKOUT_MS"
  using assms by (auto simp: recordFailure_def Let_def TREASURY_ADMIN_FAILURE_LIMIT_def TREASURY_ADMIN_FAILURE_WINDOW_MS_def)

lemma burst_wrong:
  assumes "\<forall>att \<in> set atts. \<not> verifySecret L att"
    and "admin_login_burst L t sid tid token actor atts st db = ((st', db'), rs)"
    and "TREASURY_ADMIN_FAILURE_LIMIT \<le> length (filter (\<lambda>at. t - at < TREASURY_ADMIN_FAILURE_WINDOW_MS) (as_failures st)) + length atts \<or>
      as_lockedUntil st = t + TREASURY_ADMIN_LOCKOUT_MS"
    and "as_lockedUntil st = t + TREASURY_ADMIN_LOCKOUT_MS \<or> atts \<noteq> []"
  shows "as_lockedUntil st' = t + TREASURY_ADMIN_LOCKOUT_MS \<and> td_tokens db' = td_tokens db \<and> td_config db' = td_config db \<and>
    rs = replicate (length atts) (Inl (AppError E_INVALID_CREDENTIALS ''Incorrect treasury admin secret''))"
  using assms
proof (induction atts arbitrary: st db rs)
  case (Cons att atts)
  obtain st1 db1 r where f: "admin_login_finish L t att sid tid token actor st db = ((st1, db1), r)" by (metis prod.exhaust)
  obtain rs' where b: "admin_login_burst L t sid tid token actor atts st1 db1 = ((st', db'), rs')" "rs = r # rs'"
    using Cons.prems(2) f by (auto split: prod.splits)
  from wrong_finish [OF _ f] Cons.prems(1)
  have one: "st1 = fst (recordFailure t st db)" "td_tokens db1 = td_tokens db" "td_config db1 = td_config db"
    "r = Inl (AppError E_INVALID_CREDENTIALS ''Incorrect treasury admin secret'')" by auto
  let ?n = "length (filter (\<lambda>at. t - at < TREASURY_ADMIN_FAILURE_WINDOW_MS) (as_failures st))"
  have step: "TREASURY_ADMIN_FAILURE_LIMIT \<le> length (filter (\<lambda>at. t - at < TREASURY_ADMIN_FAILURE_WINDOW_MS) (as_failures st1)) + length atts
      \<or> as_lockedUntil st1 = t + TREASURY_ADMIN_LOCKOUT_MS"
  proof (cases "TREASURY_ADMIN_FAILURE_LIMIT \<le> Suc ?n \<or> as_lockedUntil st = t + TREASURY_ADMIN_LOCKOUT_MS")
    case True
    then show ?thesis using recordFailure_counts(1,3) [OF refl, where t = t and st = st and db = db] one(1) by blast
  next
    case False
    then show ?thesis using recordFailure_counts(2) [OF refl, where t = t and st = st and db = db] one(1) Cons.prems(3) by auto
  qed
  show ?case
  proof (cases "atts = []")
    case True
    then have "as_lockedUntil st1 = t + TREASURY_ADMIN_LOCKOUT_MS"
      using one(1) recordFailure_counts(1,3) [OF refl, where t = t and st = st and db = db] Cons.prems(3) by auto
    then show ?thesis using True b one by simp
  next
    case False
    then show ?thesis using Cons.IH [OF _ b(1) step] Cons.prems(1) b(2) one by simp
  qed
qed simp

lemma right_finish:
  assumes "verifySecret L att" "tid \<notin> tk_id ` set (td_tokens db)" "hashToken L token \<notin> tk_tokenHash ` set (td_tokens db)"
  shows "snd (admin_login_finish L t att sid tid token actor st db) = Inr (token, t + TREASURY_ADMIN_TOKEN_TTL_MS)"
proof -
  have "tid \<notin> tk_id ` set (td_tokens (pruneAdminTokens t db))"
    "hashToken L token \<notin> tk_tokenHash ` set (td_tokens (pruneAdminTokens t db))"
    using assms(2,3) by (auto simp: pruneAdminTokens_def)
  then show ?thesis using assms(1) by (simp add: admin_login_finish_def Let_def insertAdminToken_def)
qed

text \<open>The throttle on the admin secret does not hold against a burst. A sign-in counts as a failure only
  when its key derivation has ended, so guesses that begin together are all checked, however many they
  are: after the wrong ones the lock is engaged and refuses every newcomer, yet the right guess, begun
  before, is still given its token, which the gate then accepts.\<close>

theorem admin_burst_unthrottled:
  fixes db :: treasury_db
  assumes "getAdminCredential db = Inr (Some cr)" "as_lockedUntil st \<le> t"
    and "TREASURY_ADMIN_FAILURE_LIMIT \<le> length wrong"
    and "\<forall>s \<in> set wrong. deriveKey L s (cr_salt cr) (cr_params cr) \<noteq> cr_hash cr"
    and "deriveKey L right (cr_salt cr) (cr_params cr) = cr_hash cr"
    and "tid \<notin> tk_id ` set (td_tokens db)" "hashToken L token \<notin> tk_tokenHash ` set (td_tokens db)"
  shows "\<exists>st' db'.
    (\<forall>s \<in> set (wrong @ [right]). admin_login_begin t s st db = Inr \<lparr>at_password = s, at_credential = Some cr\<rparr>) \<and>
    admin_login_burst L t sid tid token actor (map (\<lambda>s. \<lparr>at_password = s, at_credential = Some cr\<rparr>) wrong) st db =
      ((st', db'), replicate (length wrong) (Inl (AppError E_INVALID_CREDENTIALS ''Incorrect treasury admin secret''))) \<and>
    (\<forall>s. admin_login_begin t s st' db' = Inl (AppError E_RATE_LIMITED ''Too many failed treasury admin attempts'')) \<and>
    snd (admin_login_finish L t \<lparr>at_password = right, at_credential = Some cr\<rparr> sid tid token actor st' db') =
      Inr (token, t + TREASURY_ADMIN_TOKEN_TTL_MS)"
proof -
  let ?atts = "map (\<lambda>s. \<lparr>at_password = s, at_credential = Some cr\<rparr>) wrong"
  obtain st' db' rs where b: "admin_login_burst L t sid tid token actor ?atts st db = ((st', db'), rs)" by (metis prod.exhaust)
  have w: "\<forall>att \<in> set ?atts. \<not> verifySecret L att" using assms(4) by (simp add: verifySecret_def)
  have "?atts \<noteq> []" using assms(3) by (auto simp: TREASURY_ADMIN_FAILURE_LIMIT_def)
  with burst_wrong [OF w b] assms(3) have e: "as_lockedUntil st' = t + TREASURY_ADMIN_LOCKOUT_MS" "td_tokens db' = td_tokens db"
    "td_config db' = td_config db"
    "rs = replicate (length wrong) (Inl (AppError E_INVALID_CREDENTIALS ''Incorrect treasury admin secret''))" by auto
  have "admin_login_begin t s st db = Inr \<lparr>at_password = s, at_credential = Some cr\<rparr>" for s
    using assms(1,2) by (simp add: admin_login_begin_def admin_isConfigured_def assertNotLockedOut_def verifySecret_begin_def)
  moreover have "getAdminCredential db' = getAdminCredential db" using e(3) by (simp add: getAdminCredential_def configRow_def)
  then have "admin_login_begin t s st' db' = Inl (AppError E_RATE_LIMITED ''Too many failed treasury admin attempts'')" for s
    using assms(1) e(1) by (simp add: admin_login_begin_def admin_isConfigured_def assertNotLockedOut_def TREASURY_ADMIN_LOCKOUT_MS_def)
  ultimately show ?thesis using b e right_finish [of L "\<lparr>at_password = right, at_credential = Some cr\<rparr>" tid db' token] assms(5-7)
    by (auto simp: verifySecret_def)
qed

end
