(* ===== verification/Treasury_Fixtures.thy ===== *)
theory Treasury_Fixtures
  imports Treasury_Props Treasury_Admin
begin

text \<open>
  A concrete treasury: one provider billed on chain, one enabled address and caps of 100 USD per payment and
  150 USD per month. A payment of 80 USD is proposed, approved with the creator's confirmation and
  exported at a price. The witnesses of the treasury's properties apply the properties to it.
\<close>

definition T0 :: int where "T0 = 1767225600000"

definition sample_recipient :: string where "sample_recipient = ''0x1111111111111111111111111111111111111111''"

definition sample_provider :: treasury_provider where
  "sample_provider = \<lparr>pv_id = ''rpc'', pv_name = ''Node'', pv_category = Pc_rpc, pv_billingMode = On_chain,
     pv_monthlyBudgetUsd = ''0.000000'', pv_recipient = Some (Base, sample_recipient), pv_active = True, pv_note = '''',
     pv_createdAt = T0, pv_updatedAt = T0\<rparr>"

definition sample_address :: treasury_address where
  "sample_address = \<lparr>ta_chain = Base, ta_address = ''0x2222222222222222222222222222222222222222'', ta_label = ''main'',
     ta_tokens = [], ta_enabled = True, ta_addedAt = T0, ta_updatedAt = T0\<rparr>"

definition sample_caps :: treasury_caps where
  "sample_caps = \<lparr>lowBalanceThresholdUsd = ''0.000000'', perPaymentCapUsd = ''100.000000'', monthlyCapUsd = ''150.000000'',
     approvalThresholdUsd = ''50.000000''\<rparr>"

definition sample_credential :: credential where
  "sample_credential = \<lparr>cr_salt = ''salt'', cr_hash = ''right'', cr_params = \<lparr>memoryKib = 1, iterations = 1, parallelism = 1\<rparr>\<rparr>"

definition sample_config :: treasury_config where
  "sample_config = \<lparr>tc_admin = Some sample_credential, tc_adminSetAt = Some T0, tc_caps = sample_caps, tc_frozen = False,
     tc_frozenReason = None, tc_frozenAt = None, tc_frozenBy = None, tc_createdAt = T0, tc_updatedAt = T0\<rparr>"

definition sample_treasury :: treasury_db where
  "sample_treasury = \<lparr>au_rows = [], au_seq = 0, td_config = Some sample_config, td_addresses = [sample_address],
     td_providers = [sample_provider], td_expenses = [], td_proposals = [], td_alerts = [], td_snapshots = [], td_tokens = []\<rparr>"

definition sample_request :: proposal_request where
  "sample_request = \<lparr>pq_providerId = ''rpc'', pq_amountUsd = ''80'', pq_asset = ''USDC'', pq_period = None, pq_memo = None\<rparr>"

definition sample_price :: price_answer where
  "sample_price = Quoted \<lparr>qt_priceUsd = Some ''0.9999'', qt_disputed = False, qt_reason = None, qt_sources = []\<rparr>"

text \<open>Signature checks are not exercised by the run: every address is taken as well formed.\<close>

definition sample_lib :: treasury_lib where
  "sample_lib = \<lparr>tl_checksum = (\<lambda>_. True), tl_isPubkey = (\<lambda>_. True)\<rparr>"

section \<open>The run\<close>

lemma payment_runs:
  "case propose T0 ''p1'' sample_request ''admin'' Src_admin sample_treasury of
     (d1, Inl _) \<Rightarrow> False
   | (d1, Inr _) \<Rightarrow> (case approve T0 T0 ''p1'' True '''' ''admin'' d1 of
       (d2, Inl _) \<Rightarrow> False
     | (d2, Inr _) \<Rightarrow> (case export_begin ''p1'' d2 of
         Inl _ \<Rightarrow> False
       | Inr x \<Rightarrow> (case export_finish T0 x sample_price ''admin'' d2 of
           (d3, Inl _) \<Rightarrow> False
         | (d3, Inr ins) \<Rightarrow> ei_amountBaseUnits ins = Some ''80008000'')))"
  by code_simp

lemma payment_run:
  obtains d1 d2 d3 tr1 tr3 p where
    "treasury_run sample_lib (sample_treasury, [], T0) tr1 (d1, [], T0)"
    "approve T0 T0 ''p1'' True '''' ''admin'' d1 = (d2, Inr ())"
    "treasury_run sample_lib (sample_treasury, [], T0) tr3 (d3, [], T0)"
    "p \<in> set (td_proposals d3)" "pp_status p = Exported"
proof -
  obtain d1 r1 where 1: "propose T0 ''p1'' sample_request ''admin'' Src_admin sample_treasury = (d1, Inr r1)"
    using payment_runs by (auto split: prod.splits sum.splits)
  obtain d2 where 2: "approve T0 T0 ''p1'' True '''' ''admin'' d1 = (d2, Inr ())"
    using payment_runs 1 by (auto split: prod.splits sum.splits)
  obtain x where 3: "export_begin ''p1'' d2 = Inr x"
    using payment_runs 1 2 by (auto split: prod.splits sum.splits)
  obtain d3 ins where 4: "export_finish T0 x sample_price ''admin'' d2 = (d3, Inr ins)"
    using payment_runs 1 2 3 by (auto split: prod.splits sum.splits)
  note first = treasury_run.run_step [OF treasury_run.run_start treasury_step.ts_propose [OF 1 order_refl], of sample_lib "[]"]
  note second = treasury_run.run_step [OF first treasury_step.ts_approve [OF 2 order_refl order_refl]]
  note third = treasury_run.run_step [OF second treasury_step.ts_export_begin [OF 3 order_refl]]
  have fourth: "treasury_step sample_lib (d2, [x], T0) (Ev_exported (pp_id (xc_proposal x)) ins, T0) (d3, [], T0)"
    using treasury_step.ts_export_finish [OF 4, of "[x]" T0 sample_lib] by simp
  note whole = treasury_run.run_step [OF third fourth]
  obtain p where p: "getProposal d2 (pp_id (xc_proposal x)) = Some p" "pp_status p = Approved"
    "td_proposals d3 = td_proposals (setProposal d2 (pp_id (xc_proposal x)) (export_row ''admin'' (instruction_of T0 x sample_price)))"
    using 4 by (auto elim: export_finishE)
  let ?q = "export_row ''admin'' (instruction_of T0 x sample_price) p"
  have "p \<in> set (td_proposals d2)" "pp_id p = pp_id (xc_proposal x)"
    using p(1) by (auto simp: getProposal_def find_Some_iff)
  then have "?q \<in> set (td_proposals d3)" using p(3) by (auto simp: setProposal_def)
  moreover have "pp_status ?q = Exported" by (simp add: export_row_def)
  ultimately show thesis using that [OF first 2] whole by simp
qed

section \<open>Witnesses\<close>

theorem approval_within_caps_witness:
  "\<exists>(d1 :: treasury_db) (d2 :: treasury_db) p pv cfg a. getProposal d1 ''p1'' = Some p \<and> approve T0 T0 ''p1'' True '''' ''admin'' d1 = (d2, Inr ()) \<and>
     td_config d1 = Some cfg \<and> getProvider d1 (pp_providerId p) = Some pv \<and> pv_active pv \<and>
     usdToMicros (pp_amountUsd p) = Inr a \<and> 0 < a"
proof (rule payment_run)
  fix d1 d2 d3 tr1 tr3 p
  assume r: "treasury_run sample_lib (sample_treasury, [], T0) tr1 (d1, [], T0)"
    and a: "approve T0 T0 ''p1'' True '''' ''admin'' d1 = (d2, Inr ())"
  have e: "td_proposals sample_treasury = []" by (simp add: sample_treasury_def)
  have "T0 \<le> T0" by simp
  from approval_within_caps [OF r e a this this] a show ?thesis by blast
qed

theorem exported_is_approved_witness:
  "\<exists>(p :: proposal_row) ins d. pp_status p = Exported \<and> pp_export p = Some ins \<and> pp_decision p = Some d \<and> cd_allowed d \<and>
     ei_recipient ins = pp_recipient p \<and> ei_amountUsd ins = pp_amountUsd p"
proof (rule payment_run)
  fix d1 d2 d3 tr1 tr3 p
  assume r: "treasury_run sample_lib (sample_treasury, [], T0) tr3 (d3, [], T0)"
    and p: "p \<in> set (td_proposals d3)" "pp_status p = Exported"
  have e: "td_proposals sample_treasury = []" by (simp add: sample_treasury_def)
  from exported_is_approved [OF r e p] p(2) show ?thesis by blast
qed

theorem freeze_holds_witness:
  "isFrozen (freeze T0 ''a1'' ''audit'' ''admin'' sample_treasury) \<and>
   (\<exists>e. approve T0 T0 ''p1'' True '''' ''admin'' (noteRead T0 ''config'' ''admin'' (freeze T0 ''a1'' ''audit'' ''admin'' sample_treasury)) =
     (noteRead T0 ''config'' ''admin'' (freeze T0 ''a1'' ''audit'' ''admin'' sample_treasury), Inl e))"
proof -
  let ?f = "freeze T0 ''a1'' ''audit'' ''admin'' sample_treasury"
  have c: "td_config sample_treasury = Some sample_config" by (simp add: sample_treasury_def)
  note r0 = treasury_run.run_start [of sample_lib "(?f, [], T0)"]
  have r1: "treasury_run sample_lib (?f, [], T0) [(Ev_other, T0)] (noteRead T0 ''config'' ''admin'' ?f, [], T0)"
    by (rule treasury_run.run_step [OF r0 treasury_step.ts_read]) simp
  have "isFrozen ?f" using freeze_holds [OF r0 c] by simp
  moreover have "\<exists>e. approve T0 T0 ''p1'' True '''' ''admin'' (noteRead T0 ''config'' ''admin'' ?f) = (noteRead T0 ''config'' ''admin'' ?f, Inl e)"
    using freeze_holds [OF r1 c] by fastforce
  ultimately show ?thesis by blast
qed

definition sample_review :: review_input where
  "sample_review = \<lparr>ri_caps = sample_caps, ri_frozen = False, ri_approvedThisMonthUsd = ''0.000000'',
     ri_providers = [\<lparr>pw_provider = sample_provider, pw_spentThisPeriodUsd = ''0.000000'', pw_remainingBudgetUsd = None,
       pw_overBudget = False\<rparr>]\<rparr>"

definition sample_reply :: model_reply where
  "sample_reply = Review [\<lparr>rc_action = Propose_payment, rc_provider = Some ''node'', rc_amountUsd = ''20'', rc_reason = ''due''\<rparr>]"

theorem agent_never_pays_witness:
  "\<exists>db' outs new. review_finish T0 ''2026-01'' ''cycle'' nat_str sample_review sample_reply ''admin'' sample_treasury = (db', outs) \<and>
     td_config db' = td_config sample_treasury \<and> td_proposals db' = td_proposals sample_treasury @ new"
proof -
  obtain db' outs where r: "review_finish T0 ''2026-01'' ''cycle'' nat_str sample_review sample_reply ''admin'' sample_treasury = (db', outs)"
    by (metis prod.exhaust)
  from agent_never_pays [OF r] r show ?thesis by blast
qed

definition sample_cap_input :: cap_input where
  "sample_cap_input = \<lparr>ci_now = T0, ci_stage = Propose, ci_frozen = False, ci_caps = sample_caps,
     ci_provider = Some sample_provider, ci_enabledChains = [Base],
     ci_proposal = \<lparr>cq_providerId = ''rpc'', cq_chain = Base, cq_recipient = sample_recipient, cq_asset = ''USDC'',
       cq_amountUsd = ''80.000000''\<rparr>,
     ci_monthToDateApprovedUsd = ''0.000000'', ci_providerPeriodSpendUsd = ''0.000000'', ci_period = ''2026-01'',
     ci_creatorApproval = False\<rparr>"

lemma sample_cap_allowed: "case evaluateCaps sample_cap_input of Inl _ \<Rightarrow> False | Inr d \<Rightarrow> cd_allowed d"
  by code_simp

theorem caps_decision_meaning_witness:
  "\<exists>d a. evaluateCaps sample_cap_input = Inr d \<and> cd_allowed d \<and> cd_code d = None \<and>
     amount_within sample_cap_input sample_provider a"
proof -
  obtain d where d: "evaluateCaps sample_cap_input = Inr d" "cd_allowed d"
    using sample_cap_allowed by (auto split: sum.splits)
  have "ci_provider sample_cap_input = Some sample_provider" by (simp add: sample_cap_input_def)
  with caps_decision_meaning [OF d(1)] d show ?thesis by auto
qed

definition sample_ask :: "treasury_address \<Rightarrow> wanted_asset \<Rightarrow> balance_answer \<times> price_answer" where
  "sample_ask e w = (Observed \<lparr>bo_amount = ''1000000000000000000'', bo_observedAt = T0, bo_host = ''node''\<rparr>,
     Quoted \<lparr>qt_priceUsd = Some ''2500'', qt_disputed = False, qt_reason = None, qt_sources = []\<rparr>)"

definition sample_burn :: burn_rate where
  "sample_burn = \<lparr>br_monthlyUsd = Some ''1000.000000'', br_windowPeriods = [''2025-12''], br_usedPeriods = [''2025-12''],
     br_totalUsd = ''1000.000000'', br_basis = Single_month, br_reason = None\<rparr>"

lemma sample_runway: "case read_balances T0 sample_ask [sample_address] of Inl _ \<Rightarrow> False
   | Inr rep \<Rightarrow> (case report_runway rep sample_burn of Inl _ \<Rightarrow> False | Inr rw \<Rightarrow> rw_months rw = Some ''2.50'')"
  by code_simp

theorem runway_needs_every_asset_witness:
  "\<exists>rep rw vs. read_balances T0 sample_ask [sample_address] = Inr rep \<and> report_runway rep sample_burn = Inr rw \<and>
     rw_months rw = Some ''2.50'' \<and> list_all2 (\<lambda>(e, w) v. asset_valued w (sample_ask e w) v) (covered [sample_address]) vs"
proof -
  obtain rep where 1: "read_balances T0 sample_ask [sample_address] = Inr rep"
    using sample_runway by (auto split: sum.splits)
  then obtain rw where 2: "report_runway rep sample_burn = Inr rw" "rw_months rw = Some ''2.50''"
    using sample_runway by (auto split: sum.splits)
  from runway_needs_every_asset [OF 1 2] 1 2 show ?thesis by blast
qed

text \<open>A key derivation that returns the secret itself is enough to run the burst.\<close>

definition sample_auth_lib :: auth_lib where
  "sample_auth_lib = \<lparr>lib_normalize = (\<lambda>s. s), lib_argon2 = (\<lambda>s salt params. s), lib_sha256 = (\<lambda>t. t)\<rparr>"

theorem admin_burst_unthrottled_witness:
  "\<exists>st' (db' :: treasury_db). (\<forall>s. admin_login_begin T0 s st' db' =
     Inl (AppError E_RATE_LIMITED ''Too many failed treasury admin attempts'')) \<and>
     snd (admin_login_finish sample_auth_lib T0 \<lparr>at_password = ''right'', at_credential = Some sample_credential\<rparr>
       ''session'' ''t1'' ''tadm'' ''admin'' st' db') = Inr (''tadm'', T0 + TREASURY_ADMIN_TOKEN_TTL_MS)"
proof -
  have "getAdminCredential sample_treasury = Inr (Some sample_credential)"
    by (simp add: getAdminCredential_def configRow_def sample_treasury_def sample_config_def)
  moreover have "as_lockedUntil admin_start \<le> T0" by (simp add: admin_start_def T0_def)
  moreover have "TREASURY_ADMIN_FAILURE_LIMIT \<le> length (replicate 1000 ''wrong'')"
    by (simp add: TREASURY_ADMIN_FAILURE_LIMIT_def)
  moreover have "\<forall>s \<in> set (replicate 1000 ''wrong''). deriveKey sample_auth_lib s (cr_salt sample_credential) (cr_params sample_credential)
      \<noteq> cr_hash sample_credential"
    by (simp add: deriveKey_def sample_auth_lib_def sample_credential_def)
  moreover have "deriveKey sample_auth_lib ''right'' (cr_salt sample_credential) (cr_params sample_credential) = cr_hash sample_credential"
    by (simp add: deriveKey_def sample_auth_lib_def sample_credential_def)
  ultimately obtain st' :: admin_state and db' :: treasury_db where
    "\<forall>s. admin_login_begin T0 s st' db' = Inl (AppError E_RATE_LIMITED ''Too many failed treasury admin attempts'')"
    "snd (admin_login_finish sample_auth_lib T0 \<lparr>at_password = ''right'', at_credential = Some sample_credential\<rparr>
       ''session'' ''t1'' ''tadm'' ''admin'' st' db') = Inr (''tadm'', T0 + TREASURY_ADMIN_TOKEN_TTL_MS)"
    using admin_burst_unthrottled [of sample_treasury sample_credential admin_start T0 "replicate 1000 ''wrong''" sample_auth_lib
      "''right''" "''t1''" "''tadm''" "''session''" "''admin''"]
    by (auto simp: sample_treasury_def)
  then show ?thesis by blast
qed

end
