(* ===== verification/Solana_Props.thy ===== *)
theory Solana_Props
  imports Solana_Message
begin

text \<open>
  A reference serializer of Solana messages, and what the reader of \<open>Solana_Message\<close> makes of its output:
  the compact-u16 round trip, the summary of an encoded message, and that the bytes a signed transaction
  carries are the bytes that were summarized before signing.
\<close>

unbundle bit_operations_syntax

section \<open>compact-u16\<close>

definition encode_compact :: "nat \<Rightarrow> bytes" where
  "encode_compact n =
     (if n < 2 ^ 7 then [of_nat n]
      else if n < 2 ^ 14 then [of_nat (n mod 2 ^ 7) OR 0x80, of_nat (n div 2 ^ 7)]
      else [of_nat (n mod 2 ^ 7) OR 0x80, of_nat (n div 2 ^ 7 mod 2 ^ 7) OR 0x80, of_nat (n div 2 ^ 14)])"

lemma byte_at_append [simp]: "byte_at (xs @ b # ys) (length xs) = Some b"
  by (simp add: byte_at_def)

lemma low7: "unat ((w :: 8 word) AND 0x7f) = unat w mod 2 ^ 7"
proof -
  have "(0x7f :: 8 word) = mask 7" by (simp add: mask_eq_exp_minus_1)
  then have "unat (w AND 0x7f) = unat (take_bit 7 w)" by (simp add: take_bit_eq_mask)
  also have "\<dots> = take_bit 7 (unat w)" by (rule unsigned_take_bit_eq)
  also have "\<dots> = unat w mod 2 ^ 7" by (rule take_bit_eq_mod)
  finally show ?thesis .
qed

lemma high: "(w :: 8 word) AND 0x80 = 0 \<longleftrightarrow> unat w < 2 ^ 7"
proof -
  have "(0x80 :: 8 word) = 2 ^ 7" by simp
  then have "w AND 0x80 = 0 \<longleftrightarrow> \<not> bit w 7" by (metis and_exp_eq_0_iff_not_bit)
  also have "\<dots> \<longleftrightarrow> \<not> bit (unat w) 7" by (simp add: bit_unsigned_iff)
  also have "\<dots> \<longleftrightarrow> even (unat w div 2 ^ 7)" by (simp only: bit_iff_odd not_not)
  also have "\<dots> \<longleftrightarrow> unat w < 2 ^ 7"
  proof -
    have "unat w div 2 ^ 7 < 2" using unsigned_less [of w, where ?'a = nat] by (simp add: less_mult_imp_div_less)
    then have "unat w div 2 ^ 7 = 0 \<or> unat w div 2 ^ 7 = 1" by auto
    then show ?thesis by (auto simp: div_eq_0_iff)
  qed
  finally show ?thesis .
qed

lemma or80:
  assumes n: "n < 2 ^ 7"
  shows "unat ((of_nat n :: 8 word) OR 0x80) = n + 2 ^ 7"
proof -
  have "(of_nat n :: 8 word) AND 0x80 = 0" using n by (simp add: high unat_of_nat)
  then have "(of_nat n :: 8 word) OR 0x80 = of_nat n + 0x80" by (rule disjunctive_add_eq_or [symmetric])
  then show ?thesis using n by (simp add: unat_word_ariths unat_of_nat)
qed

lemma or_shift: 
  assumes v: "v < 2 ^ s"
  shows "(v :: nat) OR push_bit s x = v + x * 2 ^ s"
proof -
  have "take_bit s v = v" using v by (simp add: take_bit_nat_eq_self_iff)
  then have "\<not> bit v n" if "s \<le> n" for n using that by (metis bit_take_bit_iff not_le)
  then have "v AND push_bit s x = 0" by (intro bit_eqI) (simp add: bit_and_iff bit_push_bit_iff)
  from disjunctive_add_eq_or [OF this] show ?thesis by (simp add: push_bit_eq_mult)
qed

text \<open>One byte of the loop: the last one, and one with the continuation bit.\<close>

lemma compact_last:
  assumes "byte_at bs c = Some (of_nat n)" "n < 2 ^ 7" "v < 2 ^ s"
  shows "compact_loop (Suc k) bs c v s = Inr (v + n * 2 ^ s, Suc c)"
  using assms by (simp add: high low7 or_shift unat_of_nat)

lemma compact_more:
  assumes "byte_at bs c = Some (of_nat n OR 0x80)" "n < 2 ^ 7" "v < 2 ^ s"
  shows "compact_loop (Suc k) bs c v s = compact_loop k bs (Suc c) (v + n * 2 ^ s) (s + 7)"
  using assms or80 [OF assms(2)] by (simp add: high low7 or_shift)

lemma byte_at_next [simp]: "byte_at (xs @ a # b # ys) (Suc (length xs)) = Some b"
    "byte_at (xs @ a # b # c # ys) (Suc (Suc (length xs))) = Some c"
  by (simp_all add: byte_at_def nth_append)

lemma read_encoded:
  assumes "n < 2 ^ 21"
  shows "readCompactU16 (pre @ encode_compact n @ rest) (length pre) = Inr (n, length pre + length (encode_compact n))"
proof -
  let ?bs = "pre @ encode_compact n @ rest"
  consider "n < 2 ^ 7" | "2 ^ 7 \<le> n" "n < 2 ^ 14" | "2 ^ 14 \<le> n" by linarith
  then show ?thesis
  proof cases
    case 1
    then show ?thesis by (simp add: readCompactU16_def encode_compact_def numeral_3_eq_3 compact_last del: compact_loop.simps)
  next
    case 2
    then have "n div 128 < 2 ^ 7" by (simp add: less_mult_imp_div_less)
    with 2 show ?thesis
      by (simp add: readCompactU16_def encode_compact_def numeral_3_eq_3 compact_last [where n = "n div 128"]
          compact_more [where n = "n mod 128"] del: compact_loop.simps)
  next
    case 3
    have low: "n mod 128 < 2 ^ 7" "n div 128 mod 128 < 2 ^ 7" by simp_all
    have top: "n div 16384 < 2 ^ 7" using assms by (simp add: less_mult_imp_div_less)
    have sum: "n mod 128 + n div 128 mod 128 * 128 + n div 16384 * 16384 = n"
      using mod_mult2_eq [of n 128 128] mod_div_mult_eq [of n 16384] by simp
    have "n mod 128 + n div 128 mod 128 * 128 < 16384"
      using mod_mult2_eq [of n 128 128] mod_less_divisor [of 16384 n] by simp
    with 3 low top sum show ?thesis
      by (simp add: readCompactU16_def encode_compact_def numeral_3_eq_3 compact_last [where n = "n div 16384"]
          compact_more [where n = "n mod 128"] compact_more [where n = "n div 128 mod 128"] del: compact_loop.simps)
  qed
qed

section \<open>Messages\<close>

type_synonym instruction = "8 word \<times> bytes \<times> bytes"

record solana_message =
  sm_version :: message_version
  sm_header :: bytes
  sm_keys :: "bytes list"
  sm_blockhash :: bytes
  sm_instructions :: "instruction list"
  sm_tail :: bytes

definition encode_instruction :: "instruction \<Rightarrow> bytes" where
  "encode_instruction = (\<lambda>(program, accounts, data).
     program # encode_compact (length accounts) @ accounts @ encode_compact (length data) @ data)"

definition encode_message :: "solana_message \<Rightarrow> bytes" where
  "encode_message m = (case sm_version m of Legacy \<Rightarrow> [] | V0 \<Rightarrow> [0x80]) @ sm_header m @
     encode_compact (length (sm_keys m)) @ concat (sm_keys m) @ sm_blockhash m @
     encode_compact (length (sm_instructions m)) @ concat (map encode_instruction (sm_instructions m)) @ sm_tail m"

definition instruction_ok :: "nat \<Rightarrow> instruction \<Rightarrow> bool" where
  "instruction_ok n = (\<lambda>(program, accounts, data). unat program < n \<and> length accounts < 2 ^ 16 \<and> length data < 2 ^ 16)"

definition message_ok :: "solana_message \<Rightarrow> bool" where
  "message_ok m \<longleftrightarrow> length (sm_header m) = 3 \<and> (sm_version m = Legacy \<longrightarrow> unat (hd (sm_header m)) < 2 ^ 7) \<and>
     0 < length (sm_keys m) \<and> length (sm_keys m) < 2 ^ 16 \<and> (\<forall>k \<in> set (sm_keys m). length k = 32) \<and>
     length (sm_blockhash m) = 32 \<and> length (sm_instructions m) < 2 ^ 16 \<and>
     (\<forall>i \<in> set (sm_instructions m). instruction_ok (length (sm_keys m)) i)"

definition programs :: "codec \<Rightarrow> solana_message \<Rightarrow> string set" where
  "programs C m = (\<lambda>i. b58_encode C (sm_keys m ! unat (fst i))) ` set (sm_instructions m)"

text \<open>The keys are cut out of the message one by one.\<close>

lemma static_keys_encoded:
  assumes "\<forall>k \<in> set ks. length k = 32"
  shows "static_keys C (pre @ concat ks @ rest) (length pre) (length ks) = map (b58_encode C) ks"
proof -
  have "take 32 (drop (length pre + i * 32) (pre @ concat ks @ rest)) = ks ! i" if "i < length ks" for i
    using assms that
  proof (induction ks arbitrary: pre i)
    case (Cons k ks)
    show ?case
    proof (cases i)
      case 0
      then show ?thesis using Cons.prems by simp
    next
      case (Suc j)
      then have "length pre + i * 32 = length (pre @ k) + j * 32" using Cons.prems by simp
      then show ?thesis using Cons.IH [of j "pre @ k"] Cons.prems Suc by simp
    qed
  qed simp
  then show ?thesis by (auto simp: static_keys_def PUBKEY_BYTES_def intro: nth_equalityI)
qed

lemma concat_keys_length: "\<forall>k \<in> set ks. length k = 32 \<Longrightarrow> length (concat ks) = length ks * 32"
  by (induction ks) auto

text \<open>One instruction of the loop.\<close>

lemma instruction_step:
  assumes "instruction_ok (length keys) i"
  shows "instruction_loop keys (pre @ encode_instruction i @ rest) (Suc n) (length pre) ids =
    instruction_loop keys (pre @ encode_instruction i @ rest) n (length (pre @ encode_instruction i))
      (if keys ! unat (fst i) \<in> set ids then ids else ids @ [keys ! unat (fst i)])"
proof -
  obtain p a d where i: "i = (p, a, d)" by (cases i) auto
  define m where "m = pre @ encode_instruction i @ rest"
  let ?a = "pre @ [p]" and ?d = "pre @ p # encode_compact (length a) @ a"
  have m: "m = ?a @ encode_compact (length a) @ (a @ encode_compact (length d) @ d @ rest)"
    "m = ?d @ encode_compact (length d) @ (d @ rest)" "m = pre @ p # (encode_compact (length a) @ a @ encode_compact (length d) @ d @ rest)"
    by (simp_all add: m_def i encode_instruction_def)
  have p: "byte_at m (length pre) = Some p" by (simp add: m(3))
  have q: "unat p < length keys" using assms by (simp add: i instruction_ok_def)
  have lens: "length a < 2 ^ 21" "length d < 2 ^ 21" using assms by (simp_all add: i instruction_ok_def)
  have a: "readCompactU16 m (Suc (length pre)) = Inr (length a, Suc (length pre) + length (encode_compact (length a)))"
    using read_encoded [OF lens(1), of ?a "a @ encode_compact (length d) @ d @ rest", folded m(1)] by simp
  have d: "readCompactU16 m (Suc (length pre) + length (encode_compact (length a)) + length a) =
      Inr (length d, Suc (length pre) + length (encode_compact (length a)) + length a + length (encode_compact (length d)))"
    using read_encoded [OF lens(2), of ?d "d @ rest", folded m(2)] by (simp add: add.commute add.left_commute)
  have "\<not> length m < Suc (length pre) + length (encode_compact (length a)) + length a + length (encode_compact (length d)) + length d"
    unfolding m(2) by simp
  with p q a d have "instruction_loop keys m (Suc n) (length pre) ids = instruction_loop keys m n
      (Suc (length pre) + length (encode_compact (length a)) + length a + length (encode_compact (length d)) + length d)
      (if keys ! unat p \<in> set ids then ids else ids @ [keys ! unat p])"
    by simp
  moreover have "length (pre @ encode_instruction i) =
      Suc (length pre) + length (encode_compact (length a)) + length a + length (encode_compact (length d)) + length d"
    by (simp add: i encode_instruction_def)
  ultimately show ?thesis by (simp only: m_def [symmetric]) (simp add: i del: instruction_loop.simps)
qed

lemma instruction_loop_encoded:
  assumes "\<forall>i \<in> set is. instruction_ok (length keys) i" "distinct ids"
  obtains out where "instruction_loop keys (pre @ concat (map encode_instruction is) @ rest) (length is) (length pre) ids = Inr out"
    "distinct out" "set out = set ids \<union> (\<lambda>i. keys ! unat (fst i)) ` set is"
  using assms
proof (induction "is" arbitrary: pre ids thesis)
  case Nil
  then show ?case by simp
next
  case (Cons i "is")
  let ?ids = "if keys ! unat (fst i) \<in> set ids then ids else ids @ [keys ! unat (fst i)]"
  have "distinct ?ids" using Cons.prems by simp
  then obtain out where out: "instruction_loop keys ((pre @ encode_instruction i) @ concat (map encode_instruction is) @ rest)
      (length is) (length (pre @ encode_instruction i)) ?ids = Inr out"
    "distinct out" "set out = set ?ids \<union> (\<lambda>i. keys ! unat (fst i)) ` set is"
    using Cons.IH [where ids = ?ids and pre = "pre @ encode_instruction i"] Cons.prems(2) by auto
  show ?case
  proof (rule Cons.prems(1))
    show "instruction_loop keys (pre @ concat (map encode_instruction (i # is)) @ rest) (length (i # is)) (length pre) ids = Inr out"
      using instruction_step [of keys i pre "concat (map encode_instruction is) @ rest"] Cons.prems(2) out(1)
      by (simp del: instruction_loop.simps)
    show "set out = set ids \<union> (\<lambda>i. keys ! unat (fst i)) ` set (i # is)" using out(3) by auto
  qed (rule out(2))
qed

section \<open>The summary\<close>

lemma prefix_encoded:
  assumes "message_ok m"
  shows "message_prefix (encode_message m) = Inr (sm_version m, case sm_version m of Legacy \<Rightarrow> 0 | V0 \<Rightarrow> 1)"
proof -
  obtain a b c where h: "sm_header m = [a, b, c]"
    using assms by (auto simp: message_ok_def numeral_3_eq_3 length_Suc_conv)
  show ?thesis
    using assms by (cases "sm_version m") (simp_all add: message_prefix_def encode_message_def h byte_at_def message_ok_def high)
qed

lemma keys_read:
  assumes "message_ok m" "length pre = off" "M = pre @ encode_compact (length (sm_keys m)) @ concat (sm_keys m) @ rest"
    "32 \<le> length rest"
  obtains off2 where "readCompactU16 M off = Inr (length (sm_keys m), off2)"
    "length M = off2 + length (sm_keys m) * 32 + length rest"
    "static_keys C M off2 (length (sm_keys m)) = map (b58_encode C) (sm_keys m)"
proof -
  note ok = assms(1) [unfolded message_ok_def]
  let ?p = "pre @ encode_compact (length (sm_keys m))"
  have M: "M = ?p @ concat (sm_keys m) @ rest" by (simp add: assms(3))
  show thesis
  proof
    show "readCompactU16 M off = Inr (length (sm_keys m), length ?p)"
      using read_encoded [of "length (sm_keys m)" pre "concat (sm_keys m) @ rest"] ok by (simp add: assms(2,3))
    show "length M = length ?p + length (sm_keys m) * 32 + length rest"
      using concat_keys_length [of "sm_keys m"] ok by (simp add: M)
    show "static_keys C M (length ?p) (length (sm_keys m)) = map (b58_encode C) (sm_keys m)"
      unfolding M using ok by (intro static_keys_encoded) simp
  qed
qed

lemma summary_encoded:
  assumes "message_ok m"
  shows "summarizeMessage C (encode_message m) = Inr \<lparr>ms_version = sm_version m,
    ms_numRequiredSignatures = unat (hd (sm_header m)), ms_feePayer = b58_encode C (hd (sm_keys m)),
    ms_staticAccountKeys = map (b58_encode C) (sm_keys m), ms_programIds = sorted_list_of_set (programs C m)\<rparr>"
proof -
  note ok = assms [unfolded message_ok_def]
  define pre where "pre = (case sm_version m of Legacy \<Rightarrow> [] | V0 \<Rightarrow> [0x80 :: 8 word])"
  let ?ks = "sm_keys m" and ?is = "sm_instructions m" and ?M = "encode_message m"
  let ?body = "concat (map encode_instruction ?is) @ sm_tail m"
  let ?rest = "sm_blockhash m @ encode_compact (length ?is) @ ?body"
  obtain a b c where h: "sm_header m = [a, b, c]"
    using ok by (auto simp: numeral_3_eq_3 length_Suc_conv)
  have M: "?M = (pre @ [a, b, c]) @ encode_compact (length ?ks) @ concat ?ks @ ?rest"
    by (simp add: encode_message_def pre_def h)
  obtain off2 where ks: "readCompactU16 ?M (length pre + 3) = Inr (length ?ks, off2)"
    "length ?M = off2 + length ?ks * 32 + length ?rest" "static_keys C ?M off2 (length ?ks) = map (b58_encode C) ?ks"
    by (rule keys_read [OF assms _ M, where off = "length pre + 3" and C = C]) (use ok in auto)
  define p3 where "p3 = pre @ [a, b, c] @ encode_compact (length ?ks) @ concat ?ks @ sm_blockhash m"
  have M3: "?M = p3 @ encode_compact (length ?is) @ ?body" "off2 + length ?ks * 32 + 32 = length p3"
    using M ks(2) ok by (simp_all add: p3_def)
  have ins: "readCompactU16 ?M (off2 + length ?ks * 32 + 32) = Inr (length ?is, length (p3 @ encode_compact (length ?is)))"
    using read_encoded [of "length ?is" p3 ?body] ok unfolding M3 by simp
  have "\<forall>i \<in> set ?is. instruction_ok (length (map (b58_encode C) ?ks)) i" "distinct ([] :: string list)" using ok by simp_all
  then obtain out where out: "instruction_loop (map (b58_encode C) ?ks) ?M (length ?is) (length (p3 @ encode_compact (length ?is))) [] = Inr out"
    "distinct out" "set out = (\<lambda>i. map (b58_encode C) ?ks ! unat (fst i)) ` set ?is"
    by (rule instruction_loop_encoded [where pre = "p3 @ encode_compact (length ?is)" and rest = "sm_tail m"]) (simp add: M3)
  have "map (b58_encode C) ?ks ! unat (fst i) = b58_encode C (?ks ! unat (fst i))" if "i \<in> set ?is" for i
    using ok that by (auto simp: instruction_ok_def)
  then have "set out = programs C m" by (auto simp: out(3) programs_def image_iff)
  then have "sort out = sorted_list_of_set (programs C m)"
    using out(2) by (metis sorted_list_of_set_sort_remdups distinct_remdups_id)
  moreover have "byte_at ?M (length pre) = Some a" unfolding M by simp
  moreover have "map (b58_encode C) ?ks ! 0 = b58_encode C (hd ?ks)" using ok by (simp add: hd_conv_nth)
  moreover have "(case sm_version m of Legacy \<Rightarrow> 0 | V0 \<Rightarrow> 1) = length pre" "length pre \<le> 1"
    by (simp_all add: pre_def split: message_version.split)
  ultimately show ?thesis
    using ok ks ins out(1) prefix_encoded [OF assms]
    by (simp add: summarizeMessage_def h PUBKEY_BYTES_def Let_def)
qed

text \<open>The summary the executor checks before it signs is complete: for every well-formed message, legacy or
  versioned, it names the fee payer, the account keys and exactly the programs some instruction invokes,
  without repetition and in order.\<close>

theorem summary_of_message:
  assumes "message_ok m"
  shows "summarizeMessage C (encode_message m) = Inr \<lparr>ms_version = sm_version m,
    ms_numRequiredSignatures = unat (hd (sm_header m)), ms_feePayer = b58_encode C (hd (sm_keys m)),
    ms_staticAccountKeys = map (b58_encode C) (sm_keys m), ms_programIds = sorted_list_of_set (programs C m)\<rparr>"
  using assms by (rule summary_encoded)

section \<open>The signature\<close>

lemma split_signed:
  assumes "length signature = 64" "m \<noteq> []"
  shows "splitTransaction ([1] @ signature @ m) = Inr (1, m)"
proof -
  have "readCompactU16 ([] @ encode_compact 1 @ (signature @ m)) (length ([] :: bytes)) = Inr (1, 1)"
    by (subst read_encoded) (simp_all add: encode_compact_def)
  then have "readCompactU16 ([1] @ signature @ m) 0 = Inr (1, 1)" by (simp add: encode_compact_def)
  then show ?thesis using assms by (simp add: splitTransaction_def SIGNATURE_BYTES_def)
qed

lemma summary_length: "summarizeMessage C m = Inr s \<Longrightarrow> 3 \<le> length m"
  by (auto simp: summarizeMessage_def sbind_eq_Inr split: option.splits if_splits)

lemma split_parts:
  assumes "splitTransaction bs = Inr (count, m)"
  obtains off where "readCompactU16 bs 0 = Inr (count, off)" "m = drop (off + count * 64) bs" "off + count * 64 < length bs"
  using assms by (auto simp: splitTransaction_def sbind_eq_Inr SIGNATURE_BYTES_def Let_def split: if_splits)

text \<open>C10. What is sent is what was checked. The bytes of the transaction handed in are a count that reads as 1, the 64 bytes
  of its signature slot and a message; the bytes of the one returned are the count 1, the signature over exactly that message and
  the same message, byte for byte. The signature is made with the seed half of the wallet's key and its base58 form is the hash
  returned; the message parses, asks for one signature, and its fee payer is the expected one, which is the address of the
  public half of the key; when the two halves belong together (\<open>isConsistentSecretKey\<close>), that is the address of the key
  that signed.\<close>

theorem signed_is_checked:
  assumes "signSolanaTransaction C secret transaction expectedFeePayer = Inr s"
    and "\<And>bs. b64_decode C (b64_encode C bs) = Some bs"
    and "\<And>m k. length (ed25519_sign C m k) = 64"
  shows "\<exists>count slot m sm. b64_decode C transaction = Some (count @ slot @ m) \<and>
    readCompactU16 (count @ slot @ m) 0 = Inr (1, length count) \<and> length slot = 64 \<and>
    b64_decode C (sx_raw s) = Some ([1] @ ed25519_sign C m (take 32 secret) @ m) \<and>
    sx_hash s = b58_encode C (ed25519_sign C m (take 32 secret)) \<and>
    summarizeSolanaTransaction C transaction = Inr sm \<and> summarizeSolanaTransaction C (sx_raw s) = Inr sm \<and>
    summarizeMessage C m = Inr sm \<and> ms_numRequiredSignatures sm = 1 \<and> ms_feePayer sm = expectedFeePayer \<and>
    length secret = 64 \<and> expectedFeePayer = b58_encode C (drop 32 secret) \<and>
    (isConsistentSecretKey C secret \<longrightarrow> expectedFeePayer = b58_encode C (ed25519_public C (take 32 secret)))"
proof -
  obtain bs m sm where bs: "decodeTransaction C transaction = Inr bs" "splitTransaction bs = Inr (1, m)"
    and sm: "summarizeMessage C m = Inr sm" "ms_numRequiredSignatures sm = 1" "ms_feePayer sm = expectedFeePayer"
    and key: "solanaAddressFromSecretKey C secret = Inr expectedFeePayer"
    and s: "s = \<lparr>sx_raw = b64_encode C ([1] @ ed25519_sign C m (take 32 secret) @ m),
      sx_hash = b58_encode C (ed25519_sign C m (take 32 secret))\<rparr>"
    using assms(1) by (auto simp: signSolanaTransaction_def signWithSolanaKey_def sbind_eq_Inr SOLANA_SEED_BYTES_def split: if_splits)
  have len: "3 \<le> length m" by (rule summary_length [OF sm(1)])
  then have "m \<noteq> []" by auto
  have raw: "b64_decode C (sx_raw s) = Some ([1] @ ed25519_sign C m (take 32 secret) @ m)" by (simp add: s assms(2))
  then have "decodeTransaction C (sx_raw s) = Inr ([1] @ ed25519_sign C m (take 32 secret) @ m)"
    using len assms(3) by (simp add: decodeTransaction_def SIGNATURE_BYTES_def)
  then have out: "summarizeSolanaTransaction C (sx_raw s) = Inr sm" "summarizeSolanaTransaction C transaction = Inr sm"
    using split_signed [OF assms(3) \<open>m \<noteq> []\<close>] bs sm(1) by (simp_all add: summarizeSolanaTransaction_def)
  obtain off where off: "readCompactU16 bs 0 = Inr (1, off)" "m = drop (off + 64) bs" "off + 64 < length bs"
    using split_parts [OF bs(2)] by auto
  have dec: "b64_decode C transaction = Some bs" using bs(1) by (auto simp: decodeTransaction_def split: option.splits if_splits)
  have parts: "bs = take off bs @ take 64 (drop off bs) @ m"
    using off(2) by (metis append_take_drop_id drop_drop add.commute)
  have k: "length secret = 64" "expectedFeePayer = b58_encode C (drop 32 secret)"
    using key by (auto simp: solanaAddressFromSecretKey_def assertSecretKey_def sbind_eq_Inr SOLANA_SEED_BYTES_def
        SOLANA_KEYPAIR_BYTES_def split: if_splits)
  have "isConsistentSecretKey C secret \<longrightarrow> expectedFeePayer = b58_encode C (ed25519_public C (take 32 secret))"
    using k(2) by (simp add: isConsistentSecretKey_def SOLANA_SEED_BYTES_def)
  with dec parts off raw out sm k s show ?thesis
    by - (rule exI [of _ "take off bs"], rule exI [of _ "take 64 (drop off bs)"], rule exI [of _ m], rule exI [of _ sm],
      simp flip: parts)
qed

section \<open>Witnesses\<close>

text \<open>A codec in which a string is its bytes and a signature is constant.\<close>

definition byte_codec :: codec where
  "byte_codec = \<lparr>b64_decode = (\<lambda>s. Some (map (\<lambda>c. of_nat (of_char c)) s)),
     b64_encode = map (\<lambda>b. char_of (unat b)), b58_encode = map (\<lambda>b. char_of (unat b)),
     ed25519_sign = (\<lambda>m k. replicate 64 3), ed25519_public = (\<lambda>seed. seed)\<rparr>"

definition sample_message :: solana_message where
  "sample_message = \<lparr>sm_version = V0, sm_header = [1, 0, 1],
     sm_keys = [replicate 32 65, replicate 32 67, replicate 32 66], sm_blockhash = replicate 32 5,
     sm_instructions = [(1, [0], [1, 2]), (2, [], [3]), (1, [0, 1], [])], sm_tail = [0]\<rparr>"

lemma sample_chars: "char_of (65 :: nat) = CHR ''A''" "char_of (66 :: nat) = CHR ''B''" "char_of (67 :: nat) = CHR ''C''"
  by code_simp+

definition sample_secret :: bytes where "sample_secret = replicate 64 65"

lemma sample_message_ok: "message_ok sample_message"
  by (simp add: message_ok_def sample_message_def instruction_ok_def)

theorem summary_of_message_witness:
  "message_ok sample_message \<and> summarizeMessage byte_codec (encode_message sample_message) = Inr \<lparr>ms_version = V0,
     ms_numRequiredSignatures = unat (hd (sm_header sample_message)),
     ms_feePayer = b58_encode byte_codec (hd (sm_keys sample_message)),
     ms_staticAccountKeys = map (b58_encode byte_codec) (sm_keys sample_message),
     ms_programIds = sorted_list_of_set {replicate 32 CHR ''B'', replicate 32 CHR ''C''}\<rparr>"
proof -
  have "programs byte_codec sample_message = {replicate 32 CHR ''B'', replicate 32 CHR ''C''}"
    by (auto simp: programs_def sample_message_def byte_codec_def sample_chars)
  with summary_of_message [OF sample_message_ok, of byte_codec] sample_message_ok show ?thesis
    by (simp add: sample_message_def)
qed

lemma byte_codec_inverse: "b64_decode byte_codec (b64_encode byte_codec bs) = Some bs"
proof -
  have "(of_nat (of_char (char_of (unat b) :: char)) :: 8 word) = b" for b :: "8 word"
  proof -
    have "unat b < 256" using unsigned_less [of b, where ?'a = nat] by simp
    then show ?thesis by simp
  qed
  then show ?thesis by (simp add: byte_codec_def comp_def)
qed

definition sample_transaction :: string where
  "sample_transaction = b64_encode byte_codec ([1] @ replicate 64 0 @ encode_message sample_message)"

lemma byte_codec_address: "b58_encode byte_codec (drop 32 sample_secret) = replicate 32 CHR ''A''"
  by (simp add: byte_codec_def sample_secret_def sample_chars)

lemma sample_signs: "\<exists>s. signSolanaTransaction byte_codec sample_secret sample_transaction (replicate 32 CHR ''A'') = Inr s"
proof -
  have len: "3 \<le> length (encode_message sample_message)" by (simp add: encode_message_def sample_message_def)
  then have m: "encode_message sample_message \<noteq> []" by auto
  have "decodeTransaction byte_codec sample_transaction = Inr ([1] @ replicate 64 0 @ encode_message sample_message)"
    using len unfolding decodeTransaction_def sample_transaction_def byte_codec_inverse by (simp add: SIGNATURE_BYTES_def)
  moreover have "splitTransaction ([1] @ replicate 64 0 @ encode_message sample_message) = Inr (1, encode_message sample_message)"
    using m by (intro split_signed) simp_all
  moreover have "length sample_secret = 64" by (simp add: sample_secret_def)
  moreover have "b58_encode byte_codec (hd (sm_keys sample_message)) = replicate 32 CHR ''A''"
    "unat (hd (sm_header sample_message)) = 1"
    by (simp_all add: byte_codec_def sample_message_def sample_chars)
  ultimately show ?thesis
    using summary_encoded [OF sample_message_ok, of byte_codec] byte_codec_address
    by (simp add: signSolanaTransaction_def solanaAddressFromSecretKey_def assertSecretKey_def signWithSolanaKey_def
        SOLANA_KEYPAIR_BYTES_def SOLANA_SEED_BYTES_def)
qed

theorem signed_is_checked_witness:
  "\<exists>s. signSolanaTransaction byte_codec sample_secret sample_transaction (replicate 32 CHR ''A'') = Inr s \<and>
     b64_decode byte_codec (sx_raw s) = Some ([1] @ replicate 64 3 @ encode_message sample_message) \<and>
     isConsistentSecretKey byte_codec sample_secret"
proof -
  let ?m = "encode_message sample_message"
  obtain s where s: "signSolanaTransaction byte_codec sample_secret sample_transaction (replicate 32 CHR ''A'') = Inr s"
    using sample_signs by blast
  have "length (ed25519_sign byte_codec m k) = 64" for m k by (simp add: byte_codec_def)
  from signed_is_checked [OF s byte_codec_inverse this] obtain count slot m where
    p: "b64_decode byte_codec sample_transaction = Some (count @ slot @ m)" "readCompactU16 (count @ slot @ m) 0 = Inr (1, length count)"
    "length slot = 64" "b64_decode byte_codec (sx_raw s) = Some ([1] @ ed25519_sign byte_codec m (take 32 sample_secret) @ m)"
    by blast
  have e: "count @ slot @ m = [1] @ replicate 64 0 @ ?m"
    using p(1) by (simp add: sample_transaction_def byte_codec_inverse)
  have "readCompactU16 ([1] @ replicate 64 0 @ ?m) 0 = Inr (1, 1)"
    using read_encoded [of 1 "[]" "replicate 64 0 @ ?m"] by (simp add: encode_compact_def)
  then have "length count = 1" using p(2) unfolding e by simp
  then have "length (count @ slot) = length ([1 :: 8 word] @ replicate 64 0)" using p(3) by simp
  moreover have "(count @ slot) @ m = ([1] @ replicate 64 0) @ ?m" unfolding append.assoc by (rule e)
  ultimately have "m = ?m" by (metis append_eq_append_conv)
  moreover have "isConsistentSecretKey byte_codec sample_secret"
    by (simp add: isConsistentSecretKey_def byte_codec_def sample_secret_def SOLANA_KEYPAIR_BYTES_def SOLANA_SEED_BYTES_def)
  ultimately show ?thesis using s p(4) by (simp add: byte_codec_def)
qed

end
