(* ===== verification/Trade_Props.thy ===== *)
theory Trade_Props
  imports Live_Executor Gate_Props
begin

text \<open>
  The life of a trade row: the transition table never turns back (a locale of life cycles, interpreted on it),
  what a transition changes, and what the executors' operations do to the rows and to the rest of the
  database.
\<close>

section \<open>Life cycles\<close>

text \<open>A table of transitions along which a rank grows: the contract of a status column.\<close>

locale life_cycle =
  fixes edges :: "'s \<Rightarrow> 's list" and rank :: "'s \<Rightarrow> nat"
  assumes edge_up: "s' \<in> set (edges s) \<Longrightarrow> rank s < rank s'"
begin

inductive leads :: "'s \<Rightarrow> 's \<Rightarrow> bool" where
  leads_refl [intro!, simp]: "leads s s"
| leads_step: "leads s s' \<Longrightarrow> s'' \<in> set (edges s') \<Longrightarrow> leads s s''"

lemma leads_trans: "leads s' s'' \<Longrightarrow> leads s s' \<Longrightarrow> leads s s''"
  by (induction rule: leads.induct) (auto intro: leads_step)

lemma leads_rank: "leads s s' \<Longrightarrow> rank s \<le> rank s'"
  by (induction rule: leads.induct) (auto dest: edge_up)

lemma leads_rank_eq: "leads s s' \<Longrightarrow> rank s' \<le> rank s \<Longrightarrow> s = s'"
proof (induction rule: leads.induct)
  case (leads_step s s' s'')
  then show ?case using edge_up [of s'' s'] leads_rank [of s s'] by simp
qed simp

lemma leads_antisym: "leads s s' \<Longrightarrow> leads s' s \<Longrightarrow> s = s'"
  using leads_rank_eq leads_rank by blast

lemma leads_terminal: "leads s s' \<Longrightarrow> edges s = [] \<Longrightarrow> s' = s"
  by (induction rule: leads.induct) auto

lemma leads_closed:
  assumes "leads s s'" "P s" "\<And>s s'. P s \<Longrightarrow> s' \<in> set (edges s) \<Longrightarrow> P s'"
  shows "P s'"
  using assms(1,2) by (induction rule: leads.induct) (auto intro: assms(3))

end

fun trade_rank :: "trade_status \<Rightarrow> nat" where
  "trade_rank T_proposed = 0"
| "trade_rank T_allowed = 1"
| "trade_rank T_dispatched = 2"
| "trade_rank T_signed = 3"
| "trade_rank T_broadcast = 4"
| "trade_rank _ = 5"

interpretation life: life_cycle TRANSITIONS trade_rank
proof
  show "trade_rank s < trade_rank s'" if "s' \<in> set (TRANSITIONS s)" for s s'
    using that by (cases s) auto
qed

text \<open>A row that may have been signed for: past the gate and the dispatch.\<close>

definition past_dispatch :: "trade_status \<Rightarrow> bool" where
  "past_dispatch s \<longleftrightarrow> s \<notin> {T_proposed, T_allowed, T_rejected}"

lemma past_dispatch_leads: "life.leads s s' \<Longrightarrow> past_dispatch s \<Longrightarrow> past_dispatch s'"
proof (erule life.leads_closed)
  show "past_dispatch s'" if "past_dispatch s" "s' \<in> set (TRANSITIONS s)" for s s'
    using that by (cases s) (auto simp: past_dispatch_def)
qed

section \<open>Rows\<close>

text \<open>What no operation changes after the insert.\<close>

definition trade_static where
  "trade_static r = ((td_id r, td_actionId r, td_decisionCycleId r, td_mode r, td_chain r, td_protocol r, td_kind r, td_side r),
     (td_marketKey r, td_tokenIn r, td_tokenOut r, td_tokenInDecimals r, td_tokenOutDecimals r, td_amountIn r),
     (td_expectedOut r, td_minOut r, td_route r, td_researchId r, td_rationale r, td_proposedAt r))"

lemma static_id: "trade_static r = trade_static r' \<Longrightarrow> td_id r = td_id r'"
  and static_owned: "trade_static r = trade_static r' \<Longrightarrow> lp_owned r = lp_owned r'"
  by (auto simp: trade_static_def lp_owned_def)

lemma updateTrade_frame [simp]:
  "gd_ledger (updateTrade db i f) = gd_ledger db" "gd_decisions (updateTrade db i f) = gd_decisions db"
  "gd_policy (updateTrade db i f) = gd_policy db" "gd_cooldowns (updateTrade db i f) = gd_cooldowns db"
  "sd_installation (updateTrade db i f) = sd_installation db" "sd_switches (updateTrade db i f) = sd_switches db"
  "sd_activation (updateTrade db i f) = sd_activation db"
  by (simp_all add: updateTrade_def)

lemma getTrade_id: "getTrade db i = Some r \<Longrightarrow> td_id r = i"
  using trd.look_Some by blast

text \<open>Columns of a transition that keep what is static and the status.\<close>

definition safe_cols :: "(trade_row \<Rightarrow> trade_row) \<Rightarrow> bool" where
  "safe_cols f \<longleftrightarrow> (\<forall>r. trade_static (f r) = trade_static r \<and> td_status (f r) = td_status r)"

lemma transition_Inr:
  assumes "transition t i s cols db = Inr (db', r')"
  obtains r where "getTrade db i = Some r" "s \<in> set (TRANSITIONS (td_status r))"
    "db' = updateTrade db i (\<lambda>r. cols (r\<lparr>td_status := s, td_updatedAt := t\<rparr>))"
    "r' = cols (r\<lparr>td_status := s, td_updatedAt := t\<rparr>)"
  using assms by (auto simp: transition_def Let_def split: option.splits if_splits)

lemma moved:
  assumes "transition t i s cols db = Inr (db', r')" "safe_cols cols"
  shows "\<exists>r. getTrade db i = Some r \<and> s \<in> set (TRANSITIONS (td_status r)) \<and> trade_static r' = trade_static r \<and>
    td_status r' = s \<and> r' = cols (r\<lparr>td_status := s, td_updatedAt := t\<rparr>) \<and>
    getTrade db' = (\<lambda>k. if k = i then Some r' else getTrade db k)"
  using assms(1)
proof (rule transition_Inr)
  fix r
  assume r: "getTrade db i = Some r" "s \<in> set (TRANSITIONS (td_status r))"
    "db' = updateTrade db i (\<lambda>r. cols (r\<lparr>td_status := s, td_updatedAt := t\<rparr>))"
    "r' = cols (r\<lparr>td_status := s, td_updatedAt := t\<rparr>)"
  have st: "trade_static (cols (r\<lparr>td_status := s, td_updatedAt := t\<rparr>)) = trade_static r"
    "td_status (cols (r\<lparr>td_status := s, td_updatedAt := t\<rparr>)) = s" for r
    using assms(2) by (simp_all add: safe_cols_def) (simp add: trade_static_def)
  have "td_id (cols (r\<lparr>td_status := s, td_updatedAt := t\<rparr>)) = td_id r" for r using static_id [OF st(1)] .
  then have "getTrade db' k = (if k = i then Some r' else getTrade db k)" for k
    by (simp add: r trd.look_upd)
  with r st show ?thesis by auto
qed

lemma transition_frame:
  assumes "transition t i s cols db = Inr (db', r')"
  shows "gd_ledger db' = gd_ledger db" "gd_decisions db' = gd_decisions db" "sd_installation db' = sd_installation db"
    "sd_switches db' = sd_switches db" "sd_activation db' = sd_activation db"
  using assms by (auto elim!: transition_Inr)

text \<open>The transitions of the executors, by name.\<close>

lemma safe_cols_ops [simp]:
  "safe_cols (\<lambda>r. r)" "safe_cols (\<lambda>r. r\<lparr>td_txHash := h\<rparr>)" "safe_cols (\<lambda>r. r\<lparr>td_error := e\<rparr>)"
  "safe_cols (\<lambda>r. r\<lparr>td_rejectionCode := c\<rparr>)" "safe_cols (\<lambda>r. r\<lparr>td_amountInUsd := a, td_feeUsd := f\<rparr>)"
  "safe_cols (\<lambda>r. r\<lparr>td_filledOut := out, td_feeNative := n, td_feeUsd := f, td_txHash := g r, td_filledAt := at'\<rparr>)"
  by (simp_all add: safe_cols_def trade_static_def)

lemmas trade_ops = trade_markDispatched_def markSigned_def markBroadcast_def markFilled_def markFailed_def markCancelled_def

section \<open>What an executor touches\<close>

text \<open>How a row may change over time: the hash of a signed transaction stays, until the fill that reports it.\<close>

definition row_evolves :: "trade_row \<Rightarrow> trade_row \<Rightarrow> bool" where
  "row_evolves r r' \<longleftrightarrow> trade_static r' = trade_static r \<and> life.leads (td_status r) (td_status r') \<and>
     (3 \<le> trade_rank (td_status r) \<longrightarrow> td_status r' \<noteq> T_filled \<longrightarrow> td_txHash r' = td_txHash r)"

lemma evolves_refl [intro!, simp]: "row_evolves r r"
  by (simp add: row_evolves_def)

lemma evolves_trans:
  assumes "row_evolves r r1" "row_evolves r1 r2"
  shows "row_evolves r r2"
proof -
  have leads: "life.leads (td_status r) (td_status r1)" "life.leads (td_status r1) (td_status r2)"
    using assms by (simp_all add: row_evolves_def)
  have "td_txHash r2 = td_txHash r" if "3 \<le> trade_rank (td_status r)" "td_status r2 \<noteq> T_filled"
  proof -
    have "td_status r1 \<noteq> T_filled" using life.leads_terminal [OF leads(2)] that(2) by auto
    moreover have "3 \<le> trade_rank (td_status r1)" using life.leads_rank [OF leads(1)] that(1) by simp
    ultimately show ?thesis using assms that by (simp add: row_evolves_def)
  qed
  with assms life.leads_trans [OF leads(2,1)] show ?thesis by (simp add: row_evolves_def)
qed

text \<open>One trade moves along its life cycle; other trades, the decisions and the switches stay.\<close>

definition only_trade :: "string \<Rightarrow> 'a trade_db_scheme \<Rightarrow> 'a trade_db_scheme \<Rightarrow> bool" where
  "only_trade i db db' \<longleftrightarrow> (\<forall>k. k \<noteq> i \<longrightarrow> getTrade db' k = getTrade db k) \<and>
     (case getTrade db i of None \<Rightarrow> getTrade db' i = None
      | Some r \<Rightarrow> \<exists>r'. getTrade db' i = Some r' \<and> row_evolves r r') \<and>
     gd_decisions db' = gd_decisions db \<and> sd_installation db' = sd_installation db \<and>
     sd_switches db' = sd_switches db \<and> sd_activation db' = sd_activation db"

lemma only_refl [intro!, simp]: "only_trade i db db"
  by (simp add: only_trade_def split: option.split)

lemma only_trans:
  assumes "only_trade i db db1" "only_trade i db1 db2"
  shows "only_trade i db db2"
proof (cases "getTrade db i")
  case None
  then show ?thesis using assms by (simp add: only_trade_def)
next
  case (Some r)
  then obtain r1 where r1: "getTrade db1 i = Some r1" "row_evolves r r1"
    using assms(1) by (auto simp: only_trade_def)
  then obtain r2 where "getTrade db2 i = Some r2" "row_evolves r1 r2"
    using assms(2) by (auto simp: only_trade_def)
  with r1 Some assms show ?thesis by (auto simp: only_trade_def intro: evolves_trans)
qed

text \<open>Only signing and filling write the hash.\<close>

definition keeps_hash :: "trade_status \<Rightarrow> (trade_row \<Rightarrow> trade_row) \<Rightarrow> bool" where
  "keeps_hash s f \<longleftrightarrow> s = T_signed \<or> s = T_filled \<or> (\<forall>r. td_txHash (f r) = td_txHash r)"

lemma only_transition:
  assumes "transition t i s cols db = Inr (db', r')" "safe_cols cols" "keeps_hash s cols"
  shows "only_trade i db db'"
proof -
  obtain r where r: "getTrade db i = Some r" "s \<in> set (TRANSITIONS (td_status r))" "trade_static r' = trade_static r"
    "td_status r' = s" "r' = cols (r\<lparr>td_status := s, td_updatedAt := t\<rparr>)" "getTrade db' = (\<lambda>k. if k = i then Some r' else getTrade db k)"
    using moved [OF assms(1,2)] by blast
  have "s = T_signed \<Longrightarrow> trade_rank (td_status r) < 3" using r(2) by (cases "td_status r") auto
  then have "row_evolves r r'"
    using assms(3) r(2-4) by (auto simp: row_evolves_def keeps_hash_def r(5) intro: life.leads_step)
  then show ?thesis
    using r transition_frame [OF assms(1)] by (auto simp: only_trade_def)
qed

lemma getTrade_audit [simp]: "getTrade (audit_append t e db) = getTrade db"
  by (simp add: fun_eq_iff getTrade_def audit_append_def)

lemma getTrade_ledger [simp]: "getTrade (db\<lparr>gd_ledger := lg\<rparr>) = getTrade db"
  by (simp add: fun_eq_iff getTrade_def)

lemma getTrade_dispatched [simp]: "getTrade (markDispatched t act db) = getTrade db"
  by (simp add: fun_eq_iff getTrade_def markDispatched_def)

lemma dispatched_frame [simp]:
  "gd_decisions (markDispatched t act db) = gd_decisions db" "sd_installation (markDispatched t act db) = sd_installation db"
  "sd_switches (markDispatched t act db) = sd_switches db" "sd_activation (markDispatched t act db) = sd_activation db"
  by (simp_all add: markDispatched_def)

lemma audit_frame [simp]:
  "gd_decisions (audit_append t e db) = gd_decisions db" "sd_installation (audit_append t e db) = sd_installation db"
  "sd_switches (audit_append t e db) = sd_switches db" "sd_activation (audit_append t e db) = sd_activation db"
  by (simp_all add: audit_append_def)

lemma only_audit [simp]: "only_trade i db (audit_append t e db') \<longleftrightarrow> only_trade i db db'"
  and only_ledger [simp]: "only_trade i db (db'\<lparr>gd_ledger := lg\<rparr>) \<longleftrightarrow> only_trade i db db'"
  and only_dispatched [simp]: "only_trade i db (markDispatched t act db') \<longleftrightarrow> only_trade i db db'"
  by (simp_all add: only_trade_def cong: option.case_cong)

lemma only_ops:
  "trade_markDispatched t i db = Inr (db', r) \<Longrightarrow> only_trade i db db'"
  "markSigned t i h db = Inr (db', r) \<Longrightarrow> only_trade i db db'"
  "markBroadcast t i db = Inr (db', r) \<Longrightarrow> only_trade i db db'"
  "markFilled t i out n f h' db = Inr (db', r) \<Longrightarrow> only_trade i db db'"
  "markFailed t i reason db = Inr (db', r) \<Longrightarrow> only_trade i db db'"
  by (auto simp: trade_ops keeps_hash_def dest: only_transition)

lemma getTrade_priced:
  "getTrade (recordQuotePrices t i px db) k =
    (if k = i then map_option (\<lambda>r. r\<lparr>td_quotePrices := Some px, td_updatedAt := t\<rparr>) (getTrade db i) else getTrade db k)"
  by (simp add: recordQuotePrices_def trd.look_upd)

lemma only_priced: "only_trade i db (recordQuotePrices t i px db)"
proof -
  have "gd_decisions (recordQuotePrices t i px db) = gd_decisions db" "sd_installation (recordQuotePrices t i px db) = sd_installation db"
    "sd_switches (recordQuotePrices t i px db) = sd_switches db" "sd_activation (recordQuotePrices t i px db) = sd_activation db"
    by (simp_all add: recordQuotePrices_def)
  then show ?thesis by (simp add: only_trade_def getTrade_priced row_evolves_def trade_static_def split: option.split)
qed

section \<open>The paper executor\<close>

lemma apsnd_iff: "apsnd f p = (a, b) \<longleftrightarrow> fst p = a \<and> b = f (snd p)"
  by (cases p) auto

lemma paper_fail_only: "only_trade i db db1 \<Longrightarrow> only_trade i db (fst (paper_fail t i act reason db1))"
  by (auto simp: paper_fail_def Let_def split: sum.splits dest: only_ops(5) intro: only_trans)

lemma only_then_ledger: "only_trade i db db1 \<Longrightarrow> only_trade i (db1\<lparr>gd_ledger := lg\<rparr>) db2 \<Longrightarrow> only_trade i db db2"
  by (rule only_trans [of i db "db1\<lparr>gd_ledger := lg\<rparr>"]) simp_all

lemma only_then_dispatched: "only_trade i db db1 \<Longrightarrow> only_trade i (markDispatched t act db1) db2 \<Longrightarrow> only_trade i db db2"
  by (rule only_trans [of i db "markDispatched t act db1"]) simp_all

lemma paper_execute_only:
  assumes "paper_execute msg t u1 u2 i act q px db = (db', r)"
  shows "only_trade i db db'"
proof (cases "a_quote act")
  case None
  then show ?thesis using assms by (auto simp: paper_execute_def apsnd_iff intro: paper_fail_only)
next
  case (Some aq)
  show ?thesis
  proof (cases "trade_markDispatched t i db")
    case (Inl e)
    then show ?thesis using assms Some by (simp add: paper_execute_def)
  next
    case (Inr x)
    then obtain db1 r1 where d: "trade_markDispatched t i db = Inr (db1, r1)" by (cases x) auto
    define db2 where "db2 = markDispatched t act db1"
    have only: "only_trade i db db2" using d by (simp add: db2_def only_ops)
    then have fail: "only_trade i db (fst (paper_fail t i act reason db2))"
      "only_trade i db (fst (paper_fail t i act reason (db2\<lparr>gd_ledger := lg\<rparr>)))" for reason lg
      by (simp_all add: paper_fail_only)
    from only have fill: "markFilled t i out n f h (db2\<lparr>gd_ledger := lg\<rparr>) = Inr (db3, r3) \<Longrightarrow> only_trade i db db3"
      for out n f h lg db3 r3
      by (rule only_then_ledger [OF _ only_ops(4)])
    show ?thesis
      using assms Some fail fill
      by (auto simp: paper_execute_def apsnd_iff Let_def d db2_def [symmetric] split: sum.splits prod.splits if_splits)
  qed
qed

section \<open>The live executor\<close>

lemma live_fail_only:
  assumes "live_fail t i act reason at' h db = (db', p)"
  shows "only_trade i db db'" "p \<noteq> Waiting call"
  using assms by (auto simp: live_fail_def Let_def split: sum.splits app_error.splits error_code.splits dest: only_ops(5))

lemma bookFill_only:
  assumes "bookFill t u1 u2 trade rc px bc db = (db', r)"
  shows "only_trade (td_id trade) db db'"
  using assms
  by (auto simp: bookFill_def book_ledger_def Let_def sbind_eq_Inr split: sum.splits prod.splits if_splits
      dest!: only_ops(4) intro: only_then_ledger)

text \<open>What a call in flight may rely on: its row is its own, and the row's state is the stage.\<close>

fun row_matches :: "live_stage \<Rightarrow> trade_row \<Rightarrow> bool" where
  "row_matches (At_broadcast s _) r \<longleftrightarrow> td_status r = T_signed \<and> td_txHash r = Some (sx_hash s)"
| "row_matches (At_receipt s _ _ _) r \<longleftrightarrow> td_status r = T_broadcast \<and> td_txHash r = Some (sx_hash s)"
| "row_matches _ r \<longleftrightarrow> td_status r = T_dispatched"

definition call_ok :: "'a trade_db_scheme \<Rightarrow> live_call \<Rightarrow> bool" where
  "call_ok db call \<longleftrightarrow> (\<exists>r. getTrade db (lc_tradeId call) = Some r \<and> \<not> lp_owned r \<and>
     td_actionId r = actionId (lc_action call) \<and> row_matches (lc_stage call) r)"

text \<open>A segment's result: the same trade and action, one row touched, and a call that still matches its row.\<close>

definition segment_ok :: "live_call \<Rightarrow> 'a trade_db_scheme \<Rightarrow> 'a trade_db_scheme \<times> live_progress \<Rightarrow> bool" where
  "segment_ok call db = (\<lambda>(db', p). only_trade (lc_tradeId call) db db' \<and>
     (\<forall>call'. p = Waiting call' \<longrightarrow> lc_tradeId call' = lc_tradeId call \<and> lc_action call' = lc_action call \<and>
        (call_ok db call \<longrightarrow> call_ok db' call')))"

lemma segment_fail: "segment_ok call db (live_fail t (lc_tradeId call) act reason at' h db)"
  by (auto simp: segment_ok_def split: prod.split dest: live_fail_only)

lemma call_ok_audit [simp]: "call_ok (audit_append t e db) call = call_ok db call"
  by (simp add: call_ok_def)

lemma built_segment: "lc_stage call = At_build q px' \<Longrightarrow> segment_ok call db (live_built W t call answer px db)"
  by (auto simp: live_built_def Let_def segment_fail split: sum.split) (simp add: segment_ok_def call_ok_def)

lemma simulated_segment:
  "lc_stage call = At_simulate tx b \<Longrightarrow> segment_ok call db (live_simulated t wallet call answer tx b db)"
  by (auto simp: live_simulated_def signAndSend_def segment_fail split: sum.split) (auto simp: segment_ok_def call_ok_def)

lemma marked_row:
  assumes "transition t i s cols db = Inr (db', r')" "safe_cols cols" "getTrade db i = Some r"
  shows "getTrade db' i = Some (cols (r\<lparr>td_status := s, td_updatedAt := t\<rparr>))"
  using moved [OF assms(1,2)] assms(3) by auto

lemma prepared_segment:
  assumes "lc_stage call = At_prepare tx b"
  shows "segment_ok call db (live_prepared W t vault call answer tx b db)"
proof -
  have step: "segment_ok call db (audit_append t e db1, Waiting (call\<lparr>lc_stage := At_broadcast s b\<rparr>))"
    if m: "markSigned t (lc_tradeId call) (sx_hash s) db = Inr (db1, r1)" for s db1 r1 e
  proof -
    have "only_trade (lc_tradeId call) db db1" using m by (rule only_ops)
    moreover have "call_ok db1 (call\<lparr>lc_stage := At_broadcast s b\<rparr>)" if "call_ok db call"
    proof -
      from that obtain r where r: "getTrade db (lc_tradeId call) = Some r" "\<not> lp_owned r" "td_actionId r = actionId (lc_action call)"
        by (auto simp: call_ok_def)
      have "getTrade db1 (lc_tradeId call) = Some (r\<lparr>td_status := T_signed, td_updatedAt := t, td_txHash := Some (sx_hash s)\<rparr>)"
        using marked_row [OF m [unfolded markSigned_def] _ r(1)] by simp
      with r(2,3) show ?thesis by (simp add: call_ok_def lp_owned_def)
    qed
    ultimately show ?thesis by (simp add: segment_ok_def)
  qed
  then show ?thesis
    by (auto simp: live_prepared_def Let_def segment_fail split: sum.split option.split) (auto simp: segment_ok_def)
qed

lemma broadcasted_segment:
  assumes "lc_stage call = At_broadcast s b"
  shows "segment_ok call db (live_broadcasted W t call answer s b db)"
proof -
  have step: "segment_ok call db (db1, Waiting (call\<lparr>lc_stage := At_receipt s b d None\<rparr>))"
    if m: "markBroadcast t (lc_tradeId call) db = Inr (db1, r1)" for db1 r1 d
  proof -
    have "only_trade (lc_tradeId call) db db1" using m by (rule only_ops)
    moreover have "call_ok db1 (call\<lparr>lc_stage := At_receipt s b d None\<rparr>)" if "call_ok db call"
    proof -
      from that obtain r where r: "getTrade db (lc_tradeId call) = Some r" "\<not> lp_owned r" "td_actionId r = actionId (lc_action call)"
        "td_txHash r = Some (sx_hash s)"
        using assms by (auto simp: call_ok_def)
      have "getTrade db1 (lc_tradeId call) = Some (r\<lparr>td_status := T_broadcast, td_updatedAt := t\<rparr>)"
        using marked_row [OF m [unfolded markBroadcast_def] _ r(1)] by simp
      with r(2-) show ?thesis by (simp add: call_ok_def lp_owned_def)
    qed
    ultimately show ?thesis by (simp add: segment_ok_def)
  qed
  then show ?thesis
    by (auto simp: live_broadcasted_def Let_def split: sum.split) (auto simp: segment_ok_def)
qed

lemma settle_segment: "segment_ok call db (live_settle t u1 u2 call last' s b db)"
proof -
  have "segment_ok call db (db1, p)" if "bookFill t u1 u2 trade rc px bc db = (db1, r)" "getTrade db (lc_tradeId call) = Some trade"
      "\<And>call. p \<noteq> Waiting call" for trade rc px bc db1 r p
    using bookFill_only [OF that(1)] getTrade_id [OF that(2)] that(3) by (simp add: segment_ok_def)
  then show ?thesis
    by (auto simp: live_settle_def Let_def segment_fail split: option.split prod.split sum.split) (auto simp: segment_ok_def)
qed

lemma polled_segment:
  assumes "lc_stage call = At_receipt s b d l"
  shows "segment_ok call db (live_polled t u1 u2 call answer s b deadline last' db)"
proof -
  have "segment_ok call db (db, Waiting (call\<lparr>lc_stage := At_receipt s b deadline x\<rparr>))" for x
    using assms by (auto simp: segment_ok_def call_ok_def)
  then show ?thesis by (simp add: live_polled_def Let_def settle_segment)
qed

lemma resume_segment: "segment_ok call db (live_resume W t u ky call answer db)"
proof -
  have stay: "segment_ok call db (db, Waiting call)" by (simp add: segment_ok_def)
  show ?thesis
    by (cases "lc_stage call"; cases answer)
      (simp_all add: live_resume_def stay built_segment simulated_segment prepared_segment broadcasted_segment polled_segment)
qed

end
