(* ===== verification/Trader.thy ===== *)
theory Trader
  imports Paper_Executor
begin

text \<open>
  \<open>src/runtime/src/agents/trader/agent.ts\<close> and \<open>src/runtime/src/trading/proposal.ts\<close>: what is made of a
  model's reply before the risk engine sees it. The deterministic check on a well-formed decision, and the
  builder that turns a direction, a token and a USD size into the fully specified action. The model, the
  market service, the adapter's quote and the wallet's balances are asked and answered: their answers are
  arguments (an error, or what was read), and so are the schema of the action and the identifiers. The prompt, the model's name, latency and the
  confidence figure are not modelled. Log lines are not modelled, and of the notes only those that name a
  branch are kept.
\<close>

section \<open>The trader's decision\<close>

datatype trade_action = NO_ACTION | OPEN | REDUCE | CLOSE | SWAP

fun trade_action_str :: "trade_action \<Rightarrow> string" where
  "trade_action_str NO_ACTION = ''NO_ACTION''"
| "trade_action_str OPEN = ''OPEN''"
| "trade_action_str REDUCE = ''REDUCE''"
| "trade_action_str CLOSE = ''CLOSE''"
| "trade_action_str SWAP = ''SWAP''"

record trade_decision =
  dn_action :: trade_action
  dn_chain :: chain_id
  dn_market :: string
  dn_reason :: string
  dn_requestedNotionalUsd :: string
  dn_evidence :: "string list"
  dn_token :: "string option"

datatype research_status = Res_ok | Res_insufficient | Res_error

fun research_str :: "research_status \<Rightarrow> string" where
  "research_str Res_ok = ''OK''"
| "research_str Res_insufficient = ''INSUFFICIENT_DATA''"
| "research_str Res_error = ''ERROR''"

record trader_input =
  tn_chain :: chain_id
  tn_researchStatus :: research_status
  tn_subject :: string
  tn_portfolio :: portfolio_mark
  tn_policy :: risk_policy
  tn_allowlist :: "token_allow_entry list"
  tn_executable :: bool
  tn_executableReason :: string

text \<open>The reason a well-formed decision is overridden, if there is one.\<close>

definition trader_deterministicSanity :: "trade_decision \<Rightarrow> trader_input \<Rightarrow> string option result" where
  "trader_deterministicSanity d inp =
     (if dn_chain d \<noteq> tn_chain inp
      then Inr (Some (''decision names chain '' @ chain_str (dn_chain d) @ '', input was '' @ chain_str (tn_chain inp)))
      else if dn_action d = NO_ACTION
      then Inr (if dn_requestedNotionalUsd d = ''0'' then None else Some ''NO_ACTION with a non-zero notional'')
      else if dn_requestedNotionalUsd d = ''0''
      then Inr (Some (trade_action_str (dn_action d) @ '' with a zero notional''))
      else case dn_token d of
        None \<Rightarrow> Inr (Some (trade_action_str (dn_action d) @ '' without a token''))
      | Some token \<Rightarrow>
          if token = '''' then Inr (Some (trade_action_str (dn_action d) @ '' without a token''))
          else if \<not> list_ex (\<lambda>e. ta_address e = token) (tn_allowlist inp)
          then Inr (Some (''token '' @ token @ '' is not allowlisted''))
          else if dn_action d \<in> {REDUCE, CLOSE} \<and> \<not> list_ex (\<lambda>p. pr_chain (mp_row p) = tn_chain inp \<and>
              pr_token (mp_row p) = token) (pm_positions (tn_portfolio inp))
          then Inr (Some (trade_action_str (dn_action d) @ '' of a token with no open position''))
          else if dn_action d \<in> {REDUCE, CLOSE} \<and> isStablecoin (tn_chain inp) token
          then Inr (Some (trade_action_str (dn_action d) @ '' of a stablecoin is not an exit''))
          else sbind (bigUsd (dn_requestedNotionalUsd d)) (\<lambda>requested.
               sbind (bigUsd (maxAmountPerTradeUsd (tn_policy inp))) (\<lambda>maximum.
                 Inr (if requested > maximum
                   then Some (''requested '' @ dn_requestedNotionalUsd d @ '' USD exceeds the per-trade limit '' @
                     maxAmountPerTradeUsd (tn_policy inp))
                   else None))))"

definition noAction :: "trader_input \<Rightarrow> string \<Rightarrow> trade_decision" where
  "noAction inp reason = \<lparr>dn_action = NO_ACTION, dn_chain = tn_chain inp, dn_market = tn_subject inp,
     dn_reason = reason, dn_requestedNotionalUsd = ''0'', dn_evidence = [], dn_token = None\<rparr>"

text \<open>The reply is an error or a schema-valid decision; the flag says the fallback produced the result.\<close>

definition trader_decide ::
  "(app_error \<Rightarrow> string) \<Rightarrow> trader_input \<Rightarrow> string option \<Rightarrow> trade_decision result \<Rightarrow> trade_decision \<times> bool" where
  "trader_decide msg inp unavailable reply =
     (if tn_researchStatus inp \<noteq> Res_ok
      then (noAction inp (''research returned '' @ research_str (tn_researchStatus inp)), True)
      else if \<not> tn_executable inp then (noAction inp (''no execution path: '' @ tn_executableReason inp), True)
      else case unavailable of
        Some detail \<Rightarrow> (noAction inp (''no reasoning model: '' @ detail), True)
      | None \<Rightarrow>
          (case sbind reply (\<lambda>d. sbind (trader_deterministicSanity d inp) (\<lambda>v. Inr (d, v))) of
             Inl e \<Rightarrow> (noAction inp (''model output rejected: '' @ msg e), True)
           | Inr (d, Some violation) \<Rightarrow> (d\<lparr>dn_action := NO_ACTION, dn_requestedNotionalUsd := ''0'',
               dn_reason := ''overridden: '' @ violation @ '' (model said: '' @ take 200 (dn_reason d) @ '')''\<rparr>, False)
           | Inr (d, None) \<Rightarrow> (d, False)))"

section \<open>Prices, balances and liquidity\<close>

record price_check =
  pk_priceUsd :: "string option"
  pk_disputed :: bool
  pk_sources :: "(string \<times> int) list"

text \<open>A price both present and undisputed, dated by its oldest source.\<close>

definition stamped_price :: "int \<Rightarrow> price_check result \<Rightarrow> stamped option" where
  "stamped_price t answer = (case answer of
     Inl _ \<Rightarrow> None
   | Inr k \<Rightarrow> (case pk_priceUsd k of
       None \<Rightarrow> None
     | Some p \<Rightarrow> if pk_disputed k then None
         else Some \<lparr>sv_value = p,
           sv_at = (if pk_sources k = [] then t else foldr min (map snd (pk_sources k)) (snd (hd (pk_sources k)))),
           sv_source = join_with ''+'' (map fst (pk_sources k))\<rparr>))"

record balance_reading =
  bl_failed :: bool
  bl_observedAt :: "int option"
  bl_source :: "string option"
  bl_native :: "string option"
  bl_tokens :: "(string \<times> string) list"

text \<open>The paper ledger answers for every token asked about, with zero when nothing was seeded.\<close>

definition paper_balances :: "int \<Rightarrow> ledger_db \<Rightarrow> chain_id \<Rightarrow> string list \<Rightarrow> string \<rightharpoonup> stamped" where
  "paper_balances t lg c tokens = fold (\<lambda>token m. m(balanceKey c token \<mapsto>
     \<lparr>sv_value = (case getPaperBalance lg (c, token) of None \<Rightarrow> ''0'' | Some r \<Rightarrow> pb_amount r),
      sv_at = t, sv_source = ''paper-ledger''\<rparr>)) tokens Map.empty"

text \<open>A reading that failed or has no date answers for nothing.\<close>

definition live_balances :: "chain_id \<Rightarrow> balance_reading result \<Rightarrow> string \<rightharpoonup> stamped" where
  "live_balances c answer = (case answer of
     Inl _ \<Rightarrow> Map.empty
   | Inr r \<Rightarrow> (case bl_observedAt r of
       None \<Rightarrow> Map.empty
     | Some at' \<Rightarrow> if bl_failed r then Map.empty
         else let source = (case bl_source r of None \<Rightarrow> ''rpc'' | Some s \<Rightarrow> s);
                  native = (case bl_native r of None \<Rightarrow> Map.empty
                    | Some a \<Rightarrow> [balanceKey c (ci_nativeSentinel (CHAINS c)) \<mapsto>
                        \<lparr>sv_value = a, sv_at = at', sv_source = source\<rparr>])
              in fold (\<lambda>(token, a) m. m(balanceKey c token \<mapsto> \<lparr>sv_value = a, sv_at = at', sv_source = source\<rparr>))
                   (bl_tokens r) native))"

definition mode_balances ::
  "mode \<Rightarrow> int \<Rightarrow> ledger_db \<Rightarrow> chain_id \<Rightarrow> balance_reading result \<Rightarrow> string list \<Rightarrow> string \<rightharpoonup> stamped" where
  "mode_balances m t lg c answer tokens = (if m = PAPER then paper_balances t lg c tokens else live_balances c answer)"

record pool =
  pl_poolId :: string
  pl_dexId :: "string option"
  pl_base :: string
  pl_quote :: string
  pl_liquidityUsd :: "string option"
  pl_observedAt :: int
  pl_source :: string

definition isAggregator :: "string \<Rightarrow> bool" where
  "isAggregator protocol \<longleftrightarrow> toLowerCase protocol = ''jupiter-v6''"

definition venueOf :: "string \<Rightarrow> string" where
  "venueOf name = takeWhile (\<lambda>c. c \<noteq> CHR ''-'' \<and> c \<noteq> CHR ''_'') (toLowerCase name)"

definition matching_pools :: "string \<Rightarrow> string \<Rightarrow> pool list \<Rightarrow> pool list" where
  "matching_pools a b pools = filter (\<lambda>p. let pair = {toLowerCase (pl_base p), toLowerCase (pl_quote p)} in
     toLowerCase a \<in> pair \<and> toLowerCase b \<in> pair \<and> pl_liquidityUsd p \<noteq> None) pools"

text \<open>The newest of the pools, the earliest of equals.\<close>

definition freshest :: "pool \<Rightarrow> pool list \<Rightarrow> pool" where
  "freshest p ps = fold (\<lambda>p newest. if pl_observedAt p > pl_observedAt newest then p else newest) ps p"

text \<open>\<open>deepest\<close> is the order of the JavaScript numbers the liquidity strings parse to, an argument: the
  pools of the quoted venue, deepest first. An empty figure is no figure.\<close>

definition pair_liquidity ::
  "(pool list \<Rightarrow> pool list) \<Rightarrow> string \<Rightarrow> string \<Rightarrow> exec_quote \<Rightarrow> pool list result \<Rightarrow> stamped option" where
  "pair_liquidity deepest a b q answer = (case answer of
     Inl _ \<Rightarrow> None
   | Inr pools \<Rightarrow> (case matching_pools a b pools of
       [] \<Rightarrow> None
     | p # ps \<Rightarrow> if isAggregator (eq_protocol q)
         then (case sum_usd (map (\<lambda>p. the (pl_liquidityUsd p)) (p # ps)) of
             Inl _ \<Rightarrow> None
           | Inr tot \<Rightarrow> if tot \<le> 0 then None
               else Some \<lparr>sv_value = microsToUsd tot, sv_at = pl_observedAt (freshest p ps),
                 sv_source = pl_source (freshest p ps) @ '':'' @ nat_str (length (p # ps)) @ '' pools via '' @ eq_protocol q\<rparr>)
         else (case (case List.find (\<lambda>p. toLowerCase (pl_poolId p) = toLowerCase (eq_marketId q)) (p # ps) of
               Some p \<Rightarrow> Some p
             | None \<Rightarrow> (case deepest (filter (\<lambda>p. venueOf (case pl_dexId p of None \<Rightarrow> '''' | Some d \<Rightarrow> d) =
                 venueOf (eq_protocol q)) (p # ps)) of [] \<Rightarrow> None | p # _ \<Rightarrow> Some p)) of
             None \<Rightarrow> None
           | Some p \<Rightarrow> if the (pl_liquidityUsd p) = '''' then None
               else Some \<lparr>sv_value = the (pl_liquidityUsd p), sv_at = pl_observedAt p,
                 sv_source = pl_source p @ '':'' @ pl_poolId p\<rparr>)))"

section \<open>The proposal\<close>

record trade_request =
  pq_chain :: chain_id
  pq_mode :: mode
  pq_decisionCycleId :: string
  pq_source :: action_source
  pq_decision :: trade_decision
  pq_policy :: risk_policy

record built_proposal =
  bp_action :: proposed_action
  bp_quote :: exec_quote
  bp_snapshot :: market_snapshot
  bp_priceLookup :: price_lookup
  bp_prices :: trade_prices
  bp_side :: trade_side

datatype build_result = Not_built string | Built built_proposal

text \<open>What the builder is told, in the order it asks; the ledger and the clock at each point.\<close>

record build_answers =
  ba_fundingAt :: int
  ba_fundingLedger :: ledger_db
  ba_fundingBalances :: "balance_reading result"
  ba_pricesAt :: int
  ba_prices :: "string \<Rightarrow> price_check result"
  ba_ledger :: ledger_db
  ba_balancesAt :: int
  ba_balances :: "balance_reading result"
  ba_quote :: "exec_quote result"
  ba_pools :: "pool list result"
  ba_assembledAt :: int
  ba_actionId :: string

definition is_exit :: "trade_action \<Rightarrow> bool" where
  "is_exit a \<longleftrightarrow> a = REDUCE \<or> a = CLOSE"

text \<open>The funding stablecoin with the largest balance, the first of equals; an exit takes the first one.\<close>

fun best_funded :: "chain_id \<Rightarrow> (string \<rightharpoonup> stamped) \<Rightarrow> (token_allow_entry \<times> int) option \<Rightarrow> token_allow_entry list \<Rightarrow>
    (token_allow_entry \<times> int) option result" where
  "best_funded c bal best [] = Inr best"
| "best_funded c bal best (e # es) =
     sbind (case bal (balanceKey c (ta_address e)) of None \<Rightarrow> Inr 0 | Some r \<Rightarrow> amountToBigint (sv_value r)) (\<lambda>held.
       best_funded c bal (case best of None \<Rightarrow> Some (e, held)
         | Some (_, h) \<Rightarrow> if held > h then Some (e, held) else best) es)"

definition pickFundingToken ::
  "trade_request \<Rightarrow> token_allow_entry list \<Rightarrow> string \<Rightarrow> build_answers \<Rightarrow> token_allow_entry option result" where
  "pickFundingToken rq allowlist exclude ba =
     (case filter (\<lambda>e. STABLE_SYMBOLS (ta_symbol e) \<and> ta_address e \<noteq> exclude) allowlist of
        [] \<Rightarrow> Inr None
      | e # es \<Rightarrow> if is_exit (dn_action (pq_decision rq)) then Inr (Some e)
          else sbind (best_funded (pq_chain rq) (mode_balances (pq_mode rq) (ba_fundingAt ba) (ba_fundingLedger ba)
                 (pq_chain rq) (ba_fundingBalances ba) (map ta_address (e # es))) None (e # es)) (\<lambda>best.
               Inr (case best of None \<Rightarrow> None | Some (e, held) \<Rightarrow> if held > 0 then Some e else None)))"

definition side_of :: "trade_action \<Rightarrow> trade_side" where
  "side_of a = (case a of OPEN \<Rightarrow> Side_open | SWAP \<Rightarrow> Side_swap | REDUCE \<Rightarrow> Side_reduce | _ \<Rightarrow> Side_close)"

text \<open>USD at a price, in token units rounded down.\<close>

definition usdToTokenUnits :: "int \<Rightarrow> int \<Rightarrow> int \<Rightarrow> int result" where
  "usdToTokenUnits usdMicros decimals priceAtto = (if priceAtto \<le> 0 then Inr 0
     else floorDiv (usdMicros * bdiv PRICE_SCALE 1000000 * 10 ^ nat decimals) priceAtto)"

text \<open>The size in base units, or the reason there is none.\<close>

definition size_of ::
  "trade_request \<Rightarrow> ledger_db \<Rightarrow> token_allow_entry \<Rightarrow> string \<Rightarrow> (string + int) result" where
  "size_of rq lg tin priceIn = (let d = pq_decision rq;
       wanted = sbind (usdToMicros (dn_requestedNotionalUsd d)) (\<lambda>usd.
         sbind (priceToAtto priceIn) (\<lambda>p. usdToTokenUnits usd (ta_decimals tin) p));
       position = getPosition lg (pq_mode rq, pq_chain rq, ta_address tin)
     in if dn_action d = CLOSE then (case position of
          None \<Rightarrow> Inr (Inl ''CLOSE without an open position'')
        | Some r \<Rightarrow> sbind (amountToBigint (pr_amount r)) (\<lambda>held. Inr (Inr held)))
     else if dn_action d = REDUCE then (case position of
          None \<Rightarrow> Inr (Inl ''REDUCE without an open position'')
        | Some r \<Rightarrow> sbind wanted (\<lambda>wanted. sbind (amountToBigint (pr_amount r)) (\<lambda>held.
            Inr (Inr (if wanted > held then held else wanted)))))
     else sbind wanted (\<lambda>wanted. Inr (Inr wanted)))"

definition ref_of :: "token_allow_entry \<Rightarrow> token_ref" where
  "ref_of e = \<lparr>tr_address = ta_address e, tr_decimals = ta_decimals e\<rparr>"

text \<open>The candidate before its idempotency key is derived.\<close>

definition swap_candidate ::
  "trade_request \<Rightarrow> build_answers \<Rightarrow> exec_quote \<Rightarrow> token_ref \<Rightarrow> token_ref \<Rightarrow> int \<Rightarrow> proposed_action" where
  "swap_candidate rq ba q tin tout amount = \<lparr>a_schemaVersion = 1, actionId = ba_actionId ba,
     decisionCycleId = pq_decisionCycleId rq, idempotencyKey = replicate 64 CHR ''0'', proposedAt = ba_assembledAt ba,
     a_mode = pq_mode rq, a_source = pq_source rq, a_chain = pq_chain rq, a_kind = Swap, a_protocol = eq_protocol q,
     a_contract = eq_contract q,
     programIds = (if pq_chain rq = Solana then Some (case eq_programIds q of None \<Rightarrow> [] | Some ids \<Rightarrow> ids) else None),
     reduceOnly = is_exit (dn_action (pq_decision rq)), tokenIn = tin, tokenOut = tout, amountIn = int_str amount,
     a_quote = Some \<lparr>expectedAmountOut = eq_expectedAmountOut q, minAmountOut = eq_minAmountOut q,
       slippageBps = eq_slippageBps q, priceImpactBps = eq_priceImpactBps q, quotedAt = eq_quotedAt q,
       q_source = eq_source q, marketId = eq_marketId q\<rparr>,
     fee_estimatedAt = eq_fee_estimatedAt q, fee_detail = eq_fee_detail q, a_lp = None,
     rationale = Some (take 2000 (dn_reason (pq_decision rq)))\<rparr>"

definition swap_snapshot ::
  "chain_id \<Rightarrow> exec_quote \<Rightarrow> (string \<times> stamped) list \<Rightarrow> stamped option \<Rightarrow> (string \<rightharpoonup> stamped) \<Rightarrow> market_snapshot" where
  "swap_snapshot c q priced liq bal = \<lparr>prices = fold (\<lambda>(token, p) m. m(priceKey c token \<mapsto> p)) priced Map.empty,
     liquidity = (case liq of None \<Rightarrow> Map.empty | Some l \<Rightarrow> [liquidityKey c (eq_marketId q) \<mapsto> l]),
     balances = bal, poolLiquidity = Map.empty, snap_lp = None\<rparr>"

definition native_token :: "chain_id \<Rightarrow> string" where
  "native_token c = (case List.find (\<lambda>k. isNativeToken c (ti_address k)) (ci_tokens (CHAINS c)) of
     Some k \<Rightarrow> ti_address k | None \<Rightarrow> '''')"

definition assemble ::
  "externals \<Rightarrow> (pool list \<Rightarrow> pool list) \<Rightarrow> trade_request \<Rightarrow> build_answers \<Rightarrow> token_allow_entry \<Rightarrow> token_allow_entry \<Rightarrow>
     stamped \<Rightarrow> stamped \<Rightarrow> stamped \<Rightarrow> int \<Rightarrow> exec_quote \<Rightarrow> build_result result" where
  "assemble X deepest rq ba tin tout priceIn priceOut priceNative amount q =
     (let c = pq_chain rq; native = native_token c;
          candidate = swap_candidate rq ba q (ref_of tin) (ref_of tout) amount;
          act = candidate\<lparr>idempotencyKey := deriveIdempotencyKey X candidate\<rparr>;
          liq = pair_liquidity deepest (ta_address tin) (ta_address tout) q (ba_pools ba);
          bal = mode_balances (pq_mode rq) (ba_balancesAt ba) (ba_ledger ba) c (ba_balances ba) [ta_address tin, native]
      in sbind (schema_parse X act) (\<lambda>issues. Inr (case issues of
        (path, m) # _ \<Rightarrow> Not_built (''internal: proposal failed schema ('' @ path @ '': '' @ m @ '')'')
      | [] \<Rightarrow> Built \<lparr>bp_action = act, bp_quote = q,
          bp_snapshot = swap_snapshot c q [(ta_address tin, priceIn), (ta_address tout, priceOut), (native, priceNative)] liq bal,
          bp_priceLookup = (\<lambda>c' token. if c' = c
            then map_option sv_value (if token \<in> {ta_address tin, ta_address tout, native}
              then stamped_price (ba_pricesAt ba) (ba_prices ba token) else None) else None),
          bp_prices = \<lparr>tp_tokenInUsd = sv_value priceIn, tp_tokenOutUsd = sv_value priceOut, tp_nativeUsd = sv_value priceNative\<rparr>,
          bp_side = side_of (dn_action (pq_decision rq))\<rparr>)))"

definition build_proposal ::
  "externals \<Rightarrow> (app_error \<Rightarrow> string) \<Rightarrow> (pool list \<Rightarrow> pool list) \<Rightarrow> trade_request \<Rightarrow> build_answers \<Rightarrow> build_result result" where
  "build_proposal X msg deepest rq ba = (let d = pq_decision rq; c = pq_chain rq in
     case dn_token d of
       None \<Rightarrow> Inr (Not_built ''nothing to build for NO_ACTION'')
     | Some token \<Rightarrow> if dn_action d = NO_ACTION \<or> token = '''' then Inr (Not_built ''nothing to build for NO_ACTION'') else
       (case List.find (\<lambda>e. ta_address e = token) (allowlisted_tokens (pq_policy rq) c) of
          None \<Rightarrow> Inr (Not_built (token @ '' is not allowlisted on '' @ chain_str c))
        | Some named \<Rightarrow> if isNativeToken c (ta_address named)
            then Inr (Not_built ''native-coin legs are not supported in this build'') else
          sbind (pickFundingToken rq (allowlisted_tokens (pq_policy rq) c) (ta_address named) ba) (\<lambda>funding. case funding of
            None \<Rightarrow> Inr (Not_built (''no allowlisted stablecoin with a balance on '' @ chain_str c @ '' to fund the trade''))
          | Some funding \<Rightarrow>
              let tin = (if is_exit (dn_action d) then named else funding);
                  tout = (if is_exit (dn_action d) then funding else named);
                  priced = (\<lambda>token. stamped_price (ba_pricesAt ba) (ba_prices ba token)) in
              (case priced (ta_address tin) of None \<Rightarrow> Inr (Not_built ''no reliable USD price for tokenIn'')
               | Some priceIn \<Rightarrow> (case priced (ta_address tout) of None \<Rightarrow> Inr (Not_built ''no reliable USD price for tokenOut'')
               | Some priceOut \<Rightarrow> (case priced (native_token c) of None \<Rightarrow> Inr (Not_built ''no reliable USD price for native'')
               | Some priceNative \<Rightarrow>
                   sbind (size_of rq (ba_ledger ba) tin (sv_value priceIn)) (\<lambda>size. case size of
                     Inl reason \<Rightarrow> Inr (Not_built reason)
                   | Inr amount \<Rightarrow> if amount \<le> 0 then Inr (Not_built ''requested size rounds to zero base units'')
                       else (case ba_quote ba of
                         Inl e \<Rightarrow> Inr (Not_built (''quote failed: '' @ msg e))
                       | Inr q \<Rightarrow> assemble X deepest rq ba tin tout priceIn priceOut priceNative amount q))))))))"


end
