(* ===== verification/Pipeline.thy ===== *)
theory Pipeline
  imports Trader Live_Executor
begin

text \<open>
  \<open>src/runtime/src/trading/pipeline.ts\<close>: one auto-trade cycle. The cycle is a coroutine, modelled like the
  executor's calls: a segment per await, each returning the database with the next stage, the final report or
  the rejection. Research, the trader's decision, the proposal, the allowance and the approval's fee
  estimate are answers; the identifiers and the wallet are arguments. The detail documents of audit rows, the
  notes and the durations are not modelled; a cycle's subscribers cannot change its result and are left out.
\<close>

record cycle_request =
  cr_chain :: chain_id
  cr_source :: action_source

datatype cycle_outcome = Cyc_blocked | Cyc_skipped | Cyc_no_action | Cyc_rejected | Cyc_filled | Cyc_failed

fun outcome_str :: "cycle_outcome \<Rightarrow> string" where
  "outcome_str Cyc_blocked = ''blocked''"
| "outcome_str Cyc_skipped = ''skipped''"
| "outcome_str Cyc_no_action = ''no action''"
| "outcome_str Cyc_rejected = ''rejected''"
| "outcome_str Cyc_filled = ''filled''"
| "outcome_str Cyc_failed = ''failed''"

record cycle_base =
  cb_cycleId :: string
  cb_request :: cycle_request
  cb_mode :: mode
  cb_policy :: risk_policy

type_synonym trade_ref = "string \<times> string"

record risk_ref =
  rk_allowed :: bool
  rk_code :: "rejection_code option"
  rk_reason :: string

record cycle_report =
  cy_cycleId :: string
  cy_mode :: mode
  cy_outcome :: cycle_outcome
  cy_reason :: string
  cy_trade :: "trade_ref option"
  cy_risk :: "risk_ref option"
  cy_execution :: "exec_outcome option"

datatype cycle_stage =
    Cy_research
  | Cy_prices string
  | Cy_trader string
  | Cy_build string trade_decision
  | Cy_allowance built_proposal string
  | Cy_approve_fee built_proposal string int
  | Cy_approving built_proposal string trade_ref risk_ref live_call
  | Cy_executing trade_ref risk_ref live_call

datatype cycle_progress = Cycle cycle_base cycle_stage | Ended cycle_report | Cycle_raised app_error

section \<open>Endings\<close>

definition ending :: "cycle_base \<Rightarrow> cycle_outcome \<Rightarrow> string \<Rightarrow> cycle_report" where
  "ending b outcome reason = \<lparr>cy_cycleId = cb_cycleId b, cy_mode = cb_mode b, cy_outcome = outcome, cy_reason = reason,
     cy_trade = None, cy_risk = None, cy_execution = None\<rparr>"

definition end_event :: "cycle_request \<Rightarrow> cycle_report \<Rightarrow> audit_event" where
  "end_event rq r = \<lparr>ae_category = Cat_trade, ae_action = ''trade.cycle'',
     ae_status = (case cy_outcome r of Cyc_filled \<Rightarrow> Au_ok | Cyc_failed \<Rightarrow> Au_failed | Cyc_rejected \<Rightarrow> Au_rejected | _ \<Rightarrow> Au_hold),
     ae_summary = ''Cycle '' @ outcome_str (cy_outcome r) @ '': '' @ take 200 (cy_reason r), ae_chain = Some (cr_chain rq),
     ae_actor = (if cr_source rq = Src_operator then ''operator'' else ''scheduler''), ae_mode = Some (cy_mode r),
     ae_correlationId = Some (cy_cycleId r)\<rparr>"

definition end_cycle ::
  "int \<Rightarrow> cycle_request \<Rightarrow> cycle_report \<Rightarrow> 'a trade_db_scheme \<Rightarrow> 'a trade_db_scheme \<times> cycle_progress" where
  "end_cycle t rq r db = (audit_append t (end_event rq r) db, Ended r)"

text \<open>A second cycle while one runs is refused; nothing is written.\<close>

definition busy_report :: "string \<Rightarrow> 'a state_db_scheme \<Rightarrow> cycle_report" where
  "busy_report uuid db = \<lparr>cy_cycleId = uuid, cy_mode = getMode db, cy_outcome = Cyc_blocked,
     cy_reason = ''a cycle is already running'', cy_trade = None, cy_risk = None, cy_execution = None\<rparr>"

section \<open>Up to the proposal\<close>

definition cycle_start ::
  "gate_env \<Rightarrow> int \<Rightarrow> string \<Rightarrow> cycle_request \<Rightarrow> string result \<Rightarrow> 'a trade_db_scheme \<Rightarrow> 'a trade_db_scheme \<times> cycle_progress" where
  "cycle_start E t cycleId rq wallet db =
     (let m = getMode db; sw = getSwitches db;
          stop = (\<lambda>outcome reason. end_cycle t rq \<lparr>cy_cycleId = cycleId, cy_mode = m, cy_outcome = outcome,
            cy_reason = reason, cy_trade = None, cy_risk = None, cy_execution = None\<rparr> db)
      in if sw_emergencyStop sw then stop Cyc_blocked ''emergency stop is active''
      else if sw_globalPause sw then stop Cyc_blocked ''runtime is paused''
      else if \<not> policy_exists db then stop Cyc_blocked ''no risk policy is configured''
      else case policy_getWithHash E db of
        Inl e \<Rightarrow> (db, Cycle_raised e)
      | Inr (p, _) \<Rightarrow>
          if cr_chain rq \<notin> set (enabledChains p)
          then stop Cyc_skipped (chain_str (cr_chain rq) @ '' is not enabled in the policy'')
          else case wallet of
            Inl _ \<Rightarrow> stop Cyc_skipped ''create the agent wallets before running a cycle''
          | Inr _ \<Rightarrow> (db, Cycle \<lparr>cb_cycleId = cycleId, cb_request = rq, cb_mode = m, cb_policy = p\<rparr> Cy_research))"

definition cycle_marked ::
  "int \<Rightarrow> cycle_base \<Rightarrow> string \<Rightarrow> price_lookup \<Rightarrow> 'a trade_db_scheme \<Rightarrow> 'a trade_db_scheme \<times> cycle_progress" where
  "cycle_marked t b research price db = (db, case mark (gd_ledger db) t (cb_mode b) price of
     Inl e \<Rightarrow> Cycle_raised e | Inr _ \<Rightarrow> Cycle b (Cy_trader research))"

definition decision_event :: "cycle_base \<Rightarrow> trade_decision \<Rightarrow> audit_event" where
  "decision_event b d = \<lparr>ae_category = Cat_trade, ae_action = ''trade.decision'',
     ae_status = (if dn_action d = NO_ACTION then Au_hold else Au_ok),
     ae_summary = (if dn_action d = NO_ACTION then ''Trader: NO ACTION - '' @ take 160 (dn_reason d)
       else ''Trader proposes '' @ trade_action_str (dn_action d) @ '' '' @ (case dn_token d of Some k \<Rightarrow> k | None \<Rightarrow> '''') @
         '' for '' @ dn_requestedNotionalUsd d @ '' USD''),
     ae_chain = Some (cr_chain (cb_request b)), ae_actor = ''agent:trader'', ae_mode = Some (cb_mode b),
     ae_correlationId = Some (cb_cycleId b)\<rparr>"

definition cycle_decided ::
  "int \<Rightarrow> cycle_base \<Rightarrow> string \<Rightarrow> trade_decision \<Rightarrow> 'a trade_db_scheme \<Rightarrow> 'a trade_db_scheme \<times> cycle_progress" where
  "cycle_decided t b research d db = (let rq = cb_request b; db = audit_append t (decision_event b d) db in
     if dn_action d = NO_ACTION then end_cycle t rq (ending b Cyc_no_action (dn_reason d)) db
     else if cr_chain rq \<notin> set adapter_chains
     then end_cycle t rq (ending b Cyc_skipped (snd (executable_status (cr_chain rq)))) db
     else (db, Cycle b (Cy_build research d)))"

section \<open>The gate and the executor\<close>

definition verdict_event :: "cycle_base \<Rightarrow> mode \<Rightarrow> proposed_action \<Rightarrow> risk_decision \<Rightarrow> audit_event" where
  "verdict_event b m act v = (let c = cr_chain (cb_request b) in
     \<lparr>ae_category = Cat_risk, ae_action = (if allowed v then ''risk.allowed'' else ''risk.rejected''),
      ae_status = (if allowed v then Au_ok else Au_rejected),
      ae_summary = (if allowed v
        then ''Risk engine allowed '' @ kind_str (a_kind act) @ '' on '' @ chain_str c @ '' ('' @
          (case derived v of Some x \<Rightarrow> risk_derived.amountInUsd x | None \<Rightarrow> ''?'') @ '' USD)''
        else ''Risk engine rejected '' @ kind_str (a_kind act) @ '' on '' @ chain_str c @ '': '' @
          (case d_code v of Some k \<Rightarrow> rejection_str k | None \<Rightarrow> ''null'') @ '' - '' @ take 160 (d_reason v)),
      ae_chain = Some c, ae_actor = ''risk-engine'', ae_mode = Some m, ae_correlationId = Some (cb_cycleId b)\<rparr>)"

text \<open>Propose the row, ask the gate, apply the verdict: the synchronous step both kinds of action share.\<close>

definition submit ::
  "gate_env \<Rightarrow> int \<Rightarrow> string \<Rightarrow> cycle_base \<Rightarrow> mode \<Rightarrow> proposed_action \<Rightarrow> market_snapshot \<Rightarrow> price_lookup \<Rightarrow> trade_side \<Rightarrow>
     string option \<Rightarrow> (string \<times> route_value) list \<Rightarrow> 'a trade_db_scheme \<Rightarrow> 'a trade_db_scheme \<times> risk_decision result" where
  "submit E t i b m act snap price side research route db =
     (case trade_propose i t act side research route db of
        Inl e \<Rightarrow> (db, Inl e)
      | Inr (db, _) \<Rightarrow> (case decide E t act snap price db of
          (db, Inl e) \<Rightarrow> (db, Inl e)
        | (db, Inr v) \<Rightarrow> (case trade_decide t i v db of
            Inl e \<Rightarrow> (db, Inl e)
          | Inr (db, _) \<Rightarrow> (audit_append t (verdict_event b m act v) db, Inr v))))"

definition risk_ref_of :: "risk_decision \<Rightarrow> risk_ref" where
  "risk_ref_of v = \<lparr>rk_allowed = allowed v, rk_code = d_code v, rk_reason = d_reason v\<rparr>"

definition code_text :: "rejection_code option \<Rightarrow> string" where
  "code_text k = (case k of Some k \<Rightarrow> rejection_str k | None \<Rightarrow> ''null'')"

definition executed_report :: "cycle_base \<Rightarrow> trade_ref \<Rightarrow> risk_ref \<Rightarrow> exec_outcome \<Rightarrow> cycle_report" where
  "executed_report b tr rk x = (ending b (if oc_filled x then Cyc_filled else Cyc_failed)
     (if oc_filled x then mode_str (cb_mode b) @ '' fill: '' @ (case oc_amountOut x of Some a \<Rightarrow> a | None \<Rightarrow> ''?'') @ '' received''
      else (case oc_error x of Some e \<Rightarrow> e | None \<Rightarrow> ''execution failed'')))
     \<lparr>cy_trade := Some tr, cy_risk := Some rk, cy_execution := Some x\<rparr>"

text \<open>What the live executor's progress means for the cycle that awaits it.\<close>

definition executing ::
  "int \<Rightarrow> cycle_base \<Rightarrow> trade_ref \<Rightarrow> risk_ref \<Rightarrow> 'a trade_db_scheme \<times> live_progress \<Rightarrow> 'a trade_db_scheme \<times> cycle_progress" where
  "executing t b tr rk = (\<lambda>(db, p). case p of
     Waiting call \<Rightarrow> (db, Cycle b (Cy_executing tr rk call))
   | Finished x \<Rightarrow> end_cycle t (cb_request b) (executed_report b tr rk x) db
   | Raised e \<Rightarrow> (db, Cycle_raised e))"

definition cycle_swap ::
  "gate_env \<Rightarrow> exec_env \<Rightarrow> int \<Rightarrow> uuids \<Rightarrow> cycle_base \<Rightarrow> built_proposal \<Rightarrow> string option \<Rightarrow> 'a trade_db_scheme \<Rightarrow>
     'a trade_db_scheme \<times> cycle_progress" where
  "cycle_swap E W t u b p research db = (let act = bp_action p; q = bp_quote p; i = ui_trade u in
     case submit E t i b (cb_mode b) act (bp_snapshot p) (bp_priceLookup p) (bp_side p) research
         [(''protocol'', Route_text (eq_protocol q)), (''source'', Route_text (eq_source q)),
          (''marketId'', Route_text (eq_marketId q))] db of
       (db, Inl e) \<Rightarrow> (db, Cycle_raised e)
     | (db, Inr v) \<Rightarrow> let tr = (i, actionId act); rk = risk_ref_of v in
         if \<not> allowed v
         then end_cycle t (cb_request b) ((ending b Cyc_rejected (code_text (d_code v) @ '': '' @ d_reason v))
           \<lparr>cy_trade := Some tr, cy_risk := Some rk\<rparr>) db
         else if cb_mode b = PAPER
         then (case paper_execute (xe_message W) t (ui_position u) (ui_fill u) i act q (bp_prices p) db of
             (db, Inl e) \<Rightarrow> (db, Cycle_raised e)
           | (db, Inr x) \<Rightarrow> end_cycle t (cb_request b) (executed_report b tr rk x) db)
         else executing t b tr rk (live_execute t i act q (bp_prices p) db))"

section \<open>The allowance\<close>

text \<open>Jupiter has no allowance; both EVM routers do.\<close>

definition not_built_event :: "cycle_base \<Rightarrow> string \<Rightarrow> audit_event" where
  "not_built_event b reason = \<lparr>ae_category = Cat_trade, ae_action = ''trade.proposal'', ae_status = Au_hold,
     ae_summary = ''Proposal not built: '' @ reason, ae_chain = Some (cr_chain (cb_request b)), ae_actor = ''system'',
     ae_mode = Some (cb_mode b), ae_correlationId = Some (cb_cycleId b)\<rparr>"

definition cycle_built ::
  "gate_env \<Rightarrow> exec_env \<Rightarrow> int \<Rightarrow> uuids \<Rightarrow> cycle_base \<Rightarrow> string \<Rightarrow> build_result result \<Rightarrow> 'a trade_db_scheme \<Rightarrow>
     'a trade_db_scheme \<times> cycle_progress" where
  "cycle_built E W t u b research answer db = (case answer of
     Inl e \<Rightarrow> (db, Cycle_raised e)
   | Inr (Not_built reason) \<Rightarrow>
       end_cycle t (cb_request b) (ending b Cyc_skipped reason) (audit_append t (not_built_event b reason) db)
   | Inr (Built p) \<Rightarrow> if cb_mode b = LIVE \<and> chainFamily (cr_chain (cb_request b)) = Evm
       then (db, Cycle b (Cy_allowance p research))
       else cycle_swap E W t u b p (Some research) db)"

definition cycle_allowance ::
  "gate_env \<Rightarrow> exec_env \<Rightarrow> int \<Rightarrow> uuids \<Rightarrow> cycle_base \<Rightarrow> built_proposal \<Rightarrow> string \<Rightarrow> int result \<Rightarrow> 'a trade_db_scheme \<Rightarrow>
     'a trade_db_scheme \<times> cycle_progress" where
  "cycle_allowance E W t u b p research answer db = (case amountToBigint (amountIn (bp_action p)) of
     Inl e \<Rightarrow> (db, Cycle_raised e)
   | Inr needed \<Rightarrow> (case answer of
       Inl e \<Rightarrow> end_cycle t (cb_request b) (ending b Cyc_skipped (''allowance read failed: '' @ xe_message W e)) db
     | Inr current \<Rightarrow> if current \<ge> needed then cycle_swap E W t u b p (Some research) db
         else (db, Cycle b (Cy_approve_fee p research needed))))"

definition approve_candidate ::
  "int \<Rightarrow> string \<Rightarrow> cycle_base \<Rightarrow> built_proposal \<Rightarrow> int \<Rightarrow> int \<times> fee_detail \<Rightarrow> proposed_action" where
  "approve_candidate t uuid b p needed fee = \<lparr>a_schemaVersion = 1, actionId = uuid, decisionCycleId = cb_cycleId b,
     idempotencyKey = replicate 64 CHR ''0'', proposedAt = t, a_mode = LIVE, a_source = cr_source (cb_request b),
     a_chain = cr_chain (cb_request b), a_kind = Approve, a_protocol = a_protocol (bp_action p),
     a_contract = a_contract (bp_action p), programIds = None, reduceOnly = False, tokenIn = tokenIn (bp_action p),
     tokenOut = tokenIn (bp_action p), amountIn = int_str needed, a_quote = None, fee_estimatedAt = fst fee,
     fee_detail = snd fee, a_lp = None,
     rationale = Some (''exact approval of '' @ int_str needed @ '' for the swap that follows'')\<rparr>"

text \<open>The approval sees the prices and balances of the swap it precedes, of its token and the native coin only.\<close>

definition approve_snapshot :: "cycle_base \<Rightarrow> built_proposal \<Rightarrow> market_snapshot" where
  "approve_snapshot b p = (let c = cr_chain (cb_request b);
       keep = (\<lambda>key. {key c (tr_address (tokenIn (bp_action p))), key c (ci_nativeSentinel (CHAINS c))})
     in \<lparr>prices = prices (bp_snapshot p) |` keep priceKey, liquidity = Map.empty,
         balances = balances (bp_snapshot p) |` keep balanceKey, poolLiquidity = Map.empty, snap_lp = None\<rparr>)"

definition cycle_approve ::
  "gate_env \<Rightarrow> exec_env \<Rightarrow> int \<Rightarrow> uuids \<Rightarrow> string result \<Rightarrow> unsigned_transaction \<Rightarrow> cycle_base \<Rightarrow> built_proposal \<Rightarrow> string \<Rightarrow>
     int \<Rightarrow> (int \<times> fee_detail) result \<Rightarrow> 'a trade_db_scheme \<Rightarrow> 'a trade_db_scheme \<times> cycle_progress" where
  "cycle_approve E W t u wallet tx b p research needed answer db = (let rq = cb_request b; i = ui_trade u in
     case answer of
       Inl e \<Rightarrow> end_cycle t rq (ending b Cyc_skipped (''approval fee estimate failed: '' @ xe_message W e)) db
     | Inr fee \<Rightarrow> (let candidate = approve_candidate t (ui_action u) b p needed fee;
           act = candidate\<lparr>idempotencyKey := deriveIdempotencyKey (ge_externals E) candidate\<rparr> in
         case schema_parse (ge_externals E) act of
           Inl e \<Rightarrow> (db, Cycle_raised e)
         | Inr ((path, m) # _) \<Rightarrow> end_cycle t rq (ending b Cyc_skipped (''internal: approval failed schema ('' @ m @ '')'')) db
         | Inr [] \<Rightarrow> (case submit E t i b LIVE act (approve_snapshot b p) (bp_priceLookup p) Side_approve None
               [(''protocol'', Route_text (a_protocol act))] db of
             (db, Inl e) \<Rightarrow> (db, Cycle_raised e)
           | (db, Inr v) \<Rightarrow> let tr = (i, actionId act); rk = risk_ref_of v in
               if \<not> allowed v
               then end_cycle t rq ((ending b Cyc_rejected (''approval '' @ code_text (d_code v) @ '': '' @ d_reason v))
                 \<lparr>cy_trade := Some tr, cy_risk := Some rk\<rparr>) db
               else (case live_executeApprove t wallet i act tx (tp_nativeUsd (bp_prices p)) db of
                   (db, Waiting call) \<Rightarrow> (db, Cycle b (Cy_approving p research tr rk call))
                 | (db, Finished x) \<Rightarrow> end_cycle t rq ((ending b Cyc_failed (''approval failed: '' @
                     (case oc_error x of Some e \<Rightarrow> e | None \<Rightarrow> ''unknown''))) \<lparr>cy_trade := Some tr, cy_risk := Some rk,
                       cy_execution := Some x\<rparr>) db
                 | (db, Raised e) \<Rightarrow> (db, Cycle_raised e)))))"

section \<open>The coroutine\<close>

datatype cycle_answer =
    An_research "string result"
  | An_prices price_lookup
  | An_trader trade_decision
  | An_build "build_result result"
  | An_allowance "int result"
  | An_approve_fee "(int \<times> fee_detail) result" unsigned_transaction
  | An_live live_answer

text \<open>A finished approval goes on to the swap only when it was filled.\<close>

definition cycle_approved ::
  "gate_env \<Rightarrow> exec_env \<Rightarrow> int \<Rightarrow> uuids \<Rightarrow> cycle_base \<Rightarrow> built_proposal \<Rightarrow> string \<Rightarrow> trade_ref \<Rightarrow> risk_ref \<Rightarrow> exec_outcome \<Rightarrow>
     'a trade_db_scheme \<Rightarrow> 'a trade_db_scheme \<times> cycle_progress" where
  "cycle_approved E W t u b p research tr rk x db = (if oc_filled x then cycle_swap E W t u b p (Some research) db
     else end_cycle t (cb_request b) ((ending b Cyc_failed (''approval failed: '' @
         (case oc_error x of Some e \<Rightarrow> e | None \<Rightarrow> ''unknown''))) \<lparr>cy_trade := Some tr, cy_risk := Some rk,
           cy_execution := Some x\<rparr>) db)"

definition cycle_resume ::
  "gate_env \<Rightarrow> exec_env \<Rightarrow> int \<Rightarrow> uuids \<Rightarrow> keys \<Rightarrow> cycle_base \<Rightarrow> cycle_stage \<Rightarrow> cycle_answer \<Rightarrow> 'a trade_db_scheme \<Rightarrow>
     'a trade_db_scheme \<times> cycle_progress" where
  "cycle_resume E W t u ky b st answer db = (case (st, answer) of
     (Cy_research, An_research r) \<Rightarrow> (db, case r of Inl e \<Rightarrow> Cycle_raised e | Inr research \<Rightarrow> Cycle b (Cy_prices research))
   | (Cy_prices research, An_prices price) \<Rightarrow> cycle_marked t b research price db
   | (Cy_trader research, An_trader d) \<Rightarrow> cycle_decided t b research d db
   | (Cy_build research d, An_build r) \<Rightarrow> cycle_built E W t u b research r db
   | (Cy_allowance p research, An_allowance r) \<Rightarrow> cycle_allowance E W t u b p research r db
   | (Cy_approve_fee p research needed, An_approve_fee r tx) \<Rightarrow>
       cycle_approve E W t u (ky_wallet ky) tx b p research needed r db
   | (Cy_approving p research tr rk call, An_live r) \<Rightarrow> (case live_resume W t u ky call r db of
       (db, Waiting call) \<Rightarrow> (db, Cycle b (Cy_approving p research tr rk call))
     | (db, Finished x) \<Rightarrow> cycle_approved E W t u b p research tr rk x db
     | (db, Raised e) \<Rightarrow> (db, Cycle_raised e))
   | (Cy_executing tr rk call, An_live r) \<Rightarrow> executing t b tr rk (live_resume W t u ky call r db)
   | _ \<Rightarrow> (db, Cycle b st))"

end
