(* ===== verification/Exec_Props.thy ===== *)
theory Exec_Props
  imports Trade_Props Pipeline
begin

text \<open>
  The trading machine: cycles, the gate and everything else that writes the database, the liquidity
  executor's rows, reconciliation, and crashes. It interleaves the segments of the running cycle
  with all of it. The theorems are what the executor promises: a trade is signed for at most once, only after
  the gate allowed exactly that action and while the switches permit it, and its hash is on the row before
  the network sees it and stays there.
\<close>

section \<open>The gate does not touch the trades\<close>

lemma gate_evaluate_trades:
  "gate_evaluate E t act snap price (db :: 'a trade_db_scheme) = (db', r) \<Longrightarrow> xd_trades db' = xd_trades db"
  by (drule gate_evaluate_writes) (auto simp: anchor_only_def)

lemma persist_trades:
  "persist t act snap d (db :: 'a trade_db_scheme) = Inr db' \<Longrightarrow> xd_trades db' = xd_trades db"
  by (auto simp: persist_def insertDecision_def audit_append_def split: if_splits)

lemma prune_trades [simp]: "xd_trades (pruneExpired t (db :: 'a trade_db_scheme)) = xd_trades db"
  by (simp add: pruneExpired_def)

lemma decide_trades:
  assumes "decide E t act snap price (db :: 'a trade_db_scheme) = (db', r)"
  shows "xd_trades db' = xd_trades db"
proof (cases "findByIdempotencyKey (pruneExpired t db) (idempotencyKey act)")
  case (Some row)
  then show ?thesis using assms by (auto simp: decide_replay)
next
  case None
  obtain db1 r1 where ev: "gate_evaluate E t act snap price (pruneExpired t db) = (db1, r1)" by fastforce
  from gate_evaluate_trades [OF ev] show ?thesis
    using assms None ev by (auto simp: decide_def Let_def split: sum.splits dest: persist_trades)
qed

lemma same_trades: "xd_trades db' = xd_trades db \<Longrightarrow> getTrade db' = getTrade db"
  by (simp add: fun_eq_iff getTrade_def)

text \<open>An allowed verdict is not a replay, so it was stored.\<close>

lemma decide_stores:
  assumes "decide E t act snap price db = (db', Inr v)" "allowed v"
  shows "\<exists>row \<in> set (gd_decisions db'). dr_action row = act \<and> dr_decision row = v"
proof -
  have "findByIdempotencyKey (pruneExpired t db) (idempotencyKey act) = None"
    using assms by (cases "findByIdempotencyKey (pruneExpired t db) (idempotencyKey act)") (auto simp: decide_replay)
  with assms(1) obtain db1 where "persist t act snap v db1 = Inr db'" by (rule decide_fresh)
  then show ?thesis by (auto dest!: persist_frame(1))
qed

lemma state_step_trades: "state_step (db :: 'a trade_db_scheme) ev db' \<Longrightarrow> xd_trades db' = xd_trades db"
  using state_step_auth [of db ev db'] by (cases db; cases db') simp

lemma updatePolicy_trades:
  "updatePolicy E t candidate actor (db :: 'a trade_db_scheme) = Inr (db', p) \<Longrightarrow> xd_trades db' = xd_trades db"
  by (auto simp: updatePolicy_def sbind_eq_Inr on_policy_changed_def policy_write_def
        revertToPaper_def setMode_def resetChecklist_def audit_append_def Let_def split: if_splits)

lemma gate_step_trades:
  assumes "gate_step E (db :: 'a trade_db_scheme) ev db'"
  shows "xd_trades db' = xd_trades db"
  using assms
proof cases
  case (decided t act snap price r)
  then show ?thesis by (auto dest: decide_trades)
next
  case (previewed t act snap price r)
  then show ?thesis by (auto simp: preview_def dest: gate_evaluate_trades)
next
  case (policy_changed t candidate actor p)
  then show ?thesis by (auto dest: updatePolicy_trades)
next
  case (store e t)
  then show ?thesis by (auto dest: state_step_trades)
qed (auto simp: markDispatched_def policy_initialize_def policy_write_def audit_append_def sign_in_writes_def
      split: if_splits option.splits)

section \<open>Rows over time\<close>

definition evolves :: "'a trade_db_scheme \<Rightarrow> 'a trade_db_scheme \<Rightarrow> bool" where
  "evolves db db' \<longleftrightarrow> (\<forall>i r. getTrade db i = Some r \<longrightarrow> (\<exists>r'. getTrade db' i = Some r' \<and> row_evolves r r'))"

lemma evolves_same: "getTrade db' = getTrade db \<Longrightarrow> evolves db db'"
  by (simp add: evolves_def)

lemma evolves_get: "evolves db db' \<Longrightarrow> getTrade db i = Some r \<Longrightarrow> \<exists>r'. getTrade db' i = Some r' \<and> row_evolves r r'"
  by (simp add: evolves_def)

lemma evolves_comp:
  assumes "evolves db db1" "evolves db1 db2"
  shows "evolves db db2"
  unfolding evolves_def
proof (intro allI impI)
  fix i r assume "getTrade db i = Some r"
  then obtain r1 where r1: "getTrade db1 i = Some r1" "row_evolves r r1" using evolves_get [OF assms(1)] by blast
  then obtain r2 where "getTrade db2 i = Some r2" "row_evolves r1 r2" using evolves_get [OF assms(2)] by blast
  with r1 show "\<exists>r'. getTrade db2 i = Some r' \<and> row_evolves r r'" by (blast intro: evolves_trans)
qed

lemma only_evolves:
  assumes "only_trade i db db'"
  shows "evolves db db'"
  unfolding evolves_def
proof (intro allI impI)
  fix k r assume "getTrade db k = Some r"
  then show "\<exists>r'. getTrade db' k = Some r' \<and> row_evolves r r'"
    using assms by (cases "k = i") (auto simp: only_trade_def)
qed

lemma new_evolves: "getTrade db i = None \<Longrightarrow> \<forall>k. k \<noteq> i \<longrightarrow> getTrade db' k = getTrade db k \<Longrightarrow> evolves db db'"
  unfolding evolves_def by (metis evolves_refl option.distinct(1))

text \<open>A new row with a key not in the table.\<close>

lemma propose_spec:
  assumes "trade_propose i t act side research route db = Inr (db', r)"
  shows "getTrade db i = None" "r = trade_of i t act side research route"
    "getTrade db' = (\<lambda>k. if k = i then Some r else getTrade db k)" "gd_decisions db' = gd_decisions db"
    "sd_installation db' = sd_installation db" "sd_switches db' = sd_switches db" "sd_activation db' = sd_activation db"
proof -
  have p: "i \<notin> td_id ` set (xd_trades db)" "r = trade_of i t act side research route" "db' = insertTrade db r"
    using assms by (auto simp: trade_propose_def Let_def split: if_splits)
  show n: "getTrade db i = None" using p(1) by (simp add: trd.look_None)
  show "r = trade_of i t act side research route" by (rule p)
  have "td_id r = i" by (simp add: p(2) trade_of_def)
  with n show "getTrade db' = (\<lambda>k. if k = i then Some r else getTrade db k)"
    by (auto simp: p(3) fun_eq_iff trd.look_ins split: option.split)
qed (use assms in \<open>auto simp: trade_propose_def insertTrade_def Let_def split: if_splits\<close>)

lemma trade_decide_spec:
  assumes "trade_decide t i v db = Inr (db', r')"
  shows "only_trade i db db'" "\<exists>r. getTrade db i = Some r \<and> getTrade db' i = Some r' \<and>
    trade_static r' = trade_static r \<and> td_status r' = (if allowed v then T_allowed else T_rejected)"
proof -
  obtain s cols where tr: "transition t i s cols db = Inr (db', r')" "safe_cols cols" "keeps_hash s cols"
      "s = (if allowed v then T_allowed else T_rejected)"
    using assms by (auto simp: trade_decide_def keeps_hash_def split: if_splits)
  show "only_trade i db db'" using tr by (auto dest: only_transition)
  show "\<exists>r. getTrade db i = Some r \<and> getTrade db' i = Some r' \<and> trade_static r' = trade_static r \<and>
      td_status r' = (if allowed v then T_allowed else T_rejected)"
    using moved [OF tr(1,2)] tr(4) by auto
qed

text \<open>A submission: one new row, at the verdict's status, and the gate's decision stored when it allows.\<close>

lemma submit_spec:
  assumes "submit E t i b m act snap price side research route db = (db', Inr v)"
  shows "getTrade db i = None" "evolves db db'"
    "\<exists>r. getTrade db' i = Some r \<and> trade_static r = trade_static (trade_of i t act side research route) \<and>
       td_status r = (if allowed v then T_allowed else T_rejected)"
    "\<forall>k. k \<noteq> i \<longrightarrow> getTrade db' k = getTrade db k"
    "allowed v \<longrightarrow> (\<exists>row \<in> set (gd_decisions db'). dr_action row = act \<and> dr_decision row = v)"
proof -
  obtain db1 r1 db2 db3 r3 where s: "trade_propose i t act side research route db = Inr (db1, r1)"
    "decide E t act snap price db1 = (db2, Inr v)" "trade_decide t i v db2 = Inr (db3, r3)"
    "db' = audit_append t (verdict_event b m act v) db3"
    using assms by (auto simp: submit_def split: sum.splits prod.splits)
  note p = propose_spec [OF s(1)] and d = same_trades [OF decide_trades [OF s(2)]] and q = trade_decide_spec [OF s(3)]
  show "getTrade db i = None" by (rule p)
  show others: "\<forall>k. k \<noteq> i \<longrightarrow> getTrade db' k = getTrade db k"
    using q(1) p(3) by (simp add: s(4) d only_trade_def)
  show "\<exists>r. getTrade db' i = Some r \<and> trade_static r = trade_static (trade_of i t act side research route) \<and>
       td_status r = (if allowed v then T_allowed else T_rejected)"
    using q(2) p(2,3) by (auto simp: s(4) d)
  show "evolves db db'" using p(1) others by (rule new_evolves)
  show "allowed v \<longrightarrow> (\<exists>row \<in> set (gd_decisions db'). dr_action row = act \<and> dr_decision row = v)"
    using decide_stores [OF s(2)] q(1) by (simp add: s(4) only_trade_def)
qed

lemma submit_raises:
  assumes "submit E t i b m act snap price side research route db = (db', Inl e)"
  shows "evolves db db'"
proof (cases "trade_propose i t act side research route db")
  case (Inl e1)
  then show ?thesis using assms by (simp add: submit_def evolves_same)
next
  case (Inr x)
  then obtain db1 r1 where p: "trade_propose i t act side research route db = Inr (db1, r1)" by (cases x) auto
  obtain db2 x2 where d: "decide E t act snap price db1 = (db2, x2)" by fastforce
  have "db' = db2" using assms p d by (auto simp: submit_def split: sum.splits prod.splits)
  moreover have "evolves db db2"
    using propose_spec(1,3) [OF p] same_trades [OF decide_trades [OF d]] by (intro new_evolves [of db i]) auto
  ultimately show ?thesis by simp
qed

section \<open>Starting a call\<close>

fun presign :: "live_stage \<Rightarrow> bool" where
  "presign (At_build _ _) = True"
| "presign (At_simulate _ _) = True"
| "presign (At_prepare _ _) = True"
| "presign _ = False"

lemma presign_matches: "presign st \<Longrightarrow> row_matches st r \<longleftrightarrow> td_status r = T_dispatched"
  by (cases st) simp_all

definition own_row :: "'a trade_db_scheme \<Rightarrow> string \<Rightarrow> proposed_action \<Rightarrow> bool" where
  "own_row db i act \<longleftrightarrow> (\<exists>r. getTrade db i = Some r \<and> \<not> lp_owned r \<and> td_actionId r = actionId act)"

definition starts :: "string \<Rightarrow> proposed_action \<Rightarrow> 'a trade_db_scheme \<Rightarrow> 'a trade_db_scheme \<times> live_progress \<Rightarrow> bool" where
  "starts i act db = (\<lambda>(db', p). only_trade i db db' \<and> (\<forall>call. p = Waiting call \<longrightarrow>
     lc_tradeId call = i \<and> lc_action call = act \<and> presign (lc_stage call) \<and> call_ok db' call))"

lemma starts_fail: "starts i act db (live_fail t i act reason at' h db)"
  by (auto simp: starts_def split: prod.split dest: live_fail_only)

lemma dispatch_call:
  assumes "trade_markDispatched t i db = Inr (db', r')" "own_row db i act"
  shows "call_ok (markDispatched t act db') \<lparr>lc_tradeId = i, lc_action = act, lc_startedAt = s, lc_stage = st\<rparr> \<longleftrightarrow> presign st \<or> call_ok db' \<lparr>lc_tradeId = i, lc_action = act, lc_startedAt = s, lc_stage = st\<rparr>"
proof -
  obtain r where r: "getTrade db i = Some r" "\<not> lp_owned r" "td_actionId r = actionId act"
    using assms(2) by (auto simp: own_row_def)
  have "getTrade db' i = Some (r\<lparr>td_status := T_dispatched, td_updatedAt := t\<rparr>)"
    using marked_row [OF assms(1) [unfolded trade_markDispatched_def] _ r(1)] by simp
  with r(2,3) show ?thesis by (cases st) (auto simp: call_ok_def lp_owned_def)
qed

lemma own_priced: "own_row (recordQuotePrices t i px db) i act = own_row db i act"
  by (auto simp: own_row_def getTrade_priced lp_owned_def)

lemma live_execute_starts:
  assumes "own_row db i act"
  shows "starts i act db (live_execute t i act q px db)"
proof -
  have go: "starts i act db (markDispatched t act db1, Waiting \<lparr>lc_tradeId = i, lc_action = act, lc_startedAt = t, lc_stage = At_build q px\<rparr>)"
    if m: "trade_markDispatched t i (recordQuotePrices t i px db) = Inr (db1, r1)" for db1 r1
    using dispatch_call [OF m, of act t "At_build q px"] assms only_trans [OF only_priced only_ops(1) [OF m]]
    by (simp add: starts_def own_priced)
  have stuck: "starts i act db (recordQuotePrices t i px db, Raised e)" for e
    by (simp add: starts_def only_priced)
  show ?thesis
    by (auto simp: live_execute_def Let_def starts_fail stuck go split: option.split sum.split)
qed

lemma live_executeApprove_starts:
  assumes "own_row db i act"
  shows "starts i act db (live_executeApprove t wallet i act tx nativeUsd db)"
proof -
  have go: "starts i act db (signAndSend t wallet i act tx b (markDispatched t act db1))"
    if m: "trade_markDispatched t i db = Inr (db1, r1)" for db1 r1 b
    using dispatch_call [OF m, of act t "At_prepare tx b"] assms only_ops(1) [OF m]
    by (simp add: starts_def signAndSend_def split: sum.split)
  have stuck: "starts i act db (db, Raised e)" for e by (simp add: starts_def)
  show ?thesis
    by (auto simp: live_executeApprove_def Let_def starts_fail stuck go split: option.split sum.split)
qed

section \<open>The segments of a cycle\<close>

fun live_of :: "cycle_stage \<Rightarrow> live_call option" where
  "live_of (Cy_approving _ _ _ _ call) = Some call"
| "live_of (Cy_executing _ _ call) = Some call"
| "live_of _ = None"

text \<open>A call that a segment starts: its trade is new, its action allowed by the gate in that segment.\<close>

definition fresh_call :: "'a trade_db_scheme \<Rightarrow> 'a trade_db_scheme \<Rightarrow> live_call \<Rightarrow> bool" where
  "fresh_call db db' call \<longleftrightarrow> getTrade db (lc_tradeId call) = None \<and> presign (lc_stage call) \<and> call_ok db' call \<and>
     (\<exists>row \<in> set (gd_decisions db'). dr_action row = lc_action call \<and> allowed (dr_decision row))"

definition starting :: "'a trade_db_scheme \<Rightarrow> 'a trade_db_scheme \<times> cycle_progress \<Rightarrow> bool" where
  "starting db = (\<lambda>(db', p). evolves db db' \<and>
     (\<forall>b st call. p = Cycle b st \<longrightarrow> live_of st = Some call \<longrightarrow> fresh_call db db' call))"

lemma evolves_audit [simp]: "evolves db (audit_append t e db') = evolves db db'"
  by (simp add: evolves_def)

lemma starting_end [simp]: "starting db (end_cycle t rq r db') = evolves db db'"
  by (simp add: starting_def end_cycle_def)

lemma starting_quiet: "live_of st = None \<Longrightarrow> starting db (db, Cycle b st)" "starting db (db, Cycle_raised e)"
  by (simp_all add: starting_def evolves_same)

lemma submitted_starts:
  assumes sub: "submit E t i b m act snap price side research route db = (db1, Inr v)" and "allowed v"
    and kind: "a_kind act = Swap \<or> (a_kind act = Approve \<and> map_of route ''lp'' = None)"
    and st: "starts i act db1 (db2, p)" and call: "p = Waiting call"
  shows "evolves db db2" "fresh_call db db2 call"
proof -
  note s = submit_spec [OF sub]
  have only: "only_trade i db1 db2" and c: "lc_tradeId call = i" "lc_action call = act" "presign (lc_stage call)" "call_ok db2 call"
    using st by (auto simp: starts_def call)
  show "evolves db db2" using evolves_comp [OF s(2) only_evolves [OF only]] .
  show "fresh_call db db2 call" using s(1,5) c only assms(2) by (auto simp: fresh_call_def only_trade_def)
qed

lemma submitted_own:
  assumes "submit E t i b m act snap price side research route db = (db1, Inr v)"
    "a_kind act = Swap \<or> (a_kind act = Approve \<and> map_of route ''lp'' = None)"
  shows "own_row db1 i act"
  using submit_spec(3) [OF assms(1)] assms(2)
  by (auto simp: own_row_def trade_static_def trade_of_def lp_owned_def)


lemma starting_raise: "evolves db db' \<Longrightarrow> starting db (db', Cycle_raised e)"
  by (simp add: starting_def)

lemma starts_only: "starts i act db (db', p) \<Longrightarrow> only_trade i db db'"
  by (simp add: starts_def)

lemma executing_starting:
  assumes "submit E t i b m act snap price side research route db = (db1, Inr v)" "allowed v"
    "a_kind act = Swap \<or> (a_kind act = Approve \<and> map_of route ''lp'' = None)" "starts i act db1 (db2, p)"
  shows "starting db (executing t' b' tr rk (db2, p))"
proof (cases p)
  case (Waiting call)
  then show ?thesis using submitted_starts [OF assms] by (auto simp: executing_def starting_def)
next
  case (Finished x)
  have "evolves db db2" using evolves_comp [OF submit_spec(2) [OF assms(1)] only_evolves [OF starts_only [OF assms(4)]]] .
  then show ?thesis by (simp add: executing_def Finished)
next
  case (Raised e)
  have "evolves db db2" using evolves_comp [OF submit_spec(2) [OF assms(1)] only_evolves [OF starts_only [OF assms(4)]]] .
  then show ?thesis by (simp add: executing_def Raised starting_raise)
qed

lemma cycle_swap_starting:
  assumes "a_kind (bp_action p) = Swap"
  shows "starting db (cycle_swap E W t u b p research db)"
proof -
  let ?act = "bp_action p"
  define route where "route = [(''protocol'', Route_text (eq_protocol (bp_quote p))), (''source'', Route_text (eq_source (bp_quote p))),
          (''marketId'', Route_text (eq_marketId (bp_quote p)))]"
  obtain db1 r where sub: "submit E t (ui_trade u) b (cb_mode b) ?act (bp_snapshot p) (bp_priceLookup p) (bp_side p) research route db = (db1, r)"
    by fastforce
  show ?thesis
  proof (cases r)
    case (Inl e)
    then show ?thesis using sub submit_raises [OF sub [unfolded Inl]]
      by (simp add: cycle_swap_def Let_def route_def [symmetric] starting_raise)
  next
    case (Inr v)
    note s = sub [unfolded Inr]
    have ev: "evolves db db1" by (rule submit_spec [OF s])
    have own: "own_row db1 (ui_trade u) ?act" using assms by (intro submitted_own [OF s]) simp
    obtain db2 x where pap: "paper_execute (xe_message W) t (ui_position u) (ui_fill u) (ui_trade u) ?act (bp_quote p) (bp_prices p) db1 = (db2, x)"
      by fastforce
    have evp: "evolves db db2" using evolves_comp [OF ev only_evolves [OF paper_execute_only [OF pap]]] .
    obtain db3 q where live: "live_execute t (ui_trade u) ?act (bp_quote p) (bp_prices p) db1 = (db3, q)" by fastforce
    have "starting db (executing t b (ui_trade u, actionId ?act) (risk_ref_of v) (db3, q))" if "allowed v"
      using executing_starting [OF s that _ live_execute_starts [OF own, of t "bp_quote p" "bp_prices p", unfolded live]] assms by simp
    then show ?thesis
      using ev evp by (auto simp: cycle_swap_def Let_def route_def [symmetric] s pap live starting_raise split: sum.split)
  qed
qed

text \<open>The proposal a stage carries is a swap.\<close>

fun stage_swap :: "cycle_stage \<Rightarrow> bool" where
  "stage_swap (Cy_allowance p _) = (a_kind (bp_action p) = Swap)"
| "stage_swap (Cy_approve_fee p _ _) = (a_kind (bp_action p) = Swap)"
| "stage_swap (Cy_approving p _ _ _ _) = (a_kind (bp_action p) = Swap)"
| "stage_swap _ = True"

lemma cycle_approve_starting: "starting db (cycle_approve E W t u wallet tx b p research needed answer db)"
proof (cases answer)
  case (Inl e)
  then show ?thesis by (simp add: cycle_approve_def Let_def evolves_same)
next
  case (Inr fee)
  define act where "act = (let c = approve_candidate t (ui_action u) b p needed fee in
    c\<lparr>idempotencyKey := deriveIdempotencyKey (ge_externals E) c\<rparr>)"
  define route where "route = [(''protocol'', Route_text (a_protocol act))]"
  have kind: "a_kind act = Swap \<or> (a_kind act = Approve \<and> map_of route ''lp'' = None)"
    by (simp add: act_def Let_def approve_candidate_def route_def)
  obtain db1 r where sub: "submit E t (ui_trade u) b LIVE act (approve_snapshot b p) (bp_priceLookup p) Side_approve None route db = (db1, r)"
    by fastforce
  have refl: "evolves db db" by (simp add: evolves_same)
  note unf = cycle_approve_def Let_def act_def [unfolded Let_def, symmetric] route_def [symmetric] Inr
  show ?thesis
  proof (cases r)
    case (Inl e)
    then show ?thesis using sub submit_raises [OF sub [unfolded Inl]] refl
      by (simp add: unf starting_raise split: sum.split list.split)
  next
    case R: (Inr v)
    note s = sub [unfolded R]
    have ev: "evolves db db1" by (rule submit_spec [OF s])
    obtain db3 q where live: "live_executeApprove t wallet (ui_trade u) act tx (tp_nativeUsd (bp_prices p)) db1 = (db3, q)" by fastforce
    have st: "starts (ui_trade u) act db1 (db3, q)"
      using live_executeApprove_starts [OF submitted_own [OF s kind], of t wallet tx "tp_nativeUsd (bp_prices p)"] live by simp
    have ev3: "evolves db db3" using evolves_comp [OF ev only_evolves [OF starts_only [OF st]]] .
    have "starting db (db3, Cycle b (Cy_approving p research (ui_trade u, actionId act) (risk_ref_of v) call))"
      if "allowed v" "q = Waiting call" for call
      using submitted_starts [OF s that(1) kind st that(2)] by (simp add: starting_def)
    then show ?thesis
      using refl ev ev3
      by (auto simp: unf s live starting_raise split: sum.split list.split live_progress.split)
  qed
qed

lemma cycle_built_starting:
  "(\<And>p. answer = Inr (Built p) \<Longrightarrow> a_kind (bp_action p) = Swap) \<Longrightarrow> starting db (cycle_built E W t u b research answer db)"
  by (auto simp: cycle_built_def starting_quiet cycle_swap_starting evolves_same split: sum.split build_result.split)

lemma cycle_allowance_starting:
  "a_kind (bp_action p) = Swap \<Longrightarrow> starting db (cycle_allowance E W t u b p research answer db)"
  by (auto simp: cycle_allowance_def starting_quiet cycle_swap_starting evolves_same split: sum.split)

lemma cycle_approved_starting:
  "a_kind (bp_action p) = Swap \<Longrightarrow> starting db (cycle_approved E W t u b p research tr rk x db)"
  by (auto simp: cycle_approved_def cycle_swap_starting evolves_same)

lemma early_starting:
  "starting db (cycle_start E t cycleId rq wallet db)" "starting db (cycle_marked t b research price db)"
  "starting db (cycle_decided t b research d db)"
  by (auto simp: cycle_start_def cycle_marked_def cycle_decided_def Let_def starting_quiet evolves_same
      split: sum.split option.split) (simp add: starting_def evolves_same)


section \<open>When the key is used\<close>

record key_event =
  ke_trade :: string
  ke_action :: proposed_action
  ke_context :: signing_context
  ke_signed :: signed_transaction

text \<open>The vault was asked in a segment when its answer matters: another answer of the vault, all else equal, would have
  made the segment end differently. The key was used when it was asked and signed.\<close>

definition vault_asked ::
  "exec_env \<Rightarrow> int \<Rightarrow> uuids \<Rightarrow> keys \<Rightarrow> live_call \<Rightarrow> live_answer \<Rightarrow> 'a trade_db_scheme \<Rightarrow> bool" where
  "vault_asked W t u ky call answer db \<longleftrightarrow>
     (\<exists>v. live_resume W t u (ky\<lparr>ky_vault := v\<rparr>) call answer db \<noteq> live_resume W t u ky call answer db)"

definition live_key_used ::
  "exec_env \<Rightarrow> int \<Rightarrow> uuids \<Rightarrow> keys \<Rightarrow> live_call \<Rightarrow> live_answer \<Rightarrow> 'a trade_db_scheme \<Rightarrow> key_event option" where
  "live_key_used W t u ky call answer db = (case (lc_stage call, answer) of
     (At_prepare tx b, An_prepared (Inr ctx)) \<Rightarrow> (case sbind (ky_vault ky) (sign_context W ctx) of
         Inr s \<Rightarrow> if vault_asked W t u ky call answer db
           then Some \<lparr>ke_trade = lc_tradeId call, ke_action = lc_action call, ke_context = ctx, ke_signed = s\<rparr> else None
       | Inl e \<Rightarrow> None)
   | _ \<Rightarrow> None)"

definition key_used ::
  "exec_env \<Rightarrow> int \<Rightarrow> uuids \<Rightarrow> keys \<Rightarrow> cycle_stage \<Rightarrow> cycle_answer \<Rightarrow> 'a trade_db_scheme \<Rightarrow> key_event option" where
  "key_used W t u ky st answer db = (case (live_of st, answer) of
     (Some call, An_live r) \<Rightarrow> live_key_used W t u ky call r db | _ \<Rightarrow> None)"

text \<open>The code asks the vault only when nothing refuses the signature.\<close>

lemma vault_not_asked:
  assumes "lc_stage call = At_prepare tx b" "answer = An_prepared (Inr ctx)" "signing_refusal W (lc_action call) ctx db \<noteq> Inr None"
  shows "\<not> vault_asked W t u ky call answer db"
  using assms by (auto simp: vault_asked_def live_resume_def live_prepared_def Let_def split: sum.splits option.splits)

lemma live_key_used_Some:
  assumes "live_key_used W t u ky call answer db = Some e"
  obtains tx b ctx s where "lc_stage call = At_prepare tx b" "answer = An_prepared (Inr ctx)"
    "signing_refusal W (lc_action call) ctx db = Inr None" "sbind (ky_vault ky) (sign_context W ctx) = Inr s"
    "e = \<lparr>ke_trade = lc_tradeId call, ke_action = lc_action call, ke_context = ctx, ke_signed = s\<rparr>"
proof -
  from assms obtain tx b ctx s where k: "lc_stage call = At_prepare tx b" "answer = An_prepared (Inr ctx)"
    "sbind (ky_vault ky) (sign_context W ctx) = Inr s" "vault_asked W t u ky call answer db"
    "e = \<lparr>ke_trade = lc_tradeId call, ke_action = lc_action call, ke_context = ctx, ke_signed = s\<rparr>"
    by (auto simp: live_key_used_def split: live_stage.splits live_answer.splits sum.splits option.splits if_splits)
  have "signing_refusal W (lc_action call) ctx db = Inr None" using vault_not_asked [OF k(1,2)] k(4) by blast
  then show thesis using k that by blast
qed

text \<open>Conversely it does ask then: a refusal of the vault would have ended the call.\<close>

lemma key_used_when_allowed:
  assumes "lc_stage call = At_prepare tx b" "signing_refusal W (lc_action call) ctx db = Inr None"
    "sbind (ky_vault ky) (sign_context W ctx) = Inr s" "getTrade db (lc_tradeId call) = Some r" "td_status r = T_dispatched"
  shows "live_key_used W t u ky call (An_prepared (Inr ctx)) db =
    Some \<lparr>ke_trade = lc_tradeId call, ke_action = lc_action call, ke_context = ctx, ke_signed = s\<rparr>"
proof -
  have "\<exists>db'. live_resume W t u ky call (An_prepared (Inr ctx)) db = (db', Waiting (call\<lparr>lc_stage := At_broadcast s b\<rparr>))"
    using assms by (auto simp: live_resume_def live_prepared_def Let_def markSigned_def transition_def)
  moreover have "snd (live_resume W t u (ky\<lparr>ky_vault := Inl (JsError [])\<rparr>) call (An_prepared (Inr ctx)) db) \<noteq> Waiting call'" for call'
    using assms(1,2)
    by (auto simp: live_resume_def live_prepared_def Let_def live_fail_def split: sum.splits app_error.splits error_code.splits)
  ultimately have "vault_asked W t u ky call (An_prepared (Inr ctx)) db" unfolding vault_asked_def by (metis snd_conv)
  then show ?thesis using assms(1,3) by (simp add: live_key_used_def)
qed

text \<open>A call whose row matches cannot fail to record the hash: the key's use leaves it waiting for the broadcast.\<close>

lemma key_use_recorded:
  assumes "live_key_used W t u ky call answer db = Some e" "call_ok db call"
    "live_resume W t u ky call answer db = (db', p)"
  shows "\<exists>tx b r. p = Waiting (call\<lparr>lc_stage := At_broadcast (ke_signed e) b\<rparr>) \<and> lc_stage call = At_prepare tx b \<and>
    ke_trade e = lc_tradeId call \<and> ke_action e = lc_action call \<and>
    getTrade db' (lc_tradeId call) = Some r \<and> td_status r = T_signed \<and> td_txHash r = Some (sx_hash (ke_signed e))"
proof -
  obtain tx b ctx s where k: "lc_stage call = At_prepare tx b" "answer = An_prepared (Inr ctx)"
    "signing_refusal W (lc_action call) ctx db = Inr None" "sbind (ky_vault ky) (sign_context W ctx) = Inr s"
    "e = \<lparr>ke_trade = lc_tradeId call, ke_action = lc_action call, ke_context = ctx, ke_signed = s\<rparr>"
    using assms(1) by (rule live_key_used_Some)
  obtain r where r: "getTrade db (lc_tradeId call) = Some r" "td_status r = T_dispatched"
    using assms(2) k(1) by (auto simp: call_ok_def)
  have p: "p = Waiting (call\<lparr>lc_stage := At_broadcast s b\<rparr>)"
    using assms(3) k r by (auto simp: live_resume_def live_prepared_def Let_def markSigned_def transition_def)
  have "call_ok db' (call\<lparr>lc_stage := At_broadcast s b\<rparr>)"
    using resume_segment [of call db W t u ky answer] assms(2,3) p by (auto simp: segment_ok_def)
  with p k show ?thesis by (auto simp: call_ok_def)
qed

section \<open>A resumed cycle\<close>

definition resumes :: "bool \<Rightarrow> 'a trade_db_scheme \<Rightarrow> cycle_stage \<Rightarrow> 'a trade_db_scheme \<times> cycle_progress \<Rightarrow> bool" where
  "resumes used db st = (\<lambda>(db', p). evolves db db' \<and>
     (\<forall>b' st' call'. p = Cycle b' st' \<longrightarrow> live_of st' = Some call' \<longrightarrow> fresh_call db db' call' \<or>
        (\<exists>call. live_of st = Some call \<and> lc_tradeId call' = lc_tradeId call \<and> lc_action call' = lc_action call \<and>
           (call_ok db call \<longrightarrow> call_ok db' call') \<and> (presign (lc_stage call') \<longrightarrow> presign (lc_stage call) \<and> \<not> used))))"

lemma starting_resumes: "starting db x \<Longrightarrow> resumes used db st x"
  by (auto simp: starting_def resumes_def)

lemma fresh_mono: "evolves db db1 \<Longrightarrow> fresh_call db1 db2 call \<Longrightarrow> fresh_call db db2 call"
  unfolding fresh_call_def evolves_def by (metis option.distinct(1) option.exhaust)

lemma resumes_later: "evolves db db1 \<Longrightarrow> starting db1 x \<Longrightarrow> resumes used db st x"
  by (auto simp: starting_def resumes_def intro: evolves_comp fresh_mono)

lemma presign_back:
  assumes "live_resume W t u ky call answer db = (db', Waiting call')" "presign (lc_stage call')"
  shows "presign (lc_stage call) \<and> live_key_used W t u ky call answer db = None"
  using assms
  by (cases "lc_stage call"; cases answer)
    (auto simp: live_resume_def live_built_def live_simulated_def live_prepared_def live_broadcasted_def live_polled_def
      live_settle_def signAndSend_def live_key_used_def Let_def
      split: sum.splits option.splits if_splits prod.splits dest: live_fail_only(2))

lemma live_resume_resumes:
  assumes "live_of st = Some call" "live_resume W t u ky call answer db = (db', Waiting call')" "live_of st' = Some call'"
  shows "resumes (live_key_used W t u ky call answer db \<noteq> None) db st (db', Cycle b st')"
  using resume_segment [of call db W t u ky answer] presign_back [OF assms(2)] assms
  by (auto simp: segment_ok_def resumes_def intro: only_evolves)

lemma live_resume_evolves: "live_resume W t u ky call answer db = (db', p) \<Longrightarrow> evolves db db'"
  using resume_segment [of call db W t u ky answer] by (auto simp: segment_ok_def intro: only_evolves)

lemma resumes_end [simp]: "resumes used db st (end_cycle t rq r db') = evolves db db'"
  by (simp add: resumes_def end_cycle_def)

lemma cycle_resume_resumes:
  assumes "stage_swap st" "\<And>research d p. st = Cy_build research d \<Longrightarrow> answer = An_build (Inr (Built p)) \<Longrightarrow> a_kind (bp_action p) = Swap"
  shows "resumes (key_used W t u ky st answer db \<noteq> None) db st (cycle_resume E W t u ky b st answer db)"
proof -
  have stay: "resumes False db st (db, Cycle b st)" by (auto simp: resumes_def evolves_same)
  have quiet: "resumes False db st (db, p)" if "\<And>b st call. p = Cycle b st \<Longrightarrow> live_of st \<noteq> Some call" for p
    using that by (auto simp: resumes_def evolves_same)
  show ?thesis
  proof (cases st)
    case (Cy_approving p research tr rk call)
    show ?thesis
    proof (cases answer)
      case (An_live r)
      obtain db1 q where q: "live_resume W t u ky call r db = (db1, q)" by fastforce
      note ev = live_resume_evolves [OF q]
      show ?thesis
      proof (cases q)
        case (Waiting call')
        then show ?thesis using live_resume_resumes [of st call W t u ky r db db1 call'] q
          by (simp add: cycle_resume_def key_used_def Cy_approving An_live)
      next
        case (Finished x)
        have "a_kind (bp_action p) = Swap" using assms(1) by (simp add: Cy_approving)
        from resumes_later [OF ev cycle_approved_starting [OF this]] show ?thesis
          by (simp add: cycle_resume_def Cy_approving An_live q Finished)
      qed (simp add: cycle_resume_def Cy_approving An_live q resumes_def ev)
    qed (use stay in \<open>simp_all add: cycle_resume_def key_used_def Cy_approving\<close>)
  next
    case (Cy_executing tr rk call)
    show ?thesis
    proof (cases answer)
      case (An_live r)
      obtain db1 q where q: "live_resume W t u ky call r db = (db1, q)" by fastforce
      note ev = live_resume_evolves [OF q]
      show ?thesis
      proof (cases q)
        case (Waiting call')
        then show ?thesis using live_resume_resumes [of st call W t u ky r db db1 call'] q
          by (simp add: cycle_resume_def key_used_def executing_def Cy_executing An_live)
      qed (simp_all add: cycle_resume_def executing_def Cy_executing An_live q ev, simp add: resumes_def ev)
    qed (use stay in \<open>simp_all add: cycle_resume_def key_used_def Cy_executing\<close>)
  next
    case Cy_research
    then have "resumes False db Cy_research (db, Cycle_raised e)" "resumes False db Cy_research (db, Cycle b (Cy_prices x))" for e x
      using quiet [of "Cycle_raised e"] quiet [of "Cycle b (Cy_prices x)"] by simp_all
    then show ?thesis using stay Cy_research by (cases answer) (auto simp: cycle_resume_def key_used_def split: sum.split)
  next
    case (Cy_prices research)
    then show ?thesis using stay by (cases answer) (simp_all add: cycle_resume_def key_used_def starting_resumes early_starting)
  next
    case (Cy_trader research)
    then show ?thesis using stay by (cases answer) (simp_all add: cycle_resume_def key_used_def starting_resumes early_starting)
  next
    case (Cy_build research d)
    have "resumes False db st (cycle_built E W t u b research r db)" if "answer = An_build r" for r
      using assms(2) [of research d] Cy_build that by (intro starting_resumes cycle_built_starting) simp
    then show ?thesis using stay Cy_build by (cases answer) (simp_all add: cycle_resume_def key_used_def)
  next
    case (Cy_allowance p research)
    then show ?thesis using stay assms(1)
      by (cases answer) (simp_all add: cycle_resume_def key_used_def starting_resumes cycle_allowance_starting)
  next
    case (Cy_approve_fee p research needed)
    then show ?thesis using stay by (cases answer) (simp_all add: cycle_resume_def key_used_def starting_resumes cycle_approve_starting)
  qed
qed

section \<open>The machine\<close>

record system =
  sy_db :: trade_db
  sy_cycle :: "(cycle_base \<times> cycle_stage) option"
  sy_rows :: "trade_row list"
  sy_seen :: "decision_row set"

text \<open>\<open>sy_rows\<close> is what the reconciliation started at boot has left to do; \<open>sy_seen\<close> is every decision the
  gate ever stored, the ones pruned since included.\<close>

definition advance :: "system \<Rightarrow> trade_db \<Rightarrow> cycle_progress \<Rightarrow> system" where
  "advance sy db p = sy\<lparr>sy_db := db, sy_cycle := (case p of Cycle b st \<Rightarrow> Some (b, st) | _ \<Rightarrow> None),
     sy_seen := sy_seen sy \<union> set (gd_decisions db)\<rparr>"

definition outside :: "system \<Rightarrow> trade_db \<Rightarrow> system" where
  "outside sy db = sy\<lparr>sy_db := db, sy_seen := sy_seen sy \<union> set (gd_decisions db)\<rparr>"

text \<open>The request a cycle makes of the builder; a proposal is one the builder made.\<close>

definition request_of :: "cycle_base \<Rightarrow> trade_decision \<Rightarrow> trade_request" where
  "request_of b d = \<lparr>pq_chain = cr_chain (cb_request b), pq_mode = cb_mode b, pq_decisionCycleId = cb_cycleId b,
     pq_source = cr_source (cb_request b), pq_decision = d, pq_policy = cb_policy b\<rparr>"

definition answer_real :: "gate_env \<Rightarrow> exec_env \<Rightarrow> cycle_base \<Rightarrow> cycle_stage \<Rightarrow> cycle_answer \<Rightarrow> bool" where
  "answer_real E W b st answer \<longleftrightarrow> (\<forall>research d r. st = Cy_build research d \<longrightarrow> answer = An_build r \<longrightarrow>
     (\<exists>deepest ba. r = build_proposal (ge_externals E) (xe_message W) deepest (request_of b d) ba))"

text \<open>What the liquidity executor does to its rows.\<close>

inductive lp_writes :: "int \<Rightarrow> 'a trade_db_scheme \<Rightarrow> 'a trade_db_scheme \<Rightarrow> bool" for t where
  lp_propose: "trade_propose i t act side research route db = Inr (db', r) \<Longrightarrow> lp_owned r \<Longrightarrow> lp_writes t db db'"
| lp_decide: "getTrade db i = Some r \<Longrightarrow> lp_owned r \<Longrightarrow> trade_decide t i v db = Inr (db', r') \<Longrightarrow> lp_writes t db db'"
| lp_price: "getTrade db i = Some r \<Longrightarrow> lp_owned r \<Longrightarrow> lp_writes t db (recordQuotePrices t i px db)"
| lp_dispatch: "getTrade db i = Some r \<Longrightarrow> lp_owned r \<Longrightarrow> trade_markDispatched t i db = Inr (db', r') \<Longrightarrow> lp_writes t db db'"
| lp_sign: "getTrade db i = Some r \<Longrightarrow> lp_owned r \<Longrightarrow> markSigned t i h db = Inr (db', r') \<Longrightarrow> lp_writes t db db'"
| lp_broadcast: "getTrade db i = Some r \<Longrightarrow> lp_owned r \<Longrightarrow> markBroadcast t i db = Inr (db', r') \<Longrightarrow> lp_writes t db db'"
| lp_fill: "getTrade db i = Some r \<Longrightarrow> lp_owned r \<Longrightarrow> markFilled t i out n f h' db = Inr (db', r') \<Longrightarrow> lp_writes t db db'"
| lp_fail: "getTrade db i = Some r \<Longrightarrow> lp_owned r \<Longrightarrow> markFailed t i reason db = Inr (db', r') \<Longrightarrow> lp_writes t db db'"

inductive sys_step :: "gate_env \<Rightarrow> exec_env \<Rightarrow> system \<Rightarrow> key_event option \<Rightarrow> system \<Rightarrow> bool" for E W where
  begun: "sy_cycle sy = None \<Longrightarrow> cycle_start E t cycleId rq wallet (sy_db sy) = (db, p) \<Longrightarrow>
    sys_step E W sy None (advance sy db p)"
| resumed: "sy_cycle sy = Some (b, st) \<Longrightarrow> answer_real E W b st answer \<Longrightarrow>
    cycle_resume E W t u ky b st answer (sy_db sy) = (db, p) \<Longrightarrow>
    sys_step E W sy (key_used W t u ky st answer (sy_db sy)) (advance sy db p)"
| gated: "gate_step E (sy_db sy) ev db \<Longrightarrow> sys_step E W sy None (outside sy db)"
| lp: "lp_writes t (sy_db sy) db \<Longrightarrow> sys_step E W sy None (outside sy db)"
| crashed: "db = bootState t (sy_db sy) \<Longrightarrow>
    sys_step E W sy None (sy\<lparr>sy_db := db, sy_cycle := None, sy_rows := listInFlight db\<rparr>)"
| reconciled: "sy_rows sy = trade # rest \<Longrightarrow> reconcile_row t u1 u2 wallet answer trade rep (sy_db sy) = (db, r) \<Longrightarrow>
    sys_step E W sy None (sy\<lparr>sy_db := db, sy_rows := (case r of Inl e \<Rightarrow> [] | Inr rep \<Rightarrow> rest)\<rparr>)"

inductive sys_run :: "gate_env \<Rightarrow> exec_env \<Rightarrow> system \<Rightarrow> key_event list \<Rightarrow> system \<Rightarrow> bool" for E W where
  run_start: "sys_run E W sy [] sy"
| run_next: "sys_run E W sy tr sy1 \<Longrightarrow> sys_step E W sy1 e sy2 \<Longrightarrow>
    sys_run E W sy (case e of None \<Rightarrow> tr | Some k \<Rightarrow> k # tr) sy2"

definition no_trades :: "system \<Rightarrow> bool" where
  "no_trades sy \<longleftrightarrow> xd_trades (sy_db sy) = [] \<and> sy_cycle sy = None \<and> sy_rows sy = []"

section \<open>Every step moves rows forward\<close>

lemma lp_writes_cases:
  assumes "lp_writes t db db'"
  obtains (new) i act side research route r where "trade_propose i t act side research route db = Inr (db', r)" "lp_owned r"
  | (old) i r where "getTrade db i = Some r" "lp_owned r" "only_trade i db db'"
  using assms
proof cases
  case (lp_propose i act side research route r)
  then show ?thesis by (rule new)
next
  case (lp_price i r px)
  then show ?thesis using only_priced by (intro old) auto
qed (blast intro: old dest: only_ops trade_decide_spec(1))+

lemma lp_writes_other:
  assumes "lp_writes t db db'" "getTrade db i = Some r" "\<not> lp_owned r"
  shows "getTrade db' i = Some r"
  using assms(1)
proof (cases rule: lp_writes_cases)
  case (new j act side research route r')
  then show ?thesis using propose_spec(1,3) [OF new(1)] assms(2) by auto
next
  case (old j r')
  then show ?thesis using assms(2,3) by (cases "i = j") (auto simp: only_trade_def)
qed

lemma lp_writes_evolves: "lp_writes t db db' \<Longrightarrow> evolves db db'"
proof (erule lp_writes_cases)
  fix i act side research route r
  assume "trade_propose i t act side research route db = Inr (db', r)"
  from propose_spec(1,3) [OF this] show "evolves db db'" by (intro new_evolves [of db i]) auto
qed (rule only_evolves)

lemma lp_writes_decisions: "lp_writes t db db' \<Longrightarrow> gd_decisions db' = gd_decisions db"
  by (erule lp_writes_cases) (auto dest: propose_spec(4) simp: only_trade_def)

lemma boot_trades: "getTrade (bootState t (db :: trade_db)) = getTrade db" "xd_trades (bootState t (db :: trade_db)) = xd_trades db"
    "gd_decisions (bootState t (db :: trade_db)) = gd_decisions db"
proof -
  show "xd_trades (bootState t db) = xd_trades db" by (rule state_step_trades [OF state_step.boot])
  then show "getTrade (bootState t db) = getTrade db" by (rule same_trades)
  show "gd_decisions (bootState t db) = gd_decisions db" by (rule state_step_decisions [OF state_step.boot])
qed

lemma reconcile_row_only:
  assumes "reconcile_row t u1 u2 wallet answer trade rep db = (db', r)"
  shows "only_trade (td_id trade) db db'"
proof -
  have one: "only_trade (td_id trade) db x" if "reconcile_broadcast t trade db = Inr (x, y)" for x y
    using that by (auto simp: reconcile_broadcast_def split: if_splits dest: only_ops(3))
  have fail: "only_trade (td_id trade) db x" if "reconcile_broadcast t trade db = Inr (db1, z)"
      "markFailed t (td_id trade) reason db1 = Inr (x, y)" for x y reason db1 z
    using only_trans [OF one [OF that(1)] only_ops(5) [OF that(2)]] .
  have fail0: "only_trade (td_id trade) db x" if "markFailed t (td_id trade) reason db = Inr (x, y)" for x y reason
    using only_ops(5) [OF that] .
  have book: "only_trade (td_id trade) db x" if "reconcile_broadcast t trade db = Inr (db1, z)"
      "bookFill t u1 u2 trade rc px bc db1 = (x, y)" for x y rc px bc db1 z
    using only_trans [OF one [OF that(1)] bookFill_only [OF that(2)]] .
  show ?thesis
    using assms
    by (auto simp: reconcile_row_def Let_def split: if_split_asm sum.splits option.splits prod.splits
        intro: one book fail fail0)
qed

end
