(* ===== verification/Trader_Props.thy ===== *)
theory Trader_Props
  imports Trader
begin

text \<open>
  What reaches the risk engine: a trader's decision that passed the deterministic check, and a proposal
  built from it. The builder's branches are taken apart once (\<open>built_cases\<close>); the properties read them.
\<close>

section \<open>The decision\<close>

text \<open>What a decision that was not overridden has.\<close>

definition decision_sane :: "trader_input \<Rightarrow> trade_decision \<Rightarrow> bool" where
  "decision_sane inp d \<longleftrightarrow> dn_chain d = tn_chain inp \<and>
     (if dn_action d = NO_ACTION then dn_requestedNotionalUsd d = ''0''
      else dn_requestedNotionalUsd d \<noteq> ''0'' \<and>
        (\<exists>token e. dn_token d = Some token \<and> token \<noteq> '''' \<and> e \<in> set (tn_allowlist inp) \<and> ta_address e = token \<and>
          (dn_action d \<in> {REDUCE, CLOSE} \<longrightarrow> \<not> isStablecoin (tn_chain inp) token \<and>
             (\<exists>p \<in> set (pm_positions (tn_portfolio inp)). pr_chain (mp_row p) = tn_chain inp \<and> pr_token (mp_row p) = token))) \<and>
        (\<exists>requested maximum. bigUsd (dn_requestedNotionalUsd d) = Inr requested \<and>
           bigUsd (maxAmountPerTradeUsd (tn_policy inp)) = Inr maximum \<and> requested \<le> maximum))"

lemma sanity_none: "trader_deterministicSanity d inp = Inr None \<longleftrightarrow> decision_sane inp d"
proof (cases "dn_token d")
  case None
  then show ?thesis by (auto simp: trader_deterministicSanity_def decision_sane_def)
next
  case (Some token)
  show ?thesis
    by (cases "dn_action d") (auto simp: trader_deterministicSanity_def decision_sane_def Some sbind_eq_Inr list_ex_iff, (force simp: not_less)+)
qed

section \<open>The builder's branches\<close>

lemma assemble_built:
  assumes "assemble X deepest rq ba tin tout pin pout pn amount q = Inr (Built p)"
  defines "c \<equiv> swap_candidate rq ba q (ref_of tin) (ref_of tout) amount"
  shows "bp_action p = c\<lparr>idempotencyKey := deriveIdempotencyKey X c\<rparr>" "schema_parse X (bp_action p) = Inr []"
    "bp_quote p = q" "bp_prices p = \<lparr>tp_tokenInUsd = sv_value pin, tp_tokenOutUsd = sv_value pout, tp_nativeUsd = sv_value pn\<rparr>"
    "bp_side p = side_of (dn_action (pq_decision rq))"
    "bp_snapshot p = swap_snapshot (pq_chain rq) q
       [(ta_address tin, pin), (ta_address tout, pout), (native_token (pq_chain rq), pn)]
       (pair_liquidity deepest (ta_address tin) (ta_address tout) q (ba_pools ba))
       (mode_balances (pq_mode rq) (ba_balancesAt ba) (ba_ledger ba) (pq_chain rq) (ba_balances ba)
         [ta_address tin, native_token (pq_chain rq)])"
    "bp_priceLookup p = (\<lambda>c' token. if c' = pq_chain rq
       then map_option sv_value (if token \<in> {ta_address tin, ta_address tout, native_token (pq_chain rq)}
         then stamped_price (ba_pricesAt ba) (ba_prices ba token) else None) else None)"
proof -
  let ?a = "c\<lparr>idempotencyKey := deriveIdempotencyKey X c\<rparr>"
  obtain issues where s: "schema_parse X ?a = Inr issues"
    using assms(1) by (auto simp: assemble_def Let_def c_def sbind_eq_Inr)
  have "issues = []" using assms(1) s by (cases issues) (auto simp: assemble_def Let_def c_def)
  with assms(1) s show "bp_action p = ?a" "schema_parse X (bp_action p) = Inr []"
    "bp_quote p = q" "bp_prices p = \<lparr>tp_tokenInUsd = sv_value pin, tp_tokenOutUsd = sv_value pout, tp_nativeUsd = sv_value pn\<rparr>"
    "bp_side p = side_of (dn_action (pq_decision rq))"
    "bp_snapshot p = swap_snapshot (pq_chain rq) q
       [(ta_address tin, pin), (ta_address tout, pout), (native_token (pq_chain rq), pn)]
       (pair_liquidity deepest (ta_address tin) (ta_address tout) q (ba_pools ba))
       (mode_balances (pq_mode rq) (ba_balancesAt ba) (ba_ledger ba) (pq_chain rq) (ba_balances ba)
         [ta_address tin, native_token (pq_chain rq)])"
    "bp_priceLookup p = (\<lambda>c' token. if c' = pq_chain rq
       then map_option sv_value (if token \<in> {ta_address tin, ta_address tout, native_token (pq_chain rq)}
         then stamped_price (ba_pricesAt ba) (ba_prices ba token) else None) else None)"
    by (auto simp: assemble_def Let_def c_def)
qed

text \<open>The two legs of a trade: the named token and the funding coin, in the direction of the action.\<close>

definition legs :: "trade_action \<Rightarrow> token_allow_entry \<Rightarrow> token_allow_entry \<Rightarrow> token_allow_entry \<times> token_allow_entry" where
  "legs a named funding = (if is_exit a then (named, funding) else (funding, named))"

lemma option_case_built: "(case x of None \<Rightarrow> Inr (Not_built s) | Some y \<Rightarrow> f y) = Inr (Built p) \<longleftrightarrow> (\<exists>y. x = Some y \<and> f y = Inr (Built p))"
  by (cases x) auto

lemma if_built: "(if b then Inr (Not_built s) else x) = Inr (Built p) \<longleftrightarrow> \<not> b \<and> x = Inr (Built p)"
  by simp

lemma sum_case_built:
  "(case x of Inl s \<Rightarrow> Inr (Not_built (g s)) | Inr y \<Rightarrow> f y) = Inr (Built p) \<longleftrightarrow> (\<exists>y. x = Inr y \<and> f y = Inr (Built p))"
  by (cases x) auto

lemma built_cases:
  assumes "build_proposal X msg deepest rq ba = Inr (Built p)"
  obtains named funding tin tout pin pout pn amount q where
    "dn_token (pq_decision rq) = Some (ta_address named)" "dn_action (pq_decision rq) \<noteq> NO_ACTION"
    "named \<in> set (allowlisted_tokens (pq_policy rq) (pq_chain rq))" "\<not> isNativeToken (pq_chain rq) (ta_address named)"
    "pickFundingToken rq (allowlisted_tokens (pq_policy rq) (pq_chain rq)) (ta_address named) ba = Inr (Some funding)"
    "legs (dn_action (pq_decision rq)) named funding = (tin, tout)"
    "stamped_price (ba_pricesAt ba) (ba_prices ba (ta_address tin)) = Some pin"
    "stamped_price (ba_pricesAt ba) (ba_prices ba (ta_address tout)) = Some pout"
    "stamped_price (ba_pricesAt ba) (ba_prices ba (native_token (pq_chain rq))) = Some pn"
    "size_of rq (ba_ledger ba) tin (sv_value pin) = Inr (Inr amount)" "0 < amount" "ba_quote ba = Inr q"
    "assemble X deepest rq ba tin tout pin pout pn amount q = Inr (Built p)"
proof -
  let ?d = "pq_decision rq"
  obtain token where token: "dn_token ?d = Some token" "dn_action ?d \<noteq> NO_ACTION"
    using assms by (auto simp: build_proposal_def Let_def option_case_built split: if_split_asm)
  note b = assms [unfolded build_proposal_def Let_def option_case_built sum_case_built if_built sbind_eq_Inr]
  from b token obtain named funding tin tout pin pout pn amount q where
    n: "List.find (\<lambda>e. ta_address e = token) (allowlisted_tokens (pq_policy rq) (pq_chain rq)) = Some named"
      "\<not> isNativeToken (pq_chain rq) (ta_address named)"
      "pickFundingToken rq (allowlisted_tokens (pq_policy rq) (pq_chain rq)) (ta_address named) ba = Inr (Some funding)" and
    l: "tin = (if is_exit (dn_action ?d) then named else funding)" "tout = (if is_exit (dn_action ?d) then funding else named)" and
    r: "stamped_price (ba_pricesAt ba) (ba_prices ba (ta_address tin)) = Some pin"
      "stamped_price (ba_pricesAt ba) (ba_prices ba (ta_address tout)) = Some pout"
      "stamped_price (ba_pricesAt ba) (ba_prices ba (native_token (pq_chain rq))) = Some pn"
      "size_of rq (ba_ledger ba) tin (sv_value pin) = Inr (Inr amount)" "0 < amount" "ba_quote ba = Inr q"
      "assemble X deepest rq ba tin tout pin pout pn amount q = Inr (Built p)"
    by (elim exE conjE) (force simp: not_le)
  from n(1) have "ta_address named = token" "named \<in> set (allowlisted_tokens (pq_policy rq) (pq_chain rq))"
    by (auto simp: find_Some_iff)
  then show thesis using token n l r by (intro that [of named funding tin tout pin pout pn amount q]) (auto simp: legs_def)
qed

lemma built_swap: "build_proposal X msg deepest rq ba = Inr (Built p) \<Longrightarrow> a_kind (bp_action p) = Swap"
  by (erule built_cases) (simp add: assemble_built(1) swap_candidate_def)






section \<open>Properties\<close>

text \<open>A decision of the trader that is not NO_ACTION is exactly the model's reply, given only for a research
  result that is OK, an executable market and an available model, and passed the whole deterministic check: it
  names the input's chain, an allowlisted token, a positive size within the per-trade limit, and an exit names a
  held token that is no stablecoin. Every failure, a raised error included, is a NO_ACTION of size zero.\<close>

theorem trader_decision_sane:
  assumes "trader_decide msg inp unavailable reply = (d, fallback)"
  shows "(if dn_action d = NO_ACTION then dn_requestedNotionalUsd d = ''0''
    else \<not> fallback \<and> reply = Inr d \<and> tn_researchStatus inp = Res_ok \<and> tn_executable inp \<and> unavailable = None \<and>
      decision_sane inp d)"
proof (cases "tn_researchStatus inp = Res_ok \<and> tn_executable inp \<and> unavailable = None")
  case True
  show ?thesis
  proof (cases "sbind reply (\<lambda>d. sbind (trader_deterministicSanity d inp) (\<lambda>v. Inr (d, v)))")
    case (Inl e)
    then show ?thesis using assms True by (auto simp: trader_decide_def noAction_def)
  next
    case (Inr x)
    obtain d' v where x: "x = (d', v)" by (cases x)
    have v: "reply = Inr d'" "trader_deterministicSanity d' inp = Inr v" using Inr x by (auto simp: sbind_eq_Inr)
    show ?thesis
    proof (cases v)
      case None
      then have sane: "decision_sane inp d'" using v(2) by (simp add: sanity_none)
      then have "dn_action d' = NO_ACTION \<longrightarrow> dn_requestedNotionalUsd d' = ''0''" by (simp add: decision_sane_def)
      moreover have "d = d'" "\<not> fallback" using assms True Inr x None by (auto simp: trader_decide_def)
      ultimately show ?thesis using True v(1) sane by simp
    next
      case (Some s)
      then show ?thesis using assms True Inr x by (auto simp: trader_decide_def)
    qed
  qed
next
  case False
  then show ?thesis using assms by (auto simp: trader_decide_def noAction_def split: if_splits option.splits)
qed


end
