(* ===== verification/Exec_Safety.thy ===== *)
theory Exec_Safety
  imports Exec_Props Trader_Props
begin

text \<open>
  The invariant of the trading machine and the properties that rest on it. A call in flight owns its row;
  the key is free for a trade until it is used, and used at most once; every use is on the trade's row.
\<close>

section \<open>The proposal a cycle carries is a swap\<close>

lemma end_cycle_stage [simp]: "end_cycle t rq r db \<noteq> (db', Cycle b st)"
  by (simp add: end_cycle_def)

lemma executing_stage: "executing t b tr rk x = (db', Cycle b' st) \<Longrightarrow> stage_swap st"
  by (cases x) (auto simp: executing_def split: live_progress.splits)

lemma cycle_swap_stage: "cycle_swap E W t u b p research db = (db', Cycle b' st) \<Longrightarrow> stage_swap st"
  by (auto simp: cycle_swap_def Let_def split: prod.splits sum.splits if_splits dest: executing_stage)

lemma cycle_approve_stage:
  "a_kind (bp_action p) = Swap \<Longrightarrow> cycle_approve E W t u wallet tx b p research needed r db = (db', Cycle b' st) \<Longrightarrow> stage_swap st"
  by (auto simp: cycle_approve_def Let_def split: prod.splits sum.splits list.splits if_splits live_progress.splits)

lemma cycle_resume_stage:
  assumes "cycle_resume E W t u ky b st answer db = (db', Cycle b' st')" "stage_swap st"
    "\<And>research d p. st = Cy_build research d \<Longrightarrow> answer = An_build (Inr (Built p)) \<Longrightarrow> a_kind (bp_action p) = Swap"
  shows "stage_swap st'"
  using assms
  by (cases st; cases answer)
    (auto simp: cycle_resume_def cycle_marked_def cycle_decided_def cycle_built_def cycle_allowance_def cycle_approved_def
        Let_def cycle_swap_stage
      split: sum.splits build_result.splits if_splits prod.splits live_progress.splits
      dest: cycle_swap_stage executing_stage cycle_approve_stage)

lemma cycle_start_stage: "cycle_start E t cycleId rq wallet db = (db', Cycle b st) \<Longrightarrow> st = Cy_research"
  by (auto simp: cycle_start_def Let_def end_cycle_def split: if_splits sum.splits)

section \<open>The invariant\<close>

text \<open>A use of the key is on the trade's row: the row is past its signing, and its hash is the signed one
  until the fill's.\<close>

definition event_inv :: "'a trade_db_scheme \<Rightarrow> key_event \<Rightarrow> bool" where
  "event_inv db e \<longleftrightarrow> (\<exists>r. getTrade db (ke_trade e) = Some r \<and> td_actionId r = actionId (ke_action e) \<and>
     life.leads T_signed (td_status r) \<and> (td_status r \<noteq> T_filled \<longrightarrow> td_txHash r = Some (sx_hash (ke_signed e))))"

definition call_inv :: "key_event list \<Rightarrow> system \<Rightarrow> live_call \<Rightarrow> bool" where
  "call_inv tr sy call \<longleftrightarrow> call_ok (sy_db sy) call \<and> lc_tradeId call \<notin> td_id ` set (sy_rows sy) \<and>
     (\<exists>row \<in> sy_seen sy. dr_action row = lc_action call \<and> allowed (dr_decision row)) \<and>
     (presign (lc_stage call) \<longrightarrow> lc_tradeId call \<notin> ke_trade ` set tr)"

definition sys_inv :: "key_event list \<Rightarrow> system \<Rightarrow> bool" where
  "sys_inv tr sy \<longleftrightarrow>
     (\<forall>b st. sy_cycle sy = Some (b, st) \<longrightarrow> stage_swap st \<and> (\<forall>call. live_of st = Some call \<longrightarrow> call_inv tr sy call)) \<and>
     (\<forall>row \<in> set (sy_rows sy). getTrade (sy_db sy) (td_id row) \<noteq> None) \<and>
     (\<forall>e \<in> set tr. event_inv (sy_db sy) e) \<and> distinct (map ke_trade tr)"

lemma event_inv_evolves:
  assumes "evolves db db'" "event_inv db e"
  shows "event_inv db' e"
proof -
  obtain r where r: "getTrade db (ke_trade e) = Some r" "td_actionId r = actionId (ke_action e)" "life.leads T_signed (td_status r)"
    "td_status r \<noteq> T_filled \<longrightarrow> td_txHash r = Some (sx_hash (ke_signed e))"
    using assms(2) by (auto simp: event_inv_def)
  obtain r' where r': "getTrade db' (ke_trade e) = Some r'" "trade_static r' = trade_static r" "life.leads (td_status r) (td_status r')"
    "3 \<le> trade_rank (td_status r) \<longrightarrow> td_status r' \<noteq> T_filled \<longrightarrow> td_txHash r' = td_txHash r"
    using evolves_get [OF assms(1) r(1)] by (auto simp: row_evolves_def)
  have "3 \<le> trade_rank (td_status r)" using life.leads_rank [OF r(3)] by simp
  moreover have "td_status r' \<noteq> T_filled \<longrightarrow> td_status r \<noteq> T_filled" using life.leads_terminal [OF r'(3)] by auto
  moreover have "td_actionId r' = td_actionId r" using r'(2) by (simp add: trade_static_def)
  ultimately show ?thesis using r r' life.leads_trans [OF r'(3) r(3)] by (auto simp: event_inv_def)
qed

lemma event_inv_exists: "event_inv db e \<Longrightarrow> getTrade db (ke_trade e) \<noteq> None"
  by (auto simp: event_inv_def)

lemma evolves_exists: "evolves db db' \<Longrightarrow> getTrade db i \<noteq> None \<Longrightarrow> getTrade db' i \<noteq> None"
  by (auto dest: evolves_get)

text \<open>Steps outside the cycle keep the invariant when they leave the row of the call alone.\<close>

lemma outside_inv:
  assumes "sys_inv tr sy" "evolves (sy_db sy) (sy_db sy')" "set (sy_rows sy') \<subseteq> set (sy_rows sy)"
    "sy_cycle sy' = sy_cycle sy" "sy_seen sy \<subseteq> sy_seen sy'"
    "\<And>b st call. sy_cycle sy = Some (b, st) \<Longrightarrow> live_of st = Some call \<Longrightarrow> call_inv tr sy call \<Longrightarrow> call_ok (sy_db sy') call"
  shows "sys_inv tr sy'"
proof -
  have "call_inv tr sy' call" if "sy_cycle sy = Some (b, st)" "live_of st = Some call" for b st call
  proof -
    have c: "call_inv tr sy call" using assms(1) that by (simp add: sys_inv_def)
    from assms(6) [OF that c] c assms(3,5) show ?thesis by (auto simp: call_inv_def)
  qed
  moreover have "getTrade (sy_db sy') (td_id row) \<noteq> None" if "row \<in> set (sy_rows sy')" for row
    using evolves_exists [OF assms(2)] assms(1,3) that by (auto simp: sys_inv_def)
  ultimately show ?thesis
    using assms(1,4) event_inv_evolves [OF assms(2)] by (auto simp: sys_inv_def)
qed

lemma call_ok_same: "getTrade db' (lc_tradeId call) = getTrade db (lc_tradeId call) \<Longrightarrow> call_ok db' call = call_ok db call"
  by (simp add: call_ok_def)

lemma gated_inv:
  assumes "sys_inv tr sy" "gate_step E (sy_db sy) ev db"
  shows "sys_inv tr (outside sy db)"
proof -
  have same: "getTrade db = getTrade (sy_db sy)" using gate_step_trades [OF assms(2)] by (rule same_trades)
  show ?thesis
    by (rule outside_inv [OF assms(1)]) (auto simp: outside_def same evolves_same call_inv_def call_ok_def)
qed

lemma lp_inv:
  assumes "sys_inv tr sy" "lp_writes t (sy_db sy) db"
  shows "sys_inv tr (outside sy db)"
proof (rule outside_inv [OF assms(1)])
  show "evolves (sy_db sy) (sy_db (outside sy db))" using lp_writes_evolves [OF assms(2)] by (simp add: outside_def)
  show "call_ok (sy_db (outside sy db)) call" if "call_inv tr sy call" for call
    using that lp_writes_other [OF assms(2)] by (auto simp: call_inv_def call_ok_def outside_def)
qed (simp_all add: outside_def)

lemma reconciled_inv:
  assumes "sys_inv tr sy" "sy_rows sy = trade # rest"
    "reconcile_row t u1 u2 wallet answer trade rep (sy_db sy) = (db, r)"
  shows "sys_inv tr (sy\<lparr>sy_db := db, sy_rows := (case r of Inl e \<Rightarrow> [] | Inr rep \<Rightarrow> rest)\<rparr>)"
proof (rule outside_inv [OF assms(1)])
  note only = reconcile_row_only [OF assms(3)]
  then show "evolves (sy_db sy) (sy_db (sy\<lparr>sy_db := db, sy_rows := (case r of Inl e \<Rightarrow> [] | Inr rep \<Rightarrow> rest)\<rparr>))"
    by (simp add: only_evolves)
  show "call_ok (sy_db (sy\<lparr>sy_db := db, sy_rows := (case r of Inl e \<Rightarrow> [] | Inr rep \<Rightarrow> rest)\<rparr>)) call" if "call_inv tr sy call" for call
    using that only assms(2) by (auto simp: call_inv_def call_ok_def only_trade_def)
qed (auto simp: assms(2) split: sum.split)

lemma crashed_inv:
  assumes "sys_inv tr sy" "db = bootState t (sy_db sy)"
  shows "sys_inv tr (sy\<lparr>sy_db := db, sy_cycle := None, sy_rows := listInFlight db\<rparr>)"
proof -
  have same: "getTrade db = getTrade (sy_db sy)" by (simp add: assms(2) boot_trades)
  have "getTrade db (td_id row) \<noteq> None" if "row \<in> set (listInFlight db)" for row
    using that by (auto simp: listInFlight_def trd.look_None)
  with assms(1) show ?thesis by (auto simp: sys_inv_def event_inv_def same)
qed

lemma advance_sel [simp]: "sy_db (advance sy db p) = db" "sy_rows (advance sy db p) = sy_rows sy"
  "sy_seen (advance sy db p) = sy_seen sy \<union> set (gd_decisions db)"
  "sy_cycle (advance sy db p) = Some (b, st) \<longleftrightarrow> p = Cycle b st"
  by (auto simp: advance_def split: cycle_progress.split)

text \<open>A cycle's segment: a call it starts is fresh, a call it keeps was in flight before.\<close>

lemma advance_inv:
  assumes inv: "sys_inv tr sy" and ev: "evolves (sy_db sy) db" and stage: "\<And>b st. p = Cycle b st \<Longrightarrow> stage_swap st"
    and tr': "\<And>e. e \<in> set tr' \<Longrightarrow> event_inv db e" "distinct (map ke_trade tr')" "set tr \<subseteq> set tr'"
    and call: "\<And>b st call. p = Cycle b st \<Longrightarrow> live_of st = Some call \<Longrightarrow>
      fresh_call (sy_db sy) db call \<and> tr' = tr \<or>
      (\<exists>b0 st0 call0. sy_cycle sy = Some (b0, st0) \<and> live_of st0 = Some call0 \<and> lc_tradeId call = lc_tradeId call0 \<and>
         lc_action call = lc_action call0 \<and> call_ok db call \<and> (presign (lc_stage call) \<longrightarrow> presign (lc_stage call0) \<and> tr' = tr))"
  shows "sys_inv tr' (advance sy db p)"
proof -
  have rows: "getTrade (sy_db sy) (td_id row) \<noteq> None" if "row \<in> set (sy_rows sy)" for row
    using inv that by (auto simp: sys_inv_def)
  have used: "getTrade (sy_db sy) (ke_trade e) \<noteq> None" if "e \<in> set tr" for e
    using inv that by (auto simp: sys_inv_def event_inv_def)
  have "call_inv tr' (advance sy db p) call" if p: "p = Cycle b st" "live_of st = Some call" for b st call
    using call [OF p]
  proof
    assume f: "fresh_call (sy_db sy) db call \<and> tr' = tr"
    then have new: "getTrade (sy_db sy) (lc_tradeId call) = None" by (simp add: fresh_call_def)
    then have "lc_tradeId call \<notin> td_id ` set (sy_rows sy)" using rows by force
    moreover from new have "lc_tradeId call \<notin> ke_trade ` set tr" using used by force
    ultimately show ?thesis using f by (auto simp: fresh_call_def call_inv_def)
  next
    assume "\<exists>b0 st0 call0. sy_cycle sy = Some (b0, st0) \<and> live_of st0 = Some call0 \<and> lc_tradeId call = lc_tradeId call0 \<and>
         lc_action call = lc_action call0 \<and> call_ok db call \<and> (presign (lc_stage call) \<longrightarrow> presign (lc_stage call0) \<and> tr' = tr)"
    then obtain b0 st0 call0 where c: "sy_cycle sy = Some (b0, st0)" "live_of st0 = Some call0" "lc_tradeId call = lc_tradeId call0"
      "lc_action call = lc_action call0" "call_ok db call" "presign (lc_stage call) \<longrightarrow> presign (lc_stage call0) \<and> tr' = tr" by blast
    with inv have "call_inv tr sy call0" by (simp add: sys_inv_def)
    with c show ?thesis by (auto simp: call_inv_def)
  qed
  with stage rows tr' evolves_exists [OF ev] show ?thesis by (auto simp: sys_inv_def)
qed

lemma begun_inv:
  assumes "sys_inv tr sy" "sy_cycle sy = None" "cycle_start E t cycleId rq wallet (sy_db sy) = (db, p)"
  shows "sys_inv tr (advance sy db p)"
proof -
  have ev: "evolves (sy_db sy) db" using early_starting(1) [of "sy_db sy" E t cycleId rq wallet] assms(3) by (simp add: starting_def)
  show ?thesis
  proof (rule advance_inv [OF assms(1) ev])
    show "event_inv db e" if "e \<in> set tr" for e
      using assms(1) that event_inv_evolves [OF ev] by (simp add: sys_inv_def)
  qed (use assms(1,3) cycle_start_stage in \<open>fastforce simp: sys_inv_def\<close>)+
qed

lemma key_used_event:
  assumes "key_used W t u ky st answer db = Some e" "stage_swap st"
    "\<And>call. live_of st = Some call \<Longrightarrow> call_ok db call" "cycle_resume E W t u ky b st answer db = (db', p)"
  shows "event_inv db' e"
    "\<exists>call. live_of st = Some call \<and> ke_trade e = lc_tradeId call \<and> ke_action e = lc_action call \<and> presign (lc_stage call)"
    "p = Cycle b' st' \<Longrightarrow> live_of st' = Some call' \<Longrightarrow> lc_tradeId call' = ke_trade e"
proof -
  obtain call r where k: "live_of st = Some call" "answer = An_live r" "live_key_used W t u ky call r db = Some e"
    using assms(1) by (auto simp: key_used_def split: option.splits cycle_answer.splits)
  obtain db1 q where q: "live_resume W t u ky call r db = (db1, q)" by fastforce
  obtain tx bk row where w: "q = Waiting (call\<lparr>lc_stage := At_broadcast (ke_signed e) bk\<rparr>)" "lc_stage call = At_prepare tx bk"
    "ke_trade e = lc_tradeId call" "ke_action e = lc_action call" "getTrade db1 (lc_tradeId call) = Some row"
    "td_status row = T_signed" "td_txHash row = Some (sx_hash (ke_signed e))"
    using key_use_recorded [OF k(3) assms(3) [OF k(1)] q] by blast
  have "db' = db1" using assms(4) k q w(1)
    by (cases st) (auto simp: cycle_resume_def executing_def)
  moreover have "call_ok db1 (call\<lparr>lc_stage := At_broadcast (ke_signed e) bk\<rparr>)"
    using resume_segment [of call db W t u ky r] q w(1) assms(3) [OF k(1)] by (auto simp: segment_ok_def)
  ultimately show "event_inv db' e" using w(3-) life.leads_refl by (auto simp: event_inv_def call_ok_def)
  show "\<exists>call. live_of st = Some call \<and> ke_trade e = lc_tradeId call \<and> ke_action e = lc_action call \<and> presign (lc_stage call)"
    using k w by auto
  show "lc_tradeId call' = ke_trade e" if "p = Cycle b' st'" "live_of st' = Some call'"
    using assms(4) that k q w(1,3) by (cases st) (auto simp: cycle_resume_def executing_def)
qed

lemma real_swap:
  assumes "answer_real E W b (Cy_build research d) (An_build (Inr (Built p)))"
  shows "a_kind (bp_action p) = Swap"
proof -
  have "\<exists>deepest ba. Inr (Built p) = build_proposal (ge_externals E) (xe_message W) deepest (request_of b d) ba"
    using assms unfolding answer_real_def by blast
  then obtain deepest ba where "Inr (Built p) = build_proposal (ge_externals E) (xe_message W) deepest (request_of b d) ba"
    by (elim exE)
  from built_swap [OF this [symmetric]] show ?thesis .
qed

lemma real_resumes:
  assumes "answer_real E W b st answer" "stage_swap st" "cycle_resume E W t u ky b st answer db = (db', p)"
  shows "resumes (key_used W t u ky st answer db \<noteq> None) db st (db', p)" "p = Cycle b' st' \<Longrightarrow> stage_swap st'"
proof -
  have "resumes (key_used W t u ky st answer db \<noteq> None) db st (cycle_resume E W t u ky b st answer db)"
    by (rule cycle_resume_resumes [OF assms(2)]) (use assms(1) real_swap in blast)
  then show "resumes (key_used W t u ky st answer db \<noteq> None) db st (db', p)" by (simp only: assms(3))
  show "stage_swap st'" if "p = Cycle b' st'"
    by (rule cycle_resume_stage [OF assms(3) [unfolded that] assms(2)]) (use assms(1) real_swap in blast)
qed

lemma resumed_inv:
  assumes inv: "sys_inv tr sy" and cy: "sy_cycle sy = Some (b, st)" and real: "answer_real E W b st answer"
    and res: "cycle_resume E W t u ky b st answer (sy_db sy) = (db, p)"
  shows "sys_inv (case key_used W t u ky st answer (sy_db sy) of None \<Rightarrow> tr | Some k \<Rightarrow> k # tr) (advance sy db p)"
proof -
  let ?e = "key_used W t u ky st answer (sy_db sy)"
  have swap: "stage_swap st" and calls: "\<And>call. live_of st = Some call \<Longrightarrow> call_inv tr sy call"
    using inv cy by (simp_all add: sys_inv_def)
  have r: "resumes (?e \<noteq> None) (sy_db sy) st (db, p)"
    by (rule real_resumes(1) [OF real swap res])
  then have ev: "evolves (sy_db sy) db" by (simp add: resumes_def)
  have ok: "call_ok (sy_db sy) call" if "live_of st = Some call" for call
    using calls [OF that] by (simp add: call_inv_def)
  have old: "event_inv db e" if "e \<in> set tr" for e
    using inv that event_inv_evolves [OF ev] by (simp add: sys_inv_def)
  have dist: "distinct (map ke_trade tr)" using inv by (simp add: sys_inv_def)
  show ?thesis
  proof (rule advance_inv [OF inv ev])
    show "stage_swap st'" if "p = Cycle b' st'" for b' st'
      using real_resumes(2) [OF real swap res that] .
    show "event_inv db e" if "e \<in> set (case ?e of None \<Rightarrow> tr | Some k \<Rightarrow> k # tr)" for e
      using that old key_used_event(1) [OF _ swap ok res] by (auto split: option.splits)
    have "ke_trade e \<notin> ke_trade ` set tr" if "?e = Some e" for e
      using key_used_event(2) [OF that swap ok res] calls unfolding call_inv_def by metis
    with dist show "distinct (map ke_trade (case ?e of None \<Rightarrow> tr | Some k \<Rightarrow> k # tr))" by (simp split: option.split)
    show "set tr \<subseteq> set (case ?e of None \<Rightarrow> tr | Some k \<Rightarrow> k # tr)" by (auto split: option.split)
    show "fresh_call (sy_db sy) db call \<and> (case ?e of None \<Rightarrow> tr | Some k \<Rightarrow> k # tr) = tr \<or>
      (\<exists>b0 st0 call0. sy_cycle sy = Some (b0, st0) \<and> live_of st0 = Some call0 \<and> lc_tradeId call = lc_tradeId call0 \<and>
         lc_action call = lc_action call0 \<and> call_ok db call \<and>
         (presign (lc_stage call) \<longrightarrow> presign (lc_stage call0) \<and> (case ?e of None \<Rightarrow> tr | Some k \<Rightarrow> k # tr) = tr))"
      if "p = Cycle b' st'" "live_of st' = Some call" for b' st' call
    proof (cases ?e)
      case None
      then show ?thesis using r that cy ok by (fastforce simp: resumes_def)
    next
      case (Some e)
      have "lc_tradeId call = ke_trade e" using key_used_event(3) [OF Some swap ok res that] by simp
      then have "\<not> fresh_call (sy_db sy) db call"
        using key_used_event(2) [OF Some swap ok res] ok by (auto simp: fresh_call_def call_ok_def)
      then show ?thesis using r that cy ok Some by (fastforce simp: resumes_def)
    qed
  qed
qed

lemma sys_step_inv:
  assumes "sys_step E W sy e sy'" "sys_inv tr sy"
  shows "sys_inv (case e of None \<Rightarrow> tr | Some k \<Rightarrow> k # tr) sy'"
  using assms
proof cases
  case (begun t cycleId rq wallet db p)
  then show ?thesis using begun_inv [OF assms(2)] by simp
next
  case (resumed b st answer t u ky db p)
  then show ?thesis using resumed_inv [OF assms(2)] by simp
next
  case (gated ev db)
  then show ?thesis using gated_inv [OF assms(2)] by simp
next
  case (lp t db)
  then show ?thesis using lp_inv [OF assms(2)] by simp
next
  case (crashed db t)
  then show ?thesis using crashed_inv [OF assms(2)] by simp
next
  case (reconciled trade rest t u1 u2 wallet answer rep db r)
  then show ?thesis using reconciled_inv [OF assms(2)] by simp
qed

lemma sys_run_inv:
  assumes "sys_run E W sy tr sy'" "no_trades sy"
  shows "sys_inv tr sy'"
  using assms
proof (induction rule: sys_run.induct)
  case (run_start sy)
  then show ?case by (simp add: sys_inv_def no_trades_def)
next
  case (run_next sy tr sy1 e sy2)
  then show ?case using sys_step_inv by blast
qed

lemma sys_step_evolves:
  assumes "sys_step E W sy e sy'" "sys_inv tr sy"
  shows "evolves (sy_db sy) (sy_db sy')"
  using assms(1)
proof cases
  case (begun t cycleId rq wallet db p)
  then show ?thesis using early_starting(1) [of "sy_db sy" E t cycleId rq wallet] by (simp add: starting_def)
next
  case (resumed b st answer t u ky db p)
  have swap: "stage_swap st" using assms(2) resumed by (simp add: sys_inv_def)
  show ?thesis using real_resumes(1) [OF resumed(4) swap resumed(5)] resumed(2) by (simp add: resumes_def)
next
  case (gated ev db)
  then show ?thesis using same_trades [OF gate_step_trades [OF gated(3)]] by (simp add: outside_def evolves_same)
next
  case (lp t db)
  then show ?thesis using lp_writes_evolves by (auto simp: outside_def)
next
  case (crashed db t)
  then show ?thesis by (simp add: boot_trades evolves_same)
next
  case (reconciled trade rest t u1 u2 wallet answer rep db r)
  then show ?thesis using only_evolves [OF reconcile_row_only] by auto
qed

lemma sys_run_evolves:
  assumes "sys_run E W sy tr sy'" "no_trades sy0" "sys_run E W sy0 tr0 sy"
  shows "\<exists>tr1. sys_run E W sy0 tr1 sy' \<and> evolves (sy_db sy) (sy_db sy')"
  using assms
proof (induction rule: sys_run.induct)
  case (run_start sy)
  then show ?case by (auto intro: evolves_same)
next
  case (run_next sy tr sy1 e sy2)
  then obtain tr1 where r: "sys_run E W sy0 tr1 sy1" "evolves (sy_db sy) (sy_db sy1)" by blast
  have "evolves (sy_db sy1) (sy_db sy2)" using sys_step_evolves [OF run_next(2) sys_run_inv [OF r(1) run_next.prems(1)]] .
  with r evolves_comp sys_run.run_next [OF r(1) run_next(2)] show ?case by blast
qed

section \<open>Properties\<close>

lemma after_signing: "life.leads T_signed s \<longleftrightarrow> s \<in> {T_signed, T_broadcast, T_filled, T_failed}"
proof
  show "s \<in> {T_signed, T_broadcast, T_filled, T_failed}" if "life.leads T_signed s"
    using that by (rule life.leads_closed) auto
  have "life.leads T_signed T_broadcast" "life.leads T_signed T_failed"
    by (auto intro!: life.leads_step [OF life.leads_refl])
  moreover from this(1) have "life.leads T_signed T_filled" by (rule life.leads_step) simp
  ultimately show "life.leads T_signed s" if "s \<in> {T_signed, T_broadcast, T_filled, T_failed}" using that by auto
qed

text \<open>C5. Across any history of cycles, gate decisions, policy and switch changes, crashes, restarts and reconciliations,
  the executor's key is used at most once for each trade, and a use leaves its mark for ever: the trade's row
  names the signed action, is signed, broadcast, filled or failed, and until a fill settles it holds the hash of
  exactly the transaction that was signed.\<close>

theorem signs_once:
  assumes "no_trades sy0" "sys_run E W sy0 tr sy"
  shows "distinct (map ke_trade tr) \<and>
    (\<forall>e \<in> set tr. \<exists>r. getTrade (sy_db sy) (ke_trade e) = Some r \<and> td_actionId r = actionId (ke_action e) \<and>
       td_status r \<in> {T_signed, T_broadcast, T_filled, T_failed} \<and>
       (td_status r \<noteq> T_filled \<longrightarrow> td_txHash r = Some (sx_hash (ke_signed e))))"
  using sys_run_inv [OF assms(2,1)] by (auto simp: sys_inv_def event_inv_def after_signing)

text \<open>What the checks before the key guarantee.\<close>

lemma refusal_none:
  "refusal act db = None \<longleftrightarrow> a_mode act = LIVE \<and> getMode db = LIVE \<and> \<not> sw_emergencyStop (getSwitches db) \<and>
     \<not> sw_globalPause (getSwitches db)"
  by (simp add: refusal_def)

definition context_approved :: "exec_env \<Rightarrow> proposed_action \<Rightarrow> signing_context \<Rightarrow> bool" where
  "context_approved W act ctx = (case ctx of
     Ctx_evm c \<Rightarrow> (\<exists>approved gas price. feeInNativeUnits (fee_detail act) = Inr approved \<and> js_BigInt (xc_gas c) = Inr gas \<and>
         js_BigInt (xc_maxFeePerGas c) = Inr price \<and> gas * price \<le> approved) \<and>
       (toLowerCase (xc_to c) = toLowerCase (a_contract act) \<or>
        a_kind act = Approve \<and> toLowerCase (xc_to c) = tr_address (tokenIn act))
   | Ctx_solana _ transaction _ \<Rightarrow> (\<exists>s. summarizeSolanaTransaction (xe_codec W) transaction = Inr s \<and>
       a_contract act \<in> set (ms_programIds s) \<and>
       set (ms_programIds s) \<subseteq> set (case programIds act of None \<Rightarrow> [] | Some ids \<Rightarrow> ids) \<union> set SOLANA_SYSTEM_PROGRAMS))"

lemma signing_allowed:
  "signing_refusal W act ctx db = Inr None \<longleftrightarrow> refusal act db = None \<and> context_approved W act ctx"
proof (cases ctx)
  case (Ctx_evm c)
  then show ?thesis
    by (auto simp: signing_refusal_def feeOverrun_def wrongTarget_def context_approved_def sbind_eq_Inr Let_def not_le
        split: option.splits, (force simp: not_less)+)
next
  case (Ctx_solana a transaction b)
  then show ?thesis
    by (auto simp: signing_refusal_def feeOverrun_def unapprovedPrograms_def context_approved_def Let_def filter_empty_conv
        split: option.splits sum.splits)
qed

text \<open>C4. The key is used by a segment of the live executor when the segment's outcome depends on the answer of the
  vault, so that nothing the code checks before asking the vault is assumed. Whenever it is, the runtime is in LIVE mode,
  neither stopped nor paused, the action is a LIVE action that the gate allowed in this installation's history, and the
  transaction is the one approved: on an EVM chain its gas and fee stay within the fee that was decided on and its
  target is the approved contract or, for an approval, the approved token; on Solana it decodes, it invokes the approved
  program and no program that is neither approved nor a system program.\<close>

theorem signing_is_guarded:
  assumes "no_trades sy0" "sys_run E W sy0 tr sy" "sys_step E W sy (Some e) sy'"
  shows "getMode (sy_db sy) = LIVE \<and> \<not> sw_emergencyStop (getSwitches (sy_db sy)) \<and>
    \<not> sw_globalPause (getSwitches (sy_db sy)) \<and> a_mode (ke_action e) = LIVE \<and>
    (\<exists>row \<in> sy_seen sy. dr_action row = ke_action e \<and> allowed (dr_decision row)) \<and>
    context_approved W (ke_action e) (ke_context e)"
proof -
  have inv: "sys_inv tr sy" using sys_run_inv [OF assms(2,1)] .
  from assms(3) obtain b st t u ky answer where s: "sy_cycle sy = Some (b, st)" "key_used W t u ky st answer (sy_db sy) = Some e"
    by cases auto
  then obtain call r where k: "live_of st = Some call" "live_key_used W t u ky call r (sy_db sy) = Some e"
    by (auto simp: key_used_def split: option.splits cycle_answer.splits)
  have c: "call_inv tr sy call" using inv s(1) k(1) by (simp add: sys_inv_def)
  obtain ctx where "signing_refusal W (lc_action call) ctx (sy_db sy) = Inr None" "ke_action e = lc_action call" "ke_context e = ctx"
    using k(2) by (rule live_key_used_Some) auto
  with c show ?thesis by (auto simp: signing_allowed refusal_none call_inv_def)
qed

text \<open>C7. What is on its way to the network is on its row first: whenever the machine waits for a broadcast, the
  trade's row is signed and holds the hash of that very transaction, and whenever it waits for a receipt the row is
  broadcast with the same hash. A crash at either point leaves the row among those the next boot reconciles.\<close>

theorem hash_before_broadcast:
  assumes "no_trades sy0" "sys_run E W sy0 tr sy" "sy_cycle sy = Some (b, st)" "live_of st = Some call"
  shows "(\<exists>r. getTrade (sy_db sy) (lc_tradeId call) = Some r \<and> td_actionId r = actionId (lc_action call) \<and>
     (case lc_stage call of
        At_broadcast s _ \<Rightarrow> td_status r = T_signed \<and> td_txHash r = Some (sx_hash s)
      | At_receipt s _ _ _ \<Rightarrow> td_status r = T_broadcast \<and> td_txHash r = Some (sx_hash s)
      | _ \<Rightarrow> td_status r = T_dispatched) \<and>
     r \<in> set (listInFlight (bootState t (sy_db sy))))"
proof -
  have "call_inv tr sy call" using sys_run_inv [OF assms(2,1)] assms(3,4) by (simp add: sys_inv_def)
  then obtain r where r: "getTrade (sy_db sy) (lc_tradeId call) = Some r" "td_actionId r = actionId (lc_action call)"
    "row_matches (lc_stage call) r"
    by (auto simp: call_inv_def call_ok_def)
  have "r \<in> set (xd_trades (sy_db sy))" using r(1) by (auto simp: getTrade_def find_Some_iff)
  moreover have "in_flight r" using r(3) by (cases "lc_stage call") (auto simp: in_flight_def)
  ultimately show ?thesis using r by (cases "lc_stage call") (auto simp: listInFlight_def boot_trades)
qed

text \<open>Trades only move forward: whatever happens after a point of a run, a row that existed then still exists with
  the same identity, action, chain and side, its status has advanced along the life cycle, a row that had ended
  is in the same status, and a hash recorded by signing is still there unless a fill settled the row.\<close>

theorem trade_history_kept:
  assumes "no_trades sy0" "sys_run E W sy0 tr0 sy" "sys_run E W sy tr sy'" "getTrade (sy_db sy) i = Some r"
  shows "\<exists>r'. getTrade (sy_db sy') i = Some r' \<and> trade_static r' = trade_static r \<and>
    (TRANSITIONS (td_status r) = [] \<longrightarrow> td_status r' = td_status r) \<and> trade_rank (td_status r) \<le> trade_rank (td_status r') \<and>
    (td_status r \<in> {T_signed, T_broadcast} \<longrightarrow> td_status r' \<noteq> T_filled \<longrightarrow> td_txHash r' = td_txHash r)"
proof -
  have "evolves (sy_db sy) (sy_db sy')" using sys_run_evolves [OF assms(3,1,2)] by blast
  from evolves_get [OF this assms(4)] obtain r' where r': "getTrade (sy_db sy') i = Some r'" "trade_static r' = trade_static r"
    "life.leads (td_status r) (td_status r')"
    "3 \<le> trade_rank (td_status r) \<longrightarrow> td_status r' \<noteq> T_filled \<longrightarrow> td_txHash r' = td_txHash r"
    by (auto simp: row_evolves_def)
  with life.leads_terminal [OF r'(3)] life.leads_rank [OF r'(3)] show ?thesis by auto
qed

end
