(* ===== verification/Exec_Booking.thy ===== *)
theory Exec_Booking
  imports Exec_Safety
begin

text \<open>
  Outcomes and money: what a paper execution books, how long a receipt is waited for, what a reconciliation
  leaves of each row, and what a crash inside the booking costs.
\<close>

section \<open>One fill per booking\<close>

lemma adjust_fills: "adjustPaperBalance db t c k d n = Inr db' \<Longrightarrow> db_fills db' = db_fills db"
  by (auto simp: adjustPaperBalance_def setPaperBalance_def sbind_eq_Inr Let_def insertPaper_def updatePaper_def
      split: option.splits if_splits)

lemma reduce_fills: "reducePosition db k a p t = Inr (db', x) \<Longrightarrow> db_fills db' = db_fills db"
  by (auto simp: reducePosition_def sbind_eq_Inr Let_def deletePosition_def updatePosition_def split: option.splits if_splits)

lemma add_fills: "addPosition db u k d a c t = Inr db' \<Longrightarrow> db_fills db' = db_fills db"
  by (auto simp: addPosition_def sbind_eq_Inr insertPosition_def updatePosition_def split: option.splits)

lemma settle_fills: "settle_paper db t i a b = Inr db' \<Longrightarrow> db_fills db' = db_fills db"
  by (auto simp: settle_paper_def sbind_eq_Inr dest!: adjust_fills split: if_splits)

text \<open>Without any assumption on the ledger: one row more, made of the input.\<close>

lemma recordFill_appends:
  assumes "recordFill lg t u1 u2 i = Inr (lg', f)"
  shows "db_fills lg' = db_fills lg @ [f]" "fl_tradeId f = rf_tradeId i" "fl_mode f = rf_mode i" "fl_simulated f = rf_simulated i"
    "fl_amountIn f = rf_amountIn i" "fl_amountOut f = rf_amountOut i"
  using assms
  by (auto simp: recordFill_def sbind_eq_Inr Let_def fill_row_def dest!: reduce_fills add_fills settle_fills split: if_splits)

section \<open>Paper execution\<close>

lemma fail_move:
  assumes "getTrade db i = Some r" "T_failed \<in> set (TRANSITIONS (td_status r))"
  shows "\<exists>r'. getTrade (fst (paper_fail t i act reason db)) i = Some r' \<and> td_status r' = T_failed \<and>
    gd_ledger (fst (paper_fail t i act reason db)) = gd_ledger db \<and> \<not> oc_filled (snd (paper_fail t i act reason db))"
proof -
  obtain db' r' where m: "markFailed t i reason db = Inr (db', r')"
    using assms by (auto simp: markFailed_def transition_def Let_def)
  have "getTrade db' i = Some r'" "td_status r' = T_failed"
    using moved [OF m [unfolded markFailed_def]] by auto
  then show ?thesis using transition_frame(1) [OF m [unfolded markFailed_def]]
    by (simp add: paper_fail_def m Let_def audit_append_def getTrade_def)
qed

text \<open>Dispatch of an allowed row cannot fail.\<close>

lemma dispatch_move:
  assumes "getTrade db i = Some r" "td_status r = T_allowed"
  obtains db1 r1 where "trade_markDispatched t i db = Inr (db1, r1)" "getTrade db1 i = Some r1" "td_status r1 = T_dispatched"
    "gd_ledger db1 = gd_ledger db"
proof -
  obtain db1 r1 where m: "trade_markDispatched t i db = Inr (db1, r1)"
    using assms by (auto simp: trade_markDispatched_def transition_def Let_def)
  show thesis
    using that [OF m] moved [OF m [unfolded trade_markDispatched_def]] transition_frame(1) [OF m [unfolded trade_markDispatched_def]]
    by auto
qed

definition paper_done :: "int \<Rightarrow> string \<Rightarrow> proposed_action \<Rightarrow> exec_quote \<Rightarrow> 'a trade_db_scheme \<Rightarrow> 'a trade_db_scheme \<Rightarrow> exec_outcome \<Rightarrow> bool" where
  "paper_done t i act q db db' x \<longleftrightarrow> (\<exists>r. getTrade db' i = Some r \<and> oc_txHash x = None \<and> oc_mode x = PAPER \<and>
     (if oc_filled x
      then td_status r = T_filled \<and> (\<exists>f aq received minOut. db_fills (gd_ledger db') = db_fills (gd_ledger db) @ [f] \<and>
        fl_tradeId f = i \<and> fl_mode f = PAPER \<and> fl_simulated f \<and> fl_amountIn f = amountIn act \<and>
        a_quote act = Some aq \<and> paper_amounts aq q = Inr (received, minOut) \<and> minOut \<le> received \<and>
        fl_amountOut f = int_str received \<and> oc_amountOut x = Some (int_str received))
      else td_status r = T_failed \<and> gd_ledger db' = gd_ledger db))"

lemma paper_fail_done:
  assumes "getTrade db1 i = Some r" "T_failed \<in> set (TRANSITIONS (td_status r))" "gd_ledger db1 = gd_ledger db"
  shows "paper_done t i act q db (fst (paper_fail t i act reason db1)) (snd (paper_fail t i act reason db1))"
  using fail_move [OF assms(1,2), where t = t and act = act and reason = reason] assms(3)
  by (auto simp: paper_done_def paper_fail_def Let_def)

text \<open>C6. Executing an allowed trade on paper always returns, and all or nothing happens: either the row is filled and the
  ledger has exactly one fill more, simulated, of the action's input and of an output that is at least the
  quote's minimum, or the row is failed and the ledger is untouched; no hash is ever reported.\<close>

theorem paper_all_or_nothing:
  assumes "getTrade db i = Some r" "td_status r = T_allowed" "a_quote act \<noteq> None"
  shows "\<exists>db' x. paper_execute msg t u1 u2 i act q px db = (db', Inr x) \<and> paper_done t i act q db db' x"
proof -
  obtain aq where aq: "a_quote act = Some aq" using assms(3) by auto
  obtain db1 r1 where d: "trade_markDispatched t i db = Inr (db1, r1)" "getTrade db1 i = Some r1" "td_status r1 = T_dispatched"
    "gd_ledger db1 = gd_ledger db"
    by (rule dispatch_move [OF assms(1,2)])
  define db2 where "db2 = markDispatched t act db1"
  have g: "getTrade db2 i = Some r1" "gd_ledger db2 = gd_ledger db" using d(2,4) by (simp_all add: db2_def markDispatched_def getTrade_def)
  note fail = paper_fail_done [OF g(1) _ g(2), of t act q]
  have fail': "\<exists>db' x. apsnd Inr (paper_fail t i act reason db2) = (db', Inr x) \<and> paper_done t i act q db db' x" for reason
    using fail [of reason] d(3) by (cases "paper_fail t i act reason db2") simp
  have fill: "markFilled t i out n f h (db2\<lparr>gd_ledger := lg\<rparr>) \<noteq> Inl e" for out n f h lg e
    using g(1) d(3) by (auto simp: markFilled_def transition_def Let_def)
  have filled: "paper_done t i act q db (audit_append t ev db3) y"
    if "markFilled t i out n f h (db2\<lparr>gd_ledger := lg\<rparr>) = Inr (db3, r3)"
      "recordFill (gd_ledger db2) t u1 u2 (paper_fill i act px received fee t) = Inr (lg, row)"
      "paper_amounts aq q = Inr (received, minOut)" "minOut \<le> received"
      "oc_filled y" "oc_txHash y = None" "oc_mode y = PAPER" "oc_amountOut y = Some (int_str received)"
    for out n f h lg ev y row received minOut fee db3 r3
  proof -
    note m = that(1) [unfolded markFilled_def]
    have "getTrade db3 i = Some r3" "td_status r3 = T_filled" using moved [OF m] by auto
    moreover have "gd_ledger db3 = lg" using transition_frame(1) [OF m] by simp
    ultimately show ?thesis
      using that(3-) recordFill_appends [OF that(2)] g(2)
      by (auto simp: paper_done_def paper_fill_def aq audit_append_def getTrade_def)
  qed
  show ?thesis
    by (auto simp: paper_execute_def aq d(1) db2_def [symmetric] Let_def not_less fill
        split: sum.split intro!: fail' intro: filled)
qed

section \<open>Waiting for a receipt\<close>

text \<open>A call fed with the answers of its polls, each with the clock after its sleep.\<close>

fun polls :: "exec_env \<Rightarrow> uuids \<Rightarrow> keys \<Rightarrow> live_call \<Rightarrow> (int \<times> receipt result) list \<Rightarrow> 'a trade_db_scheme \<Rightarrow>
    'a trade_db_scheme \<times> live_progress" where
  "polls W u ky call [] db = (db, Waiting call)"
| "polls W u ky call ((t, answer) # rest) db = (case live_resume W t u ky call (An_receipt answer) db of
     (db', Waiting call') \<Rightarrow> polls W u ky call' rest db'
   | r \<Rightarrow> r)"

text \<open>Each poll is followed by a sleep of at least the interval.\<close>

fun paced :: "int \<Rightarrow> (int \<times> 'b) list \<Rightarrow> bool" where
  "paced t [] = True"
| "paced t ((t', _) # rest) = (t + RECEIPT_POLL_MS \<le> t' \<and> paced t' rest)"

lemma settle_over: "live_settle t u1 u2 call last' s b db = (db', p) \<Longrightarrow> p \<noteq> Waiting call'"
  by (auto simp: live_settle_def Let_def split: option.splits if_splits prod.splits sum.splits dest: live_fail_only(2))

lemma poll_cases:
  assumes "lc_stage call = At_receipt s b deadline l" "live_resume W t u ky call (An_receipt answer) db = (db', Waiting call')"
  shows "t < deadline" "db' = db" "\<exists>l'. call' = call\<lparr>lc_stage := At_receipt s b deadline l'\<rparr>"
  using assms by (auto simp: live_resume_def live_polled_def Let_def dest: settle_over split: if_splits sum.splits)

lemma polls_waiting:
  assumes "polls W u ky call xs db = (db', Waiting call')" "lc_stage call = At_receipt s b deadline l" "paced t xs" "xs \<noteq> []"
  shows "t + RECEIPT_POLL_MS * int (length xs) < deadline"
  using assms
proof (induction xs arbitrary: call t l db)
  case (Cons x xs)
  obtain t' answer where x: "x = (t', answer)" by (cases x)
  obtain db1 p where r: "live_resume W t' u ky call (An_receipt answer) db = (db1, p)" by fastforce
  then obtain call1 where p: "p = Waiting call1" using Cons.prems(1) x by (cases p) auto
  note c = poll_cases [OF Cons.prems(2) r [unfolded p]]
  show ?case
  proof (cases "xs = []")
    case True
    then show ?thesis using c(1) Cons.prems(3) x by simp
  next
    case False
    obtain l' where "lc_stage call1 = At_receipt s b deadline l'" using c(3) by auto
    with Cons.IH [of call1 db1 l' t'] Cons.prems(1,3) r p x False show ?thesis by (simp add: algebra_simps)
  qed
qed simp

text \<open>The wait for a receipt ends: after a broadcast the executor polls at most thirty times, whatever the adapter answers,
  and then finishes or raises. While it polls it writes nothing.\<close>

theorem receipt_wait_ends:
  assumes "live_broadcasted W t call (Inr ()) s b db = (db1, Waiting call1)" "paced t xs"
    "polls W u ky call1 xs db1 = (db2, p)"
  shows "(30 \<le> length xs \<longrightarrow> (\<forall>call2. p \<noteq> Waiting call2)) \<and> (\<forall>call2. p = Waiting call2 \<longrightarrow> db2 = db1)"
proof -
  obtain l where st: "lc_stage call1 = At_receipt s b (t + RECEIPT_TIMEOUT_MS) l"
    using assms(1) by (auto simp: live_broadcasted_def Let_def split: sum.splits)
  have "db2 = db1" if "p = Waiting call2" for call2
    using assms(3) st unfolding that
  proof (induction xs arbitrary: call1 l)
    case (Cons x xs)
    obtain t' answer where x: "x = (t', answer)" by (cases x)
    obtain db3 q where r: "live_resume W t' u ky call1 (An_receipt answer) db1 = (db3, q)" by fastforce
    then obtain call3 where q: "q = Waiting call3" using Cons.prems(1) x by (cases q) auto
    note c = poll_cases [OF Cons.prems(2) r [unfolded q]]
    from c(3) obtain l' where "lc_stage call3 = At_receipt s b (t + RECEIPT_TIMEOUT_MS) l'" by auto
    from Cons.IH [OF _ this] Cons.prems(1) r q x c(2) show ?case by simp
  qed simp
  moreover have "p \<noteq> Waiting call2" if "30 \<le> length xs" for call2
  proof
    assume "p = Waiting call2"
    moreover have "xs \<noteq> []" using that by auto
    ultimately have "t + RECEIPT_POLL_MS * int (length xs) < t + RECEIPT_TIMEOUT_MS"
      using polls_waiting [OF _ st assms(2)] assms(3) by blast
    then show False using that by (simp add: RECEIPT_POLL_MS_def RECEIPT_TIMEOUT_MS_def)
  qed
  ultimately show ?thesis by blast
qed

section \<open>Reconciliation\<close>

lemma conflict_free:
  assumes "getTrade db i = Some r" "s \<in> set (TRANSITIONS (td_status r))"
  shows "\<exists>db' r'. transition t i s cols db = Inr (db', r')"
  using assms by (auto simp: transition_def Let_def)

lemma filled_row: "markFilled t i out n f h db = Inr (db', r) \<Longrightarrow>
    getTrade db' i = Some r \<and> td_status r = T_filled \<and> gd_ledger db' = gd_ledger db"
  unfolding markFilled_def by (auto dest: moved transition_frame(1))

text \<open>Reconciling a row of the executor never re-sends anything and tells the truth about it: a row that was never signed,
  or has no hash, fails; one whose transaction failed on chain fails, one whose transaction was confirmed is filled, and
  one the chain does not know yet stays as it is. Exactly one counter of the report says which.\<close>

theorem reconcile_row_truth:
  assumes "getTrade db (td_id trade) = Some trade" "in_flight trade" "\<not> lp_owned trade"
    "reconcile_row t u1 u2 wallet answer trade rep db = (db', Inr rep')"
  shows "\<exists>r. getTrade db' (td_id trade) = Some r \<and> rr_checked rep' = rr_checked rep + 1 \<and>
    ((td_status r = T_failed \<and> rep' = rep\<lparr>rr_checked := rr_checked rep + 1, rr_failed := rr_failed rep + 1\<rparr> \<and>
       (td_status trade = T_dispatched \<or> td_txHash trade \<in> {None, Some ''''} \<or> (\<exists>rc. answer = Some rc \<and> rc_status rc = R_failed))) \<or>
     (td_status r = T_filled \<and> rep' = rep\<lparr>rr_checked := rr_checked rep + 1, rr_filled := rr_filled rep + 1\<rparr> \<and>
       (\<exists>rc. answer = Some rc \<and> rc_status rc = R_confirmed)) \<or>
     (r = trade \<and> db' = db \<and> rep' = rep\<lparr>rr_checked := rr_checked rep + 1, rr_stillPending := rr_stillPending rep + 1\<rparr>))"
proof -
  have failed: "getTrade db2 (td_id trade) = Some r2 \<and> td_status r2 = T_failed"
    if "markFailed t (td_id trade) reason db1 = Inr (db2, r2)" for reason db1 db2 r2
    using moved [OF that [unfolded markFailed_def]] by auto
  have booked: "\<exists>r. getTrade db2 (td_id trade) = Some r \<and> td_status r = T_filled"
    if "bookFill t u1 u2 trade rc px bc db1 = (db2, Inr fee)" for rc px bc db1 db2 fee
    using that
    by (auto simp: bookFill_def Let_def split: sum.splits if_splits dest!: filled_row)
  show ?thesis
    using assms
    by (auto simp: reconcile_row_def Let_def settled_def split: if_split_asm sum.split_asm option.split_asm prod.split_asm
        dest!: failed booked)
qed

section \<open>A crash inside the booking\<close>

lemma book_ledger_appends:
  assumes "book_ledger t u1 u2 trade rc px bc fee db = Inr db1" "tp_tokenInUsd px \<noteq> ''0''" "tp_tokenOutUsd px \<noteq> ''0''"
  shows "\<exists>f. db_fills (gd_ledger db1) = db_fills (gd_ledger db) @ [f] \<and> fl_tradeId f = td_id trade \<and> \<not> fl_simulated f"
proof -
  obtain lg f where r: "recordFill (gd_ledger db) t u1 u2 (live_fill trade rc px bc fee t) = Inr (lg, f)" "db1 = db\<lparr>gd_ledger := lg\<rparr>"
    using assms by (auto simp: book_ledger_def sbind_eq_Inr)
  show ?thesis using recordFill_appends [OF r(1)] by (auto simp: r(2) live_fill_def)
qed

lemma state_step_ledger: "state_step (db :: 'a gate_db_scheme) ev db' \<Longrightarrow> gd_ledger db' = gd_ledger db"
  using state_step_auth [of db ev db'] by (cases db; cases db') simp

definition fills_of :: "string \<Rightarrow> 'a gate_db_scheme \<Rightarrow> nat" where
  "fills_of i db = length (filter (\<lambda>f. fl_tradeId f = i) (db_fills (gd_ledger db)))"

lemma bookFill_fills:
  assumes "bookFill t u1 u2 trade rc px bc db = (db', Inr fee)" "td_kind trade \<noteq> Approve"
    "tp_tokenInUsd px \<noteq> ''0''" "tp_tokenOutUsd px \<noteq> ''0''"
  shows "fills_of (td_id trade) db' = fills_of (td_id trade) db + 1"
proof -
  obtain fee' db1 r h where b: "book_ledger t u1 u2 trade rc px bc fee' db = Inr db1"
    "markFilled t (td_id trade) (fill_amount trade rc) h fee' (Some (rc_hash rc)) db1 = Inr r" "gd_ledger db' = gd_ledger (fst r)"
    using assms(1,2) by (auto simp: bookFill_def Let_def audit_append_def split: sum.splits if_splits)
  have "gd_ledger (fst r) = gd_ledger db1" using b(2) by (cases r) (auto dest: filled_row)
  then show ?thesis using book_ledger_appends [OF b(1) assms(3,4)] b(3) by (auto simp: fills_of_def)
qed

text \<open>C35. The booking of a live fill is not atomic, and a crash inside it books the fill twice: once the ledger has the fill
  (\<open>db1\<close>) the row is still open, and when the process dies before the row is marked, the reconciliation of the next boot
  finds it in flight with a confirmed receipt and records the same trade's fill again.\<close>

theorem crash_books_twice:
  assumes "getTrade db (td_id trade) = Some trade" "td_status trade = T_broadcast" "\<not> lp_owned trade" "td_kind trade \<noteq> Approve"
    "td_quotePrices trade = Some px" "tp_tokenInUsd px \<noteq> ''0''" "tp_tokenOutUsd px \<noteq> ''0''" "rc_status rc = R_confirmed"
    "book_ledger t u1 u2 trade rc px bc fee db = Inr db1"
    "reconcile_row t' u3 u4 wallet (Some rc) trade rep (bootState t' db1) = (db2, Inr rep')" "rr_filled rep' \<noteq> rr_filled rep"
  shows "trade \<in> set (listInFlight (bootState t' db1)) \<and> fills_of (td_id trade) db2 = fills_of (td_id trade) db + 2"
proof -
  have first: "fills_of (td_id trade) db1 = fills_of (td_id trade) db + 1"
    using book_ledger_appends [OF assms(9,6,7)] by (auto simp: fills_of_def)
  have same: "gd_ledger (bootState t' db1) = gd_ledger db1" "xd_trades (bootState t' db1) = xd_trades db1"
    by (rule state_step_ledger [OF state_step.boot]) (rule state_step_trades [OF state_step.boot])
  have trades: "xd_trades db1 = xd_trades db" using assms(9) by (auto simp: book_ledger_def sbind_eq_Inr split: if_splits)
  have "trade \<in> set (xd_trades db)" using assms(1) by (auto simp: getTrade_def find_Some_iff)
  then have listed: "trade \<in> set (listInFlight (bootState t' db1))"
    using assms(2) by (simp add: listInFlight_def same trades in_flight_def)
  have "\<exists>fee. bookFill t' u3 u4 trade rc px (reconcile_booking trade) (bootState t' db1) = (db2, Inr fee)"
    using assms(2,3,5,8,10,11)
    by (auto simp: reconcile_row_def reconcile_broadcast_def Let_def settled_def
        split: if_split_asm sum.split_asm prod.split_asm)
  then have "fills_of (td_id trade) db2 = fills_of (td_id trade) (bootState t' db1) + 1"
    using bookFill_fills assms(4,6,7) by blast
  with first listed show ?thesis by (simp add: fills_of_def same)
qed

end
