(* ===== verification/Exec_Fixtures.thy ===== *)
theory Exec_Fixtures
  imports Exec_Safety Gate_Fixtures
begin

text \<open>
  A concrete run of the trading machine on Base in LIVE mode: a cycle opens 10 USD of WETH, the gate allows the
  swap, the executor builds, simulates, prepares, signs, broadcasts and settles it. Each await is answered with the
  value a healthy adapter gives; signatures are constants. The witnesses of the trading
  properties apply the properties to it.
\<close>

definition sample_exec_env :: exec_env where
  "sample_exec_env = \<lparr>xe_codec = \<lparr>b64_decode = (\<lambda>_. None), b64_encode = (\<lambda>_. []), b58_encode = (\<lambda>_. []),
       ed25519_sign = (\<lambda>_ _. []), ed25519_public = (\<lambda>_. [])\<rparr>,
     xe_evmAddress = (\<lambda>_. ''0xaGent''), xe_evmSign = (\<lambda>_ _. Inr \<lparr>sx_raw = ''0x02'', sx_hash = ''0xhash''\<rparr>), xe_message = (\<lambda>_. ''error'')\<rparr>"

definition sample_trade_db :: trade_db where
  "sample_trade_db = \<lparr>au_rows = [], au_seq = 0, sd_installation = None, sd_switches = None, sd_activation = None,
     sd_hooks = [], ad_credential = None, ad_sessions = [], ad_reauth = [], ad_throttle = None,
     gd_policy = Some (1, Some sample_policy), gd_decisions = [], gd_cooldowns = Map.empty, gd_lastAny = None,
     gd_ledger = empty_ledger, xd_trades = []\<rparr>"

text \<open>The same installation, set up, with the checklist walked and live.\<close>

definition sample_live_db :: trade_db where
  "sample_live_db = (case createInstallation (NOW - 400000) ''i'' ''n'' [Base] (bootState (NOW - 500000) sample_trade_db) of
     Inl e \<Rightarrow> sample_trade_db
   | Inr db \<Rightarrow> (case activateLive (NOW - 200000) ''operator''
         (foldl (\<lambda>d s. fst (recordActivationStep (NOW - 300000) s ''operator'' d)) db STEP_COLUMNS) of
       Inl e \<Rightarrow> sample_trade_db | Inr (db, _) \<Rightarrow> db))"

lemma live_db_live: "getMode sample_live_db = LIVE"
  by code_simp

section \<open>The cycle\<close>

definition sample_ids :: uuids where
  "sample_ids = \<lparr>ui_trade = ''trade'', ui_action = ''approve'', ui_position = ''pos'', ui_fill = ''fill''\<rparr>"

definition sample_keys :: keys where
  "sample_keys = \<lparr>ky_wallet = Inr ''0xAgent'', ky_vault = Inr ([], ''0xAgent'')\<rparr>"

definition sample_cycle_request :: cycle_request where
  "sample_cycle_request = \<lparr>cr_chain = Base, cr_source = Src_scheduler\<rparr>"

definition sample_decision :: trade_decision where
  "sample_decision = \<lparr>dn_action = OPEN, dn_chain = Base, dn_market = ''WETH'', dn_reason = ''momentum'',
     dn_requestedNotionalUsd = ''10'', dn_evidence = [], dn_token = Some BASE_WETH\<rparr>"

definition sample_quote :: exec_quote where
  "sample_quote = \<lparr>eq_chain = Base, eq_protocol = ''uniswap-v4'', eq_contract = ''0x6ff5693b99212da76ad316178a184ab56d299b43'',
     eq_programIds = None, eq_tokenIn = \<lparr>tr_address = BASE_USDC, tr_decimals = 6\<rparr>,
     eq_tokenOut = \<lparr>tr_address = BASE_WETH, tr_decimals = 18\<rparr>, eq_amountIn = ''9999730'',
     eq_expectedAmountOut = ''3999800000000000'', eq_minAmountOut = ''3987800600000000'', eq_slippageBps = 30,
     eq_priceImpactBps = 5, eq_quotedAt = NOW - 2000, eq_source = ''uniswap-v4-quoter'', eq_marketId = ''0xpool'',
     eq_fee_estimatedAt = NOW - 1500, eq_fee_detail = Fee_evm ''250000'' ''10000000''\<rparr>"

definition sample_check :: "string \<Rightarrow> price_check result" where
  "sample_check token = Inr \<lparr>pk_priceUsd = Some (if token = BASE_USDC then ''1.000027'' else ''2500.123456''),
     pk_disputed = False, pk_sources = [(''dexscreener'', NOW - 5000)]\<rparr>"

definition sample_reading :: "balance_reading result" where
  "sample_reading = Inr \<lparr>bl_failed = False, bl_observedAt = Some (NOW - 5000), bl_source = None,
     bl_native = Some ''50000000000000000'', bl_tokens = [(BASE_USDC, ''100000000'')]\<rparr>"

definition sample_answers :: build_answers where
  "sample_answers = \<lparr>ba_fundingAt = NOW, ba_fundingLedger = empty_ledger, ba_fundingBalances = sample_reading,
     ba_pricesAt = NOW, ba_prices = sample_check, ba_ledger = empty_ledger, ba_balancesAt = NOW,
     ba_balances = sample_reading, ba_quote = Inr sample_quote,
     ba_pools = Inr [\<lparr>pl_poolId = ''0xpool'', pl_dexId = Some ''uniswap'', pl_base = BASE_WETH, pl_quote = BASE_USDC,
       pl_liquidityUsd = Some ''5000000'', pl_observedAt = NOW - 5000, pl_source = ''dexscreener''\<rparr>],
     ba_assembledAt = NOW - 1000, ba_actionId = ''action''\<rparr>"

definition sample_base :: cycle_base where
  "sample_base = \<lparr>cb_cycleId = ''cycle'', cb_request = sample_cycle_request, cb_mode = LIVE, cb_policy = sample_policy\<rparr>"

definition sample_proposal :: "build_result result" where
  "sample_proposal = build_proposal sample_externals (xe_message sample_exec_env) (\<lambda>ps. ps)
     (request_of sample_base sample_decision) sample_answers"

definition sample_swap :: proposed_action where
  "sample_swap = sample_live_action\<lparr>a_source := Src_scheduler, amountIn := ''9999730'', rationale := Some ''momentum''\<rparr>"

abbreviation USDC_entry :: token_allow_entry where "USDC_entry \<equiv> \<lparr>ta_address = BASE_USDC, ta_symbol = ''USDC'', ta_decimals = 6\<rparr>"
abbreviation WETH_entry :: token_allow_entry where "WETH_entry \<equiv> \<lparr>ta_address = BASE_WETH, ta_symbol = ''WETH'', ta_decimals = 18\<rparr>"

lemma built_parts:
  "schema_parse sample_externals sample_swap = Inr []"
  "size_of (request_of sample_base sample_decision) empty_ledger USDC_entry ''1.000027'' = Inr (Inr 9999730)"
  "List.find (\<lambda>e. ta_address e = BASE_WETH) (allowlisted_tokens sample_policy Base) = Some WETH_entry"
  "pickFundingToken (request_of sample_base sample_decision) (allowlisted_tokens sample_policy Base) BASE_WETH sample_answers = Inr (Some USDC_entry)"
  "isNativeToken Base BASE_WETH = False" "native_token Base = BASE_NATIVE" "BASE_WETH \<noteq> BASE_USDC" "BASE_NATIVE \<noteq> BASE_USDC" "BASE_NATIVE \<noteq> BASE_WETH"  "BASE_WETH \<noteq> ''''"
  "int_str 9999730 = ''9999730''"
  by code_simp+

definition sample_bp :: built_proposal where
  "sample_bp = \<lparr>bp_action = sample_swap, bp_quote = sample_quote,
     bp_snapshot = swap_snapshot Base sample_quote [(BASE_USDC, sample_stamp ''1.000027''), (BASE_WETH, sample_stamp ''2500.123456''),
        (BASE_NATIVE, sample_stamp ''2500.123456'')]
       (pair_liquidity (\<lambda>ps. ps) BASE_USDC BASE_WETH sample_quote (ba_pools sample_answers))
       (live_balances Base sample_reading),
     bp_priceLookup = (\<lambda>c token. if c = Base \<and> token \<in> {BASE_USDC, BASE_WETH, BASE_NATIVE}
       then Some (if token = BASE_USDC then ''1.000027'' else ''2500.123456'') else None),
     bp_prices = \<lparr>tp_tokenInUsd = ''1.000027'', tp_tokenOutUsd = ''2500.123456'', tp_nativeUsd = ''2500.123456''\<rparr>,
     bp_side = Side_open\<rparr>"

lemma sample_priced: "stamped_price NOW (sample_check token) = Some (sample_stamp (if token = BASE_USDC then ''1.000027'' else ''2500.123456''))"
  by (simp add: stamped_price_def sample_check_def sample_stamp_def)

lemma swap_made: "(let c = swap_candidate (request_of sample_base sample_decision) sample_answers sample_quote (ref_of USDC_entry) (ref_of WETH_entry) 9999730
   in c\<lparr>idempotencyKey := deriveIdempotencyKey sample_externals c\<rparr>) = sample_swap"
  by (simp add: Let_def swap_candidate_def sample_swap_def sample_live_action_def sample_action_def request_of_def sample_base_def
     sample_decision_def sample_answers_def sample_quote_def ref_of_def is_exit_def sample_cycle_request_def deriveIdempotencyKey_def sample_externals_def built_parts(11))

lemma sample_built: "sample_proposal = Inr (Built sample_bp)"
proof -
  have rq: "pq_decision (request_of sample_base sample_decision) = sample_decision" "pq_chain (request_of sample_base sample_decision) = Base"
   "pq_mode (request_of sample_base sample_decision) = LIVE" "pq_policy (request_of sample_base sample_decision) = sample_policy"
    by (simp_all add: request_of_def sample_base_def sample_cycle_request_def)
  have d: "dn_token sample_decision = Some BASE_WETH" "dn_action sample_decision = OPEN" by (simp_all add: sample_decision_def)
  have ans: "ba_pricesAt sample_answers = NOW" "ba_prices sample_answers = sample_check" "ba_ledger sample_answers = empty_ledger"
    "ba_quote sample_answers = Inr sample_quote" "ba_balances sample_answers = sample_reading" by (simp_all add: sample_answers_def)
  have sel: "sv_value (sample_stamp v) = v" for v by (simp add: sample_stamp_def)
  have as: "assemble sample_externals (\<lambda>ps. ps) (request_of sample_base sample_decision) sample_answers USDC_entry WETH_entry (sample_stamp ''1.000027'')
     (sample_stamp ''2500.123456'') (sample_stamp ''2500.123456'') 9999730 sample_quote = Inr (Built sample_bp)"
    unfolding assemble_def using swap_made
    by (auto simp: Let_def rq built_parts sample_bp_def mode_balances_def ans d side_of_def sel sample_priced fun_eq_iff)
  show ?thesis
    unfolding sample_proposal_def build_proposal_def
    by (simp add: Let_def rq d ans is_exit_def built_parts sample_priced sel as)
qed
definition sample_context :: signing_context where
  "sample_context = Ctx_evm \<lparr>xc_chainId = 8453, xc_from = ''0xAgent'', xc_to = ''0x6ff5693b99212da76ad316178a184ab56d299b43'',
     xc_data = ''0x'', xc_value = ''0'', xc_gas = ''240000'', xc_nonce = 7, xc_maxFeePerGas = ''10000000'',
     xc_maxPriorityFeePerGas = ''1''\<rparr>"

section \<open>The gate\<close>

lemma live_db:
  "getMode sample_live_db = LIVE" "\<not> sw_emergencyStop (getSwitches sample_live_db)" "\<not> sw_globalPause (getSwitches sample_live_db)"
  "gd_policy sample_live_db = Some (1, Some sample_policy)"
  "gd_decisions sample_live_db = []" "gd_ledger sample_live_db = empty_ledger" "xd_trades sample_live_db = []"
  "toRiskState sample_live_db NOW NOW (Some (gd_cooldowns sample_live_db)) (gd_lastAny sample_live_db) (Some live_ledger) = live_state"
  by (simp_all add: sample_live_db_def sample_trade_db_def gate_run_defs toRiskState_def live_state_def)

definition sample_risk_input :: risk_input where
  "sample_risk_input = \<lparr>now = NOW, policy = sample_policy, policyHash = ''hash'', action = sample_swap,
     state = live_state, snapshot = bp_snapshot sample_bp\<rparr>"

lemma sample_passes_tier0: "passes_tier0 sample_risk_input"
  by code_simp

lemma sample_passes_rest: "passes_rest sample_risk_input"
  by code_simp

lemma empty_risk_ledger: "\<exists>lg'. toRiskLedger empty_ledger NOW LIVE price NOW = Inr (lg', live_ledger)"
  by (simp add: toRiskLedger_def mark_def listPositions_def realizedPnlToday_def empty_ledger_def
      live_ledger_def zero_usd recordDayStart_def)

text \<open>A database that differs from the live one in the audit log and the trades only.\<close>

lemma sample_decided:
  assumes "db = sample_live_db\<lparr>au_rows := rows, au_seq := n, xd_trades := trades\<rparr>"
  obtains db' v where "decide sample_env NOW sample_swap (bp_snapshot sample_bp) price db = (db', Inr v)" "allowed v"
    "xd_trades db' = trades" "getMode db' = LIVE" "\<not> sw_emergencyStop (getSwitches db')" "\<not> sw_globalPause (getSwitches db')"
proof -
  obtain d where d: "evaluate sample_externals sample_risk_input = Inr d" "allowed d"
    by (rule passes_allowed [OF sample_passes_tier0 sample_passes_rest])
  obtain lg' where lg: "toRiskLedger empty_ledger NOW LIVE price NOW = Inr (lg', live_ledger)"
    using empty_risk_ledger by blast
  have m: "a_mode sample_swap = LIVE" by (simp add: sample_swap_def sample_live_action_def)
  have p: "policy_getWithHash sample_env db = Inr (sample_policy, ''hash'')"
    by (simp add: assms policy_getWithHash_def policy_get_def live_db sample_env_def sample_policy_parses)
  have f: "gd_decisions db = []" "gd_ledger db = empty_ledger" "xd_trades db = trades" by (simp_all add: assms live_db)
  have prune: "pruneExpired NOW db = db" using f(1) by (simp add: pruneExpired_def)
  have st: "toRiskState (db\<lparr>gd_ledger := lg'\<rparr>) NOW NOW (Some (gd_cooldowns db)) (gd_lastAny db) (Some live_ledger) = live_state"
    using live_db(8) by (simp add: assms toRiskState_def getSwitches_def getActivation_def getMode_def)
  have ev: "gate_evaluate sample_env NOW sample_swap (bp_snapshot sample_bp) price db = (db\<lparr>gd_ledger := lg'\<rparr>, Inr d)"
    using d(1) by (simp add: gate_evaluate_def p runtimeState_def m f(2) lg st sample_risk_input_def)
  obtain db' where db': "persist NOW sample_swap (bp_snapshot sample_bp) d (db\<lparr>gd_ledger := lg'\<rparr>) = Inr db'"
    by (simp add: persist_def f(1))
  have fr: "getMode db' = LIVE" "\<not> sw_emergencyStop (getSwitches db')" "\<not> sw_globalPause (getSwitches db')"
    using live_db(1-3) db' by (auto simp: assms persist_def insertDecision_def audit_append_def getMode_def getSwitches_def split: if_splits)
  have "xd_trades db' = trades" using persist_trades [OF db'] f(3) by simp
  moreover have "decide sample_env NOW sample_swap (bp_snapshot sample_bp) price db = (db', Inr d)"
    by (simp add: decide_def prune findByIdempotencyKey_def f(1) ev db')
  ultimately show thesis using that d(2) fr by blast
qed

section \<open>The run\<close>

definition sample_start :: system where
  "sample_start = \<lparr>sy_db = sample_live_db, sy_cycle = None, sy_rows = [], sy_seen = {}\<rparr>"

definition decided_db :: trade_db where
  "decided_db = audit_append NOW (decision_event sample_base sample_decision) sample_live_db"

lemma sample_parses: "policy_getWithHash sample_env sample_live_db = Inr (sample_policy, ''hash'')"
  by (simp add: policy_getWithHash_def policy_get_def live_db sample_policy_parses)

lemma sample_started: "cycle_start sample_env NOW ''cycle'' sample_cycle_request (Inr ''0xAgent'') sample_live_db =
    (sample_live_db, Cycle sample_base Cy_research)"
proof -
  have "Base \<in> set (enabledChains sample_policy)" by (simp add: sample_policy_def Let_def default_policy_value_def)
  then show ?thesis
    by (simp add: cycle_start_def Let_def live_db policy_exists_def sample_parses sample_base_def sample_cycle_request_def)
qed

lemma to_build:
  "cycle_resume sample_env sample_exec_env t u ky sample_base Cy_research (An_research (Inr ''r'')) sample_live_db =
    (sample_live_db, Cycle sample_base (Cy_prices ''r''))"
  "cycle_resume sample_env sample_exec_env t u ky sample_base (Cy_prices ''r'') (An_prices (\<lambda>_ _. None)) sample_live_db =
    (sample_live_db, Cycle sample_base (Cy_trader ''r''))"
  "cycle_resume sample_env sample_exec_env NOW u ky sample_base (Cy_trader ''r'') (An_trader sample_decision) sample_live_db =
    (decided_db, Cycle sample_base (Cy_build ''r'' sample_decision))"
  "cycle_resume sample_env sample_exec_env t u ky sample_base (Cy_build ''r'' sample_decision) (An_build sample_proposal) db =
    (db, Cycle sample_base (Cy_allowance sample_bp ''r''))"
  by (simp_all add: cycle_resume_def cycle_marked_def cycle_decided_def cycle_built_def decided_db_def sample_built Let_def live_db
      mark_def listPositions_def realizedPnlToday_def empty_ledger_def sample_base_def sample_cycle_request_def sample_decision_def adapter_chains_def
      chainFamily_def)


text \<open>The sample trade is in a state, and nothing forbids its execution.\<close>

definition ready :: "trade_db \<Rightarrow> trade_status \<Rightarrow> bool" where
  "ready db s \<longleftrightarrow> (\<exists>r. getTrade db ''trade'' = Some r \<and> td_status r = s) \<and> getMode db = LIVE \<and>
     \<not> sw_emergencyStop (getSwitches db) \<and> \<not> sw_globalPause (getSwitches db)"

lemma ready_frame [simp]: "ready (audit_append t e db) s = ready db s" "ready (markDispatched t act db) s = ready db s"
  "ready (recordQuotePrices t i px db) s = ready db s"
proof -
  show "ready (audit_append t e db) s = ready db s" "ready (markDispatched t act db) s = ready db s"
    by (simp_all add: ready_def getMode_def getSwitches_def)
  have "getMode (recordQuotePrices t i px db) = getMode db" "getSwitches (recordQuotePrices t i px db) = getSwitches db"
    by (simp_all add: recordQuotePrices_def getMode_def getSwitches_def)
  then show "ready (recordQuotePrices t i px db) s = ready db s" by (auto simp: ready_def getTrade_priced)
qed

lemma ready_moves:
  assumes "ready db s" "s' \<in> set (TRANSITIONS s)" "safe_cols cols"
  obtains db' r where "transition t ''trade'' s' cols db = Inr (db', r)" "ready db' s'"
proof -
  obtain r where r: "getTrade db ''trade'' = Some r" "td_status r = s" using assms(1) by (auto simp: ready_def)
  then obtain db' r' where t: "transition t ''trade'' s' cols db = Inr (db', r')"
    using assms(2) by (auto simp: transition_def Let_def)
  have "getTrade db' ''trade'' = Some r'" "td_status r' = s'" using moved [OF t assms(3)] by auto
  moreover have "getMode db' = LIVE" "\<not> sw_emergencyStop (getSwitches db')" "\<not> sw_globalPause (getSwitches db')"
    using transition_frame [OF t] assms(1) by (auto simp: ready_def getMode_def getSwitches_def)
  ultimately show thesis using that t by (auto simp: ready_def)
qed

lemma ready_go: "ready db s \<Longrightarrow> a_mode act = LIVE \<Longrightarrow> refusal act db = None"
  by (simp add: ready_def refusal_def)

lemma sample_submitted:
  obtains db v where "submit sample_env NOW ''trade'' sample_base LIVE sample_swap (bp_snapshot sample_bp) price side research route decided_db =
    (db, Inr v)" "allowed v" "ready db T_allowed"
proof -
  define row where "row = trade_of ''trade'' NOW sample_swap side research route"
  define db1 where "db1 = insertTrade decided_db row"
  have p: "trade_propose ''trade'' NOW sample_swap side research route decided_db = Inr (db1, row)"
    by (simp add: trade_propose_def Let_def decided_db_def audit_append_def live_db db1_def row_def)
  have one: "xd_trades db1 = [row]" by (simp add: db1_def insertTrade_def decided_db_def audit_append_def live_db)
  have shape: "db1 = sample_live_db\<lparr>au_rows := au_rows db1, au_seq := au_seq db1, xd_trades := [row]\<rparr>"
    by (simp add: db1_def insertTrade_def decided_db_def audit_append_def live_db)
  obtain db2 v where d: "decide sample_env NOW sample_swap (bp_snapshot sample_bp) price db1 = (db2, Inr v)" "allowed v"
    "xd_trades db2 = [row]" "getMode db2 = LIVE" "\<not> sw_emergencyStop (getSwitches db2)" "\<not> sw_globalPause (getSwitches db2)"
    by (rule sample_decided [OF shape])
  have "ready db2 T_proposed" using d(3-) by (simp add: ready_def getTrade_def row_def trade_of_def)
  then obtain db3 r where "trade_decide NOW ''trade'' v db2 = Inr (db3, r)" "ready db3 T_allowed"
    by (rule ready_moves [where s' = T_allowed and t = NOW and cols = "\<lambda>r. r\<lparr>td_amountInUsd := map_option risk_derived.amountInUsd (derived v),
        td_feeUsd := map_option risk_derived.feeUsd (derived v)\<rparr>"])
      (simp_all add: safe_cols_def trade_static_def trade_decide_def d(2))
  then show thesis using that d(2) by (simp add: submit_def p d(1))
qed


text \<open>From the allowance to the signature.\<close>

definition call_at :: "live_stage \<Rightarrow> live_call" where
  "call_at st = \<lparr>lc_tradeId = ''trade'', lc_action = sample_swap, lc_startedAt = NOW, lc_stage = st\<rparr>"

definition sample_booking :: booking where
  "sample_booking = \<lparr>bk_tokenOut = Some BASE_WETH, bk_prices = bp_prices sample_bp, bk_decimals = Some (6, 18)\<rparr>"

definition sample_tx :: unsigned_transaction where
  "sample_tx = \<lparr>ux_payload = ''0x'', ux_summary = ''swap''\<rparr>"

definition sample_signed :: signed_transaction where
  "sample_signed = \<lparr>sx_raw = ''0x02'', sx_hash = ''0xhash''\<rparr>"

lemma sample_signable: "feeOverrun sample_swap sample_context = Inr None"
    "(case sample_context of Ctx_solana _ transaction _ \<Rightarrow> unapprovedPrograms sample_exec_env sample_swap transaction
      | Ctx_evm c \<Rightarrow> wrongTarget sample_swap c) = None"
    "sbind (ky_vault sample_keys) (sign_context sample_exec_env sample_context) = Inr sample_signed"
  by code_simp+

lemma sample_swap_sel: "a_mode sample_swap = LIVE" "a_chain sample_swap = Base" "a_kind sample_swap = Swap" "amountIn sample_swap = ''9999730''"
    "tokenOut sample_swap = \<lparr>tr_address = BASE_WETH, tr_decimals = 18\<rparr>" "tr_decimals (tokenIn sample_swap) = 6"
  by (simp_all add: sample_swap_def sample_live_action_def sample_action_def)

lemma sample_executing:
  obtains db rk where "cycle_resume sample_env sample_exec_env NOW sample_ids sample_keys sample_base (Cy_allowance sample_bp ''r'')
      (An_allowance (Inr 10000000)) decided_db =
    (db, Cycle sample_base (Cy_executing (''trade'', actionId sample_swap) rk (call_at (At_build sample_quote (bp_prices sample_bp)))))"
    "ready db T_dispatched"
proof -
  define route where "route = [(''protocol'', Route_text (eq_protocol sample_quote)), (''source'', Route_text (eq_source sample_quote)),
          (''marketId'', Route_text (eq_marketId sample_quote))]"
  obtain db1 v where s: "submit sample_env NOW ''trade'' sample_base LIVE sample_swap (bp_snapshot sample_bp) (bp_priceLookup sample_bp)
      Side_open (Some ''r'') route decided_db = (db1, Inr v)" "allowed v" "ready db1 T_allowed"
    by (rule sample_submitted)
  have "ready (recordQuotePrices NOW ''trade'' (bp_prices sample_bp) db1) T_allowed" using s(3) by simp
  then obtain db2 r where m: "trade_markDispatched NOW ''trade'' (recordQuotePrices NOW ''trade'' (bp_prices sample_bp) db1) = Inr (db2, r)"
    "ready db2 T_dispatched"
    by (rule ready_moves [where s' = T_dispatched and t = NOW and cols = "\<lambda>r. r"])
      (simp_all add: safe_cols_def trade_markDispatched_def)
  have needed: "amountToBigint ''9999730'' = Inr 9999730" by code_simp
  have bp: "bp_action sample_bp = sample_swap" "bp_quote sample_bp = sample_quote" "bp_side sample_bp = Side_open"
    by (simp_all add: sample_bp_def)
  have mode: "cb_mode sample_base = LIVE" by (simp add: sample_base_def)
  have "cycle_resume sample_env sample_exec_env NOW sample_ids sample_keys sample_base (Cy_allowance sample_bp ''r'')
      (An_allowance (Inr 10000000)) decided_db = (markDispatched NOW sample_swap db2, Cycle sample_base
        (Cy_executing (''trade'', actionId sample_swap) (risk_ref_of v) (call_at (At_build sample_quote (bp_prices sample_bp)))))"
    using s(1,2) m(1) ready_go [OF s(3) sample_swap_sel(1)]
    by (simp add: cycle_resume_def cycle_allowance_def cycle_swap_def Let_def bp mode sample_swap_sel needed sample_ids_def
        route_def [symmetric] live_execute_def adapter_chains_def executing_def call_at_def)
  then show thesis using that m(2) by simp
qed

lemma to_signing:
  assumes "ready db T_dispatched"
  shows "cycle_resume sample_env sample_exec_env t u sample_keys sample_base (Cy_executing tr rk (call_at (At_build q (bp_prices sample_bp))))
      (An_live (An_built (Inr sample_tx))) db = (db, Cycle sample_base (Cy_executing tr rk (call_at (At_simulate sample_tx sample_booking))))"
    "cycle_resume sample_env sample_exec_env NOW u sample_keys sample_base (Cy_executing tr rk (call_at (At_simulate sample_tx sample_booking)))
      (An_live (An_simulated (Inr \<lparr>si_ok = True, si_error = None\<rparr>))) db =
      (db, Cycle sample_base (Cy_executing tr rk (call_at (At_prepare sample_tx sample_booking))))"
    "key_used sample_exec_env NOW u sample_keys (Cy_executing tr rk (call_at (At_prepare sample_tx sample_booking)))
      (An_live (An_prepared (Inr sample_context))) db =
      Some \<lparr>ke_trade = ''trade'', ke_action = sample_swap, ke_context = sample_context, ke_signed = sample_signed\<rparr>"
    "\<exists>db'. cycle_resume sample_env sample_exec_env NOW u sample_keys sample_base (Cy_executing tr rk (call_at (At_prepare sample_tx sample_booking)))
      (An_live (An_prepared (Inr sample_context))) db =
      (db', Cycle sample_base (Cy_executing tr rk (call_at (At_broadcast sample_signed sample_booking)))) \<and> ready db' T_signed"
proof -
  note unf = cycle_resume_def executing_def live_resume_def call_at_def sample_booking_def Let_def
  show "cycle_resume sample_env sample_exec_env t u sample_keys sample_base (Cy_executing tr rk (call_at (At_build q (bp_prices sample_bp))))
      (An_live (An_built (Inr sample_tx))) db = (db, Cycle sample_base (Cy_executing tr rk (call_at (At_simulate sample_tx sample_booking))))"
    "cycle_resume sample_env sample_exec_env NOW u sample_keys sample_base (Cy_executing tr rk (call_at (At_simulate sample_tx sample_booking)))
      (An_live (An_simulated (Inr \<lparr>si_ok = True, si_error = None\<rparr>))) db =
      (db, Cycle sample_base (Cy_executing tr rk (call_at (At_prepare sample_tx sample_booking))))"
    by (simp_all add: unf live_built_def live_simulated_def signAndSend_def sample_swap_sel sample_keys_def)
  have ok: "signing_refusal sample_exec_env sample_swap sample_context db = Inr None"
    using ready_go [OF assms sample_swap_sel(1)] sample_signable(1,2)
    by (simp add: signing_refusal_def)
  show "key_used sample_exec_env NOW u sample_keys (Cy_executing tr rk (call_at (At_prepare sample_tx sample_booking)))
      (An_live (An_prepared (Inr sample_context))) db =
      Some \<lparr>ke_trade = ''trade'', ke_action = sample_swap, ke_context = sample_context, ke_signed = sample_signed\<rparr>"
    using key_used_when_allowed [of "call_at (At_prepare sample_tx sample_booking)" sample_tx sample_booking sample_exec_env
        sample_context db sample_keys sample_signed _ NOW u] ok sample_signable(3) assms
    by (auto simp: key_used_def call_at_def ready_def)
  obtain db' r where "markSigned NOW ''trade'' ''0xhash'' db = Inr (db', r)" "ready db' T_signed"
    using assms by (rule ready_moves [where s' = T_signed and t = NOW and cols = "\<lambda>r. r\<lparr>td_txHash := Some ''0xhash''\<rparr>"])
      (simp_all add: safe_cols_def trade_static_def markSigned_def)
  then show "\<exists>db'. cycle_resume sample_env sample_exec_env NOW u sample_keys sample_base (Cy_executing tr rk (call_at (At_prepare sample_tx sample_booking)))
      (An_live (An_prepared (Inr sample_context))) db =
      (db', Cycle sample_base (Cy_executing tr rk (call_at (At_broadcast sample_signed sample_booking)))) \<and> ready db' T_signed"
    by (simp add: unf live_prepared_def ok sample_signable(3) [unfolded sample_booking_def]) (simp add: sample_signed_def)
qed


section \<open>Witnesses\<close>

definition sample_event :: key_event where
  "sample_event = \<lparr>ke_trade = ''trade'', ke_action = sample_swap, ke_context = sample_context, ke_signed = sample_signed\<rparr>"

lemma answer_quiet: "(\<And>r. answer \<noteq> An_build r) \<Longrightarrow> answer_real E W b st answer"
  by (auto simp: answer_real_def)

lemma answer_sample:
  "answer_real sample_env sample_exec_env sample_base (Cy_build ''r'' sample_decision) (An_build sample_proposal)"
proof -
  have "\<exists>deepest ba. sample_proposal =
      build_proposal (ge_externals sample_env) (xe_message sample_exec_env) deepest (request_of sample_base sample_decision) ba"
    unfolding sample_proposal_def by (intro exI) simp
  then show ?thesis by (simp add: answer_real_def)
qed

lemma run_quiet:
  assumes "sys_run E W sy0 tr sy" "sy_db sy = db" "sy_cycle sy = Some (b, st)" "answer_real E W b st answer"
    "cycle_resume E W t u ky b st answer db = (db', Cycle b' st')" "key_used W t u ky st answer db = e"
  obtains sy' where "sys_step E W sy e sy'" "sys_run E W sy0 (case e of None \<Rightarrow> tr | Some k \<Rightarrow> k # tr) sy'" "sy_db sy' = db'"
    "sy_cycle sy' = Some (b', st')"
proof -
  have "sys_step E W sy (key_used W t u ky st answer (sy_db sy)) (advance sy db' (Cycle b' st'))"
    by (rule sys_step.resumed [OF assms(3,4), where t = t and u = u]) (simp add: assms(2,5))
  then have st: "sys_step E W sy e (advance sy db' (Cycle b' st'))" by (simp add: assms(2,6))
  from that [OF st sys_run.run_next [OF assms(1) st]] show thesis by simp
qed

text \<open>The machine just before the signature, the signature, and the state after it.\<close>

lemma sample_run:
  obtains sy sy' where "sys_run sample_env sample_exec_env sample_start [] sy"
    "sys_step sample_env sample_exec_env sy (Some sample_event) sy'" "sys_run sample_env sample_exec_env sample_start [sample_event] sy'"
    "\<exists>tr rk. sy_cycle sy' = Some (sample_base, Cy_executing tr rk (call_at (At_broadcast sample_signed sample_booking)))"
    "ready (sy_db sy') T_signed"
proof -
  have "sys_step sample_env sample_exec_env sample_start None (advance sample_start sample_live_db (Cycle sample_base Cy_research))"
    by (rule sys_step.begun [where t = NOW and cycleId = "''cycle''" and rq = sample_cycle_request and wallet = "Inr ''0xAgent''"])
      (simp_all add: sample_start_def sample_started)
  from sys_run.run_next [OF sys_run.run_start this]
  have r0: "sys_run sample_env sample_exec_env sample_start [] (advance sample_start sample_live_db (Cycle sample_base Cy_research))" by simp
  obtain sy1 where r1: "sys_run sample_env sample_exec_env sample_start [] sy1" "sy_db sy1 = sample_live_db"
    "sy_cycle sy1 = Some (sample_base, Cy_prices ''r'')"
    by (rule run_quiet [OF r0 _ _ answer_quiet to_build(1) [of NOW sample_ids sample_keys]]) (auto simp: key_used_def)
  obtain sy2 where r2: "sys_run sample_env sample_exec_env sample_start [] sy2" "sy_db sy2 = sample_live_db"
    "sy_cycle sy2 = Some (sample_base, Cy_trader ''r'')"
    by (rule run_quiet [OF r1 answer_quiet to_build(2) [of NOW sample_ids sample_keys]]) (auto simp: key_used_def)
  obtain sy3 where r3: "sys_run sample_env sample_exec_env sample_start [] sy3" "sy_db sy3 = decided_db"
    "sy_cycle sy3 = Some (sample_base, Cy_build ''r'' sample_decision)"
    by (rule run_quiet [OF r2 answer_quiet to_build(3) [of sample_ids sample_keys]]) (auto simp: key_used_def)
  obtain sy4 where r4: "sys_run sample_env sample_exec_env sample_start [] sy4" "sy_db sy4 = decided_db"
    "sy_cycle sy4 = Some (sample_base, Cy_allowance sample_bp ''r'')"
    by (rule run_quiet [OF r3 answer_sample to_build(4) [of NOW sample_ids sample_keys]]) (auto simp: key_used_def)
  obtain db rk where ex: "cycle_resume sample_env sample_exec_env NOW sample_ids sample_keys sample_base (Cy_allowance sample_bp ''r'')
      (An_allowance (Inr 10000000)) decided_db =
    (db, Cycle sample_base (Cy_executing (''trade'', actionId sample_swap) rk (call_at (At_build sample_quote (bp_prices sample_bp)))))"
    "ready db T_dispatched"
    by (rule sample_executing)
  let ?st = "\<lambda>stage. Cy_executing (''trade'', actionId sample_swap) rk (call_at stage)"
  obtain sy5 where r5: "sys_run sample_env sample_exec_env sample_start [] sy5" "sy_db sy5 = db"
    "sy_cycle sy5 = Some (sample_base, ?st (At_build sample_quote (bp_prices sample_bp)))"
    by (rule run_quiet [OF r4 answer_quiet ex(1)]) (auto simp: key_used_def)
  obtain sy6 where r6: "sys_run sample_env sample_exec_env sample_start [] sy6" "sy_db sy6 = db"
    "sy_cycle sy6 = Some (sample_base, ?st (At_simulate sample_tx sample_booking))"
    by (rule run_quiet [OF r5 answer_quiet to_signing(1) [OF ex(2), of NOW sample_ids]]) (auto simp: key_used_def live_key_used_def call_at_def)
  obtain sy7 where r7: "sys_run sample_env sample_exec_env sample_start [] sy7" "sy_db sy7 = db"
    "sy_cycle sy7 = Some (sample_base, ?st (At_prepare sample_tx sample_booking))"
    by (rule run_quiet [OF r6 answer_quiet to_signing(2) [OF ex(2), of sample_ids]]) (auto simp: key_used_def live_key_used_def call_at_def)
  obtain db8 where s8: "cycle_resume sample_env sample_exec_env NOW sample_ids sample_keys sample_base (?st (At_prepare sample_tx sample_booking))
      (An_live (An_prepared (Inr sample_context))) db = (db8, Cycle sample_base (?st (At_broadcast sample_signed sample_booking)))"
    "ready db8 T_signed"
    using to_signing(4) [OF ex(2), of sample_ids] by blast
  obtain sy8 where "sys_step sample_env sample_exec_env sy7 (Some sample_event) sy8"
    "sys_run sample_env sample_exec_env sample_start [sample_event] sy8" "sy_db sy8 = db8"
    "sy_cycle sy8 = Some (sample_base, ?st (At_broadcast sample_signed sample_booking))"
    by (rule run_quiet [OF r7 answer_quiet s8(1) to_signing(3) [OF ex(2)]]) (auto simp: sample_event_def)
  with s8(2) show thesis using that r7(1) by blast
qed

lemma sample_no_trades: "no_trades sample_start"
  by (simp add: no_trades_def sample_start_def live_db)

theorem signs_once_witness:
  "\<exists>sy r. sys_run sample_env sample_exec_env sample_start [sample_event] sy \<and> getTrade (sy_db sy) ''trade'' = Some r \<and>
     td_status r = T_signed \<and> td_txHash r = Some ''0xhash''"
proof -
  obtain sy where r: "sys_run sample_env sample_exec_env sample_start [sample_event] sy" "ready (sy_db sy) T_signed"
    using sample_run by metis
  from signs_once [OF sample_no_trades r(1)] r show ?thesis
    by (auto simp: ready_def sample_event_def sample_signed_def)
qed

theorem signing_is_guarded_witness:
  "\<exists>sy sy'. sys_step sample_env sample_exec_env sy (Some sample_event) sy' \<and> getMode (sy_db sy) = LIVE \<and>
     (\<exists>row \<in> sy_seen sy. dr_action row = sample_swap \<and> allowed (dr_decision row)) \<and>
     context_approved sample_exec_env sample_swap sample_context"
proof -
  obtain sy sy' where r: "sys_run sample_env sample_exec_env sample_start [] sy" "sys_step sample_env sample_exec_env sy (Some sample_event) sy'"
    using sample_run by metis
  from signing_is_guarded [OF sample_no_trades r] r(2) show ?thesis by (auto simp: sample_event_def)
qed

theorem hash_before_broadcast_witness:
  "\<exists>sy r. sys_run sample_env sample_exec_env sample_start [sample_event] sy \<and> td_status r = T_signed \<and>
     td_txHash r = Some ''0xhash'' \<and> r \<in> set (listInFlight (bootState NOW (sy_db sy)))"
proof -
  obtain sy tr rk where r: "sys_run sample_env sample_exec_env sample_start [sample_event] sy"
    "sy_cycle sy = Some (sample_base, Cy_executing tr rk (call_at (At_broadcast sample_signed sample_booking)))"
    using sample_run by metis
  from hash_before_broadcast [OF sample_no_trades r, where t = NOW] r(1) show ?thesis
    by (auto simp: call_at_def sample_signed_def)
qed

text \<open>The process dies before the broadcast returns and is started again: the row is still signed, with its hash.\<close>

theorem trade_history_kept_witness:
  "\<exists>sy sy' r'. sys_run sample_env sample_exec_env sy [] sy' \<and> sy_cycle sy \<noteq> None \<and> sy_cycle sy' = None \<and>
     getTrade (sy_db sy') ''trade'' = Some r' \<and> 3 \<le> trade_rank (td_status r')"
proof -
  obtain sy tr rk where r: "sys_run sample_env sample_exec_env sample_start [sample_event] sy"
    "sy_cycle sy = Some (sample_base, Cy_executing tr rk (call_at (At_broadcast sample_signed sample_booking)))" "ready (sy_db sy) T_signed"
    using sample_run by metis
  define sy' where "sy' = sy\<lparr>sy_db := bootState NOW (sy_db sy), sy_cycle := None, sy_rows := listInFlight (bootState NOW (sy_db sy))\<rparr>"
  have run: "sys_run sample_env sample_exec_env sy [] sy'"
    using sys_run.run_next [OF sys_run.run_start sys_step.crashed] by (force simp: sy'_def)
  obtain row where row: "getTrade (sy_db sy) ''trade'' = Some row" "td_status row = T_signed" using r(3) by (auto simp: ready_def)
  from trade_history_kept [OF sample_no_trades r(1) run row(1)] row(2) run r(2) show ?thesis
    by (intro exI [of _ sy] exI [of _ sy']) (auto simp: sy'_def)
qed


definition sample_trader_input :: trader_input where
  "sample_trader_input = \<lparr>tn_chain = Base, tn_researchStatus = Res_ok, tn_subject = ''WETH'', tn_portfolio = 
     \<lparr>pm_mode = LIVE, pm_positionsValueUsd = None, pm_deployedUsd = ''0'', pm_unrealizedPnlUsd = None,
      pm_realizedPnlTodayUsd = ''0'', pm_unpriced = [], pm_positions = []\<rparr>, tn_policy = sample_policy,
     tn_allowlist = allowlisted_tokens sample_policy Base, tn_executable = True, tn_executableReason = ''''\<rparr>"

theorem trader_decision_sane_witness:
  "trader_decide (xe_message sample_exec_env) sample_trader_input None (Inr sample_decision) = (sample_decision, False) \<and>
     decision_sane sample_trader_input sample_decision"
proof -
  have "trader_deterministicSanity sample_decision sample_trader_input = Inr None" by code_simp
  then have d: "trader_decide (xe_message sample_exec_env) sample_trader_input None (Inr sample_decision) = (sample_decision, False)"
    by (simp add: trader_decide_def sample_trader_input_def)
  with trader_decision_sane [OF d] show ?thesis by (simp add: sample_decision_def)
qed

end
