(* ===== verification/Booking_Fixtures.thy ===== *)
theory Booking_Fixtures
  imports Exec_Booking Exec_Fixtures
begin

text \<open>
  Concrete rows at each status, and what the executors and the reconciliation do with them. The witnesses of
  the booking's properties apply the properties to them.
\<close>

definition sample_row :: "trade_status \<Rightarrow> trade_row" where
  "sample_row s = (trade_of ''trade'' NOW sample_action Side_open None [])\<lparr>td_status := s, td_txHash := Some ''0xhash'',
     td_quotePrices := Some (bp_prices sample_bp)\<rparr>"

definition row_db :: "trade_status \<Rightarrow> trade_db" where
  "row_db s = sample_trade_db\<lparr>xd_trades := [sample_row s],
     gd_ledger := empty_ledger\<lparr>db_paper := [\<lparr>pb_chain = Base, pb_token = BASE_USDC, pb_decimals = 6,
       pb_amount = ''100000000'', pb_updatedAt = NOW\<rparr>]\<rparr>\<rparr>"

lemma row_db_get: "getTrade (row_db s) ''trade'' = Some (sample_row s)" "td_status (sample_row s) = s"
    "td_id (sample_row s) = ''trade''" "\<not> lp_owned (sample_row s)" "td_kind (sample_row s) = Swap"
    "td_txHash (sample_row s) = Some ''0xhash''" "td_quotePrices (sample_row s) = Some (bp_prices sample_bp)"
  by (simp_all add: row_db_def getTrade_def sample_row_def trade_of_def lp_owned_def isLpKind_def sample_action_def)

lemma sample_paper_filled: "case paper_execute (\<lambda>_. '''') NOW ''p'' ''f'' ''trade'' sample_action sample_quote (bp_prices sample_bp) (row_db T_allowed) of
     (db', r) \<Rightarrow> (case r of Inl _ \<Rightarrow> False | Inr x \<Rightarrow> oc_filled x)"
  by code_simp

theorem paper_all_or_nothing_witness:
  "\<exists>db' x f. paper_execute (\<lambda>_. '''') NOW ''p'' ''f'' ''trade'' sample_action sample_quote (bp_prices sample_bp) (row_db T_allowed) =
     (db', Inr x) \<and> oc_filled x \<and> db_fills (gd_ledger db') = [f] \<and> fl_simulated f"
proof -
  have "a_quote sample_action \<noteq> None" by (simp add: sample_action_def)
  from paper_all_or_nothing [OF row_db_get(1,2) this] obtain db' x where
    p: "paper_execute (\<lambda>_. '''') NOW ''p'' ''f'' ''trade'' sample_action sample_quote (bp_prices sample_bp) (row_db T_allowed) = (db', Inr x)"
    "paper_done NOW ''trade'' sample_action sample_quote (row_db T_allowed) db' x" by blast
  moreover have "oc_filled x" using sample_paper_filled p(1) by simp
  moreover have "db_fills (gd_ledger (row_db T_allowed)) = []" by (simp add: row_db_def empty_ledger_def)
  ultimately show ?thesis by (auto simp: paper_done_def)
qed

theorem receipt_wait_ends_witness:
  "\<exists>db1 call1. live_broadcasted sample_exec_env NOW (call_at (At_broadcast sample_signed sample_booking)) (Inr ()) sample_signed
       sample_booking (row_db T_signed) = (db1, Waiting call1) \<and>
     (\<forall>call2. snd (polls sample_exec_env sample_ids sample_keys call1
        (map (\<lambda>k. (NOW + 3000 + 3000 * int k, Inl (JsError ''down''))) [0..<30]) db1) \<noteq> Waiting call2)"
proof -
  obtain db1 call1 where b: "live_broadcasted sample_exec_env NOW (call_at (At_broadcast sample_signed sample_booking)) (Inr ()) sample_signed
       sample_booking (row_db T_signed) = (db1, Waiting call1)"
    using row_db_get(1,2) [of T_signed]
    by (simp add: live_broadcasted_def Let_def call_at_def markBroadcast_def transition_def)
  let ?xs = "map (\<lambda>k. (NOW + 3000 + 3000 * int k, Inl (JsError ''down''))) [0..<30] :: (int \<times> receipt result) list"
  have p: "paced NOW ?xs" by (simp add: upt_rec RECEIPT_POLL_MS_def)
  obtain db2 q where q: "polls sample_exec_env sample_ids sample_keys call1 ?xs db1 = (db2, q)" by fastforce
  from receipt_wait_ends [OF b p q] b q show ?thesis by auto
qed

definition sample_receipt :: receipt where
  "sample_receipt = \<lparr>rc_hash = ''0xhash'', rc_status = R_confirmed, rc_amountOut = Some ''3999000000000000'',
     rc_feeNative = Some ''2400000000000'', rc_error = None\<rparr>"

definition empty_report :: reconcile_report where
  "empty_report = \<lparr>rr_checked = 0, rr_filled = 0, rr_failed = 0, rr_stillPending = 0\<rparr>"

theorem reconcile_row_truth_witness:
  "\<exists>db' r. reconcile_row NOW ''p'' ''f'' (Inr ''0xAgent'') None (sample_row T_dispatched) empty_report (row_db T_dispatched) =
     (db', Inr (empty_report\<lparr>rr_checked := 1, rr_failed := 1\<rparr>)) \<and> getTrade db' ''trade'' = Some r \<and> td_status r = T_failed"
proof -
  obtain db' where r: "reconcile_row NOW ''p'' ''f'' (Inr ''0xAgent'') None (sample_row T_dispatched) empty_report (row_db T_dispatched) =
     (db', Inr (empty_report\<lparr>rr_checked := 1, rr_failed := 1\<rparr>))"
    using row_db_get [of T_dispatched]
    by (simp add: reconcile_row_def Let_def markFailed_def transition_def empty_report_def)
  have g: "getTrade (row_db T_dispatched) (td_id (sample_row T_dispatched)) = Some (sample_row T_dispatched)"
    "in_flight (sample_row T_dispatched)" by (simp_all add: row_db_get in_flight_def)
  from reconcile_row_truth [OF g row_db_get(4) r] r show ?thesis by (auto simp: row_db_get empty_report_def)
qed

definition sample_bc :: booking_context where
  "sample_bc = \<lparr>bc_decimals = Some (6, 18), bc_pricedAt = ''fill-time'', bc_note = None\<rparr>"

definition crashed_db :: "trade_db result" where
  "crashed_db = book_ledger NOW ''p'' ''f'' (sample_row T_broadcast) sample_receipt (bp_prices sample_bp) sample_bc ''0.006001''
     (row_db T_broadcast)"

lemma sample_crash: "case crashed_db of Inl _ \<Rightarrow> False
   | Inr db \<Rightarrow> (case reconcile_row NOW ''p2'' ''f2'' (Inr ''0xAgent'') (Some sample_receipt) (sample_row T_broadcast) empty_report
        (bootState NOW db) of (db2, r) \<Rightarrow> (case r of Inl _ \<Rightarrow> False | Inr rep \<Rightarrow> rr_filled rep = 1))"
  by code_simp

theorem crash_books_twice_witness:
  "\<exists>db1 db2 rep. crashed_db = Inr db1 \<and> reconcile_row NOW ''p2'' ''f2'' (Inr ''0xAgent'') (Some sample_receipt)
     (sample_row T_broadcast) empty_report (bootState NOW db1) = (db2, Inr rep) \<and> fills_of ''trade'' db2 = 2"
proof -
  obtain db1 where c: "crashed_db = Inr db1" using sample_crash by (auto split: sum.splits)
  obtain db2 rep where r: "reconcile_row NOW ''p2'' ''f2'' (Inr ''0xAgent'') (Some sample_receipt) (sample_row T_broadcast) empty_report
      (bootState NOW db1) = (db2, Inr rep)" "rr_filled rep = 1"
  proof -
    obtain db2 res where r: "reconcile_row NOW ''p2'' ''f2'' (Inr ''0xAgent'') (Some sample_receipt) (sample_row T_broadcast) empty_report
      (bootState NOW db1) = (db2, res)" by fastforce
    note checked = sample_crash [unfolded c sum.case r prod.case]
    with that r show thesis by (cases res) simp_all
  qed
  have px: "tp_tokenInUsd (bp_prices sample_bp) \<noteq> ''0''" "tp_tokenOutUsd (bp_prices sample_bp) \<noteq> ''0''"
    by (simp_all add: sample_bp_def)
  have g: "getTrade (row_db T_broadcast) (td_id (sample_row T_broadcast)) = Some (sample_row T_broadcast)" by (simp add: row_db_get)
  have rc: "rc_status sample_receipt = R_confirmed" by (simp add: sample_receipt_def)
  have k: "td_kind (sample_row T_broadcast) \<noteq> Approve" by (simp add: row_db_get)
  have n: "rr_filled rep \<noteq> rr_filled empty_report" using r(2) by (simp add: empty_report_def)
  have "fills_of ''trade'' (row_db T_broadcast) = 0" by (simp add: fills_of_def row_db_def empty_ledger_def)
  then have "fills_of ''trade'' db2 = 2"
    using crash_books_twice [OF g row_db_get(2,4) k row_db_get(7) px rc c [unfolded crashed_db_def] r(1) n]
    by (simp add: row_db_get)
  with c r(1) show ?thesis by blast
qed

end
