(* ===== verification/Lp_Store.thy ===== *)
theory Lp_Store
  imports Ledger Tick_Math
begin

text \<open>
  \<open>src/runtime/src/liquidity/store.ts\<close> over the tables of \<open>db/migrations/003_liquidity.sql\<close>, \<open>007_lp_pnl.sql\<close>,
  \<open>009_range_positions.sql\<close> and \<open>010_range_risk.sql\<close>: positions in pools, positions in price ranges with their
  trail, realized P&L, rebalance counts, recorded actions and the scheduler's row. Like \<open>Ledger\<close>: a table is a list of
  rows in the order of insertion, a statement addresses a row by its unique key, identifiers and times are arguments, and
  a transaction that throws leaves the database as it was. The identifiers of rows that nothing looks up
  by id (random, taken to be fresh) and the columns \<open>updated_at\<close>, which nothing reads, are left out; so are log lines and the triggers that keep
  a position's identity and the trails from being changed, which no statement of the store does. Tick bounds, fee and
  tick arguments are integers, as the code demands of them.
\<close>

section \<open>Rows and records\<close>

datatype lp_recorded = Lp_HOLD | Lp_ADD | Lp_REMOVE | Lp_REBALANCE | Lp_COLLECT_FEES | Lp_EXIT
datatype lp_action_status = La_hold | La_rejected | La_filled | La_failed

record lp_mark =
  lk_valueUsd :: "string option"
  lk_feesUsd :: "string option"
  lk_note :: "string option"
  lk_markedAt :: "int option"

type_synonym lp_key = "mode \<times> chain_id \<times> string \<times> string"

text \<open>A row of \<open>lp_positions\<close>; \<open>toPosition\<close> only renames its columns.\<close>

record pool_position =
  po_id :: string
  po_mode :: mode
  po_chain :: chain_id
  po_protocol :: string
  po_poolId :: string
  po_token0 :: string
  po_token1 :: string
  po_decimals0 :: int
  po_decimals1 :: int
  po_lpTokens :: string
  po_amount0 :: string
  po_amount1 :: string
  po_capitalUsd :: string
  po_openedAt :: int
  po_lastAction :: lp_recorded
  po_lastActionAt :: int
  po_lastRebalanceAt :: "int option"
  po_mark :: lp_mark

record range_row =
  rn_id :: string
  rn_mode :: mode
  rn_chain :: chain_id
  rn_protocol :: string
  rn_poolId :: string
  rn_tokenId :: string
  rn_token0 :: string
  rn_token1 :: string
  rn_decimals0 :: int
  rn_decimals1 :: int
  rn_feePips :: int
  rn_tickLower :: int
  rn_tickUpper :: int
  rn_liquidity :: string
  rn_capitalUsd :: string
  rn_openedAt :: int
  rn_lastAction :: lp_recorded
  rn_lastActionAt :: int
  rn_closedAt :: "int option"
  rn_markValueUsd :: "string option"
  rn_markFeesUsd :: "string option"
  rn_markAmount0 :: "string option"
  rn_markAmount1 :: "string option"
  rn_markInRange :: "int option"
  rn_markPoolTick :: "int option"
  rn_markNote :: "string option"
  rn_markedAt :: "int option"

text \<open>\<open>LpRangePositionRecord\<close>: the columns as they are, and those \<open>toRangePosition\<close> converts.\<close>

record range_position =
  rc_row :: range_row
  rc_capitalUsd :: int
  rc_valueUsd :: "int option"
  rc_feesUsd :: "int option"
  rc_inRange :: "bool option"

definition toRangePosition :: "range_row \<Rightarrow> range_position result" where
  "toRangePosition r = sbind (usdToMicros (rn_capitalUsd r)) (\<lambda>capital.
     sbind (opt_result usdToMicros (rn_markValueUsd r)) (\<lambda>mv. sbind (opt_result usdToMicros (rn_markFeesUsd r)) (\<lambda>mf.
       Inr \<lparr>rc_row = r, rc_capitalUsd = capital, rc_valueUsd = mv, rc_feesUsd = mf,
         rc_inRange = map_option (\<lambda>b. b = 1) (rn_markInRange r)\<rparr>)))"

record range_event_row =
  rv_positionId :: string
  rv_mode :: mode
  rv_chain :: chain_id
  rv_protocol :: string
  rv_poolId :: string
  rv_tokenId :: string
  rv_action :: lp_recorded
  rv_liquidityDelta :: string
  rv_liquidityAfter :: string
  rv_capitalDeltaUsd :: string
  rv_capitalAfterUsd :: string
  rv_at :: int

record range_event =
  rx_row :: range_event_row
  rx_capitalDeltaUsd :: int
  rx_capitalAfterUsd :: int

definition toRangeEvent :: "range_event_row \<Rightarrow> range_event result" where
  "toRangeEvent r = sbind (usdToMicros (rv_capitalDeltaUsd r)) (\<lambda>d. sbind (usdToMicros (rv_capitalAfterUsd r)) (\<lambda>a.
     Inr \<lparr>rx_row = r, rx_capitalDeltaUsd = d, rx_capitalAfterUsd = a\<rparr>))"

record lp_pnl =
  lz_tradeId :: "string option"
  lz_mode :: mode
  lz_chain :: chain_id
  lz_protocol :: string
  lz_poolId :: string
  lz_action :: lp_recorded
  lz_proceedsUsd :: string
  lz_costReleasedUsd :: string
  lz_feeUsd :: string
  lz_realizedPnlUsd :: string
  lz_at :: int
  lz_simulated :: bool

record range_rebalance =
  rl_mode :: mode
  rl_chain :: chain_id
  rl_protocol :: string
  rl_poolId :: string
  rl_closedTokenId :: string
  rl_openedTokenId :: string
  rl_closedPositionId :: string
  rl_openedPositionId :: string
  rl_dayStart :: int
  rl_at :: int

record lp_action =
  la_id :: string
  la_cycleId :: string
  la_tradeId :: "string option"
  la_mode :: mode
  la_chain :: chain_id
  la_protocol :: string
  la_poolId :: string
  la_action :: lp_recorded
  la_status :: lp_action_status
  la_txHash :: "string option"
  la_lpTokens :: "string option"
  la_amount0 :: "string option"
  la_amount1 :: "string option"
  la_feeUsd :: "string option"
  la_capitalUsd :: "string option"
  la_note :: string
  la_at :: int

record lp_scheduler =
  lc_enabled :: bool
  lc_intervalSeconds :: int
  lc_lastCycleId :: "string option"
  lc_lastCycleAt :: "string option"
  lc_lastCycleStatus :: "string option"

record lp_db =
  ld_pools :: "pool_position list"
  ld_ranges :: "range_row list"
  ld_events :: "range_event_row list"
  ld_pnl :: "lp_pnl list"
  ld_rebalances :: "mode \<times> chain_id \<times> string \<times> int \<rightharpoonup> int"
  ld_rangeRebalances :: "range_rebalance list"
  ld_actions :: "lp_action list"
  ld_scheduler :: "lp_scheduler option"

section \<open>Positions in pools\<close>

definition pool_key :: "pool_position \<Rightarrow> lp_key" where
  "pool_key p = (po_mode p, po_chain p, po_protocol p, po_poolId p)"

definition getPool :: "lp_db \<Rightarrow> lp_key \<Rightarrow> pool_position option" where
  "getPool db k = List.find (\<lambda>p. pool_key p = k) (ld_pools db)"

definition insertPool :: "lp_db \<Rightarrow> pool_position \<Rightarrow> lp_db" where
  "insertPool db p = db\<lparr>ld_pools := ld_pools db @ [p]\<rparr>"

definition updatePool :: "lp_db \<Rightarrow> lp_key \<Rightarrow> (pool_position \<Rightarrow> pool_position) \<Rightarrow> lp_db" where
  "updatePool db k f = db\<lparr>ld_pools := map (\<lambda>p. if pool_key p = k then f p else p) (ld_pools db)\<rparr>"

definition deletePool :: "lp_db \<Rightarrow> lp_key \<Rightarrow> lp_db" where
  "deletePool db k = db\<lparr>ld_pools := filter (\<lambda>p. pool_key p \<noteq> k) (ld_pools db)\<rparr>"

interpretation pool: keyed_table ld_pools pool_key getPool insertPool updatePool deletePool
  by unfold_locales (simp_all add: getPool_def insertPool_def updatePool_def deletePool_def)

definition listPools :: "lp_db \<Rightarrow> mode \<Rightarrow> pool_position list" where
  "listPools db m = sort_key po_openedAt (filter (\<lambda>p. po_mode p = m) (ld_pools db))"

definition rebalancesToday_of :: "lp_db \<Rightarrow> mode \<Rightarrow> chain_id \<Rightarrow> string \<Rightarrow> int \<Rightarrow> int" where
  "rebalancesToday_of db m c pl t = (case ld_rebalances db (m, c, pl, dayStart t) of None \<Rightarrow> 0 | Some n \<Rightarrow> n)"

definition countRebalance :: "mode \<Rightarrow> chain_id \<Rightarrow> string \<Rightarrow> int \<Rightarrow> lp_db \<Rightarrow> lp_db" where
  "countRebalance m c pl t db = db\<lparr>ld_rebalances := (ld_rebalances db)((m, c, pl, dayStart t) \<mapsto>
     (case ld_rebalances db (m, c, pl, dayStart t) of None \<Rightarrow> 1 | Some n \<Rightarrow> n + 1))\<rparr>"

record book_add_input =
  bi_mode :: mode
  bi_chain :: chain_id
  bi_protocol :: string
  bi_poolId :: string
  bi_token0 :: token_ref
  bi_token1 :: token_ref
  bi_lpTokens :: string
  bi_amount0 :: string
  bi_amount1 :: string
  bi_capitalUsd :: string
  bi_at :: int
  bi_rebalance :: bool

definition no_mark :: lp_mark where
  "no_mark = \<lparr>lk_valueUsd = None, lk_feesUsd = None, lk_note = None, lk_markedAt = None\<rparr>"

definition bookAdd_write :: "string \<Rightarrow> book_add_input \<Rightarrow> int \<Rightarrow> lp_db \<Rightarrow> lp_db result" where
  "bookAdd_write u i added db = (let act = (if bi_rebalance i then Lp_REBALANCE else Lp_ADD);
       k = (bi_mode i, bi_chain i, bi_protocol i, bi_poolId i); stamp = (if bi_rebalance i then Some (bi_at i) else None) in
     case getPool db k of
       None \<Rightarrow> sbind (usdToMicros (bi_capitalUsd i)) (\<lambda>capital. Inr (insertPool db
         \<lparr>po_id = u, po_mode = bi_mode i, po_chain = bi_chain i, po_protocol = bi_protocol i, po_poolId = bi_poolId i,
          po_token0 = tr_address (bi_token0 i), po_token1 = tr_address (bi_token1 i),
          po_decimals0 = tr_decimals (bi_token0 i), po_decimals1 = tr_decimals (bi_token1 i),
          po_lpTokens = bi_lpTokens i, po_amount0 = bi_amount0 i, po_amount1 = bi_amount1 i,
          po_capitalUsd = microsToUsd capital, po_openedAt = bi_at i, po_lastAction = act, po_lastActionAt = bi_at i,
          po_lastRebalanceAt = stamp, po_mark = no_mark\<rparr>))
     | Some e \<Rightarrow>
         sbind (amountToBigint (po_lpTokens e)) (\<lambda>held.
         sbind (amountToBigint (po_amount0 e)) (\<lambda>e0. sbind (amountToBigint (bi_amount0 i)) (\<lambda>i0.
         sbind (amountToBigint (po_amount1 e)) (\<lambda>e1. sbind (amountToBigint (bi_amount1 i)) (\<lambda>i1.
         sbind (usdToMicros (po_capitalUsd e)) (\<lambda>basis. sbind (usdToMicros (bi_capitalUsd i)) (\<lambda>capital.
           Inr (updatePool db k (\<lambda>p. p\<lparr>po_lpTokens := int_str (held + added), po_amount0 := int_str (e0 + i0),
             po_amount1 := int_str (e1 + i1), po_capitalUsd := microsToUsd (basis + capital), po_lastAction := act,
             po_lastActionAt := bi_at i,
             po_lastRebalanceAt := (case stamp of None \<Rightarrow> po_lastRebalanceAt p | Some s \<Rightarrow> Some s)\<rparr>))))))))))"

definition bookAdd :: "string \<Rightarrow> book_add_input \<Rightarrow> lp_db \<Rightarrow> (lp_db \<times> pool_position) result" where
  "bookAdd u i db = sbind (amountToBigint (bi_lpTokens i)) (\<lambda>added.
     if added \<le> 0 then Inl (AppError E_SCHEMA_INVALID ''An LP add must mint a positive amount'')
     else sbind (bookAdd_write u i added db) (\<lambda>db.
       let db = (if bi_rebalance i then countRebalance (bi_mode i) (bi_chain i) (bi_poolId i) (bi_at i) db else db)
       in Inr (db, the (getPool db (bi_mode i, bi_chain i, bi_protocol i, bi_poolId i)))))"

record pool_remove_result =
  pv_position :: "pool_position option"
  pv_costReleasedUsd :: int
  pv_closed :: bool

definition bookRemove :: "lp_key \<Rightarrow> string \<Rightarrow> int \<Rightarrow> lp_db \<Rightarrow> (lp_db \<times> pool_remove_result) result" where
  "bookRemove k tokens at' db = sbind (amountToBigint tokens) (\<lambda>burned. case getPool db k of
     None \<Rightarrow> Inl (AppError E_CONFLICT ''No LP position to remove from'')
   | Some e \<Rightarrow> sbind (amountToBigint (po_lpTokens e)) (\<lambda>held.
       if burned \<le> 0 \<or> burned > held then Inl (AppError E_CONFLICT ''Removal exceeds the LP position'')
       else sbind (usdToMicros (po_capitalUsd e)) (\<lambda>basis.
         let costReleased = bdiv (basis * burned + held - 1) held; remaining = held - burned in
         if remaining = 0
         then Inr (deletePool db k, \<lparr>pv_position = None, pv_costReleasedUsd = costReleased, pv_closed = True\<rparr>)
         else sbind (amountToBigint (po_amount0 e)) (\<lambda>amount0. sbind (amountToBigint (po_amount1 e)) (\<lambda>amount1.
           let db = updatePool db k (\<lambda>p. p\<lparr>po_lpTokens := int_str remaining,
                 po_amount0 := int_str (bdiv (amount0 * remaining) held), po_amount1 := int_str (bdiv (amount1 * remaining) held),
                 po_capitalUsd := microsToUsd (basis - costReleased), po_lastAction := Lp_REMOVE, po_lastActionAt := at'\<rparr>)
           in Inr (db, \<lparr>pv_position = getPool db k, pv_costReleasedUsd = costReleased, pv_closed = False\<rparr>))))))"

definition touchClaim :: "lp_key \<Rightarrow> int \<Rightarrow> lp_db \<Rightarrow> lp_db" where
  "touchClaim k at' db = updatePool db k (\<lambda>p. p\<lparr>po_lastAction := Lp_COLLECT_FEES, po_lastActionAt := at'\<rparr>)"

definition mark_pool :: "lp_key \<Rightarrow> lp_mark \<Rightarrow> lp_db \<Rightarrow> lp_db" where
  "mark_pool k m db = updatePool db k (\<lambda>p. p\<lparr>po_mark := m\<rparr>)"

section \<open>Checks of the arguments\<close>

definition canonicalTokenId :: "string \<Rightarrow> string result" where
  "canonicalTokenId tokenId = (case amountToBigint tokenId of
     Inr a \<Rightarrow> Inr (int_str a) | Inl _ \<Rightarrow> Inl (AppError E_SCHEMA_INVALID ''Malformed position token id''))"

record realized_input =
  zi_tradeId :: "string option"
  zi_proceedsUsd :: int
  zi_feeUsd :: int
  zi_simulated :: bool

definition assertRealized :: "realized_input \<Rightarrow> bool \<Rightarrow> unit result" where
  "assertRealized z proceedsAllowed =
     (if zi_feeUsd z < 0 then Inl (AppError E_SCHEMA_INVALID ''Gas is a cost; it cannot be negative'')
      else if zi_proceedsUsd z < 0 then Inl (AppError E_SCHEMA_INVALID ''A burn cannot return a negative amount'')
      else if \<not> proceedsAllowed \<and> zi_proceedsUsd z \<noteq> 0
      then Inl (AppError E_SCHEMA_INVALID ''Adding liquidity returns no proceeds; it pays capital in'')
      else Inr ())"

definition MAX_FEE_PIPS :: int where "MAX_FEE_PIPS = 1000000"

definition assertFeePips :: "int \<Rightarrow> unit result" where
  "assertFeePips feePips = (if feePips \<le> 0 \<or> feePips \<ge> MAX_FEE_PIPS
     then Inl (AppError E_SCHEMA_INVALID ''Impossible v3 fee tier'') else Inr ())"

definition assertTickRange :: "int \<Rightarrow> int \<Rightarrow> unit result" where
  "assertTickRange tickLower tickUpper =
     (if tickLower < MIN_TICK \<or> tickLower > MAX_TICK then Inl (AppError E_SCHEMA_INVALID ''tickLower is outside the v3 tick range'')
      else if tickUpper < MIN_TICK \<or> tickUpper > MAX_TICK then Inl (AppError E_SCHEMA_INVALID ''tickUpper is outside the v3 tick range'')
      else if tickLower \<ge> tickUpper then Inl (AppError E_SCHEMA_INVALID ''Position range is empty or inverted'')
      else Inr ())"

section \<open>Positions in ranges\<close>

definition range_key :: "range_row \<Rightarrow> lp_key" where
  "range_key r = (rn_mode r, rn_chain r, rn_protocol r, rn_tokenId r)"

definition findRange :: "lp_db \<Rightarrow> lp_key \<Rightarrow> range_row option" where
  "findRange db k = List.find (\<lambda>r. range_key r = k) (ld_ranges db)"

definition appendRange :: "lp_db \<Rightarrow> range_row \<Rightarrow> lp_db" where
  "appendRange db r = db\<lparr>ld_ranges := ld_ranges db @ [r]\<rparr>"

definition setRange :: "lp_db \<Rightarrow> lp_key \<Rightarrow> (range_row \<Rightarrow> range_row) \<Rightarrow> lp_db" where
  "setRange db k f = db\<lparr>ld_ranges := map (\<lambda>r. if range_key r = k then f r else r) (ld_ranges db)\<rparr>"

interpretation rng: upd_table ld_ranges range_key findRange appendRange setRange
  by unfold_locales (simp_all add: findRange_def appendRange_def setRange_def)

text \<open>The \<open>CHECK\<close> constraints of the table, and the statements that are subject to them.\<close>

definition all_digits :: "string \<Rightarrow> bool" where "all_digits s \<longleftrightarrow> s \<noteq> [] \<and> list_all is_digit s"

definition range_row_ok :: "range_row \<Rightarrow> bool" where
  "range_row_ok r \<longleftrightarrow> all_digits (rn_tokenId r) \<and> 0 < rn_feePips r \<and> rn_feePips r < 1000000 \<and>
     - 887272 \<le> rn_tickLower r \<and> rn_tickLower r \<le> 887272 \<and> - 887272 \<le> rn_tickUpper r \<and> rn_tickUpper r \<le> 887272 \<and>
     all_digits (rn_liquidity r) \<and> rn_lastAction r \<in> {Lp_ADD, Lp_REMOVE, Lp_EXIT} \<and>
     (case rn_markInRange r of None \<Rightarrow> True | Some b \<Rightarrow> b = 0 \<or> b = 1) \<and>
     rn_tickLower r < rn_tickUpper r \<and> (rn_liquidity r = ''0'' \<longleftrightarrow> rn_closedAt r \<noteq> None)"

definition check_failed :: app_error where
  "check_failed = JsError ''CHECK constraint failed''"

text \<open>\<open>foreign_keys\<close> is on: a row that names a position must name one that exists.\<close>

definition foreign_key_failed :: app_error where
  "foreign_key_failed = JsError ''FOREIGN KEY constraint failed''"

definition has_range_id :: "lp_db \<Rightarrow> string \<Rightarrow> bool" where
  "has_range_id db i \<longleftrightarrow> list_ex (\<lambda>r. rn_id r = i) (ld_ranges db)"

definition insertRange :: "range_row \<Rightarrow> lp_db \<Rightarrow> lp_db result" where
  "insertRange r db = (if \<not> range_row_ok r then Inl check_failed
     else if has_range_id db (rn_id r) then Inl (JsError ''UNIQUE constraint failed: lp_range_positions.id'')
     else if findRange db (range_key r) \<noteq> None then Inl (JsError ''UNIQUE constraint failed: lp_range_positions'')
     else Inr (appendRange db r))"

definition updateRange :: "lp_key \<Rightarrow> (range_row \<Rightarrow> range_row) \<Rightarrow> lp_db \<Rightarrow> lp_db result" where
  "updateRange k f db = (case findRange db k of
     None \<Rightarrow> Inr db | Some r \<Rightarrow> if range_row_ok (f r) then Inr (setRange db k f) else Inl check_failed)"

definition getRangePosition :: "lp_db \<Rightarrow> mode \<Rightarrow> chain_id \<Rightarrow> string \<Rightarrow> string \<Rightarrow> range_position option result" where
  "getRangePosition db m c protocol tokenId = sbind (canonicalTokenId tokenId) (\<lambda>t.
     opt_result toRangePosition (findRange db (m, c, protocol, t)))"

definition by_opened :: "range_row list \<Rightarrow> range_row list" where
  "by_opened = sort_key rn_openedAt"

definition listRangePositions :: "lp_db \<Rightarrow> mode \<Rightarrow> bool \<Rightarrow> range_position list result" where
  "listRangePositions db m includeClosed = map_result toRangePosition
     (by_opened (filter (\<lambda>r. rn_mode r = m \<and> (includeClosed \<or> rn_closedAt r = None)) (ld_ranges db)))"

definition listPoolRangePositions :: "lp_db \<Rightarrow> lp_key \<Rightarrow> bool \<Rightarrow> range_position list result" where
  "listPoolRangePositions db k includeClosed = map_result toRangePosition
     (by_opened (filter (\<lambda>r. (rn_mode r, rn_chain r, rn_protocol r, rn_poolId r) = k \<and>
        (includeClosed \<or> rn_closedAt r = None)) (ld_ranges db)))"

text \<open>The three rows that go with a change of a position.\<close>

definition recordRangeEvent :: "range_position \<Rightarrow> lp_recorded \<Rightarrow> int \<Rightarrow> int \<Rightarrow> int \<Rightarrow> lp_db \<Rightarrow> lp_db result" where
  "recordRangeEvent p act liquidityDelta capitalDelta at' db = (let r = rc_row p;
     row = \<lparr>rv_positionId = rn_id r, rv_mode = rn_mode r, rv_chain = rn_chain r,
       rv_protocol = rn_protocol r, rv_poolId = rn_poolId r, rv_tokenId = rn_tokenId r, rv_action = act,
       rv_liquidityDelta = int_str liquidityDelta, rv_liquidityAfter = rn_liquidity r,
       rv_capitalDeltaUsd = microsToUsd capitalDelta, rv_capitalAfterUsd = microsToUsd (rc_capitalUsd p), rv_at = at'\<rparr> in
     if rv_action row \<notin> {Lp_ADD, Lp_REMOVE, Lp_EXIT} then Inl check_failed
     else if \<not> has_range_id db (rv_positionId row) then Inl foreign_key_failed
     else Inr (db\<lparr>ld_events := ld_events db @ [row]\<rparr>))"

record pnl_input =
  ni_tradeId :: "string option"
  ni_mode :: mode
  ni_chain :: chain_id
  ni_protocol :: string
  ni_poolId :: string
  ni_action :: lp_recorded
  ni_proceedsUsd :: int
  ni_costReleasedUsd :: int
  ni_feeUsd :: int
  ni_at :: int
  ni_simulated :: bool

definition recordPnl :: "pnl_input \<Rightarrow> lp_db \<Rightarrow> lp_db \<times> int" where
  "recordPnl i db = (let realized = ni_proceedsUsd i - ni_costReleasedUsd i - ni_feeUsd i in
     (db\<lparr>ld_pnl := ld_pnl db @ [\<lparr>lz_tradeId = ni_tradeId i, lz_mode = ni_mode i, lz_chain = ni_chain i,
        lz_protocol = ni_protocol i, lz_poolId = ni_poolId i, lz_action = ni_action i,
        lz_proceedsUsd = microsToUsd (ni_proceedsUsd i), lz_costReleasedUsd = microsToUsd (ni_costReleasedUsd i),
        lz_feeUsd = microsToUsd (ni_feeUsd i), lz_realizedPnlUsd = microsToUsd realized, lz_at = ni_at i,
        lz_simulated = ni_simulated i\<rparr>]\<rparr>, realized))"

definition recordRangePnl :: "range_position \<Rightarrow> lp_recorded \<Rightarrow> int \<Rightarrow> realized_input \<Rightarrow> int \<Rightarrow> lp_db \<Rightarrow> lp_db \<times> int" where
  "recordRangePnl p act costReleased z at' = (let r = rc_row p in
     recordPnl \<lparr>ni_tradeId = zi_tradeId z, ni_mode = rn_mode r, ni_chain = rn_chain r, ni_protocol = rn_protocol r,
       ni_poolId = rn_poolId r, ni_action = act, ni_proceedsUsd = zi_proceedsUsd z, ni_costReleasedUsd = costReleased,
       ni_feeUsd = zi_feeUsd z, ni_at = at', ni_simulated = zi_simulated z\<rparr>)"

definition countRangeRebalance :: "range_position \<Rightarrow> range_position \<Rightarrow> int \<Rightarrow> lp_db \<Rightarrow> lp_db result" where
  "countRangeRebalance opened replaced at' db = (let n = rc_row opened; c = rc_row replaced;
       row = \<lparr>rl_mode = rn_mode n, rl_chain = rn_chain n, rl_protocol = rn_protocol n, rl_poolId = rn_poolId n,
         rl_closedTokenId = rn_tokenId c, rl_openedTokenId = rn_tokenId n, rl_closedPositionId = rn_id c,
         rl_openedPositionId = rn_id n, rl_dayStart = dayStart at', rl_at = at'\<rparr> in
     if \<not> all_digits (rl_closedTokenId row) \<or> \<not> all_digits (rl_openedTokenId row) \<or> rl_closedTokenId row = rl_openedTokenId row
     then Inl check_failed
     else if \<exists>x \<in> set (ld_rangeRebalances db). rl_mode x = rl_mode row \<and> rl_chain x = rl_chain row \<and>
        rl_protocol x = rl_protocol row \<and> rl_openedTokenId x = rl_openedTokenId row
     then Inl (JsError ''UNIQUE constraint failed: lp_range_rebalances'')
     else if \<not> has_range_id db (rl_closedPositionId row) \<or> \<not> has_range_id db (rl_openedPositionId row)
     then Inl foreign_key_failed
     else Inr (db\<lparr>ld_rangeRebalances := ld_rangeRebalances db @ [row]\<rparr>))"

definition rangeRebalancesToday :: "lp_db \<Rightarrow> mode \<Rightarrow> chain_id \<Rightarrow> string \<Rightarrow> int \<Rightarrow> int" where
  "rangeRebalancesToday db m c pl t = int (length (filter (\<lambda>r. rl_mode r = m \<and> rl_chain r = c \<and> rl_poolId r = pl \<and>
     rl_dayStart r = dayStart t) (ld_rangeRebalances db)))"

section \<open>Opening, adjusting and closing a range\<close>

record open_range_input =
  oi_mode :: mode
  oi_chain :: chain_id
  oi_protocol :: string
  oi_poolId :: string
  oi_tokenId :: string
  oi_token0 :: token_ref
  oi_token1 :: token_ref
  oi_feePips :: int
  oi_tickLower :: int
  oi_tickUpper :: int
  oi_liquidity :: string
  oi_capitalUsd :: int
  oi_rebalancedFrom :: "string option"
  oi_realized :: realized_input
  oi_at :: int

definition resolveRebalancedFrom :: "open_range_input \<Rightarrow> string \<Rightarrow> lp_db \<Rightarrow> range_position option result" where
  "resolveRebalancedFrom i tokenId db = (case oi_rebalancedFrom i of
     None \<Rightarrow> Inr None
   | Some f \<Rightarrow> sbind (canonicalTokenId f) (\<lambda>old.
       if old = tokenId
       then Inl (AppError E_SCHEMA_INVALID ''A rebalance replaces one position with another, not with itself'')
       else sbind (getRangePosition db (oi_mode i) (oi_chain i) (oi_protocol i) old) (\<lambda>replaced. case replaced of
           None \<Rightarrow> Inl (AppError E_CONFLICT ''No range position to rebalance out of'')
         | Some p \<Rightarrow> Inr (Some p))))"

definition opened_row :: "string \<Rightarrow> string \<Rightarrow> int \<Rightarrow> open_range_input \<Rightarrow> range_row" where
  "opened_row u tokenId liq i = \<lparr>rn_id = u, rn_mode = oi_mode i, rn_chain = oi_chain i, rn_protocol = oi_protocol i,
     rn_poolId = oi_poolId i, rn_tokenId = tokenId, rn_token0 = tr_address (oi_token0 i), rn_token1 = tr_address (oi_token1 i),
     rn_decimals0 = tr_decimals (oi_token0 i), rn_decimals1 = tr_decimals (oi_token1 i), rn_feePips = oi_feePips i,
     rn_tickLower = oi_tickLower i, rn_tickUpper = oi_tickUpper i, rn_liquidity = int_str liq,
     rn_capitalUsd = microsToUsd (oi_capitalUsd i), rn_openedAt = oi_at i, rn_lastAction = Lp_ADD, rn_lastActionAt = oi_at i,
     rn_closedAt = None, rn_markValueUsd = None, rn_markFeesUsd = None, rn_markAmount0 = None, rn_markAmount1 = None,
     rn_markInRange = None, rn_markPoolTick = None, rn_markNote = None, rn_markedAt = None\<rparr>"

text \<open>\<open>get(...)!\<close>: the row is read back after the statement.\<close>

definition reread :: "lp_db \<Rightarrow> mode \<Rightarrow> chain_id \<Rightarrow> string \<Rightarrow> string \<Rightarrow> range_position result" where
  "reread db m c protocol tokenId = sbind (getRangePosition db m c protocol tokenId) (\<lambda>p. case p of
     None \<Rightarrow> Inl (JsError ''TypeError: undefined'') | Some p \<Rightarrow> Inr p)"

definition openRangePosition :: "string \<Rightarrow> open_range_input \<Rightarrow> lp_db \<Rightarrow> (lp_db \<times> range_position) result" where
  "openRangePosition u i db = sbind (canonicalTokenId (oi_tokenId i)) (\<lambda>tokenId.
     sbind (amountToBigint (oi_liquidity i)) (\<lambda>liq. sbind (assertRealized (oi_realized i) False) (\<lambda>_.
     if liq \<le> 0 then Inl (AppError E_SCHEMA_INVALID ''A range position must open with positive liquidity'')
     else if oi_capitalUsd i < 0 then Inl (AppError E_SCHEMA_INVALID ''A range position cost basis cannot be negative'')
     else sbind (assertFeePips (oi_feePips i)) (\<lambda>_. sbind (assertTickRange (oi_tickLower i) (oi_tickUpper i)) (\<lambda>_.
     sbind (getRangePosition db (oi_mode i) (oi_chain i) (oi_protocol i) tokenId) (\<lambda>existing.
     if existing \<noteq> None then Inl (AppError E_CONFLICT ''That range position is already booked'')
     else sbind (resolveRebalancedFrom i tokenId db) (\<lambda>replaced.
       sbind (insertRange (opened_row u tokenId liq i) db) (\<lambda>db.
       sbind (reread db (oi_mode i) (oi_chain i) (oi_protocol i) tokenId) (\<lambda>position.
       sbind (recordRangeEvent position Lp_ADD liq (oi_capitalUsd i) (oi_at i) db) (\<lambda>db.
       sbind (case replaced of None \<Rightarrow> Inr db | Some r \<Rightarrow> countRangeRebalance position r (oi_at i) db) (\<lambda>db.
       let (db, realized) = recordRangePnl position (if replaced = None then Lp_ADD else Lp_REBALANCE) 0 (oi_realized i) (oi_at i) db
       in Inr (db, position))))))))))))"

record adjust_range_input =
  ji_mode :: mode
  ji_chain :: chain_id
  ji_protocol :: string
  ji_tokenId :: string
  ji_liquidityDelta :: int
  ji_capitalUsd :: "int option"
  ji_realized :: realized_input
  ji_at :: int

record range_adjust_result =
  jr_position :: range_position
  jr_costReleasedUsd :: int
  jr_closed :: bool
  jr_realizedPnlUsd :: int

text \<open>The write: \<open>existing\<close> is the row as it stands.\<close>

definition adjust_write :: "adjust_range_input \<Rightarrow> string \<Rightarrow> range_position \<Rightarrow> lp_db \<Rightarrow> (lp_db \<times> range_adjust_result) result" where
  "adjust_write i tokenId existing db = (let delta = ji_liquidityDelta i;
       capital = (case ji_capitalUsd i of None \<Rightarrow> 0 | Some c \<Rightarrow> c);
       k = (ji_mode i, ji_chain i, ji_protocol i, tokenId) in
     sbind (amountToBigint (rn_liquidity (rc_row existing))) (\<lambda>held.
     if delta < 0 \<and> - delta > held then Inl (AppError E_CONFLICT ''Decrease exceeds the range position'')
     else let remaining = held + delta; basis = rc_capitalUsd existing;
         costReleased = (if delta < 0 then bdiv (basis * (- delta) + held - 1) held else 0);
         nextBasis = (if delta > 0 then basis + capital else basis - costReleased);
         act = (if delta > 0 then Lp_ADD else if remaining = 0 then Lp_EXIT else Lp_REMOVE) in
       sbind (updateRange k (\<lambda>r. r\<lparr>rn_liquidity := int_str remaining, rn_capitalUsd := microsToUsd nextBasis,
           rn_lastAction := act, rn_lastActionAt := ji_at i,
           rn_closedAt := (if remaining = 0 then Some (ji_at i) else None)\<rparr>) db) (\<lambda>db.
       sbind (reread db (ji_mode i) (ji_chain i) (ji_protocol i) tokenId) (\<lambda>position.
       sbind (recordRangeEvent position act delta (if delta > 0 then capital else - costReleased) (ji_at i) db) (\<lambda>db.
       let (db, realized) = recordRangePnl position act costReleased (ji_realized i) (ji_at i) db
       in Inr (db, \<lparr>jr_position = position, jr_costReleasedUsd = costReleased, jr_closed = (remaining = 0),
         jr_realizedPnlUsd = realized\<rparr>))))))"

definition adjustRangePosition :: "adjust_range_input \<Rightarrow> lp_db \<Rightarrow> (lp_db \<times> range_adjust_result) result" where
  "adjustRangePosition i db = sbind (canonicalTokenId (ji_tokenId i)) (\<lambda>tokenId.
     let delta = ji_liquidityDelta i; capital = (case ji_capitalUsd i of None \<Rightarrow> 0 | Some c \<Rightarrow> c) in
     if delta = 0 then Inl (AppError E_SCHEMA_INVALID ''A range adjustment must move liquidity'')
     else if capital < 0 then Inl (AppError E_SCHEMA_INVALID ''A range position cost basis cannot be negative'')
     else if delta < 0 \<and> capital \<noteq> 0
     then Inl (AppError E_SCHEMA_INVALID ''A decrease pays no capital in; it releases cost basis instead'')
     else sbind (assertRealized (ji_realized i) (delta < 0)) (\<lambda>_.
       sbind (getRangePosition db (ji_mode i) (ji_chain i) (ji_protocol i) tokenId) (\<lambda>existing. case existing of
         None \<Rightarrow> Inl (AppError E_CONFLICT ''No range position to adjust'')
       | Some p \<Rightarrow> adjust_write i tokenId p db)))"

record close_range_input =
  ci_mode :: mode
  ci_chain :: chain_id
  ci_protocol :: string
  ci_tokenId :: string
  ci_realized :: realized_input
  ci_at :: int

definition closeRangePosition :: "close_range_input \<Rightarrow> lp_db \<Rightarrow> (lp_db \<times> range_adjust_result) result" where
  "closeRangePosition i db = sbind (canonicalTokenId (ci_tokenId i)) (\<lambda>tokenId.
     sbind (getRangePosition db (ci_mode i) (ci_chain i) (ci_protocol i) tokenId) (\<lambda>existing. case existing of
       None \<Rightarrow> Inl (AppError E_CONFLICT ''No range position to close'')
     | Some p \<Rightarrow> sbind (amountToBigint (rn_liquidity (rc_row p))) (\<lambda>held.
         if held = 0 then Inl (AppError E_CONFLICT ''That range position is already closed'')
         else adjustRangePosition \<lparr>ji_mode = ci_mode i, ji_chain = ci_chain i, ji_protocol = ci_protocol i, ji_tokenId = tokenId,
           ji_liquidityDelta = - held, ji_capitalUsd = None, ji_realized = ci_realized i, ji_at = ci_at i\<rparr> db)))"

record range_mark_input =
  mi_valueUsd :: "int option"
  mi_feesUsd :: "int option"
  mi_amount0 :: "string option"
  mi_amount1 :: "string option"
  mi_inRange :: "bool option"
  mi_poolTick :: "int option"
  mi_note :: "string option"
  mi_at :: int

definition markRangePosition :: "mode \<Rightarrow> chain_id \<Rightarrow> string \<Rightarrow> string \<Rightarrow> range_mark_input \<Rightarrow> lp_db \<Rightarrow> lp_db result" where
  "markRangePosition m c protocol tokenId k db = sbind (canonicalTokenId tokenId) (\<lambda>t.
     updateRange (m, c, protocol, t) (\<lambda>r. r\<lparr>rn_markValueUsd := map_option microsToUsd (mi_valueUsd k),
       rn_markFeesUsd := map_option microsToUsd (mi_feesUsd k), rn_markAmount0 := mi_amount0 k, rn_markAmount1 := mi_amount1 k,
       rn_markInRange := map_option (\<lambda>b. if b then 1 else 0) (mi_inRange k), rn_markPoolTick := mi_poolTick k,
       rn_markNote := mi_note k, rn_markedAt := Some (mi_at k)\<rparr>) db)"

definition page_limit :: "int option \<Rightarrow> nat" where
  "page_limit limit = nat (min (max (case limit of None \<Rightarrow> 50 | Some n \<Rightarrow> n) 1) 500)"

definition listRangeEvents :: "lp_db \<Rightarrow> mode option \<Rightarrow> string option \<Rightarrow> int option \<Rightarrow> range_event list result" where
  "listRangeEvents db m tokenId limit = sbind (opt_result canonicalTokenId tokenId) (\<lambda>t.
     map_result toRangeEvent (take (page_limit limit) (rev (sort_key rv_at (filter (\<lambda>e.
       (case m of None \<Rightarrow> True | Some m \<Rightarrow> rv_mode e = m) \<and> (case t of None \<Rightarrow> True | Some t \<Rightarrow> rv_tokenId e = t))
       (ld_events db))))))"

section \<open>The slice of the risk snapshot\<close>

text \<open>\<open>#rangeRebalanceCountsToday\<close>: \<open>GROUP BY chain, pool_id\<close>.\<close>

definition rangeRebalanceCounts :: "lp_db \<Rightarrow> mode \<Rightarrow> int \<Rightarrow> ((chain_id \<times> string) \<times> int) list" where
  "rangeRebalanceCounts db m t = (let rows = filter (\<lambda>r. rl_mode r = m \<and> rl_dayStart r = dayStart t) (ld_rangeRebalances db) in
     map (\<lambda>k. (k, int (length (filter (\<lambda>r. (rl_chain r, rl_poolId r) = k) rows)))) (remdups (map (\<lambda>r. (rl_chain r, rl_poolId r)) rows)))"

fun snapshot_pools :: "lp_db \<Rightarrow> mode \<Rightarrow> int \<Rightarrow> pool_position list \<Rightarrow> (string \<rightharpoonup> string \<times> string) \<times> (string \<rightharpoonup> int) \<times> int \<Rightarrow>
     ((string \<rightharpoonup> string \<times> string) \<times> (string \<rightharpoonup> int) \<times> int) result" where
  "snapshot_pools db m t [] acc = Inr acc"
| "snapshot_pools db m t (p # ps) (held, counts, capital) = (let key = lpPoolKey (po_chain p) (po_poolId p) in
     sbind (usdToMicros (po_capitalUsd p)) (\<lambda>basis.
     let count = rebalancesToday_of db m (po_chain p) (po_poolId p) t in
     snapshot_pools db m t ps (held(key \<mapsto> (po_lpTokens p, po_capitalUsd p)),
       if count > 0 then counts(key \<mapsto> count) else counts, capital + basis)))"

definition add_count :: "(chain_id \<times> string) \<times> int \<Rightarrow> (string \<rightharpoonup> int) \<Rightarrow> string \<rightharpoonup> int" where
  "add_count = (\<lambda>((c, pl), n) rebalances. rebalances(lpPoolKey c pl \<mapsto>
     (case rebalances (lpPoolKey c pl) of None \<Rightarrow> 0 | Some k \<Rightarrow> k) + n))"

definition toRiskSnapshot :: "lp_db \<Rightarrow> mode \<Rightarrow> int \<Rightarrow> lp_snapshot result" where
  "toRiskSnapshot db m t =
     sbind (snapshot_pools db m t (listPools db m) (Map.empty, Map.empty, 0)) (\<lambda>(held, counts, capital).
     sbind (listRangePositions db m False) (\<lambda>ranges.
       Inr \<lparr>lps_deployedUsd = microsToUsd (capital + sum_list (map rc_capitalUsd ranges)),
         rebalancesToday = fold add_count (rangeRebalanceCounts db m t) counts, lp_positions = held\<rparr>))"

text \<open>What the trading ledger reads of \<open>lp_pnl\<close>.\<close>

definition pnl_view :: "lp_pnl \<Rightarrow> lp_pnl_row" where
  "pnl_view r = \<lparr>lr_mode = lz_mode r, lr_realizedPnlUsd = lz_realizedPnlUsd r, lr_at = lz_at r\<rparr>"

definition with_lp :: "ledger_db \<Rightarrow> lp_db \<Rightarrow> ledger_db" where
  "with_lp lg db = lg\<lparr>db_lp_pnl := map pnl_view (ld_pnl db)\<rparr>"

section \<open>Actions and the scheduler\<close>

definition recordAction :: "string \<Rightarrow> int \<Rightarrow> lp_action \<Rightarrow> lp_db \<Rightarrow> lp_db" where
  "recordAction u t i db = db\<lparr>ld_actions := ld_actions db @ [i\<lparr>la_id := u, la_note := take 500 (la_note i), la_at := t\<rparr>]\<rparr>"

definition getAction :: "lp_db \<Rightarrow> string \<Rightarrow> lp_action option" where
  "getAction db i = List.find (\<lambda>a. la_id a = i) (ld_actions db)"

definition listActions :: "lp_db \<Rightarrow> mode option \<Rightarrow> int option \<Rightarrow> lp_action list" where
  "listActions db m limit = take (page_limit limit) (rev (sort_key la_at
     (filter (\<lambda>a. case m of None \<Rightarrow> True | Some m \<Rightarrow> la_mode a = m) (ld_actions db))))"

definition ensureSchedulerRow :: "lp_db \<Rightarrow> lp_db" where
  "ensureSchedulerRow db = (case ld_scheduler db of
     None \<Rightarrow> db\<lparr>ld_scheduler := Some \<lparr>lc_enabled = False, lc_intervalSeconds = 1800, lc_lastCycleId = None,
       lc_lastCycleAt = None, lc_lastCycleStatus = None\<rparr>\<rparr>
   | Some _ \<Rightarrow> db)"

definition setScheduler :: "bool \<Rightarrow> int \<Rightarrow> lp_db \<Rightarrow> lp_db" where
  "setScheduler enabled seconds db = db\<lparr>ld_scheduler :=
     map_option (\<lambda>r. r\<lparr>lc_enabled := enabled, lc_intervalSeconds := seconds\<rparr>) (ld_scheduler db)\<rparr>"

definition disableScheduler :: "lp_db \<Rightarrow> lp_db" where
  "disableScheduler db = db\<lparr>ld_scheduler := map_option (\<lambda>r. r\<lparr>lc_enabled := False\<rparr>) (ld_scheduler db)\<rparr>"

definition recordCycle :: "string \<Rightarrow> string \<Rightarrow> string \<Rightarrow> lp_db \<Rightarrow> lp_db" where
  "recordCycle cycleId finishedAt status db = db\<lparr>ld_scheduler := map_option (\<lambda>r. r\<lparr>lc_lastCycleId := Some cycleId,
     lc_lastCycleAt := Some finishedAt, lc_lastCycleStatus := Some status\<rparr>) (ld_scheduler db)\<rparr>"

end
