(* ===== verification/Lp_Props.thy ===== *)
theory Lp_Props
  imports Lp_Store
begin

text \<open>
  Correctness of \<open>Lp_Store\<close>: what each operation on a range does on every branch, the invariant that ties a
  position to its trail, why the constraints of the database never fire, and what of it reaches the risk engine.
\<close>

section \<open>Reading the strings\<close>

definition micros_val :: "string \<Rightarrow> int" where
  "micros_val s = (case usdToMicros s of Inr m \<Rightarrow> m | Inl _ \<Rightarrow> 0)"

lemma micros_val_micros [simp]: "micros_val (microsToUsd m) = m"
  by (simp add: micros_val_def)

definition signed_val :: "string \<Rightarrow> int" where
  "signed_val s = (if s \<noteq> [] \<and> hd s = CHR ''-'' then - amount_val (tl s) else amount_val s)"

lemma signed_val_int_str [simp]: "signed_val (int_str i) = i"
proof (cases "i < 0")
  case True
  then show ?thesis by (simp add: signed_val_def int_str_def amount_val_def)
next
  case False
  have "\<not> is_digit CHR ''-''" by (simp add: is_digit_def)
  then have "hd (nat_str (nat i)) \<noteq> CHR ''-''"
    using nat_str_digits [of "nat i"] nat_str_nonempty [of "nat i"] by (cases "nat_str (nat i)") auto
  then show ?thesis using False by (simp add: signed_val_def int_str_def amount_val_def)
qed

lemma all_digits_int_str: "0 \<le> i \<Longrightarrow> all_digits (int_str i)"
  by (simp add: all_digits_def int_str_nonneg)

lemma int_str_zero: "0 \<le> i \<Longrightarrow> int_str i = ''0'' \<longleftrightarrow> i = 0"
proof -
  assume i: "0 \<le> i"
  have "amount_val ''0'' = 0" by code_simp
  then have "int_str i = ''0'' \<Longrightarrow> i = 0" using amount_val_int_str [OF i] by simp
  moreover have "int_str 0 = ''0''" by code_simp
  ultimately show ?thesis by auto
qed

lemma canon_nat_str: "canon_int s \<Longrightarrow> nat_str (digits_val s) = s"
proof (induction s rule: rev_induct)
  case (snoc c s)
  have c: "is_digit c" using snoc.prems by (simp add: canon_int_def)
  show ?case
  proof (cases "s = []")
    case True
    then show ?thesis using c digit_val_lt [OF c] by (simp add: nat_str.simps digits_val_def digit_char_digit_val)
  next
    case False
    then have "canon_int s" "hd s \<noteq> CHR ''0''" using snoc.prems by (auto simp: canon_int_def)
    with snoc.IH have n: "nat_str (digits_val s) = s" by blast
    have "digits_val s \<noteq> 0"
    proof
      assume "digits_val s = 0"
      then have "s = nat_str 0" using n by simp
      moreover have "nat_str 0 = ''0''" by code_simp
      ultimately show False using \<open>hd s \<noteq> CHR ''0''\<close> by simp
    qed
    then show ?thesis using c digit_val_lt [OF c] n by (simp add: nat_str.simps [of "10 * digits_val s + digit_val c"] digit_char_digit_val)
  qed
qed (simp add: canon_int_def)

lemma canonicalTokenId_same: "canonicalTokenId s = Inr t \<Longrightarrow> t = s"
  by (auto simp: canonicalTokenId_def amountToBigint_Inr int_str_def canon_nat_str split: sum.splits)

lemma canonicalTokenId_Inr: "canonicalTokenId s = Inr t \<longleftrightarrow> canon_int s \<and> t = int_str (amount_val s)"
  by (auto simp: canonicalTokenId_def amount_val_def amountToBigint_Inr split: sum.splits)
    (metis Inl_Inr_False amountToBigint_canon)

lemma canonical_again: "canonicalTokenId s = Inr t \<Longrightarrow> canonicalTokenId t = Inr t"
  by (simp add: canonicalTokenId_Inr)

lemma canonical_digits: "canonicalTokenId s = Inr t \<Longrightarrow> all_digits t"
  by (auto simp: canonicalTokenId_Inr intro: all_digits_int_str)

section \<open>Rows and their trail\<close>

definition row_liquidity :: "range_row \<Rightarrow> int" where "row_liquidity r = amount_val (rn_liquidity r)"
definition row_capital :: "range_row \<Rightarrow> int" where "row_capital r = micros_val (rn_capitalUsd r)"

definition event_key :: "range_event_row \<Rightarrow> lp_key" where
  "event_key e = (rv_mode e, rv_chain e, rv_protocol e, rv_tokenId e)"

definition trail :: "lp_db \<Rightarrow> lp_key \<Rightarrow> range_event_row list" where
  "trail db k = filter (\<lambda>e. event_key e = k) (ld_events db)"

text \<open>A row as the store writes it.\<close>

definition row_wf :: "range_row \<Rightarrow> bool" where
  "row_wf r \<longleftrightarrow> range_row_ok r \<and> canonicalTokenId (rn_tokenId r) = Inr (rn_tokenId r) \<and>
     rn_liquidity r = int_str (row_liquidity r) \<and> rn_capitalUsd r = microsToUsd (row_capital r) \<and> 0 \<le> row_capital r \<and>
     (row_liquidity r = 0 \<longrightarrow> row_capital r = 0) \<and>
     (\<forall>v. rn_markValueUsd r = Some v \<longrightarrow> (\<exists>m. v = microsToUsd m)) \<and> (\<forall>v. rn_markFeesUsd r = Some v \<longrightarrow> (\<exists>m. v = microsToUsd m))"

text \<open>The trail of a position accounts for it: the changes add up to the liquidity and to the cost basis, and the last
  one shows both as they are.\<close>

definition trail_ok :: "lp_db \<Rightarrow> range_row \<Rightarrow> bool" where
  "trail_ok db r \<longleftrightarrow> (let es = trail db (range_key r) in
     es \<noteq> [] \<and> row_liquidity r = sum_list (map (signed_val \<circ> rv_liquidityDelta) es) \<and>
     row_capital r = sum_list (map (micros_val \<circ> rv_capitalDeltaUsd) es) \<and>
     rv_liquidityAfter (last es) = rn_liquidity r \<and> rv_capitalAfterUsd (last es) = rn_capitalUsd r \<and>
     (\<forall>e \<in> set es. rv_positionId e = rn_id r))"

definition lp_inv :: "lp_db \<Rightarrow> bool" where
  "lp_inv db \<longleftrightarrow> distinct (map range_key (ld_ranges db)) \<and> (\<forall>r \<in> set (ld_ranges db). row_wf r \<and> trail_ok db r) \<and>
     (\<forall>e \<in> set (ld_events db). event_key e \<in> range_key ` set (ld_ranges db)) \<and>
     (\<forall>x \<in> set (ld_rangeRebalances db). (rl_mode x, rl_chain x, rl_protocol x, rl_openedTokenId x) \<in> range_key ` set (ld_ranges db)) \<and>
     (\<forall>k n. ld_rebalances db k = Some n \<longrightarrow> 0 < n) \<and> (\<forall>p \<in> set (ld_pools db). returns (usdToMicros (po_capitalUsd p)))"

lemma row_liquidity_nonneg [simp]: "0 \<le> row_liquidity r"
  by (simp add: row_liquidity_def)

definition position_of :: "range_row \<Rightarrow> range_position" where
  "position_of r = \<lparr>rc_row = r, rc_capitalUsd = row_capital r, rc_valueUsd = map_option micros_val (rn_markValueUsd r),
     rc_feesUsd = map_option micros_val (rn_markFeesUsd r), rc_inRange = map_option (\<lambda>b. b = 1) (rn_markInRange r)\<rparr>"

lemma opt_micros: "(\<forall>v. x = Some v \<longrightarrow> (\<exists>m. v = microsToUsd m)) \<Longrightarrow> opt_result usdToMicros x = Inr (map_option micros_val x)"
  by (cases x) auto

lemma toRangePosition_wf: "row_wf r \<Longrightarrow> toRangePosition r = Inr (position_of r)"
proof -
  assume r: "row_wf r"
  have "usdToMicros (rn_capitalUsd r) = Inr (row_capital r)" using r by (metis row_wf_def usdToMicros_microsToUsd)
  then show ?thesis using r by (simp add: toRangePosition_def position_of_def row_wf_def opt_micros)
qed

lemma find_wf: "lp_inv db \<Longrightarrow> findRange db k = Some r \<Longrightarrow> row_wf r \<and> trail_ok db r \<and> range_key r = k"
  using rng.look_Some [of db k r] by (auto simp: lp_inv_def)

lemma getRangePosition_inv:
  assumes "lp_inv db" "canonicalTokenId tokenId = Inr t"
  shows "getRangePosition db m c p tokenId = Inr (map_option position_of (findRange db (m, c, p, t)))"
proof (cases "findRange db (m, c, p, t)")
  case (Some r)
  then show ?thesis using assms find_wf [OF assms(1) Some] by (simp add: getRangePosition_def toRangePosition_wf)
qed (simp add: getRangePosition_def assms(2))

section \<open>Adjusting\<close>

lemma setRange_frames [simp]:
  "ld_events (setRange db k f) = ld_events db" "ld_pnl (setRange db k f) = ld_pnl db" "ld_pools (setRange db k f) = ld_pools db"
  "ld_rebalances (setRange db k f) = ld_rebalances db" "ld_rangeRebalances (setRange db k f) = ld_rangeRebalances db"
  by (simp_all add: setRange_def)

definition event_of :: "range_row \<Rightarrow> lp_recorded \<Rightarrow> int \<Rightarrow> int \<Rightarrow> int \<Rightarrow> range_event_row" where
  "event_of r act dl dc at' = \<lparr>rv_positionId = rn_id r, rv_mode = rn_mode r, rv_chain = rn_chain r, rv_protocol = rn_protocol r,
     rv_poolId = rn_poolId r, rv_tokenId = rn_tokenId r, rv_action = act, rv_liquidityDelta = int_str dl,
     rv_liquidityAfter = rn_liquidity r, rv_capitalDeltaUsd = microsToUsd dc, rv_capitalAfterUsd = microsToUsd (row_capital r),
     rv_at = at'\<rparr>"

definition pnl_of :: "range_row \<Rightarrow> lp_recorded \<Rightarrow> int \<Rightarrow> realized_input \<Rightarrow> int \<Rightarrow> lp_pnl" where
  "pnl_of r act released z at' = \<lparr>lz_tradeId = zi_tradeId z, lz_mode = rn_mode r, lz_chain = rn_chain r, lz_protocol = rn_protocol r,
     lz_poolId = rn_poolId r, lz_action = act, lz_proceedsUsd = microsToUsd (zi_proceedsUsd z),
     lz_costReleasedUsd = microsToUsd released, lz_feeUsd = microsToUsd (zi_feeUsd z),
     lz_realizedPnlUsd = microsToUsd (zi_proceedsUsd z - released - zi_feeUsd z), lz_at = at', lz_simulated = zi_simulated z\<rparr>"

lemma record_event_of:
  assumes "act \<in> {Lp_ADD, Lp_REMOVE, Lp_EXIT}" "has_range_id db (rn_id r)"
  shows "recordRangeEvent (position_of r) act dl dc at' db = Inr (db\<lparr>ld_events := ld_events db @ [event_of r act dl dc at']\<rparr>)"
  using assms by (auto simp: recordRangeEvent_def Let_def event_of_def position_of_def)

lemma has_range_id_iff: "has_range_id db i \<longleftrightarrow> (\<exists>r \<in> set (ld_ranges db). rn_id r = i)"
  by (simp add: has_range_id_def list_ex_iff)

lemma found_id: "findRange db k = Some r \<Longrightarrow> has_range_id db (rn_id r)"
  using rng.look_Some [of db k r] by (auto simp: has_range_id_iff)

lemma record_pnl_of: "recordRangePnl (position_of r) act released z at' db =
    (db\<lparr>ld_pnl := ld_pnl db @ [pnl_of r act released z at']\<rparr>, zi_proceedsUsd z - released - zi_feeUsd z)"
  by (simp add: recordRangePnl_def recordPnl_def Let_def pnl_of_def position_of_def)

text \<open>The cost basis a burn releases is the exact share rounded up: never less than the share, less than one micro-USD
  more, never more than the basis, all of it when nothing is left.\<close>

lemma released_bounds:
  fixes L :: int
  assumes "0 < L" "0 < b" "b \<le> L" "0 \<le> c"
  defines "rel \<equiv> (c * b + L - 1) div L"
  shows "c * b \<le> rel * L" "rel * L < c * b + L" "0 \<le> rel" "rel \<le> c" "b = L \<Longrightarrow> rel = c"
proof -
  have q: "rel = - ((- (c * b)) div L)" using ceil_div_shift [OF assms(1), of "c * b"] by (simp add: rel_def)
  note n = neg_div_bounds [OF assms(1), of "c * b"]
  show lower: "c * b \<le> rel * L" and upper: "rel * L < c * b + L" using n unfolding q by (simp_all add: algebra_simps)
  have "0 \<le> c * b" using assms by simp
  then show "0 \<le> rel" using assms(1) unfolding rel_def by (subst pos_imp_zdiv_nonneg_iff) linarith+
  have "c * b \<le> c * L" using assms by (simp add: mult_left_mono)
  then have "rel * L < (c + 1) * L" using upper by (simp add: algebra_simps)
  then show "rel \<le> c" using assms(1) by simp
  show "b = L \<Longrightarrow> rel = c" using lower upper assms(1)
  proof -
    assume "b = L"
    then have "c * L \<le> rel * L" "rel * L < (c + 1) * L" using lower upper by (simp_all add: algebra_simps)
    then show "rel = c" using assms(1) by simp
  qed
qed

definition adjust_key :: "adjust_range_input \<Rightarrow> string \<Rightarrow> lp_key" where
  "adjust_key i t = (ji_mode i, ji_chain i, ji_protocol i, t)"

definition adjust_capital :: "adjust_range_input \<Rightarrow> int" where
  "adjust_capital i = (case ji_capitalUsd i of None \<Rightarrow> 0 | Some c \<Rightarrow> c)"

text \<open>The arguments the code accepts.\<close>

definition adjust_args :: "adjust_range_input \<Rightarrow> bool" where
  "adjust_args i \<longleftrightarrow> ji_liquidityDelta i \<noteq> 0 \<and> 0 \<le> adjust_capital i \<and> (ji_liquidityDelta i < 0 \<longrightarrow> adjust_capital i = 0) \<and>
     0 \<le> zi_feeUsd (ji_realized i) \<and> 0 \<le> zi_proceedsUsd (ji_realized i) \<and>
     (0 < ji_liquidityDelta i \<longrightarrow> zi_proceedsUsd (ji_realized i) = 0)"

definition released_of :: "adjust_range_input \<Rightarrow> range_row \<Rightarrow> int" where
  "released_of i r = (if ji_liquidityDelta i < 0
     then (row_capital r * (- ji_liquidityDelta i) + row_liquidity r - 1) div row_liquidity r else 0)"

definition adjust_act :: "adjust_range_input \<Rightarrow> range_row \<Rightarrow> lp_recorded" where
  "adjust_act i r = (if 0 < ji_liquidityDelta i then Lp_ADD else if row_liquidity r + ji_liquidityDelta i = 0 then Lp_EXIT else Lp_REMOVE)"

definition adjust_fields :: "adjust_range_input \<Rightarrow> range_row \<Rightarrow> range_row \<Rightarrow> range_row" where
  "adjust_fields i r x = x\<lparr>rn_liquidity := int_str (row_liquidity r + ji_liquidityDelta i),
     rn_capitalUsd := microsToUsd (row_capital r + adjust_capital i - released_of i r), rn_lastAction := adjust_act i r,
     rn_lastActionAt := ji_at i, rn_closedAt := (if row_liquidity r + ji_liquidityDelta i = 0 then Some (ji_at i) else None)\<rparr>"

definition adjusted :: "adjust_range_input \<Rightarrow> range_row \<Rightarrow> range_row" where
  "adjusted i r = adjust_fields i r r"

definition adjusted_db :: "adjust_range_input \<Rightarrow> string \<Rightarrow> range_row \<Rightarrow> lp_db \<Rightarrow> lp_db" where
  "adjusted_db i t r db = (setRange db (adjust_key i t) (adjust_fields i r))
     \<lparr>ld_events := ld_events db @ [event_of (adjusted i r) (adjust_act i r) (ji_liquidityDelta i)
        (if 0 < ji_liquidityDelta i then adjust_capital i else - released_of i r) (ji_at i)],
      ld_pnl := ld_pnl db @ [pnl_of (adjusted i r) (adjust_act i r) (released_of i r) (ji_realized i) (ji_at i)]\<rparr>"

definition adjusted_result :: "adjust_range_input \<Rightarrow> range_row \<Rightarrow> range_adjust_result" where
  "adjusted_result i r = \<lparr>jr_position = position_of (adjusted i r), jr_costReleasedUsd = released_of i r,
     jr_closed = (row_liquidity r + ji_liquidityDelta i = 0),
     jr_realizedPnlUsd = zi_proceedsUsd (ji_realized i) - released_of i r - zi_feeUsd (ji_realized i)\<rparr>"

lemma adjusted_key [simp]: "range_key (adjusted i r) = range_key r"
  by (simp add: adjusted_def adjust_fields_def range_key_def)

lemma released_of_bounds:
  assumes "row_wf r" "ji_liquidityDelta i < 0" "- ji_liquidityDelta i \<le> row_liquidity r"
  shows "row_capital r * (- ji_liquidityDelta i) \<le> released_of i r * row_liquidity r"
    "released_of i r * row_liquidity r < row_capital r * (- ji_liquidityDelta i) + row_liquidity r"
    "0 \<le> released_of i r" "released_of i r \<le> row_capital r"
    "row_liquidity r + ji_liquidityDelta i = 0 \<Longrightarrow> released_of i r = row_capital r"
  using released_bounds [of "row_liquidity r" "- ji_liquidityDelta i" "row_capital r"] assms
  by (auto simp: released_of_def row_wf_def)

lemma adjusted_values:
  assumes "row_wf r" "adjust_args i" "0 \<le> row_liquidity r + ji_liquidityDelta i"
  shows "row_liquidity (adjusted i r) = row_liquidity r + ji_liquidityDelta i"
    "row_capital (adjusted i r) = row_capital r + adjust_capital i - released_of i r"
    "0 \<le> row_capital (adjusted i r)" "row_liquidity (adjusted i r) = 0 \<Longrightarrow> row_capital (adjusted i r) = 0"
proof -
  show l: "row_liquidity (adjusted i r) = row_liquidity r + ji_liquidityDelta i"
    using assms(3) by (simp add: row_liquidity_def adjusted_def adjust_fields_def)
  show c: "row_capital (adjusted i r) = row_capital r + adjust_capital i - released_of i r" by (simp add: row_capital_def adjusted_def adjust_fields_def)
  show "0 \<le> row_capital (adjusted i r)"
  proof (cases "ji_liquidityDelta i < 0")
    case True
    then show ?thesis using released_of_bounds(4) [OF assms(1) True] assms(2,3) by (simp add: c adjust_args_def)
  next
    case False
    then show ?thesis using assms(1,2) by (simp add: c released_of_def adjust_args_def row_wf_def)
  qed
  show "row_capital (adjusted i r) = 0" if z: "row_liquidity (adjusted i r) = 0"
  proof -
    have d: "row_liquidity r + ji_liquidityDelta i = 0" using z l by simp
    then have "ji_liquidityDelta i < 0" using assms(2) row_liquidity_nonneg [of r] by (simp add: adjust_args_def del: row_liquidity_nonneg)
    then show ?thesis using released_of_bounds(5) [OF assms(1)] d assms(2) by (simp add: c adjust_args_def)
  qed
qed

lemma adjusted_wf:
  assumes "row_wf r" "adjust_args i" "0 \<le> row_liquidity r + ji_liquidityDelta i"
  shows "row_wf (adjusted i r)"
proof -
  note v = adjusted_values [OF assms]
  have "range_row_ok (adjusted i r)"
    using assms by (auto simp: range_row_ok_def row_wf_def adjusted_def adjust_fields_def all_digits_int_str int_str_zero adjust_act_def)
  moreover have "rn_liquidity (adjusted i r) = int_str (row_liquidity (adjusted i r))"
    "rn_capitalUsd (adjusted i r) = microsToUsd (row_capital (adjusted i r))"
    using v(1,2) by (simp_all add: adjusted_def adjust_fields_def)
  moreover have "rn_tokenId (adjusted i r) = rn_tokenId r" "rn_markValueUsd (adjusted i r) = rn_markValueUsd r"
    "rn_markFeesUsd (adjusted i r) = rn_markFeesUsd r" by (simp_all add: adjusted_def adjust_fields_def)
  ultimately show ?thesis using assms(1) v(3,4) unfolding row_wf_def by metis
qed

lemma reread_row:
  assumes "canonicalTokenId tokenId = Inr t" "findRange db (m, c, p, t) = Some r" "row_wf r"
  shows "reread db m c p tokenId = Inr (position_of r)"
  using assms by (simp add: reread_def getRangePosition_def toRangePosition_wf)

lemma adjust_write_eq:
  assumes "canonicalTokenId t = Inr t" "findRange db (adjust_key i t) = Some r" "row_wf r" "adjust_args i"
  shows "adjust_write i t (position_of r) db =
    (if row_liquidity r + ji_liquidityDelta i < 0 then Inl (AppError E_CONFLICT ''Decrease exceeds the range position'')
     else Inr (adjusted_db i t r db, adjusted_result i r))"
proof (cases "row_liquidity r + ji_liquidityDelta i < 0")
  case True
  have "amountToBigint (rn_liquidity r) = Inr (row_liquidity r)" using assms(3) by (metis row_wf_def row_liquidity_nonneg amountToBigint_int_str)
  then show ?thesis using True row_liquidity_nonneg [of r] by (simp add: adjust_write_def Let_def position_of_def del: row_liquidity_nonneg)
next
  case False
  then have ok: "0 \<le> row_liquidity r + ji_liquidityDelta i" by simp
  let ?f = "\<lambda>r'. r'\<lparr>rn_liquidity := int_str (row_liquidity r + ji_liquidityDelta i),
       rn_capitalUsd := microsToUsd (row_capital r + adjust_capital i - released_of i r), rn_lastAction := adjust_act i r,
       rn_lastActionAt := ji_at i, rn_closedAt := (if row_liquidity r + ji_liquidityDelta i = 0 then Some (ji_at i) else None)\<rparr>"
  let ?k = "adjust_key i t" and ?db = "setRange db (adjust_key i t) ?f"
  have held: "amountToBigint (rn_liquidity r) = Inr (row_liquidity r)" using assms(3) by (metis row_wf_def row_liquidity_nonneg amountToBigint_int_str)
  have nonneg: "0 \<le> row_capital r * (- ji_liquidityDelta i) + row_liquidity r - 1" if "ji_liquidityDelta i < 0"
  proof -
    have "0 \<le> row_capital r * (- ji_liquidityDelta i)" using that assms(3) by (intro mult_nonneg_nonneg) (simp_all add: row_wf_def)
    then show ?thesis using that ok by linarith
  qed
  have rel: "(if ji_liquidityDelta i < 0
      then bdiv (row_capital r * (- ji_liquidityDelta i) + row_liquidity r - 1) (row_liquidity r) else 0) = released_of i r"
    using nonneg by (simp add: released_of_def bdiv_nonneg)
  have cap: "(if ji_liquidityDelta i > 0 then row_capital r + adjust_capital i else row_capital r - released_of i r) =
      row_capital r + adjust_capital i - released_of i r"
    using assms(4) by (auto simp: released_of_def adjust_args_def)
  have fields: "?f = adjust_fields i r" by (rule ext) (simp add: adjust_fields_def)
  have row: "?f r = adjusted i r" by (simp add: adjusted_def adjust_fields_def)
  have wf: "row_wf (adjusted i r)" by (rule adjusted_wf [OF assms(3,4) ok])
  have key: "range_key (?f r') = range_key r'" for r' by (simp add: range_key_def)
  have upd: "updateRange ?k ?f db = Inr ?db" using assms(2) wf by (simp add: updateRange_def row row_wf_def)
  have found: "findRange ?db ?k = Some (adjusted i r)" using rng.look_upd [of ?f db ?k ?k] assms(2) key row by simp
  have re: "reread ?db (ji_mode i) (ji_chain i) (ji_protocol i) t = Inr (position_of (adjusted i r))"
    using reread_row [OF assms(1) _ wf] found by (simp add: adjust_key_def)
  have pos: "rc_row (position_of r) = r" "rc_capitalUsd (position_of r) = row_capital r" by (simp_all add: position_of_def)
  have act: "(if ji_liquidityDelta i > 0 then Lp_ADD else if row_liquidity r + ji_liquidityDelta i = 0 then Lp_EXIT else Lp_REMOVE) =
      adjust_act i r" by (simp add: adjust_act_def)
  have guard: "\<not> (ji_liquidityDelta i < 0 \<and> - ji_liquidityDelta i > row_liquidity r)" using ok by linarith
  have ev: "recordRangeEvent (position_of (adjusted i r)) (adjust_act i r) dl dc at' ?db =
      Inr (?db\<lparr>ld_events := ld_events ?db @ [event_of (adjusted i r) (adjust_act i r) dl dc at']\<rparr>)" for dl dc at'
    by (rule record_event_of [OF _ found_id [OF found]]) (simp add: adjust_act_def)
  show ?thesis
    unfolding adjust_write_def Let_def adjust_capital_def [symmetric] adjust_key_def [symmetric] pos held sbind_Inr if_not_P [OF guard]
      rel cap act upd re ev record_pnl_of
    using False by (simp add: adjusted_db_def adjusted_result_def fields)
qed

text \<open>The whole operation, on every branch whose arguments the code accepts.\<close>

lemma adjust_eq:
  assumes inv: "lp_inv db" and t: "canonicalTokenId (ji_tokenId i) = Inr t" and args: "adjust_args i"
  shows "adjustRangePosition i db = (case findRange db (adjust_key i t) of
      None \<Rightarrow> Inl (AppError E_CONFLICT ''No range position to adjust'')
    | Some r \<Rightarrow> if row_liquidity r + ji_liquidityDelta i < 0 then Inl (AppError E_CONFLICT ''Decrease exceeds the range position'')
        else Inr (adjusted_db i t r db, adjusted_result i r))"
proof -
  note t' = canonical_again [OF t]
  have z: "assertRealized (ji_realized i) (ji_liquidityDelta i < 0) = Inr ()"
    using args by (auto simp: assertRealized_def adjust_args_def)
  have g: "getRangePosition db (ji_mode i) (ji_chain i) (ji_protocol i) t = Inr (map_option position_of (findRange db (adjust_key i t)))"
    using getRangePosition_inv [OF inv t'] by (simp add: adjust_key_def)
  have a: "adjustRangePosition i db = (case map_option position_of (findRange db (adjust_key i t)) of
      None \<Rightarrow> Inl (AppError E_CONFLICT ''No range position to adjust'') | Some p \<Rightarrow> adjust_write i t p db)"
    using args unfolding adjustRangePosition_def t Let_def z g sbind_Inr adjust_capital_def [symmetric]
    by (auto simp: adjust_args_def)
  show ?thesis
  proof (cases "findRange db (adjust_key i t)")
    case (Some r)
    then show ?thesis using a adjust_write_eq [OF t' Some _ args] find_wf [OF inv Some] by simp
  qed (simp add: a)
qed

lemma adjust_needs:
  assumes "adjustRangePosition i db = Inr (db', res)"
  shows "adjust_args i \<and> (\<exists>t. canonicalTokenId (ji_tokenId i) = Inr t)"
  using assms
  by (auto simp: adjustRangePosition_def sbind_eq_Inr Let_def adjust_args_def adjust_capital_def assertRealized_def split: if_split_asm)

lemma adjust_parts:
  assumes "lp_inv db" "adjustRangePosition i db = Inr (db', res)"
  obtains t r where "canonicalTokenId (ji_tokenId i) = Inr t" "adjust_args i" "findRange db (adjust_key i t) = Some r" "row_wf r"
    "trail_ok db r" "range_key r = adjust_key i t" "0 \<le> row_liquidity r + ji_liquidityDelta i" "db' = adjusted_db i t r db"
    "res = adjusted_result i r"
proof -
  obtain t where t: "canonicalTokenId (ji_tokenId i) = Inr t" "adjust_args i" using adjust_needs [OF assms(2)] by blast
  note e = adjust_eq [OF assms(1) t]
  obtain r where r: "findRange db (adjust_key i t) = Some r" "\<not> row_liquidity r + ji_liquidityDelta i < 0"
    "db' = adjusted_db i t r db" "res = adjusted_result i r"
    using assms(2) unfolding e by (auto split: option.splits if_split_asm)
  then show thesis using that t find_wf [OF assms(1) r(1)] by simp
qed

section \<open>The invariant\<close>

lemma trail_append: "trail (db\<lparr>ld_events := ld_events db @ [e]\<rparr>) k = trail db k @ (if event_key e = k then [e] else [])"
  by (simp add: trail_def)

lemma event_of_sel [simp]:
  "event_key (event_of r act dl dc at') = range_key r" "rv_liquidityDelta (event_of r act dl dc at') = int_str dl"
  "rv_capitalDeltaUsd (event_of r act dl dc at') = microsToUsd dc" "rv_liquidityAfter (event_of r act dl dc at') = rn_liquidity r"
  "rv_capitalAfterUsd (event_of r act dl dc at') = microsToUsd (row_capital r)" "rv_positionId (event_of r act dl dc at') = rn_id r"
  by (simp_all add: event_of_def event_key_def range_key_def)

text \<open>A change of one row with its event.\<close>

lemma inv_change:
  assumes inv: "lp_inv db" and r: "findRange db k = Some r" and f: "\<And>x. range_key (f x) = range_key x" and wf: "row_wf (f r)"
    and i: "rn_id (f r) = rn_id r" and l: "row_liquidity (f r) = row_liquidity r + dl" and c: "row_capital (f r) = row_capital r + dc"
    and rows: "ld_ranges db' = ld_ranges (setRange db k f)" and evs: "ld_events db' = ld_events db @ [event_of (f r) act dl dc at']"
    and rest: "ld_rangeRebalances db' = ld_rangeRebalances db" "ld_rebalances db' = ld_rebalances db" "ld_pools db' = ld_pools db"
  shows "lp_inv db'"
proof -
  have k: "range_key r = k" using rng.look_Some [OF r] by simp
  have tr: "trail db' k' = trail db k' @ (if k' = k then [event_of (f r) act dl dc at'] else [])" for k'
    by (auto simp: trail_def evs f k)
  have d: "distinct (map range_key (ld_ranges db))" using inv by (simp add: lp_inv_def)
  have keys: "range_key ` set (ld_ranges db') = range_key ` set (ld_ranges db)"
  proof -
    have "map range_key (ld_ranges db') = map range_key (ld_ranges db)" by (simp add: rows setRange_def f)
    then show ?thesis by (metis list.set_map)
  qed
  have "row_wf x \<and> trail_ok db' x" if x: "x \<in> set (ld_ranges db')" for x
  proof -
    obtain y where y: "y \<in> set (ld_ranges db)" "x = (if range_key y = k then f y else y)" using x unfolding rows rng.upd set_map by blast
    have ok: "row_wf y" "trail_ok db y" using inv y(1) by (simp_all add: lp_inv_def)
    show ?thesis
    proof (cases "range_key y = k")
      case True
      then have "y = r" using rng.look_in [OF d y(1)] r by simp
      then have "trail_ok db r" "x = f r" using ok y(2) True by simp_all
      then show ?thesis using wf k c by (auto simp: trail_ok_def Let_def tr f l i row_wf_def)
    next
      case False
      then show ?thesis using ok y(2) by (simp add: trail_ok_def tr)
    qed
  qed
  moreover have "distinct (map range_key (ld_ranges db'))" using rng.unique_upd [of f db k] f d by (simp add: rows)
  moreover have "event_key e \<in> range_key ` set (ld_ranges db')" if "e \<in> set (ld_events db')" for e
  proof -
    have "e \<in> set (ld_events db) \<or> event_key e = k" using that by (auto simp: evs f k)
    moreover have "k \<in> range_key ` set (ld_ranges db)" using rng.look_Some [OF r] by auto
    ultimately show ?thesis using inv by (auto simp: lp_inv_def keys)
  qed
  ultimately show ?thesis using inv by (simp add: lp_inv_def keys rest)
qed

lemma adjust_inv:
  assumes "lp_inv db" "adjustRangePosition i db = Inr (db', res)"
  shows "lp_inv db'"
proof -
  obtain t r where a: "adjust_args i" "findRange db (adjust_key i t) = Some r" "row_wf r"
    "0 \<le> row_liquidity r + ji_liquidityDelta i" "db' = adjusted_db i t r db"
    by (rule adjust_parts [OF assms])
  let ?dc = "if 0 < ji_liquidityDelta i then adjust_capital i else - released_of i r"
  have fr: "adjust_fields i r r = adjusted i r" by (simp add: adjusted_def)
  have dc: "adjust_capital i - released_of i r = ?dc" using a(1) by (auto simp: released_of_def adjust_args_def)
  show ?thesis
    by (rule inv_change [OF assms(1) a(2), where f = "adjust_fields i r" and dl = "ji_liquidityDelta i" and dc = ?dc])
      (use a adjusted_wf [OF a(3,1,4)] adjusted_values [OF a(3,1,4)] dc
        in \<open>auto simp: fr adjusted_db_def adjust_fields_def range_key_def adjusted_def\<close>)
qed

section \<open>Opening\<close>

definition open_key :: "open_range_input \<Rightarrow> string \<Rightarrow> lp_key" where
  "open_key i t = (oi_mode i, oi_chain i, oi_protocol i, t)"

definition open_args :: "open_range_input \<Rightarrow> bool" where
  "open_args i \<longleftrightarrow> 0 \<le> zi_feeUsd (oi_realized i) \<and> zi_proceedsUsd (oi_realized i) = 0 \<and> 0 \<le> oi_capitalUsd i \<and>
     0 < oi_feePips i \<and> oi_feePips i < MAX_FEE_PIPS \<and> MIN_TICK \<le> oi_tickLower i \<and> oi_tickLower i < oi_tickUpper i \<and>
     oi_tickUpper i \<le> MAX_TICK"

definition rebalance_row :: "range_row \<Rightarrow> range_row \<Rightarrow> int \<Rightarrow> range_rebalance" where
  "rebalance_row n c at' = \<lparr>rl_mode = rn_mode n, rl_chain = rn_chain n, rl_protocol = rn_protocol n, rl_poolId = rn_poolId n,
     rl_closedTokenId = rn_tokenId c, rl_openedTokenId = rn_tokenId n, rl_closedPositionId = rn_id c,
     rl_openedPositionId = rn_id n, rl_dayStart = dayStart at', rl_at = at'\<rparr>"

definition opened_db :: "string \<Rightarrow> open_range_input \<Rightarrow> string \<Rightarrow> int \<Rightarrow> range_row option \<Rightarrow> lp_db \<Rightarrow> lp_db" where
  "opened_db u i t liq replaced db = (let r = opened_row u t liq i in
     db\<lparr>ld_ranges := ld_ranges db @ [r], ld_events := ld_events db @ [event_of r Lp_ADD liq (oi_capitalUsd i) (oi_at i)],
       ld_rangeRebalances := ld_rangeRebalances db @ (case replaced of None \<Rightarrow> [] | Some c \<Rightarrow> [rebalance_row r c (oi_at i)]),
       ld_pnl := ld_pnl db @ [pnl_of r (if replaced = None then Lp_ADD else Lp_REBALANCE) 0 (oi_realized i) (oi_at i)]\<rparr>)"

lemma opened_row_sel [simp]:
  "range_key (opened_row u t liq i) = open_key i t" "row_capital (opened_row u t liq i) = oi_capitalUsd i"
  "rn_capitalUsd (opened_row u t liq i) = microsToUsd (oi_capitalUsd i)" "rn_liquidity (opened_row u t liq i) = int_str liq"
  "rn_id (opened_row u t liq i) = u" "rn_mode (opened_row u t liq i) = oi_mode i" "rn_chain (opened_row u t liq i) = oi_chain i" "rn_tokenId (opened_row u t liq i) = t"
  "rn_protocol (opened_row u t liq i) = oi_protocol i" "rn_poolId (opened_row u t liq i) = oi_poolId i"
  by (simp_all add: opened_row_def range_key_def open_key_def row_capital_def)

lemma opened_row_liquidity [simp]: "0 \<le> liq \<Longrightarrow> row_liquidity (opened_row u t liq i) = liq"
  by (simp add: row_liquidity_def)

lemma opened_wf:
  assumes "open_args i" "0 < liq" "canonicalTokenId t = Inr t"
  shows "row_wf (opened_row u t liq i)"
  using assms canonical_digits [OF assms(3)]
  by (auto simp: row_wf_def range_row_ok_def opened_row_def open_args_def MAX_FEE_PIPS_def MIN_TICK_def MAX_TICK_def
      all_digits_int_str int_str_zero row_liquidity_def row_capital_def)

text \<open>Which position a mint replaces, as the code resolves it.\<close>

lemma resolve_eq:
  assumes "lp_inv db"
  shows "resolveRebalancedFrom i t db = (case oi_rebalancedFrom i of
      None \<Rightarrow> Inr None
    | Some f \<Rightarrow> sbind (canonicalTokenId f) (\<lambda>old.
        if old = t then Inl (AppError E_SCHEMA_INVALID ''A rebalance replaces one position with another, not with itself'')
        else case findRange db (open_key i old) of
          None \<Rightarrow> Inl (AppError E_CONFLICT ''No range position to rebalance out of'') | Some r \<Rightarrow> Inr (Some (position_of r))))"
  using getRangePosition_inv [OF assms]
  by (auto simp: resolveRebalancedFrom_def open_key_def canonical_again sbind_def split: option.splits sum.splits)

lemma open_write:
  assumes inv: "lp_inv db" and t: "canonicalTokenId t = Inr t" and new: "findRange db (open_key i t) = None"
    and args: "open_args i" "0 < liq" and fresh: "\<not> has_range_id db u"
    and rep: "\<And>c. replaced = Some c \<Longrightarrow> \<exists>old. findRange db (open_key i old) = Some c \<and> old \<noteq> t"
  shows "sbind (insertRange (opened_row u t liq i) db) (\<lambda>db.
       sbind (reread db (oi_mode i) (oi_chain i) (oi_protocol i) t) (\<lambda>position.
       sbind (recordRangeEvent position Lp_ADD liq (oi_capitalUsd i) (oi_at i) db) (\<lambda>db.
       sbind (case map_option position_of replaced of None \<Rightarrow> Inr db | Some r \<Rightarrow> countRangeRebalance position r (oi_at i) db) (\<lambda>db.
       let (db, realized) = recordRangePnl position (if map_option position_of replaced = None then Lp_ADD else Lp_REBALANCE) 0
             (oi_realized i) (oi_at i) db
       in Inr (db, position))))) = Inr (opened_db u i t liq replaced db, position_of (opened_row u t liq i))"
proof -
  let ?r = "opened_row u t liq i"
  have wf: "row_wf ?r" by (rule opened_wf [OF args t])
  have ins: "insertRange ?r db = Inr (appendRange db ?r)" using wf new fresh by (simp add: insertRange_def row_wf_def)
  have found: "findRange (appendRange db ?r) (oi_mode i, oi_chain i, oi_protocol i, t) = Some ?r"
    using rng.look_ins [of db ?r "open_key i t"] new by (simp add: open_key_def)
  note re = reread_row [OF t found wf]
  have frames: "ld_events (appendRange db ?r) = ld_events db" "ld_pnl (appendRange db ?r) = ld_pnl db"
    "ld_rangeRebalances (appendRange db ?r) = ld_rangeRebalances db" by (simp_all add: appendRange_def)
  have count: "countRangeRebalance (position_of ?r) (position_of c) (oi_at i) db1 =
      Inr (db1\<lparr>ld_rangeRebalances := ld_rangeRebalances db1 @ [rebalance_row ?r c (oi_at i)]\<rparr>)"
    if c: "replaced = Some c" and d: "ld_rangeRebalances db1 = ld_rangeRebalances db" and
      ids: "ld_ranges db1 = ld_ranges db @ [?r]" for c db1
  proof -
    obtain old where old: "findRange db (open_key i old) = Some c" "old \<noteq> t" using rep [OF c] by blast
    have cw: "row_wf c" "range_key c = open_key i old" using find_wf [OF inv old(1)] by simp_all
    have dig: "all_digits (rn_tokenId c)" "all_digits t" "rn_tokenId c \<noteq> t"
      using cw old(2) canonical_digits [OF t] by (auto simp: row_wf_def range_row_ok_def range_key_def open_key_def)
    have "\<not> (\<exists>x \<in> set (ld_rangeRebalances db). rl_mode x = oi_mode i \<and> rl_chain x = oi_chain i \<and>
        rl_protocol x = oi_protocol i \<and> rl_openedTokenId x = t)"
      using inv new by (auto simp: lp_inv_def rng.look_None open_key_def)
    moreover have "has_range_id db1 (rn_id c)" "has_range_id db1 (rn_id ?r)"
      using found_id [OF old(1)] by (auto simp: has_range_id_iff ids)
    ultimately show ?thesis using dig by (simp add: countRangeRebalance_def Let_def position_of_def d rebalance_row_def)
  qed
  have ev: "recordRangeEvent (position_of ?r) Lp_ADD liq (oi_capitalUsd i) (oi_at i) (appendRange db ?r) = Inr ((appendRange db ?r)
      \<lparr>ld_events := ld_events (appendRange db ?r) @ [event_of ?r Lp_ADD liq (oi_capitalUsd i) (oi_at i)]\<rparr>)"
    by (rule record_event_of [OF _ found_id [OF found]]) simp
  show ?thesis
    unfolding ins sbind_Inr re ev Let_def
    by (cases replaced) (simp_all add: record_pnl_of opened_db_def Let_def appendRange_def count frames)
qed

lemma checks_Inr [simp]:
  "assertFeePips f = Inr x \<longleftrightarrow> 0 < f \<and> f < MAX_FEE_PIPS"
  "assertTickRange l h = Inr x \<longleftrightarrow> MIN_TICK \<le> l \<and> l < h \<and> h \<le> MAX_TICK"
  "assertRealized z False = Inr x \<longleftrightarrow> 0 \<le> zi_feeUsd z \<and> zi_proceedsUsd z = 0"
  by (auto simp: assertFeePips_def assertTickRange_def assertRealized_def)

text \<open>The operation on every branch: the refusals of the arguments in the order of the code, then the conflicts, then the write.\<close>

lemma open_eq:
  assumes inv: "lp_inv db" and t: "canonicalTokenId (oi_tokenId i) = Inr t" and l: "amountToBigint (oi_liquidity i) = Inr liq"
    and args: "open_args i" "0 < liq" and fresh: "\<not> has_range_id db u"
  shows "openRangePosition u i db =
    (if findRange db (open_key i t) \<noteq> None then Inl (AppError E_CONFLICT ''That range position is already booked'')
     else sbind (resolveRebalancedFrom i t db) (\<lambda>replaced.
       Inr (opened_db u i t liq (map_option rc_row replaced) db, position_of (opened_row u t liq i))))"
proof -
  note t' = canonical_again [OF t]
  have g: "getRangePosition db (oi_mode i) (oi_chain i) (oi_protocol i) t = Inr (map_option position_of (findRange db (open_key i t)))"
    using getRangePosition_inv [OF inv t'] by (simp add: open_key_def)
  have a: "assertRealized (oi_realized i) False = Inr ()" "assertFeePips (oi_feePips i) = Inr ()"
    "assertTickRange (oi_tickLower i) (oi_tickUpper i) = Inr ()" "\<not> liq \<le> 0" "\<not> oi_capitalUsd i < 0"
    using args by (simp_all add: open_args_def)
  show ?thesis
  proof (cases "findRange db (open_key i t)")
    case None
    show ?thesis
    proof (cases "resolveRebalancedFrom i t db")
      case (Inl e)
      then show ?thesis using None by (simp add: openRangePosition_def t l a g)
    next
      case (Inr replaced)
      have rp: "replaced = map_option position_of (map_option rc_row replaced)"
        using Inr resolve_eq [OF inv, of i t] by (auto simp: sbind_eq_Inr position_of_def split: option.splits if_split_asm)
      have rep: "\<exists>old. findRange db (open_key i old) = Some c \<and> old \<noteq> t" if "map_option rc_row replaced = Some c" for c
        using Inr that unfolding resolve_eq [OF inv, of i t]
        by (auto simp: sbind_eq_Inr position_of_def split: option.splits if_split_asm)
      note w = open_write [OF inv t' None args fresh, of "map_option rc_row replaced", OF rep, folded rp]
      show ?thesis unfolding openRangePosition_def t l sbind_Inr a(1-3) if_not_P [OF a(4)] if_not_P [OF a(5)] g None Inr
        using w by simp
    qed
  next
    case (Some r)
    then show ?thesis by (simp add: openRangePosition_def t l a g)
  qed
qed

lemma open_needs:
  assumes "openRangePosition u i db = Inr (db', p)"
  shows "open_args i \<and> \<not> has_range_id db u \<and> (\<exists>t liq. canonicalTokenId (oi_tokenId i) = Inr t \<and> amountToBigint (oi_liquidity i) = Inr liq \<and> 0 < liq)"
  using assms by (auto simp: openRangePosition_def sbind_eq_Inr open_args_def insertRange_def opened_row_def split: if_split_asm)

lemma open_parts:
  assumes "lp_inv db" "openRangePosition u i db = Inr (db', p)"
  obtains t liq replaced where "canonicalTokenId (oi_tokenId i) = Inr t" "open_args i" "0 < liq" "findRange db (open_key i t) = None"
    "resolveRebalancedFrom i t db = Inr replaced" "db' = opened_db u i t liq (map_option rc_row replaced) db"
    "p = position_of (opened_row u t liq i)"
proof -
  obtain t liq where t: "open_args i" "canonicalTokenId (oi_tokenId i) = Inr t" "amountToBigint (oi_liquidity i) = Inr liq" "0 < liq"
    and fresh: "\<not> has_range_id db u"
    using open_needs [OF assms(2)] by blast
  show thesis using assms(2) unfolding open_eq [OF assms(1) t(2,3,1,4) fresh]
    by (auto simp: sbind_eq_Inr split: if_split_asm intro!: that [OF t(2,1,4)])
qed

lemma opened_db_sel [simp]:
  "ld_ranges (opened_db u i t liq c db) = ld_ranges db @ [opened_row u t liq i]"
  "ld_events (opened_db u i t liq c db) = ld_events db @ [event_of (opened_row u t liq i) Lp_ADD liq (oi_capitalUsd i) (oi_at i)]"
  "ld_pools (opened_db u i t liq c db) = ld_pools db" "ld_rebalances (opened_db u i t liq c db) = ld_rebalances db"
  "ld_rangeRebalances (opened_db u i t liq c db) = ld_rangeRebalances db @
     (case c of None \<Rightarrow> [] | Some c \<Rightarrow> [rebalance_row (opened_row u t liq i) c (oi_at i)])"
  by (simp_all add: opened_db_def Let_def)

lemma open_inv:
  assumes inv: "lp_inv db" and o: "openRangePosition u i db = Inr (db', p)"
  shows "lp_inv db'"
proof -
  obtain t liq and replaced :: "range_position option" where t: "canonicalTokenId (oi_tokenId i) = Inr t" "open_args i" "0 < liq" "findRange db (open_key i t) = None"
    and db: "db' = opened_db u i t liq (map_option rc_row replaced) db" by (rule open_parts [OF assms]) blast
  let ?r = "opened_row u t liq i" and ?k = "open_key i t"
  have none: "?k \<notin> range_key ` set (ld_ranges db)" using t(4) by (simp add: rng.look_None)
  have tr: "trail db' k = trail db k @ (if k = ?k then [event_of ?r Lp_ADD liq (oi_capitalUsd i) (oi_at i)] else [])" for k
    by (auto simp: trail_def db)
  have "\<forall>e \<in> set (ld_events db). event_key e \<noteq> ?k" using inv none unfolding lp_inv_def by metis
  then have empty: "trail db ?k = []" by (simp add: trail_def)
  have "row_wf ?r \<and> trail_ok db' ?r"
    using opened_wf [OF t(2,3) canonical_again [OF t(1)]] t(3) by (simp add: trail_ok_def tr empty)
  moreover have "row_wf x \<and> trail_ok db' x" if x: "x \<in> set (ld_ranges db)" for x
  proof -
    have "range_key x \<noteq> ?k" using x none by (metis image_eqI)
    then show ?thesis using inv x by (auto simp: lp_inv_def trail_ok_def tr)
  qed
  moreover have "distinct (map range_key (ld_ranges db'))" using inv none by (simp add: lp_inv_def db)
  moreover have "\<forall>x \<in> set (ld_rangeRebalances db'). (rl_mode x, rl_chain x, rl_protocol x, rl_openedTokenId x) \<in> range_key ` set (ld_ranges db')"
    using inv by (auto simp: lp_inv_def db rebalance_row_def open_key_def split: option.splits)
  ultimately show ?thesis using inv by (simp add: lp_inv_def db)
qed

end
