(* ===== verification/Lp_Runs.thy ===== *)
theory Lp_Runs
  imports Lp_Props "HOL-Library.Multiset"
begin

text \<open>
  Closing and marking a range, the runs of the liquidity store, and the properties that rest on its invariant. A step
  is labelled with what was asked of the store, so that its books can be compared with what happened.
\<close>

section \<open>Closing and marking\<close>

definition close_adjust :: "close_range_input \<Rightarrow> string \<Rightarrow> int \<Rightarrow> adjust_range_input" where
  "close_adjust i t held = \<lparr>ji_mode = ci_mode i, ji_chain = ci_chain i, ji_protocol = ci_protocol i, ji_tokenId = t,
     ji_liquidityDelta = - held, ji_capitalUsd = None, ji_realized = ci_realized i, ji_at = ci_at i\<rparr>"

lemma close_eq:
  assumes inv: "lp_inv db" and t: "canonicalTokenId (ci_tokenId i) = Inr t"
  shows "closeRangePosition i db = (case findRange db (ci_mode i, ci_chain i, ci_protocol i, t) of
      None \<Rightarrow> Inl (AppError E_CONFLICT ''No range position to close'')
    | Some r \<Rightarrow> if row_liquidity r = 0 then Inl (AppError E_CONFLICT ''That range position is already closed'')
        else adjustRangePosition (close_adjust i t (row_liquidity r)) db)"
proof (cases "findRange db (ci_mode i, ci_chain i, ci_protocol i, t)")
  case None
  then show ?thesis by (simp add: closeRangePosition_def t getRangePosition_inv [OF inv canonical_again [OF t]])
next
  case (Some r)
  have "row_wf r" using find_wf [OF inv Some] by simp
  then have "amountToBigint (rn_liquidity r) = Inr (row_liquidity r)" by (metis row_wf_def row_liquidity_nonneg amountToBigint_int_str)
  then show ?thesis using Some
    by (simp add: closeRangePosition_def t getRangePosition_inv [OF inv canonical_again [OF t]] close_adjust_def position_of_def)
qed

lemma close_inv:
  assumes "lp_inv db" "closeRangePosition i db = Inr (db', res)"
  shows "lp_inv db'"
proof -
  obtain t where "canonicalTokenId (ci_tokenId i) = Inr t" using assms(2) by (auto simp: closeRangePosition_def sbind_eq_Inr)
  then obtain j where "adjustRangePosition j db = Inr (db', res)"
    using assms(2) close_eq [OF assms(1)] by (auto split: option.splits if_split_asm)
  then show ?thesis by (rule adjust_inv [OF assms(1)])
qed

lemma mark_eq:
  assumes inv: "lp_inv db" and t: "canonicalTokenId tokenId = Inr t"
  defines "f \<equiv> \<lambda>k r. r\<lparr>rn_markValueUsd := map_option microsToUsd (mi_valueUsd k),
       rn_markFeesUsd := map_option microsToUsd (mi_feesUsd k), rn_markAmount0 := mi_amount0 k, rn_markAmount1 := mi_amount1 k,
       rn_markInRange := map_option (\<lambda>b. if b then 1 else 0) (mi_inRange k), rn_markPoolTick := mi_poolTick k,
       rn_markNote := mi_note k, rn_markedAt := Some (mi_at k)\<rparr>"
  shows "markRangePosition m c p tokenId k db = Inr (setRange db (m, c, p, t) (f k))"
    "row_wf r \<Longrightarrow> row_wf (f k r)" "range_key (f k r) = range_key r" "row_liquidity (f k r) = row_liquidity r"
    "row_capital (f k r) = row_capital r" "rn_id (f k r) = rn_id r" "rn_liquidity (f k r) = rn_liquidity r"
    "rn_capitalUsd (f k r) = rn_capitalUsd r"
proof -
  show wf: "row_wf r \<Longrightarrow> row_wf (f k r)" for r
    by (auto simp: row_wf_def range_row_ok_def f_def row_liquidity_def row_capital_def split: option.splits)
  show "range_key (f k r) = range_key r" "row_liquidity (f k r) = row_liquidity r" "row_capital (f k r) = row_capital r"
    "rn_id (f k r) = rn_id r" "rn_liquidity (f k r) = rn_liquidity r" "rn_capitalUsd (f k r) = rn_capitalUsd r"
    by (simp_all add: f_def range_key_def row_liquidity_def row_capital_def)
  show "markRangePosition m c p tokenId k db = Inr (setRange db (m, c, p, t) (f k))"
  proof (cases "findRange db (m, c, p, t)")
    case None
    then have "\<forall>r \<in> set (ld_ranges db). range_key r \<noteq> (m, c, p, t)" unfolding rng.look_None by (metis image_eqI)
    then have "setRange db (m, c, p, t) (f k) = db" by (simp add: setRange_def map_update_absent)
    then show ?thesis using None by (simp add: markRangePosition_def t updateRange_def)
  next
    case (Some r)
    have "row_wf r" using find_wf [OF inv Some] by blast
    then have "row_wf (f k r)" by (rule wf)
    then have "range_row_ok (f k r)" unfolding row_wf_def by (elim conjE)
    then have "updateRange (m, c, p, t) (f k) db = Inr (setRange db (m, c, p, t) (f k))" by (simp only: updateRange_def Some option.case if_True)
    then show ?thesis unfolding markRangePosition_def t sbind_Inr f_def .
  qed
qed

lemma inv_marks:
  assumes inv: "lp_inv db" and f: "\<And>r. range_key (f r) = range_key r" "\<And>r. row_liquidity (f r) = row_liquidity r"
    "\<And>r. row_capital (f r) = row_capital r" "\<And>r. rn_id (f r) = rn_id r" "\<And>r. rn_liquidity (f r) = rn_liquidity r"
    "\<And>r. rn_capitalUsd (f r) = rn_capitalUsd r" "\<And>r. row_wf r \<Longrightarrow> row_wf (f r)"
  shows "lp_inv (setRange db k f)"
proof -
  have keys: "range_key ` set (ld_ranges (setRange db k f)) = range_key ` set (ld_ranges db)"
  proof -
    have "map range_key (ld_ranges (setRange db k f)) = map range_key (ld_ranges db)" by (simp add: setRange_def f)
    then show ?thesis by (metis list.set_map)
  qed
  have tr: "trail (setRange db k f) k' = trail db k'" for k' by (simp add: trail_def)
  have "row_wf x \<and> trail_ok (setRange db k f) x" if x: "x \<in> set (ld_ranges (setRange db k f))" for x
  proof -
    obtain y where y: "y \<in> set (ld_ranges db)" "x = (if range_key y = k then f y else y)"
      using x unfolding rng.upd set_map by blast
    then have "row_wf y" "trail_ok db y" using inv by (simp_all add: lp_inv_def)
    then show ?thesis using y(2) f by (auto simp: trail_ok_def tr)
  qed
  moreover have "distinct (map range_key (ld_ranges (setRange db k f)))" using rng.unique_upd [of f db k] f inv by (simp add: lp_inv_def)
  ultimately show ?thesis using inv by (simp add: lp_inv_def keys)
qed

lemma mark_inv:
  assumes "lp_inv db" "markRangePosition m c p tokenId k db = Inr db'"
  shows "lp_inv db'"
proof -
  obtain t where t: "canonicalTokenId tokenId = Inr t" using assms(2) by (auto simp: markRangePosition_def sbind_eq_Inr)
  note e = mark_eq [OF assms(1) t]
  show ?thesis using assms(2) unfolding e(1) by (auto intro!: inv_marks [OF assms(1)] e(2-))
qed

section \<open>Runs\<close>

text \<open>What an operation asked for, as far as the daily limits are concerned: a mint that replaces a position in a range, an
  addition to a pool that is part of a rebalance, or anything else.\<close>

datatype lp_label =
  Mv_replaced mode chain_id string int
| Mv_rebalanced mode chain_id string int
| Mv_quiet

definition add_label :: "book_add_input \<Rightarrow> lp_label" where
  "add_label i = (if bi_rebalance i then Mv_rebalanced (bi_mode i) (bi_chain i) (bi_poolId i) (bi_at i) else Mv_quiet)"

definition open_label :: "open_range_input \<Rightarrow> lp_label" where
  "open_label i = (case oi_rebalancedFrom i of None \<Rightarrow> Mv_quiet
     | Some _ \<Rightarrow> Mv_replaced (oi_mode i) (oi_chain i) (oi_poolId i) (oi_at i))"

text \<open>Every operation that writes and returns; one that raises leaves the database as it was.\<close>

inductive lp_move :: "lp_db \<Rightarrow> lp_label \<Rightarrow> lp_db \<Rightarrow> bool" where
  st_add: "bookAdd u i db = Inr (db', p) \<Longrightarrow> lp_move db (add_label i) db'"
| st_remove: "bookRemove k n at' db = Inr (db', r) \<Longrightarrow> lp_move db Mv_quiet db'"
| st_claim: "lp_move db Mv_quiet (touchClaim k at' db)"
| st_mark_pool: "lp_move db Mv_quiet (mark_pool k m db)"
| st_open: "openRangePosition u oi db = Inr (db', rp) \<Longrightarrow> lp_move db (open_label oi) db'"
| st_adjust: "adjustRangePosition ji db = Inr (db', jr) \<Longrightarrow> lp_move db Mv_quiet db'"
| st_close: "closeRangePosition ci db = Inr (db', jr) \<Longrightarrow> lp_move db Mv_quiet db'"
| st_mark: "markRangePosition md c p tokenId rm db = Inr db' \<Longrightarrow> lp_move db Mv_quiet db'"
| st_pnl: "lp_move db Mv_quiet (fst (recordPnl n db))"
| st_action: "lp_move db Mv_quiet (recordAction u t a db)"
| st_ensure: "lp_move db Mv_quiet (ensureSchedulerRow db)"
| st_set: "lp_move db Mv_quiet (setScheduler en s db)"
| st_disable: "lp_move db Mv_quiet (disableScheduler db)"
| st_cycle: "lp_move db Mv_quiet (recordCycle cyc fin st db)"

definition lp_step :: "lp_db \<Rightarrow> lp_db \<Rightarrow> bool" where
  "lp_step db db' \<longleftrightarrow> (\<exists>ev. lp_move db ev db')"

definition empty_lp :: lp_db where
  "empty_lp = \<lparr>ld_pools = [], ld_ranges = [], ld_events = [], ld_pnl = [], ld_rebalances = Map.empty, ld_rangeRebalances = [],
    ld_actions = [], ld_scheduler = None\<rparr>"

inductive lp_run :: "lp_db \<Rightarrow> bool" where
  empty_store: "lp_run empty_lp"
| step_store: "lp_run db \<Longrightarrow> lp_step db db' \<Longrightarrow> lp_run db'"

text \<open>The same runs with what was asked for, in order.\<close>

inductive lp_log :: "lp_label list \<Rightarrow> lp_db \<Rightarrow> bool" where
  log_empty: "lp_log [] empty_lp"
| log_move: "lp_log evs db \<Longrightarrow> lp_move db ev db' \<Longrightarrow> lp_log (evs @ [ev]) db'"

lemma move_step: "lp_move db ev db' \<Longrightarrow> lp_step db db'"
  unfolding lp_step_def by blast

lemma log_run: "lp_log evs db \<Longrightarrow> lp_run db"
  by (induction rule: lp_log.induct) (blast intro: empty_store step_store move_step)+

lemma run_log: "lp_run db \<Longrightarrow> \<exists>evs. lp_log evs db"
  by (induction rule: lp_run.induct) (blast intro: log_empty log_move elim: lp_step_def [THEN iffD1, THEN exE])+

lemma inv_pools:
  assumes "lp_inv db" "ld_ranges db' = ld_ranges db" "ld_events db' = ld_events db" "ld_rangeRebalances db' = ld_rangeRebalances db"
    "\<forall>k n. ld_rebalances db' k = Some n \<longrightarrow> 0 < n" "\<forall>p \<in> set (ld_pools db'). returns (usdToMicros (po_capitalUsd p))"
  shows "lp_inv db'"
  using assms by (simp add: lp_inv_def trail_ok_def trail_def)

lemma pool_frames [simp]:
  "ld_ranges (updatePool db k f) = ld_ranges db" "ld_events (updatePool db k f) = ld_events db"
  "ld_rangeRebalances (updatePool db k f) = ld_rangeRebalances db" "ld_rebalances (updatePool db k f) = ld_rebalances db"
  "ld_ranges (insertPool db p) = ld_ranges db" "ld_events (insertPool db p) = ld_events db"
  "ld_rangeRebalances (insertPool db p) = ld_rangeRebalances db" "ld_rebalances (insertPool db p) = ld_rebalances db"
  "ld_ranges (deletePool db k) = ld_ranges db" "ld_events (deletePool db k) = ld_events db"
  "ld_rangeRebalances (deletePool db k) = ld_rangeRebalances db" "ld_rebalances (deletePool db k) = ld_rebalances db"
  "ld_ranges (countRebalance m c pl t db) = ld_ranges db" "ld_events (countRebalance m c pl t db) = ld_events db"
  "ld_rangeRebalances (countRebalance m c pl t db) = ld_rangeRebalances db" "ld_pools (countRebalance m c pl t db) = ld_pools db"
  by (simp_all add: updatePool_def insertPool_def deletePool_def countRebalance_def)

lemma remove_keeps:
  assumes "bookRemove k n at' db = Inr (db', r)" "\<forall>p \<in> set (ld_pools db). returns (usdToMicros (po_capitalUsd p))"
  shows "ld_ranges db' = ld_ranges db" "ld_events db' = ld_events db" "ld_rangeRebalances db' = ld_rangeRebalances db"
    "ld_rebalances db' = ld_rebalances db" "\<forall>p \<in> set (ld_pools db'). returns (usdToMicros (po_capitalUsd p))"
proof -
  have "db' = deletePool db k \<or> (\<exists>f m. db' = updatePool db k f \<and> (\<forall>p. po_capitalUsd (f p) = microsToUsd m))"
    using assms(1) unfolding bookRemove_def Let_def
    by (auto simp: sbind_eq_Inr split: option.splits if_split_asm) fastforce?
  then show "ld_ranges db' = ld_ranges db" "ld_events db' = ld_events db" "ld_rangeRebalances db' = ld_rangeRebalances db"
    "ld_rebalances db' = ld_rebalances db" "\<forall>p \<in> set (ld_pools db'). returns (usdToMicros (po_capitalUsd p))"
    using assms(2) by (auto simp: pool.upd pool.del)
qed

lemma add_write_keeps:
  assumes a: "bookAdd_write u i added db = Inr db1" and n: "\<forall>p \<in> set (ld_pools db). returns (usdToMicros (po_capitalUsd p))"
  shows "ld_ranges db1 = ld_ranges db \<and> ld_events db1 = ld_events db \<and> ld_rangeRebalances db1 = ld_rangeRebalances db \<and>
    ld_rebalances db1 = ld_rebalances db \<and> (\<forall>p \<in> set (ld_pools db1). returns (usdToMicros (po_capitalUsd p)))"
proof (cases "getPool db (bi_mode i, bi_chain i, bi_protocol i, bi_poolId i)")
  case None
  then show ?thesis using a n by (auto simp: bookAdd_write_def Let_def sbind_eq_Inr insertPool_def)
next
  case (Some e)
  have "\<exists>f m. db1 = updatePool db (bi_mode i, bi_chain i, bi_protocol i, bi_poolId i) f \<and> (\<forall>p. po_capitalUsd (f p) = microsToUsd m)"
    using a unfolding bookAdd_write_def Let_def Some option.case sbind_eq_Inr sum.inject
    by (elim exE conjE) (intro exI conjI allI, erule sym, simp)
  then obtain f m where f: "db1 = updatePool db (bi_mode i, bi_chain i, bi_protocol i, bi_poolId i) f" "\<forall>p. po_capitalUsd (f p) = microsToUsd m"
    by blast
  show ?thesis using n f(2) by (auto simp: f(1) pool.upd)
qed

lemma count_positive: "\<forall>k n. ld_rebalances db k = Some n \<longrightarrow> 0 < n \<Longrightarrow>
    \<forall>k n. ld_rebalances (countRebalance m c pl t db) k = Some n \<longrightarrow> 0 < n"
  unfolding countRebalance_def by (auto split: if_split_asm option.split) force

lemma add_keeps:
  assumes a: "bookAdd u i db = Inr (db', p)" and n: "\<forall>k n. ld_rebalances db k = Some n \<longrightarrow> 0 < n"
    "\<forall>p \<in> set (ld_pools db). returns (usdToMicros (po_capitalUsd p))"
  shows "ld_ranges db' = ld_ranges db" "ld_events db' = ld_events db" "ld_rangeRebalances db' = ld_rangeRebalances db"
    "\<forall>k n. ld_rebalances db' k = Some n \<longrightarrow> 0 < n" "\<forall>p \<in> set (ld_pools db'). returns (usdToMicros (po_capitalUsd p))"
proof -
  obtain added db1 where w: "bookAdd_write u i added db = Inr db1"
    and d: "db' = (if bi_rebalance i then countRebalance (bi_mode i) (bi_chain i) (bi_poolId i) (bi_at i) db1 else db1)"
    using a by (auto simp: bookAdd_def Let_def sbind_eq_Inr split: if_split_asm)
  have one: "ld_ranges db1 = ld_ranges db" "ld_events db1 = ld_events db" "ld_rangeRebalances db1 = ld_rangeRebalances db"
    "ld_rebalances db1 = ld_rebalances db" "\<forall>p \<in> set (ld_pools db1). returns (usdToMicros (po_capitalUsd p))"
    using add_write_keeps [OF w n(2)] by blast+
  have pos: "\<forall>k n. ld_rebalances db1 k = Some n \<longrightarrow> 0 < n" unfolding one(4) by (rule n(1))
  show "\<forall>k n. ld_rebalances db' k = Some n \<longrightarrow> 0 < n"
  proof (cases "bi_rebalance i")
    case True
    show ?thesis unfolding d if_P [OF True] by (rule count_positive [OF pos])
  next
    case False
    show ?thesis unfolding d if_not_P [OF False] by (rule pos)
  qed
  show "ld_ranges db' = ld_ranges db" "ld_events db' = ld_events db" "ld_rangeRebalances db' = ld_rangeRebalances db"
    "\<forall>p \<in> set (ld_pools db'). returns (usdToMicros (po_capitalUsd p))"
    unfolding d using one by (cases "bi_rebalance i"; simp only: if_True if_False pool_frames)+
qed

lemma inv_pool_parts:
  assumes "lp_inv db"
  shows "\<forall>k n. ld_rebalances db k = Some n \<longrightarrow> 0 < n" "\<forall>p \<in> set (ld_pools db). returns (usdToMicros (po_capitalUsd p))"
  using assms unfolding lp_inv_def by blast+

lemma add_inv:
  assumes "lp_inv db" "bookAdd u i db = Inr (db', p)"
  shows "lp_inv db'"
  by (rule inv_pools [OF assms(1) add_keeps [OF assms(2) inv_pool_parts [OF assms(1)]]])

lemma remove_inv:
  assumes "lp_inv db" "bookRemove k n at' db = Inr (db', r)"
  shows "lp_inv db'"
proof (rule inv_pools [OF assms(1)])
  note kept = remove_keeps [OF assms(2) inv_pool_parts(2) [OF assms(1)]]
  show "ld_ranges db' = ld_ranges db" "ld_events db' = ld_events db" "ld_rangeRebalances db' = ld_rangeRebalances db"
    "\<forall>p \<in> set (ld_pools db'). returns (usdToMicros (po_capitalUsd p))" by (fact kept)+
  show "\<forall>k n. ld_rebalances db' k = Some n \<longrightarrow> 0 < n" unfolding kept(4) by (rule inv_pool_parts [OF assms(1)])
qed

lemma pool_update_inv:
  assumes "lp_inv db" "\<And>p. po_capitalUsd (f p) = po_capitalUsd p"
  shows "lp_inv (updatePool db k f)"
proof (rule inv_pools [OF assms(1)])
  show "\<forall>p \<in> set (ld_pools (updatePool db k f)). returns (usdToMicros (po_capitalUsd p))"
    using inv_pool_parts(2) [OF assms(1)] assms(2) by (auto simp: pool.upd)
qed (use inv_pool_parts(1) [OF assms(1)] in \<open>simp_all\<close>)

lemma side_inv:
  assumes "lp_inv db" "ld_ranges db' = ld_ranges db" "ld_events db' = ld_events db" "ld_rangeRebalances db' = ld_rangeRebalances db"
    "ld_rebalances db' = ld_rebalances db" "ld_pools db' = ld_pools db"
  shows "lp_inv db'"
proof (rule inv_pools [OF assms(1-4)])
  show "\<forall>k n. ld_rebalances db' k = Some n \<longrightarrow> 0 < n" unfolding assms(5) by (rule inv_pool_parts [OF assms(1)])
  show "\<forall>p \<in> set (ld_pools db'). returns (usdToMicros (po_capitalUsd p))" unfolding assms(6) by (rule inv_pool_parts [OF assms(1)])
qed

lemma step_inv:
  assumes "lp_move db ev db'" "lp_inv db"
  shows "lp_inv db'"
  using assms(1)
proof cases
  case (st_add u i p)
  show ?thesis by (rule add_inv [OF assms(2) st_add(2)])
next
  case (st_remove k n at' r)
  show ?thesis by (rule remove_inv [OF assms(2) st_remove(2)])
next
  case (st_claim k at')
  show ?thesis unfolding st_claim touchClaim_def by (rule pool_update_inv [OF assms(2)]) simp
next
  case (st_mark_pool k m)
  show ?thesis unfolding st_mark_pool mark_pool_def by (rule pool_update_inv [OF assms(2)]) simp
next
  case (st_open u oi rp)
  show ?thesis by (rule open_inv [OF assms(2) st_open(2)])
next
  case (st_adjust ji jr)
  show ?thesis by (rule adjust_inv [OF assms(2) st_adjust(2)])
next
  case (st_close ci jr)
  show ?thesis by (rule close_inv [OF assms(2) st_close(2)])
next
  case (st_mark md c p tokenId rm)
  show ?thesis by (rule mark_inv [OF assms(2) st_mark(2)])
qed (rule side_inv [OF assms(2)]; simp add: recordPnl_def Let_def recordAction_def ensureSchedulerRow_def setScheduler_def
    disableScheduler_def recordCycle_def split: option.splits)+

lemma run_inv: "lp_run db \<Longrightarrow> lp_inv db"
proof (induction rule: lp_run.induct)
  case empty_store
  show ?case by (simp add: lp_inv_def empty_lp_def)
next
  case (step_store db db')
  then show ?case using step_inv unfolding lp_step_def by blast
qed

section \<open>The properties\<close>

lemma wf_closed: "row_wf r \<Longrightarrow> rn_closedAt r \<noteq> None \<longleftrightarrow> row_liquidity r = 0"
  using int_str_zero [OF row_liquidity_nonneg [of r]] by (auto simp: row_wf_def range_row_ok_def)

text \<open>C17. Every position is accounted for by its trail. In every database the store can have reached, a token id of a
  protocol on a chain in a mode has one row; the row's trail is not empty, the changes of liquidity in it add up to the
  row's liquidity and the changes of capital to its cost basis, its last entry shows both, all of it names the row; the
  basis is never negative, and a position is closed exactly when it has no liquidity, when it also carries no cost.\<close>

theorem range_trail:
  assumes "lp_run db" "r \<in> set (ld_ranges db)"
  shows "findRange db (range_key r) = Some r \<and> trail db (range_key r) \<noteq> [] \<and>
    row_liquidity r = (\<Sum>e \<leftarrow> trail db (range_key r). signed_val (rv_liquidityDelta e)) \<and>
    row_capital r = (\<Sum>e \<leftarrow> trail db (range_key r). micros_val (rv_capitalDeltaUsd e)) \<and>
    rv_liquidityAfter (last (trail db (range_key r))) = rn_liquidity r \<and>
    rv_capitalAfterUsd (last (trail db (range_key r))) = rn_capitalUsd r \<and>
    (\<forall>e \<in> set (trail db (range_key r)). rv_positionId e = rn_id r) \<and>
    0 \<le> row_capital r \<and> (rn_closedAt r \<noteq> None \<longleftrightarrow> row_liquidity r = 0) \<and> (row_liquidity r = 0 \<longrightarrow> row_capital r = 0)"
proof -
  have inv: "lp_inv db" by (rule run_inv [OF assms(1)])
  have r: "row_wf r" "trail_ok db r" "distinct (map range_key (ld_ranges db))" using inv assms(2) unfolding lp_inv_def by blast+
  have "findRange db (range_key r) = Some r" by (rule rng.look_in [OF r(3) assms(2)])
  moreover have "0 \<le> row_capital r" "row_liquidity r = 0 \<longrightarrow> row_capital r = 0" using r(1) unfolding row_wf_def by blast+
  ultimately show ?thesis using r(2) wf_closed [OF r(1)] unfolding trail_ok_def Let_def comp_def by blast
qed

lemma sum_usd_append: "sum_usd (xs @ ys) = sbind (sum_usd xs) (\<lambda>a. sbind (sum_usd ys) (\<lambda>b. Inr (a + b)))"
proof (induction xs)
  case (Cons s xs)
  show ?case by (cases "usdToMicros s"; cases "sum_usd xs"; cases "sum_usd ys") (simp_all add: Cons)
next
  case Nil
  show ?case by (cases "sum_usd ys") simp_all
qed

lemma realized_append:
  assumes "ld_pnl db' = ld_pnl db @ [x]" "lz_mode x = m" "lz_realizedPnlUsd x = microsToUsd p" "dayStart t \<le> lz_at x"
    "realizedPnlToday (with_lp lg db) m t = Inr n"
  shows "realizedPnlToday (with_lp lg db') m t = Inr (n + p)"
proof -
  let ?l = "\<lambda>db. map lr_realizedPnlUsd (filter (\<lambda>r. lr_mode r = m \<and> lr_at r \<ge> dayStart t) (db_lp_pnl (with_lp lg db)))"
  have "?l db' = ?l db @ [microsToUsd p]" using assms(1-4) by (simp add: with_lp_def pnl_view_def)
  moreover have "db_fills (with_lp lg db') = db_fills (with_lp lg db)" by (simp add: with_lp_def)
  moreover have "sum_usd [microsToUsd p] = Inr p" by simp
  ultimately show ?thesis using assms(5)
    by (simp only: realizedPnlToday_def append_assoc [symmetric] sum_usd_append [of _ "[microsToUsd p]"] sbind_Inr)
qed

text \<open>The entry of the trail and the realized result an adjustment writes, and what they say of the row.\<close>

definition adjust_entry :: "adjust_range_input \<Rightarrow> range_row \<Rightarrow> range_event_row" where
  "adjust_entry i r = event_of (adjusted i r) (adjust_act i r) (ji_liquidityDelta i)
     (if 0 < ji_liquidityDelta i then adjust_capital i else - released_of i r) (ji_at i)"

definition adjust_pnl :: "adjust_range_input \<Rightarrow> range_row \<Rightarrow> lp_pnl" where
  "adjust_pnl i r = pnl_of (adjusted i r) (adjust_act i r) (released_of i r) (ji_realized i) (ji_at i)"

lemma adjusted_writes:
  assumes "adjust_args i" "row_wf r" "0 \<le> row_liquidity r + ji_liquidityDelta i" "range_key r = k"
    "k = (ji_mode i, ji_chain i, ji_protocol i, ji_tokenId i)" "range_key (adjusted i r) = k"
  shows "adjusted i r = r\<lparr>rn_liquidity := rn_liquidity (adjusted i r), rn_capitalUsd := rn_capitalUsd (adjusted i r),
      rn_lastAction := rv_action (adjust_entry i r), rn_lastActionAt := ji_at i,
      rn_closedAt := (if row_liquidity (adjusted i r) = 0 then Some (ji_at i) else None)\<rparr>"
    "event_key (adjust_entry i r) = k" "rv_positionId (adjust_entry i r) = rn_id r" "rv_at (adjust_entry i r) = ji_at i"
    "signed_val (rv_liquidityDelta (adjust_entry i r)) = ji_liquidityDelta i"
    "rv_action (adjust_entry i r) = (if 0 < ji_liquidityDelta i then Lp_ADD else if row_liquidity (adjusted i r) = 0 then Lp_EXIT
       else Lp_REMOVE)"
    "lz_mode (adjust_pnl i r) = ji_mode i" "lz_chain (adjust_pnl i r) = ji_chain i" "lz_poolId (adjust_pnl i r) = rn_poolId r"
    "lz_at (adjust_pnl i r) = ji_at i"
    "lz_realizedPnlUsd (adjust_pnl i r) = microsToUsd (zi_proceedsUsd (ji_realized i) - released_of i r - zi_feeUsd (ji_realized i))"
proof -
  note v = adjusted_values(1) [OF assms(2,1,3)]
  show "adjusted i r = r\<lparr>rn_liquidity := rn_liquidity (adjusted i r), rn_capitalUsd := rn_capitalUsd (adjusted i r),
      rn_lastAction := rv_action (adjust_entry i r), rn_lastActionAt := ji_at i,
      rn_closedAt := (if row_liquidity (adjusted i r) = 0 then Some (ji_at i) else None)\<rparr>"
    unfolding v by (simp add: adjusted_def adjust_fields_def adjust_entry_def event_of_def)
  show "event_key (adjust_entry i r) = k" "rv_positionId (adjust_entry i r) = rn_id r" "rv_at (adjust_entry i r) = ji_at i"
    "signed_val (rv_liquidityDelta (adjust_entry i r)) = ji_liquidityDelta i"
    "rv_action (adjust_entry i r) = (if 0 < ji_liquidityDelta i then Lp_ADD else if row_liquidity (adjusted i r) = 0 then Lp_EXIT
       else Lp_REMOVE)"
    using assms(6) unfolding v
    by (simp_all add: adjust_entry_def event_of_def event_key_def range_key_def adjusted_def adjust_fields_def adjust_act_def)
  show "lz_mode (adjust_pnl i r) = ji_mode i" "lz_chain (adjust_pnl i r) = ji_chain i" "lz_poolId (adjust_pnl i r) = rn_poolId r"
    "lz_at (adjust_pnl i r) = ji_at i"
    "lz_realizedPnlUsd (adjust_pnl i r) = microsToUsd (zi_proceedsUsd (ji_realized i) - released_of i r - zi_feeUsd (ji_realized i))"
    using assms(4) by (simp_all add: assms(5) adjust_pnl_def pnl_of_def range_key_def adjusted_def adjust_fields_def)
qed

text \<open>C18. What a change of a position does. When an adjustment returns, the one row it changed is that of the request, the
  position with the mode, chain, protocol and token id asked for: its liquidity by the change asked for, its cost basis by what
  was paid in less what is released, its last action and the closing; nothing else of it, and no other row. An
  addition releases nothing. A burn releases its share of the basis rounded up to the next micro-USD, never more than the basis,
  and all of it when nothing is left; the position is closed exactly then. One entry of the trail and one realized result are
  written for it. The result realized is the proceeds less what was released and the gas, so never more
  than the exact share would give, and the risk ledger's figure for the day moves by exactly that.\<close>

theorem range_adjust_spec:
  assumes "lp_run db" "adjustRangePosition i db = Inr (db', res)"
    and k: "k = (ji_mode i, ji_chain i, ji_protocol i, ji_tokenId i)"
  shows "\<exists>r r' e x. findRange db k = Some r \<and> findRange db' k = Some r' \<and> (\<forall>k'. k' \<noteq> k \<longrightarrow> findRange db' k' = findRange db k') \<and>
    range_key r = k \<and> range_key r' = k \<and>
    r' = r\<lparr>rn_liquidity := rn_liquidity r', rn_capitalUsd := rn_capitalUsd r', rn_lastAction := rv_action e,
      rn_lastActionAt := ji_at i, rn_closedAt := (if row_liquidity r' = 0 then Some (ji_at i) else None)\<rparr> \<and>
    rc_row (jr_position res) = r' \<and>
    row_liquidity r' = row_liquidity r + ji_liquidityDelta i \<and>
    row_capital r' = row_capital r + adjust_capital i - jr_costReleasedUsd res \<and>
    (if 0 < ji_liquidityDelta i then jr_costReleasedUsd res = 0
     else row_capital r * - ji_liquidityDelta i \<le> jr_costReleasedUsd res * row_liquidity r \<and>
       jr_costReleasedUsd res * row_liquidity r < row_capital r * - ji_liquidityDelta i + row_liquidity r \<and>
       jr_costReleasedUsd res \<le> row_capital r \<and> (row_liquidity r' = 0 \<longrightarrow> jr_costReleasedUsd res = row_capital r)) \<and>
    (jr_closed res \<longleftrightarrow> row_liquidity r' = 0) \<and> (rn_closedAt r' \<noteq> None \<longleftrightarrow> jr_closed res) \<and>
    ld_events db' = ld_events db @ [e] \<and> event_key e = k \<and> rv_positionId e = rn_id r \<and> rv_at e = ji_at i \<and>
    signed_val (rv_liquidityDelta e) = ji_liquidityDelta i \<and>
    rv_action e = (if 0 < ji_liquidityDelta i then Lp_ADD else if row_liquidity r' = 0 then Lp_EXIT else Lp_REMOVE) \<and>
    jr_realizedPnlUsd res = zi_proceedsUsd (ji_realized i) - jr_costReleasedUsd res - zi_feeUsd (ji_realized i) \<and>
    ld_pnl db' = ld_pnl db @ [x] \<and> lz_mode x = ji_mode i \<and> lz_chain x = ji_chain i \<and> lz_poolId x = rn_poolId r \<and>
    lz_at x = ji_at i \<and> lz_realizedPnlUsd x = microsToUsd (jr_realizedPnlUsd res) \<and>
    (\<forall>lg t n. realizedPnlToday (with_lp lg db) (ji_mode i) t = Inr n \<and> dayStart t \<le> ji_at i \<longrightarrow>
       realizedPnlToday (with_lp lg db') (ji_mode i) t = Inr (n + jr_realizedPnlUsd res))"
proof -
  have inv: "lp_inv db" by (rule run_inv [OF assms(1)])
  obtain t r where t: "canonicalTokenId (ji_tokenId i) = Inr t" and p: "adjust_args i" "findRange db (adjust_key i t) = Some r" "row_wf r" "range_key r = adjust_key i t"
    "0 \<le> row_liquidity r + ji_liquidityDelta i" "db' = adjusted_db i t r db" "res = adjusted_result i r"
    by (rule adjust_parts [OF inv assms(2)]) blast
  have kt: "adjust_key i t = k" using canonicalTokenId_same [OF t] by (simp add: k adjust_key_def)
  have key: "range_key (adjust_fields i r x) = range_key x" for x by (simp add: adjust_fields_def range_key_def)
  have look: "findRange db' k = (if k = adjust_key i t then map_option (adjust_fields i r) (findRange db k) else findRange db k)" for k
    using rng.look_upd [of "adjust_fields i r" db "adjust_key i t" k] key
    by (simp add: p(6) adjusted_db_def findRange_def)
  note v = adjusted_values [OF p(3,1,5)] and w = adjusted_wf [OF p(3,1,5)]
  have rel: "jr_costReleasedUsd res = released_of i r" "jr_closed res \<longleftrightarrow> row_liquidity r + ji_liquidityDelta i = 0"
    "jr_realizedPnlUsd res = zi_proceedsUsd (ji_realized i) - released_of i r - zi_feeUsd (ji_realized i)"
    by (simp_all add: p(7) adjusted_result_def)
  let ?r' = "adjusted i r" and ?x = "adjust_pnl i r" and ?e = "adjust_entry i r"
  have keys: "range_key r = k" "range_key ?r' = k" using p(4) by (simp_all add: kt)
  note wr = adjusted_writes [OF p(1,3,5) keys(1) k keys(2)]
  have evs: "ld_events db' = ld_events db @ [?e]" "ld_pnl db' = ld_pnl db @ [?x]"
    by (simp_all add: p(6) adjusted_db_def adjust_entry_def adjust_pnl_def)
  have pnl: "realizedPnlToday (with_lp lg db') (ji_mode i) u = Inr (n + jr_realizedPnlUsd res)"
    if "realizedPnlToday (with_lp lg db) (ji_mode i) u = Inr n" "dayStart u \<le> ji_at i" for lg u n
    by (rule realized_append [OF evs(2) wr(7) _ _ that(1)]) (simp_all add: wr(10,11) rel that(2))
  have d: "ji_liquidityDelta i \<noteq> 0" using p(1) by (simp add: adjust_args_def)
  show ?thesis
  proof (intro exI conjI)
    show "findRange db k = Some r" using p(2) unfolding kt .
    show "findRange db' k = Some ?r'" using p(2) by (simp add: look kt adjusted_def)
    show "\<forall>k'. k' \<noteq> k \<longrightarrow> findRange db' k' = findRange db k'" by (simp add: look kt)
    show "rc_row (jr_position res) = ?r'" by (simp add: p(7) adjusted_result_def position_of_def)
    show "if 0 < ji_liquidityDelta i then jr_costReleasedUsd res = 0
      else row_capital r * - ji_liquidityDelta i \<le> jr_costReleasedUsd res * row_liquidity r \<and>
       jr_costReleasedUsd res * row_liquidity r < row_capital r * - ji_liquidityDelta i + row_liquidity r \<and>
       jr_costReleasedUsd res \<le> row_capital r \<and> (row_liquidity ?r' = 0 \<longrightarrow> jr_costReleasedUsd res = row_capital r)"
      using released_of_bounds [OF p(3)] d p(5) unfolding rel(1) v(1) by (auto simp: released_of_def)
    show "\<forall>lg t n. realizedPnlToday (with_lp lg db) (ji_mode i) t = Inr n \<and> dayStart t \<le> ji_at i \<longrightarrow>
       realizedPnlToday (with_lp lg db') (ji_mode i) t = Inr (n + jr_realizedPnlUsd res)" using pnl by blast
  qed (fact keys evs wr wr(11) [folded rel(3)] | use v wf_closed [OF w] in \<open>simp add: rel\<close>)+
qed

section \<open>The constraints of the database\<close>

lemma amount_error: "amountToBigint s \<noteq> Inl (JsError e)"
  by (simp add: amountToBigint_def MoneyFormatError_def)

lemma args_errors:
  "canonicalTokenId s \<noteq> Inl (JsError e)" "assertRealized z b \<noteq> Inl (JsError e)" "assertFeePips f \<noteq> Inl (JsError e)"
  "assertTickRange l h \<noteq> Inl (JsError e)"
  by (auto simp: canonicalTokenId_def assertRealized_def assertFeePips_def assertTickRange_def split: sum.splits)

lemmas arg_errors = args_errors amount_error

lemma unit_step: "sbind x f = Inl (JsError e) \<Longrightarrow> x \<noteq> Inl (JsError e) \<Longrightarrow> x = Inr ()"
  by (cases x) simp_all

lemma open_never:
  assumes inv: "lp_inv db" and fresh: "\<not> has_range_id db u"
  shows "openRangePosition u i db \<noteq> Inl (JsError e)"
proof
  assume o: "openRangePosition u i db = Inl (JsError e)"
  obtain t where t: "canonicalTokenId (oi_tokenId i) = Inr t"
    using o arg_errors(1) unfolding openRangePosition_def by (auto simp only: sbind_eq_Inl)
  obtain liq where l: "amountToBigint (oi_liquidity i) = Inr liq"
    using o arg_errors(5) unfolding openRangePosition_def t sbind_Inr by (auto simp only: sbind_eq_Inl)
  have z: "assertRealized (oi_realized i) False = Inr ()"
    using o unfolding openRangePosition_def t l sbind_Inr by (rule unit_step) (rule arg_errors)
  have c: "0 < liq" "0 \<le> oi_capitalUsd i"
    using o unfolding openRangePosition_def t l z sbind_Inr by (auto split: if_split_asm)
  then have c': "\<not> liq \<le> 0" "\<not> oi_capitalUsd i < 0" by simp_all
  have f: "assertFeePips (oi_feePips i) = Inr ()"
    using o unfolding openRangePosition_def t l z sbind_Inr if_not_P [OF c'(1)] if_not_P [OF c'(2)]
    by (rule unit_step) (rule arg_errors)
  have tk: "assertTickRange (oi_tickLower i) (oi_tickUpper i) = Inr ()"
    using o unfolding openRangePosition_def t l z f sbind_Inr if_not_P [OF c'(1)] if_not_P [OF c'(2)]
    by (rule unit_step) (rule arg_errors)
  have args: "open_args i" using z c f tk by (simp add: open_args_def)
  have "resolveRebalancedFrom i t db = Inl (JsError e)"
    using o unfolding open_eq [OF inv t l args c(1) fresh] by (auto simp: sbind_eq_Inl split: if_split_asm)
  then show False using arg_errors(1) unfolding resolve_eq [OF inv]
    by (auto simp: sbind_eq_Inl split: option.splits if_split_asm)
qed

lemma adjust_never:
  assumes inv: "lp_inv db"
  shows "adjustRangePosition i db \<noteq> Inl (JsError e)"
proof
  assume o: "adjustRangePosition i db = Inl (JsError e)"
  obtain t where t: "canonicalTokenId (ji_tokenId i) = Inr t"
    using o arg_errors(1) unfolding adjustRangePosition_def by (auto simp only: sbind_eq_Inl)
  have c: "ji_liquidityDelta i \<noteq> 0" "\<not> adjust_capital i < 0" "\<not> (ji_liquidityDelta i < 0 \<and> adjust_capital i \<noteq> 0)"
    using o unfolding adjustRangePosition_def t sbind_Inr Let_def adjust_capital_def [symmetric] by (auto split: if_split_asm)
  have z: "assertRealized (ji_realized i) (ji_liquidityDelta i < 0) = Inr ()"
    using o unfolding adjustRangePosition_def t sbind_Inr Let_def adjust_capital_def [symmetric]
      if_not_P [OF c(1)] if_not_P [OF c(2)] if_not_P [OF c(3)] by (rule unit_step) (rule arg_errors)
  have args: "adjust_args i" using c z by (auto simp: adjust_args_def assertRealized_def split: if_split_asm)
  show False using o unfolding adjust_eq [OF inv t args] by (auto split: option.splits if_split_asm)
qed

lemma close_never:
  assumes inv: "lp_inv db"
  shows "closeRangePosition i db \<noteq> Inl (JsError e)"
proof
  assume o: "closeRangePosition i db = Inl (JsError e)"
  obtain t where t: "canonicalTokenId (ci_tokenId i) = Inr t"
    using o arg_errors(1) unfolding closeRangePosition_def by (auto simp only: sbind_eq_Inl)
  show False using o adjust_never [OF inv] unfolding close_eq [OF inv t] by (auto split: option.splits if_split_asm)
qed

lemma mark_never: "lp_inv db \<Longrightarrow> markRangePosition m c p s k db \<noteq> Inl (JsError e)"
proof
  assume inv: "lp_inv db" and o: "markRangePosition m c p s k db = Inl (JsError e)"
  obtain t where t: "canonicalTokenId s = Inr t"
    using o arg_errors(1) unfolding markRangePosition_def by (auto simp only: sbind_eq_Inl)
  show False using o unfolding mark_eq(1) [OF inv t] by simp
qed

lemma ranges_read:
  assumes "\<forall>r \<in> set rs. row_wf r"
  shows "map_result toRangePosition rs = Inr (map position_of rs)"
  using assms by (induction rs) (simp_all add: toRangePosition_wf)

lemma list_ranges:
  assumes "lp_inv db"
  shows "listRangePositions db m c = Inr (map position_of (by_opened (filter (\<lambda>r. rn_mode r = m \<and> (c \<or> rn_closedAt r = None)) (ld_ranges db))))"
  unfolding listRangePositions_def using assms by (intro ranges_read) (auto simp: by_opened_def lp_inv_def)

text \<open>C31. The \<open>CHECK\<close>, \<open>UNIQUE\<close> and foreign-key constraints of the range tables, those on the trail and on the rebalance
  rows included, guard what the code already guarantees: whatever a store has gone through and whatever
  it is asked, opening, adjusting, closing or marking a position never fails on one of them (nor on a row that should have
  been there when read back), only with the code's own refusals, and the positions can always be read. The one
  thing relied on is that the random identifier of a new row is new.\<close>

theorem store_checks_never_fire:
  assumes "lp_run db" "\<not> has_range_id db u"
  shows "openRangePosition u oi db \<noteq> Inl (JsError e) \<and> adjustRangePosition ji db \<noteq> Inl (JsError e) \<and>
    closeRangePosition ci db \<noteq> Inl (JsError e) \<and> markRangePosition m c p s k db \<noteq> Inl (JsError e) \<and>
    returns (listRangePositions db m closed)"
proof -
  have inv: "lp_inv db" by (rule run_inv [OF assms(1)])
  show ?thesis by (intro conjI open_never adjust_never close_never mark_never inv assms(2)) (simp add: list_ranges [OF inv])
qed

section \<open>What the risk engine is told\<close>

definition count_val :: "int option \<Rightarrow> int" where
  "count_val x = (case x of None \<Rightarrow> 0 | Some n \<Rightarrow> n)"

lemma snapshot_pools_eq:
  assumes "\<forall>p \<in> set ps. returns (usdToMicros (po_capitalUsd p))"
  shows "\<exists>h' c'. snapshot_pools db m t ps (h, c, cap) = Inr (h', c', cap + (\<Sum>p \<leftarrow> ps. micros_val (po_capitalUsd p))) \<and>
    (\<forall>ch pl. c' (lpPoolKey ch pl) = (if (\<exists>p \<in> set ps. po_chain p = ch \<and> po_poolId p = pl) \<and> 0 < rebalancesToday_of db m ch pl t
       then Some (rebalancesToday_of db m ch pl t) else c (lpPoolKey ch pl)))"
  using assms
proof (induction ps arbitrary: h c cap)
  case (Cons p ps)
  let ?key = "lpPoolKey (po_chain p) (po_poolId p)" and ?n = "rebalancesToday_of db m (po_chain p) (po_poolId p) t"
  obtain basis where b: "usdToMicros (po_capitalUsd p) = Inr basis" using Cons.prems by (auto elim: returnsE)
  have v: "micros_val (po_capitalUsd p) = basis" by (simp add: micros_val_def b)
  have rest: "\<forall>p \<in> set ps. returns (usdToMicros (po_capitalUsd p))" using Cons.prems by simp
  obtain h' c' where s: "snapshot_pools db m t ps (h(?key \<mapsto> (po_lpTokens p, po_capitalUsd p)), if ?n > 0 then c(?key \<mapsto> ?n) else c,
      cap + basis) = Inr (h', c', cap + basis + (\<Sum>p \<leftarrow> ps. micros_val (po_capitalUsd p)))"
    and c': "\<And>ch pl. c' (lpPoolKey ch pl) = (if (\<exists>p \<in> set ps. po_chain p = ch \<and> po_poolId p = pl) \<and> 0 < rebalancesToday_of db m ch pl t
       then Some (rebalancesToday_of db m ch pl t) else (if ?n > 0 then c(?key \<mapsto> ?n) else c) (lpPoolKey ch pl))"
    using Cons.IH [OF rest] by blast
  have "snapshot_pools db m t (p # ps) (h, c, cap) = Inr (h', c', cap + (\<Sum>p \<leftarrow> p # ps. micros_val (po_capitalUsd p)))"
    by (simp add: Let_def b s v)
  moreover have "c' (lpPoolKey ch pl) = (if (\<exists>q \<in> set (p # ps). po_chain q = ch \<and> po_poolId q = pl) \<and> 0 < rebalancesToday_of db m ch pl t
       then Some (rebalancesToday_of db m ch pl t) else c (lpPoolKey ch pl))" for ch pl
    unfolding c' by auto
  ultimately show ?case by blast
qed simp

lemma add_counts:
  "count_val (fold add_count xs c (lpPoolKey ch pl)) =
     count_val (c (lpPoolKey ch pl)) + (\<Sum>x \<leftarrow> filter (\<lambda>x. fst x = (ch, pl)) xs. snd x)"
proof (induction xs arbitrary: c)
  case (Cons x xs)
  obtain d q n where x: "x = ((d, q), n)" by (cases x) auto
  show ?case by (simp add: Cons x) (auto simp: add_count_def count_val_def split: option.split)
qed simp

lemma sum_of_key:
  "distinct ks \<Longrightarrow> (\<Sum>x \<leftarrow> filter (\<lambda>x. fst x = k) (map (\<lambda>k. (k, f k)) ks). snd x) = (if k \<in> set ks then f k else (0 :: int))"
proof (induction ks)
  case (Cons a ks)
  then show ?case by (cases "a = k") (simp_all add: filter_map comp_def filter_id_conv)
qed simp

lemma range_counts:
  "(\<Sum>x \<leftarrow> filter (\<lambda>x. fst x = (ch, pl)) (rangeRebalanceCounts db m t). snd x) = rangeRebalancesToday db m ch pl t"
proof -
  let ?rows = "filter (\<lambda>r. rl_mode r = m \<and> rl_dayStart r = dayStart t) (ld_rangeRebalances db)"
  have "filter (\<lambda>r. (rl_chain r, rl_poolId r) = (ch, pl)) ?rows =
      filter (\<lambda>r. rl_mode r = m \<and> rl_chain r = ch \<and> rl_poolId r = pl \<and> rl_dayStart r = dayStart t) (ld_rangeRebalances db)"
    unfolding filter_filter by (rule filter_cong) auto
  then have n: "int (length (filter (\<lambda>r. (rl_chain r, rl_poolId r) = (ch, pl)) ?rows)) = rangeRebalancesToday db m ch pl t"
    by (simp only: rangeRebalancesToday_def)
  have "filter (\<lambda>r. (rl_chain r, rl_poolId r) = (ch, pl)) ?rows = []" if "(ch, pl) \<notin> set (map (\<lambda>r. (rl_chain r, rl_poolId r)) ?rows)"
    using that by (auto simp: filter_empty_conv)
  then show ?thesis unfolding rangeRebalanceCounts_def Let_def sum_of_key [OF distinct_remdups] set_remdups
    using n by auto
qed

lemma sum_sorted: "(\<Sum>x \<leftarrow> sort_key f xs. g x) = (\<Sum>x \<leftarrow> xs. (g x :: int))"
  by (metis mset_map mset_sort sum_mset_sum_list)

lemma sum_open:
  assumes "\<forall>r \<in> set rs. row_wf r"
  shows "(\<Sum>r \<leftarrow> filter (\<lambda>r. P r \<and> rn_closedAt r = None) rs. row_capital r) = (\<Sum>r \<leftarrow> filter P rs. row_capital r)"
  using assms
proof (induction rs)
  case (Cons r rs)
  have "rn_closedAt r \<noteq> None \<Longrightarrow> row_capital r = 0" using wf_closed [of r] Cons.prems unfolding row_wf_def by auto
  then show ?case using Cons by auto
qed simp

text \<open>How the counters follow what was asked for.\<close>

lemma day_same: "dayStart a = dayStart b \<longleftrightarrow> a div 86400000 = b div 86400000"
  by (simp add: dayStart_def DAY_MS_def)

definition replaced_on :: "mode \<Rightarrow> chain_id \<Rightarrow> string \<Rightarrow> int \<Rightarrow> lp_label \<Rightarrow> bool" where
  "replaced_on m c pl day ev = (case ev of
     Mv_replaced m' c' pl' at' \<Rightarrow> m' = m \<and> c' = c \<and> pl' = pl \<and> at' div 86400000 = day | _ \<Rightarrow> False)"

definition rebalanced_on :: "mode \<Rightarrow> chain_id \<Rightarrow> string \<Rightarrow> int \<Rightarrow> lp_label \<Rightarrow> bool" where
  "rebalanced_on m c pl day ev = (case ev of
     Mv_rebalanced m' c' pl' at' \<Rightarrow> m' = m \<and> c' = c \<and> pl' = pl \<and> at' div 86400000 = day | _ \<Rightarrow> False)"

definition counts_as :: "lp_db \<Rightarrow> lp_label \<Rightarrow> lp_db \<Rightarrow> bool" where
  "counts_as db ev db' \<longleftrightarrow> (\<forall>m c pl t.
     rangeRebalancesToday db' m c pl t = rangeRebalancesToday db m c pl t + (if replaced_on m c pl (t div 86400000) ev then 1 else 0) \<and>
     rebalancesToday_of db' m c pl t = rebalancesToday_of db m c pl t + (if rebalanced_on m c pl (t div 86400000) ev then 1 else 0))"

lemma counts_quiet:
  assumes "ld_rangeRebalances db' = ld_rangeRebalances db" "ld_rebalances db' = ld_rebalances db"
  shows "counts_as db Mv_quiet db'"
  by (simp add: counts_as_def rangeRebalancesToday_def rebalancesToday_of_def replaced_on_def rebalanced_on_def assms)

lemma add_rebalances:
  assumes "bookAdd u i db = Inr (db', p)" "lp_inv db"
  shows "ld_rebalances db' = (if bi_rebalance i
    then ld_rebalances (countRebalance (bi_mode i) (bi_chain i) (bi_poolId i) (bi_at i) db) else ld_rebalances db)"
proof -
  obtain added db1 where w: "bookAdd_write u i added db = Inr db1"
    and d: "db' = (if bi_rebalance i then countRebalance (bi_mode i) (bi_chain i) (bi_poolId i) (bi_at i) db1 else db1)"
    using assms(1) by (auto simp: bookAdd_def Let_def sbind_eq_Inr split: if_split_asm)
  have "ld_rebalances db1 = ld_rebalances db" using add_write_keeps [OF w inv_pool_parts(2) [OF assms(2)]] by blast
  then show ?thesis by (simp add: d countRebalance_def)
qed

lemma counts_add:
  assumes "bookAdd u i db = Inr (db', p)" "lp_inv db"
  shows "counts_as db (add_label i) db'"
proof -
  note r = add_rebalances [OF assms]
  have g: "ld_rangeRebalances db' = ld_rangeRebalances db" using add_keeps(3) [OF assms(1) inv_pool_parts [OF assms(2)]] .
  show ?thesis
  proof (cases "bi_rebalance i")
    case True
    have "rebalancesToday_of db' m c pl t = rebalancesToday_of db m c pl t +
        (if rebalanced_on m c pl (t div 86400000) (add_label i) then 1 else 0)" for m c pl t
      using True day_same [of t "bi_at i"]
      by (auto simp: rebalancesToday_of_def r countRebalance_def add_label_def rebalanced_on_def split: option.split)
    then show ?thesis using True g by (simp add: counts_as_def rangeRebalancesToday_def replaced_on_def add_label_def)
  next
    case False
    then show ?thesis using counts_quiet [OF g] r by (simp add: add_label_def)
  qed
qed

lemma counts_open:
  assumes "openRangePosition u i db = Inr (db', p)" "lp_inv db"
  shows "counts_as db (open_label i) db'"
proof -
  obtain t liq and replaced :: "range_position option" where r: "resolveRebalancedFrom i t db = Inr replaced"
    and d: "db' = opened_db u i t liq (map_option rc_row replaced) db"
    by (rule open_parts [OF assms(2,1)])
  have l: "open_label i = (if replaced = None then Mv_quiet else Mv_replaced (oi_mode i) (oi_chain i) (oi_poolId i) (oi_at i))"
    using r by (auto simp: open_label_def resolveRebalancedFrom_def sbind_eq_Inr split: option.splits if_split_asm)
  show ?thesis
  proof (cases replaced)
    case None
    then show ?thesis using counts_quiet [of db' db] by (simp add: l d)
  next
    case (Some q)
    let ?row = "rebalance_row (opened_row u t liq i) (rc_row q) (oi_at i)"
    have row: "rl_mode ?row = oi_mode i" "rl_chain ?row = oi_chain i" "rl_poolId ?row = oi_poolId i" "rl_dayStart ?row = dayStart (oi_at i)"
      by (simp_all add: rebalance_row_def)
    have "ld_rangeRebalances db' = ld_rangeRebalances db @ [?row]" "ld_rebalances db' = ld_rebalances db" by (simp_all add: d Some)
    then show ?thesis using row day_same
      by (auto simp: counts_as_def rangeRebalancesToday_def rebalancesToday_of_def replaced_on_def rebalanced_on_def l Some)
  qed
qed

lemma counts_adjust:
  assumes "adjustRangePosition i db = Inr (db', r)" "lp_inv db"
  shows "counts_as db Mv_quiet db'"
proof -
  obtain t x where "db' = adjusted_db i t x db" by (rule adjust_parts [OF assms(2,1)])
  then show ?thesis by (intro counts_quiet) (simp_all add: adjusted_db_def)
qed

lemma counts_move:
  assumes "lp_move db ev db'" "lp_inv db"
  shows "counts_as db ev db'"
  using assms(1)
proof cases
  case (st_add u i p)
  show ?thesis unfolding st_add(1) by (rule counts_add [OF st_add(2) assms(2)])
next
  case (st_remove k n at' r)
  note kept = remove_keeps [OF st_remove(2) inv_pool_parts(2) [OF assms(2)]]
  show ?thesis unfolding st_remove(1) by (rule counts_quiet) (fact kept)+
next
  case (st_open u oi rp)
  show ?thesis unfolding st_open(1) by (rule counts_open [OF st_open(2) assms(2)])
next
  case (st_adjust ji jr)
  show ?thesis unfolding st_adjust(1) by (rule counts_adjust [OF st_adjust(2) assms(2)])
next
  case (st_close ci jr)
  obtain t where "canonicalTokenId (ci_tokenId ci) = Inr t" using st_close(2) by (auto simp: closeRangePosition_def sbind_eq_Inr)
  then obtain j where j: "adjustRangePosition j db = Inr (db', jr)"
    using st_close(2) close_eq [OF assms(2)] by (auto split: option.splits if_split_asm)
  show ?thesis unfolding st_close(1) by (rule counts_adjust [OF j assms(2)])
next
  case (st_mark md c p tokenId rm)
  obtain t where t: "canonicalTokenId tokenId = Inr t" using st_mark(2) by (auto simp: markRangePosition_def sbind_eq_Inr)
  show ?thesis using st_mark(2) unfolding st_mark(1) mark_eq(1) [OF assms(2) t] by (intro counts_quiet) auto
next
  case (st_claim k at')
  show ?thesis unfolding st_claim touchClaim_def by (rule counts_quiet) simp_all
next
  case (st_mark_pool k m)
  show ?thesis unfolding st_mark_pool mark_pool_def by (rule counts_quiet) simp_all
qed (simp only:, rule counts_quiet; simp add: recordPnl_def Let_def recordAction_def ensureSchedulerRow_def setScheduler_def
    disableScheduler_def recordCycle_def split: option.splits)+

lemma counts_log:
  assumes "lp_log evs db"
  shows "rangeRebalancesToday db m c pl t = int (length (filter (replaced_on m c pl (t div 86400000)) evs))"
    "rebalancesToday_of db m c pl t = int (length (filter (rebalanced_on m c pl (t div 86400000)) evs))"
proof -
  have "rangeRebalancesToday db m c pl t = int (length (filter (replaced_on m c pl (t div 86400000)) evs)) \<and>
      rebalancesToday_of db m c pl t = int (length (filter (rebalanced_on m c pl (t div 86400000)) evs))"
    using assms
  proof (induction rule: lp_log.induct)
    case log_empty
    show ?case by (simp add: rangeRebalancesToday_def rebalancesToday_of_def empty_lp_def)
  next
    case (log_move evs db ev db')
    have "counts_as db ev db'" using counts_move [OF log_move(2)] run_inv [OF log_run [OF log_move(1)]] by blast
    then show ?case using log_move(3) by (simp add: counts_as_def)
  qed
  then show "rangeRebalancesToday db m c pl t = int (length (filter (replaced_on m c pl (t div 86400000)) evs))"
    "rebalancesToday_of db m c pl t = int (length (filter (rebalanced_on m c pl (t div 86400000)) evs))" by blast+
qed

text \<open>C30. What the risk engine is told about liquidity. The snapshot is always built. Its deployed figure is the cost basis of
  every position of the mode, the ones in pools and the ones in ranges, the closed ones adding nothing. Its count of today's
  rebalances of a pool is, in whatever order the operations came, the number of mints into it, in that mode and on the same UTC day
  as the question, that were asked to replace a position in a range, each counted once and at the time of the mint, and the number
  of additions to the pool on that day that were asked for as part of a rebalance, but these only while a position in the
  pool is held: they are forgotten when the position is removed.\<close>

theorem snapshot_counts:
  assumes "lp_log evs db"
  shows "\<exists>s. toRiskSnapshot db m t = Inr s \<and>
    usdToMicros (lps_deployedUsd s) = Inr ((\<Sum>p \<leftarrow> filter (\<lambda>p. po_mode p = m) (ld_pools db). micros_val (po_capitalUsd p)) +
      (\<Sum>r \<leftarrow> filter (\<lambda>r. rn_mode r = m) (ld_ranges db). row_capital r)) \<and>
    (\<forall>ch pl. count_val (rebalancesToday s (lpPoolKey ch pl)) =
      int (length (filter (replaced_on m ch pl (t div 86400000)) evs)) +
      (if \<exists>p \<in> set (ld_pools db). po_mode p = m \<and> po_chain p = ch \<and> po_poolId p = pl
       then int (length (filter (rebalanced_on m ch pl (t div 86400000)) evs)) else 0))"
proof -
  have inv: "lp_inv db" by (rule run_inv [OF log_run [OF assms]])
  have wf: "\<forall>r \<in> set (ld_ranges db). row_wf r" using inv unfolding lp_inv_def by blast
  have pools: "\<forall>p \<in> set (listPools db m). returns (usdToMicros (po_capitalUsd p))"
    using inv_pool_parts(2) [OF inv] by (simp add: listPools_def)
  obtain h c where s: "snapshot_pools db m t (listPools db m) (Map.empty, Map.empty, 0) =
      Inr (h, c, 0 + (\<Sum>p \<leftarrow> listPools db m. micros_val (po_capitalUsd p)))"
    and c: "\<And>ch pl. c (lpPoolKey ch pl) = (if (\<exists>p \<in> set (listPools db m). po_chain p = ch \<and> po_poolId p = pl) \<and>
       0 < rebalancesToday_of db m ch pl t then Some (rebalancesToday_of db m ch pl t) else Map.empty (lpPoolKey ch pl))"
    using snapshot_pools_eq [OF pools, of db m t Map.empty Map.empty 0] by blast
  have nonneg: "0 \<le> rebalancesToday_of db m ch pl t" for ch pl
    using inv_pool_parts(1) [OF inv] by (auto simp: rebalancesToday_of_def less_imp_le split: option.split)
  have ranges: "(\<Sum>x \<leftarrow> map position_of (by_opened (filter (\<lambda>r. rn_mode r = m \<and> (False \<or> rn_closedAt r = None)) (ld_ranges db))). rc_capitalUsd x) =
      (\<Sum>r \<leftarrow> filter (\<lambda>r. rn_mode r = m) (ld_ranges db). row_capital r)"
    using sum_open [OF wf, of "\<lambda>r. rn_mode r = m"] by (simp add: by_opened_def comp_def position_of_def sum_sorted)
  let ?s = "\<lparr>lps_deployedUsd = microsToUsd ((\<Sum>p \<leftarrow> listPools db m. micros_val (po_capitalUsd p)) +
      (\<Sum>r \<leftarrow> filter (\<lambda>r. rn_mode r = m) (ld_ranges db). row_capital r)),
      rebalancesToday = fold add_count (rangeRebalanceCounts db m t) c, lp_positions = h\<rparr>"
  have "toRiskSnapshot db m t = Inr ?s"
    unfolding toRiskSnapshot_def s list_ranges [OF inv] sbind_Inr prod.case ranges by simp
  moreover have "usdToMicros (lps_deployedUsd ?s) = Inr ((\<Sum>p \<leftarrow> filter (\<lambda>p. po_mode p = m) (ld_pools db). micros_val (po_capitalUsd p)) +
      (\<Sum>r \<leftarrow> filter (\<lambda>r. rn_mode r = m) (ld_ranges db). row_capital r))"
    by (simp add: listPools_def sum_sorted)
  moreover have "count_val (rebalancesToday ?s (lpPoolKey ch pl)) = rangeRebalancesToday db m ch pl t +
      (if \<exists>p \<in> set (ld_pools db). po_mode p = m \<and> po_chain p = ch \<and> po_poolId p = pl then rebalancesToday_of db m ch pl t else 0)" for ch pl
  proof -
    have "count_val (c (lpPoolKey ch pl)) =
        (if \<exists>p \<in> set (ld_pools db). po_mode p = m \<and> po_chain p = ch \<and> po_poolId p = pl then rebalancesToday_of db m ch pl t else 0)"
      unfolding c using nonneg [of ch pl] by (auto simp: count_val_def listPools_def)
    then show ?thesis by (simp add: add_counts range_counts)
  qed
  ultimately show ?thesis unfolding counts_log [OF assms] by blast
qed

end
