(* ===== verification/Lp_Fixtures.thy ===== *)
theory Lp_Fixtures
  imports Lp_Runs
begin

text \<open>A small history of the liquidity store, in which the properties of \<open>Lp_Runs\<close> apply.\<close>

definition no_proceeds :: realized_input where
  "no_proceeds = \<lparr>zi_tradeId = None, zi_proceedsUsd = 0, zi_feeUsd = 20, zi_simulated = True\<rparr>"

definition sample_pool_add :: book_add_input where
  "sample_pool_add = \<lparr>bi_mode = PAPER, bi_chain = Base, bi_protocol = ''v2'', bi_poolId = ''pool'',
     bi_token0 = \<lparr>tr_address = ''a'', tr_decimals = 6\<rparr>, bi_token1 = \<lparr>tr_address = ''b'', tr_decimals = 18\<rparr>,
     bi_lpTokens = ''10'', bi_amount0 = ''4'', bi_amount1 = ''5'', bi_capitalUsd = ''2.5'', bi_at = 1000, bi_rebalance = True\<rparr>"

definition sample_open :: "string \<Rightarrow> string option \<Rightarrow> open_range_input" where
  "sample_open t from = \<lparr>oi_mode = PAPER, oi_chain = Base, oi_protocol = ''v3'', oi_poolId = ''pool'', oi_tokenId = t,
     oi_token0 = \<lparr>tr_address = ''a'', tr_decimals = 6\<rparr>, oi_token1 = \<lparr>tr_address = ''b'', tr_decimals = 18\<rparr>,
     oi_feePips = 3000, oi_tickLower = - 60, oi_tickUpper = 60, oi_liquidity = ''7'', oi_capitalUsd = 10, oi_rebalancedFrom = from,
     oi_realized = no_proceeds, oi_at = 2000\<rparr>"

definition sample_burn :: adjust_range_input where
  "sample_burn = \<lparr>ji_mode = PAPER, ji_chain = Base, ji_protocol = ''v3'', ji_tokenId = ''5'', ji_liquidityDelta = - 3,
     ji_capitalUsd = None, ji_realized = \<lparr>zi_tradeId = None, zi_proceedsUsd = 4, zi_feeUsd = 1, zi_simulated = True\<rparr>, ji_at = 3000\<rparr>"

definition lp1 :: lp_db where "lp1 = fst (projr (bookAdd ''p'' sample_pool_add empty_lp))"
definition lp2 :: lp_db where "lp2 = fst (projr (openRangePosition ''r1'' (sample_open ''5'' None) lp1))"
definition lp3 :: lp_db where "lp3 = fst (projr (adjustRangePosition sample_burn lp2))"
definition lp4 :: lp_db where "lp4 = fst (projr (openRangePosition ''r2'' (sample_open ''6'' (Some ''5'')) lp2))"

lemma take_result: "returns x \<Longrightarrow> x = Inr (fst (projr x), snd (projr x))"
  by (cases x) simp_all

lemma returns_lp1: "returns (bookAdd ''p'' sample_pool_add empty_lp)"
  by code_simp

lemma returns_lp2: "returns (openRangePosition ''r1'' (sample_open ''5'' None) lp1)"
  by code_simp

lemma returns_lp3: "returns (adjustRangePosition sample_burn lp2)"
  by code_simp

lemma returns_lp4: "returns (openRangePosition ''r2'' (sample_open ''6'' (Some ''5'')) lp2)"
  by code_simp

lemmas samples_return = returns_lp1 returns_lp2 returns_lp3 returns_lp4

definition sample_log :: "lp_label list" where
  "sample_log = [Mv_rebalanced PAPER Base ''pool'' 1000, Mv_quiet, Mv_replaced PAPER Base ''pool'' 2000]"

lemma sample_labels: "add_label sample_pool_add = Mv_rebalanced PAPER Base ''pool'' 1000" "open_label (sample_open ''5'' None) = Mv_quiet"
  "open_label (sample_open ''6'' (Some ''5'')) = Mv_replaced PAPER Base ''pool'' 2000"
  by (simp_all add: add_label_def open_label_def sample_pool_add_def sample_open_def)

lemma lp_sample_log: "lp_log (take 1 sample_log) lp1" "lp_log (take 2 sample_log) lp2" "lp_log sample_log lp4"
  "lp_log (take 2 sample_log @ [Mv_quiet]) lp3"
proof -
  show 1: "lp_log (take 1 sample_log) lp1"
    using log_move [OF log_empty st_add [OF take_result [OF samples_return(1)]]]
    by (simp add: lp1_def sample_log_def sample_labels)
  show 2: "lp_log (take 2 sample_log) lp2"
    using log_move [OF 1 st_open [OF take_result [OF samples_return(2)]]]
    by (simp add: lp2_def sample_log_def sample_labels)
  show "lp_log sample_log lp4"
    using log_move [OF 2 st_open [OF take_result [OF samples_return(4)]]]
    by (simp add: lp4_def sample_log_def sample_labels)
  show "lp_log (take 2 sample_log @ [Mv_quiet]) lp3"
    unfolding lp3_def by (rule log_move [OF 2 st_adjust [OF take_result [OF samples_return(3)]]])
qed

lemmas lp_sample_run = lp_sample_log [THEN log_run]

lemma sample_rows: "map (\<lambda>r. (row_liquidity r, row_capital r)) (ld_ranges lp3) = [(4, 5)]"
  by code_simp

lemma sample_released: "jr_costReleasedUsd (snd (projr (adjustRangePosition sample_burn lp2))) = 5"
  by code_simp

lemma sample_held: "\<exists>p \<in> set (ld_pools lp4). po_mode p = PAPER \<and> po_chain p = Base \<and> po_poolId p = ''pool''"
  by code_simp

lemma sample_fresh: "\<not> has_range_id lp4 ''r3''"
  by code_simp

theorem range_trail_witness:
  "\<exists>r \<in> set (ld_ranges lp3). row_liquidity r = 4 \<and> row_capital r = 5 \<and>
     (\<Sum>e \<leftarrow> trail lp3 (range_key r). signed_val (rv_liquidityDelta e)) = 4 \<and> rn_closedAt r = None"
proof -
  obtain r where r: "ld_ranges lp3 = [r]" "row_liquidity r = 4" "row_capital r = 5" using sample_rows by (cases "ld_ranges lp3") auto
  then have "r \<in> set (ld_ranges lp3)" by simp
  then show ?thesis using range_trail [OF lp_sample_run(4), of r] r by (intro bexI [of _ r]) auto
qed

theorem range_adjust_spec_witness:
  "\<exists>r r'. findRange lp2 (PAPER, Base, ''v3'', ''5'') = Some r \<and> findRange lp3 (PAPER, Base, ''v3'', ''5'') = Some r' \<and>
     row_liquidity r' = row_liquidity r - 3 \<and> row_capital r' = row_capital r - 5"
proof -
  have k: "(PAPER, Base, ''v3'', ''5'') = (ji_mode sample_burn, ji_chain sample_burn, ji_protocol sample_burn, ji_tokenId sample_burn)"
    by (simp add: sample_burn_def)
  have i: "ji_liquidityDelta sample_burn = - 3" "adjust_capital sample_burn = 0" by (simp_all add: sample_burn_def adjust_capital_def)
  from range_adjust_spec [OF lp_sample_run(2) take_result [OF samples_return(3)] k, folded lp3_def] sample_released i show ?thesis
    by (elim exE conjE) (intro exI conjI, assumption+, simp_all)
qed

theorem store_checks_never_fire_witness:
  "openRangePosition ''r3'' (sample_open ''5'' None) lp4 \<noteq> Inl (JsError ''x'') \<and> returns (listRangePositions lp4 PAPER True)"
  using store_checks_never_fire [OF lp_sample_run(3) sample_fresh] by blast

theorem snapshot_counts_witness:
  "\<exists>s. toRiskSnapshot lp4 PAPER 5000 = Inr s \<and> count_val (rebalancesToday s (lpPoolKey Base ''pool'')) = 2"
proof -
  have "length (filter (replaced_on PAPER Base ''pool'' 0) sample_log) = 1" "length (filter (rebalanced_on PAPER Base ''pool'' 0) sample_log) = 1"
    by (simp_all add: sample_log_def replaced_on_def rebalanced_on_def)
  then show ?thesis using sample_held snapshot_counts [OF lp_sample_log(3), of PAPER 5000] by auto
qed

end
