(* ===== verification/Spec2Isabelle.thy ===== *)
theory Spec2Isabelle
  imports Range_Props Withdraw_Fixtures Ledger_Props Risk_Properties Gate_Fixtures Treasury_Fixtures Solana_Props Booking_Fixtures
    Lp_Fixtures
begin

text \<open>
  ATRA is an agent runtime that proposes swaps, liquidity changes and payments, and executes them only when a
  deterministic risk engine allows them. This library models that core, \<open>src/runtime/src\<close>, and proves what it
  promises. This theory imports all others; each property stands in the theory named with it, after a block that states it.

  How the program works, and where it is modelled. An agent's report becomes a proposed action; the gate hands the action,
  the policy, the switches, a market snapshot and the ledger's figures to the engine; an allowed action becomes a trade,
  which an executor fills on paper or builds, checks, signs and sends; what was filled is booked in the ledger, from
  which the engine's next input is made. Beside this path are the operator's controls (switches, sign-in), the
  treasury, withdrawals, and the books of the liquidity positions.

  Foundations.
  \<^item> \<open>Atra_Prelude\<close>: the error taxonomy (\<open>util/errors.ts\<close>), results as a sum, JavaScript's decimal strings and
    truncating division. \<open>Table\<close>: three locales, each extending the one before, for a table with a unique key; every
    store interprets them. \<open>Calendar\<close>: UTC days and months.
  \<^item> \<open>Money\<close> (\<open>risk/money.ts\<close>), \<open>Registry\<close> (\<open>chains/registry.ts\<close>): fixed-scale arithmetic with its directed
    roundings and round trips, chains and tokens.

  Deciding.
  \<^item> \<open>Risk_Policy\<close>, \<open>Risk_Types\<close>, \<open>Risk_Engine\<close> (\<open>risk/policy.ts\<close>, \<open>types.ts\<close>, \<open>engine.ts\<close>): limits, the action schema
    and \<open>evaluate\<close>, one definition per check, in the order of the code. \<open>Risk_Engine_Props\<close> turns an allowed run into the
    inequality of each check, \<open>Risk_Safety\<close> groups them by section, \<open>Risk_Properties\<close> holds the properties and
    \<open>Risk_Fixtures\<close> the inputs their witnesses run on.
  \<^item> \<open>Audit_Log\<close> (\<open>audit/audit.ts\<close>), \<open>State_Store\<close> (\<open>core/state.ts\<close>), \<open>Auth\<close> (\<open>core/auth.ts\<close>): the trail, pause, emergency
    stop and LIVE activation, sign-in and re-authentication. \<open>State_Props\<close> and \<open>Auth_Props\<close> are about every interleaving of
    their operations, restarts included.
  \<^item> \<open>Risk_Gate\<close> (\<open>risk/store.ts\<close>, \<open>risk/gate.ts\<close>): stored policy, decisions, idempotency, cooldowns. \<open>Gate_Props\<close>,
    \<open>Gate_Fixtures\<close>: one allowed decision per intent, and LIVE only when earned, over a machine with all of the above.

  Booking and executing.
  \<^item> \<open>Ledger\<close> (\<open>trading/ledger.ts\<close>): positions, fills, paper balances, P&L. \<open>Ledger_Props\<close> has its invariant and the
    refinement of a fill to a portfolio of amounts and costs.
  \<^item> \<open>Trades\<close> (\<open>trading/trades.ts\<close>), \<open>Trader\<close> (\<open>agents/trader/agent.ts\<close>, \<open>trading/proposal.ts\<close>), \<open>Pipeline\<close>
    (\<open>trading/pipeline.ts\<close>), \<open>Paper_Executor\<close>, \<open>Live_Executor\<close> (\<open>execution/\<close>), \<open>Solana_Message\<close>
    (\<open>execution/solana/signer.ts\<close>, \<open>wallet/solana.ts\<close>): one cycle from the report to the booked fill. \<open>Trade_Props\<close> has the life
    cycle of a trade (a locale, interpreted on the transition table), \<open>Trader_Props\<close> what a built proposal is, \<open>Exec_Props\<close> the
    machine that interleaves cycles, the gate, operators, reconciliation and crashes, \<open>Exec_Safety\<close> its invariant and
    what may be signed, \<open>Exec_Booking\<close> what is booked. That a segment used the key is read off its definition: its outcome
    depends on the answer of the vault, which the executor asks only once every check before signing has passed. \<open>Solana_Props\<close> reads back the output of a reference serializer.
    \<open>Exec_Fixtures\<close> and \<open>Booking_Fixtures\<close> are concrete runs.

  Liquidity.
  \<^item> \<open>Tick_Math\<close>, \<open>Range_Plan\<close> (\<open>liquidity/evm/tick-math.ts\<close>, \<open>range-plan.ts\<close>): price ladder, amounts of a position, widths,
    the planner. \<open>Tick_Props\<close> and \<open>Range_Props\<close>: the tables are monotone and stay inside their words, amounts are exact
    quotients rounded once, the search is right and ends, a plan never costs more than its capital.
  \<^item> \<open>Lp_Store\<close> (\<open>liquidity/store.ts\<close>): the books of pool and range positions. \<open>Lp_Props\<close> gives opening and adjusting on
    every branch and the invariant that ties a position to its trail; \<open>Lp_Runs\<close> the runs, labelled with what was asked
    of the store, the properties, and what of it reaches the ledger and the engine; \<open>Lp_Fixtures\<close> a history.

  Payments.
  \<^item> \<open>Treasury_Caps\<close>, \<open>Treasury_Burn\<close>, \<open>Treasury_Store\<close>, \<open>Treasury_Service\<close>, \<open>Treasury_Admin\<close> (\<open>treasury/\<close>,
    \<open>agents/treasury/agent.ts\<close>): caps, burn rate, proposals, approvals, exports, freeze, the second secret. \<open>Treasury_Props\<close> and
    \<open>Treasury_Fixtures\<close>: the caps, the freeze and the rights of the agent over every interleaving.
  \<^item> \<open>Withdrawals\<close> (\<open>wallet/withdrawal.ts\<close>): quotes, executions, refreshes. \<open>Withdraw_Props\<close>, \<open>Withdraw_Safety\<close>: at most one
    signature per quote and per row, whatever interleaves; \<open>Withdraw_Quote\<close>: what a quote shows is what is prepared;
    \<open>Withdraw_Fixtures\<close>: a run.
\<close>

text \<open>
  Conventions. A function that can throw returns \<open>app_error + 'a\<close>; one that writes before it throws returns the database and
  the result. A transaction that throws leaves the database as it was. A JavaScript number or bigint is an \<open>int\<close>, with
  \<open>bdiv\<close> and \<open>bmod\<close> truncating as the language does; a machine word appears where the code masks or shifts one
  (the tick tables, the bytes of a message). Times are milliseconds since the epoch; ISO strings are their times. The
  clock, random identifiers and the answers of collaborators (adapters, key derivation, hashing, checksums, the model) are
  arguments, so that a property holds for every answer. A function that awaits is cut at each await into segments over an
  explicit stage, and the machines (inductive relations) interleave segments with everything else that may run between
  them; a crash drops the stage and keeps the database. No definition uses fuel: loops are structural recursions or have a
  measure (the interval of the width search, the bit of the logarithm), and polling is a step per answer with the
  code's own deadline, so the theorems that something returns are about the definitions themselves.

  The findings of the manifest that a theorem proves: a crash inside the booking of a fill books it twice
  (\<open>Exec_Booking\<close>); a withdrawal whose broadcast raised is failed for good, and asking for all of an unread token gives a
  quote that can be submitted (\<open>Withdraw_Safety\<close>, \<open>Withdraw_Quote\<close>); the count of a pool's rebalances is forgotten
  when its position is emptied (\<open>Lp_Runs\<close>). Where a comment or a document says otherwise than the code: the exposure a
  swap may reach counts the capital in pools only when the snapshot carries it (\<open>Risk_Properties\<close>), and a withdrawal's
  key is honoured without an end, not for 24 hours (\<open>Withdraw_Safety\<close>).

  Not modelled. Protocol and chain adapters, market providers, the vault's key files and the language model are I/O
  around the arguments above. Telegram, the HTTP routes, the gateway's workers, configuration, logging, process wiring and the
  dashboard carry text and requests to the operations modelled here. Of the liquidity side, the agent, the cycle, the
  paper and live executors, the scheduler and the readers of pool contracts are left out; the constant field
  \<open>inspectOnly\<close> of a range plan too. Of the SQL schema, the columns the modelled stores use are in their row records, an enumerated
  column as a datatype; the unique keys, the check on the treasury's periods, and the action check and foreign keys of the
  range tables are branches of the statements that can break them; triggers are modelled for the treasury only, where the
  code relies on them. Log lines, redacted audit details
  and the wording of most messages are left out.
\<close>

end
